(* ===== verification/Prelude.thy ===== *)
theory Prelude
  imports Main "HOL-Library.Word"
begin

text \<open>
  What every theory of the development shares: the machine integer types of
  \<^verbatim>\<open>oscl_types.h\<close>, the fault type of the model, the bind of the result type, and
  generic lemmas on lists and words.

  A C++ execution step that would dereference a null pointer, read an object through a
  pointer of another structure type, or run past an array is not a value in C++. Here it
  is the left summand of the result type, so a theorem that a step returns \<open>Inr\<close> says
  that none of these happens.
\<close>

unbundle bit_operations_syntax

section \<open>Machine integers\<close>

type_synonym u8 = "8 word"
type_synonym u16 = "16 word"
type_synonym u32 = "32 word"
type_synonym s32 = "32 word" \<comment> \<open>an \<^verbatim>\<open>int32\<close>, read with \<open>sint\<close>\<close>

section \<open>Faults and results\<close>

datatype se_fault =
    NullDeref      \<comment> \<open>a null pointer is dereferenced\<close>
  | BadCast        \<comment> \<open>a parameter block is read as another structure\<close>
  | BufferOverrun  \<comment> \<open>a copy runs past the end of a fixed array\<close>

type_synonym 'a res = "se_fault + 'a"

definition bind_res :: "'e + 'a \<Rightarrow> ('a \<Rightarrow> 'e + 'b) \<Rightarrow> 'e + 'b" where
  "bind_res m f = (case m of Inl e \<Rightarrow> Inl e | Inr x \<Rightarrow> f x)"

lemma bind_res_simps [simp]:
  "bind_res (Inl e) f = Inl e"
  "bind_res (Inr x) f = f x"
  by (simp_all add: bind_res_def)

lemma bind_res_Inr_iff:
  "bind_res m f = Inr y \<longleftrightarrow> (\<exists>x. m = Inr x \<and> f x = Inr y)"
  by (cases m) simp_all

definition returns :: "'e + 'a \<Rightarrow> bool" where
  "returns r = (case r of Inl _ \<Rightarrow> False | Inr _ \<Rightarrow> True)"

lemma returns_simps [simp]:
  "returns (Inr x)"
  "\<not> returns (Inl e)"
  by (simp_all add: returns_def)

lemma returns_iff: "returns r \<longleftrightarrow> (\<exists>x. r = Inr x)"
  by (cases r) simp_all

lemma returns_bind_res:
  "returns (bind_res m f) \<longleftrightarrow> (\<exists>x. m = Inr x \<and> returns (f x))"
  by (cases m) simp_all

section \<open>Lists\<close>

lemma list_update_take_drop:
  "i < length xs \<Longrightarrow> xs[i := y] = take i xs @ y # drop (Suc i) xs"
  by (rule upd_conv_take_nth_drop)

lemma length_filter_split:
  "length (filter P xs) + length (filter (\<lambda>x. \<not> P x) xs) = length xs"
  by (induction xs) simp_all

text \<open>The first position of a list whose element satisfies a test, as the iterator loops
  of the sources look for it.\<close>

fun find_index :: "('a \<Rightarrow> bool) \<Rightarrow> 'a list \<Rightarrow> nat option" where
  "find_index P [] = None"
| "find_index P (x # xs) = (if P x then Some 0 else map_option Suc (find_index P xs))"

lemma find_index_None: "find_index P xs = None \<longleftrightarrow> (\<forall>x \<in> set xs. \<not> P x)"
  by (induction xs) simp_all

lemma find_index_Some:
  "find_index P xs = Some i \<Longrightarrow> i < length xs \<and> P (xs ! i) \<and> (\<forall>j < i. \<not> P (xs ! j))"
proof (induction xs arbitrary: i)
  case Nil
  then show ?case by simp
next
  case (Cons x xs)
  show ?case
  proof (cases "P x")
    case True
    with Cons.prems show ?thesis by simp
  next
    case False
    with Cons.prems obtain k where k: "find_index P xs = Some k" and i: "i = Suc k"
      by auto
    from Cons.IH [OF k] i False show ?thesis
      by (auto simp: nth_Cons split: nat.splits)
  qed
qed

lemma find_index_append:
  "find_index P (xs @ ys) =
     (case find_index P xs of Some i \<Rightarrow> Some i
      | None \<Rightarrow> map_option (\<lambda>i. i + length xs) (find_index P ys))"
  by (induction xs) (auto simp: option.map_comp comp_def option.map_ident split: option.splits)

lemma find_index_cong_update:
  "(P y \<longleftrightarrow> P (xs ! i)) \<Longrightarrow> find_index P (xs[i := y]) = find_index P xs"
proof (induction xs arbitrary: i)
  case Nil
  then show ?case by simp
next
  case (Cons x xs)
  then show ?case by (cases i) auto
qed

section \<open>Words\<close>

lemma mask16_u32: "(0xFFFF :: u32) = mask 16"
  by (simp add: mask_eq_exp_minus_1)

lemma ucast_u16_roundtrip [simp]: "(ucast (ucast (a::u16) :: u32) :: u16) = a"
  by (rule bit_word_eqI) (simp add: bit_simps)

lemma ucast_u16_u32_inject [simp]:
  "(ucast (a::u16) :: u32) = ucast b \<longleftrightarrow> a = b"
  by (metis ucast_u16_roundtrip)

lemma low16_ucast: "(x::u32) AND 0xFFFF = ucast (ucast x :: u16)"
  unfolding mask16_u32 by (rule bit_word_eqI) (auto simp: bit_simps)

lemma low16_id: "(x::u32) < 0x10000 \<Longrightarrow> x AND 0xFFFF = x"
  unfolding mask16_u32 by (rule less_mask_eq) simp

lemma low16_less: "(x::u32) AND 0xFFFF < 0x10000"
  by (simp add: word_and_le1 order_le_less_trans [of _ "0xFFFF"])

end
