(* ===== verification/Oscl_Timer.thy ===== *)
theory Oscl_Timer
  imports Prelude
begin

text \<open>
  The timer service of \<^verbatim>\<open>oscl/oscl/osclproc/src/oscl_timer.h\<close>: class
  \<^verbatim>\<open>OsclTimer\<close>, one active object that ticks for a whole list of entries. A record holds
  its members; \<open>timer_Request\<close>, \<open>timer_Cancel\<close>, \<open>timer_Clear\<close> and \<open>TimerBaseElapsed\<close>
  are its operations. The observer that an expired entry calls back is arbitrary code with
  a state of its own, which holds the timer: \<open>TimerBaseElapsed\<close> takes the accessor, the
  updater and the callback as arguments.

  \<open>iCounter\<close> and \<open>iOrigCounter\<close> are \<^verbatim>\<open>int32\<close> values, kept as integers: a counter is
  decremented only while its entry stays in the list, and an entry leaves it (or is
  reloaded) as soon as the counter is not positive. \<open>iArmed\<close> is the state of the active
  object \<^verbatim>\<open>iTimer\<close>: \<open>None\<close> when it is not busy, \<open>Some d\<close> when a run is pending after a
  delay of \<open>d\<close> microseconds. \<open>iTickCount\<close> is what \<^verbatim>\<open>OsclTickCount::TickCount()\<close> reads;
  the environment sets it.
\<close>

section \<open>State\<close>

record 'o timer_entry =
  iCounter :: int
  iTimerID :: s32
  iParam :: s32
  iObserver :: "'o option"
  iRecurring :: bool
  iOrigCounter :: int

record 'o timer =
  iDefaultObserver :: "'o option" \<comment> \<open>\<^verbatim>\<open>OsclTimer::iObserver\<close>\<close>
  iEntries :: "'o timer_entry list"
  iEntriesWaitingToAdd :: "'o timer_entry list"
  iEntriesWaitingToCancel :: "(s32 \<times> s32) list" \<comment> \<open>id and parameter, all the source fills in\<close>
  iInCallback :: bool
  iCyclePeriod :: u32
  iTickCountPeriod :: u32
  iExpectedTimeout :: u32
  iArmed :: "u32 option"
  iTickCount :: u32

definition new_timer :: "'o option \<Rightarrow> u32 \<Rightarrow> u32 \<Rightarrow> 'o timer" where
  "new_timer obs frequency tickCountPeriod =
     \<lparr> iDefaultObserver = obs, iEntries = [], iEntriesWaitingToAdd = [],
       iEntriesWaitingToCancel = [], iInCallback = False,
       iCyclePeriod = 1000000 div frequency, iTickCountPeriod = tickCountPeriod,
       iExpectedTimeout = 0, iArmed = None, iTickCount = 0 \<rparr>"

section \<open>Operations\<close>

text \<open>\<^verbatim>\<open>OsclTimerObject::RunIfNotReady\<close>: arm the active object unless it is busy.\<close>

definition RunIfNotReady :: "u32 \<Rightarrow> 'o timer \<Rightarrow> 'o timer" where
  "RunIfNotReady delay t = (if iArmed t = None then t\<lparr>iArmed := Some delay\<rparr> else t)"

definition timer_Request ::
  "s32 \<Rightarrow> s32 \<Rightarrow> int \<Rightarrow> 'o option \<Rightarrow> bool \<Rightarrow> 'o timer \<Rightarrow> 'o timer" where
  "timer_Request timerID param cycles obs recurring t =
     (let entry = \<lparr> iCounter = cycles, iTimerID = timerID, iParam = param, iObserver = obs,
                    iRecurring = recurring, iOrigCounter = cycles \<rparr>
      in if iInCallback t
         then t\<lparr>iEntriesWaitingToAdd := iEntriesWaitingToAdd t @ [entry]\<rparr>
         else
           let t1 = t\<lparr>iEntries := iEntries t @ [entry]\<rparr>;
               t2 = RunIfNotReady (iCyclePeriod t1) t1
           in if iExpectedTimeout t2 = 0
              then t2\<lparr>iExpectedTimeout := iTickCount t2 * iTickCountPeriod t2 + iCyclePeriod t2\<rparr>
              else t2)"

text \<open>The search of \<^verbatim>\<open>Cancel\<close>: the first entry with the id whose parameter matches, where
  \<^verbatim>\<open>-1\<close> matches every parameter.\<close>

fun erase_timer :: "s32 \<Rightarrow> s32 \<Rightarrow> 'o timer_entry list \<Rightarrow> 'o timer_entry list" where
  "erase_timer timerID param [] = []"
| "erase_timer timerID param (e # es) =
     (if iTimerID e = timerID \<and> (iParam e = param \<or> param = -1) then es
      else e # erase_timer timerID param es)"

definition timer_Cancel :: "s32 \<Rightarrow> s32 \<Rightarrow> 'o timer \<Rightarrow> 'o timer" where
  "timer_Cancel timerID param t =
     (if iInCallback t
      then t\<lparr>iEntriesWaitingToCancel := iEntriesWaitingToCancel t @ [(timerID, param)]\<rparr>
      else t\<lparr>iEntries := erase_timer timerID param (iEntries t)\<rparr>)"

definition timer_Clear :: "'o timer \<Rightarrow> 'o timer" where
  "timer_Clear t = t\<lparr>iEntries := []\<rparr>"

text \<open>One entry of the first loop of \<^verbatim>\<open>TimerBaseElapsed\<close>: the counter goes down, and a
  recurring entry that reaches its end is reloaded.\<close>

definition entry_expired :: "'o timer_entry \<Rightarrow> bool" where
  "entry_expired e \<longleftrightarrow> iCounter e - 1 \<le> 0"

definition tick_entry :: "'o timer_entry \<Rightarrow> 'o timer_entry" where
  "tick_entry e =
     (if entry_expired e \<and> iRecurring e then e\<lparr>iCounter := iOrigCounter e\<rparr>
      else e\<lparr>iCounter := iCounter e - 1\<rparr>)"

text \<open>
  The loop itself, from position \<open>i\<close>; \<open>n\<close> bounds the number of entries left to visit, and
  the test of \<^verbatim>\<open>it != iEntries.end()\<close> is made on the list as it is at each round. The
  boolean is \<^verbatim>\<open>expiredFound\<close>.
\<close>

fun elapse_loop ::
  "('s \<Rightarrow> 'o timer) \<Rightarrow> (('o timer \<Rightarrow> 'o timer) \<Rightarrow> 's \<Rightarrow> 's)
    \<Rightarrow> ('o \<Rightarrow> s32 \<Rightarrow> s32 \<Rightarrow> 's \<Rightarrow> 's res) \<Rightarrow> nat \<Rightarrow> nat \<Rightarrow> bool \<Rightarrow> 's \<Rightarrow> (bool \<times> 's) res" where
  "elapse_loop get upd cb 0 i found s = Inr (found, s)"
| "elapse_loop get upd cb (Suc n) i found s =
     (if i < length (iEntries (get s)) then
        let e = iEntries (get s) ! i;
            s1 = upd (\<lambda>t. t\<lparr>iEntries := (iEntries t)[i := tick_entry e]\<rparr>) s
        in if entry_expired e then
             let found1 = (found \<or> \<not> iRecurring e);
                 obs = (case iObserver e of Some o1 \<Rightarrow> Some o1 | None \<Rightarrow> iDefaultObserver (get s1))
             in (case obs of
                   None \<Rightarrow> elapse_loop get upd cb n (Suc i) found1 s1
                 | Some o1 \<Rightarrow>
                     bind_res (cb o1 (iTimerID e) (iParam e) (upd (\<lambda>t. t\<lparr>iInCallback := True\<rparr>) s1))
                       (\<lambda>s2. elapse_loop get upd cb n (Suc i) found1
                               (upd (\<lambda>t. t\<lparr>iInCallback := False\<rparr>) s2)))
           else elapse_loop get upd cb n (Suc i) found s1
      else Inr (found, s))"

text \<open>The removal loop: as long as one is found, erase the first entry whose counter is not
  positive and start again.\<close>

function erase_expired :: "'o timer_entry list \<Rightarrow> 'o timer_entry list" where
  "erase_expired es =
     (case find_index (\<lambda>e. iCounter e \<le> 0) es of
        None \<Rightarrow> es
      | Some i \<Rightarrow> erase_expired (take i es @ drop (Suc i) es))"
  by pat_completeness auto
termination
proof (relation "measure length")
  fix es :: "'o timer_entry list" and i
  assume "find_index (\<lambda>e. iCounter e \<le> 0) es = Some i"
  then have "i < length es" by (auto dest: find_index_Some)
  then show "(take i es @ drop (Suc i) es, es) \<in> measure length" by simp
qed simp

declare erase_expired.simps [simp del]

definition run_deferred_cancels :: "'o timer \<Rightarrow> 'o timer" where
  "run_deferred_cancels t =
     (fold (\<lambda>(i, p). timer_Cancel i p) (iEntriesWaitingToCancel t) t)
       \<lparr>iEntriesWaitingToCancel := []\<rparr>"

definition run_deferred_adds :: "'o timer \<Rightarrow> 'o timer" where
  "run_deferred_adds t =
     (fold (\<lambda>e. timer_Request (iTimerID e) (iParam e) (iCounter e) (iObserver e) False)
           (iEntriesWaitingToAdd t) t)
       \<lparr>iEntriesWaitingToAdd := []\<rparr>"

definition word_abs :: "s32 \<Rightarrow> u32" where
  "word_abs j = (if sint j < 0 then - j else j)"

definition rearm :: "'o timer \<Rightarrow> 'o timer" where
  "rearm t =
     (if iEntries t \<noteq> [] then
        let time = iTickCount t * iTickCountPeriod t;
            jitter = time - iExpectedTimeout t;
            waitperiod = iCyclePeriod t - jitter;
            t1 = (if iCyclePeriod t < word_abs jitter then t\<lparr>iExpectedTimeout := time\<rparr>
                  else t\<lparr>iExpectedTimeout := iExpectedTimeout t + iCyclePeriod t\<rparr>)
        in RunIfNotReady (if sint waitperiod < 0 then 0 else waitperiod) t1
      else t\<lparr>iExpectedTimeout := 0\<rparr>)"

definition TimerBaseElapsed ::
  "('s \<Rightarrow> 'o timer) \<Rightarrow> (('o timer \<Rightarrow> 'o timer) \<Rightarrow> 's \<Rightarrow> 's)
    \<Rightarrow> ('o \<Rightarrow> s32 \<Rightarrow> s32 \<Rightarrow> 's \<Rightarrow> 's res) \<Rightarrow> 's \<Rightarrow> 's res" where
  "TimerBaseElapsed get upd cb s =
     bind_res (elapse_loop get upd cb (length (iEntries (get s))) 0 False s)
       (\<lambda>(found, s1).
          Inr (upd (\<lambda>t. rearm (run_deferred_adds (run_deferred_cancels
                 (if found then t\<lparr>iEntries := erase_expired (iEntries t)\<rparr> else t)))) s1))"

text \<open>\<^verbatim>\<open>CallbackTimer::Run\<close>: the scheduler runs the active object when its delay is over, so it
  is not busy any more; a cancelled run does nothing.\<close>

definition CallbackTimer_Run ::
  "bool \<Rightarrow> ('s \<Rightarrow> 'o timer) \<Rightarrow> (('o timer \<Rightarrow> 'o timer) \<Rightarrow> 's \<Rightarrow> 's)
    \<Rightarrow> ('o \<Rightarrow> s32 \<Rightarrow> s32 \<Rightarrow> 's \<Rightarrow> 's res) \<Rightarrow> 's \<Rightarrow> 's res" where
  "CallbackTimer_Run statusOk get upd cb s =
     (let s1 = upd (\<lambda>t. t\<lparr>iArmed := None\<rparr>) s
      in if statusOk then TimerBaseElapsed get upd cb s1 else Inr s1)"

section \<open>Facts about the operations\<close>

lemma RunIfNotReady_fields [simp]:
  "iEntries (RunIfNotReady d t) = iEntries t"
  "iInCallback (RunIfNotReady d t) = iInCallback t"
  "iEntriesWaitingToAdd (RunIfNotReady d t) = iEntriesWaitingToAdd t"
  "iEntriesWaitingToCancel (RunIfNotReady d t) = iEntriesWaitingToCancel t"
  "iDefaultObserver (RunIfNotReady d t) = iDefaultObserver t"
  "iCyclePeriod (RunIfNotReady d t) = iCyclePeriod t"
  "iExpectedTimeout (RunIfNotReady d t) = iExpectedTimeout t"
  "\<exists>y. iArmed (RunIfNotReady d t) = Some y"
  by (simp_all add: RunIfNotReady_def)

definition new_entry :: "s32 \<Rightarrow> s32 \<Rightarrow> int \<Rightarrow> 'o option \<Rightarrow> bool \<Rightarrow> 'o timer_entry" where
  "new_entry timerID param cycles obs recurring =
     \<lparr> iCounter = cycles, iTimerID = timerID, iParam = param, iObserver = obs,
       iRecurring = recurring, iOrigCounter = cycles \<rparr>"

lemma timer_Request_idle:
  assumes "\<not> iInCallback t"
  shows "iEntries (timer_Request i p c obs r t) = iEntries t @ [new_entry i p c obs r]"
    and "iArmed (timer_Request i p c obs r t) \<noteq> None"
  using assms by (simp_all add: timer_Request_def new_entry_def Let_def)

lemma timer_Request_fields [simp]:
  "iInCallback (timer_Request i p c obs r t) = iInCallback t"
  "iDefaultObserver (timer_Request i p c obs r t) = iDefaultObserver t"
  "iEntriesWaitingToCancel (timer_Request i p c obs r t) = iEntriesWaitingToCancel t"
  by (simp_all add: timer_Request_def Let_def)

lemma timer_Request_callback:
  assumes "iInCallback t"
  shows "timer_Request i p c obs r t =
           t\<lparr>iEntriesWaitingToAdd := iEntriesWaitingToAdd t @ [new_entry i p c obs r]\<rparr>"
  using assms by (simp add: timer_Request_def new_entry_def)

lemma timer_Cancel_fields [simp]:
  "iInCallback (timer_Cancel i p t) = iInCallback t"
  "iDefaultObserver (timer_Cancel i p t) = iDefaultObserver t"
  "iArmed (timer_Cancel i p t) = iArmed t"
  "iEntriesWaitingToAdd (timer_Cancel i p t) = iEntriesWaitingToAdd t"
  by (simp_all add: timer_Cancel_def)

lemma timer_Cancel_idle:
  "\<not> iInCallback t \<Longrightarrow> iEntries (timer_Cancel i p t) = erase_timer i p (iEntries t)"
  by (simp add: timer_Cancel_def)

text \<open>Inside a callback neither operation touches the list that \<open>TimerBaseElapsed\<close> walks.\<close>

lemma timer_ops_in_callback:
  assumes "iInCallback t"
  shows "iEntries (timer_Request i p c obs r t) = iEntries t"
    and "iEntries (timer_Cancel i p t) = iEntries t"
  using assms by (simp_all add: timer_Request_def timer_Cancel_def)

lemma set_erase_timer: "set (erase_timer i p es) \<subseteq> set es"
  by (induction es) auto

lemma length_erase_timer: "length (erase_timer i p es) \<le> length es"
  by (induction es) auto

lemma erase_timer_absent:
  "\<forall>e \<in> set es. iTimerID e \<noteq> i \<Longrightarrow> erase_timer i p es = es"
  by (induction es) auto

lemma erase_timer_other:
  "i \<noteq> j \<Longrightarrow> filter (\<lambda>e. iTimerID e = j) (erase_timer i p es) = filter (\<lambda>e. iTimerID e = j) es"
  by (induction es) auto

lemma erase_timer_wildcard:
  "filter (\<lambda>e. iTimerID e = i) (erase_timer i (-1) es) = tl (filter (\<lambda>e. iTimerID e = i) es)"
  by (induction es) auto

lemma erase_expired_filter: "erase_expired es = filter (\<lambda>e. 0 < iCounter e) es"
proof (induction es rule: erase_expired.induct)
  case (1 es)
  show ?case
  proof (cases "find_index (\<lambda>e. iCounter e \<le> 0) es")
    case None
    then have "filter (\<lambda>e. 0 < iCounter e) es = es"
      by (intro filter_True) (force simp: find_index_None)
    with None show ?thesis by (subst erase_expired.simps) simp
  next
    case (Some i)
    then have i: "i < length es" and pos: "iCounter (es ! i) \<le> 0"
      by (auto dest: find_index_Some)
    have split: "es = take i es @ es ! i # drop (Suc i) es"
      using i by (rule id_take_nth_drop)
    have "filter (\<lambda>e. 0 < iCounter e) (take i es @ es ! i # drop (Suc i) es)
        = filter (\<lambda>e. 0 < iCounter e) (take i es @ drop (Suc i) es)"
      using pos by simp
    with split 1 [OF Some] Some show ?thesis
      by (subst erase_expired.simps) simp
  qed
qed

lemma fold_Cancel_idle:
  "\<not> iInCallback t \<Longrightarrow>
     fold (\<lambda>(i, p). timer_Cancel i p) cs t =
       t\<lparr>iEntries := fold (\<lambda>(i, p). erase_timer i p) cs (iEntries t)\<rparr>"
  by (induction cs arbitrary: t) (auto simp: timer_Cancel_def)

definition deferred_entry :: "'o timer_entry \<Rightarrow> 'o timer_entry" where
  "deferred_entry e = new_entry (iTimerID e) (iParam e) (iCounter e) (iObserver e) False"

lemma fold_Request_idle:
  fixes t :: "'o timer"
  defines "addAll \<equiv> fold (\<lambda>e. timer_Request (iTimerID e) (iParam e) (iCounter e) (iObserver e) False)"
  assumes "\<not> iInCallback t"
  shows "iEntries (addAll es t) = iEntries t @ map deferred_entry es"
    and "iInCallback (addAll es t) = iInCallback t"
    and "iEntriesWaitingToCancel (addAll es t) = iEntriesWaitingToCancel t"
    and "iDefaultObserver (addAll es t) = iDefaultObserver t"
  using assms(2) unfolding addAll_def
  by (induction es arbitrary: t)
     (auto simp: timer_Request_idle deferred_entry_def)

lemma rearm_fields [simp]:
  "iEntries (rearm t) = iEntries t"
  "iInCallback (rearm t) = iInCallback t"
  "iEntriesWaitingToAdd (rearm t) = iEntriesWaitingToAdd t"
  "iEntriesWaitingToCancel (rearm t) = iEntriesWaitingToCancel t"
  "iDefaultObserver (rearm t) = iDefaultObserver t"
  by (simp_all add: rearm_def Let_def)

lemma rearm_armed: "iEntries t \<noteq> [] \<Longrightarrow> iArmed (rearm t) \<noteq> None"
  by (simp add: rearm_def Let_def)

definition deferred_done :: "'o timer \<Rightarrow> 'o timer_entry list" where
  "deferred_done t =
     fold (\<lambda>(i, p). erase_timer i p) (iEntriesWaitingToCancel t) (iEntries t)
       @ map deferred_entry (iEntriesWaitingToAdd t)"

lemma deferred_idle:
  assumes "\<not> iInCallback t"
  defines "t' \<equiv> rearm (run_deferred_adds (run_deferred_cancels t))"
  shows "iEntries t' = deferred_done t"
    and "\<not> iInCallback t'"
    and "iEntriesWaitingToAdd t' = []"
    and "iEntriesWaitingToCancel t' = []"
    and "iDefaultObserver t' = iDefaultObserver t"
    and "iEntries t' \<noteq> [] \<Longrightarrow> iArmed t' \<noteq> None"
proof -
  let ?c = "run_deferred_cancels t"
  have c: "?c = t\<lparr>iEntries := fold (\<lambda>(i, p). erase_timer i p) (iEntriesWaitingToCancel t) (iEntries t),
                iEntriesWaitingToCancel := []\<rparr>"
    using assms(1) by (simp add: run_deferred_cancels_def fold_Cancel_idle)
  have idle: "\<not> iInCallback ?c" using assms(1) by (simp add: c)
  note adds = fold_Request_idle [OF idle, of "iEntriesWaitingToAdd ?c"]
  show "iEntries t' = deferred_done t"
    by (simp add: t'_def run_deferred_adds_def adds deferred_done_def) (simp add: c)
  show "\<not> iInCallback t'" "iEntriesWaitingToAdd t' = []" "iEntriesWaitingToCancel t' = []"
      "iDefaultObserver t' = iDefaultObserver t"
    using idle by (simp_all add: t'_def run_deferred_adds_def adds) (simp_all add: c)
  show "iArmed t' \<noteq> None" if "iEntries t' \<noteq> []"
    using that unfolding t'_def by (simp add: rearm_armed)
qed

section \<open>The loop over the entries\<close>

definition observer_of :: "'o option \<Rightarrow> 'o timer_entry \<Rightarrow> 'o option" where
  "observer_of d e = (case iObserver e of Some o1 \<Rightarrow> Some o1 | None \<Rightarrow> d)"

text \<open>The rule for the loop: a property of the position and the state that holds at the start,
  and is kept by an entry that stays silent and by one whose observer is called, holds at the
  end.\<close>

lemma elapse_loop_rule:
  assumes "n + i = N" and "P i s" and len: "\<And>i s. P i s \<Longrightarrow> length (iEntries (get s)) = N"
    and silent: "\<And>i s e. P i s \<Longrightarrow> i < N \<Longrightarrow> e = iEntries (get s) ! i \<Longrightarrow>
        \<not> entry_expired e \<or> observer_of (iDefaultObserver (get s)) e = None \<Longrightarrow>
        P (Suc i) (upd (\<lambda>t. t\<lparr>iEntries := (iEntries t)[i := tick_entry e]\<rparr>) s)"
    and called: "\<And>i s s2 e obs. P i s \<Longrightarrow> i < N \<Longrightarrow> e = iEntries (get s) ! i \<Longrightarrow>
        entry_expired e \<Longrightarrow> observer_of (iDefaultObserver (get s)) e = Some obs \<Longrightarrow>
        cb obs (iTimerID e) (iParam e)
          (upd (\<lambda>t. t\<lparr>iInCallback := True\<rparr>)
             (upd (\<lambda>t. t\<lparr>iEntries := (iEntries t)[i := tick_entry e]\<rparr>) s)) = Inr s2 \<Longrightarrow>
        P (Suc i) (upd (\<lambda>t. t\<lparr>iInCallback := False\<rparr>) s2)"
    and default: "\<And>f s. (\<And>t. iDefaultObserver (f t) = iDefaultObserver t) \<Longrightarrow>
        iDefaultObserver (get (upd f s)) = iDefaultObserver (get s)"
    and "elapse_loop get upd cb n i found s = Inr (found', s')"
  shows "P N s'"
  using assms(1,2,7)
proof (induction n arbitrary: i found s)
  case 0
  then show ?case by simp
next
  case (Suc n)
  let ?e = "iEntries (get s) ! i"
  let ?s1 = "upd (\<lambda>t. t\<lparr>iEntries := (iEntries t)[i := tick_entry ?e]\<rparr>) s"
  have i: "i < N" using Suc.prems(1) by simp
  with len [OF Suc.prems(2)] have i': "i < length (iEntries (get s))" by simp
  have next_pos: "n + Suc i = N" using Suc.prems(1) by simp
  have obs: "(case iObserver ?e of Some o1 \<Rightarrow> Some o1 | None \<Rightarrow> iDefaultObserver (get ?s1))
      = observer_of (iDefaultObserver (get s)) ?e"
    by (simp add: observer_of_def default split: option.split)
  show ?case
  proof (cases "entry_expired ?e \<and> observer_of (iDefaultObserver (get s)) ?e \<noteq> None")
    case False
    then have "P (Suc i) ?s1" using silent [OF Suc.prems(2) i refl] by auto
    with False Suc.prems(3) i' show ?thesis
      by (auto simp: Let_def obs intro: Suc.IH [OF next_pos] split: if_splits)
  next
    case True
    then obtain o1 where o1: "observer_of (iDefaultObserver (get s)) ?e = Some o1" by auto
    from Suc.prems(3) i' True obtain s2 where
      s2: "cb o1 (iTimerID ?e) (iParam ?e) (upd (\<lambda>t. t\<lparr>iInCallback := True\<rparr>) ?s1) = Inr s2"
      and rest: "elapse_loop get upd cb n (Suc i) (found \<or> \<not> iRecurring ?e)
                   (upd (\<lambda>t. t\<lparr>iInCallback := False\<rparr>) s2) = Inr (found', s')"
      by (auto simp: Let_def obs o1 bind_res_Inr_iff)
    from True have exp: "entry_expired ?e" by simp
    from Suc.IH [OF next_pos called [OF Suc.prems(2) i refl exp o1 s2] rest] show ?thesis .
  qed
qed

text \<open>A property that neither the timer nor the callbacks disturb survives a tick.\<close>

lemma elapse_loop_keeps:
  assumes "I s" and "\<And>f s. I s \<Longrightarrow> I (upd f s)"
    and "\<And>obs i p s s'. I s \<Longrightarrow> cb obs i p s = Inr s' \<Longrightarrow> I s'"
    and "elapse_loop get upd cb n i found s = Inr (found', s')"
  shows "I s'"
  using assms(1,4)
proof (induction n arbitrary: i found s)
  case 0
  then show ?case by simp
next
  case (Suc n)
  let ?e = "iEntries (get s) ! i"
  let ?s1 = "upd (\<lambda>t. t\<lparr>iEntries := (iEntries t)[i := tick_entry ?e]\<rparr>) s"
  have I1: "I ?s1" and I2: "I (upd (\<lambda>t. t\<lparr>iInCallback := True\<rparr>) ?s1)"
    using Suc.prems(1) assms(2) by blast+
  have called: "I s'" if "cb o1 j p (upd (\<lambda>t. t\<lparr>iInCallback := True\<rparr>) ?s1) = Inr s2"
      and "elapse_loop get upd cb n (Suc i) f (upd (\<lambda>t. t\<lparr>iInCallback := False\<rparr>) s2) = Inr (found', s')"
    for o1 j p s2 f
    using Suc.IH [OF assms(2) [OF assms(3) [OF I2 that(1)]] that(2)] .
  from Suc.prems Suc.IH [OF I1] called show ?case
    by (auto simp: Let_def bind_res_Inr_iff split: if_splits option.splits)
qed

lemma TimerBaseElapsed_keeps:
  assumes "I s" and "\<And>f s. I s \<Longrightarrow> I (upd f s)"
    and "\<And>obs i p s s'. I s \<Longrightarrow> cb obs i p s = Inr s' \<Longrightarrow> I s'"
    and "TimerBaseElapsed get upd cb s = Inr s'"
  shows "I s'"
  using assms(4) elapse_loop_keeps [where I = I, OF assms(1-3)]
  by (auto simp: TimerBaseElapsed_def bind_res_Inr_iff intro!: assms(2))

section \<open>The host of a timer\<close>

text \<open>
  What an object that owns an \<^verbatim>\<open>OsclTimer\<close> promises: reading what was written, and a
  callback that uses the timer through \<^verbatim>\<open>Request\<close> and \<^verbatim>\<open>Cancel\<close> only, which during
  a callback leave the entries alone. Under this contract the loop of
  \<^verbatim>\<open>TimerBaseElapsed\<close> visits every entry exactly once, whatever the callbacks do.
\<close>

locale timer_host =
  fixes get :: "'s \<Rightarrow> 'o timer"
    and upd :: "('o timer \<Rightarrow> 'o timer) \<Rightarrow> 's \<Rightarrow> 's"
    and cb :: "'o \<Rightarrow> s32 \<Rightarrow> s32 \<Rightarrow> 's \<Rightarrow> 's res"
  assumes get_upd: "get (upd f s) = f (get s)"
    and cb_entries: "iInCallback (get s) \<Longrightarrow> cb obs i p s = Inr s' \<Longrightarrow> iEntries (get s') = iEntries (get s)"
    and cb_flag: "iInCallback (get s) \<Longrightarrow> cb obs i p s = Inr s' \<Longrightarrow> iInCallback (get s')"
begin

lemma elapse_loop_spec:
  assumes "n + i = length (iEntries (get s))"
    and "\<not> iInCallback (get s)"
    and "elapse_loop get upd cb n i found s = Inr (found', s')"
  shows "iEntries (get s') = take i (iEntries (get s)) @ map tick_entry (drop i (iEntries (get s)))"
    and "found' \<longleftrightarrow> found \<or> (\<exists>e \<in> set (drop i (iEntries (get s))). entry_expired e \<and> \<not> iRecurring e)"
    and "\<not> iInCallback (get s')"
proof -
  have "iEntries (get s') = take i (iEntries (get s)) @ map tick_entry (drop i (iEntries (get s)))
      \<and> (found' \<longleftrightarrow> found \<or> (\<exists>e \<in> set (drop i (iEntries (get s))). entry_expired e \<and> \<not> iRecurring e))
      \<and> \<not> iInCallback (get s')"
    using assms
  proof (induction n arbitrary: i found s)
    case 0
    then show ?case by simp
  next
    case (Suc n)
    let ?es = "iEntries (get s)"
    let ?e = "?es ! i"
    let ?s1 = "upd (\<lambda>t. t\<lparr>iEntries := (iEntries t)[i := tick_entry ?e]\<rparr>) s"
    let ?es1 = "?es[i := tick_entry ?e]"
    from Suc.prems(1) have i: "i < length ?es" by simp
    have es1: "iEntries (get ?s1) = ?es1" by (simp add: get_upd)
    have drop_i: "drop i ?es = ?e # drop (Suc i) ?es" using i by (simp add: Cons_nth_drop_Suc)
    have goal_es: "take (Suc i) ?es1 @ map tick_entry (drop (Suc i) ?es1)
        = take i ?es @ map tick_entry (drop i ?es)"
      using i by (simp add: drop_i take_Suc_conv_app_nth)
    have next_step: "iEntries (get s') = take i ?es @ map tick_entry (drop i ?es)
        \<and> (found' \<longleftrightarrow> found2 \<or> (\<exists>e \<in> set (drop (Suc i) ?es). entry_expired e \<and> \<not> iRecurring e))
        \<and> \<not> iInCallback (get s')"
      if "iEntries (get s2) = ?es1" and "\<not> iInCallback (get s2)"
        and "elapse_loop get upd cb n (Suc i) found2 s2 = Inr (found', s')" for s2 found2
    proof -
      have "n + Suc i = length (iEntries (get s2))" using Suc.prems(1) that(1) by simp
      from Suc.IH [OF this that(2,3)] show ?thesis
        unfolding that(1) goal_es by simp
    qed
    show ?case
    proof (cases "entry_expired ?e")
      case False
      with Suc.prems(3) i have "elapse_loop get upd cb n (Suc i) found ?s1 = Inr (found', s')"
        by (simp add: Let_def)
      from next_step [OF es1 _ this] Suc.prems(2) False show ?thesis
        by (simp add: get_upd drop_i)
    next
      case True
      let ?obs = "case iObserver ?e of Some o1 \<Rightarrow> Some o1 | None \<Rightarrow> iDefaultObserver (get ?s1)"
      let ?f1 = "found \<or> \<not> iRecurring ?e"
      obtain s2 where s2: "iEntries (get s2) = ?es1" "\<not> iInCallback (get s2)"
          "elapse_loop get upd cb n (Suc i) ?f1 s2 = Inr (found', s')"
      proof (cases ?obs)
        case None
        with Suc.prems(3) i True have "elapse_loop get upd cb n (Suc i) ?f1 ?s1 = Inr (found', s')"
          by (simp add: Let_def)
        moreover have "\<not> iInCallback (get ?s1)" using Suc.prems(2) by (simp add: get_upd)
        ultimately show thesis using that es1 by blast
      next
        case (Some o1)
        let ?in = "upd (\<lambda>t. t\<lparr>iInCallback := True\<rparr>) ?s1"
        from Suc.prems(3) i True Some obtain s3
          where s3: "cb o1 (iTimerID ?e) (iParam ?e) ?in = Inr s3"
            and rest: "elapse_loop get upd cb n (Suc i) ?f1 (upd (\<lambda>t. t\<lparr>iInCallback := False\<rparr>) s3)
                       = Inr (found', s')"
          by (auto simp: Let_def bind_res_Inr_iff)
        have "iInCallback (get ?in)" by (simp add: get_upd)
        from cb_entries [OF this s3] have "iEntries (get s3) = ?es1" by (simp add: get_upd)
        with rest show thesis by (intro that) (simp_all add: get_upd)
      qed
      from next_step [OF this] True show ?thesis by (auto simp: drop_i)
    qed
  qed
  then show "iEntries (get s') = take i (iEntries (get s)) @ map tick_entry (drop i (iEntries (get s)))"
    and "found' \<longleftrightarrow> found \<or> (\<exists>e \<in> set (drop i (iEntries (get s))). entry_expired e \<and> \<not> iRecurring e)"
    and "\<not> iInCallback (get s')" by blast+
qed

text \<open>The list after a tick: every entry ticked, the expired ones that do not recur gone,
  then the cancels and requests that the callbacks queued. If entries remain, the active
  object is armed again.\<close>

lemma TimerBaseElapsed_spec:
  assumes "\<not> iInCallback (get s)" and "TimerBaseElapsed get upd cb s = Inr s'"
  shows "\<exists>cancels adds.
      iEntries (get s') =
        fold (\<lambda>(i, p). erase_timer i p) cancels
          (if \<exists>e \<in> set (iEntries (get s)). entry_expired e \<and> \<not> iRecurring e
           then filter (\<lambda>e. 0 < iCounter e) (map tick_entry (iEntries (get s)))
           else map tick_entry (iEntries (get s)))
        @ map deferred_entry adds"
    and "\<not> iInCallback (get s')"
    and "iEntriesWaitingToAdd (get s') = []" and "iEntriesWaitingToCancel (get s') = []"
    and "iEntries (get s') \<noteq> [] \<Longrightarrow> iArmed (get s') \<noteq> None"
proof -
  let ?es = "iEntries (get s)"
  from assms(2) obtain found s1
    where loop: "elapse_loop get upd cb (length ?es) 0 False s = Inr (found, s1)"
      and s': "s' = upd (\<lambda>t. rearm (run_deferred_adds (run_deferred_cancels
                 (if found then t\<lparr>iEntries := erase_expired (iEntries t)\<rparr> else t)))) s1"
    by (auto simp: TimerBaseElapsed_def bind_res_Inr_iff)
  note spec = elapse_loop_spec [OF _ assms(1) loop, simplified]
  let ?t1 = "if found then (get s1)\<lparr>iEntries := erase_expired (iEntries (get s1))\<rparr> else get s1"
  have get_s': "get s' = rearm (run_deferred_adds (run_deferred_cancels ?t1))"
    by (simp add: s' get_upd)
  have idle: "\<not> iInCallback ?t1" using spec(3) by simp
  note fin = deferred_idle [OF idle, folded get_s']
  show "\<not> iInCallback (get s')" "iEntriesWaitingToAdd (get s') = []"
      "iEntriesWaitingToCancel (get s') = []" by (fact fin)+
  show "iArmed (get s') \<noteq> None" if "iEntries (get s') \<noteq> []" using fin(6) that .
  show "\<exists>cancels adds.
      iEntries (get s') =
        fold (\<lambda>(i, p). erase_timer i p) cancels
          (if \<exists>e \<in> set ?es. entry_expired e \<and> \<not> iRecurring e
           then filter (\<lambda>e. 0 < iCounter e) (map tick_entry ?es)
           else map tick_entry ?es)
        @ map deferred_entry adds"
  proof (intro exI)
    show "iEntries (get s') =
        fold (\<lambda>(i, p). erase_timer i p) (iEntriesWaitingToCancel ?t1)
          (if \<exists>e \<in> set ?es. entry_expired e \<and> \<not> iRecurring e
           then filter (\<lambda>e. 0 < iCounter e) (map tick_entry ?es)
           else map tick_entry ?es)
        @ map deferred_entry (iEntriesWaitingToAdd ?t1)"
      using spec(1,2) by (auto simp: fin(1) deferred_done_def erase_expired_filter)
  qed
qed

end

section \<open>Counting ticks\<close>

text \<open>
  A host whose observer only records that it was called: pairs of a timer and the list of
  calls. On it the calls of a tick, and the whole run of a timer, can be written down.
\<close>

type_synonym 'o call = "'o \<times> s32 \<times> s32"

definition upd_fst :: "('o timer \<Rightarrow> 'o timer) \<Rightarrow> 'o timer \<times> 'o call list \<Rightarrow> 'o timer \<times> 'o call list" where
  "upd_fst f s = (f (fst s), snd s)"

definition record_call ::
  "'o \<Rightarrow> s32 \<Rightarrow> s32 \<Rightarrow> 'o timer \<times> 'o call list \<Rightarrow> ('o timer \<times> 'o call list) res" where
  "record_call obs i p s = Inr (fst s, snd s @ [(obs, i, p)])"

interpretation recorded: timer_host fst upd_fst record_call
  by unfold_locales (auto simp: upd_fst_def record_call_def)

fun entry_call :: "'o option \<Rightarrow> 'o timer_entry \<Rightarrow> 'o call list" where
  "entry_call d e = (case observer_of d e of None \<Rightarrow> [] | Some o1 \<Rightarrow> [(o1, iTimerID e, iParam e)])"

definition expired_calls :: "'o option \<Rightarrow> 'o timer_entry list \<Rightarrow> 'o call list" where
  "expired_calls d es = concat (map (entry_call d) (filter entry_expired es))"

lemma expired_calls_simps [simp]:
  "expired_calls d [] = []"
  "expired_calls d (e # es) = (if entry_expired e then entry_call d e else []) @ expired_calls d es"
  by (simp_all add: expired_calls_def)

lemma recorded_loop:
  assumes "n + i = length (iEntries (fst s))"
  shows "\<exists>found' t'. elapse_loop fst upd_fst record_call n i found s =
           Inr (found', t', snd s @ expired_calls (iDefaultObserver (fst s)) (drop i (iEntries (fst s))))
         \<and> iEntriesWaitingToAdd t' = iEntriesWaitingToAdd (fst s)
         \<and> iEntriesWaitingToCancel t' = iEntriesWaitingToCancel (fst s)
         \<and> iDefaultObserver t' = iDefaultObserver (fst s)"
  using assms
proof (induction n arbitrary: i found s)
  case 0
  then show ?case by (cases s) simp
next
  case (Suc n)
  let ?es = "iEntries (fst s)"
  let ?e = "?es ! i"
  let ?d = "iDefaultObserver (fst s)"
  let ?t1 = "(fst s)\<lparr>iEntries := ?es[i := tick_entry ?e]\<rparr>"
  from Suc.prems have i: "i < length ?es" by simp
  have drop_i: "drop i ?es = ?e # drop (Suc i) ?es" using i by (simp add: Cons_nth_drop_Suc)
  show ?case
  proof (cases "entry_expired ?e \<and> observer_of ?d ?e \<noteq> None")
    case True
    then obtain o1 where o1: "observer_of ?d ?e = Some o1" by auto
    let ?t2 = "?t1\<lparr>iInCallback := False\<rparr>"
    have step: "elapse_loop fst upd_fst record_call (Suc n) i found s =
        elapse_loop fst upd_fst record_call n (Suc i) (found \<or> \<not> iRecurring ?e)
          (?t2, snd s @ [(o1, iTimerID ?e, iParam ?e)])"
      using i True o1 by (auto simp: Let_def upd_fst_def record_call_def observer_of_def split: option.splits)
    have "n + Suc i = length (iEntries (fst (?t2, snd s @ [(o1, iTimerID ?e, iParam ?e)])))"
      using Suc.prems by simp
    from Suc.IH [OF this] show ?thesis
      unfolding step using True o1 by (simp add: drop_i)
  next
    case False
    let ?f1 = "if entry_expired ?e then found \<or> \<not> iRecurring ?e else found"
    have step: "elapse_loop fst upd_fst record_call (Suc n) i found s =
        elapse_loop fst upd_fst record_call n (Suc i) ?f1 (?t1, snd s)"
      using i False by (auto simp: Let_def upd_fst_def observer_of_def split: option.splits)
    have "n + Suc i = length (iEntries (fst (?t1, snd s)))" using Suc.prems by simp
    note IH = Suc.IH [OF this]
    have calls: "expired_calls ?d (drop i ?es) = expired_calls ?d (drop (Suc i) ?es)"
      using False by (auto simp: drop_i)
    show ?thesis
      unfolding step calls using IH by simp
  qed
qed

definition quiet :: "'o timer \<Rightarrow> bool" where
  "quiet t \<longleftrightarrow> \<not> iInCallback t \<and> iEntriesWaitingToAdd t = [] \<and> iEntriesWaitingToCancel t = []
     \<and> (\<forall>e \<in> set (iEntries t). \<not> iRecurring e \<and> 0 < iCounter e)"

definition count_down :: "nat \<Rightarrow> 'o timer_entry list \<Rightarrow> 'o timer_entry list" where
  "count_down k es = map (\<lambda>e. e\<lparr>iCounter := iCounter e - int k\<rparr>) (filter (\<lambda>e. int k < iCounter e) es)"

lemma tick_map_filter:
  assumes "\<forall>e \<in> set es. \<not> iRecurring e \<and> 0 < iCounter e"
  shows "(if \<exists>e \<in> set es. entry_expired e \<and> \<not> iRecurring e
          then filter (\<lambda>e. 0 < iCounter e) (map tick_entry es) else map tick_entry es)
         = count_down 1 es"
proof -
  have tick: "map tick_entry es = map (\<lambda>e. e\<lparr>iCounter := iCounter e - 1\<rparr>) es"
    using assms by (auto simp: tick_entry_def)
  have all: "filter (\<lambda>e. 0 < iCounter e) (map tick_entry es) = count_down 1 es"
    unfolding tick count_down_def by (simp add: filter_map comp_def)
  show ?thesis
  proof (cases "\<exists>e \<in> set es. entry_expired e \<and> \<not> iRecurring e")
    case True
    with all show ?thesis by simp
  next
    case False
    with assms have "\<forall>e \<in> set es. 1 < iCounter e" by (auto simp: entry_expired_def)
    then have "filter (\<lambda>e. 1 < iCounter e) es = es" by (intro filter_True)
    then show ?thesis
      unfolding if_not_P [OF False] by (simp add: tick count_down_def)
  qed
qed

lemma recorded_tick:
  assumes "quiet t"
  shows "\<exists>t'. TimerBaseElapsed fst upd_fst record_call (t, l) =
           Inr (t', l @ expired_calls (iDefaultObserver t) (iEntries t))
         \<and> iEntries t' = count_down 1 (iEntries t) \<and> quiet t'
         \<and> iDefaultObserver t' = iDefaultObserver t"
proof -
  obtain found t1 where loop: "elapse_loop fst upd_fst record_call (length (iEntries t)) 0 False (t, l)
        = Inr (found, t1, l @ expired_calls (iDefaultObserver t) (iEntries t))"
      and wait: "iEntriesWaitingToAdd t1 = []" "iEntriesWaitingToCancel t1 = []"
        "iDefaultObserver t1 = iDefaultObserver t"
    using recorded_loop [of "length (iEntries t)" 0 "(t, l)" False] assms by (auto simp: quiet_def)
  have idle: "\<not> iInCallback t" using assms by (simp add: quiet_def)
  note spec = recorded.elapse_loop_spec [OF _ _ loop, simplified, OF idle]
  let ?t2 = "if found then t1\<lparr>iEntries := erase_expired (iEntries t1)\<rparr> else t1"
  let ?t' = "rearm (run_deferred_adds (run_deferred_cancels ?t2))"
  have res: "TimerBaseElapsed fst upd_fst record_call (t, l)
      = Inr (?t', l @ expired_calls (iDefaultObserver t) (iEntries t))"
    by (simp add: TimerBaseElapsed_def loop upd_fst_def)
  have idle2: "\<not> iInCallback ?t2" using spec by simp
  note fin = deferred_idle [OF idle2]
  have "iEntries ?t2 = (if \<exists>e \<in> set (iEntries t). entry_expired e \<and> \<not> iRecurring e
          then filter (\<lambda>e. 0 < iCounter e) (map tick_entry (iEntries t))
          else map tick_entry (iEntries t))"
    unfolding spec(2) by (auto simp: erase_expired_filter spec(1))
  also have "\<dots> = count_down 1 (iEntries t)"
    using assms by (intro tick_map_filter) (simp add: quiet_def)
  finally have es2: "iEntries ?t2 = count_down 1 (iEntries t)" .
  have "iEntriesWaitingToAdd ?t2 = []" "iEntriesWaitingToCancel ?t2 = []"
    using wait by simp_all
  with fin(1) have es: "iEntries ?t' = count_down 1 (iEntries t)"
    unfolding deferred_done_def es2 by simp
  moreover have "quiet ?t'"
    using assms unfolding quiet_def es using fin(2-4) by (auto simp: quiet_def count_down_def)
  moreover have "iDefaultObserver ?t' = iDefaultObserver t"
  proof -
    have "iDefaultObserver ?t2 = iDefaultObserver t" using wait by simp
    then show ?thesis by (rule trans [OF fin(5)])
  qed
  ultimately show ?thesis using res by blast
qed

fun run_ticks :: "nat \<Rightarrow> 'o timer \<times> 'o call list \<Rightarrow> ('o timer \<times> 'o call list) res" where
  "run_ticks 0 s = Inr s"
| "run_ticks (Suc k) s = bind_res (run_ticks k s) (TimerBaseElapsed fst upd_fst record_call)"

lemma count_down_step: "count_down 1 (count_down k es) = count_down (Suc k) es"
  by (auto simp: count_down_def filter_map comp_def algebra_simps intro!: map_cong filter_cong)

lemma expired_count_down:
  "expired_calls d (count_down k es) =
     concat (map (entry_call d) (filter (\<lambda>e. iCounter e = int (Suc k)) es))"
  by (induction es) (auto simp: count_down_def expired_calls_def entry_expired_def observer_of_def
        split: option.splits)

lemma run_ticks_quiet:
  assumes "quiet t"
  shows "\<exists>t'. run_ticks k (t, []) =
           Inr (t', concat (map (\<lambda>j. concat (map (entry_call (iDefaultObserver t))
                                      (filter (\<lambda>e. iCounter e = int j) (iEntries t)))) [1..<Suc k]))
         \<and> iEntries t' = count_down k (iEntries t) \<and> quiet t'
         \<and> iDefaultObserver t' = iDefaultObserver t"
proof (induction k)
  case 0
  have "count_down 0 (iEntries t) = iEntries t"
    using assms by (auto simp: count_down_def quiet_def intro!: trans [OF map_idI filter_True])
  with assms show ?case by simp
next
  case (Suc k)
  let ?calls = "\<lambda>j. concat (map (entry_call (iDefaultObserver t))
                                      (filter (\<lambda>e. iCounter e = int j) (iEntries t)))"
  from Suc.IH obtain t1 where t1: "run_ticks k (t, []) = Inr (t1, concat (map ?calls [1..<Suc k]))"
    "iEntries t1 = count_down k (iEntries t)" "quiet t1" "iDefaultObserver t1 = iDefaultObserver t"
    by blast
  from recorded_tick [OF t1(3)] obtain t2 where t2:
    "TimerBaseElapsed fst upd_fst record_call (t1, concat (map ?calls [1..<Suc k])) =
       Inr (t2, concat (map ?calls [1..<Suc k]) @ ?calls (Suc k))"
    "iEntries t2 = count_down (Suc k) (iEntries t)" "quiet t2" "iDefaultObserver t2 = iDefaultObserver t"
    unfolding t1(2,4) expired_count_down count_down_step by blast
  have "run_ticks (Suc k) (t, []) = Inr (t2, concat (map ?calls [1..<Suc (Suc k)]))"
    using t1(1) t2(1) by simp
  with t2 show ?case by blast
qed

end
