(* ===== verification/SeTypes.thy ===== *)
theory SeTypes
  imports Oscl_Timer
begin

text \<open>
  The data that crosses the boundary of the H.245 signalling entity: the H.245 message
  structures of \<^verbatim>\<open>h245def.h\<close> that the entity reads or writes, the primitive parameter
  blocks of \<^verbatim>\<open>h245pri.h\<close>, the information header of \<^verbatim>\<open>control_msg_hdr.h\<close>, and the numbers
  that name messages, primitives and timers (\<^verbatim>\<open>semsgque.h\<close>, \<^verbatim>\<open>h245inf.h\<close>).

  A parameter block is a pointer in the source. The model has one datatype of blocks,
  \<open>payload\<close>, with one constructor per structure; a null pointer is \<open>None\<close>. A cast
  followed by a member access is \<open>deref\<close> with the selector of the expected structure: it
  faults on a null pointer and on a block of another structure. A field that the entity
  only copies as a block of bytes has the type \<open>blob\<close>. A CHOICE whose alternatives are all
  NULL (the reject causes, \<^verbatim>\<open>S_Source\<close>, \<^verbatim>\<open>S_Response\<close>) is its \<^verbatim>\<open>uint16\<close> index. A field
  \<^verbatim>\<open>option_of_...\<close> of a message is a one-bit field, hence a \<open>bool\<close>; in the primitive blocks it
  is an \<^verbatim>\<open>int32\<close>.
\<close>

section \<open>Numbers of the interface\<close>

text \<open>Message types of \<^verbatim>\<open>semsgque.h\<close>.\<close>

abbreviation H245_MSG_REQ :: u8 where "H245_MSG_REQ \<equiv> 0"
abbreviation H245_MSG_RPS :: u8 where "H245_MSG_RPS \<equiv> 1"
abbreviation H245_MSG_CMD :: u8 where "H245_MSG_CMD \<equiv> 2"
abbreviation H245_MSG_IDC :: u8 where "H245_MSG_IDC \<equiv> 3"
abbreviation MSGTYP_NSD_REQ :: u8 where "MSGTYP_NSD_REQ \<equiv> 0"
abbreviation MSGTYP_MSD :: u8 where "MSGTYP_MSD \<equiv> 1"
abbreviation MSGTYP_CE :: u8 where "MSGTYP_CE \<equiv> 2"
abbreviation MSGTYP_LCBLC_OP :: u8 where "MSGTYP_LCBLC_OP \<equiv> 3"
abbreviation MSGTYP_LCBLC_CL :: u8 where "MSGTYP_LCBLC_CL \<equiv> 4"
abbreviation MSGTYP_CLC :: u8 where "MSGTYP_CLC \<equiv> 5"
abbreviation MSGTYP_MT :: u8 where "MSGTYP_MT \<equiv> 6"
abbreviation MSGTYP_RME :: u8 where "MSGTYP_RME \<equiv> 7"
abbreviation MSGTYP_MR :: u8 where "MSGTYP_MR \<equiv> 8"
abbreviation MSGTYP_RTD_REQ :: u8 where "MSGTYP_RTD_REQ \<equiv> 9"
abbreviation MSGTYP_ML_REQ :: u8 where "MSGTYP_ML_REQ \<equiv> 10"
abbreviation MSGTYP_CM_REQ :: u8 where "MSGTYP_CM_REQ \<equiv> 11"
abbreviation MSGTYP_CNF_REQ :: u8 where "MSGTYP_CNF_REQ \<equiv> 12"
abbreviation MSGTYP_H223AAR :: u8 where "MSGTYP_H223AAR \<equiv> 13"
abbreviation MSGTYP_NSD_RPS :: u8 where "MSGTYP_NSD_RPS \<equiv> 0"
abbreviation MSGTYP_MSD_ACK :: u8 where "MSGTYP_MSD_ACK \<equiv> 1"
abbreviation MSGTYP_MSD_RJT :: u8 where "MSGTYP_MSD_RJT \<equiv> 2"
abbreviation MSGTYP_CE_ACK :: u8 where "MSGTYP_CE_ACK \<equiv> 3"
abbreviation MSGTYP_CE_RJT :: u8 where "MSGTYP_CE_RJT \<equiv> 4"
abbreviation MSGTYP_LCBLC_OP_ACK :: u8 where "MSGTYP_LCBLC_OP_ACK \<equiv> 5"
abbreviation MSGTYP_LCBLC_OP_RJT :: u8 where "MSGTYP_LCBLC_OP_RJT \<equiv> 6"
abbreviation MSGTYP_LCBLC_CL_ACK :: u8 where "MSGTYP_LCBLC_CL_ACK \<equiv> 7"
abbreviation MSGTYP_CLC_ACK :: u8 where "MSGTYP_CLC_ACK \<equiv> 8"
abbreviation MSGTYP_CLC_RJT :: u8 where "MSGTYP_CLC_RJT \<equiv> 9"
abbreviation MSGTYP_MT_ACK :: u8 where "MSGTYP_MT_ACK \<equiv> 10"
abbreviation MSGTYP_MT_RJT :: u8 where "MSGTYP_MT_RJT \<equiv> 11"
abbreviation MSGTYP_RME_ACK :: u8 where "MSGTYP_RME_ACK \<equiv> 12"
abbreviation MSGTYP_RME_RJT :: u8 where "MSGTYP_RME_RJT \<equiv> 13"
abbreviation MSGTYP_MR_ACK :: u8 where "MSGTYP_MR_ACK \<equiv> 14"
abbreviation MSGTYP_MR_RJT :: u8 where "MSGTYP_MR_RJT \<equiv> 15"
abbreviation MSGTYP_RTD_RPS :: u8 where "MSGTYP_RTD_RPS \<equiv> 16"
abbreviation MSGTYP_ML_ACK :: u8 where "MSGTYP_ML_ACK \<equiv> 17"
abbreviation MSGTYP_ML_RJT :: u8 where "MSGTYP_ML_RJT \<equiv> 18"
abbreviation MSGTYP_CM_RPS :: u8 where "MSGTYP_CM_RPS \<equiv> 19"
abbreviation MSGTYP_CNF_RPS :: u8 where "MSGTYP_CNF_RPS \<equiv> 20"
abbreviation MSGTYP_H223AAR_ACK :: u8 where "MSGTYP_H223AAR_ACK \<equiv> 21"
abbreviation MSGTYP_H223AAR_RJT :: u8 where "MSGTYP_H223AAR_RJT \<equiv> 22"
abbreviation MSGTYP_NSD_CMD :: u8 where "MSGTYP_NSD_CMD \<equiv> 0"
abbreviation MSGTYP_ML_OFF_CMD :: u8 where "MSGTYP_ML_OFF_CMD \<equiv> 1"
abbreviation MSGTYP_CMD_STCS :: u8 where "MSGTYP_CMD_STCS \<equiv> 2"
abbreviation MSGTYP_CMD_ECRPT :: u8 where "MSGTYP_CMD_ECRPT \<equiv> 3"
abbreviation MSGTYP_CMD_FC :: u8 where "MSGTYP_CMD_FC \<equiv> 4"
abbreviation MSGTYP_CMD_ES :: u8 where "MSGTYP_CMD_ES \<equiv> 5"
abbreviation MSGTYP_CMD_MSCL :: u8 where "MSGTYP_CMD_MSCL \<equiv> 6"
abbreviation MSGTYP_CM_CMD :: u8 where "MSGTYP_CM_CMD \<equiv> 7"
abbreviation MSGTYP_CMD_CNF :: u8 where "MSGTYP_CMD_CNF \<equiv> 8"
abbreviation MSGTYP_CMD_HMR :: u8 where "MSGTYP_CMD_HMR \<equiv> 9"
abbreviation MSGTYP_NSD_IDC :: u8 where "MSGTYP_NSD_IDC \<equiv> 0"
abbreviation MSGTYP_IDC_FNU :: u8 where "MSGTYP_IDC_FNU \<equiv> 1"
abbreviation MSGTYP_MSD_RLS :: u8 where "MSGTYP_MSD_RLS \<equiv> 2"
abbreviation MSGTYP_CE_RLS :: u8 where "MSGTYP_CE_RLS \<equiv> 3"
abbreviation MSGTYP_LCBLC_OP_CFM :: u8 where "MSGTYP_LCBLC_OP_CFM \<equiv> 4"
abbreviation MSGTYP_CLC_RLS :: u8 where "MSGTYP_CLC_RLS \<equiv> 5"
abbreviation MSGTYP_MT_RLS :: u8 where "MSGTYP_MT_RLS \<equiv> 6"
abbreviation MSGTYP_RME_RLS :: u8 where "MSGTYP_RME_RLS \<equiv> 7"
abbreviation MSGTYP_MR_RLS :: u8 where "MSGTYP_MR_RLS \<equiv> 8"
abbreviation MSGTYP_IDC_MSCL :: u8 where "MSGTYP_IDC_MSCL \<equiv> 9"
abbreviation MSGTYP_IDC_JTR :: u8 where "MSGTYP_IDC_JTR \<equiv> 10"
abbreviation MSGTYP_IDC_H223SKW :: u8 where "MSGTYP_IDC_H223SKW \<equiv> 11"
abbreviation MSGTYP_IDC_NWATMVC :: u8 where "MSGTYP_IDC_NWATMVC \<equiv> 12"
abbreviation MSGTYP_IDC_UI :: u8 where "MSGTYP_IDC_UI \<equiv> 13"
abbreviation MSGTYP_IDC_H2250MXSKW :: u8 where "MSGTYP_IDC_H2250MXSKW \<equiv> 14"
abbreviation MSGTYP_IDC_MCLCT :: u8 where "MSGTYP_IDC_MCLCT \<equiv> 15"
abbreviation MSGTYP_IDC_CNF :: u8 where "MSGTYP_IDC_CNF \<equiv> 16"
abbreviation MSGTYP_IDC_VI :: u8 where "MSGTYP_IDC_VI \<equiv> 17"
abbreviation MSGTYP_IDC_FNS :: u8 where "MSGTYP_IDC_FNS \<equiv> 18"
abbreviation MSGTYP_IDC_FC :: u8 where "MSGTYP_IDC_FC \<equiv> 19"

text \<open>Information types, timer ids and primitive ids of \<^verbatim>\<open>h245inf.h\<close>.\<close>

abbreviation H245_PRIMITIVE :: u32 where "H245_PRIMITIVE \<equiv> 1"
abbreviation H245_ERROR :: u32 where "H245_ERROR \<equiv> 2"
abbreviation H245_TIMEOUT :: u32 where "H245_TIMEOUT \<equiv> 3"
abbreviation H245_INTERNAL_ERROR_SE :: u32 where "H245_INTERNAL_ERROR_SE \<equiv> 1"
abbreviation E_PtvId_Lc_Etb_Req :: u32 where "E_PtvId_Lc_Etb_Req \<equiv> 3"
abbreviation E_PtvId_Lc_Rls_Req :: u32 where "E_PtvId_Lc_Rls_Req \<equiv> 4"
abbreviation E_PtvId_Blc_Etb_Req :: u32 where "E_PtvId_Blc_Etb_Req \<equiv> 5"
abbreviation E_PtvId_Blc_Rls_Req :: u32 where "E_PtvId_Blc_Rls_Req \<equiv> 6"
abbreviation E_PtvId_Clc_Cls_Req :: u32 where "E_PtvId_Clc_Cls_Req \<equiv> 7"
abbreviation E_PtvId_Clc_Rjt_Req :: u32 where "E_PtvId_Clc_Rjt_Req \<equiv> 8"
abbreviation E_PtvId_Mt_Trf_Req :: u32 where "E_PtvId_Mt_Trf_Req \<equiv> 9"
abbreviation E_PtvId_Mt_Rjt_Req :: u32 where "E_PtvId_Mt_Rjt_Req \<equiv> 10"
abbreviation E_PtvId_Rme_Send_Req :: u32 where "E_PtvId_Rme_Send_Req \<equiv> 11"
abbreviation E_PtvId_Rme_Rjt_Req :: u32 where "E_PtvId_Rme_Rjt_Req \<equiv> 12"
abbreviation E_PtvId_Mr_Trf_Req :: u32 where "E_PtvId_Mr_Trf_Req \<equiv> 13"
abbreviation E_PtvId_Mr_Rjt_Req :: u32 where "E_PtvId_Mr_Rjt_Req \<equiv> 14"
abbreviation E_PtvId_Rtd_Trf_Req :: u32 where "E_PtvId_Rtd_Trf_Req \<equiv> 15"
abbreviation E_PtvId_Ml_Loop_Req :: u32 where "E_PtvId_Ml_Loop_Req \<equiv> 16"
abbreviation E_PtvId_Ml_Rls_Req :: u32 where "E_PtvId_Ml_Rls_Req \<equiv> 17"
abbreviation E_PtvId_Lc_Etb_Idc :: u32 where "E_PtvId_Lc_Etb_Idc \<equiv> 23"
abbreviation E_PtvId_Lc_Rls_Idc :: u32 where "E_PtvId_Lc_Rls_Idc \<equiv> 24"
abbreviation E_PtvId_Lc_Err_Idc :: u32 where "E_PtvId_Lc_Err_Idc \<equiv> 25"
abbreviation E_PtvId_Blc_Etb_Idc :: u32 where "E_PtvId_Blc_Etb_Idc \<equiv> 26"
abbreviation E_PtvId_Blc_Rls_Idc :: u32 where "E_PtvId_Blc_Rls_Idc \<equiv> 27"
abbreviation E_PtvId_Blc_Err_Idc :: u32 where "E_PtvId_Blc_Err_Idc \<equiv> 28"
abbreviation E_PtvId_Clc_Cls_Idc :: u32 where "E_PtvId_Clc_Cls_Idc \<equiv> 29"
abbreviation E_PtvId_Clc_Rjt_Idc :: u32 where "E_PtvId_Clc_Rjt_Idc \<equiv> 30"
abbreviation E_PtvId_Mt_Trf_Idc :: u32 where "E_PtvId_Mt_Trf_Idc \<equiv> 31"
abbreviation E_PtvId_Mt_Rjt_Idc :: u32 where "E_PtvId_Mt_Rjt_Idc \<equiv> 32"
abbreviation E_PtvId_Rme_Send_Idc :: u32 where "E_PtvId_Rme_Send_Idc \<equiv> 33"
abbreviation E_PtvId_Rme_Rjt_Idc :: u32 where "E_PtvId_Rme_Rjt_Idc \<equiv> 34"
abbreviation E_PtvId_Mr_Trf_Idc :: u32 where "E_PtvId_Mr_Trf_Idc \<equiv> 35"
abbreviation E_PtvId_Mr_Rjt_Idc :: u32 where "E_PtvId_Mr_Rjt_Idc \<equiv> 36"
abbreviation E_PtvId_Rtd_Exp_Idc :: u32 where "E_PtvId_Rtd_Exp_Idc \<equiv> 37"
abbreviation E_PtvId_Ml_Loop_Idc :: u32 where "E_PtvId_Ml_Loop_Idc \<equiv> 38"
abbreviation E_PtvId_Ml_Rls_Idc :: u32 where "E_PtvId_Ml_Rls_Idc \<equiv> 39"
abbreviation E_PtvId_Ml_Err_Idc :: u32 where "E_PtvId_Ml_Err_Idc \<equiv> 40"
abbreviation E_PtvId_Ce_Trf_Rps :: u32 where "E_PtvId_Ce_Trf_Rps \<equiv> 41"
abbreviation E_PtvId_Lc_Etb_Rps :: u32 where "E_PtvId_Lc_Etb_Rps \<equiv> 42"
abbreviation E_PtvId_Blc_Etb_Rps :: u32 where "E_PtvId_Blc_Etb_Rps \<equiv> 43"
abbreviation E_PtvId_Clc_Cls_Rps :: u32 where "E_PtvId_Clc_Cls_Rps \<equiv> 44"
abbreviation E_PtvId_Mt_Trf_Rps :: u32 where "E_PtvId_Mt_Trf_Rps \<equiv> 45"
abbreviation E_PtvId_Rme_Send_Rps :: u32 where "E_PtvId_Rme_Send_Rps \<equiv> 46"
abbreviation E_PtvId_Mr_Trf_Rps :: u32 where "E_PtvId_Mr_Trf_Rps \<equiv> 47"
abbreviation E_PtvId_Ml_Loop_Rps :: u32 where "E_PtvId_Ml_Loop_Rps \<equiv> 48"
abbreviation E_PtvId_Msd_Dtm_Cfm :: u32 where "E_PtvId_Msd_Dtm_Cfm \<equiv> 49"
abbreviation E_PtvId_Ce_Trf_Cfm :: u32 where "E_PtvId_Ce_Trf_Cfm \<equiv> 50"
abbreviation E_PtvId_Lc_Etb_Cfm :: u32 where "E_PtvId_Lc_Etb_Cfm \<equiv> 51"
abbreviation E_PtvId_Lc_Rls_Cfm :: u32 where "E_PtvId_Lc_Rls_Cfm \<equiv> 52"
abbreviation E_PtvId_Blc_Etb_Cfm :: u32 where "E_PtvId_Blc_Etb_Cfm \<equiv> 53"
abbreviation E_PtvId_Blc_Etb_Cfm2 :: u32 where "E_PtvId_Blc_Etb_Cfm2 \<equiv> 54"
abbreviation E_PtvId_Blc_Rls_Cfm :: u32 where "E_PtvId_Blc_Rls_Cfm \<equiv> 55"
abbreviation E_PtvId_Clc_Cls_Cfm :: u32 where "E_PtvId_Clc_Cls_Cfm \<equiv> 56"
abbreviation E_PtvId_Mt_Trf_Cfm :: u32 where "E_PtvId_Mt_Trf_Cfm \<equiv> 57"
abbreviation E_PtvId_Rme_Send_Cfm :: u32 where "E_PtvId_Rme_Send_Cfm \<equiv> 58"
abbreviation E_PtvId_Mr_Trf_Cfm :: u32 where "E_PtvId_Mr_Trf_Cfm \<equiv> 59"
abbreviation E_PtvId_Rtd_Trf_Cfm :: u32 where "E_PtvId_Rtd_Trf_Cfm \<equiv> 60"
abbreviation E_PtvId_Ml_Loop_Cfm :: u32 where "E_PtvId_Ml_Loop_Cfm \<equiv> 61"
abbreviation E_PtvId_Nsd_Req :: u32 where "E_PtvId_Nsd_Req \<equiv> 62"
abbreviation E_PtvId_Nsd_Req_Cfm :: u32 where "E_PtvId_Nsd_Req_Cfm \<equiv> 63"
abbreviation E_PtvId_Nsd_Rps :: u32 where "E_PtvId_Nsd_Rps \<equiv> 64"
abbreviation E_PtvId_Nsd_Rps_Cfm :: u32 where "E_PtvId_Nsd_Rps_Cfm \<equiv> 65"
abbreviation E_PtvId_Nsd_Cmd :: u32 where "E_PtvId_Nsd_Cmd \<equiv> 66"
abbreviation E_PtvId_Nsd_Cmd_Cfm :: u32 where "E_PtvId_Nsd_Cmd_Cfm \<equiv> 67"
abbreviation E_PtvId_Nsd_Idc :: u32 where "E_PtvId_Nsd_Idc \<equiv> 68"
abbreviation E_PtvId_Nsd_Idc_Cfm :: u32 where "E_PtvId_Nsd_Idc_Cfm \<equiv> 69"
abbreviation E_PtvId_Cm_Req :: u32 where "E_PtvId_Cm_Req \<equiv> 70"
abbreviation E_PtvId_Cm_Req_Cfm :: u32 where "E_PtvId_Cm_Req_Cfm \<equiv> 71"
abbreviation E_PtvId_Cm_Rps :: u32 where "E_PtvId_Cm_Rps \<equiv> 72"
abbreviation E_PtvId_Cm_Rps_Cfm :: u32 where "E_PtvId_Cm_Rps_Cfm \<equiv> 73"
abbreviation E_PtvId_Cm_Cmd :: u32 where "E_PtvId_Cm_Cmd \<equiv> 74"
abbreviation E_PtvId_Cm_Cmd_Cfm :: u32 where "E_PtvId_Cm_Cmd_Cfm \<equiv> 75"
abbreviation E_PtvId_H223aar :: u32 where "E_PtvId_H223aar \<equiv> 76"
abbreviation E_PtvId_H223aar_Cfm :: u32 where "E_PtvId_H223aar_Cfm \<equiv> 77"
abbreviation E_PtvId_H223aar_Ack :: u32 where "E_PtvId_H223aar_Ack \<equiv> 78"
abbreviation E_PtvId_H223aar_Ack_Cfm :: u32 where "E_PtvId_H223aar_Ack_Cfm \<equiv> 79"
abbreviation E_PtvId_H223aar_Rjt :: u32 where "E_PtvId_H223aar_Rjt \<equiv> 80"
abbreviation E_PtvId_H223aar_Rjt_Cfm :: u32 where "E_PtvId_H223aar_Rjt_Cfm \<equiv> 81"
abbreviation E_PtvId_Cnf_Req :: u32 where "E_PtvId_Cnf_Req \<equiv> 82"
abbreviation E_PtvId_Cnf_Req_Cfm :: u32 where "E_PtvId_Cnf_Req_Cfm \<equiv> 83"
abbreviation E_PtvId_Cnf_Rps :: u32 where "E_PtvId_Cnf_Rps \<equiv> 84"
abbreviation E_PtvId_Cnf_Rps_Cfm :: u32 where "E_PtvId_Cnf_Rps_Cfm \<equiv> 85"
abbreviation E_PtvId_Cmd_Stcs :: u32 where "E_PtvId_Cmd_Stcs \<equiv> 86"
abbreviation E_PtvId_Cmd_Stcs_Cfm :: u32 where "E_PtvId_Cmd_Stcs_Cfm \<equiv> 87"
abbreviation E_PtvId_Cmd_Ecrpt :: u32 where "E_PtvId_Cmd_Ecrpt \<equiv> 88"
abbreviation E_PtvId_Cmd_Ecrpt_Cfm :: u32 where "E_PtvId_Cmd_Ecrpt_Cfm \<equiv> 89"
abbreviation E_PtvId_Cmd_Fc :: u32 where "E_PtvId_Cmd_Fc \<equiv> 90"
abbreviation E_PtvId_Cmd_Fc_Cfm :: u32 where "E_PtvId_Cmd_Fc_Cfm \<equiv> 91"
abbreviation E_PtvId_Cmd_Es :: u32 where "E_PtvId_Cmd_Es \<equiv> 92"
abbreviation E_PtvId_Cmd_Es_Cfm :: u32 where "E_PtvId_Cmd_Es_Cfm \<equiv> 93"
abbreviation E_PtvId_Cmd_Mscl :: u32 where "E_PtvId_Cmd_Mscl \<equiv> 94"
abbreviation E_PtvId_Cmd_Mscl_Cfm :: u32 where "E_PtvId_Cmd_Mscl_Cfm \<equiv> 95"
abbreviation E_PtvId_Cmd_Cnf :: u32 where "E_PtvId_Cmd_Cnf \<equiv> 96"
abbreviation E_PtvId_Cmd_Cnf_Cfm :: u32 where "E_PtvId_Cmd_Cnf_Cfm \<equiv> 97"
abbreviation E_PtvId_Idc_Fnu :: u32 where "E_PtvId_Idc_Fnu \<equiv> 98"
abbreviation E_PtvId_Idc_Fnu_Cfm :: u32 where "E_PtvId_Idc_Fnu_Cfm \<equiv> 99"
abbreviation E_PtvId_Idc_Mscl :: u32 where "E_PtvId_Idc_Mscl \<equiv> 100"
abbreviation E_PtvId_Idc_Mscl_Cfm :: u32 where "E_PtvId_Idc_Mscl_Cfm \<equiv> 101"
abbreviation E_PtvId_Idc_Jtr :: u32 where "E_PtvId_Idc_Jtr \<equiv> 102"
abbreviation E_PtvId_Idc_Jtr_Cfm :: u32 where "E_PtvId_Idc_Jtr_Cfm \<equiv> 103"
abbreviation E_PtvId_Idc_H223skw :: u32 where "E_PtvId_Idc_H223skw \<equiv> 104"
abbreviation E_PtvId_Idc_H223skw_Cfm :: u32 where "E_PtvId_Idc_H223skw_Cfm \<equiv> 105"
abbreviation E_PtvId_Idc_Nwatmvc :: u32 where "E_PtvId_Idc_Nwatmvc \<equiv> 106"
abbreviation E_PtvId_Idc_Nwatmvc_Cfm :: u32 where "E_PtvId_Idc_Nwatmvc_Cfm \<equiv> 107"
abbreviation E_PtvId_Idc_Ui :: u32 where "E_PtvId_Idc_Ui \<equiv> 108"
abbreviation E_PtvId_Idc_Ui_Cfm :: u32 where "E_PtvId_Idc_Ui_Cfm \<equiv> 109"
abbreviation E_PtvId_Idc_Cnf :: u32 where "E_PtvId_Idc_Cnf \<equiv> 110"
abbreviation E_PtvId_Idc_Cnf_Cfm :: u32 where "E_PtvId_Idc_Cnf_Cfm \<equiv> 111"
abbreviation E_PtvId_Idc_H2250mxskw :: u32 where "E_PtvId_Idc_H2250mxskw \<equiv> 112"
abbreviation E_PtvId_Idc_H2250mxskw_Cfm :: u32 where "E_PtvId_Idc_H2250mxskw_Cfm \<equiv> 113"
abbreviation E_PtvId_Idc_Mclct :: u32 where "E_PtvId_Idc_Mclct \<equiv> 114"
abbreviation E_PtvId_Idc_Mclct_Cfm :: u32 where "E_PtvId_Idc_Mclct_Cfm \<equiv> 115"
abbreviation E_PtvId_Idc_Vi :: u32 where "E_PtvId_Idc_Vi \<equiv> 116"
abbreviation E_PtvId_Idc_Vi_Cfm :: u32 where "E_PtvId_Idc_Vi_Cfm \<equiv> 117"
abbreviation E_PtvId_Idc_Fns :: u32 where "E_PtvId_Idc_Fns \<equiv> 118"
abbreviation E_PtvId_Idc_Fns_Cfm :: u32 where "E_PtvId_Idc_Fns_Cfm \<equiv> 119"
abbreviation E_PtvId_Idc_Fc :: u32 where "E_PtvId_Idc_Fc \<equiv> 120"
abbreviation E_PtvId_Idc_Fc_Cfm :: u32 where "E_PtvId_Idc_Fc_Cfm \<equiv> 121"
abbreviation E_PtvId_Cmd_Hmr :: u32 where "E_PtvId_Cmd_Hmr \<equiv> 122"
abbreviation E_PtvId_Cmd_Hmr_Cfm :: u32 where "E_PtvId_Cmd_Hmr_Cfm \<equiv> 123"
abbreviation E_TmrId_Msd_T106 :: u32 where "E_TmrId_Msd_T106 \<equiv> 0"
abbreviation E_TmrId_Ce_T101 :: u32 where "E_TmrId_Ce_T101 \<equiv> 1"
abbreviation E_TmrId_LcBlc_T103 :: u32 where "E_TmrId_LcBlc_T103 \<equiv> 2"
abbreviation E_TmrId_Clc_T108 :: u32 where "E_TmrId_Clc_T108 \<equiv> 3"
abbreviation E_TmrId_Mt_T104 :: u32 where "E_TmrId_Mt_T104 \<equiv> 4"
abbreviation E_TmrId_Rme_T107 :: u32 where "E_TmrId_Rme_T107 \<equiv> 5"
abbreviation E_TmrId_Mr_T109 :: u32 where "E_TmrId_Mr_T109 \<equiv> 6"
abbreviation E_TmrId_Rtd_T105 :: u32 where "E_TmrId_Rtd_T105 \<equiv> 7"
abbreviation E_TmrId_Ml_T102 :: u32 where "E_TmrId_Ml_T102 \<equiv> 8"

section \<open>Blocks\<close>

datatype blob =
    ZeroFilled        \<comment> \<open>after \<^verbatim>\<open>oscl_memset(p, 0, n)\<close>\<close>
  | Image "u8 list"   \<comment> \<open>copied from elsewhere\<close>

text \<open>Storing an \<^verbatim>\<open>int32\<close> in a one-bit field keeps its lowest bit; reading the field back
  into an \<^verbatim>\<open>int32\<close> gives 0 or 1.\<close>

definition bit_field :: "s32 \<Rightarrow> bool" where
  "bit_field x = bit x 0"

definition field_value :: "bool \<Rightarrow> s32" where
  "field_value b = (if b then 1 else 0)"

lemma bit_field_value [simp]: "bit_field (field_value b) = b"
  by (simp add: bit_field_def field_value_def)

lemma field_value_0_iff [simp]: "field_value b = 0 \<longleftrightarrow> \<not> b"
  by (simp add: field_value_def)

subsection \<open>Logical channels\<close>

record forward_reverse_param = \<comment> \<open>\<^verbatim>\<open>S_ForwardReverseParam\<close>\<close>
  frp_forward :: blob
  frp_option_of_reverse :: s32
  frp_reverse :: blob

record ack_reverse_params = \<comment> \<open>\<^verbatim>\<open>S_AckReverseLogicalChannelParameters\<close>\<close>
  arp_reverseLogicalChannelNumber :: u16
  arp_rest :: blob

definition zero_ack_reverse_params :: ack_reverse_params where
  "zero_ack_reverse_params = \<lparr> arp_reverseLogicalChannelNumber = 0, arp_rest = ZeroFilled \<rparr>"

record reverse_data = \<comment> \<open>\<^verbatim>\<open>S_ReverseData\<close>\<close>
  rvd_option_of_reverse :: s32
  rvd_reverse :: ack_reverse_params
  rvd_option_of_forwardMultiplexAck :: s32
  rvd_forwardMultiplexAck :: blob

record open_logical_channel = \<comment> \<open>\<^verbatim>\<open>S_OpenLogicalChannel\<close>\<close>
  olc_forwardLogicalChannelNumber :: u16
  olc_forward :: blob
  olc_option_of_reverse :: bool
  olc_reverse :: blob
  olc_option_of_separateStack :: bool
  olc_separateStack :: blob
  olc_option_of_encryptionSync :: bool

record open_logical_channel_ack = \<comment> \<open>\<^verbatim>\<open>S_OpenLogicalChannelAck\<close>\<close>
  ola_forwardLogicalChannelNumber :: u16
  ola_option_of_ackReverse :: bool
  ola_ackReverse :: ack_reverse_params
  ola_option_of_separateStack :: bool
  ola_separateStack :: blob
  ola_option_of_forwardMultiplexAck :: bool
  ola_forwardMultiplexAck :: blob
  ola_option_of_encryptionSync :: bool

record open_logical_channel_reject = \<comment> \<open>\<^verbatim>\<open>S_OpenLogicalChannelReject\<close>\<close>
  olr_forwardLogicalChannelNumber :: u16
  olr_olcRejectCause :: u16

record close_logical_channel = \<comment> \<open>\<^verbatim>\<open>S_CloseLogicalChannel\<close>\<close>
  cl_forwardLogicalChannelNumber :: u16
  cl_source :: u16
  cl_option_of_reason :: bool
  cl_reason :: u16

record request_channel_close = \<comment> \<open>\<^verbatim>\<open>S_RequestChannelClose\<close>\<close>
  rcc_forwardLogicalChannelNumber :: u16
  rcc_option_of_qosCapability :: bool
  rcc_option_of_rccReason :: bool

record request_channel_close_reject = \<comment> \<open>\<^verbatim>\<open>S_RequestChannelCloseReject\<close>\<close>
  rcr_forwardLogicalChannelNumber :: u16
  rcr_rccRejectCause :: u16

subsection \<open>Capability exchange and master slave determination\<close>

record terminal_capability_set = \<comment> \<open>\<^verbatim>\<open>S_TerminalCapabilitySet\<close>\<close>
  tcs_sequenceNumber :: u8
  tcs_rest :: blob

record terminal_capability_set_reject = \<comment> \<open>\<^verbatim>\<open>S_TerminalCapabilitySetReject\<close>\<close>
  tcr_sequenceNumber :: u8
  tcr_cause :: u16
  tcr_tableEntryCapacityExceeded :: "(u16 \<times> u16) option" \<comment> \<open>index and highest entry, if written\<close>

record master_slave_determination = \<comment> \<open>\<^verbatim>\<open>S_MasterSlaveDetermination\<close>\<close>
  msd_terminalType :: u8
  msd_statusDeterminationNumber :: u32

subsection \<open>Multiplex tables\<close>

text \<open>A size field and a pointer to an array are a size and the list of the elements that are
  really there; the two need not agree.\<close>

record multiplex_entry_descriptor = \<comment> \<open>\<^verbatim>\<open>S_MultiplexEntryDescriptor\<close>\<close>
  med_multiplexTableEntryNumber :: u8
  med_elementList :: blob

record mux_descriptor = \<comment> \<open>\<^verbatim>\<open>S_MuxDescriptor\<close>\<close>
  mxd_size :: s32
  mxd_descriptors :: "multiplex_entry_descriptor list"

record multiplex_entry_send = \<comment> \<open>\<^verbatim>\<open>S_MultiplexEntrySend\<close>\<close>
  mes_sequenceNumber :: u8
  mes_size :: u16
  mes_descriptors :: "multiplex_entry_descriptor list"

record multiplex_entry_send_ack = \<comment> \<open>\<^verbatim>\<open>S_MultiplexEntrySendAck\<close>\<close>
  mea_sequenceNumber :: u8
  mea_size :: u16
  mea_entryNumbers :: "u32 list"

text \<open>The reject cause of the sent reject is copied from the address of the parameter, not from
  what it points to (\<^verbatim>\<open>mt.cpp\<close>, line 533): those bytes are not a cause.\<close>

datatype cause_bytes = Cause u16 | PointerBytes

record multiplex_entry_send_reject = \<comment> \<open>\<^verbatim>\<open>S_MultiplexEntrySendReject\<close>\<close>
  mer_sequenceNumber :: u8
  mer_size :: u16
  mer_descriptions :: "(u8 \<times> cause_bytes) list"

record entry_numbers = \<comment> \<open>the \<^verbatim>\<open>entryNumbers\<close> part of the RequestMultiplexEntry structures\<close>
  enr_size :: u16
  enr_entryNumbers :: "u32 list"

record request_multiplex_entry_reject = \<comment> \<open>\<^verbatim>\<open>S_RequestMultiplexEntryReject\<close>\<close>
  rmj_entryNumbers :: entry_numbers
  rmj_size :: u16
  rmj_descriptions :: "(u8 \<times> u16) list"

subsection \<open>Request mode and maintenance loop\<close>

record request_mode = \<comment> \<open>\<^verbatim>\<open>S_RequestMode\<close>\<close>
  rqm_sequenceNumber :: u8
  rqm_size :: u16
  rqm_requestedModes :: blob

record ml_type = \<comment> \<open>\<^verbatim>\<open>S_MlRequestType\<close>, \<^verbatim>\<open>S_MlAckType\<close>, \<^verbatim>\<open>S_MlRejectType\<close>\<close>
  mlt_index :: u16
  mlt_channel :: u16

subsection \<open>Parameter blocks of the primitives\<close>

datatype h245_source = Src_USER | Src_PROTOCOL | Src_LCSE | Src_BLCSE | Src_MLSE

datatype err_code =
    ErrCode_Msd_A | ErrCode_Msd_B | ErrCode_Msd_C | ErrCode_Msd_D | ErrCode_Msd_E | ErrCode_Msd_F
  | ErrCode_Lc_A | ErrCode_Lc_B | ErrCode_Lc_C | ErrCode_Lc_D
  | ErrCode_Blc_A | ErrCode_Blc_B | ErrCode_Blc_C | ErrCode_Blc_D | ErrCode_Blc_E | ErrCode_Blc_F
  | ErrCode_Ml_A | ErrCode_Ml_B

text \<open>The structures that the entity forwards without looking inside.\<close>

datatype annex_type =
    S_NonStandardMessage
  | S_CommunicationModeRequest | S_CommunicationModeResponse | S_CommunicationModeCommand
  | S_ConferenceRequest | S_ConferenceResponse
  | S_SendTerminalCapabilitySet | S_EncryptionCommand | S_FlowControlCommand
  | S_EndSessionCommand | S_MiscellaneousCommand | S_ConferenceCommand
  | S_H223MultiplexReconfiguration
  | S_FunctionNotUnderstood | S_MiscellaneousIndication | S_JitterIndication
  | S_H223SkewIndication | S_NewATMVCIndication | S_UserInputIndication
  | S_ConferenceIndication | S_H2250MaximumSkewIndication | S_MCLocationIndication
  | S_VendorIdentification | S_FunctionNotSupported | S_FlowControlIndication

text \<open>The structures of each signalling component, under their names in the sources.\<close>

datatype msd_block =
    MasterSlaveDetermination master_slave_determination
  | MasterSlaveDeterminationAck u16
  | MasterSlaveDeterminationReject u16
  | MasterSlaveDeterminationRelease

datatype ce_block =
    TerminalCapabilitySet terminal_capability_set
  | TerminalCapabilitySetAck u8
  | TerminalCapabilitySetReject terminal_capability_set_reject
  | TerminalCapabilitySetRelease

datatype lc_block =
    OpenLogicalChannel open_logical_channel
  | OpenLogicalChannelAck open_logical_channel_ack
  | OpenLogicalChannelConfirm u16
  | OpenLogicalChannelReject open_logical_channel_reject
  | CloseLogicalChannel close_logical_channel
  | CloseLogicalChannelAck u16
  | ForwardReverseParam forward_reverse_param
  | ReverseData reverse_data
  | OlcRejectCause u16
  | SourceCause_LcBlc h245_source u16

datatype clc_block =
    RequestChannelClose request_channel_close
  | RequestChannelCloseAck u16
  | RequestChannelCloseReject request_channel_close_reject
  | RequestChannelCloseRelease u16
  | RccRejectCause u16
  | SourceCause_Clc h245_source u16

datatype mt_block =
    MultiplexEntrySend multiplex_entry_send
  | MultiplexEntrySendAck multiplex_entry_send_ack
  | MultiplexEntrySendReject multiplex_entry_send_reject
  | MultiplexEntrySendRelease u16 "u32 list"
  | MuxDescriptor mux_descriptor
  | MeRejectCause u16
  | SourceCause_Mt h245_source cause_bytes

datatype rme_block =
    RequestMultiplexEntry entry_numbers
  | RequestMultiplexEntryAck entry_numbers
  | RequestMultiplexEntryReject request_multiplex_entry_reject
  | RequestMultiplexEntryRelease entry_numbers
  | RmeRejectCause u16
  | SourceCause_Rme h245_source u16

datatype mr_block =
    RequestMode request_mode
  | RequestModeAck u8 u16
  | RequestModeReject u8 u16
  | RequestModeRelease
  | Response u16
  | RmRejectCause u16
  | SourceCause_Mr h245_source u16

datatype rtd_block =
    RoundTripDelayRequest u8
  | RoundTripDelayResponse u8
  | Delay_Rtd s32

datatype ml_block =
    MaintenanceLoopRequest ml_type
  | MaintenanceLoopAck ml_type
  | MaintenanceLoopReject ml_type u16
  | MaintenanceLoopOffCommand
  | MlRequestType ml_type
  | MlRejectCause u16
  | SourceCause_Ml h245_source u16

datatype payload =
    Block_Msd msd_block
  | Block_Ce ce_block
  | Block_Lc lc_block
  | Block_Clc clc_block
  | Block_Mt mt_block
  | Block_Rme rme_block
  | Block_Mr mr_block
  | Block_Rtd rtd_block
  | Block_Ml ml_block
  | P_Annex annex_type blob
  | P_ErrCode err_code

abbreviation P_MasterSlaveDetermination :: "master_slave_determination \<Rightarrow> payload" where "P_MasterSlaveDetermination x \<equiv> Block_Msd (MasterSlaveDetermination x)"
abbreviation P_MasterSlaveDeterminationAck :: "u16 \<Rightarrow> payload" where "P_MasterSlaveDeterminationAck x \<equiv> Block_Msd (MasterSlaveDeterminationAck x)"
abbreviation P_MasterSlaveDeterminationReject :: "u16 \<Rightarrow> payload" where "P_MasterSlaveDeterminationReject x \<equiv> Block_Msd (MasterSlaveDeterminationReject x)"
abbreviation P_MasterSlaveDeterminationRelease :: "payload" where "P_MasterSlaveDeterminationRelease \<equiv> Block_Msd MasterSlaveDeterminationRelease"
abbreviation P_TerminalCapabilitySet :: "terminal_capability_set \<Rightarrow> payload" where "P_TerminalCapabilitySet x \<equiv> Block_Ce (TerminalCapabilitySet x)"
abbreviation P_TerminalCapabilitySetAck :: "u8 \<Rightarrow> payload" where "P_TerminalCapabilitySetAck x \<equiv> Block_Ce (TerminalCapabilitySetAck x)"
abbreviation P_TerminalCapabilitySetReject :: "terminal_capability_set_reject \<Rightarrow> payload" where "P_TerminalCapabilitySetReject x \<equiv> Block_Ce (TerminalCapabilitySetReject x)"
abbreviation P_TerminalCapabilitySetRelease :: "payload" where "P_TerminalCapabilitySetRelease \<equiv> Block_Ce TerminalCapabilitySetRelease"
abbreviation P_OpenLogicalChannel :: "open_logical_channel \<Rightarrow> payload" where "P_OpenLogicalChannel x \<equiv> Block_Lc (OpenLogicalChannel x)"
abbreviation P_OpenLogicalChannelAck :: "open_logical_channel_ack \<Rightarrow> payload" where "P_OpenLogicalChannelAck x \<equiv> Block_Lc (OpenLogicalChannelAck x)"
abbreviation P_OpenLogicalChannelConfirm :: "u16 \<Rightarrow> payload" where "P_OpenLogicalChannelConfirm x \<equiv> Block_Lc (OpenLogicalChannelConfirm x)"
abbreviation P_OpenLogicalChannelReject :: "open_logical_channel_reject \<Rightarrow> payload" where "P_OpenLogicalChannelReject x \<equiv> Block_Lc (OpenLogicalChannelReject x)"
abbreviation P_CloseLogicalChannel :: "close_logical_channel \<Rightarrow> payload" where "P_CloseLogicalChannel x \<equiv> Block_Lc (CloseLogicalChannel x)"
abbreviation P_CloseLogicalChannelAck :: "u16 \<Rightarrow> payload" where "P_CloseLogicalChannelAck x \<equiv> Block_Lc (CloseLogicalChannelAck x)"
abbreviation P_ForwardReverseParam :: "forward_reverse_param \<Rightarrow> payload" where "P_ForwardReverseParam x \<equiv> Block_Lc (ForwardReverseParam x)"
abbreviation P_ReverseData :: "reverse_data \<Rightarrow> payload" where "P_ReverseData x \<equiv> Block_Lc (ReverseData x)"
abbreviation P_OlcRejectCause :: "u16 \<Rightarrow> payload" where "P_OlcRejectCause x \<equiv> Block_Lc (OlcRejectCause x)"
abbreviation P_SourceCause_LcBlc :: "h245_source \<Rightarrow> u16 \<Rightarrow> payload" where "P_SourceCause_LcBlc x y \<equiv> Block_Lc (SourceCause_LcBlc x y)"
abbreviation P_RequestChannelClose :: "request_channel_close \<Rightarrow> payload" where "P_RequestChannelClose x \<equiv> Block_Clc (RequestChannelClose x)"
abbreviation P_RequestChannelCloseAck :: "u16 \<Rightarrow> payload" where "P_RequestChannelCloseAck x \<equiv> Block_Clc (RequestChannelCloseAck x)"
abbreviation P_RequestChannelCloseReject :: "request_channel_close_reject \<Rightarrow> payload" where "P_RequestChannelCloseReject x \<equiv> Block_Clc (RequestChannelCloseReject x)"
abbreviation P_RequestChannelCloseRelease :: "u16 \<Rightarrow> payload" where "P_RequestChannelCloseRelease x \<equiv> Block_Clc (RequestChannelCloseRelease x)"
abbreviation P_RccRejectCause :: "u16 \<Rightarrow> payload" where "P_RccRejectCause x \<equiv> Block_Clc (RccRejectCause x)"
abbreviation P_SourceCause_Clc :: "h245_source \<Rightarrow> u16 \<Rightarrow> payload" where "P_SourceCause_Clc x y \<equiv> Block_Clc (SourceCause_Clc x y)"
abbreviation P_MultiplexEntrySend :: "multiplex_entry_send \<Rightarrow> payload" where "P_MultiplexEntrySend x \<equiv> Block_Mt (MultiplexEntrySend x)"
abbreviation P_MultiplexEntrySendAck :: "multiplex_entry_send_ack \<Rightarrow> payload" where "P_MultiplexEntrySendAck x \<equiv> Block_Mt (MultiplexEntrySendAck x)"
abbreviation P_MultiplexEntrySendReject :: "multiplex_entry_send_reject \<Rightarrow> payload" where "P_MultiplexEntrySendReject x \<equiv> Block_Mt (MultiplexEntrySendReject x)"
abbreviation P_MultiplexEntrySendRelease :: "u16 \<Rightarrow> u32 list \<Rightarrow> payload" where "P_MultiplexEntrySendRelease x y \<equiv> Block_Mt (MultiplexEntrySendRelease x y)"
abbreviation P_MuxDescriptor :: "mux_descriptor \<Rightarrow> payload" where "P_MuxDescriptor x \<equiv> Block_Mt (MuxDescriptor x)"
abbreviation P_MeRejectCause :: "u16 \<Rightarrow> payload" where "P_MeRejectCause x \<equiv> Block_Mt (MeRejectCause x)"
abbreviation P_SourceCause_Mt :: "h245_source \<Rightarrow> cause_bytes \<Rightarrow> payload" where "P_SourceCause_Mt x y \<equiv> Block_Mt (SourceCause_Mt x y)"
abbreviation P_RequestMultiplexEntry :: "entry_numbers \<Rightarrow> payload" where "P_RequestMultiplexEntry x \<equiv> Block_Rme (RequestMultiplexEntry x)"
abbreviation P_RequestMultiplexEntryAck :: "entry_numbers \<Rightarrow> payload" where "P_RequestMultiplexEntryAck x \<equiv> Block_Rme (RequestMultiplexEntryAck x)"
abbreviation P_RequestMultiplexEntryReject :: "request_multiplex_entry_reject \<Rightarrow> payload" where "P_RequestMultiplexEntryReject x \<equiv> Block_Rme (RequestMultiplexEntryReject x)"
abbreviation P_RequestMultiplexEntryRelease :: "entry_numbers \<Rightarrow> payload" where "P_RequestMultiplexEntryRelease x \<equiv> Block_Rme (RequestMultiplexEntryRelease x)"
abbreviation P_RmeRejectCause :: "u16 \<Rightarrow> payload" where "P_RmeRejectCause x \<equiv> Block_Rme (RmeRejectCause x)"
abbreviation P_SourceCause_Rme :: "h245_source \<Rightarrow> u16 \<Rightarrow> payload" where "P_SourceCause_Rme x y \<equiv> Block_Rme (SourceCause_Rme x y)"
abbreviation P_RequestMode :: "request_mode \<Rightarrow> payload" where "P_RequestMode x \<equiv> Block_Mr (RequestMode x)"
abbreviation P_RequestModeAck :: "u8 \<Rightarrow> u16 \<Rightarrow> payload" where "P_RequestModeAck x y \<equiv> Block_Mr (RequestModeAck x y)"
abbreviation P_RequestModeReject :: "u8 \<Rightarrow> u16 \<Rightarrow> payload" where "P_RequestModeReject x y \<equiv> Block_Mr (RequestModeReject x y)"
abbreviation P_RequestModeRelease :: "payload" where "P_RequestModeRelease \<equiv> Block_Mr RequestModeRelease"
abbreviation P_Response :: "u16 \<Rightarrow> payload" where "P_Response x \<equiv> Block_Mr (Response x)"
abbreviation P_RmRejectCause :: "u16 \<Rightarrow> payload" where "P_RmRejectCause x \<equiv> Block_Mr (RmRejectCause x)"
abbreviation P_SourceCause_Mr :: "h245_source \<Rightarrow> u16 \<Rightarrow> payload" where "P_SourceCause_Mr x y \<equiv> Block_Mr (SourceCause_Mr x y)"
abbreviation P_RoundTripDelayRequest :: "u8 \<Rightarrow> payload" where "P_RoundTripDelayRequest x \<equiv> Block_Rtd (RoundTripDelayRequest x)"
abbreviation P_RoundTripDelayResponse :: "u8 \<Rightarrow> payload" where "P_RoundTripDelayResponse x \<equiv> Block_Rtd (RoundTripDelayResponse x)"
abbreviation P_Delay_Rtd :: "s32 \<Rightarrow> payload" where "P_Delay_Rtd x \<equiv> Block_Rtd (Delay_Rtd x)"
abbreviation P_MaintenanceLoopRequest :: "ml_type \<Rightarrow> payload" where "P_MaintenanceLoopRequest x \<equiv> Block_Ml (MaintenanceLoopRequest x)"
abbreviation P_MaintenanceLoopAck :: "ml_type \<Rightarrow> payload" where "P_MaintenanceLoopAck x \<equiv> Block_Ml (MaintenanceLoopAck x)"
abbreviation P_MaintenanceLoopReject :: "ml_type \<Rightarrow> u16 \<Rightarrow> payload" where "P_MaintenanceLoopReject x y \<equiv> Block_Ml (MaintenanceLoopReject x y)"
abbreviation P_MaintenanceLoopOffCommand :: "payload" where "P_MaintenanceLoopOffCommand \<equiv> Block_Ml MaintenanceLoopOffCommand"
abbreviation P_MlRequestType :: "ml_type \<Rightarrow> payload" where "P_MlRequestType x \<equiv> Block_Ml (MlRequestType x)"
abbreviation P_MlRejectCause :: "u16 \<Rightarrow> payload" where "P_MlRejectCause x \<equiv> Block_Ml (MlRejectCause x)"
abbreviation P_SourceCause_Ml :: "h245_source \<Rightarrow> u16 \<Rightarrow> payload" where "P_SourceCause_Ml x y \<equiv> Block_Ml (SourceCause_Ml x y)"

section \<open>Casts\<close>

definition deref :: "(payload \<Rightarrow> 'a option) \<Rightarrow> payload option \<Rightarrow> 'a res" where
  "deref sel p =
     (case p of
        None \<Rightarrow> Inl NullDeref
      | Some b \<Rightarrow> (case sel b of None \<Rightarrow> Inl BadCast | Some x \<Rightarrow> Inr x))"

lemma deref_simps [simp]:
  "deref sel None = Inl NullDeref"
  "deref sel (Some b) = (case sel b of None \<Rightarrow> Inl BadCast | Some x \<Rightarrow> Inr x)"
  by (simp_all add: deref_def)

lemma deref_Inr_iff: "deref sel p = Inr x \<longleftrightarrow> (\<exists>b. p = Some b \<and> sel b = Some x)"
  by (cases p) (auto split: option.splits)

definition to_MasterSlaveDetermination :: "payload \<Rightarrow> master_slave_determination option" where
  "to_MasterSlaveDetermination p = (case p of P_MasterSlaveDetermination x \<Rightarrow> Some x | _ \<Rightarrow> None)"

definition to_MasterSlaveDeterminationAck :: "payload \<Rightarrow> u16 option" where
  "to_MasterSlaveDeterminationAck p = (case p of P_MasterSlaveDeterminationAck x \<Rightarrow> Some x | _ \<Rightarrow> None)"

definition to_TerminalCapabilitySet :: "payload \<Rightarrow> terminal_capability_set option" where
  "to_TerminalCapabilitySet p = (case p of P_TerminalCapabilitySet x \<Rightarrow> Some x | _ \<Rightarrow> None)"

definition to_TerminalCapabilitySetAck :: "payload \<Rightarrow> u8 option" where
  "to_TerminalCapabilitySetAck p = (case p of P_TerminalCapabilitySetAck x \<Rightarrow> Some x | _ \<Rightarrow> None)"

definition to_TerminalCapabilitySetReject :: "payload \<Rightarrow> terminal_capability_set_reject option" where
  "to_TerminalCapabilitySetReject p = (case p of P_TerminalCapabilitySetReject x \<Rightarrow> Some x | _ \<Rightarrow> None)"

definition to_OpenLogicalChannel :: "payload \<Rightarrow> open_logical_channel option" where
  "to_OpenLogicalChannel p = (case p of P_OpenLogicalChannel x \<Rightarrow> Some x | _ \<Rightarrow> None)"

definition to_OpenLogicalChannelAck :: "payload \<Rightarrow> open_logical_channel_ack option" where
  "to_OpenLogicalChannelAck p = (case p of P_OpenLogicalChannelAck x \<Rightarrow> Some x | _ \<Rightarrow> None)"

definition to_OpenLogicalChannelConfirm :: "payload \<Rightarrow> u16 option" where
  "to_OpenLogicalChannelConfirm p = (case p of P_OpenLogicalChannelConfirm x \<Rightarrow> Some x | _ \<Rightarrow> None)"

definition to_OpenLogicalChannelReject :: "payload \<Rightarrow> open_logical_channel_reject option" where
  "to_OpenLogicalChannelReject p = (case p of P_OpenLogicalChannelReject x \<Rightarrow> Some x | _ \<Rightarrow> None)"

definition to_CloseLogicalChannel :: "payload \<Rightarrow> close_logical_channel option" where
  "to_CloseLogicalChannel p = (case p of P_CloseLogicalChannel x \<Rightarrow> Some x | _ \<Rightarrow> None)"

definition to_CloseLogicalChannelAck :: "payload \<Rightarrow> u16 option" where
  "to_CloseLogicalChannelAck p = (case p of P_CloseLogicalChannelAck x \<Rightarrow> Some x | _ \<Rightarrow> None)"

definition to_RequestChannelClose :: "payload \<Rightarrow> request_channel_close option" where
  "to_RequestChannelClose p = (case p of P_RequestChannelClose x \<Rightarrow> Some x | _ \<Rightarrow> None)"

definition to_RequestChannelCloseAck :: "payload \<Rightarrow> u16 option" where
  "to_RequestChannelCloseAck p = (case p of P_RequestChannelCloseAck x \<Rightarrow> Some x | _ \<Rightarrow> None)"

definition to_RequestChannelCloseReject :: "payload \<Rightarrow> request_channel_close_reject option" where
  "to_RequestChannelCloseReject p = (case p of P_RequestChannelCloseReject x \<Rightarrow> Some x | _ \<Rightarrow> None)"

definition to_RequestChannelCloseRelease :: "payload \<Rightarrow> u16 option" where
  "to_RequestChannelCloseRelease p = (case p of P_RequestChannelCloseRelease x \<Rightarrow> Some x | _ \<Rightarrow> None)"

definition to_MultiplexEntrySend :: "payload \<Rightarrow> multiplex_entry_send option" where
  "to_MultiplexEntrySend p = (case p of P_MultiplexEntrySend x \<Rightarrow> Some x | _ \<Rightarrow> None)"

definition to_MultiplexEntrySendAck :: "payload \<Rightarrow> multiplex_entry_send_ack option" where
  "to_MultiplexEntrySendAck p = (case p of P_MultiplexEntrySendAck x \<Rightarrow> Some x | _ \<Rightarrow> None)"

definition to_MultiplexEntrySendReject :: "payload \<Rightarrow> multiplex_entry_send_reject option" where
  "to_MultiplexEntrySendReject p = (case p of P_MultiplexEntrySendReject x \<Rightarrow> Some x | _ \<Rightarrow> None)"

definition to_RequestMultiplexEntry :: "payload \<Rightarrow> entry_numbers option" where
  "to_RequestMultiplexEntry p = (case p of P_RequestMultiplexEntry x \<Rightarrow> Some x | _ \<Rightarrow> None)"

definition to_RequestMultiplexEntryReject :: "payload \<Rightarrow> request_multiplex_entry_reject option" where
  "to_RequestMultiplexEntryReject p = (case p of P_RequestMultiplexEntryReject x \<Rightarrow> Some x | _ \<Rightarrow> None)"

definition to_RequestMode :: "payload \<Rightarrow> request_mode option" where
  "to_RequestMode p = (case p of P_RequestMode x \<Rightarrow> Some x | _ \<Rightarrow> None)"

definition to_RequestModeAck :: "payload \<Rightarrow> (u8 \<times> u16) option" where
  "to_RequestModeAck p = (case p of P_RequestModeAck x y \<Rightarrow> Some (x, y) | _ \<Rightarrow> None)"

definition to_RequestModeReject :: "payload \<Rightarrow> (u8 \<times> u16) option" where
  "to_RequestModeReject p = (case p of P_RequestModeReject x y \<Rightarrow> Some (x, y) | _ \<Rightarrow> None)"

definition to_RoundTripDelayRequest :: "payload \<Rightarrow> u8 option" where
  "to_RoundTripDelayRequest p = (case p of P_RoundTripDelayRequest x \<Rightarrow> Some x | _ \<Rightarrow> None)"

definition to_RoundTripDelayResponse :: "payload \<Rightarrow> u8 option" where
  "to_RoundTripDelayResponse p = (case p of P_RoundTripDelayResponse x \<Rightarrow> Some x | _ \<Rightarrow> None)"

definition to_MaintenanceLoopRequest :: "payload \<Rightarrow> ml_type option" where
  "to_MaintenanceLoopRequest p = (case p of P_MaintenanceLoopRequest x \<Rightarrow> Some x | _ \<Rightarrow> None)"

definition to_MaintenanceLoopReject :: "payload \<Rightarrow> (ml_type \<times> u16) option" where
  "to_MaintenanceLoopReject p = (case p of P_MaintenanceLoopReject x y \<Rightarrow> Some (x, y) | _ \<Rightarrow> None)"

definition to_ForwardReverseParam :: "payload \<Rightarrow> forward_reverse_param option" where
  "to_ForwardReverseParam p = (case p of P_ForwardReverseParam x \<Rightarrow> Some x | _ \<Rightarrow> None)"

definition to_ReverseData :: "payload \<Rightarrow> reverse_data option" where
  "to_ReverseData p = (case p of P_ReverseData x \<Rightarrow> Some x | _ \<Rightarrow> None)"

definition to_OlcRejectCause :: "payload \<Rightarrow> u16 option" where
  "to_OlcRejectCause p = (case p of P_OlcRejectCause x \<Rightarrow> Some x | _ \<Rightarrow> None)"

definition to_RccRejectCause :: "payload \<Rightarrow> u16 option" where
  "to_RccRejectCause p = (case p of P_RccRejectCause x \<Rightarrow> Some x | _ \<Rightarrow> None)"

definition to_MuxDescriptor :: "payload \<Rightarrow> mux_descriptor option" where
  "to_MuxDescriptor p = (case p of P_MuxDescriptor x \<Rightarrow> Some x | _ \<Rightarrow> None)"

definition to_MeRejectCause :: "payload \<Rightarrow> u16 option" where
  "to_MeRejectCause p = (case p of P_MeRejectCause x \<Rightarrow> Some x | _ \<Rightarrow> None)"

definition to_RmeRejectCause :: "payload \<Rightarrow> u16 option" where
  "to_RmeRejectCause p = (case p of P_RmeRejectCause x \<Rightarrow> Some x | _ \<Rightarrow> None)"

definition to_Response :: "payload \<Rightarrow> u16 option" where
  "to_Response p = (case p of P_Response x \<Rightarrow> Some x | _ \<Rightarrow> None)"

definition to_RmRejectCause :: "payload \<Rightarrow> u16 option" where
  "to_RmRejectCause p = (case p of P_RmRejectCause x \<Rightarrow> Some x | _ \<Rightarrow> None)"

definition to_MlRequestType :: "payload \<Rightarrow> ml_type option" where
  "to_MlRequestType p = (case p of P_MlRequestType x \<Rightarrow> Some x | _ \<Rightarrow> None)"

definition to_MlRejectCause :: "payload \<Rightarrow> u16 option" where
  "to_MlRejectCause p = (case p of P_MlRejectCause x \<Rightarrow> Some x | _ \<Rightarrow> None)"

lemmas cast_defs =
  to_MasterSlaveDetermination_def
  to_MasterSlaveDeterminationAck_def
  to_TerminalCapabilitySet_def
  to_TerminalCapabilitySetAck_def
  to_TerminalCapabilitySetReject_def
  to_OpenLogicalChannel_def
  to_OpenLogicalChannelAck_def
  to_OpenLogicalChannelConfirm_def
  to_OpenLogicalChannelReject_def
  to_CloseLogicalChannel_def
  to_CloseLogicalChannelAck_def
  to_RequestChannelClose_def
  to_RequestChannelCloseAck_def
  to_RequestChannelCloseReject_def
  to_RequestChannelCloseRelease_def
  to_MultiplexEntrySend_def
  to_MultiplexEntrySendAck_def
  to_MultiplexEntrySendReject_def
  to_RequestMultiplexEntry_def
  to_RequestMultiplexEntryReject_def
  to_RequestMode_def
  to_RequestModeAck_def
  to_RequestModeReject_def
  to_RoundTripDelayRequest_def
  to_RoundTripDelayResponse_def
  to_MaintenanceLoopRequest_def
  to_MaintenanceLoopReject_def
  to_ForwardReverseParam_def
  to_ReverseData_def
  to_OlcRejectCause_def
  to_RccRejectCause_def
  to_MuxDescriptor_def
  to_MeRejectCause_def
  to_RmeRejectCause_def
  to_Response_def
  to_RmRejectCause_def
  to_MlRequestType_def
  to_MlRejectCause_def

lemma cast_simps [simp]:
  "to_MasterSlaveDetermination (P_MasterSlaveDetermination x1) = Some x1"
  "to_MasterSlaveDeterminationAck (P_MasterSlaveDeterminationAck x2) = Some x2"
  "to_TerminalCapabilitySet (P_TerminalCapabilitySet x3) = Some x3"
  "to_TerminalCapabilitySetAck (P_TerminalCapabilitySetAck x4) = Some x4"
  "to_TerminalCapabilitySetReject (P_TerminalCapabilitySetReject x5) = Some x5"
  "to_OpenLogicalChannel (P_OpenLogicalChannel x6) = Some x6"
  "to_OpenLogicalChannelAck (P_OpenLogicalChannelAck x7) = Some x7"
  "to_OpenLogicalChannelConfirm (P_OpenLogicalChannelConfirm x8) = Some x8"
  "to_OpenLogicalChannelReject (P_OpenLogicalChannelReject x9) = Some x9"
  "to_CloseLogicalChannel (P_CloseLogicalChannel x10) = Some x10"
  "to_CloseLogicalChannelAck (P_CloseLogicalChannelAck x11) = Some x11"
  "to_RequestChannelClose (P_RequestChannelClose x12) = Some x12"
  "to_RequestChannelCloseAck (P_RequestChannelCloseAck x13) = Some x13"
  "to_RequestChannelCloseReject (P_RequestChannelCloseReject x14) = Some x14"
  "to_RequestChannelCloseRelease (P_RequestChannelCloseRelease x15) = Some x15"
  "to_MultiplexEntrySend (P_MultiplexEntrySend x16) = Some x16"
  "to_MultiplexEntrySendAck (P_MultiplexEntrySendAck x17) = Some x17"
  "to_MultiplexEntrySendReject (P_MultiplexEntrySendReject x18) = Some x18"
  "to_RequestMultiplexEntry (P_RequestMultiplexEntry x19) = Some x19"
  "to_RequestMultiplexEntryReject (P_RequestMultiplexEntryReject x20) = Some x20"
  "to_RequestMode (P_RequestMode x21) = Some x21"
  "to_RequestModeAck (P_RequestModeAck x22 y22) = Some (x22, y22)"
  "to_RequestModeReject (P_RequestModeReject x23 y23) = Some (x23, y23)"
  "to_RoundTripDelayRequest (P_RoundTripDelayRequest x24) = Some x24"
  "to_RoundTripDelayResponse (P_RoundTripDelayResponse x25) = Some x25"
  "to_MaintenanceLoopRequest (P_MaintenanceLoopRequest x26) = Some x26"
  "to_MaintenanceLoopReject (P_MaintenanceLoopReject x27 y27) = Some (x27, y27)"
  "to_ForwardReverseParam (P_ForwardReverseParam x28) = Some x28"
  "to_ReverseData (P_ReverseData x29) = Some x29"
  "to_OlcRejectCause (P_OlcRejectCause x30) = Some x30"
  "to_RccRejectCause (P_RccRejectCause x31) = Some x31"
  "to_MuxDescriptor (P_MuxDescriptor x32) = Some x32"
  "to_MeRejectCause (P_MeRejectCause x33) = Some x33"
  "to_RmeRejectCause (P_RmeRejectCause x34) = Some x34"
  "to_Response (P_Response x35) = Some x35"
  "to_RmRejectCause (P_RmRejectCause x36) = Some x36"
  "to_MlRequestType (P_MlRequestType x37) = Some x37"
  "to_MlRejectCause (P_MlRejectCause x38) = Some x38"
  by (simp_all add: cast_defs)

section \<open>Messages, primitives and effects\<close>

record h245_msg = \<comment> \<open>\<^verbatim>\<open>S_H245Msg\<close>\<close>
  Type1 :: u8
  Type2 :: u8
  pData :: "payload option"

datatype direction = INCOMING | OUTGOING

text \<open>\<^verbatim>\<open>Size\<close> is left out: it is the size of the block, or 0 with a null pointer. \<open>None\<close> in
  \<open>Dir\<close> and \<open>EncodedMsg\<close> says that the sender does not write the member.\<close>

record inf_header = \<comment> \<open>\<^verbatim>\<open>S_InfHeader\<close>\<close>
  InfType :: u32
  InfId :: u32
  InfSupplement1 :: u32
  InfSupplement2 :: u32
  pParameter :: "payload option"
  Dir :: "direction option"
  EncodedMsg :: "u8 list option option"

definition primitive :: "u32 \<Rightarrow> u32 \<Rightarrow> u32 \<Rightarrow> payload option \<Rightarrow> inf_header" where
  "primitive infId sup1 sup2 p =
     \<lparr> InfType = H245_PRIMITIVE, InfId = infId, InfSupplement1 = sup1, InfSupplement2 = sup2,
       pParameter = p, Dir = None, EncodedMsg = None \<rparr>"

datatype timer_observer = ObsSE | ObsMSD | ObsCE | ObsMT

datatype msd_status = MSD_INDETERMINATE | MSD_MASTER | MSD_SLAVE

datatype msd_err_code =
  MSD_ERROR_CODE_A | MSD_ERROR_CODE_B | MSD_ERROR_CODE_C
  | MSD_ERROR_CODE_D | MSD_ERROR_CODE_E | MSD_ERROR_CODE_F

datatype ce_source = CE_USER | CE_PROTOCOL

datatype ce_direction = CE_OUTGOING | CE_INCOMING

text \<open>What a handler asks of its surroundings, in the order of its calls: the methods of
  \<^verbatim>\<open>SEBase\<close>, and those of the two observers \<^verbatim>\<open>MSDObserver\<close> and \<^verbatim>\<open>CEObserver\<close>.\<close>

datatype effect =
    MessageSend h245_msg
  | PrimitiveSend inf_header
  | RequestTimer s32 s32 s32 "timer_observer option"
  | CancelTimer s32
  | MSDDetermineConfirm msd_status
  | MSDDetermineIndication msd_status
  | MSDRejectIndication
  | MSDErrorIndication msd_err_code
  | CETransferIndication terminal_capability_set
  | CETransferConfirm
  | CERejectIndication ce_source u16 ce_direction

definition send_msg :: "u8 \<Rightarrow> u8 \<Rightarrow> payload \<Rightarrow> effect" where
  "send_msg type1 type2 p = MessageSend \<lparr> Type1 = type1, Type2 = type2, pData = Some p \<rparr>"

fun is_timer_effect :: "effect \<Rightarrow> bool" where
  "is_timer_effect (RequestTimer _ _ _ _) = True"
| "is_timer_effect (CancelTimer _) = True"
| "is_timer_effect _ = False"

text \<open>The calls out of the entity, to the H.245 object and to the observers of MSD and CE. All of
  them end in the terminal, which may call back into the entity before it returns.\<close>

fun is_upcall :: "effect \<Rightarrow> bool" where
  "is_upcall (MessageSend _) = False"
| "is_upcall (RequestTimer _ _ _ _) = False"
| "is_upcall (CancelTimer _) = False"
| "is_upcall _ = True"

lemma is_upcall_send_msg [simp]: "\<not> is_upcall (send_msg a b p)"
  by (simp add: send_msg_def)

text \<open>Nothing but calls out follows the first call out: what the terminal calls back then finds
  the handler done.\<close>

definition upcalls_last :: "effect list \<Rightarrow> bool" where
  "upcalls_last es \<longleftrightarrow> list_all is_upcall (dropWhile (\<lambda>e. \<not> is_upcall e) es)"

text \<open>The timer requests among the effects, as pairs of id and sequence number.\<close>

fun timer_requests :: "effect list \<Rightarrow> (s32 \<times> s32) list" where
  "timer_requests [] = []"
| "timer_requests (RequestTimer i n c obs # es) = (i, n) # timer_requests es"
| "timer_requests (_ # es) = timer_requests es"

lemma timer_requests_append [simp]: "timer_requests (xs @ ys) = timer_requests xs @ timer_requests ys"
  by (induction xs rule: timer_requests.induct) simp_all

lemma timer_requests_send_msg [simp]: "timer_requests (send_msg a b p # es) = timer_requests es"
  by (simp add: send_msg_def)

end
