(* ===== verification/SeEvents.thy ===== *)
theory SeEvents
  imports SeTypes
begin

text \<open>
  The events of the signalling entity and the tables that find them (\<^verbatim>\<open>se/include/se.h\<close>,
  \<^verbatim>\<open>se/src/se.cpp\<close>). An event number is a class in the high byte and an event of that class
  below it; the datatype has one constructor per class over the events of the class, and
  \<open>event_no\<close> gives the number of the source. The tables keep the order of the source, without
  the closing \<^verbatim>\<open>STOPPER\<close> row, which no search ever selects: \<open>None\<close> is its result.
\<close>

section \<open>Events\<close>

datatype msdse_event =
    EVENT_MSG_MSD | EVENT_MSG_MSD_ACK | EVENT_MSG_MSD_RJT | EVENT_TIM_MSD_T106 |
    EVENT_MSG_MSD_RLS

datatype cese_event =
    EVENT_MSG_CE | EVENT_MSG_CE_ACK | EVENT_MSG_CE_RJT | EVENT_TIM_CE_T101 | EVENT_MSG_CE_RLS

datatype lcblcse_event =
    EVENT_PTV_LCBLC_ETB_REQ | EVENT_MSG_LCBLC_OP | EVENT_PTV_LCBLC_ETB_RPS |
    EVENT_PTV_LCBLC_RLS_REQ | EVENT_MSG_LCBLC_OP_ACK | EVENT_MSG_LCBLC_OP_CFM |
    EVENT_MSG_LCBLC_OP_RJT | EVENT_TIM_LCBLC_T103 | EVENT_MSG_LCBLC_CL | EVENT_MSG_LCBLC_CL_ACK

datatype clcse_event =
    EVENT_PTV_CLC_CLS_REQ | EVENT_MSG_CLC | EVENT_PTV_CLC_CLS_RPS | EVENT_PTV_CLC_RJT_REQ |
    EVENT_MSG_CLC_ACK | EVENT_MSG_CLC_RJT | EVENT_TIM_CLC_T108 | EVENT_MSG_CLC_RLS

datatype mtse_event =
    EVENT_PTV_MT_TRF_REQ | EVENT_MSG_MT | EVENT_PTV_MT_TRF_RPS | EVENT_PTV_MT_RJT_REQ |
    EVENT_MSG_MT_ACK | EVENT_MSG_MT_RJT | EVENT_TIM_MT_T104 | EVENT_MSG_MT_RLS

datatype rmese_event =
    EVENT_PTV_RME_SEND_REQ | EVENT_MSG_RME | EVENT_PTV_RME_SEND_RPS | EVENT_PTV_RME_RJT_REQ |
    EVENT_MSG_RME_ACK | EVENT_MSG_RME_RJT | EVENT_TIM_RME_T107 | EVENT_MSG_RME_RLS

datatype mrse_event =
    EVENT_PTV_MR_TRF_REQ | EVENT_MSG_MR | EVENT_PTV_MR_TRF_RPS | EVENT_PTV_MR_RJT_REQ |
    EVENT_MSG_MR_ACK | EVENT_MSG_MR_RJT | EVENT_TIM_MR_T109 | EVENT_MSG_MR_RLS

datatype rtdse_event =
    EVENT_PTV_RTD_TRF_REQ | EVENT_MSG_RTD_REQ | EVENT_TIM_RTD_T105 | EVENT_MSG_RTD_RPS

datatype mlse_event =
    EVENT_PTV_ML_LOOP_REQ | EVENT_MSG_ML_REQ | EVENT_PTV_ML_LOOP_RPS | EVENT_PTV_ML_RLS_REQ |
    EVENT_MSG_ML_ACK | EVENT_MSG_ML_RJT | EVENT_TIM_ML_T102 | EVENT_MSG_ML_OFF_CMD

datatype nsd_event =
    EVENT_PTV_NSD_REQ | EVENT_MSG_NSD_REQ | EVENT_PTV_NSD_RPS | EVENT_MSG_NSD_RPS |
    EVENT_PTV_NSD_CMD | EVENT_MSG_NSD_CMD | EVENT_PTV_NSD_IDC | EVENT_MSG_NSD_IDC

datatype cm_event =
    EVENT_PTV_CM_REQ | EVENT_MSG_CM_REQ | EVENT_PTV_CM_RPS | EVENT_MSG_CM_RPS |
    EVENT_PTV_CM_CMD | EVENT_MSG_CM_CMD

datatype h223aar_event =
    EVENT_PTV_H223AAR | EVENT_MSG_H223AAR | EVENT_PTV_H223AAR_ACK | EVENT_MSG_H223AAR_ACK |
    EVENT_PTV_H223AAR_RJT | EVENT_MSG_H223AAR_RJT

datatype cnf_event =
    EVENT_PTV_CNF_REQ | EVENT_MSG_CNF_REQ | EVENT_PTV_CNF_RPS | EVENT_MSG_CNF_RPS

datatype cmd_event =
    EVENT_PTV_CMD_STCS | EVENT_MSG_CMD_STCS | EVENT_PTV_CMD_ECRPT | EVENT_MSG_CMD_ECRPT |
    EVENT_PTV_CMD_FC | EVENT_MSG_CMD_FC | EVENT_PTV_CMD_ES | EVENT_MSG_CMD_ES |
    EVENT_PTV_CMD_MSCL | EVENT_MSG_CMD_MSCL | EVENT_PTV_CMD_CNF | EVENT_MSG_CMD_CNF |
    EVENT_PTV_CMD_HMR | EVENT_MSG_CMD_HMR

datatype idc_event =
    EVENT_PTV_IDC_FNU | EVENT_MSG_IDC_FNU | EVENT_PTV_IDC_MSCL | EVENT_MSG_IDC_MSCL |
    EVENT_PTV_IDC_JTR | EVENT_MSG_IDC_JTR | EVENT_PTV_IDC_H223SKW | EVENT_MSG_IDC_H223SKW |
    EVENT_PTV_IDC_NWATMVC | EVENT_MSG_IDC_NWATMVC | EVENT_PTV_IDC_UI | EVENT_MSG_IDC_UI |
    EVENT_PTV_IDC_CNF | EVENT_MSG_IDC_CNF | EVENT_PTV_IDC_H2250MXSKW |
    EVENT_MSG_IDC_H2250MXSKW | EVENT_PTV_IDC_MCLCT | EVENT_MSG_IDC_MCLCT | EVENT_PTV_IDC_VI |
    EVENT_MSG_IDC_VI | EVENT_PTV_IDC_FNS | EVENT_MSG_IDC_FNS | EVENT_PTV_IDC_FC |
    EVENT_MSG_IDC_FC

datatype event =
    EVENT_MSDSE msdse_event
  | EVENT_CESE cese_event
  | EVENT_LCBLCSE lcblcse_event
  | EVENT_CLCSE clcse_event
  | EVENT_MTSE mtse_event
  | EVENT_RMESE rmese_event
  | EVENT_MRSE mrse_event
  | EVENT_RTDSE rtdse_event
  | EVENT_MLSE mlse_event
  | EVENT_NSD nsd_event
  | EVENT_CM cm_event
  | EVENT_H223AAR h223aar_event
  | EVENT_CNF cnf_event
  | EVENT_CMD cmd_event
  | EVENT_IDC idc_event

text \<open>The numbers within a class.\<close>

fun msdse_no :: "msdse_event \<Rightarrow> u32" where
  "msdse_no EVENT_MSG_MSD = 0x00010000"
| "msdse_no EVENT_MSG_MSD_ACK = 0x00020000"
| "msdse_no EVENT_MSG_MSD_RJT = 0x00030000"
| "msdse_no EVENT_TIM_MSD_T106 = 0x00040000"
| "msdse_no EVENT_MSG_MSD_RLS = 0x00050000"

fun cese_no :: "cese_event \<Rightarrow> u32" where
  "cese_no EVENT_MSG_CE = 0x00010000"
| "cese_no EVENT_MSG_CE_ACK = 0x00040000"
| "cese_no EVENT_MSG_CE_RJT = 0x00050000"
| "cese_no EVENT_TIM_CE_T101 = 0x00060000"
| "cese_no EVENT_MSG_CE_RLS = 0x00070000"

fun lcblcse_no :: "lcblcse_event \<Rightarrow> u32" where
  "lcblcse_no EVENT_PTV_LCBLC_ETB_REQ = 0x00000000"
| "lcblcse_no EVENT_MSG_LCBLC_OP = 0x00010000"
| "lcblcse_no EVENT_PTV_LCBLC_ETB_RPS = 0x00020000"
| "lcblcse_no EVENT_PTV_LCBLC_RLS_REQ = 0x00030000"
| "lcblcse_no EVENT_MSG_LCBLC_OP_ACK = 0x00040000"
| "lcblcse_no EVENT_MSG_LCBLC_OP_CFM = 0x00050000"
| "lcblcse_no EVENT_MSG_LCBLC_OP_RJT = 0x00060000"
| "lcblcse_no EVENT_TIM_LCBLC_T103 = 0x00070000"
| "lcblcse_no EVENT_MSG_LCBLC_CL = 0x00080000"
| "lcblcse_no EVENT_MSG_LCBLC_CL_ACK = 0x00090000"

fun clcse_no :: "clcse_event \<Rightarrow> u32" where
  "clcse_no EVENT_PTV_CLC_CLS_REQ = 0x00000000"
| "clcse_no EVENT_MSG_CLC = 0x00010000"
| "clcse_no EVENT_PTV_CLC_CLS_RPS = 0x00020000"
| "clcse_no EVENT_PTV_CLC_RJT_REQ = 0x00030000"
| "clcse_no EVENT_MSG_CLC_ACK = 0x00040000"
| "clcse_no EVENT_MSG_CLC_RJT = 0x00050000"
| "clcse_no EVENT_TIM_CLC_T108 = 0x00060000"
| "clcse_no EVENT_MSG_CLC_RLS = 0x00070000"

fun mtse_no :: "mtse_event \<Rightarrow> u32" where
  "mtse_no EVENT_PTV_MT_TRF_REQ = 0x00000000"
| "mtse_no EVENT_MSG_MT = 0x00010000"
| "mtse_no EVENT_PTV_MT_TRF_RPS = 0x00020000"
| "mtse_no EVENT_PTV_MT_RJT_REQ = 0x00030000"
| "mtse_no EVENT_MSG_MT_ACK = 0x00040000"
| "mtse_no EVENT_MSG_MT_RJT = 0x00050000"
| "mtse_no EVENT_TIM_MT_T104 = 0x00060000"
| "mtse_no EVENT_MSG_MT_RLS = 0x00070000"

fun rmese_no :: "rmese_event \<Rightarrow> u32" where
  "rmese_no EVENT_PTV_RME_SEND_REQ = 0x00000000"
| "rmese_no EVENT_MSG_RME = 0x00010000"
| "rmese_no EVENT_PTV_RME_SEND_RPS = 0x00020000"
| "rmese_no EVENT_PTV_RME_RJT_REQ = 0x00030000"
| "rmese_no EVENT_MSG_RME_ACK = 0x00040000"
| "rmese_no EVENT_MSG_RME_RJT = 0x00050000"
| "rmese_no EVENT_TIM_RME_T107 = 0x00060000"
| "rmese_no EVENT_MSG_RME_RLS = 0x00070000"

fun mrse_no :: "mrse_event \<Rightarrow> u32" where
  "mrse_no EVENT_PTV_MR_TRF_REQ = 0x00000000"
| "mrse_no EVENT_MSG_MR = 0x00010000"
| "mrse_no EVENT_PTV_MR_TRF_RPS = 0x00020000"
| "mrse_no EVENT_PTV_MR_RJT_REQ = 0x00030000"
| "mrse_no EVENT_MSG_MR_ACK = 0x00040000"
| "mrse_no EVENT_MSG_MR_RJT = 0x00050000"
| "mrse_no EVENT_TIM_MR_T109 = 0x00060000"
| "mrse_no EVENT_MSG_MR_RLS = 0x00070000"

fun rtdse_no :: "rtdse_event \<Rightarrow> u32" where
  "rtdse_no EVENT_PTV_RTD_TRF_REQ = 0x00000000"
| "rtdse_no EVENT_MSG_RTD_REQ = 0x00010000"
| "rtdse_no EVENT_TIM_RTD_T105 = 0x00020000"
| "rtdse_no EVENT_MSG_RTD_RPS = 0x00030000"

fun mlse_no :: "mlse_event \<Rightarrow> u32" where
  "mlse_no EVENT_PTV_ML_LOOP_REQ = 0x00000000"
| "mlse_no EVENT_MSG_ML_REQ = 0x00010000"
| "mlse_no EVENT_PTV_ML_LOOP_RPS = 0x00020000"
| "mlse_no EVENT_PTV_ML_RLS_REQ = 0x00030000"
| "mlse_no EVENT_MSG_ML_ACK = 0x00040000"
| "mlse_no EVENT_MSG_ML_RJT = 0x00050000"
| "mlse_no EVENT_TIM_ML_T102 = 0x00060000"
| "mlse_no EVENT_MSG_ML_OFF_CMD = 0x00070000"

fun nsd_no :: "nsd_event \<Rightarrow> u32" where
  "nsd_no EVENT_PTV_NSD_REQ = 0x00000000"
| "nsd_no EVENT_MSG_NSD_REQ = 0x00010000"
| "nsd_no EVENT_PTV_NSD_RPS = 0x00020000"
| "nsd_no EVENT_MSG_NSD_RPS = 0x00030000"
| "nsd_no EVENT_PTV_NSD_CMD = 0x00040000"
| "nsd_no EVENT_MSG_NSD_CMD = 0x00050000"
| "nsd_no EVENT_PTV_NSD_IDC = 0x00060000"
| "nsd_no EVENT_MSG_NSD_IDC = 0x00070000"

fun cm_no :: "cm_event \<Rightarrow> u32" where
  "cm_no EVENT_PTV_CM_REQ = 0x00000000"
| "cm_no EVENT_MSG_CM_REQ = 0x00010000"
| "cm_no EVENT_PTV_CM_RPS = 0x00020000"
| "cm_no EVENT_MSG_CM_RPS = 0x00030000"
| "cm_no EVENT_PTV_CM_CMD = 0x00040000"
| "cm_no EVENT_MSG_CM_CMD = 0x00050000"

fun h223aar_no :: "h223aar_event \<Rightarrow> u32" where
  "h223aar_no EVENT_PTV_H223AAR = 0x00000000"
| "h223aar_no EVENT_MSG_H223AAR = 0x00010000"
| "h223aar_no EVENT_PTV_H223AAR_ACK = 0x00020000"
| "h223aar_no EVENT_MSG_H223AAR_ACK = 0x00030000"
| "h223aar_no EVENT_PTV_H223AAR_RJT = 0x00040000"
| "h223aar_no EVENT_MSG_H223AAR_RJT = 0x00050000"

fun cnf_no :: "cnf_event \<Rightarrow> u32" where
  "cnf_no EVENT_PTV_CNF_REQ = 0x00000000"
| "cnf_no EVENT_MSG_CNF_REQ = 0x00010000"
| "cnf_no EVENT_PTV_CNF_RPS = 0x00020000"
| "cnf_no EVENT_MSG_CNF_RPS = 0x00030000"

fun cmd_no :: "cmd_event \<Rightarrow> u32" where
  "cmd_no EVENT_PTV_CMD_STCS = 0x00000000"
| "cmd_no EVENT_MSG_CMD_STCS = 0x00010000"
| "cmd_no EVENT_PTV_CMD_ECRPT = 0x00020000"
| "cmd_no EVENT_MSG_CMD_ECRPT = 0x00030000"
| "cmd_no EVENT_PTV_CMD_FC = 0x00040000"
| "cmd_no EVENT_MSG_CMD_FC = 0x00050000"
| "cmd_no EVENT_PTV_CMD_ES = 0x00060000"
| "cmd_no EVENT_MSG_CMD_ES = 0x00070000"
| "cmd_no EVENT_PTV_CMD_MSCL = 0x00080000"
| "cmd_no EVENT_MSG_CMD_MSCL = 0x00090000"
| "cmd_no EVENT_PTV_CMD_CNF = 0x000A0000"
| "cmd_no EVENT_MSG_CMD_CNF = 0x000B0000"
| "cmd_no EVENT_PTV_CMD_HMR = 0x000C0000"
| "cmd_no EVENT_MSG_CMD_HMR = 0x000D0000"

fun idc_no :: "idc_event \<Rightarrow> u32" where
  "idc_no EVENT_PTV_IDC_FNU = 0x00000000"
| "idc_no EVENT_MSG_IDC_FNU = 0x00010000"
| "idc_no EVENT_PTV_IDC_MSCL = 0x00020000"
| "idc_no EVENT_MSG_IDC_MSCL = 0x00030000"
| "idc_no EVENT_PTV_IDC_JTR = 0x00040000"
| "idc_no EVENT_MSG_IDC_JTR = 0x00050000"
| "idc_no EVENT_PTV_IDC_H223SKW = 0x00060000"
| "idc_no EVENT_MSG_IDC_H223SKW = 0x00070000"
| "idc_no EVENT_PTV_IDC_NWATMVC = 0x00080000"
| "idc_no EVENT_MSG_IDC_NWATMVC = 0x00090000"
| "idc_no EVENT_PTV_IDC_UI = 0x000A0000"
| "idc_no EVENT_MSG_IDC_UI = 0x000B0000"
| "idc_no EVENT_PTV_IDC_CNF = 0x000C0000"
| "idc_no EVENT_MSG_IDC_CNF = 0x000D0000"
| "idc_no EVENT_PTV_IDC_H2250MXSKW = 0x000E0000"
| "idc_no EVENT_MSG_IDC_H2250MXSKW = 0x000F0000"
| "idc_no EVENT_PTV_IDC_MCLCT = 0x00100000"
| "idc_no EVENT_MSG_IDC_MCLCT = 0x00110000"
| "idc_no EVENT_PTV_IDC_VI = 0x00120000"
| "idc_no EVENT_MSG_IDC_VI = 0x00130000"
| "idc_no EVENT_PTV_IDC_FNS = 0x00140000"
| "idc_no EVENT_MSG_IDC_FNS = 0x00150000"
| "idc_no EVENT_PTV_IDC_FC = 0x00160000"
| "idc_no EVENT_MSG_IDC_FC = 0x00170000"

fun event_class :: "event \<Rightarrow> u32" where
  "event_class (EVENT_MSDSE _) = 0x00000000"
| "event_class (EVENT_CESE _) = 0x01000000"
| "event_class (EVENT_LCBLCSE _) = 0x23000000"
| "event_class (EVENT_CLCSE _) = 0x04000000"
| "event_class (EVENT_MTSE _) = 0x05000000"
| "event_class (EVENT_RMESE _) = 0x06000000"
| "event_class (EVENT_MRSE _) = 0x07000000"
| "event_class (EVENT_RTDSE _) = 0x08000000"
| "event_class (EVENT_MLSE _) = 0x09000000"
| "event_class (EVENT_NSD _) = 0x10000000"
| "event_class (EVENT_CM _) = 0x11000000"
| "event_class (EVENT_H223AAR _) = 0x12000000"
| "event_class (EVENT_CNF _) = 0x13000000"
| "event_class (EVENT_CMD _) = 0x14000000"
| "event_class (EVENT_IDC _) = 0x15000000"

fun event_no :: "event \<Rightarrow> u32" where
  "event_no (EVENT_MSDSE e) = 0x00000000 OR msdse_no e"
| "event_no (EVENT_CESE e) = 0x01000000 OR cese_no e"
| "event_no (EVENT_LCBLCSE e) = 0x23000000 OR lcblcse_no e"
| "event_no (EVENT_CLCSE e) = 0x04000000 OR clcse_no e"
| "event_no (EVENT_MTSE e) = 0x05000000 OR mtse_no e"
| "event_no (EVENT_RMESE e) = 0x06000000 OR rmese_no e"
| "event_no (EVENT_MRSE e) = 0x07000000 OR mrse_no e"
| "event_no (EVENT_RTDSE e) = 0x08000000 OR rtdse_no e"
| "event_no (EVENT_MLSE e) = 0x09000000 OR mlse_no e"
| "event_no (EVENT_NSD e) = 0x10000000 OR nsd_no e"
| "event_no (EVENT_CM e) = 0x11000000 OR cm_no e"
| "event_no (EVENT_H223AAR e) = 0x12000000 OR h223aar_no e"
| "event_no (EVENT_CNF e) = 0x13000000 OR cnf_no e"
| "event_no (EVENT_CMD e) = 0x14000000 OR cmd_no e"
| "event_no (EVENT_IDC e) = 0x15000000 OR idc_no e"

abbreviation EVENT_LCSE :: u32 where "EVENT_LCSE \<equiv> 0x02000000"
abbreviation EVENT_BLCSE :: u32 where "EVENT_BLCSE \<equiv> 0x03000000"

section \<open>Tables\<close>

type_synonym event_table = "(event \<times> u32) list"

definition EventNoTblForPri :: event_table where
  "EventNoTblForPri =
     [ (EVENT_LCBLCSE EVENT_PTV_LCBLC_ETB_REQ, E_PtvId_Lc_Etb_Req),
       (EVENT_LCBLCSE EVENT_PTV_LCBLC_ETB_RPS, E_PtvId_Lc_Etb_Rps),
       (EVENT_LCBLCSE EVENT_PTV_LCBLC_RLS_REQ, E_PtvId_Lc_Rls_Req),
       (EVENT_LCBLCSE EVENT_PTV_LCBLC_ETB_REQ, E_PtvId_Blc_Etb_Req),
       (EVENT_LCBLCSE EVENT_PTV_LCBLC_ETB_RPS, E_PtvId_Blc_Etb_Rps),
       (EVENT_LCBLCSE EVENT_PTV_LCBLC_RLS_REQ, E_PtvId_Blc_Rls_Req),
       (EVENT_CLCSE EVENT_PTV_CLC_CLS_REQ, E_PtvId_Clc_Cls_Req),
       (EVENT_CLCSE EVENT_PTV_CLC_CLS_RPS, E_PtvId_Clc_Cls_Rps),
       (EVENT_CLCSE EVENT_PTV_CLC_RJT_REQ, E_PtvId_Clc_Rjt_Req),
       (EVENT_MTSE EVENT_PTV_MT_TRF_REQ, E_PtvId_Mt_Trf_Req),
       (EVENT_MTSE EVENT_PTV_MT_TRF_RPS, E_PtvId_Mt_Trf_Rps),
       (EVENT_MTSE EVENT_PTV_MT_RJT_REQ, E_PtvId_Mt_Rjt_Req),
       (EVENT_RMESE EVENT_PTV_RME_SEND_REQ, E_PtvId_Rme_Send_Req),
       (EVENT_RMESE EVENT_PTV_RME_SEND_RPS, E_PtvId_Rme_Send_Rps),
       (EVENT_RMESE EVENT_PTV_RME_RJT_REQ, E_PtvId_Rme_Rjt_Req),
       (EVENT_MRSE EVENT_PTV_MR_TRF_REQ, E_PtvId_Mr_Trf_Req),
       (EVENT_MRSE EVENT_PTV_MR_TRF_RPS, E_PtvId_Mr_Trf_Rps),
       (EVENT_MRSE EVENT_PTV_MR_RJT_REQ, E_PtvId_Mr_Rjt_Req),
       (EVENT_RTDSE EVENT_PTV_RTD_TRF_REQ, E_PtvId_Rtd_Trf_Req),
       (EVENT_MLSE EVENT_PTV_ML_LOOP_REQ, E_PtvId_Ml_Loop_Req),
       (EVENT_MLSE EVENT_PTV_ML_LOOP_RPS, E_PtvId_Ml_Loop_Rps),
       (EVENT_MLSE EVENT_PTV_ML_RLS_REQ, E_PtvId_Ml_Rls_Req),
       (EVENT_NSD EVENT_PTV_NSD_REQ, E_PtvId_Nsd_Req),
       (EVENT_NSD EVENT_PTV_NSD_RPS, E_PtvId_Nsd_Rps),
       (EVENT_NSD EVENT_PTV_NSD_CMD, E_PtvId_Nsd_Cmd),
       (EVENT_NSD EVENT_PTV_NSD_IDC, E_PtvId_Nsd_Idc),
       (EVENT_CM EVENT_PTV_CM_REQ, E_PtvId_Cm_Req),
       (EVENT_CM EVENT_PTV_CM_RPS, E_PtvId_Cm_Rps),
       (EVENT_CM EVENT_PTV_CM_CMD, E_PtvId_Cm_Cmd),
       (EVENT_H223AAR EVENT_PTV_H223AAR, E_PtvId_H223aar),
       (EVENT_H223AAR EVENT_PTV_H223AAR_ACK, E_PtvId_H223aar_Ack),
       (EVENT_H223AAR EVENT_PTV_H223AAR_RJT, E_PtvId_H223aar_Rjt),
       (EVENT_CNF EVENT_PTV_CNF_REQ, E_PtvId_Cnf_Req),
       (EVENT_CNF EVENT_PTV_CNF_RPS, E_PtvId_Cnf_Rps),
       (EVENT_CMD EVENT_PTV_CMD_STCS, E_PtvId_Cmd_Stcs),
       (EVENT_CMD EVENT_PTV_CMD_ECRPT, E_PtvId_Cmd_Ecrpt),
       (EVENT_CMD EVENT_PTV_CMD_FC, E_PtvId_Cmd_Fc),
       (EVENT_CMD EVENT_PTV_CMD_ES, E_PtvId_Cmd_Es),
       (EVENT_CMD EVENT_PTV_CMD_MSCL, E_PtvId_Cmd_Mscl),
       (EVENT_CMD EVENT_PTV_CMD_CNF, E_PtvId_Cmd_Cnf),
       (EVENT_CMD EVENT_PTV_CMD_HMR, E_PtvId_Cmd_Hmr),
       (EVENT_IDC EVENT_PTV_IDC_FNU, E_PtvId_Idc_Fnu),
       (EVENT_IDC EVENT_PTV_IDC_MSCL, E_PtvId_Idc_Mscl),
       (EVENT_IDC EVENT_PTV_IDC_JTR, E_PtvId_Idc_Jtr),
       (EVENT_IDC EVENT_PTV_IDC_H223SKW, E_PtvId_Idc_H223skw),
       (EVENT_IDC EVENT_PTV_IDC_NWATMVC, E_PtvId_Idc_Nwatmvc),
       (EVENT_IDC EVENT_PTV_IDC_UI, E_PtvId_Idc_Ui),
       (EVENT_IDC EVENT_PTV_IDC_CNF, E_PtvId_Idc_Cnf),
       (EVENT_IDC EVENT_PTV_IDC_H2250MXSKW, E_PtvId_Idc_H2250mxskw),
       (EVENT_IDC EVENT_PTV_IDC_MCLCT, E_PtvId_Idc_Mclct),
       (EVENT_IDC EVENT_PTV_IDC_VI, E_PtvId_Idc_Vi),
       (EVENT_IDC EVENT_PTV_IDC_FNS, E_PtvId_Idc_Fns) ]"

definition EventNoTblForTo :: event_table where
  "EventNoTblForTo =
     [ (EVENT_LCBLCSE EVENT_TIM_LCBLC_T103, E_TmrId_LcBlc_T103),
       (EVENT_CLCSE EVENT_TIM_CLC_T108, E_TmrId_Clc_T108),
       (EVENT_MTSE EVENT_TIM_MT_T104, E_TmrId_Mt_T104),
       (EVENT_RMESE EVENT_TIM_RME_T107, E_TmrId_Rme_T107),
       (EVENT_MRSE EVENT_TIM_MR_T109, E_TmrId_Mr_T109),
       (EVENT_RTDSE EVENT_TIM_RTD_T105, E_TmrId_Rtd_T105),
       (EVENT_MLSE EVENT_TIM_ML_T102, E_TmrId_Ml_T102) ]"

definition EventNoTblForReqMsg :: event_table where
  "EventNoTblForReqMsg =
     [ (EVENT_NSD EVENT_MSG_NSD_REQ, ucast MSGTYP_NSD_REQ),
       (EVENT_MSDSE EVENT_MSG_MSD, ucast MSGTYP_MSD),
       (EVENT_CESE EVENT_MSG_CE, ucast MSGTYP_CE),
       (EVENT_LCBLCSE EVENT_MSG_LCBLC_OP, ucast MSGTYP_LCBLC_OP),
       (EVENT_LCBLCSE EVENT_MSG_LCBLC_CL, ucast MSGTYP_LCBLC_CL),
       (EVENT_CLCSE EVENT_MSG_CLC, ucast MSGTYP_CLC),
       (EVENT_MTSE EVENT_MSG_MT, ucast MSGTYP_MT),
       (EVENT_RMESE EVENT_MSG_RME, ucast MSGTYP_RME),
       (EVENT_MRSE EVENT_MSG_MR, ucast MSGTYP_MR),
       (EVENT_RTDSE EVENT_MSG_RTD_REQ, ucast MSGTYP_RTD_REQ),
       (EVENT_MLSE EVENT_MSG_ML_REQ, ucast MSGTYP_ML_REQ),
       (EVENT_CM EVENT_MSG_CM_REQ, ucast MSGTYP_CM_REQ),
       (EVENT_CNF EVENT_MSG_CNF_REQ, ucast MSGTYP_CNF_REQ),
       (EVENT_H223AAR EVENT_MSG_H223AAR, ucast MSGTYP_H223AAR) ]"

definition EventNoTblForRpsMsg :: event_table where
  "EventNoTblForRpsMsg =
     [ (EVENT_NSD EVENT_MSG_NSD_RPS, ucast MSGTYP_NSD_RPS),
       (EVENT_MSDSE EVENT_MSG_MSD_ACK, ucast MSGTYP_MSD_ACK),
       (EVENT_MSDSE EVENT_MSG_MSD_RJT, ucast MSGTYP_MSD_RJT),
       (EVENT_CESE EVENT_MSG_CE_ACK, ucast MSGTYP_CE_ACK),
       (EVENT_CESE EVENT_MSG_CE_RJT, ucast MSGTYP_CE_RJT),
       (EVENT_LCBLCSE EVENT_MSG_LCBLC_OP_ACK, ucast MSGTYP_LCBLC_OP_ACK),
       (EVENT_LCBLCSE EVENT_MSG_LCBLC_OP_RJT, ucast MSGTYP_LCBLC_OP_RJT),
       (EVENT_LCBLCSE EVENT_MSG_LCBLC_CL_ACK, ucast MSGTYP_LCBLC_CL_ACK),
       (EVENT_CLCSE EVENT_MSG_CLC_ACK, ucast MSGTYP_CLC_ACK),
       (EVENT_CLCSE EVENT_MSG_CLC_RJT, ucast MSGTYP_CLC_RJT),
       (EVENT_MTSE EVENT_MSG_MT_ACK, ucast MSGTYP_MT_ACK),
       (EVENT_MTSE EVENT_MSG_MT_RJT, ucast MSGTYP_MT_RJT),
       (EVENT_RMESE EVENT_MSG_RME_ACK, ucast MSGTYP_RME_ACK),
       (EVENT_RMESE EVENT_MSG_RME_RJT, ucast MSGTYP_RME_RJT),
       (EVENT_MRSE EVENT_MSG_MR_ACK, ucast MSGTYP_MR_ACK),
       (EVENT_MRSE EVENT_MSG_MR_RJT, ucast MSGTYP_MR_RJT),
       (EVENT_RTDSE EVENT_MSG_RTD_RPS, ucast MSGTYP_RTD_RPS),
       (EVENT_MLSE EVENT_MSG_ML_ACK, ucast MSGTYP_ML_ACK),
       (EVENT_MLSE EVENT_MSG_ML_RJT, ucast MSGTYP_ML_RJT),
       (EVENT_CM EVENT_MSG_CM_RPS, ucast MSGTYP_CM_RPS),
       (EVENT_CNF EVENT_MSG_CNF_RPS, ucast MSGTYP_CNF_RPS),
       (EVENT_H223AAR EVENT_MSG_H223AAR_ACK, ucast MSGTYP_H223AAR_ACK),
       (EVENT_H223AAR EVENT_MSG_H223AAR_RJT, ucast MSGTYP_H223AAR_RJT) ]"

definition EventNoTblForCmdMsg :: event_table where
  "EventNoTblForCmdMsg =
     [ (EVENT_NSD EVENT_MSG_NSD_CMD, ucast MSGTYP_NSD_CMD),
       (EVENT_MLSE EVENT_MSG_ML_OFF_CMD, ucast MSGTYP_ML_OFF_CMD),
       (EVENT_CMD EVENT_MSG_CMD_STCS, ucast MSGTYP_CMD_STCS),
       (EVENT_CMD EVENT_MSG_CMD_ECRPT, ucast MSGTYP_CMD_ECRPT),
       (EVENT_CMD EVENT_MSG_CMD_FC, ucast MSGTYP_CMD_FC),
       (EVENT_CMD EVENT_MSG_CMD_ES, ucast MSGTYP_CMD_ES),
       (EVENT_CMD EVENT_MSG_CMD_MSCL, ucast MSGTYP_CMD_MSCL),
       (EVENT_CM EVENT_MSG_CM_CMD, ucast MSGTYP_CM_CMD),
       (EVENT_CMD EVENT_MSG_CMD_CNF, ucast MSGTYP_CMD_CNF),
       (EVENT_CMD EVENT_MSG_CMD_HMR, ucast MSGTYP_CMD_HMR) ]"

definition EventNoTblForIdcMsg :: event_table where
  "EventNoTblForIdcMsg =
     [ (EVENT_NSD EVENT_MSG_NSD_IDC, ucast MSGTYP_NSD_IDC),
       (EVENT_IDC EVENT_MSG_IDC_FNU, ucast MSGTYP_IDC_FNU),
       (EVENT_MSDSE EVENT_MSG_MSD_RLS, ucast MSGTYP_MSD_RLS),
       (EVENT_CESE EVENT_MSG_CE_RLS, ucast MSGTYP_CE_RLS),
       (EVENT_LCBLCSE EVENT_MSG_LCBLC_OP_CFM, ucast MSGTYP_LCBLC_OP_CFM),
       (EVENT_CLCSE EVENT_MSG_CLC_RLS, ucast MSGTYP_CLC_RLS),
       (EVENT_MTSE EVENT_MSG_MT_RLS, ucast MSGTYP_MT_RLS),
       (EVENT_RMESE EVENT_MSG_RME_RLS, ucast MSGTYP_RME_RLS),
       (EVENT_MRSE EVENT_MSG_MR_RLS, ucast MSGTYP_MR_RLS),
       (EVENT_IDC EVENT_MSG_IDC_MSCL, ucast MSGTYP_IDC_MSCL),
       (EVENT_IDC EVENT_MSG_IDC_JTR, ucast MSGTYP_IDC_JTR),
       (EVENT_IDC EVENT_MSG_IDC_H223SKW, ucast MSGTYP_IDC_H223SKW),
       (EVENT_IDC EVENT_MSG_IDC_NWATMVC, ucast MSGTYP_IDC_NWATMVC),
       (EVENT_IDC EVENT_MSG_IDC_UI, ucast MSGTYP_IDC_UI),
       (EVENT_IDC EVENT_MSG_IDC_H2250MXSKW, ucast MSGTYP_IDC_H2250MXSKW),
       (EVENT_IDC EVENT_MSG_IDC_MCLCT, ucast MSGTYP_IDC_MCLCT),
       (EVENT_IDC EVENT_MSG_IDC_CNF, ucast MSGTYP_IDC_CNF),
       (EVENT_IDC EVENT_MSG_IDC_VI, ucast MSGTYP_IDC_VI),
       (EVENT_IDC EVENT_MSG_IDC_FNS, ucast MSGTYP_IDC_FNS),
       (EVENT_IDC EVENT_MSG_IDC_FC, ucast MSGTYP_IDC_FC) ]"

text \<open>\<^verbatim>\<open>EventNoDecision\<close>: the first row whose number matches.\<close>

fun EventNoDecision :: "event_table \<Rightarrow> u32 \<Rightarrow> event option" where
  "EventNoDecision [] infType2 = None"
| "EventNoDecision ((eventNo, n) # rows) infType2 =
     (if n = infType2 then Some eventNo else EventNoDecision rows infType2)"

definition TablePointerGetUpperLayer :: "u32 \<Rightarrow> event_table option" where
  "TablePointerGetUpperLayer infType2 =
     (if infType2 = H245_PRIMITIVE then Some EventNoTblForPri
      else if infType2 = H245_TIMEOUT then Some EventNoTblForTo
      else None)"

definition TablePointerGetLowerLayer :: "u32 \<Rightarrow> event_table option" where
  "TablePointerGetLowerLayer infType2 =
     (if infType2 = ucast H245_MSG_REQ then Some EventNoTblForReqMsg
      else if infType2 = ucast H245_MSG_RPS then Some EventNoTblForRpsMsg
      else if infType2 = ucast H245_MSG_CMD then Some EventNoTblForCmdMsg
      else if infType2 = ucast H245_MSG_IDC then Some EventNoTblForIdcMsg
      else None)"

section \<open>Facts about the numbers\<close>

text \<open>The mask of the dispatcher recovers the class, and different events have different
  numbers: switching on the number is switching on the event.\<close>

lemma event_class_mask: "event_no e AND 0xFF000000 = event_class e"
  by (cases e) (rename_tac x, case_tac x, simp_all)+

lemma msdse_no_inject: "0x00000000 OR msdse_no x = 0x00000000 OR msdse_no y \<longleftrightarrow> x = y"
  by (cases x; cases y) simp_all

lemma cese_no_inject: "0x01000000 OR cese_no x = 0x01000000 OR cese_no y \<longleftrightarrow> x = y"
  by (cases x; cases y) simp_all

lemma lcblcse_no_inject: "0x23000000 OR lcblcse_no x = 0x23000000 OR lcblcse_no y \<longleftrightarrow> x = y"
  by (cases x; cases y) simp_all

lemma clcse_no_inject: "0x04000000 OR clcse_no x = 0x04000000 OR clcse_no y \<longleftrightarrow> x = y"
  by (cases x; cases y) simp_all

lemma mtse_no_inject: "0x05000000 OR mtse_no x = 0x05000000 OR mtse_no y \<longleftrightarrow> x = y"
  by (cases x; cases y) simp_all

lemma rmese_no_inject: "0x06000000 OR rmese_no x = 0x06000000 OR rmese_no y \<longleftrightarrow> x = y"
  by (cases x; cases y) simp_all

lemma mrse_no_inject: "0x07000000 OR mrse_no x = 0x07000000 OR mrse_no y \<longleftrightarrow> x = y"
  by (cases x; cases y) simp_all

lemma rtdse_no_inject: "0x08000000 OR rtdse_no x = 0x08000000 OR rtdse_no y \<longleftrightarrow> x = y"
  by (cases x; cases y) simp_all

lemma mlse_no_inject: "0x09000000 OR mlse_no x = 0x09000000 OR mlse_no y \<longleftrightarrow> x = y"
  by (cases x; cases y) simp_all

lemma nsd_no_inject: "0x10000000 OR nsd_no x = 0x10000000 OR nsd_no y \<longleftrightarrow> x = y"
  by (cases x; cases y) simp_all

lemma cm_no_inject: "0x11000000 OR cm_no x = 0x11000000 OR cm_no y \<longleftrightarrow> x = y"
  by (cases x; cases y) simp_all

lemma h223aar_no_inject: "0x12000000 OR h223aar_no x = 0x12000000 OR h223aar_no y \<longleftrightarrow> x = y"
  by (cases x; cases y) simp_all

lemma cnf_no_inject: "0x13000000 OR cnf_no x = 0x13000000 OR cnf_no y \<longleftrightarrow> x = y"
  by (cases x; cases y) simp_all

lemma cmd_no_inject: "0x14000000 OR cmd_no x = 0x14000000 OR cmd_no y \<longleftrightarrow> x = y"
  by (cases x; cases y) simp_all

lemma idc_no_inject: "0x15000000 OR idc_no x = 0x15000000 OR idc_no y \<longleftrightarrow> x = y"
  by (cases x; cases y) simp_all

lemmas no_inject =
  msdse_no_inject cese_no_inject lcblcse_no_inject clcse_no_inject
  mtse_no_inject rmese_no_inject mrse_no_inject rtdse_no_inject
  mlse_no_inject nsd_no_inject cm_no_inject h223aar_no_inject
  cnf_no_inject cmd_no_inject idc_no_inject

lemma event_class_cases:
  assumes "event_class e = event_class e'" and "event_no e = event_no e'"
  shows "e = e'"
  using assms by (cases e; cases e') (simp_all only: event_class.simps event_no.simps no_inject, simp_all)

lemma event_no_inject: "event_no e = event_no e' \<longleftrightarrow> e = e'"
  using event_class_mask [of e] event_class_mask [of e'] event_class_cases [of e e'] by auto

text \<open>A search finds exactly the rows that precede no row of the same number.\<close>

lemma EventNoDecision_None: "EventNoDecision tbl n = None \<longleftrightarrow> n \<notin> snd ` set tbl"
  by (induction tbl n rule: EventNoDecision.induct) auto

lemma EventNoDecision_Some: "EventNoDecision tbl n = Some e \<Longrightarrow> (e, n) \<in> set tbl"
  by (induction tbl n rule: EventNoDecision.induct) (auto split: if_splits)

lemma EventNoDecision_distinct:
  assumes "distinct (map snd tbl)"
  shows "EventNoDecision tbl n = Some e \<longleftrightarrow> (e, n) \<in> set tbl"
  using assms by (induction tbl n rule: EventNoDecision.induct) (auto simp: rev_image_eqI)

lemmas event_tables =
  EventNoTblForPri_def EventNoTblForTo_def EventNoTblForReqMsg_def EventNoTblForRpsMsg_def
  EventNoTblForCmdMsg_def EventNoTblForIdcMsg_def

lemma tables_distinct:
  "distinct (map snd EventNoTblForPri)" "distinct (map snd EventNoTblForTo)"
  "distinct (map snd EventNoTblForReqMsg)" "distinct (map snd EventNoTblForRpsMsg)"
  "distinct (map snd EventNoTblForCmdMsg)" "distinct (map snd EventNoTblForIdcMsg)"
  by (simp_all add: event_tables)

end
