(* ===== verification/TimedProcedure.thy ===== *)
theory TimedProcedure
  imports SeTypes
begin

text \<open>
  The contract between a signalling procedure and the timer service. Every procedure of the
  signalling entity (MSD, CE, LC/BLC, CLC, RME, MR, RTD, ML) waits for an answer of the peer
  under a timer of its own: it starts the timer when it enters a waiting state, stops it when
  it leaves that state, and numbers its timers so that it can tell an old expiry from the
  current one. The contract says that each operation keeps exactly one timer running in a
  waiting state, with the current number, and none otherwise.
\<close>

section \<open>Timers left running by the calls of a handler\<close>

text \<open>The numbers of the running timers with one id: a request appends, a cancel removes the
  first (\<open>timer_Cancel\<close> with the wildcard parameter).\<close>

fun pending :: "s32 \<Rightarrow> s32 list \<Rightarrow> effect list \<Rightarrow> s32 list" where
  "pending tid ns [] = ns"
| "pending tid ns (RequestTimer i n c obs # es) =
     pending tid (if i = tid then ns @ [n] else ns) es"
| "pending tid ns (CancelTimer i # es) = pending tid (if i = tid then tl ns else ns) es"
| "pending tid ns (_ # es) = pending tid ns es"

lemma pending_append [simp]: "pending tid ns (xs @ ys) = pending tid (pending tid ns xs) ys"
  by (induction tid ns xs rule: pending.induct) simp_all

lemma pending_send_msg [simp]: "pending tid ns (send_msg a b p # es) = pending tid ns es"
  by (simp add: send_msg_def)

text \<open>The ids that the timer calls among the effects name.\<close>

fun timer_ids :: "effect list \<Rightarrow> s32 set" where
  "timer_ids [] = {}"
| "timer_ids (RequestTimer i n c obs # es) = insert i (timer_ids es)"
| "timer_ids (CancelTimer i # es) = insert i (timer_ids es)"
| "timer_ids (_ # es) = timer_ids es"

lemma timer_ids_append [simp]: "timer_ids (xs @ ys) = timer_ids xs \<union> timer_ids ys"
  by (induction xs rule: timer_ids.induct) simp_all

lemma timer_ids_send_msg [simp]: "timer_ids (send_msg a b p # es) = timer_ids es"
  by (simp add: send_msg_def)

text \<open>The observer that a timer is requested with: MSD and CE name themselves, the others leave
  it to the default, which is the dispatcher.\<close>

definition home :: "s32 \<Rightarrow> timer_observer option" where
  "home i = (if i = 106 then Some ObsMSD else if i = 101 then Some ObsCE else None)"

fun addressed :: "effect list \<Rightarrow> bool" where
  "addressed [] = True"
| "addressed (RequestTimer i n c obs # es) = (obs = home i \<and> addressed es)"
| "addressed (_ # es) = addressed es"

lemma addressed_append [simp]: "addressed (xs @ ys) \<longleftrightarrow> addressed xs \<and> addressed ys"
  by (induction xs rule: addressed.induct) simp_all

lemma addressed_send_msg [simp]: "addressed (send_msg a b p # es) = addressed es"
  by (simp add: send_msg_def)

lemma addressed_silent: "timer_ids es = {} \<Longrightarrow> addressed es"
  by (induction es rule: timer_ids.induct) simp_all

lemma pending_other: "tid \<notin> timer_ids es \<Longrightarrow> pending tid ns es = ns"
  by (induction tid ns es rule: pending.induct) auto

text \<open>The numbers agree with the entries that the timer service itself would hold.\<close>

definition timer_numbers :: "s32 \<Rightarrow> 'o timer \<Rightarrow> s32 list" where
  "timer_numbers tid t = map iParam (filter (\<lambda>e. iTimerID e = tid) (iEntries t))"

lemma timer_numbers_Request:
  "\<not> iInCallback t \<Longrightarrow>
     timer_numbers tid (timer_Request i n c obs False t)
       = (if i = tid then timer_numbers tid t @ [n] else timer_numbers tid t)"
  by (simp add: timer_numbers_def timer_Request_idle new_entry_def)

lemma timer_numbers_Cancel:
  "\<not> iInCallback t \<Longrightarrow>
     timer_numbers tid (timer_Cancel i (-1) t)
       = (if i = tid then tl (timer_numbers tid t) else timer_numbers tid t)"
  by (auto simp: timer_numbers_def timer_Cancel_idle erase_timer_wildcard erase_timer_other map_tl)

section \<open>Runs\<close>

text \<open>A run of a procedure together with its running timers: an input is handled, or (\<open>None\<close>)
  the oldest running timer expires, leaves the list and is reported to the procedure.\<close>

fun timed_step ::
  "('i \<Rightarrow> 's \<Rightarrow> 's \<times> effect list) \<Rightarrow> (s32 \<Rightarrow> 's \<Rightarrow> 's \<times> effect list) \<Rightarrow> s32
    \<Rightarrow> 'i option \<Rightarrow> 's \<times> s32 list \<Rightarrow> 's \<times> s32 list" where
  "timed_step step timeout tid (Some i) (s, ns) =
     (let (s1, es) = step i s in (s1, pending tid ns es))"
| "timed_step step timeout tid None (s, ns) =
     (case ns of
        [] \<Rightarrow> (s, [])
      | n # ns1 \<Rightarrow> (let (s1, es) = timeout n s in (s1, pending tid ns1 es)))"

definition timed_run ::
  "('i \<Rightarrow> 's \<Rightarrow> 's \<times> effect list) \<Rightarrow> (s32 \<Rightarrow> 's \<Rightarrow> 's \<times> effect list) \<Rightarrow> s32
    \<Rightarrow> 'i option list \<Rightarrow> 's \<times> s32 list \<Rightarrow> 's \<times> s32 list" where
  "timed_run step timeout tid inputs c = fold (timed_step step timeout tid) inputs c"

lemma timed_run_simps [simp]:
  "timed_run step timeout tid [] c = c"
  "timed_run step timeout tid (i # is) c =
     timed_run step timeout tid is (timed_step step timeout tid i c)"
  by (simp_all add: timed_run_def)

lemma timed_run_append:
  "timed_run step timeout tid (is @ js) c =
     timed_run step timeout tid js (timed_run step timeout tid is c)"
  by (simp add: timed_run_def)

section \<open>The contract\<close>

locale timed_procedure =
  fixes ok :: "'s \<Rightarrow> bool"
    and step :: "'i \<Rightarrow> 's \<Rightarrow> 's \<times> effect list"
    and timeout :: "s32 \<Rightarrow> 's \<Rightarrow> 's \<times> effect list"
    and tid :: s32
    and awaiting :: "'s \<Rightarrow> bool"
    and number :: "'s \<Rightarrow> s32"
  assumes step_ok: "ok s \<Longrightarrow> ok (fst (step i s))"
    and timeout_ok: "ok s \<Longrightarrow> ok (fst (timeout n s))"
    and step_timers: "ok s \<Longrightarrow>
      pending tid (if awaiting s then [number s] else []) (snd (step i s))
        = (if awaiting (fst (step i s)) then [number (fst (step i s))] else [])"
    and step_own: "ok s \<Longrightarrow> timer_ids (snd (step i s)) \<subseteq> {tid} \<and> addressed (snd (step i s))"
    and timeout_leaves: "ok s \<Longrightarrow> awaiting s \<Longrightarrow> \<not> awaiting (fst (timeout (number s) s))"
    and timeout_silent: "ok s \<Longrightarrow> timer_ids (snd (timeout n s)) = {}"
begin

lemma timeout_timers:
  assumes "ok s" and "awaiting s"
  shows "pending tid [] (snd (timeout (number s) s))
    = (if awaiting (fst (timeout (number s) s)) then [number (fst (timeout (number s) s))] else [])"
  using timeout_leaves [OF assms] timeout_silent [OF assms(1)] by (simp add: pending_other)

text \<open>From a waiting state, the expiry of the running timer ends the wait and leaves no timer.\<close>

lemma expiry_ends_wait:
  assumes "ok s" and "awaiting s"
  shows "timed_step step timeout tid None (s, [number s]) = (fst (timeout (number s) s), [])"
  using timeout_timers [OF assms] timeout_leaves [OF assms] by (simp add: case_prod_unfold)

lemma timed_step_invariant:
  assumes "ok s" and "ns = (if awaiting s then [number s] else [])"
    and "timed_step step timeout tid i (s, ns) = (s1, ns1)"
  shows "ok s1 \<and> ns1 = (if awaiting s1 then [number s1] else [])"
proof (cases i)
  case None
  show ?thesis
  proof (cases "awaiting s")
    case True
    with None assms(2,3) have "s1 = fst (timeout (number s) s)"
      and "ns1 = pending tid [] (snd (timeout (number s) s))"
      by (auto split: prod.splits)
    with timeout_ok [OF assms(1)] timeout_timers [OF assms(1) True] show ?thesis by simp
  next
    case False
    with None assms(2,3) have "s1 = s" and "ns1 = []" by simp_all
    with False assms(1) show ?thesis by simp
  qed
next
  case (Some j)
  with assms(2,3) have "s1 = fst (step j s)"
    and "ns1 = pending tid (if awaiting s then [number s] else []) (snd (step j s))"
    by (auto split: prod.splits)
  with step_ok [OF assms(1)] step_timers [OF assms(1)] show ?thesis by simp
qed

text \<open>Along every run, one timer runs while the procedure waits, and it carries the current
  number; no timer runs otherwise. So an expiry always meets the state that started it.\<close>

lemma timed_run_invariant:
  assumes "ok s" and "ns = (if awaiting s then [number s] else [])"
    and "timed_run step timeout tid inputs (s, ns) = (s1, ns1)"
  shows "ok s1 \<and> ns1 = (if awaiting s1 then [number s1] else [])"
  using assms
proof (induction inputs arbitrary: s ns)
  case Nil
  from Nil(3) have "s1 = s" and "ns1 = ns" by simp_all
  with Nil(1,2) show ?case by simp
next
  case (Cons i inputs)
  obtain s2 ns2 where st: "timed_step step timeout tid i (s, ns) = (s2, ns2)"
    by (cases "timed_step step timeout tid i (s, ns)")
  from timed_step_invariant [OF Cons.prems(1,2) st]
  have "ok s2" and "ns2 = (if awaiting s2 then [number s2] else [])" by blast+
  from Cons.IH [OF this] Cons.prems(3) st show ?case by simp
qed

lemma timed_run_idle:
  assumes "ok s" and "\<not> awaiting s"
    and "timed_run step timeout tid inputs (s, []) = (s1, ns1)"
  shows "ns1 = (if awaiting s1 then [number s1] else [])"
  using timed_run_invariant [OF assms(1) _ assms(3)] assms(2) by simp

end

text \<open>A procedure that compares the number of an expired timer with its own.\<close>

locale guarded_procedure = timed_procedure +
  assumes timeout_stale: "n \<noteq> number s \<Longrightarrow> timeout n s = (s, [])"
begin

text \<open>Whatever expires, a waiting procedure either ignores it or stops waiting.\<close>

lemma timeout_ignored_or_done:
  assumes "ok s" and "awaiting s"
  shows "timeout n s = (s, []) \<or> \<not> awaiting (fst (timeout n s))"
  using timeout_stale [of n s] timeout_leaves [OF assms] by (cases "n = number s") auto

end

text \<open>A handler that may fault, as a total step: it changes nothing where it faults.\<close>

definition settle :: "('m \<times> effect list) res \<Rightarrow> 'm \<Rightarrow> 'm \<times> effect list" where
  "settle r m = (case r of Inl _ \<Rightarrow> (m, []) | Inr x \<Rightarrow> x)"

lemma settle_simps [simp]:
  "settle (Inl e) m = (m, [])"
  "settle (Inr x) m = x"
  by (simp_all add: settle_def)

lemma settle_bind: "settle (bind_res r f) m = (case r of Inl _ \<Rightarrow> (m, []) | Inr x \<Rightarrow> settle (f x) m)"
  by (cases r) simp_all

end
