(* ===== verification/Msd.thy ===== *)
theory Msd
  imports TimedProcedure
begin

text \<open>
  Master slave determination (\<^verbatim>\<open>se/include/msd.h\<close>, class \<^verbatim>\<open>MSD\<close>). The record holds its
  members; each handler returns the new state and the calls it makes, in order. The random
  generator \<^verbatim>\<open>RandGen\<close> is a stream of the values that \<^verbatim>\<open>Rand()\<close> returns and a position in
  it. \<open>msdObserver\<close> says whether the observer pointer is set.
\<close>

section \<open>State\<close>

datatype msd_state = MSD_IDLE | MSD_OUTGOING_AWAITING_RESPONSE | MSD_INCOMING_AWAITING_RESPONSE

record msd =
  msdObserver :: bool
  msdTerminalType :: u8
  msdState :: msd_state
  msdStatus :: msd_status
  msdNumber :: u32 \<comment> \<open>\<^verbatim>\<open>StatusDeterminationNumber\<close>\<close>
  msdRetryCnt :: u8
  msdRand :: "nat \<Rightarrow> u32"
  msdRandPos :: nat

definition MSD_MAX_RETRIES :: u8 where "MSD_MAX_RETRIES = 100"

definition TWO_24 :: u32 where "TWO_24 = push_bit 24 1"

definition TWO_23 :: u32 where "TWO_23 = push_bit 23 1"

definition msd_NewStatusDeterminationNumber :: "msd \<Rightarrow> msd" where
  "msd_NewStatusDeterminationNumber m =
     m\<lparr> msdNumber := msdRand m (msdRandPos m) AND 0xFFFFFF, msdRandPos := msdRandPos m + 1 \<rparr>"

definition new_MSD :: "(nat \<Rightarrow> u32) \<Rightarrow> msd" where
  "new_MSD rnd =
     msd_NewStatusDeterminationNumber
       \<lparr> msdObserver = False, msdTerminalType = 128, msdState = MSD_IDLE,
         msdStatus = MSD_INDETERMINATE, msdNumber = 0, msdRetryCnt = 0,
         msdRand = rnd, msdRandPos = 0 \<rparr>"

definition msd_SetObserver :: "bool \<Rightarrow> msd \<Rightarrow> msd" where
  "msd_SetObserver observer m = m\<lparr>msdObserver := observer\<rparr>"

definition msd_SetTerminalType :: "u8 \<Rightarrow> msd \<Rightarrow> msd" where
  "msd_SetTerminalType ttype m = m\<lparr>msdTerminalType := ttype\<rparr>"

section \<open>Messages and timer\<close>

definition SendMSD :: "msd \<Rightarrow> effect" where
  "SendMSD m = send_msg H245_MSG_REQ MSGTYP_MSD
     (P_MasterSlaveDetermination
        \<lparr> msd_terminalType = msdTerminalType m, msd_statusDeterminationNumber = msdNumber m \<rparr>)"

definition SendMSDReject :: effect where
  "SendMSDReject = send_msg H245_MSG_RPS MSGTYP_MSD_RJT (P_MasterSlaveDeterminationReject 0)"

definition SendMSDAck :: "msd \<Rightarrow> effect" where
  "SendMSDAck m = send_msg H245_MSG_RPS MSGTYP_MSD_ACK
     (P_MasterSlaveDeterminationAck (if msdStatus m = MSD_MASTER then 1 else 0))"

definition SendMSDRelease :: effect where
  "SendMSDRelease = send_msg H245_MSG_IDC MSGTYP_MSD_RLS P_MasterSlaveDeterminationRelease"

definition msd_SetTimer :: "u32 \<Rightarrow> effect" where
  "msd_SetTimer dur = RequestTimer 106 0 dur (Some ObsMSD)"

definition msd_ResetTimer :: effect where
  "msd_ResetTimer = CancelTimer 106"

text \<open>A call of the observer, made only if there is one.\<close>

definition msd_notify :: "msd \<Rightarrow> effect list \<Rightarrow> effect list" where
  "msd_notify m calls = (if msdObserver m then calls else [])"

section \<open>Determination\<close>

definition DetermineStatus :: "master_slave_determination \<Rightarrow> msd \<Rightarrow> msd" where
  "DetermineStatus d m =
     (if msdTerminalType m \<noteq> msd_terminalType d then
        m\<lparr>msdStatus := (if msdTerminalType m < msd_terminalType d then MSD_SLAVE else MSD_MASTER)\<rparr>
      else
        let diff = (msd_statusDeterminationNumber d - msdNumber m) mod TWO_24
        in if diff = 0 \<or> diff = TWO_23 then m\<lparr>msdStatus := MSD_INDETERMINATE\<rparr>
           else m\<lparr>msdStatus := (if diff < TWO_23 then MSD_MASTER else MSD_SLAVE)\<rparr>)"

section \<open>Handlers per state\<close>

definition msd_Idle_request :: "u32 \<Rightarrow> msd \<Rightarrow> msd \<times> effect list" where
  "msd_Idle_request dur m =
     (let m1 = m\<lparr>msdRetryCnt := 1, msdState := MSD_OUTGOING_AWAITING_RESPONSE\<rparr>
      in (m1, [msd_SetTimer dur, SendMSD m1]))"

definition msd_Idle_msd :: "u32 \<Rightarrow> master_slave_determination \<Rightarrow> msd \<Rightarrow> msd \<times> effect list" where
  "msd_Idle_msd dur d m =
     (let m1 = DetermineStatus d m
      in if msdStatus m1 = MSD_INDETERMINATE then (m1, [SendMSDReject])
         else
           let m2 = m1\<lparr>msdState := MSD_INCOMING_AWAITING_RESPONSE\<rparr>
           in (m2, [msd_SetTimer dur, SendMSDAck m2] @ msd_notify m2 [MSDDetermineIndication (msdStatus m2)]))"

definition msd_Outgoing_ack :: "u16 \<Rightarrow> msd \<Rightarrow> msd \<times> effect list" where
  "msd_Outgoing_ack decision m =
     (let m1 = m\<lparr>msdStatus := (if decision = 0 then MSD_MASTER else MSD_SLAVE), msdState := MSD_IDLE\<rparr>
      in (m1, [msd_ResetTimer, SendMSDAck m1] @ msd_notify m1 [MSDDetermineConfirm (msdStatus m1)]))"

text \<open>The part that a conflicting determination and a reject share: try again with a new number
  until the retries are used up.\<close>

definition msd_retry :: "u32 \<Rightarrow> msd \<Rightarrow> msd \<times> effect list" where
  "msd_retry dur m =
     (if MSD_MAX_RETRIES \<le> msdRetryCnt m then
        let m1 = m\<lparr>msdState := MSD_IDLE\<rparr>
        in (m1, [msd_ResetTimer] @ msd_notify m1 [MSDErrorIndication MSD_ERROR_CODE_F, MSDRejectIndication])
      else
        let m1 = (msd_NewStatusDeterminationNumber m)
                   \<lparr>msdRetryCnt := msdRetryCnt m + 1, msdState := MSD_OUTGOING_AWAITING_RESPONSE\<rparr>
        in (m1, [msd_ResetTimer, msd_SetTimer dur, SendMSD m1]))"

definition msd_Outgoing_msd :: "u32 \<Rightarrow> master_slave_determination \<Rightarrow> msd \<Rightarrow> msd \<times> effect list" where
  "msd_Outgoing_msd dur d m =
     (let m1 = DetermineStatus d m
      in if msdStatus m1 = MSD_INDETERMINATE then msd_retry dur m1
         else
           let m2 = m1\<lparr>msdState := MSD_INCOMING_AWAITING_RESPONSE\<rparr>
           in (m2, [msd_ResetTimer, msd_SetTimer dur, SendMSDAck m2]
                   @ msd_notify m2 [MSDDetermineIndication (msdStatus m2)]))"

definition msd_Outgoing_reject :: "u32 \<Rightarrow> msd \<Rightarrow> msd \<times> effect list" where
  "msd_Outgoing_reject dur m = msd_retry dur m"

definition msd_Outgoing_release :: "msd \<Rightarrow> msd \<times> effect list" where
  "msd_Outgoing_release m =
     (let m1 = m\<lparr>msdState := MSD_IDLE\<rparr>
      in (m1, [msd_ResetTimer] @ msd_notify m1 [MSDErrorIndication MSD_ERROR_CODE_B, MSDRejectIndication]))"

definition msd_Outgoing_timeout :: "msd \<Rightarrow> msd \<times> effect list" where
  "msd_Outgoing_timeout m =
     (let m1 = m\<lparr>msdState := MSD_IDLE\<rparr>
      in (m1, [SendMSDRelease] @ msd_notify m1 [MSDErrorIndication MSD_ERROR_CODE_A, MSDRejectIndication]))"

definition msd_Incoming_ack :: "u16 \<Rightarrow> msd \<Rightarrow> msd \<times> effect list" where
  "msd_Incoming_ack decision m =
     (let m1 = m\<lparr>msdState := MSD_IDLE\<rparr>
      in if decision = 0 \<and> msdStatus m = MSD_MASTER \<or> decision = 1 \<and> msdStatus m = MSD_SLAVE
         then (m1, [msd_ResetTimer] @ msd_notify m1 [MSDDetermineConfirm (msdStatus m1)])
         else (m1, [msd_ResetTimer]
                   @ msd_notify m1 [MSDErrorIndication MSD_ERROR_CODE_E, MSDRejectIndication]))"

definition msd_Incoming_error :: "msd_err_code \<Rightarrow> msd \<Rightarrow> msd \<times> effect list" where
  "msd_Incoming_error code m =
     (let m1 = m\<lparr>msdState := MSD_IDLE\<rparr>
      in (m1, [msd_ResetTimer] @ msd_notify m1 [MSDErrorIndication code, MSDRejectIndication]))"

definition msd_Incoming_timeout :: "msd \<Rightarrow> msd \<times> effect list" where
  "msd_Incoming_timeout m =
     (let m1 = m\<lparr>msdState := MSD_IDLE\<rparr>
      in (m1, msd_notify m1 [MSDErrorIndication MSD_ERROR_CODE_A, MSDRejectIndication]))"

section \<open>Handlers\<close>

definition DetermineRequest :: "u32 \<Rightarrow> msd \<Rightarrow> msd \<times> effect list" where
  "DetermineRequest dur m =
     (case msdState m of
        MSD_IDLE \<Rightarrow> msd_Idle_request dur m
      | MSD_OUTGOING_AWAITING_RESPONSE \<Rightarrow> (m, [])
      | MSD_INCOMING_AWAITING_RESPONSE \<Rightarrow> (m, []))"

definition msd_Handler_MSD :: "u32 \<Rightarrow> master_slave_determination \<Rightarrow> msd \<Rightarrow> msd \<times> effect list" where
  "msd_Handler_MSD dur d m =
     (case msdState m of
        MSD_IDLE \<Rightarrow> msd_Idle_msd dur d m
      | MSD_OUTGOING_AWAITING_RESPONSE \<Rightarrow> msd_Outgoing_msd dur d m
      | MSD_INCOMING_AWAITING_RESPONSE \<Rightarrow> msd_Incoming_error MSD_ERROR_CODE_C m)"

definition msd_Handler_MSDAck :: "u16 \<Rightarrow> msd \<Rightarrow> msd \<times> effect list" where
  "msd_Handler_MSDAck decision m =
     (case msdState m of
        MSD_IDLE \<Rightarrow> (m, [])
      | MSD_OUTGOING_AWAITING_RESPONSE \<Rightarrow> msd_Outgoing_ack decision m
      | MSD_INCOMING_AWAITING_RESPONSE \<Rightarrow> msd_Incoming_ack decision m)"

definition msd_Handler_MSDReject :: "u32 \<Rightarrow> msd \<Rightarrow> msd \<times> effect list" where
  "msd_Handler_MSDReject dur m =
     (case msdState m of
        MSD_IDLE \<Rightarrow> (m, [])
      | MSD_OUTGOING_AWAITING_RESPONSE \<Rightarrow> msd_Outgoing_reject dur m
      | MSD_INCOMING_AWAITING_RESPONSE \<Rightarrow> msd_Incoming_error MSD_ERROR_CODE_D m)"

definition msd_Handler_MSDRelease :: "msd \<Rightarrow> msd \<times> effect list" where
  "msd_Handler_MSDRelease m =
     (case msdState m of
        MSD_IDLE \<Rightarrow> (m, [])
      | MSD_OUTGOING_AWAITING_RESPONSE \<Rightarrow> msd_Outgoing_release m
      | MSD_INCOMING_AWAITING_RESPONSE \<Rightarrow> msd_Incoming_error MSD_ERROR_CODE_B m)"

definition msd_HandlerTimeout :: "msd \<Rightarrow> msd \<times> effect list" where
  "msd_HandlerTimeout m =
     (case msdState m of
        MSD_IDLE \<Rightarrow> (m, [])
      | MSD_OUTGOING_AWAITING_RESPONSE \<Rightarrow> msd_Outgoing_timeout m
      | MSD_INCOMING_AWAITING_RESPONSE \<Rightarrow> msd_Incoming_timeout m)"

definition msd_Reset :: "msd \<Rightarrow> msd \<times> effect list" where
  "msd_Reset m =
     (msd_NewStatusDeterminationNumber
        (m\<lparr>msdState := MSD_IDLE, msdStatus := MSD_INDETERMINATE, msdRetryCnt := 0\<rparr>),
      [msd_ResetTimer])"


section \<open>Inputs\<close>

datatype msd_input =
    Msd_DetermineRequest | Msd_MSD master_slave_determination | Msd_Ack u16 | Msd_Reject
  | Msd_Release | Msd_Reset

fun msd_step :: "u32 \<Rightarrow> msd_input \<Rightarrow> msd \<Rightarrow> msd \<times> effect list" where
  "msd_step dur Msd_DetermineRequest m = DetermineRequest dur m"
| "msd_step dur (Msd_MSD d) m = msd_Handler_MSD dur d m"
| "msd_step dur (Msd_Ack decision) m = msd_Handler_MSDAck decision m"
| "msd_step dur Msd_Reject m = msd_Handler_MSDReject dur m"
| "msd_step dur Msd_Release m = msd_Handler_MSDRelease m"
| "msd_step dur Msd_Reset m = msd_Reset m"

lemmas msd_handlers =
  DetermineRequest_def msd_Handler_MSD_def msd_Handler_MSDAck_def msd_Handler_MSDReject_def
  msd_Handler_MSDRelease_def msd_HandlerTimeout_def msd_Reset_def

lemmas msd_cases =
  msd_Idle_request_def msd_Idle_msd_def msd_Outgoing_ack_def msd_Outgoing_msd_def
  msd_Outgoing_reject_def msd_Outgoing_release_def msd_Outgoing_timeout_def msd_Incoming_ack_def
  msd_Incoming_error_def msd_Incoming_timeout_def msd_retry_def

lemmas msd_sends =
  SendMSD_def SendMSDReject_def SendMSDAck_def SendMSDRelease_def msd_SetTimer_def msd_ResetTimer_def

lemma DetermineStatus_fields [simp]:
  "msdState (DetermineStatus d m) = msdState m"
  "msdRetryCnt (DetermineStatus d m) = msdRetryCnt m"
  "msdNumber (DetermineStatus d m) = msdNumber m"
  "msdTerminalType (DetermineStatus d m) = msdTerminalType m"
  "msdObserver (DetermineStatus d m) = msdObserver m"
  "msdRand (DetermineStatus d m) = msdRand m"
  "msdRandPos (DetermineStatus d m) = msdRandPos m"
  by (simp_all add: DetermineStatus_def Let_def)

lemma NewNumber_fields [simp]:
  "msdState (msd_NewStatusDeterminationNumber m) = msdState m"
  "msdStatus (msd_NewStatusDeterminationNumber m) = msdStatus m"
  "msdRetryCnt (msd_NewStatusDeterminationNumber m) = msdRetryCnt m"
  "msdTerminalType (msd_NewStatusDeterminationNumber m) = msdTerminalType m"
  "msdObserver (msd_NewStatusDeterminationNumber m) = msdObserver m"
  "msdRand (msd_NewStatusDeterminationNumber m) = msdRand m"
  by (simp_all add: msd_NewStatusDeterminationNumber_def)

lemma pending_notify [simp]: "pending tid ns (msd_notify m []) = ns"
  "pending tid ns (msd_notify m (MSDDetermineConfirm s # es)) = pending tid ns (msd_notify m es)"
  "pending tid ns (msd_notify m (MSDDetermineIndication s # es)) = pending tid ns (msd_notify m es)"
  "pending tid ns (msd_notify m (MSDRejectIndication # es)) = pending tid ns (msd_notify m es)"
  "pending tid ns (msd_notify m (MSDErrorIndication c # es)) = pending tid ns (msd_notify m es)"
  by (simp_all add: msd_notify_def)

text \<open>A handler calls its observer last, so a request that the observer makes from its callback (as
  the terminal does on a reject) meets the state that the handler leaves.\<close>

lemma msd_upcalls_last:
  "upcalls_last (snd (msd_step dur i m))" "upcalls_last (snd (msd_HandlerTimeout m))"
  by (cases i; cases "msdState m";
      simp add: msd_handlers msd_cases msd_sends msd_notify_def upcalls_last_def Let_def)
     (cases "msdState m"; simp add: msd_handlers msd_cases msd_sends msd_notify_def upcalls_last_def Let_def)

section \<open>The timer of a determination\<close>

interpretation msd_timed: timed_procedure
    "\<lambda>_. True" "msd_step dur" "\<lambda>_. msd_HandlerTimeout" 106
    "\<lambda>m. msdState m \<noteq> MSD_IDLE" "\<lambda>_. 0" for dur
proof unfold_locales
  fix m and i
  show "pending 106 (if msdState m \<noteq> MSD_IDLE then [0] else []) (snd (msd_step dur i m))
      = (if msdState (fst (msd_step dur i m)) \<noteq> MSD_IDLE then [0] else [])"
    by (cases i; cases "msdState m") (simp_all add: msd_handlers msd_cases msd_sends Let_def)
  show "timer_ids (snd (msd_step dur i m)) \<subseteq> {106} \<and> addressed (snd (msd_step dur i m))"
    by (cases i; cases "msdState m")
       (simp_all add: msd_handlers msd_cases msd_sends msd_notify_def home_def Let_def)
next
  fix m n
  show "timer_ids (snd (msd_HandlerTimeout m)) = {}"
    by (cases "msdState m") (simp_all add: msd_handlers msd_cases msd_sends msd_notify_def Let_def)
  show "\<not> msdState (fst (msd_HandlerTimeout m)) \<noteq> MSD_IDLE"
    by (cases "msdState m") (simp_all add: msd_handlers msd_cases msd_sends Let_def)
qed simp_all

section \<open>The decision\<close>

definition decide :: "u8 \<Rightarrow> u32 \<Rightarrow> u8 \<Rightarrow> u32 \<Rightarrow> msd_status" where
  "decide t n t' n' =
     (if t \<noteq> t' then (if t < t' then MSD_SLAVE else MSD_MASTER)
      else
        let diff = (n' - n) mod 0x1000000
        in if diff = 0 \<or> diff = 0x800000 then MSD_INDETERMINATE
           else if diff < 0x800000 then MSD_MASTER else MSD_SLAVE)"

lemma DetermineStatus_decide:
  "msdStatus (DetermineStatus d m) =
     decide (msdTerminalType m) (msdNumber m) (msd_terminalType d) (msd_statusDeterminationNumber d)"
  by (simp add: DetermineStatus_def decide_def TWO_24_def TWO_23_def Let_def)

fun opposite :: "msd_status \<Rightarrow> msd_status" where
  "opposite MSD_MASTER = MSD_SLAVE"
| "opposite MSD_SLAVE = MSD_MASTER"
| "opposite MSD_INDETERMINATE = MSD_INDETERMINATE"

lemma opposite_opposite [simp]: "opposite (opposite s) = s"
  by (cases s) simp_all

text \<open>The two differences modulo \<open>2^24\<close> are complementary, although the subtraction wraps at
  \<open>2^32\<close>.\<close>

lemma diff_complement:
  fixes a b :: u32
  shows "(a - b) mod 0x1000000 = (0x1000000 - (b - a) mod 0x1000000) mod 0x1000000"
proof -
  have u: "uint ((x - y) mod 0x1000000) = (uint x - uint y) mod 0x1000000" for x y :: u32
    by (simp add: uint_mod uint_word_ariths mod_mod_cancel)
  let ?d = "(b - a) mod 0x1000000"
  have lt: "?d < 0x1000000" by (rule word_mod_less_divisor) simp
  have "uint ((0x1000000 - ?d) mod 0x1000000) = (0x1000000 - uint ?d) mod 0x1000000"
    using u [of "0x1000000" ?d] by simp
  also have "\<dots> = (uint a - uint b) mod 0x1000000"
  proof -
    have "0x1000000 - (uint b - uint a) = uint a - uint b + 0x1000000" by simp
    then show ?thesis unfolding u mod_diff_right_eq by (simp only: mod_add_self2)
  qed
  also have "\<dots> = uint ((a - b) mod 0x1000000)" by (rule u [symmetric])
  finally show ?thesis by (simp add: word_uint_eq_iff)
qed

lemma complement_compare:
  fixes d e :: u32
  assumes "uint e = 0x1000000 - uint d" and "d \<noteq> 0" and "d < 0x1000000"
  shows "e \<noteq> 0" and "e = 0x800000 \<longleftrightarrow> d = 0x800000"
    and "e < 0x800000 \<longleftrightarrow> \<not> d < 0x800000 \<and> d \<noteq> 0x800000"
  using assms by (auto simp: word_uint_eq_iff word_less_def)

lemma decide_opposite: "decide t' n' t n = opposite (decide t n t' n')"
proof (cases "t = t'")
  case False
  then show ?thesis by (auto simp: decide_def dest: less_asym)
next
  case True
  obtain d where d: "d = (n' - n) mod 0x1000000" by simp
  obtain e where e: "e = (n - n') mod 0x1000000" by simp
  have e_d: "e = (0x1000000 - d) mod 0x1000000" unfolding d e by (rule diff_complement)
  have d_less: "d < 0x1000000" unfolding d by (rule word_mod_less_divisor) simp
  have eqs: "decide t n t' n' = (if d = 0 \<or> d = 0x800000 then MSD_INDETERMINATE
                                else if d < 0x800000 then MSD_MASTER else MSD_SLAVE)"
    "decide t' n' t n = (if e = 0 \<or> e = 0x800000 then MSD_INDETERMINATE
                                else if e < 0x800000 then MSD_MASTER else MSD_SLAVE)"
    using True by (simp_all add: decide_def d e Let_def)
  show ?thesis
  proof (cases "d = 0")
    case True
    then have "e = 0" by (simp add: e_d)
    with True show ?thesis by (simp add: eqs)
  next
    case False
    have "uint d \<noteq> 0" "uint d < 0x1000000" "0 \<le> uint d"
      using False d_less by (simp_all add: uint_0_iff word_less_def)
    then have "(0x1000000 - uint d) mod 0x1000000 = 0x1000000 - uint d"
      by (intro mod_pos_pos_trivial) linarith+
    moreover have "uint e = (0x1000000 - uint d) mod 0x1000000"
      unfolding e_d uint_mod using \<open>uint d < 0x1000000\<close> by (simp add: uint_sub_if')
    ultimately have "uint e = 0x1000000 - uint d" by simp
    note cmp = complement_compare [OF this False d_less]
    from cmp False show ?thesis by (simp add: eqs)
  qed
qed

lemma decide_indeterminate_self: "decide t n t n = MSD_INDETERMINATE"
  by (simp add: decide_def)

end
