(* ===== verification/MsdProtocol.thy ===== *)
theory MsdProtocol
  imports Msd
begin

text \<open>
  Two terminals that run the determination of \<^verbatim>\<open>msd.h\<close> against each other over a network
  that may lose, repeat and reorder messages: a message once sent can be delivered any number
  of times, or never. Either side may start a determination at any time, and the timer of a
  waiting side may expire at any time.
\<close>

section \<open>The network\<close>

fun msd_receive :: "u32 \<Rightarrow> payload \<Rightarrow> msd \<Rightarrow> msd \<times> effect list" where
  "msd_receive dur (Block_Msd (MasterSlaveDetermination d)) m = msd_Handler_MSD dur d m"
| "msd_receive dur (Block_Msd (MasterSlaveDeterminationAck decision)) m = msd_Handler_MSDAck decision m"
| "msd_receive dur (Block_Msd (MasterSlaveDeterminationReject cause)) m = msd_Handler_MSDReject dur m"
| "msd_receive dur (Block_Msd MasterSlaveDeterminationRelease) m = msd_Handler_MSDRelease m"
| "msd_receive dur _ m = (m, [])"

fun sent :: "effect list \<Rightarrow> payload list" where
  "sent [] = []"
| "sent (MessageSend msg # es) = (case pData msg of None \<Rightarrow> [] | Some p \<Rightarrow> [p]) @ sent es"
| "sent (_ # es) = sent es"

lemma sent_append [simp]: "sent (xs @ ys) = sent xs @ sent ys"
  by (induction xs rule: sent.induct) simp_all

lemma sent_send_msg [simp]: "sent (send_msg a b p # es) = p # sent es"
  by (simp add: send_msg_def)

lemma sent_notify [simp]: "sent (msd_notify m []) = []"
  "sent (msd_notify m (MSDDetermineConfirm s # es)) = sent (msd_notify m es)"
  "sent (msd_notify m (MSDDetermineIndication s # es)) = sent (msd_notify m es)"
  "sent (msd_notify m (MSDRejectIndication # es)) = sent (msd_notify m es)"
  "sent (msd_notify m (MSDErrorIndication c # es)) = sent (msd_notify m es)"
  by (simp_all add: msd_notify_def)

text \<open>A configuration: the two sides, and all messages sent so far to the second and to the
  first.\<close>

inductive msd_net :: "u32 \<Rightarrow> msd \<Rightarrow> msd \<Rightarrow> msd \<times> msd \<times> payload set \<times> payload set \<Rightarrow> bool"
  for dur :: u32 and a0 b0 :: msd where
  start: "msd_net dur a0 b0 (a0, b0, {}, {})"
| request_a: "msd_net dur a0 b0 (a, b, toB, toA) \<Longrightarrow> DetermineRequest dur a = (a', es) \<Longrightarrow>
    msd_net dur a0 b0 (a', b, toB \<union> set (sent es), toA)"
| request_b: "msd_net dur a0 b0 (a, b, toB, toA) \<Longrightarrow> DetermineRequest dur b = (b', es) \<Longrightarrow>
    msd_net dur a0 b0 (a, b', toB, toA \<union> set (sent es))"
| timeout_a: "msd_net dur a0 b0 (a, b, toB, toA) \<Longrightarrow> msd_HandlerTimeout a = (a', es) \<Longrightarrow>
    msd_net dur a0 b0 (a', b, toB \<union> set (sent es), toA)"
| timeout_b: "msd_net dur a0 b0 (a, b, toB, toA) \<Longrightarrow> msd_HandlerTimeout b = (b', es) \<Longrightarrow>
    msd_net dur a0 b0 (a, b', toB, toA \<union> set (sent es))"
| deliver_b: "msd_net dur a0 b0 (a, b, toB, toA) \<Longrightarrow> p \<in> toB \<Longrightarrow> msd_receive dur p b = (b', es) \<Longrightarrow>
    msd_net dur a0 b0 (a, b', toB, toA \<union> set (sent es))"
| deliver_a: "msd_net dur a0 b0 (a, b, toB, toA) \<Longrightarrow> p \<in> toA \<Longrightarrow> msd_receive dur p a = (a', es) \<Longrightarrow>
    msd_net dur a0 b0 (a', b, toB \<union> set (sent es), toA)"

section \<open>Agreement\<close>

text \<open>What one side keeps, given the result \<open>v\<close> that it must reach: its terminal type and number
  do not change, its status is unset or \<open>v\<close>, and its messages say \<open>v\<close>.\<close>

fun msg_ok :: "u8 \<Rightarrow> u32 \<Rightarrow> msd_status \<Rightarrow> payload \<Rightarrow> bool" where
  "msg_ok t n v (Block_Msd (MasterSlaveDetermination d)) \<longleftrightarrow>
     msd_terminalType d = t \<and> msd_statusDeterminationNumber d = n"
| "msg_ok t n v (Block_Msd (MasterSlaveDeterminationAck decision)) \<longleftrightarrow>
     decision = (if v = MSD_MASTER then 1 else 0)"
| "msg_ok t n v (Block_Msd (MasterSlaveDeterminationReject cause)) \<longleftrightarrow> False"
| "msg_ok t n v (Block_Msd MasterSlaveDeterminationRelease) \<longleftrightarrow> True"
| "msg_ok t n v _ \<longleftrightarrow> False"

definition side_ok :: "u8 \<Rightarrow> u32 \<Rightarrow> msd_status \<Rightarrow> msd \<Rightarrow> bool" where
  "side_ok t n v m \<longleftrightarrow>
     msdTerminalType m = t \<and> msdNumber m = n \<and>
     (msdStatus m = MSD_INDETERMINATE \<or> msdStatus m = v) \<and>
     (msdState m = MSD_INCOMING_AWAITING_RESPONSE \<longrightarrow> msdStatus m = v)"

lemma side_ok_request:
  assumes "side_ok t n v m" and "DetermineRequest dur m = (m', es)"
  shows "side_ok t n v m' \<and> (\<forall>p \<in> set (sent es). msg_ok t n v p)"
  using assms
  by (cases "msdState m") (auto simp: side_ok_def msd_handlers msd_cases msd_sends Let_def)

lemma side_ok_timeout:
  assumes "side_ok t n v m" and "msd_HandlerTimeout m = (m', es)"
  shows "side_ok t n v m' \<and> (\<forall>p \<in> set (sent es). msg_ok t n v p)"
  using assms
  by (cases "msdState m") (auto simp: side_ok_def msd_handlers msd_cases msd_sends Let_def)

lemma side_ok_MSD:
  assumes "side_ok t n v m" and "msg_ok t' n' w (P_MasterSlaveDetermination d)"
    and "v = decide t n t' n'" and "v \<noteq> MSD_INDETERMINATE"
    and "msd_Handler_MSD dur d m = (m', es)"
  shows "side_ok t n v m' \<and> (\<forall>p \<in> set (sent es). msg_ok t n v p)"
proof -
  have "msdStatus (DetermineStatus d m) = v"
    using assms(1-3) by (simp add: DetermineStatus_decide side_ok_def)
  then show ?thesis
    using assms(1,4,5)
    by (cases "msdState m") (auto simp: side_ok_def msd_handlers msd_cases msd_sends Let_def)
qed

lemma side_ok_Ack:
  assumes "side_ok t n v m" and "msg_ok t' n' (opposite v) (P_MasterSlaveDeterminationAck decision)"
    and "v \<noteq> MSD_INDETERMINATE" and "msd_Handler_MSDAck decision m = (m', es)"
  shows "side_ok t n v m' \<and> (\<forall>p \<in> set (sent es). msg_ok t n v p)"
proof -
  have "(if decision = 0 then MSD_MASTER else MSD_SLAVE) = v"
    using assms(2,3) by (cases v) simp_all
  then show ?thesis
    using assms(1,4)
    by (cases "msdState m") (auto simp: side_ok_def msd_handlers msd_cases msd_sends Let_def split: if_splits)
qed

lemma side_ok_Release:
  assumes "side_ok t n v m" and "msd_Handler_MSDRelease m = (m', es)"
  shows "side_ok t n v m' \<and> (\<forall>p \<in> set (sent es). msg_ok t n v p)"
  using assms
  by (cases "msdState m") (auto simp: side_ok_def msd_handlers msd_cases msd_sends Let_def)

lemma side_ok_receive:
  assumes "side_ok t n v m" and "msg_ok t' n' (opposite v) p"
    and "v = decide t n t' n'" and "v \<noteq> MSD_INDETERMINATE"
    and "msd_receive dur p m = (m', es)"
  shows "side_ok t n v m' \<and> (\<forall>p \<in> set (sent es). msg_ok t n v p)"
proof (cases "(dur, p, m)" rule: msd_receive.cases)
  case (1 dur' d m'')
  with assms show ?thesis using side_ok_MSD [of t n v m t' n' "opposite v" d dur m' es] by simp
next
  case (2 dur' decision m'')
  with assms show ?thesis using side_ok_Ack [of t n v m t' n' decision m' es] by simp
next
  case (4 dur' m'')
  with assms show ?thesis using side_ok_Release [of t n v m m' es] by simp
qed (use assms in simp_all)

definition net_ok :: "msd_status \<Rightarrow> msd \<Rightarrow> msd \<Rightarrow> msd \<times> msd \<times> payload set \<times> payload set \<Rightarrow> bool" where
  "net_ok v a0 b0 c \<longleftrightarrow>
     (case c of (a, b, toB, toA) \<Rightarrow>
        side_ok (msdTerminalType a0) (msdNumber a0) v a \<and>
        side_ok (msdTerminalType b0) (msdNumber b0) (opposite v) b \<and>
        (\<forall>p \<in> toB. msg_ok (msdTerminalType a0) (msdNumber a0) v p) \<and>
        (\<forall>p \<in> toA. msg_ok (msdTerminalType b0) (msdNumber b0) (opposite v) p))"

lemma msd_net_ok:
  assumes "msd_net dur a0 b0 c"
    and "msdState a0 = MSD_IDLE" and "msdStatus a0 = MSD_INDETERMINATE"
    and "msdState b0 = MSD_IDLE" and "msdStatus b0 = MSD_INDETERMINATE"
    and v: "v = decide (msdTerminalType a0) (msdNumber a0) (msdTerminalType b0) (msdNumber b0)"
    and "v \<noteq> MSD_INDETERMINATE"
  shows "net_ok v a0 b0 c"
  using assms(1)
proof induction
  case start
  show ?case using assms by (simp add: net_ok_def side_ok_def)
next
  case (request_a a b toB toA a' es)
  then show ?case by (auto simp: net_ok_def dest: side_ok_request)
next
  case (request_b a b toB toA b' es)
  then show ?case by (auto simp: net_ok_def dest: side_ok_request)
next
  case (timeout_a a b toB toA a' es)
  then show ?case by (auto simp: net_ok_def dest: side_ok_timeout)
next
  case (timeout_b a b toB toA b' es)
  then show ?case by (auto simp: net_ok_def dest: side_ok_timeout)
next
  case (deliver_b a b toB toA p b' es)
  let ?w = "opposite v"
  have "?w = decide (msdTerminalType b0) (msdNumber b0) (msdTerminalType a0) (msdNumber a0)"
    unfolding v by (rule decide_opposite [symmetric])
  moreover have "?w \<noteq> MSD_INDETERMINATE" using assms(7) by (cases v) simp_all
  moreover have "msg_ok (msdTerminalType a0) (msdNumber a0) (opposite ?w) p"
    using deliver_b by (simp add: net_ok_def)
  moreover have "side_ok (msdTerminalType b0) (msdNumber b0) ?w b"
    using deliver_b by (simp add: net_ok_def)
  ultimately have "side_ok (msdTerminalType b0) (msdNumber b0) ?w b'
      \<and> (\<forall>p \<in> set (sent es). msg_ok (msdTerminalType b0) (msdNumber b0) ?w p)"
    using deliver_b.hyps(3) by (intro side_ok_receive)
  with deliver_b show ?case by (auto simp: net_ok_def)
next
  case (deliver_a a b toB toA p a' es)
  have "side_ok (msdTerminalType a0) (msdNumber a0) v a'
      \<and> (\<forall>p \<in> set (sent es). msg_ok (msdTerminalType a0) (msdNumber a0) v p)"
    using deliver_a assms(7) v by (intro side_ok_receive [OF _ _ v]) (auto simp: net_ok_def)
  with deliver_a show ?case by (auto simp: net_ok_def)
qed

end
