(* ===== verification/Ce.thy ===== *)
theory Ce
  imports TimedProcedure
begin

text \<open>
  Capability exchange (\<^verbatim>\<open>se/include/ce.h\<close>, class \<^verbatim>\<open>CE\<close>): the outgoing half sends one
  TerminalCapabilitySet at a time and waits for its acknowledgement, the incoming half passes
  the set of the peer to the observer and answers it.
\<close>

section \<open>State\<close>

datatype ce_state = CE_IDLE | CE_AWAITING_RESPONSE

record ce =
  ceObserver :: bool
  OutgoingState :: ce_state
  IncomingState :: ce_state
  OutSeqNum :: u8
  InSeqNum :: u8

definition new_CE :: ce where
  "new_CE = \<lparr> ceObserver = False, OutgoingState = CE_IDLE, IncomingState = CE_IDLE,
              OutSeqNum = 0, InSeqNum = 0xff \<rparr>"

definition ce_SetObserver :: "bool \<Rightarrow> ce \<Rightarrow> ce" where
  "ce_SetObserver observer c = c\<lparr>ceObserver := observer\<rparr>"

definition ce_SetTimer :: "u32 \<Rightarrow> effect" where
  "ce_SetTimer dur = RequestTimer 101 0 dur (Some ObsCE)"

definition ce_ResetTimer :: effect where
  "ce_ResetTimer = CancelTimer 101"

definition ce_Reset :: "ce \<Rightarrow> ce \<times> effect list" where
  "ce_Reset c =
     (c\<lparr>OutgoingState := CE_IDLE, IncomingState := CE_IDLE, OutSeqNum := 0, InSeqNum := 0xff\<rparr>,
      [ce_ResetTimer])"

definition ce_notify :: "ce \<Rightarrow> effect list \<Rightarrow> effect list" where
  "ce_notify c calls = (if ceObserver c then calls else [])"

section \<open>Messages\<close>

definition SendTerminalCapabilitySet :: "ce \<Rightarrow> terminal_capability_set \<Rightarrow> effect" where
  "SendTerminalCapabilitySet c tcs =
     send_msg H245_MSG_REQ MSGTYP_CE (P_TerminalCapabilitySet (tcs\<lparr>tcs_sequenceNumber := OutSeqNum c\<rparr>))"

definition SendTerminalCapabilitySetAck :: "ce \<Rightarrow> effect" where
  "SendTerminalCapabilitySetAck c =
     send_msg H245_MSG_RPS MSGTYP_CE_ACK (P_TerminalCapabilitySetAck (InSeqNum c))"

definition SendTerminalCapabilitySetRelease :: effect where
  "SendTerminalCapabilitySetRelease = send_msg H245_MSG_IDC MSGTYP_CE_RLS P_TerminalCapabilitySetRelease"

text \<open>\<^verbatim>\<open>CE_TABLE_ENTRY_CAPACITY_EXCEEDED\<close> is 3.\<close>

definition SendTerminalCapabilitySetReject :: "u16 \<Rightarrow> u16 \<Rightarrow> ce \<Rightarrow> effect" where
  "SendTerminalCapabilitySetReject cause highestEntryProcessed c =
     send_msg H245_MSG_RPS MSGTYP_CE_RJT
       (P_TerminalCapabilitySetReject
          \<lparr> tcr_sequenceNumber = InSeqNum c, tcr_cause = cause,
            tcr_tableEntryCapacityExceeded =
              (if cause = 3 then Some (if highestEntryProcessed \<noteq> 0 then 0 else 1, highestEntryProcessed)
               else None) \<rparr>)"

section \<open>The outgoing half\<close>

definition TransferRequest :: "u32 \<Rightarrow> terminal_capability_set \<Rightarrow> ce \<Rightarrow> ce \<times> effect list" where
  "TransferRequest dur tcs c =
     (case OutgoingState c of
        CE_IDLE \<Rightarrow>
          let c1 = c\<lparr>OutSeqNum := OutSeqNum c + 1, OutgoingState := CE_AWAITING_RESPONSE\<rparr>
          in (c1, [ce_SetTimer dur, SendTerminalCapabilitySet c1 tcs])
      | CE_AWAITING_RESPONSE \<Rightarrow> (c, []))"

definition ce_Handler_TCSAck :: "u8 \<Rightarrow> ce \<Rightarrow> ce \<times> effect list" where
  "ce_Handler_TCSAck sequenceNumber c =
     (case OutgoingState c of
        CE_IDLE \<Rightarrow> (c, [])
      | CE_AWAITING_RESPONSE \<Rightarrow>
          if sequenceNumber = OutSeqNum c
          then (c\<lparr>OutgoingState := CE_IDLE\<rparr>, [ce_ResetTimer] @ ce_notify c [CETransferConfirm])
          else (c, []))"

definition ce_Handler_TCSReject ::
  "terminal_capability_set_reject \<Rightarrow> ce \<Rightarrow> ce \<times> effect list" where
  "ce_Handler_TCSReject tcsr c =
     (case OutgoingState c of
        CE_IDLE \<Rightarrow> (c, [])
      | CE_AWAITING_RESPONSE \<Rightarrow>
          if tcr_sequenceNumber tcsr = OutSeqNum c
          then (c\<lparr>OutgoingState := CE_IDLE\<rparr>,
                [ce_ResetTimer] @ ce_notify c [CERejectIndication CE_USER (tcr_cause tcsr) CE_OUTGOING])
          else (c, []))"

definition ce_HandlerTimeout :: "ce \<Rightarrow> ce \<times> effect list" where
  "ce_HandlerTimeout c =
     (case OutgoingState c of
        CE_IDLE \<Rightarrow> (c, [])
      | CE_AWAITING_RESPONSE \<Rightarrow>
          (c\<lparr>OutgoingState := CE_IDLE\<rparr>,
           [SendTerminalCapabilitySetRelease] @ ce_notify c [CERejectIndication CE_PROTOCOL 0 CE_OUTGOING]))"

section \<open>The incoming half\<close>

definition ce_Handler_TCS :: "terminal_capability_set \<Rightarrow> ce \<Rightarrow> ce \<times> effect list" where
  "ce_Handler_TCS tcs c =
     (let c1 = c\<lparr>InSeqNum := tcs_sequenceNumber tcs, IncomingState := CE_AWAITING_RESPONSE\<rparr>
      in case IncomingState c of
           CE_IDLE \<Rightarrow> (c1, ce_notify c [CETransferIndication tcs])
         | CE_AWAITING_RESPONSE \<Rightarrow>
             (c1, ce_notify c [CERejectIndication CE_USER 0 CE_INCOMING] @ ce_notify c [CETransferIndication tcs]))"

definition TransferResponse :: "ce \<Rightarrow> ce \<times> effect list" where
  "TransferResponse c =
     (case IncomingState c of
        CE_IDLE \<Rightarrow> (c, [])
      | CE_AWAITING_RESPONSE \<Rightarrow> (c\<lparr>IncomingState := CE_IDLE\<rparr>, [SendTerminalCapabilitySetAck c]))"

definition RejectRequest :: "u16 \<Rightarrow> u16 \<Rightarrow> ce \<Rightarrow> ce \<times> effect list" where
  "RejectRequest cause highestEntryProcessed c =
     (case IncomingState c of
        CE_IDLE \<Rightarrow> (c, [])
      | CE_AWAITING_RESPONSE \<Rightarrow>
          (c\<lparr>IncomingState := CE_IDLE\<rparr>, [SendTerminalCapabilitySetReject cause highestEntryProcessed c]))"

definition ce_Handler_TCSRelease :: "ce \<Rightarrow> ce \<times> effect list" where
  "ce_Handler_TCSRelease c =
     (case IncomingState c of
        CE_IDLE \<Rightarrow> (c, [])
      | CE_AWAITING_RESPONSE \<Rightarrow>
          (c\<lparr>IncomingState := CE_IDLE\<rparr>, ce_notify c [CERejectIndication CE_PROTOCOL 0 CE_INCOMING]))"

section \<open>Inputs and timer\<close>

datatype ce_input =
    Ce_TransferRequest terminal_capability_set | Ce_Ack u8 | Ce_Reject terminal_capability_set_reject
  | Ce_TCS terminal_capability_set | Ce_TransferResponse | Ce_RejectRequest u16 u16 | Ce_Release
  | Ce_Reset

fun ce_step :: "u32 \<Rightarrow> ce_input \<Rightarrow> ce \<Rightarrow> ce \<times> effect list" where
  "ce_step dur (Ce_TransferRequest tcs) c = TransferRequest dur tcs c"
| "ce_step dur (Ce_Ack n) c = ce_Handler_TCSAck n c"
| "ce_step dur (Ce_Reject r) c = ce_Handler_TCSReject r c"
| "ce_step dur (Ce_TCS tcs) c = ce_Handler_TCS tcs c"
| "ce_step dur Ce_TransferResponse c = TransferResponse c"
| "ce_step dur (Ce_RejectRequest cause h) c = RejectRequest cause h c"
| "ce_step dur Ce_Release c = ce_Handler_TCSRelease c"
| "ce_step dur Ce_Reset c = ce_Reset c"

lemmas ce_handlers =
  TransferRequest_def ce_Handler_TCSAck_def ce_Handler_TCSReject_def ce_HandlerTimeout_def
  ce_Handler_TCS_def TransferResponse_def RejectRequest_def ce_Handler_TCSRelease_def ce_Reset_def

lemmas ce_sends =
  SendTerminalCapabilitySet_def SendTerminalCapabilitySetAck_def SendTerminalCapabilitySetRelease_def
  SendTerminalCapabilitySetReject_def ce_SetTimer_def ce_ResetTimer_def ce_notify_def

text \<open>As in MSD, the calls of the observer are the last of a handler.\<close>

lemma ce_upcalls_last:
  "upcalls_last (snd (ce_step dur i c))" "upcalls_last (snd (ce_HandlerTimeout c))"
  by (cases i; cases "OutgoingState c"; cases "IncomingState c";
      simp add: ce_handlers ce_sends upcalls_last_def Let_def)
     (cases "OutgoingState c"; simp add: ce_handlers ce_sends upcalls_last_def Let_def)

interpretation ce_timed: timed_procedure
    "\<lambda>_. True" "ce_step dur" "\<lambda>_. ce_HandlerTimeout" 101
    "\<lambda>c. OutgoingState c \<noteq> CE_IDLE" "\<lambda>_. 0" for dur
proof unfold_locales
  fix c and i
  show "pending 101 (if OutgoingState c \<noteq> CE_IDLE then [0] else []) (snd (ce_step dur i c))
      = (if OutgoingState (fst (ce_step dur i c)) \<noteq> CE_IDLE then [0] else [])"
    by (cases i; cases "OutgoingState c"; cases "IncomingState c")
       (simp_all add: ce_handlers ce_sends Let_def)
  show "timer_ids (snd (ce_step dur i c)) \<subseteq> {101} \<and> addressed (snd (ce_step dur i c))"
    by (cases i; cases "OutgoingState c"; cases "IncomingState c")
       (simp_all add: ce_handlers ce_sends home_def Let_def)
next
  fix c n
  show "timer_ids (snd (ce_HandlerTimeout c)) = {}"
    by (cases "OutgoingState c") (simp_all add: ce_handlers ce_sends)
  show "\<not> OutgoingState (fst (ce_HandlerTimeout c)) \<noteq> CE_IDLE"
    by (cases "OutgoingState c") (simp_all add: ce_handlers ce_sends)
qed simp_all

section \<open>Sequence numbers\<close>

text \<open>The set that is waiting for an answer is the last one sent, and only its own answer ends
  the wait.\<close>

lemma ce_request_number:
  assumes "OutgoingState c = CE_IDLE"
  shows "TransferRequest dur tcs c =
    (c\<lparr>OutSeqNum := OutSeqNum c + 1, OutgoingState := CE_AWAITING_RESPONSE\<rparr>,
     [ce_SetTimer dur,
      send_msg H245_MSG_REQ MSGTYP_CE
        (P_TerminalCapabilitySet (tcs\<lparr>tcs_sequenceNumber := OutSeqNum c + 1\<rparr>))])"
  using assms by (simp add: TransferRequest_def SendTerminalCapabilitySet_def)

lemma ce_stale_answer:
  assumes "n \<noteq> OutSeqNum c"
  shows "ce_Handler_TCSAck n c = (c, [])"
    and "tcr_sequenceNumber r = n \<Longrightarrow> ce_Handler_TCSReject r c = (c, [])"
  using assms by (auto simp: ce_Handler_TCSAck_def ce_Handler_TCSReject_def split: ce_state.splits)

end
