(* ===== verification/LcEntry.thy ===== *)
theory LcEntry
  imports SeTypes
begin

text \<open>
  Logical channel entries (\<^verbatim>\<open>se/include/lcentry.h\<close>): one entry per logical channel number
  and direction, with the state of the LC or BLC procedure that runs on it and of the close
  procedure (CLC), and the two lists \<^verbatim>\<open>LCEntryList\<close> of the signalling entity. A pointer to an
  entry is its position in the list.
\<close>

section \<open>Entries\<close>

datatype lcblc_status =
    LCBLC_OUTGOING_RLSED | LCBLC_OUTGOING_AWTING_ETBMNT | LCBLC_OUTGOING_ETBED
  | LCBLC_OUTGOING_AWTING_RLS
  | LCBLC_INCOMING_RLSED | LCBLC_INCOMING_AWTING_ETBMNT | LCBLC_INCOMING_AWTING_CNFMTN
  | LCBLC_INCOMING_ETBED

fun status_code :: "lcblc_status \<Rightarrow> u8" where
  "status_code LCBLC_OUTGOING_RLSED = 0x00"
| "status_code LCBLC_OUTGOING_AWTING_ETBMNT = 0x10"
| "status_code LCBLC_OUTGOING_ETBED = 0x20"
| "status_code LCBLC_OUTGOING_AWTING_RLS = 0x30"
| "status_code LCBLC_INCOMING_RLSED = 0x01"
| "status_code LCBLC_INCOMING_AWTING_ETBMNT = 0x11"
| "status_code LCBLC_INCOMING_AWTING_CNFMTN = 0x21"
| "status_code LCBLC_INCOMING_ETBED = 0x31"

datatype directional = NO_DIRECTIONAL | UNI_DIRECTIONAL | BI_DIRECTIONAL

datatype cls_status =
  CLS_OUTGOING_IDLE | CLS_OUTGOING_AWTING_RPS | CLS_INCOMING_IDLE | CLS_INCOMING_AWTING_RPS

datatype lc_direction = LC_OUTGOING | LC_INCOMING

record lc_entry =
  FwdLcn :: u32
  RvsLcn :: u32
  Directional :: directional
  Status :: lcblc_status
  TmrSqcNumber :: s32
  ClcStatus :: cls_status
  ClcTmrSqcNumber :: s32

definition new_LCEntry :: "u32 \<Rightarrow> lc_direction \<Rightarrow> lc_entry" where
  "new_LCEntry lcn direction =
     \<lparr> FwdLcn = lcn, RvsLcn = 0, Directional = NO_DIRECTIONAL,
       Status = (if direction = LC_OUTGOING then LCBLC_OUTGOING_RLSED else LCBLC_INCOMING_RLSED),
       TmrSqcNumber = 0,
       ClcStatus = (if direction = LC_OUTGOING then CLS_INCOMING_IDLE else CLS_OUTGOING_IDLE),
       ClcTmrSqcNumber = 0 \<rparr>"

definition entry_Reset :: "lc_entry \<Rightarrow> lc_entry" where
  "entry_Reset e =
     (let incoming = (status_code (Status e) AND 0x01 \<noteq> 0)
      in e\<lparr> RvsLcn := 0,
            Status := (if incoming then LCBLC_INCOMING_RLSED else LCBLC_OUTGOING_RLSED),
            ClcStatus := (if incoming then CLS_OUTGOING_IDLE else CLS_INCOMING_IDLE),
            Directional := NO_DIRECTIONAL, TmrSqcNumber := 0, ClcTmrSqcNumber := 0 \<rparr>)"

definition StatusWrite :: "lcblc_status \<Rightarrow> lc_entry \<Rightarrow> lc_entry" where
  "StatusWrite status e =
     (let e1 = e\<lparr>Status := status\<rparr>
      in if Status e1 = LCBLC_OUTGOING_RLSED \<or> Status e1 = LCBLC_INCOMING_RLSED
         then e1\<lparr>RvsLcn := 0, Directional := NO_DIRECTIONAL, TmrSqcNumber := 0\<rparr>
         else e1)"

definition DirectionalWrite :: "directional \<Rightarrow> lc_entry \<Rightarrow> lc_entry" where
  "DirectionalWrite directional e = e\<lparr>Directional := directional\<rparr>"

definition RvsLcnWrite :: "u32 \<Rightarrow> lc_entry \<Rightarrow> lc_entry" where
  "RvsLcnWrite rvsLcn e = e\<lparr>RvsLcn := rvsLcn\<rparr>"

definition TmrSqcNumberInc :: "lc_entry \<Rightarrow> lc_entry" where
  "TmrSqcNumberInc e = e\<lparr>TmrSqcNumber := TmrSqcNumber e + 1\<rparr>"

definition ClcStatusWrite :: "cls_status \<Rightarrow> lc_entry \<Rightarrow> lc_entry" where
  "ClcStatusWrite status e = e\<lparr>ClcStatus := status\<rparr>"

definition ClcTmrSqcNumberInc :: "lc_entry \<Rightarrow> lc_entry" where
  "ClcTmrSqcNumberInc e = e\<lparr>ClcTmrSqcNumber := ClcTmrSqcNumber e + 1\<rparr>"

subsection \<open>Facts about entries\<close>

lemma status_code_low_bit:
  "status_code s AND 1 = (if s \<in> {LCBLC_INCOMING_RLSED, LCBLC_INCOMING_AWTING_ETBMNT,
                                  LCBLC_INCOMING_AWTING_CNFMTN, LCBLC_INCOMING_ETBED} then 1 else 0)"
  by (cases s) simp_all

lemma status_code_inject [simp]: "status_code s = status_code t \<longleftrightarrow> s = t"
  by (cases s; cases t) simp_all

definition is_released :: "lcblc_status \<Rightarrow> bool" where
  "is_released s \<longleftrightarrow> s = LCBLC_OUTGOING_RLSED \<or> s = LCBLC_INCOMING_RLSED"

lemma StatusWrite_fields [simp]:
  "FwdLcn (StatusWrite s e) = FwdLcn e"
  "Status (StatusWrite s e) = s"
  "ClcStatus (StatusWrite s e) = ClcStatus e"
  "ClcTmrSqcNumber (StatusWrite s e) = ClcTmrSqcNumber e"
  "RvsLcn (StatusWrite s e) = (if is_released s then 0 else RvsLcn e)"
  "Directional (StatusWrite s e) = (if is_released s then NO_DIRECTIONAL else Directional e)"
  "TmrSqcNumber (StatusWrite s e) = (if is_released s then 0 else TmrSqcNumber e)"
  by (simp_all add: StatusWrite_def is_released_def Let_def)

lemma is_released_simps [simp]:
  "is_released LCBLC_OUTGOING_RLSED" "is_released LCBLC_INCOMING_RLSED"
  "\<not> is_released LCBLC_OUTGOING_AWTING_ETBMNT" "\<not> is_released LCBLC_OUTGOING_ETBED"
  "\<not> is_released LCBLC_OUTGOING_AWTING_RLS" "\<not> is_released LCBLC_INCOMING_AWTING_ETBMNT"
  "\<not> is_released LCBLC_INCOMING_AWTING_CNFMTN" "\<not> is_released LCBLC_INCOMING_ETBED"
  by (simp_all add: is_released_def)

lemma entry_writes [simp]:
  "FwdLcn (TmrSqcNumberInc e) = FwdLcn e" "Status (TmrSqcNumberInc e) = Status e"
  "Directional (TmrSqcNumberInc e) = Directional e" "RvsLcn (TmrSqcNumberInc e) = RvsLcn e"
  "TmrSqcNumber (TmrSqcNumberInc e) = TmrSqcNumber e + 1"
  "ClcStatus (TmrSqcNumberInc e) = ClcStatus e"
  "ClcTmrSqcNumber (TmrSqcNumberInc e) = ClcTmrSqcNumber e"
  "FwdLcn (DirectionalWrite d e) = FwdLcn e" "Status (DirectionalWrite d e) = Status e"
  "Directional (DirectionalWrite d e) = d" "TmrSqcNumber (DirectionalWrite d e) = TmrSqcNumber e"
  "RvsLcn (DirectionalWrite d e) = RvsLcn e"
  "ClcStatus (DirectionalWrite d e) = ClcStatus e"
  "ClcTmrSqcNumber (DirectionalWrite d e) = ClcTmrSqcNumber e"
  "FwdLcn (RvsLcnWrite r e) = FwdLcn e" "Status (RvsLcnWrite r e) = Status e"
  "Directional (RvsLcnWrite r e) = Directional e" "RvsLcn (RvsLcnWrite r e) = r"
  "TmrSqcNumber (RvsLcnWrite r e) = TmrSqcNumber e"
  "ClcStatus (RvsLcnWrite r e) = ClcStatus e"
  "ClcTmrSqcNumber (RvsLcnWrite r e) = ClcTmrSqcNumber e"
  "FwdLcn (ClcStatusWrite c e) = FwdLcn e" "Status (ClcStatusWrite c e) = Status e"
  "Directional (ClcStatusWrite c e) = Directional e" "RvsLcn (ClcStatusWrite c e) = RvsLcn e"
  "TmrSqcNumber (ClcStatusWrite c e) = TmrSqcNumber e" "ClcStatus (ClcStatusWrite c e) = c"
  "ClcTmrSqcNumber (ClcStatusWrite c e) = ClcTmrSqcNumber e"
  "FwdLcn (ClcTmrSqcNumberInc e) = FwdLcn e" "Status (ClcTmrSqcNumberInc e) = Status e"
  "Directional (ClcTmrSqcNumberInc e) = Directional e" "RvsLcn (ClcTmrSqcNumberInc e) = RvsLcn e"
  "TmrSqcNumber (ClcTmrSqcNumberInc e) = TmrSqcNumber e"
  "ClcStatus (ClcTmrSqcNumberInc e) = ClcStatus e"
  "ClcTmrSqcNumber (ClcTmrSqcNumberInc e) = ClcTmrSqcNumber e + 1"
  by (simp_all add: TmrSqcNumberInc_def DirectionalWrite_def RvsLcnWrite_def ClcStatusWrite_def
      ClcTmrSqcNumberInc_def)

text \<open>The invariant of an entry of a list of the given direction. \<open>NO_DIRECTIONAL\<close> is the
  mark of a released entry, and only a bidirectional channel awaits a confirmation.\<close>

definition entry_ok :: "lc_direction \<Rightarrow> lc_entry \<Rightarrow> bool" where
  "entry_ok d e \<longleftrightarrow>
     (d = LC_OUTGOING \<longrightarrow>
        Status e \<in> {LCBLC_OUTGOING_RLSED, LCBLC_OUTGOING_AWTING_ETBMNT, LCBLC_OUTGOING_ETBED,
                    LCBLC_OUTGOING_AWTING_RLS}
        \<and> ClcStatus e \<in> {CLS_INCOMING_IDLE, CLS_INCOMING_AWTING_RPS}) \<and>
     (d = LC_INCOMING \<longrightarrow>
        Status e \<in> {LCBLC_INCOMING_RLSED, LCBLC_INCOMING_AWTING_ETBMNT,
                    LCBLC_INCOMING_AWTING_CNFMTN, LCBLC_INCOMING_ETBED}
        \<and> ClcStatus e \<in> {CLS_OUTGOING_IDLE, CLS_OUTGOING_AWTING_RPS}) \<and>
     (Directional e = NO_DIRECTIONAL \<longleftrightarrow> is_released (Status e)) \<and>
     (Status e = LCBLC_INCOMING_AWTING_CNFMTN \<longrightarrow> Directional e = BI_DIRECTIONAL)"

lemma new_LCEntry_ok: "entry_ok d (new_LCEntry lcn d)"
  by (cases d) (simp_all add: entry_ok_def new_LCEntry_def)

lemma entry_Reset_ok: "entry_ok d e \<Longrightarrow> entry_ok d (entry_Reset e)"
  by (cases d) (auto simp: entry_ok_def entry_Reset_def status_code_low_bit Let_def)

section \<open>Lists of entries\<close>

record lc_entry_list =
  Direction :: lc_direction
  EntryList :: "lc_entry list"

definition GetLCEntry :: "u32 \<Rightarrow> lc_entry_list \<Rightarrow> nat option" where
  "GetLCEntry lcn l = (let lcn1 = lcn AND 0xFFFF in find_index (\<lambda>e. FwdLcn e = lcn1) (EntryList l))"

definition NewLCEntry :: "u32 \<Rightarrow> lc_entry_list \<Rightarrow> nat \<times> lc_entry_list" where
  "NewLCEntry lcn l =
     (length (EntryList l), l\<lparr>EntryList := EntryList l @ [new_LCEntry lcn (Direction l)]\<rparr>)"

definition list_Reset :: "lc_entry_list \<Rightarrow> lc_entry_list" where
  "list_Reset l = l\<lparr>EntryList := map entry_Reset (EntryList l)\<rparr>"

text \<open>\<^verbatim>\<open>DeleteLCEntry(uint32)\<close>, without the mask of \<^verbatim>\<open>GetLCEntry\<close>.\<close>

definition DeleteLCEntry :: "u32 \<Rightarrow> lc_entry_list \<Rightarrow> lc_entry_list" where
  "DeleteLCEntry lcn l =
     (case find_index (\<lambda>e. FwdLcn e = lcn) (EntryList l) of
        None \<Rightarrow> l
      | Some i \<Rightarrow> l\<lparr>EntryList := take i (EntryList l) @ drop (Suc i) (EntryList l)\<rparr>)"

definition entry_at :: "nat \<Rightarrow> lc_entry_list \<Rightarrow> lc_entry" where
  "entry_at i l = EntryList l ! i"

definition write_entry :: "nat \<Rightarrow> lc_entry \<Rightarrow> lc_entry_list \<Rightarrow> lc_entry_list" where
  "write_entry i e l = l\<lparr>EntryList := (EntryList l)[i := e]\<rparr>"

definition list_ok :: "lc_entry_list \<Rightarrow> bool" where
  "list_ok l \<longleftrightarrow> (\<forall>e \<in> set (EntryList l). entry_ok (Direction l) e)"


section \<open>The directory interface\<close>

text \<open>
  What the dispatcher relies on: a directory of numbered entries in which \<open>lookup\<close> finds the
  first entry whose number is the low half of its argument, \<open>create\<close> appends an entry under
  the number it is given, and \<open>put\<close> replaces one entry.
\<close>

locale entry_directory =
  fixes lookup :: "u32 \<Rightarrow> 'l \<Rightarrow> nat option"
    and create :: "u32 \<Rightarrow> 'l \<Rightarrow> nat \<times> 'l"
    and at :: "nat \<Rightarrow> 'l \<Rightarrow> 'e"
    and put :: "nat \<Rightarrow> 'e \<Rightarrow> 'l \<Rightarrow> 'l"
    and count :: "'l \<Rightarrow> nat"
    and number :: "'e \<Rightarrow> u32"
  assumes lookup_iff: "lookup n l = Some i \<longleftrightarrow>
      i < count l \<and> number (at i l) = n AND 0xFFFF \<and> (\<forall>j < i. number (at j l) \<noteq> n AND 0xFFFF)"
    and create_fst: "fst (create n l) = count l"
    and create_count: "count (snd (create n l)) = Suc (count l)"
    and create_number: "number (at (count l) (snd (create n l))) = n"
    and create_at: "i < count l \<Longrightarrow> at i (snd (create n l)) = at i l"
    and put_count: "count (put i e l) = count l"
    and put_at: "j < count l \<Longrightarrow> at j (put i e l) = (if i = j then e else at j l)"
begin

lemma lookup_None: "lookup n l = None \<Longrightarrow> i < count l \<Longrightarrow> number (at i l) \<noteq> n AND 0xFFFF"
proof (induction i rule: less_induct)
  case (less i)
  show ?case
  proof
    assume "number (at i l) = n AND 0xFFFF"
    moreover have "\<forall>j < i. number (at j l) \<noteq> n AND 0xFFFF" using less by simp
    ultimately have "lookup n l = Some i" using less.prems(2) by (simp add: lookup_iff)
    with less.prems(1) show False by simp
  qed
qed

lemma lookup_bound: "lookup n l = Some i \<Longrightarrow> i < count l"
  by (simp add: lookup_iff)

text \<open>An update that keeps the number of the entry is invisible to every lookup.\<close>

lemma lookup_put:
  assumes "i < count l" and "number e = number (at i l)"
  shows "lookup n (put i e l) = lookup n l"
proof -
  have at: "number (at j (put i e l)) = number (at j l)" if "j < count l" for j
    using that assms(2) by (simp add: put_at)
  have "lookup n (put i e l) = Some j \<longleftrightarrow> lookup n l = Some j" for j
    using at by (auto simp: lookup_iff put_count)
  then show ?thesis by (metis option.exhaust)
qed

lemma put_frame:
  assumes "lookup n l = Some i" and "lookup m l = Some j" and "n AND 0xFFFF \<noteq> m AND 0xFFFF"
  shows "at j (put i e l) = at j l"
proof -
  have "i \<noteq> j" using assms by (auto simp: lookup_iff)
  then show ?thesis using lookup_bound [OF assms(2)] by (simp add: put_at)
qed

text \<open>Finding or creating a 16-bit number: it is found from then on, and no other number is
  affected.\<close>

lemma lookup_create:
  assumes "lookup n l = None" and "n < 0x10000"
  shows "lookup n (snd (create n l)) = Some (count l)"
proof -
  have "\<forall>j < count l. number (at j (snd (create n l))) \<noteq> n AND 0xFFFF"
    using lookup_None [OF assms(1)] by (simp add: create_at)
  then show ?thesis
    using assms(2) by (simp add: lookup_iff create_count create_number low16_id)
qed

lemma lookup_create_other:
  assumes "m AND 0xFFFF \<noteq> n"
  shows "lookup m (snd (create n l)) = lookup m l"
proof -
  have "lookup m (snd (create n l)) = Some j \<longleftrightarrow> lookup m l = Some j" for j
  proof (cases "j < count l")
    case True
    then show ?thesis
      by (auto simp: lookup_iff create_count create_at)
  next
    case False
    with assms show ?thesis
      by (auto simp: lookup_iff create_count less_Suc_eq create_number)
  qed
  then show ?thesis by (metis option.exhaust)
qed

text \<open>A wider number is stored whole but looked up by its low half: the new entry stays
  invisible, so each further request creates another one.\<close>

lemma lookup_create_wide:
  assumes "lookup n l = None" and "0x10000 \<le> n"
  shows "lookup n (snd (create n l)) = None"
proof -
  have "n AND 0xFFFF \<noteq> n" using low16_less [of n] assms(2) by auto
  from lookup_create_other [OF this] assms(1) show ?thesis by simp
qed

end

lemma find_index_iff:
  "find_index P xs = Some i \<longleftrightarrow> i < length xs \<and> P (xs ! i) \<and> (\<forall>j < i. \<not> P (xs ! j))"
proof
  assume "find_index P xs = Some i"
  then show "i < length xs \<and> P (xs ! i) \<and> (\<forall>j < i. \<not> P (xs ! j))" by (rule find_index_Some)
next
  assume i: "i < length xs \<and> P (xs ! i) \<and> (\<forall>j < i. \<not> P (xs ! j))"
  then have "find_index P xs \<noteq> None" by (auto simp: find_index_None)
  then obtain k where k: "find_index P xs = Some k" by auto
  from find_index_Some [OF k] i have "k = i" by (metis linorder_neqE_nat)
  with k show "find_index P xs = Some i" by simp
qed

interpretation lcdir: entry_directory GetLCEntry NewLCEntry entry_at write_entry
    "\<lambda>l. length (EntryList l)" FwdLcn
  by unfold_locales
     (auto simp: GetLCEntry_def NewLCEntry_def entry_at_def write_entry_def new_LCEntry_def Let_def
        find_index_iff nth_append nth_list_update)

lemma list_ok_entry: "list_ok l \<Longrightarrow> i < length (EntryList l) \<Longrightarrow> entry_ok (Direction l) (entry_at i l)"
  by (simp add: list_ok_def entry_at_def)

lemma list_ok_write:
  "list_ok l \<Longrightarrow> entry_ok (Direction l) e \<Longrightarrow> list_ok (write_entry i e l)"
  using set_update_subset_insert [of "EntryList l" i e]
  by (auto simp: list_ok_def write_entry_def)

lemma list_ok_new: "list_ok l \<Longrightarrow> list_ok (snd (NewLCEntry n l))"
  by (auto simp: list_ok_def NewLCEntry_def new_LCEntry_ok)

lemma list_ok_Reset: "list_ok l \<Longrightarrow> list_ok (list_Reset l)"
  by (auto simp: list_ok_def list_Reset_def entry_Reset_ok)

end
