(* ===== verification/LcBlcCmn.thy ===== *)
theory LcBlcCmn
  imports LcEntry TimedProcedure
begin

text \<open>
  What the unidirectional (LC) and bidirectional (BLC) channel procedures share
  (\<^verbatim>\<open>se/src/lcblccmn.cpp\<close>, class \<^verbatim>\<open>LCBLCCmn\<close>): the timer T103 of a channel, the six
  messages, and the primitives to the user. A reverse channel number of \<^verbatim>\<open>-1\<close> stands for a
  unidirectional channel and selects the LC primitive.
\<close>

section \<open>Timer T103\<close>

definition T103TimerIdGet :: "u32 \<Rightarrow> s32" where
  "T103TimerIdGet forwardLcn = push_bit 16 forwardLcn OR E_TmrId_LcBlc_T103"

definition T103TimerStart :: "u32 \<Rightarrow> u32 \<Rightarrow> s32 \<Rightarrow> effect" where
  "T103TimerStart dur forwardLcn tmrSqcNumber =
     RequestTimer (T103TimerIdGet forwardLcn) tmrSqcNumber dur None"

definition T103TimerStop :: "u32 \<Rightarrow> effect" where
  "T103TimerStop forwardLcn = CancelTimer (T103TimerIdGet forwardLcn)"

section \<open>Messages\<close>

definition MsgOpenSend :: "u16 \<Rightarrow> forward_reverse_param \<Rightarrow> effect" where
  "MsgOpenSend forwardLcn p =
     send_msg H245_MSG_REQ MSGTYP_LCBLC_OP
       (P_OpenLogicalChannel
          \<lparr> olc_forwardLogicalChannelNumber = forwardLcn,
            olc_forward = frp_forward p,
            olc_option_of_reverse = bit_field (frp_option_of_reverse p),
            olc_reverse = frp_reverse p,
            olc_option_of_separateStack = False,
            olc_separateStack = ZeroFilled,
            olc_option_of_encryptionSync = False \<rparr>)"

definition MsgOpenAckSend :: "u16 \<Rightarrow> reverse_data \<Rightarrow> effect" where
  "MsgOpenAckSend forwardLcn p =
     send_msg H245_MSG_RPS MSGTYP_LCBLC_OP_ACK
       (P_OpenLogicalChannelAck
          \<lparr> ola_forwardLogicalChannelNumber = forwardLcn,
            ola_option_of_ackReverse = bit_field (rvd_option_of_reverse p),
            ola_ackReverse = rvd_reverse p,
            ola_option_of_separateStack = False,
            ola_separateStack = ZeroFilled,
            ola_option_of_forwardMultiplexAck = bit_field (rvd_option_of_forwardMultiplexAck p),
            ola_forwardMultiplexAck = rvd_forwardMultiplexAck p,
            ola_option_of_encryptionSync = False \<rparr>)"

definition MsgOpenCfmSend :: "u16 \<Rightarrow> effect" where
  "MsgOpenCfmSend forwardLcn =
     send_msg H245_MSG_IDC MSGTYP_LCBLC_OP_CFM (P_OpenLogicalChannelConfirm forwardLcn)"

definition MsgOpenRjtSend :: "u16 \<Rightarrow> u16 \<Rightarrow> effect" where
  "MsgOpenRjtSend forwardLcn cause =
     send_msg H245_MSG_RPS MSGTYP_LCBLC_OP_RJT
       (P_OpenLogicalChannelReject
          \<lparr> olr_forwardLogicalChannelNumber = forwardLcn, olr_olcRejectCause = cause \<rparr>)"

definition MsgCloseSend :: "u16 \<Rightarrow> u16 \<Rightarrow> effect" where
  "MsgCloseSend forwardLcn source =
     send_msg H245_MSG_REQ MSGTYP_LCBLC_CL
       (P_CloseLogicalChannel
          \<lparr> cl_forwardLogicalChannelNumber = forwardLcn, cl_source = source,
            cl_option_of_reason = True, cl_reason = 0 \<rparr>)"

definition MsgCloseAckSend :: "u16 \<Rightarrow> effect" where
  "MsgCloseAckSend forwardLcn =
     send_msg H245_MSG_RPS MSGTYP_LCBLC_CL_ACK (P_CloseLogicalChannelAck forwardLcn)"

section \<open>Primitives\<close>

definition PtvEtbIdcSend :: "u32 \<Rightarrow> open_logical_channel \<Rightarrow> s32 \<Rightarrow> effect" where
  "PtvEtbIdcSend forwardLcn p reverseLcn =
     PrimitiveSend (primitive
       (if reverseLcn = -1 then E_PtvId_Lc_Etb_Idc else E_PtvId_Blc_Etb_Idc) forwardLcn reverseLcn
       (Some (P_ForwardReverseParam
          \<lparr> frp_forward = olc_forward p,
            frp_option_of_reverse = field_value (olc_option_of_reverse p),
            frp_reverse = olc_reverse p \<rparr>)))"

definition reverse_data_of :: "open_logical_channel_ack \<Rightarrow> reverse_data" where
  "reverse_data_of p =
     \<lparr> rvd_option_of_reverse = field_value (ola_option_of_ackReverse p),
       rvd_reverse = ola_ackReverse p,
       rvd_option_of_forwardMultiplexAck = field_value (ola_option_of_forwardMultiplexAck p),
       rvd_forwardMultiplexAck = ola_forwardMultiplexAck p \<rparr>"

definition PtvEtbCfmSend :: "u32 \<Rightarrow> open_logical_channel_ack \<Rightarrow> s32 \<Rightarrow> effect" where
  "PtvEtbCfmSend forwardLcn p reverseLcn =
     PrimitiveSend (primitive
       (if reverseLcn = -1 then E_PtvId_Lc_Etb_Cfm else E_PtvId_Blc_Etb_Cfm) forwardLcn reverseLcn
       (Some (P_ReverseData (reverse_data_of p))))"

definition PtvEtbCfmSend2 :: "u32 \<Rightarrow> open_logical_channel_ack \<Rightarrow> s32 \<Rightarrow> effect" where
  "PtvEtbCfmSend2 forwardLcn p reverseLcn =
     PrimitiveSend (primitive E_PtvId_Blc_Etb_Cfm2 forwardLcn reverseLcn
       (Some (P_ReverseData (reverse_data_of p))))"

definition PtvRlsIdcSend :: "u32 \<Rightarrow> u16 \<Rightarrow> u16 \<Rightarrow> direction \<Rightarrow> s32 \<Rightarrow> effect" where
  "PtvRlsIdcSend forwardLcn source cause dir reverseLcn =
     (let src = (if source = 0 then Src_USER else if reverseLcn = -1 then Src_LCSE else Src_BLCSE)
      in PrimitiveSend
           ((primitive (if reverseLcn = -1 then E_PtvId_Lc_Rls_Idc else E_PtvId_Blc_Rls_Idc)
               forwardLcn reverseLcn (Some (P_SourceCause_LcBlc src cause)))
              \<lparr>Dir := Some dir\<rparr>))"

definition PtvRlsCfmSend :: "u32 \<Rightarrow> s32 \<Rightarrow> effect" where
  "PtvRlsCfmSend forwardLcn reverseLcn =
     PrimitiveSend (primitive
       (if reverseLcn = -1 then E_PtvId_Lc_Rls_Cfm else E_PtvId_Blc_Rls_Cfm) forwardLcn reverseLcn None)"

definition PtvErrIdcSend :: "u32 \<Rightarrow> err_code \<Rightarrow> s32 \<Rightarrow> effect" where
  "PtvErrIdcSend forwardLcn errCode reverseLcn =
     PrimitiveSend (primitive
       (if reverseLcn = -1 then E_PtvId_Lc_Err_Idc else E_PtvId_Blc_Err_Idc) forwardLcn reverseLcn
       (Some (P_ErrCode errCode)))"

section \<open>Facts\<close>

lemmas lcblc_sends =
  MsgOpenSend_def MsgOpenAckSend_def MsgOpenCfmSend_def MsgOpenRjtSend_def MsgCloseSend_def
  MsgCloseAckSend_def PtvEtbIdcSend_def PtvEtbCfmSend_def PtvEtbCfmSend2_def PtvRlsIdcSend_def
  PtvRlsCfmSend_def PtvErrIdcSend_def

lemma pending_lcblc_sends [simp]:
  "pending tid ns (MsgOpenSend l p # es) = pending tid ns es"
  "pending tid ns (MsgOpenAckSend l rd # es) = pending tid ns es"
  "pending tid ns (MsgOpenCfmSend l # es) = pending tid ns es"
  "pending tid ns (MsgOpenRjtSend l c # es) = pending tid ns es"
  "pending tid ns (MsgCloseSend l src # es) = pending tid ns es"
  "pending tid ns (MsgCloseAckSend l # es) = pending tid ns es"
  "pending tid ns (PtvEtbIdcSend f olc r # es) = pending tid ns es"
  "pending tid ns (PtvEtbCfmSend f a r # es) = pending tid ns es"
  "pending tid ns (PtvEtbCfmSend2 f a r # es) = pending tid ns es"
  "pending tid ns (PtvRlsIdcSend f src c d r # es) = pending tid ns es"
  "pending tid ns (PtvRlsCfmSend f r # es) = pending tid ns es"
  "pending tid ns (PtvErrIdcSend f e r # es) = pending tid ns es"
  by (simp_all add: lcblc_sends Let_def)

lemma timer_ids_lcblc_sends [simp]:
  "timer_ids (MsgOpenSend l p # es) = timer_ids es"
  "timer_ids (MsgOpenAckSend l rd # es) = timer_ids es"
  "timer_ids (MsgOpenCfmSend l # es) = timer_ids es"
  "timer_ids (MsgOpenRjtSend l c # es) = timer_ids es"
  "timer_ids (MsgCloseSend l src # es) = timer_ids es"
  "timer_ids (MsgCloseAckSend l # es) = timer_ids es"
  "timer_ids (PtvEtbIdcSend f olc r # es) = timer_ids es"
  "timer_ids (PtvEtbCfmSend f a r # es) = timer_ids es"
  "timer_ids (PtvEtbCfmSend2 f a r # es) = timer_ids es"
  "timer_ids (PtvRlsIdcSend f src c d r # es) = timer_ids es"
  "timer_ids (PtvRlsCfmSend f r # es) = timer_ids es"
  "timer_ids (PtvErrIdcSend f e r # es) = timer_ids es"
  "timer_ids (T103TimerStart dur l' n # es) = insert (T103TimerIdGet l') (timer_ids es)"
  "timer_ids (T103TimerStop l' # es) = insert (T103TimerIdGet l') (timer_ids es)"
  by (simp_all add: lcblc_sends T103TimerStart_def T103TimerStop_def Let_def)

text \<open>No channel number gives the timer id of MSD or CE: the low half is 2.\<close>

lemma T103_low: "T103TimerIdGet l AND 0xFFFF = E_TmrId_LcBlc_T103"
  unfolding T103TimerIdGet_def mask16_u32
  by (rule bit_word_eqI) (auto simp: bit_simps)

lemma home_T103 [simp]: "home (T103TimerIdGet l) = None"
  using T103_low [of l] by (auto simp: home_def)

lemma addressed_lcblc_sends [simp]:
  "addressed (MsgOpenSend l p # es) = addressed es"
  "addressed (MsgOpenAckSend l rd # es) = addressed es"
  "addressed (MsgOpenCfmSend l # es) = addressed es"
  "addressed (MsgOpenRjtSend l c # es) = addressed es"
  "addressed (MsgCloseSend l src # es) = addressed es"
  "addressed (MsgCloseAckSend l # es) = addressed es"
  "addressed (PtvEtbIdcSend f olc r # es) = addressed es"
  "addressed (PtvEtbCfmSend f a r # es) = addressed es"
  "addressed (PtvEtbCfmSend2 f a r # es) = addressed es"
  "addressed (PtvRlsIdcSend f src c d r # es) = addressed es"
  "addressed (PtvRlsCfmSend f r # es) = addressed es"
  "addressed (PtvErrIdcSend f e r # es) = addressed es"
  "addressed (T103TimerStart dur l' n # es) = addressed es"
  "addressed (T103TimerStop l' # es) = addressed es"
  by (simp_all add: lcblc_sends T103TimerStart_def T103TimerStop_def Let_def)

lemma pending_T103 [simp]:
  "pending (T103TimerIdGet l) ns (T103TimerStart dur l n # es) = pending (T103TimerIdGet l) (ns @ [n]) es"
  "pending (T103TimerIdGet l) ns (T103TimerStop l # es) = pending (T103TimerIdGet l) (tl ns) es"
  by (simp_all add: T103TimerStart_def T103TimerStop_def)

text \<open>The parts of a timer id, as \<^verbatim>\<open>SE::TimeoutOccurred\<close> takes them apart: the low half names
  the kind of timer, the high half is the low half of the channel number.\<close>

lemma T103_high: "signed_drop_bit 16 (T103TimerIdGet l) AND 0xFFFF = l AND 0xFFFF"
  unfolding T103TimerIdGet_def mask16_u32
  by (rule bit_word_eqI) (auto simp: bit_simps dest: bit_imp_le_length)

end
