(* ===== verification/Lc.thy ===== *)
theory Lc
  imports LcBlcCmn
begin

text \<open>
  The unidirectional logical channel procedure (\<^verbatim>\<open>se/src/lc.cpp\<close>, class \<^verbatim>\<open>LC\<close>): one
  definition per handler, named after it. A handler works on one entry and makes calls; the
  number in its name is the event and the state in which the dispatcher selects it. The
  parameter \<open>dur\<close> is \<^verbatim>\<open>TimerDuration\<close>. The default reverse channel number of the primitives
  is \<^verbatim>\<open>-1\<close>.
\<close>

section \<open>Outgoing channel\<close>

definition lc_0200_0000 :: "u32 \<Rightarrow> forward_reverse_param \<Rightarrow> lc_entry \<Rightarrow> lc_entry \<times> effect list" where
  "lc_0200_0000 dur p e =
     (let forwardLcn = FwdLcn e;
          e1 = StatusWrite LCBLC_OUTGOING_AWTING_ETBMNT e;
          e2 = TmrSqcNumberInc e1
      in (e2, [MsgOpenSend (ucast forwardLcn) p, T103TimerStart dur forwardLcn (TmrSqcNumber e2)]))"

definition lc_0200_0030 :: "u32 \<Rightarrow> forward_reverse_param \<Rightarrow> lc_entry \<Rightarrow> lc_entry \<times> effect list" where
  "lc_0200_0030 dur p e =
     (let forwardLcn = FwdLcn e;
          e1 = StatusWrite LCBLC_OUTGOING_AWTING_ETBMNT e;
          e2 = TmrSqcNumberInc e1
      in (e2, [T103TimerStop forwardLcn, MsgOpenSend (ucast forwardLcn) p,
               T103TimerStart dur forwardLcn (TmrSqcNumber e2)]))"

text \<open>The conflict case: an OpenLogicalChannel of the peer meets a channel that this side is
  opening. The side that is not master gives way.\<close>

definition lc_0201_0010 ::
  "msd_status \<Rightarrow> open_logical_channel \<Rightarrow> lc_entry \<Rightarrow> lc_entry \<times> effect list" where
  "lc_0201_0010 msdStatus p e =
     (if msdStatus \<noteq> MSD_MASTER then
        let forwardLcn = FwdLcn e
        in (StatusWrite LCBLC_INCOMING_AWTING_ETBMNT e,
            [T103TimerStop forwardLcn, PtvEtbIdcSend forwardLcn p (-1)])
      else (e, []))"

definition lc_0203_0010 :: "u32 \<Rightarrow> lc_entry \<Rightarrow> lc_entry \<times> effect list" where
  "lc_0203_0010 dur e =
     (let forwardLcn = FwdLcn e;
          source = 0;
          e1 = StatusWrite LCBLC_OUTGOING_AWTING_RLS e;
          e2 = TmrSqcNumberInc e1
      in (e2, [T103TimerStop forwardLcn, MsgCloseSend (ucast forwardLcn) source,
               T103TimerStart dur forwardLcn (TmrSqcNumber e2)]))"

definition lc_0203_0020 :: "u32 \<Rightarrow> lc_entry \<Rightarrow> lc_entry \<times> effect list" where
  "lc_0203_0020 dur e =
     (let source = 0;
          forwardLcn = FwdLcn e;
          e1 = StatusWrite LCBLC_OUTGOING_AWTING_RLS e;
          e2 = TmrSqcNumberInc e1
      in (e2, [MsgCloseSend (ucast forwardLcn) source,
               T103TimerStart dur forwardLcn (TmrSqcNumber e2)]))"

definition lc_0204_0000 :: "lc_entry \<Rightarrow> lc_entry \<times> effect list" where
  "lc_0204_0000 e = (e, [PtvErrIdcSend (FwdLcn e) ErrCode_Lc_A (-1)])"

definition lc_0204_0010 :: "open_logical_channel_ack \<Rightarrow> lc_entry \<Rightarrow> lc_entry \<times> effect list" where
  "lc_0204_0010 p e =
     (let forwardLcn = FwdLcn e
      in (StatusWrite LCBLC_OUTGOING_ETBED e,
          [T103TimerStop forwardLcn, PtvEtbCfmSend forwardLcn p (-1)]))"

definition lc_0206_0000 :: "lc_entry \<Rightarrow> lc_entry \<times> effect list" where
  "lc_0206_0000 e = (e, [PtvErrIdcSend (FwdLcn e) ErrCode_Lc_B (-1)])"

definition lc_0206_0010 :: "open_logical_channel_reject \<Rightarrow> lc_entry \<Rightarrow> lc_entry \<times> effect list" where
  "lc_0206_0010 p e =
     (let forwardLcn = FwdLcn e;
          source = 0
      in (StatusWrite LCBLC_OUTGOING_RLSED e,
          [T103TimerStop forwardLcn,
           PtvRlsIdcSend forwardLcn source (olr_olcRejectCause p) OUTGOING (-1)]))"

definition lc_0206_0020 :: "open_logical_channel_reject \<Rightarrow> lc_entry \<Rightarrow> lc_entry \<times> effect list" where
  "lc_0206_0020 p e =
     (let forwardLcn = FwdLcn e;
          source = 1
      in (StatusWrite LCBLC_OUTGOING_RLSED e,
          [PtvErrIdcSend forwardLcn ErrCode_Lc_B (-1),
           PtvRlsIdcSend forwardLcn source (olr_olcRejectCause p) OUTGOING (-1)]))"

definition lc_0206_0030 :: "lc_entry \<Rightarrow> lc_entry \<times> effect list" where
  "lc_0206_0030 e =
     (let forwardLcn = FwdLcn e
      in (StatusWrite LCBLC_OUTGOING_RLSED e,
          [T103TimerStop forwardLcn, PtvRlsCfmSend forwardLcn (-1)]))"

definition lc_0207_0010 :: "s32 \<Rightarrow> lc_entry \<Rightarrow> lc_entry \<times> effect list" where
  "lc_0207_0010 tmrSqcNumber e =
     (if tmrSqcNumber = TmrSqcNumber e then
        let forwardLcn = FwdLcn e;
            source = 1;
            cause = 0
        in (StatusWrite LCBLC_OUTGOING_RLSED e,
            [PtvErrIdcSend forwardLcn ErrCode_Lc_D (-1),
             MsgCloseSend (ucast forwardLcn) source,
             PtvRlsIdcSend forwardLcn source cause OUTGOING (-1)])
      else (e, []))"

definition lc_0207_0030 :: "s32 \<Rightarrow> lc_entry \<Rightarrow> lc_entry \<times> effect list" where
  "lc_0207_0030 tmrSqcNumber e =
     (if tmrSqcNumber = TmrSqcNumber e then
        let forwardLcn = FwdLcn e
        in (StatusWrite LCBLC_OUTGOING_RLSED e,
            [PtvErrIdcSend forwardLcn ErrCode_Lc_D (-1), PtvRlsCfmSend forwardLcn (-1)])
      else (e, []))"

definition lc_0209_0020 :: "lc_entry \<Rightarrow> lc_entry \<times> effect list" where
  "lc_0209_0020 e =
     (let forwardLcn = FwdLcn e;
          source = 1;
          cause = 0
      in (StatusWrite LCBLC_OUTGOING_RLSED e,
          [PtvErrIdcSend forwardLcn ErrCode_Lc_C (-1),
           PtvRlsIdcSend forwardLcn source cause OUTGOING (-1)]))"

definition lc_0209_0030 :: "lc_entry \<Rightarrow> lc_entry \<times> effect list" where
  "lc_0209_0030 e =
     (let forwardLcn = FwdLcn e
      in (StatusWrite LCBLC_OUTGOING_RLSED e,
          [T103TimerStop forwardLcn, PtvRlsCfmSend forwardLcn (-1)]))"

section \<open>Incoming channel\<close>

definition lc_0201_0001 :: "open_logical_channel \<Rightarrow> lc_entry \<Rightarrow> lc_entry \<times> effect list" where
  "lc_0201_0001 p e =
     (let forwardLcn = FwdLcn e
      in (StatusWrite LCBLC_INCOMING_AWTING_ETBMNT e, [PtvEtbIdcSend forwardLcn p (-1)]))"

definition lc_0201_0011 :: "open_logical_channel \<Rightarrow> lc_entry \<Rightarrow> lc_entry \<times> effect list" where
  "lc_0201_0011 p e =
     (let source = 0;
          cause = 999;
          forwardLcn = FwdLcn e
      in (StatusWrite LCBLC_INCOMING_AWTING_ETBMNT e,
          [PtvRlsIdcSend forwardLcn source cause INCOMING (-1), PtvEtbIdcSend forwardLcn p (-1)]))"

definition lc_0202_0011 :: "reverse_data \<Rightarrow> lc_entry \<Rightarrow> lc_entry \<times> effect list" where
  "lc_0202_0011 p e =
     (let forwardLcn = FwdLcn e
      in (StatusWrite LCBLC_INCOMING_ETBED e, [MsgOpenAckSend (ucast forwardLcn) p]))"

definition lc_0203_0011 :: "u16 \<Rightarrow> lc_entry \<Rightarrow> lc_entry \<times> effect list" where
  "lc_0203_0011 cause e =
     (let forwardLcn = FwdLcn e
      in (StatusWrite LCBLC_INCOMING_RLSED e, [MsgOpenRjtSend (ucast forwardLcn) cause]))"

definition lc_0208_0001 :: "lc_entry \<Rightarrow> lc_entry \<times> effect list" where
  "lc_0208_0001 e = (e, [MsgCloseAckSend (ucast (FwdLcn e))])"

definition lc_0208_0011 :: "close_logical_channel \<Rightarrow> lc_entry \<Rightarrow> lc_entry \<times> effect list" where
  "lc_0208_0011 p e =
     (let forwardLcn = FwdLcn e;
          cause = 999
      in (StatusWrite LCBLC_INCOMING_RLSED e,
          [MsgCloseAckSend (ucast forwardLcn),
           PtvRlsIdcSend forwardLcn (cl_source p) cause INCOMING (-1)]))"

lemmas lc_handlers =
  lc_0200_0000_def lc_0200_0030_def lc_0201_0010_def lc_0203_0010_def lc_0203_0020_def
  lc_0204_0000_def lc_0204_0010_def lc_0206_0000_def lc_0206_0010_def lc_0206_0020_def
  lc_0206_0030_def lc_0207_0010_def lc_0207_0030_def lc_0209_0020_def lc_0209_0030_def
  lc_0201_0001_def lc_0201_0011_def lc_0202_0011_def lc_0203_0011_def lc_0208_0001_def
  lc_0208_0011_def

end
