(* ===== verification/Blc.thy ===== *)
theory Blc
  imports LcBlcCmn
begin

text \<open>
  The bidirectional logical channel procedure (\<^verbatim>\<open>se/src/blc.cpp\<close>, class \<^verbatim>\<open>BLC\<close>), in the
  same form as the unidirectional one. Here the acceptance of a channel is confirmed by its
  initiator, so the incoming side has a third waiting state with a timer of its own.
\<close>

section \<open>Outgoing channel\<close>

definition blc_0300_0000 :: "u32 \<Rightarrow> forward_reverse_param \<Rightarrow> lc_entry \<Rightarrow> lc_entry \<times> effect list" where
  "blc_0300_0000 dur p e =
     (let forwardLcn = FwdLcn e;
          e1 = StatusWrite LCBLC_OUTGOING_AWTING_ETBMNT e;
          e2 = TmrSqcNumberInc e1
      in (e2, [MsgOpenSend (ucast forwardLcn) p, T103TimerStart dur forwardLcn (TmrSqcNumber e2)]))"

definition blc_0300_0030 :: "u32 \<Rightarrow> forward_reverse_param \<Rightarrow> lc_entry \<Rightarrow> lc_entry \<times> effect list" where
  "blc_0300_0030 dur p e =
     (let forwardLcn = FwdLcn e;
          e1 = StatusWrite LCBLC_OUTGOING_AWTING_ETBMNT e;
          e2 = TmrSqcNumberInc e1
      in (e2, [T103TimerStop forwardLcn, MsgOpenSend (ucast forwardLcn) p,
               T103TimerStart dur forwardLcn (TmrSqcNumber e2)]))"

definition blc_0301_0010 ::
  "msd_status \<Rightarrow> open_logical_channel \<Rightarrow> lc_entry \<Rightarrow> lc_entry \<times> effect list" where
  "blc_0301_0010 msdStatus p e =
     (if msdStatus \<noteq> MSD_MASTER then
        let forwardLcn = FwdLcn e;
            reverseLcn = RvsLcn e
        in (StatusWrite LCBLC_INCOMING_AWTING_ETBMNT e,
            [T103TimerStop forwardLcn, PtvEtbIdcSend forwardLcn p reverseLcn])
      else (e, []))"

definition blc_0303_0010 :: "u32 \<Rightarrow> lc_entry \<Rightarrow> lc_entry \<times> effect list" where
  "blc_0303_0010 dur e =
     (let forwardLcn = FwdLcn e;
          source = 0;
          e1 = StatusWrite LCBLC_OUTGOING_AWTING_RLS e;
          e2 = TmrSqcNumberInc e1
      in (e2, [T103TimerStop forwardLcn, MsgCloseSend (ucast forwardLcn) source,
               T103TimerStart dur forwardLcn (TmrSqcNumber e2)]))"

definition blc_0303_0020 :: "u32 \<Rightarrow> lc_entry \<Rightarrow> lc_entry \<times> effect list" where
  "blc_0303_0020 dur e =
     (let source = 0;
          forwardLcn = FwdLcn e;
          e1 = StatusWrite LCBLC_OUTGOING_AWTING_RLS e;
          e2 = TmrSqcNumberInc e1
      in (e2, [MsgCloseSend (ucast forwardLcn) source,
               T103TimerStart dur forwardLcn (TmrSqcNumber e2)]))"

definition blc_0304_0000 :: "lc_entry \<Rightarrow> lc_entry \<times> effect list" where
  "blc_0304_0000 e = (e, [PtvErrIdcSend (FwdLcn e) ErrCode_Blc_A (RvsLcn e)])"

definition blc_0304_0010 :: "open_logical_channel_ack \<Rightarrow> lc_entry \<Rightarrow> lc_entry \<times> effect list" where
  "blc_0304_0010 p e =
     (let forwardLcn = FwdLcn e;
          e1 = StatusWrite LCBLC_OUTGOING_ETBED e;
          e2 = RvsLcnWrite (ucast (arp_reverseLogicalChannelNumber (ola_ackReverse p))) e1;
          reverseLcn = RvsLcn e2
      in (e2, [T103TimerStop forwardLcn, PtvEtbCfmSend forwardLcn p reverseLcn,
               MsgOpenCfmSend (ucast forwardLcn)]))"

definition blc_0306_0000 :: "lc_entry \<Rightarrow> lc_entry \<times> effect list" where
  "blc_0306_0000 e = (e, [PtvErrIdcSend (FwdLcn e) ErrCode_Blc_B (RvsLcn e)])"

definition blc_0306_0010 :: "open_logical_channel_reject \<Rightarrow> lc_entry \<Rightarrow> lc_entry \<times> effect list" where
  "blc_0306_0010 p e =
     (let forwardLcn = FwdLcn e;
          reverseLcn = RvsLcn e;
          source = 0
      in (StatusWrite LCBLC_OUTGOING_RLSED e,
          [T103TimerStop forwardLcn,
           PtvRlsIdcSend forwardLcn source (olr_olcRejectCause p) OUTGOING reverseLcn]))"

definition blc_0306_0020 :: "open_logical_channel_reject \<Rightarrow> lc_entry \<Rightarrow> lc_entry \<times> effect list" where
  "blc_0306_0020 p e =
     (let forwardLcn = FwdLcn e;
          reverseLcn = RvsLcn e;
          source = 1
      in (StatusWrite LCBLC_OUTGOING_RLSED e,
          [PtvErrIdcSend forwardLcn ErrCode_Blc_B reverseLcn,
           PtvRlsIdcSend forwardLcn source (olr_olcRejectCause p) OUTGOING reverseLcn]))"

definition blc_0306_0030 :: "lc_entry \<Rightarrow> lc_entry \<times> effect list" where
  "blc_0306_0030 e =
     (let forwardLcn = FwdLcn e;
          reverseLcn = RvsLcn e
      in (StatusWrite LCBLC_OUTGOING_RLSED e,
          [T103TimerStop forwardLcn, PtvRlsCfmSend forwardLcn reverseLcn]))"

definition blc_0307_0010 :: "s32 \<Rightarrow> lc_entry \<Rightarrow> lc_entry \<times> effect list" where
  "blc_0307_0010 tmrSqcNumber e =
     (if tmrSqcNumber = TmrSqcNumber e then
        let forwardLcn = FwdLcn e;
            reverseLcn = RvsLcn e;
            source = 1;
            cause = 0
        in (StatusWrite LCBLC_OUTGOING_RLSED e,
            [PtvErrIdcSend forwardLcn ErrCode_Blc_D reverseLcn,
             MsgCloseSend (ucast forwardLcn) source,
             PtvRlsIdcSend forwardLcn source cause OUTGOING reverseLcn])
      else (e, []))"

definition blc_0307_0030 :: "s32 \<Rightarrow> lc_entry \<Rightarrow> lc_entry \<times> effect list" where
  "blc_0307_0030 tmrSqcNumber e =
     (if tmrSqcNumber = TmrSqcNumber e then
        let forwardLcn = FwdLcn e;
            reverseLcn = RvsLcn e
        in (StatusWrite LCBLC_OUTGOING_RLSED e,
            [PtvErrIdcSend forwardLcn ErrCode_Blc_D reverseLcn, PtvRlsCfmSend forwardLcn reverseLcn])
      else (e, []))"

definition blc_0309_0020 :: "lc_entry \<Rightarrow> lc_entry \<times> effect list" where
  "blc_0309_0020 e =
     (let forwardLcn = FwdLcn e;
          reverseLcn = RvsLcn e;
          source = 1;
          cause = 0
      in (StatusWrite LCBLC_OUTGOING_RLSED e,
          [PtvErrIdcSend forwardLcn ErrCode_Blc_C reverseLcn,
           PtvRlsIdcSend forwardLcn source cause OUTGOING reverseLcn]))"

definition blc_0309_0030 :: "lc_entry \<Rightarrow> lc_entry \<times> effect list" where
  "blc_0309_0030 e =
     (let forwardLcn = FwdLcn e;
          reverseLcn = RvsLcn e
      in (StatusWrite LCBLC_OUTGOING_RLSED e,
          [T103TimerStop forwardLcn, PtvRlsCfmSend forwardLcn reverseLcn]))"

section \<open>Incoming channel\<close>

definition blc_0301_0001 :: "open_logical_channel \<Rightarrow> lc_entry \<Rightarrow> lc_entry \<times> effect list" where
  "blc_0301_0001 p e =
     (let forwardLcn = FwdLcn e;
          reverseLcn = RvsLcn e
      in (StatusWrite LCBLC_INCOMING_AWTING_ETBMNT e, [PtvEtbIdcSend forwardLcn p reverseLcn]))"

definition blc_0301_0011 :: "open_logical_channel \<Rightarrow> lc_entry \<Rightarrow> lc_entry \<times> effect list" where
  "blc_0301_0011 p e =
     (let source = 0;
          cause = 0;
          forwardLcn = FwdLcn e;
          reverseLcn = RvsLcn e
      in (StatusWrite LCBLC_INCOMING_AWTING_ETBMNT e,
          [PtvRlsIdcSend forwardLcn source cause INCOMING reverseLcn,
           PtvEtbIdcSend forwardLcn p reverseLcn]))"

definition blc_0301_0021 :: "open_logical_channel \<Rightarrow> lc_entry \<Rightarrow> lc_entry \<times> effect list" where
  "blc_0301_0021 p e =
     (let forwardLcn = FwdLcn e;
          reverseLcn = RvsLcn e;
          source = 0;
          cause = 0
      in (StatusWrite LCBLC_INCOMING_AWTING_ETBMNT e,
          [T103TimerStop forwardLcn,
           PtvRlsIdcSend forwardLcn source cause INCOMING reverseLcn,
           PtvEtbIdcSend forwardLcn p reverseLcn]))"

text \<open>The reverse number is also written into the caller's parameter block before it is copied
  into the message.\<close>

definition blc_0302_0011 :: "u32 \<Rightarrow> reverse_data \<Rightarrow> u16 \<Rightarrow> lc_entry \<Rightarrow> lc_entry \<times> effect list" where
  "blc_0302_0011 dur p reverseLogicalChannelNumber e =
     (let forwardLcn = FwdLcn e;
          e1 = RvsLcnWrite (ucast reverseLogicalChannelNumber) e;
          p1 = p\<lparr>rvd_reverse := (rvd_reverse p)
                   \<lparr>arp_reverseLogicalChannelNumber := reverseLogicalChannelNumber\<rparr>\<rparr>;
          e2 = StatusWrite LCBLC_INCOMING_AWTING_CNFMTN e1;
          e3 = TmrSqcNumberInc e2
      in (e3, [MsgOpenAckSend (ucast forwardLcn) p1, T103TimerStart dur forwardLcn (TmrSqcNumber e3)]))"

definition blc_0303_0011 :: "u16 \<Rightarrow> lc_entry \<Rightarrow> lc_entry \<times> effect list" where
  "blc_0303_0011 cause e =
     (let forwardLcn = FwdLcn e
      in (StatusWrite LCBLC_INCOMING_RLSED e, [MsgOpenRjtSend (ucast forwardLcn) cause]))"

definition blc_0305_0011 :: "lc_entry \<Rightarrow> lc_entry \<times> effect list" where
  "blc_0305_0011 e =
     (let forwardLcn = FwdLcn e;
          reverseLcn = RvsLcn e;
          source = 1;
          cause = 0
      in (StatusWrite LCBLC_INCOMING_RLSED e,
          [PtvErrIdcSend forwardLcn ErrCode_Blc_E reverseLcn,
           PtvRlsIdcSend forwardLcn source cause INCOMING reverseLcn]))"

text \<open>The flag \<^verbatim>\<open>option_of_encryptionSync\<close> of the local block is neither written by the source
  nor read by \<open>PtvEtbCfmSend2\<close>.\<close>

definition blc_0305_0021 :: "lc_entry \<Rightarrow> lc_entry \<times> effect list" where
  "blc_0305_0021 e =
     (let forwardLcn = FwdLcn e;
          reverseLcn = RvsLcn e;
          ack = \<lparr> ola_forwardLogicalChannelNumber = ucast forwardLcn,
                  ola_option_of_ackReverse = False,
                  ola_ackReverse = zero_ack_reverse_params,
                  ola_option_of_separateStack = False,
                  ola_separateStack = ZeroFilled,
                  ola_option_of_forwardMultiplexAck = False,
                  ola_forwardMultiplexAck = ZeroFilled,
                  ola_option_of_encryptionSync = False \<rparr>
      in (StatusWrite LCBLC_INCOMING_ETBED e,
          [T103TimerStop forwardLcn, PtvEtbCfmSend2 forwardLcn ack reverseLcn]))"

definition blc_0307_0021 :: "s32 \<Rightarrow> lc_entry \<Rightarrow> lc_entry \<times> effect list" where
  "blc_0307_0021 tmrSqcNumber e =
     (if tmrSqcNumber = TmrSqcNumber e then
        let forwardLcn = FwdLcn e;
            reverseLcn = RvsLcn e;
            source = 1;
            cause = 0
        in (StatusWrite LCBLC_INCOMING_RLSED e,
            [PtvErrIdcSend forwardLcn ErrCode_Blc_F reverseLcn,
             PtvRlsIdcSend forwardLcn source cause INCOMING reverseLcn])
      else (e, []))"

definition blc_0308_0001 :: "lc_entry \<Rightarrow> lc_entry \<times> effect list" where
  "blc_0308_0001 e = (e, [MsgCloseAckSend (ucast (FwdLcn e))])"

definition blc_0308_0011 :: "close_logical_channel \<Rightarrow> lc_entry \<Rightarrow> lc_entry \<times> effect list" where
  "blc_0308_0011 p e =
     (let forwardLcn = FwdLcn e;
          reverseLcn = RvsLcn e;
          cause = 0
      in (StatusWrite LCBLC_INCOMING_RLSED e,
          [MsgCloseAckSend (ucast forwardLcn),
           PtvRlsIdcSend forwardLcn (cl_source p) cause INCOMING reverseLcn]))"

definition blc_0308_0021 :: "close_logical_channel \<Rightarrow> lc_entry \<Rightarrow> lc_entry \<times> effect list" where
  "blc_0308_0021 p e =
     (let forwardLcn = FwdLcn e;
          reverseLcn = RvsLcn e;
          cause = 0
      in (StatusWrite LCBLC_INCOMING_RLSED e,
          [T103TimerStop forwardLcn, MsgCloseAckSend (ucast forwardLcn),
           PtvRlsIdcSend forwardLcn (cl_source p) cause INCOMING reverseLcn]))"

lemmas blc_handlers =
  blc_0300_0000_def blc_0300_0030_def blc_0301_0010_def blc_0303_0010_def blc_0303_0020_def
  blc_0304_0000_def blc_0304_0010_def blc_0306_0000_def blc_0306_0010_def blc_0306_0020_def
  blc_0306_0030_def blc_0307_0010_def blc_0307_0030_def blc_0309_0020_def blc_0309_0030_def
  blc_0301_0001_def blc_0301_0011_def blc_0301_0021_def blc_0302_0011_def blc_0303_0011_def
  blc_0305_0011_def blc_0305_0021_def blc_0307_0021_def blc_0308_0001_def blc_0308_0011_def
  blc_0308_0021_def

end
