(* ===== verification/Clc.thy ===== *)
theory Clc
  imports LcEntry TimedProcedure
begin

text \<open>
  The close logical channel procedure (\<^verbatim>\<open>se/src/clc.cpp\<close>, class \<^verbatim>\<open>CLC\<close>): the receiver of
  a channel asks its sender to close it. The state lives in the channel entry: the requester's
  half (\<^verbatim>\<open>CLS_OUTGOING\<close>) in the list of incoming channels, the answering half in the list of
  outgoing ones.
\<close>

section \<open>Timer, messages and primitives\<close>

definition T108TimerIdGet :: "lc_entry \<Rightarrow> s32" where
  "T108TimerIdGet e = push_bit 16 (FwdLcn e) OR E_TmrId_Clc_T108"

definition T108TimerStart :: "u32 \<Rightarrow> lc_entry \<Rightarrow> lc_entry \<times> effect list" where
  "T108TimerStart dur e =
     (let e1 = ClcTmrSqcNumberInc e
      in (e1, [RequestTimer (T108TimerIdGet e1) (ClcTmrSqcNumber e1) dur None]))"

definition T108TimerStop :: "lc_entry \<Rightarrow> effect" where
  "T108TimerStop e = CancelTimer (T108TimerIdGet e)"

definition clc_MsgCloseSend :: "lc_entry \<Rightarrow> effect" where
  "clc_MsgCloseSend e =
     send_msg H245_MSG_REQ MSGTYP_CLC
       (P_RequestChannelClose
          \<lparr> rcc_forwardLogicalChannelNumber = ucast (FwdLcn e),
            rcc_option_of_qosCapability = False, rcc_option_of_rccReason = False \<rparr>)"

definition clc_MsgCloseAckSend :: "lc_entry \<Rightarrow> effect" where
  "clc_MsgCloseAckSend e =
     send_msg H245_MSG_RPS MSGTYP_CLC_ACK (P_RequestChannelCloseAck (ucast (FwdLcn e)))"

definition clc_MsgCloseRjtSend :: "lc_entry \<Rightarrow> u16 \<Rightarrow> effect" where
  "clc_MsgCloseRjtSend e cause =
     send_msg H245_MSG_RPS MSGTYP_CLC_RJT
       (P_RequestChannelCloseReject
          \<lparr> rcr_forwardLogicalChannelNumber = ucast (FwdLcn e), rcr_rccRejectCause = cause \<rparr>)"

definition clc_MsgCloseRlsSend :: "lc_entry \<Rightarrow> effect" where
  "clc_MsgCloseRlsSend e =
     send_msg H245_MSG_IDC MSGTYP_CLC_RLS (P_RequestChannelCloseRelease (ucast (FwdLcn e)))"

fun directional_code :: "directional \<Rightarrow> u32" where
  "directional_code NO_DIRECTIONAL = 0"
| "directional_code UNI_DIRECTIONAL = 1"
| "directional_code BI_DIRECTIONAL = 2"

definition clc_PtvCloseIdcSend :: "lc_entry \<Rightarrow> effect" where
  "clc_PtvCloseIdcSend e =
     PrimitiveSend (primitive E_PtvId_Clc_Cls_Idc (FwdLcn e) (directional_code (Directional e)) None)"

definition clc_PtvRjtIdcSend :: "lc_entry \<Rightarrow> h245_source \<Rightarrow> u16 \<Rightarrow> effect" where
  "clc_PtvRjtIdcSend e source cause =
     PrimitiveSend (primitive E_PtvId_Clc_Rjt_Idc (FwdLcn e) 0 (Some (P_SourceCause_Clc source cause)))"

definition clc_PtvCloseCfmSend :: "lc_entry \<Rightarrow> effect" where
  "clc_PtvCloseCfmSend e = PrimitiveSend (primitive E_PtvId_Clc_Cls_Cfm (FwdLcn e) 0 None)"

section \<open>Handlers\<close>

definition clc_0400_0000 :: "u32 \<Rightarrow> lc_entry \<Rightarrow> lc_entry \<times> effect list" where
  "clc_0400_0000 dur e =
     (let e1 = ClcStatusWrite CLS_OUTGOING_AWTING_RPS e;
          (e2, timer) = T108TimerStart dur e1
      in (e2, clc_MsgCloseSend e1 # timer))"

definition clc_0401_0001 :: "lc_entry \<Rightarrow> lc_entry \<times> effect list" where
  "clc_0401_0001 e =
     (let e1 = ClcStatusWrite CLS_INCOMING_AWTING_RPS e in (e1, [clc_PtvCloseIdcSend e1]))"

definition clc_0401_0011 :: "lc_entry \<Rightarrow> lc_entry \<times> effect list" where
  "clc_0401_0011 e = (e, [clc_PtvRjtIdcSend e Src_USER 0, clc_PtvCloseIdcSend e])"

definition clc_0402_0011 :: "lc_entry \<Rightarrow> lc_entry \<times> effect list" where
  "clc_0402_0011 e =
     (let e1 = ClcStatusWrite CLS_INCOMING_IDLE e in (e1, [clc_MsgCloseAckSend e1]))"

definition clc_0403_0011 :: "u16 \<Rightarrow> lc_entry \<Rightarrow> lc_entry \<times> effect list" where
  "clc_0403_0011 cause e =
     (let e1 = ClcStatusWrite CLS_INCOMING_IDLE e in (e1, [clc_MsgCloseRjtSend e1 cause]))"

definition clc_0404_0010 :: "lc_entry \<Rightarrow> lc_entry \<times> effect list" where
  "clc_0404_0010 e =
     (let e1 = ClcStatusWrite CLS_OUTGOING_IDLE e in (e1, [T108TimerStop e, clc_PtvCloseCfmSend e1]))"

definition clc_0405_0010 :: "request_channel_close_reject \<Rightarrow> lc_entry \<Rightarrow> lc_entry \<times> effect list" where
  "clc_0405_0010 p e =
     (let e1 = ClcStatusWrite CLS_OUTGOING_IDLE e
      in (e1, [T108TimerStop e, clc_PtvRjtIdcSend e1 Src_USER (rcr_rccRejectCause p)]))"

definition clc_0406_0010 :: "s32 \<Rightarrow> lc_entry \<Rightarrow> lc_entry \<times> effect list" where
  "clc_0406_0010 timer_Sequence_Number e =
     (if timer_Sequence_Number = ClcTmrSqcNumber e then
        let e1 = ClcStatusWrite CLS_OUTGOING_IDLE e
        in (e1, [clc_MsgCloseRlsSend e1, clc_PtvRjtIdcSend e1 Src_PROTOCOL 0])
      else (e, []))"

definition clc_0407_0011 :: "lc_entry \<Rightarrow> lc_entry \<times> effect list" where
  "clc_0407_0011 e =
     (let e1 = ClcStatusWrite CLS_INCOMING_IDLE e in (e1, [clc_PtvRjtIdcSend e1 Src_PROTOCOL 0]))"

lemmas clc_handlers =
  clc_0400_0000_def clc_0401_0001_def clc_0401_0011_def clc_0402_0011_def clc_0403_0011_def
  clc_0404_0010_def clc_0405_0010_def clc_0406_0010_def clc_0407_0011_def T108TimerStart_def

lemmas clc_sends =
  clc_MsgCloseSend_def clc_MsgCloseAckSend_def clc_MsgCloseRjtSend_def clc_MsgCloseRlsSend_def
  clc_PtvCloseIdcSend_def clc_PtvRjtIdcSend_def clc_PtvCloseCfmSend_def T108TimerStop_def

lemma three_mask: "(3 :: u32) = mask 2"
  by (simp add: mask_eq_exp_minus_1)

lemma T108_low: "T108TimerIdGet e AND 0xFFFF = E_TmrId_Clc_T108"
  unfolding T108TimerIdGet_def mask16_u32 three_mask
  by (rule bit_word_eqI) (auto simp: bit_simps)

lemma T108_high: "signed_drop_bit 16 (T108TimerIdGet e) AND 0xFFFF = FwdLcn e AND 0xFFFF"
  unfolding T108TimerIdGet_def mask16_u32 three_mask
  by (rule bit_word_eqI) (auto simp: bit_simps dest: bit_imp_le_length)

lemma home_T108 [simp]: "home (T108TimerIdGet e) = None"
  using T108_low [of e] by (auto simp: home_def)

end
