(* ===== verification/Rme.thy ===== *)
theory Rme
  imports TimedProcedure
begin

text \<open>
  The request multiplex entry procedure (\<^verbatim>\<open>se/src/rme.cpp\<close>, \<^verbatim>\<open>se/include/rme.h\<close>, class
  \<^verbatim>\<open>RME\<close>). \<^verbatim>\<open>RMEntries\<close> holds an array of 20 numbers and a size; the list of the model is
  the part below the size, the only part that is read. The copies of the source are not
  checked: storing more than 20 numbers, or copying more than 15 into the local array of a
  message, runs past an array and is a fault here.
\<close>

section \<open>State\<close>

definition MAX_ENTRIES :: nat where "MAX_ENTRIES = 20"

text \<open>The local array \<^verbatim>\<open>uint32 entryNumbers[15]\<close> of the four message functions.\<close>

definition LOCAL_ENTRIES :: nat where "LOCAL_ENTRIES = 15"

text \<open>Reading \<open>n\<close> elements through a pointer to an array that has the given elements.\<close>

definition read_array :: "nat \<Rightarrow> 'a list \<Rightarrow> 'a list res" where
  "read_array n xs = (if n \<le> length xs then Inr (take n xs) else Inl BufferOverrun)"

definition RMEntries_Write :: "u16 \<Rightarrow> u32 list \<Rightarrow> u32 list res" where
  "RMEntries_Write sizeEntries entries =
     (if unat sizeEntries \<le> MAX_ENTRIES then read_array (unat sizeEntries) entries
      else Inl BufferOverrun)"

definition RMEntries_Copy :: "u32 list \<Rightarrow> u32 list res" where
  "RMEntries_Copy es = (if length es \<le> LOCAL_ENTRIES then Inr es else Inl BufferOverrun)"

definition RMEntries_Sequence :: "u32 list" where
  "RMEntries_Sequence = map (\<lambda>ii. of_nat ii + 1) [0..<15]"

datatype rme_status =
  RME_OUTGOING_IDLE | RME_OUTGOING_AWTING_RPS | RME_INCOMING_IDLE | RME_INCOMING_AWTING_RPS

record rme =
  OutRMEntries :: "u32 list"
  InRMEntries :: "u32 list"
  rmeTmrSqcNumber :: s32
  rmeStatus :: rme_status
  rmeStatus2 :: rme_status

fun rme_status_code :: "rme_status \<Rightarrow> u8" where
  "rme_status_code RME_OUTGOING_IDLE = 0x00"
| "rme_status_code RME_OUTGOING_AWTING_RPS = 0x10"
| "rme_status_code RME_INCOMING_IDLE = 0x01"
| "rme_status_code RME_INCOMING_AWTING_RPS = 0x11"

definition rme_StatusWrite :: "rme_status \<Rightarrow> rme \<Rightarrow> rme" where
  "rme_StatusWrite status m =
     (if rme_status_code status AND 0x01 \<noteq> 0 then m\<lparr>rmeStatus2 := status\<rparr> else m\<lparr>rmeStatus := status\<rparr>)"

lemma rme_StatusWrite_simps [simp]:
  "rme_StatusWrite RME_OUTGOING_IDLE m = m\<lparr>rmeStatus := RME_OUTGOING_IDLE\<rparr>"
  "rme_StatusWrite RME_OUTGOING_AWTING_RPS m = m\<lparr>rmeStatus := RME_OUTGOING_AWTING_RPS\<rparr>"
  "rme_StatusWrite RME_INCOMING_IDLE m = m\<lparr>rmeStatus2 := RME_INCOMING_IDLE\<rparr>"
  "rme_StatusWrite RME_INCOMING_AWTING_RPS m = m\<lparr>rmeStatus2 := RME_INCOMING_AWTING_RPS\<rparr>"
  by (simp_all add: rme_StatusWrite_def)

definition rme_T107TimerStart :: "u32 \<Rightarrow> rme \<Rightarrow> rme \<times> effect list" where
  "rme_T107TimerStart dur m =
     (let m1 = m\<lparr>rmeTmrSqcNumber := rmeTmrSqcNumber m + 1\<rparr>
      in (m1, [RequestTimer E_TmrId_Rme_T107 (rmeTmrSqcNumber m1) dur None]))"

definition rme_T107TimerStop :: effect where
  "rme_T107TimerStop = CancelTimer E_TmrId_Rme_T107"

definition new_RME :: rme where
  "new_RME = \<lparr> OutRMEntries = RMEntries_Sequence, InRMEntries = [], rmeTmrSqcNumber = 0,
               rmeStatus = RME_OUTGOING_IDLE, rmeStatus2 = RME_INCOMING_IDLE \<rparr>"

definition rme_Reset :: "rme \<Rightarrow> rme \<times> effect list" where
  "rme_Reset m =
     (rme_StatusWrite RME_OUTGOING_IDLE (rme_StatusWrite RME_INCOMING_IDLE
        (m\<lparr>OutRMEntries := RMEntries_Sequence, InRMEntries := [], rmeTmrSqcNumber := 0\<rparr>)),
      [rme_T107TimerStop])"

section \<open>Messages and primitives\<close>

definition entry_numbers_of :: "u32 list \<Rightarrow> entry_numbers" where
  "entry_numbers_of es = \<lparr> enr_size = of_nat (length es), enr_entryNumbers = es \<rparr>"

definition rme_MsgEntrySend :: "rme \<Rightarrow> effect res" where
  "rme_MsgEntrySend m =
     bind_res (RMEntries_Copy (OutRMEntries m))
       (\<lambda>es. Inr (send_msg H245_MSG_REQ MSGTYP_RME (P_RequestMultiplexEntry (entry_numbers_of es))))"

definition rme_MsgEntryAckSend :: "rme \<Rightarrow> effect res" where
  "rme_MsgEntryAckSend m =
     bind_res (RMEntries_Copy (InRMEntries m))
       (\<lambda>es. Inr (send_msg H245_MSG_RPS MSGTYP_RME_ACK (P_RequestMultiplexEntryAck (entry_numbers_of es))))"

definition rme_MsgEntryRjtSend :: "u16 \<Rightarrow> rme \<Rightarrow> effect res" where
  "rme_MsgEntryRjtSend cause m =
     bind_res (RMEntries_Copy (InRMEntries m))
       (\<lambda>es. Inr (send_msg H245_MSG_RPS MSGTYP_RME_RJT
                (P_RequestMultiplexEntryReject
                   \<lparr> rmj_entryNumbers = entry_numbers_of es, rmj_size = 1,
                     rmj_descriptions = [(1, cause)] \<rparr>)))"

definition rme_MsgEntryRlsSend :: "rme \<Rightarrow> effect res" where
  "rme_MsgEntryRlsSend m =
     bind_res (RMEntries_Copy (OutRMEntries m))
       (\<lambda>es. Inr (send_msg H245_MSG_IDC MSGTYP_RME_RLS (P_RequestMultiplexEntryRelease (entry_numbers_of es))))"

definition rme_PtvSendIndSend :: effect where
  "rme_PtvSendIndSend = PrimitiveSend (primitive E_PtvId_Rme_Send_Idc 0 0 None)"

definition rme_PtvRjtIdcSend :: "h245_source \<Rightarrow> u16 \<Rightarrow> effect" where
  "rme_PtvRjtIdcSend source cause =
     PrimitiveSend (primitive E_PtvId_Rme_Rjt_Idc 0 0 (Some (P_SourceCause_Rme source cause)))"

definition rme_PtvSendCfmSend :: effect where
  "rme_PtvSendCfmSend = PrimitiveSend (primitive E_PtvId_Rme_Send_Cfm 0 0 None)"

section \<open>Handlers\<close>

definition rme_0600_0000 :: "u32 \<Rightarrow> rme \<Rightarrow> (rme \<times> effect list) res" where
  "rme_0600_0000 dur m =
     (let m1 = rme_StatusWrite RME_OUTGOING_AWTING_RPS m
      in bind_res (rme_MsgEntrySend m1)
           (\<lambda>msg. let (m2, timer) = rme_T107TimerStart dur m1 in Inr (m2, msg # timer)))"

definition rme_0601_0001 :: "entry_numbers \<Rightarrow> rme \<Rightarrow> (rme \<times> effect list) res" where
  "rme_0601_0001 p m =
     bind_res (RMEntries_Write (enr_size p) (enr_entryNumbers p))
       (\<lambda>es. Inr (rme_StatusWrite RME_INCOMING_AWTING_RPS (m\<lparr>InRMEntries := es\<rparr>), [rme_PtvSendIndSend]))"

definition rme_0601_0011 :: "entry_numbers \<Rightarrow> rme \<Rightarrow> (rme \<times> effect list) res" where
  "rme_0601_0011 p m =
     bind_res (RMEntries_Write (enr_size p) (enr_entryNumbers p))
       (\<lambda>es. Inr (m\<lparr>InRMEntries := es\<rparr>, [rme_PtvRjtIdcSend Src_USER 0, rme_PtvSendIndSend]))"

definition rme_0602_0011 :: "rme \<Rightarrow> (rme \<times> effect list) res" where
  "rme_0602_0011 m =
     (let m1 = rme_StatusWrite RME_INCOMING_IDLE m
      in bind_res (rme_MsgEntryAckSend m1) (\<lambda>msg. Inr (m1, [msg])))"

definition rme_0603_0011 :: "u16 \<Rightarrow> rme \<Rightarrow> (rme \<times> effect list) res" where
  "rme_0603_0011 cause m =
     (let m1 = rme_StatusWrite RME_INCOMING_IDLE m
      in bind_res (rme_MsgEntryRjtSend cause m1) (\<lambda>msg. Inr (m1, [msg])))"

definition rme_0604_0010 :: "rme \<Rightarrow> rme \<times> effect list" where
  "rme_0604_0010 m = (rme_StatusWrite RME_OUTGOING_IDLE m, [rme_T107TimerStop, rme_PtvSendCfmSend])"

definition rme_0605_0010 :: "request_multiplex_entry_reject \<Rightarrow> rme \<Rightarrow> (rme \<times> effect list) res" where
  "rme_0605_0010 p m =
     bind_res (read_array 1 (rmj_descriptions p))
       (\<lambda>ds. Inr (rme_StatusWrite RME_OUTGOING_IDLE m,
                  [rme_T107TimerStop, rme_PtvRjtIdcSend Src_USER (snd (hd ds))]))"

definition rme_0606_0010 :: "s32 \<Rightarrow> rme \<Rightarrow> (rme \<times> effect list) res" where
  "rme_0606_0010 timer_Sequence_Number m =
     (if timer_Sequence_Number = rmeTmrSqcNumber m then
        let m1 = rme_StatusWrite RME_OUTGOING_IDLE m
        in bind_res (rme_MsgEntryRlsSend m1) (\<lambda>msg. Inr (m1, [msg, rme_PtvRjtIdcSend Src_PROTOCOL 0]))
      else Inr (m, []))"

definition rme_0607_0011 :: "rme \<Rightarrow> rme \<times> effect list" where
  "rme_0607_0011 m = (rme_StatusWrite RME_INCOMING_IDLE m, [rme_PtvRjtIdcSend Src_PROTOCOL 0])"

lemmas rme_handlers =
  rme_0600_0000_def rme_0601_0001_def rme_0601_0011_def rme_0602_0011_def rme_0603_0011_def
  rme_0604_0010_def rme_0605_0010_def rme_0606_0010_def rme_0607_0011_def rme_T107TimerStart_def
  rme_Reset_def

lemmas rme_sends =
  rme_MsgEntrySend_def rme_MsgEntryAckSend_def rme_MsgEntryRjtSend_def rme_MsgEntryRlsSend_def
  rme_PtvSendIndSend_def rme_PtvRjtIdcSend_def rme_PtvSendCfmSend_def rme_T107TimerStop_def

end
