(* ===== verification/Mt.thy ===== *)
theory Mt
  imports Rme
begin

text \<open>
  The multiplex table procedure (\<^verbatim>\<open>se/src/mt.cpp\<close>, \<^verbatim>\<open>se/include/mt.h\<close>): class \<^verbatim>\<open>MT\<close> with
  a timer service of its own, and \<^verbatim>\<open>MultiplexEntrySendMgr\<close>, the one pending table transfer.
  An element of an array that the source has not written is \<open>None\<close>. A read or a copy past an
  array is a fault, as is the use of the null pointer \<^verbatim>\<open>iPendingMtSend\<close>.
\<close>

section \<open>State\<close>

definition MAX_MUX_ENTRIES :: nat where "MAX_MUX_ENTRIES = 15"

definition T104_TIMER_DURATION :: int where "T104_TIMER_DURATION = 30"

record mt_entries = \<comment> \<open>\<^verbatim>\<open>MTEntries\<close>\<close>
  SizeMuxTableEntries :: s32
  MuxTableEntries :: "u32 option list"

definition MTEntries_Clear :: "mt_entries \<Rightarrow> mt_entries" where
  "MTEntries_Clear m =
     m\<lparr>SizeMuxTableEntries := 0, MuxTableEntries := (MuxTableEntries m)[0 := Some 0]\<rparr>"

definition new_MTEntries :: mt_entries where
  "new_MTEntries =
     MTEntries_Clear
       \<lparr> SizeMuxTableEntries = 0, MuxTableEntries = replicate MAX_MUX_ENTRIES None \<rparr>"

text \<open>The loop of \<^verbatim>\<open>Write\<close> stops at the size or at the end of the array, whichever is first.
  The loop variable is an \<^verbatim>\<open>int\<close>, so a negative size writes nothing.\<close>

definition MTEntries_Write ::
  "multiplex_entry_descriptor list \<Rightarrow> s32 \<Rightarrow> mt_entries \<Rightarrow> mt_entries res" where
  "MTEntries_Write descriptors sz m =
     bind_res (read_array (min (nat (sint sz)) MAX_MUX_ENTRIES) descriptors)
       (\<lambda>ds. Inr (m\<lparr>SizeMuxTableEntries := sz,
                    MuxTableEntries :=
                      map (\<lambda>d. Some (ucast (med_multiplexTableEntryNumber d))) ds
                        @ drop (length ds) (MuxTableEntries m)\<rparr>))"

record mux_send_mgr = \<comment> \<open>\<^verbatim>\<open>MultiplexEntrySendMgr\<close>\<close>
  iMuxEntryNumbers :: "u32 list"
  iOutMTEntries :: mt_entries
  iSn :: s32

datatype mt_status =
  MT_OUTGOING_IDLE | MT_OUTGOING_AWTING_RPS | MT_INCOMING_IDLE | MT_INCOMING_AWTING_RPS

fun mt_status_code :: "mt_status \<Rightarrow> u8" where
  "mt_status_code MT_OUTGOING_IDLE = 0x00"
| "mt_status_code MT_OUTGOING_AWTING_RPS = 0x10"
| "mt_status_code MT_INCOMING_IDLE = 0x01"
| "mt_status_code MT_INCOMING_AWTING_RPS = 0x11"

record mt =
  mtStatus2 :: mt_status
  mtOutSqc :: s32
  mtInSqc :: s32
  InMTEntries :: mt_entries
  iPendingMtSend :: "mux_send_mgr option"
  iTimer :: "timer_observer timer"

definition mt_StatusWrite :: "mt_status \<Rightarrow> mt \<Rightarrow> mt" where
  "mt_StatusWrite status m =
     (if mt_status_code status AND 0x01 \<noteq> 0 then m\<lparr>mtStatus2 := status\<rparr> else m)"

lemma mt_StatusWrite_simps [simp]:
  "mt_StatusWrite MT_OUTGOING_IDLE m = m"
  "mt_StatusWrite MT_OUTGOING_AWTING_RPS m = m"
  "mt_StatusWrite MT_INCOMING_IDLE m = m\<lparr>mtStatus2 := MT_INCOMING_IDLE\<rparr>"
  "mt_StatusWrite MT_INCOMING_AWTING_RPS m = m\<lparr>mtStatus2 := MT_INCOMING_AWTING_RPS\<rparr>"
  by (simp_all add: mt_StatusWrite_def)

definition mt_Reset :: "mt \<Rightarrow> mt" where
  "mt_Reset m =
     (mt_StatusWrite MT_INCOMING_IDLE
        (m\<lparr>mtOutSqc := 0, mtInSqc := 0, iTimer := timer_Clear (iTimer m),
           InMTEntries := MTEntries_Clear (InMTEntries m)\<rparr>))\<lparr>iPendingMtSend := None\<rparr>"

definition new_MT :: "u32 \<Rightarrow> mt" where
  "new_MT tickCountPeriod =
     mt_Reset \<lparr> mtStatus2 = MT_INCOMING_IDLE, mtOutSqc = 0, mtInSqc = 0,
                InMTEntries = new_MTEntries, iPendingMtSend = None,
                iTimer = new_timer (Some ObsMT) 1 tickCountPeriod \<rparr>"

definition RequestT104Timer :: "s32 \<Rightarrow> mt \<Rightarrow> mt" where
  "RequestT104Timer sn m =
     m\<lparr>iTimer := timer_Request sn sn T104_TIMER_DURATION (Some ObsMT) False (iTimer m)\<rparr>"

definition CancelT104Timer :: "s32 \<Rightarrow> mt \<Rightarrow> mt" where
  "CancelT104Timer sn m = m\<lparr>iTimer := timer_Cancel sn (-1) (iTimer m)\<rparr>"

section \<open>Messages and primitives\<close>

definition mt_MsgMtSend :: "mux_descriptor \<Rightarrow> u8 \<Rightarrow> effect" where
  "mt_MsgMtSend p sn =
     send_msg H245_MSG_REQ MSGTYP_MT
       (P_MultiplexEntrySend
          \<lparr> mes_sequenceNumber = sn, mes_size = ucast (mxd_size p), mes_descriptors = mxd_descriptors p \<rparr>)"

definition mt_MsgMtAckSend :: "u32 \<Rightarrow> mux_descriptor \<Rightarrow> effect res" where
  "mt_MsgMtAckSend sequenceNumber pMux =
     (let numEntries = mxd_size pMux
      in bind_res (read_array (min (unat numEntries) 15) (mxd_descriptors pMux))
           (\<lambda>ds. Inr (send_msg H245_MSG_RPS MSGTYP_MT_ACK
                   (P_MultiplexEntrySendAck
                      \<lparr> mea_sequenceNumber = ucast sequenceNumber, mea_size = ucast numEntries,
                        mea_entryNumbers = map (\<lambda>d. ucast (med_multiplexTableEntryNumber d)) ds \<rparr>))))"

text \<open>The first number of \<^verbatim>\<open>InMTEntries\<close>, which \<^verbatim>\<open>Clear\<close> sets to 0 and nothing else writes.\<close>

definition first_entry :: "mt_entries \<Rightarrow> u32" where
  "first_entry es = (case MuxTableEntries es of Some x # _ \<Rightarrow> x | _ \<Rightarrow> 0)"

definition mt_MsgMtRjtSend :: "mt \<Rightarrow> effect" where
  "mt_MsgMtRjtSend m =
     send_msg H245_MSG_RPS MSGTYP_MT_RJT
       (P_MultiplexEntrySendReject
          \<lparr> mer_sequenceNumber = ucast (mtInSqc m), mer_size = 1,
            mer_descriptions = [(ucast (first_entry (InMTEntries m)), PointerBytes)] \<rparr>)"

text \<open>The copy into the local array of 15 numbers has no bound of its own; the size, an
  \<^verbatim>\<open>int32\<close>, is converted to an unsigned byte count.\<close>

definition mt_MsgMtRlsSend :: "mt_entries \<Rightarrow> effect res" where
  "mt_MsgMtRlsSend entries =
     (let sz = SizeMuxTableEntries entries
      in if 0 \<le> sint sz \<and> nat (sint sz) \<le> 15
         then Inr (send_msg H245_MSG_IDC MSGTYP_MT_RLS
                (P_MultiplexEntrySendRelease (ucast sz)
                   (map (case_option 0 id) (take (nat (sint sz)) (MuxTableEntries entries)))))
         else Inl BufferOverrun)"

definition mt_PtvTrfIdcSend :: "multiplex_entry_send \<Rightarrow> effect" where
  "mt_PtvTrfIdcSend p =
     PrimitiveSend (primitive E_PtvId_Mt_Trf_Idc (ucast (mes_sequenceNumber p)) 0
       (Some (P_MuxDescriptor \<lparr> mxd_size = ucast (mes_size p), mxd_descriptors = mes_descriptors p \<rparr>)))"

fun direction_code :: "direction \<Rightarrow> u32" where
  "direction_code INCOMING = 1"
| "direction_code OUTGOING = 2"

text \<open>The cause is passed only with the source \<^verbatim>\<open>Src_USER\<close>; \<open>None\<close> is the null pointer.\<close>

definition mt_PtvRjtIdcSend ::
  "direction \<Rightarrow> h245_source \<Rightarrow> cause_bytes option \<Rightarrow> s32 \<Rightarrow> u32 \<Rightarrow> effect res" where
  "mt_PtvRjtIdcSend dir source cause sn mux_number =
     (let sup2 = push_bit 16 sn + (mux_number AND 0xFFFF)
      in if source = Src_USER
         then (case cause of
                 None \<Rightarrow> Inl NullDeref
               | Some c \<Rightarrow> Inr (PrimitiveSend (primitive E_PtvId_Mt_Rjt_Idc (direction_code dir) sup2
                              (Some (P_SourceCause_Mt source c)))))
         else Inr (PrimitiveSend (primitive E_PtvId_Mt_Rjt_Idc (direction_code dir) sup2 None)))"

definition mt_PtvTrfCfmSend :: "multiplex_entry_send_ack \<Rightarrow> effect list res" where
  "mt_PtvTrfCfmSend p =
     bind_res (read_array (unat (mea_size p)) (mea_entryNumbers p))
       (\<lambda>ns. Inr (map (\<lambda>n. PrimitiveSend
                (primitive E_PtvId_Mt_Trf_Cfm (ucast (mea_sequenceNumber p)) n None)) ns))"

text \<open>Calling a fallible send for each element of a list, in order.\<close>

fun send_each :: "('a \<Rightarrow> effect res) \<Rightarrow> 'a list \<Rightarrow> effect list res" where
  "send_each f [] = Inr []"
| "send_each f (x # xs) = bind_res (f x) (\<lambda>e. bind_res (send_each f xs) (\<lambda>es. Inr (e # es)))"

section \<open>The pending transfer\<close>

definition mgr_TransferRequest ::
  "mux_descriptor \<Rightarrow> mux_send_mgr \<Rightarrow> mt \<Rightarrow> (mux_send_mgr \<times> mt \<times> effect list) res" where
  "mgr_TransferRequest p g m =
     bind_res (MTEntries_Write (mxd_descriptors p) (mxd_size p) (MTEntries_Clear (iOutMTEntries g)))
       (\<lambda>out. Inr (g\<lparr>iOutMTEntries := out\<rparr>, RequestT104Timer (iSn g) m,
                   [mt_MsgMtSend p (ucast (iSn g))]))"

text \<open>The search loops erase the first occurrence of each number of the message.\<close>

definition mgr_erase :: "u32 list \<Rightarrow> u32 list \<Rightarrow> u32 list" where
  "mgr_erase ns pending_numbers = fold remove1 ns pending_numbers"

text \<open>The results of the two answer functions: the transfer (\<open>None\<close> once the caller has deleted
  it, for the return value 1), the owner and its calls.\<close>

definition mgr_Ack ::
  "multiplex_entry_send_ack \<Rightarrow> mux_send_mgr \<Rightarrow> mt \<Rightarrow> (mux_send_mgr option \<times> mt \<times> effect list) res" where
  "mgr_Ack p g m =
     bind_res (read_array (unat (mea_size p)) (mea_entryNumbers p))
       (\<lambda>ns. let g1 = g\<lparr>iMuxEntryNumbers := mgr_erase ns (iMuxEntryNumbers g)\<rparr>;
                 finished = (iMuxEntryNumbers g1 = []);
                 m1 = (if finished then CancelT104Timer (iSn g1) m else m)
             in bind_res (mt_PtvTrfCfmSend p)
                  (\<lambda>es. Inr (if finished then None else Some g1, m1, es)))"

definition mgr_Reject ::
  "multiplex_entry_send_reject \<Rightarrow> mux_send_mgr \<Rightarrow> mt \<Rightarrow> (mux_send_mgr option \<times> mt \<times> effect list) res" where
  "mgr_Reject p g m =
     bind_res (read_array (unat (mer_size p)) (mer_descriptions p))
       (\<lambda>ds. let g1 = g\<lparr>iMuxEntryNumbers :=
                        mgr_erase (map (\<lambda>d. ucast (fst d)) ds) (iMuxEntryNumbers g)\<rparr>;
                 finished = (iMuxEntryNumbers g1 = []);
                 m1 = (if finished then CancelT104Timer (iSn g1) m else m)
             in bind_res
                  (send_each (\<lambda>d. mt_PtvRjtIdcSend OUTGOING Src_USER (Some (snd d))
                                (ucast (mer_sequenceNumber p)) (ucast (fst d))) ds)
                  (\<lambda>es. Inr (if finished then None else Some g1, m1, es)))"

definition mgr_T104Timeout :: "mux_send_mgr \<Rightarrow> effect list res" where
  "mgr_T104Timeout g =
     bind_res (mt_MsgMtRlsSend (iOutMTEntries g))
       (\<lambda>rls. bind_res
          (send_each (\<lambda>n. mt_PtvRjtIdcSend OUTGOING Src_PROTOCOL None (iSn g) n) (rev (iMuxEntryNumbers g)))
          (\<lambda>es. Inr (rls # es)))"

section \<open>Handlers\<close>

definition mt_TransferRequest :: "mux_descriptor \<Rightarrow> mt \<Rightarrow> (mt \<times> effect list) res" where
  "mt_TransferRequest p m =
     bind_res (read_array (nat (sint (mxd_size p))) (mxd_descriptors p))
       (\<lambda>ds. let g = \<lparr> iMuxEntryNumbers = map (\<lambda>d. ucast (med_multiplexTableEntryNumber d)) ds,
                       iOutMTEntries = new_MTEntries, iSn = mtOutSqc m \<rparr>
             in bind_res (mgr_TransferRequest p g m)
                  (\<lambda>(g1, m1, es).
                     Inr (m1\<lparr>iPendingMtSend := Some g1, mtOutSqc := mtOutSqc m1 + 1\<rparr>, es)))"

definition mt_0501_0001 :: "multiplex_entry_send \<Rightarrow> mt \<Rightarrow> mt \<times> effect list" where
  "mt_0501_0001 p m =
     (mt_StatusWrite MT_INCOMING_AWTING_RPS (m\<lparr>mtInSqc := ucast (mes_sequenceNumber p)\<rparr>),
      [mt_PtvTrfIdcSend p])"

definition mt_0501_0011 :: "multiplex_entry_send \<Rightarrow> mt \<Rightarrow> mt \<times> effect list" where
  "mt_0501_0011 p m = (m\<lparr>mtInSqc := ucast (mes_sequenceNumber p)\<rparr>, [mt_PtvTrfIdcSend p])"

definition mt_0502_0011 :: "u32 \<Rightarrow> mux_descriptor \<Rightarrow> mt \<Rightarrow> (mt \<times> effect list) res" where
  "mt_0502_0011 sequenceNumber pMux m =
     (let m1 = (if sequenceNumber = mtInSqc m then mt_StatusWrite MT_INCOMING_IDLE m else m)
      in bind_res (mt_MsgMtAckSend sequenceNumber pMux) (\<lambda>msg. Inr (m1, [msg])))"

definition mt_0503_0011 :: "mt \<Rightarrow> mt \<times> effect list" where
  "mt_0503_0011 m =
     (let m1 = mt_StatusWrite MT_INCOMING_IDLE m in (m1, [mt_MsgMtRjtSend m1]))"

definition mt_MultiplexEntrySendAck :: "multiplex_entry_send_ack \<Rightarrow> mt \<Rightarrow> (mt \<times> effect list) res" where
  "mt_MultiplexEntrySendAck p m =
     (case iPendingMtSend m of
        None \<Rightarrow> Inr (m, [])
      | Some g \<Rightarrow>
          if ucast (mea_sequenceNumber p) \<noteq> iSn g then Inr (m, [])
          else bind_res (mgr_Ack p g m) (\<lambda>(g1, m1, es). Inr (m1\<lparr>iPendingMtSend := g1\<rparr>, es)))"

definition mt_MultiplexEntrySendReject ::
  "multiplex_entry_send_reject \<Rightarrow> mt \<Rightarrow> (mt \<times> effect list) res" where
  "mt_MultiplexEntrySendReject p m =
     (case iPendingMtSend m of
        None \<Rightarrow> Inl NullDeref
      | Some g \<Rightarrow>
          if ucast (mer_sequenceNumber p) \<noteq> iSn g then Inr (m, [])
          else bind_res (mgr_Reject p g m) (\<lambda>(g1, m1, es). Inr (m1\<lparr>iPendingMtSend := g1\<rparr>, es)))"

definition mt_0507_0011 :: "mt \<Rightarrow> (mt \<times> effect list) res" where
  "mt_0507_0011 m =
     (let m1 = mt_StatusWrite MT_INCOMING_IDLE m
      in bind_res (mt_PtvRjtIdcSend OUTGOING Src_PROTOCOL None 0 0) (\<lambda>e. Inr (m1, [e])))"

definition mt_TimeoutOccurred :: "mt \<Rightarrow> (mt \<times> effect list) res" where
  "mt_TimeoutOccurred m =
     (case iPendingMtSend m of
        None \<Rightarrow> Inr (m, [])
      | Some g \<Rightarrow> bind_res (mgr_T104Timeout g) (\<lambda>es. Inr (m\<lparr>iPendingMtSend := None\<rparr>, es)))"

lemmas mt_handlers =
  mt_TransferRequest_def mt_0501_0001_def mt_0501_0011_def mt_0502_0011_def mt_0503_0011_def
  mt_MultiplexEntrySendAck_def mt_MultiplexEntrySendReject_def mt_0507_0011_def mt_TimeoutOccurred_def

end
