(* ===== verification/Mr.thy ===== *)
theory Mr
  imports TimedProcedure
begin

text \<open>
  The request mode procedure (\<^verbatim>\<open>se/src/mr.cpp\<close>, \<^verbatim>\<open>se/include/mr.h\<close>, class \<^verbatim>\<open>MR\<close>). The
  request counter \<^verbatim>\<open>OutSqc\<close> is an \<^verbatim>\<open>int32\<close>, the sequence number of a message its low byte.
\<close>

section \<open>State\<close>

datatype mr_status =
  MR_OUTGOING_IDLE | MR_OUTGOING_AWTING_RPS | MR_INCOMING_IDLE | MR_INCOMING_AWTING_RPS

record mr =
  mrOutSqc :: s32
  mrInSqc :: s32
  mrTmrSqcNumber :: s32
  mrStatus :: mr_status  \<comment> \<open>the outgoing half\<close>
  mrStatus2 :: mr_status \<comment> \<open>the incoming half\<close>

fun mr_status_code :: "mr_status \<Rightarrow> u8" where
  "mr_status_code MR_OUTGOING_IDLE = 0x00"
| "mr_status_code MR_OUTGOING_AWTING_RPS = 0x10"
| "mr_status_code MR_INCOMING_IDLE = 0x01"
| "mr_status_code MR_INCOMING_AWTING_RPS = 0x11"

definition mr_StatusWrite :: "mr_status \<Rightarrow> mr \<Rightarrow> mr" where
  "mr_StatusWrite status m =
     (if mr_status_code status AND 0x01 \<noteq> 0 then m\<lparr>mrStatus2 := status\<rparr> else m\<lparr>mrStatus := status\<rparr>)"

lemma mr_StatusWrite_simps [simp]:
  "mr_StatusWrite MR_OUTGOING_IDLE m = m\<lparr>mrStatus := MR_OUTGOING_IDLE\<rparr>"
  "mr_StatusWrite MR_OUTGOING_AWTING_RPS m = m\<lparr>mrStatus := MR_OUTGOING_AWTING_RPS\<rparr>"
  "mr_StatusWrite MR_INCOMING_IDLE m = m\<lparr>mrStatus2 := MR_INCOMING_IDLE\<rparr>"
  "mr_StatusWrite MR_INCOMING_AWTING_RPS m = m\<lparr>mrStatus2 := MR_INCOMING_AWTING_RPS\<rparr>"
  by (simp_all add: mr_StatusWrite_def)

definition mr_T109TimerStart :: "u32 \<Rightarrow> mr \<Rightarrow> mr \<times> effect list" where
  "mr_T109TimerStart dur m =
     (let m1 = m\<lparr>mrTmrSqcNumber := mrTmrSqcNumber m + 1\<rparr>
      in (m1, [RequestTimer E_TmrId_Mr_T109 (mrTmrSqcNumber m1) dur None]))"

definition mr_T109TimerStop :: effect where
  "mr_T109TimerStop = CancelTimer E_TmrId_Mr_T109"

definition mr_Reset :: "mr \<Rightarrow> mr \<times> effect list" where
  "mr_Reset m =
     (m\<lparr> mrOutSqc := 0, mrInSqc := 0, mrTmrSqcNumber := 0, mrStatus2 := MR_INCOMING_IDLE,
        mrStatus := MR_OUTGOING_IDLE \<rparr>,
      [mr_T109TimerStop])"

definition new_MR :: mr where
  "new_MR = \<lparr> mrOutSqc = 0, mrInSqc = 0, mrTmrSqcNumber = 0, mrStatus = MR_OUTGOING_IDLE,
              mrStatus2 = MR_INCOMING_IDLE \<rparr>"

section \<open>Messages and primitives\<close>

definition mr_MsgRequestSend :: "request_mode \<Rightarrow> mr \<Rightarrow> effect" where
  "mr_MsgRequestSend p m =
     send_msg H245_MSG_REQ MSGTYP_MR
       (P_RequestMode \<lparr> rqm_sequenceNumber = ucast (mrOutSqc m), rqm_size = rqm_size p,
                        rqm_requestedModes = rqm_requestedModes p \<rparr>)"

definition mr_MsgAckSend :: "u16 \<Rightarrow> mr \<Rightarrow> effect" where
  "mr_MsgAckSend pModePref m =
     send_msg H245_MSG_RPS MSGTYP_MR_ACK (P_RequestModeAck (ucast (mrInSqc m)) pModePref)"

definition mr_MsgRjtSend :: "u16 \<Rightarrow> mr \<Rightarrow> effect" where
  "mr_MsgRjtSend cause m =
     send_msg H245_MSG_RPS MSGTYP_MR_RJT (P_RequestModeReject (ucast (mrInSqc m)) cause)"

definition mr_MsgRlsSend :: effect where
  "mr_MsgRlsSend = send_msg H245_MSG_IDC MSGTYP_MR_RLS P_RequestModeRelease"

definition mr_PtvTrnsIndSend :: "request_mode \<Rightarrow> effect" where
  "mr_PtvTrnsIndSend p = PrimitiveSend (primitive E_PtvId_Mr_Trf_Idc 0 0 (Some (P_RequestMode p)))"

definition mr_PtvRjtIndSend :: "h245_source \<Rightarrow> u16 \<Rightarrow> effect" where
  "mr_PtvRjtIndSend source cause =
     PrimitiveSend (primitive E_PtvId_Mr_Rjt_Idc 0 0 (Some (P_SourceCause_Mr source cause)))"

definition mr_PtvTrnsCfmSend :: "u16 \<Rightarrow> effect" where
  "mr_PtvTrnsCfmSend response =
     PrimitiveSend (primitive E_PtvId_Mr_Trf_Cfm 0 0 (Some (P_Response response)))"

section \<open>Handlers\<close>

definition mr_0700_0000 :: "u32 \<Rightarrow> request_mode \<Rightarrow> mr \<Rightarrow> mr \<times> effect list" where
  "mr_0700_0000 dur p m =
     (let m1 = mr_StatusWrite MR_OUTGOING_AWTING_RPS (m\<lparr>mrOutSqc := mrOutSqc m + 1\<rparr>);
          (m2, timer) = mr_T109TimerStart dur m1
      in (m2, mr_MsgRequestSend p m1 # timer))"

definition mr_0700_0010 :: "u32 \<Rightarrow> request_mode \<Rightarrow> mr \<Rightarrow> mr \<times> effect list" where
  "mr_0700_0010 dur p m =
     (let m1 = mr_StatusWrite MR_OUTGOING_AWTING_RPS (m\<lparr>mrOutSqc := mrOutSqc m + 1\<rparr>);
          (m2, timer) = mr_T109TimerStart dur m1
      in (m2, [mr_T109TimerStop, mr_MsgRequestSend p m1] @ timer))"

definition mr_0701_0001 :: "request_mode \<Rightarrow> mr \<Rightarrow> mr \<times> effect list" where
  "mr_0701_0001 p m =
     (mr_StatusWrite MR_INCOMING_AWTING_RPS (m\<lparr>mrInSqc := ucast (rqm_sequenceNumber p)\<rparr>),
      [mr_PtvTrnsIndSend p])"

definition mr_0701_0011 :: "request_mode \<Rightarrow> mr \<Rightarrow> mr \<times> effect list" where
  "mr_0701_0011 p m =
     (m\<lparr>mrInSqc := ucast (rqm_sequenceNumber p)\<rparr>,
      [mr_PtvRjtIndSend Src_USER 0, mr_PtvTrnsIndSend p])"

definition mr_0702_0011 :: "u16 \<Rightarrow> mr \<Rightarrow> mr \<times> effect list" where
  "mr_0702_0011 pModePref m =
     (let m1 = mr_StatusWrite MR_INCOMING_IDLE m in (m1, [mr_MsgAckSend pModePref m1]))"

definition mr_0703_0011 :: "u16 \<Rightarrow> mr \<Rightarrow> mr \<times> effect list" where
  "mr_0703_0011 cause m =
     (let m1 = mr_StatusWrite MR_INCOMING_IDLE m in (m1, [mr_MsgRjtSend cause m1]))"

text \<open>The comparison is between the byte of the message and the whole counter.\<close>

definition mr_0704_0010 :: "u8 \<times> u16 \<Rightarrow> mr \<Rightarrow> mr \<times> effect list" where
  "mr_0704_0010 p m =
     (if ucast (fst p) = mrOutSqc m
      then (mr_StatusWrite MR_OUTGOING_IDLE m, [mr_T109TimerStop, mr_PtvTrnsCfmSend (snd p)])
      else (m, []))"

definition mr_0705_0010 :: "u8 \<times> u16 \<Rightarrow> mr \<Rightarrow> mr \<times> effect list" where
  "mr_0705_0010 p m =
     (if ucast (fst p) = mrOutSqc m
      then (mr_StatusWrite MR_OUTGOING_IDLE m, [mr_T109TimerStop, mr_PtvRjtIndSend Src_USER (snd p)])
      else (m, []))"

definition mr_0706_0010 :: "s32 \<Rightarrow> mr \<Rightarrow> mr \<times> effect list" where
  "mr_0706_0010 timer_Sequence_Number m =
     (if timer_Sequence_Number = mrTmrSqcNumber m
      then (mr_StatusWrite MR_OUTGOING_IDLE m, [mr_MsgRlsSend, mr_PtvRjtIndSend Src_PROTOCOL 0])
      else (m, []))"

definition mr_0707_0011 :: "mr \<Rightarrow> mr \<times> effect list" where
  "mr_0707_0011 m = (mr_StatusWrite MR_INCOMING_IDLE m, [mr_PtvRjtIndSend Src_PROTOCOL 0])"

lemmas mr_handlers =
  mr_0700_0000_def mr_0700_0010_def mr_0701_0001_def mr_0701_0011_def mr_0702_0011_def
  mr_0703_0011_def mr_0704_0010_def mr_0705_0010_def mr_0706_0010_def mr_0707_0011_def
  mr_T109TimerStart_def mr_Reset_def

lemmas mr_sends =
  mr_MsgRequestSend_def mr_MsgAckSend_def mr_MsgRjtSend_def mr_MsgRlsSend_def mr_PtvTrnsIndSend_def
  mr_PtvRjtIndSend_def mr_PtvTrnsCfmSend_def mr_T109TimerStop_def

end
