(* ===== verification/Rtd.thy ===== *)
theory Rtd
  imports TimedProcedure
begin

text \<open>
  The round trip delay procedure (\<^verbatim>\<open>se/src/rtd.cpp\<close>, \<^verbatim>\<open>se/include/rtd.h\<close>, class
  \<^verbatim>\<open>RTD\<close>). The clock is a parameter of the handlers that read it: \<open>now\<close> is the current time
  in milliseconds, as \<^verbatim>\<open>TimeValue::to_msec\<close> gives it.
\<close>

section \<open>State\<close>

datatype rtd_status = RTD_IDLE | RTD_AWTING_RPS

record rtd =
  rtdOutSqc :: s32
  rtdTmrSqcNumber :: s32
  rtdStatus :: rtd_status
  StartTime :: u32

definition rtd_OutSqcInc :: "rtd \<Rightarrow> rtd" where
  "rtd_OutSqcInc r =
     (let r1 = r\<lparr>rtdOutSqc := rtdOutSqc r + 1\<rparr>
      in if rtdOutSqc r1 = 256 then r1\<lparr>rtdOutSqc := 0\<rparr> else r1)"

definition rtd_T105TimerStart :: "u32 \<Rightarrow> rtd \<Rightarrow> rtd \<times> effect list" where
  "rtd_T105TimerStart dur r =
     (let r1 = r\<lparr>rtdTmrSqcNumber := rtdTmrSqcNumber r + 1\<rparr>
      in (r1, [RequestTimer E_TmrId_Rtd_T105 (rtdTmrSqcNumber r1) dur None]))"

definition rtd_T105TimerStop :: effect where
  "rtd_T105TimerStop = CancelTimer E_TmrId_Rtd_T105"

definition rtd_Reset :: "rtd \<Rightarrow> rtd \<times> effect list" where
  "rtd_Reset r =
     (r\<lparr>rtdOutSqc := 0, rtdTmrSqcNumber := 0, rtdStatus := RTD_IDLE\<rparr>, [rtd_T105TimerStop])"

definition new_RTD :: rtd where
  "new_RTD = \<lparr> rtdOutSqc = 0, rtdTmrSqcNumber = 0, rtdStatus = RTD_IDLE, StartTime = 0 \<rparr>"

definition StartMeasurement :: "u32 \<Rightarrow> rtd \<Rightarrow> rtd" where
  "StartMeasurement now r = r\<lparr>StartTime := now\<rparr>"

definition StopMeasurement :: "u32 \<Rightarrow> rtd \<Rightarrow> s32" where
  "StopMeasurement now r = now - StartTime r"

section \<open>Messages and primitives\<close>

definition rtd_MsgRequestSend :: "rtd \<Rightarrow> effect" where
  "rtd_MsgRequestSend r =
     send_msg H245_MSG_REQ MSGTYP_RTD_REQ (P_RoundTripDelayRequest (ucast (rtdOutSqc r)))"

definition rtd_MsgResponseSend :: "u8 \<Rightarrow> effect" where
  "rtd_MsgResponseSend sequenceNumber =
     send_msg H245_MSG_RPS MSGTYP_RTD_RPS (P_RoundTripDelayResponse sequenceNumber)"

definition rtd_PtvTrnsCfmSend :: "s32 \<Rightarrow> effect" where
  "rtd_PtvTrnsCfmSend delay =
     PrimitiveSend (primitive E_PtvId_Rtd_Trf_Cfm 0 0 (Some (P_Delay_Rtd delay)))"

definition rtd_PtvExpIndSend :: effect where
  "rtd_PtvExpIndSend = PrimitiveSend (primitive E_PtvId_Rtd_Exp_Idc 0 0 None)"

section \<open>Handlers\<close>

definition rtd_0800_0000 :: "u32 \<Rightarrow> u32 \<Rightarrow> rtd \<Rightarrow> rtd \<times> effect list" where
  "rtd_0800_0000 dur now r =
     (let r1 = (rtd_OutSqcInc r)\<lparr>rtdStatus := RTD_AWTING_RPS\<rparr>;
          (r2, timer) = rtd_T105TimerStart dur (StartMeasurement now r1)
      in (r2, rtd_MsgRequestSend r1 # timer))"

definition rtd_0800_0010 :: "u32 \<Rightarrow> u32 \<Rightarrow> rtd \<Rightarrow> rtd \<times> effect list" where
  "rtd_0800_0010 dur now r =
     (let r1 = (rtd_OutSqcInc r)\<lparr>rtdStatus := RTD_AWTING_RPS\<rparr>;
          (r2, timer) = rtd_T105TimerStart dur (StartMeasurement now r1)
      in (r2, [rtd_T105TimerStop, rtd_MsgRequestSend r1] @ timer))"

definition rtd_0801_0000 :: "u8 \<Rightarrow> rtd \<Rightarrow> rtd \<times> effect list" where
  "rtd_0801_0000 sequenceNumber r = (r, [rtd_MsgResponseSend sequenceNumber])"

definition rtd_0802_0010 :: "u32 \<Rightarrow> u8 \<Rightarrow> rtd \<Rightarrow> rtd \<times> effect list" where
  "rtd_0802_0010 now sequenceNumber r =
     (if ucast sequenceNumber = rtdOutSqc r then
        let delay = StopMeasurement now r
        in (r\<lparr>rtdStatus := RTD_IDLE\<rparr>, [rtd_T105TimerStop, rtd_PtvTrnsCfmSend delay])
      else (r, []))"

definition rtd_0803_0010 :: "s32 \<Rightarrow> rtd \<Rightarrow> rtd \<times> effect list" where
  "rtd_0803_0010 param r =
     (if param = rtdTmrSqcNumber r then (r\<lparr>rtdStatus := RTD_IDLE\<rparr>, [rtd_PtvExpIndSend]) else (r, []))"

lemmas rtd_handlers =
  rtd_0800_0000_def rtd_0800_0010_def rtd_0801_0000_def rtd_0802_0010_def rtd_0803_0010_def
  rtd_T105TimerStart_def rtd_OutSqcInc_def StartMeasurement_def rtd_Reset_def

lemmas rtd_sends =
  rtd_MsgRequestSend_def rtd_MsgResponseSend_def rtd_PtvTrnsCfmSend_def rtd_PtvExpIndSend_def
  rtd_T105TimerStop_def

end
