(* ===== verification/Ml.thy ===== *)
theory Ml
  imports TimedProcedure
begin

text \<open>
  The maintenance loop procedure (\<^verbatim>\<open>se/src/ml.cpp\<close>, \<^verbatim>\<open>se/include/ml.h\<close>, class \<^verbatim>\<open>ML\<close>). One
  status serves both roles: an object is created for the outgoing or for the incoming side.
  \<^verbatim>\<open>LoopType\<close> is not initialised by the source; it is read only in the incoming states,
  which are entered by writing it.
\<close>

section \<open>State\<close>

datatype ml_status =
    ML_OUTGOING_NOT_LOOPED | ML_OUTGOING_AWTING_RPS | ML_OUTGOING_LOOPED
  | ML_INCOMING_NOT_LOOPED | ML_INCOMING_AWTING_RPS | ML_INCOMING_LOOPED

record ml =
  mlTmrSqcNumber :: s32
  mlStatus :: ml_status
  LoopType :: ml_type

fun ml_status_code :: "ml_status \<Rightarrow> u8" where
  "ml_status_code ML_OUTGOING_NOT_LOOPED = 0x00"
| "ml_status_code ML_OUTGOING_AWTING_RPS = 0x10"
| "ml_status_code ML_OUTGOING_LOOPED = 0x20"
| "ml_status_code ML_INCOMING_NOT_LOOPED = 0x01"
| "ml_status_code ML_INCOMING_AWTING_RPS = 0x11"
| "ml_status_code ML_INCOMING_LOOPED = 0x21"

definition ml_T102TimerStart :: "u32 \<Rightarrow> ml \<Rightarrow> ml \<times> effect list" where
  "ml_T102TimerStart dur m =
     (let m1 = m\<lparr>mlTmrSqcNumber := mlTmrSqcNumber m + 1\<rparr>
      in (m1, [RequestTimer E_TmrId_Ml_T102 (mlTmrSqcNumber m1) dur None]))"

definition ml_T102TimerStop :: effect where
  "ml_T102TimerStop = CancelTimer E_TmrId_Ml_T102"

definition new_ML :: "bool \<Rightarrow> ml" where
  "new_ML incoming =
     \<lparr> mlTmrSqcNumber = 0,
       mlStatus = (if incoming then ML_INCOMING_NOT_LOOPED else ML_OUTGOING_NOT_LOOPED),
       LoopType = \<lparr> mlt_index = 0, mlt_channel = 0 \<rparr> \<rparr>"

definition ml_Reset :: "ml \<Rightarrow> ml \<times> effect list" where
  "ml_Reset m =
     (m\<lparr> mlTmrSqcNumber := 0,
        mlStatus := (if ml_status_code (mlStatus m) AND 0x01 \<noteq> 0 then ML_INCOMING_NOT_LOOPED
                     else ML_OUTGOING_NOT_LOOPED) \<rparr>,
      [ml_T102TimerStop])"

section \<open>Messages and primitives\<close>

definition ml_MsgLoopReqSend :: "ml_type \<Rightarrow> effect" where
  "ml_MsgLoopReqSend loopType =
     send_msg H245_MSG_REQ MSGTYP_ML_REQ (P_MaintenanceLoopRequest loopType)"

definition ml_MsgLoopAckSend :: "ml \<Rightarrow> effect" where
  "ml_MsgLoopAckSend m = send_msg H245_MSG_RPS MSGTYP_ML_ACK (P_MaintenanceLoopAck (LoopType m))"

definition ml_MsgLoopRjtSend :: "u16 \<Rightarrow> ml \<Rightarrow> effect" where
  "ml_MsgLoopRjtSend cause m =
     send_msg H245_MSG_RPS MSGTYP_ML_RJT (P_MaintenanceLoopReject (LoopType m) cause)"

definition ml_MsgLoopOffSend :: effect where
  "ml_MsgLoopOffSend = send_msg H245_MSG_CMD MSGTYP_ML_OFF_CMD P_MaintenanceLoopOffCommand"

definition ml_PtvLoopIdcSend :: "ml_type \<Rightarrow> effect" where
  "ml_PtvLoopIdcSend loopType =
     PrimitiveSend (primitive E_PtvId_Ml_Loop_Idc 0 0 (Some (P_MlRequestType loopType)))"

definition ml_PtvRlsIdcSend :: "h245_source \<Rightarrow> u16 \<Rightarrow> effect" where
  "ml_PtvRlsIdcSend source cause =
     PrimitiveSend (primitive E_PtvId_Ml_Rls_Idc 0 0 (Some (P_SourceCause_Ml source cause)))"

definition ml_PtvLoopCfmSend :: effect where
  "ml_PtvLoopCfmSend = PrimitiveSend (primitive E_PtvId_Ml_Loop_Cfm 0 0 None)"

definition ml_PtvErrIdcSend :: "err_code \<Rightarrow> effect" where
  "ml_PtvErrIdcSend errCode =
     PrimitiveSend (primitive E_PtvId_Ml_Err_Idc 0 0 (Some (P_ErrCode errCode)))"

section \<open>Handlers\<close>

definition ml_0900_0000 :: "u32 \<Rightarrow> ml_type \<Rightarrow> ml \<Rightarrow> ml \<times> effect list" where
  "ml_0900_0000 dur loopType m =
     (let (m1, timer) = ml_T102TimerStart dur (m\<lparr>mlStatus := ML_OUTGOING_AWTING_RPS\<rparr>)
      in (m1, ml_MsgLoopReqSend loopType # timer))"

definition ml_0901_0010 :: "ml \<Rightarrow> ml \<times> effect list" where
  "ml_0901_0010 m =
     (m\<lparr>mlStatus := ML_OUTGOING_NOT_LOOPED\<rparr>, [ml_T102TimerStop, ml_MsgLoopOffSend])"

definition ml_0901_0011 :: "u16 \<Rightarrow> ml \<Rightarrow> ml \<times> effect list" where
  "ml_0901_0011 cause m =
     (m\<lparr>mlStatus := ML_INCOMING_NOT_LOOPED\<rparr>, [ml_MsgLoopRjtSend cause m])"

definition ml_0901_0020 :: "ml \<Rightarrow> ml \<times> effect list" where
  "ml_0901_0020 m = (m\<lparr>mlStatus := ML_OUTGOING_NOT_LOOPED\<rparr>, [ml_MsgLoopOffSend])"

definition ml_0902_0001 :: "ml_type \<Rightarrow> ml \<Rightarrow> ml \<times> effect list" where
  "ml_0902_0001 p m =
     (m\<lparr>LoopType := p, mlStatus := ML_INCOMING_AWTING_RPS\<rparr>, [ml_PtvLoopIdcSend p])"

definition ml_0902_0011 :: "ml_type \<Rightarrow> ml \<Rightarrow> ml \<times> effect list" where
  "ml_0902_0011 p m =
     (m\<lparr>LoopType := p, mlStatus := ML_INCOMING_AWTING_RPS\<rparr>,
      [ml_PtvRlsIdcSend Src_USER 0, ml_PtvLoopIdcSend p])"

definition ml_0903_0011 :: "ml \<Rightarrow> ml \<times> effect list" where
  "ml_0903_0011 m = (m\<lparr>mlStatus := ML_INCOMING_LOOPED\<rparr>, [ml_MsgLoopAckSend m])"

definition ml_0904_0010 :: "ml \<Rightarrow> ml \<times> effect list" where
  "ml_0904_0010 m = (m\<lparr>mlStatus := ML_OUTGOING_LOOPED\<rparr>, [ml_T102TimerStop, ml_PtvLoopCfmSend])"

definition ml_0905_0010 :: "ml_type \<times> u16 \<Rightarrow> ml \<Rightarrow> ml \<times> effect list" where
  "ml_0905_0010 p m =
     (m\<lparr>mlStatus := ML_OUTGOING_NOT_LOOPED\<rparr>, [ml_T102TimerStop, ml_PtvRlsIdcSend Src_USER (snd p)])"

definition ml_0905_0020 :: "ml_type \<times> u16 \<Rightarrow> ml \<Rightarrow> ml \<times> effect list" where
  "ml_0905_0020 p m =
     (m\<lparr>mlStatus := ML_OUTGOING_NOT_LOOPED\<rparr>,
      [ml_PtvErrIdcSend ErrCode_Ml_A, ml_PtvRlsIdcSend Src_MLSE (snd p)])"

definition ml_0906_0010 :: "s32 \<Rightarrow> ml \<Rightarrow> ml \<times> effect list" where
  "ml_0906_0010 timer_Sequence_Number m =
     (if timer_Sequence_Number = mlTmrSqcNumber m
      then (m\<lparr>mlStatus := ML_OUTGOING_NOT_LOOPED\<rparr>,
            [ml_PtvErrIdcSend ErrCode_Ml_B, ml_MsgLoopOffSend, ml_PtvRlsIdcSend Src_MLSE 0])
      else (m, []))"

definition ml_0907_0011 :: "ml \<Rightarrow> ml \<times> effect list" where
  "ml_0907_0011 m = (m\<lparr>mlStatus := ML_INCOMING_NOT_LOOPED\<rparr>, [ml_PtvRlsIdcSend Src_USER 0])"

lemmas ml_handlers =
  ml_0900_0000_def ml_0901_0010_def ml_0901_0011_def ml_0901_0020_def ml_0902_0001_def
  ml_0902_0011_def ml_0903_0011_def ml_0904_0010_def ml_0905_0010_def ml_0905_0020_def
  ml_0906_0010_def ml_0907_0011_def ml_T102TimerStart_def ml_Reset_def

lemmas ml_sends =
  ml_MsgLoopReqSend_def ml_MsgLoopAckSend_def ml_MsgLoopRjtSend_def ml_MsgLoopOffSend_def
  ml_PtvLoopIdcSend_def ml_PtvRlsIdcSend_def ml_PtvLoopCfmSend_def ml_PtvErrIdcSend_def
  ml_T102TimerStop_def

end
