(* ===== verification/Annex.thy ===== *)
theory Annex
  imports SeTypes
begin

text \<open>
  The procedures without a state (\<^verbatim>\<open>se/src/annex.cpp\<close>): non-standard messages (NSD),
  communication mode (CM), conference (CNF), commands (CMD) and indications (IDC). Each
  function forwards its parameter block untouched: a request of the user becomes a message to
  the peer, a message of the peer a primitive to the user. The block is never read, so a null
  pointer is forwarded like any other.
\<close>

section \<open>Sending\<close>

definition annex_MsgSend :: "u8 \<Rightarrow> u8 \<Rightarrow> payload option \<Rightarrow> effect list" where
  "annex_MsgSend messageType messageNumber p =
     [MessageSend \<lparr> Type1 = messageType, Type2 = messageNumber, pData = p \<rparr>]"

definition annex_PtvSend ::
  "u32 \<Rightarrow> u32 \<Rightarrow> u32 \<Rightarrow> u32 \<Rightarrow> payload option \<Rightarrow> u8 list option \<Rightarrow> effect list" where
  "annex_PtvSend infType infId infSupplement1 infSupplement2 p encodedMsg =
     [PrimitiveSend
        \<lparr> InfType = infType, InfId = infId, InfSupplement1 = infSupplement1,
          InfSupplement2 = infSupplement2, pParameter = p, Dir = None,
          EncodedMsg = Some encodedMsg \<rparr>]"

section \<open>The procedures\<close>

definition nsd_1000 :: "payload option \<Rightarrow> effect list" where
  "nsd_1000 p = annex_MsgSend H245_MSG_REQ MSGTYP_NSD_REQ p"

definition nsd_1001 :: "payload option \<Rightarrow> effect list" where
  "nsd_1001 p = annex_PtvSend H245_PRIMITIVE E_PtvId_Nsd_Req_Cfm 0 0 p None"

definition nsd_1002 :: "payload option \<Rightarrow> effect list" where
  "nsd_1002 p = annex_MsgSend H245_MSG_RPS MSGTYP_NSD_RPS p"

definition nsd_1003 :: "payload option \<Rightarrow> effect list" where
  "nsd_1003 p = annex_PtvSend H245_PRIMITIVE E_PtvId_Nsd_Rps_Cfm 0 0 p None"

definition nsd_1004 :: "payload option \<Rightarrow> effect list" where
  "nsd_1004 p = annex_MsgSend H245_MSG_CMD MSGTYP_NSD_CMD p"

definition nsd_1005 :: "payload option \<Rightarrow> effect list" where
  "nsd_1005 p = annex_PtvSend H245_PRIMITIVE E_PtvId_Nsd_Cmd_Cfm 0 0 p None"

definition nsd_1006 :: "payload option \<Rightarrow> effect list" where
  "nsd_1006 p = annex_MsgSend H245_MSG_IDC MSGTYP_NSD_IDC p"

definition nsd_1007 :: "payload option \<Rightarrow> effect list" where
  "nsd_1007 p = annex_PtvSend H245_PRIMITIVE E_PtvId_Nsd_Idc_Cfm 0 0 p None"

definition cm_1100 :: "payload option \<Rightarrow> effect list" where
  "cm_1100 p = annex_MsgSend H245_MSG_REQ MSGTYP_CM_REQ p"

definition cm_1101 :: "payload option \<Rightarrow> effect list" where
  "cm_1101 p = annex_PtvSend H245_PRIMITIVE E_PtvId_Cm_Req_Cfm 0 0 p None"

definition cm_1102 :: "payload option \<Rightarrow> effect list" where
  "cm_1102 p = annex_MsgSend H245_MSG_RPS MSGTYP_CM_RPS p"

definition cm_1103 :: "payload option \<Rightarrow> effect list" where
  "cm_1103 p = annex_PtvSend H245_PRIMITIVE E_PtvId_Cm_Rps_Cfm 0 0 p None"

definition cm_1104 :: "payload option \<Rightarrow> effect list" where
  "cm_1104 p = annex_MsgSend H245_MSG_CMD MSGTYP_CM_CMD p"

definition cm_1105 :: "payload option \<Rightarrow> effect list" where
  "cm_1105 p = annex_PtvSend H245_PRIMITIVE E_PtvId_Cm_Cmd_Cfm 0 0 p None"

definition cnf_1300 :: "payload option \<Rightarrow> effect list" where
  "cnf_1300 p = annex_MsgSend H245_MSG_REQ MSGTYP_CNF_REQ p"

definition cnf_1301 :: "payload option \<Rightarrow> effect list" where
  "cnf_1301 p = annex_PtvSend H245_PRIMITIVE E_PtvId_Cnf_Req_Cfm 0 0 p None"

definition cnf_1302 :: "payload option \<Rightarrow> effect list" where
  "cnf_1302 p = annex_MsgSend H245_MSG_RPS MSGTYP_CNF_RPS p"

definition cnf_1303 :: "payload option \<Rightarrow> effect list" where
  "cnf_1303 p = annex_PtvSend H245_PRIMITIVE E_PtvId_Cnf_Rps_Cfm 0 0 p None"

definition cmd_1400 :: "payload option \<Rightarrow> effect list" where
  "cmd_1400 p = annex_MsgSend H245_MSG_CMD MSGTYP_CMD_STCS p"

definition cmd_1401 :: "payload option \<Rightarrow> effect list" where
  "cmd_1401 p = annex_PtvSend H245_PRIMITIVE E_PtvId_Cmd_Stcs_Cfm 0 0 p None"

definition cmd_1402 :: "payload option \<Rightarrow> effect list" where
  "cmd_1402 p = annex_MsgSend H245_MSG_CMD MSGTYP_CMD_ECRPT p"

definition cmd_1403 :: "payload option \<Rightarrow> effect list" where
  "cmd_1403 p = annex_PtvSend H245_PRIMITIVE E_PtvId_Cmd_Ecrpt_Cfm 0 0 p None"

definition cmd_1404 :: "payload option \<Rightarrow> effect list" where
  "cmd_1404 p = annex_MsgSend H245_MSG_CMD MSGTYP_CMD_FC p"

definition cmd_1405 :: "payload option \<Rightarrow> u8 list option \<Rightarrow> effect list" where
  "cmd_1405 p encodedMsg = annex_PtvSend H245_PRIMITIVE E_PtvId_Cmd_Fc_Cfm 0 0 p encodedMsg"

definition cmd_1406 :: "payload option \<Rightarrow> effect list" where
  "cmd_1406 p = annex_MsgSend H245_MSG_CMD MSGTYP_CMD_ES p"

definition cmd_1407 :: "payload option \<Rightarrow> effect list" where
  "cmd_1407 p = annex_PtvSend H245_PRIMITIVE E_PtvId_Cmd_Es_Cfm 0 0 p None"

definition cmd_1408 :: "payload option \<Rightarrow> effect list" where
  "cmd_1408 p = annex_MsgSend H245_MSG_CMD MSGTYP_CMD_MSCL p"

definition cmd_1409 :: "payload option \<Rightarrow> u8 list option \<Rightarrow> effect list" where
  "cmd_1409 p encodedMsg = annex_PtvSend H245_PRIMITIVE E_PtvId_Cmd_Mscl_Cfm 0 0 p encodedMsg"

definition cmd_140A :: "payload option \<Rightarrow> effect list" where
  "cmd_140A p = annex_MsgSend H245_MSG_CMD MSGTYP_CMD_CNF p"

definition cmd_140B :: "payload option \<Rightarrow> effect list" where
  "cmd_140B p = annex_PtvSend H245_PRIMITIVE E_PtvId_Cmd_Cnf_Cfm 0 0 p None"

definition cmd_140C :: "payload option \<Rightarrow> effect list" where
  "cmd_140C p = annex_MsgSend H245_MSG_CMD MSGTYP_CMD_HMR p"

definition cmd_140D :: "payload option \<Rightarrow> u8 list option \<Rightarrow> effect list" where
  "cmd_140D p encodedMsg = annex_PtvSend H245_PRIMITIVE E_PtvId_Cmd_Hmr_Cfm 0 0 p encodedMsg"

definition idc_1500 :: "payload option \<Rightarrow> effect list" where
  "idc_1500 p = annex_MsgSend H245_MSG_IDC MSGTYP_IDC_FNU p"

definition idc_1501 :: "payload option \<Rightarrow> effect list" where
  "idc_1501 p = annex_PtvSend H245_PRIMITIVE E_PtvId_Idc_Fnu_Cfm 0 0 p None"

definition idc_1502 :: "payload option \<Rightarrow> effect list" where
  "idc_1502 p = annex_MsgSend H245_MSG_IDC MSGTYP_IDC_MSCL p"

definition idc_1503 :: "payload option \<Rightarrow> effect list" where
  "idc_1503 p = annex_PtvSend H245_PRIMITIVE E_PtvId_Idc_Mscl_Cfm 0 0 p None"

definition idc_1504 :: "payload option \<Rightarrow> effect list" where
  "idc_1504 p = annex_MsgSend H245_MSG_IDC MSGTYP_IDC_JTR p"

definition idc_1505 :: "payload option \<Rightarrow> effect list" where
  "idc_1505 p = annex_PtvSend H245_PRIMITIVE E_PtvId_Idc_Jtr_Cfm 0 0 p None"

definition idc_1506 :: "payload option \<Rightarrow> effect list" where
  "idc_1506 p = annex_MsgSend H245_MSG_IDC MSGTYP_IDC_H223SKW p"

definition idc_1507 :: "payload option \<Rightarrow> effect list" where
  "idc_1507 p = annex_PtvSend H245_PRIMITIVE E_PtvId_Idc_H223skw_Cfm 0 0 p None"

definition idc_1508 :: "payload option \<Rightarrow> effect list" where
  "idc_1508 p = annex_MsgSend H245_MSG_IDC MSGTYP_IDC_NWATMVC p"

definition idc_1509 :: "payload option \<Rightarrow> effect list" where
  "idc_1509 p = annex_PtvSend H245_PRIMITIVE E_PtvId_Idc_Nwatmvc_Cfm 0 0 p None"

definition idc_150A :: "payload option \<Rightarrow> effect list" where
  "idc_150A p = annex_MsgSend H245_MSG_IDC MSGTYP_IDC_UI p"

definition idc_150B :: "payload option \<Rightarrow> effect list" where
  "idc_150B p = annex_PtvSend H245_PRIMITIVE E_PtvId_Idc_Ui_Cfm 0 0 p None"

definition idc_150C :: "payload option \<Rightarrow> effect list" where
  "idc_150C p = annex_MsgSend H245_MSG_IDC MSGTYP_IDC_CNF p"

definition idc_150D :: "payload option \<Rightarrow> effect list" where
  "idc_150D p = annex_PtvSend H245_PRIMITIVE E_PtvId_Idc_Cnf_Cfm 0 0 p None"

definition idc_150E :: "payload option \<Rightarrow> effect list" where
  "idc_150E p = annex_MsgSend H245_MSG_IDC MSGTYP_IDC_H2250MXSKW p"

definition idc_150F :: "payload option \<Rightarrow> effect list" where
  "idc_150F p = annex_PtvSend H245_PRIMITIVE E_PtvId_Idc_H2250mxskw_Cfm 0 0 p None"

definition idc_1510 :: "payload option \<Rightarrow> effect list" where
  "idc_1510 p = annex_MsgSend H245_MSG_IDC MSGTYP_IDC_MCLCT p"

definition idc_1511 :: "payload option \<Rightarrow> effect list" where
  "idc_1511 p = annex_PtvSend H245_PRIMITIVE E_PtvId_Idc_Mclct_Cfm 0 0 p None"

definition idc_1512 :: "payload option \<Rightarrow> effect list" where
  "idc_1512 p = annex_MsgSend H245_MSG_IDC MSGTYP_IDC_VI p"

definition idc_1513 :: "payload option \<Rightarrow> effect list" where
  "idc_1513 p = annex_PtvSend H245_PRIMITIVE E_PtvId_Idc_Vi_Cfm 0 0 p None"

definition idc_1514 :: "payload option \<Rightarrow> effect list" where
  "idc_1514 p = annex_MsgSend H245_MSG_IDC MSGTYP_IDC_FNS p"

definition idc_1515 :: "payload option \<Rightarrow> effect list" where
  "idc_1515 p = annex_PtvSend H245_PRIMITIVE E_PtvId_Idc_Fns_Cfm 0 0 p None"

definition idc_1516 :: "payload option \<Rightarrow> effect list" where
  "idc_1516 p = annex_MsgSend H245_MSG_IDC MSGTYP_IDC_FC p"

definition idc_1517 :: "payload option \<Rightarrow> effect list" where
  "idc_1517 p = annex_PtvSend H245_PRIMITIVE E_PtvId_Idc_Fc_Cfm 0 0 p None"

lemmas annex_handlers =
  nsd_1000_def nsd_1001_def nsd_1002_def nsd_1003_def nsd_1004_def nsd_1005_def nsd_1006_def
  nsd_1007_def cm_1100_def cm_1101_def cm_1102_def cm_1103_def cm_1104_def cm_1105_def
  cnf_1300_def cnf_1301_def cnf_1302_def cnf_1303_def cmd_1400_def cmd_1401_def cmd_1402_def
  cmd_1403_def cmd_1404_def cmd_1405_def cmd_1406_def cmd_1407_def cmd_1408_def cmd_1409_def
  cmd_140A_def cmd_140B_def cmd_140C_def cmd_140D_def idc_1500_def idc_1501_def idc_1502_def
  idc_1503_def idc_1504_def idc_1505_def idc_1506_def idc_1507_def idc_1508_def idc_1509_def
  idc_150A_def idc_150B_def idc_150C_def idc_150D_def idc_150E_def idc_150F_def idc_1510_def
  idc_1511_def idc_1512_def idc_1513_def idc_1514_def idc_1515_def idc_1516_def idc_1517_def annex_MsgSend_def
  annex_PtvSend_def

end
