(* ===== verification/SeState.thy ===== *)
theory SeState
  imports SeEvents MsdProtocol Ce Lc Blc Clc Mt Rme Mr Rtd Ml Annex
begin

text \<open>
  The state of the signalling entity (\<^verbatim>\<open>se/include/se.h\<close>, class \<^verbatim>\<open>SE\<close>) and the way the
  calls of a handler act on it (\<^verbatim>\<open>se/src/sebase.cpp\<close>): timer calls go to \<^verbatim>\<open>MyTimer\<close>, a
  message goes to the encoder if there is one, a primitive to the H.245 object if there is
  one. What leaves the entity is appended to \<open>Output\<close>; \<open>Clock\<close> is the time in milliseconds
  and is set by the environment.
\<close>

section \<open>State\<close>

record timer_durations = \<comment> \<open>\<^verbatim>\<open>TimerDuration\<close> of the procedures\<close>
  dT101 :: u32 \<comment> \<open>CE\<close>
  dT102 :: u32 \<comment> \<open>ML\<close>
  dT103 :: u32 \<comment> \<open>LC and BLC\<close>
  dT105 :: u32 \<comment> \<open>RTD\<close>
  dT106 :: u32 \<comment> \<open>MSD\<close>
  dT107 :: u32 \<comment> \<open>RME\<close>
  dT108 :: u32 \<comment> \<open>CLC\<close>
  dT109 :: u32 \<comment> \<open>MR\<close>

definition TIMER_DURATION :: u32 where "TIMER_DURATION = 30"

record se =
  hasPER :: bool
  hasH245 :: bool
  MyTimer :: "timer_observer timer"
  MyMSD :: msd
  MyCE :: ce
  MyMT :: mt
  MyRTD :: rtd
  MyMR :: mr
  MyRME :: rme
  MyML :: ml
  LCBLCOutgoing :: lc_entry_list
  LCBLCIncoming :: lc_entry_list
  Durations :: timer_durations
  Clock :: u32
  Output :: "effect list"

text \<open>The constructor: every procedure in its initial state, the lists of channels empty. The
  cancels of the constructors of the parts happen before \<^verbatim>\<open>MySE\<close> is set and do nothing.\<close>

definition new_SE :: "(nat \<Rightarrow> u32) \<Rightarrow> u32 \<Rightarrow> se" where
  "new_SE rnd tickCountPeriod =
     \<lparr> hasPER = False, hasH245 = False,
       MyTimer = new_timer (Some ObsSE) 1 tickCountPeriod,
       MyMSD = new_MSD rnd, MyCE = new_CE, MyMT = new_MT tickCountPeriod, MyRTD = new_RTD,
       MyMR = new_MR, MyRME = new_RME, MyML = new_ML False,
       LCBLCOutgoing = \<lparr> Direction = LC_OUTGOING, EntryList = [] \<rparr>,
       LCBLCIncoming = \<lparr> Direction = LC_INCOMING, EntryList = [] \<rparr>,
       Durations = \<lparr> dT101 = TIMER_DURATION, dT102 = TIMER_DURATION, dT103 = TIMER_DURATION,
                     dT105 = TIMER_DURATION, dT106 = TIMER_DURATION, dT107 = TIMER_DURATION,
                     dT108 = TIMER_DURATION, dT109 = TIMER_DURATION \<rparr>,
       Clock = 0, Output = [] \<rparr>"

definition SetPer :: "bool \<Rightarrow> se \<Rightarrow> se" where
  "SetPer per s = s\<lparr>hasPER := per\<rparr>"

definition SetH245 :: "bool \<Rightarrow> se \<Rightarrow> se" where
  "SetH245 h245 s = s\<lparr>hasH245 := h245\<rparr>"

text \<open>\<^verbatim>\<open>SetTimers\<close> sets all durations but that of ML; T104 of MT is a constant of its own.\<close>

definition SetTimers :: "timer_durations \<Rightarrow> se \<Rightarrow> se" where
  "SetTimers d s = s\<lparr>Durations := d\<lparr>dT102 := dT102 (Durations s)\<rparr>\<rparr>"

section \<open>The calls of a handler\<close>

fun perform :: "effect \<Rightarrow> se \<Rightarrow> se" where
  "perform (MessageSend m) s =
     (if hasPER s then s\<lparr>Output := Output s @ [MessageSend m]\<rparr> else s)"
| "perform (PrimitiveSend h) s =
     (if hasH245 s then s\<lparr>Output := Output s @ [PrimitiveSend h]\<rparr> else s)"
| "perform (RequestTimer i n c obs) s =
     s\<lparr>MyTimer := timer_Request i n (sint c) obs False (MyTimer s)\<rparr>"
| "perform (CancelTimer i) s = s\<lparr>MyTimer := timer_Cancel i (-1) (MyTimer s)\<rparr>"
| "perform e s = s\<lparr>Output := Output s @ [e]\<rparr>"

definition performs :: "effect list \<Rightarrow> se \<Rightarrow> se" where
  "performs es s = fold perform es s"

definition ItnErrNotificationSend :: "u32 \<Rightarrow> u32 \<Rightarrow> effect" where
  "ItnErrNotificationSend error_Inf_1 error_Inf_2 =
     PrimitiveSend
       \<lparr> InfType = H245_ERROR, InfId = H245_INTERNAL_ERROR_SE, InfSupplement1 = error_Inf_1,
         InfSupplement2 = error_Inf_2, pParameter = None, Dir = None, EncodedMsg = None \<rparr>"

abbreviation ITN_ERR_CODE_0000 :: u32 where "ITN_ERR_CODE_0000 \<equiv> 0"
abbreviation ITN_ERR_CODE_0001 :: u32 where "ITN_ERR_CODE_0001 \<equiv> 1"
abbreviation ITN_ERR_CODE_0002 :: u32 where "ITN_ERR_CODE_0002 \<equiv> 2"

lemma performs_simps [simp]:
  "performs [] s = s"
  "performs (e # es) s = performs es (perform e s)"
  by (simp_all add: performs_def)

lemma performs_append: "performs (xs @ ys) s = performs ys (performs xs s)"
  by (simp add: performs_def)

text \<open>The calls touch the timer and the output only.\<close>

lemma perform_frame:
  "MyMSD (perform e s) = MyMSD s" "MyCE (perform e s) = MyCE s" "MyMT (perform e s) = MyMT s"
  "MyRTD (perform e s) = MyRTD s" "MyMR (perform e s) = MyMR s" "MyRME (perform e s) = MyRME s"
  "MyML (perform e s) = MyML s" "LCBLCOutgoing (perform e s) = LCBLCOutgoing s"
  "LCBLCIncoming (perform e s) = LCBLCIncoming s" "Durations (perform e s) = Durations s"
  "hasPER (perform e s) = hasPER s" "hasH245 (perform e s) = hasH245 s" "Clock (perform e s) = Clock s"
  by (cases e; simp)+

lemma performs_frame [simp]:
  "MyMSD (performs es s) = MyMSD s" "MyCE (performs es s) = MyCE s" "MyMT (performs es s) = MyMT s"
  "MyRTD (performs es s) = MyRTD s" "MyMR (performs es s) = MyMR s" "MyRME (performs es s) = MyRME s"
  "MyML (performs es s) = MyML s" "LCBLCOutgoing (performs es s) = LCBLCOutgoing s"
  "LCBLCIncoming (performs es s) = LCBLCIncoming s" "Durations (performs es s) = Durations s"
  "hasPER (performs es s) = hasPER s" "hasH245 (performs es s) = hasH245 s"
  "Clock (performs es s) = Clock s"
  by (induction es arbitrary: s) (simp_all add: perform_frame)

text \<open>During a callback the timer keeps its entries and its mark, whatever is requested.\<close>

lemma perform_timer:
  assumes "iInCallback (MyTimer s)"
  shows "iEntries (MyTimer (perform e s)) = iEntries (MyTimer s)"
    and "iInCallback (MyTimer (perform e s))"
  using assms by (cases e; simp add: timer_ops_in_callback)+

lemma performs_timer:
  assumes "iInCallback (MyTimer s)"
  shows "iEntries (MyTimer (performs es s)) = iEntries (MyTimer s)"
    and "iInCallback (MyTimer (performs es s))"
  using assms by (induction es arbitrary: s) (simp_all add: perform_timer)

text \<open>Outside a callback the numbers of the running timers with an id change as \<open>pending\<close>
  says.\<close>

lemma perform_numbers:
  assumes "\<not> iInCallback (MyTimer s)"
  shows "timer_numbers tid (MyTimer (perform e s)) = pending tid (timer_numbers tid (MyTimer s)) [e]"
    and "\<not> iInCallback (MyTimer (perform e s))"
  using assms by (cases e; simp add: timer_numbers_Request timer_numbers_Cancel)+

lemma performs_numbers:
  assumes "\<not> iInCallback (MyTimer s)"
  shows "timer_numbers tid (MyTimer (performs es s)) = pending tid (timer_numbers tid (MyTimer s)) es"
    and "\<not> iInCallback (MyTimer (performs es s))"
proof -
  have "timer_numbers tid (MyTimer (performs es s)) = pending tid (timer_numbers tid (MyTimer s)) es
      \<and> \<not> iInCallback (MyTimer (performs es s))"
    using assms
  proof (induction es arbitrary: s)
    case Nil
    then show ?case by simp
  next
    case (Cons e es)
    from Cons.IH [OF perform_numbers(2) [OF Cons.prems]] perform_numbers(1) [OF Cons.prems]
      pending_append [of tid "timer_numbers tid (MyTimer s)" "[e]" es]
    show ?case by simp
  qed
  then show "timer_numbers tid (MyTimer (performs es s)) = pending tid (timer_numbers tid (MyTimer s)) es"
    and "\<not> iInCallback (MyTimer (performs es s))" by blast+
qed

section \<open>Channel lists\<close>

definition channels :: "lc_direction \<Rightarrow> se \<Rightarrow> lc_entry_list" where
  "channels d s = (case d of LC_OUTGOING \<Rightarrow> LCBLCOutgoing s | LC_INCOMING \<Rightarrow> LCBLCIncoming s)"

definition set_channels :: "lc_direction \<Rightarrow> lc_entry_list \<Rightarrow> se \<Rightarrow> se" where
  "set_channels d l s =
     (case d of LC_OUTGOING \<Rightarrow> s\<lparr>LCBLCOutgoing := l\<rparr> | LC_INCOMING \<Rightarrow> s\<lparr>LCBLCIncoming := l\<rparr>)"

text \<open>Running a handler on one entry.\<close>

definition on_entry ::
  "lc_direction \<Rightarrow> nat \<Rightarrow> (lc_entry \<Rightarrow> (lc_entry \<times> effect list) res) \<Rightarrow> se \<Rightarrow> se res" where
  "on_entry d i f s =
     bind_res (f (entry_at i (channels d s)))
       (\<lambda>(e, es). Inr (performs es (set_channels d (write_entry i e (channels d s)) s)))"

text \<open>The pattern of all channel events but the two that open a channel: look the entry up and
  report an internal error if there is none.\<close>

definition with_entry ::
  "lc_direction \<Rightarrow> u32 \<Rightarrow> (lc_entry \<Rightarrow> (lc_entry \<times> effect list) res) \<Rightarrow> se \<Rightarrow> se res" where
  "with_entry d lcn f s =
     (case GetLCEntry lcn (channels d s) of
        None \<Rightarrow> Inr (performs [ItnErrNotificationSend ITN_ERR_CODE_0002 EVENT_LCSE] s)
      | Some i \<Rightarrow> on_entry d i f s)"

definition with_new_entry ::
  "lc_direction \<Rightarrow> u32 \<Rightarrow> (lc_entry \<Rightarrow> (lc_entry \<times> effect list) res) \<Rightarrow> se \<Rightarrow> se res" where
  "with_new_entry d lcn f s =
     (case GetLCEntry lcn (channels d s) of
        None \<Rightarrow> (let (i, l) = NewLCEntry lcn (channels d s) in on_entry d i f (set_channels d l s))
      | Some i \<Rightarrow> on_entry d i f s)"

lemma channels_set [simp]:
  "channels d (set_channels d l s) = l"
  "d \<noteq> d' \<Longrightarrow> channels d (set_channels d' l s) = channels d s"
  by (cases d; cases d'; simp add: channels_def set_channels_def)+

lemma channels_performs [simp]: "channels d (performs es s) = channels d s"
  by (cases d) (simp_all add: channels_def)

lemma set_channels_frame [simp]:
  "MyMSD (set_channels d l s) = MyMSD s" "MyCE (set_channels d l s) = MyCE s"
  "MyMT (set_channels d l s) = MyMT s" "MyRTD (set_channels d l s) = MyRTD s"
  "MyMR (set_channels d l s) = MyMR s" "MyRME (set_channels d l s) = MyRME s"
  "MyML (set_channels d l s) = MyML s" "MyTimer (set_channels d l s) = MyTimer s"
  "Durations (set_channels d l s) = Durations s" "hasPER (set_channels d l s) = hasPER s"
  "hasH245 (set_channels d l s) = hasH245 s" "Clock (set_channels d l s) = Clock s"
  "Output (set_channels d l s) = Output s"
  by (cases d; simp add: set_channels_def)+

end
