(* ===== verification/LcDispatch.thy ===== *)
theory LcDispatch
  imports SeState
begin

text \<open>
  The part of \<^verbatim>\<open>SE::Dispatch\<close> (\<^verbatim>\<open>se/src/se.cpp\<close>) that serves the logical channel
  procedures: for each event the two switches over the state of the entry, one for
  unidirectional and one for bidirectional channels, and for CLC the switch over the close
  state. The block of the event is read where the source reads it: in the selection of the
  entry, and by the handler that is selected.
\<close>

section \<open>Reports of the dispatcher\<close>

text \<open>The second word of the report is the bitwise AND of an event number and the state.\<close>

definition itn_err :: "u32 \<Rightarrow> lc_entry \<Rightarrow> (lc_entry \<times> effect list) res" where
  "itn_err event e =
     Inr (e, [ItnErrNotificationSend ITN_ERR_CODE_0002 (event AND ucast (status_code (Status e)))])"

definition Nop_XXXX_XXXX :: "lc_entry \<Rightarrow> (lc_entry \<times> effect list) res" where
  "Nop_XXXX_XXXX e = Inr (e, [])"

text \<open>A handler that reads the block as the given structure.\<close>

definition with_param ::
  "(payload \<Rightarrow> 'a option) \<Rightarrow> payload option \<Rightarrow> ('a \<Rightarrow> lc_entry \<Rightarrow> lc_entry \<times> effect list)
    \<Rightarrow> lc_entry \<Rightarrow> (lc_entry \<times> effect list) res" where
  "with_param sel p h e = bind_res (deref sel p) (\<lambda>x. Inr (h x e))"

section \<open>LC and BLC\<close>

definition entry_ETB_REQ :: "u32 \<Rightarrow> payload option \<Rightarrow> lc_entry \<Rightarrow> (lc_entry \<times> effect list) res" where
  "entry_ETB_REQ dur p e0 =
     bind_res
       (if Directional e0 = NO_DIRECTIONAL then
          bind_res (deref to_ForwardReverseParam p)
            (\<lambda>frp. Inr (DirectionalWrite
               (if frp_option_of_reverse frp = 0 then UNI_DIRECTIONAL else BI_DIRECTIONAL) e0))
        else Inr e0)
       (\<lambda>e. if Directional e = UNI_DIRECTIONAL then
              (case Status e of
                 LCBLC_OUTGOING_RLSED \<Rightarrow> with_param to_ForwardReverseParam p (lc_0200_0000 dur) e
               | LCBLC_OUTGOING_AWTING_ETBMNT \<Rightarrow> itn_err EVENT_LCSE e
               | LCBLC_OUTGOING_ETBED \<Rightarrow> itn_err EVENT_LCSE e
               | LCBLC_OUTGOING_AWTING_RLS \<Rightarrow> with_param to_ForwardReverseParam p (lc_0200_0030 dur) e
               | LCBLC_INCOMING_RLSED \<Rightarrow> with_param to_ForwardReverseParam p (lc_0200_0000 dur) e
               | LCBLC_INCOMING_AWTING_ETBMNT \<Rightarrow> itn_err EVENT_LCSE e
               | LCBLC_INCOMING_AWTING_CNFMTN \<Rightarrow> itn_err EVENT_LCSE e
               | LCBLC_INCOMING_ETBED \<Rightarrow> itn_err EVENT_LCSE e)
            else
              (case Status e of
                 LCBLC_OUTGOING_RLSED \<Rightarrow> with_param to_ForwardReverseParam p (blc_0300_0000 dur) e
               | LCBLC_OUTGOING_AWTING_ETBMNT \<Rightarrow> itn_err EVENT_BLCSE e
               | LCBLC_OUTGOING_ETBED \<Rightarrow> itn_err EVENT_BLCSE e
               | LCBLC_OUTGOING_AWTING_RLS \<Rightarrow> with_param to_ForwardReverseParam p (blc_0300_0030 dur) e
               | LCBLC_INCOMING_RLSED \<Rightarrow> with_param to_ForwardReverseParam p (blc_0300_0000 dur) e
               | LCBLC_INCOMING_AWTING_ETBMNT \<Rightarrow> itn_err EVENT_BLCSE e
               | LCBLC_INCOMING_AWTING_CNFMTN \<Rightarrow> itn_err EVENT_BLCSE e
               | LCBLC_INCOMING_ETBED \<Rightarrow> itn_err EVENT_BLCSE e))"

definition entry_OP :: "msd_status \<Rightarrow> payload option \<Rightarrow> lc_entry \<Rightarrow> (lc_entry \<times> effect list) res" where
  "entry_OP mst p e0 =
     bind_res
       (if Directional e0 = NO_DIRECTIONAL then
          bind_res (deref to_OpenLogicalChannel p)
            (\<lambda>olc. Inr (DirectionalWrite
               (if olc_option_of_reverse olc then BI_DIRECTIONAL else UNI_DIRECTIONAL) e0))
        else Inr e0)
       (\<lambda>e. if Directional e = UNI_DIRECTIONAL then
              (case Status e of
                 LCBLC_OUTGOING_RLSED \<Rightarrow> with_param to_OpenLogicalChannel p lc_0201_0001 e
               | LCBLC_OUTGOING_AWTING_ETBMNT \<Rightarrow>
                   with_param to_OpenLogicalChannel p (lc_0201_0010 mst) e
               | LCBLC_OUTGOING_ETBED \<Rightarrow> itn_err EVENT_LCSE e
               | LCBLC_OUTGOING_AWTING_RLS \<Rightarrow> itn_err EVENT_LCSE e
               | LCBLC_INCOMING_RLSED \<Rightarrow> with_param to_OpenLogicalChannel p lc_0201_0001 e
               | LCBLC_INCOMING_AWTING_ETBMNT \<Rightarrow> with_param to_OpenLogicalChannel p lc_0201_0011 e
               | LCBLC_INCOMING_AWTING_CNFMTN \<Rightarrow> itn_err EVENT_LCSE e
               | LCBLC_INCOMING_ETBED \<Rightarrow> with_param to_OpenLogicalChannel p lc_0201_0011 e)
            else
              (case Status e of
                 LCBLC_OUTGOING_RLSED \<Rightarrow> with_param to_OpenLogicalChannel p blc_0301_0001 e
               | LCBLC_OUTGOING_AWTING_ETBMNT \<Rightarrow>
                   with_param to_OpenLogicalChannel p (blc_0301_0010 mst) e
               | LCBLC_OUTGOING_ETBED \<Rightarrow> itn_err (event_no (EVENT_LCBLCSE EVENT_MSG_LCBLC_OP)) e
               | LCBLC_OUTGOING_AWTING_RLS \<Rightarrow> itn_err (event_no (EVENT_LCBLCSE EVENT_MSG_LCBLC_OP)) e
               | LCBLC_INCOMING_RLSED \<Rightarrow> with_param to_OpenLogicalChannel p blc_0301_0001 e
               | LCBLC_INCOMING_AWTING_ETBMNT \<Rightarrow> with_param to_OpenLogicalChannel p blc_0301_0011 e
               | LCBLC_INCOMING_AWTING_CNFMTN \<Rightarrow> with_param to_OpenLogicalChannel p blc_0301_0021 e
               | LCBLC_INCOMING_ETBED \<Rightarrow> with_param to_OpenLogicalChannel p blc_0301_0011 e))"

definition entry_ETB_RPS ::
  "u32 \<Rightarrow> payload option \<Rightarrow> u32 \<Rightarrow> lc_entry \<Rightarrow> (lc_entry \<times> effect list) res" where
  "entry_ETB_RPS dur p supplement_2 e =
     (if Directional e = UNI_DIRECTIONAL then
        (if Status e = LCBLC_INCOMING_AWTING_ETBMNT
         then with_param to_ReverseData p lc_0202_0011 e
         else itn_err EVENT_LCSE e)
      else
        (if Status e = LCBLC_INCOMING_AWTING_ETBMNT
         then with_param to_ReverseData p (\<lambda>rd. blc_0302_0011 dur rd (ucast supplement_2)) e
         else itn_err EVENT_BLCSE e))"

definition entry_RLS_REQ :: "u32 \<Rightarrow> payload option \<Rightarrow> lc_entry \<Rightarrow> (lc_entry \<times> effect list) res" where
  "entry_RLS_REQ dur p e =
     (if Directional e = UNI_DIRECTIONAL then
        (case Status e of
           LCBLC_OUTGOING_RLSED \<Rightarrow> itn_err EVENT_LCSE e
         | LCBLC_OUTGOING_AWTING_ETBMNT \<Rightarrow> Inr (lc_0203_0010 dur e)
         | LCBLC_OUTGOING_ETBED \<Rightarrow> Inr (lc_0203_0020 dur e)
         | LCBLC_OUTGOING_AWTING_RLS \<Rightarrow> itn_err EVENT_LCSE e
         | LCBLC_INCOMING_RLSED \<Rightarrow> itn_err EVENT_LCSE e
         | LCBLC_INCOMING_AWTING_ETBMNT \<Rightarrow> with_param to_OlcRejectCause p lc_0203_0011 e
         | LCBLC_INCOMING_AWTING_CNFMTN \<Rightarrow> itn_err EVENT_LCSE e
         | LCBLC_INCOMING_ETBED \<Rightarrow> itn_err EVENT_LCSE e)
      else
        (case Status e of
           LCBLC_OUTGOING_RLSED \<Rightarrow> itn_err EVENT_BLCSE e
         | LCBLC_OUTGOING_AWTING_ETBMNT \<Rightarrow> Inr (blc_0303_0010 dur e)
         | LCBLC_OUTGOING_ETBED \<Rightarrow> Inr (blc_0303_0020 dur e)
         | LCBLC_OUTGOING_AWTING_RLS \<Rightarrow> itn_err EVENT_BLCSE e
         | LCBLC_INCOMING_RLSED \<Rightarrow> itn_err EVENT_BLCSE e
         | LCBLC_INCOMING_AWTING_ETBMNT \<Rightarrow> with_param to_OlcRejectCause p blc_0303_0011 e
         | LCBLC_INCOMING_AWTING_CNFMTN \<Rightarrow> itn_err EVENT_BLCSE e
         | LCBLC_INCOMING_ETBED \<Rightarrow> itn_err EVENT_BLCSE e))"

definition entry_OP_ACK :: "payload option \<Rightarrow> lc_entry \<Rightarrow> (lc_entry \<times> effect list) res" where
  "entry_OP_ACK p e =
     (if Directional e = UNI_DIRECTIONAL then
        (case Status e of
           LCBLC_OUTGOING_RLSED \<Rightarrow> Inr (lc_0204_0000 e)
         | LCBLC_OUTGOING_AWTING_ETBMNT \<Rightarrow> with_param to_OpenLogicalChannelAck p lc_0204_0010 e
         | LCBLC_OUTGOING_ETBED \<Rightarrow> Nop_XXXX_XXXX e
         | LCBLC_OUTGOING_AWTING_RLS \<Rightarrow> Nop_XXXX_XXXX e
         | _ \<Rightarrow> itn_err EVENT_LCSE e)
      else
        (case Status e of
           LCBLC_OUTGOING_RLSED \<Rightarrow> Inr (blc_0304_0000 e)
         | LCBLC_OUTGOING_AWTING_ETBMNT \<Rightarrow> with_param to_OpenLogicalChannelAck p blc_0304_0010 e
         | LCBLC_OUTGOING_ETBED \<Rightarrow> Nop_XXXX_XXXX e
         | LCBLC_OUTGOING_AWTING_RLS \<Rightarrow> Nop_XXXX_XXXX e
         | _ \<Rightarrow> itn_err EVENT_BLCSE e))"

definition entry_OP_CFM :: "lc_entry \<Rightarrow> (lc_entry \<times> effect list) res" where
  "entry_OP_CFM e =
     (if Directional e = UNI_DIRECTIONAL then itn_err EVENT_LCSE e
      else
        (case Status e of
           LCBLC_INCOMING_RLSED \<Rightarrow> Nop_XXXX_XXXX e
         | LCBLC_INCOMING_AWTING_ETBMNT \<Rightarrow> Inr (blc_0305_0011 e)
         | LCBLC_INCOMING_AWTING_CNFMTN \<Rightarrow> Inr (blc_0305_0021 e)
         | LCBLC_INCOMING_ETBED \<Rightarrow> Nop_XXXX_XXXX e
         | _ \<Rightarrow> itn_err EVENT_BLCSE e))"

definition entry_OP_RJT :: "payload option \<Rightarrow> lc_entry \<Rightarrow> (lc_entry \<times> effect list) res" where
  "entry_OP_RJT p e =
     (if Directional e = UNI_DIRECTIONAL then
        (case Status e of
           LCBLC_OUTGOING_RLSED \<Rightarrow> Inr (lc_0206_0000 e)
         | LCBLC_OUTGOING_AWTING_ETBMNT \<Rightarrow> with_param to_OpenLogicalChannelReject p lc_0206_0010 e
         | LCBLC_OUTGOING_ETBED \<Rightarrow> with_param to_OpenLogicalChannelReject p lc_0206_0020 e
         | LCBLC_OUTGOING_AWTING_RLS \<Rightarrow> Inr (lc_0206_0030 e)
         | _ \<Rightarrow> itn_err EVENT_LCSE e)
      else
        (case Status e of
           LCBLC_OUTGOING_RLSED \<Rightarrow> Inr (blc_0306_0000 e)
         | LCBLC_OUTGOING_AWTING_ETBMNT \<Rightarrow> with_param to_OpenLogicalChannelReject p blc_0306_0010 e
         | LCBLC_OUTGOING_ETBED \<Rightarrow> with_param to_OpenLogicalChannelReject p blc_0306_0020 e
         | LCBLC_OUTGOING_AWTING_RLS \<Rightarrow> Inr (blc_0306_0030 e)
         | _ \<Rightarrow> itn_err EVENT_BLCSE e))"

definition entry_T103 :: "s32 \<Rightarrow> lc_entry \<Rightarrow> (lc_entry \<times> effect list) res" where
  "entry_T103 supplement_1 e =
     (if Directional e = UNI_DIRECTIONAL then
        (case Status e of
           LCBLC_OUTGOING_AWTING_ETBMNT \<Rightarrow> Inr (lc_0207_0010 supplement_1 e)
         | LCBLC_OUTGOING_AWTING_RLS \<Rightarrow> Inr (lc_0207_0030 supplement_1 e)
         | _ \<Rightarrow> Nop_XXXX_XXXX e)
      else
        (case Status e of
           LCBLC_OUTGOING_AWTING_ETBMNT \<Rightarrow> Inr (blc_0307_0010 supplement_1 e)
         | LCBLC_OUTGOING_AWTING_RLS \<Rightarrow> Inr (blc_0307_0030 supplement_1 e)
         | LCBLC_INCOMING_AWTING_CNFMTN \<Rightarrow> Inr (blc_0307_0021 supplement_1 e)
         | _ \<Rightarrow> Nop_XXXX_XXXX e))"

definition entry_CL :: "payload option \<Rightarrow> lc_entry \<Rightarrow> (lc_entry \<times> effect list) res" where
  "entry_CL p e =
     (if Directional e = UNI_DIRECTIONAL then
        (case Status e of
           LCBLC_INCOMING_RLSED \<Rightarrow> Inr (lc_0208_0001 e)
         | LCBLC_INCOMING_AWTING_ETBMNT \<Rightarrow> with_param to_CloseLogicalChannel p lc_0208_0011 e
         | LCBLC_INCOMING_ETBED \<Rightarrow> with_param to_CloseLogicalChannel p lc_0208_0011 e
         | _ \<Rightarrow> itn_err EVENT_LCSE e)
      else
        (case Status e of
           LCBLC_INCOMING_RLSED \<Rightarrow> Inr (blc_0308_0001 e)
         | LCBLC_INCOMING_AWTING_ETBMNT \<Rightarrow> with_param to_CloseLogicalChannel p blc_0308_0011 e
         | LCBLC_INCOMING_AWTING_CNFMTN \<Rightarrow> with_param to_CloseLogicalChannel p blc_0308_0021 e
         | LCBLC_INCOMING_ETBED \<Rightarrow> with_param to_CloseLogicalChannel p blc_0308_0011 e
         | _ \<Rightarrow> itn_err EVENT_BLCSE e))"

definition entry_CL_ACK :: "lc_entry \<Rightarrow> (lc_entry \<times> effect list) res" where
  "entry_CL_ACK e =
     (if Directional e = UNI_DIRECTIONAL then
        (case Status e of
           LCBLC_OUTGOING_RLSED \<Rightarrow> Nop_XXXX_XXXX e
         | LCBLC_OUTGOING_AWTING_ETBMNT \<Rightarrow> Nop_XXXX_XXXX e
         | LCBLC_OUTGOING_ETBED \<Rightarrow> Inr (lc_0209_0020 e)
         | LCBLC_OUTGOING_AWTING_RLS \<Rightarrow> Inr (lc_0209_0030 e)
         | _ \<Rightarrow> itn_err EVENT_LCSE e)
      else
        (case Status e of
           LCBLC_OUTGOING_RLSED \<Rightarrow> Nop_XXXX_XXXX e
         | LCBLC_OUTGOING_AWTING_ETBMNT \<Rightarrow> Nop_XXXX_XXXX e
         | LCBLC_OUTGOING_ETBED \<Rightarrow> Inr (blc_0309_0020 e)
         | LCBLC_OUTGOING_AWTING_RLS \<Rightarrow> Inr (blc_0309_0030 e)
         | _ \<Rightarrow> itn_err EVENT_BLCSE e))"

definition Dispatch_LCBLCSE ::
  "lcblcse_event \<Rightarrow> payload option \<Rightarrow> u32 \<Rightarrow> u32 \<Rightarrow> se \<Rightarrow> se res" where
  "Dispatch_LCBLCSE ev p supplement_1 supplement_2 s =
     (let dur = dT103 (Durations s) in
      case ev of
        EVENT_PTV_LCBLC_ETB_REQ \<Rightarrow> with_new_entry LC_OUTGOING supplement_1 (entry_ETB_REQ dur p) s
      | EVENT_MSG_LCBLC_OP \<Rightarrow>
          bind_res (deref to_OpenLogicalChannel p)
            (\<lambda>olc. with_new_entry LC_INCOMING (ucast (olc_forwardLogicalChannelNumber olc))
                     (entry_OP (msdStatus (MyMSD s)) p) s)
      | EVENT_PTV_LCBLC_ETB_RPS \<Rightarrow>
          with_entry LC_INCOMING supplement_1 (entry_ETB_RPS dur p supplement_2) s
      | EVENT_PTV_LCBLC_RLS_REQ \<Rightarrow>
          with_entry (if p \<noteq> None then LC_INCOMING else LC_OUTGOING) supplement_1 (entry_RLS_REQ dur p) s
      | EVENT_MSG_LCBLC_OP_ACK \<Rightarrow>
          bind_res (deref to_OpenLogicalChannelAck p)
            (\<lambda>ola. with_entry LC_OUTGOING (ucast (ola_forwardLogicalChannelNumber ola)) (entry_OP_ACK p) s)
      | EVENT_MSG_LCBLC_OP_CFM \<Rightarrow>
          bind_res (deref to_OpenLogicalChannelConfirm p)
            (\<lambda>lcn. with_entry LC_INCOMING (ucast lcn) entry_OP_CFM s)
      | EVENT_MSG_LCBLC_OP_RJT \<Rightarrow>
          bind_res (deref to_OpenLogicalChannelReject p)
            (\<lambda>olr. with_entry LC_OUTGOING (ucast (olr_forwardLogicalChannelNumber olr)) (entry_OP_RJT p) s)
      | EVENT_TIM_LCBLC_T103 \<Rightarrow> with_entry LC_OUTGOING supplement_2 (entry_T103 supplement_1) s
      | EVENT_MSG_LCBLC_CL \<Rightarrow>
          bind_res (deref to_CloseLogicalChannel p)
            (\<lambda>cl. with_entry LC_INCOMING (ucast (cl_forwardLogicalChannelNumber cl)) (entry_CL p) s)
      | EVENT_MSG_LCBLC_CL_ACK \<Rightarrow>
          bind_res (deref to_CloseLogicalChannelAck p)
            (\<lambda>lcn. with_entry LC_OUTGOING (ucast lcn) entry_CL_ACK s))"

section \<open>CLC\<close>

text \<open>The one state in which each event has a handler; in the others nothing happens.\<close>

definition when_cls ::
  "cls_status \<Rightarrow> (lc_entry \<Rightarrow> (lc_entry \<times> effect list) res) \<Rightarrow> lc_entry \<Rightarrow> (lc_entry \<times> effect list) res" where
  "when_cls status f e = (if ClcStatus e = status then f e else Inr (e, []))"

definition entry_CLC :: "lc_entry \<Rightarrow> (lc_entry \<times> effect list) res" where
  "entry_CLC e =
     (case ClcStatus e of
        CLS_OUTGOING_IDLE \<Rightarrow> Inr (e, [])
      | CLS_OUTGOING_AWTING_RPS \<Rightarrow> Inr (e, [])
      | CLS_INCOMING_IDLE \<Rightarrow> Inr (clc_0401_0001 e)
      | CLS_INCOMING_AWTING_RPS \<Rightarrow> Inr (clc_0401_0011 e))"

definition Dispatch_CLCSE ::
  "clcse_event \<Rightarrow> payload option \<Rightarrow> u32 \<Rightarrow> u32 \<Rightarrow> se \<Rightarrow> se res" where
  "Dispatch_CLCSE ev p supplement_1 supplement_2 s =
     (let dur = dT108 (Durations s) in
      case ev of
        EVENT_PTV_CLC_CLS_REQ \<Rightarrow>
          with_entry LC_INCOMING supplement_1
            (when_cls CLS_OUTGOING_IDLE (\<lambda>e. Inr (clc_0400_0000 dur e))) s
      | EVENT_MSG_CLC \<Rightarrow>
          bind_res (deref to_RequestChannelClose p)
            (\<lambda>rcc. with_entry LC_OUTGOING (ucast (rcc_forwardLogicalChannelNumber rcc)) entry_CLC s)
      | EVENT_PTV_CLC_CLS_RPS \<Rightarrow>
          with_entry LC_OUTGOING supplement_1
            (when_cls CLS_INCOMING_AWTING_RPS (\<lambda>e. Inr (clc_0402_0011 e))) s
      | EVENT_PTV_CLC_RJT_REQ \<Rightarrow>
          with_entry LC_OUTGOING supplement_1
            (when_cls CLS_INCOMING_AWTING_RPS (with_param to_RccRejectCause p clc_0403_0011)) s
      | EVENT_MSG_CLC_ACK \<Rightarrow>
          bind_res (deref to_RequestChannelCloseAck p)
            (\<lambda>lcn. with_entry LC_INCOMING (ucast lcn)
               (when_cls CLS_OUTGOING_AWTING_RPS (\<lambda>e. Inr (clc_0404_0010 e))) s)
      | EVENT_MSG_CLC_RJT \<Rightarrow>
          bind_res (deref to_RequestChannelCloseReject p)
            (\<lambda>rcr. with_entry LC_INCOMING (ucast (rcr_forwardLogicalChannelNumber rcr))
               (when_cls CLS_OUTGOING_AWTING_RPS (with_param to_RequestChannelCloseReject p clc_0405_0010)) s)
      | EVENT_TIM_CLC_T108 \<Rightarrow>
          with_entry LC_INCOMING supplement_2
            (when_cls CLS_OUTGOING_AWTING_RPS (\<lambda>e. Inr (clc_0406_0010 supplement_1 e))) s
      | EVENT_MSG_CLC_RLS \<Rightarrow>
          bind_res (deref to_RequestChannelCloseRelease p)
            (\<lambda>lcn. with_entry LC_OUTGOING (ucast lcn)
               (when_cls CLS_INCOMING_AWTING_RPS (\<lambda>e. Inr (clc_0407_0011 e))) s))"

end
