(* ===== verification/SeDispatch.thy ===== *)
theory SeDispatch
  imports LcDispatch
begin

text \<open>
  The rest of \<^verbatim>\<open>SE::Dispatch\<close> (\<^verbatim>\<open>se/src/se.cpp\<close>): one function per class of events, with the
  switch over the status of the procedure that serves it. \<open>Event_No\<close> and the two supplements
  are the arguments of the source; the block \<open>p\<close> is read where the handler of the source
  takes it.
\<close>

section \<open>Running a procedure\<close>

text \<open>The handlers return the new state of their procedure and the calls they make.\<close>

definition put_MSD :: "msd \<times> effect list \<Rightarrow> se \<Rightarrow> se" where
  "put_MSD r s = performs (snd r) (s\<lparr>MyMSD := fst r\<rparr>)"

definition put_CE :: "ce \<times> effect list \<Rightarrow> se \<Rightarrow> se" where
  "put_CE r s = performs (snd r) (s\<lparr>MyCE := fst r\<rparr>)"

definition put_MT :: "mt \<times> effect list \<Rightarrow> se \<Rightarrow> se" where
  "put_MT r s = performs (snd r) (s\<lparr>MyMT := fst r\<rparr>)"

definition put_RTD :: "rtd \<times> effect list \<Rightarrow> se \<Rightarrow> se" where
  "put_RTD r s = performs (snd r) (s\<lparr>MyRTD := fst r\<rparr>)"

definition put_MR :: "mr \<times> effect list \<Rightarrow> se \<Rightarrow> se" where
  "put_MR r s = performs (snd r) (s\<lparr>MyMR := fst r\<rparr>)"

definition put_RME :: "rme \<times> effect list \<Rightarrow> se \<Rightarrow> se" where
  "put_RME r s = performs (snd r) (s\<lparr>MyRME := fst r\<rparr>)"

definition put_ML :: "ml \<times> effect list \<Rightarrow> se \<Rightarrow> se" where
  "put_ML r s = performs (snd r) (s\<lparr>MyML := fst r\<rparr>)"

lemmas put_defs =
  put_MSD_def put_CE_def put_MT_def put_RTD_def put_MR_def put_RME_def put_ML_def

text \<open>A handler that may fault, one that reads the block first, and the cases without one.\<close>

definition run_res :: "('x \<Rightarrow> se \<Rightarrow> se) \<Rightarrow> 'x res \<Rightarrow> se \<Rightarrow> se res" where
  "run_res put r s = bind_res r (\<lambda>x. Inr (put x s))"

definition reading ::
  "(payload \<Rightarrow> 'a option) \<Rightarrow> payload option \<Rightarrow> ('a \<Rightarrow> 'm \<Rightarrow> 'm \<times> effect list) \<Rightarrow> 'm \<Rightarrow> ('m \<times> effect list) res" where
  "reading sel p h m = bind_res (deref sel p) (\<lambda>x. Inr (h x m))"

definition reading_res ::
  "(payload \<Rightarrow> 'a option) \<Rightarrow> payload option \<Rightarrow> ('a \<Rightarrow> 'm \<Rightarrow> ('m \<times> effect list) res) \<Rightarrow> 'm
    \<Rightarrow> ('m \<times> effect list) res" where
  "reading_res sel p h m = bind_res (deref sel p) (\<lambda>x. h x m)"

definition break :: "'m \<Rightarrow> ('m \<times> effect list) res" where
  "break m = Inr (m, [])"

section \<open>MSD and CE\<close>

text \<open>The timers of these two call \<^verbatim>\<open>MSD\<close> and \<^verbatim>\<open>CE\<close> directly; their timer events have no case.\<close>

definition msd_event :: "u32 \<Rightarrow> msdse_event \<Rightarrow> payload option \<Rightarrow> msd \<Rightarrow> (msd \<times> effect list) res" where
  "msd_event dur ev p m =
     (case ev of
        EVENT_MSG_MSD \<Rightarrow> reading to_MasterSlaveDetermination p (msd_Handler_MSD dur) m
      | EVENT_MSG_MSD_ACK \<Rightarrow> reading to_MasterSlaveDeterminationAck p msd_Handler_MSDAck m
      | EVENT_MSG_MSD_RJT \<Rightarrow>
          Inr (msd_Handler_MSDReject dur m)
      | EVENT_MSG_MSD_RLS \<Rightarrow> Inr (msd_Handler_MSDRelease m)
      | EVENT_TIM_MSD_T106 \<Rightarrow> break m)"

definition ce_event :: "cese_event \<Rightarrow> payload option \<Rightarrow> ce \<Rightarrow> (ce \<times> effect list) res" where
  "ce_event ev p m =
     (case ev of
        EVENT_MSG_CE \<Rightarrow> reading to_TerminalCapabilitySet p ce_Handler_TCS m
      | EVENT_MSG_CE_ACK \<Rightarrow> reading to_TerminalCapabilitySetAck p ce_Handler_TCSAck m
      | EVENT_MSG_CE_RJT \<Rightarrow> reading to_TerminalCapabilitySetReject p ce_Handler_TCSReject m
      | EVENT_MSG_CE_RLS \<Rightarrow> Inr (ce_Handler_TCSRelease m)
      | EVENT_TIM_CE_T101 \<Rightarrow> break m)"

section \<open>MT\<close>

definition mt_itn_err :: "mtse_event \<Rightarrow> mt \<Rightarrow> (mt \<times> effect list) res" where
  "mt_itn_err ev m =
     Inr (m, [ItnErrNotificationSend ITN_ERR_CODE_0002
                (event_no (EVENT_MTSE ev) AND ucast (mt_status_code (mtStatus2 m)))])"

definition mt_event :: "mtse_event \<Rightarrow> payload option \<Rightarrow> u32 \<Rightarrow> mt \<Rightarrow> (mt \<times> effect list) res" where
  "mt_event ev p supplement_1 m =
     (let se_Status2 = mtStatus2 m in
      case ev of
        EVENT_PTV_MT_TRF_REQ \<Rightarrow> reading_res to_MuxDescriptor p mt_TransferRequest m
      | EVENT_MSG_MT \<Rightarrow>
          (case se_Status2 of
             MT_INCOMING_IDLE \<Rightarrow> reading to_MultiplexEntrySend p mt_0501_0001 m
           | MT_INCOMING_AWTING_RPS \<Rightarrow> reading to_MultiplexEntrySend p mt_0501_0011 m
           | _ \<Rightarrow> break m)
      | EVENT_PTV_MT_TRF_RPS \<Rightarrow>
          (case se_Status2 of
             MT_INCOMING_IDLE \<Rightarrow> mt_itn_err ev m
           | MT_INCOMING_AWTING_RPS \<Rightarrow> reading_res to_MuxDescriptor p (mt_0502_0011 supplement_1) m
           | _ \<Rightarrow> break m)
      | EVENT_PTV_MT_RJT_REQ \<Rightarrow>
          (case se_Status2 of
             MT_INCOMING_AWTING_RPS \<Rightarrow> Inr (mt_0503_0011 m)
           | _ \<Rightarrow> mt_itn_err ev m)
      | EVENT_MSG_MT_ACK \<Rightarrow>
          (if iPendingMtSend m = None then break m
           else reading_res to_MultiplexEntrySendAck p mt_MultiplexEntrySendAck m)
      | EVENT_MSG_MT_RJT \<Rightarrow> reading_res to_MultiplexEntrySendReject p mt_MultiplexEntrySendReject m
      | EVENT_MSG_MT_RLS \<Rightarrow>
          (case se_Status2 of
             MT_INCOMING_IDLE \<Rightarrow> break m
           | MT_INCOMING_AWTING_RPS \<Rightarrow> mt_0507_0011 m
           | _ \<Rightarrow> mt_itn_err ev m)
      | EVENT_TIM_MT_T104 \<Rightarrow> break m)"

section \<open>RME, MR, RTD and ML\<close>

definition rme_event :: "u32 \<Rightarrow> rmese_event \<Rightarrow> payload option \<Rightarrow> u32 \<Rightarrow> rme \<Rightarrow> (rme \<times> effect list) res" where
  "rme_event dur ev p supplement_1 m =
     (let out_idle = (rmeStatus m = RME_OUTGOING_IDLE);
          out_awaiting = (rmeStatus m = RME_OUTGOING_AWTING_RPS);
          in_awaiting = (rmeStatus2 m = RME_INCOMING_AWTING_RPS) in
      case ev of
        EVENT_PTV_RME_SEND_REQ \<Rightarrow>
          if out_idle then rme_0600_0000 dur m else break m
      | EVENT_MSG_RME \<Rightarrow>
          (case rmeStatus2 m of
             RME_INCOMING_IDLE \<Rightarrow> reading_res to_RequestMultiplexEntry p rme_0601_0001 m
           | RME_INCOMING_AWTING_RPS \<Rightarrow> reading_res to_RequestMultiplexEntry p rme_0601_0011 m
           | _ \<Rightarrow> break m)
      | EVENT_PTV_RME_SEND_RPS \<Rightarrow>
          if in_awaiting then rme_0602_0011 m else break m
      | EVENT_PTV_RME_RJT_REQ \<Rightarrow>
          if in_awaiting then reading_res to_RmeRejectCause p rme_0603_0011 m else break m
      | EVENT_MSG_RME_ACK \<Rightarrow>
          if out_awaiting then Inr (rme_0604_0010 m) else break m
      | EVENT_MSG_RME_RJT \<Rightarrow>
          if out_awaiting
          then reading_res to_RequestMultiplexEntryReject p rme_0605_0010 m
          else break m
      | EVENT_TIM_RME_T107 \<Rightarrow>
          if out_awaiting then rme_0606_0010 supplement_1 m else break m
      | EVENT_MSG_RME_RLS \<Rightarrow>
          if in_awaiting then Inr (rme_0607_0011 m) else break m)"

definition mr_event :: "u32 \<Rightarrow> mrse_event \<Rightarrow> payload option \<Rightarrow> u32 \<Rightarrow> mr \<Rightarrow> (mr \<times> effect list) res" where
  "mr_event dur ev p supplement_1 m =
     (let out_awaiting = (mrStatus m = MR_OUTGOING_AWTING_RPS);
          in_awaiting = (mrStatus2 m = MR_INCOMING_AWTING_RPS) in
      case ev of
        EVENT_PTV_MR_TRF_REQ \<Rightarrow>
          (case mrStatus m of
             MR_OUTGOING_IDLE \<Rightarrow> reading to_RequestMode p (mr_0700_0000 dur) m
           | MR_OUTGOING_AWTING_RPS \<Rightarrow> reading to_RequestMode p (mr_0700_0010 dur) m
           | _ \<Rightarrow> break m)
      | EVENT_MSG_MR \<Rightarrow>
          (case mrStatus2 m of
             MR_INCOMING_IDLE \<Rightarrow> reading to_RequestMode p mr_0701_0001 m
           | MR_INCOMING_AWTING_RPS \<Rightarrow> reading to_RequestMode p mr_0701_0011 m
           | _ \<Rightarrow> break m)
      | EVENT_PTV_MR_TRF_RPS \<Rightarrow>
          if in_awaiting then reading to_Response p mr_0702_0011 m else break m
      | EVENT_PTV_MR_RJT_REQ \<Rightarrow>
          if in_awaiting then reading to_RmRejectCause p mr_0703_0011 m else break m
      | EVENT_MSG_MR_ACK \<Rightarrow>
          if out_awaiting then reading to_RequestModeAck p mr_0704_0010 m else break m
      | EVENT_MSG_MR_RJT \<Rightarrow>
          if out_awaiting then reading to_RequestModeReject p mr_0705_0010 m else break m
      | EVENT_TIM_MR_T109 \<Rightarrow>
          if out_awaiting then Inr (mr_0706_0010 supplement_1 m) else break m
      | EVENT_MSG_MR_RLS \<Rightarrow>
          if in_awaiting then Inr (mr_0707_0011 m) else break m)"

text \<open>RTD reads the clock when it starts and when it stops its measurement.\<close>

definition rtd_event :: "u32 \<Rightarrow> u32 \<Rightarrow> rtdse_event \<Rightarrow> payload option \<Rightarrow> u32 \<Rightarrow> rtd \<Rightarrow> (rtd \<times> effect list) res" where
  "rtd_event dur now ev p supplement_1 m =
     (case ev of
        EVENT_PTV_RTD_TRF_REQ \<Rightarrow>
          (case rtdStatus m of
             RTD_IDLE \<Rightarrow> Inr (rtd_0800_0000 dur now m)
           | RTD_AWTING_RPS \<Rightarrow> Inr (rtd_0800_0010 dur now m))
      | EVENT_MSG_RTD_REQ \<Rightarrow> reading to_RoundTripDelayRequest p rtd_0801_0000 m
      | EVENT_MSG_RTD_RPS \<Rightarrow>
          (case rtdStatus m of
             RTD_IDLE \<Rightarrow> break m
           | RTD_AWTING_RPS \<Rightarrow> reading to_RoundTripDelayResponse p (rtd_0802_0010 now) m)
      | EVENT_TIM_RTD_T105 \<Rightarrow>
          (case rtdStatus m of
             RTD_IDLE \<Rightarrow> break m
           | RTD_AWTING_RPS \<Rightarrow> Inr (rtd_0803_0010 supplement_1 m)))"

definition ml_event :: "u32 \<Rightarrow> mlse_event \<Rightarrow> payload option \<Rightarrow> u32 \<Rightarrow> ml \<Rightarrow> (ml \<times> effect list) res" where
  "ml_event dur ev p supplement_1 m =
     (case ev of
        EVENT_PTV_ML_LOOP_REQ \<Rightarrow>
          (case mlStatus m of
             ML_OUTGOING_NOT_LOOPED \<Rightarrow> reading to_MlRequestType p (ml_0900_0000 dur) m
           | _ \<Rightarrow> break m)
      | EVENT_PTV_ML_RLS_REQ \<Rightarrow>
          (case mlStatus m of
             ML_OUTGOING_AWTING_RPS \<Rightarrow> Inr (ml_0901_0010 m)
           | ML_OUTGOING_LOOPED \<Rightarrow> Inr (ml_0901_0020 m)
           | ML_INCOMING_AWTING_RPS \<Rightarrow> reading to_MlRejectCause p ml_0901_0011 m
           | _ \<Rightarrow> break m)
      | EVENT_MSG_ML_REQ \<Rightarrow>
          (case mlStatus m of
             ML_INCOMING_NOT_LOOPED \<Rightarrow> reading to_MaintenanceLoopRequest p ml_0902_0001 m
           | ML_INCOMING_AWTING_RPS \<Rightarrow> reading to_MaintenanceLoopRequest p ml_0902_0011 m
           | ML_INCOMING_LOOPED \<Rightarrow> reading to_MaintenanceLoopRequest p ml_0902_0011 m
           | _ \<Rightarrow> break m)
      | EVENT_PTV_ML_LOOP_RPS \<Rightarrow>
          (case mlStatus m of
             ML_INCOMING_AWTING_RPS \<Rightarrow> Inr (ml_0903_0011 m)
           | _ \<Rightarrow> break m)
      | EVENT_MSG_ML_ACK \<Rightarrow>
          (case mlStatus m of
             ML_OUTGOING_AWTING_RPS \<Rightarrow> Inr (ml_0904_0010 m)
           | _ \<Rightarrow> break m)
      | EVENT_MSG_ML_RJT \<Rightarrow>
          (case mlStatus m of
             ML_OUTGOING_AWTING_RPS \<Rightarrow> reading to_MaintenanceLoopReject p ml_0905_0010 m
           | ML_OUTGOING_LOOPED \<Rightarrow> reading to_MaintenanceLoopReject p ml_0905_0020 m
           | _ \<Rightarrow> break m)
      | EVENT_TIM_ML_T102 \<Rightarrow>
          (case mlStatus m of
             ML_OUTGOING_AWTING_RPS \<Rightarrow> Inr (ml_0906_0010 supplement_1 m)
           | _ \<Rightarrow> break m)
      | EVENT_MSG_ML_OFF_CMD \<Rightarrow>
          (case mlStatus m of
             ML_INCOMING_AWTING_RPS \<Rightarrow> Inr (ml_0907_0011 m)
           | ML_INCOMING_LOOPED \<Rightarrow> Inr (ml_0907_0011 m)
           | _ \<Rightarrow> break m))"

section \<open>Forwarding\<close>

text \<open>The calls of each event of the procedures without state.\<close>

fun calls_NSD :: "nsd_event \<Rightarrow> payload option \<Rightarrow> effect list" where
  "calls_NSD EVENT_PTV_NSD_REQ p = nsd_1000 p"
| "calls_NSD EVENT_MSG_NSD_REQ p = nsd_1001 p"
| "calls_NSD EVENT_PTV_NSD_RPS p = nsd_1002 p"
| "calls_NSD EVENT_MSG_NSD_RPS p = nsd_1003 p"
| "calls_NSD EVENT_PTV_NSD_CMD p = nsd_1004 p"
| "calls_NSD EVENT_MSG_NSD_CMD p = nsd_1005 p"
| "calls_NSD EVENT_PTV_NSD_IDC p = nsd_1006 p"
| "calls_NSD EVENT_MSG_NSD_IDC p = nsd_1007 p"

fun calls_CM :: "cm_event \<Rightarrow> payload option \<Rightarrow> effect list" where
  "calls_CM EVENT_PTV_CM_REQ p = cm_1100 p"
| "calls_CM EVENT_MSG_CM_REQ p = cm_1101 p"
| "calls_CM EVENT_PTV_CM_RPS p = cm_1102 p"
| "calls_CM EVENT_MSG_CM_RPS p = cm_1103 p"
| "calls_CM EVENT_PTV_CM_CMD p = cm_1104 p"
| "calls_CM EVENT_MSG_CM_CMD p = cm_1105 p"

fun calls_CNF :: "cnf_event \<Rightarrow> payload option \<Rightarrow> effect list" where
  "calls_CNF EVENT_PTV_CNF_REQ p = cnf_1300 p"
| "calls_CNF EVENT_MSG_CNF_REQ p = cnf_1301 p"
| "calls_CNF EVENT_PTV_CNF_RPS p = cnf_1302 p"
| "calls_CNF EVENT_MSG_CNF_RPS p = cnf_1303 p"

fun calls_CMD :: "cmd_event \<Rightarrow> payload option \<Rightarrow> u8 list option \<Rightarrow> effect list" where
  "calls_CMD EVENT_PTV_CMD_STCS p enc = cmd_1400 p"
| "calls_CMD EVENT_MSG_CMD_STCS p enc = cmd_1401 p"
| "calls_CMD EVENT_PTV_CMD_ECRPT p enc = cmd_1402 p"
| "calls_CMD EVENT_MSG_CMD_ECRPT p enc = cmd_1403 p"
| "calls_CMD EVENT_PTV_CMD_FC p enc = cmd_1404 p"
| "calls_CMD EVENT_MSG_CMD_FC p enc = cmd_1405 p enc"
| "calls_CMD EVENT_PTV_CMD_ES p enc = cmd_1406 p"
| "calls_CMD EVENT_MSG_CMD_ES p enc = cmd_1407 p"
| "calls_CMD EVENT_PTV_CMD_MSCL p enc = cmd_1408 p"
| "calls_CMD EVENT_MSG_CMD_MSCL p enc = cmd_1409 p enc"
| "calls_CMD EVENT_PTV_CMD_CNF p enc = cmd_140A p"
| "calls_CMD EVENT_MSG_CMD_CNF p enc = cmd_140B p"
| "calls_CMD EVENT_PTV_CMD_HMR p enc = cmd_140C p"
| "calls_CMD EVENT_MSG_CMD_HMR p enc = cmd_140D p enc"

fun calls_IDC :: "idc_event \<Rightarrow> payload option \<Rightarrow> effect list" where
  "calls_IDC EVENT_PTV_IDC_FNU p = idc_1500 p"
| "calls_IDC EVENT_MSG_IDC_FNU p = idc_1501 p"
| "calls_IDC EVENT_PTV_IDC_MSCL p = idc_1502 p"
| "calls_IDC EVENT_MSG_IDC_MSCL p = idc_1503 p"
| "calls_IDC EVENT_PTV_IDC_JTR p = idc_1504 p"
| "calls_IDC EVENT_MSG_IDC_JTR p = idc_1505 p"
| "calls_IDC EVENT_PTV_IDC_H223SKW p = idc_1506 p"
| "calls_IDC EVENT_MSG_IDC_H223SKW p = idc_1507 p"
| "calls_IDC EVENT_PTV_IDC_NWATMVC p = idc_1508 p"
| "calls_IDC EVENT_MSG_IDC_NWATMVC p = idc_1509 p"
| "calls_IDC EVENT_PTV_IDC_UI p = idc_150A p"
| "calls_IDC EVENT_MSG_IDC_UI p = idc_150B p"
| "calls_IDC EVENT_PTV_IDC_CNF p = idc_150C p"
| "calls_IDC EVENT_MSG_IDC_CNF p = idc_150D p"
| "calls_IDC EVENT_PTV_IDC_H2250MXSKW p = idc_150E p"
| "calls_IDC EVENT_MSG_IDC_H2250MXSKW p = idc_150F p"
| "calls_IDC EVENT_PTV_IDC_MCLCT p = idc_1510 p"
| "calls_IDC EVENT_MSG_IDC_MCLCT p = idc_1511 p"
| "calls_IDC EVENT_PTV_IDC_VI p = idc_1512 p"
| "calls_IDC EVENT_MSG_IDC_VI p = idc_1513 p"
| "calls_IDC EVENT_PTV_IDC_FNS p = idc_1514 p"
| "calls_IDC EVENT_MSG_IDC_FNS p = idc_1515 p"
| "calls_IDC EVENT_MSG_IDC_FC p = idc_1516 p"
| "calls_IDC EVENT_PTV_IDC_FC p = idc_1517 p"

section \<open>The dispatcher\<close>

fun Dispatch :: "event \<Rightarrow> payload option \<Rightarrow> u32 \<Rightarrow> u32 \<Rightarrow> u8 list option \<Rightarrow> se \<Rightarrow> se res" where
  "Dispatch (EVENT_MSDSE ev) p sup1 sup2 enc s =
     run_res put_MSD (msd_event (dT106 (Durations s)) ev p (MyMSD s)) s"
| "Dispatch (EVENT_CESE ev) p sup1 sup2 enc s =
     run_res put_CE (ce_event ev p (MyCE s)) s"
| "Dispatch (EVENT_LCBLCSE ev) p sup1 sup2 enc s = Dispatch_LCBLCSE ev p sup1 sup2 s"
| "Dispatch (EVENT_CLCSE ev) p sup1 sup2 enc s = Dispatch_CLCSE ev p sup1 sup2 s"
| "Dispatch (EVENT_MTSE ev) p sup1 sup2 enc s =
     run_res put_MT (mt_event ev p sup1 (MyMT s)) s"
| "Dispatch (EVENT_RMESE ev) p sup1 sup2 enc s =
     run_res put_RME (rme_event (dT107 (Durations s)) ev p sup1 (MyRME s)) s"
| "Dispatch (EVENT_MRSE ev) p sup1 sup2 enc s =
     run_res put_MR (mr_event (dT109 (Durations s)) ev p sup1 (MyMR s)) s"
| "Dispatch (EVENT_RTDSE ev) p sup1 sup2 enc s =
     run_res put_RTD (rtd_event (dT105 (Durations s)) (Clock s) ev p sup1 (MyRTD s)) s"
| "Dispatch (EVENT_MLSE ev) p sup1 sup2 enc s =
     run_res put_ML (ml_event (dT102 (Durations s)) ev p sup1 (MyML s)) s"
| "Dispatch (EVENT_NSD ev) p sup1 sup2 enc s = Inr (performs (calls_NSD ev p) s)"
| "Dispatch (EVENT_CM ev) p sup1 sup2 enc s = Inr (performs (calls_CM ev p) s)"
| "Dispatch (EVENT_H223AAR ev) p sup1 sup2 enc s = Inr s"
| "Dispatch (EVENT_CNF ev) p sup1 sup2 enc s = Inr (performs (calls_CNF ev p) s)"
| "Dispatch (EVENT_CMD ev) p sup1 sup2 enc s = Inr (performs (calls_CMD ev p enc) s)"
| "Dispatch (EVENT_IDC ev) p sup1 sup2 enc s = Inr (performs (calls_IDC ev p) s)"

end
