(* ===== verification/Se.thy ===== *)
theory Se
  imports SeDispatch
begin

text \<open>
  The entry points of \<^verbatim>\<open>SE\<close> (\<^verbatim>\<open>se/src/se.cpp\<close>, \<^verbatim>\<open>se/include/se.h\<close>) and the machine made of
  them: primitives of the upper layer, messages of the peer, the calls that the terminal
  makes on \<^verbatim>\<open>GetMSD()\<close> and \<^verbatim>\<open>GetCE()\<close>, resets, and the ticks of the two timers.

  The terminal is called by the entity (primitives, observers of MSD and CE) and may call back
  before it returns. Between ticks such a call is an input of its own that follows the one it
  answers: the handlers of MSD and CE call their observers last (\<open>msd_upcalls_last\<close>,
  \<open>ce_upcalls_last\<close>). Inside a tick it is not, because there the timer only queues what is
  requested; so the tick takes what the terminal does on each call out as an argument
  (\<open>answers\<close>), for the four operations of MSD and CE that the terminal calls so
  (\<^verbatim>\<open>tsc_msd.cpp\<close>, \<^verbatim>\<open>tsc_ce.cpp\<close>): a reject of MSD in its timeout is answered by
  \<^verbatim>\<open>DetermineRequest\<close>, one of CE by \<^verbatim>\<open>TransferRequest\<close>. Not represented are primitives sent
  back from inside a tick, and calls back from the middle of a handler of another procedure.
\<close>

section \<open>Entry points\<close>

definition InformationRecv :: "inf_header \<Rightarrow> se \<Rightarrow> se res" where
  "InformationRecv h s =
     (case TablePointerGetUpperLayer (InfType h) of
        None \<Rightarrow> Inr (performs [ItnErrNotificationSend ITN_ERR_CODE_0000 (InfType h)] s)
      | Some tbl \<Rightarrow>
          (case EventNoDecision tbl (InfId h) of
             None \<Rightarrow> Inr (performs [ItnErrNotificationSend ITN_ERR_CODE_0000 (InfId h)] s)
           | Some ev \<Rightarrow> Dispatch ev (pParameter h) (InfSupplement1 h) (InfSupplement2 h) None s))"

definition MessageRecv ::
  "u8 \<Rightarrow> u8 \<Rightarrow> payload option \<Rightarrow> u8 list option \<Rightarrow> se \<Rightarrow> se res" where
  "MessageRecv type1 type2 p enc s =
     (case TablePointerGetLowerLayer (ucast type1) of
        None \<Rightarrow> Inr (performs [ItnErrNotificationSend ITN_ERR_CODE_0000 (ucast type1)] s)
      | Some tbl \<Rightarrow>
          (case EventNoDecision tbl (ucast type2) of
             None \<Rightarrow> Inr (performs [ItnErrNotificationSend ITN_ERR_CODE_0001 (ucast type2)] s)
           | Some ev \<Rightarrow> Dispatch ev p 0 0 enc s))"

text \<open>The shift of the timer id is arithmetic.\<close>

definition SE_TimeoutOccurred :: "s32 \<Rightarrow> s32 \<Rightarrow> se \<Rightarrow> se res" where
  "SE_TimeoutOccurred timerID timeoutInfo s =
     InformationRecv
       \<lparr> InfType = H245_TIMEOUT, InfId = timerID AND 0x0000FFFF, InfSupplement1 = timeoutInfo,
         InfSupplement2 = signed_drop_bit 16 timerID AND 0x0000FFFF, pParameter = None,
         Dir = None, EncodedMsg = None \<rparr> s"

definition SE_Reset :: "se \<Rightarrow> se" where
  "SE_Reset s =
     (let s1 = s\<lparr>MyTimer := timer_Clear (MyTimer s)\<rparr>;
          s2 = put_MSD (msd_Reset (MyMSD s1)) s1;
          s3 = put_CE (ce_Reset (MyCE s2)) s2;
          s4 = s3\<lparr>MyMT := mt_Reset (MyMT s3)\<rparr>;
          s5 = put_RTD (rtd_Reset (MyRTD s4)) s4;
          s6 = put_ML (ml_Reset (MyML s5)) s5;
          s7 = put_MR (mr_Reset (MyMR s6)) s6;
          s8 = put_RME (rme_Reset (MyRME s7)) s7
      in s8\<lparr>LCBLCOutgoing := list_Reset (LCBLCOutgoing s8),
            LCBLCIncoming := list_Reset (LCBLCIncoming s8)\<rparr>)"

section \<open>Timers\<close>

text \<open>The observers of the timers: \<^verbatim>\<open>SE\<close> itself, \<^verbatim>\<open>MSD\<close>, \<^verbatim>\<open>CE\<close> and \<^verbatim>\<open>MT\<close>.\<close>

fun timer_callback :: "timer_observer \<Rightarrow> s32 \<Rightarrow> s32 \<Rightarrow> se \<Rightarrow> se res" where
  "timer_callback ObsSE timerID timeoutInfo s = SE_TimeoutOccurred timerID timeoutInfo s"
| "timer_callback ObsMSD timerID timeoutInfo s = Inr (put_MSD (msd_HandlerTimeout (MyMSD s)) s)"
| "timer_callback ObsCE timerID timeoutInfo s = Inr (put_CE (ce_HandlerTimeout (MyCE s)) s)"
| "timer_callback ObsMT timerID timeoutInfo s = run_res put_MT (mt_TimeoutOccurred (MyMT s)) s"

text \<open>The calls of the terminal on \<^verbatim>\<open>MSD\<close> and \<^verbatim>\<open>CE\<close>.\<close>

datatype upper_call =
    DetermineRequestCall
  | TransferRequestCall terminal_capability_set
  | TransferResponseCall
  | RejectRequestCall u16 u16

fun upper_step :: "upper_call \<Rightarrow> se \<Rightarrow> se" where
  "upper_step DetermineRequestCall s =
     put_MSD (DetermineRequest (dT106 (Durations s)) (MyMSD s)) s"
| "upper_step (TransferRequestCall tcs) s =
     put_CE (TransferRequest (dT101 (Durations s)) tcs (MyCE s)) s"
| "upper_step TransferResponseCall s = put_CE (TransferResponse (MyCE s)) s"
| "upper_step (RejectRequestCall cause highest) s = put_CE (RejectRequest cause highest (MyCE s)) s"

text \<open>What the terminal calls on a call out. A callback of a timer, with the answers to the calls
  out that it makes.\<close>

type_synonym answers = "effect \<Rightarrow> upper_call list"

definition answered :: "answers \<Rightarrow> timer_observer \<Rightarrow> s32 \<Rightarrow> s32 \<Rightarrow> se \<Rightarrow> se res" where
  "answered ans obs timerID timeoutInfo s =
     bind_res (timer_callback obs timerID timeoutInfo s)
       (\<lambda>s1. Inr (fold upper_step
                  (concat (map ans (filter is_upcall (drop (length (Output s)) (Output s1))))) s1))"

definition upd_MyTimer :: "(timer_observer timer \<Rightarrow> timer_observer timer) \<Rightarrow> se \<Rightarrow> se" where
  "upd_MyTimer f s = s\<lparr>MyTimer := f (MyTimer s)\<rparr>"

definition get_mtTimer :: "se \<Rightarrow> timer_observer timer" where
  "get_mtTimer s = iTimer (MyMT s)"

definition upd_mtTimer :: "(timer_observer timer \<Rightarrow> timer_observer timer) \<Rightarrow> se \<Rightarrow> se" where
  "upd_mtTimer f s = s\<lparr>MyMT := (MyMT s)\<lparr>iTimer := f (iTimer (MyMT s))\<rparr>\<rparr>"

definition SE_tick :: "answers \<Rightarrow> se \<Rightarrow> se res" where
  "SE_tick ans s = TimerBaseElapsed MyTimer upd_MyTimer (answered ans) s"

definition MT_tick :: "answers \<Rightarrow> se \<Rightarrow> se res" where
  "MT_tick ans s = TimerBaseElapsed get_mtTimer upd_mtTimer (answered ans) s"

section \<open>The machine\<close>

datatype se_input =
    Primitive inf_header
  | Message u8 u8 "payload option" "u8 list option"
  | Call upper_call
  | SetMsdObserver bool
  | SetCeObserver bool
  | SetTerminalType u8
  | TimerTick answers
  | MtTimerTick answers
  | ClockAt u32
  | SetTimersCall timer_durations
  | ResetCall

fun se_step :: "se_input \<Rightarrow> se \<Rightarrow> se res" where
  "se_step (Primitive h) s = InformationRecv h s"
| "se_step (Message type1 type2 p enc) s = MessageRecv type1 type2 p enc s"
| "se_step (Call c) s = Inr (upper_step c s)"
| "se_step (SetMsdObserver observer) s = Inr (s\<lparr>MyMSD := msd_SetObserver observer (MyMSD s)\<rparr>)"
| "se_step (SetCeObserver observer) s = Inr (s\<lparr>MyCE := ce_SetObserver observer (MyCE s)\<rparr>)"
| "se_step (SetTerminalType ttype) s = Inr (s\<lparr>MyMSD := msd_SetTerminalType ttype (MyMSD s)\<rparr>)"
| "se_step (TimerTick ans) s = SE_tick ans s"
| "se_step (MtTimerTick ans) s = MT_tick ans s"
| "se_step (ClockAt now) s = Inr (s\<lparr>Clock := now\<rparr>)"
| "se_step (SetTimersCall d) s = Inr (SetTimers d s)"
| "se_step ResetCall s = Inr (SE_Reset s)"

fun se_run :: "se_input list \<Rightarrow> se \<Rightarrow> se res" where
  "se_run [] s = Inr s"
| "se_run (i # is) s = bind_res (se_step i s) (se_run is)"

lemma se_run_append: "se_run (is @ js) s = bind_res (se_run is s) (se_run js)"
proof (induction "is" arbitrary: s)
  case Nil
  then show ?case by simp
next
  case (Cons i "is")
  then show ?case by (cases "se_step i s") simp_all
qed

text \<open>The states that an entity can be in after any inputs.\<close>

inductive se_reachable :: "se \<Rightarrow> bool" where
  se_start: "se_reachable (SetH245 h (SetPer p (new_SE rnd period)))"
| se_next: "se_reachable s \<Longrightarrow> se_step i s = Inr s' \<Longrightarrow> se_reachable s'"

end
