(* ===== verification/SeTimers.thy ===== *)
theory SeTimers
  imports Se
begin

text \<open>
  What a step of the entity does to its timer: only calls of \<^verbatim>\<open>Request\<close> and \<^verbatim>\<open>Cancel\<close>.
  \<open>served es s s'\<close> says that \<open>s'\<close> comes from \<open>s\<close> by the calls \<open>es\<close>, whatever happened to
  the procedures. With it the entity is a host of both timers (locale \<open>timer_host\<close>).
\<close>

section \<open>The calls of a step\<close>

definition served :: "effect list \<Rightarrow> se \<Rightarrow> se \<Rightarrow> bool" where
  "served es s s' \<longleftrightarrow>
     MyTimer s' = MyTimer (performs es s) \<and> Output s' = Output (performs es s)
     \<and> hasPER s' = hasPER s \<and> hasH245 s' = hasH245 s \<and> Durations s' = Durations s \<and> Clock s' = Clock s"

lemma perform_cong:
  assumes "MyTimer s = MyTimer t" "Output s = Output t" "hasPER s = hasPER t" "hasH245 s = hasH245 t"
  shows "MyTimer (perform e s) = MyTimer (perform e t)" "Output (perform e s) = Output (perform e t)"
  using assms by (cases e; simp)+

lemma performs_cong:
  assumes "MyTimer s = MyTimer t" "Output s = Output t" "hasPER s = hasPER t" "hasH245 s = hasH245 t"
  shows "MyTimer (performs es s) = MyTimer (performs es t)"
    and "Output (performs es s) = Output (performs es t)"
proof -
  have "MyTimer (performs es s) = MyTimer (performs es t) \<and> Output (performs es s) = Output (performs es t)"
    using assms
  proof (induction es arbitrary: s t)
    case Nil
    then show ?case by simp
  next
    case (Cons e es)
    have "MyTimer (performs es (perform e s)) = MyTimer (performs es (perform e t))
        \<and> Output (performs es (perform e s)) = Output (performs es (perform e t))"
      by (rule Cons.IH) (use perform_cong [OF Cons.prems, of e] Cons.prems in \<open>simp_all only: perform_frame\<close>)
    then show ?case by simp
  qed
  then show "MyTimer (performs es s) = MyTimer (performs es t)"
    and "Output (performs es s) = Output (performs es t)" by blast+
qed

lemma served_refl [intro]: "served [] s s"
  by (simp add: served_def)

lemma served_performs: "served es s (performs es s)"
  by (simp add: served_def)

lemma served_trans:
  assumes "served es s s1" and "served fs s1 s2"
  shows "served (es @ fs) s s2"
proof -
  have "MyTimer (performs fs s1) = MyTimer (performs fs (performs es s))"
    and "Output (performs fs s1) = Output (performs fs (performs es s))"
    using assms(1) by (auto simp: served_def intro: performs_cong)
  with assms show ?thesis by (simp add: served_def performs_append)
qed

lemma served_frame:
  assumes "MyTimer t = MyTimer s" "Output t = Output s" "hasPER t = hasPER s" "hasH245 t = hasH245 s"
    "Durations t = Durations s" "Clock t = Clock s"
  shows "served es s (performs es t)"
proof -
  have "MyTimer (performs es t) = MyTimer (performs es s)" "Output (performs es t) = Output (performs es s)"
    using performs_cong [of t s es] assms(1-4) by simp_all
  with assms(3-6) show ?thesis by (simp add: served_def)
qed

lemma served_put:
  "served (snd r1) s (put_MSD r1 s)" "served (snd r2) s (put_CE r2 s)" "served (snd r3) s (put_MT r3 s)"
  "served (snd r4) s (put_RTD r4 s)" "served (snd r5) s (put_MR r5 s)" "served (snd r6) s (put_RME r6 s)"
  "served (snd r7) s (put_ML r7 s)"
  by (simp_all add: put_defs served_frame)

definition serves :: "se \<Rightarrow> se res \<Rightarrow> bool" where
  "serves s r \<longleftrightarrow> (\<forall>s'. r = Inr s' \<longrightarrow> (\<exists>es. served es s s'))"

lemma serves_Inl [simp]: "serves s (Inl e)"
  by (simp add: serves_def)

lemma serves_Inr: "served es s s' \<Longrightarrow> serves s (Inr s')"
  by (auto simp: serves_def)

lemma serves_simps [simp]:
  "serves s (Inr s)" "serves s (Inr (performs es s))" "serves s (Inr (perform e s))"
  "serves s (Inr (put_MSD r1 s))" "serves s (Inr (put_CE r2 s))" "serves s (Inr (put_MT r3 s))"
  "serves s (Inr (put_RTD r4 s))" "serves s (Inr (put_MR r5 s))" "serves s (Inr (put_RME r6 s))"
  "serves s (Inr (put_ML r7 s))"
  using served_performs [of "[e]" s] by (auto intro: serves_Inr served_performs served_put)

lemma serves_bind: "(\<And>x. serves s (f x)) \<Longrightarrow> serves s (bind_res m f)"
  by (cases m) simp_all

lemma serves_run: "(\<And>x. serves s (Inr (put x s))) \<Longrightarrow> serves s (run_res put r s)"
  by (simp add: run_res_def serves_bind)

lemma serves_on_entry: "serves s (on_entry d i f s)"
  unfolding on_entry_def
  by (rule serves_bind) (auto intro!: serves_Inr served_frame simp: split_beta)

lemma serves_on_entry_new: "serves s (on_entry d i f (set_channels d' l s))"
proof -
  have "served es s s'" if "served es (set_channels d' l s) s'" for es s'
    using that performs_cong [of "set_channels d' l s" s es] by (simp add: served_def)
  with serves_on_entry [of "set_channels d' l s" d i f] show ?thesis
    unfolding serves_def by meson
qed

lemma serves_with_entry [simp]:
  "serves s (with_entry d lcn f s)" "serves s (with_new_entry d lcn f s)"
  by (auto simp: with_entry_def with_new_entry_def serves_on_entry serves_on_entry_new split: option.split prod.split)

lemma serves_Dispatch: "serves s (Dispatch ev p sup1 sup2 enc s)"
proof (cases ev)
  case (EVENT_LCBLCSE x3)
  then show ?thesis by (cases x3) (simp_all add: Dispatch_LCBLCSE_def Let_def serves_bind)
next
  case (EVENT_CLCSE x4)
  then show ?thesis by (cases x4) (simp_all add: Dispatch_CLCSE_def Let_def serves_bind)
qed (simp_all add: serves_run)

lemma serves_InformationRecv: "serves s (InformationRecv h s)"
  by (auto simp: InformationRecv_def serves_Dispatch split: option.split)

lemma serves_MessageRecv: "serves s (MessageRecv type1 type2 p enc s)"
  by (auto simp: MessageRecv_def serves_Dispatch split: option.split)

lemma serves_callback: "serves s (timer_callback obs timerID timeoutInfo s)"
  by (cases obs) (simp_all add: SE_TimeoutOccurred_def serves_InformationRecv serves_run)

text \<open>The calls that answer a call out.\<close>

lemma served_upper_step: "\<exists>es. served es s (upper_step c s)"
  by (cases c) (auto intro: served_put)

lemma served_upper_steps: "\<exists>es. served es s (fold upper_step cs s)"
proof (induction cs arbitrary: s)
  case (Cons c cs)
  obtain es where "served es s (upper_step c s)" using served_upper_step by blast
  moreover obtain fs where "served fs (upper_step c s) (fold upper_step cs (upper_step c s))"
    using Cons.IH by blast
  ultimately show ?case using served_trans by fastforce
qed auto

lemma answered_Inr:
  assumes "answered ans obs i p s = Inr s'"
  obtains s1 cs where "timer_callback obs i p s = Inr s1" and "s' = fold upper_step cs s1"
    and "set cs \<subseteq> (\<Union>e. set (ans e))"
proof -
  from assms obtain s1 es where "timer_callback obs i p s = Inr s1"
    and "s' = fold upper_step (concat (map ans es)) s1"
    by (auto simp: answered_def bind_res_Inr_iff)
  moreover have "set (concat (map ans es)) \<subseteq> (\<Union>e. set (ans e))" by auto
  ultimately show ?thesis by (rule that)
qed

lemma serves_answered: "serves s (answered ans obs timerID timeoutInfo s)"
proof -
  have "\<exists>es. served es s s'" if answered: "answered ans obs timerID timeoutInfo s = Inr s'" for s'
  proof -
    obtain s1 cs where "timer_callback obs timerID timeoutInfo s = Inr s1" "s' = fold upper_step cs s1"
      using answered by (rule answered_Inr)
    with serves_callback [of s obs timerID timeoutInfo] served_upper_steps [of s1 cs] served_trans
    show ?thesis unfolding serves_def by blast
  qed
  then show ?thesis by (simp add: serves_def)
qed

section \<open>The entity as a host of its timers\<close>

interpretation se_timer: timer_host MyTimer upd_MyTimer "answered ans" for ans
proof unfold_locales
  show "MyTimer (upd_MyTimer f s) = f (MyTimer s)" for f s
    by (simp add: upd_MyTimer_def)
next
  fix s s' obs i p
  assume cb: "iInCallback (MyTimer s)" "answered ans obs i p s = Inr s'"
  from serves_answered [of s ans obs i p] cb(2) obtain es where "served es s s'"
    by (auto simp: serves_def)
  then have "MyTimer s' = MyTimer (performs es s)" by (simp add: served_def)
  with performs_timer [OF cb(1)] show "iEntries (MyTimer s') = iEntries (MyTimer s)"
    and "iInCallback (MyTimer s')" by simp_all
qed

text \<open>Which procedures a step leaves alone.\<close>

lemma on_entry_frame:
  assumes "on_entry d i f s = Inr s'"
  shows "MyMSD s' = MyMSD s \<and> MyCE s' = MyCE s \<and> MyMT s' = MyMT s \<and> MyRTD s' = MyRTD s
    \<and> MyMR s' = MyMR s \<and> MyRME s' = MyRME s \<and> MyML s' = MyML s"
  using assms by (auto simp: on_entry_def bind_res_Inr_iff)

lemma with_entry_frame:
  assumes "with_entry d lcn f s = Inr s' \<or> with_new_entry d lcn f s = Inr s'"
  shows "MyMSD s' = MyMSD s \<and> MyCE s' = MyCE s \<and> MyMT s' = MyMT s \<and> MyRTD s' = MyRTD s
    \<and> MyMR s' = MyMR s \<and> MyRME s' = MyRME s \<and> MyML s' = MyML s"
  using assms
  by (auto simp: with_entry_def with_new_entry_def perform_frame split: option.splits prod.splits
      dest: on_entry_frame)

lemma Dispatch_LCBLCSE_frame:
  assumes "Dispatch_LCBLCSE ev p sup1 sup2 s = Inr s'"
  shows "MyMSD s' = MyMSD s \<and> MyCE s' = MyCE s \<and> MyMT s' = MyMT s \<and> MyRTD s' = MyRTD s
    \<and> MyMR s' = MyMR s \<and> MyRME s' = MyRME s \<and> MyML s' = MyML s"
proof -
  have "\<exists>d lcn f. with_entry d lcn f s = Inr s' \<or> with_new_entry d lcn f s = Inr s'"
    using assms by (cases ev) (auto simp: Dispatch_LCBLCSE_def Let_def bind_res_Inr_iff)
  then show ?thesis using with_entry_frame by blast
qed

lemma Dispatch_CLCSE_frame:
  assumes "Dispatch_CLCSE ev p sup1 sup2 s = Inr s'"
  shows "MyMSD s' = MyMSD s \<and> MyCE s' = MyCE s \<and> MyMT s' = MyMT s \<and> MyRTD s' = MyRTD s
    \<and> MyMR s' = MyMR s \<and> MyRME s' = MyRME s \<and> MyML s' = MyML s"
proof -
  have "\<exists>d lcn f. with_entry d lcn f s = Inr s'"
    using assms by (cases ev) (auto simp: Dispatch_CLCSE_def Let_def bind_res_Inr_iff)
  then show ?thesis using with_entry_frame by blast
qed

lemma put_MyMT [simp]:
  "MyMT (put_MSD r1 s) = MyMT s" "MyMT (put_CE r2 s) = MyMT s" "MyMT (put_RTD r4 s) = MyMT s"
  "MyMT (put_MR r5 s) = MyMT s" "MyMT (put_RME r6 s) = MyMT s" "MyMT (put_ML r7 s) = MyMT s"
  "MyMT (put_MT r3 s) = fst r3"
  by (simp_all add: put_defs)

lemma SE_TimeoutOccurred_MT:
  assumes "SE_TimeoutOccurred i p s = Inr s'"
  shows "MyMT s' = MyMT s"
proof (cases "EventNoDecision EventNoTblForTo (i AND 0xFFFF)")
  case None
  with assms show ?thesis
    by (auto simp: SE_TimeoutOccurred_def InformationRecv_def TablePointerGetUpperLayer_def perform_frame)
next
  case (Some ev)
  with assms have step: "Dispatch ev None p (signed_drop_bit 16 i AND 0xFFFF) None s = Inr s'"
    by (simp add: SE_TimeoutOccurred_def InformationRecv_def TablePointerGetUpperLayer_def)
  from EventNoDecision_Some [OF Some] show ?thesis
    unfolding EventNoTblForTo_def
    using step by (auto simp: run_res_def mt_event_def break_def bind_res_Inr_iff dest: Dispatch_LCBLCSE_frame Dispatch_CLCSE_frame)
qed

lemma callback_mtTimer:
  assumes "timer_callback obs i p s = Inr s'"
  shows "get_mtTimer s' = get_mtTimer s"
  using assms
  by (cases obs) (auto simp: get_mtTimer_def run_res_def bind_res_Inr_iff mt_TimeoutOccurred_def
      dest!: SE_TimeoutOccurred_MT split: option.splits)

lemma upper_steps_MT: "MyMT (fold upper_step cs s) = MyMT s"
proof (induction cs arbitrary: s)
  case (Cons c cs)
  then show ?case by (cases c) simp_all
qed simp

lemma answered_mtTimer:
  assumes "answered ans obs i p s = Inr s'"
  shows "get_mtTimer s' = get_mtTimer s"
proof -
  obtain s1 cs where "timer_callback obs i p s = Inr s1" "s' = fold upper_step cs s1"
    using assms by (rule answered_Inr)
  then show ?thesis using callback_mtTimer by (simp add: get_mtTimer_def upper_steps_MT)
qed

interpretation mt_timer: timer_host get_mtTimer upd_mtTimer "answered ans" for ans
proof unfold_locales
  show "get_mtTimer (upd_mtTimer f s) = f (get_mtTimer s)" for f s
    by (simp add: get_mtTimer_def upd_mtTimer_def)
next
  fix s s' obs i p
  assume cb: "iInCallback (get_mtTimer s)" "answered ans obs i p s = Inr s'"
  with answered_mtTimer show "iEntries (get_mtTimer s') = iEntries (get_mtTimer s)" and "iInCallback (get_mtTimer s')"
    by simp_all
qed

end
