(* ===== verification/Procedures.thy ===== *)
theory Procedures
  imports SeDispatch
begin

text \<open>
  The contract of \<open>timed_procedure\<close> for the procedures that the dispatcher drives through
  events: RME, MR, RTD and ML, the outgoing half of LC/BLC and the requesting half of CLC.
  (MSD and CE discharge it in their own theories.) The steps are those of the dispatcher, with
  the switch over the status included; the timeout is the step of the timer event.
\<close>

section \<open>RME, MR, RTD and ML\<close>

fun rme_step :: "u32 \<Rightarrow> (rmese_event \<times> payload option) option \<Rightarrow> rme \<Rightarrow> rme \<times> effect list" where
  "rme_step dur None m = rme_Reset m"
| "rme_step dur (Some (ev, p)) m =
     settle (if ev = EVENT_TIM_RME_T107 then break m else rme_event dur ev p 0 m) m"

definition rme_timeout :: "s32 \<Rightarrow> rme \<Rightarrow> rme \<times> effect list" where
  "rme_timeout n m = settle (rme_event 0 EVENT_TIM_RME_T107 None n m) m"

fun mr_step :: "u32 \<Rightarrow> (mrse_event \<times> payload option) option \<Rightarrow> mr \<Rightarrow> mr \<times> effect list" where
  "mr_step dur None m = mr_Reset m"
| "mr_step dur (Some (ev, p)) m =
     settle (if ev = EVENT_TIM_MR_T109 then break m else mr_event dur ev p 0 m) m"

definition mr_timeout :: "s32 \<Rightarrow> mr \<Rightarrow> mr \<times> effect list" where
  "mr_timeout n m = settle (mr_event 0 EVENT_TIM_MR_T109 None n m) m"

fun rtd_step ::
  "u32 \<Rightarrow> (u32 \<times> rtdse_event \<times> payload option) option \<Rightarrow> rtd \<Rightarrow> rtd \<times> effect list" where
  "rtd_step dur None m = rtd_Reset m"
| "rtd_step dur (Some (now, ev, p)) m =
     settle (if ev = EVENT_TIM_RTD_T105 then break m else rtd_event dur now ev p 0 m) m"

definition rtd_timeout :: "s32 \<Rightarrow> rtd \<Rightarrow> rtd \<times> effect list" where
  "rtd_timeout n m = settle (rtd_event 0 0 EVENT_TIM_RTD_T105 None n m) m"

fun ml_step :: "u32 \<Rightarrow> (mlse_event \<times> payload option) option \<Rightarrow> ml \<Rightarrow> ml \<times> effect list" where
  "ml_step dur None m = ml_Reset m"
| "ml_step dur (Some (ev, p)) m =
     settle (if ev = EVENT_TIM_ML_T102 then break m else ml_event dur ev p 0 m) m"

definition ml_timeout :: "s32 \<Rightarrow> ml \<Rightarrow> ml \<times> effect list" where
  "ml_timeout n m = settle (ml_event 0 EVENT_TIM_ML_T102 None n m) m"

lemma settle_reading:
  "settle (reading sel p h m) m = (case deref sel p of Inl _ \<Rightarrow> (m, []) | Inr x \<Rightarrow> h x m)"
  "settle (reading_res sel p h' m) m = (case deref sel p of Inl _ \<Rightarrow> (m, []) | Inr x \<Rightarrow> settle (h' x m) m)"
  "settle (break m) m = (m, [])"
  by (simp_all add: reading_def reading_res_def break_def settle_bind split: sum.split)

lemmas procedure_steps =
  rme_event_def mr_event_def rtd_event_def ml_event_def rme_timeout_def mr_timeout_def
  rtd_timeout_def ml_timeout_def settle_reading home_def Let_def

lemma mr_step_timers:
  "pending E_TmrId_Mr_T109 (if mrStatus m = MR_OUTGOING_AWTING_RPS then [mrTmrSqcNumber m] else []) (snd (mr_step dur i m))
      = (if mrStatus (fst (mr_step dur i m)) = MR_OUTGOING_AWTING_RPS then [mrTmrSqcNumber (fst (mr_step dur i m))] else [])
   \<and> timer_ids (snd (mr_step dur i m)) \<subseteq> {E_TmrId_Mr_T109} \<and> addressed (snd (mr_step dur i m))"
proof (cases i)
  case None
  then show ?thesis by (simp add: mr_handlers mr_sends)
next
  case (Some x)
  then show ?thesis
    by (cases x; cases "fst x"; cases "mrStatus m"; cases "mrStatus2 m")
       (auto simp: procedure_steps mr_handlers mr_sends settle_bind split: sum.split)
qed

lemma mr_timeout:
  "mrStatus m = MR_OUTGOING_AWTING_RPS \<Longrightarrow> \<not> mrStatus (fst (mr_timeout (mrTmrSqcNumber m) m)) = MR_OUTGOING_AWTING_RPS"
  "timer_ids (snd (mr_timeout n m)) = {}"
  "n \<noteq> mrTmrSqcNumber m \<Longrightarrow> mr_timeout n m = (m, [])"
  by (simp_all add: procedure_steps mr_handlers mr_sends)

interpretation mr_timed: guarded_procedure
    "\<lambda>_. True" "mr_step dur" mr_timeout E_TmrId_Mr_T109 "\<lambda>m. mrStatus m = MR_OUTGOING_AWTING_RPS" mrTmrSqcNumber for dur
  using mr_step_timers mr_timeout by unfold_locales simp_all

lemma rtd_step_timers:
  "pending E_TmrId_Rtd_T105 (if rtdStatus m = RTD_AWTING_RPS then [rtdTmrSqcNumber m] else []) (snd (rtd_step dur i m))
      = (if rtdStatus (fst (rtd_step dur i m)) = RTD_AWTING_RPS then [rtdTmrSqcNumber (fst (rtd_step dur i m))] else [])
   \<and> timer_ids (snd (rtd_step dur i m)) \<subseteq> {E_TmrId_Rtd_T105} \<and> addressed (snd (rtd_step dur i m))"
proof (cases i)
  case None
  then show ?thesis by (simp add: rtd_handlers rtd_sends)
next
  case (Some x)
  then show ?thesis
    by (cases x; cases "fst (snd x)"; cases "rtdStatus m")
       (auto simp: procedure_steps rtd_handlers rtd_sends settle_bind split: sum.split)
qed

lemma rtd_timeout:
  "rtdStatus m = RTD_AWTING_RPS \<Longrightarrow> \<not> rtdStatus (fst (rtd_timeout (rtdTmrSqcNumber m) m)) = RTD_AWTING_RPS"
  "timer_ids (snd (rtd_timeout n m)) = {}"
  "n \<noteq> rtdTmrSqcNumber m \<Longrightarrow> rtd_timeout n m = (m, [])"
  by (simp_all add: procedure_steps rtd_handlers rtd_sends split: rtd_status.split)

interpretation rtd_timed: guarded_procedure
    "\<lambda>_. True" "rtd_step dur" rtd_timeout E_TmrId_Rtd_T105 "\<lambda>m. rtdStatus m = RTD_AWTING_RPS" rtdTmrSqcNumber for dur
  using rtd_step_timers rtd_timeout by unfold_locales simp_all

lemma ml_step_timers:
  "pending E_TmrId_Ml_T102 (if mlStatus m = ML_OUTGOING_AWTING_RPS then [mlTmrSqcNumber m] else []) (snd (ml_step dur i m))
      = (if mlStatus (fst (ml_step dur i m)) = ML_OUTGOING_AWTING_RPS then [mlTmrSqcNumber (fst (ml_step dur i m))] else [])
   \<and> timer_ids (snd (ml_step dur i m)) \<subseteq> {E_TmrId_Ml_T102} \<and> addressed (snd (ml_step dur i m))"
proof (cases i)
  case None
  then show ?thesis by (simp add: ml_handlers ml_sends)
next
  case (Some x)
  then show ?thesis
    by (cases x; cases "fst x"; cases "mlStatus m")
       (auto simp: procedure_steps ml_handlers ml_sends settle_bind split: sum.split)
qed

lemma ml_timeout:
  "mlStatus m = ML_OUTGOING_AWTING_RPS \<Longrightarrow> \<not> mlStatus (fst (ml_timeout (mlTmrSqcNumber m) m)) = ML_OUTGOING_AWTING_RPS"
  "timer_ids (snd (ml_timeout n m)) = {}"
  "n \<noteq> mlTmrSqcNumber m \<Longrightarrow> ml_timeout n m = (m, [])"
  by (simp_all add: procedure_steps ml_handlers ml_sends split: ml_status.split)

interpretation ml_timed: guarded_procedure
    "\<lambda>_. True" "ml_step dur" ml_timeout E_TmrId_Ml_T102 "\<lambda>m. mlStatus m = ML_OUTGOING_AWTING_RPS" mlTmrSqcNumber for dur
  using ml_step_timers ml_timeout by unfold_locales simp_all

text \<open>RME copies its entry numbers into an array of 15.\<close>

definition rme_ok :: "rme \<Rightarrow> bool" where
  "rme_ok m \<longleftrightarrow> length (OutRMEntries m) \<le> LOCAL_ENTRIES"

lemma RMEntries_Sequence_length [simp]: "length RMEntries_Sequence = 15"
  by (simp add: RMEntries_Sequence_def)

lemma rme_step_ok:
  assumes "rme_ok m"
  shows "rme_ok (fst (rme_step dur i m))" and "rme_ok (fst (rme_timeout n m))"
proof -
  show "rme_ok (fst (rme_step dur i m))"
  proof (cases i)
    case None
    then show ?thesis by (simp add: rme_handlers rme_ok_def LOCAL_ENTRIES_def)
  next
    case (Some x)
    with assms show ?thesis
      by (cases x; cases "fst x"; cases "rmeStatus m"; cases "rmeStatus2 m")
         (auto simp: procedure_steps rme_handlers rme_ok_def settle_bind split: sum.split)
  qed
  show "rme_ok (fst (rme_timeout n m))"
    using assms by (auto simp: procedure_steps rme_handlers rme_ok_def settle_bind split: sum.split)
qed

lemma rme_step_timers:
  assumes "rme_ok m"
  shows "pending E_TmrId_Rme_T107
        (if rmeStatus m = RME_OUTGOING_AWTING_RPS then [rmeTmrSqcNumber m] else []) (snd (rme_step dur i m))
      = (if rmeStatus (fst (rme_step dur i m)) = RME_OUTGOING_AWTING_RPS
         then [rmeTmrSqcNumber (fst (rme_step dur i m))] else [])
   \<and> timer_ids (snd (rme_step dur i m)) \<subseteq> {E_TmrId_Rme_T107} \<and> addressed (snd (rme_step dur i m))"
proof (cases i)
  case None
  then show ?thesis by (simp add: rme_handlers rme_sends)
next
  case (Some x)
  with assms show ?thesis
    by (cases x; cases "fst x"; cases "rmeStatus m"; cases "rmeStatus2 m")
       (auto simp: procedure_steps rme_handlers rme_sends RMEntries_Copy_def rme_ok_def settle_bind send_msg_def
             split: sum.split)
qed

lemma rme_timeout:
  "rme_ok m \<Longrightarrow> rmeStatus m = RME_OUTGOING_AWTING_RPS \<Longrightarrow>
     rmeStatus (fst (rme_timeout (rmeTmrSqcNumber m) m)) \<noteq> RME_OUTGOING_AWTING_RPS"
  "timer_ids (snd (rme_timeout n m)) = {}"
  "n \<noteq> rmeTmrSqcNumber m \<Longrightarrow> rme_timeout n m = (m, [])"
  by (simp_all add: procedure_steps rme_handlers rme_sends RMEntries_Copy_def rme_ok_def send_msg_def)

interpretation rme_timed: guarded_procedure
    rme_ok "rme_step dur" rme_timeout E_TmrId_Rme_T107
    "\<lambda>m. rmeStatus m = RME_OUTGOING_AWTING_RPS" rmeTmrSqcNumber for dur
  using rme_step_ok rme_step_timers rme_timeout by unfold_locales simp_all

section \<open>The outgoing half of a logical channel\<close>

text \<open>The events that the dispatcher runs on an entry of the list of outgoing channels. A
  release request without a block is the one that selects this list.\<close>

fun out_step :: "u32 \<Rightarrow> lcblcse_event \<times> payload option \<Rightarrow> lc_entry \<Rightarrow> lc_entry \<times> effect list" where
  "out_step dur (EVENT_PTV_LCBLC_ETB_REQ, p) e = settle (entry_ETB_REQ dur p e) e"
| "out_step dur (EVENT_PTV_LCBLC_RLS_REQ, p) e = settle (entry_RLS_REQ dur None e) e"
| "out_step dur (EVENT_MSG_LCBLC_OP_ACK, p) e = settle (entry_OP_ACK p e) e"
| "out_step dur (EVENT_MSG_LCBLC_OP_RJT, p) e = settle (entry_OP_RJT p e) e"
| "out_step dur (EVENT_MSG_LCBLC_CL_ACK, p) e = settle (entry_CL_ACK e) e"
| "out_step dur (_, p) e = (e, [])"

definition out_timeout :: "s32 \<Rightarrow> lc_entry \<Rightarrow> lc_entry \<times> effect list" where
  "out_timeout n e = settle (entry_T103 n e) e"

definition out_awaiting :: "lc_entry \<Rightarrow> bool" where
  "out_awaiting e \<longleftrightarrow>
     Status e = LCBLC_OUTGOING_AWTING_ETBMNT \<or> Status e = LCBLC_OUTGOING_AWTING_RLS"

lemmas entry_events =
  entry_ETB_REQ_def entry_OP_def entry_ETB_RPS_def entry_RLS_REQ_def entry_OP_ACK_def entry_OP_CFM_def
  entry_OP_RJT_def entry_T103_def entry_CL_def entry_CL_ACK_def

lemmas entry_branches =
  itn_err_def Nop_XXXX_XXXX_def with_param_def ItnErrNotificationSend_def

text \<open>With the entry well formed, only the four outgoing states have to be looked at.\<close>

lemma outgoing_cases:
  assumes "entry_ok LC_OUTGOING e"
  obtains (rlsed) "Status e = LCBLC_OUTGOING_RLSED" "Directional e = NO_DIRECTIONAL"
  | (etbmnt_uni) "Status e = LCBLC_OUTGOING_AWTING_ETBMNT" "Directional e = UNI_DIRECTIONAL"
  | (etbmnt_bi) "Status e = LCBLC_OUTGOING_AWTING_ETBMNT" "Directional e = BI_DIRECTIONAL"
  | (etbed_uni) "Status e = LCBLC_OUTGOING_ETBED" "Directional e = UNI_DIRECTIONAL"
  | (etbed_bi) "Status e = LCBLC_OUTGOING_ETBED" "Directional e = BI_DIRECTIONAL"
  | (rls_uni) "Status e = LCBLC_OUTGOING_AWTING_RLS" "Directional e = UNI_DIRECTIONAL"
  | (rls_bi) "Status e = LCBLC_OUTGOING_AWTING_RLS" "Directional e = BI_DIRECTIONAL"
  using assms by (cases "Directional e") (auto simp: entry_ok_def)

lemma incoming_cases:
  assumes "entry_ok LC_INCOMING e"
  obtains (rlsed) "Status e = LCBLC_INCOMING_RLSED" "Directional e = NO_DIRECTIONAL"
  | (etbmnt_uni) "Status e = LCBLC_INCOMING_AWTING_ETBMNT" "Directional e = UNI_DIRECTIONAL"
  | (etbmnt_bi) "Status e = LCBLC_INCOMING_AWTING_ETBMNT" "Directional e = BI_DIRECTIONAL"
  | (cnfmtn) "Status e = LCBLC_INCOMING_AWTING_CNFMTN" "Directional e = BI_DIRECTIONAL"
  | (etbed_uni) "Status e = LCBLC_INCOMING_ETBED" "Directional e = UNI_DIRECTIONAL"
  | (etbed_bi) "Status e = LCBLC_INCOMING_ETBED" "Directional e = BI_DIRECTIONAL"
  using assms by (cases "Directional e") (auto simp: entry_ok_def)

text \<open>What an event keeps of its entry.\<close>

definition keeps_entry :: "lc_direction \<Rightarrow> lc_entry \<Rightarrow> (lc_entry \<times> effect list) res \<Rightarrow> bool" where
  "keeps_entry d e r \<longleftrightarrow> (\<forall>e' es. r = Inr (e', es) \<longrightarrow> entry_ok d e' \<and> FwdLcn e' = FwdLcn e)"

lemma keeps_entry_Inl [simp]: "keeps_entry d e (Inl f)"
  by (simp add: keeps_entry_def)

lemma keeps_entry_Inr [simp]:
  "keeps_entry d e (Inr x) \<longleftrightarrow> entry_ok d (fst x) \<and> FwdLcn (fst x) = FwdLcn e"
  by (cases x) (simp add: keeps_entry_def)

lemma keeps_entry_bind: "(\<And>x. m = Inr x \<Longrightarrow> keeps_entry d e (f x)) \<Longrightarrow> keeps_entry d e (bind_res m f)"
  by (cases m) simp_all

lemma keeps_entry_settle: "entry_ok d e \<Longrightarrow> keeps_entry d e r \<Longrightarrow>
    entry_ok d (fst (settle r e)) \<and> FwdLcn (fst (settle r e)) = FwdLcn e"
  by (cases r) simp_all

lemma keeps_entry_param:
  "(\<And>x. entry_ok d (fst (h x e)) \<and> FwdLcn (fst (h x e)) = FwdLcn e') \<Longrightarrow> keeps_entry d e' (with_param sel p h e)"
  by (simp add: with_param_def keeps_entry_bind)

lemma keeps_ETB_REQ:
  assumes "entry_ok LC_OUTGOING e"
  shows "keeps_entry LC_OUTGOING e (entry_ETB_REQ dur p e)"
  using assms
  by (cases "deref to_ForwardReverseParam p"; cases rule: outgoing_cases [OF assms])
     (auto simp: entry_ETB_REQ_def entry_branches lc_handlers blc_handlers entry_ok_def Let_def)

lemma keeps_RLS_REQ_out:
  assumes "entry_ok LC_OUTGOING e"
  shows "keeps_entry LC_OUTGOING e (entry_RLS_REQ dur None e)"
  using assms
  by (cases rule: outgoing_cases [OF assms])
     (auto simp: entry_events entry_branches lc_handlers blc_handlers entry_ok_def Let_def)

lemma keeps_OP_ACK:
  assumes "entry_ok LC_OUTGOING e"
  shows "keeps_entry LC_OUTGOING e (entry_OP_ACK p e)"
  using assms
  by (cases "deref to_OpenLogicalChannelAck p"; cases rule: outgoing_cases [OF assms])
     (auto simp: entry_events entry_branches lc_handlers blc_handlers entry_ok_def Let_def)

lemma keeps_OP_RJT:
  assumes "entry_ok LC_OUTGOING e"
  shows "keeps_entry LC_OUTGOING e (entry_OP_RJT p e)"
  using assms
  by (cases "deref to_OpenLogicalChannelReject p"; cases rule: outgoing_cases [OF assms])
     (auto simp: entry_events entry_branches lc_handlers blc_handlers entry_ok_def Let_def)

lemma keeps_T103:
  assumes "entry_ok LC_OUTGOING e"
  shows "keeps_entry LC_OUTGOING e (entry_T103 n e)"
  using assms
  by (cases rule: outgoing_cases [OF assms])
     (auto simp: entry_events entry_branches lc_handlers blc_handlers entry_ok_def Let_def)

lemma keeps_CL_ACK:
  assumes "entry_ok LC_OUTGOING e"
  shows "keeps_entry LC_OUTGOING e (entry_CL_ACK e)"
  using assms
  by (cases rule: outgoing_cases [OF assms])
     (auto simp: entry_events entry_branches lc_handlers blc_handlers entry_ok_def Let_def)

lemma keeps_OP:
  assumes "entry_ok LC_INCOMING e"
  shows "keeps_entry LC_INCOMING e (entry_OP mst p e)"
  using assms
  by (cases "deref to_OpenLogicalChannel p"; cases rule: incoming_cases [OF assms])
     (auto simp: entry_events entry_branches lc_handlers blc_handlers entry_ok_def Let_def)

lemma keeps_ETB_RPS:
  assumes "entry_ok LC_INCOMING e"
  shows "keeps_entry LC_INCOMING e (entry_ETB_RPS dur p s2 e)"
  using assms
  by (cases "deref to_ReverseData p"; cases rule: incoming_cases [OF assms])
     (auto simp: entry_events entry_branches lc_handlers blc_handlers entry_ok_def Let_def)

lemma keeps_RLS_REQ_in:
  assumes "entry_ok LC_INCOMING e"
  shows "keeps_entry LC_INCOMING e (entry_RLS_REQ dur p e)"
  using assms
  by (cases "deref to_OlcRejectCause p"; cases rule: incoming_cases [OF assms])
     (auto simp: entry_events entry_branches lc_handlers blc_handlers entry_ok_def Let_def)

lemma keeps_OP_CFM:
  assumes "entry_ok LC_INCOMING e"
  shows "keeps_entry LC_INCOMING e (entry_OP_CFM e)"
  using assms
  by (cases rule: incoming_cases [OF assms])
     (auto simp: entry_events entry_branches lc_handlers blc_handlers entry_ok_def Let_def)

lemma keeps_CL:
  assumes "entry_ok LC_INCOMING e"
  shows "keeps_entry LC_INCOMING e (entry_CL p e)"
  using assms
  by (cases "deref to_CloseLogicalChannel p"; cases rule: incoming_cases [OF assms])
     (auto simp: entry_events entry_branches lc_handlers blc_handlers entry_ok_def Let_def)

lemmas keeps_LCBLC =
  keeps_ETB_REQ keeps_RLS_REQ_out keeps_OP_ACK keeps_OP_RJT keeps_T103 keeps_CL_ACK
  keeps_OP keeps_ETB_RPS keeps_RLS_REQ_in keeps_OP_CFM keeps_CL

lemma keeps_CLC:
  assumes "entry_ok LC_OUTGOING e"
  shows "keeps_entry LC_OUTGOING e (entry_CLC e)"
    and "keeps_entry LC_OUTGOING e (when_cls CLS_INCOMING_AWTING_RPS (\<lambda>e. Inr (clc_0402_0011 e)) e)"
    and "keeps_entry LC_OUTGOING e
           (when_cls CLS_INCOMING_AWTING_RPS (with_param to_RccRejectCause p clc_0403_0011) e)"
    and "keeps_entry LC_OUTGOING e (when_cls CLS_INCOMING_AWTING_RPS (\<lambda>e. Inr (clc_0407_0011 e)) e)"
  using assms
  by (auto simp: entry_CLC_def when_cls_def with_param_def clc_handlers entry_ok_def Let_def
      intro!: keeps_entry_bind split: cls_status.split)

lemma keeps_CLC_requests:
  assumes "entry_ok LC_INCOMING e"
  shows "keeps_entry LC_INCOMING e (when_cls CLS_OUTGOING_IDLE (\<lambda>e. Inr (clc_0400_0000 dur e)) e)"
    and "keeps_entry LC_INCOMING e (when_cls CLS_OUTGOING_AWTING_RPS (\<lambda>e. Inr (clc_0404_0010 e)) e)"
    and "keeps_entry LC_INCOMING e
           (when_cls CLS_OUTGOING_AWTING_RPS (with_param to_RequestChannelCloseReject p clc_0405_0010) e)"
    and "keeps_entry LC_INCOMING e (when_cls CLS_OUTGOING_AWTING_RPS (\<lambda>e. Inr (clc_0406_0010 n e)) e)"
  using assms
  by (auto simp: when_cls_def with_param_def clc_handlers entry_ok_def Let_def intro!: keeps_entry_bind)

text \<open>The timer of the outgoing half.\<close>

lemma out_step_keeps:
  assumes "entry_ok LC_OUTGOING e"
  shows "entry_ok LC_OUTGOING (fst (out_step dur i e)) \<and> FwdLcn (fst (out_step dur i e)) = FwdLcn e"
    and "entry_ok LC_OUTGOING (fst (out_timeout n e)) \<and> FwdLcn (fst (out_timeout n e)) = FwdLcn e"
  using assms keeps_LCBLC(1-6) [OF assms]
  by (cases i; cases "fst i"; simp add: keeps_entry_settle out_timeout_def)+

lemma out_step_timers:
  assumes "entry_ok LC_OUTGOING e"
  shows "pending (T103TimerIdGet (FwdLcn e)) (if out_awaiting e then [TmrSqcNumber e] else [])
        (snd (out_step dur i e))
      = (if out_awaiting (fst (out_step dur i e)) then [TmrSqcNumber (fst (out_step dur i e))] else [])
    \<and> timer_ids (snd (out_step dur i e)) \<subseteq> {T103TimerIdGet (FwdLcn e)} \<and> addressed (snd (out_step dur i e))"
proof -
  obtain ev p where i: "i = (ev, p)" by (cases i)
  show ?thesis
    unfolding i using assms
    by (cases ev; cases "deref to_ForwardReverseParam p"; cases "deref to_OpenLogicalChannelAck p";
        cases "deref to_OpenLogicalChannelReject p"; cases rule: outgoing_cases [OF assms])
       (auto simp: entry_events entry_branches lc_handlers blc_handlers out_awaiting_def Let_def)
qed

lemmas out_timeout_defs =
  out_timeout_def entry_T103_def entry_branches lc_handlers blc_handlers out_awaiting_def Let_def

lemma out_timeout_leaves:
  assumes "entry_ok LC_OUTGOING e"
  shows "\<not> out_awaiting (fst (out_timeout (TmrSqcNumber e) e))"
  by (cases rule: outgoing_cases [OF assms]) (simp_all add: out_timeout_defs)

lemma out_timeout_silent:
  assumes "entry_ok LC_OUTGOING e"
  shows "timer_ids (snd (out_timeout n e)) = {}"
  by (cases rule: outgoing_cases [OF assms]) (simp_all add: out_timeout_defs)

lemma out_timeout_stale:
  assumes "entry_ok LC_OUTGOING e" and "n \<noteq> TmrSqcNumber e"
  shows "out_timeout n e = (e, [])"
  using assms(2) by (cases rule: outgoing_cases [OF assms(1)]) (simp_all add: out_timeout_defs)

interpretation out_timed: timed_procedure
    "\<lambda>e. entry_ok LC_OUTGOING e \<and> FwdLcn e = lcn" "out_step dur" out_timeout "T103TimerIdGet lcn"
    out_awaiting TmrSqcNumber for dur lcn
  using out_step_keeps out_step_timers out_timeout_leaves out_timeout_silent
  by unfold_locales blast+

section \<open>The requesting half of a close request\<close>

fun clc_step :: "u32 \<Rightarrow> clcse_event \<times> payload option \<Rightarrow> lc_entry \<Rightarrow> lc_entry \<times> effect list" where
  "clc_step dur (EVENT_PTV_CLC_CLS_REQ, p) e =
     settle (when_cls CLS_OUTGOING_IDLE (\<lambda>e. Inr (clc_0400_0000 dur e)) e) e"
| "clc_step dur (EVENT_MSG_CLC_ACK, p) e =
     settle (when_cls CLS_OUTGOING_AWTING_RPS (\<lambda>e. Inr (clc_0404_0010 e)) e) e"
| "clc_step dur (EVENT_MSG_CLC_RJT, p) e =
     settle (when_cls CLS_OUTGOING_AWTING_RPS
       (with_param to_RequestChannelCloseReject p clc_0405_0010) e) e"
| "clc_step dur (_, p) e = (e, [])"

definition clc_timeout :: "s32 \<Rightarrow> lc_entry \<Rightarrow> lc_entry \<times> effect list" where
  "clc_timeout n e = settle (when_cls CLS_OUTGOING_AWTING_RPS (\<lambda>e. Inr (clc_0406_0010 n e)) e) e"

lemma T108TimerIdGet_eq: "T108TimerIdGet e = push_bit 16 (FwdLcn e) OR E_TmrId_Clc_T108"
  by (simp add: T108TimerIdGet_def)

lemma home_T108_eq: "home (push_bit 16 (FwdLcn (e :: lc_entry)) OR E_TmrId_Clc_T108) = None"
  using home_T108 [of e] by (simp only: T108TimerIdGet_eq)

lemma clc_step_keeps:
  assumes "entry_ok LC_INCOMING e"
  shows "entry_ok LC_INCOMING (fst (clc_step dur i e)) \<and> FwdLcn (fst (clc_step dur i e)) = FwdLcn e"
    and "entry_ok LC_INCOMING (fst (clc_timeout n e)) \<and> FwdLcn (fst (clc_timeout n e)) = FwdLcn e"
  using assms keeps_CLC_requests [OF assms]
  by (cases i; cases "fst i"; simp add: keeps_entry_settle clc_timeout_def)+

lemma clc_step_timers:
  "pending (push_bit 16 (FwdLcn e) OR E_TmrId_Clc_T108)
        (if ClcStatus e = CLS_OUTGOING_AWTING_RPS then [ClcTmrSqcNumber e] else []) (snd (clc_step dur i e))
      = (if ClcStatus (fst (clc_step dur i e)) = CLS_OUTGOING_AWTING_RPS
         then [ClcTmrSqcNumber (fst (clc_step dur i e))] else [])
    \<and> timer_ids (snd (clc_step dur i e)) \<subseteq> {push_bit 16 (FwdLcn e) OR E_TmrId_Clc_T108} \<and> addressed (snd (clc_step dur i e))"
proof -
  obtain ev p where i: "i = (ev, p)" by (cases i)
  show ?thesis
    unfolding i
    by (cases ev; cases "deref to_RequestChannelCloseReject p")
       (auto simp: when_cls_def with_param_def clc_handlers clc_sends T108TimerIdGet_eq home_T108_eq Let_def)
qed

lemma clc_timeout_facts:
  "ClcStatus e = CLS_OUTGOING_AWTING_RPS \<Longrightarrow>
     ClcStatus (fst (clc_timeout (ClcTmrSqcNumber e) e)) \<noteq> CLS_OUTGOING_AWTING_RPS"
  "timer_ids (snd (clc_timeout n e)) = {}"
  "n \<noteq> ClcTmrSqcNumber e \<Longrightarrow> clc_timeout n e = (e, [])"
  by (simp_all add: clc_timeout_def when_cls_def clc_handlers clc_sends Let_def)

interpretation clc_timed: guarded_procedure
    "\<lambda>e. entry_ok LC_INCOMING e \<and> FwdLcn e = lcn" "clc_step dur" clc_timeout
    "push_bit 16 lcn OR E_TmrId_Clc_T108"
    "\<lambda>e. ClcStatus e = CLS_OUTGOING_AWTING_RPS" ClcTmrSqcNumber for dur lcn
  using clc_step_keeps clc_step_timers clc_timeout_facts by unfold_locales blast+

end
