(* ===== verification/SeInvariant.thy ===== *)
theory SeInvariant
  imports SeTimers Procedures
begin

text \<open>
  Invariants of the whole entity. First the structural one: the lists of channels hold entries
  of their own half only, the loop procedure stays on its outgoing side, RME has at most the
  entries it can send. It is kept by every input, ticks of both timers included.
\<close>

section \<open>Results of steps\<close>

definition ensures :: "(se \<Rightarrow> bool) \<Rightarrow> se res \<Rightarrow> bool" where
  "ensures P r \<longleftrightarrow> (\<forall>s. r = Inr s \<longrightarrow> P s)"

lemma ensures_simps [simp]: "ensures P (Inl e)" "ensures P (Inr s) \<longleftrightarrow> P s"
  by (simp_all add: ensures_def)

lemma ensures_bind: "(\<And>x. m = Inr x \<Longrightarrow> ensures P (f x)) \<Longrightarrow> ensures P (bind_res m f)"
  by (cases m) simp_all

lemma ensures_run: "(\<And>x. r = Inr x \<Longrightarrow> P (put x s)) \<Longrightarrow> ensures P (run_res put r s)"
  by (simp add: run_res_def ensures_bind)

section \<open>The structural invariant\<close>

definition channels_ok :: "se \<Rightarrow> bool" where
  "channels_ok s \<longleftrightarrow> (\<forall>d. Direction (channels d s) = d \<and> list_ok (channels d s))"

definition ml_outgoing :: "ml \<Rightarrow> bool" where
  "ml_outgoing m \<longleftrightarrow>
     mlStatus m \<in> {ML_OUTGOING_NOT_LOOPED, ML_OUTGOING_AWTING_RPS, ML_OUTGOING_LOOPED}"

definition se_ok :: "se \<Rightarrow> bool" where
  "se_ok s \<longleftrightarrow> channels_ok s \<and> ml_outgoing (MyML s) \<and> rme_ok (MyRME s)"

lemma se_ok_frame:
  assumes "LCBLCOutgoing s' = LCBLCOutgoing s" "LCBLCIncoming s' = LCBLCIncoming s" "MyML s' = MyML s"
    "MyRME s' = MyRME s"
  shows "se_ok s' = se_ok s"
  using assms by (simp add: se_ok_def channels_ok_def channels_def split: lc_direction.split)

lemma se_ok_performs [simp]: "se_ok (performs es s) = se_ok s"
  by (rule se_ok_frame) simp_all

lemma se_ok_perform [simp]: "se_ok (perform e s) = se_ok s"
  by (rule se_ok_frame) (simp_all add: perform_frame)

lemma se_ok_put [simp]:
  "se_ok (put_MSD r1 s) = se_ok s" "se_ok (put_CE r2 s) = se_ok s" "se_ok (put_MT r3 s) = se_ok s"
  "se_ok (put_RTD r4 s) = se_ok s" "se_ok (put_MR r5 s) = se_ok s"
  unfolding put_defs se_ok_performs by (rule se_ok_frame; simp)+

lemma channels_put [simp]:
  "channels d (put_ML r s) = channels d s" "channels d (put_RME r' s) = channels d s"
  "MyML (put_ML r s) = fst r" "MyML (put_RME r' s) = MyML s"
  "MyRME (put_ML r s) = MyRME s" "MyRME (put_RME r' s) = fst r'"
  by (cases d; simp add: put_defs channels_def)+

lemma ml_event_outgoing:
  assumes "ml_outgoing m" and "ml_event dur ev p n m = Inr (m', es)"
  shows "ml_outgoing m'"
  using assms
  by (cases ev; cases "mlStatus m")
     (auto simp: ml_event_def ml_outgoing_def reading_def break_def bind_res_Inr_iff ml_handlers
           split: if_splits)

lemma rme_event_ok:
  assumes "rme_ok m" and "rme_event dur ev p n m = Inr (m', es)"
  shows "rme_ok m'"
  using assms
  by (cases ev; cases "rmeStatus m"; cases "rmeStatus2 m")
     (auto simp: rme_event_def rme_ok_def reading_res_def break_def bind_res_Inr_iff rme_handlers Let_def
           split: if_splits)

lemma se_ok_write:
  assumes "se_ok s" and "i < length (EntryList (channels d s))" and "entry_ok d e"
  shows "se_ok (performs es (set_channels d (write_entry i e (channels d s)) s))"
proof -
  have "Direction (channels d s) = d" "list_ok (channels d s)"
    using assms(1) by (simp_all add: se_ok_def channels_ok_def)
  then have "list_ok (write_entry i e (channels d s))" "Direction (write_entry i e (channels d s)) = d"
    using assms(3) by (auto simp: write_entry_def intro: list_ok_write [unfolded write_entry_def])
  then show ?thesis
    using assms(1) unfolding se_ok_performs
    by (auto simp: se_ok_def channels_ok_def) (metis channels_set)+
qed

lemma se_ok_on_entry:
  assumes "se_ok s" and "i < length (EntryList (channels d s))"
    and "\<And>e. entry_ok d e \<Longrightarrow> keeps_entry d e (f e)"
  shows "ensures se_ok (on_entry d i f s)"
proof -
  let ?e = "entry_at i (channels d s)"
  have "entry_ok d ?e"
    using assms(1) list_ok_entry [OF _ assms(2)] by (auto simp: se_ok_def channels_ok_def)
  from assms(3) [OF this] have keep: "keeps_entry d ?e (f ?e)" .
  show ?thesis
    unfolding on_entry_def
  proof (rule ensures_bind)
    fix x assume "f ?e = Inr x"
    with keep have "entry_ok d (fst x)" by simp
    from se_ok_write [OF assms(1,2) this] show "ensures se_ok (case x of (e, es) \<Rightarrow>
        Inr (performs es (set_channels d (write_entry i e (channels d s)) s)))"
      by (simp add: case_prod_unfold)
  qed
qed

lemma se_ok_with_entry:
  assumes "se_ok s" and "\<And>e. entry_ok d e \<Longrightarrow> keeps_entry d e (f e)"
  shows "ensures se_ok (with_entry d lcn f s)"
proof (cases "GetLCEntry lcn (channels d s)")
  case None
  with assms(1) show ?thesis by (simp add: with_entry_def)
next
  case (Some i)
  then have "i < length (EntryList (channels d s))" by (auto simp: GetLCEntry_def Let_def dest: find_index_Some)
  from se_ok_on_entry [OF assms(1) this assms(2)] Some show ?thesis by (simp add: with_entry_def)
qed

lemma se_ok_set_channels:
  assumes "se_ok s" and "list_ok l" and "Direction l = d"
  shows "se_ok (set_channels d l s)"
  using assms by (auto simp: se_ok_def channels_ok_def) (metis channels_set)+

lemma se_ok_with_new_entry:
  assumes "se_ok s" and "\<And>e. entry_ok d e \<Longrightarrow> keeps_entry d e (f e)"
  shows "ensures se_ok (with_new_entry d lcn f s)"
proof (cases "GetLCEntry lcn (channels d s)")
  case None
  obtain i l where il: "NewLCEntry lcn (channels d s) = (i, l)" by (cases "NewLCEntry lcn (channels d s)")
  then have "l = snd (NewLCEntry lcn (channels d s))" by simp
  then have "list_ok l" "Direction l = d" and i: "i < length (EntryList l)"
    using il assms(1) list_ok_new [of "channels d s" lcn]
    by (auto simp: se_ok_def channels_ok_def NewLCEntry_def)
  from se_ok_set_channels [OF assms(1) this(1,2)]
  have "ensures se_ok (on_entry d i f (set_channels d l s))"
    by (rule se_ok_on_entry) (use i assms(2) in simp_all)
  with None il show ?thesis by (simp add: with_new_entry_def)
next
  case (Some i)
  then have "i < length (EntryList (channels d s))" by (auto simp: GetLCEntry_def Let_def dest: find_index_Some)
  from se_ok_on_entry [OF assms(1) this assms(2)] Some show ?thesis by (simp add: with_new_entry_def)
qed

lemmas se_ok_entries =
  se_ok_with_entry se_ok_with_new_entry keeps_LCBLC keeps_CLC keeps_CLC_requests

lemma se_ok_Dispatch: "se_ok s \<Longrightarrow> ensures se_ok (Dispatch ev p sup1 sup2 enc s)"
proof (cases ev)
  case (EVENT_LCBLCSE x)
  then show "se_ok s \<Longrightarrow> ?thesis"
    by (cases x; cases p) (auto simp: Dispatch_LCBLCSE_def Let_def intro!: ensures_bind se_ok_entries)
next
  case (EVENT_CLCSE x)
  then show "se_ok s \<Longrightarrow> ?thesis"
    by (cases x) (auto simp: Dispatch_CLCSE_def Let_def intro!: ensures_bind se_ok_entries)
next
  case (EVENT_RMESE x)
  then show "se_ok s \<Longrightarrow> ?thesis"
    by (auto intro!: ensures_run simp: se_ok_def channels_ok_def dest: rme_event_ok)
next
  case (EVENT_MLSE x)
  then show "se_ok s \<Longrightarrow> ?thesis"
    by (auto intro!: ensures_run simp: se_ok_def channels_ok_def dest: ml_event_outgoing)
qed (auto intro!: ensures_run)

lemma se_ok_InformationRecv: "se_ok s \<Longrightarrow> ensures se_ok (InformationRecv h s)"
  by (auto simp: InformationRecv_def se_ok_Dispatch split: option.split)

lemma se_ok_MessageRecv: "se_ok s \<Longrightarrow> ensures se_ok (MessageRecv type1 type2 p enc s)"
  by (auto simp: MessageRecv_def se_ok_Dispatch split: option.split)

lemma se_ok_callback: "se_ok s \<Longrightarrow> ensures se_ok (timer_callback obs i p s)"
  by (cases obs) (auto simp: SE_TimeoutOccurred_def intro: se_ok_InformationRecv ensures_run)

lemma se_ok_upper_step: "se_ok s \<Longrightarrow> se_ok (upper_step c s)"
  by (cases c) simp_all

lemma se_ok_upper_steps: "se_ok s \<Longrightarrow> se_ok (fold upper_step cs s)"
  by (induction cs arbitrary: s) (simp_all add: se_ok_upper_step)

lemma se_ok_answered: "se_ok s \<Longrightarrow> ensures se_ok (answered ans obs i p s)"
  unfolding answered_def
  by (cases "timer_callback obs i p s")
     (use se_ok_callback [of s obs i p] in \<open>auto simp: ensures_def intro: se_ok_upper_steps\<close>)

lemma se_ok_upd [simp]: "se_ok (upd_MyTimer f s) = se_ok s" "se_ok (upd_mtTimer f s) = se_ok s"
  by (rule se_ok_frame; simp add: upd_MyTimer_def upd_mtTimer_def)+

lemma se_ok_ticks:
  assumes "se_ok s"
  shows "ensures se_ok (SE_tick ans s)" and "ensures se_ok (MT_tick ans s)"
proof -
  have cb: "se_ok s2" if "se_ok s1" and "answered ans obs i p s1 = Inr s2" for obs i p s1 s2
    using se_ok_answered [OF that(1), of ans obs i p] that(2) by (simp add: ensures_def)
  have "se_ok s'" if "SE_tick ans s = Inr s'" for s'
    using that unfolding SE_tick_def
    by (rule TimerBaseElapsed_keeps [where I = se_ok, OF assms _ cb, rotated -1]) simp_all
  moreover have "se_ok s'" if "MT_tick ans s = Inr s'" for s'
    using that unfolding MT_tick_def
    by (rule TimerBaseElapsed_keeps [where I = se_ok, OF assms _ cb, rotated -1]) simp_all
  ultimately show "ensures se_ok (SE_tick ans s)" and "ensures se_ok (MT_tick ans s)"
    by (simp_all add: ensures_def)
qed

lemma se_ok_SE_Reset:
  assumes "se_ok s"
  shows "se_ok (SE_Reset s)"
proof -
  have "list_ok (list_Reset (channels d s))" "Direction (list_Reset (channels d s)) = d" for d
    using assms list_ok_Reset by (auto simp: se_ok_def channels_ok_def list_Reset_def)
  from this [of LC_OUTGOING] this [of LC_INCOMING] assms show ?thesis
    by (auto simp: SE_Reset_def Let_def se_ok_def channels_ok_def channels_def put_defs perform_frame
        ml_outgoing_def ml_Reset_def rme_Reset_def rme_ok_def LOCAL_ENTRIES_def split: lc_direction.split)
qed

lemma se_ok_step: "se_ok s \<Longrightarrow> ensures se_ok (se_step i s)"
  by (cases i) (auto simp: se_ok_InformationRecv se_ok_MessageRecv se_ok_ticks se_ok_SE_Reset se_ok_upper_step
      SetTimers_def intro: iffD1 [OF se_ok_frame, rotated -1])

lemma se_ok_start: "se_ok (SetH245 h (SetPer p (new_SE rnd period)))"
  by (simp add: se_ok_def channels_ok_def channels_def SetH245_def SetPer_def new_SE_def list_ok_def
      ml_outgoing_def new_ML_def rme_ok_def new_RME_def LOCAL_ENTRIES_def split: lc_direction.split)

lemma reachable_ok: "se_reachable s \<Longrightarrow> se_ok s"
  by (induction rule: se_reachable.induct) (use se_ok_start se_ok_step in \<open>auto simp: ensures_def\<close>)

end
