(* ===== verification/ProcedureTimers.thy ===== *)
theory ProcedureTimers
  imports SeInvariant
begin

text \<open>
  The timers of the six procedures that have one timer each, in the whole entity: between two
  inputs, the list of \<^verbatim>\<open>MyTimer\<close> holds exactly one entry of a procedure that waits, with the
  current number, and none of a procedure that does not. The step lemmas come from the
  interpretations of \<open>timed_procedure\<close>; what is added here is the tick, in which several timers
  expire and the calls of their handlers are queued.
\<close>

section \<open>Procedures and their timers\<close>

datatype proc = Proc_MSD | Proc_CE | Proc_RME | Proc_MR | Proc_RTD | Proc_ML

fun proc_tid :: "proc \<Rightarrow> s32" where
  "proc_tid Proc_MSD = 106"
| "proc_tid Proc_CE = 101"
| "proc_tid Proc_RME = E_TmrId_Rme_T107"
| "proc_tid Proc_MR = E_TmrId_Mr_T109"
| "proc_tid Proc_RTD = E_TmrId_Rtd_T105"
| "proc_tid Proc_ML = E_TmrId_Ml_T102"

fun awaits :: "proc \<Rightarrow> se \<Rightarrow> bool" where
  "awaits Proc_MSD s = (msdState (MyMSD s) \<noteq> MSD_IDLE)"
| "awaits Proc_CE s = (OutgoingState (MyCE s) \<noteq> CE_IDLE)"
| "awaits Proc_RME s = (rmeStatus (MyRME s) = RME_OUTGOING_AWTING_RPS)"
| "awaits Proc_MR s = (mrStatus (MyMR s) = MR_OUTGOING_AWTING_RPS)"
| "awaits Proc_RTD s = (rtdStatus (MyRTD s) = RTD_AWTING_RPS)"
| "awaits Proc_ML s = (mlStatus (MyML s) = ML_OUTGOING_AWTING_RPS)"

fun current_number :: "proc \<Rightarrow> se \<Rightarrow> s32" where
  "current_number Proc_MSD s = 0"
| "current_number Proc_CE s = 0"
| "current_number Proc_RME s = rmeTmrSqcNumber (MyRME s)"
| "current_number Proc_MR s = mrTmrSqcNumber (MyMR s)"
| "current_number Proc_RTD s = rtdTmrSqcNumber (MyRTD s)"
| "current_number Proc_ML s = mlTmrSqcNumber (MyML s)"

definition running :: "proc \<Rightarrow> se \<Rightarrow> s32 list" where
  "running q s = (if awaits q s then [current_number q s] else [])"

lemma proc_tid_inject [simp]: "proc_tid q = proc_tid q' \<longleftrightarrow> q = q'"
  by (cases q; cases q') simp_all

lemma running_frame:
  assumes "MyMSD s' = MyMSD s" "MyCE s' = MyCE s" "MyRME s' = MyRME s" "MyMR s' = MyMR s"
    "MyRTD s' = MyRTD s" "MyML s' = MyML s"
  shows "running q s' = running q s"
  using assms by (cases q) (simp_all add: running_def)

lemma running_performs [simp]: "running q (performs es s) = running q s"
  by (rule running_frame) simp_all

lemma running_perform [simp]: "running q (perform e s) = running q s"
  by (rule running_frame) (simp_all add: perform_frame)

lemma running_upd [simp]:
  "running q (upd_MyTimer f s) = running q s" "running q (upd_mtTimer f s) = running q s"
  by (rule running_frame; simp add: upd_MyTimer_def upd_mtTimer_def)+

lemma running_put [simp]:
  "q \<noteq> Proc_MSD \<Longrightarrow> running q (put_MSD r1 s) = running q s"
  "q \<noteq> Proc_CE \<Longrightarrow> running q (put_CE r2 s) = running q s"
  "running q (put_MT r3 s) = running q s"
  "q \<noteq> Proc_RTD \<Longrightarrow> running q (put_RTD r4 s) = running q s"
  "q \<noteq> Proc_MR \<Longrightarrow> running q (put_MR r5 s) = running q s"
  "q \<noteq> Proc_RME \<Longrightarrow> running q (put_RME r6 s) = running q s"
  "q \<noteq> Proc_ML \<Longrightarrow> running q (put_ML r7 s) = running q s"
  by (cases q; simp add: put_defs running_def)+

text \<open>The ids that the entity uses: those of the procedures, and those of channels, whose low
  half is the number of T103 or of T108.\<close>

definition channel_id :: "s32 \<Rightarrow> bool" where
  "channel_id i \<longleftrightarrow> i AND 0xFFFF = E_TmrId_LcBlc_T103 \<or> i AND 0xFFFF = E_TmrId_Clc_T108"

lemma proc_tid_not_channel [simp]: "\<not> channel_id (proc_tid q)"
  by (cases q) (simp_all add: channel_id_def)

lemma channel_id_T103 [simp]: "channel_id (T103TimerIdGet l)"
  by (simp add: channel_id_def T103_low)

lemma channel_id_T108 [simp]: "channel_id (T108TimerIdGet e)"
  by (simp add: channel_id_def T108_low)

definition known_id :: "s32 \<Rightarrow> bool" where
  "known_id i \<longleftrightarrow> i \<in> range proc_tid \<or> channel_id i"

section \<open>Steps between ticks\<close>

text \<open>A step keeps pace with its timers if its calls turn the timers that ran into those that
  should run.\<close>

definition keeps_pace :: "effect list \<Rightarrow> se \<Rightarrow> se \<Rightarrow> bool" where
  "keeps_pace es s s' \<longleftrightarrow>
     served es s s' \<and> addressed es \<and> (\<forall>i \<in> timer_ids es. known_id i)
     \<and> (\<forall>q. pending (proc_tid q) (running q s) es = running q s')"

lemma keeps_pace_put:
  assumes "served es s s'" and "addressed es" and "timer_ids es \<subseteq> {proc_tid q}"
    and "pending (proc_tid q) (running q s) es = running q s'"
    and "\<And>q'. q' \<noteq> q \<Longrightarrow> running q' s' = running q' s"
  shows "keeps_pace es s s'"
proof -
  have "pending (proc_tid q') (running q' s) es = running q' s'" for q'
  proof (cases "q' = q")
    case False
    then have "proc_tid q' \<notin> timer_ids es" using assms(3) by auto
    then show ?thesis using assms(5) [OF False] by (simp add: pending_other)
  qed (use assms(4) in simp)
  moreover have "\<forall>i \<in> timer_ids es. known_id i"
    using assms(3) by (auto simp: known_id_def)
  ultimately show ?thesis using assms(1,2) by (simp add: keeps_pace_def)
qed

lemma running_eqs:
  "running Proc_MSD s = (if msdState (MyMSD s) \<noteq> MSD_IDLE then [0] else [])"
  "running Proc_CE s = (if OutgoingState (MyCE s) \<noteq> CE_IDLE then [0] else [])"
  "running Proc_RME s = (if rmeStatus (MyRME s) = RME_OUTGOING_AWTING_RPS then [rmeTmrSqcNumber (MyRME s)] else [])"
  "running Proc_MR s = (if mrStatus (MyMR s) = MR_OUTGOING_AWTING_RPS then [mrTmrSqcNumber (MyMR s)] else [])"
  "running Proc_RTD s = (if rtdStatus (MyRTD s) = RTD_AWTING_RPS then [rtdTmrSqcNumber (MyRTD s)] else [])"
  "running Proc_ML s = (if mlStatus (MyML s) = ML_OUTGOING_AWTING_RPS then [mlTmrSqcNumber (MyML s)] else [])"
  by (simp_all add: running_def)

lemma put_own [simp]:
  "MyMSD (put_MSD r1 s) = fst r1" "MyCE (put_CE r2 s) = fst r2" "MyRME (put_RME r3 s) = fst r3"
  "MyMR (put_MR r4 s) = fst r4" "MyRTD (put_RTD r5 s) = fst r5" "MyML (put_ML r6 s) = fst r6"
  by (simp_all add: put_defs)

lemma keeps_pace_MSD:
  shows "keeps_pace (snd (msd_step dur i (MyMSD s))) s (put_MSD (msd_step dur i (MyMSD s)) s)"
  by (rule keeps_pace_put [where q = Proc_MSD])
     (use msd_timed.step_own [where dur = dur and s = "MyMSD s" and i = i] msd_timed.step_timers [where dur = dur and s = "MyMSD s" and i = i]
      in \<open>simp_all add: served_put running_eqs cong: if_cong split del: if_split\<close>)

lemma keeps_pace_CE:
  shows "keeps_pace (snd (ce_step dur i (MyCE s))) s (put_CE (ce_step dur i (MyCE s)) s)"
  by (rule keeps_pace_put [where q = Proc_CE])
     (use ce_timed.step_own [where dur = dur and s = "MyCE s" and i = i] ce_timed.step_timers [where dur = dur and s = "MyCE s" and i = i]
      in \<open>simp_all add: served_put running_eqs cong: if_cong split del: if_split\<close>)

lemma keeps_pace_RME:
  assumes "rme_ok (MyRME s)"
  shows "keeps_pace (snd (rme_step dur i (MyRME s))) s (put_RME (rme_step dur i (MyRME s)) s)"
  by (rule keeps_pace_put [where q = Proc_RME])
     (use rme_timed.step_own [OF assms, of dur i] rme_timed.step_timers [OF assms, of dur i]
      in \<open>simp_all add: served_put running_eqs cong: if_cong split del: if_split\<close>)

lemma keeps_pace_MR:
  shows "keeps_pace (snd (mr_step dur i (MyMR s))) s (put_MR (mr_step dur i (MyMR s)) s)"
  by (rule keeps_pace_put [where q = Proc_MR])
     (use mr_timed.step_own [where dur = dur and s = "MyMR s" and i = i] mr_timed.step_timers [where dur = dur and s = "MyMR s" and i = i]
      in \<open>simp_all add: served_put running_eqs cong: if_cong split del: if_split\<close>)

lemma keeps_pace_RTD:
  shows "keeps_pace (snd (rtd_step dur i (MyRTD s))) s (put_RTD (rtd_step dur i (MyRTD s)) s)"
  by (rule keeps_pace_put [where q = Proc_RTD])
     (use rtd_timed.step_own [where dur = dur and s = "MyRTD s" and i = i] rtd_timed.step_timers [where dur = dur and s = "MyRTD s" and i = i]
      in \<open>simp_all add: served_put running_eqs cong: if_cong split del: if_split\<close>)

lemma keeps_pace_ML:
  shows "keeps_pace (snd (ml_step dur i (MyML s))) s (put_ML (ml_step dur i (MyML s)) s)"
  by (rule keeps_pace_put [where q = Proc_ML])
     (use ml_timed.step_own [where dur = dur and s = "MyML s" and i = i] ml_timed.step_timers [where dur = dur and s = "MyML s" and i = i]
      in \<open>simp_all add: served_put running_eqs cong: if_cong split del: if_split\<close>)

lemmas keeps_pace_steps =
  keeps_pace_MSD keeps_pace_CE keeps_pace_RME keeps_pace_MR keeps_pace_RTD keeps_pace_ML

text \<open>The events of channels start and stop timers of channels only.\<close>

definition channel_calls :: "(lc_entry \<times> effect list) res \<Rightarrow> bool" where
  "channel_calls r \<longleftrightarrow>
     (\<forall>e es. r = Inr (e, es) \<longrightarrow> addressed es \<and> (\<forall>i \<in> timer_ids es. channel_id i))"

lemma channel_calls_simps [simp]:
  "channel_calls (Inl f)"
  "channel_calls (Inr x) \<longleftrightarrow> addressed (snd x) \<and> (\<forall>i \<in> timer_ids (snd x). channel_id i)"
  by (cases x; simp add: channel_calls_def)+

lemma channel_calls_bind: "(\<And>x. channel_calls (f x)) \<Longrightarrow> channel_calls (bind_res m f)"
  by (cases m) simp_all

lemma calls_ETB_REQ:
  assumes "entry_ok LC_OUTGOING e"
  shows "channel_calls (entry_ETB_REQ dur p e)"
  using assms
  by (cases "deref to_ForwardReverseParam p"; cases rule: outgoing_cases [OF assms])
     (auto simp: entry_events entry_branches lc_handlers blc_handlers Let_def)

lemma calls_RLS_REQ_out:
  assumes "entry_ok LC_OUTGOING e"
  shows "channel_calls (entry_RLS_REQ dur None e)"
  using assms
  by (cases rule: outgoing_cases [OF assms])
     (auto simp: entry_events entry_branches lc_handlers blc_handlers Let_def)

lemma calls_OP_ACK:
  assumes "entry_ok LC_OUTGOING e"
  shows "channel_calls (entry_OP_ACK p e)"
  using assms
  by (cases "deref to_OpenLogicalChannelAck p"; cases rule: outgoing_cases [OF assms])
     (auto simp: entry_events entry_branches lc_handlers blc_handlers Let_def)

lemma calls_OP_RJT:
  assumes "entry_ok LC_OUTGOING e"
  shows "channel_calls (entry_OP_RJT p e)"
  using assms
  by (cases "deref to_OpenLogicalChannelReject p"; cases rule: outgoing_cases [OF assms])
     (auto simp: entry_events entry_branches lc_handlers blc_handlers Let_def)

lemma calls_T103:
  assumes "entry_ok LC_OUTGOING e"
  shows "channel_calls (entry_T103 n e)"
  using assms
  by (cases rule: outgoing_cases [OF assms])
     (auto simp: entry_events entry_branches lc_handlers blc_handlers Let_def)

lemma calls_CL_ACK:
  assumes "entry_ok LC_OUTGOING e"
  shows "channel_calls (entry_CL_ACK e)"
  using assms
  by (cases rule: outgoing_cases [OF assms])
     (auto simp: entry_events entry_branches lc_handlers blc_handlers Let_def)

lemma calls_OP:
  assumes "entry_ok LC_INCOMING e"
  shows "channel_calls (entry_OP mst p e)"
  using assms
  by (cases "deref to_OpenLogicalChannel p"; cases rule: incoming_cases [OF assms])
     (auto simp: entry_events entry_branches lc_handlers blc_handlers Let_def)

lemma calls_ETB_RPS:
  assumes "entry_ok LC_INCOMING e"
  shows "channel_calls (entry_ETB_RPS dur p s2 e)"
  using assms
  by (cases "deref to_ReverseData p"; cases rule: incoming_cases [OF assms])
     (auto simp: entry_events entry_branches lc_handlers blc_handlers Let_def)

lemma calls_RLS_REQ_in:
  assumes "entry_ok LC_INCOMING e"
  shows "channel_calls (entry_RLS_REQ dur p e)"
  using assms
  by (cases "deref to_OlcRejectCause p"; cases rule: incoming_cases [OF assms])
     (auto simp: entry_events entry_branches lc_handlers blc_handlers Let_def)

lemma calls_OP_CFM:
  assumes "entry_ok LC_INCOMING e"
  shows "channel_calls (entry_OP_CFM e)"
  using assms
  by (cases rule: incoming_cases [OF assms])
     (auto simp: entry_events entry_branches lc_handlers blc_handlers Let_def)

lemma calls_CL:
  assumes "entry_ok LC_INCOMING e"
  shows "channel_calls (entry_CL p e)"
  using assms
  by (cases "deref to_CloseLogicalChannel p"; cases rule: incoming_cases [OF assms])
     (auto simp: entry_events entry_branches lc_handlers blc_handlers Let_def)

lemmas calls_LCBLC =
  calls_ETB_REQ calls_RLS_REQ_out calls_OP_ACK calls_OP_RJT calls_T103 calls_CL_ACK calls_OP
  calls_ETB_RPS calls_RLS_REQ_in calls_OP_CFM calls_CL

lemma calls_CLC:
  "channel_calls (entry_CLC e)"
  "channel_calls (when_cls cs (\<lambda>e. Inr (clc_0402_0011 e)) e)"
  "channel_calls (when_cls cs (with_param to_RccRejectCause p clc_0403_0011) e)"
  "channel_calls (when_cls cs (\<lambda>e. Inr (clc_0407_0011 e)) e)"
  "channel_calls (when_cls cs (\<lambda>e. Inr (clc_0400_0000 dur e)) e)"
  "channel_calls (when_cls cs (\<lambda>e. Inr (clc_0404_0010 e)) e)"
  "channel_calls (when_cls cs (with_param to_RequestChannelCloseReject p clc_0405_0010) e)"
  "channel_calls (when_cls cs (\<lambda>e. Inr (clc_0406_0010 n e)) e)"
  by (auto simp: entry_CLC_def when_cls_def with_param_def clc_handlers clc_sends Let_def
      intro!: channel_calls_bind split: cls_status.split)

lemma keeps_pace_silent:
  assumes "served es s s'" and "addressed es" and "\<And>i. i \<in> timer_ids es \<Longrightarrow> channel_id i"
    and "\<And>q. running q s' = running q s"
  shows "keeps_pace es s s'"
proof -
  have "proc_tid q \<notin> timer_ids es" for q using assms(3) [of "proc_tid q"] by auto
  then show ?thesis using assms by (simp add: keeps_pace_def pending_other known_id_def)
qed

definition paced :: "se \<Rightarrow> se res \<Rightarrow> bool" where
  "paced s r \<longleftrightarrow> (\<forall>s'. r = Inr s' \<longrightarrow> (\<exists>es. keeps_pace es s s'))"

lemma paced_Inl [simp]: "paced s (Inl f)"
  by (simp add: paced_def)

lemma paced_Inr: "keeps_pace es s s' \<Longrightarrow> paced s (Inr s')"
  by (auto simp: paced_def)

lemma paced_bind: "(\<And>x. m = Inr x \<Longrightarrow> paced s (f x)) \<Longrightarrow> paced s (bind_res m f)"
  by (cases m) simp_all

lemma paced_same [simp]: "paced s (Inr s)"
  by (rule paced_Inr [of "[]"]) (auto intro: keeps_pace_silent)

lemma paced_report: "timer_ids es = {} \<Longrightarrow> paced s (Inr (performs es s))"
  by (rule paced_Inr) (auto intro: keeps_pace_silent served_performs addressed_silent)

text \<open>What an event of a channel calls.\<close>

definition channel_served :: "se \<Rightarrow> se \<Rightarrow> bool" where
  "channel_served s s' \<longleftrightarrow> (\<exists>es. served es s s' \<and> addressed es \<and> (\<forall>i \<in> timer_ids es. channel_id i))"

lemma channel_served_performs: "timer_ids es = {} \<Longrightarrow> channel_served s (performs es s)"
  unfolding channel_served_def
  by (rule exI [of _ es]) (auto intro: served_performs addressed_silent)

lemma channel_served_set_channels: "channel_served (set_channels d l s) s' \<Longrightarrow> channel_served s s'"
  using performs_cong [of "set_channels d l s" s]
  by (force simp: channel_served_def served_def)

lemma on_entry_served:
  assumes "channel_calls (f (entry_at i (channels d s)))" and "on_entry d i f s = Inr s'"
  shows "channel_served s s'"
proof -
  from assms(2) obtain e es where f: "f (entry_at i (channels d s)) = Inr (e, es)"
    and s': "s' = performs es (set_channels d (write_entry i e (channels d s)) s)"
    by (auto simp: on_entry_def bind_res_Inr_iff)
  have "served es s s'" unfolding s' by (rule served_frame) simp_all
  with assms(1) f show ?thesis by (auto simp: channel_served_def)
qed

lemma with_entry_served:
  assumes "se_ok s" and "\<And>e. entry_ok d e \<Longrightarrow> channel_calls (f e)" and "with_entry d lcn f s = Inr s'"
  shows "channel_served s s'"
proof (cases "GetLCEntry lcn (channels d s)")
  case None
  then have "s' = performs [ItnErrNotificationSend ITN_ERR_CODE_0002 EVENT_LCSE] s"
    using assms(3) by (simp add: with_entry_def del: performs_simps)
  then show ?thesis using channel_served_performs by (simp add: ItnErrNotificationSend_def del: performs_simps)
next
  case (Some i)
  then have "i < length (EntryList (channels d s))" by (auto simp: GetLCEntry_def Let_def dest: find_index_Some)
  then have "entry_ok d (entry_at i (channels d s))"
    using assms(1) list_ok_entry by (fastforce simp: se_ok_def channels_ok_def)
  from on_entry_served [where f = f, OF assms(2) [OF this]] Some assms(3) show ?thesis
    by (simp add: with_entry_def)
qed

lemma with_new_entry_served:
  assumes "se_ok s" and "\<And>e. entry_ok d e \<Longrightarrow> channel_calls (f e)" and "with_new_entry d lcn f s = Inr s'"
  shows "channel_served s s'"
proof (cases "GetLCEntry lcn (channels d s)")
  case None
  let ?l = "(channels d s)\<lparr>EntryList := EntryList (channels d s) @ [new_LCEntry lcn d]\<rparr>"
  let ?i = "length (EntryList (channels d s))"
  have new: "NewLCEntry lcn (channels d s) = (?i, ?l)"
    using assms(1) by (simp add: NewLCEntry_def se_ok_def channels_ok_def)
  have "entry_at ?i (channels d (set_channels d ?l s)) = new_LCEntry lcn d"
    by (simp add: entry_at_def)
  then have "channel_calls (f (entry_at ?i (channels d (set_channels d ?l s))))"
    using assms(2) [OF new_LCEntry_ok] by simp
  from on_entry_served [where f = f, OF this] None new assms(3) show ?thesis
    by (auto simp: with_new_entry_def dest: channel_served_set_channels)
next
  case (Some i)
  with with_entry_served [where f = f and lcn = lcn and d = d, OF assms(1,2)] assms(3) show ?thesis
    by (simp add: with_entry_def with_new_entry_def)
qed

lemma running_entry:
  assumes "with_entry d lcn f s = Inr s' \<or> with_new_entry d lcn f s = Inr s'"
  shows "running q s' = running q s"
  by (rule running_frame) (use with_entry_frame [OF assms] in blast)+

lemma paced_served:
  assumes "\<And>s'. r = Inr s' \<Longrightarrow> channel_served s s'" and "\<And>s' q. r = Inr s' \<Longrightarrow> running q s' = running q s"
  shows "paced s r"
  unfolding paced_def
proof (intro allI impI)
  fix s' assume r: "r = Inr s'"
  from assms(1) [OF r] obtain es where "served es s s'" "addressed es" "\<forall>i \<in> timer_ids es. channel_id i"
    by (auto simp: channel_served_def)
  then have "keeps_pace es s s'" using keeps_pace_silent assms(2) [OF r] by blast
  then show "\<exists>es. keeps_pace es s s'" by blast
qed

lemma paced_with_entry:
  assumes "se_ok s" and "\<And>e. entry_ok d e \<Longrightarrow> channel_calls (f e)"
  shows "paced s (with_entry d lcn f s)" and "paced s (with_new_entry d lcn f s)"
proof -
  show "paced s (with_entry d lcn f s)"
    by (rule paced_served) (use with_entry_served [where f = f, OF assms] running_entry in blast)+
  show "paced s (with_new_entry d lcn f s)"
    by (rule paced_served) (use with_new_entry_served [where f = f, OF assms] running_entry in blast)+
qed

text \<open>The events of the procedures are steps of theirs.\<close>

lemma msd_event_step:
  assumes "msd_event dur ev p m = Inr r"
  shows "r = (m, []) \<or> (\<exists>i. r = msd_step dur i m)"
  using assms
  by (cases ev) (auto simp: msd_event_def reading_def break_def bind_res_Inr_iff intro: msd_step.simps [symmetric])

lemma ce_event_step:
  assumes "ce_event ev p m = Inr r"
  shows "r = (m, []) \<or> (\<exists>i. r = ce_step dur i m)"
  using assms
  by (cases ev) (auto simp: ce_event_def reading_def break_def bind_res_Inr_iff intro: ce_step.simps [symmetric])

lemma rme_event_step:
  assumes "rme_event dur ev p n m = Inr r" and "ev \<noteq> EVENT_TIM_RME_T107"
  shows "r = rme_step dur (Some (ev, p)) m"
  using assms by (cases ev) (simp_all add: rme_event_def)

lemma mr_event_step:
  assumes "mr_event dur ev p n m = Inr r" and "ev \<noteq> EVENT_TIM_MR_T109"
  shows "r = mr_step dur (Some (ev, p)) m"
  using assms by (cases ev) (simp_all add: mr_event_def)

lemma rtd_event_step:
  assumes "rtd_event dur now ev p n m = Inr r" and "ev \<noteq> EVENT_TIM_RTD_T105"
  shows "r = rtd_step dur (Some (now, ev, p)) m"
  using assms by (cases ev) (simp_all add: rtd_event_def)

lemma ml_event_step:
  assumes "ml_event dur ev p n m = Inr r" and "ev \<noteq> EVENT_TIM_ML_T102"
  shows "r = ml_step dur (Some (ev, p)) m"
  using assms by (cases ev) (simp_all add: ml_event_def)

lemma put_same [simp]:
  "put_MSD (MyMSD s, []) s = s" "put_CE (MyCE s, []) s = s"
  by (simp_all add: put_defs)

lemma annex_silent:
  "timer_ids (calls_NSD e1 p) = {}" "timer_ids (calls_CM e2 p) = {}" "timer_ids (calls_CNF e3 p) = {}"
  "timer_ids (calls_CMD e4 p enc) = {}" "timer_ids (calls_IDC e5 p) = {}"
  by (cases e1, simp_all add: annex_handlers annex_MsgSend_def annex_PtvSend_def)
     (cases e2, simp_all add: annex_handlers annex_MsgSend_def annex_PtvSend_def,
      cases e3, simp_all add: annex_handlers annex_MsgSend_def annex_PtvSend_def,
      cases e4, simp_all add: annex_handlers annex_MsgSend_def annex_PtvSend_def,
      cases e5, simp_all add: annex_handlers annex_MsgSend_def annex_PtvSend_def)

lemma send_each_silent:
  assumes "\<And>x e. f x = Inr e \<Longrightarrow> timer_ids [e] = {}" and "send_each f xs = Inr es"
  shows "timer_ids es = {}"
  using assms(2)
proof (induction xs arbitrary: es)
  case Nil
  then show ?case by simp
next
  case (Cons x xs)
  then obtain e es' where "f x = Inr e" "send_each f xs = Inr es'" "es = e # es'"
    by (auto simp: bind_res_Inr_iff)
  with Cons.IH assms(1) timer_ids_append [of "[e]" es'] show ?case by simp
qed

lemma timer_ids_primitives [simp]: "timer_ids (map (\<lambda>n. PrimitiveSend (h n)) ns) = {}"
  by (induction ns) simp_all

lemma mt_PtvRjtIdcSend_silent: "mt_PtvRjtIdcSend dir src c sn n = Inr e \<Longrightarrow> timer_ids [e] = {}"
  by (auto simp: mt_PtvRjtIdcSend_def Let_def split: if_splits option.splits)

lemma mgr_silent:
  "mgr_TransferRequest d g m = Inr (g1, m1, es) \<Longrightarrow> timer_ids es = {}"
  "mgr_Ack a g m = Inr (g2, m2, es2) \<Longrightarrow> timer_ids es2 = {}"
  by (auto simp: mgr_TransferRequest_def mgr_Ack_def mt_PtvTrfCfmSend_def mt_MsgMtSend_def bind_res_Inr_iff
      Let_def)

lemma mgr_Reject_silent:
  assumes "mgr_Reject r g m = Inr (g1, m1, es)"
  shows "timer_ids es = {}"
proof -
  have "\<exists>ds :: (u8 \<times> cause_bytes) list. send_each (\<lambda>d. mt_PtvRjtIdcSend OUTGOING Src_USER (Some (snd d))
        (ucast (mer_sequenceNumber r)) (ucast (fst d))) ds = Inr es"
    using assms by (auto simp: mgr_Reject_def bind_res_Inr_iff Let_def)
  then obtain ds :: "(u8 \<times> cause_bytes) list" where
    "send_each (\<lambda>d. mt_PtvRjtIdcSend OUTGOING Src_USER (Some (snd d))
        (ucast (mer_sequenceNumber r)) (ucast (fst d))) ds = Inr es" by blast
  then show ?thesis by (rule send_each_silent [rotated]) (rule mt_PtvRjtIdcSend_silent)
qed

lemmas mt_defs =
  mt_event_def reading_def reading_res_def break_def bind_res_Inr_iff mt_itn_err_def
  ItnErrNotificationSend_def mt_MsgMtAckSend_def mt_MsgMtRjtSend_def mt_PtvTrfIdcSend_def

lemma mt_event_silent:
  assumes "mt_event ev p n m = Inr (m', es)"
  shows "timer_ids es = {}"
proof (cases ev)
  case EVENT_PTV_MT_TRF_REQ
  with assms show ?thesis by (auto simp: mt_defs mt_TransferRequest_def Let_def dest: mgr_silent(1))
next
  case EVENT_MSG_MT
  with assms show ?thesis by (cases "mtStatus2 m") (auto simp: mt_defs mt_handlers)
next
  case EVENT_PTV_MT_TRF_RPS
  with assms show ?thesis by (cases "mtStatus2 m") (auto simp: mt_defs mt_0502_0011_def Let_def)
next
  case EVENT_PTV_MT_RJT_REQ
  with assms show ?thesis by (cases "mtStatus2 m") (auto simp: mt_defs mt_0503_0011_def Let_def)
next
  case EVENT_MSG_MT_ACK
  with assms show ?thesis
    by (auto simp: mt_defs mt_MultiplexEntrySendAck_def split: if_splits option.splits dest: mgr_silent(2))
next
  case EVENT_MSG_MT_RJT
  with assms show ?thesis
    by (cases "iPendingMtSend m")
       (auto simp: mt_defs mt_MultiplexEntrySendReject_def split: if_splits dest: mgr_Reject_silent)
next
  case EVENT_TIM_MT_T104
  with assms show ?thesis by (simp add: mt_defs)
next
  case EVENT_MSG_MT_RLS
  with assms show ?thesis
    by (cases "mtStatus2 m") (auto simp: mt_defs mt_0507_0011_def Let_def dest: mt_PtvRjtIdcSend_silent)
qed

text \<open>Every event but the four timer events of the procedures keeps pace.\<close>

definition expiry_event :: "event \<Rightarrow> bool" where
  "expiry_event ev \<longleftrightarrow>
     ev \<in> {EVENT_RMESE EVENT_TIM_RME_T107, EVENT_MRSE EVENT_TIM_MR_T109, EVENT_RTDSE EVENT_TIM_RTD_T105,
           EVENT_MLSE EVENT_TIM_ML_T102}"

lemma paced_run:
  assumes "\<And>x. r = Inr x \<Longrightarrow> put x s = s \<or> keeps_pace (snd x) s (put x s)"
  shows "paced s (run_res put r s)"
  unfolding run_res_def
proof (rule paced_bind)
  fix x assume "r = Inr x"
  from assms [OF this] show "paced s (Inr (put x s))" by (auto intro: paced_Inr)
qed

lemma paced_Dispatch:
  assumes "se_ok s" and "\<not> expiry_event ev"
  shows "paced s (Dispatch ev p sup1 sup2 enc s)"
proof (cases ev)
  case (EVENT_MSDSE x)
  then show ?thesis
    by (auto intro!: paced_run dest!: msd_event_step intro: keeps_pace_steps)
next
  case (EVENT_CESE x)
  then show ?thesis
    by (auto intro!: paced_run dest!: ce_event_step [where dur = 0] intro: keeps_pace_steps)
next
  case (EVENT_LCBLCSE x)
  with assms(1) show ?thesis
    by (cases x; cases p)
       (auto simp: Dispatch_LCBLCSE_def Let_def intro!: paced_bind paced_with_entry intro: calls_LCBLC)
next
  case (EVENT_CLCSE x)
  with assms(1) show ?thesis
    by (cases x) (auto simp: Dispatch_CLCSE_def Let_def calls_CLC intro!: paced_bind paced_with_entry)
next
  case (EVENT_MTSE x)
  have "keeps_pace (snd r) s (put_MT r s)" if "mt_event x p sup1 (MyMT s) = Inr r" for r
    using mt_event_silent [of x p sup1 "MyMT s" "fst r" "snd r"] that
    by (intro keeps_pace_silent) (auto intro: served_put addressed_silent)
  with EVENT_MTSE show ?thesis by (auto intro!: paced_run)
next
  case (EVENT_RMESE x)
  with assms(2) have x: "x \<noteq> EVENT_TIM_RME_T107" by (simp add: expiry_event_def)
  have ok: "rme_ok (MyRME s)" using assms(1) by (simp add: se_ok_def)
  have "keeps_pace (snd r) s (put_RME r s)" if "rme_event (dT107 (Durations s)) x p sup1 (MyRME s) = Inr r" for r
    unfolding rme_event_step [OF that x] by (rule keeps_pace_RME [OF ok])
  with EVENT_RMESE show ?thesis by (auto intro!: paced_run)
next
  case (EVENT_MRSE x)
  with assms(2) have x: "x \<noteq> EVENT_TIM_MR_T109" by (simp add: expiry_event_def)
  have "keeps_pace (snd r) s (put_MR r s)" if "mr_event (dT109 (Durations s)) x p sup1 (MyMR s) = Inr r" for r
    unfolding mr_event_step [OF that x] by (rule keeps_pace_MR)
  with EVENT_MRSE show ?thesis by (auto intro!: paced_run)
next
  case (EVENT_RTDSE x)
  with assms(2) have x: "x \<noteq> EVENT_TIM_RTD_T105" by (simp add: expiry_event_def)
  have "keeps_pace (snd r) s (put_RTD r s)" if "rtd_event (dT105 (Durations s)) (Clock s) x p sup1 (MyRTD s) = Inr r" for r
    unfolding rtd_event_step [OF that x] by (rule keeps_pace_RTD)
  with EVENT_RTDSE show ?thesis by (auto intro!: paced_run)
next
  case (EVENT_MLSE x)
  with assms(2) have x: "x \<noteq> EVENT_TIM_ML_T102" by (simp add: expiry_event_def)
  have "keeps_pace (snd r) s (put_ML r s)" if "ml_event (dT102 (Durations s)) x p sup1 (MyML s) = Inr r" for r
    unfolding ml_event_step [OF that x] by (rule keeps_pace_ML)
  with EVENT_MLSE show ?thesis by (auto intro!: paced_run)
qed (simp_all add: annex_silent paced_report)

section \<open>The invariant\<close>

definition entry_fits :: "timer_observer timer_entry \<Rightarrow> bool" where
  "entry_fits e \<longleftrightarrow> \<not> iRecurring e \<and> iObserver e = home (iTimerID e) \<and> known_id (iTimerID e)"

definition timers_ok :: "se \<Rightarrow> bool" where
  "timers_ok s \<longleftrightarrow>
     se_ok s
     \<and> \<not> iInCallback (MyTimer s) \<and> iEntriesWaitingToAdd (MyTimer s) = []
     \<and> iEntriesWaitingToCancel (MyTimer s) = [] \<and> iDefaultObserver (MyTimer s) = Some ObsSE
     \<and> (\<forall>e \<in> set (iEntries (MyTimer s)). entry_fits e)
     \<and> (\<forall>q. timer_numbers (proc_tid q) (MyTimer s) = running q s)"

text \<open>The list after the calls of a step that runs outside a tick.\<close>

lemma perform_idle:
  assumes "\<not> iInCallback (MyTimer s)" and "\<forall>e \<in> set (iEntries (MyTimer s)). entry_fits e"
    and "addressed [e]" and "\<forall>i \<in> timer_ids [e]. known_id i"
  shows "iEntriesWaitingToAdd (MyTimer (perform e s)) = iEntriesWaitingToAdd (MyTimer s)"
    and "iEntriesWaitingToCancel (MyTimer (perform e s)) = iEntriesWaitingToCancel (MyTimer s)"
    and "iDefaultObserver (MyTimer (perform e s)) = iDefaultObserver (MyTimer s)"
    and "\<forall>e' \<in> set (iEntries (MyTimer (perform e s))). entry_fits e'"
proof -
  show "iEntriesWaitingToAdd (MyTimer (perform e s)) = iEntriesWaitingToAdd (MyTimer s)"
    using assms(1) by (cases e) (simp_all add: timer_Request_def Let_def)
  show "iEntriesWaitingToCancel (MyTimer (perform e s)) = iEntriesWaitingToCancel (MyTimer s)"
    using assms(1) by (cases e) (simp_all add: timer_Cancel_def)
  show "iDefaultObserver (MyTimer (perform e s)) = iDefaultObserver (MyTimer s)"
    by (cases e) simp_all
  show "\<forall>e' \<in> set (iEntries (MyTimer (perform e s))). entry_fits e'"
  proof (cases e)
    case (RequestTimer i n c obs)
    with assms show ?thesis by (simp add: timer_Request_idle new_entry_def entry_fits_def)
  next
    case (CancelTimer i)
    with assms(1,2) set_erase_timer show ?thesis by (fastforce simp: timer_Cancel_idle)
  qed (use assms(2) in simp_all)
qed

lemma performs_idle:
  assumes "\<not> iInCallback (MyTimer s)" and "\<forall>e \<in> set (iEntries (MyTimer s)). entry_fits e"
    and "addressed es" and "\<forall>i \<in> timer_ids es. known_id i"
  shows "iEntriesWaitingToAdd (MyTimer (performs es s)) = iEntriesWaitingToAdd (MyTimer s)
    \<and> iEntriesWaitingToCancel (MyTimer (performs es s)) = iEntriesWaitingToCancel (MyTimer s)
    \<and> iDefaultObserver (MyTimer (performs es s)) = iDefaultObserver (MyTimer s)
    \<and> (\<forall>e' \<in> set (iEntries (MyTimer (performs es s))). entry_fits e')"
  using assms
proof (induction es arbitrary: s)
  case Nil
  then show ?case by simp
next
  case (Cons e es)
  have "addressed [e]" "\<forall>i \<in> timer_ids [e]. known_id i" "addressed es" "\<forall>i \<in> timer_ids es. known_id i"
    using Cons.prems(3,4) addressed_append [of "[e]" es] timer_ids_append [of "[e]" es] by auto
  note first = perform_idle [OF Cons.prems(1,2) this(1,2)]
  from Cons.IH [OF perform_numbers(2) [OF Cons.prems(1)] first(4) \<open>addressed es\<close>
      \<open>\<forall>i \<in> timer_ids es. known_id i\<close>] first(1-3)
  show ?case by simp
qed

lemma timers_ok_step:
  assumes "timers_ok s" and "keeps_pace es s s'" and "se_ok s'"
  shows "timers_ok s'"
proof -
  have timer: "MyTimer s' = MyTimer (performs es s)" and es: "addressed es" "\<forall>i \<in> timer_ids es. known_id i"
    and numbers: "\<And>q. pending (proc_tid q) (running q s) es = running q s'"
    using assms(2) by (auto simp: keeps_pace_def served_def)
  have idle: "\<not> iInCallback (MyTimer s)" and fits: "\<forall>e \<in> set (iEntries (MyTimer s)). entry_fits e"
    using assms(1) by (simp_all add: timers_ok_def)
  show ?thesis
    using performs_idle [OF idle fits es] performs_numbers [OF idle] numbers assms(1,3)
    by (simp add: timers_ok_def timer)
qed

lemma timers_ok_paced:
  assumes "timers_ok s" and "paced s r" and "ensures se_ok r"
  shows "ensures timers_ok r"
  using assms timers_ok_step by (fastforce simp: ensures_def paced_def)

section \<open>Ticks\<close>

text \<open>The expiry of the timer of a procedure ends its wait and calls no timer.\<close>

lemma performs_silent: "timer_ids es = {} \<Longrightarrow> MyTimer (performs es s) = MyTimer s"
proof (induction es arbitrary: s)
  case Nil
  then show ?case by simp
next
  case (Cons e es)
  then show ?case by (cases e) simp_all
qed

lemma expiry_put:
  assumes "timer_ids (snd r) = {}" and "served (snd r) s s'"
  shows "MyTimer s' = MyTimer s"
  using assms by (simp add: served_def performs_silent)

lemma SE_TimeoutOccurred_proc:
  "SE_TimeoutOccurred (proc_tid Proc_RME) n s
     = run_res put_RME (rme_event (dT107 (Durations s)) EVENT_TIM_RME_T107 None n (MyRME s)) s"
  "SE_TimeoutOccurred (proc_tid Proc_MR) n s
     = run_res put_MR (mr_event (dT109 (Durations s)) EVENT_TIM_MR_T109 None n (MyMR s)) s"
  "SE_TimeoutOccurred (proc_tid Proc_RTD) n s
     = run_res put_RTD (rtd_event (dT105 (Durations s)) (Clock s) EVENT_TIM_RTD_T105 None n (MyRTD s)) s"
  "SE_TimeoutOccurred (proc_tid Proc_ML) n s
     = run_res put_ML (ml_event (dT102 (Durations s)) EVENT_TIM_ML_T102 None n (MyML s)) s"
  by (simp_all add: SE_TimeoutOccurred_def InformationRecv_def TablePointerGetUpperLayer_def EventNoTblForTo_def)

lemma event_timeouts:
  "rme_event dur EVENT_TIM_RME_T107 None n m1 = Inr r1 \<Longrightarrow> r1 = rme_timeout n m1"
  "mr_event dur EVENT_TIM_MR_T109 None n m2 = Inr r2 \<Longrightarrow> r2 = mr_timeout n m2"
  "rtd_event dur now EVENT_TIM_RTD_T105 None n m3 = Inr r3 \<Longrightarrow> r3 = rtd_timeout n m3"
  "ml_event dur EVENT_TIM_ML_T102 None n m4 = Inr r4 \<Longrightarrow> r4 = ml_timeout n m4"
  by (simp_all add: rme_event_def mr_event_def rtd_event_def ml_event_def rme_timeout_def mr_timeout_def
      rtd_timeout_def ml_timeout_def)

text \<open>What the callback of a procedure does: its timeout step.\<close>

lemma run_res_Inr: "run_res put r s = Inr s' \<Longrightarrow> \<exists>x. r = Inr x \<and> s' = put x s"
  by (auto simp: run_res_def bind_res_Inr_iff)

lemma callback_cases:
  assumes "timer_callback obs (proc_tid q) n s = Inr s'"
    and "obs = (case home (proc_tid q) of None \<Rightarrow> ObsSE | Some obs' \<Rightarrow> obs')"
  shows "q = Proc_MSD \<Longrightarrow> s' = put_MSD (msd_HandlerTimeout (MyMSD s)) s"
    and "q = Proc_CE \<Longrightarrow> s' = put_CE (ce_HandlerTimeout (MyCE s)) s"
    and "q = Proc_RME \<Longrightarrow> s' = put_RME (rme_timeout n (MyRME s)) s"
    and "q = Proc_MR \<Longrightarrow> s' = put_MR (mr_timeout n (MyMR s)) s"
    and "q = Proc_RTD \<Longrightarrow> s' = put_RTD (rtd_timeout n (MyRTD s)) s"
    and "q = Proc_ML \<Longrightarrow> s' = put_ML (ml_timeout n (MyML s)) s"
proof -
  show "q = Proc_MSD \<Longrightarrow> s' = put_MSD (msd_HandlerTimeout (MyMSD s)) s"
    and "q = Proc_CE \<Longrightarrow> s' = put_CE (ce_HandlerTimeout (MyCE s)) s"
    using assms by (simp_all add: home_def eq_commute)
  have cb: "SE_TimeoutOccurred (proc_tid q) n s = Inr s'" if "q \<noteq> Proc_MSD" "q \<noteq> Proc_CE"
    using assms that by (cases q) (simp_all add: home_def)
  show "s' = put_RME (rme_timeout n (MyRME s)) s" if "q = Proc_RME"
    using cb that run_res_Inr event_timeouts(1)
    by (metis SE_TimeoutOccurred_proc(1) proc.distinct)
  show "s' = put_MR (mr_timeout n (MyMR s)) s" if "q = Proc_MR"
    using cb that run_res_Inr event_timeouts(2)
    by (metis SE_TimeoutOccurred_proc(2) proc.distinct)
  show "s' = put_RTD (rtd_timeout n (MyRTD s)) s" if "q = Proc_RTD"
    using cb that run_res_Inr event_timeouts(3)
    by (metis SE_TimeoutOccurred_proc(3) proc.distinct)
  show "s' = put_ML (ml_timeout n (MyML s)) s" if "q = Proc_ML"
    using cb that run_res_Inr event_timeouts(4)
    by (metis SE_TimeoutOccurred_proc(4) proc.distinct)
qed

lemma expiry_callback:
  assumes "se_ok s" and "timer_callback obs (proc_tid q) n s = Inr s'"
    and "obs = (case home (proc_tid q) of None \<Rightarrow> ObsSE | Some obs' \<Rightarrow> obs')"
    and "running q s = [n]"
  shows "MyTimer s' = MyTimer s \<and> running q s' = [] \<and> (\<forall>q'. q' \<noteq> q \<longrightarrow> running q' s' = running q' s)"
proof -
  note cb = callback_cases [OF assms(2,3)]
  have ok: "rme_ok (MyRME s)" using assms(1) by (simp add: se_ok_def)
  show ?thesis
  proof (cases q)
    case Proc_MSD
    then show ?thesis
      using assms(4) cb(1) msd_timed.timeout_silent [where s = "MyMSD s"] msd_timed.timeout_leaves [where s = "MyMSD s"]
        expiry_put [OF _ served_put(1)] by (auto simp: running_eqs split: if_splits)
  next
    case Proc_CE
    then show ?thesis
      using assms(4) cb(2) ce_timed.timeout_silent [where s = "MyCE s"] ce_timed.timeout_leaves [where s = "MyCE s"]
        expiry_put [OF _ served_put(2)] by (auto simp: running_eqs split: if_splits)
  next
    case Proc_RME
    then show ?thesis
      using assms(4) cb(3) rme_timed.timeout_silent [OF ok] rme_timed.timeout_leaves [OF ok]
        expiry_put [OF _ served_put(6)] by (auto simp: running_eqs split: if_splits)
  next
    case Proc_MR
    then show ?thesis
      using assms(4) cb(4) mr_timed.timeout_silent [where s = "MyMR s"] mr_timed.timeout_leaves [where s = "MyMR s"]
        expiry_put [OF _ served_put(5)] by (auto simp: running_eqs split: if_splits)
  next
    case Proc_RTD
    then show ?thesis
      using assms(4) cb(5) rtd_timed.timeout_silent [where s = "MyRTD s"] rtd_timed.timeout_leaves [where s = "MyRTD s"]
        expiry_put [OF _ served_put(4)] by (auto simp: running_eqs split: if_splits)
  next
    case Proc_ML
    then show ?thesis
      using assms(4) cb(6) ml_timed.timeout_silent [where s = "MyML s"] ml_timed.timeout_leaves [where s = "MyML s"]
        expiry_put [OF _ served_put(7)] by (auto simp: running_eqs split: if_splits)
  qed
qed

end
