(* ===== verification/ProcedureTicks.thy ===== *)
theory ProcedureTicks
  imports ProcedureTimers
begin

text \<open>
  A tick of \<^verbatim>\<open>MyTimer\<close> and the timers of the procedures. In one tick several timers expire; each
  callback ends the wait of its procedure; the timer calls of the callbacks of channels, and of the
  terminal when it answers a callback, are queued and carried out at the end. At the end of the
  tick the timers again fit the states.
\<close>

section \<open>Calls during a tick\<close>

definition queues_fit :: "timer_observer timer \<Rightarrow> bool" where
  "queues_fit t \<longleftrightarrow>
     (\<forall>e \<in> set (iEntriesWaitingToAdd t). iObserver e = home (iTimerID e) \<and> known_id (iTimerID e))
     \<and> (\<forall>(j, p) \<in> set (iEntriesWaitingToCancel t). channel_id j)"

lemma queues_fit_performs:
  assumes "iInCallback (MyTimer s)" and "queues_fit (MyTimer s)"
    and "addressed es" and "\<forall>i \<in> timer_ids es. known_id i" and "\<forall>i. CancelTimer i \<in> set es \<longrightarrow> channel_id i"
  shows "queues_fit (MyTimer (performs es s))
    \<and> iDefaultObserver (MyTimer (performs es s)) = iDefaultObserver (MyTimer s)"
  using assms
proof (induction es arbitrary: s)
  case Nil
  then show ?case by simp
next
  case (Cons e es)
  have "queues_fit (MyTimer (perform e s))" "addressed es" "\<forall>i \<in> timer_ids es. known_id i"
    and default: "iDefaultObserver (MyTimer (perform e s)) = iDefaultObserver (MyTimer s)"
    using Cons.prems
    by (cases e; auto simp: queues_fit_def timer_Request_def timer_Cancel_def split: if_splits)+
  with Cons.IH [OF perform_timer(2) [OF Cons.prems(1)]] Cons.prems(5) show ?case by simp
qed

lemma timer_ids_Cancel: "CancelTimer i \<in> set es \<Longrightarrow> i \<in> timer_ids es"
  by (induction es rule: timer_ids.induct) auto

definition numbers :: "proc \<Rightarrow> timer_observer timer_entry list \<Rightarrow> s32 list" where
  "numbers q es = map iParam (filter (\<lambda>e. iTimerID e = proc_tid q) es)"

text \<open>The timers that are requested in a callback wait in the queue.\<close>

abbreviation queued :: "proc \<Rightarrow> se \<Rightarrow> s32 list" where
  "queued q s \<equiv> numbers q (iEntriesWaitingToAdd (MyTimer s))"

lemma queued_other:
  assumes "iInCallback (MyTimer s)" and "proc_tid q \<notin> timer_ids es"
  shows "queued q (performs es s) = queued q s"
  using assms
proof (induction es arbitrary: s)
  case (Cons e es)
  have "queued q (perform e s) = queued q s"
    using Cons.prems by (cases e) (auto simp: numbers_def timer_Request_def)
  moreover have "proc_tid q \<notin> timer_ids es" using Cons.prems(2) by (cases e) auto
  ultimately show ?case using Cons.IH [OF perform_timer(2) [OF Cons.prems(1)]] by simp
qed simp

lemma queued_requests:
  assumes "iInCallback (MyTimer s)" and "\<forall>i. CancelTimer i \<notin> set es"
  shows "queued q (performs es s) = pending (proc_tid q) (queued q s) es"
  using assms
proof (induction es arbitrary: s)
  case (Cons e es)
  have "queued q (perform e s) = pending (proc_tid q) (queued q s) [e]"
    using Cons.prems by (cases e) (auto simp: numbers_def timer_Request_def)
  with Cons.IH [OF perform_timer(2) [OF Cons.prems(1)]] Cons.prems(2)
    pending_append [of "proc_tid q" "queued q s" "[e]" es]
  show ?case by simp
qed simp

lemma pending_requests:
  "\<forall>i. CancelTimer i \<notin> set es \<Longrightarrow> pending tid (xs @ ys) es = xs @ pending tid ys es"
  by (induction tid ys es rule: pending.induct) auto

section \<open>Answers of the terminal\<close>

text \<open>The calls that start the timer of a procedure again, and the answers that contain one.\<close>

fun starts :: "proc \<Rightarrow> upper_call \<Rightarrow> bool" where
  "starts Proc_MSD DetermineRequestCall = True"
| "starts Proc_CE (TransferRequestCall tcs) = True"
| "starts q c = False"

definition restarts :: "answers \<Rightarrow> proc \<Rightarrow> bool" where
  "restarts ans q \<longleftrightarrow> (\<exists>e. \<exists>c \<in> set (ans e). starts q c)"

lemma upper_call_timers:
  "timer_ids (snd (DetermineRequest dur m)) \<subseteq> {proc_tid Proc_MSD}"
  "timer_ids (snd (TransferRequest dur tcs c)) \<subseteq> {proc_tid Proc_CE}"
  "timer_ids (snd (TransferResponse c)) = {}"
  "timer_ids (snd (RejectRequest cause highest c)) = {}"
  by (cases "msdState m"; cases "OutgoingState c"; cases "IncomingState c";
      simp add: DetermineRequest_def msd_Idle_request_def msd_sends TransferRequest_def TransferResponse_def
        RejectRequest_def ce_sends Let_def)+

lemma upper_call_cancels:
  "CancelTimer i \<notin> set (snd (DetermineRequest dur m))"
  "CancelTimer i \<notin> set (snd (TransferRequest dur tcs c))"
  "CancelTimer i \<notin> set (snd (TransferResponse c))"
  "CancelTimer i \<notin> set (snd (RejectRequest cause highest c))"
  by (cases "msdState m"; cases "OutgoingState c"; cases "IncomingState c";
      simp add: DetermineRequest_def msd_Idle_request_def msd_sends TransferRequest_def TransferResponse_def
        RejectRequest_def ce_sends send_msg_def Let_def)+

lemma upper_call_procs:
  "proc_tid q \<in> timer_ids (snd (DetermineRequest dur m)) \<Longrightarrow> q = Proc_MSD"
  "proc_tid q \<in> timer_ids (snd (TransferRequest dur tcs c)) \<Longrightarrow> q = Proc_CE"
  using upper_call_timers(1,2) by (metis proc_tid_inject singletonD subsetD)+

lemma upper_step_paced:
  obtains es where "keeps_pace es s (upper_step c s)" and "\<forall>i. CancelTimer i \<notin> set es"
    and "\<And>q. proc_tid q \<in> timer_ids es \<Longrightarrow> starts q c"
proof (cases c)
  case DetermineRequestCall
  show ?thesis
    by (rule that [of "snd (DetermineRequest (dT106 (Durations s)) (MyMSD s))"])
       (use keeps_pace_MSD [of "dT106 (Durations s)" Msd_DetermineRequest s] DetermineRequestCall
        in \<open>auto simp: upper_call_cancels dest!: upper_call_procs\<close>)
next
  case (TransferRequestCall tcs)
  show ?thesis
    by (rule that [of "snd (TransferRequest (dT101 (Durations s)) tcs (MyCE s))"])
       (use keeps_pace_CE [of "dT101 (Durations s)" "Ce_TransferRequest tcs" s] TransferRequestCall
        in \<open>auto simp: upper_call_cancels dest!: upper_call_procs\<close>)
next
  case TransferResponseCall
  show ?thesis
    by (rule that [of "snd (TransferResponse (MyCE s))"])
       (use keeps_pace_CE [of 0 Ce_TransferResponse s] TransferResponseCall
        in \<open>simp_all add: upper_call_cancels upper_call_timers\<close>)
next
  case (RejectRequestCall cause highest)
  show ?thesis
    by (rule that [of "snd (RejectRequest cause highest (MyCE s))"])
       (use keeps_pace_CE [of 0 "Ce_RejectRequest cause highest" s] RejectRequestCall
        in \<open>simp_all add: upper_call_cancels upper_call_timers\<close>)
qed

text \<open>Inside a callback: the timers that should run are those of \<open>X\<close>, still in the list, and
  those in the queue; the answers never touch the first.\<close>

definition told :: "answers \<Rightarrow> (proc \<Rightarrow> s32 list) \<Rightarrow> se \<Rightarrow> bool" where
  "told ans X s \<longleftrightarrow>
     se_ok s \<and> iInCallback (MyTimer s) \<and> iDefaultObserver (MyTimer s) = Some ObsSE \<and> queues_fit (MyTimer s)
     \<and> (\<forall>q. running q s = X q @ queued q s) \<and> (\<forall>q. \<not> restarts ans q \<longrightarrow> queued q s = [])"

lemma told_call:
  assumes "told ans X s" and "c \<in> set (ans e)"
  shows "told ans X (upper_step c s)" and "iEntries (MyTimer (upper_step c s)) = iEntries (MyTimer s)"
proof -
  obtain es where es: "keeps_pace es s (upper_step c s)" "\<forall>i. CancelTimer i \<notin> set es"
      "\<And>q. proc_tid q \<in> timer_ids es \<Longrightarrow> starts q c"
    using upper_step_paced [of s c] by blast
  then have timer: "MyTimer (upper_step c s) = MyTimer (performs es s)" and "addressed es"
    and known: "\<forall>i \<in> timer_ids es. known_id i"
    and run: "\<And>q. running q (upper_step c s) = pending (proc_tid q) (running q s) es"
    by (auto simp: keeps_pace_def served_def)
  have cb: "iInCallback (MyTimer s)" and fit: "queues_fit (MyTimer s)" using assms(1) by (simp_all add: told_def)
  note queues = queues_fit_performs [OF cb fit \<open>addressed es\<close> known] queued_requests [OF cb es(2)]
  have "running q (upper_step c s) = X q @ queued q (performs es s)" for q
    using assms(1) by (simp add: run told_def pending_requests [OF es(2)] queues(2))
  moreover have "queued q (performs es s) = []" if "\<not> restarts ans q" for q
  proof -
    have "proc_tid q \<notin> timer_ids es" using es(3) that assms(2) by (auto simp: restarts_def)
    then show ?thesis using queued_other [OF cb] assms(1) that by (simp add: told_def)
  qed
  ultimately show "told ans X (upper_step c s)"
    using assms(1) queues(1) es(2) performs_timer(2) [OF cb]
    by (simp add: told_def timer se_ok_upper_step)
  show "iEntries (MyTimer (upper_step c s)) = iEntries (MyTimer s)"
    using performs_timer(1) [OF cb] by (simp add: timer)
qed

lemma told_calls:
  assumes "told ans X s" and "set cs \<subseteq> (\<Union>e. set (ans e))"
  shows "told ans X (fold upper_step cs s) \<and> iEntries (MyTimer (fold upper_step cs s)) = iEntries (MyTimer s)"
  using assms
proof (induction cs arbitrary: s)
  case (Cons c cs)
  then obtain e where "c \<in> set (ans e)" by auto
  from told_call [OF Cons.prems(1) this] Cons show ?case by simp
qed simp

section \<open>The callback of a channel\<close>

lemma channel_callback:
  assumes "se_ok s" and "channel_id i" and "timer_callback obs i n s = Inr s'"
    and "obs = (case home i of None \<Rightarrow> ObsSE | Some obs' \<Rightarrow> obs')"
  shows "channel_served s s'" and "running q s' = running q s"
proof -
  have "home i = None" using assms(2) by (auto simp: home_def channel_id_def)
  with assms(3,4) have "SE_TimeoutOccurred i n s = Inr s'" by simp
  with assms(2) have cases: "(\<exists>lcn. with_entry LC_OUTGOING lcn (entry_T103 n) s = Inr s')
      \<or> (\<exists>lcn. with_entry LC_INCOMING lcn
              (when_cls CLS_OUTGOING_AWTING_RPS (\<lambda>e. Inr (clc_0406_0010 n e))) s = Inr s')"
    by (auto simp: channel_id_def SE_TimeoutOccurred_def InformationRecv_def TablePointerGetUpperLayer_def
        EventNoTblForTo_def Dispatch_LCBLCSE_def Dispatch_CLCSE_def Let_def)
  then show "running q s' = running q s" using running_entry by blast
  from cases show "channel_served s s'"
    using with_entry_served [OF assms(1), of LC_OUTGOING "entry_T103 n", OF calls_T103]
      with_entry_served [OF assms(1), of LC_INCOMING "when_cls _ (\<lambda>e. Inr (clc_0406_0010 n e))", OF calls_CLC(8)]
    by blast
qed

section \<open>The loop\<close>

definition fired :: "proc \<Rightarrow> timer_observer timer_entry list \<Rightarrow> bool" where
  "fired q es \<longleftrightarrow> (\<exists>e \<in> set es. iTimerID e = proc_tid q \<and> entry_expired e)"

text \<open>The state in the middle of a tick, before the entry at position \<open>i\<close>: the procedures whose
  timers are among the expired ones have been told, the others still wait; a procedure that was
  started again has its new timer in the queue.\<close>

definition mid_tick :: "answers \<Rightarrow> timer_observer timer_entry list \<Rightarrow> nat \<Rightarrow> se \<Rightarrow> bool" where
  "mid_tick ans es i s \<longleftrightarrow>
     se_ok s \<and> iEntries (MyTimer s) = map tick_entry (take i es) @ drop i es
     \<and> \<not> iInCallback (MyTimer s) \<and> iDefaultObserver (MyTimer s) = Some ObsSE \<and> queues_fit (MyTimer s)
     \<and> (\<forall>q. running q s = (if fired q (take i es) then [] else numbers q es) @ queued q s)
     \<and> (\<forall>q. \<not> restarts ans q \<longrightarrow> queued q s = [])"

lemma mid_tick_entry:
  assumes "mid_tick ans es i s" and "i < length es"
  shows "iEntries (MyTimer s) ! i = es ! i"
    and "(iEntries (MyTimer s))[i := tick_entry (es ! i)] = map tick_entry (take (Suc i) es) @ drop (Suc i) es"
proof -
  have es: "iEntries (MyTimer s) = map tick_entry (take i es) @ es ! i # drop (Suc i) es"
    using assms by (simp add: mid_tick_def Cons_nth_drop_Suc)
  show "iEntries (MyTimer s) ! i = es ! i"
    using assms(2) by (simp add: es nth_append)
  show "(iEntries (MyTimer s))[i := tick_entry (es ! i)] = map tick_entry (take (Suc i) es) @ drop (Suc i) es"
    using assms(2) by (simp add: es list_update_append take_Suc_conv_app_nth)
qed

lemma fired_Suc:
  "i < length es \<Longrightarrow> fired q (take (Suc i) es) \<longleftrightarrow>
     fired q (take i es) \<or> iTimerID (es ! i) = proc_tid q \<and> entry_expired (es ! i)"
  by (auto simp: fired_def take_Suc_conv_app_nth)

lemma mid_tick_silent:
  assumes "mid_tick ans es i s" and "i < length es" and "e = es ! i" and "\<not> entry_expired e"
  shows "mid_tick ans es (Suc i) (upd_MyTimer (\<lambda>t. t\<lparr>iEntries := (iEntries t)[i := tick_entry e]\<rparr>) s)"
  using assms mid_tick_entry [OF assms(1,2)]
  by (simp add: mid_tick_def fired_Suc se_timer.get_upd queues_fit_def)

lemma mid_tick_silence:
  assumes mid: "mid_tick ans es i s" and i: "i < length es" and e: "e = iEntries (MyTimer s) ! i"
    and quiet: "\<not> entry_expired e \<or> observer_of (iDefaultObserver (MyTimer s)) e = None"
  shows "mid_tick ans es (Suc i) (upd_MyTimer (\<lambda>t. t\<lparr>iEntries := (iEntries t)[i := tick_entry e]\<rparr>) s)"
proof -
  from mid have "observer_of (iDefaultObserver (MyTimer s)) e \<noteq> None"
    by (auto simp: mid_tick_def observer_of_def split: option.split)
  with quiet have "\<not> entry_expired e" by simp
  with mid_tick_silent [OF mid i] e mid_tick_entry(1) [OF mid i] show ?thesis by simp
qed

lemma mid_tick_start: "timers_ok s \<Longrightarrow> mid_tick ans (iEntries (MyTimer s)) 0 s"
  by (simp add: timers_ok_def mid_tick_def queues_fit_def fired_def numbers_def timer_numbers_def)

text \<open>An entry of a procedure is the only one of it.\<close>

lemma numbers_single:
  assumes "numbers q es = running q s" and "i < length es" and "iTimerID (es ! i) = proc_tid q"
  shows "numbers q es = [iParam (es ! i)]" and "\<not> fired q (take i es)"
proof -
  have es: "es = take i es @ es ! i # drop (Suc i) es" using assms(2) by (rule id_take_nth_drop)
  have "numbers q es = numbers q (take i es) @ iParam (es ! i) # numbers q (drop (Suc i) es)"
    using assms(3) by (subst es) (simp add: numbers_def)
  moreover have "length (numbers q es) \<le> 1" by (simp add: assms(1) running_def)
  ultimately show "numbers q es = [iParam (es ! i)]" and "\<not> fired q (take i es)"
    by (auto simp: fired_def numbers_def filter_empty_conv)
qed

lemma mid_tick_called:
  assumes mid: "mid_tick ans es i s" and i: "i < length es" and e: "e = es ! i"
    and fits: "\<forall>e \<in> set es. entry_fits e" and start: "\<forall>q. numbers q es = running q s0"
    and exp: "entry_expired e" and obs: "observer_of (iDefaultObserver (MyTimer s)) e = Some obs"
    and cb: "answered ans obs (iTimerID e) (iParam e)
               (upd_MyTimer (\<lambda>t. t\<lparr>iInCallback := True\<rparr>)
                  (upd_MyTimer (\<lambda>t. t\<lparr>iEntries := (iEntries t)[i := tick_entry e]\<rparr>) s)) = Inr s2"
  shows "mid_tick ans es (Suc i) (upd_MyTimer (\<lambda>t. t\<lparr>iInCallback := False\<rparr>) s2)"
proof -
  let ?s1 = "upd_MyTimer (\<lambda>t. t\<lparr>iInCallback := True\<rparr>)
               (upd_MyTimer (\<lambda>t. t\<lparr>iEntries := (iEntries t)[i := tick_entry e]\<rparr>) s)"
  let ?X = "\<lambda>q. if fired q (take (Suc i) es) then [] else numbers q es"
  obtain s3 cs where cb3: "timer_callback obs (iTimerID e) (iParam e) ?s1 = Inr s3"
    and s2: "s2 = fold upper_step cs s3" and cs: "set cs \<subseteq> (\<Union>e. set (ans e))"
    using cb by (rule answered_Inr)
  have fit: "iObserver e = home (iTimerID e)" "known_id (iTimerID e)"
    using fits i e by (auto simp: entry_fits_def)
  have home: "obs = (case home (iTimerID e) of None \<Rightarrow> ObsSE | Some obs' \<Rightarrow> obs')"
    using obs mid fit(1) by (auto simp: observer_of_def mid_tick_def split: option.splits)
  have ok1: "se_ok ?s1" and flag1: "iInCallback (MyTimer ?s1)" and run1: "running q ?s1 = running q s"
    and queued1: "queued q ?s1 = queued q s" for q
    using mid by (simp_all add: mid_tick_def se_timer.get_upd)
  have ok3: "se_ok s3" using se_ok_callback [OF ok1] cb3 by (fastforce simp: ensures_def)
  have timer1: "queues_fit (MyTimer ?s1)" "iDefaultObserver (MyTimer ?s1) = Some ObsSE"
    using mid by (simp_all add: mid_tick_def se_timer.get_upd queues_fit_def)
  have rest: "told ans ?X s3"
  proof (cases "channel_id (iTimerID e)")
    case True
    from channel_callback [OF ok1 True cb3 home] obtain fs
      where fs: "MyTimer s3 = MyTimer (performs fs ?s1)" "addressed fs" "\<forall>i \<in> timer_ids fs. channel_id i"
        and run3: "\<And>q. running q s3 = running q s"
      by (auto simp: channel_served_def served_def)
    have known: "\<forall>i \<in> timer_ids fs. known_id i" and "\<forall>i. CancelTimer i \<in> set fs \<longrightarrow> channel_id i"
      using fs(3) timer_ids_Cancel by (auto simp: known_id_def)
    note queues = queues_fit_performs [OF flag1 timer1(1) fs(2) this]
    have "proc_tid q \<notin> timer_ids fs" for q using fs(3) by auto
    then have "queued q s3 = queued q s" for q
      using queued_other [OF flag1] queued1 by (simp add: fs(1))
    moreover have "fired q (take (Suc i) es) = fired q (take i es)" for q
      using True by (auto simp: fired_Suc [OF i] e)
    ultimately show ?thesis
      using run3 mid queues timer1(2) ok3 performs_timer(2) [OF flag1] by (simp add: mid_tick_def told_def fs(1))
  next
    case False
    with fit(2) obtain q where q: "iTimerID e = proc_tid q" by (auto simp: known_id_def)
    note single = numbers_single [OF start [rule_format] i q [unfolded e], folded e]
    have at: "running q s = [iParam e] @ queued q s"
      using mid single by (simp add: mid_tick_def)
    moreover have "length (running q s) \<le> 1" by (simp add: running_def)
    ultimately have now: "running q ?s1 = [iParam e]" and none: "queued q s = []"
      by (auto simp: run1)
    from expiry_callback [OF ok1 cb3 [unfolded q] home [unfolded q] now]
    have s3: "MyTimer s3 = MyTimer ?s1" "running q s3 = []"
      and others: "\<And>q'. q' \<noteq> q \<Longrightarrow> running q' s3 = running q' s"
      by (auto simp: run1)
    have "fired q' (take (Suc i) es) \<longleftrightarrow> q' = q \<or> fired q' (take i es)" for q'
      using q exp by (auto simp: fired_Suc [OF i] e)
    then have "running q' s3 = ?X q' @ queued q' s3" for q'
      using s3 others none queued1 mid by (cases "q' = q") (auto simp: mid_tick_def)
    then show ?thesis
      using s3(1) mid timer1 flag1 ok3 queued1 by (simp add: mid_tick_def told_def)
  qed
  have entries3: "iEntries (MyTimer s3) = map tick_entry (take (Suc i) es) @ drop (Suc i) es"
    using serves_callback [of ?s1 obs "iTimerID e" "iParam e"] cb3 performs_timer(1) [OF flag1] mid_tick_entry [OF mid i] e
    by (auto simp: serves_def served_def se_timer.get_upd)
  from told_calls [OF rest cs] entries3 show ?thesis
    by (simp add: s2 mid_tick_def told_def se_timer.get_upd queues_fit_def)
qed

text \<open>The end of the tick.\<close>

definition entries_of :: "proc \<Rightarrow> timer_observer timer_entry list \<Rightarrow> timer_observer timer_entry list" where
  "entries_of q es = filter (\<lambda>e. iTimerID e = proc_tid q) es"

lemma numbers_entries: "numbers q es = map iParam (entries_of q es)"
  by (simp add: numbers_def entries_of_def)

lemma entries_erase_channel:
  "\<forall>(j, p) \<in> set cs. channel_id j \<Longrightarrow> entries_of q (fold (\<lambda>(j, p). erase_timer j p) cs es) = entries_of q es"
proof (induction cs arbitrary: es)
  case Nil
  then show ?case by simp
next
  case (Cons c cs)
  then have "fst c \<noteq> proc_tid q" by auto
  with Cons show ?case by (auto simp: entries_of_def erase_timer_other split: prod.splits)
qed

lemma entries_tick:
  "\<forall>e \<in> set es. \<not> iRecurring e \<Longrightarrow>
     entries_of q (filter (\<lambda>e. 0 < iCounter e) (map tick_entry es)) =
     map tick_entry (filter (\<lambda>e. \<not> entry_expired e) (entries_of q es))"
  by (induction es) (auto simp: entries_of_def tick_entry_def entry_expired_def)

lemma iParam_tick [simp]: "iParam (tick_entry e) = iParam e"
  by (simp add: tick_entry_def)

lemma numbers_after_tick:
  assumes "\<forall>e \<in> set es. \<not> iRecurring e" and "numbers q es = running q s"
  shows "numbers q (filter (\<lambda>e. 0 < iCounter e) (map tick_entry es)) = (if fired q es then [] else numbers q es)"
proof (cases "fired q es")
  case False
  then have "filter (\<lambda>e. \<not> entry_expired e) (entries_of q es) = entries_of q es"
    by (intro filter_True) (auto simp: fired_def entries_of_def)
  with False entries_tick [OF assms(1)] show ?thesis by (simp add: numbers_entries o_def)
next
  case True
  then obtain e where e: "e \<in> set es" "iTimerID e = proc_tid q" "entry_expired e" by (auto simp: fired_def)
  have "length (entries_of q es) \<le> 1"
    using arg_cong [OF assms(2), of length] by (simp add: numbers_entries running_def split: if_splits)
  moreover have "e \<in> set (entries_of q es)" using e by (simp add: entries_of_def)
  ultimately have "entries_of q es = [e]" by (cases "entries_of q es"; cases "tl (entries_of q es)") auto
  with True entries_tick [OF assms(1), of q] e(3) show ?thesis by (simp add: numbers_entries)
qed

lemma set_fold_erase: "set (fold (\<lambda>(j, p). erase_timer j p) cs es) \<subseteq> set es"
proof (induction cs arbitrary: es)
  case (Cons c cs)
  then show ?case using set_erase_timer by (force split: prod.splits)
qed simp

lemma tick_entry_fits: "entry_fits e \<Longrightarrow> entry_fits (tick_entry e)"
  by (simp add: entry_fits_def tick_entry_def)

text \<open>What the queues leave: the entries of a procedure and, behind them, its queued ones.\<close>

lemma deferred_done_fits:
  assumes "\<forall>e \<in> set (iEntries t). entry_fits e" and "queues_fit t"
  shows "\<forall>e \<in> set (deferred_done t). entry_fits e"
  using assms set_fold_erase [of "iEntriesWaitingToCancel t" "iEntries t"]
  unfolding deferred_done_def
  by (auto simp: queues_fit_def deferred_entry_def new_entry_def entry_fits_def simp del: if_split)

lemma deferred_done_entries:
  assumes "queues_fit t"
  shows "entries_of q (deferred_done t)
    = entries_of q (iEntries t) @ map deferred_entry (entries_of q (iEntriesWaitingToAdd t))"
proof -
  have "entries_of q (map deferred_entry es) = map deferred_entry (entries_of q es)" for es
    by (induction es) (simp_all add: entries_of_def deferred_entry_def new_entry_def)
  moreover have "\<forall>(j, p) \<in> set (iEntriesWaitingToCancel t). channel_id j"
    using assms by (simp add: queues_fit_def)
  note entries_erase_channel [OF this, of q "iEntries t"]
  ultimately show ?thesis by (simp add: deferred_done_def entries_of_def)
qed

lemma SE_tick_timers:
  assumes "timers_ok s" and "SE_tick ans s = Inr s'"
  shows "timers_ok s'"
    and "\<not> restarts ans q \<Longrightarrow> entries_of q (iEntries (MyTimer s')) =
           map tick_entry (filter (\<lambda>e. \<not> entry_expired e) (entries_of q (iEntries (MyTimer s))))"
proof -
  let ?es = "iEntries (MyTimer s)"
  have fits: "\<forall>e \<in> set ?es. entry_fits e" and start: "\<forall>q. numbers q ?es = running q s"
    and idle: "\<not> iInCallback (MyTimer s)"
    using assms(1) by (simp_all add: timers_ok_def numbers_def timer_numbers_def)
  from assms(2) obtain found s1
    where loop: "elapse_loop MyTimer upd_MyTimer (answered ans) (length ?es) 0 False s = Inr (found, s1)"
      and s': "s' = upd_MyTimer (\<lambda>t. rearm (run_deferred_adds (run_deferred_cancels
                 (if found then t\<lparr>iEntries := erase_expired (iEntries t)\<rparr> else t)))) s1"
    by (auto simp: SE_tick_def TimerBaseElapsed_def bind_res_Inr_iff)
  have mid: "mid_tick ans ?es (length ?es) s1"
  proof (rule elapse_loop_rule [where get = MyTimer and upd = upd_MyTimer and cb = "answered ans"
          and P = "mid_tick ans ?es" and i = 0 and n = "length ?es" and N = "length ?es", OF _ _ _ _ _ _ loop])
    show "mid_tick ans ?es 0 s" using assms(1) by (rule mid_tick_start)
    show "length (iEntries (MyTimer s3)) = length ?es" if "mid_tick ans ?es i s3" for i s3
      using that by (auto simp: mid_tick_def)
  next
    fix i s3 e
    assume "mid_tick ans ?es i s3" and "i < length ?es" and "e = iEntries (MyTimer s3) ! i"
      and "\<not> entry_expired e \<or> observer_of (iDefaultObserver (MyTimer s3)) e = None"
    then show "mid_tick ans ?es (Suc i) (upd_MyTimer (\<lambda>t. t\<lparr>iEntries := (iEntries t)[i := tick_entry e]\<rparr>) s3)"
      by (rule mid_tick_silence)
  next
    fix i s3 s4 e obs
    assume mid: "mid_tick ans ?es i s3" and i: "i < length ?es" and e: "e = iEntries (MyTimer s3) ! i"
    assume "entry_expired e" and "observer_of (iDefaultObserver (MyTimer s3)) e = Some obs"
      and "answered ans obs (iTimerID e) (iParam e)
          (upd_MyTimer (\<lambda>t. t\<lparr>iInCallback := True\<rparr>)
             (upd_MyTimer (\<lambda>t. t\<lparr>iEntries := (iEntries t)[i := tick_entry e]\<rparr>) s3)) = Inr s4"
    from mid_tick_called [OF mid i _ fits start this] e mid_tick_entry(1) [OF mid i]
    show "mid_tick ans ?es (Suc i) (upd_MyTimer (\<lambda>t. t\<lparr>iInCallback := False\<rparr>) s4)"
      by simp
  qed (simp_all add: se_timer.get_upd)
  define t where "t = (if found then (MyTimer s1)\<lparr>iEntries := erase_expired (iEntries (MyTimer s1))\<rparr> else MyTimer s1)"
  have found: "found \<longleftrightarrow> (\<exists>e \<in> set ?es. entry_expired e)"
    using se_timer.elapse_loop_spec(2) [OF _ idle loop] fits by (auto simp: entry_fits_def)
  have kept: "iEntries t = filter (\<lambda>e. 0 < iCounter e) (map tick_entry ?es)"
    using mid found fits
    by (auto simp: t_def mid_tick_def erase_expired_filter filter_id_conv entry_fits_def tick_entry_def entry_expired_def not_le
        intro!: filter_True [symmetric])
  have t: "\<not> iInCallback t" "queues_fit t" "iDefaultObserver t = Some ObsSE"
    using mid by (auto simp: t_def mid_tick_def queues_fit_def)
  have adds: "iEntriesWaitingToAdd t = iEntriesWaitingToAdd (MyTimer s1)" by (simp add: t_def)
  note over = deferred_idle [OF t(1)]
  have timer: "MyTimer s' = rearm (run_deferred_adds (run_deferred_cancels t))"
    by (simp add: s' se_timer.get_upd t_def)
  have "\<forall>e \<in> set (iEntries t). entry_fits e"
    using fits tick_entry_fits by (auto simp: kept simp del: if_split)
  then have "\<forall>e \<in> set (iEntries (MyTimer s')). entry_fits e"
    unfolding timer over(1) using t(2) by (rule deferred_done_fits)
  moreover have entries: "entries_of q (iEntries (MyTimer s'))
      = entries_of q (iEntries t) @ map deferred_entry (entries_of q (iEntriesWaitingToAdd (MyTimer s1)))" for q
    unfolding timer over(1) adds [symmetric] using t(2) by (rule deferred_done_entries)
  moreover have "timer_numbers (proc_tid q) (MyTimer s') = running q s'" for q
  proof -
    have "timer_numbers (proc_tid q) (MyTimer s') = numbers q (iEntries t) @ queued q s1"
      using entries by (simp add: timer_numbers_def numbers_entries deferred_entry_def new_entry_def flip: entries_of_def)
    also have "\<dots> = (if fired q ?es then [] else numbers q ?es) @ queued q s1"
      unfolding kept by (subst numbers_after_tick [OF _ start [rule_format]]) (use fits in \<open>simp_all add: entry_fits_def\<close>)
    also have "\<dots> = running q s'" using mid by (simp add: mid_tick_def s')
    finally show ?thesis .
  qed
  moreover have "se_ok s'" using mid by (simp add: s' mid_tick_def)
  ultimately show "timers_ok s'" using over t(3) by (simp add: timers_ok_def timer)
  assume "\<not> restarts ans q"
  then have "entries_of q (iEntriesWaitingToAdd (MyTimer s1)) = []"
    using mid by (auto simp: mid_tick_def numbers_entries)
  then show "entries_of q (iEntries (MyTimer s')) = map tick_entry (filter (\<lambda>e. \<not> entry_expired e) (entries_of q ?es))"
    unfolding entries kept by (subst entries_tick) (use fits in \<open>simp_all add: entry_fits_def\<close>)
qed

end
