(* ===== verification/TimerInvariant.thy ===== *)
theory TimerInvariant
  imports ProcedureTicks
begin

text \<open>
  The timers of the procedures over whole runs of the entity: every input keeps the invariant
  \<open>timers_ok\<close>, so in every state after any inputs the list of \<^verbatim>\<open>MyTimer\<close> holds exactly the timers
  of the procedures that wait. The one input that is excluded is a primitive that pretends to be
  a timeout. The timer of MT is needed for the proof: its entries must call MT and nobody else.
\<close>

section \<open>The timer of MT\<close>

definition mt_home :: "timer_observer timer \<Rightarrow> bool" where
  "mt_home t \<longleftrightarrow> (\<forall>e \<in> set (iEntries t @ iEntriesWaitingToAdd t). iObserver e = Some ObsMT)"

definition mt_rest :: "timer_observer timer \<Rightarrow> bool" where
  "mt_rest t \<longleftrightarrow> mt_home t \<and> \<not> iInCallback t"

lemma mt_rest_ops [simp]:
  "mt_rest t \<Longrightarrow> mt_rest (timer_Request i p c (Some ObsMT) r t)"
  "mt_rest t \<Longrightarrow> mt_rest (timer_Cancel i p t)"
  using set_erase_timer by (fastforce simp: mt_rest_def mt_home_def timer_Request_def timer_Cancel_def Let_def)+

lemma mgr_timer:
  "mgr_TransferRequest d g m = Inr (g1, m1, es) \<Longrightarrow> mt_rest (iTimer m) \<Longrightarrow> mt_rest (iTimer m1)"
  "mgr_Ack a g m = Inr (g2, m2, es2) \<Longrightarrow> mt_rest (iTimer m) \<Longrightarrow> mt_rest (iTimer m2)"
  "mgr_Reject r g m = Inr (g2, m2, es2) \<Longrightarrow> mt_rest (iTimer m) \<Longrightarrow> mt_rest (iTimer m2)"
  by (auto simp: mgr_TransferRequest_def mgr_Ack_def mgr_Reject_def bind_res_Inr_iff Let_def
      RequestT104Timer_def CancelT104Timer_def)

lemma mt_event_home:
  assumes "mt_event ev p n m = Inr (m', es)" and "mt_rest (iTimer m)"
  shows "mt_rest (iTimer m')"
proof (cases ev)
  case EVENT_PTV_MT_TRF_REQ
  with assms show ?thesis by (auto simp: mt_defs mt_TransferRequest_def Let_def dest: mgr_timer(1))
next
  case EVENT_MSG_MT
  with assms show ?thesis by (cases "mtStatus2 m") (auto simp: mt_defs mt_0501_0001_def mt_0501_0011_def)
next
  case EVENT_PTV_MT_TRF_RPS
  with assms show ?thesis by (cases "mtStatus2 m") (auto simp: mt_defs mt_0502_0011_def Let_def)
next
  case EVENT_PTV_MT_RJT_REQ
  with assms show ?thesis by (cases "mtStatus2 m") (auto simp: mt_defs mt_0503_0011_def Let_def)
next
  case EVENT_MSG_MT_ACK
  with assms show ?thesis
    by (auto simp: mt_defs mt_MultiplexEntrySendAck_def split: if_splits option.splits dest: mgr_timer(2))
next
  case EVENT_MSG_MT_RJT
  with assms show ?thesis
    by (cases "iPendingMtSend m")
       (auto simp: mt_defs mt_MultiplexEntrySendReject_def split: if_splits dest: mgr_timer(3))
next
  case EVENT_TIM_MT_T104
  with assms show ?thesis by (simp add: mt_defs)
next
  case EVENT_MSG_MT_RLS
  with assms show ?thesis by (cases "mtStatus2 m") (auto simp: mt_defs mt_0507_0011_def Let_def)
qed

lemma mt_TimeoutOccurred_facts:
  assumes "mt_TimeoutOccurred m = Inr (m', es)"
  shows "iTimer m' = iTimer m" and "timer_ids es = {}"
proof -
  show "iTimer m' = iTimer m"
    using assms by (auto simp: mt_TimeoutOccurred_def bind_res_Inr_iff split: option.splits)
  show "timer_ids es = {}"
  proof (cases "iPendingMtSend m")
    case (Some g)
    with assms have "mgr_T104Timeout g = Inr es" by (auto simp: mt_TimeoutOccurred_def bind_res_Inr_iff)
    then show ?thesis
      by (auto simp: mgr_T104Timeout_def bind_res_Inr_iff mt_MsgMtRlsSend_def Let_def split: if_splits
          dest!: send_each_silent [rotated, OF _ mt_PtvRjtIdcSend_silent])
  qed (use assms in \<open>simp add: mt_TimeoutOccurred_def\<close>)
qed

text \<open>The dispatcher changes MT on events of MT only.\<close>

lemma run_put_MT_frame:
  assumes "run_res put r s = Inr s'" and "\<And>x. MyMT (put x s) = MyMT s"
  shows "MyMT s' = MyMT s"
  using assms run_res_Inr by fastforce

lemma Dispatch_MT_home:
  assumes "Dispatch ev p sup1 sup2 enc s = Inr s'" and "mt_rest (get_mtTimer s)"
  shows "mt_rest (get_mtTimer s')"
proof (cases ev)
  case (EVENT_MTSE x)
  with assms(1) have "run_res put_MT (mt_event x p sup1 (MyMT s)) s = Inr s'" by simp
  from run_res_Inr [OF this] obtain r where "mt_event x p sup1 (MyMT s) = Inr r" "s' = put_MT r s" by blast
  with mt_event_home [of x p sup1 "MyMT s" "fst r" "snd r"] assms(2) show ?thesis
    by (simp add: get_mtTimer_def)
next
  case (EVENT_LCBLCSE x)
  with assms show ?thesis by (auto simp: get_mtTimer_def dest: Dispatch_LCBLCSE_frame)
next
  case (EVENT_CLCSE x)
  with assms show ?thesis by (auto simp: get_mtTimer_def dest: Dispatch_CLCSE_frame)
qed (use assms in \<open>auto simp: get_mtTimer_def perform_frame dest!: run_put_MT_frame\<close>)

section \<open>All inputs\<close>

definition clocks_ok :: "se \<Rightarrow> bool" where
  "clocks_ok s \<longleftrightarrow> timers_ok s \<and> mt_rest (get_mtTimer s)"

text \<open>Primitives that pretend to be timeouts are not genuine.\<close>

definition genuine :: "se_input \<Rightarrow> bool" where
  "genuine i = (case i of Primitive h \<Rightarrow> InfType h \<noteq> H245_TIMEOUT | _ \<Rightarrow> True)"

lemma no_expiry_event:
  assumes "EventNoDecision tbl n = Some ev"
    and "tbl \<in> {EventNoTblForPri, EventNoTblForReqMsg, EventNoTblForRpsMsg, EventNoTblForCmdMsg, EventNoTblForIdcMsg}"
  shows "\<not> expiry_event ev"
  using EventNoDecision_Some [OF assms(1)] assms(2) by (auto simp: event_tables expiry_event_def)

lemma clocks_ok_Dispatch:
  assumes "clocks_ok s" and "\<not> expiry_event ev" and "Dispatch ev p sup1 sup2 enc s = Inr s'"
  shows "clocks_ok s'"
proof -
  have ok: "timers_ok s" "se_ok s" using assms(1) by (simp_all add: clocks_ok_def timers_ok_def)
  from timers_ok_paced [OF ok(1) paced_Dispatch [OF ok(2) assms(2)] se_ok_Dispatch [OF ok(2)]] assms(3)
  have "timers_ok s'" by (simp add: ensures_def)
  with Dispatch_MT_home [OF assms(3)] assms(1) show ?thesis by (simp add: clocks_ok_def)
qed

lemma clocks_ok_performs:
  assumes "clocks_ok s" and "timer_ids es = {}"
  shows "clocks_ok (performs es s)"
proof -
  have "timers_ok s" "se_ok s" using assms(1) by (simp_all add: clocks_ok_def timers_ok_def)
  then have "timers_ok (performs es s)"
    using timers_ok_paced [OF _ paced_report [OF assms(2)]] by (simp add: ensures_def)
  then show ?thesis using assms(1) by (simp add: clocks_ok_def get_mtTimer_def)
qed

lemma clocks_ok_report: "clocks_ok s \<Longrightarrow> clocks_ok (performs [ItnErrNotificationSend a b] s)"
  by (rule clocks_ok_performs) (simp_all add: ItnErrNotificationSend_def)

lemma clocks_ok_MessageRecv:
  assumes "clocks_ok s" and "MessageRecv type1 type2 p enc s = Inr s'"
  shows "clocks_ok s'"
proof (cases "TablePointerGetLowerLayer (ucast type1)")
  case None
  with assms show ?thesis by (auto simp: MessageRecv_def simp del: performs_simps intro: clocks_ok_report)
next
  case (Some tbl)
  then have tbl: "tbl \<in> {EventNoTblForPri, EventNoTblForReqMsg, EventNoTblForRpsMsg, EventNoTblForCmdMsg, EventNoTblForIdcMsg}"
    by (auto simp: TablePointerGetLowerLayer_def split: if_splits)
  show ?thesis
  proof (cases "EventNoDecision tbl (ucast type2)")
    case None
    with Some assms show ?thesis by (auto simp: MessageRecv_def simp del: performs_simps intro: clocks_ok_report)
  next
    case (Some ev)
    with \<open>TablePointerGetLowerLayer (ucast type1) = Some tbl\<close> assms(2)
    have "Dispatch ev p 0 0 enc s = Inr s'" by (simp add: MessageRecv_def)
    from clocks_ok_Dispatch [OF assms(1) no_expiry_event [OF Some tbl] this] show ?thesis .
  qed
qed

lemma clocks_ok_InformationRecv:
  assumes "clocks_ok s" and "InfType h \<noteq> H245_TIMEOUT" and "InformationRecv h s = Inr s'"
  shows "clocks_ok s'"
proof (cases "TablePointerGetUpperLayer (InfType h)")
  case None
  with assms show ?thesis by (auto simp: InformationRecv_def simp del: performs_simps intro: clocks_ok_report)
next
  case (Some tbl)
  then have tbl: "tbl \<in> {EventNoTblForPri, EventNoTblForReqMsg, EventNoTblForRpsMsg, EventNoTblForCmdMsg, EventNoTblForIdcMsg}"
    using assms(2) by (auto simp: TablePointerGetUpperLayer_def split: if_splits)
  show ?thesis
  proof (cases "EventNoDecision tbl (InfId h)")
    case None
    with Some assms show ?thesis by (auto simp: InformationRecv_def simp del: performs_simps intro: clocks_ok_report)
  next
    case (Some ev)
    with \<open>TablePointerGetUpperLayer (InfType h) = Some tbl\<close> assms(3)
    have "Dispatch ev (pParameter h) (InfSupplement1 h) (InfSupplement2 h) None s = Inr s'"
      by (simp add: InformationRecv_def)
    from clocks_ok_Dispatch [OF assms(1) no_expiry_event [OF Some tbl] this] show ?thesis .
  qed
qed

lemma clocks_ok_put:
  assumes "clocks_ok s"
  shows "clocks_ok (put_MSD (msd_step dur i (MyMSD s)) s)" and "clocks_ok (put_CE (ce_step dur j (MyCE s)) s)"
proof -
  have ok: "timers_ok s" "se_ok s" "mt_rest (get_mtTimer s)" using assms by (simp_all add: clocks_ok_def timers_ok_def)
  then show "clocks_ok (put_MSD (msd_step dur i (MyMSD s)) s)" and "clocks_ok (put_CE (ce_step dur j (MyCE s)) s)"
    using timers_ok_step [OF ok(1) keeps_pace_MSD] timers_ok_step [OF ok(1) keeps_pace_CE]
    by (simp_all add: clocks_ok_def get_mtTimer_def)
qed

lemma clocks_ok_upper_step: "clocks_ok s \<Longrightarrow> clocks_ok (upper_step c s)"
  using clocks_ok_put(1) [of s "dT106 (Durations s)" Msd_DetermineRequest]
    clocks_ok_put(2) [of s "dT101 (Durations s)" "Ce_TransferRequest tcs" for tcs]
    clocks_ok_put(2) [of s 0 Ce_TransferResponse] clocks_ok_put(2) [of s 0 "Ce_RejectRequest cause highest" for cause highest]
  by (cases c) simp_all

lemma clocks_ok_observers:
  assumes "clocks_ok s"
  shows "clocks_ok (s\<lparr>MyMSD := msd_SetObserver observer (MyMSD s)\<rparr>)"
    and "clocks_ok (s\<lparr>MyCE := ce_SetObserver observer (MyCE s)\<rparr>)"
    and "clocks_ok (s\<lparr>MyMSD := msd_SetTerminalType ttype (MyMSD s)\<rparr>)"
proof -
  have run: "running q (s\<lparr>MyMSD := msd_SetObserver observer (MyMSD s)\<rparr>) = running q s"
    "running q (s\<lparr>MyCE := ce_SetObserver observer (MyCE s)\<rparr>) = running q s"
    "running q (s\<lparr>MyMSD := msd_SetTerminalType ttype (MyMSD s)\<rparr>) = running q s" for q
    by (cases q; simp add: running_def msd_SetObserver_def msd_SetTerminalType_def ce_SetObserver_def)+
  have "se_ok (s\<lparr>MyMSD := m\<rparr>)" "se_ok (s\<lparr>MyCE := c\<rparr>)" for m c
    using assms by (auto simp: clocks_ok_def timers_ok_def intro: iffD1 [OF se_ok_frame, rotated -1])
  with assms run show "clocks_ok (s\<lparr>MyMSD := msd_SetObserver observer (MyMSD s)\<rparr>)"
    and "clocks_ok (s\<lparr>MyCE := ce_SetObserver observer (MyCE s)\<rparr>)"
    and "clocks_ok (s\<lparr>MyMSD := msd_SetTerminalType ttype (MyMSD s)\<rparr>)"
    by (simp_all add: clocks_ok_def timers_ok_def get_mtTimer_def)
qed

lemma timers_ok_upper_steps: "timers_ok s \<Longrightarrow> timers_ok (fold upper_step cs s)"
proof (induction cs arbitrary: s)
  case (Cons c cs)
  obtain es where "keeps_pace es s (upper_step c s)" by (rule upper_step_paced [of s c]) (rule that)
  moreover have "se_ok s" using Cons.prems by (simp add: timers_ok_def)
  then have "se_ok (upper_step c s)" by (rule se_ok_upper_step)
  ultimately have "timers_ok (upper_step c s)" by (rule timers_ok_step [OF Cons.prems])
  with Cons.IH show ?case by simp
qed simp

lemma timers_ok_upd_mt [simp]: "timers_ok (upd_mtTimer f s) = timers_ok s"
proof -
  have "MyTimer (upd_mtTimer f s) = MyTimer s" by (simp add: upd_mtTimer_def)
  then show ?thesis by (simp add: timers_ok_def)
qed

lemma MT_callback:
  assumes "timers_ok s" and "timer_callback ObsMT i n s = Inr s'"
  shows "timers_ok s'" and "get_mtTimer s' = get_mtTimer s"
proof -
  from assms(2) obtain r where r: "mt_TimeoutOccurred (MyMT s) = Inr r" and s': "s' = put_MT r s"
    by (auto dest: run_res_Inr)
  note facts = mt_TimeoutOccurred_facts [of "MyMT s" "fst r" "snd r", simplified, OF r]
  show "get_mtTimer s' = get_mtTimer s" using facts(1) by (simp add: s' get_mtTimer_def)
  have "keeps_pace (snd r) s s'"
    unfolding s' by (rule keeps_pace_silent) (simp_all add: served_put facts(2) addressed_silent)
  moreover have "se_ok s'" using se_ok_callback [of s ObsMT i n] assms by (simp add: ensures_def timers_ok_def)
  ultimately show "timers_ok s'" using assms(1) timers_ok_step by blast
qed

lemma mt_home_entry: "mt_home t \<Longrightarrow> i < length (iEntries t) \<Longrightarrow>
    mt_home (t\<lparr>iEntries := (iEntries t)[i := tick_entry (iEntries t ! i)]\<rparr>)"
  by (auto simp: mt_home_def tick_entry_def dest!: set_update_subset_insert [THEN subsetD])

lemma mt_home_deferred:
  assumes "mt_home t" and "\<not> iInCallback t"
  shows "mt_home (rearm (run_deferred_adds (run_deferred_cancels t)))"
  using assms(1) set_fold_erase [of "iEntriesWaitingToCancel t" "iEntries t"]
  unfolding mt_home_def deferred_idle(1,3) [OF assms(2)]
  by (auto simp: deferred_done_def deferred_entry_def new_entry_def)

text \<open>The tick of the timer of MT calls MT only.\<close>

definition mt_mid :: "nat \<Rightarrow> nat \<Rightarrow> se \<Rightarrow> bool" where
  "mt_mid len i s \<longleftrightarrow> timers_ok s \<and> mt_home (get_mtTimer s) \<and> length (iEntries (get_mtTimer s)) = len"

lemma MT_tick_clocks:
  assumes "clocks_ok s" and "MT_tick ans s = Inr s'"
  shows "clocks_ok s'"
proof -
  have idle: "\<not> iInCallback (get_mtTimer s)" using assms(1) by (simp add: clocks_ok_def mt_rest_def)
  let ?n = "length (iEntries (get_mtTimer s))"
  from assms(2) obtain found s1
    where loop: "elapse_loop get_mtTimer upd_mtTimer (answered ans) ?n 0 False s = Inr (found, s1)"
      and s': "s' = upd_mtTimer (\<lambda>t. rearm (run_deferred_adds (run_deferred_cancels
                 (if found then t\<lparr>iEntries := erase_expired (iEntries t)\<rparr> else t)))) s1"
    by (auto simp: MT_tick_def TimerBaseElapsed_def bind_res_Inr_iff)
  have "mt_mid ?n ?n s1"
  proof (rule elapse_loop_rule [where get = get_mtTimer and upd = upd_mtTimer and cb = "answered ans"
          and P = "mt_mid ?n" and i = 0 and n = ?n and N = ?n, OF _ _ _ _ _ _ loop])
    show "mt_mid ?n 0 s" using assms(1) by (simp add: mt_mid_def clocks_ok_def mt_rest_def)
  next
    fix i s3 e
    assume "mt_mid ?n i s3" and "i < ?n" and "e = iEntries (get_mtTimer s3) ! i"
    then show "mt_mid ?n (Suc i) (upd_mtTimer (\<lambda>t. t\<lparr>iEntries := (iEntries t)[i := tick_entry e]\<rparr>) s3)"
      using mt_home_entry by (simp add: mt_mid_def mt_timer.get_upd)
  next
    fix i s3 s4 e obs
    assume mid: "mt_mid ?n i s3" and i: "i < ?n" and e: "e = iEntries (get_mtTimer s3) ! i"
      and obs: "observer_of (iDefaultObserver (get_mtTimer s3)) e = Some obs"
      and cb: "answered ans obs (iTimerID e) (iParam e)
          (upd_mtTimer (\<lambda>t. t\<lparr>iInCallback := True\<rparr>)
             (upd_mtTimer (\<lambda>t. t\<lparr>iEntries := (iEntries t)[i := tick_entry e]\<rparr>) s3)) = Inr s4"
    let ?s1 = "upd_mtTimer (\<lambda>t. t\<lparr>iEntries := (iEntries t)[i := tick_entry e]\<rparr>) s3"
    have "e \<in> set (iEntries (get_mtTimer s3))" using mid i e by (simp add: mt_mid_def)
    with mid have "iObserver e = Some ObsMT" by (auto simp: mt_mid_def mt_home_def)
    with obs have mt: "obs = ObsMT" by (simp add: observer_of_def)
    have "mt_home (get_mtTimer ?s1)"
      using mid mt_home_entry i e by (simp add: mt_mid_def mt_timer.get_upd)
    moreover obtain s5 cs where cb5: "timer_callback obs (iTimerID e) (iParam e)
          (upd_mtTimer (\<lambda>t. t\<lparr>iInCallback := True\<rparr>) ?s1) = Inr s5" and s4: "s4 = fold upper_step cs s5"
      using cb by (rule answered_Inr)
    ultimately show "mt_mid ?n (Suc i) (upd_mtTimer (\<lambda>t. t\<lparr>iInCallback := False\<rparr>) s4)"
      using MT_callback [OF _ cb5 [unfolded mt]] mid i timers_ok_upper_steps [of s5 cs] answered_mtTimer [OF cb]
      by (simp add: mt_mid_def mt_timer.get_upd mt_home_def)
  qed (simp_all add: mt_timer.get_upd mt_mid_def)
  then have s1: "timers_ok s1" "mt_home (get_mtTimer s1)" by (simp_all add: mt_mid_def)
  let ?t = "if found then (get_mtTimer s1)\<lparr>iEntries := erase_expired (iEntries (get_mtTimer s1))\<rparr> else get_mtTimer s1"
  have "mt_home ?t" using s1(2) by (auto simp: mt_home_def erase_expired_filter)
  moreover have "\<not> iInCallback ?t" using mt_timer.elapse_loop_spec(3) [OF _ idle loop] by simp
  ultimately have "mt_rest (get_mtTimer s')"
    unfolding s' mt_timer.get_upd mt_rest_def using mt_home_deferred deferred_idle(2) by blast
  with s1(1) show ?thesis by (simp add: clocks_ok_def s')
qed

lemma timer_Cancel_empty: "iEntries t = [] \<Longrightarrow> \<not> iInCallback t \<Longrightarrow> timer_Cancel i p t = t"
  by (simp add: timer_Cancel_def)

lemma Reset_timer:
  assumes "\<not> iInCallback (MyTimer s)"
  shows "MyTimer (SE_Reset s) = timer_Clear (MyTimer s)"
    and "get_mtTimer (SE_Reset s) = timer_Clear (get_mtTimer s)"
  using assms
  by (simp_all add: SE_Reset_def Let_def put_defs timer_Cancel_empty timer_Clear_def get_mtTimer_def mt_Reset_def
      msd_Reset_def ce_Reset_def rtd_Reset_def ml_Reset_def mr_Reset_def rme_Reset_def
      msd_ResetTimer_def ce_ResetTimer_def rtd_T105TimerStop_def ml_T102TimerStop_def mr_T109TimerStop_def
      rme_T107TimerStop_def perform_frame)

lemma Reset_running:
  assumes "se_ok s"
  shows "running q (SE_Reset s) = []"
  using assms
  by (cases q)
     (auto simp: SE_Reset_def Let_def put_defs running_def perform_frame se_ok_def ml_outgoing_def
      msd_Reset_def msd_NewStatusDeterminationNumber_def ce_Reset_def rtd_Reset_def ml_Reset_def mr_Reset_def
      rme_Reset_def)

lemma clocks_ok_SE_Reset:
  assumes "clocks_ok s"
  shows "clocks_ok (SE_Reset s)"
proof -
  have ok: "se_ok s" "\<not> iInCallback (MyTimer s)"
    using assms by (simp_all add: clocks_ok_def timers_ok_def)
  from assms show ?thesis
    by (simp add: clocks_ok_def timers_ok_def Reset_timer [OF ok(2)] Reset_running [OF ok(1)] se_ok_SE_Reset
        timer_Clear_def timer_numbers_def mt_rest_def mt_home_def)
qed

lemma clocks_ok_settings: "clocks_ok s \<Longrightarrow> clocks_ok (s\<lparr>Clock := now\<rparr>)" "clocks_ok s \<Longrightarrow> clocks_ok (SetTimers d s)"
proof -
  assume ok: "clocks_ok s"
  then have "se_ok (s\<lparr>Clock := now\<rparr>)" "se_ok (SetTimers d s)"
    using se_ok_step [of s "ClockAt now"] se_ok_step [of s "SetTimersCall d"]
    by (simp_all add: clocks_ok_def timers_ok_def)
  moreover have "running q (s\<lparr>Clock := now\<rparr>) = running q s" "running q (SetTimers d s) = running q s" for q
    by (rule running_frame; simp add: SetTimers_def)+
  ultimately show "clocks_ok (s\<lparr>Clock := now\<rparr>)" and "clocks_ok (SetTimers d s)"
    using ok by (simp_all add: clocks_ok_def timers_ok_def get_mtTimer_def SetTimers_def)
qed

lemma SE_tick_mtTimer:
  assumes "SE_tick ans s = Inr s'"
  shows "get_mtTimer s' = get_mtTimer s"
  using assms unfolding SE_tick_def
  by (rule TimerBaseElapsed_keeps [where I = "\<lambda>s1. get_mtTimer s1 = get_mtTimer s", rotated -1])
     (auto simp: answered_mtTimer upd_MyTimer_def get_mtTimer_def [of "_\<lparr>MyTimer := _\<rparr>"] simp flip: get_mtTimer_def)

lemma clocks_ok_step:
  assumes "clocks_ok s" and "genuine i" and "se_step i s = Inr s'"
  shows "clocks_ok s'"
proof (cases i)
  case (Primitive h)
  with assms clocks_ok_InformationRecv show ?thesis by (simp add: genuine_def)
next
  case (Message type1 type2 p enc)
  with assms clocks_ok_MessageRecv show ?thesis by simp
next
  case (Call c)
  with assms clocks_ok_upper_step show ?thesis by auto
next
  case (SetMsdObserver observer)
  with assms clocks_ok_observers(1) show ?thesis by auto
next
  case (SetCeObserver observer)
  with assms clocks_ok_observers(2) show ?thesis by auto
next
  case (SetTerminalType ttype)
  with assms clocks_ok_observers(3) show ?thesis by auto
next
  case (TimerTick ans)
  then have tick: "SE_tick ans s = Inr s'" using assms(3) by simp
  with SE_tick_timers(1) [OF _ tick] SE_tick_mtTimer [OF tick] assms(1) show ?thesis by (auto simp: clocks_ok_def)
next
  case (MtTimerTick ans)
  with assms MT_tick_clocks show ?thesis by simp
next
  case (ClockAt now)
  with assms(1,3) clocks_ok_settings(1) show ?thesis by auto
next
  case (SetTimersCall d)
  with assms(1,3) clocks_ok_settings(2) show ?thesis by auto
next
  case ResetCall
  with assms clocks_ok_SE_Reset show ?thesis by auto
qed

lemma clocks_ok_start: "clocks_ok (SetH245 h (SetPer p (new_SE rnd period)))"
proof -
  have "running q (SetH245 h (SetPer p (new_SE rnd period))) = []" for q
    by (cases q) (simp_all add: running_def SetH245_def SetPer_def new_SE_def new_MSD_def new_CE_def
        new_RME_def new_MR_def new_RTD_def new_ML_def msd_NewStatusDeterminationNumber_def)
  then show ?thesis
    using se_ok_start
    by (simp add: clocks_ok_def timers_ok_def mt_rest_def mt_home_def get_mtTimer_def timer_numbers_def)
       (simp add: SetH245_def SetPer_def new_SE_def new_timer_def new_MT_def mt_Reset_def timer_Clear_def)
qed

lemma clocks_ok_run:
  assumes "clocks_ok s0" and "se_run inputs s0 = Inr s" and "\<forall>i \<in> set inputs. genuine i"
  shows "clocks_ok s"
  using assms
proof (induction inputs arbitrary: s0)
  case (Cons i inputs)
  then obtain s1 where "se_step i s0 = Inr s1" "se_run inputs s1 = Inr s" by (auto simp: bind_res_Inr_iff)
  with Cons.IH [of s1] clocks_ok_step [OF Cons.prems(1), of i s1] Cons.prems(3) show ?case by simp
qed simp

text \<open>C1. In every state that the entity reaches by messages, primitives, calls, ticks and resets,
  each of the six procedures with one timer (MSD, CE, RME, MR, RTD, ML) has exactly one timer
  running, with the current timer number, while it waits for an answer, and none while it does not;
  no matter how many timers expire in one tick, what their handlers do, and which requests of MSD
  and CE their observers make from inside the tick. Primitives that pretend to be timeouts are
  excluded.\<close>

theorem procedure_timers_match:
  assumes "se_run inputs (SetH245 h (SetPer p (new_SE rnd period))) = Inr s" and "\<forall>i \<in> set inputs. genuine i"
  shows "timer_numbers (proc_tid q) (MyTimer s) = (if awaits q s then [current_number q s] else [])"
  using clocks_ok_run [OF clocks_ok_start assms] by (simp add: clocks_ok_def timers_ok_def running_def)

lemma procedure_timers_match_witness:
  defines "again \<equiv> \<lambda>e. if e = MSDRejectIndication then [DetermineRequestCall] else []"
    and "d \<equiv> \<lparr> dT101 = 1, dT102 = 1, dT103 = 1, dT105 = 1, dT106 = 1, dT107 = 1, dT108 = 1, dT109 = 1 \<rparr>"
  shows "\<exists>s. se_run [SetTimersCall d, SetMsdObserver True, Call DetermineRequestCall, TimerTick again]
               (SetH245 True (SetPer True (new_SE (\<lambda>_. 5) 1000))) = Inr s
             \<and> timer_numbers 106 (MyTimer s) = [0]"
proof -
  have "\<exists>s. se_run [SetTimersCall d, SetMsdObserver True, Call DetermineRequestCall, TimerTick again]
               (SetH245 True (SetPer True (new_SE (\<lambda>_. 5) 1000))) = Inr s
             \<and> msdState (MyMSD s) = MSD_OUTGOING_AWAITING_RESPONSE"
    by (simp add: SetTimers_def SetH245_def SetPer_def new_SE_def put_defs new_MSD_def d_def again_def
        DetermineRequest_def msd_Idle_request_def msd_sends send_msg_def Let_def msd_SetObserver_def
        msd_NewStatusDeterminationNumber_def timer_Request_def new_timer_def RunIfNotReady_def SE_tick_def
        TimerBaseElapsed_def answered_def upd_MyTimer_def entry_expired_def tick_entry_def msd_HandlerTimeout_def
        msd_Outgoing_timeout_def msd_notify_def erase_expired_filter run_deferred_cancels_def
        run_deferred_adds_def rearm_def)
  then obtain s
    where run: "se_run [SetTimersCall d, SetMsdObserver True, Call DetermineRequestCall, TimerTick again]
                  (SetH245 True (SetPer True (new_SE (\<lambda>_. 5) 1000))) = Inr s"
      and "awaits Proc_MSD s" by auto
  with procedure_timers_match [OF run, of Proc_MSD] show ?thesis
    by (simp add: genuine_def del: se_run.simps)
qed

end
