(* ===== verification/TimerLiveness.thy ===== *)
theory TimerLiveness
  imports TimerInvariant
begin

text \<open>
  The waits of the procedures with one timer end. A tick of \<^verbatim>\<open>MyTimer\<close> always returns in the
  states that the invariant describes, whatever the terminal answers from inside it, and it brings
  the timer of a waiting procedure one tick nearer to its end; so after as many ticks as the
  counter says, without any help of the peer, the procedure does not wait any more, unless the
  terminal starts it again.
\<close>

section \<open>A tick returns\<close>

lemma elapse_loop_returns:
  assumes "n + i = N" and "P i s" and len: "\<And>i s. P i s \<Longrightarrow> length (iEntries (get s)) = N"
    and silent: "\<And>i s e. P i s \<Longrightarrow> i < N \<Longrightarrow> e = iEntries (get s) ! i \<Longrightarrow>
        \<not> entry_expired e \<or> observer_of (iDefaultObserver (get s)) e = None \<Longrightarrow>
        P (Suc i) (upd (\<lambda>t. t\<lparr>iEntries := (iEntries t)[i := tick_entry e]\<rparr>) s)"
    and called: "\<And>i s e obs. P i s \<Longrightarrow> i < N \<Longrightarrow> e = iEntries (get s) ! i \<Longrightarrow>
        entry_expired e \<Longrightarrow> observer_of (iDefaultObserver (get s)) e = Some obs \<Longrightarrow>
        \<exists>s2. cb obs (iTimerID e) (iParam e)
          (upd (\<lambda>t. t\<lparr>iInCallback := True\<rparr>)
             (upd (\<lambda>t. t\<lparr>iEntries := (iEntries t)[i := tick_entry e]\<rparr>) s)) = Inr s2
           \<and> P (Suc i) (upd (\<lambda>t. t\<lparr>iInCallback := False\<rparr>) s2)"
    and default: "\<And>f s. (\<And>t. iDefaultObserver (f t) = iDefaultObserver t) \<Longrightarrow>
        iDefaultObserver (get (upd f s)) = iDefaultObserver (get s)"
  shows "\<exists>r. elapse_loop get upd cb n i found s = Inr r"
  using assms(1,2)
proof (induction n arbitrary: i found s)
  case 0
  then show ?case by simp
next
  case (Suc n)
  let ?e = "iEntries (get s) ! i"
  let ?s1 = "upd (\<lambda>t. t\<lparr>iEntries := (iEntries t)[i := tick_entry ?e]\<rparr>) s"
  have i: "i < N" using Suc.prems(1) by simp
  with len [OF Suc.prems(2)] have i': "i < length (iEntries (get s))" by simp
  have next_pos: "n + Suc i = N" using Suc.prems(1) by simp
  have obs: "(case iObserver ?e of Some o1 \<Rightarrow> Some o1 | None \<Rightarrow> iDefaultObserver (get ?s1))
      = observer_of (iDefaultObserver (get s)) ?e"
    by (simp add: observer_of_def default split: option.split)
  show ?case
  proof (cases "entry_expired ?e \<and> observer_of (iDefaultObserver (get s)) ?e \<noteq> None")
    case False
    then have "P (Suc i) ?s1" using silent [OF Suc.prems(2) i refl] by auto
    with False i' Suc.IH [OF next_pos] show ?thesis
      by (auto simp: Let_def obs)
  next
    case True
    then obtain o1 where o1: "observer_of (iDefaultObserver (get s)) ?e = Some o1" by auto
    from called [OF Suc.prems(2) i refl _ o1] True obtain s2
      where s2: "cb o1 (iTimerID ?e) (iParam ?e) (upd (\<lambda>t. t\<lparr>iInCallback := True\<rparr>) ?s1) = Inr s2"
        and P2: "P (Suc i) (upd (\<lambda>t. t\<lparr>iInCallback := False\<rparr>) s2)" by auto
    with True i' Suc.IH [OF next_pos P2] show ?thesis
      by (simp add: Let_def obs o1)
  qed
qed

lemma with_entry_returns:
  assumes "\<And>e. returns (f e)"
  shows "returns (with_entry d lcn f s)"
proof (cases "GetLCEntry lcn (channels d s)")
  case (Some i)
  from assms obtain x where "f (entry_at i (channels d s)) = Inr x" by (metis returns_iff)
  with Some show ?thesis by (simp add: with_entry_def on_entry_def case_prod_unfold)
qed (simp add: with_entry_def)

lemma run_res_returns [simp]: "returns (run_res put r s) = returns r"
  by (cases r) (simp_all add: run_res_def)

text \<open>The callbacks of the timers of the entity return.\<close>

lemma rme_expiry_returns:
  assumes "rme_ok m"
  shows "returns (rme_event dur EVENT_TIM_RME_T107 None n m)"
  using assms
  by (auto simp: rme_event_def rme_handlers rme_sends break_def rme_ok_def RMEntries_Copy_def LOCAL_ENTRIES_def Let_def)

lemma T103_returns: "returns (entry_T103 n e)"
  by (cases "Status e") (simp_all add: entry_T103_def Nop_XXXX_XXXX_def)

lemma T108_returns: "returns (when_cls c (\<lambda>e. Inr (clc_0406_0010 n e)) e)"
  by (simp add: when_cls_def)

lemma callback_returns:
  assumes "se_ok s" and "known_id i" and "obs = (case home i of None \<Rightarrow> ObsSE | Some obs' \<Rightarrow> obs')"
  shows "returns (timer_callback obs i n s)"
proof (cases "channel_id i")
  case True
  then have "home i = None" by (auto simp: home_def channel_id_def)
  with assms(3) True show ?thesis
    by (auto simp: channel_id_def SE_TimeoutOccurred_def InformationRecv_def TablePointerGetUpperLayer_def
        EventNoTblForTo_def Dispatch_LCBLCSE_def Dispatch_CLCSE_def Let_def
        intro!: with_entry_returns T103_returns T108_returns)
next
  case False
  with assms(2) obtain q where i: "i = proc_tid q" by (auto simp: known_id_def)
  have ok: "rme_ok (MyRME s)" using assms(1) by (simp add: se_ok_def)
  show ?thesis
    using assms(3) rme_expiry_returns [OF ok] unfolding i
    by (cases q) (auto simp: home_def SE_TimeoutOccurred_proc [simplified] mr_event_def rtd_event_def ml_event_def
        break_def split: rtd_status.split ml_status.split)
qed

lemma answered_returns: "returns (timer_callback obs i n s) \<Longrightarrow> returns (answered ans obs i n s)"
  by (cases "timer_callback obs i n s") (simp_all add: answered_def)

lemma SE_tick_returns:
  assumes "timers_ok s"
  shows "\<exists>s'. SE_tick ans s = Inr s'"
proof -
  let ?es = "iEntries (MyTimer s)"
  have fits: "\<forall>e \<in> set ?es. entry_fits e" and start: "\<forall>q. numbers q ?es = running q s"
    using assms by (simp_all add: timers_ok_def numbers_def timer_numbers_def)
  have "\<exists>r. elapse_loop MyTimer upd_MyTimer (answered ans) (length ?es) 0 False s = Inr r"
  proof (rule elapse_loop_returns [where P = "mid_tick ans ?es" and N = "length ?es"])
    show "mid_tick ans ?es 0 s" using assms by (rule mid_tick_start)
    show "length (iEntries (MyTimer s3)) = length ?es" if "mid_tick ans ?es i s3" for i s3
      using that by (auto simp: mid_tick_def)
  next
    fix i s3 e
    assume mid: "mid_tick ans ?es i s3" and i: "i < length ?es" and e: "e = iEntries (MyTimer s3) ! i"
      and "\<not> entry_expired e \<or> observer_of (iDefaultObserver (MyTimer s3)) e = None"
    then show "mid_tick ans ?es (Suc i) (upd_MyTimer (\<lambda>t. t\<lparr>iEntries := (iEntries t)[i := tick_entry e]\<rparr>) s3)"
      by (rule mid_tick_silence)
  next
    fix i s3 e obs
    assume mid: "mid_tick ans ?es i s3" and i: "i < length ?es" and e: "e = iEntries (MyTimer s3) ! i"
      and exp: "entry_expired e" and obs: "observer_of (iDefaultObserver (MyTimer s3)) e = Some obs"
    let ?s = "upd_MyTimer (\<lambda>t. t\<lparr>iInCallback := True\<rparr>)
                (upd_MyTimer (\<lambda>t. t\<lparr>iEntries := (iEntries t)[i := tick_entry e]\<rparr>) s3)"
    have at: "e = ?es ! i" using e mid_tick_entry(1) [OF mid i] by simp
    then have "entry_fits e" using fits i by simp
    then have "known_id (iTimerID e)" "obs = (case home (iTimerID e) of None \<Rightarrow> ObsSE | Some obs' \<Rightarrow> obs')"
      using obs mid by (auto simp: entry_fits_def observer_of_def mid_tick_def split: option.splits)
    moreover have "se_ok ?s" using mid by (simp add: mid_tick_def)
    ultimately obtain s4 where cb: "answered ans obs (iTimerID e) (iParam e) ?s = Inr s4"
      using answered_returns [OF callback_returns] by (fastforce simp: returns_iff)
    with mid_tick_called [OF mid i at fits start exp obs cb]
    show "\<exists>s4. answered ans obs (iTimerID e) (iParam e) ?s = Inr s4
        \<and> mid_tick ans ?es (Suc i) (upd_MyTimer (\<lambda>t. t\<lparr>iInCallback := False\<rparr>) s4)" by blast
  qed (simp_all add: se_timer.get_upd)
  then show ?thesis by (auto simp: SE_tick_def TimerBaseElapsed_def case_prod_unfold)
qed

section \<open>Ticks until the end\<close>

lemma ticks_until_end:
  assumes "timers_ok s" and "\<forall>e \<in> set (entries_of q (iEntries (MyTimer s))). iCounter e \<le> int (Suc (length answers))"
    and "\<not> restarts ans q" and "\<forall>ans \<in> set answers. \<not> restarts ans q"
  shows "\<exists>s'. se_run (map TimerTick (ans # answers)) s = Inr s' \<and> timers_ok s' \<and> \<not> awaits q s'"
  using assms
proof (induction answers arbitrary: ans s)
  case Nil
  from SE_tick_returns [OF Nil(1)] obtain s' where s': "SE_tick ans s = Inr s'" by blast
  note tick = SE_tick_timers(1) [OF Nil(1) s'] SE_tick_timers(2) [OF Nil(1) s' Nil(3)]
  have "entries_of q (iEntries (MyTimer s')) = []"
    unfolding tick(2) using Nil(2) by (auto simp: filter_empty_conv entry_expired_def)
  then have "timer_numbers (proc_tid q) (MyTimer s') = []" by (simp add: timer_numbers_def entries_of_def)
  with tick(1) have "\<not> awaits q s'" by (auto simp: timers_ok_def running_def split: if_splits)
  with s' tick(1) show ?case by simp
next
  case (Cons ans1 answers)
  from SE_tick_returns [OF Cons.prems(1)] obtain s1 where s1: "SE_tick ans s = Inr s1" by blast
  note tick = SE_tick_timers(1) [OF Cons.prems(1) s1] SE_tick_timers(2) [OF Cons.prems(1) s1 Cons.prems(3)]
  have "\<forall>e \<in> set (entries_of q (iEntries (MyTimer s1))). iCounter e \<le> int (Suc (length answers))"
    unfolding tick(2) using Cons.prems(1,2)
    by (auto simp: tick_entry_def timers_ok_def entry_fits_def entries_of_def)
  moreover have "\<not> restarts ans1 q" and "\<forall>ans \<in> set answers. \<not> restarts ans q"
    using Cons.prems(4) by auto
  ultimately show ?case using Cons.IH [OF tick(1)] s1 by simp
qed

lemma reached_clocks_ok:
  assumes "se_run inputs (SetH245 h (SetPer p (new_SE rnd period))) = Inr s" and "\<forall>i \<in> set inputs. genuine i"
  shows "clocks_ok s"
  by (rule clocks_ok_run [OF clocks_ok_start assms])

text \<open>C2. The waits of the six procedures with one timer (MSD, CE, RME, MR, RTD, ML) end without the
  peer. In every state after genuine inputs, such a procedure that waits has its timer in the list,
  and as many ticks as the counter of that timer says, with no other input between them, always
  return and leave the procedure not waiting. The observers of MSD and CE may call the entity from
  inside these ticks, with every call but the one that starts this very procedure again
  (\<^verbatim>\<open>DetermineRequest\<close> for MSD, \<^verbatim>\<open>TransferRequest\<close> for CE), which begins a new wait. The
  waits of channels are not covered.\<close>

theorem wait_ends:
  assumes "se_run inputs (SetH245 h (SetPer p (new_SE rnd period))) = Inr s" and "\<forall>i \<in> set inputs. genuine i"
    and "awaits q s"
  shows "\<exists>e \<in> set (iEntries (MyTimer s)). iTimerID e = proc_tid q \<and>
           (\<forall>answers. length answers = nat (max 1 (iCounter e)) \<and> (\<forall>ans \<in> set answers. \<not> restarts ans q)
              \<longrightarrow> (\<exists>s'. se_run (map TimerTick answers) s = Inr s' \<and> \<not> awaits q s'))"
proof -
  have ok: "timers_ok s" using reached_clocks_ok [OF assms(1,2)] by (simp add: clocks_ok_def)
  then have numbers: "map iParam (entries_of q (iEntries (MyTimer s))) = [current_number q s]"
    using assms(3) by (auto simp: timers_ok_def timer_numbers_def entries_of_def running_def split: if_splits)
  then obtain e where e: "entries_of q (iEntries (MyTimer s)) = [e]" by auto
  have "\<exists>s'. se_run (map TimerTick answers) s = Inr s' \<and> \<not> awaits q s'"
    if "length answers = nat (max 1 (iCounter e))" "\<forall>ans \<in> set answers. \<not> restarts ans q" for answers
  proof (cases answers)
    case (Cons ans answers')
    then have "\<forall>e \<in> set (entries_of q (iEntries (MyTimer s))). iCounter e \<le> int (Suc (length answers'))"
      using e that(1) by auto
    from ticks_until_end [OF ok this] that(2) Cons show ?thesis by auto
  qed (use that(1) in simp)
  moreover have "e \<in> set (iEntries (MyTimer s)) \<and> iTimerID e = proc_tid q"
    using arg_cong [OF e, of set] by (auto simp: entries_of_def)
  ultimately show ?thesis by blast
qed

lemma wait_ends_witness:
  defines "s \<equiv> put_MSD (DetermineRequest 2 (new_MSD (\<lambda>_. 5))) (SetTimers
      \<lparr> dT101 = 1, dT102 = 1, dT103 = 1, dT105 = 1, dT106 = 2, dT107 = 1, dT108 = 1, dT109 = 1 \<rparr>
      (SetH245 True (SetPer True (new_SE (\<lambda>_. 5) 1000))))"
  shows "\<exists>s'. se_run [TimerTick (\<lambda>_. []), TimerTick (\<lambda>_. [])] s = Inr s' \<and> \<not> awaits Proc_MSD s'"
proof -
  have entries: "map iCounter (iEntries (MyTimer s)) = [2]"
    by (simp add: s_def SetTimers_def SetH245_def SetPer_def new_SE_def put_defs new_MSD_def
        DetermineRequest_def msd_Idle_request_def msd_sends send_msg_def Let_def
        msd_NewStatusDeterminationNumber_def timer_Request_def new_timer_def RunIfNotReady_def)
  have "\<exists>e \<in> set (iEntries (MyTimer s)). iTimerID e = proc_tid Proc_MSD \<and>
           (\<forall>answers. length answers = nat (max 1 (iCounter e)) \<and> (\<forall>ans \<in> set answers. \<not> restarts ans Proc_MSD)
              \<longrightarrow> (\<exists>s'. se_run (map TimerTick answers) s = Inr s' \<and> \<not> awaits Proc_MSD s'))"
    by (rule wait_ends [where h = True and p = True and rnd = "\<lambda>_. 5" and period = 1000 and
          inputs = "[SetTimersCall \<lparr> dT101 = 1, dT102 = 1, dT103 = 1, dT105 = 1, dT106 = 2, dT107 = 1, dT108 = 1, dT109 = 1 \<rparr>,
                   Call DetermineRequestCall]"])
       (simp_all add: s_def genuine_def SetTimers_def SetH245_def SetPer_def new_SE_def put_defs new_MSD_def
          DetermineRequest_def msd_Idle_request_def Let_def msd_NewStatusDeterminationNumber_def perform_frame)
  then obtain e where e: "e \<in> set (iEntries (MyTimer s))"
    and ends: "\<And>answers. length answers = nat (max 1 (iCounter e)) \<Longrightarrow> \<forall>ans \<in> set answers. \<not> restarts ans Proc_MSD
              \<Longrightarrow> \<exists>s'. se_run (map TimerTick answers) s = Inr s' \<and> \<not> awaits Proc_MSD s'" by blast
  have "iCounter e = 2" using entries e by auto
  with ends [of "[\<lambda>_. [], \<lambda>_. []]"] show ?thesis by (simp add: restarts_def del: se_run.simps)
qed

end
