(* ===== verification/MsdProps.thy ===== *)
theory MsdProps
  imports MsdProtocol
begin

text \<open>
  What master slave determination (\<^verbatim>\<open>msd.h\<close>) achieves: agreement of two terminals over any
  network, completion of an exchange that nothing disturbs, also when both sides start at once,
  and a bound on the number of attempts.
\<close>

section \<open>Agreement\<close>

text \<open>C3. Two terminals whose initial types and numbers decide the matter (the types differ, or the numbers
  differ modulo 2^24 by something other than 0 and 2^23; otherwise the comparison is indeterminate and nothing is
  claimed) never reach contradicting results: however often either starts a determination or times out, and however
  the network loses, repeats or reorders their messages, once both have a result one is master and the other is slave,
  and it is the one that the comparison of the initial types and numbers says.\<close>

theorem terminals_agree:
  assumes "msd_net dur a0 b0 (a, b, toB, toA)"
    and "msdState a0 = MSD_IDLE" and "msdStatus a0 = MSD_INDETERMINATE"
    and "msdState b0 = MSD_IDLE" and "msdStatus b0 = MSD_INDETERMINATE"
    and "decide (msdTerminalType a0) (msdNumber a0) (msdTerminalType b0) (msdNumber b0) \<noteq> MSD_INDETERMINATE"
    and "msdStatus a \<noteq> MSD_INDETERMINATE" and "msdStatus b \<noteq> MSD_INDETERMINATE"
  shows "msdStatus a = decide (msdTerminalType a0) (msdNumber a0) (msdTerminalType b0) (msdNumber b0)
       \<and> msdStatus b = opposite (msdStatus a)"
  using msd_net_ok [OF assms(1-5) refl assms(6)] assms(7,8) by (simp add: net_ok_def side_ok_def)

text \<open>The side \<open>a\<close> asks, \<open>b\<close> answers, \<open>a\<close> answers the answer.\<close>

lemma terminals_agree_witness:
  defines "a0 \<equiv> new_MSD (\<lambda>_. 5)" and "b0 \<equiv> new_MSD (\<lambda>_. 9)"
  defines "a1 \<equiv> fst (DetermineRequest 7 a0)"
  defines "b1 \<equiv> fst (msd_Handler_MSD 7 \<lparr> msd_terminalType = 128, msd_statusDeterminationNumber = 5 \<rparr> b0)"
  defines "a2 \<equiv> fst (msd_Handler_MSDAck 0 a1)"
  shows "msdStatus a2 = MSD_MASTER \<and> msdStatus b1 = MSD_SLAVE"
proof -
  let ?d = "P_MasterSlaveDetermination \<lparr> msd_terminalType = 128, msd_statusDeterminationNumber = 5 \<rparr>"
  note evaluate = a0_def b0_def a1_def b1_def a2_def new_MSD_def msd_NewStatusDeterminationNumber_def
    msd_handlers msd_cases msd_sends Let_def DetermineStatus_def TWO_24_def TWO_23_def msd_notify_def decide_def
  have "msd_net 7 a0 b0 (a1, b0, {?d}, {})"
    using msd_net.request_a [OF msd_net.start [of 7 a0 b0] prod.collapse [symmetric]]
    by (simp add: evaluate)
  from msd_net.deliver_b [OF this singletonI prod.collapse [symmetric]]
  have "msd_net 7 a0 b0 (a1, b1, {?d}, {P_MasterSlaveDeterminationAck 0})"
    by (simp add: evaluate)
  from msd_net.deliver_a [OF this singletonI prod.collapse [symmetric]]
  have "msd_net 7 a0 b0 (a2, b1, {?d, P_MasterSlaveDeterminationAck 1}, {P_MasterSlaveDeterminationAck 0})"
    by (simp add: evaluate insert_commute)
  from terminals_agree [OF this] show ?thesis
    by (simp add: evaluate)
qed

section \<open>Completion\<close>

text \<open>The messages of one side are handed to the other in order, then its answers back, and so
  on, \<open>k\<close> times.\<close>

fun hand_over :: "u32 \<Rightarrow> payload list \<Rightarrow> msd \<Rightarrow> msd \<times> payload list" where
  "hand_over dur [] m = (m, [])"
| "hand_over dur (p # ps) m =
     (let (m1, es) = msd_receive dur p m; (m2, qs) = hand_over dur ps m1 in (m2, sent es @ qs))"

fun converse_msd :: "u32 \<Rightarrow> nat \<Rightarrow> payload list \<Rightarrow> msd \<Rightarrow> msd \<Rightarrow> msd \<times> msd \<times> payload list" where
  "converse_msd dur 0 ps listener speaker = (listener, speaker, ps)"
| "converse_msd dur (Suc k) ps listener speaker =
     (let (m, qs) = hand_over dur ps listener in converse_msd dur k qs speaker m)"

text \<open>A side that is not waiting for the same thing takes a determination and answers it.\<close>

lemma receive_MSD:
  assumes "msdState m \<noteq> MSD_INCOMING_AWAITING_RESPONSE"
    and "decide (msdTerminalType m) (msdNumber m) (msd_terminalType d) (msd_statusDeterminationNumber d) = w"
    and "w \<noteq> MSD_INDETERMINATE"
  shows "\<exists>m' es. msd_receive dur (P_MasterSlaveDetermination d) m = (m', es)
      \<and> sent es = [P_MasterSlaveDeterminationAck (if w = MSD_MASTER then 1 else 0)]
      \<and> msdState m' = MSD_INCOMING_AWAITING_RESPONSE \<and> msdStatus m' = w"
  using assms
  by (cases "msdState m")
     (simp_all add: msd_handlers msd_cases msd_sends Let_def DetermineStatus_decide)

lemma receive_Ack_outgoing:
  assumes "msdState m = MSD_OUTGOING_AWAITING_RESPONSE"
  shows "\<exists>m' es. msd_receive dur (P_MasterSlaveDeterminationAck n) m = (m', es)
      \<and> sent es = [P_MasterSlaveDeterminationAck (if n = 0 then 1 else 0)]
      \<and> msdState m' = MSD_IDLE \<and> msdStatus m' = (if n = 0 then MSD_MASTER else MSD_SLAVE)"
  using assms by (simp add: msd_handlers msd_cases msd_sends Let_def)

lemma receive_Ack_incoming:
  assumes "msdState m = MSD_INCOMING_AWAITING_RESPONSE" and "msdStatus m = (if n = 0 then MSD_MASTER else MSD_SLAVE)"
    and "n \<in> {0, 1}"
  shows "\<exists>m' es. msd_receive dur (P_MasterSlaveDeterminationAck n) m = (m', es)
      \<and> sent es = [] \<and> msdState m' = MSD_IDLE \<and> msdStatus m' = msdStatus m"
  using assms by (auto simp: msd_handlers msd_cases msd_sends Let_def)

lemma request_idle:
  assumes "msdState m = MSD_IDLE"
  shows "\<exists>m' es. DetermineRequest dur m = (m', es)
      \<and> sent es = [P_MasterSlaveDetermination
            \<lparr> msd_terminalType = msdTerminalType m, msd_statusDeterminationNumber = msdNumber m \<rparr>]
      \<and> msdState m' = MSD_OUTGOING_AWAITING_RESPONSE \<and> msdTerminalType m' = msdTerminalType m
      \<and> msdNumber m' = msdNumber m"
  using assms by (simp add: msd_handlers msd_cases msd_sends Let_def)

text \<open>A determination that nothing disturbs completes after three messages: both sides are
  idle again, with opposite results, and no message is left.\<close>

theorem undisturbed_determination:
  assumes "msdState a = MSD_IDLE" and "msdState b = MSD_IDLE"
    and "decide (msdTerminalType a) (msdNumber a) (msdTerminalType b) (msdNumber b) = v"
    and "v \<noteq> MSD_INDETERMINATE"
  shows "\<exists>a' b'. converse_msd dur 3 (sent (snd (DetermineRequest dur a))) b (fst (DetermineRequest dur a))
            = (a', b', [])
          \<and> msdState a' = MSD_IDLE \<and> msdState b' = MSD_IDLE
          \<and> msdStatus a' = v \<and> msdStatus b' = opposite v"
proof -
  obtain a1 es1 where a1: "DetermineRequest dur a = (a1, es1)"
    "sent es1 = [P_MasterSlaveDetermination
        \<lparr> msd_terminalType = msdTerminalType a, msd_statusDeterminationNumber = msdNumber a \<rparr>]"
    "msdState a1 = MSD_OUTGOING_AWAITING_RESPONSE"
    using request_idle [OF assms(1)] by blast
  let ?n = "if opposite v = MSD_MASTER then 1 else 0 :: u16"
  obtain b1 es2 where b1: "msd_receive dur (P_MasterSlaveDetermination
        \<lparr> msd_terminalType = msdTerminalType a, msd_statusDeterminationNumber = msdNumber a \<rparr>) b = (b1, es2)"
    "sent es2 = [P_MasterSlaveDeterminationAck ?n]"
    "msdState b1 = MSD_INCOMING_AWAITING_RESPONSE" "msdStatus b1 = opposite v"
    using receive_MSD [of b "\<lparr> msd_terminalType = msdTerminalType a, msd_statusDeterminationNumber = msdNumber a \<rparr>" "opposite v" dur]
      assms by (cases v) (auto simp: decide_opposite [of "msdTerminalType b" "msdNumber b" "msdTerminalType a"])
  obtain a2 es3 where a2: "msd_receive dur (P_MasterSlaveDeterminationAck ?n) a1 = (a2, es3)"
    "sent es3 = [P_MasterSlaveDeterminationAck (if ?n = 0 then 1 else 0)]"
    "msdState a2 = MSD_IDLE" "msdStatus a2 = v"
    using receive_Ack_outgoing [OF a1(3), of dur ?n] assms(4) by (cases v) auto
  obtain b2 es4 where b2: "msd_receive dur (P_MasterSlaveDeterminationAck (if ?n = 0 then 1 else 0)) b1 = (b2, es4)"
    "sent es4 = []" "msdState b2 = MSD_IDLE" "msdStatus b2 = opposite v"
    using receive_Ack_incoming [OF b1(3), of "if ?n = 0 then 1 else 0" dur] b1(4) assms(4) by (cases v) auto
  have "converse_msd dur 3 (sent (snd (DetermineRequest dur a))) b (fst (DetermineRequest dur a)) = (a2, b2, [])"
    by (simp only: a1 b1 a2 b2 numeral_3_eq_3 converse_msd.simps hand_over.simps fst_conv snd_conv Let_def
        prod.case append_Nil append_Nil2)
  with a2 b2 show ?thesis by blast
qed

lemma undisturbed_determination_witness:
  "\<exists>a' b'. converse_msd 7 3 (sent (snd (DetermineRequest 7 (new_MSD (\<lambda>_. 5))))) (new_MSD (\<lambda>_. 9))
            (fst (DetermineRequest 7 (new_MSD (\<lambda>_. 5)))) = (a', b', [])
          \<and> msdState a' = MSD_IDLE \<and> msdState b' = MSD_IDLE
          \<and> msdStatus a' = MSD_MASTER \<and> msdStatus b' = opposite MSD_MASTER"
  by (rule undisturbed_determination)
     (simp_all add: new_MSD_def msd_NewStatusDeterminationNumber_def decide_def Let_def)

text \<open>When both sides start at once and their determinations cross on the way, both drop their
  own request and answer the other; the answers cross too, and both sides end idle with opposite
  results.\<close>

theorem crossing_determinations:
  assumes "msdState a = MSD_IDLE" and "msdState b = MSD_IDLE"
    and "decide (msdTerminalType a) (msdNumber a) (msdTerminalType b) (msdNumber b) = v"
    and "v \<noteq> MSD_INDETERMINATE"
    and "DetermineRequest dur a = (a1, es1)" and "DetermineRequest dur b = (b1, es2)"
    and "hand_over dur (sent es2) a1 = (a2, toB)" and "hand_over dur (sent es1) b1 = (b2, toA)"
    and "hand_over dur toA a2 = (a3, ps)" and "hand_over dur toB b2 = (b3, qs)"
  shows "msdState a3 = MSD_IDLE \<and> msdState b3 = MSD_IDLE \<and> msdStatus a3 = v \<and> msdStatus b3 = opposite v
       \<and> ps = [] \<and> qs = []"
proof -
  let ?da = "\<lparr> msd_terminalType = msdTerminalType a, msd_statusDeterminationNumber = msdNumber a \<rparr>"
  let ?db = "\<lparr> msd_terminalType = msdTerminalType b, msd_statusDeterminationNumber = msdNumber b \<rparr>"
  have a1: "sent es1 = [P_MasterSlaveDetermination ?da]" "msdState a1 = MSD_OUTGOING_AWAITING_RESPONSE"
      "msdTerminalType a1 = msdTerminalType a" "msdNumber a1 = msdNumber a"
    using request_idle [OF assms(1), of dur] assms(5) by auto
  have b1: "sent es2 = [P_MasterSlaveDetermination ?db]" "msdState b1 = MSD_OUTGOING_AWAITING_RESPONSE"
      "msdTerminalType b1 = msdTerminalType b" "msdNumber b1 = msdNumber b"
    using request_idle [OF assms(2), of dur] assms(6) by auto
  have w: "opposite v \<noteq> MSD_INDETERMINATE" using assms(4) by (cases v) simp_all
  have a2: "msdState a2 = MSD_INCOMING_AWAITING_RESPONSE" "msdStatus a2 = v"
      "toB = [P_MasterSlaveDeterminationAck (if v = MSD_MASTER then 1 else 0)]"
    using receive_MSD [of a1 ?db v dur] a1 b1(1) assms(3,4,7) by auto
  have b2: "msdState b2 = MSD_INCOMING_AWAITING_RESPONSE" "msdStatus b2 = opposite v"
      "toA = [P_MasterSlaveDeterminationAck (if opposite v = MSD_MASTER then 1 else 0)]"
    using receive_MSD [of b1 ?da "opposite v" dur] b1 a1(1) assms(3,8) w
    by (auto simp: decide_opposite [of "msdTerminalType b" "msdNumber b" "msdTerminalType a"])
  have "msdState a3 = MSD_IDLE \<and> msdStatus a3 = v \<and> ps = []"
    using receive_Ack_incoming [OF a2(1), of "if opposite v = MSD_MASTER then 1 else 0" dur] a2(2) b2(3) assms(4,9)
    by (cases v) auto
  moreover have "msdState b3 = MSD_IDLE \<and> msdStatus b3 = opposite v \<and> qs = []"
    using receive_Ack_incoming [OF b2(1), of "if v = MSD_MASTER then 1 else 0" dur] b2(2) a2(3) assms(4,10)
    by (cases v) auto
  ultimately show ?thesis by blast
qed

lemma crossing_determinations_witness:
  defines "a1 \<equiv> DetermineRequest 7 (new_MSD (\<lambda>_. 5))" and "b1 \<equiv> DetermineRequest 7 (new_MSD (\<lambda>_. 9))"
  defines "a2 \<equiv> hand_over 7 (sent (snd b1)) (fst a1)" and "b2 \<equiv> hand_over 7 (sent (snd a1)) (fst b1)"
  defines "a3 \<equiv> hand_over 7 (snd b2) (fst a2)" and "b3 \<equiv> hand_over 7 (snd a2) (fst b2)"
  shows "msdState (fst a3) = MSD_IDLE \<and> msdState (fst b3) = MSD_IDLE \<and> msdStatus (fst a3) = MSD_MASTER
       \<and> msdStatus (fst b3) = opposite MSD_MASTER \<and> snd a3 = [] \<and> snd b3 = []"
  by (rule crossing_determinations [where a = "new_MSD (\<lambda>_. 5)" and b = "new_MSD (\<lambda>_. 9)" and dur = 7
        and ?a1.0 = "fst a1" and ?es1.0 = "snd a1" and ?b1.0 = "fst b1" and ?es2.0 = "snd b1"
        and ?a2.0 = "fst a2" and toB = "snd a2" and ?b2.0 = "fst b2" and toA = "snd b2"])
     (simp_all only: prod.collapse a1_def b1_def a2_def b2_def a3_def b3_def,
      simp_all add: new_MSD_def msd_NewStatusDeterminationNumber_def decide_def Let_def)

section \<open>The number of attempts\<close>

text \<open>A run of one side: its inputs, and timeouts as \<open>None\<close>, with all calls made.\<close>

fun msd_run :: "u32 \<Rightarrow> msd_input option list \<Rightarrow> msd \<Rightarrow> msd \<times> effect list" where
  "msd_run dur [] m = (m, [])"
| "msd_run dur (i # inputs) m =
     (let (m1, es) = (case i of None \<Rightarrow> msd_HandlerTimeout m | Some j \<Rightarrow> msd_step dur j m);
          (m2, fs) = msd_run dur inputs m1
      in (m2, es @ fs))"

fun is_determination :: "payload \<Rightarrow> bool" where
  "is_determination (Block_Msd (MasterSlaveDetermination d)) = True"
| "is_determination _ = False"

definition attempts :: "effect list \<Rightarrow> nat" where
  "attempts es = length (filter is_determination (sent es))"

lemma attempts_simps [simp]:
  "attempts [] = 0"
  "attempts (es @ fs) = attempts es + attempts fs"
  "attempts (msd_SetTimer dur # es) = attempts es"
  "attempts (msd_ResetTimer # es) = attempts es"
  "attempts (SendMSD m # es) = Suc (attempts es)"
  "attempts (SendMSDReject # es) = attempts es"
  "attempts (SendMSDAck m # es) = attempts es"
  "attempts (SendMSDRelease # es) = attempts es"
  "attempts (msd_notify m []) = 0"
  "attempts (msd_notify m (MSDDetermineConfirm s # es)) = attempts (msd_notify m es)"
  "attempts (msd_notify m (MSDDetermineIndication s # es)) = attempts (msd_notify m es)"
  "attempts (msd_notify m (MSDRejectIndication # es)) = attempts (msd_notify m es)"
  "attempts (msd_notify m (MSDErrorIndication c # es)) = attempts (msd_notify m es)"
  by (simp_all add: attempts_def msd_sends)

definition attempts_left :: "msd \<Rightarrow> nat" where
  "attempts_left m = (if msdState m = MSD_OUTGOING_AWAITING_RESPONSE then 100 - unat (msdRetryCnt m) else 0)"

lemma retry_count_step:
  fixes c :: u8
  assumes "\<not> MSD_MAX_RETRIES \<le> c"
  shows "unat (c + 1) = Suc (unat c)" and "unat c < 100"
proof -
  show less: "unat c < 100" using assms by (simp add: MSD_MAX_RETRIES_def word_le_nat_alt not_le)
  then show "unat (c + 1) = Suc (unat c)" by (simp add: unat_word_ariths)
qed

lemma retry_attempts:
  assumes "msdState m = MSD_OUTGOING_AWAITING_RESPONSE" and "msd_retry dur m = (m', es)"
  shows "attempts es + attempts_left m' \<le> attempts_left m"
  using assms retry_count_step [of "msdRetryCnt m"]
  by (auto simp: msd_retry_def Let_def attempts_left_def split: if_splits)

lemma step_attempts:
  assumes "i \<noteq> Some Msd_DetermineRequest"
    and "(case i of None \<Rightarrow> msd_HandlerTimeout m | Some j \<Rightarrow> msd_step dur j m) = (m', es)"
  shows "attempts es + attempts_left m' \<le> attempts_left m"
proof (cases i)
  case None
  with assms show ?thesis
    by (cases "msdState m") (auto simp: msd_handlers msd_cases attempts_left_def Let_def)
next
  case (Some j)
  with assms show ?thesis
  proof (cases j)
    case (Msd_MSD d)
    have "attempts_left (DetermineStatus d m) = attempts_left m" by (simp add: attempts_left_def)
    with Msd_MSD Some assms(2) retry_attempts [of "DetermineStatus d m" dur m' es] show ?thesis
      by (cases "msdState m")
         (auto simp: msd_Handler_MSD_def msd_Idle_msd_def msd_Outgoing_msd_def msd_Incoming_error_def
           attempts_left_def Let_def split: if_splits)
  next
    case Msd_Reject
    with Some assms(2) retry_attempts [of m dur m' es] show ?thesis
      by (cases "msdState m")
         (auto simp: msd_Handler_MSDReject_def msd_Outgoing_reject_def msd_Incoming_error_def attempts_left_def Let_def)
  qed (cases "msdState m"; auto simp: msd_handlers msd_cases attempts_left_def Let_def split: if_splits)+
qed

lemma run_attempts:
  assumes "Some Msd_DetermineRequest \<notin> set inputs"
  shows "attempts (snd (msd_run dur inputs m)) \<le> attempts_left m"
  using assms
proof (induction inputs arbitrary: m)
  case Nil
  then show ?case by simp
next
  case (Cons i inputs)
  obtain m1 es where st: "(case i of None \<Rightarrow> msd_HandlerTimeout m | Some j \<Rightarrow> msd_step dur j m) = (m1, es)"
    by fastforce
  have "i \<noteq> Some Msd_DetermineRequest" using Cons.prems by auto
  from step_attempts [OF this st] Cons.IH [of m1] Cons.prems show ?case
    by (simp add: st case_prod_unfold Let_def)
qed

text \<open>C12. One request of the user leads to at most 100 determinations, whatever the peer answers
  and however often the timer expires.\<close>

theorem determinations_bounded:
  assumes "msdState m = MSD_IDLE" and "Some Msd_DetermineRequest \<notin> set inputs"
  shows "attempts (snd (msd_run dur (Some Msd_DetermineRequest # inputs) m)) \<le> 100"
proof -
  have "msd_step dur Msd_DetermineRequest m =
      (m\<lparr>msdRetryCnt := 1, msdState := MSD_OUTGOING_AWAITING_RESPONSE\<rparr>,
       [msd_SetTimer dur, SendMSD (m\<lparr>msdRetryCnt := 1, msdState := MSD_OUTGOING_AWAITING_RESPONSE\<rparr>)])"
    using assms(1) by (simp add: DetermineRequest_def msd_Idle_request_def Let_def)
  with run_attempts [OF assms(2), of dur "m\<lparr>msdRetryCnt := 1, msdState := MSD_OUTGOING_AWAITING_RESPONSE\<rparr>"]
  show ?thesis by (simp add: case_prod_unfold attempts_left_def Let_def)
qed

lemma determinations_bounded_witness:
  "attempts (snd (msd_run 7 [Some Msd_DetermineRequest, Some Msd_Reject, None, Some Msd_Reject] (new_MSD (\<lambda>_. 5)))) \<le> 100"
  by (rule determinations_bounded) (simp_all add: new_MSD_def msd_NewStatusDeterminationNumber_def)

lemma rejects_idle:
  "msdState m = MSD_IDLE \<Longrightarrow> msd_run dur (replicate k (Some Msd_Reject)) m = (m, [])"
  by (induction k) (simp_all add: msd_Handler_MSDReject_def)

lemma rejects_outgoing:
  assumes "msdState m = MSD_OUTGOING_AWAITING_RESPONSE" and "unat (msdRetryCnt m) \<le> 100"
    and "msd_run dur (replicate k (Some Msd_Reject)) m = (m', es)"
  shows "attempts es = min k (100 - unat (msdRetryCnt m))
       \<and> msdState m' = (if unat (msdRetryCnt m) + k \<le> 100 then MSD_OUTGOING_AWAITING_RESPONSE else MSD_IDLE)"
  using assms
proof (induction k arbitrary: m es)
  case 0
  then show ?case by simp
next
  case (Suc k)
  obtain m1 fs where st: "msd_step dur Msd_Reject m = (m1, fs)" by fastforce
  then have retry: "msd_retry dur m = (m1, fs)"
    using Suc.prems(1) by (simp add: msd_Handler_MSDReject_def msd_Outgoing_reject_def)
  obtain gs where run: "msd_run dur (replicate k (Some Msd_Reject)) m1 = (m', gs)" and es: "es = fs @ gs"
    using Suc.prems(3) st by (auto split: prod.splits)
  show ?case
  proof (cases "MSD_MAX_RETRIES \<le> msdRetryCnt m")
    case True
    then have "unat (msdRetryCnt m) = 100"
      using Suc.prems(2) by (simp add: MSD_MAX_RETRIES_def word_le_nat_alt)
    moreover from True retry have "msdState m1 = MSD_IDLE" "attempts fs = 0"
      by (auto simp: msd_retry_def Let_def)
    ultimately show ?thesis using rejects_idle [of m1 dur k] run es by simp
  next
    case False
    with retry have m1: "msdState m1 = MSD_OUTGOING_AWAITING_RESPONSE" "msdRetryCnt m1 = msdRetryCnt m + 1"
      "attempts fs = 1"
      by (auto simp: msd_retry_def Let_def)
    from Suc.IH [OF m1(1) _ run] retry_count_step [OF False] m1(2,3) es show ?thesis by auto
  qed
qed

text \<open>The bound is reached and ends the determination: a peer that rejects every attempt gets
  exactly 100 of them, and with its hundredth reject this side is idle.\<close>

theorem rejected_determination:
  assumes "msdState m = MSD_IDLE"
    and "msd_run dur (Some Msd_DetermineRequest # replicate k (Some Msd_Reject)) m = (m', es)"
  shows "attempts es = min (Suc k) 100
       \<and> msdState m' = (if k < 100 then MSD_OUTGOING_AWAITING_RESPONSE else MSD_IDLE)"
proof -
  let ?m = "m\<lparr>msdRetryCnt := 1, msdState := MSD_OUTGOING_AWAITING_RESPONSE\<rparr>"
  have "msd_step dur Msd_DetermineRequest m = (?m, [msd_SetTimer dur, SendMSD ?m])"
    using assms(1) by (simp add: DetermineRequest_def msd_Idle_request_def Let_def)
  with assms(2) obtain fs where "msd_run dur (replicate k (Some Msd_Reject)) ?m = (m', fs)"
    and "es = [msd_SetTimer dur, SendMSD ?m] @ fs"
    by (auto split: prod.splits)
  with rejects_outgoing [of ?m dur k m' fs] show ?thesis by auto
qed

lemma rejected_determination_witness:
  "attempts (snd (msd_run 7 (Some Msd_DetermineRequest # replicate 100 (Some Msd_Reject)) (new_MSD (\<lambda>_. 5)))) = min (Suc 100) 100
   \<and> msdState (fst (msd_run 7 (Some Msd_DetermineRequest # replicate 100 (Some Msd_Reject)) (new_MSD (\<lambda>_. 5))))
      = (if 100 < (100 :: nat) then MSD_OUTGOING_AWAITING_RESPONSE else MSD_IDLE)"
  by (rule rejected_determination [OF _ prod.collapse [symmetric]])
     (simp add: new_MSD_def msd_NewStatusDeterminationNumber_def)

end
