(* ===== verification/CeProps.thy ===== *)
theory CeProps
  imports Ce MsdProtocol
begin

text \<open>
  Capability exchange (\<^verbatim>\<open>ce.h\<close>) over a network that may lose, repeat and reorder messages: the
  outgoing half of one terminal, the incoming half of the other, and all messages sent so far.
  The list of the sets sent, the set that the user of the other side is looking at and the sets
  that it has accepted are observations of the environment, not state of the code.
\<close>

section \<open>The network\<close>

record ce_net_state =
  sender :: ce
  receiver :: ce
  toReceiver :: "payload set"
  toSender :: "payload set"
  requested :: "terminal_capability_set list"
  shown :: terminal_capability_set
  accepted :: "terminal_capability_set set"

inductive ce_net :: "u32 \<Rightarrow> ce \<Rightarrow> ce \<Rightarrow> ce_net_state \<Rightarrow> bool" for dur :: u32 and a0 b0 :: ce where
  start: "ce_net dur a0 b0 \<lparr> sender = a0, receiver = b0, toReceiver = {}, toSender = {}, requested = [],
            shown = tcs0, accepted = {} \<rparr>"
| request: "ce_net dur a0 b0 c \<Longrightarrow> TransferRequest dur tcs (sender c) = (a', es) \<Longrightarrow>
    ce_net dur a0 b0 (c\<lparr> sender := a', toReceiver := toReceiver c \<union> set (sent es),
      requested := (if OutgoingState (sender c) = CE_IDLE then requested c @ [tcs] else requested c) \<rparr>)"
| timeout: "ce_net dur a0 b0 c \<Longrightarrow> ce_HandlerTimeout (sender c) = (a', es) \<Longrightarrow>
    ce_net dur a0 b0 (c\<lparr> sender := a', toReceiver := toReceiver c \<union> set (sent es) \<rparr>)"
| ack: "ce_net dur a0 b0 c \<Longrightarrow> P_TerminalCapabilitySetAck n \<in> toSender c \<Longrightarrow>
    ce_Handler_TCSAck n (sender c) = (a', es) \<Longrightarrow> ce_net dur a0 b0 (c\<lparr> sender := a' \<rparr>)"
| reject: "ce_net dur a0 b0 c \<Longrightarrow> P_TerminalCapabilitySetReject r \<in> toSender c \<Longrightarrow>
    ce_Handler_TCSReject r (sender c) = (a', es) \<Longrightarrow> ce_net dur a0 b0 (c\<lparr> sender := a' \<rparr>)"
| deliver: "ce_net dur a0 b0 c \<Longrightarrow> P_TerminalCapabilitySet tcs \<in> toReceiver c \<Longrightarrow>
    ce_Handler_TCS tcs (receiver c) = (b', es) \<Longrightarrow>
    ce_net dur a0 b0 (c\<lparr> receiver := b', shown := tcs \<rparr>)"
| release: "ce_net dur a0 b0 c \<Longrightarrow> P_TerminalCapabilitySetRelease \<in> toReceiver c \<Longrightarrow>
    ce_Handler_TCSRelease (receiver c) = (b', es) \<Longrightarrow> ce_net dur a0 b0 (c\<lparr> receiver := b' \<rparr>)"
| respond: "ce_net dur a0 b0 c \<Longrightarrow> TransferResponse (receiver c) = (b', es) \<Longrightarrow>
    ce_net dur a0 b0 (c\<lparr> receiver := b', toSender := toSender c \<union> set (sent es),
      accepted := (if IncomingState (receiver c) = CE_IDLE then accepted c else insert (shown c) (accepted c)) \<rparr>)"
| refuse: "ce_net dur a0 b0 c \<Longrightarrow> RejectRequest cause h (receiver c) = (b', es) \<Longrightarrow>
    ce_net dur a0 b0 (c\<lparr> receiver := b', toSender := toSender c \<union> set (sent es) \<rparr>)"

section \<open>The invariant\<close>

definition numbered :: "u8 \<Rightarrow> terminal_capability_set list \<Rightarrow> nat \<Rightarrow> terminal_capability_set" where
  "numbered n0 ts j = (ts ! j)\<lparr>tcs_sequenceNumber := n0 + of_nat (Suc j)\<rparr>"

definition numbered_sets :: "u8 \<Rightarrow> terminal_capability_set list \<Rightarrow> terminal_capability_set set" where
  "numbered_sets n0 ts = numbered n0 ts ` {..<length ts}"

text \<open>The number of the sender counts its requests, the sets on the way are those requested, with
  their numbers, and an acknowledgement on the way has the number of an accepted set.\<close>

definition ce_net_ok :: "u8 \<Rightarrow> ce_net_state \<Rightarrow> bool" where
  "ce_net_ok n0 c \<longleftrightarrow>
     OutSeqNum (sender c) = n0 + of_nat (length (requested c)) \<and>
     (OutgoingState (sender c) = CE_AWAITING_RESPONSE \<longrightarrow> requested c \<noteq> []) \<and>
     (\<forall>tcs. P_TerminalCapabilitySet tcs \<in> toReceiver c \<longrightarrow> tcs \<in> numbered_sets n0 (requested c)) \<and>
     (IncomingState (receiver c) = CE_AWAITING_RESPONSE \<longrightarrow>
        shown c \<in> numbered_sets n0 (requested c) \<and> InSeqNum (receiver c) = tcs_sequenceNumber (shown c)) \<and>
     accepted c \<subseteq> numbered_sets n0 (requested c) \<and>
     (\<forall>n. P_TerminalCapabilitySetAck n \<in> toSender c \<longrightarrow> (\<exists>tcs \<in> accepted c. tcs_sequenceNumber tcs = n))"

lemma numbered_append: "j < length ts \<Longrightarrow> numbered n0 (ts @ us) j = numbered n0 ts j"
  by (simp add: numbered_def nth_append)

lemma numbered_sets_snoc:
  "numbered_sets n0 (ts @ [t]) =
     insert (t\<lparr>tcs_sequenceNumber := n0 + of_nat (Suc (length ts))\<rparr>) (numbered_sets n0 ts)"
proof -
  have "numbered n0 (ts @ [t]) ` {..<length ts} = numbered n0 ts ` {..<length ts}"
    by (intro image_cong) (simp_all add: numbered_append)
  then show ?thesis by (simp add: numbered_sets_def lessThan_Suc numbered_def)
qed

lemma sent_ce_notify [simp]: "sent (ce_notify c [CETransferConfirm]) = []"
  "sent (ce_notify c [CERejectIndication s u d]) = []" "sent (ce_notify c [CETransferIndication tcs]) = []"
  by (simp_all add: ce_notify_def)

lemma ce_net_ok_request:
  assumes "ce_net_ok n0 c" and "TransferRequest dur tcs (sender c) = (a', es)"
  shows "ce_net_ok n0 (c\<lparr> sender := a', toReceiver := toReceiver c \<union> set (sent es),
      requested := (if OutgoingState (sender c) = CE_IDLE then requested c @ [tcs] else requested c) \<rparr>)"
proof (cases "OutgoingState (sender c)")
  case CE_IDLE
  with assms(2) have "a' = (sender c)\<lparr>OutSeqNum := OutSeqNum (sender c) + 1, OutgoingState := CE_AWAITING_RESPONSE\<rparr>"
    "sent es = [P_TerminalCapabilitySet (tcs\<lparr>tcs_sequenceNumber := OutSeqNum (sender c) + 1\<rparr>)]"
    by (auto simp: ce_request_number ce_SetTimer_def)
  with assms(1) CE_IDLE show ?thesis
    by (auto simp: ce_net_ok_def numbered_sets_snoc add.assoc [symmetric] add.commute [of 1])
next
  case CE_AWAITING_RESPONSE
  with assms show ?thesis by (auto simp: TransferRequest_def)
qed

lemma ce_net_invariant:
  assumes "ce_net dur a0 b0 c"
    and "OutgoingState a0 = CE_IDLE" and "IncomingState b0 = CE_IDLE"
  shows "ce_net_ok (OutSeqNum a0) c"
  using assms(1)
proof induction
  case (start tcs0)
  with assms(2,3) show ?case by (simp add: ce_net_ok_def)
next
  case (request c tcs a' es)
  then show ?case using ce_net_ok_request by blast
next
  case (timeout c a' es)
  then show ?case
    by (cases "OutgoingState (sender c)")
       (auto simp: ce_HandlerTimeout_def SendTerminalCapabilitySetRelease_def ce_net_ok_def)
next
  case (ack c n a' es)
  then show ?case
    by (cases "OutgoingState (sender c)") (auto simp: ce_Handler_TCSAck_def ce_net_ok_def split: if_splits)
next
  case (reject c r a' es)
  then show ?case
    by (cases "OutgoingState (sender c)") (auto simp: ce_Handler_TCSReject_def ce_net_ok_def split: if_splits)
next
  case (deliver c tcs b' es)
  then show ?case
    by (cases "IncomingState (receiver c)") (auto simp: ce_Handler_TCS_def ce_net_ok_def Let_def)
next
  case (release c b' es)
  then show ?case
    by (cases "IncomingState (receiver c)") (auto simp: ce_Handler_TCSRelease_def ce_net_ok_def)
next
  case (respond c b' es)
  then show ?case
    by (cases "IncomingState (receiver c)")
       (auto simp: TransferResponse_def SendTerminalCapabilitySetAck_def ce_net_ok_def)
next
  case (refuse c cause h b' es)
  then show ?case
    by (cases "IncomingState (receiver c)")
       (auto simp: RejectRequest_def SendTerminalCapabilitySetReject_def ce_net_ok_def)
qed

section \<open>Confirmation\<close>

text \<open>Up to 256 requests, no two sets have the same number.\<close>

lemma number_determines:
  assumes "length ts \<le> 256" and "j < length ts" and "k < length ts"
    and "n0 + of_nat (Suc j) = (n0 :: u8) + of_nat (Suc k)"
  shows "j = k"
proof -
  have "(of_nat j :: u8) = of_nat k" using assms(4) by simp
  then have "j mod 256 = k mod 256" by (simp add: word_of_nat_eq_iff take_bit_eq_mod)
  with assms show ?thesis by simp
qed

text \<open>C11. Within 256 transfer requests, an acknowledgement that ends the wait of the sender, however
  late or often it is delivered, means that the user of the other terminal has accepted the very
  set that was sent last.\<close>

theorem confirmed_set_accepted:
  assumes "ce_net dur a0 b0 c" and "OutgoingState a0 = CE_IDLE" and "IncomingState b0 = CE_IDLE"
    and "length (requested c) \<le> 256"
    and "P_TerminalCapabilitySetAck n \<in> toSender c"
    and "OutgoingState (sender c) = CE_AWAITING_RESPONSE"
    and "OutgoingState (fst (ce_Handler_TCSAck n (sender c))) = CE_IDLE"
  shows "(last (requested c))\<lparr>tcs_sequenceNumber := n\<rparr> \<in> accepted c"
proof -
  let ?ts = "requested c" and ?n0 = "OutSeqNum a0"
  note ok = ce_net_invariant [OF assms(1-3), unfolded ce_net_ok_def]
  have n: "n = ?n0 + of_nat (length ?ts)" and nonempty: "?ts \<noteq> []"
    using assms(6,7) ok by (auto simp: ce_Handler_TCSAck_def split: if_splits)
  obtain tcs where tcs: "tcs \<in> accepted c" "tcs_sequenceNumber tcs = n" using ok assms(5) by blast
  with ok obtain j where j: "j < length ?ts" "tcs = numbered ?n0 ?ts j"
    by (auto simp: numbered_sets_def)
  have len: "Suc (length ?ts - 1) = length ?ts" using nonempty by simp
  have "j = length ?ts - 1"
    using tcs(2) j n nonempty len
    by (intro number_determines [OF assms(4), of j "length ?ts - 1" ?n0]) (simp_all only: numbered_def, simp_all)
  then show ?thesis using tcs j(2) nonempty by (simp add: numbered_def last_conv_nth)
qed

lemma confirmed_set_accepted_witness:
  "\<exists>c. ce_net 5 new_CE new_CE c \<and> OutgoingState (sender c) = CE_AWAITING_RESPONSE \<and>
     OutgoingState (fst (ce_Handler_TCSAck 1 (sender c))) = CE_IDLE \<and>
     (last (requested c))\<lparr>tcs_sequenceNumber := 1\<rparr> \<in> accepted c"
proof -
  define tcs where "tcs = \<lparr> tcs_sequenceNumber = 0, tcs_rest = ZeroFilled \<rparr>"
  define a where "a = fst (TransferRequest 5 tcs new_CE)"
  define b where "b = fst (ce_Handler_TCS (tcs\<lparr>tcs_sequenceNumber := 1\<rparr>) new_CE)"
  let ?c0 = "\<lparr> sender = new_CE, receiver = new_CE, toReceiver = {}, toSender = {}, requested = [],
            shown = tcs, accepted = {} \<rparr>"
  note evaluate = a_def b_def new_CE_def ce_handlers ce_sends Let_def
  have "ce_net 5 new_CE new_CE (?c0\<lparr> sender := a,
      toReceiver := {P_TerminalCapabilitySet (tcs\<lparr>tcs_sequenceNumber := 1\<rparr>)}, requested := [tcs] \<rparr>)"
    using ce_net.request [OF ce_net.start [of 5 new_CE new_CE tcs] prod.collapse [symmetric], of tcs]
    by (simp add: evaluate)
  from ce_net.deliver [OF this _ prod.collapse [symmetric], of "tcs\<lparr>tcs_sequenceNumber := 1\<rparr>"]
  have "ce_net 5 new_CE new_CE (?c0\<lparr> sender := a, receiver := b, shown := tcs\<lparr>tcs_sequenceNumber := 1\<rparr>,
      toReceiver := {P_TerminalCapabilitySet (tcs\<lparr>tcs_sequenceNumber := 1\<rparr>)}, requested := [tcs] \<rparr>)"
    by (simp add: evaluate)
  from ce_net.respond [OF this prod.collapse [symmetric]]
  have net: "ce_net 5 new_CE new_CE (?c0\<lparr> sender := a, receiver := b\<lparr>IncomingState := CE_IDLE\<rparr>,
      shown := tcs\<lparr>tcs_sequenceNumber := 1\<rparr>,
      toReceiver := {P_TerminalCapabilitySet (tcs\<lparr>tcs_sequenceNumber := 1\<rparr>)}, requested := [tcs],
      toSender := {P_TerminalCapabilitySetAck 1}, accepted := {tcs\<lparr>tcs_sequenceNumber := 1\<rparr>} \<rparr>)"
    (is "ce_net 5 new_CE new_CE ?c")
    by (simp add: evaluate)
  have wait: "OutgoingState (sender ?c) = CE_AWAITING_RESPONSE"
    "OutgoingState (fst (ce_Handler_TCSAck 1 (sender ?c))) = CE_IDLE"
    by (simp_all add: evaluate)
  from confirmed_set_accepted [OF net _ _ _ _ wait]
  have "(last (requested ?c))\<lparr>tcs_sequenceNumber := 1\<rparr> \<in> accepted ?c" by (simp add: new_CE_def)
  with net wait show ?thesis by blast
qed

end
