(* ===== verification/ChannelSpec.thy ===== *)
theory ChannelSpec
  imports Procedures
begin

text \<open>
  The promise of an outgoing logical channel, independent of its kind: a machine with four states
  that says what is asked of the peer, what the user is told and when the timer runs. The handlers
  of \<^verbatim>\<open>lc.cpp\<close> and \<^verbatim>\<open>blc.cpp\<close> behind the dispatcher implement it, for unidirectional and for
  bidirectional channels alike.
\<close>

section \<open>The specification\<close>

datatype channel = Closed | Opening | Opened | Closing

datatype channel_event = Open_wanted | Close_wanted | Acknowledged | Rejected | Close_acknowledged | Expired

datatype channel_output =
    Asks_open | Asks_close | Confirms_open | Starts_timer | Stops_timer
  | Tells_open | Tells_closed | Tells_released | Tells_error

fun channel_step :: "channel_event \<Rightarrow> channel \<Rightarrow> channel \<times> channel_output list" where
  "channel_step Open_wanted Closed = (Opening, [Asks_open, Starts_timer])"
| "channel_step Open_wanted Closing = (Opening, [Stops_timer, Asks_open, Starts_timer])"
| "channel_step Close_wanted Opening = (Closing, [Stops_timer, Asks_close, Starts_timer])"
| "channel_step Close_wanted Opened = (Closing, [Asks_close, Starts_timer])"
| "channel_step Acknowledged Closed = (Closed, [Tells_error])"
| "channel_step Acknowledged Opening = (Opened, [Stops_timer, Tells_open])"
| "channel_step Rejected Closed = (Closed, [Tells_error])"
| "channel_step Rejected Opening = (Closed, [Stops_timer, Tells_released])"
| "channel_step Rejected Opened = (Closed, [Tells_error, Tells_released])"
| "channel_step Rejected Closing = (Closed, [Stops_timer, Tells_closed])"
| "channel_step Close_acknowledged Opened = (Closed, [Tells_error, Tells_released])"
| "channel_step Close_acknowledged Closing = (Closed, [Stops_timer, Tells_closed])"
| "channel_step Expired Opening = (Closed, [Tells_error, Asks_close, Tells_released])"
| "channel_step Expired Closing = (Closed, [Tells_error, Tells_closed])"
| "channel_step _ c = (c, [])"

fun channel_run :: "channel_event list \<Rightarrow> channel \<Rightarrow> channel \<times> channel_output list" where
  "channel_run [] c = (c, [])"
| "channel_run (v # vs) c =
     (let (c1, os) = channel_step v c; (c2, os') = channel_run vs c1 in (c2, os @ os'))"

section \<open>What is seen of the code\<close>

definition channel_of :: "lc_entry \<Rightarrow> channel" where
  "channel_of e =
     (case Status e of
        LCBLC_OUTGOING_AWTING_ETBMNT \<Rightarrow> Opening
      | LCBLC_OUTGOING_ETBED \<Rightarrow> Opened
      | LCBLC_OUTGOING_AWTING_RLS \<Rightarrow> Closing
      | _ \<Rightarrow> Closed)"

text \<open>The confirmation of a bidirectional channel to the peer and the internal error reports are
  not part of the specification.\<close>

fun output_of :: "effect \<Rightarrow> channel_output list" where
  "output_of (RequestTimer i n c obs) = [Starts_timer]"
| "output_of (CancelTimer i) = [Stops_timer]"
| "output_of (MessageSend msg) =
     (if Type1 msg = H245_MSG_REQ \<and> Type2 msg = MSGTYP_LCBLC_OP then [Asks_open]
      else if Type1 msg = H245_MSG_REQ \<and> Type2 msg = MSGTYP_LCBLC_CL then [Asks_close] else [])"
| "output_of (PrimitiveSend h) =
     (if InfType h \<noteq> H245_PRIMITIVE then []
      else if InfId h \<in> {E_PtvId_Lc_Etb_Cfm, E_PtvId_Blc_Etb_Cfm} then [Tells_open]
      else if InfId h \<in> {E_PtvId_Lc_Rls_Cfm, E_PtvId_Blc_Rls_Cfm} then [Tells_closed]
      else if InfId h \<in> {E_PtvId_Lc_Rls_Idc, E_PtvId_Blc_Rls_Idc} then [Tells_released]
      else if InfId h \<in> {E_PtvId_Lc_Err_Idc, E_PtvId_Blc_Err_Idc} then [Tells_error] else [])"
| "output_of _ = []"

definition outputs_of :: "effect list \<Rightarrow> channel_output list" where
  "outputs_of es = concat (map output_of es)"

fun event_of :: "(lcblcse_event \<times> payload option) option \<Rightarrow> channel_event option" where
  "event_of None = Some Expired"
| "event_of (Some (EVENT_PTV_LCBLC_ETB_REQ, p)) = Some Open_wanted"
| "event_of (Some (EVENT_PTV_LCBLC_RLS_REQ, p)) = Some Close_wanted"
| "event_of (Some (EVENT_MSG_LCBLC_OP_ACK, p)) = Some Acknowledged"
| "event_of (Some (EVENT_MSG_LCBLC_OP_RJT, p)) = Some Rejected"
| "event_of (Some (EVENT_MSG_LCBLC_CL_ACK, p)) = Some Close_acknowledged"
| "event_of _ = None"

text \<open>An input carries the block that its event needs. The dispatcher has read the channel number
  from the blocks of messages before it comes to the entry.\<close>

fun well_formed :: "(lcblcse_event \<times> payload option) option \<Rightarrow> bool" where
  "well_formed (Some (EVENT_PTV_LCBLC_ETB_REQ, p)) = returns (deref to_ForwardReverseParam p)"
| "well_formed (Some (EVENT_MSG_LCBLC_OP_ACK, p)) = returns (deref to_OpenLogicalChannelAck p)"
| "well_formed (Some (EVENT_MSG_LCBLC_OP_RJT, p)) = returns (deref to_OpenLogicalChannelReject p)"
| "well_formed _ = True"

text \<open>A run of the handlers on one outgoing entry; \<open>None\<close> is the expiry of its current timer.\<close>

definition out_input ::
  "u32 \<Rightarrow> (lcblcse_event \<times> payload option) option \<Rightarrow> lc_entry \<Rightarrow> lc_entry \<times> effect list" where
  "out_input dur i e = (case i of None \<Rightarrow> out_timeout (TmrSqcNumber e) e | Some j \<Rightarrow> out_step dur j e)"

fun out_run ::
  "u32 \<Rightarrow> (lcblcse_event \<times> payload option) option list \<Rightarrow> lc_entry \<Rightarrow> lc_entry \<times> effect list" where
  "out_run dur [] e = (e, [])"
| "out_run dur (i # inputs) e =
     (let (e1, es) = out_input dur i e; (e2, fs) = out_run dur inputs e1 in (e2, es @ fs))"

section \<open>Refinement\<close>

lemma outputs_simps [simp]:
  "outputs_of [] = []"
  "outputs_of (T103TimerStart dur l n # es) = Starts_timer # outputs_of es"
  "outputs_of (T103TimerStop l # es) = Stops_timer # outputs_of es"
  "outputs_of (MsgOpenSend lc frp # es) = Asks_open # outputs_of es"
  "outputs_of (MsgCloseSend lc src # es) = Asks_close # outputs_of es"
  "outputs_of (MsgOpenCfmSend lc # es) = outputs_of es"
  "outputs_of (PtvEtbCfmSend f a r # es) = Tells_open # outputs_of es"
  "outputs_of (PtvRlsCfmSend f r # es) = Tells_closed # outputs_of es"
  "outputs_of (PtvRlsIdcSend f s c d r # es) = Tells_released # outputs_of es"
  "outputs_of (PtvErrIdcSend f ec r # es) = Tells_error # outputs_of es"
  "outputs_of (ItnErrNotificationSend x y # es) = outputs_of es"
  by (simp_all add: outputs_of_def T103TimerStart_def T103TimerStop_def lcblc_sends send_msg_def
      primitive_def ItnErrNotificationSend_def Let_def)

lemma outputs_append [simp]: "outputs_of (es @ fs) = outputs_of es @ outputs_of fs"
  by (simp add: outputs_of_def)

lemma out_input_refines:
  assumes "entry_ok LC_OUTGOING e" and "well_formed i"
  shows "(channel_of (fst (out_input dur i e)), outputs_of (snd (out_input dur i e))) =
     (case event_of i of None \<Rightarrow> (channel_of e, []) | Some v \<Rightarrow> channel_step v (channel_of e))"
proof (cases i)
  case None
  then show ?thesis
    by (cases rule: outgoing_cases [OF assms(1)]) (simp_all add: out_input_def out_timeout_defs channel_of_def)
next
  case (Some j)
  obtain ev p where j: "j = (ev, p)" by (cases j)
  show ?thesis
    using assms(2) unfolding Some j
    by (cases ev; cases "deref to_ForwardReverseParam p"; cases "deref to_OpenLogicalChannelAck p";
        cases "deref to_OpenLogicalChannelReject p"; cases rule: outgoing_cases [OF assms(1)])
       (simp_all add: out_input_def entry_events itn_err_def Nop_XXXX_XXXX_def with_param_def lc_handlers
          blc_handlers channel_of_def Let_def)
qed

lemma out_input_ok: "entry_ok LC_OUTGOING e \<Longrightarrow> entry_ok LC_OUTGOING (fst (out_input dur i e))"
  using out_step_keeps by (auto simp: out_input_def split: option.split)

text \<open>C9. The handlers of unidirectional and of bidirectional channels implement one specification: along every
  run of requests, answers (with the parameter blocks that they read) and timer expiries an outgoing entry goes
  through the states of the specification, and asks the peer, tells the user, starts and stops its timer exactly as
  the specification says.\<close>

theorem outgoing_channel_refines:
  assumes "entry_ok LC_OUTGOING e" and "\<forall>i \<in> set inputs. well_formed i"
    and "out_run dur inputs e = (e', es)"
  shows "channel_run (concat (map (\<lambda>i. case event_of i of None \<Rightarrow> [] | Some v \<Rightarrow> [v]) inputs)) (channel_of e)
    = (channel_of e', outputs_of es)"
  using assms
proof (induction inputs arbitrary: e es)
  case Nil
  then show ?case by simp
next
  case (Cons i inputs)
  obtain e1 fs gs where st: "out_input dur i e = (e1, fs)" and run: "out_run dur inputs e1 = (e', gs)"
    and es: "es = fs @ gs"
    using Cons.prems(3) by (auto split: prod.splits)
  have "entry_ok LC_OUTGOING e1" using out_input_ok [OF Cons.prems(1), of dur i] st by simp
  from Cons.IH [OF this _ run] Cons.prems(2) out_input_refines [OF Cons.prems(1), of i dur] st es
  show ?case by (cases "event_of i") (auto split: prod.splits)
qed

lemma outgoing_channel_refines_witness:
  defines "inputs \<equiv> [Some (EVENT_PTV_LCBLC_ETB_REQ, Some (P_ForwardReverseParam
      \<lparr> frp_forward = ZeroFilled, frp_option_of_reverse = 0, frp_reverse = ZeroFilled \<rparr>)), None,
      Some (EVENT_MSG_LCBLC_CL_ACK, None)]"
  shows "channel_run [Open_wanted, Expired, Close_acknowledged] Closed
    = (channel_of (fst (out_run 5 inputs (new_LCEntry 7 LC_OUTGOING))),
       outputs_of (snd (out_run 5 inputs (new_LCEntry 7 LC_OUTGOING))))"
proof -
  have "channel_of (new_LCEntry 7 LC_OUTGOING) = Closed" by (simp add: channel_of_def new_LCEntry_def)
  moreover have "\<forall>i \<in> set inputs. well_formed i" by (simp add: inputs_def)
  ultimately show ?thesis
    using outgoing_channel_refines [where dur = 5 and inputs = inputs, OF new_LCEntry_ok _ prod.collapse [symmetric], of 7]
    by (simp add: inputs_def)
qed

end
