(* ===== verification/ChannelProps.thy ===== *)
theory ChannelProps
  imports ChannelSpec SeInvariant
begin

text \<open>
  The logical channels of the whole entity: the timers find their channels, an event of one
  channel leaves the others alone, and two cases in which the code loses a channel.
\<close>

section \<open>Timers of channels\<close>

lemma channel_event_T103: "EventNoDecision EventNoTblForTo E_TmrId_LcBlc_T103 = Some (EVENT_LCBLCSE EVENT_TIM_LCBLC_T103)"
  and channel_event_T108: "EventNoDecision EventNoTblForTo E_TmrId_Clc_T108 = Some (EVENT_CLCSE EVENT_TIM_CLC_T108)"
  by (simp_all add: EventNoTblForTo_def)

lemma timer_ids_found:
  "SE_TimeoutOccurred (T103TimerIdGet lcn) n s = with_entry LC_OUTGOING lcn (entry_T103 n) s"
  "SE_TimeoutOccurred (T108TimerIdGet e) n s =
     with_entry LC_INCOMING (FwdLcn e) (when_cls CLS_OUTGOING_AWTING_RPS (\<lambda>e. Inr (clc_0406_0010 n e))) s"
proof -
  have low: "with_entry d (l AND 0xFFFF) f s = with_entry d l f s" for d l f
    by (simp add: with_entry_def GetLCEntry_def Let_def and.assoc)
  show "SE_TimeoutOccurred (T103TimerIdGet lcn) n s = with_entry LC_OUTGOING lcn (entry_T103 n) s"
    by (simp add: SE_TimeoutOccurred_def InformationRecv_def TablePointerGetUpperLayer_def T103_low T103_high
        channel_event_T103 Dispatch_LCBLCSE_def low)
  show "SE_TimeoutOccurred (T108TimerIdGet e) n s =
     with_entry LC_INCOMING (FwdLcn e) (when_cls CLS_OUTGOING_AWTING_RPS (\<lambda>e. Inr (clc_0406_0010 n e))) s"
    by (simp add: SE_TimeoutOccurred_def InformationRecv_def TablePointerGetUpperLayer_def T108_low T108_high
        channel_event_T108 Dispatch_CLCSE_def low)
qed

text \<open>A timer id carries its channel: when the timer that was started for an entry expires, the
  dispatcher hands its number to the outgoing entry with that channel number (T103), or to the
  incoming entry with that number (T108), whatever the number is.\<close>

theorem timer_id_roundtrip:
  "SE_TimeoutOccurred (T103TimerIdGet lcn) n s = with_entry LC_OUTGOING lcn (entry_T103 n) s
   \<and> SE_TimeoutOccurred (T108TimerIdGet e) n s =
       with_entry LC_INCOMING (FwdLcn e) (when_cls CLS_OUTGOING_AWTING_RPS (\<lambda>e. Inr (clc_0406_0010 n e))) s"
  by (simp add: timer_ids_found)

section \<open>One channel at a time\<close>

text \<open>The entry that a channel number finds in a list.\<close>

definition find_channel :: "lc_direction \<Rightarrow> u32 \<Rightarrow> se \<Rightarrow> lc_entry option" where
  "find_channel d lcn s = map_option (\<lambda>i. entry_at i (channels d s)) (GetLCEntry lcn (channels d s))"

text \<open>The list and the number that an event addresses.\<close>

definition addressed_channel ::
  "lcblcse_event \<Rightarrow> payload option \<Rightarrow> u32 \<Rightarrow> u32 \<Rightarrow> (lc_direction \<times> u32) res" where
  "addressed_channel ev p n m =
     (case ev of
        EVENT_PTV_LCBLC_ETB_REQ \<Rightarrow> Inr (LC_OUTGOING, n)
      | EVENT_PTV_LCBLC_ETB_RPS \<Rightarrow> Inr (LC_INCOMING, n)
      | EVENT_PTV_LCBLC_RLS_REQ \<Rightarrow> Inr (if p \<noteq> None then LC_INCOMING else LC_OUTGOING, n)
      | EVENT_TIM_LCBLC_T103 \<Rightarrow> Inr (LC_OUTGOING, m)
      | EVENT_MSG_LCBLC_OP \<Rightarrow> bind_res (deref to_OpenLogicalChannel p)
          (\<lambda>x. Inr (LC_INCOMING, ucast (olc_forwardLogicalChannelNumber x)))
      | EVENT_MSG_LCBLC_OP_ACK \<Rightarrow> bind_res (deref to_OpenLogicalChannelAck p)
          (\<lambda>x. Inr (LC_OUTGOING, ucast (ola_forwardLogicalChannelNumber x)))
      | EVENT_MSG_LCBLC_OP_CFM \<Rightarrow> bind_res (deref to_OpenLogicalChannelConfirm p)
          (\<lambda>l. Inr (LC_INCOMING, ucast l))
      | EVENT_MSG_LCBLC_OP_RJT \<Rightarrow> bind_res (deref to_OpenLogicalChannelReject p)
          (\<lambda>x. Inr (LC_OUTGOING, ucast (olr_forwardLogicalChannelNumber x)))
      | EVENT_MSG_LCBLC_CL \<Rightarrow> bind_res (deref to_CloseLogicalChannel p)
          (\<lambda>x. Inr (LC_INCOMING, ucast (cl_forwardLogicalChannelNumber x)))
      | EVENT_MSG_LCBLC_CL_ACK \<Rightarrow> bind_res (deref to_CloseLogicalChannelAck p)
          (\<lambda>l. Inr (LC_OUTGOING, ucast l)))"

lemma find_channel_performs [simp]: "find_channel d m (performs es s) = find_channel d m s"
  by (simp add: find_channel_def)

lemma find_channel_other_list:
  "d' \<noteq> d \<Longrightarrow> find_channel d' m (set_channels d l s) = find_channel d' m s"
  by (simp add: find_channel_def)

lemma find_channel_write:
  assumes "GetLCEntry lcn (channels d s) = Some i" and "FwdLcn e = FwdLcn (entry_at i (channels d s))"
    and "m AND 0xFFFF \<noteq> lcn AND 0xFFFF"
  shows "find_channel d m (set_channels d (write_entry i e (channels d s)) s) = find_channel d m s"
proof -
  have "GetLCEntry m (write_entry i e (channels d s)) = GetLCEntry m (channels d s)"
    using lcdir.lookup_put [OF lcdir.lookup_bound [OF assms(1)] assms(2)] .
  moreover have "entry_at j (write_entry i e (channels d s)) = entry_at j (channels d s)"
    if "GetLCEntry m (channels d s) = Some j" for j
    using lcdir.put_frame [OF assms(1) that] assms(3) by auto
  ultimately show ?thesis by (cases "GetLCEntry m (channels d s)") (simp_all add: find_channel_def)
qed

lemma on_entry_isolated:
  assumes "GetLCEntry lcn (channels d s) = Some i"
    and "keeps_entry d (entry_at i (channels d s)) (f (entry_at i (channels d s)))"
    and "on_entry d i f s = Inr s'" and "d' \<noteq> d \<or> m AND 0xFFFF \<noteq> lcn AND 0xFFFF"
  shows "find_channel d' m s' = find_channel d' m s"
proof -
  from assms(3) obtain e es where f: "f (entry_at i (channels d s)) = Inr (e, es)"
    and s': "s' = performs es (set_channels d (write_entry i e (channels d s)) s)"
    by (auto simp: on_entry_def bind_res_Inr_iff)
  from assms(2) f have "FwdLcn e = FwdLcn (entry_at i (channels d s))" by simp
  with find_channel_write [OF assms(1) this] assms(4) find_channel_other_list show ?thesis
    unfolding s' find_channel_performs by (cases "d' = d") auto
qed

lemma with_entry_isolated:
  assumes "se_ok s" and "\<And>e. entry_ok d e \<Longrightarrow> keeps_entry d e (f e)"
    and "with_entry d lcn f s = Inr s'" and "d' \<noteq> d \<or> m AND 0xFFFF \<noteq> lcn AND 0xFFFF"
  shows "find_channel d' m s' = find_channel d' m s"
proof (cases "GetLCEntry lcn (channels d s)")
  case None
  with assms(3) show ?thesis by (auto simp: with_entry_def simp del: performs_simps)
next
  case (Some i)
  have "entry_ok d (entry_at i (channels d s))"
    using assms(1) list_ok_entry lcdir.lookup_bound [OF Some] by (fastforce simp: se_ok_def channels_ok_def)
  from on_entry_isolated [where f = f, OF Some assms(2) [OF this] _ assms(4)] assms(3) Some
  show ?thesis by (simp add: with_entry_def)
qed

lemma find_channel_create:
  assumes "m AND 0xFFFF \<noteq> lcn AND 0xFFFF"
  shows "find_channel d m (set_channels d (snd (NewLCEntry lcn (channels d s))) s) = find_channel d m s"
proof -
  have "m AND 0xFFFF \<noteq> lcn"
  proof
    assume "m AND 0xFFFF = lcn"
    then have "lcn AND 0xFFFF = m AND 0xFFFF" by (simp add: and.assoc flip: \<open>m AND 0xFFFF = lcn\<close>)
    with assms show False by simp
  qed
  from lcdir.lookup_create_other [OF this]
  have "GetLCEntry m (snd (NewLCEntry lcn (channels d s))) = GetLCEntry m (channels d s)" .
  then show ?thesis
    using lcdir.create_at [of _ "channels d s" lcn] lcdir.lookup_bound [of m "channels d s"]
    by (cases "GetLCEntry m (channels d s)") (simp_all add: find_channel_def)
qed

lemma with_new_entry_isolated:
  assumes "se_ok s" and "\<And>e. entry_ok d e \<Longrightarrow> keeps_entry d e (f e)"
    and "with_new_entry d lcn f s = Inr s'" and "d' \<noteq> d \<or> m AND 0xFFFF \<noteq> lcn AND 0xFFFF"
  shows "find_channel d' m s' = find_channel d' m s"
proof (cases "GetLCEntry lcn (channels d s)")
  case None
  let ?l = "snd (NewLCEntry lcn (channels d s))" and ?i = "length (EntryList (channels d s))"
  let ?s = "set_channels d ?l s"
  have entry: "entry_at ?i ?l = new_LCEntry lcn d"
    using assms(1) by (simp add: NewLCEntry_def entry_at_def se_ok_def channels_ok_def)
  from assms(3) None have "on_entry d ?i f ?s = Inr s'"
    by (simp add: with_new_entry_def NewLCEntry_def)
  then obtain e es where f: "f (new_LCEntry lcn d) = Inr (e, es)"
    and s': "s' = performs es (set_channels d (write_entry ?i e ?l) ?s)"
    using entry by (auto simp: on_entry_def bind_res_Inr_iff)
  have number: "FwdLcn e = FwdLcn (entry_at ?i ?l)"
    using assms(2) [OF new_LCEntry_ok, of lcn] f entry by simp
  have same: "find_channel d' m ?s = find_channel d' m s"
    using assms(4) find_channel_create [of m lcn d s] find_channel_other_list [of d' d m ?l s]
    by (cases "d' = d") simp_all
  have "find_channel d' m (set_channels d (write_entry ?i e ?l) ?s) = find_channel d' m ?s"
  proof (cases "d' = d")
    case False
    then show ?thesis by (simp add: find_channel_other_list)
  next
    case True
    with assms(4) have m: "m AND 0xFFFF \<noteq> lcn AND 0xFFFF" by simp
    have i: "?i < length (EntryList ?l)" by (simp add: NewLCEntry_def)
    have get: "GetLCEntry m (write_entry ?i e ?l) = GetLCEntry m ?l"
      by (rule lcdir.lookup_put [OF i number])
    have "j \<noteq> ?i" if "GetLCEntry m ?l = Some j" for j
    proof
      assume "j = ?i"
      with that have "FwdLcn (entry_at ?i ?l) = m AND 0xFFFF" by (simp add: lcdir.lookup_iff)
      with entry have "lcn = m AND 0xFFFF" by (simp add: new_LCEntry_def)
      with m show False by (simp add: and.assoc)
    qed
    then have "entry_at j (write_entry ?i e ?l) = entry_at j ?l" if "GetLCEntry m ?l = Some j" for j
      using lcdir.put_at [OF lcdir.lookup_bound [OF that], of ?i e] that by auto
    with True get show ?thesis by (cases "GetLCEntry m ?l") (simp_all add: find_channel_def)
  qed
  with same show ?thesis by (simp add: s')
next
  case (Some i)
  with with_entry_isolated [where f = f and lcn = lcn, OF assms(1,2) _ assms(4)] assms(3) show ?thesis
    by (simp add: with_new_entry_def with_entry_def)
qed

text \<open>C10. In every reachable state, an event of the logical channel procedures changes nothing but
  the channel it addresses: the entry that any other number finds, and every entry of the other
  list, stays as it is.\<close>

theorem channels_isolated:
  assumes "se_reachable s" and "Dispatch (EVENT_LCBLCSE ev) p sup1 sup2 enc s = Inr s'"
    and "addressed_channel ev p sup1 sup2 = Inr (d, lcn)"
    and "d' \<noteq> d \<or> m AND 0xFFFF \<noteq> lcn AND 0xFFFF"
  shows "find_channel d' m s' = find_channel d' m s"
proof -
  note ok = reachable_ok [OF assms(1)]
  show ?thesis
    using assms(2-4)
    by (cases ev; cases p)
       (auto simp: addressed_channel_def Dispatch_LCBLCSE_def bind_res_Inr_iff Let_def
         intro: with_entry_isolated [OF ok] with_new_entry_isolated [OF ok] intro!: keeps_LCBLC
         split: if_splits)
qed

lemma channels_isolated_witness:
  defines "s \<equiv> SetH245 True (SetPer True (new_SE (\<lambda>_. 5) 1000))"
    and "p \<equiv> Some (P_ForwardReverseParam
      \<lparr> frp_forward = ZeroFilled, frp_option_of_reverse = 0, frp_reverse = ZeroFilled \<rparr>)"
  shows "\<exists>s'. Dispatch (EVENT_LCBLCSE EVENT_PTV_LCBLC_ETB_REQ) p 7 0 None s = Inr s'
       \<and> find_channel LC_OUTGOING 8 s' = find_channel LC_OUTGOING 8 s"
proof -
  obtain s' where s': "Dispatch (EVENT_LCBLCSE EVENT_PTV_LCBLC_ETB_REQ) p 7 0 None s = Inr s'"
    by (simp add: s_def p_def SetH245_def SetPer_def new_SE_def Dispatch_LCBLCSE_def with_new_entry_def
        on_entry_def GetLCEntry_def NewLCEntry_def channels_def set_channels_def entry_at_def new_LCEntry_def
        entry_ETB_REQ_def with_param_def lc_0200_0000_def Let_def)
  have "se_reachable s" unfolding s_def by (rule se_start)
  from channels_isolated [OF this s', of LC_OUTGOING 7 LC_OUTGOING 8] s' show ?thesis
    by (simp add: addressed_channel_def)
qed

section \<open>Lost channels\<close>

lemma find_channel_low: "m AND 0xFFFF = n AND 0xFFFF \<Longrightarrow> find_channel d m s = find_channel d n s"
  by (simp add: find_channel_def GetLCEntry_def)

text \<open>C15. A request to open a channel whose number does not fit 16 bits, in a reachable state in
  which the low 16 bits of the number have no entry among the outgoing channels, makes a new entry
  that no number finds: every look up gives what it gave before. The look up masks the number, the creation does not.\<close>

theorem wide_channel_number_lost:
  assumes "se_reachable s" and "0x10000 \<le> lcn" and "find_channel LC_OUTGOING lcn s = None"
    and "Dispatch (EVENT_LCBLCSE EVENT_PTV_LCBLC_ETB_REQ) p lcn sup2 enc s = Inr s'"
  shows "length (EntryList (LCBLCOutgoing s')) = Suc (length (EntryList (LCBLCOutgoing s)))
       \<and> (\<forall>m. find_channel LC_OUTGOING m s' = find_channel LC_OUTGOING m s)"
proof -
  let ?c = "channels LC_OUTGOING s"
  let ?l = "snd (NewLCEntry lcn ?c)" and ?i = "length (EntryList ?c)"
  let ?f = "entry_ETB_REQ (dT103 (Durations s)) p"
  have none: "GetLCEntry lcn ?c = None" using assms(3) by (simp add: find_channel_def)
  have entry: "entry_at ?i ?l = new_LCEntry lcn LC_OUTGOING"
    using reachable_ok [OF assms(1)] by (simp add: NewLCEntry_def entry_at_def se_ok_def channels_ok_def)
  from assms(4) none have "on_entry LC_OUTGOING ?i ?f (set_channels LC_OUTGOING ?l s) = Inr s'"
    by (simp add: Dispatch_LCBLCSE_def with_new_entry_def NewLCEntry_def Let_def)
  then obtain e es where f: "?f (new_LCEntry lcn LC_OUTGOING) = Inr (e, es)"
    and s': "s' = performs es (set_channels LC_OUTGOING (write_entry ?i e ?l) (set_channels LC_OUTGOING ?l s))"
    using entry by (auto simp: on_entry_def bind_res_Inr_iff)
  have "FwdLcn e = FwdLcn (entry_at ?i ?l)"
    using keeps_ETB_REQ [OF new_LCEntry_ok, of lcn "dT103 (Durations s)" p] f entry by simp
  then have "GetLCEntry lcn (write_entry ?i e ?l) = GetLCEntry lcn ?l"
    by (intro lcdir.lookup_put) (simp_all add: NewLCEntry_def)
  also have "\<dots> = None" by (rule lcdir.lookup_create_wide [OF none assms(2)])
  finally have lost: "find_channel LC_OUTGOING lcn s' = None" by (simp add: s' find_channel_def)
  have "find_channel LC_OUTGOING m s' = find_channel LC_OUTGOING m s" for m
  proof (cases "m AND 0xFFFF = lcn AND 0xFFFF")
    case True
    then show ?thesis using lost assms(3) by (simp add: find_channel_low [OF True])
  next
    case False
    have "with_new_entry LC_OUTGOING lcn ?f s = Inr s'" using assms(4) by (simp add: Dispatch_LCBLCSE_def)
    moreover have "keeps_entry LC_OUTGOING e (?f e)" if "entry_ok LC_OUTGOING e" for e
      using keeps_ETB_REQ [OF that] .
    ultimately show ?thesis
      using with_new_entry_isolated [where f = ?f, OF reachable_ok [OF assms(1)]] False by blast
  qed
  moreover have "length (EntryList (channels LC_OUTGOING s')) = Suc ?i"
    by (simp add: s' write_entry_def NewLCEntry_def)
  ultimately show ?thesis by (simp add: channels_def)
qed

lemma wide_channel_number_lost_witness:
  defines "s \<equiv> SetH245 True (SetPer True (new_SE (\<lambda>_. 5) 1000))"
    and "p \<equiv> Some (P_ForwardReverseParam
      \<lparr> frp_forward = ZeroFilled, frp_option_of_reverse = 0, frp_reverse = ZeroFilled \<rparr>)"
  shows "\<exists>s'. Dispatch (EVENT_LCBLCSE EVENT_PTV_LCBLC_ETB_REQ) p 0x10007 0 None s = Inr s'
       \<and> length (EntryList (LCBLCOutgoing s')) = 1 \<and> (\<forall>m. find_channel LC_OUTGOING m s' = None)"
proof -
  note evaluate = s_def p_def SetH245_def SetPer_def new_SE_def Dispatch_LCBLCSE_def with_new_entry_def
    on_entry_def GetLCEntry_def NewLCEntry_def channels_def set_channels_def entry_at_def new_LCEntry_def
    entry_ETB_REQ_def with_param_def lc_0200_0000_def Let_def
  have "\<exists>s'. Dispatch (EVENT_LCBLCSE EVENT_PTV_LCBLC_ETB_REQ) p 0x10007 0 None s = Inr s'"
    by (simp add: evaluate)
  then obtain s' where s': "Dispatch (EVENT_LCBLCSE EVENT_PTV_LCBLC_ETB_REQ) p 0x10007 0 None s = Inr s'" by blast
  have "se_reachable s" unfolding s_def by (rule se_start)
  moreover have empty: "find_channel LC_OUTGOING m s = None" and "EntryList (LCBLCOutgoing s) = []" for m
    by (simp_all add: find_channel_def evaluate)
  ultimately show ?thesis
    using wide_channel_number_lost [OF _ _ empty s'] s' by (auto simp: empty)
qed

section \<open>A wait that no timer ends\<close>

text \<open>The numbers and the states of the incoming channels.\<close>

definition incoming_states :: "se \<Rightarrow> (u32 \<times> lcblc_status) list" where
  "incoming_states s = map (\<lambda>e. (FwdLcn e, Status e)) (EntryList (LCBLCIncoming s))"

lemma T103_leaves_incoming:
  assumes "with_entry LC_OUTGOING lcn f s = Inr s'"
  shows "incoming_states s' = incoming_states s"
proof -
  have "channels LC_INCOMING s' = channels LC_INCOMING s"
    using assms by (auto simp: with_entry_def on_entry_def bind_res_Inr_iff simp del: performs_simps split: option.splits)
  then show ?thesis by (simp add: incoming_states_def channels_def)
qed

lemma T108_keeps_states:
  assumes "with_entry LC_INCOMING lcn (when_cls c (\<lambda>e. Inr (clc_0406_0010 n e))) s = Inr s'"
  shows "incoming_states s' = incoming_states s"
proof -
  let ?f = "when_cls c (\<lambda>e. Inr (clc_0406_0010 n e))"
  have keeps: "FwdLcn e' = FwdLcn e \<and> Status e' = Status e" if "?f e = Inr (e', es)" for e e' es
    using that by (auto simp: when_cls_def clc_0406_0010_def ClcStatusWrite_def Let_def split: if_splits)
  show ?thesis
  proof (cases "GetLCEntry lcn (channels LC_INCOMING s)")
    case (Some i)
    then have i: "i < length (EntryList (channels LC_INCOMING s))" by (rule lcdir.lookup_bound)
    from assms Some obtain e es where f: "?f (entry_at i (channels LC_INCOMING s)) = Inr (e, es)"
      and s': "s' = performs es (set_channels LC_INCOMING (write_entry i e (channels LC_INCOMING s)) s)"
      by (auto simp: with_entry_def on_entry_def bind_res_Inr_iff)
    from keeps [OF f] i show ?thesis
      by (auto simp: s' incoming_states_def write_entry_def channels_def set_channels_def entry_at_def map_update
          intro!: nth_equalityI simp: nth_list_update)
  qed (use assms in \<open>auto simp: with_entry_def incoming_states_def simp del: performs_simps\<close>)
qed

lemma callback_keeps_states:
  assumes "timer_callback obs i p s = Inr s'"
  shows "incoming_states s' = incoming_states s"
proof (cases obs)
  case ObsSE
  show ?thesis
  proof (cases "EventNoDecision EventNoTblForTo (i AND 0xFFFF)")
    case None
    with assms ObsSE show ?thesis
      by (auto simp: SE_TimeoutOccurred_def InformationRecv_def TablePointerGetUpperLayer_def incoming_states_def
          simp del: performs_simps)
  next
    case (Some ev)
    with assms ObsSE have step: "Dispatch ev None p (signed_drop_bit 16 i AND 0xFFFF) None s = Inr s'"
      by (simp add: SE_TimeoutOccurred_def InformationRecv_def TablePointerGetUpperLayer_def)
    from EventNoDecision_Some [OF Some] step show ?thesis
      unfolding EventNoTblForTo_def
      by (auto simp: run_res_def bind_res_Inr_iff Dispatch_LCBLCSE_def Dispatch_CLCSE_def
          put_defs incoming_states_def [of "performs _ _"] simp flip: incoming_states_def
          dest: T103_leaves_incoming T108_keeps_states)
  qed
qed (use assms in \<open>auto simp: put_defs incoming_states_def run_res_def bind_res_Inr_iff\<close>)

lemma upper_steps_keep_states: "incoming_states (fold upper_step cs s) = incoming_states s"
proof (induction cs arbitrary: s)
  case (Cons c cs)
  then show ?case by (cases c) (simp_all add: put_defs incoming_states_def)
qed simp

lemma tick_keeps_states:
  assumes "SE_tick ans s = Inr s'"
  shows "incoming_states s' = incoming_states s"
proof (rule TimerBaseElapsed_keeps [where I = "\<lambda>s1. incoming_states s1 = incoming_states s"])
  show "TimerBaseElapsed MyTimer upd_MyTimer (answered ans) s = Inr s'"
    using assms by (simp add: SE_tick_def)
  show "incoming_states s2 = incoming_states s"
    if "incoming_states s1 = incoming_states s" and "answered ans obs i p s1 = Inr s2" for obs i p s1 s2
    using that(2) by (rule answered_Inr) (use that(1) callback_keeps_states upper_steps_keep_states in simp)
qed (simp_all add: incoming_states_def upd_MyTimer_def)

text \<open>C14. Time alone never ends the wait of an incoming bidirectional channel for the confirmation
  of the peer: however many ticks of the timer pass, whatever timers expire in them and
  whatever calls of MSD and CE the terminal answers with, every incoming channel keeps its number and its state. The expiry of T103, whose channel is looked up among the outgoing
  channels, does not end it either. (A
  message, a primitive or a reset can still end the wait.)\<close>

theorem confirmation_timer_misses:
  assumes "se_run (map TimerTick answers) s = Inr s'"
  shows "incoming_states s' = incoming_states s"
  using assms
proof (induction answers arbitrary: s)
  case (Cons ans answers)
  then obtain s1 where "SE_tick ans s = Inr s1" "se_run (map TimerTick answers) s1 = Inr s'"
    by (auto simp: bind_res_Inr_iff)
  with tick_keeps_states Cons.IH show ?case by metis
qed simp

text \<open>A terminal that has accepted the bidirectional channel 7 and started the timer, and the tick in
  which the timer expires.\<close>

lemma confirmation_timer_misses_witness:
  defines "e \<equiv> \<lparr> FwdLcn = 7, RvsLcn = 8, Directional = BI_DIRECTIONAL, Status = LCBLC_INCOMING_AWTING_CNFMTN,
      TmrSqcNumber = 1, ClcStatus = CLS_OUTGOING_IDLE, ClcTmrSqcNumber = 0 \<rparr>"
  defines "s \<equiv> perform (RequestTimer (T103TimerIdGet 7) 1 1 None)
      ((new_SE (\<lambda>_. 5) 1000)\<lparr>LCBLCIncoming := \<lparr> Direction = LC_INCOMING, EntryList = [e] \<rparr>\<rparr>)"
  shows "\<exists>s'. se_run (map TimerTick [\<lambda>_. []]) s = Inr s'
    \<and> incoming_states s' = [(7, LCBLC_INCOMING_AWTING_CNFMTN)]"
proof -
  have "\<exists>s'. se_run (map TimerTick [\<lambda>_. []]) s = Inr s'"
    by (simp add: s_def new_SE_def timer_Request_def new_timer_def RunIfNotReady_def SE_tick_def
        TimerBaseElapsed_def answered_def upd_MyTimer_def entry_expired_def tick_entry_def timer_ids_found
        with_entry_def GetLCEntry_def channels_def Let_def)
  then obtain s' where s': "se_run (map TimerTick [\<lambda>_. []]) s = Inr s'" by blast
  from confirmation_timer_misses [OF s'] s' show ?thesis
    by (simp add: s_def new_SE_def e_def incoming_states_def [of "_\<lparr>LCBLCIncoming := _\<rparr>"] incoming_states_def
        del: se_run.simps)
qed

end
