(* ===== verification/PerStream.thy ===== *)
theory PerStream
  imports Prelude "HOL-Library.While_Combinator"
begin

text \<open>
  The two bit streams of the message codec (\<^verbatim>\<open>h245/per/src/genericper.cpp\<close>): reading and writing up to
  eight bits, octet alignment, whole octets.

  The concrete streams are the structures of \<^verbatim>\<open>genericper.h\<close>. Each stands for a list of bits
  (\<open>in_bits\<close>: what is still to be read, \<open>out_bits\<close>: what has been written), and the lemmas of this
  theory say what every routine does to that list. An input stream has no end in the source; here it
  has the octets that the buffer really holds, and reading past them is a fault.

  \<^verbatim>\<open>bitIndex\<close> is a natural number: it is below 8 between two calls, and a sum with a number of bits is
  at most 16, so the \<^verbatim>\<open>uint8\<close> of the source never wraps. The sizes of an output stream do wrap and are
  words.
\<close>

section \<open>Faults, readers and writers\<close>

datatype per_fault =
    Leave     \<comment> \<open>\<^verbatim>\<open>ErrorMessageAndLeave\<close>\<close>
  | Overrun   \<comment> \<open>memory outside an allocated block is read or written\<close>
  | NoReturn  \<comment> \<open>a loop does not end\<close>

record in_stream = \<comment> \<open>\<^verbatim>\<open>S_InStream\<close>\<close>
  in_data :: "u8 list" \<comment> \<open>from the current octet to the end of the buffer\<close>
  in_bit :: nat

record out_stream = \<comment> \<open>\<^verbatim>\<open>S_OutStream\<close>\<close>
  out_data :: "u8 list" \<comment> \<open>the allocated block; fresh octets are shown as 0\<close>
  out_size :: u16
  byteIndex :: u16
  bitIndex :: nat
  buildByte :: u8

type_synonym 'a reader = "in_stream \<Rightarrow> per_fault + ('a \<times> in_stream)"
type_synonym writer = "out_stream \<Rightarrow> per_fault + out_stream"

definition and_then :: "'a reader \<Rightarrow> ('a \<Rightarrow> 'b reader) \<Rightarrow> 'b reader" where
  "and_then g f s = bind_res (g s) (\<lambda>(v, s'). f v s')"

definition give :: "'a \<Rightarrow> 'a reader" where
  "give v s = Inr (v, s)"

definition raise :: "per_fault \<Rightarrow> 'a reader" where
  "raise e s = Inl e"

definition and_put :: "writer \<Rightarrow> writer \<Rightarrow> writer" where
  "and_put p q s = bind_res (p s) q"

definition put_nothing :: writer where
  "put_nothing s = Inr s"

lemma reader_simps [simp]:
  "g s = Inr (v, s') \<Longrightarrow> and_then g f s = f v s'"
  "g s = Inl e \<Longrightarrow> and_then g f s = Inl e"
  by (simp_all add: and_then_def)

lemma writer_simps [simp]:
  "p s = Inr s' \<Longrightarrow> and_put p q s = q s'"
  "p s = Inl e \<Longrightarrow> and_put p q s = Inl e"
  by (simp_all add: and_put_def)

lemmas run_defs = give_def raise_def put_nothing_def

lemma and_then_Inr:
  "and_then g f s = Inr r \<longleftrightarrow> (\<exists>v s'. g s = Inr (v, s') \<and> f v s' = Inr r)"
  by (cases "g s") (auto simp: and_then_def)

section \<open>Input\<close>

definition MaskBit :: "u8 list" where
  "MaskBit = [0xff, 0x7f, 0x3f, 0x1f, 0x0f, 0x07, 0x03, 0x01]"

definition ReadBits :: "nat \<Rightarrow> u8 reader" where
  "ReadBits number s =
     (if 8 < number then Inl Leave
      else case in_data s of
        [] \<Rightarrow> Inl Overrun
      | b # rest \<Rightarrow>
          let BitSize = in_bit s + number;
              x = b AND (MaskBit ! in_bit s)
          in if 8 < BitSize then
               let NextBit = BitSize - 8
               in (case rest of
                     [] \<Rightarrow> Inl Overrun
                   | c # _ \<Rightarrow>
                       Inr (push_bit NextBit x OR drop_bit (8 - NextBit) (c AND NOT (MaskBit ! in_bit s)),
                            \<lparr> in_data = rest, in_bit = NextBit \<rparr>))
             else if BitSize < 8 then
               Inr (drop_bit (8 - BitSize) x, \<lparr> in_data = b # rest, in_bit = BitSize \<rparr>)
             else Inr (x, \<lparr> in_data = rest, in_bit = 0 \<rparr>))"

definition ReadRemainingBits :: "in_stream \<Rightarrow> in_stream" where
  "ReadRemainingBits s =
     (if in_bit s \<noteq> 0 then \<lparr> in_data = tl (in_data s), in_bit = 0 \<rparr> else s)"

text \<open>The octets in the order in which they are stored at the destination, and the reordering of up
  to four of them.\<close>

definition reordered :: "bool \<Rightarrow> u8 list \<Rightarrow> u8 list" where
  "reordered reorder xs = (if length xs \<le> 4 \<and> reorder then rev xs else xs)"

definition ReadOctets :: "nat \<Rightarrow> bool \<Rightarrow> u8 list reader" where
  "ReadOctets number reorder s =
     (let s1 = ReadRemainingBits s
      in if number = 0 then Inr ([], s1)
         else if length (in_data s1) < number then Inl Overrun
         else Inr (reordered reorder (take number (in_data s1)),
                   s1\<lparr>in_data := drop number (in_data s1)\<rparr>))"

section \<open>Output\<close>

definition STREAM_ADDITION :: nat where
  "STREAM_ADDITION = 64"

definition NewOutStream :: out_stream where
  "NewOutStream = \<lparr> out_data = [], out_size = 0, byteIndex = 0, bitIndex = 0, buildByte = 0 \<rparr>"

definition ExpandOutStream :: "out_stream \<Rightarrow> out_stream" where
  "ExpandOutStream s =
     s\<lparr>out_data := take (unat (out_size s)) (out_data s) @ replicate STREAM_ADDITION 0,
       out_size := out_size s + of_nat STREAM_ADDITION\<rparr>"

definition WriteRemainingBits :: writer where
  "WriteRemainingBits s =
     (if bitIndex s \<noteq> 0 then
        let s1 = (if unat (out_size s) < unat (byteIndex s) + 1 then ExpandOutStream s else s)
        in if unat (byteIndex s) < length (out_data s1) then
             Inr (s1\<lparr>out_data := (out_data s1)[unat (byteIndex s) := buildByte s],
                    byteIndex := byteIndex s + 1, bitIndex := 0, buildByte := 0\<rparr>)
           else Inl Overrun
      else Inr s)"

definition WriteBits :: "nat \<Rightarrow> u8 \<Rightarrow> writer" where
  "WriteBits number bits s =
     (let BitSize = bitIndex s + number;
          temp = push_bit (8 - number) bits;
          s1 = s\<lparr>buildByte := buildByte s OR drop_bit (bitIndex s) temp\<rparr>
      in if 8 < BitSize then
           bind_res (WriteRemainingBits (s1\<lparr>bitIndex := 8\<rparr>))
             (\<lambda>s2. Inr (s2\<lparr>buildByte := push_bit (16 - BitSize) bits, bitIndex := BitSize - 8\<rparr>))
         else if BitSize < 8 then Inr (s1\<lparr>bitIndex := BitSize\<rparr>)
         else WriteRemainingBits (s1\<lparr>bitIndex := 8\<rparr>))"

text \<open>The loop of \<^verbatim>\<open>WriteOctets\<close> that expands the stream: with 16 bit sizes it may never end.\<close>

definition make_room :: "nat \<Rightarrow> writer" where
  "make_room number s =
     (case while_option (\<lambda>s. unat (out_size s) < unat (byteIndex s) + number) ExpandOutStream s of
        None \<Rightarrow> Inl NoReturn | Some s' \<Rightarrow> Inr s')"

text \<open>\<open>octets\<close> is the memory at the source pointer.\<close>

definition WriteOctets :: "nat \<Rightarrow> u8 list \<Rightarrow> bool \<Rightarrow> writer" where
  "WriteOctets number octets reorder s =
     bind_res (WriteRemainingBits s) (\<lambda>s1.
     bind_res (make_room number s1) (\<lambda>s2.
       if number = 0 then Inr s2
       else if length octets < number \<or> length (out_data s2) < unat (byteIndex s2) + number then Inl Overrun
       else Inr (s2\<lparr>out_data :=
                     take (unat (byteIndex s2)) (out_data s2) @ reordered reorder (take number octets)
                     @ drop (unat (byteIndex s2) + number) (out_data s2),
                   byteIndex := of_nat (number + unat (byteIndex s2))\<rparr>)))"

section \<open>Bits\<close>

text \<open>The lowest \<open>n\<close> bits of a word, highest first, and the number that such a list stands for.\<close>

definition msb_bits :: "nat \<Rightarrow> 'a::len word \<Rightarrow> bool list" where
  "msb_bits n w = map (bit w) (rev [0..<n])"

definition of_msb :: "bool list \<Rightarrow> 'a::len word" where
  "of_msb bs = horner_sum of_bool 2 (rev bs)"

definition octet_bits :: "u8 list \<Rightarrow> bool list" where
  "octet_bits xs = concat (map (msb_bits 8) xs)"

lemma length_msb_bits [simp]: "length (msb_bits n w) = n"
  by (simp add: msb_bits_def)

lemma msb_bits_nth [simp]: "i < n \<Longrightarrow> msb_bits n w ! i = bit w (n - Suc i)"
  by (simp add: msb_bits_def rev_nth rev_map)

lemma msb_bits_0 [simp]: "msb_bits 0 w = []"
  by (simp add: msb_bits_def)

lemma of_msb_bits: "of_msb (msb_bits n w) = take_bit n w"
  by (simp add: of_msb_def msb_bits_def rev_map horner_sum_bit_eq_take_bit)

lemma octet_bits_simps [simp]:
  "octet_bits [] = []"
  "octet_bits (x # xs) = msb_bits 8 x @ octet_bits xs"
  "octet_bits (xs @ ys) = octet_bits xs @ octet_bits ys"
  by (simp_all add: octet_bits_def)

lemma length_octet_bits [simp]: "length (octet_bits xs) = 8 * length xs"
  by (induction xs) simp_all

lemma drop_octet_bits: "drop (8 * n) (octet_bits xs) = octet_bits (drop n xs)"
proof (induction n arbitrary: xs)
  case (Suc n)
  then show ?case by (cases xs) simp_all
qed simp

lemma take_octet_bits: "take (8 * n) (octet_bits xs) = octet_bits (take n xs)"
proof (induction n arbitrary: xs)
  case (Suc n)
  then show ?case by (cases xs) simp_all
qed simp

lemma msb_bits_8_inject: "msb_bits 8 (x::u8) = msb_bits 8 y \<longleftrightarrow> x = y"
proof
  assume "msb_bits 8 x = msb_bits 8 y"
  then have "take_bit 8 x = take_bit 8 y" by (metis of_msb_bits)
  moreover have "take_bit 8 z = z" for z :: u8 by (simp add: take_bit_word_eq_self)
  ultimately show "x = y" by simp
qed simp

lemma octet_bits_inject: "octet_bits xs = octet_bits ys \<longleftrightarrow> xs = ys"
proof (induction xs arbitrary: ys)
  case Nil
  then show ?case by (cases ys) (auto dest: arg_cong [where f = length])
next
  case (Cons x xs)
  show ?case
  proof (cases ys)
    case Nil
    then show ?thesis by (auto dest: arg_cong [where f = length])
  next
    case (Cons y zs)
    then show ?thesis by (simp add: Cons.IH msb_bits_8_inject)
  qed
qed

subsection \<open>Reading\<close>

definition in_bits :: "in_stream \<Rightarrow> bool list" where
  "in_bits s = drop (in_bit s) (octet_bits (in_data s))"

definition in_ok :: "in_stream \<Rightarrow> bool" where
  "in_ok s \<longleftrightarrow> in_bit s < 8 \<and> (in_data s = [] \<longrightarrow> in_bit s = 0)"

lemma MaskBit_nth: "i < 8 \<Longrightarrow> MaskBit ! i = mask (8 - i)"
proof -
  assume "i < 8"
  have "MaskBit = map (\<lambda>i. mask (8 - i)) [0..<8]"
    by (simp add: MaskBit_def upt_rec mask_eq_exp_minus_1)
  then have "MaskBit ! i = map (\<lambda>i. mask (8 - i)) [0..<8] ! i" by (rule arg_cong)
  also have "\<dots> = mask (8 - i)" using \<open>i < 8\<close> by (subst nth_map) simp_all
  finally show ?thesis .
qed

lemma in_position_dvd: "in_ok s \<Longrightarrow> (in_bit s + length (in_bits s)) mod 8 = 0"
proof -
  assume ok: "in_ok s"
  have "in_bit s + length (in_bits s) = 8 * length (in_data s)"
    using ok by (cases "in_data s") (simp_all add: in_bits_def in_ok_def)
  then show ?thesis by simp
qed

lemma take_drop_msb_bits:
  "i + n \<le> m \<Longrightarrow> take n (drop i (msb_bits m w)) = msb_bits n (drop_bit (m - (i + n)) w)"
  by (rule nth_equalityI) (auto simp: bit_simps algebra_simps)

lemma ReadBits_bits:
  assumes "in_ok s" and "n \<le> 8" and "n \<le> length (in_bits s)" and "in_data s \<noteq> []"
  shows "\<exists>s'. ReadBits n s = Inr (of_msb (take n (in_bits s)), s')
       \<and> in_ok s' \<and> in_bits s' = drop n (in_bits s)"
proof -
  obtain b rest where d: "in_data s = b # rest" using assms(4) by (cases "in_data s") auto
  define i where "i = in_bit s"
  have i: "i < 8" using assms(1) by (simp add: in_ok_def i_def)
  have bits: "in_bits s = drop i (msb_bits 8 b) @ octet_bits rest"
    using i by (simp add: in_bits_def d i_def)
  consider (inside) "i + n < 8" | (edge) "i + n = 8" | (across) "8 < i + n" by linarith
  then show ?thesis
  proof cases
    case inside
    have "take n (in_bits s) = msb_bits n (drop_bit (8 - (i + n)) b)"
      using inside by (simp add: bits take_drop_msb_bits)
    then have v: "(of_msb (take n (in_bits s)) :: u8) = take_bit n (drop_bit (8 - (i + n)) b)"
      by (simp add: of_msb_bits)
    have "drop_bit (8 - (i + n)) (b AND MaskBit ! i) = take_bit n (drop_bit (8 - (i + n)) b)"
      using inside i by (auto intro!: bit_word_eqI simp: MaskBit_nth bit_simps)
    then have "ReadBits n s = Inr (of_msb (take n (in_bits s)), \<lparr> in_data = b # rest, in_bit = i + n \<rparr>)"
      using inside assms(2) v by (simp add: ReadBits_def d i_def [symmetric] Let_def)
    moreover have "in_ok \<lparr> in_data = b # rest, in_bit = i + n \<rparr>" using inside by (simp add: in_ok_def)
    moreover have "in_bits \<lparr> in_data = b # rest, in_bit = i + n \<rparr> = drop n (in_bits s)"
      using inside i by (simp add: bits) (simp add: in_bits_def add.commute)
    ultimately show ?thesis by blast
  next
    case edge
    have "take n (in_bits s) = msb_bits n b"
      using edge take_drop_msb_bits [of i n 8 b] by (simp add: bits)
    then have v: "(of_msb (take n (in_bits s)) :: u8) = take_bit n b"
      by (simp add: of_msb_bits)
    have "b AND MaskBit ! i = take_bit n b"
      using edge i by (auto intro!: bit_word_eqI simp: MaskBit_nth bit_simps)
    then have "ReadBits n s = Inr (of_msb (take n (in_bits s)), \<lparr> in_data = rest, in_bit = 0 \<rparr>)"
      using edge assms(2) v by (simp add: ReadBits_def d i_def [symmetric] Let_def)
    moreover have "in_ok \<lparr> in_data = rest, in_bit = 0 \<rparr>" using edge by (simp add: in_ok_def)
    moreover have "in_bits \<lparr> in_data = rest, in_bit = 0 \<rparr> = drop n (in_bits s)"
      using edge i by (simp add: bits) (simp add: in_bits_def add.commute)
    ultimately show ?thesis by blast
  next
    case across
    then obtain c rest' where r: "rest = c # rest'"
      using assms(3) i by (cases rest) (auto simp: bits)
    define k where "k = i + n - 8"
    have k: "k \<le> i" "k < 8" "n = 8 - i + k" using across assms(2) i by (simp_all add: k_def)
    have "take n (in_bits s) = msb_bits (8 - i) b @ msb_bits k (drop_bit (8 - k) c)"
      using k i take_drop_msb_bits [of i "8 - i" 8 b] take_drop_msb_bits [of 0 k 8 c] by (simp add: bits r)
    also have "\<dots> = msb_bits n (push_bit k (b AND MaskBit ! i) OR drop_bit (8 - k) (c AND NOT (MaskBit ! i)))"
      using k i by (intro nth_equalityI) (auto simp: nth_append bit_simps MaskBit_nth add.commute [of _ i])
    finally have v: "(of_msb (take n (in_bits s)) :: u8)
        = take_bit n (push_bit k (b AND MaskBit ! i) OR drop_bit (8 - k) (c AND NOT (MaskBit ! i)))"
      by (simp add: of_msb_bits)
    have "push_bit k (b AND MaskBit ! i) OR drop_bit (8 - k) (c AND NOT (MaskBit ! i))
        = take_bit n (push_bit k (b AND MaskBit ! i) OR drop_bit (8 - k) (c AND NOT (MaskBit ! i)))"
      using k i by (auto intro!: bit_word_eqI simp: MaskBit_nth bit_simps)
    then have "ReadBits n s = Inr (of_msb (take n (in_bits s)), \<lparr> in_data = c # rest', in_bit = k \<rparr>)"
      using across assms(2) v by (simp add: ReadBits_def d r i_def [symmetric] k_def [symmetric] Let_def)
    moreover have "in_ok \<lparr> in_data = c # rest', in_bit = k \<rparr>" using k by (simp add: in_ok_def)
    moreover have "in_bits \<lparr> in_data = c # rest', in_bit = k \<rparr> = drop n (in_bits s)"
      using k i by (simp add: bits r) (simp add: in_bits_def)
    ultimately show ?thesis by blast
  qed
qed

lemma ReadRemainingBits_bits:
  assumes "in_ok s"
  shows "in_ok (ReadRemainingBits s) \<and> in_bit (ReadRemainingBits s) = 0
       \<and> in_bits (ReadRemainingBits s) = drop ((8 - in_bit s) mod 8) (in_bits s)
       \<and> octet_bits (in_data (ReadRemainingBits s)) = in_bits (ReadRemainingBits s)"
  using assms
  by (cases "in_data s") (auto simp: ReadRemainingBits_def in_bits_def in_ok_def)

lemma reordered_simps [simp]:
  "length (reordered r xs) = length xs"
  "reordered r (reordered r xs) = xs"
  "reordered False xs = xs"
  "reordered r [] = []"
  "reordered r [x] = [x]"
  by (simp_all add: reordered_def)

lemma ReadOctets_bits:
  assumes "in_ok s" and "in_bits s = pad @ octet_bits xs @ rest" and "length pad = (8 - in_bit s) mod 8"
  shows "\<exists>s'. ReadOctets (length xs) r s = Inr (reordered r xs, s')
       \<and> in_ok s' \<and> in_bit s' = 0 \<and> in_bits s' = rest"
proof -
  define s1 where "s1 = ReadRemainingBits s"
  have s1: "in_ok s1" "in_bit s1 = 0" "in_bits s1 = octet_bits xs @ rest" "octet_bits (in_data s1) = in_bits s1"
    using ReadRemainingBits_bits [OF assms(1)] assms(2,3) by (simp_all add: s1_def)
  have len: "length xs \<le> length (in_data s1)"
    using s1(3,4) by (metis add_leD1 le_add1 length_append length_octet_bits nat_mult_le_cancel_disj zero_less_numeral)
  have "octet_bits (take (length xs) (in_data s1)) = octet_bits xs"
    by (metis s1(3,4) append_eq_conv_conj length_octet_bits take_octet_bits)
  then have taken: "take (length xs) (in_data s1) = xs" by (simp add: octet_bits_inject)
  have dropped: "octet_bits (drop (length xs) (in_data s1)) = rest"
    by (metis s1(3,4) append_eq_conv_conj length_octet_bits drop_octet_bits)
  show ?thesis
  proof (cases "xs = []")
    case True
    then show ?thesis using s1 by (simp add: ReadOctets_def s1_def [symmetric] Let_def)
  next
    case False
    define s' where "s' = s1\<lparr>in_data := drop (length xs) (in_data s1)\<rparr>"
    have "ReadOctets (length xs) r s = Inr (reordered r xs, s')"
      using False len taken by (simp add: ReadOctets_def s1_def [symmetric] Let_def s'_def)
    moreover have "in_ok s' \<and> in_bit s' = 0 \<and> in_bits s' = rest"
      using s1(2) dropped by (simp add: s'_def in_ok_def in_bits_def)
    ultimately show ?thesis by blast
  qed
qed

subsection \<open>Writing\<close>

definition out_octets :: "out_stream \<Rightarrow> u8 list" where
  "out_octets s = take (unat (byteIndex s)) (out_data s)"

definition out_bits :: "out_stream \<Rightarrow> bool list" where
  "out_bits s = octet_bits (out_octets s) @ take (bitIndex s) (msb_bits 8 (buildByte s))"

text \<open>The memory of a stream, and a stream between two calls.\<close>

definition out_mem :: "out_stream \<Rightarrow> bool" where
  "out_mem s \<longleftrightarrow> length (out_data s) = unat (out_size s) \<and> unat (byteIndex s) \<le> unat (out_size s)
     \<and> 64 dvd unat (out_size s)"

definition out_ok :: "out_stream \<Rightarrow> bool" where
  "out_ok s \<longleftrightarrow> out_mem s \<and> bitIndex s < 8 \<and> take_bit (8 - bitIndex s) (buildByte s) = 0"

text \<open>The largest number of octets that a stream with 16 bit sizes holds before its size wraps.\<close>

definition out_limit :: nat where
  "out_limit = 65472"

lemma length_out_octets: "out_mem s \<Longrightarrow> length (out_octets s) = unat (byteIndex s)"
  by (simp add: out_mem_def out_octets_def)

lemma length_out_bits: "out_ok s \<Longrightarrow> length (out_bits s) = 8 * unat (byteIndex s) + bitIndex s"
  by (simp add: out_bits_def out_ok_def length_out_octets)

lemma out_position: "out_ok s \<Longrightarrow> length (out_bits s) mod 8 = bitIndex s"
  by (simp add: length_out_bits) (simp add: out_ok_def)

lemma new_stream: "out_ok NewOutStream" "out_bits NewOutStream = []"
  by (simp_all add: out_ok_def out_mem_def NewOutStream_def out_bits_def out_octets_def)

lemma ExpandOutStream_mem:
  assumes "out_mem s" and "unat (out_size s) < out_limit"
  shows "out_mem (ExpandOutStream s) \<and> unat (out_size (ExpandOutStream s)) = unat (out_size s) + 64
       \<and> out_octets (ExpandOutStream s) = out_octets s \<and> byteIndex (ExpandOutStream s) = byteIndex s
       \<and> bitIndex (ExpandOutStream s) = bitIndex s \<and> buildByte (ExpandOutStream s) = buildByte s"
proof -
  have "unat (out_size s) \<noteq> 65472" using assms by (simp add: out_limit_def)
  moreover have "unat (out_size s + 64) = unat (out_size s) + 64"
    using assms by (subst unat_add_lem [THEN iffD1]) (simp_all add: out_limit_def)
  ultimately show ?thesis
    using assms by (auto simp: out_mem_def ExpandOutStream_def STREAM_ADDITION_def out_octets_def)
qed

lemma unat_Suc_less: "unat (x::u16) < out_limit \<Longrightarrow> unat (x + 1) = Suc (unat x)"
  by (subst unat_add_lem [THEN iffD1]) (simp_all add: out_limit_def)

lemma WriteRemainingBits_mem:
  assumes "out_mem s" and "bitIndex s \<noteq> 0" and "unat (byteIndex s) < out_limit"
  shows "\<exists>s'. WriteRemainingBits s = Inr s' \<and> out_mem s' \<and> out_octets s' = out_octets s @ [buildByte s]
       \<and> unat (byteIndex s') = Suc (unat (byteIndex s)) \<and> bitIndex s' = 0 \<and> buildByte s' = 0"
proof -
  define s1 where "s1 = (if unat (out_size s) < unat (byteIndex s) + 1 then ExpandOutStream s else s)"
  have s1: "out_mem s1" "out_octets s1 = out_octets s" "byteIndex s1 = byteIndex s"
    "unat (byteIndex s) < unat (out_size s1)"
    using ExpandOutStream_mem [OF assms(1)] assms by (auto simp: s1_def out_mem_def split: if_splits)
  define s' where "s' = s1\<lparr>out_data := (out_data s1)[unat (byteIndex s) := buildByte s],
      byteIndex := byteIndex s + 1, bitIndex := 0, buildByte := 0\<rparr>"
  have len: "unat (byteIndex s) < length (out_data s1)" using s1 by (simp add: out_mem_def)
  then have "WriteRemainingBits s = Inr s'"
    using assms(2) unfolding WriteRemainingBits_def Let_def s1_def [symmetric] s'_def by simp
  moreover have "out_mem s'"
    using s1 unat_Suc_less [OF assms(3)] by (simp add: out_mem_def s'_def)
  moreover have "out_octets s' = out_octets s @ [buildByte s]"
    using len s1(2,3) unat_Suc_less [OF assms(3)]
    by (simp add: out_octets_def s'_def take_Suc_conv_app_nth)
  ultimately show ?thesis using unat_Suc_less [OF assms(3)] by (auto simp: s'_def)
qed

lemma msb_bits_append_byte:
  assumes "i + n \<le> 8" and "take_bit (8 - i) b = 0"
  shows "take (i + n) (msb_bits 8 (b OR drop_bit i (push_bit (8 - n) w)))
       = take i (msb_bits 8 b) @ msb_bits n (w::u8)"
proof (rule nth_equalityI)
  have zero: "\<not> bit b k" if "k < 8 - i" for k
    using assms(2) that by (metis bit_0_eq bit_take_bit_iff bot_apply bot_bool_def)
  fix j
  assume "j < length (take (i + n) (msb_bits 8 (b OR drop_bit i (push_bit (8 - n) w))))"
  then show "take (i + n) (msb_bits 8 (b OR drop_bit i (push_bit (8 - n) w))) ! j
      = (take i (msb_bits 8 b) @ msb_bits n w) ! j"
    using assms(1) zero by (cases "j < i") (auto simp: nth_append bit_simps add.commute [of n i])
qed (use assms in simp)

lemma msb_bits_across:
  assumes "i \<le> 8" and "take_bit (8 - i) b = 0" and "n = (8 - i) + k" and "n \<le> 8"
  shows "msb_bits 8 (b OR drop_bit i (push_bit (8 - n) w))
       = take i (msb_bits 8 b) @ msb_bits (8 - i) (drop_bit k (w::u8))"
proof (rule nth_equalityI)
  have zero: "\<not> bit b m" if "m < 8 - i" for m
    using assms(2) that by (metis bit_0_eq bit_take_bit_iff bot_apply bot_bool_def)
  fix j
  assume "j < length (msb_bits 8 (b OR drop_bit i (push_bit (8 - n) w)))"
  then have "j < 8" by simp
  show "msb_bits 8 (b OR drop_bit i (push_bit (8 - n) w)) ! j
      = (take i (msb_bits 8 b) @ msb_bits (8 - i) (drop_bit k w)) ! j"
  proof (cases "j < i")
    case True
    then have "8 \<le> i + 7 - j" "8 \<le> i + (7 - j)" using assms(1) by linarith+
    then show ?thesis using True assms(1) by (simp add: nth_append bit_simps)
  next
    case False
    have "i + (7 - j) - (8 - n) = k + (8 - i - Suc (j - i))" using False \<open>j < 8\<close> assms by linarith
    moreover have "8 - n \<le> i + (7 - j)" "i + (7 - j) < 8" "7 - j < 8 - i" "j - i < 8 - i"
      "k + (8 - i - Suc (j - i)) = k + 7 - j"
      using False \<open>j < 8\<close> assms by linarith+
    ultimately show ?thesis using False assms(1) zero \<open>j < 8\<close> by (simp add: nth_append bit_simps)
  qed
qed (use assms in simp)

lemma low_bits_zero:
  assumes "i + n \<le> 8" and "take_bit (8 - i) b = 0"
  shows "take_bit (8 - (i + n)) (b OR drop_bit i (push_bit (8 - n) (w::u8))) = 0"
proof -
  have zero: "\<not> bit b k" if "k < 8 - i" for k
    using assms(2) that by (metis bit_0_eq bit_take_bit_iff bot_apply bot_bool_def)
  show ?thesis using assms(1) zero by (auto intro!: bit_word_eqI simp: bit_simps)
qed

lemma WriteBits_bits:
  assumes "out_ok s" and "n \<le> 8" and "length (out_bits s) + n \<le> 8 * out_limit"
  shows "\<exists>s'. WriteBits n w s = Inr s' \<and> out_ok s' \<and> out_bits s' = out_bits s @ msb_bits n w"
proof -
  define i where "i = bitIndex s"
  define b where "b = buildByte s"
  have i: "i < 8" "take_bit (8 - i) b = 0" "out_mem s" using assms(1) by (simp_all add: out_ok_def i_def b_def)
  have len: "8 * unat (byteIndex s) + i + n \<le> 8 * out_limit"
    using assms(3) length_out_bits [OF assms(1)] by (simp add: i_def)
  define s1 where "s1 = s\<lparr>buildByte := b OR drop_bit i (push_bit (8 - n) w)\<rparr>"
  show ?thesis
  proof (cases "i + n < 8")
    case True
    then have "WriteBits n w s = Inr (s1\<lparr>bitIndex := i + n\<rparr>)"
      by (simp add: WriteBits_def s1_def i_def b_def Let_def)
    moreover have "out_ok (s1\<lparr>bitIndex := i + n\<rparr>)"
      using i True low_bits_zero [of i n b w] by (simp add: out_ok_def out_mem_def s1_def)
    moreover have "out_bits (s1\<lparr>bitIndex := i + n\<rparr>) = out_bits s @ msb_bits n w"
      using i True msb_bits_append_byte [of i n b w]
      by (simp add: out_bits_def out_octets_def s1_def i_def [symmetric] b_def [symmetric])
    ultimately show ?thesis by blast
  next
    case False
    define k where "k = i + n - 8"
    have k: "n = (8 - i) + k" "k \<le> i" using False assms(2) i by (simp_all add: k_def)
    have "out_mem (s1\<lparr>bitIndex := 8\<rparr>)" using i by (simp add: out_mem_def s1_def)
    moreover have "unat (byteIndex (s1\<lparr>bitIndex := 8\<rparr>)) < out_limit"
      using len False by (simp add: s1_def)
    ultimately obtain s2 where s2: "WriteRemainingBits (s1\<lparr>bitIndex := 8\<rparr>) = Inr s2" "out_mem s2"
      "out_octets s2 = out_octets (s1\<lparr>bitIndex := 8\<rparr>) @ [buildByte (s1\<lparr>bitIndex := 8\<rparr>)]"
      "bitIndex s2 = 0" "buildByte s2 = 0"
      using WriteRemainingBits_mem [of "s1\<lparr>bitIndex := 8\<rparr>"] by auto
    have byte: "msb_bits 8 (b OR drop_bit i (push_bit (8 - n) w))
        = take i (msb_bits 8 b) @ msb_bits (8 - i) (drop_bit k w)"
      by (rule msb_bits_across) (use i k(1) assms(2) in simp_all)
    have "out_octets s2 = out_octets s @ [b OR drop_bit i (push_bit (8 - n) w)]"
      using s2(3) by (simp add: s1_def out_octets_def)
    then have bits2: "octet_bits (out_octets s2) = out_bits s @ msb_bits (8 - i) (drop_bit k w)"
      by (simp add: byte) (simp add: out_bits_def i_def b_def)
    define s3 where "s3 = (if 8 < i + n then s2\<lparr>buildByte := push_bit (8 - k) w, bitIndex := k\<rparr> else s2)"
    have "16 - (i + n) = 8 - k" using False by (simp add: k_def)
    then have "WriteBits n w s = Inr s3"
      using False s2(1)
      unfolding WriteBits_def Let_def i_def [symmetric] b_def [symmetric] s1_def [symmetric] s3_def
      by (simp add: k_def)
    moreover have "out_ok s3"
      using s2 k i by (auto simp: out_ok_def out_mem_def s3_def k_def intro!: bit_word_eqI simp: bit_simps)
    moreover have "out_bits s3 = out_bits s @ msb_bits n w"
    proof -
      have w: "msb_bits n w = msb_bits (8 - i) (drop_bit k w) @ msb_bits k w"
        using k by (intro nth_equalityI) (auto simp: nth_append bit_simps add.commute)
      have "take k (msb_bits 8 (push_bit (8 - k) w)) = msb_bits k w"
        using k i by (intro nth_equalityI) (auto simp: bit_simps)
      then show ?thesis
        using bits2 s2(4) by (auto simp: out_bits_def out_octets_def s3_def w k_def)
    qed
    ultimately show ?thesis by blast
  qed
qed

text \<open>The expansion loop ends exactly when the octets fit.\<close>

lemma make_room_mem:
  assumes "out_mem s" and "unat (byteIndex s) + n \<le> out_limit"
  shows "\<exists>s'. make_room n s = Inr s' \<and> out_mem s' \<and> unat (byteIndex s') + n \<le> unat (out_size s')
       \<and> out_octets s' = out_octets s \<and> byteIndex s' = byteIndex s
       \<and> bitIndex s' = bitIndex s \<and> buildByte s' = buildByte s"
proof -
  let ?b = "\<lambda>s. unat (out_size s) < unat (byteIndex s) + n"
  let ?P = "\<lambda>t. out_mem t \<and> out_octets t = out_octets s \<and> byteIndex t = byteIndex s
       \<and> bitIndex t = bitIndex s \<and> buildByte t = buildByte s"
  have step: "?P (ExpandOutStream t) \<and> unat (out_size (ExpandOutStream t)) = unat (out_size t) + 64"
    if "?P t" "?b t" for t
    using ExpandOutStream_mem [of t] that assms(2) by simp
  have "\<exists>t. while_option ?b ExpandOutStream s = Some t"
    by (rule measure_while_option_Some [where P = ?P and f = "\<lambda>t. unat (byteIndex s) + n - unat (out_size t)"])
       (use step assms(1) in \<open>auto\<close>)
  then obtain t where t: "while_option ?b ExpandOutStream s = Some t" by blast
  have "?P t" by (rule while_option_rule [OF _ t, where P = ?P]) (use step assms(1) in auto)
  moreover have "\<not> ?b t" by (rule while_option_stop [OF t])
  ultimately show ?thesis using t by (auto simp: make_room_def)
qed

lemma make_room_hangs:
  assumes "out_mem s" and "out_limit < unat (byteIndex s) + n"
  shows "make_room n s = Inl NoReturn"
proof -
  let ?b = "\<lambda>s. unat (out_size s) < unat (byteIndex s) + n"
  let ?P = "\<lambda>t. 64 dvd unat (out_size t) \<and> byteIndex t = byteIndex s"
  have small: "?b t" if "?P t" for t
  proof -
    have "64 dvd unat (out_size t)" using that by blast
    then obtain q where q: "unat (out_size t) = 64 * q" by (rule dvdE)
    moreover have "unat (out_size t) < 65536" using unsigned_less [of "out_size t"] by simp
    ultimately have "unat (out_size t) \<le> out_limit" by (simp add: out_limit_def)
    then show ?thesis using assms(2) that by simp
  qed
  have step: "?P (ExpandOutStream t)" if "?P t" for t
  proof -
    have "unat (out_size t + 64) = (unat (out_size t) + 64) mod 65536" by (simp add: unat_word_ariths)
    moreover have "64 dvd (unat (out_size t) + 64) mod (65536::nat)"
      using that by (simp add: dvd_mod)
    ultimately show ?thesis using that by (simp add: ExpandOutStream_def STREAM_ADDITION_def)
  qed
  have "while_option ?b ExpandOutStream s = None"
  proof (rule ccontr)
    assume "while_option ?b ExpandOutStream s \<noteq> None"
    then obtain t where t: "while_option ?b ExpandOutStream s = Some t" by blast
    have "?P t" by (rule while_option_rule [OF _ t, where P = ?P]) (use step assms(1) in \<open>auto simp: out_mem_def\<close>)
    then show False using small while_option_stop [OF t] by blast
  qed
  then show ?thesis by (simp add: make_room_def)
qed

text \<open>Padding up to the next octet.\<close>

definition pad :: "nat \<Rightarrow> bool list" where
  "pad p = replicate ((8 - p mod 8) mod 8) False"

lemma length_pad [simp]: "length (pad p) = (8 - p mod 8) mod 8"
  by (simp add: pad_def)

lemma pad_0 [simp]: "p mod 8 = 0 \<Longrightarrow> pad p = []"
  by (simp add: pad_def)

lemma WriteRemainingBits_bits:
  assumes "out_ok s" and "length (out_bits s) \<le> 8 * out_limit"
  shows "\<exists>s'. WriteRemainingBits s = Inr s' \<and> out_ok s' \<and> bitIndex s' = 0
       \<and> out_bits s' = out_bits s @ pad (length (out_bits s))"
proof (cases "bitIndex s = 0")
  case True
  then show ?thesis using assms out_position [OF assms(1)] by (auto simp: WriteRemainingBits_def)
next
  case False
  have ok: "out_mem s" "bitIndex s < 8" "take_bit (8 - bitIndex s) (buildByte s) = 0"
    using assms(1) by (simp_all add: out_ok_def)
  have "unat (byteIndex s) < out_limit" using assms(2) False length_out_bits [OF assms(1)] by simp
  then obtain s' where s': "WriteRemainingBits s = Inr s'" "out_mem s'"
    "out_octets s' = out_octets s @ [buildByte s]" "bitIndex s' = 0" "buildByte s' = 0"
    using WriteRemainingBits_mem [OF ok(1) False] by blast
  have "msb_bits 8 (buildByte s) = take (bitIndex s) (msb_bits 8 (buildByte s)) @ pad (bitIndex s)"
  proof (rule nth_equalityI)
    fix j
    assume "j < length (msb_bits 8 (buildByte s))"
    moreover have "\<not> bit (buildByte s) k" if "k < 8 - bitIndex s" for k
      using ok(3) that by (metis bit_0_eq bit_take_bit_iff bot_apply bot_bool_def)
    ultimately show "msb_bits 8 (buildByte s) ! j = (take (bitIndex s) (msb_bits 8 (buildByte s)) @ pad (bitIndex s)) ! j"
      using ok(2) False by (auto simp: nth_append pad_def)
  qed (use ok False in \<open>simp add: pad_def\<close>)
  moreover have "pad (length (out_bits s)) = pad (bitIndex s)"
    using out_position [OF assms(1)] by (simp add: pad_def)
  ultimately have "out_bits s' = out_bits s @ pad (length (out_bits s))"
    using s'(3,4) by (simp add: out_bits_def)
  then show ?thesis using s' by (auto simp: out_ok_def)
qed

lemma WriteOctets_bits:
  assumes "out_ok s" and "n \<le> length octets"
    and "length (out_bits s) + length (pad (length (out_bits s))) + 8 * n \<le> 8 * out_limit"
  shows "\<exists>s'. WriteOctets n octets r s = Inr s' \<and> out_ok s' \<and> bitIndex s' = 0
       \<and> out_bits s' = out_bits s @ pad (length (out_bits s)) @ octet_bits (reordered r (take n octets))"
proof -
  obtain s1 where s1: "WriteRemainingBits s = Inr s1" "out_ok s1" "bitIndex s1 = 0"
    "out_bits s1 = out_bits s @ pad (length (out_bits s))"
    using WriteRemainingBits_bits [OF assms(1)] assms(3) by auto
  have "8 * unat (byteIndex s1) = length (out_bits s1)" using s1(3) length_out_bits [OF s1(2)] by simp
  then have fits: "unat (byteIndex s1) + n \<le> out_limit" using assms(3) s1(4) by simp
  obtain s2 where s2: "make_room n s1 = Inr s2" "out_mem s2" "unat (byteIndex s2) + n \<le> unat (out_size s2)"
    "out_octets s2 = out_octets s1" "byteIndex s2 = byteIndex s1" "bitIndex s2 = 0" "buildByte s2 = buildByte s1"
    using make_room_mem [OF _ fits] s1 by (auto simp: out_ok_def)
  have bits2: "out_bits s2 = out_bits s1" using s1(3) s2 by (simp add: out_bits_def)
  have ok2: "out_ok s2" using s1 s2 by (simp add: out_ok_def)
  show ?thesis
  proof (cases "n = 0")
    case True
    then show ?thesis using s1 s2 bits2 ok2 by (simp add: WriteOctets_def)
  next
    case False
    define d where "d = take (unat (byteIndex s2)) (out_data s2) @ reordered r (take n octets)
        @ drop (unat (byteIndex s2) + n) (out_data s2)"
    define s3 where "s3 = s2\<lparr>out_data := d, byteIndex := of_nat (n + unat (byteIndex s2))\<rparr>"
    have len: "length (out_data s2) = unat (out_size s2)" using s2 by (simp add: out_mem_def)
    have "WriteOctets n octets r s = Inr s3"
      using False assms(2) s1(1) s2(1,3) len by (simp add: WriteOctets_def d_def s3_def)
    moreover have "unat (of_nat (n + unat (byteIndex s2)) :: u16) = n + unat (byteIndex s2)"
      using fits s2(5) by (simp only: unsigned_of_nat) (simp add: take_bit_nat_eq_self out_limit_def)
    moreover from this have "out_ok s3"
      using ok2 s2(3) len assms(2) by (simp add: out_ok_def out_mem_def s3_def d_def)
    moreover from calculation have "out_octets s3 = out_octets s2 @ reordered r (take n octets)"
      using s2(3) len assms(2) by (simp add: out_octets_def s3_def d_def)
    moreover from this have "out_bits s3 = out_bits s2 @ octet_bits (reordered r (take n octets))"
      using s2(6) by (simp add: out_bits_def s3_def)
    ultimately show ?thesis using bits2 s1(4) s2(6) by (simp add: s3_def)
  qed
qed

end
