(* ===== verification/PerInteger.thy ===== *)
theory PerInteger
  imports PerStream
begin

text \<open>
  The numbers of the codec: \<^verbatim>\<open>GetInteger\<close>, \<^verbatim>\<open>PutInteger\<close> and their relatives of \<^verbatim>\<open>genericper.cpp\<close>, length
  determinants, choice indices. The contract of a pair of routines is the locale \<open>codec\<close>: the
  writer appends an encoding that depends on the value and on the bit position (octets are aligned),
  and the reader takes exactly this encoding off the stream and gives the value back.
\<close>

section \<open>Integers in memory\<close>

text \<open>The octets of a \<^verbatim>\<open>uint32\<close> in memory, and the variable that octets are read into: the code is
  written for a machine that stores the lowest octet first.\<close>

definition le_octets :: "u32 \<Rightarrow> u8 list" where
  "le_octets v = [ucast v, ucast (drop_bit 8 v), ucast (drop_bit 16 v), ucast (drop_bit 24 v)]"

fun u32_of_le :: "u8 list \<Rightarrow> u32" where
  "u32_of_le [] = 0"
| "u32_of_le (x # xs) = ucast x OR push_bit 8 (u32_of_le xs)"

text \<open>\<^verbatim>\<open>ReadOctets(n, (uint8*)&value, 1, stream)\<close> with a \<^verbatim>\<open>uint32\<close> that was 0.\<close>

definition read_u32 :: "nat \<Rightarrow> u32 reader" where
  "read_u32 n = and_then (ReadOctets n True) (\<lambda>xs. if 4 < length xs then raise Overrun else give (u32_of_le xs))"

section \<open>Reading\<close>

definition GetBoolean :: "u8 reader" where
  "GetBoolean = ReadBits 1"

text \<open>The number of bits of a value whose range is below 256.\<close>

definition field_width :: "u32 \<Rightarrow> nat" where
  "field_width rng =
     (if rng \<le> 2 then 1 else if rng \<le> 4 then 2 else if rng \<le> 8 then 3 else if rng \<le> 16 then 4
      else if rng \<le> 32 then 5 else if rng \<le> 64 then 6 else if rng \<le> 128 then 7 else 8)"

definition GetInteger :: "u32 \<Rightarrow> u32 \<Rightarrow> u32 reader" where
  "GetInteger lower upper =
     (if upper < lower then raise Leave
      else
        let rng = upper - lower + 1;
            in_range = (\<lambda>value. if upper < lower + value then raise Leave else give (lower + value))
        in if rng = 0 then and_then (ReadBits 2) (\<lambda>n. read_u32 (unat (n + 1)))
           else if rng = 1 then give lower
           else if rng < 256 then
             and_then (ReadBits (field_width rng)) (\<lambda>value. in_range (ucast value))
           else
             and_then (if rng = 256 then give 1 else if rng \<le> 65536 then give 2
                       else and_then (ReadBits 2) (\<lambda>n. give (unat (n + 1))))
               (\<lambda>nbytes. and_then (read_u32 nbytes) in_range))"

definition GetLengthDet :: "u32 reader" where
  "GetLengthDet =
     and_then (ReadOctets 1 False) (\<lambda>bs.
       let byte1 = hd bs
       in if byte1 AND 0x80 = 0 then give (ucast byte1)
          else if byte1 AND 0x40 = 0 then
            and_then (ReadOctets 1 False) (\<lambda>cs.
              give (push_bit 8 (ucast (byte1 AND 0x3f)) + ucast (hd cs)))
          else raise Leave)"

definition GetUnboundedInteger :: "u32 reader" where
  "GetUnboundedInteger =
     and_then GetLengthDet (\<lambda>nbytes.
     and_then (read_u32 (unat nbytes)) (\<lambda>value.
       if (nbytes = 1 \<and> 0x7f \<le> value) \<or> (nbytes = 2 \<and> 0x8000 \<le> value)
          \<or> (nbytes = 3 \<and> 0x800000 \<le> value) \<or> (nbytes = 4 \<and> 0x80000000 \<le> value)
       then raise Leave else give value))"

definition GetExtendedInteger :: "u32 \<Rightarrow> u32 \<Rightarrow> u32 reader" where
  "GetExtendedInteger lower upper =
     and_then (ReadBits 1) (\<lambda>extension_bit.
       if extension_bit \<noteq> 0 then GetUnboundedInteger else GetInteger lower upper)"

definition GetNormSmallLength :: "u32 reader" where
  "GetNormSmallLength =
     and_then (ReadBits 7) (\<lambda>value. if value AND 0x40 \<noteq> 0 then raise Leave else give (ucast value + 1))"

definition GetNormSmallValue :: "u32 reader" where
  "GetNormSmallValue =
     and_then (ReadBits 7) (\<lambda>value. if value AND 0x40 \<noteq> 0 then raise Leave else give (ucast value))"

definition GetChoiceIndex :: "u32 \<Rightarrow> bool \<Rightarrow> u16 reader" where
  "GetChoiceIndex rootnum extmarker =
     and_then (if extmarker then ReadBits 1 else give 0) (\<lambda>extension.
       if extension = 0 then
         (if rootnum = 1 then give 0
          else and_then (GetInteger 0 (rootnum - 1)) (\<lambda>index. give (ucast index)))
       else and_then GetNormSmallValue (\<lambda>value. give (ucast (value + rootnum))))"

section \<open>Writing\<close>

definition PutBoolean :: "u32 \<Rightarrow> writer" where
  "PutBoolean value = WriteBits 1 (ucast value)"

definition put_raise :: "per_fault \<Rightarrow> writer" where
  "put_raise e s = Inl e"

definition PutInteger :: "u32 \<Rightarrow> u32 \<Rightarrow> u32 \<Rightarrow> writer" where
  "PutInteger lower upper value =
     (if upper < lower \<or> value < lower \<or> upper < value then put_raise Leave
      else
        let rng = upper - lower + 1;
            offset = value - lower
        in if rng = 0 \<or> 65536 < rng then
             let nbytes = (if offset < 256 then 1 else if offset < 65536 then 2
                           else if offset < 16777216 then 3 else 4)
             in and_put (WriteBits 2 (of_nat nbytes - 1)) (WriteOctets nbytes (le_octets offset) True)
           else if rng = 1 then put_nothing
           else if rng < 256 then WriteBits (field_width rng) (ucast offset)
           else if rng = 256 then WriteOctets 1 (le_octets offset) True
           else WriteOctets 2 (le_octets offset) True)"

text \<open>The two octets of the \<^verbatim>\<open>uint16\<close> go out as they lie in memory: no reordering is asked for.\<close>

definition PutLengthDet :: "u32 \<Rightarrow> writer" where
  "PutLengthDet value =
     (if value < 128 then WriteOctets 1 [ucast value] False
      else if value < 16384 then WriteOctets 2 (take 2 (le_octets (value OR 0x8000))) False
      else put_raise Leave)"

definition PutUnboundedInteger :: "u32 \<Rightarrow> writer" where
  "PutUnboundedInteger value =
     (let nbytes = (if value < 128 then 1 else if value < 32768 then 2 else if value < 8388608 then 3 else 4)
      in and_put (PutLengthDet (of_nat nbytes)) (WriteOctets nbytes (le_octets value) True))"

definition PutExtendedInteger :: "u32 \<Rightarrow> u32 \<Rightarrow> u32 \<Rightarrow> writer" where
  "PutExtendedInteger lower upper value =
     (if upper < value then and_put (WriteBits 1 1) (PutUnboundedInteger value)
      else and_put (WriteBits 1 0) (PutInteger lower upper value))"

definition PutNormSmallValue :: "u32 \<Rightarrow> writer" where
  "PutNormSmallValue value = (if value < 64 then WriteBits 7 (ucast value) else put_raise Leave)"

definition PutNormSmallLength :: "u32 \<Rightarrow> writer" where
  "PutNormSmallLength value = (if value < 65 then WriteBits 7 (ucast (value - 1)) else put_raise Leave)"

definition PutChoiceIndex :: "u32 \<Rightarrow> bool \<Rightarrow> u32 \<Rightarrow> writer" where
  "PutChoiceIndex rootnum extmarker index =
     (if \<not> extmarker then PutInteger 0 (rootnum - 1) index
      else if index < rootnum then and_put (WriteBits 1 0) (PutInteger 0 (rootnum - 1) index)
      else and_put (WriteBits 1 1) (PutNormSmallValue (index - rootnum)))"

section \<open>The contract of a pair of routines\<close>

definition room :: "out_stream \<Rightarrow> bool list \<Rightarrow> bool" where
  "room s bs \<longleftrightarrow> length (out_bits s) + length bs \<le> 8 * out_limit"

definition writes :: "writer \<Rightarrow> (nat \<Rightarrow> bool list) \<Rightarrow> bool" where
  "writes p e \<longleftrightarrow> (\<forall>s. out_ok s \<longrightarrow> room s (e (length (out_bits s))) \<longrightarrow>
     (\<exists>s'. p s = Inr s' \<and> out_ok s' \<and> out_bits s' = out_bits s @ e (length (out_bits s))))"

definition reads :: "'a reader \<Rightarrow> 'a \<Rightarrow> (nat \<Rightarrow> bool list) \<Rightarrow> bool" where
  "reads g x e \<longleftrightarrow> (\<forall>s p rest. in_ok s \<longrightarrow> p mod 8 = in_bit s \<longrightarrow> in_bits s = e p @ rest \<longrightarrow>
     (\<exists>s'. g s = Inr (x, s') \<and> in_ok s' \<and> in_bits s' = rest))"

text \<open>Encodings one after the other; \<open>p\<close> is the bit position at which the first one starts.\<close>

definition after :: "(nat \<Rightarrow> bool list) \<Rightarrow> (nat \<Rightarrow> bool list) \<Rightarrow> nat \<Rightarrow> bool list" where
  "after e1 e2 p = e1 p @ e2 (p + length (e1 p))"

definition bits :: "bool list \<Rightarrow> nat \<Rightarrow> bool list" where
  "bits bs p = bs"

definition octets :: "u8 list \<Rightarrow> nat \<Rightarrow> bool list" where
  "octets xs p = pad p @ octet_bits xs"

lemma writesD:
  assumes "writes p e" and "out_ok s" and "room s (e (length (out_bits s)))"
  obtains s' where "p s = Inr s'" "out_ok s'" "out_bits s' = out_bits s @ e (length (out_bits s))"
  using assms by (auto simp: writes_def)

lemma readsD:
  assumes "reads g x e" and "in_ok s" and "p mod 8 = in_bit s" and "in_bits s = e p @ rest"
  obtains s' where "g s = Inr (x, s')" "in_ok s'" "in_bits s' = rest"
  using assms unfolding reads_def by blast

lemma mod_add_cancel: "((a::nat) + n) mod k = (b + n) mod k \<Longrightarrow> a mod k = b mod k"
proof -
  assume "(a + n) mod k = (b + n) mod k"
  then have "int (a + n) mod int k = int (b + n) mod int k" by (metis zmod_int)
  then have "(int (a + n) - int n) mod int k = (int (b + n) - int n) mod int k"
    by (rule mod_diff_cong) simp
  then show ?thesis by (simp flip: zmod_int)
qed

lemma position_after:
  assumes "in_ok s" and "in_ok s'" and "in_bits s = e @ in_bits s'" and "p mod 8 = in_bit s"
  shows "(p + length e) mod 8 = in_bit s'"
proof -
  define n where "n = length (in_bits s')"
  have "(in_bit s + (length e + n)) mod 8 = 0" "(in_bit s' + n) mod 8 = 0"
    using in_position_dvd [OF assms(1)] in_position_dvd [OF assms(2)] assms(3) by (simp_all add: n_def)
  then have "(p + length e + n) mod 8 = (in_bit s' + n) mod 8"
    unfolding assms(4) [symmetric] add.assoc by (simp add: mod_add_left_eq)
  then have "(p + length e) mod 8 = in_bit s' mod 8" by (rule mod_add_cancel)
  then show ?thesis using assms(2) by (simp add: in_ok_def)
qed

lemma writes_and_put:
  assumes "writes p e" and "writes q f"
  shows "writes (and_put p q) (after e f)"
  unfolding writes_def
proof (intro allI impI)
  fix s
  assume s: "out_ok s" "room s (after e f (length (out_bits s)))"
  then have "room s (e (length (out_bits s)))" by (simp add: room_def after_def)
  then obtain s1 where s1: "p s = Inr s1" "out_ok s1" "out_bits s1 = out_bits s @ e (length (out_bits s))"
    using writesD [OF assms(1) s(1)] by blast
  have "room s1 (f (length (out_bits s1)))" using s(2) s1(3) by (simp add: room_def after_def add.assoc)
  then obtain s2 where "q s1 = Inr s2" "out_ok s2" "out_bits s2 = out_bits s1 @ f (length (out_bits s1))"
    using writesD [OF assms(2) s1(2)] by blast
  then show "\<exists>s'. and_put p q s = Inr s' \<and> out_ok s' \<and> out_bits s' = out_bits s @ after e f (length (out_bits s))"
    using s1 by (simp add: after_def)
qed

lemma reads_and_then:
  assumes "reads g x e" and "reads (k x) y f"
  shows "reads (and_then g k) y (after e f)"
  unfolding reads_def
proof (intro allI impI)
  fix s p rest
  assume s: "in_ok s" "p mod 8 = in_bit s" "in_bits s = after e f p @ rest"
  then obtain s1 where s1: "g s = Inr (x, s1)" "in_ok s1" "in_bits s1 = f (p + length (e p)) @ rest"
    using readsD [OF assms(1) s(1,2)] by (auto simp: after_def)
  have "(p + length (e p)) mod 8 = in_bit s1"
    by (rule position_after [OF s(1) s1(2) _ s(2)]) (simp add: s(3) s1(3) after_def)
  then obtain s2 where "k x s1 = Inr (y, s2)" "in_ok s2" "in_bits s2 = rest"
    using readsD [OF assms(2) s1(2) _ s1(3)] by blast
  then show "\<exists>s'. and_then g k s = Inr (y, s') \<and> in_ok s' \<and> in_bits s' = rest"
    using s1 by simp
qed

lemma writes_nothing: "writes put_nothing (bits [])"
  by (simp add: writes_def bits_def run_defs)

lemma reads_give: "reads (give x) x (bits [])"
  by (simp add: reads_def bits_def run_defs)

lemma after_bits [simp]: 
  "after (bits xs) (bits ys) = bits (xs @ ys)"
  "after (bits []) e = e"
  "after e (bits []) = e"
  by (simp_all add: after_def bits_def fun_eq_iff)

lemma after_assoc: "after (after e f) g = after e (after f g)"
  by (simp add: after_def fun_eq_iff add.assoc)

lemma writes_WriteBits: "n \<le> 8 \<Longrightarrow> writes (WriteBits n w) (bits (msb_bits n w))"
  using WriteBits_bits by (auto simp: writes_def bits_def room_def)

lemma reads_ReadBits:
  assumes "0 < n" and "n \<le> 8" and "take_bit n w = w"
  shows "reads (ReadBits n) w (bits (msb_bits n w))"
  unfolding reads_def
proof (intro allI impI)
  fix s p rest
  assume s: "in_ok s" "in_bits s = bits (msb_bits n w) p @ rest"
  then have "length (in_bits s) \<noteq> 0" using assms(1) by (simp add: bits_def)
  then have "in_data s \<noteq> []" by (auto simp: in_bits_def)
  then show "\<exists>s'. ReadBits n s = Inr (w, s') \<and> in_ok s' \<and> in_bits s' = rest"
    using ReadBits_bits [OF s(1) assms(2)] s(2) assms by (simp add: bits_def of_msb_bits)
qed

lemma writes_WriteOctets:
  "n \<le> length xs \<Longrightarrow> writes (WriteOctets n xs r) (octets (reordered r (take n xs)))"
  unfolding writes_def octets_def room_def
  using WriteOctets_bits [of _ n xs r] by (simp add: add.assoc) blast

lemma reads_ReadOctets:
  "reads (ReadOctets (length xs) r) (reordered r xs) (octets xs)"
  unfolding reads_def
proof (intro allI impI)
  fix s p rest
  assume s: "in_ok s" "p mod 8 = in_bit s" "in_bits s = octets xs p @ rest"
  then have "length (pad p) = (8 - in_bit s) mod 8" by simp
  then show "\<exists>s'. ReadOctets (length xs) r s = Inr (reordered r xs, s') \<and> in_ok s' \<and> in_bits s' = rest"
    using ReadOctets_bits [OF s(1), of "pad p" xs rest r] s(3) by (auto simp: octets_def)
qed

lemma reads_and_give: "reads g x e \<Longrightarrow> reads (and_then g (\<lambda>x. give (k x))) (k x) e"
  using reads_and_then [OF _ reads_give, of g x e k] by simp

lemmas reads_ReadBits_then = reads_and_then [OF reads_ReadBits]
lemmas reads_give_then = reads_and_then [OF reads_give]

text \<open>A pair of routines for the values that satisfy \<open>valid\<close>.\<close>

locale codec =
  fixes put :: "'a \<Rightarrow> writer" and get :: "'a reader" and valid :: "'a \<Rightarrow> bool"
    and enc :: "'a \<Rightarrow> nat \<Rightarrow> bool list"
  assumes writes_enc: "valid x \<Longrightarrow> writes (put x) (enc x)"
    and reads_enc: "valid x \<Longrightarrow> reads get x (enc x)"
begin

text \<open>What is written behind anything reads back from the same bit position of an octet, whatever
  follows.\<close>

lemma round_trip_at:
  assumes "valid x" and "out_ok s" and "room s (enc x (length (out_bits s)))"
  shows "\<exists>s' bs. put x s = Inr s' \<and> out_ok s' \<and> out_bits s' = out_bits s @ bs
       \<and> (\<forall>t rest. in_ok t \<longrightarrow> in_bit t = bitIndex s \<longrightarrow> in_bits t = bs @ rest \<longrightarrow>
            (\<exists>t'. get t = Inr (x, t') \<and> in_ok t' \<and> in_bits t' = rest))"
proof -
  let ?p = "length (out_bits s)"
  obtain s' where s': "put x s = Inr s'" "out_ok s'" "out_bits s' = out_bits s @ enc x ?p"
    using writesD [OF writes_enc [OF assms(1)] assms(2,3)] by blast
  have "\<exists>t'. get t = Inr (x, t') \<and> in_ok t' \<and> in_bits t' = rest"
    if "in_ok t" "in_bit t = bitIndex s" "in_bits t = enc x ?p @ rest" for t rest
    using readsD [OF reads_enc [OF assms(1)] that(1), of ?p rest] that(2,3) out_position [OF assms(2)] by auto
  with s' show ?thesis by blast
qed

end

section \<open>Constrained integers\<close>

lemma take_bit_small: "v < 2 ^ n \<Longrightarrow> take_bit n v = (v :: 'a::len word)"
  by (simp add: take_bit_eq_mask less_mask_eq)

fun low_octets :: "nat \<Rightarrow> u32 \<Rightarrow> u8 list" where
  "low_octets 0 v = []"
| "low_octets (Suc n) v = ucast v # low_octets n (drop_bit 8 v)"

lemma low_octets_le: "low_octets 4 v = le_octets v"
  by (simp add: le_octets_def eval_nat_numeral drop_bit_drop_bit)

lemma take_low_octets: "n \<le> m \<Longrightarrow> take n (low_octets m v) = low_octets n v"
proof (induction n arbitrary: m v)
  case (Suc n)
  then show ?case by (cases m) simp_all
qed simp

lemma u32_of_low: "u32_of_le (low_octets n v) = take_bit (8 * n) v"
proof (induction n arbitrary: v)
  case (Suc n)
  show ?case
    unfolding low_octets.simps u32_of_le.simps Suc
    by (rule bit_word_eqI) (auto simp: bit_take_bit_iff bit_or_iff bit_push_bit_iff bit_drop_bit_eq bit_unsigned_iff)
qed simp

lemma u32_of_le_take: "n \<le> 4 \<Longrightarrow> u32_of_le (take n (le_octets v)) = take_bit (8 * n) v"
  by (simp add: take_low_octets u32_of_low flip: low_octets_le)

text \<open>The octets in which the offset of a large range is sent.\<close>

definition offset_octets :: "u32 \<Rightarrow> nat" where
  "offset_octets v = (if v < 256 then 1 else if v < 65536 then 2 else if v < 16777216 then 3 else 4)"

definition sent_octets :: "nat \<Rightarrow> u32 \<Rightarrow> nat \<Rightarrow> bool list" where
  "sent_octets n v = octets (rev (take n (le_octets v)))"

definition enc_integer :: "u32 \<Rightarrow> u32 \<Rightarrow> u32 \<Rightarrow> nat \<Rightarrow> bool list" where
  "enc_integer lower upper value =
     (let rng = upper - lower + 1; offset = value - lower
      in if rng = 0 \<or> 65536 < rng then
           after (bits (msb_bits 2 (of_nat (offset_octets offset) - 1 :: u8))) (sent_octets (offset_octets offset) offset)
         else if rng = 1 then bits []
         else if rng < 256 then bits (msb_bits (field_width rng) (ucast offset :: u8))
         else sent_octets (if rng = 256 then 1 else 2) offset)"

lemma writes_octets_u32:
  "n \<le> 4 \<Longrightarrow> writes (WriteOctets n (le_octets v) True) (sent_octets n v)"
  using writes_WriteOctets [of n "le_octets v" True]
  by (simp add: le_octets_def sent_octets_def reordered_def)

lemma reads_u32:
  assumes "n \<le> 4" and "take_bit (8 * n) v = v"
  shows "reads (read_u32 n) v (sent_octets n v)"
proof -
  have len: "length (take n (le_octets v)) = n" using assms(1) by (simp add: le_octets_def)
  have "reads (ReadOctets n True) (take n (le_octets v)) (sent_octets n v)"
    using reads_ReadOctets [of "rev (take n (le_octets v))" True] assms(1) len
    by (simp add: sent_octets_def reordered_def)
  then have "reads (read_u32 n) v (after (sent_octets n v) (bits []))"
    unfolding read_u32_def
    by (rule reads_and_then)
       (use len assms u32_of_le_take [OF assms(1)] reads_give [of v] in simp)
  then show ?thesis by simp
qed

lemmas reads_u32_then = reads_and_then [OF reads_u32]

text \<open>Where a value lies in its range.\<close>

lemma range_facts:
  assumes "lower \<le> value" and "value \<le> upper" and "rng = upper - lower + (1::u32)" and "offset = value - lower"
  shows "lower + offset = value" and "rng \<noteq> 0 \<Longrightarrow> offset < rng"
proof -
  show "lower + offset = value" using assms(4) by simp
  have le: "unat offset \<le> unat (upper - lower)"
    using assms by (simp add: unat_sub word_le_nat_alt)
  assume "rng \<noteq> 0"
  then have "unat rng = Suc (unat (upper - lower))"
    using unatSuc [of "upper - lower"] assms(3) by (simp add: add.commute)
  with le show "offset < rng" by (simp add: word_less_nat_alt)
qed

lemma field_width_bounds: "0 < field_width r" "field_width r \<le> 8"
  by (simp_all add: field_width_def)

lemma field_width_fits: "offset < r \<Longrightarrow> r < 256 \<Longrightarrow> offset < 2 ^ field_width r"
  by (auto simp: field_width_def elim: order.strict_trans2)

lemma offset_octets_fits: "take_bit (8 * offset_octets v) v = v"
  by (auto simp: offset_octets_def take_bit_small take_bit_word_eq_self)

lemma offset_octets_bounds: "1 \<le> offset_octets v" "offset_octets v \<le> 4"
  by (simp_all add: offset_octets_def)

lemma offset_octets_field:
  "unat ((of_nat (offset_octets v) - 1 :: u8) + 1) = offset_octets v"
  "take_bit 2 (of_nat (offset_octets v) - 1 :: u8) = of_nat (offset_octets v) - 1"
  by (auto simp: offset_octets_def)

lemma writes_integer:
  assumes "lower \<le> value" and "value \<le> upper"
  shows "writes (PutInteger lower upper value) (enc_integer lower upper value)"
proof -
  define rng where "rng = upper - lower + 1"
  define offset where "offset = value - lower"
  have valid: "\<not> upper < lower" "\<not> value < lower" "\<not> upper < value" using assms by auto
  show ?thesis
    unfolding PutInteger_def enc_integer_def rng_def [symmetric] offset_def [symmetric] Let_def
      offset_octets_def [symmetric]
    using valid offset_octets_bounds field_width_bounds
    by (simp add: writes_and_put writes_WriteBits writes_octets_u32 writes_nothing)
qed

lemma reads_integer:
  assumes "lower \<le> value" and "value \<le> upper"
  shows "reads (GetInteger lower upper) value (enc_integer lower upper value)"
proof -
  define rng where "rng = upper - lower + 1"
  define offset where "offset = value - lower"
  have valid: "\<not> upper < lower" "\<not> upper < value" using assms by auto
  have total: "lower + offset = value" and less: "rng \<noteq> 0 \<Longrightarrow> offset < rng"
    using range_facts [OF assms rng_def offset_def] by auto
  let ?in_range = "\<lambda>v. if upper < lower + v then raise Leave else give (lower + v)"
  have order: "rng < 256 \<Longrightarrow> (65536 < rng) = False" "65536 < rng \<Longrightarrow> 256 < rng"
    "256 < rng \<Longrightarrow> (rng < 256) = False \<and> rng \<noteq> 256 \<and> rng \<noteq> 1 \<and> rng \<noteq> 0"
    "rng \<le> 65536 \<Longrightarrow> (65536 < rng) = False" "65536 < rng \<Longrightarrow> (rng \<le> 65536) = False"
    by (auto simp: word_less_nat_alt word_le_nat_alt)
  consider "rng = 0" | "rng = 1" | "rng \<noteq> 0" "rng \<noteq> 1" "rng < 256" | "rng = 256"
    | "256 < rng" "rng \<le> 65536" | "65536 < rng" by force
  then show ?thesis
  proof cases
    case 1
    have "upper = rng + lower - 1" by (simp add: rng_def)
    then have "upper = lower - 1" using 1 by simp
    then have "lower = 0" using valid measure_unat [of lower] by (auto simp: word_less_nat_alt)
    have "reads (read_u32 (unat ((of_nat (offset_octets offset) - 1 :: u8) + 1))) offset
        (sent_octets (offset_octets offset) offset)"
      unfolding offset_octets_field using offset_octets_bounds offset_octets_fits by (intro reads_u32)
    then show ?thesis
      unfolding GetInteger_def enc_integer_def rng_def [symmetric] offset_def [symmetric] Let_def
      using 1 valid total \<open>lower = 0\<close>
      by (auto intro!: reads_ReadBits_then simp: offset_octets_field)
  next
    case 2
    then have "unat offset = 0" using less by (simp add: word_less_nat_alt)
    then have "value = lower" using total by (simp add: unsigned_eq_0_iff)
    then show ?thesis
      unfolding GetInteger_def enc_integer_def rng_def [symmetric] offset_def [symmetric] Let_def
      using 2 valid reads_give by simp
  next
    case 3
    have fits: "offset < 2 ^ field_width rng" "offset < 256"
      using 3 less field_width_fits by auto
    have w: "(ucast (ucast offset :: u8) :: u32) = offset"
      using take_bit_small [of offset 8] fits(2) by (simp add: unsigned_ucast_eq)
    have "take_bit (field_width rng) (ucast offset :: u8) = ucast offset"
      using take_bit_small [OF fits(1)] by (metis unsigned_take_bit_eq)
    then have "reads (and_then (ReadBits (field_width rng)) (\<lambda>v. ?in_range (ucast v))) value
        (after (bits (msb_bits (field_width rng) (ucast offset :: u8))) (bits []))"
      by (intro reads_ReadBits_then) (use field_width_bounds valid total reads_give w in simp_all)
    then show ?thesis
      unfolding GetInteger_def enc_integer_def rng_def [symmetric] offset_def [symmetric] Let_def
      using 3 valid by (simp add: order(1) [OF 3(3)])
  next
    case 4
    then have "take_bit (8 * 1) offset = offset" using less take_bit_small [of offset 8] by simp
    then have "reads (and_then (give 1) (\<lambda>n. and_then (read_u32 n) ?in_range)) value
        (after (bits []) (after (sent_octets 1 offset) (bits [])))"
      by (intro reads_give_then reads_u32_then) (use valid total reads_give in simp_all)
    then show ?thesis
      unfolding GetInteger_def enc_integer_def rng_def [symmetric] offset_def [symmetric] Let_def
      using 4 valid by simp
  next
    case 5
    then have "offset < 65536" using less order(3) [OF 5(1)] order.strict_trans2 by blast
    then have "take_bit (8 * 2) offset = offset" using take_bit_small [of offset 16] by simp
    then have "reads (and_then (give 2) (\<lambda>n. and_then (read_u32 n) ?in_range)) value
        (after (bits []) (after (sent_octets 2 offset) (bits [])))"
      by (intro reads_give_then reads_u32_then) (use valid total reads_give in simp_all)
    then show ?thesis
      unfolding GetInteger_def enc_integer_def rng_def [symmetric] offset_def [symmetric] Let_def
      using 5 valid by (simp add: order(3) [OF 5(1)] order(4) [OF 5(2)])
  next
    case 6
    let ?n = "of_nat (offset_octets offset) - 1 :: u8"
    have count: "reads (and_then (ReadBits 2) (\<lambda>n. give (unat (n + 1)))) (offset_octets offset)
        (after (bits (msb_bits 2 ?n)) (bits []))"
      by (rule reads_ReadBits_then) (use reads_give [of "offset_octets offset"] offset_octets_field in simp_all)
    have "reads (and_then (and_then (ReadBits 2) (\<lambda>n. give (unat (n + 1))))
          (\<lambda>n. and_then (read_u32 n) ?in_range)) value
        (after (after (bits (msb_bits 2 ?n)) (bits []))
          (after (sent_octets (offset_octets offset) offset) (bits [])))"
      by (rule reads_and_then [OF count], rule reads_u32_then)
         (use valid total reads_give offset_octets_bounds offset_octets_fits in simp_all)
    then show ?thesis
      unfolding GetInteger_def enc_integer_def rng_def [symmetric] offset_def [symmetric] Let_def
      using 6 valid by (simp add: order(3) [OF order(2) [OF 6]] order(5) [OF 6])
  qed
qed

interpretation integer: codec "PutInteger l u" "GetInteger l u" "\<lambda>v. l \<le> v \<and> v \<le> u" "enc_integer l u"
  by standard (simp_all add: writes_integer reads_integer)

lemmas reads_integer_then = reads_and_then [OF reads_integer]

section \<open>Flags, choices and lengths\<close>

lemma writes_boolean: "writes (PutBoolean (of_bool b)) (bits [b])"
  using writes_WriteBits [of 1 "of_bool b"] by (cases b) (simp_all add: PutBoolean_def msb_bits_def)

lemma reads_boolean: "reads GetBoolean (of_bool b) (bits [b])"
  using reads_ReadBits [of 1 "of_bool b"] by (cases b) (simp_all add: GetBoolean_def msb_bits_def)

interpretation boolean: codec "\<lambda>b. PutBoolean (of_bool b)" "and_then GetBoolean (\<lambda>v. give (v \<noteq> 0))" "\<lambda>_. True"
    "\<lambda>b. bits [b]"
proof
  fix b
  have "reads (and_then GetBoolean (\<lambda>v. give (v \<noteq> 0))) b (after (bits [b]) (bits []))"
    by (rule reads_and_then [OF reads_boolean]) (use reads_give [of b] in \<open>cases b; simp\<close>)
  then show "reads (and_then GetBoolean (\<lambda>v. give (v \<noteq> 0))) b (bits [b])" by simp
qed (rule writes_boolean)

lemmas reads_boolean_then = reads_and_then [OF reads_boolean]

lemma and_then_give [simp]: "and_then (give x) f = f x"
  by (simp add: fun_eq_iff and_then_def give_def)

lemma le_pred_word: "a < r \<Longrightarrow> a \<le> r - (1 :: 'a::len word)"
proof -
  assume less: "a < r"
  then have "r \<noteq> 0" by auto
  then have "unat (r - 1) = unat r - 1" by (rule unat_minus_one)
  then show ?thesis using less by (simp add: word_less_nat_alt word_le_nat_alt)
qed

text \<open>A normally small number takes seven bits.\<close>

lemma small_value:
  assumes "v < (64 :: u32)"
  shows "take_bit 7 (ucast v :: u8) = ucast v" "(ucast v :: u8) AND 0x40 = 0" "(ucast (ucast v :: u8) :: u32) = v"
proof -
  have v: "take_bit 6 v = v" using assms by (simp add: take_bit_small)
  have bit: "bit v i \<Longrightarrow> i < 6" for i by (metis v bit_take_bit_iff)
  show "take_bit 7 (ucast v :: u8) = ucast v"
    by (rule bit_word_eqI) (auto simp: bit_simps dest: bit)
  have "(ucast v :: u8) = ucast v AND mask 6"
    by (rule bit_word_eqI) (auto simp: bit_simps dest: bit)
  then have "(ucast v :: u8) AND 0x40 = ucast v AND (mask 6 AND 0x40)" by (metis and.assoc)
  also have "(mask 6 AND 0x40 :: u8) = 0" by (simp add: mask_eq_exp_minus_1)
  finally show "(ucast v :: u8) AND 0x40 = 0" by simp
  show "(ucast (ucast v :: u8) :: u32) = v"
    by (rule bit_word_eqI) (auto simp: bit_simps dest: bit)
qed

interpretation small_value: codec PutNormSmallValue GetNormSmallValue "\<lambda>v. v < 64"
    "\<lambda>v. bits (msb_bits 7 (ucast v :: u8))"
proof
  fix v :: u32
  assume v: "v < 64"
  then show "writes (PutNormSmallValue v) (bits (msb_bits 7 (ucast v :: u8)))"
    by (simp add: PutNormSmallValue_def writes_WriteBits)
  have "reads GetNormSmallValue v (after (bits (msb_bits 7 (ucast v :: u8))) (bits []))"
    unfolding GetNormSmallValue_def
    by (rule reads_ReadBits_then) (use small_value [OF v] reads_give [of v] in simp_all)
  then show "reads GetNormSmallValue v (bits (msb_bits 7 (ucast v :: u8)))" by simp
qed

interpretation small_length: codec PutNormSmallLength GetNormSmallLength "\<lambda>v. 0 < v \<and> v \<le> 64"
    "\<lambda>v. bits (msb_bits 7 (ucast (v - 1) :: u8))"
proof
  fix v :: u32
  assume v: "0 < v \<and> v \<le> 64"
  then have "v < 65" by (simp add: word_less_nat_alt word_le_nat_alt)
  then show "writes (PutNormSmallLength v) (bits (msb_bits 7 (ucast (v - 1) :: u8)))"
    by (simp add: PutNormSmallLength_def writes_WriteBits)
  have v1: "v - 1 < 64"
    using v unat_minus_one [of v] by (cases "v = 0") (auto simp: word_less_nat_alt word_le_nat_alt)
  have "reads GetNormSmallLength v (after (bits (msb_bits 7 (ucast (v - 1) :: u8))) (bits []))"
    unfolding GetNormSmallLength_def
    by (rule reads_ReadBits_then) (use small_value [OF v1] reads_give [of v] in simp_all)
  then show "reads GetNormSmallLength v (bits (msb_bits 7 (ucast (v - 1) :: u8)))" by simp
qed

definition enc_choice :: "u32 \<Rightarrow> bool \<Rightarrow> u32 \<Rightarrow> nat \<Rightarrow> bool list" where
  "enc_choice rootnum extmarker index =
     after (bits (if extmarker then [\<not> index < rootnum] else []))
       (if index < rootnum then enc_integer 0 (rootnum - 1) index
        else bits (msb_bits 7 (ucast (index - rootnum) :: u8)))"

definition choice_ok :: "u32 \<Rightarrow> bool \<Rightarrow> u16 \<Rightarrow> bool" where
  "choice_ok rootnum extmarker index \<longleftrightarrow>
     0 < rootnum \<and> (if ucast index < rootnum then True else extmarker \<and> ucast index - rootnum < 64)"

interpretation choice: codec "\<lambda>i. PutChoiceIndex r e (ucast i)" "GetChoiceIndex r e" "choice_ok r e"
    "\<lambda>i. enc_choice r e (ucast i)"
proof
  fix i :: u16
  assume ok: "choice_ok r e i"
  have le: "(ucast i :: u32) \<le> r - 1" if "ucast i < r"
    using that by (rule le_pred_word)
  show "writes (PutChoiceIndex r e (ucast i)) (enc_choice r e (ucast i))"
  proof (cases "ucast i < r")
    case True
    with le have "writes (PutInteger 0 (r - 1) (ucast i)) (enc_integer 0 (r - 1) (ucast i))"
      by (intro writes_integer) simp_all
    then show ?thesis
      using True writes_and_put [OF writes_WriteBits [of 1 0]]
      by (simp add: PutChoiceIndex_def enc_choice_def msb_bits_def)
  next
    case False
    then show ?thesis
      using ok writes_and_put [OF writes_WriteBits [of 1 1] small_value.writes_enc, of "ucast i - r"]
      by (simp add: PutChoiceIndex_def enc_choice_def choice_ok_def msb_bits_def)
  qed
  have number: "reads (if r = 1 then give 0 else and_then (GetInteger 0 (r - 1)) (\<lambda>index. give (ucast index))) i
      (enc_integer 0 (r - 1) (ucast i))" if less: "ucast i < r"
  proof (cases "r = 1")
    case True
    then have "i = 0" using less ucast_u16_u32_inject [of i 0] by (simp add: word_less_nat_alt unsigned_eq_0_iff)
    then show ?thesis using True reads_give by (simp add: enc_integer_def)
  next
    case False
    have "reads (and_then (GetInteger 0 (r - 1)) (\<lambda>index. give (ucast index))) i
        (after (enc_integer 0 (r - 1) (ucast i)) (bits []))"
      by (rule reads_integer_then) (use le less reads_give [of i] in simp_all)
    then show ?thesis using False by simp
  qed
  show "reads (GetChoiceIndex r e) i (enc_choice r e (ucast i))"
  proof (cases "ucast i < r")
    case True
    show ?thesis
    proof (cases e)
      case e: True
      have "reads (GetChoiceIndex r e) i (after (bits (msb_bits 1 (0::u8))) (enc_integer 0 (r - 1) (ucast i)))"
        unfolding GetChoiceIndex_def using e
        by (simp only: if_True) (rule reads_ReadBits_then; use number [OF True] in simp)
      then show ?thesis using True e by (simp add: enc_choice_def msb_bits_def)
    next
      case e: False
      then show ?thesis
        using True number [OF True] by (simp add: GetChoiceIndex_def enc_choice_def)
    qed
  next
    case False
    then have e: e and small: "ucast i - r < 64" using ok by (auto simp: choice_ok_def)
    let ?add = "\<lambda>value. give (ucast (value + r) :: u16)"
    have "reads (and_then GetNormSmallValue ?add) i
        (after (bits (msb_bits 7 (ucast (ucast i - r :: u32) :: u8))) (bits []))"
      by (rule reads_and_then [OF small_value.reads_enc [OF small]]) (use reads_give [of i] in simp)
    then have "reads (GetChoiceIndex r e) i (after (bits (msb_bits 1 (1::u8)))
        (bits (msb_bits 7 (ucast (ucast i - r :: u32) :: u8))))"
      unfolding GetChoiceIndex_def using e
      by (simp only: if_True) (rule reads_ReadBits_then; simp)
    then show ?thesis using False e by (simp add: enc_choice_def msb_bits_def)
  qed
qed

end
