(* ===== verification/PerExtension.thy ===== *)
theory PerExtension
  imports PerInteger
begin

text \<open>
  Lengths and extensions of \<^verbatim>\<open>genericper.cpp\<close>: the general length determinant, unbounded integers,
  extension items that are sent through a temporary stream, and the skipping of the extensions
  that a decoder does not know.
\<close>

section \<open>Lengths of octets\<close>

lemma pad_position: "(p + length (pad p)) mod 8 = 0"
proof (cases "p mod 8 = 0")
  case False
  then have "length (pad p) = 8 - p mod 8" by simp
  moreover have "p = 8 * (p div 8) + p mod 8" by simp
  ultimately have "p + length (pad p) = 8 * (p div 8) + 8"
    using mod_less_divisor [of 8 p] by linarith
  then show ?thesis by simp
qed simp

lemma pad_aligned: "a mod 8 = 0 \<Longrightarrow> pad (a + n) = pad n"
proof -
  assume "a mod 8 = 0"
  then obtain q where "a = 8 * q" by (metis mod_0_imp_dvd dvdE)
  then have "(a + n) mod 8 = n mod 8" by (simp add: mod_mult_self4)
  then show ?thesis by (simp add: pad_def)
qed

lemma padded_length: "p + length (pad p) = 8 * ((p + 7) div 8)"
proof (cases "p mod 8 = 0")
  case True
  then obtain q where "p = 8 * q" by (metis mod_0_imp_dvd dvdE)
  then show ?thesis by simp
next
  case False
  define q r where "q = p div 8" and "r = p mod 8"
  have p: "p = 8 * q + r" and r: "0 < r" "r < 8" using False by (simp_all add: q_def r_def)
  have "(p + 7) div 8 = q + 1" using p r by linarith
  moreover have "length (pad p) = 8 - r" using False r by (simp add: r_def)
  ultimately show ?thesis using p r by simp
qed

lemma pad_octets [simp]: "pad (p + (length (pad p) + 8 * n)) = []"
  using pad_position [of p] by (simp add: add.assoc [symmetric] del: length_pad)

lemma pad_octet [simp]: "pad (p + (length (pad p) + 8)) = []"
  using pad_octets [of p 1] by (simp del: length_pad pad_octets)

lemma reads_one_octet: "reads (ReadOctets 1 r) [x] (octets [x])"
  using reads_ReadOctets [of "[x]" r] by simp

lemma low7: "v < 128 \<Longrightarrow> (ucast v :: u8) AND 0x80 = 0 \<and> (ucast (ucast v :: u8) :: u32) = v" for v :: u32
proof -
  assume "v < 128"
  then have "take_bit 7 v = v" by (simp add: take_bit_small)
  then have bit: "bit v i \<Longrightarrow> i < 7" for i by (metis bit_take_bit_iff)
  have "(ucast v :: u8) = ucast v AND mask 7"
    by (rule bit_word_eqI) (auto simp: bit_simps dest: bit)
  then have "(ucast v :: u8) AND 0x80 = ucast v AND (mask 7 AND 0x80)" by (metis and.assoc)
  also have "(mask 7 AND 0x80 :: u8) = 0" by (simp add: mask_eq_exp_minus_1)
  finally have "(ucast v :: u8) AND 0x80 = 0" by simp
  moreover have "(ucast (ucast v :: u8) :: u32) = v"
    by (rule bit_word_eqI) (auto simp: bit_simps dest: bit)
  ultimately show ?thesis by simp
qed

text \<open>What \<^verbatim>\<open>PutLengthDet\<close> sends, and what the standard (X.691, 10.9) says.\<close>

definition enc_length :: "u32 \<Rightarrow> nat \<Rightarrow> bool list" where
  "enc_length v = (if v < 128 then octets [ucast v] else octets [ucast v, ucast (drop_bit 8 v) OR 0x80])"

definition std_length :: "u32 \<Rightarrow> nat \<Rightarrow> bool list" where
  "std_length v = (if v < 128 then octets [ucast v] else octets [ucast (drop_bit 8 v) OR 0x80, ucast v])"

lemma writes_length: "v < 16384 \<Longrightarrow> writes (PutLengthDet v) (enc_length v)"
proof -
  assume v: "v < 16384"
  have "take 2 (le_octets (v OR 0x8000)) = [ucast v, ucast (drop_bit 8 v) OR 0x80]"
  proof -
    have "(ucast (v OR 0x8000) :: u8) = ucast v"
    proof -
      have "(ucast (0x8000 :: u32) :: u8) = 0" by simp
      then show ?thesis by (simp only: unsigned_or_eq or.right_neutral)
    qed
    moreover have "(ucast (drop_bit 8 (v OR 0x8000)) :: u8) = ucast (drop_bit 8 v) OR 0x80"
      by (simp add: unsigned_or_eq)
    ultimately show ?thesis by (simp add: le_octets_def numeral_2_eq_2)
  qed
  then show ?thesis
    using v writes_WriteOctets [of 1 "[ucast v]" False]
      writes_WriteOctets [of 2 "[ucast v, ucast (drop_bit 8 v) OR 0x80]" False]
    by (simp add: PutLengthDet_def enc_length_def)
qed

text \<open>The two octets of a length from 128 on, highest first.\<close>

lemma high_octet:
  fixes h :: u8
  assumes "h AND mask 6 = h"
  shows "(h OR 0x80) AND 0x80 = 0x80" "(h OR 0x80) AND 0x40 = 0" "(h OR 0x80) AND 0x3f = h"
proof -
  show "(h OR 0x80) AND 0x80 = 0x80" by (simp add: and.commute)
  have "h AND c = h AND (mask 6 AND c)" for c by (metis assms and.assoc)
  from this [of "0x40"] show "(h OR 0x80) AND 0x40 = 0"
    by (simp add: bit.conj_disj_distrib2 mask_eq_exp_minus_1)
  show "(h OR 0x80) AND 0x3f = h"
    using assms by (simp add: bit.conj_disj_distrib2 mask_eq_exp_minus_1)
qed

lemma high_low: "push_bit 8 (ucast (ucast (drop_bit 8 v) :: u8)) + ucast (ucast v :: u8) = (v :: u32)"
  if "v < 16384"
proof -
  have "take_bit 14 v = v" using that by (simp add: take_bit_small)
  then have bit: "bit v i \<Longrightarrow> i < 14" for i by (metis bit_take_bit_iff)
  have "push_bit 8 (ucast (ucast (drop_bit 8 v) :: u8)) AND (ucast (ucast v :: u8) :: u32) = 0"
    by (rule bit_word_eqI) (auto simp: bit_simps)
  then have "push_bit 8 (ucast (ucast (drop_bit 8 v) :: u8)) + (ucast (ucast v :: u8) :: u32)
      = push_bit 8 (ucast (ucast (drop_bit 8 v) :: u8)) OR ucast (ucast v :: u8)"
    by (metis add_0 word_plus_and_or)
  also have "\<dots> = v" by (rule bit_word_eqI) (auto simp: bit_simps dest: bit)
  finally show ?thesis .
qed

lemma reads_length:
  assumes "v < 16384"
  shows "reads GetLengthDet v (std_length v)"
proof (cases "v < 128")
  case True
  have "reads GetLengthDet v (after (octets [ucast v]) (bits []))"
    unfolding GetLengthDet_def
    by (rule reads_and_then [OF reads_one_octet]) (use low7 [OF True] reads_give [of v] in simp)
  then show ?thesis using True by (simp add: std_length_def)
next
  case False
  have "take_bit 14 v = v" using assms by (simp add: take_bit_small)
  then have bit: "bit v i \<Longrightarrow> i < 14" for i by (metis bit_take_bit_iff)
  have h: "(ucast (drop_bit 8 v) :: u8) AND mask 6 = ucast (drop_bit 8 v)"
    by (rule bit_word_eqI) (auto simp: bit_simps dest: bit)
  have second: "reads (and_then (ReadOctets 1 False)
      (\<lambda>cs. give (push_bit 8 (ucast (ucast (drop_bit 8 v) :: u8)) + ucast (hd cs)))) v
    (after (octets [ucast v]) (bits []))"
    by (rule reads_and_then [OF reads_one_octet]) (use high_low [OF assms] reads_give [of v] in simp)
  have "reads GetLengthDet v (after (octets [ucast (drop_bit 8 v) OR 0x80]) (octets [ucast v]))"
    unfolding GetLengthDet_def
    by (rule reads_and_then [OF reads_one_octet]) (use second high_octet [OF h] in simp)
  moreover have "after (octets [ucast (drop_bit 8 v) OR 0x80]) (octets [ucast v]) = std_length v"
    using False by (simp add: std_length_def after_def octets_def fun_eq_iff del: length_pad)
  ultimately show ?thesis by simp
qed

lemma enc_length_short: "v < 128 \<Longrightarrow> enc_length v = std_length v"
  by (simp add: enc_length_def std_length_def)

interpretation short_length: codec PutLengthDet GetLengthDet "\<lambda>v. v < 128" enc_length
proof
  fix v :: u32
  assume v: "v < 128"
  then have "v < 16384" by (simp add: word_less_nat_alt)
  show "writes (PutLengthDet v) (enc_length v)" by (rule writes_length) fact
  show "reads GetLengthDet v (enc_length v)"
    unfolding enc_length_short [OF v] by (rule reads_length) fact
qed

lemmas reads_length_then = reads_and_then [OF reads_length]

section \<open>Skipping what is not known\<close>

record sig_map = \<comment> \<open>\<^verbatim>\<open>S_UnknownSigMap\<close>\<close>
  map_size :: u16
  optionFlags :: "u8 list"
  extensionsRead :: u16

fun read_times :: "nat \<Rightarrow> 'a reader \<Rightarrow> 'a list reader" where
  "read_times 0 g = give []"
| "read_times (Suc n) g = and_then g (\<lambda>x. and_then (read_times n g) (\<lambda>xs. give (x # xs)))"

text \<open>The octets of \<^verbatim>\<open>SkipOneExtension\<close> are read in pieces of 32.\<close>

function skip_octets :: "nat \<Rightarrow> unit reader" where
  "skip_octets n =
     (if 32 < n then and_then (ReadOctets 32 False) (\<lambda>_. skip_octets (n - 32))
      else and_then (ReadOctets n False) (\<lambda>_. give ()))"
  by pat_completeness auto
termination by (relation "measure id") auto

declare skip_octets.simps [simp del]

definition SkipOneExtension :: "unit reader" where
  "SkipOneExtension = and_then GetLengthDet (\<lambda>n. skip_octets (unat (ucast n :: u16)))"

definition GetUnknownSigMap :: "sig_map reader" where
  "GetUnknownSigMap =
     and_then GetNormSmallLength (\<lambda>size.
     and_then (read_times (unat (ucast size :: u16)) (ReadBits 1)) (\<lambda>flags.
       give \<lparr> map_size = ucast size, optionFlags = flags, extensionsRead = 0 \<rparr>))"

definition SigMapValue :: "nat \<Rightarrow> sig_map \<Rightarrow> u8" where
  "SigMapValue i m = (if i < unat (map_size m) then optionFlags m ! i else 0)"

definition ExtensionPrep :: "sig_map \<Rightarrow> sig_map reader" where
  "ExtensionPrep m = and_then GetLengthDet (\<lambda>_. give (m\<lparr>extensionsRead := extensionsRead m + 1\<rparr>))"

fun skip_extensions :: "nat \<Rightarrow> unit reader" where
  "skip_extensions 0 = give ()"
| "skip_extensions (Suc n) = and_then SkipOneExtension (\<lambda>_. skip_extensions n)"

definition SkipUnreadExtensions :: "sig_map \<Rightarrow> u32 reader" where
  "SkipUnreadExtensions m =
     (let numExtensions = sum_list (map ucast (optionFlags m)) - ucast (extensionsRead m)
      in and_then (skip_extensions (unat numExtensions)) (\<lambda>_. give numExtensions))"

text \<open>The lines that every \<^verbatim>\<open>Decode_\<close> function of a type with no known extension ends with.\<close>

definition skip_unknown :: "u8 \<Rightarrow> unit reader" where
  "skip_unknown extension =
     (if extension \<noteq> 0 then
        and_then GetUnknownSigMap (\<lambda>m. and_then (SkipUnreadExtensions m) (\<lambda>_. give ()))
      else give ())"

section \<open>Sending an extension\<close>

definition PutTempStream :: "out_stream \<Rightarrow> writer" where
  "PutTempStream tempStream stream =
     bind_res (WriteRemainingBits tempStream) (\<lambda>t.
       and_put (PutLengthDet (ucast (byteIndex t))) (WriteOctets (unat (byteIndex t)) (out_data t) False) stream)"

definition PutExtensionItem :: "writer \<Rightarrow> writer" where
  "PutExtensionItem f stream =
     bind_res (f NewOutStream) (\<lambda>tempStream. PutTempStream tempStream stream)"

definition PutExtensionInteger :: "u32 \<Rightarrow> u32 \<Rightarrow> u32 \<Rightarrow> writer" where
  "PutExtensionInteger lower upper value = PutExtensionItem (PutInteger lower upper value)"

definition PutExtensionBoolean :: "u32 \<Rightarrow> writer" where
  "PutExtensionBoolean value =
     and_put (PutLengthDet 1) (and_put (PutBoolean value) WriteRemainingBits)"

definition PutExtensionNull :: writer where
  "PutExtensionNull = and_put (PutLengthDet 1) (WriteOctets 1 [0] False)"

definition SkipOneOctet :: "unit reader" where
  "SkipOneOctet = and_then (ReadOctets 1 False) (\<lambda>_. give ())"

section \<open>A decoder skips what it does not know\<close>

lemma after_octets [simp]: "after (octets xs) (octets ys) = octets (xs @ ys)"
  by (simp add: after_def octets_def fun_eq_iff del: length_pad)

lemma reads_skip_octets: "reads (skip_octets (length xs)) () (octets xs)"
proof (induction xs rule: length_induct)
  case (1 xs)
  show ?case
  proof (cases "32 < length xs")
    case True
    have "length (drop 32 xs) < length xs" using True by simp
    then have "reads (skip_octets (length (drop 32 xs))) () (octets (drop 32 xs))"
      using 1 by blast
    then have "reads (and_then (ReadOctets (length (take 32 xs)) False) (\<lambda>_. skip_octets (length xs - 32))) ()
        (after (octets (take 32 xs)) (octets (drop 32 xs)))"
      by (intro reads_and_then [OF reads_ReadOctets]) simp
    then show ?thesis using True by (subst skip_octets.simps) (simp add: min_absorb2)
  next
    case False
    have "reads (and_then (ReadOctets (length xs) False) (\<lambda>_. give ())) () (after (octets xs) (bits []))"
      by (rule reads_and_then [OF reads_ReadOctets]) (rule reads_give)
    then show ?thesis using False by (subst skip_octets.simps) simp
  qed
qed

definition enc_item :: "u8 list \<Rightarrow> nat \<Rightarrow> bool list" where
  "enc_item xs = after (std_length (of_nat (length xs))) (octets xs)"

lemma small_length_word: "n < 16384 \<Longrightarrow> (of_nat n :: u32) < 16384 \<and> unat (ucast (of_nat n :: u32) :: u16) = n"
  by (simp add: word_less_nat_alt unsigned_of_nat take_bit_nat_eq_self unsigned_ucast_eq)

lemma reads_SkipOneExtension:
  assumes "length xs < 16384"
  shows "reads SkipOneExtension () (enc_item xs)"
  unfolding SkipOneExtension_def enc_item_def
  by (rule reads_length_then) (use small_length_word [OF assms] reads_skip_octets [of xs] in simp_all)

definition enc_items :: "u8 list list \<Rightarrow> nat \<Rightarrow> bool list" where
  "enc_items items = foldr after (map enc_item items) (bits [])"

lemma reads_skip_extensions:
  "\<forall>xs \<in> set items. length xs < 16384 \<Longrightarrow> reads (skip_extensions (length items)) () (enc_items items)"
proof (induction items)
  case (Cons xs items)
  then show ?case
    unfolding enc_items_def list.map foldr.simps comp_apply list.size
    by (auto intro!: reads_and_then reads_SkipOneExtension)
qed (simp add: enc_items_def reads_give)

lemma reads_flags: "reads (read_times (length flags) (ReadBits 1)) (map of_bool flags) (bits flags)"
proof (induction flags)
  case (Cons b flags)
  have "reads (read_times (length (b # flags)) (ReadBits 1)) (map of_bool (b # flags))
      (after (bits [b]) (after (bits flags) (bits [])))"
    unfolding length_Cons read_times.simps
    by (rule reads_boolean_then [unfolded GetBoolean_def], rule reads_and_then [OF Cons])
       (simp add: reads_give)
  then show ?case by simp
qed (simp only: list.size list.map read_times.simps reads_give)

definition enc_unknown :: "bool list \<Rightarrow> u8 list list \<Rightarrow> nat \<Rightarrow> bool list" where
  "enc_unknown flags items =
     after (bits (msb_bits 7 (ucast (of_nat (length flags) - 1 :: u32) :: u8))) (after (bits flags) (enc_items items))"

text \<open>The extension part of a later version of a type: at most 64 flags, and an item for each set flag.\<close>

definition unknown_ok :: "bool list \<Rightarrow> u8 list list \<Rightarrow> bool" where
  "unknown_ok flags items \<longleftrightarrow> 0 < length flags \<and> length flags \<le> 64
     \<and> length items = count_list flags True \<and> (\<forall>xs \<in> set items. length xs < 16384)"

lemma sum_flags: "sum_list (map ucast (map of_bool flags :: u8 list)) = (of_nat (count_list flags True) :: u32)"
  by (induction flags) auto

lemma reads_skip_unknown:
  assumes "unknown_ok flags items"
  shows "reads (skip_unknown 1) () (enc_unknown flags items)"
proof -
  define n where "n = length flags"
  have n: "0 < n" "n \<le> 64" "count_list flags True \<le> n" "length items = count_list flags True"
    using assms count_le_length [of flags True] by (simp_all add: unknown_ok_def n_def)
  have w: "0 < (of_nat n :: u32)" "(of_nat n :: u32) \<le> 64" "unat (ucast (of_nat n :: u32) :: u16) = n"
    using n by (simp_all add: word_less_nat_alt word_le_nat_alt unsigned_of_nat take_bit_nat_eq_self unsigned_ucast_eq)
  let ?m = "\<lparr> map_size = ucast (of_nat n :: u32), optionFlags = map of_bool flags, extensionsRead = 0 \<rparr>"
  have "reads (read_times (unat (ucast (of_nat n :: u32) :: u16)) (ReadBits 1)) (map of_bool flags) (bits flags)"
    unfolding w(3) unfolding n_def by (rule reads_flags)
  then have map: "reads GetUnknownSigMap ?m
      (after (bits (msb_bits 7 (ucast (of_nat n - 1 :: u32) :: u8))) (after (bits flags) (bits [])))"
    unfolding GetUnknownSigMap_def
    by (intro reads_and_then [OF small_length.reads_enc] reads_and_then [rotated]) (use w reads_give in simp_all)
  have "reads (skip_extensions (length items)) () (enc_items items)"
    using assms by (intro reads_skip_extensions) (simp add: unknown_ok_def)
  moreover have "unat (of_nat (count_list flags True) :: u32) = length items"
    using n by (simp add: unsigned_of_nat take_bit_nat_eq_self)
  ultimately have "reads (SkipUnreadExtensions ?m) (of_nat (count_list flags True)) (after (enc_items items) (bits []))"
    unfolding SkipUnreadExtensions_def Let_def sig_map.select_convs sum_flags
    by (simp only: diff_zero unsigned_0 after_bits) (rule reads_and_give)
  then have "reads (skip_unknown 1) ()
      (after (after (bits (msb_bits 7 (ucast (of_nat n - 1 :: u32) :: u8))) (after (bits flags) (bits [])))
        (after (after (enc_items items) (bits [])) (bits [])))"
    unfolding skip_unknown_def
    by (simp del: after_bits) (rule reads_and_then [OF map]; rule reads_and_then; simp add: reads_give)
  then show ?thesis by (simp only: enc_unknown_def n_def after_assoc after_bits(2,3))
qed

section \<open>Unbounded integers\<close>

definition unbounded_octets :: "u32 \<Rightarrow> nat" where
  "unbounded_octets v = (if v < 128 then 1 else if v < 32768 then 2 else if v < 8388608 then 3 else 4)"

definition enc_unbounded :: "u32 \<Rightarrow> nat \<Rightarrow> bool list" where
  "enc_unbounded v = after (enc_length (of_nat (unbounded_octets v))) (sent_octets (unbounded_octets v) v)"

lemma unbounded_octets_bounds:
  "1 \<le> unbounded_octets v" "unbounded_octets v \<le> 4" "(of_nat (unbounded_octets v) :: u32) < 128"
  "unat (of_nat (unbounded_octets v) :: u32) = unbounded_octets v"
  by (simp_all add: unbounded_octets_def)

lemma unbounded_octets_fits: "take_bit (8 * unbounded_octets v) v = v"
proof -
  have "v < 256" if "v < 128" using that by (simp add: word_less_nat_alt)
  moreover have "v < 65536" if "v < 32768" using that by (simp add: word_less_nat_alt)
  moreover have "v < 16777216" if "v < 8388608" using that by (simp add: word_less_nat_alt)
  ultimately show ?thesis
    by (auto simp: unbounded_octets_def take_bit_small take_bit_word_eq_self)
qed

text \<open>The values that the reader refuses: those with the sign bit set, and 127.\<close>

lemma unbounded_check:
  "((of_nat (unbounded_octets v) = (1::u32) \<and> 0x7f \<le> v) \<or> (of_nat (unbounded_octets v) = (2::u32) \<and> 0x8000 \<le> v)
    \<or> (of_nat (unbounded_octets v) = (3::u32) \<and> 0x800000 \<le> v) \<or> (of_nat (unbounded_octets v) = (4::u32) \<and> 0x80000000 \<le> v))
   \<longleftrightarrow> v = 127 \<or> 0x80000000 \<le> v"
  by (auto simp: unbounded_octets_def word_less_nat_alt word_le_nat_alt word_unat_eq_iff)

interpretation unbounded: codec PutUnboundedInteger GetUnboundedInteger "\<lambda>v. v < 0x80000000 \<and> v \<noteq> 127" enc_unbounded
proof
  fix v :: u32
  assume v: "v < 0x80000000 \<and> v \<noteq> 127"
  then have no: "(v = 127 \<or> 0x80000000 \<le> v) = False" by auto
  show "writes (PutUnboundedInteger v) (enc_unbounded v)"
    unfolding PutUnboundedInteger_def enc_unbounded_def Let_def unbounded_octets_def [symmetric]
    using unbounded_octets_bounds by (intro writes_and_put short_length.writes_enc writes_octets_u32)
  have "reads (read_u32 (unbounded_octets v)) v (sent_octets (unbounded_octets v) v)"
    by (rule reads_u32) (simp_all only: unbounded_octets_bounds unbounded_octets_fits)
  then have checked: "reads (and_then (read_u32 (unbounded_octets v)) (\<lambda>value.
       if (of_nat (unbounded_octets v) = (1::u32) \<and> 0x7f \<le> value) \<or> (of_nat (unbounded_octets v) = (2::u32) \<and> 0x8000 \<le> value)
          \<or> (of_nat (unbounded_octets v) = (3::u32) \<and> 0x800000 \<le> value) \<or> (of_nat (unbounded_octets v) = (4::u32) \<and> 0x80000000 \<le> value)
       then raise Leave else give value)) v (after (sent_octets (unbounded_octets v) v) (bits []))"
    by (rule reads_and_then) (simp only: unbounded_check no if_False reads_give)
  have "reads GetUnboundedInteger v
      (after (enc_length (of_nat (unbounded_octets v))) (after (sent_octets (unbounded_octets v) v) (bits [])))"
    unfolding GetUnboundedInteger_def
    by (rule reads_and_then [OF short_length.reads_enc])
       (use unbounded_octets_bounds checked in simp_all)
  then show "reads GetUnboundedInteger v (enc_unbounded v)" by (simp add: enc_unbounded_def)
qed

section \<open>Extension items\<close>

text \<open>Encodings depend on the position only through the alignment.\<close>

definition from_octet :: "(nat \<Rightarrow> bool list) \<Rightarrow> bool" where
  "from_octet e \<longleftrightarrow> (\<forall>p q. p mod 8 = q mod 8 \<longrightarrow> e p = e q)"

lemma from_octetD: "from_octet e \<Longrightarrow> p mod 8 = q mod 8 \<Longrightarrow> e p = e q"
  unfolding from_octet_def by blast

lemma from_octet_intros [intro, simp]:
  "from_octet (bits bs)"
  "from_octet (octets xs)"
  "from_octet e \<Longrightarrow> from_octet f \<Longrightarrow> from_octet (after e f)"
  "from_octet (enc_integer l u v)"
  "from_octet (enc_choice r x i)"
proof -
  show bits: "from_octet (bits bs)" for bs by (simp add: from_octet_def bits_def)
  show octets: "from_octet (octets xs)" for xs by (simp add: from_octet_def octets_def pad_def)
  show after: "from_octet e \<Longrightarrow> from_octet f \<Longrightarrow> from_octet (after e f)" for e f
    unfolding from_octet_def after_def by (metis mod_add_left_eq)
  show integer: "from_octet (enc_integer l u v)" for l u v
    by (auto simp: enc_integer_def sent_octets_def Let_def intro!: bits octets after)
  show "from_octet (enc_choice r x i)"
    by (auto simp: enc_choice_def intro!: bits integer after)
qed

definition enc_temp :: "(nat \<Rightarrow> bool list) \<Rightarrow> nat \<Rightarrow> bool list" where
  "enc_temp e = after (enc_length (of_nat ((length (e 0) + 7) div 8))) (bits (e 0 @ pad (length (e 0))))"

lemma writes_PutExtensionItem:
  assumes "writes f e" and "length (e 0) \<le> 8 * 127"
  shows "writes (PutExtensionItem f) (enc_temp e)"
  unfolding writes_def
proof (intro allI impI)
  fix s
  assume s: "out_ok s" "room s (enc_temp e (length (out_bits s)))"
  define n where "n = (length (e 0) + 7) div 8"
  have n: "n < 128" using assms(2) by (simp add: n_def)
  obtain t where t: "f NewOutStream = Inr t" "out_ok t" "out_bits t = e 0"
    using writesD [OF assms(1) new_stream(1)] assms(2)
    by (auto simp: new_stream room_def out_limit_def)
  obtain t' where t': "WriteRemainingBits t = Inr t'" "out_ok t'" "bitIndex t' = 0"
    "out_bits t' = e 0 @ pad (length (e 0))"
    using WriteRemainingBits_bits [OF t(2)] t(3) assms(2) by (auto simp: out_limit_def)
  have oct: "octet_bits (out_octets t') = e 0 @ pad (length (e 0))"
    using t'(3,4) by (simp add: out_bits_def)
  have "8 * unat (byteIndex t') = length (e 0) + length (pad (length (e 0)))"
    using length_out_bits [OF t'(2)] t'(3,4) by simp
  moreover have "length (e 0) + length (pad (length (e 0))) = 8 * n"
    unfolding n_def by (rule padded_length)
  ultimately have k: "unat (byteIndex t') = n" by simp
  have len: "out_octets t' = take n (out_data t')" "n \<le> length (out_data t')"
    using t'(2) k by (simp_all add: out_octets_def out_ok_def out_mem_def)
  have w: "(ucast (byteIndex t') :: u32) = of_nat n"
    using k n by (simp add: word_unat_eq_iff unsigned_ucast_eq unsigned_of_nat take_bit_nat_eq_self)
  have "(of_nat n :: u32) < 128" using n by (simp add: word_less_nat_alt unsigned_of_nat take_bit_nat_eq_self)
  then have "writes (and_put (PutLengthDet (of_nat n)) (WriteOctets n (out_data t') False))
      (after (enc_length (of_nat n)) (octets (take n (out_data t'))))"
    using writes_and_put [OF short_length.writes_enc writes_WriteOctets [OF len(2), of False]] by simp
  moreover have "after (enc_length (of_nat n)) (octets (take n (out_data t'))) = enc_temp e"
    using \<open>(of_nat n :: u32) < 128\<close> oct len(1)
    by (simp add: enc_temp_def n_def [symmetric] enc_length_def after_def octets_def bits_def fun_eq_iff del: length_pad)
  ultimately have W: "writes (and_put (PutLengthDet (of_nat n)) (WriteOctets n (out_data t') False)) (enc_temp e)"
    by simp
  obtain s' where "and_put (PutLengthDet (of_nat n)) (WriteOctets n (out_data t') False) s = Inr s'"
    "out_ok s'" "out_bits s' = out_bits s @ enc_temp e (length (out_bits s))"
    using writesD [OF W s] by blast
  then show "\<exists>s'. PutExtensionItem f s = Inr s' \<and> out_ok s' \<and> out_bits s' = out_bits s @ enc_temp e (length (out_bits s))"
    using t(1) t'(1) k w by (auto simp: PutExtensionItem_def PutTempStream_def)
qed

definition read_rest :: "unit reader" where
  "read_rest s = Inr ((), ReadRemainingBits s)"

lemma reads_rest: "reads read_rest () pad"
  unfolding reads_def
proof (intro allI impI)
  fix s p rest
  assume s: "in_ok s" "p mod 8 = in_bit s" "in_bits s = pad p @ rest"
  then have "drop ((8 - in_bit s) mod 8) (in_bits s) = rest" by simp
  then show "\<exists>s'. read_rest s = Inr ((), s') \<and> in_ok s' \<and> in_bits s' = rest"
    using ReadRemainingBits_bits [OF s(1)] by (simp add: read_rest_def)
qed

text \<open>An item that is read field by field: the length is dropped, the padding skipped.\<close>

lemma reads_item:
  assumes "from_octet e" and "reads g x e" and "length (e 0) \<le> 8 * 127"
  shows "reads (and_then GetLengthDet (\<lambda>_. and_then g (\<lambda>x. and_then read_rest (\<lambda>_. give x)))) x (enc_temp e)"
proof -
  define n where "n = (length (e 0) + 7) div 8"
  have n: "(of_nat n :: u32) < 128" "(of_nat n :: u32) < 16384"
    using assms(3) by (simp_all add: n_def word_less_nat_alt unsigned_of_nat take_bit_nat_eq_self)
  have "reads (and_then GetLengthDet (\<lambda>_. and_then g (\<lambda>x. and_then read_rest (\<lambda>_. give x)))) x
      (after (std_length (of_nat n)) (after e (after pad (bits []))))"
    by (intro reads_length_then n(2) reads_and_then [OF assms(2)] reads_and_then [OF reads_rest] reads_give)
  moreover have "after (std_length (of_nat n)) (after e pad) = enc_temp e"
  proof
    fix p
    have at: "(p + length (std_length (of_nat n) p)) mod 8 = 0"
    proof -
      have "p + length (std_length (of_nat n) p) = p + length (pad p) + 8"
        using n(1) by (simp add: std_length_def octets_def)
      then show ?thesis using pad_position [of p] by (metis mod_add_self2)
    qed
    have "e (p + length (std_length (of_nat n) p)) = e 0"
      by (rule from_octetD [OF assms(1)]) (simp only: at mod_0)
    moreover have "pad (p + length (std_length (of_nat n) p) + length (e 0)) = pad (length (e 0))"
      by (rule pad_aligned [OF at])
    ultimately show "after (std_length (of_nat n)) (after e pad) p = enc_temp e p"
      unfolding enc_temp_def n_def [symmetric] enc_length_short [OF n(1)] after_def bits_def by (simp only:)
  qed
  ultimately show ?thesis by simp
qed

end
