(* ===== verification/PerMessages.thy ===== *)
theory PerMessages
  imports PerExtension SeTypes
begin

text \<open>
  The encoders and decoders of the messages that the signalling procedures exchange
  (\<^verbatim>\<open>h245_encoder.cpp\<close>, \<^verbatim>\<open>h245_decoder.cpp\<close>), except the four large ones (TerminalCapabilitySet,
  OpenLogicalChannel with its answers, MultiplexEntrySend, RequestMode). A structure that the
  signalling entity reads is the record of \<open>SeTypes\<close>; a structure with one field is that field.
\<close>

section \<open>Frames\<close>

text \<open>A SEQUENCE with an extension marker and no known extension: one flag, the fields, and on the
  reading side whatever a later version may have added.\<close>

definition encode_plain :: "writer \<Rightarrow> writer" where
  "encode_plain body = and_put (PutBoolean 0) body"

definition decode_plain :: "'a reader \<Rightarrow> 'a reader" where
  "decode_plain body =
     and_then GetBoolean (\<lambda>extension.
     and_then body (\<lambda>x.
     and_then (skip_unknown extension) (\<lambda>_. give x)))"

text \<open>A CHOICE whose \<open>n\<close> alternatives are all NULL. Without an extension marker another index is an
  error; with it the reader skips the item and keeps the index.\<close>

definition encode_nulls :: "u32 \<Rightarrow> bool \<Rightarrow> u16 \<Rightarrow> writer" where
  "encode_nulls n extmarker index =
     and_put (PutChoiceIndex n extmarker (ucast index))
       (if ucast index < n then put_nothing else put_raise Leave)"

definition decode_nulls :: "u32 \<Rightarrow> bool \<Rightarrow> u16 reader" where
  "decode_nulls n extmarker =
     and_then (GetChoiceIndex n extmarker) (\<lambda>index.
       if ucast index < n then give index
       else if extmarker then and_then SkipOneExtension (\<lambda>_. give index)
       else raise Leave)"

definition put_number :: "u8 \<Rightarrow> writer" where
  "put_number n = PutInteger 0 255 (ucast n)"

definition get_number :: "u8 reader" where
  "get_number = and_then (GetInteger 0 255) (\<lambda>v. give (ucast v))"

definition put_channel :: "u16 \<Rightarrow> writer" where
  "put_channel n = PutInteger 1 65535 (ucast n)"

definition get_channel :: "u16 reader" where
  "get_channel = and_then (GetInteger 1 65535) (\<lambda>v. give (ucast v))"

section \<open>Master slave determination\<close>

definition Encode_MasterSlaveDetermination :: "master_slave_determination \<Rightarrow> writer" where
  "Encode_MasterSlaveDetermination x =
     encode_plain (and_put (put_number (msd_terminalType x))
                           (PutInteger 0 16777215 (msd_statusDeterminationNumber x)))"

definition Decode_MasterSlaveDetermination :: "master_slave_determination reader" where
  "Decode_MasterSlaveDetermination =
     decode_plain
       (and_then get_number (\<lambda>t.
        and_then (GetInteger 0 16777215) (\<lambda>n.
          give \<lparr> msd_terminalType = t, msd_statusDeterminationNumber = n \<rparr>)))"

definition Encode_Decision :: "u16 \<Rightarrow> writer" where
  "Encode_Decision = encode_nulls 2 False"

definition Decode_Decision :: "u16 reader" where
  "Decode_Decision = decode_nulls 2 False"

definition Encode_MasterSlaveDeterminationAck :: "u16 \<Rightarrow> writer" where
  "Encode_MasterSlaveDeterminationAck decision = encode_plain (Encode_Decision decision)"

definition Decode_MasterSlaveDeterminationAck :: "u16 reader" where
  "Decode_MasterSlaveDeterminationAck = decode_plain Decode_Decision"

definition Encode_MsdRejectCause :: "u16 \<Rightarrow> writer" where
  "Encode_MsdRejectCause = encode_nulls 1 True"

definition Decode_MsdRejectCause :: "u16 reader" where
  "Decode_MsdRejectCause = decode_nulls 1 True"

definition Encode_MasterSlaveDeterminationReject :: "u16 \<Rightarrow> writer" where
  "Encode_MasterSlaveDeterminationReject c = encode_plain (Encode_MsdRejectCause c)"

definition Decode_MasterSlaveDeterminationReject :: "u16 reader" where
  "Decode_MasterSlaveDeterminationReject = decode_plain Decode_MsdRejectCause"

definition Encode_MasterSlaveDeterminationRelease :: writer where
  "Encode_MasterSlaveDeterminationRelease = encode_plain put_nothing"

definition Decode_MasterSlaveDeterminationRelease :: "unit reader" where
  "Decode_MasterSlaveDeterminationRelease = decode_plain (give ())"

section \<open>Capability exchange\<close>

definition Encode_TerminalCapabilitySetAck :: "u8 \<Rightarrow> writer" where
  "Encode_TerminalCapabilitySetAck n = encode_plain (put_number n)"

definition Decode_TerminalCapabilitySetAck :: "u8 reader" where
  "Decode_TerminalCapabilitySetAck = decode_plain get_number"

definition Encode_TerminalCapabilitySetRelease :: writer where
  "Encode_TerminalCapabilitySetRelease = encode_plain put_nothing"

definition Decode_TerminalCapabilitySetRelease :: "unit reader" where
  "Decode_TerminalCapabilitySetRelease = decode_plain (give ())"

section \<open>Logical channels\<close>

definition Encode_OpenLogicalChannelConfirm :: "u16 \<Rightarrow> writer" where
  "Encode_OpenLogicalChannelConfirm n = encode_plain (put_channel n)"

definition Decode_OpenLogicalChannelConfirm :: "u16 reader" where
  "Decode_OpenLogicalChannelConfirm = decode_plain get_channel"

definition Encode_Source :: "u16 \<Rightarrow> writer" where
  "Encode_Source = encode_nulls 2 False"

definition Decode_Source :: "u16 reader" where
  "Decode_Source = decode_nulls 2 False"

definition Encode_Reason :: "u16 \<Rightarrow> writer" where
  "Encode_Reason = encode_nulls 3 True"

definition Decode_Reason :: "u16 reader" where
  "Decode_Reason = decode_nulls 3 True"

text \<open>\<^verbatim>\<open>CloseLogicalChannel\<close> has one known extension, the reason. \<^verbatim>\<open>x->reason\<close> keeps an arbitrary value
  when it is absent; the model has 0 there.\<close>

definition Encode_CloseLogicalChannel :: "close_logical_channel \<Rightarrow> writer" where
  "Encode_CloseLogicalChannel x =
     and_put (PutBoolean (of_bool (cl_option_of_reason x)))
     (and_put (put_channel (cl_forwardLogicalChannelNumber x))
     (and_put (Encode_Source (cl_source x))
     (if \<not> cl_option_of_reason x then put_nothing
      else and_put (PutNormSmallLength 1)
           (and_put (PutBoolean (of_bool (cl_option_of_reason x)))
           (if cl_option_of_reason x then PutExtensionItem (Encode_Reason (cl_reason x)) else put_nothing)))))"

definition Decode_CloseLogicalChannel :: "close_logical_channel reader" where
  "Decode_CloseLogicalChannel =
     and_then GetBoolean (\<lambda>extension.
     and_then get_channel (\<lambda>n.
     and_then Decode_Source (\<lambda>source.
       if extension = 0 then
         give \<lparr> cl_forwardLogicalChannelNumber = n, cl_source = source, cl_option_of_reason = False, cl_reason = 0 \<rparr>
       else
         and_then GetUnknownSigMap (\<lambda>m.
         and_then (if SigMapValue 0 m \<noteq> 0 then
                     and_then (ExtensionPrep m) (\<lambda>m1.
                     and_then Decode_Reason (\<lambda>reason.
                     and_then read_rest (\<lambda>_. give (m1, reason))))
                   else give (m, 0)) (\<lambda>(m1, reason).
         and_then (SkipUnreadExtensions m1) (\<lambda>_.
           give \<lparr> cl_forwardLogicalChannelNumber = n, cl_source = source,
                  cl_option_of_reason = (SigMapValue 0 m \<noteq> 0), cl_reason = reason \<rparr>))))))"

definition Encode_CloseLogicalChannelAck :: "u16 \<Rightarrow> writer" where
  "Encode_CloseLogicalChannelAck n = encode_plain (put_channel n)"

definition Decode_CloseLogicalChannelAck :: "u16 reader" where
  "Decode_CloseLogicalChannelAck = decode_plain get_channel"

definition Encode_RequestChannelCloseAck :: "u16 \<Rightarrow> writer" where
  "Encode_RequestChannelCloseAck n = encode_plain (put_channel n)"

definition Decode_RequestChannelCloseAck :: "u16 reader" where
  "Decode_RequestChannelCloseAck = decode_plain get_channel"

definition Encode_RccRejectCause :: "u16 \<Rightarrow> writer" where
  "Encode_RccRejectCause = encode_nulls 1 True"

definition Decode_RccRejectCause :: "u16 reader" where
  "Decode_RccRejectCause = decode_nulls 1 True"

definition Encode_RequestChannelCloseReject :: "request_channel_close_reject \<Rightarrow> writer" where
  "Encode_RequestChannelCloseReject x =
     encode_plain (and_put (put_channel (rcr_forwardLogicalChannelNumber x)) (Encode_RccRejectCause (rcr_rccRejectCause x)))"

definition Decode_RequestChannelCloseReject :: "request_channel_close_reject reader" where
  "Decode_RequestChannelCloseReject =
     decode_plain
       (and_then get_channel (\<lambda>n. and_then Decode_RccRejectCause (\<lambda>c.
          give \<lparr> rcr_forwardLogicalChannelNumber = n, rcr_rccRejectCause = c \<rparr>)))"

definition Encode_RequestChannelCloseRelease :: "u16 \<Rightarrow> writer" where
  "Encode_RequestChannelCloseRelease n = encode_plain (put_channel n)"

definition Decode_RequestChannelCloseRelease :: "u16 reader" where
  "Decode_RequestChannelCloseRelease = decode_plain get_channel"

section \<open>Multiplex tables\<close>

text \<open>The loop over a size field and an array: the array may be shorter.\<close>

fun put_entries :: "nat \<Rightarrow> u32 list \<Rightarrow> writer" where
  "put_entries 0 xs = put_nothing"
| "put_entries (Suc n) [] = put_raise Overrun"
| "put_entries (Suc n) (x # xs) = and_put (PutInteger 1 15 x) (put_entries n xs)"

definition put_entry_numbers :: "u16 \<Rightarrow> u32 list \<Rightarrow> writer" where
  "put_entry_numbers sz xs = and_put (PutInteger 1 15 (ucast sz)) (put_entries (unat sz) xs)"

definition get_entry_numbers :: "(u16 \<times> u32 list) reader" where
  "get_entry_numbers =
     and_then (GetInteger 1 15) (\<lambda>size.
     and_then (read_times (unat (ucast size :: u8)) (GetInteger 1 15)) (\<lambda>xs.
       give (ucast (ucast size :: u8), xs)))"

definition Encode_MultiplexEntrySendAck :: "multiplex_entry_send_ack \<Rightarrow> writer" where
  "Encode_MultiplexEntrySendAck x =
     encode_plain (and_put (put_number (mea_sequenceNumber x)) (put_entry_numbers (mea_size x) (mea_entryNumbers x)))"

definition Decode_MultiplexEntrySendAck :: "multiplex_entry_send_ack reader" where
  "Decode_MultiplexEntrySendAck =
     decode_plain
       (and_then get_number (\<lambda>n. and_then get_entry_numbers (\<lambda>(size, xs).
          give \<lparr> mea_sequenceNumber = n, mea_size = size, mea_entryNumbers = xs \<rparr>)))"

definition Encode_MultiplexEntrySendRelease :: "u16 \<times> u32 list \<Rightarrow> writer" where
  "Encode_MultiplexEntrySendRelease x = encode_plain (put_entry_numbers (fst x) (snd x))"

definition Decode_MultiplexEntrySendRelease :: "(u16 \<times> u32 list) reader" where
  "Decode_MultiplexEntrySendRelease = decode_plain get_entry_numbers"

definition put_entry_record :: "entry_numbers \<Rightarrow> writer" where
  "put_entry_record x = put_entry_numbers (enr_size x) (enr_entryNumbers x)"

definition get_entry_record :: "entry_numbers reader" where
  "get_entry_record =
     and_then get_entry_numbers (\<lambda>(size, xs). give \<lparr> enr_size = size, enr_entryNumbers = xs \<rparr>)"

definition Encode_RequestMultiplexEntry :: "entry_numbers \<Rightarrow> writer" where
  "Encode_RequestMultiplexEntry x = encode_plain (put_entry_record x)"

definition Decode_RequestMultiplexEntry :: "entry_numbers reader" where
  "Decode_RequestMultiplexEntry = decode_plain get_entry_record"

definition Encode_RequestMultiplexEntryAck :: "entry_numbers \<Rightarrow> writer" where
  "Encode_RequestMultiplexEntryAck x = encode_plain (put_entry_record x)"

definition Decode_RequestMultiplexEntryAck :: "entry_numbers reader" where
  "Decode_RequestMultiplexEntryAck = decode_plain get_entry_record"

definition Encode_RequestMultiplexEntryRelease :: "entry_numbers \<Rightarrow> writer" where
  "Encode_RequestMultiplexEntryRelease x = encode_plain (put_entry_record x)"

definition Decode_RequestMultiplexEntryRelease :: "entry_numbers reader" where
  "Decode_RequestMultiplexEntryRelease = decode_plain get_entry_record"

definition Encode_RmeRejectCause :: "u16 \<Rightarrow> writer" where
  "Encode_RmeRejectCause = encode_nulls 1 True"

definition Decode_RmeRejectCause :: "u16 reader" where
  "Decode_RmeRejectCause = decode_nulls 1 True"

definition Encode_RequestMultiplexEntryRejectionDescriptions :: "u8 \<times> u16 \<Rightarrow> writer" where
  "Encode_RequestMultiplexEntryRejectionDescriptions x =
     encode_plain (and_put (PutInteger 1 15 (ucast (fst x))) (Encode_RmeRejectCause (snd x)))"

definition Decode_RequestMultiplexEntryRejectionDescriptions :: "(u8 \<times> u16) reader" where
  "Decode_RequestMultiplexEntryRejectionDescriptions =
     decode_plain
       (and_then (GetInteger 1 15) (\<lambda>n. and_then Decode_RmeRejectCause (\<lambda>c. give (ucast n, c))))"

fun put_descriptions :: "nat \<Rightarrow> (u8 \<times> u16) list \<Rightarrow> writer" where
  "put_descriptions 0 xs = put_nothing"
| "put_descriptions (Suc n) [] = put_raise Overrun"
| "put_descriptions (Suc n) (x # xs) =
     and_put (Encode_RequestMultiplexEntryRejectionDescriptions x) (put_descriptions n xs)"

definition Encode_RequestMultiplexEntryReject :: "request_multiplex_entry_reject \<Rightarrow> writer" where
  "Encode_RequestMultiplexEntryReject x =
     encode_plain
       (and_put (put_entry_record (rmj_entryNumbers x))
       (and_put (PutInteger 1 15 (ucast (rmj_size x))) (put_descriptions (unat (rmj_size x)) (rmj_descriptions x))))"

definition Decode_RequestMultiplexEntryReject :: "request_multiplex_entry_reject reader" where
  "Decode_RequestMultiplexEntryReject =
     decode_plain
       (and_then get_entry_record (\<lambda>ns.
        and_then (GetInteger 1 15) (\<lambda>size.
        and_then (read_times (unat (ucast size :: u8)) Decode_RequestMultiplexEntryRejectionDescriptions) (\<lambda>ds.
          give \<lparr> rmj_entryNumbers = ns, rmj_size = ucast (ucast size :: u8), rmj_descriptions = ds \<rparr>))))"

section \<open>Request mode\<close>

definition Encode_Response :: "u16 \<Rightarrow> writer" where
  "Encode_Response = encode_nulls 2 True"

definition Decode_Response :: "u16 reader" where
  "Decode_Response = decode_nulls 2 True"

definition Encode_RequestModeAck :: "u8 \<times> u16 \<Rightarrow> writer" where
  "Encode_RequestModeAck x = encode_plain (and_put (put_number (fst x)) (Encode_Response (snd x)))"

definition Decode_RequestModeAck :: "(u8 \<times> u16) reader" where
  "Decode_RequestModeAck =
     decode_plain (and_then get_number (\<lambda>n. and_then Decode_Response (\<lambda>r. give (n, r))))"

definition Encode_RmRejectCause :: "u16 \<Rightarrow> writer" where
  "Encode_RmRejectCause = encode_nulls 3 True"

definition Decode_RmRejectCause :: "u16 reader" where
  "Decode_RmRejectCause = decode_nulls 3 True"

definition Encode_RequestModeReject :: "u8 \<times> u16 \<Rightarrow> writer" where
  "Encode_RequestModeReject x = encode_plain (and_put (put_number (fst x)) (Encode_RmRejectCause (snd x)))"

definition Decode_RequestModeReject :: "(u8 \<times> u16) reader" where
  "Decode_RequestModeReject =
     decode_plain (and_then get_number (\<lambda>n. and_then Decode_RmRejectCause (\<lambda>c. give (n, c))))"

definition Encode_RequestModeRelease :: writer where
  "Encode_RequestModeRelease = encode_plain put_nothing"

definition Decode_RequestModeRelease :: "unit reader" where
  "Decode_RequestModeRelease = decode_plain (give ())"

section \<open>Round trip delay and maintenance loop\<close>

definition Encode_RoundTripDelayRequest :: "u8 \<Rightarrow> writer" where
  "Encode_RoundTripDelayRequest n = encode_plain (put_number n)"

definition Decode_RoundTripDelayRequest :: "u8 reader" where
  "Decode_RoundTripDelayRequest = decode_plain get_number"

definition Encode_RoundTripDelayResponse :: "u8 \<Rightarrow> writer" where
  "Encode_RoundTripDelayResponse n = encode_plain (put_number n)"

definition Decode_RoundTripDelayResponse :: "u8 reader" where
  "Decode_RoundTripDelayResponse = decode_plain get_number"

text \<open>The three loop types are structurally equal: systemLoop is NULL, mediaLoop and
  logicalChannelLoop carry a channel. The channel of a systemLoop is 0 in the model.\<close>

definition Encode_MlRequestType :: "ml_type \<Rightarrow> writer" where
  "Encode_MlRequestType x =
     and_put (PutChoiceIndex 3 True (ucast (mlt_index x)))
       (if mlt_index x = 0 then put_nothing
        else if mlt_index x = 1 \<or> mlt_index x = 2 then put_channel (mlt_channel x)
        else put_raise Leave)"

definition Decode_MlRequestType :: "ml_type reader" where
  "Decode_MlRequestType =
     and_then (GetChoiceIndex 3 True) (\<lambda>i.
       if i = 0 then give \<lparr> mlt_index = i, mlt_channel = 0 \<rparr>
       else if i = 1 \<or> i = 2 then and_then get_channel (\<lambda>c. give \<lparr> mlt_index = i, mlt_channel = c \<rparr>)
       else and_then SkipOneExtension (\<lambda>_. give \<lparr> mlt_index = i, mlt_channel = 0 \<rparr>))"

definition Encode_MlAckType :: "ml_type \<Rightarrow> writer" where
  "Encode_MlAckType = Encode_MlRequestType"

definition Decode_MlAckType :: "ml_type reader" where
  "Decode_MlAckType = Decode_MlRequestType"

definition Encode_MlRejectType :: "ml_type \<Rightarrow> writer" where
  "Encode_MlRejectType = Encode_MlRequestType"

definition Decode_MlRejectType :: "ml_type reader" where
  "Decode_MlRejectType = Decode_MlRequestType"

definition Encode_MlRejectCause :: "u16 \<Rightarrow> writer" where
  "Encode_MlRejectCause = encode_nulls 1 True"

definition Decode_MlRejectCause :: "u16 reader" where
  "Decode_MlRejectCause = decode_nulls 1 True"

definition Encode_MaintenanceLoopRequest :: "ml_type \<Rightarrow> writer" where
  "Encode_MaintenanceLoopRequest x = encode_plain (Encode_MlRequestType x)"

definition Decode_MaintenanceLoopRequest :: "ml_type reader" where
  "Decode_MaintenanceLoopRequest = decode_plain Decode_MlRequestType"

definition Encode_MaintenanceLoopAck :: "ml_type \<Rightarrow> writer" where
  "Encode_MaintenanceLoopAck x = encode_plain (Encode_MlAckType x)"

definition Decode_MaintenanceLoopAck :: "ml_type reader" where
  "Decode_MaintenanceLoopAck = decode_plain Decode_MlAckType"

definition Encode_MaintenanceLoopReject :: "ml_type \<times> u16 \<Rightarrow> writer" where
  "Encode_MaintenanceLoopReject x = encode_plain (and_put (Encode_MlRejectType (fst x)) (Encode_MlRejectCause (snd x)))"

definition Decode_MaintenanceLoopReject :: "(ml_type \<times> u16) reader" where
  "Decode_MaintenanceLoopReject =
     decode_plain (and_then Decode_MlRejectType (\<lambda>t. and_then Decode_MlRejectCause (\<lambda>c. give (t, c))))"

definition Encode_MaintenanceLoopOffCommand :: writer where
  "Encode_MaintenanceLoopOffCommand = encode_plain put_nothing"

definition Decode_MaintenanceLoopOffCommand :: "unit reader" where
  "Decode_MaintenanceLoopOffCommand = decode_plain (give ())"

section \<open>Round trips\<close>

text \<open>The frames preserve the contract.\<close>

definition enc_plain :: "(nat \<Rightarrow> bool list) \<Rightarrow> nat \<Rightarrow> bool list" where
  "enc_plain e = after (bits [False]) e"

lemma codec_plain:
  assumes "codec p g v e"
  shows "codec (\<lambda>x. encode_plain (p x)) (decode_plain g) v (\<lambda>x. enc_plain (e x))"
proof
  fix x
  assume "v x"
  then have w: "writes (p x) (e x)" and r: "reads g x (e x)" using assms by (simp_all add: codec_def)
  show "writes (encode_plain (p x)) (enc_plain (e x))"
    using writes_and_put [OF writes_boolean [of False] w] by (simp add: encode_plain_def enc_plain_def)
  have "reads (and_then g (\<lambda>x. and_then (skip_unknown (of_bool False)) (\<lambda>_. give x))) x (e x)"
    using reads_and_give [OF r, of "\<lambda>x. x"] by (simp add: skip_unknown_def)
  then show "reads (decode_plain g) x (enc_plain (e x))"
    unfolding decode_plain_def enc_plain_def by (rule reads_boolean_then)
qed

text \<open>A message of a later version, with extensions that this decoder does not know.\<close>

lemma reads_extended:
  assumes "codec p g v e" and "v x" and "unknown_ok flags items"
  shows "reads (decode_plain g) x (after (bits [True]) (after (e x) (enc_unknown flags items)))"
proof -
  have r: "reads g x (e x)" using assms by (simp add: codec_def)
  have "reads (and_then g (\<lambda>x. and_then (skip_unknown (of_bool True)) (\<lambda>_. give x))) x
      (after (e x) (enc_unknown flags items))"
    by (rule reads_and_then [OF r], rule reads_and_give) (simp add: reads_skip_unknown [OF assms(3)])
  then show ?thesis unfolding decode_plain_def by (rule reads_boolean_then)
qed

lemma codec_nulls:
  assumes "n < 65536"
  shows "codec (encode_nulls n b) (decode_nulls n b) (\<lambda>i. ucast i < n) (\<lambda>i. enc_choice n b (ucast i))"
proof
  fix i :: u16
  assume i: "ucast i < n"
  then have ok: "choice_ok n b i" by (auto simp: choice_ok_def word_less_nat_alt)
  show "writes (encode_nulls n b i) (enc_choice n b (ucast i))"
    using writes_and_put [OF choice.writes_enc [OF ok] writes_nothing] i by (simp add: encode_nulls_def)
  have "reads (decode_nulls n b) i (after (enc_choice n b (ucast i)) (bits []))"
    unfolding decode_nulls_def
    by (rule reads_and_then [OF choice.reads_enc [OF ok]]) (use i reads_give in simp)
  then show "reads (decode_nulls n b) i (enc_choice n b (ucast i))" by simp
qed

lemma codec_pair:
  assumes "codec p1 g1 v1 e1" and "codec p2 g2 v2 e2"
  shows "codec (\<lambda>(x, y). and_put (p1 x) (p2 y)) (and_then g1 (\<lambda>x. and_then g2 (\<lambda>y. give (x, y))))
           (\<lambda>(x, y). v1 x \<and> v2 y) (\<lambda>(x, y). after (e1 x) (e2 y))"
proof
  fix z :: "'a \<times> 'b"
  obtain x y where z: "z = (x, y)" by (cases z)
  assume "case z of (x, y) \<Rightarrow> v1 x \<and> v2 y"
  then have f: "writes (p1 x) (e1 x)" "writes (p2 y) (e2 y)" "reads g1 x (e1 x)" "reads g2 y (e2 y)"
    using assms by (simp_all add: z codec_def)
  show "writes (case z of (x, y) \<Rightarrow> and_put (p1 x) (p2 y)) (case z of (x, y) \<Rightarrow> after (e1 x) (e2 y))"
    using writes_and_put [OF f(1,2)] by (simp add: z)
  show "reads (and_then g1 (\<lambda>x. and_then g2 (\<lambda>y. give (x, y)))) z (case z of (x, y) \<Rightarrow> after (e1 x) (e2 y))"
    using reads_and_then [OF f(3), of "\<lambda>x. and_then g2 (\<lambda>y. give (x, y))"]
      reads_and_give [OF f(4), of "Pair x"] by (simp add: z)
qed

text \<open>The same routines for another representation of the values.\<close>

lemma codec_map:
  assumes "codec p g v e" and "\<And>y. v' y \<Longrightarrow> v (f y) \<and> h (f y) = y"
  shows "codec (\<lambda>y. p (f y)) (and_then g (\<lambda>x. give (h x))) v' (\<lambda>y. e (f y))"
proof
  fix y
  assume "v' y"
  then have "v (f y)" and h: "h (f y) = y" using assms(2) by blast+
  then have f: "writes (p (f y)) (e (f y))" "reads g (f y) (e (f y))"
    using assms(1) by (simp_all add: codec_def)
  show "writes (p (f y)) (e (f y))" by (rule f(1))
  show "reads (and_then g (\<lambda>x. give (h x))) y (e (f y))"
    using reads_and_give [OF f(2), of h] by (simp add: h)
qed

text \<open>Casts between the widths of the fields.\<close>

lemma unat_bounds: "unat (a::u8) < 256" "unat (b::u16) < 65536"
  by (rule order.strict_trans2 [OF unsigned_less], simp)+

lemma unat_casts:
  "unat (ucast (a::u8) :: u32) = unat a"
  "unat (ucast (a::u8) :: u16) = unat a"
  "unat (ucast (b::u16) :: u32) = unat b"
  "unat (ucast (c::u32) :: u16) = unat c mod 65536"
  "unat (ucast (c::u32) :: u8) = unat c mod 256"
  using unat_bounds(1) [of a] unat_bounds(2) [of b]
  by (simp_all add: unsigned_ucast_eq take_bit_nat_eq_self) (simp_all add: take_bit_eq_mod)

lemma codec_number: "codec put_number get_number (\<lambda>_. True) (\<lambda>n. enc_integer 0 255 (ucast n))"
proof -
  have "(ucast n :: u32) \<le> 255 \<and> ucast (ucast n :: u32) = n" for n :: u8
    using unat_bounds(1) [of n] by (simp add: word_le_nat_alt word_unat_eq_iff unat_casts)
  then have "codec (\<lambda>n::u8. PutInteger 0 255 (ucast n)) (and_then (GetInteger 0 255) (\<lambda>v. give (ucast v)))
      (\<lambda>_. True) (\<lambda>n. enc_integer 0 255 (ucast n))"
    by (intro codec_map [OF integer.codec_axioms]) simp_all
  then show ?thesis by (simp add: put_number_def [abs_def] get_number_def)
qed

lemma codec_channel: "codec put_channel get_channel (\<lambda>n. 0 < n) (\<lambda>n. enc_integer 1 65535 (ucast n))"
proof -
  have "(1 :: u32) \<le> ucast n \<and> ucast n \<le> (65535 :: u32) \<and> ucast (ucast n :: u32) = n" if "0 < n" for n :: u16
    using unat_bounds(2) [of n] that
    by (simp add: word_le_nat_alt word_less_nat_alt word_unat_eq_iff unat_casts)
  then have "codec (\<lambda>n::u16. PutInteger 1 65535 (ucast n)) (and_then (GetInteger 1 65535) (\<lambda>v. give (ucast v)))
      (\<lambda>n. 0 < n) (\<lambda>n. enc_integer 1 65535 (ucast n))"
    by (intro codec_map [OF integer.codec_axioms]) blast
  then show ?thesis by (simp add: put_channel_def [abs_def] get_channel_def)
qed

definition enc_list :: "('a \<Rightarrow> nat \<Rightarrow> bool list) \<Rightarrow> 'a list \<Rightarrow> nat \<Rightarrow> bool list" where
  "enc_list e xs = foldr after (map e xs) (bits [])"

lemma reads_list:
  assumes "codec p g v e" and "\<forall>x \<in> set xs. v x"
  shows "reads (read_times (length xs) g) xs (enc_list e xs)"
  using assms(2)
proof (induction xs)
  case Nil
  then show ?case by (simp add: enc_list_def reads_give)
next
  case (Cons x xs)
  then have "reads g x (e x)" "reads (read_times (length xs) g) xs (enc_list e xs)"
    using assms(1) by (simp_all add: codec_def)
  then show ?case
    unfolding enc_list_def length_Cons read_times.simps list.map foldr.simps comp_apply
    by (auto intro: reads_and_then reads_and_give)
qed

text \<open>A size and an array that agree.\<close>

definition list_ok :: "('a \<Rightarrow> bool) \<Rightarrow> u16 \<times> 'a list \<Rightarrow> bool" where
  "list_ok v x \<longleftrightarrow> 0 < unat (fst x) \<and> unat (fst x) \<le> 15 \<and> length (snd x) = unat (fst x) \<and> (\<forall>y \<in> set (snd x). v y)"

definition entry_ok :: "u32 \<Rightarrow> bool" where
  "entry_ok n \<longleftrightarrow> 1 \<le> n \<and> n \<le> 15"

definition enc_sized :: "('a \<Rightarrow> nat \<Rightarrow> bool list) \<Rightarrow> u16 \<times> 'a list \<Rightarrow> nat \<Rightarrow> bool list" where
  "enc_sized e x = after (enc_integer 1 15 (ucast (fst x))) (enc_list e (snd x))"

lemma list_size:
  assumes "list_ok v (sz, xs)"
  shows "(1::u32) \<le> ucast sz \<and> ucast sz \<le> (15::u32)" "unat (ucast (ucast sz :: u32) :: u8) = length xs"
    "(ucast (ucast (ucast sz :: u32) :: u8) :: u16) = sz"
  using assms
  by (simp_all add: list_ok_def word_le_nat_alt unat_casts word_unat_eq_iff)

lemma reads_sized:
  assumes "codec p g v e" and "list_ok v (sz, xs)" and "reads (k (ucast sz) xs) y (bits [])"
  shows "reads (and_then (GetInteger 1 15) (\<lambda>sz. and_then (read_times (unat (ucast sz :: u8)) g) (\<lambda>xs. k sz xs))) y
           (enc_sized e (sz, xs))"
proof -
  have "reads (read_times (length xs) g) xs (enc_list e xs)"
    by (rule reads_list [OF assms(1)]) (use assms(2) in \<open>simp add: list_ok_def\<close>)
  then have "reads (and_then (read_times (length xs) g) (\<lambda>xs. k (ucast sz) xs)) y (after (enc_list e xs) (bits []))"
    using assms(3) by (rule reads_and_then)
  then show ?thesis
    unfolding enc_sized_def fst_conv snd_conv
    by (intro reads_integer_then) (simp_all add: list_size [OF assms(2)])
qed

lemma writes_entries:
  "\<forall>x \<in> set xs. entry_ok x \<Longrightarrow> writes (put_entries (length xs) xs) (enc_list (enc_integer 1 15) xs)"
proof (induction xs)
  case (Cons x xs)
  then show ?case
    unfolding enc_list_def
    by (simp add: entry_ok_def) (intro writes_and_put writes_integer; simp)
qed (simp add: enc_list_def writes_nothing)

lemma codec_entry: "codec (PutInteger 1 15) (GetInteger 1 15) entry_ok (enc_integer 1 15)"
  using integer.codec_axioms [of 1 15] by (simp add: entry_ok_def [abs_def])

lemma codec_entry_numbers:
  "codec (\<lambda>x. put_entry_numbers (fst x) (snd x)) get_entry_numbers (list_ok entry_ok) (enc_sized (enc_integer 1 15))"
proof
  fix x
  assume ok: "list_ok entry_ok x"
  obtain sz xs where x: "x = (sz, xs)" by (cases x)
  have "writes (put_entries (length xs) xs) (enc_list (enc_integer 1 15) xs)"
    using ok by (intro writes_entries) (simp add: list_ok_def x)
  then show "writes (put_entry_numbers (fst x) (snd x)) (enc_sized (enc_integer 1 15) x)"
    using ok list_size [of entry_ok sz xs]
    by (simp add: x put_entry_numbers_def enc_sized_def list_ok_def writes_and_put writes_integer)
  show "reads get_entry_numbers x (enc_sized (enc_integer 1 15) x)"
    unfolding get_entry_numbers_def x
    by (rule reads_sized [OF codec_entry]) (use ok list_size [of entry_ok sz xs] reads_give in \<open>simp_all add: x\<close>)
qed

section \<open>The contract for every message\<close>

lemma and_then_assoc: "and_then (and_then g f) h = and_then g (\<lambda>x. and_then (f x) h)"
proof
  fix s
  show "and_then (and_then g f) h s = and_then g (\<lambda>x. and_then (f x) h) s"
    by (cases "g s") (auto simp: and_then_def)
qed

lemma codec_two:
  assumes "codec p1 g1 v1 e1" and "codec p2 g2 v2 e2" and "\<And>y. mk (f1 y) (f2 y) = y"
  shows "codec (\<lambda>y. and_put (p1 (f1 y)) (p2 (f2 y))) (and_then g1 (\<lambda>a. and_then g2 (\<lambda>b. give (mk a b))))
           (\<lambda>y. v1 (f1 y) \<and> v2 (f2 y)) (\<lambda>y. after (e1 (f1 y)) (e2 (f2 y)))"
  using codec_map [OF codec_pair [OF assms(1,2)], of "\<lambda>y. v1 (f1 y) \<and> v2 (f2 y)" "\<lambda>y. (f1 y, f2 y)" "\<lambda>(a, b). mk a b"]
    assms(3)
  by (simp add: and_then_assoc)

lemma codec_unit: "codec (\<lambda>_. put_nothing) (give ()) (\<lambda>_. True) (\<lambda>_. bits [])"
  by standard (simp_all add: writes_nothing reads_give)

abbreviation enc_number :: "u8 \<Rightarrow> nat \<Rightarrow> bool list" where "enc_number n \<equiv> enc_integer 0 255 (ucast n)"
abbreviation enc_channel :: "u16 \<Rightarrow> nat \<Rightarrow> bool list" where "enc_channel n \<equiv> enc_integer 1 65535 (ucast n)"
abbreviation enc_entries :: "u16 \<times> u32 list \<Rightarrow> nat \<Rightarrow> bool list" where "enc_entries \<equiv> enc_sized (enc_integer 1 15)"

lemma codec_MasterSlaveDetermination:
  "codec Encode_MasterSlaveDetermination Decode_MasterSlaveDetermination
     (\<lambda>x. msd_statusDeterminationNumber x \<le> 16777215)
     (\<lambda>x. enc_plain (after (enc_number (msd_terminalType x)) (enc_integer 0 16777215 (msd_statusDeterminationNumber x))))"
  using codec_plain [OF codec_two [OF codec_number integer.codec_axioms [of 0 16777215],
      of "\<lambda>t n. \<lparr> msd_terminalType = t, msd_statusDeterminationNumber = n \<rparr>" msd_terminalType msd_statusDeterminationNumber]]
  by (simp add: Encode_MasterSlaveDetermination_def [abs_def] Decode_MasterSlaveDetermination_def)

lemmas nulls_defs =
  Encode_Decision_def Decode_Decision_def Encode_MsdRejectCause_def Decode_MsdRejectCause_def
  Encode_Source_def Decode_Source_def Encode_Reason_def Decode_Reason_def
  Encode_RccRejectCause_def Decode_RccRejectCause_def Encode_RmeRejectCause_def Decode_RmeRejectCause_def
  Encode_Response_def Decode_Response_def Encode_RmRejectCause_def Decode_RmRejectCause_def
  Encode_MlRejectCause_def Decode_MlRejectCause_def

lemma codec_MasterSlaveDeterminationAck:
  "codec Encode_MasterSlaveDeterminationAck Decode_MasterSlaveDeterminationAck
     (\<lambda>d. ucast d < (2::u32)) (\<lambda>d. enc_plain (enc_choice 2 False (ucast d)))"
  using codec_plain [OF codec_nulls [of 2 False]]
  by (simp add: Encode_MasterSlaveDeterminationAck_def [abs_def] Decode_MasterSlaveDeterminationAck_def nulls_defs)

lemma codec_MasterSlaveDeterminationReject:
  "codec Encode_MasterSlaveDeterminationReject Decode_MasterSlaveDeterminationReject
     (\<lambda>d. ucast d < (1::u32)) (\<lambda>d. enc_plain (enc_choice 1 True (ucast d)))"
  using codec_plain [OF codec_nulls [of 1 True]]
  by (simp add: Encode_MasterSlaveDeterminationReject_def [abs_def] Decode_MasterSlaveDeterminationReject_def nulls_defs)

text \<open>The messages that consist of one number, of one channel, or of nothing.\<close>

lemma codec_numbers:
  "codec Encode_TerminalCapabilitySetAck Decode_TerminalCapabilitySetAck (\<lambda>_. True) (\<lambda>n. enc_plain (enc_number n))"
  "codec Encode_RoundTripDelayRequest Decode_RoundTripDelayRequest (\<lambda>_. True) (\<lambda>n. enc_plain (enc_number n))"
  "codec Encode_RoundTripDelayResponse Decode_RoundTripDelayResponse (\<lambda>_. True) (\<lambda>n. enc_plain (enc_number n))"
  using codec_plain [OF codec_number]
  by (simp_all add: Encode_TerminalCapabilitySetAck_def [abs_def] Decode_TerminalCapabilitySetAck_def
      Encode_RoundTripDelayRequest_def [abs_def] Decode_RoundTripDelayRequest_def
      Encode_RoundTripDelayResponse_def [abs_def] Decode_RoundTripDelayResponse_def)

lemma codec_channels:
  "codec Encode_OpenLogicalChannelConfirm Decode_OpenLogicalChannelConfirm (\<lambda>n. 0 < n) (\<lambda>n. enc_plain (enc_channel n))"
  "codec Encode_CloseLogicalChannelAck Decode_CloseLogicalChannelAck (\<lambda>n. 0 < n) (\<lambda>n. enc_plain (enc_channel n))"
  "codec Encode_RequestChannelCloseAck Decode_RequestChannelCloseAck (\<lambda>n. 0 < n) (\<lambda>n. enc_plain (enc_channel n))"
  "codec Encode_RequestChannelCloseRelease Decode_RequestChannelCloseRelease (\<lambda>n. 0 < n) (\<lambda>n. enc_plain (enc_channel n))"
  using codec_plain [OF codec_channel]
  by (simp_all add: Encode_OpenLogicalChannelConfirm_def [abs_def] Decode_OpenLogicalChannelConfirm_def
      Encode_CloseLogicalChannelAck_def [abs_def] Decode_CloseLogicalChannelAck_def
      Encode_RequestChannelCloseAck_def [abs_def] Decode_RequestChannelCloseAck_def
      Encode_RequestChannelCloseRelease_def [abs_def] Decode_RequestChannelCloseRelease_def)

lemma codec_releases:
  "codec (\<lambda>_. Encode_MasterSlaveDeterminationRelease) Decode_MasterSlaveDeterminationRelease (\<lambda>_. True) (\<lambda>_. enc_plain (bits []))"
  "codec (\<lambda>_. Encode_TerminalCapabilitySetRelease) Decode_TerminalCapabilitySetRelease (\<lambda>_. True) (\<lambda>_. enc_plain (bits []))"
  "codec (\<lambda>_. Encode_RequestModeRelease) Decode_RequestModeRelease (\<lambda>_. True) (\<lambda>_. enc_plain (bits []))"
  "codec (\<lambda>_. Encode_MaintenanceLoopOffCommand) Decode_MaintenanceLoopOffCommand (\<lambda>_. True) (\<lambda>_. enc_plain (bits []))"
  using codec_plain [OF codec_unit]
  by (simp_all add: Encode_MasterSlaveDeterminationRelease_def Decode_MasterSlaveDeterminationRelease_def
      Encode_TerminalCapabilitySetRelease_def Decode_TerminalCapabilitySetRelease_def
      Encode_RequestModeRelease_def Decode_RequestModeRelease_def
      Encode_MaintenanceLoopOffCommand_def Decode_MaintenanceLoopOffCommand_def)

lemma codec_RequestChannelCloseReject:
  "codec Encode_RequestChannelCloseReject Decode_RequestChannelCloseReject
     (\<lambda>x. 0 < rcr_forwardLogicalChannelNumber x \<and> ucast (rcr_rccRejectCause x) < (1::u32))
     (\<lambda>x. enc_plain (after (enc_channel (rcr_forwardLogicalChannelNumber x)) (enc_choice 1 True (ucast (rcr_rccRejectCause x)))))"
  using codec_plain [OF codec_two [OF codec_channel codec_nulls [of 1 True],
      of "\<lambda>n c. \<lparr> rcr_forwardLogicalChannelNumber = n, rcr_rccRejectCause = c \<rparr>" rcr_forwardLogicalChannelNumber rcr_rccRejectCause]]
  by (simp add: Encode_RequestChannelCloseReject_def [abs_def] Decode_RequestChannelCloseReject_def nulls_defs)

lemma codec_MultiplexEntrySendAck:
  "codec Encode_MultiplexEntrySendAck Decode_MultiplexEntrySendAck
     (\<lambda>x. list_ok entry_ok (mea_size x, mea_entryNumbers x))
     (\<lambda>x. enc_plain (after (enc_number (mea_sequenceNumber x)) (enc_entries (mea_size x, mea_entryNumbers x))))"
  using codec_plain [OF codec_two [OF codec_number codec_entry_numbers,
      of "\<lambda>n (sz, xs). \<lparr> mea_sequenceNumber = n, mea_size = sz, mea_entryNumbers = xs \<rparr>"
         mea_sequenceNumber "\<lambda>x. (mea_size x, mea_entryNumbers x)"]]
  by (simp add: Encode_MultiplexEntrySendAck_def [abs_def] Decode_MultiplexEntrySendAck_def case_prod_unfold)

lemma codec_entry_record:
  "codec put_entry_record get_entry_record (\<lambda>x. list_ok entry_ok (enr_size x, enr_entryNumbers x))
     (\<lambda>x. enc_entries (enr_size x, enr_entryNumbers x))"
  using codec_map [OF codec_entry_numbers, of "\<lambda>x. list_ok entry_ok (enr_size x, enr_entryNumbers x)" "\<lambda>x. (enr_size x, enr_entryNumbers x)"
      "\<lambda>(sz, xs). \<lparr> enr_size = sz, enr_entryNumbers = xs \<rparr>"]
  by (simp add: put_entry_record_def [abs_def] get_entry_record_def case_prod_unfold)

lemma codec_entries:
  "codec Encode_MultiplexEntrySendRelease Decode_MultiplexEntrySendRelease (list_ok entry_ok) (\<lambda>x. enc_plain (enc_entries x))"
  "codec Encode_RequestMultiplexEntry Decode_RequestMultiplexEntry
     (\<lambda>x. list_ok entry_ok (enr_size x, enr_entryNumbers x)) (\<lambda>x. enc_plain (enc_entries (enr_size x, enr_entryNumbers x)))"
  "codec Encode_RequestMultiplexEntryAck Decode_RequestMultiplexEntryAck
     (\<lambda>x. list_ok entry_ok (enr_size x, enr_entryNumbers x)) (\<lambda>x. enc_plain (enc_entries (enr_size x, enr_entryNumbers x)))"
  "codec Encode_RequestMultiplexEntryRelease Decode_RequestMultiplexEntryRelease
     (\<lambda>x. list_ok entry_ok (enr_size x, enr_entryNumbers x)) (\<lambda>x. enc_plain (enc_entries (enr_size x, enr_entryNumbers x)))"
  using codec_plain [OF codec_entry_record] codec_plain [OF codec_entry_numbers]
  by (simp_all add: Encode_MultiplexEntrySendRelease_def [abs_def] Decode_MultiplexEntrySendRelease_def
      Encode_RequestMultiplexEntry_def [abs_def] Decode_RequestMultiplexEntry_def
      Encode_RequestMultiplexEntryAck_def [abs_def] Decode_RequestMultiplexEntryAck_def
      Encode_RequestMultiplexEntryRelease_def [abs_def] Decode_RequestMultiplexEntryRelease_def)

lemma codec_modes:
  "codec Encode_RequestModeAck Decode_RequestModeAck (\<lambda>x. ucast (snd x) < (2::u32))
     (\<lambda>x. enc_plain (after (enc_number (fst x)) (enc_choice 2 True (ucast (snd x)))))"
  "codec Encode_RequestModeReject Decode_RequestModeReject (\<lambda>x. ucast (snd x) < (3::u32))
     (\<lambda>x. enc_plain (after (enc_number (fst x)) (enc_choice 3 True (ucast (snd x)))))"
  using codec_plain [OF codec_two [OF codec_number codec_nulls [of 2 True], of Pair fst snd]]
    codec_plain [OF codec_two [OF codec_number codec_nulls [of 3 True], of Pair fst snd]]
  by (simp_all add: Encode_RequestModeAck_def [abs_def] Decode_RequestModeAck_def
      Encode_RequestModeReject_def [abs_def] Decode_RequestModeReject_def nulls_defs)

text \<open>The description of one rejected entry.\<close>

definition description_ok :: "u8 \<times> u16 \<Rightarrow> bool" where
  "description_ok d \<longleftrightarrow> 1 \<le> fst d \<and> fst d \<le> 15 \<and> ucast (snd d) < (1::u32)"

definition enc_description :: "u8 \<times> u16 \<Rightarrow> nat \<Rightarrow> bool list" where
  "enc_description d = enc_plain (after (enc_integer 1 15 (ucast (fst d))) (enc_choice 1 True (ucast (snd d))))"

lemma codec_small_entry:
  "codec (\<lambda>n::u8. PutInteger 1 15 (ucast n)) (and_then (GetInteger 1 15) (\<lambda>v. give (ucast v)))
     (\<lambda>n. 1 \<le> n \<and> n \<le> 15) (\<lambda>n. enc_integer 1 15 (ucast n))"
  by (rule codec_map [OF codec_entry]) (simp add: entry_ok_def word_le_nat_alt word_unat_eq_iff unat_casts)

lemma codec_description:
  "codec Encode_RequestMultiplexEntryRejectionDescriptions Decode_RequestMultiplexEntryRejectionDescriptions
     description_ok enc_description"
  using codec_plain [OF codec_two [OF codec_small_entry codec_nulls [of 1 True], of Pair fst snd]]
  by (simp add: Encode_RequestMultiplexEntryRejectionDescriptions_def [abs_def]
      Decode_RequestMultiplexEntryRejectionDescriptions_def nulls_defs and_then_assoc
      description_ok_def [abs_def] enc_description_def [abs_def] conj_assoc)

lemma writes_descriptions:
  "\<forall>x \<in> set xs. description_ok x \<Longrightarrow> writes (put_descriptions (length xs) xs) (enc_list enc_description xs)"
proof (induction xs)
  case (Cons x xs)
  then show ?case
    using codec.writes_enc [OF codec_description, of x]
    by (simp add: enc_list_def writes_and_put)
qed (simp add: enc_list_def writes_nothing)

definition reject_ok :: "request_multiplex_entry_reject \<Rightarrow> bool" where
  "reject_ok x \<longleftrightarrow> list_ok entry_ok (enr_size (rmj_entryNumbers x), enr_entryNumbers (rmj_entryNumbers x))
     \<and> list_ok description_ok (rmj_size x, rmj_descriptions x)"

definition enc_reject :: "request_multiplex_entry_reject \<Rightarrow> nat \<Rightarrow> bool list" where
  "enc_reject x = after (enc_entries (enr_size (rmj_entryNumbers x), enr_entryNumbers (rmj_entryNumbers x)))
     (enc_sized enc_description (rmj_size x, rmj_descriptions x))"

lemma codec_RequestMultiplexEntryReject:
  "codec Encode_RequestMultiplexEntryReject Decode_RequestMultiplexEntryReject reject_ok (\<lambda>x. enc_plain (enc_reject x))"
proof -
  have "codec (\<lambda>x. and_put (put_entry_record (rmj_entryNumbers x))
        (and_put (PutInteger 1 15 (ucast (rmj_size x))) (put_descriptions (unat (rmj_size x)) (rmj_descriptions x))))
      (and_then get_entry_record (\<lambda>ns. and_then (GetInteger 1 15) (\<lambda>size.
        and_then (read_times (unat (ucast size :: u8)) Decode_RequestMultiplexEntryRejectionDescriptions) (\<lambda>ds.
          give \<lparr> rmj_entryNumbers = ns, rmj_size = ucast (ucast size :: u8), rmj_descriptions = ds \<rparr>))))
      reject_ok enc_reject" (is "codec ?put ?get _ _")
  proof
    fix x
    assume "reject_ok x"
    then have ok: "list_ok entry_ok (enr_size (rmj_entryNumbers x), enr_entryNumbers (rmj_entryNumbers x))"
      and ds: "list_ok description_ok (rmj_size x, rmj_descriptions x)" by (simp_all add: reject_ok_def)
    have "writes (put_descriptions (unat (rmj_size x)) (rmj_descriptions x)) (enc_list enc_description (rmj_descriptions x))"
      using ds writes_descriptions [of "rmj_descriptions x"] by (simp add: list_ok_def)
    then have "writes (and_put (PutInteger 1 15 (ucast (rmj_size x))) (put_descriptions (unat (rmj_size x)) (rmj_descriptions x)))
        (enc_sized enc_description (rmj_size x, rmj_descriptions x))"
      using list_size [OF ds] by (simp add: enc_sized_def writes_and_put writes_integer)
    then show "writes (?put x) (enc_reject x)"
      unfolding enc_reject_def by (rule writes_and_put [OF codec.writes_enc [OF codec_entry_record ok]])
    show "reads ?get x (enc_reject x)"
      unfolding enc_reject_def
      by (rule reads_and_then [OF codec.reads_enc [OF codec_entry_record ok]],
          rule reads_sized [OF codec_description ds])
         (use list_size [OF ds] reads_give [of x] in \<open>cases x, simp\<close>)
  qed
  from codec_plain [OF this] show ?thesis
    by (simp add: Encode_RequestMultiplexEntryReject_def [abs_def] Decode_RequestMultiplexEntryReject_def)
qed

text \<open>The maintenance loop.\<close>

definition loop_ok :: "ml_type \<Rightarrow> bool" where
  "loop_ok x \<longleftrightarrow> (mlt_index x = 0 \<and> mlt_channel x = 0) \<or> ((mlt_index x = 1 \<or> mlt_index x = 2) \<and> 0 < mlt_channel x)"

definition enc_loop :: "ml_type \<Rightarrow> nat \<Rightarrow> bool list" where
  "enc_loop x = after (enc_choice 3 True (ucast (mlt_index x))) (if mlt_index x = 0 then bits [] else enc_channel (mlt_channel x))"

lemma codec_loop: "codec Encode_MlRequestType Decode_MlRequestType loop_ok enc_loop"
proof
  fix x :: ml_type
  assume ok: "loop_ok x"
  then have i: "choice_ok 3 True (mlt_index x)" by (auto simp: loop_ok_def choice_ok_def)
  show "writes (Encode_MlRequestType x) (enc_loop x)"
    unfolding Encode_MlRequestType_def enc_loop_def
    by (rule writes_and_put [OF choice.writes_enc [OF i]])
       (use ok codec.writes_enc [OF codec_channel] writes_nothing in \<open>auto simp: loop_ok_def\<close>)
  obtain j c where x: "x = \<lparr> mlt_index = j, mlt_channel = c \<rparr>" by (cases x)
  show "reads Decode_MlRequestType x (enc_loop x)"
    unfolding Decode_MlRequestType_def enc_loop_def
    by (rule reads_and_then [OF choice.reads_enc [OF i]])
       (use ok reads_and_give [OF codec.reads_enc [OF codec_channel], of c "\<lambda>c. \<lparr> mlt_index = j, mlt_channel = c \<rparr>"]
          reads_give [of x] in \<open>auto simp: loop_ok_def x\<close>)
qed

lemma codec_loops:
  "codec Encode_MaintenanceLoopRequest Decode_MaintenanceLoopRequest loop_ok (\<lambda>x. enc_plain (enc_loop x))"
  "codec Encode_MaintenanceLoopAck Decode_MaintenanceLoopAck loop_ok (\<lambda>x. enc_plain (enc_loop x))"
  "codec Encode_MaintenanceLoopReject Decode_MaintenanceLoopReject (\<lambda>x. loop_ok (fst x) \<and> ucast (snd x) < (1::u32))
     (\<lambda>x. enc_plain (after (enc_loop (fst x)) (enc_choice 1 True (ucast (snd x)))))"
  using codec_plain [OF codec_loop] codec_plain [OF codec_two [OF codec_loop codec_nulls [of 1 True], of Pair fst snd]]
  by (simp_all add: Encode_MaintenanceLoopRequest_def [abs_def] Decode_MaintenanceLoopRequest_def
      Encode_MaintenanceLoopAck_def [abs_def] Decode_MaintenanceLoopAck_def
      Encode_MaintenanceLoopReject_def [abs_def] Decode_MaintenanceLoopReject_def
      Encode_MlAckType_def Decode_MlAckType_def Encode_MlRejectType_def Decode_MlRejectType_def nulls_defs)

text \<open>\<^verbatim>\<open>CloseLogicalChannel\<close> with its extension: a map of one flag, then the reason as an item.\<close>

definition close_ok :: "close_logical_channel \<Rightarrow> bool" where
  "close_ok x \<longleftrightarrow> 0 < cl_forwardLogicalChannelNumber x \<and> ucast (cl_source x) < (2::u32)
     \<and> (if cl_option_of_reason x then ucast (cl_reason x) < (3::u32) else cl_reason x = 0)"

definition enc_close :: "close_logical_channel \<Rightarrow> nat \<Rightarrow> bool list" where
  "enc_close x = after (bits [cl_option_of_reason x]) (after (enc_channel (cl_forwardLogicalChannelNumber x))
     (after (enc_choice 2 False (ucast (cl_source x)))
       (if cl_option_of_reason x then
          after (bits (msb_bits 7 (0 :: u8))) (after (bits [True]) (enc_temp (enc_choice 3 True (ucast (cl_reason x)))))
        else bits [])))"

lemma length_sent_octets: "length (sent_octets n v p) \<le> 39"
proof -
  have "length (rev (take n (le_octets v))) \<le> 4" by (simp add: le_octets_def)
  moreover have "length (pad p) \<le> 7" by simp
  ultimately show ?thesis by (simp add: sent_octets_def octets_def del: length_pad)
qed

lemma length_enc_integer: "length (enc_integer l u v p) \<le> 41"
proof -
  have "field_width r \<le> 8" for r by (simp add: field_width_def)
  then show ?thesis
    using length_sent_octets [of "offset_octets (v - l)" "v - l" "p + 2"] length_sent_octets [of 1 "v - l" p]
      length_sent_octets [of 2 "v - l" p]
    by (simp add: enc_integer_def Let_def after_def bits_def le_trans [of "field_width _" 8 41])
qed

lemma length_enc_choice: "length (enc_choice r b i p) \<le> 42"
  using length_enc_integer [of 0 "r - 1" i "p + 1"] length_enc_integer [of 0 "r - 1" i p]
  by (auto simp: enc_choice_def after_def bits_def)

lemma reads_reason_map:
  "reads GetUnknownSigMap \<lparr> map_size = 1, optionFlags = [1], extensionsRead = 0 \<rparr>
     (after (bits (msb_bits 7 (0 :: u8))) (bits [True]))"
proof -
  have size: "reads GetNormSmallLength 1 (bits (msb_bits 7 (0 :: u8)))"
    using small_length.reads_enc [of 1] by simp
  have flags: "reads (read_times 1 (ReadBits 1)) [1] (bits [True])"
    using reads_flags [of "[True]"] by simp
  have "reads (and_then (read_times 1 (ReadBits 1)) (\<lambda>flags. give \<lparr> map_size = 1, optionFlags = flags, extensionsRead = 0 \<rparr>))
      \<lparr> map_size = 1, optionFlags = [1], extensionsRead = 0 \<rparr> (bits [True])"
    by (rule reads_and_give [OF flags])
  then show ?thesis
    unfolding GetUnknownSigMap_def by (intro reads_and_then [OF size]) simp
qed

lemma codec_CloseLogicalChannel: "codec Encode_CloseLogicalChannel Decode_CloseLogicalChannel close_ok enc_close"
proof
  fix x
  assume ok: "close_ok x"
  obtain n sc b r where x: "x = \<lparr> cl_forwardLogicalChannelNumber = n, cl_source = sc, cl_option_of_reason = b, cl_reason = r \<rparr>"
    by (cases x)
  let ?er = "enc_choice 3 True (ucast r)"
  have n: "0 < n" and sc: "ucast sc < (2::u32)" and r: "b \<Longrightarrow> ucast r < (3::u32)" "\<not> b \<Longrightarrow> r = 0"
    using ok by (auto simp: close_ok_def x)
  have wn: "writes (put_channel n) (enc_channel n)" and rn: "reads get_channel n (enc_channel n)"
    using n codec_channel by (simp_all add: codec_def)
  have ws: "writes (Encode_Source sc) (enc_choice 2 False (ucast sc))"
    and rs: "reads Decode_Source sc (enc_choice 2 False (ucast sc))"
    using sc codec_nulls [of 2 False] by (simp_all add: codec_def nulls_defs)
  have wr: "writes (Encode_Reason r) ?er" and rr: "reads Decode_Reason r ?er" if b
    using r(1) [OF that] codec_nulls [of 3 True] by (simp_all add: codec_def nulls_defs)
  have short: "length (?er 0) \<le> 8 * 127" using length_enc_choice [of 3 True "ucast r" 0] by linarith
  show "writes (Encode_CloseLogicalChannel x) (enc_close x)"
  proof (cases b)
    case True
    have "writes (PutNormSmallLength 1) (bits (msb_bits 7 (0 :: u8)))" using small_length.writes_enc [of 1] by simp
    then show ?thesis
      unfolding Encode_CloseLogicalChannel_def enc_close_def x
      using True writes_boolean [of True]
      by (auto intro!: writes_and_put wn ws writes_PutExtensionItem wr short simp del: after_bits(1))
  next
    case False
    then show ?thesis
      unfolding Encode_CloseLogicalChannel_def enc_close_def x
      using writes_boolean [of False] writes_and_put [OF ws writes_nothing]
      by (auto intro!: writes_and_put wn)
  qed
  show "reads Decode_CloseLogicalChannel x (enc_close x)"
  proof (cases b)
    case False
    then have "reads (and_then Decode_Source (\<lambda>source. give \<lparr> cl_forwardLogicalChannelNumber = n, cl_source = source,
        cl_option_of_reason = False, cl_reason = 0 \<rparr>)) x (enc_choice 2 False (ucast sc))"
      using reads_and_give [OF rs, of "\<lambda>source. \<lparr> cl_forwardLogicalChannelNumber = n, cl_source = source,
        cl_option_of_reason = False, cl_reason = 0 \<rparr>"] r(2) by (simp add: x)
    then show ?thesis
      using False
      unfolding Decode_CloseLogicalChannel_def enc_close_def
      by (intro reads_boolean_then) (auto simp: x intro!: reads_and_then [OF rn])
  next
    case True
    let ?m = "\<lparr> map_size = 1, optionFlags = [1 :: u8], extensionsRead = 0 \<rparr>"
    let ?m1 = "\<lparr> map_size = 1, optionFlags = [1 :: u8], extensionsRead = 1 \<rparr>"
    have item: "reads (and_then (ExtensionPrep ?m) (\<lambda>m1. and_then Decode_Reason (\<lambda>reason.
        and_then read_rest (\<lambda>_. give (m1, reason))))) (?m1, r) (enc_temp ?er)"
    proof -
      have "reads (and_then Decode_Reason (\<lambda>reason. give (?m1, reason))) (?m1, r) ?er"
        by (rule reads_and_give [OF rr [OF True]])
      then have "reads (and_then GetLengthDet (\<lambda>_. and_then (and_then Decode_Reason (\<lambda>reason. give (?m1, reason)))
          (\<lambda>y. and_then read_rest (\<lambda>_. give y)))) (?m1, r) (enc_temp ?er)"
        by (intro reads_item from_octet_intros short)
      then show ?thesis by (simp add: ExtensionPrep_def and_then_assoc)
    qed
    have skip: "reads (and_then (SkipUnreadExtensions ?m1) (\<lambda>_. give x)) x (bits [])"
      using reads_give by (simp add: SkipUnreadExtensions_def)
    have inner: "reads (and_then (and_then (ExtensionPrep ?m) (\<lambda>m1. and_then Decode_Reason (\<lambda>reason.
        and_then read_rest (\<lambda>_. give (m1, reason))))) (\<lambda>(m1, reason). and_then (SkipUnreadExtensions m1) (\<lambda>_.
          give \<lparr> cl_forwardLogicalChannelNumber = n, cl_source = sc, cl_option_of_reason = True, cl_reason = reason \<rparr>))) x
        (after (enc_temp ?er) (bits []))"
      by (rule reads_and_then [OF item]) (use skip True in \<open>simp add: x\<close>)
    have "reads (and_then GetUnknownSigMap (\<lambda>m. and_then (if SigMapValue 0 m \<noteq> 0 then
           and_then (ExtensionPrep m) (\<lambda>m1. and_then Decode_Reason (\<lambda>reason. and_then read_rest (\<lambda>_. give (m1, reason))))
           else give (m, 0)) (\<lambda>(m1, reason). and_then (SkipUnreadExtensions m1) (\<lambda>_.
             give \<lparr> cl_forwardLogicalChannelNumber = n, cl_source = sc,
                  cl_option_of_reason = (SigMapValue 0 m \<noteq> 0), cl_reason = reason \<rparr>)))) x
        (after (after (bits (msb_bits 7 (0 :: u8))) (bits [True])) (after (enc_temp ?er) (bits [])))"
      by (rule reads_and_then [OF reads_reason_map])
         (use inner in \<open>simp add: SigMapValue_def del: after_bits\<close>)
    note map = this [unfolded after_assoc after_bits(3)]
    then show ?thesis
      using True
      unfolding Decode_CloseLogicalChannel_def enc_close_def
      by (intro reads_boolean_then)
         (auto simp: x simp del: after_bits(1) intro!: reads_and_then [OF rn] reads_and_then [OF rs])
  qed
qed

end
