(* ===== verification/PerProtocol.thy ===== *)
theory PerProtocol
  imports PerMessages
begin

text \<open>
  The entry points of the message codec (\<^verbatim>\<open>h245/per/src/per.cpp\<close>): the CHOICE of the message class, the
  CHOICE of the message, and the loop of \<^verbatim>\<open>PER::Decode\<close> that takes a buffer apart into messages and hands
  them on.

  The \<open>switch\<close> of every function is a list of rows, searched by the number of the message. A row of a
  root alternative encodes or decodes in place, a row of an extension does so through an open type. The
  bodies of the messages that the entity does not look into (\<^verbatim>\<open>NonStandardMessage\<close>, the capability
  sets, \<^verbatim>\<open>OpenLogicalChannel\<close> and its answers, the mode and multiplex descriptions, the commands and
  indications) are arguments of the definitions. \<^verbatim>\<open>PER::Reset\<close> has no caller.
\<close>

section \<open>Encoding\<close>

type_synonym other_writers = "u8 \<Rightarrow> u8 \<Rightarrow> payload option \<Rightarrow> writer"
type_synonym other_readers = "u8 \<Rightarrow> u8 \<Rightarrow> payload reader"

text \<open>The casts of this file. A block of another structure is read beyond its end.\<close>

definition to_MasterSlaveDeterminationReject :: "payload \<Rightarrow> u16 option" where
  "to_MasterSlaveDeterminationReject p = (case p of P_MasterSlaveDeterminationReject x \<Rightarrow> Some x | _ \<Rightarrow> None)"

definition to_MultiplexEntrySendRelease :: "payload \<Rightarrow> (u16 \<times> u32 list) option" where
  "to_MultiplexEntrySendRelease p = (case p of P_MultiplexEntrySendRelease x y \<Rightarrow> Some (x, y) | _ \<Rightarrow> None)"

definition to_RequestMultiplexEntryAck :: "payload \<Rightarrow> entry_numbers option" where
  "to_RequestMultiplexEntryAck p = (case p of P_RequestMultiplexEntryAck x \<Rightarrow> Some x | _ \<Rightarrow> None)"

definition to_RequestMultiplexEntryRelease :: "payload \<Rightarrow> entry_numbers option" where
  "to_RequestMultiplexEntryRelease p = (case p of P_RequestMultiplexEntryRelease x \<Rightarrow> Some x | _ \<Rightarrow> None)"

definition to_MaintenanceLoopAck :: "payload \<Rightarrow> ml_type option" where
  "to_MaintenanceLoopAck p = (case p of P_MaintenanceLoopAck x \<Rightarrow> Some x | _ \<Rightarrow> None)"

definition encode_block :: "(payload \<Rightarrow> 'a option) \<Rightarrow> ('a \<Rightarrow> writer) \<Rightarrow> payload option \<Rightarrow> writer" where
  "encode_block sel enc p =
     (case p of None \<Rightarrow> put_raise Overrun
      | Some b \<Rightarrow> (case sel b of None \<Rightarrow> put_raise Overrun | Some x \<Rightarrow> enc x))"

definition request_writers :: "other_writers \<Rightarrow> (u8 \<times> (payload option \<Rightarrow> writer)) list" where
  "request_writers oth =
     [(0, oth H245_MSG_REQ 0),
      (1, encode_block to_MasterSlaveDetermination Encode_MasterSlaveDetermination),
      (2, oth H245_MSG_REQ 2),
      (3, oth H245_MSG_REQ 3),
      (4, encode_block to_CloseLogicalChannel Encode_CloseLogicalChannel),
      (5, oth H245_MSG_REQ 5),
      (6, oth H245_MSG_REQ 6),
      (7, encode_block to_RequestMultiplexEntry Encode_RequestMultiplexEntry),
      (8, oth H245_MSG_REQ 8),
      (9, encode_block to_RoundTripDelayRequest Encode_RoundTripDelayRequest),
      (10, encode_block to_MaintenanceLoopRequest Encode_MaintenanceLoopRequest),
      (11, \<lambda>p. PutExtensionItem (oth H245_MSG_REQ 11 p)),
      (12, \<lambda>p. PutExtensionItem (oth H245_MSG_REQ 12 p)),
      (13, \<lambda>p. PutExtensionItem (oth H245_MSG_REQ 13 p)),
      (14, \<lambda>p. PutExtensionItem (oth H245_MSG_REQ 14 p))]"

definition response_writers :: "other_writers \<Rightarrow> (u8 \<times> (payload option \<Rightarrow> writer)) list" where
  "response_writers oth =
     [(0, oth H245_MSG_RPS 0),
      (1, encode_block to_MasterSlaveDeterminationAck Encode_MasterSlaveDeterminationAck),
      (2, encode_block to_MasterSlaveDeterminationReject Encode_MasterSlaveDeterminationReject),
      (3, encode_block to_TerminalCapabilitySetAck Encode_TerminalCapabilitySetAck),
      (4, oth H245_MSG_RPS 4),
      (5, oth H245_MSG_RPS 5),
      (6, oth H245_MSG_RPS 6),
      (7, encode_block to_CloseLogicalChannelAck Encode_CloseLogicalChannelAck),
      (8, encode_block to_RequestChannelCloseAck Encode_RequestChannelCloseAck),
      (9, encode_block to_RequestChannelCloseReject Encode_RequestChannelCloseReject),
      (10, encode_block to_MultiplexEntrySendAck Encode_MultiplexEntrySendAck),
      (11, oth H245_MSG_RPS 11),
      (12, encode_block to_RequestMultiplexEntryAck Encode_RequestMultiplexEntryAck),
      (13, encode_block to_RequestMultiplexEntryReject Encode_RequestMultiplexEntryReject),
      (14, encode_block to_RequestModeAck Encode_RequestModeAck),
      (15, encode_block to_RequestModeReject Encode_RequestModeReject),
      (16, encode_block to_RoundTripDelayResponse Encode_RoundTripDelayResponse),
      (17, encode_block to_MaintenanceLoopAck Encode_MaintenanceLoopAck),
      (18, encode_block to_MaintenanceLoopReject Encode_MaintenanceLoopReject),
      (19, \<lambda>p. PutExtensionItem (oth H245_MSG_RPS 19 p)),
      (20, \<lambda>p. PutExtensionItem (oth H245_MSG_RPS 20 p)),
      (21, \<lambda>p. PutExtensionItem (oth H245_MSG_RPS 21 p)),
      (22, \<lambda>p. PutExtensionItem (oth H245_MSG_RPS 22 p)),
      (23, \<lambda>p. PutExtensionItem (oth H245_MSG_RPS 23 p))]"

definition command_writers :: "other_writers \<Rightarrow> (u8 \<times> (payload option \<Rightarrow> writer)) list" where
  "command_writers oth =
     [(0, oth H245_MSG_CMD 0),
      (1, \<lambda>_. Encode_MaintenanceLoopOffCommand),
      (2, oth H245_MSG_CMD 2),
      (3, oth H245_MSG_CMD 3),
      (4, oth H245_MSG_CMD 4),
      (5, oth H245_MSG_CMD 5),
      (6, oth H245_MSG_CMD 6),
      (7, \<lambda>p. PutExtensionItem (oth H245_MSG_CMD 7 p)),
      (8, \<lambda>p. PutExtensionItem (oth H245_MSG_CMD 8 p)),
      (9, \<lambda>p. PutExtensionItem (oth H245_MSG_CMD 9 p)),
      (10, \<lambda>p. PutExtensionItem (oth H245_MSG_CMD 10 p))]"

definition indication_writers :: "other_writers \<Rightarrow> (u8 \<times> (payload option \<Rightarrow> writer)) list" where
  "indication_writers oth =
     [(0, oth H245_MSG_IDC 0),
      (1, oth H245_MSG_IDC 1),
      (2, \<lambda>_. Encode_MasterSlaveDeterminationRelease),
      (3, \<lambda>_. Encode_TerminalCapabilitySetRelease),
      (4, encode_block to_OpenLogicalChannelConfirm Encode_OpenLogicalChannelConfirm),
      (5, encode_block to_RequestChannelCloseRelease Encode_RequestChannelCloseRelease),
      (6, encode_block to_MultiplexEntrySendRelease Encode_MultiplexEntrySendRelease),
      (7, encode_block to_RequestMultiplexEntryRelease Encode_RequestMultiplexEntryRelease),
      (8, \<lambda>_. Encode_RequestModeRelease),
      (9, oth H245_MSG_IDC 9),
      (10, oth H245_MSG_IDC 10),
      (11, oth H245_MSG_IDC 11),
      (12, oth H245_MSG_IDC 12),
      (13, oth H245_MSG_IDC 13),
      (14, \<lambda>p. PutExtensionItem (oth H245_MSG_IDC 14 p)),
      (15, \<lambda>p. PutExtensionItem (oth H245_MSG_IDC 15 p)),
      (16, \<lambda>p. PutExtensionItem (oth H245_MSG_IDC 16 p)),
      (17, \<lambda>p. PutExtensionItem (oth H245_MSG_IDC 17 p)),
      (18, \<lambda>p. PutExtensionItem (oth H245_MSG_IDC 18 p)),
      (19, \<lambda>p. PutExtensionItem (oth H245_MSG_IDC 19 p)),
      (20, \<lambda>p. PutExtensionItem (oth H245_MSG_IDC 20 p)),
      (21, \<lambda>p. PutExtensionItem (oth H245_MSG_IDC 21 p))]"

text \<open>One of the four functions: the index, then the body.\<close>

definition message_encode ::
  "u32 \<Rightarrow> (u8 \<times> (payload option \<Rightarrow> writer)) list \<Rightarrow> payload option \<Rightarrow> u8 \<Rightarrow> writer" where
  "message_encode n rows p type2 =
     and_put (PutChoiceIndex n True (ucast type2))
       (case map_of rows type2 of None \<Rightarrow> put_raise Leave | Some body \<Rightarrow> body p)"

definition RequestMessage_encode :: "other_writers \<Rightarrow> payload option \<Rightarrow> u8 \<Rightarrow> writer" where
  "RequestMessage_encode oth = message_encode 11 (request_writers oth)"

definition ResponseMessage_encode :: "other_writers \<Rightarrow> payload option \<Rightarrow> u8 \<Rightarrow> writer" where
  "ResponseMessage_encode oth = message_encode 19 (response_writers oth)"

definition CommandMessage_encode :: "other_writers \<Rightarrow> payload option \<Rightarrow> u8 \<Rightarrow> writer" where
  "CommandMessage_encode oth = message_encode 7 (command_writers oth)"

definition IndicationMessage_encode :: "other_writers \<Rightarrow> payload option \<Rightarrow> u8 \<Rightarrow> writer" where
  "IndicationMessage_encode oth = message_encode 14 (indication_writers oth)"

text \<open>The octets that are handed to the lower layer: the first \<^verbatim>\<open>GetSize\<close> octets of the block.\<close>

definition message_class_encode :: "other_writers \<Rightarrow> payload option \<Rightarrow> u8 \<Rightarrow> u8 \<Rightarrow> writer" where
  "message_class_encode oth p type1 type2 =
     and_put (PutChoiceIndex 4 True (ucast type1))
     (and_put (if type1 = 0 then RequestMessage_encode oth p type2
               else if type1 = 1 then ResponseMessage_encode oth p type2
               else if type1 = 2 then CommandMessage_encode oth p type2
               else if type1 = 3 then IndicationMessage_encode oth p type2
               else put_raise Leave)
      WriteRemainingBits)"

definition MultiSysCtrlMessage_encode ::
  "other_writers \<Rightarrow> payload option \<Rightarrow> u8 \<Rightarrow> u8 \<Rightarrow> per_fault + u8 list" where
  "MultiSysCtrlMessage_encode oth p type1 type2 =
     bind_res (message_class_encode oth p type1 type2 NewOutStream)
       (\<lambda>s. Inr (take (unat (byteIndex s)) (out_data s)))"

definition Encode :: "other_writers \<Rightarrow> h245_msg \<Rightarrow> per_fault + u8 list" where
  "Encode oth m = MultiSysCtrlMessage_encode oth (pData m) (Type1 m) (Type2 m)"

section \<open>Decoding\<close>

definition block_of :: "('a \<Rightarrow> payload) \<Rightarrow> 'a reader \<Rightarrow> payload reader" where
  "block_of mk g = and_then g (\<lambda>x. give (mk x))"

definition in_item :: "'a reader \<Rightarrow> 'a reader" where
  "in_item g = and_then GetLengthDet (\<lambda>_. and_then g (\<lambda>x. and_then read_rest (\<lambda>_. give x)))"

definition request_readers :: "other_readers \<Rightarrow> (u8 \<times> payload reader) list" where
  "request_readers oth =
     [(0, oth H245_MSG_REQ 0),
      (1, block_of P_MasterSlaveDetermination Decode_MasterSlaveDetermination),
      (2, oth H245_MSG_REQ 2),
      (3, oth H245_MSG_REQ 3),
      (4, block_of P_CloseLogicalChannel Decode_CloseLogicalChannel),
      (5, oth H245_MSG_REQ 5),
      (6, oth H245_MSG_REQ 6),
      (7, block_of P_RequestMultiplexEntry Decode_RequestMultiplexEntry),
      (8, oth H245_MSG_REQ 8),
      (9, block_of P_RoundTripDelayRequest Decode_RoundTripDelayRequest),
      (10, block_of P_MaintenanceLoopRequest Decode_MaintenanceLoopRequest),
      (11, in_item (oth H245_MSG_REQ 11)),
      (12, in_item (oth H245_MSG_REQ 12)),
      (13, in_item (oth H245_MSG_REQ 13)),
      (14, in_item (oth H245_MSG_REQ 14))]"

definition response_readers :: "other_readers \<Rightarrow> (u8 \<times> payload reader) list" where
  "response_readers oth =
     [(0, oth H245_MSG_RPS 0),
      (1, block_of P_MasterSlaveDeterminationAck Decode_MasterSlaveDeterminationAck),
      (2, block_of P_MasterSlaveDeterminationReject Decode_MasterSlaveDeterminationReject),
      (3, block_of P_TerminalCapabilitySetAck Decode_TerminalCapabilitySetAck),
      (4, oth H245_MSG_RPS 4),
      (5, oth H245_MSG_RPS 5),
      (6, oth H245_MSG_RPS 6),
      (7, block_of P_CloseLogicalChannelAck Decode_CloseLogicalChannelAck),
      (8, block_of P_RequestChannelCloseAck Decode_RequestChannelCloseAck),
      (9, block_of P_RequestChannelCloseReject Decode_RequestChannelCloseReject),
      (10, block_of P_MultiplexEntrySendAck Decode_MultiplexEntrySendAck),
      (11, oth H245_MSG_RPS 11),
      (12, block_of P_RequestMultiplexEntryAck Decode_RequestMultiplexEntryAck),
      (13, block_of P_RequestMultiplexEntryReject Decode_RequestMultiplexEntryReject),
      (14, block_of (\<lambda>(x, y). P_RequestModeAck x y) Decode_RequestModeAck),
      (15, block_of (\<lambda>(x, y). P_RequestModeReject x y) Decode_RequestModeReject),
      (16, block_of P_RoundTripDelayResponse Decode_RoundTripDelayResponse),
      (17, block_of P_MaintenanceLoopAck Decode_MaintenanceLoopAck),
      (18, block_of (\<lambda>(x, y). P_MaintenanceLoopReject x y) Decode_MaintenanceLoopReject),
      (19, in_item (oth H245_MSG_RPS 19)),
      (20, in_item (oth H245_MSG_RPS 20)),
      (21, in_item (oth H245_MSG_RPS 21)),
      (22, in_item (oth H245_MSG_RPS 22)),
      (23, in_item (oth H245_MSG_RPS 23))]"

definition command_readers :: "other_readers \<Rightarrow> (u8 \<times> payload reader) list" where
  "command_readers oth =
     [(0, oth H245_MSG_CMD 0),
      (1, and_then Decode_MaintenanceLoopOffCommand (\<lambda>_. give P_MaintenanceLoopOffCommand)),
      (2, oth H245_MSG_CMD 2),
      (3, oth H245_MSG_CMD 3),
      (4, oth H245_MSG_CMD 4),
      (5, oth H245_MSG_CMD 5),
      (6, oth H245_MSG_CMD 6),
      (7, in_item (oth H245_MSG_CMD 7)),
      (8, in_item (oth H245_MSG_CMD 8)),
      (9, in_item (oth H245_MSG_CMD 9)),
      (10, in_item (oth H245_MSG_CMD 10))]"

definition indication_readers :: "other_readers \<Rightarrow> (u8 \<times> payload reader) list" where
  "indication_readers oth =
     [(0, oth H245_MSG_IDC 0),
      (1, oth H245_MSG_IDC 1),
      (2, and_then Decode_MasterSlaveDeterminationRelease (\<lambda>_. give P_MasterSlaveDeterminationRelease)),
      (3, and_then Decode_TerminalCapabilitySetRelease (\<lambda>_. give P_TerminalCapabilitySetRelease)),
      (4, block_of P_OpenLogicalChannelConfirm Decode_OpenLogicalChannelConfirm),
      (5, block_of P_RequestChannelCloseRelease Decode_RequestChannelCloseRelease),
      (6, block_of (\<lambda>(x, y). P_MultiplexEntrySendRelease x y) Decode_MultiplexEntrySendRelease),
      (7, block_of P_RequestMultiplexEntryRelease Decode_RequestMultiplexEntryRelease),
      (8, and_then Decode_RequestModeRelease (\<lambda>_. give P_RequestModeRelease)),
      (9, oth H245_MSG_IDC 9),
      (10, oth H245_MSG_IDC 10),
      (11, oth H245_MSG_IDC 11),
      (12, oth H245_MSG_IDC 12),
      (13, oth H245_MSG_IDC 13),
      (14, in_item (oth H245_MSG_IDC 14)),
      (15, in_item (oth H245_MSG_IDC 15)),
      (16, in_item (oth H245_MSG_IDC 16)),
      (17, in_item (oth H245_MSG_IDC 17)),
      (18, in_item (oth H245_MSG_IDC 18)),
      (19, in_item (oth H245_MSG_IDC 19)),
      (20, in_item (oth H245_MSG_IDC 20)),
      (21, in_item (oth H245_MSG_IDC 21))]"

text \<open>An index without a row is skipped as an open type; the pointer to the block keeps its value.\<close>

definition message_decode ::
  "u32 \<Rightarrow> (u8 \<times> payload reader) list \<Rightarrow> payload option \<Rightarrow> (payload option \<times> u8) reader" where
  "message_decode n rows p =
     and_then (GetChoiceIndex n True) (\<lambda>i.
       let type2 = ucast i
       in case map_of rows type2 of
            Some body \<Rightarrow> and_then body (\<lambda>b. give (Some b, type2))
          | None \<Rightarrow> and_then SkipOneExtension (\<lambda>_. give (p, type2)))"

definition RequestMessage_decode :: "other_readers \<Rightarrow> payload option \<Rightarrow> (payload option \<times> u8) reader" where
  "RequestMessage_decode oth = message_decode 11 (request_readers oth)"

definition ResponseMessage_decode :: "other_readers \<Rightarrow> payload option \<Rightarrow> (payload option \<times> u8) reader" where
  "ResponseMessage_decode oth = message_decode 19 (response_readers oth)"

definition CommandMessage_decode :: "other_readers \<Rightarrow> payload option \<Rightarrow> (payload option \<times> u8) reader" where
  "CommandMessage_decode oth = message_decode 7 (command_readers oth)"

definition IndicationMessage_decode :: "other_readers \<Rightarrow> payload option \<Rightarrow> (payload option \<times> u8) reader" where
  "IndicationMessage_decode oth = message_decode 14 (indication_readers oth)"

text \<open>Class, block and number of the next message; the last two keep their old values \<open>p\<close> and \<open>type2\<close>
  when the class is unknown.\<close>

definition message_class_decode ::
  "other_readers \<Rightarrow> payload option \<Rightarrow> u8 \<Rightarrow> (u8 \<times> payload option \<times> u8) reader" where
  "message_class_decode oth p type2 =
     and_then (GetChoiceIndex 4 True) (\<lambda>i.
       let type1 = (ucast i :: u8)
       in and_then
            (if type1 = 0 then RequestMessage_decode oth p
             else if type1 = 1 then ResponseMessage_decode oth p
             else if type1 = 2 then CommandMessage_decode oth p
             else if type1 = 3 then IndicationMessage_decode oth p
             else and_then SkipOneExtension (\<lambda>_. give (p, type2)))
          (\<lambda>(q, t). and_then read_rest (\<lambda>_. give (type1, q, t))))"

text \<open>The number of octets that were used is a \<^verbatim>\<open>uint16\<close>.\<close>

definition MultiSysCtrlMessage_decode ::
  "other_readers \<Rightarrow> payload option \<Rightarrow> u8 \<Rightarrow> u8 list \<Rightarrow> per_fault + (u16 \<times> u8 \<times> payload option \<times> u8)" where
  "MultiSysCtrlMessage_decode oth p type2 buffer =
     bind_res (message_class_decode oth p type2 \<lparr> in_data = buffer, in_bit = 0 \<rparr>)
       (\<lambda>((type1, q, t), s). Inr (of_nat (length buffer - length (in_data s)), type1, q, t))"

text \<open>
  The loop of \<^verbatim>\<open>PER::Decode\<close>. \<open>recv\<close> is \<^verbatim>\<open>MySe->MessageRecv\<close> on the state of the receiver; it gets the
  octets of the message, too. A message that raises an error ends the call, what was delivered before
  stays delivered. \<open>None\<close> is a loop that does not end.
\<close>

type_synonym 's receiver = "u8 \<Rightarrow> u8 \<Rightarrow> payload option \<Rightarrow> u8 list option \<Rightarrow> 's \<Rightarrow> 's res"

partial_function (option) decode_loop ::
  "other_readers \<Rightarrow> 's receiver \<Rightarrow> payload option \<Rightarrow> u8 \<Rightarrow> u8 list \<Rightarrow> int \<Rightarrow> 's \<Rightarrow> ((per_fault + se_fault) + 's) option" where
  "decode_loop oth recv p type2 buffer left s =
     (if left \<le> 0 then Some (Inr s)
      else case MultiSysCtrlMessage_decode oth p type2 buffer of
        Inl Leave \<Rightarrow> Some (Inr s)
      | Inl e \<Rightarrow> Some (Inl (Inl e))
      | Inr (n, type1, q, t) \<Rightarrow>
          (case (if n \<noteq> 0 then recv type1 t q (Some (take (unat n) buffer)) s else Inr s) of
             Inl e \<Rightarrow> Some (Inl (Inr e))
           | Inr s' \<Rightarrow> decode_loop oth recv q t (drop (unat n) buffer) (left - int (unat n)) s'))"

definition Decode ::
  "other_readers \<Rightarrow> 's receiver \<Rightarrow> u8 list \<Rightarrow> u32 \<Rightarrow> 's \<Rightarrow> ((per_fault + se_fault) + 's) option" where
  "Decode oth recv buffer bytes = decode_loop oth recv None 0 buffer (sint bytes)"

end
