(* ===== verification/PerWire.thy ===== *)
theory PerWire
  imports PerProtocol
begin

text \<open>
  The messages on the wire: for every message that the codec of this development covers, its class, its
  number, the values that can be represented, and its encoding; the rows of the four tables implement
  this description. From it follow the encoding of a whole message, what one call of the decoder does
  with it, and what the loop of \<^verbatim>\<open>PER::Decode\<close> does with a buffer of messages.
\<close>

section \<open>The description of the messages\<close>

type_synonym wire_row = "u8 \<times> u8 \<times> bool \<times> (nat \<Rightarrow> bool list)"

fun wire_msd :: "msd_block \<Rightarrow> wire_row" where
  "wire_msd (MasterSlaveDetermination x) = (H245_MSG_REQ, 1, msd_statusDeterminationNumber x \<le> 16777215,
     enc_plain (after (enc_number (msd_terminalType x)) (enc_integer 0 16777215 (msd_statusDeterminationNumber x))))"
| "wire_msd (MasterSlaveDeterminationAck d) =
     (H245_MSG_RPS, 1, ucast d < (2::u32), enc_plain (enc_choice 2 False (ucast d)))"
| "wire_msd (MasterSlaveDeterminationReject d) =
     (H245_MSG_RPS, 2, ucast d < (1::u32), enc_plain (enc_choice 1 True (ucast d)))"
| "wire_msd MasterSlaveDeterminationRelease = (H245_MSG_IDC, 2, True, enc_plain (bits []))"

fun wire_ce :: "ce_block \<Rightarrow> wire_row option" where
  "wire_ce (TerminalCapabilitySetAck n) = Some (H245_MSG_RPS, 3, True, enc_plain (enc_number n))"
| "wire_ce TerminalCapabilitySetRelease = Some (H245_MSG_IDC, 3, True, enc_plain (bits []))"
| "wire_ce _ = None"

fun wire_lc :: "lc_block \<Rightarrow> wire_row option" where
  "wire_lc (OpenLogicalChannelConfirm n) = Some (H245_MSG_IDC, 4, 0 < n, enc_plain (enc_channel n))"
| "wire_lc (CloseLogicalChannel x) = Some (H245_MSG_REQ, 4, close_ok x, enc_close x)"
| "wire_lc (CloseLogicalChannelAck n) = Some (H245_MSG_RPS, 7, 0 < n, enc_plain (enc_channel n))"
| "wire_lc _ = None"

fun wire_clc :: "clc_block \<Rightarrow> wire_row option" where
  "wire_clc (RequestChannelCloseAck n) = Some (H245_MSG_RPS, 8, 0 < n, enc_plain (enc_channel n))"
| "wire_clc (RequestChannelCloseReject x) = Some (H245_MSG_RPS, 9,
     0 < rcr_forwardLogicalChannelNumber x \<and> ucast (rcr_rccRejectCause x) < (1::u32),
     enc_plain (after (enc_channel (rcr_forwardLogicalChannelNumber x)) (enc_choice 1 True (ucast (rcr_rccRejectCause x)))))"
| "wire_clc (RequestChannelCloseRelease n) = Some (H245_MSG_IDC, 5, 0 < n, enc_plain (enc_channel n))"
| "wire_clc _ = None"

fun wire_mt :: "mt_block \<Rightarrow> wire_row option" where
  "wire_mt (MultiplexEntrySendAck x) = Some (H245_MSG_RPS, 10, list_ok entry_ok (mea_size x, mea_entryNumbers x),
     enc_plain (after (enc_number (mea_sequenceNumber x)) (enc_entries (mea_size x, mea_entryNumbers x))))"
| "wire_mt (MultiplexEntrySendRelease sz xs) =
     Some (H245_MSG_IDC, 6, list_ok entry_ok (sz, xs), enc_plain (enc_entries (sz, xs)))"
| "wire_mt _ = None"

fun wire_rme :: "rme_block \<Rightarrow> wire_row option" where
  "wire_rme (RequestMultiplexEntry x) = Some (H245_MSG_REQ, 7, list_ok entry_ok (enr_size x, enr_entryNumbers x),
     enc_plain (enc_entries (enr_size x, enr_entryNumbers x)))"
| "wire_rme (RequestMultiplexEntryAck x) = Some (H245_MSG_RPS, 12, list_ok entry_ok (enr_size x, enr_entryNumbers x),
     enc_plain (enc_entries (enr_size x, enr_entryNumbers x)))"
| "wire_rme (RequestMultiplexEntryRelease x) = Some (H245_MSG_IDC, 7, list_ok entry_ok (enr_size x, enr_entryNumbers x),
     enc_plain (enc_entries (enr_size x, enr_entryNumbers x)))"
| "wire_rme (RequestMultiplexEntryReject x) = Some (H245_MSG_RPS, 13, reject_ok x, enc_plain (enc_reject x))"
| "wire_rme _ = None"

fun wire_mr :: "mr_block \<Rightarrow> wire_row option" where
  "wire_mr (RequestModeAck n r) = Some (H245_MSG_RPS, 14, ucast r < (2::u32),
     enc_plain (after (enc_number n) (enc_choice 2 True (ucast r))))"
| "wire_mr (RequestModeReject n c) = Some (H245_MSG_RPS, 15, ucast c < (3::u32),
     enc_plain (after (enc_number n) (enc_choice 3 True (ucast c))))"
| "wire_mr RequestModeRelease = Some (H245_MSG_IDC, 8, True, enc_plain (bits []))"
| "wire_mr _ = None"

fun wire_rtd :: "rtd_block \<Rightarrow> wire_row option" where
  "wire_rtd (RoundTripDelayRequest n) = Some (H245_MSG_REQ, 9, True, enc_plain (enc_number n))"
| "wire_rtd (RoundTripDelayResponse n) = Some (H245_MSG_RPS, 16, True, enc_plain (enc_number n))"
| "wire_rtd _ = None"

fun wire_ml :: "ml_block \<Rightarrow> wire_row option" where
  "wire_ml (MaintenanceLoopRequest x) = Some (H245_MSG_REQ, 10, loop_ok x, enc_plain (enc_loop x))"
| "wire_ml (MaintenanceLoopAck x) = Some (H245_MSG_RPS, 17, loop_ok x, enc_plain (enc_loop x))"
| "wire_ml (MaintenanceLoopReject x c) = Some (H245_MSG_RPS, 18, loop_ok x \<and> ucast c < (1::u32),
     enc_plain (after (enc_loop x) (enc_choice 1 True (ucast c))))"
| "wire_ml MaintenanceLoopOffCommand = Some (H245_MSG_CMD, 1, True, enc_plain (bits []))"
| "wire_ml _ = None"

fun wire :: "payload \<Rightarrow> wire_row option" where
  "wire (Block_Msd b) = Some (wire_msd b)"
| "wire (Block_Ce b) = wire_ce b"
| "wire (Block_Lc b) = wire_lc b"
| "wire (Block_Clc b) = wire_clc b"
| "wire (Block_Mt b) = wire_mt b"
| "wire (Block_Rme b) = wire_rme b"
| "wire (Block_Mr b) = wire_mr b"
| "wire (Block_Rtd b) = wire_rtd b"
| "wire (Block_Ml b) = wire_ml b"
| "wire (P_Annex t x) = None"
| "wire (P_ErrCode c) = None"

text \<open>A message whose block has the type and number that its header names, with values in range.\<close>

definition wire_ok :: "h245_msg \<Rightarrow> bool" where
  "wire_ok m = (case pData m of None \<Rightarrow> False | Some b \<Rightarrow>
     (case wire b of None \<Rightarrow> False | Some (t1, t2, v, e) \<Rightarrow> Type1 m = t1 \<and> Type2 m = t2 \<and> v))"

section \<open>The rows\<close>

definition class_size :: "u8 \<Rightarrow> u32" where
  "class_size t = (if t = 0 then 11 else if t = 1 then 19 else if t = 2 then 7 else 14)"

definition class_writers :: "other_writers \<Rightarrow> u8 \<Rightarrow> (u8 \<times> (payload option \<Rightarrow> writer)) list" where
  "class_writers oth t = (if t = 0 then request_writers oth else if t = 1 then response_writers oth
     else if t = 2 then command_writers oth else indication_writers oth)"

definition class_readers :: "other_readers \<Rightarrow> u8 \<Rightarrow> (u8 \<times> payload reader) list" where
  "class_readers oth t = (if t = 0 then request_readers oth else if t = 1 then response_readers oth
     else if t = 2 then command_readers oth else indication_readers oth)"

definition row_ok :: "wire_row \<Rightarrow> payload \<Rightarrow> other_writers \<Rightarrow> other_readers \<Rightarrow> bool" where
  "row_ok r b ow od = (case r of (t1, t2, v, e) \<Rightarrow> t1 \<le> 3 \<and> ucast t2 < class_size t1 \<and> (v \<longrightarrow>
     (case (map_of (class_writers ow t1) t2, map_of (class_readers od t1) t2) of
        (Some w, Some g) \<Rightarrow> writes (w (Some b)) e \<and> reads g b e | _ \<Rightarrow> False)))"

lemma class_tables:
  "class_writers oth 0 = request_writers oth" "class_writers oth 1 = response_writers oth"
  "class_writers oth 2 = command_writers oth" "class_writers oth 3 = indication_writers oth"
  "class_readers ot 0 = request_readers ot" "class_readers ot 1 = response_readers ot"
  "class_readers ot 2 = command_readers ot" "class_readers ot 3 = indication_readers ot"
  by (simp_all add: class_writers_def class_readers_def)

lemma writer_rows:
  "map_of (class_writers ow 0) 1 = Some (encode_block to_MasterSlaveDetermination Encode_MasterSlaveDetermination)"
  "map_of (class_writers ow 0) 4 = Some (encode_block to_CloseLogicalChannel Encode_CloseLogicalChannel)"
  "map_of (class_writers ow 0) 7 = Some (encode_block to_RequestMultiplexEntry Encode_RequestMultiplexEntry)"
  "map_of (class_writers ow 0) 9 = Some (encode_block to_RoundTripDelayRequest Encode_RoundTripDelayRequest)"
  "map_of (class_writers ow 0) 10 = Some (encode_block to_MaintenanceLoopRequest Encode_MaintenanceLoopRequest)"
  "map_of (class_writers ow 1) 1 = Some (encode_block to_MasterSlaveDeterminationAck Encode_MasterSlaveDeterminationAck)"
  "map_of (class_writers ow 1) 2 = Some (encode_block to_MasterSlaveDeterminationReject Encode_MasterSlaveDeterminationReject)"
  "map_of (class_writers ow 1) 3 = Some (encode_block to_TerminalCapabilitySetAck Encode_TerminalCapabilitySetAck)"
  "map_of (class_writers ow 1) 7 = Some (encode_block to_CloseLogicalChannelAck Encode_CloseLogicalChannelAck)"
  "map_of (class_writers ow 1) 8 = Some (encode_block to_RequestChannelCloseAck Encode_RequestChannelCloseAck)"
  "map_of (class_writers ow 1) 9 = Some (encode_block to_RequestChannelCloseReject Encode_RequestChannelCloseReject)"
  "map_of (class_writers ow 1) 10 = Some (encode_block to_MultiplexEntrySendAck Encode_MultiplexEntrySendAck)"
  "map_of (class_writers ow 1) 12 = Some (encode_block to_RequestMultiplexEntryAck Encode_RequestMultiplexEntryAck)"
  "map_of (class_writers ow 1) 13 = Some (encode_block to_RequestMultiplexEntryReject Encode_RequestMultiplexEntryReject)"
  "map_of (class_writers ow 1) 14 = Some (encode_block to_RequestModeAck Encode_RequestModeAck)"
  "map_of (class_writers ow 1) 15 = Some (encode_block to_RequestModeReject Encode_RequestModeReject)"
  "map_of (class_writers ow 1) 16 = Some (encode_block to_RoundTripDelayResponse Encode_RoundTripDelayResponse)"
  "map_of (class_writers ow 1) 17 = Some (encode_block to_MaintenanceLoopAck Encode_MaintenanceLoopAck)"
  "map_of (class_writers ow 1) 18 = Some (encode_block to_MaintenanceLoopReject Encode_MaintenanceLoopReject)"
  "map_of (class_writers ow 2) 1 = Some (\<lambda>_. Encode_MaintenanceLoopOffCommand)"
  "map_of (class_writers ow 3) 2 = Some (\<lambda>_. Encode_MasterSlaveDeterminationRelease)"
  "map_of (class_writers ow 3) 3 = Some (\<lambda>_. Encode_TerminalCapabilitySetRelease)"
  "map_of (class_writers ow 3) 4 = Some (encode_block to_OpenLogicalChannelConfirm Encode_OpenLogicalChannelConfirm)"
  "map_of (class_writers ow 3) 5 = Some (encode_block to_RequestChannelCloseRelease Encode_RequestChannelCloseRelease)"
  "map_of (class_writers ow 3) 6 = Some (encode_block to_MultiplexEntrySendRelease Encode_MultiplexEntrySendRelease)"
  "map_of (class_writers ow 3) 7 = Some (encode_block to_RequestMultiplexEntryRelease Encode_RequestMultiplexEntryRelease)"
  "map_of (class_writers ow 3) 8 = Some (\<lambda>_. Encode_RequestModeRelease)"
  by (simp_all add: class_tables request_writers_def response_writers_def command_writers_def indication_writers_def)

lemma reader_rows:
  "map_of (class_readers od 0) 1 = Some (block_of P_MasterSlaveDetermination Decode_MasterSlaveDetermination)"
  "map_of (class_readers od 0) 4 = Some (block_of P_CloseLogicalChannel Decode_CloseLogicalChannel)"
  "map_of (class_readers od 0) 7 = Some (block_of P_RequestMultiplexEntry Decode_RequestMultiplexEntry)"
  "map_of (class_readers od 0) 9 = Some (block_of P_RoundTripDelayRequest Decode_RoundTripDelayRequest)"
  "map_of (class_readers od 0) 10 = Some (block_of P_MaintenanceLoopRequest Decode_MaintenanceLoopRequest)"
  "map_of (class_readers od 1) 1 = Some (block_of P_MasterSlaveDeterminationAck Decode_MasterSlaveDeterminationAck)"
  "map_of (class_readers od 1) 2 = Some (block_of P_MasterSlaveDeterminationReject Decode_MasterSlaveDeterminationReject)"
  "map_of (class_readers od 1) 3 = Some (block_of P_TerminalCapabilitySetAck Decode_TerminalCapabilitySetAck)"
  "map_of (class_readers od 1) 7 = Some (block_of P_CloseLogicalChannelAck Decode_CloseLogicalChannelAck)"
  "map_of (class_readers od 1) 8 = Some (block_of P_RequestChannelCloseAck Decode_RequestChannelCloseAck)"
  "map_of (class_readers od 1) 9 = Some (block_of P_RequestChannelCloseReject Decode_RequestChannelCloseReject)"
  "map_of (class_readers od 1) 10 = Some (block_of P_MultiplexEntrySendAck Decode_MultiplexEntrySendAck)"
  "map_of (class_readers od 1) 12 = Some (block_of P_RequestMultiplexEntryAck Decode_RequestMultiplexEntryAck)"
  "map_of (class_readers od 1) 13 = Some (block_of P_RequestMultiplexEntryReject Decode_RequestMultiplexEntryReject)"
  "map_of (class_readers od 1) 14 = Some (block_of (\<lambda>(x, y). P_RequestModeAck x y) Decode_RequestModeAck)"
  "map_of (class_readers od 1) 15 = Some (block_of (\<lambda>(x, y). P_RequestModeReject x y) Decode_RequestModeReject)"
  "map_of (class_readers od 1) 16 = Some (block_of P_RoundTripDelayResponse Decode_RoundTripDelayResponse)"
  "map_of (class_readers od 1) 17 = Some (block_of P_MaintenanceLoopAck Decode_MaintenanceLoopAck)"
  "map_of (class_readers od 1) 18 = Some (block_of (\<lambda>(x, y). P_MaintenanceLoopReject x y) Decode_MaintenanceLoopReject)"
  "map_of (class_readers od 2) 1 = Some (and_then Decode_MaintenanceLoopOffCommand (\<lambda>_. give P_MaintenanceLoopOffCommand))"
  "map_of (class_readers od 3) 2 = Some (and_then Decode_MasterSlaveDeterminationRelease (\<lambda>_. give P_MasterSlaveDeterminationRelease))"
  "map_of (class_readers od 3) 3 = Some (and_then Decode_TerminalCapabilitySetRelease (\<lambda>_. give P_TerminalCapabilitySetRelease))"
  "map_of (class_readers od 3) 4 = Some (block_of P_OpenLogicalChannelConfirm Decode_OpenLogicalChannelConfirm)"
  "map_of (class_readers od 3) 5 = Some (block_of P_RequestChannelCloseRelease Decode_RequestChannelCloseRelease)"
  "map_of (class_readers od 3) 6 = Some (block_of (\<lambda>(x, y). P_MultiplexEntrySendRelease x y) Decode_MultiplexEntrySendRelease)"
  "map_of (class_readers od 3) 7 = Some (block_of P_RequestMultiplexEntryRelease Decode_RequestMultiplexEntryRelease)"
  "map_of (class_readers od 3) 8 = Some (and_then Decode_RequestModeRelease (\<lambda>_. give P_RequestModeRelease))"
  by (simp_all add: class_tables request_readers_def response_readers_def command_readers_def indication_readers_def)

lemma row_block:
  assumes "codec p g v e" and "map_of (class_writers ow t1) t2 = Some (encode_block to p)"
    and "map_of (class_readers od t1) t2 = Some (block_of mk g)"
    and "to (mk x) = Some x" and "c \<Longrightarrow> v x" and "t1 \<le> 3" and "ucast t2 < class_size t1"
  shows "row_ok (t1, t2, c, e x) (mk x) ow od"
  using assms reads_and_give [of g x "e x" mk]
  by (simp add: row_ok_def codec_def encode_block_def block_of_def)

lemma row_release:
  assumes "codec (\<lambda>_::unit. p) g (\<lambda>_. True) (\<lambda>_. e)" and "map_of (class_writers ow t1) t2 = Some (\<lambda>_. p)"
    and "map_of (class_readers od t1) t2 = Some (and_then g (\<lambda>_. give b))" and "t1 \<le> 3" and "ucast t2 < class_size t1"
  shows "row_ok (t1, t2, True, e) b ow od"
  using assms reads_and_give [of g "()" "e" "\<lambda>_. b"] by (simp add: row_ok_def codec_def)

lemmas to_defs = cast_defs to_MasterSlaveDeterminationReject_def to_MultiplexEntrySendRelease_def
  to_RequestMultiplexEntryAck_def to_RequestMultiplexEntryRelease_def to_MaintenanceLoopAck_def

lemmas row_facts = writer_rows reader_rows to_defs class_size_def

lemma row_msd: "row_ok (wire_msd b) (Block_Msd b) ow od"
  by (cases b)
    (auto simp: row_facts intro!: row_block [OF codec_MasterSlaveDetermination, where mk = P_MasterSlaveDetermination]
       row_block [OF codec_MasterSlaveDeterminationAck, where mk = P_MasterSlaveDeterminationAck]
       row_block [OF codec_MasterSlaveDeterminationReject, where mk = P_MasterSlaveDeterminationReject]
       row_release [OF codec_releases(1)])

lemma row_ce: "wire_ce b = Some r \<Longrightarrow> row_ok r (Block_Ce b) ow od"
  by (cases b)
    (auto simp: row_facts intro!: row_block [OF codec_numbers(1), where mk = P_TerminalCapabilitySetAck]
       row_release [OF codec_releases(2)])

lemma row_lc: "wire_lc b = Some r \<Longrightarrow> row_ok r (Block_Lc b) ow od"
  by (cases b)
    (auto simp: row_facts intro!: row_block [OF codec_channels(1), where mk = P_OpenLogicalChannelConfirm]
       row_block [OF codec_channels(2), where mk = P_CloseLogicalChannelAck]
       row_block [OF codec_CloseLogicalChannel, where mk = P_CloseLogicalChannel])

lemma row_clc: "wire_clc b = Some r \<Longrightarrow> row_ok r (Block_Clc b) ow od"
  by (cases b)
    (auto simp: row_facts intro!: row_block [OF codec_channels(3), where mk = P_RequestChannelCloseAck]
       row_block [OF codec_channels(4), where mk = P_RequestChannelCloseRelease]
       row_block [OF codec_RequestChannelCloseReject, where mk = P_RequestChannelCloseReject])

lemma row_mt: "wire_mt b = Some r \<Longrightarrow> row_ok r (Block_Mt b) ow od"
  by (cases b)
    (auto simp: row_facts intro!: row_block [OF codec_MultiplexEntrySendAck, where mk = P_MultiplexEntrySendAck]
       row_block [OF codec_entries(1), where mk = "\<lambda>(x, y). P_MultiplexEntrySendRelease x y" and x = "(a, c)" for a c, simplified])

lemma row_rme: "wire_rme b = Some r \<Longrightarrow> row_ok r (Block_Rme b) ow od"
  by (cases b)
    (auto simp: row_facts intro!: row_block [OF codec_entries(2), where mk = P_RequestMultiplexEntry]
       row_block [OF codec_entries(3), where mk = P_RequestMultiplexEntryAck]
       row_block [OF codec_entries(4), where mk = P_RequestMultiplexEntryRelease]
       row_block [OF codec_RequestMultiplexEntryReject, where mk = P_RequestMultiplexEntryReject])

lemma row_mr: "wire_mr b = Some r \<Longrightarrow> row_ok r (Block_Mr b) ow od"
  by (cases b)
    (auto simp: row_facts intro!: row_block [OF codec_modes(1), where mk = "\<lambda>(x, y). P_RequestModeAck x y" and x = "(a, c)" for a c, simplified]
       row_block [OF codec_modes(2), where mk = "\<lambda>(x, y). P_RequestModeReject x y" and x = "(a, c)" for a c, simplified]
       row_release [OF codec_releases(3)])

lemma row_rtd: "wire_rtd b = Some r \<Longrightarrow> row_ok r (Block_Rtd b) ow od"
  by (cases b)
    (auto simp: row_facts intro!: row_block [OF codec_numbers(2), where mk = P_RoundTripDelayRequest]
       row_block [OF codec_numbers(3), where mk = P_RoundTripDelayResponse])

lemma row_ml: "wire_ml b = Some r \<Longrightarrow> row_ok r (Block_Ml b) ow od"
  by (cases b)
    (auto simp: row_facts intro!: row_block [OF codec_loops(1), where mk = P_MaintenanceLoopRequest]
       row_block [OF codec_loops(2), where mk = P_MaintenanceLoopAck]
       row_block [OF codec_loops(3), where mk = "\<lambda>(x, y). P_MaintenanceLoopReject x y" and x = "(a, c)" for a c, simplified]
       row_release [OF codec_releases(4)])

lemma rows: "wire b = Some r \<Longrightarrow> row_ok r b ow od"
  by (cases b) (auto intro: row_msd row_ce row_lc row_clc row_mt row_rme row_mr row_rtd row_ml)

section \<open>One message\<close>

definition enc_message :: "u8 \<Rightarrow> u8 \<Rightarrow> (nat \<Rightarrow> bool list) \<Rightarrow> nat \<Rightarrow> bool list" where
  "enc_message t1 t2 e =
     after (enc_choice 4 True (ucast t1)) (after (enc_choice (class_size t1) True (ucast t2)) (after e pad))"

lemma type_casts: "(ucast (ucast t :: u16) :: u32) = ucast t" "(ucast (ucast t :: u16) :: u8) = t" for t :: u8
  by (transfer, simp)+

lemma class_cases:
  fixes t :: u8
  assumes "t \<le> 3"
  obtains "t = 0" | "t = 1" | "t = 2" | "t = 3"
proof -
  have "unat t \<le> 3" using assms by (simp add: word_le_nat_alt)
  then have "unat t = 0 \<or> unat t = 1 \<or> unat t = 2 \<or> unat t = 3" by arith
  then show ?thesis using that by (auto simp: word_unat_eq_iff)
qed

lemma class_index: "t \<le> 3 \<Longrightarrow> choice_ok 4 True (ucast t)" "t \<le> 3 \<Longrightarrow> ucast t2 < class_size t \<Longrightarrow> choice_ok (class_size t) True (ucast t2)"
  for t t2 :: u8
proof -
  show "t \<le> 3 \<Longrightarrow> choice_ok 4 True (ucast t)" by (erule class_cases) (simp_all add: choice_ok_def)
  have "0 < class_size t" by (simp add: class_size_def)
  then show "t \<le> 3 \<Longrightarrow> ucast t2 < class_size t \<Longrightarrow> choice_ok (class_size t) True (ucast t2)"
    by (simp add: choice_ok_def type_casts)
qed

lemma writes_rest: "writes WriteRemainingBits pad"
  unfolding writes_def
proof (intro allI impI)
  fix s
  assume "out_ok s" "room s (pad (length (out_bits s)))"
  then show "\<exists>s'. WriteRemainingBits s = Inr s' \<and> out_ok s' \<and> out_bits s' = out_bits s @ pad (length (out_bits s))"
    using WriteRemainingBits_bits [of s] by (auto simp: room_def)
qed

lemma writes_index: "choice_ok n True (ucast t) \<Longrightarrow> writes (PutChoiceIndex n True (ucast t)) (enc_choice n True (ucast t))"
  for t :: u8
  using choice.writes_enc [of n True "ucast t"] by (simp add: type_casts)

lemma reads_index: "choice_ok n True (ucast t) \<Longrightarrow> reads (GetChoiceIndex n True) (ucast t) (enc_choice n True (ucast t))"
  for t :: u8
  using choice.reads_enc [of n True "ucast t"] by (simp add: type_casts)

lemma writes_message:
  assumes "row_ok (t1, t2, True, e) b ow od"
  shows "writes (message_class_encode ow (Some b) t1 t2) (enc_message t1 t2 e)"
proof -
  have t: "t1 \<le> 3" "ucast t2 < class_size t1" using assms by (simp_all add: row_ok_def)
  obtain w where w: "map_of (class_writers ow t1) t2 = Some w" "writes (w (Some b)) e"
    using assms by (auto simp: row_ok_def split: option.splits)
  have "writes (message_encode (class_size t1) (class_writers ow t1) (Some b) t2)
      (after (enc_choice (class_size t1) True (ucast t2)) e)"
    unfolding message_encode_def by (rule writes_and_put [OF writes_index [OF class_index(2) [OF t]]]) (simp add: w)
  from writes_and_put [OF writes_index [OF class_index(1) [OF t(1)]] writes_and_put [OF this writes_rest]]
  show ?thesis
    unfolding message_class_encode_def enc_message_def after_assoc
    by - (rule class_cases [OF t(1)];
          simp add: class_tables class_size_def RequestMessage_encode_def ResponseMessage_encode_def
            CommandMessage_encode_def IndicationMessage_encode_def)
qed

lemma reads_body:
  assumes "t1 \<le> 3" and "ucast t2 < class_size t1" and "map_of (class_readers od t1) t2 = Some g" and "reads g b e"
  shows "reads (message_decode (class_size t1) (class_readers od t1) p) (Some b, t2)
      (after (enc_choice (class_size t1) True (ucast t2)) e)"
  unfolding message_decode_def
  by (rule reads_and_then [OF reads_index [OF class_index(2) [OF assms(1,2)]]])
     (use assms(3) reads_and_give [OF assms(4), of "\<lambda>b. (Some b, t2)"] in \<open>simp add: type_casts\<close>)

lemma reads_class:
  assumes "t1 \<le> 3" and "reads (message_decode (class_size t1) (class_readers od t1) p) (q, t2) e"
  shows "reads (message_class_decode od p t) (t1, q, t2) (after (enc_choice 4 True (ucast t1)) (after e pad))"
proof -
  have "reads (and_then read_rest (\<lambda>_. give (t1, q, t2))) (t1, q, t2) pad"
    by (rule reads_and_give [OF reads_rest])
  then have "reads (and_then (message_decode (class_size t1) (class_readers od t1) p)
      (\<lambda>(q, t). and_then read_rest (\<lambda>_. give (t1, q, t)))) (t1, q, t2) (after e pad)"
    by (intro reads_and_then [OF assms(2)]) simp
  then show ?thesis
    unfolding message_class_decode_def
    by (intro reads_and_then [OF reads_index [OF class_index(1) [OF assms(1)]]], cases rule: class_cases [OF assms(1)])
       (simp_all add: type_casts class_tables class_size_def RequestMessage_decode_def
          ResponseMessage_decode_def CommandMessage_decode_def IndicationMessage_decode_def)
qed

lemma reads_message:
  assumes "row_ok (t1, t2, True, e) b ow od"
  shows "reads (message_class_decode od p t) (t1, Some b, t2) (enc_message t1 t2 e)"
proof -
  have t: "t1 \<le> 3" "ucast t2 < class_size t1" using assms by (simp_all add: row_ok_def)
  obtain g where g: "map_of (class_readers od t1) t2 = Some g" "reads g b e"
    using assms by (auto simp: row_ok_def split: option.splits)
  show ?thesis
    using reads_class [OF t(1) reads_body [OF t g]] by (simp add: enc_message_def after_assoc)
qed

subsection \<open>Sizes\<close>

definition short :: "nat \<Rightarrow> (nat \<Rightarrow> bool list) \<Rightarrow> bool" where
  "short n e \<longleftrightarrow> (\<forall>p. length (e p) \<le> n)"

lemma short_weaken: "short n e \<Longrightarrow> n \<le> m \<Longrightarrow> short m e"
  unfolding short_def using le_trans by blast

lemma short_bits: "short (length bs) (bits bs)"
  by (simp add: short_def bits_def)

lemma short_after: "short a e \<Longrightarrow> short b f \<Longrightarrow> short (a + b) (after e f)"
  by (simp add: short_def after_def add_mono)

lemma short_if: "short a e \<Longrightarrow> short b f \<Longrightarrow> short (a + b) (if c then e else f)"
  by (auto simp: short_def intro: trans_le_add1 trans_le_add2)

lemma short_plain: "short n e \<Longrightarrow> short (1 + n) (enc_plain e)"
  using short_after [OF short_bits [of "[False]"]] by (simp add: enc_plain_def)

lemma short_primitive: "short 41 (enc_integer l u v)" "short 42 (enc_choice n b i)" "short 7 pad"
proof -
  have "(8 - p mod 8) mod 8 \<le> 7" for p :: nat using mod_less_divisor [of 8 "8 - p mod 8"] by simp
  then show "short 41 (enc_integer l u v)" "short 42 (enc_choice n b i)" "short 7 pad"
    by (simp_all add: short_def length_enc_integer length_enc_choice)
qed

lemma short_list: "(\<And>x. short n (e x)) \<Longrightarrow> short (length xs * n) (enc_list e xs)"
proof (induction xs)
  case (Cons x xs)
  then show ?case using short_after [of n "e x" "length xs * n" "enc_list e xs"] by (simp add: enc_list_def)
qed (simp add: enc_list_def short_def bits_def)

lemma short_sized:
  assumes "list_ok v x" and "\<And>x. short n (e x)"
  shows "short (41 + 15 * n) (enc_sized e x)"
proof -
  have "length (snd x) \<le> 15" using assms(1) by (simp add: list_ok_def)
  then have "short (15 * n) (enc_list e (snd x))"
    by (intro short_weaken [OF short_list [OF assms(2)]] mult_le_mono1)
  then show ?thesis unfolding enc_sized_def by (rule short_after [OF short_primitive(1)])
qed

lemma short_temp:
  assumes "short n e" and "n \<le> 1016"
  shows "short (15 + (n + 7)) (enc_temp e)"
proof -
  have n: "length (e 0) \<le> n" using assms(1) by (simp add: short_def)
  then have "(length (e 0) + 7) div 8 < 128" using assms(2) by simp
  then have "(of_nat ((length (e 0) + 7) div 8) :: u32) < 128"
    by (simp add: word_less_nat_alt unsigned_of_nat take_bit_nat_eq_self)
  moreover have p7: "length (pad p) \<le> 7" for p by simp
  ultimately have l: "short 15 (enc_length (of_nat ((length (e 0) + 7) div 8)))"
    by (simp add: short_def enc_length_def octets_def del: length_pad)
  have "short (n + 7) (bits (e 0 @ pad (length (e 0))))"
    using n p7 by (simp add: short_def bits_def add_mono del: length_pad)
  then show ?thesis unfolding enc_temp_def by (rule short_after [OF l])
qed

lemma short_loop: "short 83 (enc_loop x)"
  unfolding enc_loop_def
  by (rule short_weaken, (rule short_after short_if short_bits short_primitive)+) simp

lemma short_close: "short 200 (enc_close x)"
proof -
  have "short (15 + (42 + 7)) (enc_temp (enc_choice 3 True (ucast (cl_reason x))))"
    by (rule short_temp [OF short_primitive(2)]) simp
  then have "short (1 + (41 + (42 + ((7 + (1 + (15 + (42 + 7)))) + 0)))) (enc_close x)"
    unfolding enc_close_def
    using short_bits [of "[cl_option_of_reason x]"] short_bits [of "msb_bits 7 (0::u8)"] short_bits [of "[True]"] short_bits [of "[]"]
    by (intro short_after short_if short_primitive) (simp_all only: list.size length_msb_bits One_nat_def add_0)
  then show ?thesis by (rule short_weaken) simp
qed

lemma short_reject: "reject_ok x \<Longrightarrow> short 1957 (enc_reject x)"
proof -
  have d: "short 84 (enc_description d)" for d
    unfolding enc_description_def by (rule short_weaken, (rule short_plain short_after short_primitive)+) simp
  assume "reject_ok x"
  then show ?thesis
    unfolding reject_ok_def enc_reject_def
    by (intro short_weaken [OF short_after [OF short_sized [OF _ short_primitive(1)] short_sized [OF _ d]]]) auto
qed

lemma short_shapes:
  "short 2000 (enc_plain (bits []))"
  "short 2000 (enc_plain (enc_integer l u v))"
  "short 2000 (enc_plain (enc_choice n c i))"
  "short 2000 (enc_plain (after (enc_integer l u v) (enc_integer l' u' v')))"
  "short 2000 (enc_plain (after (enc_integer l u v) (enc_choice n c i)))"
  "short 2000 (enc_plain (enc_loop x))"
  "short 2000 (enc_plain (after (enc_loop x) (enc_choice n c i)))"
  "short 2000 (enc_close y)"
  "list_ok entry_ok z \<Longrightarrow> short 2000 (enc_plain (enc_entries z))"
  "list_ok entry_ok z \<Longrightarrow> short 2000 (enc_plain (after (enc_integer l u v) (enc_entries z)))"
  "reject_ok r \<Longrightarrow> short 2000 (enc_plain (enc_reject r))"
  by ((rule short_weaken, (rule short_plain short_after short_bits short_primitive short_loop short_close
        short_reject short_sized [OF _ short_primitive(1)] | assumption)+, simp)+)

lemma wire_short:
  assumes "wire b = Some (t1, t2, True, e)"
  shows "short 2000 e"
proof -
  have "short 2000 e" if "wire_msd x = (t1, t2, True, e)" for x using that by (cases x) (auto simp: short_shapes)
  moreover have "short 2000 e" if "wire_ce x = Some (t1, t2, True, e)" for x using that by (cases x) (auto simp: short_shapes)
  moreover have "short 2000 e" if "wire_lc x = Some (t1, t2, True, e)" for x using that by (cases x) (auto simp: short_shapes)
  moreover have "short 2000 e" if "wire_clc x = Some (t1, t2, True, e)" for x using that by (cases x) (auto simp: short_shapes)
  moreover have "short 2000 e" if "wire_mt x = Some (t1, t2, True, e)" for x using that by (cases x) (auto simp: short_shapes)
  moreover have "short 2000 e" if "wire_rme x = Some (t1, t2, True, e)" for x using that by (cases x) (auto simp: short_shapes)
  moreover have "short 2000 e" if "wire_mr x = Some (t1, t2, True, e)" for x using that by (cases x) (auto simp: short_shapes)
  moreover have "short 2000 e" if "wire_rtd x = Some (t1, t2, True, e)" for x using that by (cases x) (auto simp: short_shapes)
  moreover have "short 2000 e" if "wire_ml x = Some (t1, t2, True, e)" for x using that by (cases x) (auto simp: short_shapes)
  ultimately show ?thesis using assms by (cases b) auto
qed

lemma message_short: "short 2000 e \<Longrightarrow> short 2091 (enc_message t1 t2 e)"
  unfolding enc_message_def by (rule short_weaken, (rule short_after short_primitive | assumption)+) simp

subsection \<open>Encoder and decoder\<close>

definition message_octets :: "u8 \<Rightarrow> u8 \<Rightarrow> (nat \<Rightarrow> bool list) \<Rightarrow> nat" where
  "message_octets t1 t2 e = length (enc_message t1 t2 e 0) div 8"

lemma enc_message_aligned: "length (enc_message t1 t2 e 0) mod 8 = 0"
proof -
  have last: "length (after f pad 0) mod 8 = 0" for f
    using pad_position [of "length (f 0)"] by (simp add: after_def del: length_pad)
  show ?thesis unfolding enc_message_def after_assoc [symmetric] by (rule last)
qed

lemma encode_wire:
  assumes "wire b = Some (t1, t2, True, e)"
  obtains xs where "MultiSysCtrlMessage_encode ow (Some b) t1 t2 = Inr xs"
    "octet_bits xs = enc_message t1 t2 e 0" "length xs < 65536" "xs \<noteq> []"
proof -
  let ?bits = "enc_message t1 t2 e 0"
  have r: "row_ok (t1, t2, True, e) b ow od" for od by (rule rows [OF assms])
  have sh: "length ?bits \<le> 2091" using message_short [OF wire_short [OF assms]] by (simp add: short_def)
  then have "room NewOutStream (enc_message t1 t2 e (length (out_bits NewOutStream)))"
    by (simp add: room_def new_stream out_limit_def)
  then obtain s where s: "message_class_encode ow (Some b) t1 t2 NewOutStream = Inr s" "out_ok s" "out_bits s = ?bits"
    using writesD [OF writes_message [OF r] new_stream(1)] by (auto simp: new_stream)
  have "bitIndex s = 0" using out_position [OF s(2)] enc_message_aligned s(3) by simp
  then have o: "octet_bits (out_octets s) = ?bits" using s(3) by (simp add: out_bits_def)
  have l: "length (out_octets s) < 65536"
    using arg_cong [OF o, of length] sh by simp
  have "?bits \<noteq> []" by (simp add: enc_message_def after_def enc_choice_def bits_def)
  then have "out_octets s \<noteq> []" using o by auto
  then show ?thesis
    using that [of "out_octets s"] s(1) o l by (simp add: MultiSysCtrlMessage_encode_def out_octets_def)
qed

text \<open>After a whole message the decoder stands at the start of the next octet.\<close>

lemma whole_octets: "b < 8 \<Longrightarrow> 8 * n - b = 8 * r \<Longrightarrow> 0 < n \<Longrightarrow> b = 0" for b n r :: nat
  by presburger

lemma at_octet:
  assumes "in_ok s" and "in_bits s = octet_bits rest"
  shows "in_data s = rest"
proof -
  have "in_bit s < 8" using assms(1) by (simp add: in_ok_def)
  moreover have "8 * length (in_data s) - in_bit s = 8 * length rest"
    using arg_cong [OF assms(2), of length] by (simp add: in_bits_def)
  moreover have "in_data s = [] \<Longrightarrow> in_bit s = 0" using assms(1) by (simp add: in_ok_def)
  ultimately have "in_bit s = 0" by (cases "in_data s = []") (blast, rule whole_octets [of _ "length (in_data s)" "length rest"], simp_all only: length_greater_0_conv not_False_eq_True)
  then show ?thesis using assms(2) by (simp add: in_bits_def octet_bits_inject)
qed

lemma decode_reads:
  assumes "reads (message_class_decode od p t) (t1, q, t2) e" and "octet_bits xs = e 0"
  shows "MultiSysCtrlMessage_decode od p t (xs @ rest) = Inr (of_nat (length xs), t1, q, t2)"
proof -
  let ?s = "\<lparr> in_data = xs @ rest, in_bit = 0 \<rparr>"
  have "in_ok ?s" "0 mod 8 = in_bit ?s" "in_bits ?s = e 0 @ octet_bits rest"
    using assms(2) by (simp_all add: in_ok_def in_bits_def)
  from readsD [OF assms(1) this] obtain s'
    where s': "message_class_decode od p t ?s = Inr ((t1, q, t2), s')" "in_ok s'" "in_bits s' = octet_bits rest"
    by blast
  then show ?thesis using at_octet [OF s'(2,3)] by (simp add: MultiSysCtrlMessage_decode_def)
qed

lemma decode_wire:
  assumes "wire b = Some (t1, t2, True, e)" and "octet_bits xs = enc_message t1 t2 e 0"
  shows "MultiSysCtrlMessage_decode od p t (xs @ rest) = Inr (of_nat (length xs), t1, Some b, t2)"
  using decode_reads [OF reads_message [OF rows [OF assms(1)]] assms(2)] .

lemma wire_okE:
  assumes "wire_ok m"
  obtains b e where "pData m = Some b" "wire b = Some (Type1 m, Type2 m, True, e)"
  using assms by (auto simp: wire_ok_def split: option.splits prod.splits)

lemma message_roundtrip:
  assumes "wire_ok m"
  obtains xs where "Encode ow m = Inr xs" "xs \<noteq> []" "length xs < 65536"
    "\<And>od p t rest. MultiSysCtrlMessage_decode od p t (xs @ rest) = Inr (of_nat (length xs), Type1 m, pData m, Type2 m)"
proof -
  obtain b e where m: "pData m = Some b" "wire b = Some (Type1 m, Type2 m, True, e)" by (rule wire_okE [OF assms])
  obtain xs where "MultiSysCtrlMessage_encode ow (Some b) (Type1 m) (Type2 m) = Inr xs"
    "octet_bits xs = enc_message (Type1 m) (Type2 m) e 0" "length xs < 65536" "xs \<noteq> []"
    by (rule encode_wire [OF m(2)])
  then show ?thesis using that [of xs] m decode_wire [OF m(2)] by (simp add: Encode_def)
qed

section \<open>A buffer of messages\<close>

text \<open>What the entity behind the decoder sees: the messages in their order, each with its octets.\<close>

fun deliver :: "'s receiver \<Rightarrow> (h245_msg \<times> u8 list) list \<Rightarrow> 's \<Rightarrow> 's res" where
  "deliver recv [] s = Inr s"
| "deliver recv ((m, xs) # ms) s =
     bind_res (recv (Type1 m) (Type2 m) (pData m) (Some xs) s) (deliver recv ms)"

definition lift_fault :: "'s res \<Rightarrow> (per_fault + se_fault) + 's" where
  "lift_fault r = (case r of Inl e \<Rightarrow> Inl (Inr e) | Inr s \<Rightarrow> Inr s)"

lemma loop_step:
  assumes "MultiSysCtrlMessage_decode od p t (xs @ rest) = Inr (of_nat (length xs), t1, q, t2)"
    and "xs \<noteq> []" and "length xs < 65536" and "0 < left"
  shows "decode_loop od recv p t (xs @ rest) left s =
    (case recv t1 t2 q (Some xs) s of
       Inl e \<Rightarrow> Some (Inl (Inr e))
     | Inr s' \<Rightarrow> decode_loop od recv q t2 rest (left - int (length xs)) s')"
proof -
  have n: "unat (of_nat (length xs) :: u16) = length xs"
    using assms(3) by (simp add: unsigned_of_nat take_bit_nat_eq_self)
  then have "(of_nat (length xs) :: u16) \<noteq> 0" using assms(2) by (metis length_0_conv unat_0)
  moreover have "uint (of_nat (length xs) :: u16) = int (length xs)"
    using arg_cong [OF n, of int] by simp
  ultimately show ?thesis
    using assms(1,4) n by (subst decode_loop.simps) (simp cong: sum.case_cong)
qed

lemma decode_messages:
  assumes "\<forall>(m, xs) \<in> set ms. wire_ok m \<and> Encode ow m = Inr xs"
    and "left = int (length (concat (map snd ms)))"
  shows "decode_loop od recv p t (concat (map snd ms)) left s = Some (lift_fault (deliver recv ms s))"
  using assms
proof (induction ms arbitrary: p t left s)
  case Nil
  then show ?case by (subst decode_loop.simps) (simp add: lift_fault_def)
next
  case (Cons mx ms)
  obtain m xs where mx: "mx = (m, xs)" by (cases mx)
  have "wire_ok m" "Encode ow m = Inr xs" using Cons.prems(1) by (simp_all add: mx)
  then obtain ys where "Encode ow m = Inr ys" "ys \<noteq> []" "length ys < 65536"
    "\<And>od p t rest. MultiSysCtrlMessage_decode od p t (ys @ rest) = Inr (of_nat (length ys), Type1 m, pData m, Type2 m)"
    using message_roundtrip [of m ow] by metis
  then have xs: "xs \<noteq> []" "length xs < 65536"
    "\<And>od p t rest. MultiSysCtrlMessage_decode od p t (xs @ rest) = Inr (of_nat (length xs), Type1 m, pData m, Type2 m)"
    using \<open>Encode ow m = Inr xs\<close> by simp_all
  have l: "left = int (length xs) + int (length (concat (map snd ms)))" using Cons.prems(2) by (simp add: mx)
  moreover have "0 < left" using l xs(1) by (cases xs) simp_all
  ultimately show ?case
    using loop_step [of od p t xs "concat (map snd ms)" "Type1 m" "pData m" "Type2 m" left recv s, OF xs(3,1,2)] Cons.IH Cons.prems(1)
    by (cases "recv (Type1 m) (Type2 m) (pData m) (Some xs) s") (simp_all add: mx lift_fault_def)
qed

end
