(* ===== verification/PerProps.thy ===== *)
theory PerProps
  imports PerWire Se Rme
begin

text \<open>
  What the message codec guarantees, and where it does not keep to its own format: bits, integers, length
  determinants, whole messages, and the codec together with the signalling entity that receives what it
  decodes.
\<close>

section \<open>Bits\<close>

text \<open>The reader of up to eight bits as one would specify it on a list of bits.\<close>

definition read_bits_spec :: "nat \<Rightarrow> bool list \<Rightarrow> (u8 \<times> bool list) option" where
  "read_bits_spec n bs = (if length bs < n then None else Some (of_msb (take n bs), drop n bs))"

lemma ReadBits_short:
  assumes "in_ok s" and "0 < n" and "n \<le> 8" and "length (in_bits s) < n"
  shows "ReadBits n s = Inl Overrun"
proof (cases "in_data s")
  case Nil
  then show ?thesis using assms by (simp add: ReadBits_def)
next
  case (Cons b rest)
  then have "8 + 8 * length rest - in_bit s < n" "in_bit s < 8"
    using assms by (simp_all add: in_bits_def in_ok_def)
  then have "rest = []" "8 < in_bit s + n" using assms(3) by (cases rest; simp)+
  then show ?thesis using assms(3) by (simp add: ReadBits_def Cons Let_def)
qed

text \<open>C19. Reading up to eight bits across octet boundaries, with its mask table and shifts, is the obvious
  reader of a list of bits, highest bit first; it fails exactly when the buffer has fewer bits left.\<close>

theorem ReadBits_equivalent:
  assumes "in_ok s" and "0 < n" and "n \<le> 8"
  shows "case read_bits_spec n (in_bits s) of
           None \<Rightarrow> ReadBits n s = Inl Overrun
         | Some (v, rest) \<Rightarrow> (\<exists>s'. ReadBits n s = Inr (v, s') \<and> in_ok s' \<and> in_bits s' = rest)"
proof (cases "length (in_bits s) < n")
  case True
  then show ?thesis using ReadBits_short [OF assms] by (simp add: read_bits_spec_def)
next
  case False
  then have "in_data s \<noteq> []" using assms(2) by (auto simp: in_bits_def)
  then show ?thesis using ReadBits_bits [OF assms(1,3)] False by (auto simp: read_bits_spec_def)
qed

lemma ReadBits_equivalent_witness:
  "case read_bits_spec 5 (in_bits \<lparr> in_data = [0x0b, 0xc0], in_bit = 5 \<rparr>) of
     None \<Rightarrow> ReadBits 5 \<lparr> in_data = [0x0b, 0xc0], in_bit = 5 \<rparr> = Inl Overrun
   | Some (v, rest) \<Rightarrow> (\<exists>s'. ReadBits 5 \<lparr> in_data = [0x0b, 0xc0], in_bit = 5 \<rparr> = Inr (v, s') \<and> in_ok s' \<and> in_bits s' = rest)"
  by (rule ReadBits_equivalent) (simp_all add: in_ok_def)

section \<open>Integers\<close>

text \<open>C20. Every integer in its range is written behind whatever an output stream already holds, at any
  alignment, as long as the stream is 48 bits short of the 65472 octets that it can grow to: the writer
  neither raises an error nor hangs, and the bits that it adds read back as the same integer from any input
  that stands at the same bit of an octet, whatever follows them.\<close>

theorem integer_roundtrip:
  assumes "lower \<le> v" and "v \<le> upper" and "out_ok s" and "length (out_bits s) + 48 \<le> 8 * out_limit"
  shows "\<exists>s' bs. PutInteger lower upper v s = Inr s' \<and> out_ok s' \<and> out_bits s' = out_bits s @ bs
       \<and> (\<forall>t rest. in_ok t \<longrightarrow> in_bit t = bitIndex s \<longrightarrow> in_bits t = bs @ rest \<longrightarrow>
            (\<exists>t'. GetInteger lower upper t = Inr (v, t') \<and> in_ok t' \<and> in_bits t' = rest))"
proof -
  have "room s (enc_integer lower upper v (length (out_bits s)))"
    using length_enc_integer [of lower upper v "length (out_bits s)"] assms(4) by (simp add: room_def)
  then show ?thesis using integer.round_trip_at [of lower v upper, OF _ assms(3)] assms(1,2) by blast
qed

text \<open>Behind three bits.\<close>

lemma integer_roundtrip_witness:
  "\<exists>s. WriteBits 3 5 NewOutStream = Inr s \<and> bitIndex s = 3
     \<and> (\<exists>s' bs. PutInteger 0 16777215 70000 s = Inr s' \<and> out_ok s' \<and> out_bits s' = out_bits s @ bs
       \<and> (\<forall>t rest. in_ok t \<longrightarrow> in_bit t = 3 \<longrightarrow> in_bits t = bs @ rest \<longrightarrow>
            (\<exists>t'. GetInteger 0 16777215 t = Inr (70000, t') \<and> in_ok t' \<and> in_bits t' = rest)))"
proof -
  obtain s where s: "WriteBits 3 5 NewOutStream = Inr s" "out_ok s" "out_bits s = msb_bits 3 (5 :: u8)"
    using WriteBits_bits [of NewOutStream 3 5] new_stream by (auto simp: out_limit_def)
  then have "bitIndex s = 3" using out_position [of s] by simp
  with integer_roundtrip [of 0 70000 16777215 s] s show ?thesis by (simp add: out_limit_def)
qed

lemma bind_InrE:
  assumes "and_then g f s = Inr r"
  obtains v s' where "g s = Inr (v, s')" "f v s' = Inr r"
  using assms by (auto simp: and_then_Inr)

text \<open>C22. An integer whose lower bound is 0 is in its range whatever octets arrive: a value above the upper
  bound makes the decoder leave.\<close>

theorem decoded_integer_bounded:
  assumes "GetInteger 0 upper s = Inr (v, s')"
  shows "v \<le> upper"
proof -
  have "v \<le> upper" if "upper + 1 = 0"
  proof -
    have "upper = - 1" using that by (simp add: add_eq_0_iff2)
    then show ?thesis by simp
  qed
  then show ?thesis
    using assms
    by (auto simp: GetInteger_def Let_def raise_def give_def not_less elim!: bind_InrE split: if_splits)
qed

lemma decoded_integer_bounded_witness: "(5::u32) \<le> 9"
  by (rule decoded_integer_bounded [where s = "\<lparr> in_data = [0x50], in_bit = 0 \<rparr>" and s' = "\<lparr> in_data = [0x50], in_bit = 4 \<rparr>"])
     (simp add: GetInteger_def field_width_def and_then_def ReadBits_def MaskBit_def Let_def give_def)

text \<open>With a lower bound above 0 the check is made after an addition that wraps: an \<open>INTEGER (1..4294967295)\<close>
  whose four octets are all ones is accepted as 0, which is below its range.\<close>

theorem integer_below_range:
  "GetInteger 1 4294967295 \<lparr> in_data = 0xc0 # 0xff # 0xff # 0xff # 0xff # rest, in_bit = 0 \<rparr>
     = Inr (0, \<lparr> in_data = rest, in_bit = 0 \<rparr>)"
  by (simp add: GetInteger_def and_then_def ReadBits_def MaskBit_def Let_def give_def read_u32_def ReadOctets_def
      ReadRemainingBits_def reordered_def)

section \<open>Length determinants\<close>

lemma octets_at_0: "octets xs 0 = octet_bits xs"
  by (simp add: octets_def pad_def)

lemma octets_written:
  assumes "writes p e" and "e 0 = octet_bits xs" and "length xs \<le> out_limit"
  shows "\<exists>s. p NewOutStream = Inr s \<and> out_octets s = xs"
proof -
  have "room NewOutStream (e (length (out_bits NewOutStream)))"
    using assms(2,3) by (simp add: room_def new_stream)
  then obtain s where s: "p NewOutStream = Inr s" "out_ok s" "out_bits s = octet_bits xs"
    using writesD [OF assms(1) new_stream(1)] assms(2) by (auto simp: new_stream)
  have "bitIndex s = 0" using out_position [OF s(2)] s(3) by simp
  then have "octet_bits (out_octets s) = octet_bits xs" using s(3) by (simp add: out_bits_def)
  then show ?thesis using s(1) octet_bits_inject by blast
qed

lemma length_two_octets:
  fixes v :: u32
  assumes "128 \<le> v" and "v < 16384"
  shows "\<exists>s. PutLengthDet v NewOutStream = Inr s \<and> out_octets s = [ucast v, ucast (drop_bit 8 v) OR 0x80]"
  by (rule octets_written [OF writes_length [OF assms(2)]])
     (use assms(1) in \<open>simp_all add: enc_length_def octets_at_0 out_limit_def not_less [symmetric] del: octet_bits_simps\<close>)

lemma low_octet_sum: "(ucast (push_bit 8 (x :: u32) + ucast h) :: u8) = h" for h :: u8
proof -
  have "push_bit 8 x AND ucast h = 0" by (rule bit_word_eqI) (auto simp: bit_simps dest: bit_imp_le_length)
  then have "push_bit 8 x + ucast h = push_bit 8 x OR ucast h" by (metis add_0 word_plus_and_or)
  then show ?thesis by (auto intro!: bit_word_eqI simp: bit_simps)
qed

lemma octet_small: "(x :: u8) AND 0x80 = 0 \<Longrightarrow> (ucast x :: u32) < 128"
proof -
  assume "x AND 0x80 = 0"
  moreover have "(x AND 0x7f) OR (x AND 0x80) = x AND (0x7f OR 0x80)" by (simp only: bit.conj_disj_distrib)
  moreover have "(0x7f OR 0x80 :: u8) = - 1" by simp
  ultimately have "x = x AND 0x7f" by (metis and.right_neutral or.right_neutral)
  then have "x \<le> 0x7f" by (metis word_and_le1)
  then have "unat x \<le> 127" by (simp add: word_le_nat_alt)
  then show ?thesis by (simp add: word_less_nat_alt unat_casts)
qed

text \<open>C23. A length from 128 to 16383 that is written to a new stream is sent with its low octet first, while
  the reader takes the high octet first: unless the two octets happen to be equal, the reader never gets the length
  back.\<close>

theorem long_length_misread:
  fixes v :: u32
  assumes "128 \<le> v" and "v < 16384" and "(ucast v :: u8) \<noteq> ucast (drop_bit 8 v) OR 0x80"
  shows "\<exists>s. PutLengthDet v NewOutStream = Inr s
       \<and> (\<forall>w t. GetLengthDet \<lparr> in_data = out_octets s @ rest, in_bit = 0 \<rparr> = Inr (w, t) \<longrightarrow> w \<noteq> v)"
proof -
  let ?h = "ucast (drop_bit 8 v) OR 0x80 :: u8" and ?l = "ucast v :: u8"
  obtain s where s: "PutLengthDet v NewOutStream = Inr s" "out_octets s = [?l, ?h]"
    using length_two_octets [OF assms(1,2)] by blast
  have "w \<noteq> v" if get: "GetLengthDet \<lparr> in_data = [?l, ?h] @ rest, in_bit = 0 \<rparr> = Inr (w, t)" for w t
  proof
    assume w: "w = v"
    have "(?l AND 0x80 = 0 \<and> w = ucast ?l) \<or> w = push_bit 8 (ucast (?l AND 0x3f)) + ucast ?h"
      using get by (auto simp: GetLengthDet_def and_then_def ReadOctets_def ReadRemainingBits_def reordered_def Let_def
          give_def raise_def split: if_splits)
    then show False
    proof
      assume "?l AND 0x80 = 0 \<and> w = ucast ?l"
      then have "v < 128" using w octet_small [of ?l] by simp
      then show False using assms(1) by simp
    next
      assume "w = push_bit 8 (ucast (?l AND 0x3f)) + ucast ?h"
      then have "?l = ucast (push_bit 8 (ucast (?l AND 0x3f) :: u32) + ucast ?h)" using w by simp
      also have "\<dots> = ?h" by (rule low_octet_sum)
      finally show False using assms(3) by blast
    qed
  qed
  then show ?thesis using s by auto
qed

lemma long_length_misread_witness:
  "\<exists>s. PutLengthDet 200 NewOutStream = Inr s
     \<and> (\<forall>w t. GetLengthDet \<lparr> in_data = out_octets s @ [], in_bit = 0 \<rparr> = Inr (w, t) \<longrightarrow> w \<noteq> 200)"
  by (rule long_length_misread) simp_all

text \<open>The writer of unbounded integers sends 127 in one octet, the reader refuses a one octet value from
  127 on: the message that contains it is dropped.\<close>

theorem unbounded_127_refused:
  "\<exists>s. PutUnboundedInteger 127 NewOutStream = Inr s \<and> out_octets s = [1, 127]
     \<and> GetUnboundedInteger \<lparr> in_data = out_octets s @ rest, in_bit = 0 \<rparr> = Inl Leave"
proof -
  have "writes (PutUnboundedInteger 127) (enc_unbounded 127)"
    unfolding PutUnboundedInteger_def enc_unbounded_def Let_def unbounded_octets_def [symmetric]
    using unbounded_octets_bounds by (intro writes_and_put short_length.writes_enc writes_octets_u32)
  moreover have "enc_unbounded 127 0 = octet_bits [1, 127]"
    by (simp add: enc_unbounded_def unbounded_octets_def enc_length_def sent_octets_def le_octets_def after_def octets_def pad_def)
  ultimately obtain s where "PutUnboundedInteger 127 NewOutStream = Inr s" "out_octets s = [1, 127]"
    using octets_written [of "PutUnboundedInteger 127" "enc_unbounded 127" "[1, 127]"] by (auto simp: out_limit_def)
  then show ?thesis
    by (simp add: GetUnboundedInteger_def GetLengthDet_def ReadOctets_def ReadRemainingBits_def read_u32_def
        reordered_def and_then_def give_def raise_def Let_def)
qed

section \<open>Output beyond 64 kilobytes\<close>

text \<open>C24. The octets of a block are put into the output stream by a loop that grows the stream by 64 octets
  until they fit. The size is a uint16: when the stream, standing at the start of an octet, would have to hold more
  than 65472 octets, the size wraps to 0 and the loop never returns.\<close>

theorem long_output_hangs:
  assumes "out_mem s" and "bitIndex s = 0" and "65472 < unat (byteIndex s) + number"
  shows "WriteOctets number xs reorder s = Inl NoReturn"
  using make_room_hangs [OF assms(1)] assms(2,3) by (simp add: WriteOctets_def WriteRemainingBits_def out_limit_def)

lemma long_output_hangs_witness: "WriteOctets 65473 (replicate 65473 7) False NewOutStream = Inl NoReturn"
  by (rule long_output_hangs) (simp_all add: out_mem_def NewOutStream_def)

section \<open>Requests for multiplex entries\<close>

lemma read_times_Inr:
  assumes "read_times n g s = Inr (xs, s')" and "\<And>s x s'. g s = Inr (x, s') \<Longrightarrow> P x"
  shows "length xs = n \<and> (\<forall>x \<in> set xs. P x)"
  using assms(1)
proof (induction n arbitrary: xs s)
  case (Suc n)
  then show ?case using assms(2) by (auto simp: give_def elim!: bind_InrE)
qed (simp add: give_def)

lemma small_integer: "GetInteger 1 15 s = Inr (v, s') \<Longrightarrow> 1 \<le> v \<and> v \<le> 15"
proof -
  assume get: "GetInteger 1 15 s = Inr (v, s')"
  then obtain w :: u8 where "v = 1 + ucast w" "1 + ucast w \<le> (15 :: u32)"
    by (auto simp: GetInteger_def Let_def raise_def give_def not_less elim!: bind_InrE split: if_splits)
  moreover have "unat (1 + ucast w :: u32) = 1 + unat w"
    using unat_bounds(1) [of w] by (subst unat_add_lem [THEN iffD1]) (simp_all add: unat_casts)
  ultimately show ?thesis by (simp add: word_le_nat_alt)
qed

lemma entry_numbers_Inr:
  assumes "get_entry_numbers s = Inr ((sz, xs), s')"
  shows "length xs = unat sz \<and> unat sz \<le> 15 \<and> (\<forall>x \<in> set xs. 1 \<le> x \<and> x \<le> 15)"
proof -
  obtain v s1 s2 where v: "GetInteger 1 15 s = Inr (v, s1)"
    "read_times (unat (ucast v :: u8)) (GetInteger 1 15) s1 = Inr (xs, s2)" "sz = ucast (ucast v :: u8)"
    using assms by (auto simp: get_entry_numbers_def give_def elim!: bind_InrE)
  have "unat v \<le> 15" using small_integer [OF v(1)] by (simp add: word_le_nat_alt)
  then have "unat (ucast v :: u8) = unat v" "unat sz = unat v" using v(3) by (simp_all add: unat_casts)
  then show ?thesis using read_times_Inr [OF v(2), of "\<lambda>x. 1 \<le> x \<and> x \<le> 15"] small_integer \<open>unat v \<le> 15\<close> by metis
qed

text \<open>C21. Whatever octets a RequestMultiplexEntry is decoded from, it names at most 15 entries, each from 1 to
  15, so the procedure that stores it never writes past its stores, and neither its acknowledgement nor its
  reject, which are built in a local array of 15, overruns.\<close>

theorem decoded_entries_fit:
  assumes "Decode_RequestMultiplexEntry s = Inr (x, s')"
  shows "\<exists>m' es. rme_0601_0001 x m = Inr (m', es) \<and> (\<forall>e \<in> set (InRMEntries m'). 1 \<le> e \<and> e \<le> 15)
       \<and> (\<exists>ack. rme_0602_0011 m' = Inr ack) \<and> (\<exists>rjt. rme_0603_0011 cause m' = Inr rjt)"
proof -
  obtain t t' where "get_entry_numbers t = Inr ((enr_size x, enr_entryNumbers x), t')"
    using assms by (auto simp: Decode_RequestMultiplexEntry_def decode_plain_def get_entry_record_def give_def
        elim!: bind_InrE)
  from entry_numbers_Inr [OF this] show ?thesis
    by (auto simp: rme_handlers rme_sends RMEntries_Write_def RMEntries_Copy_def read_array_def MAX_ENTRIES_def LOCAL_ENTRIES_def Let_def)
qed

lemma decoded_entries_fit_witness:
  "\<exists>m' es. rme_0601_0001 \<lparr> enr_size = 2, enr_entryNumbers = [3, 4] \<rparr> new_RME = Inr (m', es)
     \<and> (\<forall>e \<in> set (InRMEntries m'). 1 \<le> e \<and> e \<le> 15)
     \<and> (\<exists>ack. rme_0602_0011 m' = Inr ack) \<and> (\<exists>rjt. rme_0603_0011 0 m' = Inr rjt)"
  by (rule decoded_entries_fit [where s = "\<lparr> in_data = [0x09, 0x18], in_bit = 0 \<rparr>"
        and s' = "\<lparr> in_data = [0x18], in_bit = 5 \<rparr>"])
     code_simp

section \<open>Whole messages\<close>

text \<open>C5. Every message of the 27 kinds whose codec is modelled, with values in range (wire_ok), is encoded
  without an error, and the decoder gets from the octets, wherever they stand in a buffer and whatever was decoded
  before, its class, its number and its block, and uses exactly the octets that were written. The kinds are
  MasterSlaveDetermination with Ack, Reject and Release, TerminalCapabilitySet Ack and Release,
  OpenLogicalChannelConfirm, CloseLogicalChannel with Ack, RequestChannelClose Ack, Reject and Release,
  MultiplexEntrySend Ack and Release, RequestMultiplexEntry with Ack, Reject and Release, RequestMode Ack, Reject and
  Release, RoundTripDelayRequest and Response, MaintenanceLoopRequest with Ack, Reject and OffCommand. (The lengths from 128 on, which C23 shows to be misread, do
  not occur among them.) For the other kinds, whose codecs are parameters,
  nothing is claimed.\<close>

theorem message_survives_wire:
  assumes "wire_ok m"
  shows "\<exists>xs. Encode ow m = Inr xs \<and> xs \<noteq> [] \<and> length xs < 65536
       \<and> (\<forall>od p t rest. MultiSysCtrlMessage_decode od p t (xs @ rest)
             = Inr (of_nat (length xs), Type1 m, pData m, Type2 m))"
  using message_roundtrip [OF assms] by metis

lemma message_survives_wire_witness:
  "\<exists>xs. Encode (\<lambda>_ _ _. put_nothing) \<lparr> Type1 = 0, Type2 = 1, pData = Some (P_MasterSlaveDetermination
        \<lparr> msd_terminalType = 128, msd_statusDeterminationNumber = 654321 \<rparr>) \<rparr> = Inr xs \<and> xs \<noteq> [] \<and> length xs < 65536
     \<and> (\<forall>od p t rest. MultiSysCtrlMessage_decode od p t (xs @ rest)
           = Inr (of_nat (length xs), 0, Some (P_MasterSlaveDetermination
        \<lparr> msd_terminalType = 128, msd_statusDeterminationNumber = 654321 \<rparr>), 1))"
  using message_survives_wire [of "\<lparr> Type1 = 0, Type2 = 1, pData = Some (P_MasterSlaveDetermination
        \<lparr> msd_terminalType = 128, msd_statusDeterminationNumber = 654321 \<rparr>) \<rparr>" "\<lambda>_ _ _. put_nothing"]
  by (simp add: wire_ok_def)

lemma sint_length: "n < 2147483648 \<Longrightarrow> sint (of_nat n :: u32) = int n"
  by (simp add: signed_of_nat signed_take_bit_int_eq_self)

text \<open>C4. A buffer that holds the encodings of any number of messages, less than 2^31 octets in all, is taken
  apart completely: the signalling entity receives the messages one by one in their order, as if they had been handed
  to it directly, and the loop ends. The messages are of the 27 kinds whose codec is modelled (the rows of wire, which
  C5 names), with values in range; messages of other kinds, such as TerminalCapabilitySet, OpenLogicalChannel or
  MultiplexEntrySend, whose codecs are parameters, are excluded.\<close>

theorem messages_delivered:
  assumes "\<forall>(m, xs) \<in> set ms. wire_ok m \<and> Encode ow m = Inr xs"
    and "length (concat (map snd ms)) < 2147483648"
  shows "Decode od MessageRecv (concat (map snd ms)) (of_nat (length (concat (map snd ms)))) s
       = Some (lift_fault (deliver MessageRecv ms s))"
  unfolding Decode_def by (intro decode_messages [OF assms(1)]) (use assms(2) sint_length in simp)

definition two_messages :: "(h245_msg \<times> u8 list) list" where
  "two_messages =
     [(\<lparr> Type1 = 0, Type2 = 9, pData = Some (P_RoundTripDelayRequest 7) \<rparr>, [9, 0, 7]),
      (\<lparr> Type1 = 3, Type2 = 2, pData = Some P_MasterSlaveDeterminationRelease \<rparr>, [98, 0])]"

lemma two_messages_encoded:
  "Encode (\<lambda>_ _ _. put_nothing) \<lparr> Type1 = 0, Type2 = 9, pData = Some (P_RoundTripDelayRequest 7) \<rparr> = Inr [9, 0, 7]"
  "Encode (\<lambda>_ _ _. put_nothing) \<lparr> Type1 = 3, Type2 = 2, pData = Some P_MasterSlaveDeterminationRelease \<rparr> = Inr [98, 0]"
  by code_simp+

lemma messages_delivered_witness:
  "Decode (\<lambda>_ _. raise Leave) MessageRecv (concat (map snd two_messages))
       (of_nat (length (concat (map snd two_messages)))) (new_SE (\<lambda>_. 1) 1)
     = Some (lift_fault (deliver MessageRecv two_messages (new_SE (\<lambda>_. 1) 1)))"
  by (rule messages_delivered [where ow = "\<lambda>_ _ _. put_nothing"])
     (simp_all add: two_messages_def two_messages_encoded wire_ok_def)

text \<open>The first number of each class that neither the decoder nor the entity knows.\<close>

definition class_known :: "u8 \<Rightarrow> u32" where
  "class_known t = (if t = 0 then 15 else if t = 1 then 24 else if t = 2 then 11 else 22)"

lemma unknown_row:
  assumes "t1 \<le> 3" and "class_known t1 \<le> ucast t2"
  shows "map_of (class_readers od t1) t2 = None"
proof -
  have "class_known t1 \<le> ucast t2 \<Longrightarrow> k \<le> 21 \<Longrightarrow> ucast k < class_known t1 \<Longrightarrow> t2 \<noteq> k" for k :: u8 by auto
  then have "k \<noteq> t2" if "ucast k < class_known t1" for k :: u8 using assms(2) that by auto
  moreover have "\<forall>k \<in> set (map fst (class_readers od t1)). ucast k < class_known t1"
    by (rule class_cases [OF assms(1)])
       (simp_all add: class_tables class_known_def request_readers_def response_readers_def command_readers_def
          indication_readers_def)
  ultimately show ?thesis by (auto simp: map_of_eq_None_iff)
qed

lemma unknown_event:
  assumes "t1 \<le> 3" and "class_known t1 \<le> ucast t2"
  obtains tbl where "TablePointerGetLowerLayer (ucast t1) = Some tbl" "EventNoDecision tbl (ucast t2) = None"
proof -
  obtain tbl where tbl: "TablePointerGetLowerLayer (ucast t1) = Some tbl" "\<forall>n \<in> snd ` set tbl. n < class_known t1"
    by (rule class_cases [OF assms(1)])
       (simp_all add: TablePointerGetLowerLayer_def class_known_def event_tables)
  then have "ucast t2 \<notin> snd ` set tbl" using assms(2) by (auto simp: not_less [symmetric])
  with tbl(1) show ?thesis using that by (simp add: EventNoDecision_None)
qed

text \<open>The octets of a message of a number that this version does not have: its body is an open type.\<close>

definition enc_unknown_message :: "u8 \<Rightarrow> u8 \<Rightarrow> u8 list \<Rightarrow> bool list" where
  "enc_unknown_message t1 t2 body =
     after (enc_choice 4 True (ucast t1)) (after (after (enc_choice (class_size t1) True (ucast t2)) (enc_item body)) pad) 0"

lemma short_unknown:
  assumes "length body < 16384"
  shows "length (enc_unknown_message t1 t2 body) \<le> 131300"
proof -
  have o: "short (7 + 8 * length xs) (octets xs)" for xs
    using short_primitive(3) by (simp add: short_def octets_def)
  have "short 23 (octets [a])" "short 23 (octets [a, b])" for a b
    by (rule short_weaken [OF o], simp)+
  then have "short 23 (std_length n)" for n by (simp add: std_length_def)
  then have "short (42 + ((42 + (23 + (7 + 8 * length body))) + 7))
      (after (enc_choice 4 True (ucast t1)) (after (after (enc_choice (class_size t1) True (ucast t2)) (enc_item body)) pad))"
    unfolding enc_item_def by (intro short_after short_primitive o)
  moreover have "42 + ((42 + (23 + (7 + 8 * length body))) + 7) \<le> 131300" using assms by simp
  ultimately show ?thesis unfolding short_def enc_unknown_message_def using le_trans by blast
qed

lemma unknown_decoded:
  assumes "t1 \<le> 3" and "class_known t1 \<le> ucast t2" and "ucast t2 < class_size t1 + 64" and "length body < 16384"
    and "octet_bits xs = enc_unknown_message t1 t2 body"
  shows "MultiSysCtrlMessage_decode od p t (xs @ rest) = Inr (of_nat (length xs), t1, p, t2)"
proof -
  have "choice_ok (class_size t1) True (ucast t2)"
    using assms(2,3)
    by (cases rule: class_cases [OF assms(1)])
       (auto simp: choice_ok_def type_casts class_size_def class_known_def word_less_nat_alt word_le_nat_alt unat_sub_if')
  then have "reads (message_decode (class_size t1) (class_readers od t1) p) (p, t2)
      (after (enc_choice (class_size t1) True (ucast t2)) (enc_item body))"
    unfolding message_decode_def
    by (intro reads_and_then [OF reads_index])
       (use reads_and_give [OF reads_SkipOneExtension [OF assms(4)], of "\<lambda>_. (p, t2)"] unknown_row [OF assms(1,2)]
        in \<open>simp_all add: type_casts\<close>)
  from reads_class [OF assms(1) this] show ?thesis
    by (rule decode_reads) (simp add: assms(5) enc_unknown_message_def)
qed

text \<open>C17. A message of a number that only a later version of the protocol has (up to 63 above the extension
  root, with a body of less than 16384 octets) is skipped as a whole, and the entity answers it with an error
  notification to its upper layer: no procedure is touched.\<close>

theorem unknown_message_reported:
  assumes "t1 \<le> 3" and "class_known t1 \<le> ucast t2" and "ucast t2 < class_size t1 + 64" and "length body < 16384"
    and "octet_bits xs = enc_unknown_message t1 t2 body"
  shows "Decode od MessageRecv xs (of_nat (length xs)) s
       = Some (Inr (performs [ItnErrNotificationSend ITN_ERR_CODE_0001 (ucast t2)] s))"
proof -
  obtain tbl where "TablePointerGetLowerLayer (ucast t1) = Some tbl" "EventNoDecision tbl (ucast t2) = None"
    by (rule unknown_event [OF assms(1,2)])
  then have recv: "MessageRecv t1 t2 p enc s = Inr (performs [ItnErrNotificationSend ITN_ERR_CODE_0001 (ucast t2)] s)" for p enc
    by (simp add: MessageRecv_def)
  have "enc_unknown_message t1 t2 body \<noteq> []" by (simp add: enc_unknown_message_def after_def enc_choice_def bits_def)
  then have "xs \<noteq> []" using assms(5) by auto
  moreover have "length xs < 65536"
    using arg_cong [OF assms(5), of length] short_unknown [OF assms(4), of t1 t2] by simp
  ultimately show ?thesis
    using loop_step [of od None 0 xs "[]" t1 None t2 "int (length xs)" MessageRecv s,
        OF unknown_decoded [OF assms, of od]] recv
    by (simp add: Decode_def sint_length) (subst decode_loop.simps, simp)
qed

lemma unknown_message_reported_witness:
  "Decode (\<lambda>_ _. raise Leave) MessageRecv [0x72, 0x00, 0x02, 0x01, 0x02] (of_nat 5) (new_SE (\<lambda>_. 1) 1)
     = Some (Inr (performs [ItnErrNotificationSend ITN_ERR_CODE_0001 (ucast (30 :: u8))] (new_SE (\<lambda>_. 1) 1)))"
proof -
  have "octet_bits [0x72, 0x00, 0x02, 0x01, 0x02] = enc_unknown_message 3 30 [1, 2]" by code_simp
  from unknown_message_reported [OF _ _ _ _ this, of "\<lambda>_ _. raise Leave" "new_SE (\<lambda>_. 1) 1"] show ?thesis
    by (simp add: class_known_def class_size_def)
qed

text \<open>C18. A message whose sender knows extensions (at most 64, each of less than 16384 octets) that this
  version does not have: the reader of a message without extensions finds the extension bit set, reads the values of
  the root, skips every extension whatever it contains, and stands at the octet behind the last one.\<close>

theorem later_version_read:
  assumes "codec p g v e" and "v x" and "unknown_ok flags items" and "in_ok s"
    and "in_bits s = after (bits [True]) (after (e x) (enc_unknown flags items)) (in_bit s) @ rest"
  shows "\<exists>s'. decode_plain g s = Inr (x, s') \<and> in_ok s' \<and> in_bits s' = rest"
proof -
  have "in_bit s mod 8 = in_bit s" using assms(4) by (simp add: in_ok_def)
  then show ?thesis using readsD [OF reads_extended [OF assms(1-3)] assms(4) _ assms(5)] by metis
qed

lemma later_version_read_witness:
  "\<exists>s'. decode_plain get_number \<lparr> in_data = [0x80, 0x07, 0x01, 0x01, 0x09, 0x55], in_bit = 0 \<rparr> = Inr (7, s')
     \<and> in_ok s' \<and> in_bits s' = msb_bits 8 (0x55 :: u8)"
proof -
  let ?s = "\<lparr> in_data = [0x80, 0x07, 0x01, 0x01, 0x09, 0x55], in_bit = 0 \<rparr>"
  have "in_bits ?s = after (bits [True]) (after (enc_number 7) (enc_unknown [True] [[0x09]])) (in_bit ?s) @ msb_bits 8 (0x55 :: u8)"
    by code_simp
  moreover have "unknown_ok [True] [[0x09]]" by (simp add: unknown_ok_def)
  ultimately show ?thesis
    by (intro later_version_read [OF codec_number, where x = 7 and flags = "[True]" and items = "[[0x09]]"])
       (simp_all add: in_ok_def)
qed

end
