(* ===== verification/H223Base.thy ===== *)
theory H223Base
  imports Prelude
begin

text \<open>
  What the framing levels of the H.223 multiplexer share (\<^verbatim>\<open>h223/include/pduparcom.h\<close>): the header check
  table, the calls that a receiver makes on its observer, the size limits of \<^verbatim>\<open>h223types.h\<close>, and words as
  lists of bits, lowest bit first, which is the order on the line.
\<close>

section \<open>Definitions of the code\<close>

definition HecCrc :: "u8 list" where
  "HecCrc = [0x00, 0x05, 0x07, 0x02, 0x03, 0x06, 0x04, 0x01, 0x06, 0x03, 0x01, 0x04, 0x05, 0x00, 0x02, 0x07, 0x00, 0x00]"

definition H223_MAX_MUX_PDU_SIZE :: nat where
  "H223_MAX_MUX_PDU_SIZE = 512"

definition H223_MAX_DEMUX_PDU_SIZE :: nat where
  "H223_MAX_DEMUX_PDU_SIZE = 1024"

datatype mux_error = EHeaderErr | ESizeErr

text \<open>A call of \<^verbatim>\<open>MuxPduIndicate\<close> passes a pointer and a size; the event has the octets from the pointer to
  the end of the array, the size, the closing flag and the multiplex code.\<close>

datatype mux_event =
    MuxPduIndicate "u8 list" u16 bool u32
  | MuxPduErrIndicate mux_error

datatype mux_fault =
    PVMFErrNoMemory
  | BadIndex        \<comment> \<open>an array is read or written outside its bounds\<close>
  | NullPointer     \<comment> \<open>a null pointer is dereferenced\<close>
  | FailedAssertion \<comment> \<open>\<^verbatim>\<open>OSCL_ASSERT\<close> does not hold\<close>

section \<open>What an observer sees\<close>

text \<open>What an indication hands to its observer: the octets, the closing flag and the multiplex code.\<close>

fun shown :: "mux_event \<Rightarrow> (u8 list \<times> bool \<times> u32) option" where
  "shown (MuxPduIndicate memory n closing code) = Some (take (unat n) memory, closing, code)"
| "shown (MuxPduErrIndicate e) = None"

definition pdu_shown :: "u8 \<Rightarrow> u8 list \<Rightarrow> (u8 list \<times> bool \<times> u32) option" where
  "pdu_shown h xs = Some (xs, h AND 1 \<noteq> 0, ucast (drop_bit 1 h AND 0xf))"

section \<open>Bits, lowest first\<close>

lemma octet_bit: "bit (x :: u8) n \<Longrightarrow> n < 8"
  using bit_imp_le_length by fastforce

lemma octet_high: "8 \<le> n \<Longrightarrow> \<not> bit (x :: u8) n"
  using octet_bit not_less by blast

definition lsb_bits :: "nat \<Rightarrow> 'a::len word \<Rightarrow> bool list" where
  "lsb_bits n w = map (bit w) [0..<n]"

definition line_bits :: "u8 list \<Rightarrow> bool list" where
  "line_bits xs = concat (map (lsb_bits 8) xs)"

lemma length_lsb_bits [simp]: "length (lsb_bits n w) = n"
  by (simp add: lsb_bits_def)

lemma nth_lsb_bits [simp]: "i < n \<Longrightarrow> lsb_bits n w ! i = bit w i"
  by (simp add: lsb_bits_def)

lemma lsb_bits_0 [simp]: "lsb_bits 0 w = []"
  by (simp add: lsb_bits_def)

lemma lsb_bits_Nil [simp]: "lsb_bits n w = [] \<longleftrightarrow> n = 0"
  by (simp add: lsb_bits_def)

lemma line_bits_simps [simp]:
  "line_bits [] = []"
  "line_bits (x # xs) = lsb_bits 8 x @ line_bits xs"
  "line_bits (xs @ ys) = line_bits xs @ line_bits ys"
  by (simp_all add: line_bits_def)

lemma length_line_bits [simp]: "length (line_bits xs) = 8 * length xs"
  by (induction xs) simp_all

lemma line_bits_Nil [simp]: "line_bits xs = [] \<longleftrightarrow> xs = []"
  by (cases xs) auto

lemma lsb_bits_add: "lsb_bits (m + n) w = lsb_bits m w @ lsb_bits n (drop_bit m w)"
  by (rule nth_equalityI) (auto simp: nth_append bit_drop_bit_eq)

lemma lsb_bits_Suc: "lsb_bits (Suc n) w = bit w 0 # lsb_bits n (drop_bit 1 w)"
  using lsb_bits_add [of 1 n w] by (simp add: lsb_bits_def)

lemma lsb_bits_ucast [simp]: "n \<le> 8 \<Longrightarrow> lsb_bits n (ucast (w :: u32) :: u8) = lsb_bits n w"
  by (rule nth_equalityI) (auto simp: bit_simps)

lemma lsb_bits_up [simp]: "lsb_bits n (ucast (w :: u8) :: u32) = lsb_bits n w" if "n \<le> 32"
  by (rule nth_equalityI) (use that in \<open>auto simp: bit_simps\<close>)

text \<open>Two groups of bits in one word.\<close>

lemma lsb_bits_or:
  fixes a b :: u32
  assumes "take_bit m a = a" and "m + n \<le> 32"
  shows "lsb_bits (m + n) (a OR push_bit m b) = lsb_bits m a @ lsb_bits n b"
proof (rule nth_equalityI)
  fix i
  assume "i < length (lsb_bits (m + n) (a OR push_bit m b))"
  then have i: "i < m + n" by simp
  have "m \<le> i \<Longrightarrow> \<not> bit a i" using assms(1) by (metis bit_take_bit_iff not_le)
  then show "lsb_bits (m + n) (a OR push_bit m b) ! i = (lsb_bits m a @ lsb_bits n b) ! i"
    using i assms(2) by (auto simp: nth_append bit_simps)
qed simp

lemma take_bit_or_push:
  fixes a b :: u32
  assumes "take_bit m a = a" and "take_bit n b = b"
  shows "take_bit (m + n) (a OR push_bit m b) = a OR push_bit m b"
proof (rule bit_word_eqI)
  fix i
  have "bit a i \<Longrightarrow> i < m" "bit b j \<Longrightarrow> j < n" for j
    using assms by (metis bit_take_bit_iff)+
  then show "bit (take_bit (m + n) (a OR push_bit m b)) i = bit (a OR push_bit m b) i"
    by (fastforce simp: bit_simps)
qed

lemma take_bit_drop: "take_bit (m + n) (w :: u32) = w \<Longrightarrow> take_bit n (drop_bit m w) = drop_bit m w"
  by (metis add.commute take_bit_drop_bit)

lemma lsb_bits_inject: "lsb_bits n v = lsb_bits n w \<longleftrightarrow> take_bit n v = take_bit n w"
proof
  assume "lsb_bits n v = lsb_bits n w"
  then have "bit v i = bit w i" if "i < n" for i using that nth_lsb_bits by metis
  then show "take_bit n v = take_bit n w" by (intro bit_word_eqI) (auto simp: bit_take_bit_iff)
next
  assume "take_bit n v = take_bit n w"
  then have "bit v i = bit w i" if "i < n" for i using that by (metis bit_take_bit_iff)
  then show "lsb_bits n v = lsb_bits n w" by (intro nth_equalityI) auto
qed

lemma lsb_octet_inject: "lsb_bits 8 v = lsb_bits 8 w \<longleftrightarrow> v = (w :: u8)"
  unfolding lsb_bits_inject by (simp add: take_bit_word_eq_self)

lemma line_bits_inject: "line_bits xs = line_bits ys \<longleftrightarrow> xs = ys"
proof (induction xs arbitrary: ys)
  case Nil
  show ?case by (cases ys) simp_all
next
  case (Cons x xs)
  show ?case
  proof (cases ys)
    case (Cons y zs)
    then show ?thesis
      using Cons.IH [of zs] lsb_octet_inject [of x y] by (simp add: append_eq_append_conv)
  qed simp
qed

end
