(* ===== verification/H223Stuffing.thy ===== *)
theory H223Stuffing
  imports H223Base
begin

text \<open>
  Zero insertion on lists of bits: the window algorithms of \<^verbatim>\<open>level0.cpp\<close> as functions on lists, the
  definition of the standard, which counts ones, and the facts that relate them. The theory of the level
  itself shows that its registers implement the functions on lists.
\<close>

section \<open>Windows\<close>

text \<open>Insertion looks at five bits and either moves them on with a zero behind them, or moves one bit on.\<close>

function insert_zeros :: "bool list \<Rightarrow> bool list" where
  "insert_zeros [] = []"
| "insert_zeros (b # bs) =
     (if take 5 (b # bs) = replicate 5 True then replicate 5 True @ False # insert_zeros (drop 4 bs)
      else b # insert_zeros bs)"
  by pat_completeness auto
termination by (relation "measure length") auto

text \<open>Removal looks at six bits and drops the sixth after five ones.\<close>

function remove_zeros :: "bool list \<Rightarrow> bool list" where
  "remove_zeros [] = []"
| "remove_zeros (b # bs) =
     (if take 5 (b # bs) = replicate 5 True \<and> 5 \<le> length bs then replicate 5 True @ remove_zeros (drop 5 bs)
      else b # remove_zeros bs)"
  by pat_completeness auto
termination by (relation "measure length") auto

lemmas ones5 = eval_nat_numeral replicate.simps

lemma insert_short: "length bs < 5 \<Longrightarrow> insert_zeros bs = bs"
  by (induction bs) (auto dest: arg_cong [of _ _ length])

lemma remove_short: "length bs < 6 \<Longrightarrow> remove_zeros bs = bs"
  by (induction bs) auto

lemma insert_window:
  assumes "5 \<le> length w"
  shows "insert_zeros (w @ bs) =
     (if take 5 w = replicate 5 True then replicate 5 True @ False # insert_zeros (drop 5 w @ bs)
      else hd w # insert_zeros (tl w @ bs))"
  using assms by (cases w) auto

lemma remove_window:
  assumes "6 \<le> length w"
  shows "remove_zeros (w @ bs) =
     (if take 5 w = replicate 5 True then replicate 5 True @ remove_zeros (drop 6 w @ bs)
      else hd w # remove_zeros (tl w @ bs))"
  using assms by (cases w) auto

lemma insert_ones: "insert_zeros (replicate 5 True @ bs) = replicate 5 True @ False # insert_zeros bs"
  using insert_window [of "replicate 5 True" bs] by simp

lemma remove_ones: "remove_zeros (replicate 5 True @ b # bs) = replicate 5 True @ remove_zeros bs"
  using remove_window [of "replicate 5 True @ [b]" bs] by simp

lemma five_ones: "take 5 (b # bs) = replicate 5 True \<Longrightarrow> b # bs = replicate 5 True @ drop 4 bs"
  by (metis append_take_drop_id drop_Suc_Cons eval_nat_numeral(3) semiring_norm(28))

section \<open>The standard\<close>

text \<open>A zero after five ones in a row; the number is the number of ones just sent.\<close>

fun stuff :: "nat \<Rightarrow> bool list \<Rightarrow> bool list" where
  "stuff n [] = []"
| "stuff n (False # bs) = False # stuff 0 bs"
| "stuff n (True # bs) = (if n = 4 then True # False # stuff 0 bs else True # stuff (Suc n) bs)"

lemma stuff_restart:
  "n < 5 \<Longrightarrow> take (5 - n) bs \<noteq> replicate (5 - n) True \<Longrightarrow> stuff n bs = stuff 0 bs"
proof (induction bs arbitrary: n)
  case (Cons b bs)
  show ?case
  proof (cases b)
    case True
    have n: "5 - n = Suc (4 - n)" using Cons.prems(1) by simp
    then have more: "take (4 - n) bs \<noteq> replicate (4 - n) True" using Cons.prems(2) True by simp
    then have "n \<noteq> 4" by auto
    have "take 4 bs \<noteq> replicate 4 True"
    proof
      assume "take 4 bs = replicate 4 True"
      then have "take (4 - n) (take 4 bs) = take (4 - n) (replicate 4 True)" by simp
      then show False using more by simp
    qed
    then have "stuff 1 bs = stuff 0 bs" using Cons.IH [of 1] by simp
    moreover have "stuff (Suc n) bs = stuff 0 bs" using Cons.IH [of "Suc n"] more Cons.prems(1) \<open>n \<noteq> 4\<close> by simp
    ultimately show ?thesis using True \<open>n \<noteq> 4\<close> by simp
  qed simp
qed simp

theorem insert_is_stuff: "insert_zeros bs = stuff 0 bs"
proof (induction bs rule: insert_zeros.induct)
  case (2 b bs)
  show ?case
  proof (cases "take 5 (b # bs) = replicate 5 True")
    case True
    have "stuff 0 (replicate 5 True @ drop 4 bs) = replicate 5 True @ False # stuff 0 (drop 4 bs)"
      by (simp add: eval_nat_numeral)
    then show ?thesis using 2(1) [OF True] by (simp only: five_ones [OF True] insert_ones)
  next
    case False
    then have "b \<Longrightarrow> take 4 bs \<noteq> replicate 4 True" by (auto simp: eval_nat_numeral)
    then have "b \<Longrightarrow> stuff 1 bs = stuff 0 bs" using stuff_restart [of 1 bs] by simp
    then show ?thesis using False 2(2) [OF False] by (cases b) auto
  qed
qed simp

section \<open>Removal undoes insertion\<close>

lemma insert_prefix: "take 4 (insert_zeros bs) = take 4 bs"
proof -
  have "take (4 - n) (stuff n bs) = take (4 - n) bs" for n
  proof (induction bs arbitrary: n)
    case (Cons b bs)
    have "take k (stuff 0 bs) = take k bs" if "k \<le> 4" for k
      using Cons.IH [of 0] that by (metis diff_zero min.absorb2 min.commute take_take)
    moreover have "take k (stuff (Suc n) bs) = take k bs" if "4 - n = Suc k" for k
    proof -
      have "k = 4 - Suc n" using that by simp
      then show ?thesis using Cons.IH [of "Suc n"] by simp
    qed
    ultimately show ?case by (cases b; cases "4 - n") auto
  qed simp
  from this [of 0] show ?thesis by (simp add: insert_is_stuff)
qed

theorem remove_insert: "remove_zeros (insert_zeros bs) = bs"
proof (induction bs rule: insert_zeros.induct)
  case (2 b bs)
  show ?case
  proof (cases "take 5 (b # bs) = replicate 5 True")
    case True
    then show ?thesis using 2(1) [OF True] by (simp only: five_ones [OF True] insert_ones remove_ones)
  next
    case False
    have "take 5 (b # insert_zeros bs) = take 5 (b # bs)"
      using insert_prefix [of bs] by (simp add: eval_nat_numeral)
    then show ?thesis using False 2(2) [OF False] by simp
  qed
qed simp

section \<open>No flag inside\<close>

text \<open>No run of six ones, when \<open>n\<close> ones stand before.\<close>

fun runs_ok :: "nat \<Rightarrow> bool list \<Rightarrow> bool" where
  "runs_ok n [] = True"
| "runs_ok n (False # bs) = runs_ok 0 bs"
| "runs_ok n (True # bs) = (n < 5 \<and> runs_ok (Suc n) bs)"

lemma runs_stuff: "n < 5 \<Longrightarrow> runs_ok n (stuff n bs)"
  by (induction n bs rule: stuff.induct) auto

lemma runs_insert: "runs_ok 0 (insert_zeros bs)"
  by (simp add: insert_is_stuff runs_stuff)

lemma runs_less: "runs_ok n bs \<Longrightarrow> m \<le> n \<Longrightarrow> runs_ok m bs"
  by (induction n bs arbitrary: m rule: runs_ok.induct) auto

lemma runs_tl: "runs_ok 0 (b # bs) \<Longrightarrow> runs_ok 0 bs"
  by (cases b) (auto intro: runs_less)

lemma zero_first: "0 < k \<Longrightarrow> take k (False # xs) \<noteq> replicate k True"
  by (cases k) auto

lemma runs_no_six: "runs_ok n bs \<Longrightarrow> n < 6 \<Longrightarrow> take (6 - n) (bs @ False # cs) \<noteq> replicate (6 - n) True"
proof (induction n bs rule: runs_ok.induct)
  case (3 n bs)
  then have "6 - n = Suc (6 - Suc n)" by auto
  then show ?case using 3 by auto
qed (simp_all only: append_Cons append_Nil, (rule zero_first, simp)+)

end
