(* ===== verification/H223Level0.thy ===== *)
theory H223Level0
  imports H223Stuffing
begin

text \<open>
  Level 0 of the H.223 multiplexer (\<^verbatim>\<open>h223/src/level0.cpp\<close>, class \<^verbatim>\<open>Level0PduParcom\<close>): multiplex PDUs between
  HDLC flags on a line of bits, with a zero inserted after five ones.

  The sender keeps two small registers: bits that do not fill an octet yet, and bits that still have to be
  checked for five ones. The receiver keeps a window of eight bits in which it looks for a flag, a register
  that fills the next octet of its buffer, and, for the removal of the zeros inside the same buffer, a window
  of six bits and an output register. The \<^verbatim>\<open>int\<close> and \<^verbatim>\<open>unsigned\<close> registers are words of 32 bits, the numbers of
  bits in them are natural numbers. A routine that returns the number of octets written returns the octets.
\<close>

section \<open>The sender\<close>

record level0_tx =
  iTxByte0 :: u32
  iTxByte0Pos :: nat
  iTxCheck0 :: u32
  iTxCheck0Pos :: nat

type_synonym 's emitter = "'s \<Rightarrow> u8 list \<times> 's"

definition then_emit :: "'s emitter \<Rightarrow> 's emitter \<Rightarrow> 's emitter" where
  "then_emit f g s = (let (xs, s1) = f s; (ys, s2) = g s1 in (xs @ ys, s2))"

definition emit_nothing :: "'s emitter" where
  "emit_nothing s = ([], s)"

definition HDLC :: u8 where
  "HDLC = 0x7e"

definition new_level0_tx :: level0_tx where
  "new_level0_tx = \<lparr> iTxByte0 = 0, iTxByte0Pos = 0, iTxCheck0 = 0, iTxCheck0Pos = 0 \<rparr>"

text \<open>The loop that writes whole octets out of the register.\<close>

function flush_octets :: "level0_tx emitter" where
  "flush_octets s =
     (if 8 \<le> iTxByte0Pos s then
        let (xs, s') = flush_octets (s\<lparr>iTxByte0 := drop_bit 8 (iTxByte0 s), iTxByte0Pos := iTxByte0Pos s - 8\<rparr>)
        in (ucast (iTxByte0 s) # xs, s')
      else ([], s))"
  by pat_completeness auto
termination by (relation "measure iTxByte0Pos") auto

declare flush_octets.simps [simp del]

definition AppendTxBits0 :: "nat \<Rightarrow> u32 \<Rightarrow> level0_tx emitter" where
  "AppendTxBits0 num_bits bits s =
     flush_octets (s\<lparr>iTxByte0 := iTxByte0 s OR push_bit (iTxByte0Pos s) bits,
                    iTxByte0Pos := iTxByte0Pos s + num_bits\<rparr>)"

definition AppendTxOctet :: "u8 \<Rightarrow> level0_tx emitter" where
  "AppendTxOctet octet s =
     then_emit
       (\<lambda>s. if iTxCheck0Pos s \<noteq> 0 then
              let (xs, s1) = AppendTxBits0 (iTxCheck0Pos s) (iTxCheck0 s) s
              in (xs, s1\<lparr>iTxCheck0Pos := 0, iTxCheck0 := 0\<rparr>)
            else ([], s))
       (AppendTxBits0 8 (ucast octet)) s"

lemma flush_octets_check: "flush_octets s = (xs, s') \<Longrightarrow> iTxCheck0 s' = iTxCheck0 s \<and> iTxCheck0Pos s' = iTxCheck0Pos s"
proof (induction s arbitrary: xs s' rule: flush_octets.induct)
  case (1 s)
  from "1.prems" show ?case
    by (subst (asm) flush_octets.simps) (auto split: if_splits prod.splits dest: "1.IH")
qed

lemma AppendTxBits0_check:
  "iTxCheck0 (snd (AppendTxBits0 n b s)) = iTxCheck0 s" "iTxCheck0Pos (snd (AppendTxBits0 n b s)) = iTxCheck0Pos s"
  using flush_octets_check [of "s\<lparr>iTxByte0 := iTxByte0 s OR push_bit (iTxByte0Pos s) b, iTxByte0Pos := iTxByte0Pos s + n\<rparr>"]
  by (simp_all add: AppendTxBits0_def prod_eq_iff [symmetric] split: prod.splits) (metis prod.collapse level0_tx.select_convs level0_tx.update_convs)+

text \<open>The loop that moves checked bits on: five ones and a zero, or the lowest bit.\<close>

function insert_bits :: "level0_tx emitter" where
  "insert_bits s =
     (if 5 \<le> iTxCheck0Pos s then
        if iTxCheck0 s AND 0x1F = 0x1F then
          let (xs, s1) = AppendTxBits0 5 (iTxCheck0 s AND 0x1F) s;
              (ys, s2) = AppendTxBits0 1 0 s1;
              (zs, s3) = insert_bits (s2\<lparr>iTxCheck0 := drop_bit 5 (iTxCheck0 s2), iTxCheck0Pos := iTxCheck0Pos s2 - 5\<rparr>)
          in (xs @ ys @ zs, s3)
        else
          let (xs, s1) = AppendTxBits0 1 (iTxCheck0 s AND 1) s;
              (zs, s3) = insert_bits (s1\<lparr>iTxCheck0 := drop_bit 1 (iTxCheck0 s1), iTxCheck0Pos := iTxCheck0Pos s1 - 1\<rparr>)
          in (xs @ zs, s3)
      else ([], s))"
  by pat_completeness auto
termination
  by (relation "measure iTxCheck0Pos") (auto simp: prod_eq_iff dest!: sym [of "(_, _)"] simp: AppendTxBits0_check)

declare insert_bits.simps [simp del]

definition Insert0Octet :: "u8 \<Rightarrow> nat \<Rightarrow> level0_tx emitter" where
  "Insert0Octet octet num_bits_from_octet s =
     insert_bits (s\<lparr>iTxCheck0 := iTxCheck0 s OR push_bit (iTxCheck0Pos s) (ucast octet),
                   iTxCheck0Pos := iTxCheck0Pos s + num_bits_from_octet\<rparr>)"

fun Insert0 :: "u8 list \<Rightarrow> level0_tx emitter" where
  "Insert0 [] = emit_nothing"
| "Insert0 (x # xs) = then_emit (Insert0Octet x 8) (Insert0 xs)"

fun GetStuffing :: "nat \<Rightarrow> level0_tx emitter" where
  "GetStuffing 0 = emit_nothing"
| "GetStuffing (Suc n) = then_emit (AppendTxOctet HDLC) (GetStuffing n)"

fun insert_fragments :: "u8 list list \<Rightarrow> level0_tx emitter" where
  "insert_fragments [] = emit_nothing"
| "insert_fragments (f # fs) = then_emit (Insert0 f) (insert_fragments fs)"

definition header_octet :: "u8 \<Rightarrow> u8" where
  "header_octet MuxTblNum = push_bit 5 (HecCrc ! unat MuxTblNum) OR push_bit 1 MuxTblNum"

text \<open>\<open>fragments\<close> are the media fragments from the second on; \<open>allocated\<close> says whether the pool has a buffer
  for the result, which is \<^verbatim>\<open>H223_MAX_MUX_PDU_SIZE\<close> octets long.\<close>

definition pdu_octets :: "u8 list list \<Rightarrow> u8 \<Rightarrow> u8 \<Rightarrow> level0_tx emitter" where
  "pdu_octets fragments MuxTblNum pm =
     then_emit (AppendTxOctet HDLC)
    (then_emit (AppendTxOctet HDLC)
    (then_emit (Insert0Octet (header_octet MuxTblNum) 8)
    (then_emit (insert_fragments fragments)
    (then_emit (AppendTxOctet HDLC)
    (then_emit (if pm \<noteq> 0 then then_emit (Insert0Octet 1 8) (AppendTxOctet HDLC) else emit_nothing)
               (AppendTxOctet HDLC))))))"

definition CompletePdu :: "bool \<Rightarrow> u8 list list \<Rightarrow> u8 \<Rightarrow> u8 \<Rightarrow> level0_tx \<Rightarrow> mux_fault + (u8 list \<times> level0_tx)" where
  "CompletePdu allocated fragments MuxTblNum pm s =
     (if length HecCrc \<le> unat MuxTblNum then Inl BadIndex
      else if \<not> allocated then Inl PVMFErrNoMemory
      else let (xs, s') = pdu_octets fragments MuxTblNum pm s
           in if H223_MAX_MUX_PDU_SIZE < length xs then Inl BadIndex else Inr (xs, s'))"

section \<open>The receiver\<close>

text \<open>\<open>iPdu\<close> is the whole array; positions in it are indices.\<close>

record level0_rx =
  iRecvBits :: u32
  iNumRecvBits :: nat
  iRecvByte :: u32
  iRecvBytePos :: nat
  iRecvByte0 :: u32
  iRecvByte0Pos :: nat
  iZeroBitRemovedOutput :: u32
  iZeroBitRemovedOutputPos :: nat
  iPduPosZeroRemoved :: nat
  iPdu :: "u8 list"
  iPduPos :: nat

type_synonym 's step = "'s \<Rightarrow> mux_fault + ('s \<times> mux_event list)"

definition new_level0_rx :: "u8 list \<Rightarrow> level0_rx" where
  "new_level0_rx memory =
     \<lparr> iRecvBits = 0, iNumRecvBits = 0, iRecvByte = 0, iRecvBytePos = 0, iRecvByte0 = 0, iRecvByte0Pos = 0,
       iZeroBitRemovedOutput = 0, iZeroBitRemovedOutputPos = 0, iPduPosZeroRemoved = 0,
       iPdu = memory, iPduPos = 0 \<rparr>"

subsection \<open>Removal of the zeros\<close>

function store_octets :: "level0_rx \<Rightarrow> mux_fault + level0_rx" where
  "store_octets s =
     (if 8 \<le> iZeroBitRemovedOutputPos s then
        if length (iPdu s) \<le> iPduPosZeroRemoved s then Inl BadIndex
        else store_octets
               (s\<lparr>iPdu := (iPdu s)[iPduPosZeroRemoved s := ucast (iZeroBitRemovedOutput s)],
                  iPduPosZeroRemoved := iPduPosZeroRemoved s + 1,
                  iZeroBitRemovedOutput := drop_bit 8 (iZeroBitRemovedOutput s),
                  iZeroBitRemovedOutputPos := iZeroBitRemovedOutputPos s - 8\<rparr>)
      else Inr s)"
  by pat_completeness auto
termination by (relation "measure iZeroBitRemovedOutputPos") auto

declare store_octets.simps [simp del]

definition AppendBits0 :: "nat \<Rightarrow> u32 \<Rightarrow> level0_rx \<Rightarrow> mux_fault + level0_rx" where
  "AppendBits0 num_bits bits s =
     store_octets
       (s\<lparr>iZeroBitRemovedOutput := iZeroBitRemovedOutput s OR push_bit (iZeroBitRemovedOutputPos s) bits,
          iZeroBitRemovedOutputPos := iZeroBitRemovedOutputPos s + num_bits\<rparr>)"

definition remove_bit :: "u8 \<Rightarrow> level0_rx \<Rightarrow> mux_fault + level0_rx" where
  "remove_bit cur_bit s =
     (let s1 = s\<lparr>iRecvByte0 := ucast (ucast (iRecvByte0 s OR push_bit (iRecvByte0Pos s) (ucast cur_bit)) :: u8),
                iRecvByte0Pos := iRecvByte0Pos s + 1\<rparr>
      in if iRecvByte0Pos s1 = 6 then
           if iRecvByte0 s1 AND 0x1F = 0x1F then
             bind_res (AppendBits0 5 0x1F s1) (\<lambda>s2. Inr (s2\<lparr>iRecvByte0Pos := 0, iRecvByte0 := 0\<rparr>))
           else
             bind_res (AppendBits0 1 (iRecvByte0 s1 AND 1) s1)
               (\<lambda>s2. Inr (s2\<lparr>iRecvByte0Pos := iRecvByte0Pos s2 - 1, iRecvByte0 := drop_bit 1 (iRecvByte0 s2)\<rparr>))
         else Inr s1)"

fun Remove0Octet :: "u8 \<Rightarrow> nat \<Rightarrow> level0_rx \<Rightarrow> mux_fault + level0_rx" where
  "Remove0Octet cur_byte 0 s = Inr s"
| "Remove0Octet cur_byte (Suc n) s =
     bind_res (remove_bit (cur_byte AND 1) s) (Remove0Octet (drop_bit 1 cur_byte) n)"

text \<open>The octets at the indices from \<open>bytenum\<close> on, \<open>n\<close> of them; each is read when its turn comes.\<close>

fun remove_octets :: "nat \<Rightarrow> nat \<Rightarrow> level0_rx \<Rightarrow> mux_fault + level0_rx" where
  "remove_octets bytenum 0 s = Inr s"
| "remove_octets bytenum (Suc n) s =
     (if length (iPdu s) \<le> bytenum then Inl BadIndex
      else bind_res (Remove0Octet (iPdu s ! bytenum) 8 s) (remove_octets (Suc bytenum) n))"

definition Remove0 :: "level0_rx step" where
  "Remove0 s =
     bind_res (remove_octets 0 (iPduPos s) (s\<lparr>iPduPosZeroRemoved := 0\<rparr>)) (\<lambda>s1.
     bind_res
       (if iRecvBytePos s1 \<noteq> 0 then
          bind_res (Remove0Octet (ucast (iRecvByte s1)) (iRecvBytePos s1) s1)
            (\<lambda>s2. Inr (s2\<lparr>iRecvBytePos := 0, iRecvByte := 0\<rparr>))
        else Inr s1) (\<lambda>s2.
     bind_res
       (if iRecvByte0Pos s2 \<noteq> 0 then
          bind_res (AppendBits0 (iRecvByte0Pos s2) (iRecvByte0 s2) s2)
            (\<lambda>s3. Inr (s3\<lparr>iRecvByte0Pos := 0, iRecvByte0 := 0\<rparr>))
        else Inr s2) (\<lambda>s3.
       let s4 = (if iZeroBitRemovedOutputPos s3 \<noteq> 0 then s3\<lparr>iZeroBitRemovedOutputPos := 0\<rparr> else s3);
           header = iPdu s4 ! 0
       in Inr (s4\<lparr>iPduPos := 0\<rparr>,
            [MuxPduIndicate (drop 1 (iPdu s4)) (of_nat (iPduPosZeroRemoved s4) - 1)
               (header AND 1 \<noteq> 0) (ucast (drop_bit 1 header AND 0xf))]))))"

subsection \<open>Search for flags\<close>

text \<open>\<^verbatim>\<open>iPduEndPos\<close> is the last element of the array.\<close>

definition AppendBit :: "u32 \<Rightarrow> level0_rx step" where
  "AppendBit c s =
     (let s1 = s\<lparr>iRecvByte := iRecvByte s OR push_bit (iRecvBytePos s) c, iRecvBytePos := iRecvBytePos s + 1\<rparr>
      in if iRecvBytePos s1 = 8 then
           bind_res (if iPduPos s1 = H223_MAX_DEMUX_PDU_SIZE - 1 then Remove0 s1 else Inr (s1, []))
             (\<lambda>(s2, evs).
                if length (iPdu s2) \<le> iPduPos s2 then Inl BadIndex
                else Inr (s2\<lparr>iPdu := (iPdu s2)[iPduPos s2 := ucast (iRecvByte s2)], iPduPos := iPduPos s2 + 1,
                            iRecvByte := 0, iRecvBytePos := 0\<rparr>, evs))
         else Inr (s1, []))"

definition recv_bit :: "u8 \<Rightarrow> level0_rx step" where
  "recv_bit cur_bit s =
     (let s1 = s\<lparr>iRecvBits := ucast (ucast (iRecvBits s OR push_bit (iNumRecvBits s) (ucast cur_bit)) :: u8),
                iNumRecvBits := iNumRecvBits s + 1\<rparr>
      in if iNumRecvBits s1 = 8 then
           if iRecvBits s1 AND ucast HDLC = ucast HDLC then
             bind_res (if iPduPos s1 \<noteq> 0 then Remove0 s1 else Inr (s1, []))
               (\<lambda>(s2, evs). Inr (s2\<lparr>iNumRecvBits := 0, iRecvBits := 0\<rparr>, evs))
           else
             bind_res (AppendBit (iRecvBits s1 AND 1) s1)
               (\<lambda>(s2, evs). Inr (s2\<lparr>iRecvBits := drop_bit 1 (iRecvBits s2), iNumRecvBits := iNumRecvBits s2 - 1\<rparr>, evs))
         else Inr (s1, []))"

definition then_step :: "'s step \<Rightarrow> 's step \<Rightarrow> 's step" where
  "then_step f g s =
     bind_res (f s) (\<lambda>(s1, evs). bind_res (g s1) (\<lambda>(s2, evs'). Inr (s2, evs @ evs')))"

fun recv_octet :: "u8 \<Rightarrow> nat \<Rightarrow> level0_rx step" where
  "recv_octet cur_byte 0 s = Inr (s, [])"
| "recv_octet cur_byte (Suc n) s = then_step (recv_bit (cur_byte AND 1)) (recv_octet (drop_bit 1 cur_byte) n) s"

fun SearchForHdlcFlag :: "u8 list \<Rightarrow> level0_rx step" where
  "SearchForHdlcFlag [] s = Inr (s, [])"
| "SearchForHdlcFlag (x # xs) s = then_step (recv_octet x 8) (SearchForHdlcFlag xs) s"

end
