(* ===== verification/H223Level0Tx.thy ===== *)
theory H223Level0Tx
  imports H223Level0
begin

text \<open>
  What the sender of level 0 puts on the line. Its state stands for two lists of bits: those that wait for
  an octet to fill (\<open>pending\<close>) and those that wait to be checked for ones (\<open>waiting\<close>).
\<close>

definition pending :: "level0_tx \<Rightarrow> bool list" where
  "pending s = lsb_bits (iTxByte0Pos s) (iTxByte0 s)"

definition waiting :: "level0_tx \<Rightarrow> bool list" where
  "waiting s = lsb_bits (iTxCheck0Pos s) (iTxCheck0 s)"

definition tx_ok :: "level0_tx \<Rightarrow> bool" where
  "tx_ok s \<longleftrightarrow> iTxByte0Pos s < 8 \<and> take_bit (iTxByte0Pos s) (iTxByte0 s) = iTxByte0 s
     \<and> iTxCheck0Pos s < 5 \<and> take_bit (iTxCheck0Pos s) (iTxCheck0 s) = iTxCheck0 s"

lemma flush_octets_bits:
  assumes "flush_octets s = (xs, s')" and "take_bit (iTxByte0Pos s) (iTxByte0 s) = iTxByte0 s" and "iTxByte0Pos s \<le> 32"
  shows "line_bits xs @ pending s' = pending s \<and> iTxByte0Pos s' < 8
       \<and> take_bit (iTxByte0Pos s') (iTxByte0 s') = iTxByte0 s'"
  using assms
proof (induction s arbitrary: xs s' rule: flush_octets.induct)
  case (1 s)
  show ?case
  proof (cases "8 \<le> iTxByte0Pos s")
    case True
    let ?t = "s\<lparr>iTxByte0 := drop_bit 8 (iTxByte0 s), iTxByte0Pos := iTxByte0Pos s - 8\<rparr>"
    obtain ys where ys: "flush_octets ?t = (ys, s')" "xs = ucast (iTxByte0 s) # ys"
      using "1.prems"(1) True by (subst (asm) flush_octets.simps) (auto split: prod.splits)
    have pos: "iTxByte0Pos s = 8 + (iTxByte0Pos s - 8)" using True by simp
    have "take_bit (iTxByte0Pos s - 8) (drop_bit 8 (iTxByte0 s)) = drop_bit 8 (iTxByte0 s)"
      using "1.prems"(2) pos by (metis take_bit_drop)
    then have "line_bits ys @ pending s' = pending ?t \<and> iTxByte0Pos s' < 8
        \<and> take_bit (iTxByte0Pos s') (iTxByte0 s') = iTxByte0 s'"
      using "1.IH" [OF True ys(1)] "1.prems"(3) by simp
    moreover have "pending s = lsb_bits 8 (iTxByte0 s) @ pending ?t"
      using lsb_bits_add [of 8 "iTxByte0Pos s - 8" "iTxByte0 s"] pos by (simp add: pending_def)
    ultimately show ?thesis using ys(2) by simp
  next
    case False
    then have "xs = [] \<and> s' = s" using "1.prems"(1) by (subst (asm) flush_octets.simps) simp
    then show ?thesis using False "1.prems"(2) by simp
  qed
qed

lemma AppendTxBits0_bits:
  assumes "AppendTxBits0 n b s = (xs, s')" and "iTxByte0Pos s < 8" and "take_bit (iTxByte0Pos s) (iTxByte0 s) = iTxByte0 s"
    and "n \<le> 8" and "take_bit n b = b"
  shows "line_bits xs @ pending s' = pending s @ lsb_bits n b \<and> iTxByte0Pos s' < 8
       \<and> take_bit (iTxByte0Pos s') (iTxByte0 s') = iTxByte0 s'
       \<and> iTxCheck0 s' = iTxCheck0 s \<and> iTxCheck0Pos s' = iTxCheck0Pos s"
proof -
  have "pending (s\<lparr>iTxByte0 := iTxByte0 s OR push_bit (iTxByte0Pos s) b, iTxByte0Pos := iTxByte0Pos s + n\<rparr>)
      = pending s @ lsb_bits n b"
    using lsb_bits_or [OF assms(3), of n b] assms(2,4) by (simp add: pending_def)
  moreover have "iTxCheck0 s' = iTxCheck0 s \<and> iTxCheck0Pos s' = iTxCheck0Pos s"
    using AppendTxBits0_check [of n b s] assms(1) by simp
  ultimately show ?thesis
    using flush_octets_bits [OF assms(1) [unfolded AppendTxBits0_def]] take_bit_or_push [OF assms(3,5)] assms(2,4) by simp
qed

lemma waiting_window:
  assumes "5 \<le> iTxCheck0Pos s"
  shows "iTxCheck0 s AND 0x1F = 0x1F \<longleftrightarrow> take 5 (waiting s) = replicate 5 True"
    and "hd (waiting s) = bit (iTxCheck0 s) 0"
proof -
  have m: "(0x1F :: u32) = mask 5" by (simp add: mask_eq_exp_minus_1)
  have "take 5 (waiting s) = lsb_bits 5 (iTxCheck0 s)"
    using lsb_bits_add [of 5 "iTxCheck0Pos s - 5" "iTxCheck0 s"] assms by (simp add: waiting_def)
  moreover have "replicate 5 True = lsb_bits 5 (mask 5 :: u32)"
    by (rule nth_equalityI) (auto simp: bit_mask_iff)
  ultimately show "iTxCheck0 s AND 0x1F = 0x1F \<longleftrightarrow> take 5 (waiting s) = replicate 5 True"
    unfolding m by (simp add: lsb_bits_inject take_bit_eq_mask and.commute)
  show "hd (waiting s) = bit (iTxCheck0 s) 0"
    using assms lsb_bits_Suc [of "iTxCheck0Pos s - 1" "iTxCheck0 s"] by (simp add: waiting_def)
qed

lemma take_bit_5_and: "take_bit 5 ((x :: u32) AND 0x1F) = x AND 0x1F" and take_bit_1_and: "take_bit 1 (x AND 1) = x AND 1"
proof -
  have m: "(0x1F :: u32) = mask 5" by (simp add: mask_eq_exp_minus_1)
  show "take_bit 5 (x AND 0x1F) = x AND 0x1F" unfolding m by (simp add: take_bit_eq_mask [symmetric])
  have "(1 :: u32) = mask 1" by simp
  then show "take_bit 1 (x AND 1) = x AND 1" by (metis take_bit_eq_mask take_bit_take_bit min.idem)
qed

lemma lsb_and_1: "lsb_bits 1 ((x :: u32) AND 1) = [bit x 0]"
  by (simp add: lsb_bits_def bit_simps)

text \<open>The loop: what it puts on the line, and what still waits; \<open>bs\<close> is whatever comes later.\<close>

lemma insert_bits_emits:
  assumes "insert_bits s = (xs, s')" and "iTxByte0Pos s < 8" and "take_bit (iTxByte0Pos s) (iTxByte0 s) = iTxByte0 s"
    and "take_bit (iTxCheck0Pos s) (iTxCheck0 s) = iTxCheck0 s"
  shows "tx_ok s' \<and> (\<exists>e. line_bits xs @ pending s' = pending s @ e
       \<and> (\<forall>bs. insert_zeros (waiting s @ bs) = e @ insert_zeros (waiting s' @ bs)))"
  using assms
proof (induction s arbitrary: xs s' rule: insert_bits.induct)
  case (1 s)
  show ?case
  proof (cases "5 \<le> iTxCheck0Pos s")
    case False
    then have "xs = [] \<and> s' = s" using "1.prems"(1) by (subst (asm) insert_bits.simps) simp
    then show ?thesis using False "1.prems" by (simp add: tx_ok_def)
  next
    case long: True
    have w5: "5 \<le> length (waiting s)" using long by (simp add: waiting_def)
    show ?thesis
    proof (cases "iTxCheck0 s AND 0x1F = 0x1F")
      case True
      obtain as s1 where a: "AppendTxBits0 5 (iTxCheck0 s AND 0x1F) s = (as, s1)" by fastforce
      obtain bs s2 where b: "AppendTxBits0 1 0 s1 = (bs, s2)" by fastforce
      let ?t = "s2\<lparr>iTxCheck0 := drop_bit 5 (iTxCheck0 s2), iTxCheck0Pos := iTxCheck0Pos s2 - 5\<rparr>"
      obtain zs where z: "insert_bits ?t = (zs, s')" "xs = as @ bs @ zs"
        using "1.prems"(1) long True a b by (subst (asm) insert_bits.simps) (auto split: prod.splits)
      have a': "line_bits as @ pending s1 = pending s @ lsb_bits 5 (iTxCheck0 s AND 0x1F)" "iTxByte0Pos s1 < 8"
        "take_bit (iTxByte0Pos s1) (iTxByte0 s1) = iTxByte0 s1" "iTxCheck0 s1 = iTxCheck0 s" "iTxCheck0Pos s1 = iTxCheck0Pos s"
        using AppendTxBits0_bits [OF a "1.prems"(2,3)] take_bit_5_and by simp_all
      have b': "line_bits bs @ pending s2 = pending s1 @ [False]" "iTxByte0Pos s2 < 8"
        "take_bit (iTxByte0Pos s2) (iTxByte0 s2) = iTxByte0 s2" "iTxCheck0 s2 = iTxCheck0 s" "iTxCheck0Pos s2 = iTxCheck0Pos s"
        using AppendTxBits0_bits [OF b a'(2,3)] a'(4,5) by (simp_all add: lsb_bits_def)
      have pos: "iTxCheck0Pos s = 5 + (iTxCheck0Pos s - 5)" using long by simp
      have tb: "take_bit (iTxCheck0Pos ?t) (iTxCheck0 ?t) = iTxCheck0 ?t"
        using "1.prems"(4) pos b'(4,5) take_bit_drop [of 5 "iTxCheck0Pos s - 5" "iTxCheck0 s"] by simp
      have "waiting ?t = drop 5 (waiting s)"
        using lsb_bits_add [of 5 "iTxCheck0Pos s - 5" "iTxCheck0 s"] pos b'(4,5) by (simp add: waiting_def)
      moreover obtain e where e: "tx_ok s'" "line_bits zs @ pending s' = pending ?t @ e"
        "\<And>cs. insert_zeros (waiting ?t @ cs) = e @ insert_zeros (waiting s' @ cs)"
        using "1.IH"(1) [OF long True a [symmetric] refl b [symmetric] refl z(1) _ _ tb] b' by (auto simp: pending_def)
      moreover have "pending ?t = pending s2" by (simp add: pending_def)
      moreover have "lsb_bits 5 (iTxCheck0 s AND 0x1F) = replicate 5 True"
        unfolding True by (simp add: lsb_bits_def eval_nat_numeral upt_rec)
      ultimately have "line_bits xs @ pending s' = pending s @ (replicate 5 True @ False # e)"
        using a'(1) b'(1) z(2) by (simp add: append_assoc [symmetric] del: append_assoc) simp
      moreover have "insert_zeros (waiting s @ cs) = (replicate 5 True @ False # e) @ insert_zeros (waiting s' @ cs)" for cs
        using insert_window [OF w5, of cs] waiting_window(1) [OF long] True e(3) [of cs] \<open>waiting ?t = drop 5 (waiting s)\<close> by simp
      ultimately show ?thesis using e(1) by blast
    next
      case False
      obtain as s1 where a: "AppendTxBits0 1 (iTxCheck0 s AND 1) s = (as, s1)" by fastforce
      let ?t = "s1\<lparr>iTxCheck0 := drop_bit 1 (iTxCheck0 s1), iTxCheck0Pos := iTxCheck0Pos s1 - 1\<rparr>"
      obtain zs where z: "insert_bits ?t = (zs, s')" "xs = as @ zs"
        using "1.prems"(1) long False a by (subst (asm) insert_bits.simps) (auto split: prod.splits)
      have a': "line_bits as @ pending s1 = pending s @ [bit (iTxCheck0 s) 0]" "iTxByte0Pos s1 < 8"
        "take_bit (iTxByte0Pos s1) (iTxByte0 s1) = iTxByte0 s1" "iTxCheck0 s1 = iTxCheck0 s" "iTxCheck0Pos s1 = iTxCheck0Pos s"
        using AppendTxBits0_bits [OF a "1.prems"(2,3)] take_bit_1_and lsb_and_1 by simp_all
      have pos: "iTxCheck0Pos s = 1 + (iTxCheck0Pos s - 1)" using long by simp
      have tb: "take_bit (iTxCheck0Pos ?t) (iTxCheck0 ?t) = iTxCheck0 ?t"
        using "1.prems"(4) pos a'(4,5) take_bit_drop [of 1 "iTxCheck0Pos s - 1" "iTxCheck0 s"] by simp
      have tl: "waiting ?t = tl (waiting s)" "hd (waiting s) = bit (iTxCheck0 s) 0"
        using lsb_bits_add [of 1 "iTxCheck0Pos s - 1" "iTxCheck0 s"] pos a'(4,5) waiting_window(2) [OF long]
        by (simp_all add: waiting_def lsb_bits_def)
      obtain e where e: "tx_ok s'" "line_bits zs @ pending s' = pending ?t @ e"
        "\<And>cs. insert_zeros (waiting ?t @ cs) = e @ insert_zeros (waiting s' @ cs)"
        using "1.IH"(2) [OF long False a [symmetric] refl z(1) _ _ tb] a' by (auto simp: pending_def)
      have "line_bits xs @ pending s' = pending s @ (bit (iTxCheck0 s) 0 # e)"
        using a'(1) z(2) e(2) by (simp add: pending_def)
      moreover have "insert_zeros (waiting s @ cs) = (bit (iTxCheck0 s) 0 # e) @ insert_zeros (waiting s' @ cs)" for cs
        using insert_window [OF w5, of cs] waiting_window(1) [OF long] False e(3) [of cs] tl by simp
      ultimately show ?thesis using e(1) by blast
    qed
  qed
qed

section \<open>What an emitter sends\<close>

text \<open>\<open>f\<close> takes the payload bits \<open>d\<close>: after it, the line and the registers hold what the insertion of zeros
  makes of them.\<close>

definition takes_in :: "level0_tx emitter \<Rightarrow> bool list \<Rightarrow> bool" where
  "takes_in f d \<longleftrightarrow> (\<forall>s xs s'. tx_ok s \<longrightarrow> f s = (xs, s') \<longrightarrow> tx_ok s' \<and>
     (\<exists>e. line_bits xs @ pending s' = pending s @ e
        \<and> (\<forall>bs. insert_zeros (waiting s @ d @ bs) = e @ insert_zeros (waiting s' @ bs))))"

lemma takes_in_nothing: "takes_in emit_nothing []"
  by (auto simp: takes_in_def emit_nothing_def)

lemma takes_in_then:
  assumes "takes_in f d" and "takes_in g d'"
  shows "takes_in (then_emit f g) (d @ d')"
  unfolding takes_in_def
proof (intro allI impI)
  fix s xs s'
  assume s: "tx_ok s" "then_emit f g s = (xs, s')"
  obtain ys s1 where f: "f s = (ys, s1)" by fastforce
  obtain zs where g: "g s1 = (zs, s')" "xs = ys @ zs"
    using s(2) f by (auto simp: then_emit_def split: prod.splits)
  obtain e where e: "tx_ok s1" "line_bits ys @ pending s1 = pending s @ e"
    "\<And>bs. insert_zeros (waiting s @ d @ bs) = e @ insert_zeros (waiting s1 @ bs)"
    using assms(1) s(1) f unfolding takes_in_def by blast
  obtain e' where e': "tx_ok s'" "line_bits zs @ pending s' = pending s1 @ e'"
    "\<And>bs. insert_zeros (waiting s1 @ d' @ bs) = e' @ insert_zeros (waiting s' @ bs)"
    using assms(2) e(1) g(1) unfolding takes_in_def by blast
  have "line_bits xs @ pending s' = pending s @ (e @ e')"
    using e(2) e'(2) g(2) by (metis append.assoc line_bits_simps(3))
  moreover have "insert_zeros (waiting s @ (d @ d') @ bs) = (e @ e') @ insert_zeros (waiting s' @ bs)" for bs
    using e(3) [of "d' @ bs"] e'(3) [of bs] by simp
  ultimately show "tx_ok s' \<and> (\<exists>e. line_bits xs @ pending s' = pending s @ e
      \<and> (\<forall>bs. insert_zeros (waiting s @ (d @ d') @ bs) = e @ insert_zeros (waiting s' @ bs)))"
    using e'(1) by blast
qed

lemma takes_in_octet: "takes_in (Insert0Octet x 8) (lsb_bits 8 x)"
  unfolding takes_in_def
proof (intro allI impI)
  fix s xs s'
  assume s: "tx_ok s" "Insert0Octet x 8 s = (xs, s')"
  let ?t = "s\<lparr>iTxCheck0 := iTxCheck0 s OR push_bit (iTxCheck0Pos s) (ucast x), iTxCheck0Pos := iTxCheck0Pos s + 8\<rparr>"
  have c: "iTxCheck0Pos s < 5" "take_bit (iTxCheck0Pos s) (iTxCheck0 s) = iTxCheck0 s" using s(1) by (simp_all add: tx_ok_def)
  have x: "take_bit 8 (ucast x :: u32) = ucast x" by (rule bit_word_eqI) (auto simp: bit_simps dest: bit_imp_le_length)
  have "waiting ?t = waiting s @ lsb_bits 8 x"
    using lsb_bits_or [OF c(2), of 8 "ucast x"] c(1) by (simp add: waiting_def)
  moreover have "take_bit (iTxCheck0Pos ?t) (iTxCheck0 ?t) = iTxCheck0 ?t"
    using take_bit_or_push [OF c(2) x] by simp
  moreover have "insert_bits ?t = (xs, s')" using s(2) by (simp add: Insert0Octet_def)
  ultimately show "tx_ok s' \<and> (\<exists>e. line_bits xs @ pending s' = pending s @ e
      \<and> (\<forall>bs. insert_zeros (waiting s @ lsb_bits 8 x @ bs) = e @ insert_zeros (waiting s' @ bs)))"
    using insert_bits_emits [of ?t xs s'] s(1) by (simp add: tx_ok_def pending_def)
qed

lemma takes_in_octets: "takes_in (Insert0 xs) (line_bits xs)"
  by (induction xs) (auto intro: takes_in_nothing takes_in_then takes_in_octet)

lemma takes_in_fragments: "takes_in (insert_fragments fs) (line_bits (concat fs))"
  by (induction fs) (auto intro: takes_in_nothing takes_in_then takes_in_octets)

text \<open>A flag ends the payload: what waits goes out as it is, then the octet.\<close>

lemma AppendTxOctet_bits:
  assumes "AppendTxOctet x s = (xs, s')" and "tx_ok s"
  shows "tx_ok s' \<and> waiting s' = [] \<and> line_bits xs @ pending s' = pending s @ waiting s @ lsb_bits 8 x"
proof -
  let ?first = "if iTxCheck0Pos s \<noteq> 0 then
       let (xs, s1) = AppendTxBits0 (iTxCheck0Pos s) (iTxCheck0 s) s in (xs, s1\<lparr>iTxCheck0Pos := 0, iTxCheck0 := 0\<rparr>)
     else ([], s)"
  obtain ys s1 where y: "?first = (ys, s1)" by fastforce
  obtain zs where z: "AppendTxBits0 8 (ucast x) s1 = (zs, s')" "xs = ys @ zs"
    using assms(1) y by (auto simp: AppendTxOctet_def then_emit_def split: prod.splits)
  have s: "iTxByte0Pos s < 8" "take_bit (iTxByte0Pos s) (iTxByte0 s) = iTxByte0 s"
    "iTxCheck0Pos s < 5" "take_bit (iTxCheck0Pos s) (iTxCheck0 s) = iTxCheck0 s"
    using assms(2) by (simp_all add: tx_ok_def)
  have first: "line_bits ys @ pending s1 = pending s @ waiting s \<and> iTxByte0Pos s1 < 8
     \<and> take_bit (iTxByte0Pos s1) (iTxByte0 s1) = iTxByte0 s1 \<and> iTxCheck0Pos s1 = 0 \<and> iTxCheck0 s1 = 0"
  proof (cases "iTxCheck0Pos s = 0")
    case True
    then have "iTxCheck0 s = 0" using s(4) by simp
    then show ?thesis using True y s by (auto simp: waiting_def)
  next
    case False
    obtain u where "AppendTxBits0 (iTxCheck0Pos s) (iTxCheck0 s) s = (ys, u)" "s1 = u\<lparr>iTxCheck0Pos := 0, iTxCheck0 := 0\<rparr>"
      using False y by (auto split: prod.splits)
    then show ?thesis using AppendTxBits0_bits [of "iTxCheck0Pos s" "iTxCheck0 s" s ys u] s by (simp add: waiting_def pending_def)
  qed
  have x: "take_bit 8 (ucast x :: u32) = ucast x" by (rule bit_word_eqI) (auto simp: bit_simps dest: bit_imp_le_length)
  have "line_bits zs @ pending s' = pending s1 @ lsb_bits 8 x \<and> iTxByte0Pos s' < 8
      \<and> take_bit (iTxByte0Pos s') (iTxByte0 s') = iTxByte0 s' \<and> iTxCheck0 s' = 0 \<and> iTxCheck0Pos s' = 0"
    using AppendTxBits0_bits [OF z(1) _ _ _ x] first by simp
  then show ?thesis using first z(2) by (simp add: tx_ok_def waiting_def)
qed

definition flag :: "bool list" where
  "flag = lsb_bits 8 HDLC"

text \<open>One frame: the payload bits between the flags of the line.\<close>

definition frame :: "bool list \<Rightarrow> bool list" where
  "frame d = insert_zeros d @ flag"

lemma frame_bits:
  assumes "takes_in f d" and "then_emit f (AppendTxOctet HDLC) s = (xs, s')" and "tx_ok s" and "waiting s = []"
  shows "tx_ok s' \<and> waiting s' = [] \<and> line_bits xs @ pending s' = pending s @ frame d"
proof -
  obtain ys s1 where f: "f s = (ys, s1)" by fastforce
  obtain zs where g: "AppendTxOctet HDLC s1 = (zs, s')" "xs = ys @ zs"
    using assms(2) f by (auto simp: then_emit_def split: prod.splits)
  obtain e where e: "tx_ok s1" "line_bits ys @ pending s1 = pending s @ e"
    "insert_zeros (waiting s @ d @ []) = e @ insert_zeros (waiting s1 @ [])"
    using assms(1,3) f unfolding takes_in_def by blast
  have "length (waiting s1) < 5" using e(1) by (simp add: tx_ok_def waiting_def)
  then have "insert_zeros d = e @ waiting s1" using e(3) assms(4) by (simp add: insert_short)
  then show ?thesis
    using AppendTxOctet_bits [OF g(1) e(1)] e(2) g(2) by (simp add: frame_def flag_def)
qed

lemma then_emit_assoc: "then_emit (then_emit f g) h = then_emit f (then_emit g h)"
  by (auto simp: then_emit_def fun_eq_iff split: prod.splits)

text \<open>Emitters that start and end with nothing to check.\<close>

definition sends :: "level0_tx emitter \<Rightarrow> bool list \<Rightarrow> bool" where
  "sends f l \<longleftrightarrow> (\<forall>s xs s'. tx_ok s \<longrightarrow> waiting s = [] \<longrightarrow> f s = (xs, s') \<longrightarrow>
     tx_ok s' \<and> waiting s' = [] \<and> line_bits xs @ pending s' = pending s @ l)"

lemma sends_then: "sends f l \<Longrightarrow> sends g l' \<Longrightarrow> sends (then_emit f g) (l @ l')"
  unfolding sends_def
proof (intro allI impI)
  fix s xs s'
  assume f: "\<forall>s xs s'. tx_ok s \<longrightarrow> waiting s = [] \<longrightarrow> f s = (xs, s') \<longrightarrow>
      tx_ok s' \<and> waiting s' = [] \<and> line_bits xs @ pending s' = pending s @ l"
    and g: "\<forall>s xs s'. tx_ok s \<longrightarrow> waiting s = [] \<longrightarrow> g s = (xs, s') \<longrightarrow>
      tx_ok s' \<and> waiting s' = [] \<and> line_bits xs @ pending s' = pending s @ l'"
    and s: "tx_ok s" "waiting s = []" "then_emit f g s = (xs, s')"
  obtain ys s1 where y: "f s = (ys, s1)" by fastforce
  obtain zs where z: "g s1 = (zs, s')" "xs = ys @ zs"
    using s(3) y by (auto simp: then_emit_def split: prod.splits)
  have "tx_ok s1 \<and> waiting s1 = [] \<and> line_bits ys @ pending s1 = pending s @ l" using f s(1,2) y by blast
  moreover from this have "tx_ok s' \<and> waiting s' = [] \<and> line_bits zs @ pending s' = pending s1 @ l'" using g z(1) by blast
  ultimately show "tx_ok s' \<and> waiting s' = [] \<and> line_bits xs @ pending s' = pending s @ l @ l'"
    using z(2) by (metis append.assoc line_bits_simps(3))
qed

lemma sends_flag: "sends (AppendTxOctet HDLC) flag"
  using AppendTxOctet_bits [of HDLC] by (auto simp: sends_def flag_def)

lemma sends_frame: "takes_in f d \<Longrightarrow> sends (then_emit f (AppendTxOctet HDLC)) (frame d)"
  using frame_bits unfolding sends_def by blast

lemma sends_nothing: "sends emit_nothing []"
  by (auto simp: sends_def emit_nothing_def)

definition pdu_bits :: "u8 list list \<Rightarrow> u8 \<Rightarrow> bool list" where
  "pdu_bits fragments num = lsb_bits 8 (header_octet num) @ line_bits (concat fragments)"

text \<open>The closing indication is a frame with the octet 1.\<close>

definition closing_bits :: "bool list" where
  "closing_bits = lsb_bits 8 (1 :: u8)"

lemma sends_pdu:
  "sends (pdu_octets fragments num pm)
     (flag @ flag @ frame (pdu_bits fragments num) @ (if pm \<noteq> 0 then frame closing_bits else []) @ flag)"
proof -
  have a: "takes_in (then_emit (Insert0Octet (header_octet num) 8) (insert_fragments fragments)) (pdu_bits fragments num)"
    unfolding pdu_bits_def by (rule takes_in_then [OF takes_in_octet takes_in_fragments])
  have b: "sends (if pm \<noteq> 0 then then_emit (Insert0Octet 1 8) (AppendTxOctet HDLC) else emit_nothing)
      (if pm \<noteq> 0 then frame closing_bits else [])"
    using sends_frame [OF takes_in_octet [of 1]] sends_nothing by (simp add: closing_bits_def)
  from sends_then [OF sends_flag sends_then [OF sends_flag sends_then [OF sends_frame [OF a] sends_then [OF b sends_flag]]]]
  show ?thesis unfolding pdu_octets_def by (simp add: then_emit_assoc)
qed

lemma sends_stuffing: "sends (GetStuffing n) (concat (replicate n flag))"
  by (induction n) (auto intro: sends_nothing sends_then sends_flag)

lemma new_tx: "tx_ok new_level0_tx" "waiting new_level0_tx = []" "pending new_level0_tx = []"
  by (simp_all add: tx_ok_def waiting_def pending_def new_level0_tx_def)

end
