(* ===== verification/H223Level0Rx.thy ===== *)
theory H223Level0Rx
  imports H223Level0Tx
begin

text \<open>
  What the receiver of level 0 makes of the bits on the line. Removal works inside the buffer that it reads:
  the octets before \<open>iPduPosZeroRemoved\<close> and the output register are its result so far (\<open>removed\<close>), the six
  bit register is its window, and the position that is written never passes the position that is read.
\<close>

section \<open>Removal\<close>

definition removed :: "level0_rx \<Rightarrow> bool list" where
  "removed s = line_bits (take (iPduPosZeroRemoved s) (iPdu s)) @ lsb_bits (iZeroBitRemovedOutputPos s) (iZeroBitRemovedOutput s)"

definition window :: "level0_rx \<Rightarrow> bool list" where
  "window s = lsb_bits (iRecvByte0Pos s) (iRecvByte0 s)"

definition out_ok :: "level0_rx \<Rightarrow> bool" where
  "out_ok s \<longleftrightarrow> iZeroBitRemovedOutputPos s < 8
     \<and> take_bit (iZeroBitRemovedOutputPos s) (iZeroBitRemovedOutput s) = iZeroBitRemovedOutput s
     \<and> iPduPosZeroRemoved s \<le> length (iPdu s)"

lemma out_ok_window [simp]:
  "out_ok (s\<lparr>iRecvByte0 := x\<rparr>) = out_ok s" "out_ok (s\<lparr>iRecvByte0Pos := n\<rparr>) = out_ok s"
  by (simp_all add: out_ok_def)

definition rem_ok :: "level0_rx \<Rightarrow> bool" where
  "rem_ok s \<longleftrightarrow> out_ok s \<and> iRecvByte0Pos s < 6 \<and> take_bit (iRecvByte0Pos s) (iRecvByte0 s) = iRecvByte0 s"

text \<open>What removal leaves alone: the other registers and the part of the buffer that is still to be read.\<close>

definition keeps :: "level0_rx \<Rightarrow> level0_rx \<Rightarrow> bool" where
  "keeps s s' \<longleftrightarrow> iRecvBits s' = iRecvBits s \<and> iNumRecvBits s' = iNumRecvBits s \<and> iRecvByte s' = iRecvByte s
     \<and> iRecvBytePos s' = iRecvBytePos s \<and> iPduPos s' = iPduPos s \<and> length (iPdu s') = length (iPdu s)
     \<and> iPduPosZeroRemoved s \<le> iPduPosZeroRemoved s'
     \<and> drop (iPduPosZeroRemoved s') (iPdu s') = drop (iPduPosZeroRemoved s') (iPdu s)"

lemma keeps_trans: "keeps s t \<Longrightarrow> keeps t u \<Longrightarrow> keeps s u"
proof -
  assume st: "keeps s t" and tu: "keeps t u"
  obtain k where k: "iPduPosZeroRemoved u = k + iPduPosZeroRemoved t" using tu by (metis keeps_def le_add_diff_inverse2)
  have "drop (iPduPosZeroRemoved u) (iPdu t) = drop (iPduPosZeroRemoved u) (iPdu s)"
    unfolding k drop_drop [symmetric] using st by (simp add: keeps_def)
  then show ?thesis using st tu by (simp add: keeps_def)
qed

lemma length_removed: "out_ok s \<Longrightarrow> length (removed s) = 8 * iPduPosZeroRemoved s + iZeroBitRemovedOutputPos s"
  by (simp add: removed_def out_ok_def)

lemma store_octets_bits:
  assumes "take_bit (iZeroBitRemovedOutputPos s) (iZeroBitRemovedOutput s) = iZeroBitRemovedOutput s"
    and "iZeroBitRemovedOutputPos s \<le> 32"
    and "8 * iPduPosZeroRemoved s + iZeroBitRemovedOutputPos s \<le> 8 * length (iPdu s)"
  shows "\<exists>s'. store_octets s = Inr s' \<and> removed s' = removed s \<and> keeps s s' \<and> iZeroBitRemovedOutputPos s' < 8
     \<and> take_bit (iZeroBitRemovedOutputPos s') (iZeroBitRemovedOutput s') = iZeroBitRemovedOutput s'
     \<and> iPduPosZeroRemoved s' \<le> length (iPdu s') \<and> iRecvByte0Pos s' = iRecvByte0Pos s \<and> iRecvByte0 s' = iRecvByte0 s"
  using assms
proof (induction s rule: store_octets.induct)
  case (1 s)
  show ?case
  proof (cases "8 \<le> iZeroBitRemovedOutputPos s")
    case False
    then show ?thesis using 1 by (subst store_octets.simps) (auto simp: keeps_def)
  next
    case True
    let ?k = "iPduPosZeroRemoved s" and ?n = "iZeroBitRemovedOutputPos s - 8"
    let ?x = "ucast (iZeroBitRemovedOutput s) :: u8"
    let ?t = "s\<lparr>iPdu := (iPdu s)[?k := ?x], iPduPosZeroRemoved := ?k + 1,
                iZeroBitRemovedOutput := drop_bit 8 (iZeroBitRemovedOutput s), iZeroBitRemovedOutputPos := ?n\<rparr>"
    have k: "?k < length (iPdu s)" and pos: "iZeroBitRemovedOutputPos s = 8 + ?n" using 1(4) True by simp_all
    have "take_bit ?n (drop_bit 8 (iZeroBitRemovedOutput s)) = drop_bit 8 (iZeroBitRemovedOutput s)"
      using 1(2) pos by (metis take_bit_drop)
    then obtain s' where s': "store_octets ?t = Inr s'" "removed s' = removed ?t" "keeps ?t s'" "iZeroBitRemovedOutputPos s' < 8"
      "take_bit (iZeroBitRemovedOutputPos s') (iZeroBitRemovedOutput s') = iZeroBitRemovedOutput s'"
      "iPduPosZeroRemoved s' \<le> length (iPdu s')" "iRecvByte0Pos s' = iRecvByte0Pos s" "iRecvByte0 s' = iRecvByte0 s"
      using 1(1) [OF True] 1(3,4) k pos by auto
    have "removed ?t = removed s"
      using k lsb_bits_add [of 8 ?n "iZeroBitRemovedOutput s"] pos
      by (simp add: removed_def take_Suc_conv_app_nth)
    moreover have "keeps s ?t" using k by (simp add: keeps_def)
    ultimately show ?thesis using s' True k keeps_trans by (subst store_octets.simps) auto
  qed
qed

lemma AppendBits0_bits:
  assumes "out_ok s" and "n \<le> 8" and "take_bit n b = b" and "length (removed s) + n \<le> 8 * length (iPdu s)"
  shows "\<exists>s'. AppendBits0 n b s = Inr s' \<and> removed s' = removed s @ lsb_bits n b \<and> out_ok s' \<and> keeps s s'
     \<and> iRecvByte0Pos s' = iRecvByte0Pos s \<and> iRecvByte0 s' = iRecvByte0 s"
proof -
  let ?t = "s\<lparr>iZeroBitRemovedOutput := iZeroBitRemovedOutput s OR push_bit (iZeroBitRemovedOutputPos s) b,
          iZeroBitRemovedOutputPos := iZeroBitRemovedOutputPos s + n\<rparr>"
  have o: "iZeroBitRemovedOutputPos s < 8" "take_bit (iZeroBitRemovedOutputPos s) (iZeroBitRemovedOutput s) = iZeroBitRemovedOutput s"
    using assms(1) by (simp_all add: out_ok_def)
  have r: "removed ?t = removed s @ lsb_bits n b"
    using lsb_bits_or [OF o(2), of n b] o(1) assms(2) by (simp add: removed_def)
  have k: "keeps s ?t" by (simp add: keeps_def)
  obtain s' where "store_octets ?t = Inr s'" "removed s' = removed ?t" "keeps ?t s'" "iZeroBitRemovedOutputPos s' < 8"
     "take_bit (iZeroBitRemovedOutputPos s') (iZeroBitRemovedOutput s') = iZeroBitRemovedOutput s'"
     "iPduPosZeroRemoved s' \<le> length (iPdu s')" "iRecvByte0Pos s' = iRecvByte0Pos s" "iRecvByte0 s' = iRecvByte0 s"
    using store_octets_bits [of ?t] take_bit_or_push [OF o(2) assms(3)] o(1) assms(2,4) length_removed [OF assms(1)] by auto
  then show ?thesis using r keeps_trans [OF k] assms(1) unfolding AppendBits0_def out_ok_def by auto
qed

text \<open>One step, and any number of steps, of the removal of the bits \<open>d\<close>.\<close>

definition removes :: "level0_rx \<Rightarrow> bool list \<Rightarrow> level0_rx \<Rightarrow> bool" where
  "removes s d s' \<longleftrightarrow> rem_ok s' \<and> keeps s s' \<and>
     (\<exists>e. removed s' = removed s @ e \<and> length e + length (window s') \<le> length (window s) + length d
        \<and> (\<forall>bs. remove_zeros (window s @ d @ bs) = e @ remove_zeros (window s' @ bs)))"

lemma removes_trans:
  assumes "removes s d t" and "removes t d' u"
  shows "removes s (d @ d') u"
proof -
  obtain e where e: "removed t = removed s @ e" "length e + length (window t) \<le> length (window s) + length d"
    "\<And>bs. remove_zeros (window s @ d @ bs) = e @ remove_zeros (window t @ bs)"
    using assms(1) unfolding removes_def by blast
  obtain e' where e': "removed u = removed t @ e'" "length e' + length (window u) \<le> length (window t) + length d'"
    "\<And>bs. remove_zeros (window t @ d' @ bs) = e' @ remove_zeros (window u @ bs)"
    using assms(2) unfolding removes_def by blast
  have "remove_zeros (window s @ (d @ d') @ bs) = (e @ e') @ remove_zeros (window u @ bs)" for bs
    using e(3) [of "d' @ bs"] e'(3) [of bs] by simp
  moreover have "removed u = removed s @ (e @ e')" using e(1) e'(1) by simp
  moreover have "length (e @ e') + length (window u) \<le> length (window s) + length (d @ d')" using e(2) e'(2) by simp
  moreover have "rem_ok u" "keeps s u" using assms keeps_trans unfolding removes_def by blast+
  ultimately show ?thesis unfolding removes_def by blast
qed

lemma removes_nothing: "rem_ok s \<Longrightarrow> removes s [] s"
  unfolding removes_def by (auto simp: keeps_def)

lemma window_test:
  fixes x :: u32
  shows "x AND 0x1F = 0x1F \<longleftrightarrow> take 5 (lsb_bits 6 x) = replicate 5 True"
proof -
  have m: "(0x1F :: u32) = mask 5" by (simp add: mask_eq_exp_minus_1)
  have "take 5 (lsb_bits 6 x) = lsb_bits 5 x" using lsb_bits_add [of 5 1 x] by simp
  moreover have "replicate 5 True = lsb_bits 5 (mask 5 :: u32)" by (rule nth_equalityI) (auto simp: bit_mask_iff)
  ultimately show ?thesis unfolding m by (simp add: lsb_bits_inject take_bit_eq_mask and.commute)
qed

lemma ucast_octet:
  fixes x :: u32
  assumes "take_bit 8 x = x"
  shows "ucast (ucast x :: u8) = x"
proof (rule bit_word_eqI)
  fix i
  have "bit x i \<Longrightarrow> i < 8" using assms by (metis bit_take_bit_iff)
  then show "bit (ucast (ucast x :: u8) :: u32) i = bit x i" by (auto simp: bit_simps)
qed

lemma take_bit_wider:
  fixes x :: u32
  assumes "take_bit m x = x" and "m \<le> n"
  shows "take_bit n x = x"
proof (rule bit_word_eqI)
  fix i
  have "bit x i \<Longrightarrow> i < m" using assms(1) by (metis bit_take_bit_iff)
  then show "bit (take_bit n x) i = bit x i" using assms(2) by (auto simp: bit_take_bit_iff)
qed

text \<open>What a full window gives: \<open>k\<close> of its bits go to the output, and \<open>m\<close> bits are left.\<close>

lemma removes_window:
  assumes "out_ok t" and "removed t = removed s" and "keeps s t" and "iRecvByte0Pos t = 6"
    and "lsb_bits 6 (iRecvByte0 t) = window s @ [b]" and "length (removed s) + k \<le> 8 * length (iPdu s)"
    and "k \<le> 8" and "take_bit k c = c" and "m < 6" and "take_bit m v = v" and "k + m \<le> 6"
    and "\<And>bs. remove_zeros (window s @ b # bs) = lsb_bits k c @ remove_zeros (lsb_bits m v @ bs)"
  shows "\<exists>u. AppendBits0 k c t = Inr u \<and> iRecvByte0Pos u = 6 \<and> iRecvByte0 u = iRecvByte0 t
     \<and> removes s [b] (u\<lparr>iRecvByte0Pos := m, iRecvByte0 := v\<rparr>)"
proof -
  have "length (iPdu t) = length (iPdu s)" using assms(3) by (simp add: keeps_def)
  then obtain u where u: "AppendBits0 k c t = Inr u" "removed u = removed t @ lsb_bits k c" "out_ok u" "keeps t u"
     "iRecvByte0Pos u = iRecvByte0Pos t" "iRecvByte0 u = iRecvByte0 t"
    using AppendBits0_bits [OF assms(1,7,8)] assms(2,6) by auto
  have len: "length (window s) + 1 = 6" using arg_cong [OF assms(5), of length] by simp
  let ?u = "u\<lparr>iRecvByte0Pos := m, iRecvByte0 := v\<rparr>"
  have "removed ?u = removed s @ lsb_bits k c" using u(2) assms(2) by (simp add: removed_def)
  moreover have "window ?u = lsb_bits m v" by (simp add: window_def)
  moreover have "rem_ok ?u" using u(3) assms(9,10) by (simp add: rem_ok_def out_ok_def)
  moreover have "keeps s ?u" using keeps_trans [OF assms(3) u(4)] by (simp add: keeps_def)
  ultimately have "removes s [b] ?u" using assms(11,12) len by (auto simp: removes_def)
  then show ?thesis using u assms(4) by auto
qed

lemma window_parts:
  fixes x :: u32
  assumes "lsb_bits 6 x = w"
  shows "[hd w] = lsb_bits 1 (x AND 1)" "tl w = lsb_bits 5 (drop_bit 1 x)"
  using lsb_bits_Suc [of 5 x] assms lsb_and_1 [of x] by auto

lemma remove_bit_removes:
  assumes "rem_ok s" and "length (removed s) + length (window s) + 1 \<le> 8 * length (iPdu s)"
  shows "\<exists>s'. remove_bit (of_bool b) s = Inr s' \<and> removes s [b] s'"
proof -
  let ?n = "iRecvByte0Pos s"
  let ?x = "iRecvByte0 s OR push_bit ?n (of_bool b)"
  let ?t = "s\<lparr>iRecvByte0 := ?x, iRecvByte0Pos := ?n + 1\<rparr>"
  have n: "?n < 6" "take_bit ?n (iRecvByte0 s) = iRecvByte0 s" using assms(1) by (simp_all add: rem_ok_def)
  have x: "take_bit (?n + 1) ?x = ?x" by (rule take_bit_or_push [OF n(2)]) simp
  have w: "lsb_bits (?n + 1) ?x = window s @ [b]"
    using lsb_bits_or [OF n(2), of 1 "of_bool b"] n(1) by (simp add: window_def) (simp add: lsb_bits_def)
  have "take_bit 8 ?x = ?x" by (rule take_bit_wider [OF x]) (use n(1) in simp)
  then have cast: "(ucast (ucast ?x :: u8) :: u32) = ?x" by (rule ucast_octet)
  have r: "rem_ok s" "keeps s ?t" "removed ?t = removed s" using assms(1) by (simp_all add: keeps_def removed_def)
  show ?thesis
  proof (cases "?n = 5")
    case False
    have "remove_bit (of_bool b) s = Inr ?t" by (cases b) (use False cast in \<open>simp_all add: remove_bit_def\<close>)
    moreover have "window ?t = window s @ [b]" using w by (simp add: window_def)
    moreover have "rem_ok ?t" using r(1) n(1) False x by (simp add: rem_ok_def)
    ultimately show ?thesis using r by (auto simp: removes_def)
  next
    case True
    have six: "lsb_bits 6 ?x = window s @ [b]" using w True by simp
    have win: "length (window s @ [b]) = 6" using True by (simp add: window_def)
    have test: "?x AND 0x1F = 0x1F \<longleftrightarrow> take 5 (window s @ [b]) = replicate 5 True" using window_test [of ?x] six by simp
    have t: "out_ok ?t" "iRecvByte0Pos ?t = 6" "lsb_bits 6 (iRecvByte0 ?t) = window s @ [b]"
      using r(1) True six by (simp_all add: rem_ok_def out_ok_def)
    show ?thesis
    proof (cases "?x AND 0x1F = 0x1F")
      case ones: True
      have f: "lsb_bits 5 (0x1F :: u32) = replicate 5 True" by (simp add: lsb_bits_def eval_nat_numeral upt_rec)
      have split: "remove_zeros (window s @ b # bs) = lsb_bits 5 (0x1F :: u32) @ remove_zeros (lsb_bits 0 (0 :: u32) @ bs)" for bs
        using remove_window [of "window s @ [b]" bs] win test ones f by simp
      obtain u where u: "AppendBits0 5 0x1F ?t = Inr u" "removes s [b] (u\<lparr>iRecvByte0Pos := 0, iRecvByte0 := 0\<rparr>)"
        using removes_window [OF t(1) r(3,2) t(2,3) _ _ _ _ _ _ split] assms(2) win by auto
      have "remove_bit (of_bool b) s = Inr (u\<lparr>iRecvByte0Pos := 0, iRecvByte0 := 0\<rparr>)"
        by (cases b) (use True cast ones u(1) in \<open>simp_all add: remove_bit_def\<close>)
      then show ?thesis using u(2) by blast
    next
      case False
      note hd = window_parts(1) [OF six] and tl = window_parts(2) [OF six]
      have split: "remove_zeros (window s @ b # bs) = lsb_bits 1 (?x AND 1) @ remove_zeros (lsb_bits 5 (drop_bit 1 ?x) @ bs)" for bs
        using remove_window [of "window s @ [b]" bs] win test False hd tl by simp
      have tb: "take_bit 5 (drop_bit 1 ?x) = drop_bit 1 ?x" using take_bit_drop [of 1 5 ?x] x True by simp
      obtain u where u: "AppendBits0 1 (?x AND 1) ?t = Inr u" "iRecvByte0Pos u = 6" "iRecvByte0 u = ?x"
          "removes s [b] (u\<lparr>iRecvByte0Pos := 5, iRecvByte0 := drop_bit 1 ?x\<rparr>)"
        using removes_window [OF t(1) r(3,2) t(2,3) _ _ take_bit_1_and _ tb _ split] assms(2) win by auto
      have "remove_bit (of_bool b) s = Inr (u\<lparr>iRecvByte0Pos := 5, iRecvByte0 := drop_bit 1 ?x\<rparr>)"
        by (cases b) (use True cast False u(1-3) in \<open>simp_all add: remove_bit_def\<close>)
      then show ?thesis using u(4) by blast
    qed
  qed
qed

lemma removes_room:
  "removes s d t \<Longrightarrow> length (removed t) + length (window t) \<le> length (removed s) + length (window s) + length d"
  by (auto simp: removes_def)

lemma removes_ok: "removes s d t \<Longrightarrow> rem_ok t"
  by (simp add: removes_def)

lemma removes_length: "removes s d t \<Longrightarrow> length (iPdu t) = length (iPdu s)"
  by (simp add: removes_def keeps_def)

lemma octet_and_1: "(x :: u8) AND 1 = of_bool (bit x 0)"
  by (rule bit_word_eqI) (auto simp: bit_simps)

lemma Remove0Octet_removes:
  assumes "rem_ok s" and "length (removed s) + length (window s) + n \<le> 8 * length (iPdu s)"
  shows "\<exists>s'. Remove0Octet x n s = Inr s' \<and> removes s (lsb_bits n x) s'"
  using assms
proof (induction x n s rule: Remove0Octet.induct)
  case (1 x s)
  then show ?case by (simp add: removes_nothing)
next
  case (2 x n s)
  obtain t where t: "remove_bit (of_bool (bit x 0)) s = Inr t" "removes s [bit x 0] t"
    using remove_bit_removes [OF 2(2), of "bit x 0"] 2(3) by auto
  have "length (removed t) + length (window t) + n \<le> 8 * length (iPdu t)"
    using removes_room [OF t(2)] removes_length [OF t(2)] 2(3) by simp
  then obtain u where u: "Remove0Octet (drop_bit 1 x) n t = Inr u" "removes t (lsb_bits n (drop_bit 1 x)) u"
    using 2(1) [of t] t(2) by (auto simp: removes_def)
  then show ?case using t removes_trans [OF t(2) u(2)] by (auto simp: octet_and_1 lsb_bits_Suc)
qed

lemma remove_octets_removes:
  assumes "rem_ok s" and "length (removed s) + length (window s) \<le> 8 * i" and "i + n \<le> length (iPdu s)"
  shows "\<exists>s'. remove_octets i n s = Inr s' \<and> removes s (line_bits (take n (drop i (iPdu s)))) s'"
  using assms
proof (induction i n s rule: remove_octets.induct)
  case (1 i s)
  then show ?case by (simp add: removes_nothing)
next
  case (2 i n s)
  have i: "i < length (iPdu s)" using 2(4) by simp
  obtain t where t: "Remove0Octet (iPdu s ! i) 8 s = Inr t" "removes s (lsb_bits 8 (iPdu s ! i)) t"
    using Remove0Octet_removes [OF 2(2), of 8 "iPdu s ! i"] 2(3) i by auto
  have room: "length (removed t) + length (window t) \<le> 8 * Suc i" using removes_room [OF t(2)] 2(3) by simp
  then have pos: "iPduPosZeroRemoved t \<le> Suc i"
    using t(2) length_removed [of t] by (simp add: removes_def rem_ok_def)
  obtain k where k: "Suc i = k + iPduPosZeroRemoved t" using pos by (metis le_add_diff_inverse2)
  have rest: "drop (Suc i) (iPdu t) = drop (Suc i) (iPdu s)"
    unfolding k drop_drop [symmetric] using t(2) by (simp add: removes_def keeps_def)
  obtain u where u: "remove_octets (Suc i) n t = Inr u" "removes t (line_bits (take n (drop (Suc i) (iPdu t)))) u"
    using 2(1) [OF _ _ room] t(2) 2(4) i by (auto simp: removes_def keeps_def)
  have "take (Suc n) (drop i (iPdu s)) = iPdu s ! i # take n (drop (Suc i) (iPdu s))"
    using Cons_nth_drop_Suc [OF i, symmetric] by simp
  then show ?case using t(1) u i removes_trans [OF t(2) u(2)] rest by simp
qed

section \<open>One PDU\<close>

text \<open>The bits that the receiver has collected since the last flag.\<close>

definition received :: "level0_rx \<Rightarrow> bool list" where
  "received s = line_bits (take (iPduPos s) (iPdu s)) @ lsb_bits (iRecvBytePos s) (iRecvByte s)"

definition collect_ok :: "level0_rx \<Rightarrow> bool" where
  "collect_ok s \<longleftrightarrow> iRecvBytePos s < 8 \<and> take_bit (iRecvBytePos s) (iRecvByte s) = iRecvByte s \<and> iPduPos s \<le> length (iPdu s)
     \<and> iRecvByte0Pos s = 0 \<and> iRecvByte0 s = 0 \<and> iZeroBitRemovedOutputPos s = 0 \<and> iZeroBitRemovedOutput s = 0"

lemma removed_all:
  assumes "collect_ok s" and "length (received s) \<le> 8 * length (iPdu s)"
  shows "\<exists>t u. remove_octets 0 (iPduPos s) (s\<lparr>iPduPosZeroRemoved := 0\<rparr>) = Inr t
     \<and> Remove0Octet (ucast (iRecvByte s)) (iRecvBytePos s) t = Inr u \<and> iRecvBytePos t = iRecvBytePos s \<and> iRecvByte t = iRecvByte s
     \<and> removes (s\<lparr>iPduPosZeroRemoved := 0\<rparr>) (received s) u"
proof -
  let ?s = "s\<lparr>iPduPosZeroRemoved := 0\<rparr>"
  have c: "iRecvBytePos s < 8" "iPduPos s \<le> length (iPdu s)" and ok: "rem_ok ?s" and e: "removed ?s = []" "window ?s = []"
    using assms(1) by (simp_all add: collect_ok_def rem_ok_def out_ok_def removed_def window_def)
  obtain t where t: "remove_octets 0 (iPduPos s) ?s = Inr t" "removes ?s (line_bits (take (iPduPos s) (iPdu s))) t"
    using remove_octets_removes [OF ok, of 0 "iPduPos s"] e c(2) by auto
  have "length (removed t) + length (window t) + iRecvBytePos s \<le> 8 * length (iPdu t)"
    using removes_room [OF t(2)] removes_length [OF t(2)] e assms(2) c(2) by (simp add: received_def)
  then obtain u where u: "Remove0Octet (ucast (iRecvByte s)) (iRecvBytePos s) t = Inr u"
      "removes t (lsb_bits (iRecvBytePos s) (ucast (iRecvByte s) :: u8)) u"
    using Remove0Octet_removes [OF removes_ok [OF t(2)]] by blast
  have "removes ?s (received s) u" using removes_trans [OF t(2) u(2)] c(1) by (simp add: received_def)
  then show ?thesis using t u(1) by (auto simp: removes_def keeps_def)
qed

text \<open>Between two flags everything but the positions of the search is worked off.\<close>

definition indication :: "level0_rx \<Rightarrow> mux_event" where
  "indication w = MuxPduIndicate (drop 1 (iPdu w)) (of_nat (iPduPosZeroRemoved w) - 1)
     (iPdu w ! 0 AND 1 \<noteq> 0) (ucast (drop_bit 1 (iPdu w ! 0) AND 0xf))"

lemma Remove0_any:
  assumes "collect_ok s" and "length (received s) \<le> 8 * length (iPdu s)"
  shows "\<exists>w. Remove0 s = Inr (w\<lparr>iZeroBitRemovedOutputPos := 0, iPduPos := 0\<rparr>, [indication w])
     \<and> removed w = remove_zeros (received s) \<and> out_ok w \<and> iRecvByte0Pos w = 0 \<and> iRecvByte0 w = 0
     \<and> iRecvBytePos w = 0 \<and> iRecvByte w = 0 \<and> length (iPdu w) = length (iPdu s)
     \<and> iRecvBits w = iRecvBits s \<and> iNumRecvBits w = iNumRecvBits s"
proof -
  let ?s = "s\<lparr>iPduPosZeroRemoved := 0\<rparr>"
  obtain t u where t: "remove_octets 0 (iPduPos s) ?s = Inr t" "iRecvBytePos t = iRecvBytePos s" "iRecvByte t = iRecvByte s"
    and u: "Remove0Octet (ucast (iRecvByte s)) (iRecvBytePos s) t = Inr u" "removes ?s (received s) u"
    using removed_all [OF assms(1,2)] by blast
  define u' where "u' = (if iRecvBytePos s \<noteq> 0 then u\<lparr>iRecvBytePos := 0, iRecvByte := 0\<rparr> else u)"
  have second: "(if iRecvBytePos t \<noteq> 0 then
       bind_res (Remove0Octet (ucast (iRecvByte t)) (iRecvBytePos t) t) (\<lambda>s2. Inr (s2\<lparr>iRecvBytePos := 0, iRecvByte := 0\<rparr>))
     else Inr t) = Inr u'"
    using t(2,3) u(1) by (cases "iRecvBytePos s = 0") (simp_all add: u'_def)
  have s: "iRecvBytePos s = 0 \<longrightarrow> iRecvByte s = 0" using assms(1) by (auto simp: collect_ok_def)
  have u': "rem_ok u'" "iRecvBytePos u' = 0" "iRecvByte u' = 0" "removed u' = removed u" "window u' = window u"
    "length (iPdu u') = length (iPdu s)" "iRecvBits u' = iRecvBits s" "iNumRecvBits u' = iNumRecvBits s"
    using u(2) s by (auto simp: u'_def removes_def keeps_def rem_ok_def out_ok_def removed_def window_def)
  obtain e where e: "removed u = e" "length e + length (window u) \<le> length (received s)"
     "remove_zeros (received s) = e @ remove_zeros (window u)"
    using u(2) unfolding removes_def removed_def window_def
    by (auto simp: assms(1) [unfolded collect_ok_def] dest!: spec [of _ "[]"])
  have short: "remove_zeros (window u) = window u"
    by (rule remove_short) (use u'(1) arg_cong [OF u'(5), of length] in \<open>simp add: rem_ok_def window_def\<close>)
  have out: "removed u' @ window u' = remove_zeros (received s)" using e short u'(4,5) by simp
  define v where "v = (if iRecvByte0Pos u' \<noteq> 0 then
       bind_res (AppendBits0 (iRecvByte0Pos u') (iRecvByte0 u') u') (\<lambda>s3. Inr (s3\<lparr>iRecvByte0Pos := 0, iRecvByte0 := 0\<rparr>))
     else Inr u')"
  have "\<exists>w. v = Inr w \<and> removed w = remove_zeros (received s) \<and> out_ok w \<and> keeps u' w \<and> iRecvByte0Pos w = 0 \<and> iRecvByte0 w = 0"
  proof (cases "iRecvByte0Pos u' = 0")
    case True
    then have "iRecvByte0 u' = 0" "window u' = []" using u'(1) by (auto simp: rem_ok_def window_def)
    then show ?thesis using True out u'(1) by (auto simp: v_def rem_ok_def keeps_def)
  next
    case False
    have "length (removed u') + iRecvByte0Pos u' \<le> 8 * length (iPdu u')"
      using e(1,2) u'(4-6) assms(2) by (simp add: window_def) (metis add_le_mono1 le_trans length_lsb_bits)
    then obtain w where "AppendBits0 (iRecvByte0Pos u') (iRecvByte0 u') u' = Inr w"
        "removed w = removed u' @ lsb_bits (iRecvByte0Pos u') (iRecvByte0 u')" "out_ok w" "keeps u' w"
      using AppendBits0_bits [of u' "iRecvByte0Pos u'" "iRecvByte0 u'"] u'(1) by (auto simp: rem_ok_def)
    then show ?thesis using False out by (simp add: v_def window_def removed_def) (simp add: keeps_def)
  qed
  then obtain w where w: "v = Inr w" "removed w = remove_zeros (received s)" "out_ok w" "keeps u' w" "iRecvByte0Pos w = 0" "iRecvByte0 w = 0"
    by blast
  have "Remove0 s = Inr (w\<lparr>iZeroBitRemovedOutputPos := 0, iPduPos := 0\<rparr>, [indication w])"
    unfolding Remove0_def using t(1) second w(1) by (simp add: v_def Let_def indication_def)
  then show ?thesis using w u' by (auto simp: keeps_def)
qed

text \<open>A whole number of octets, at least one, between two flags: the first is the header.\<close>

lemma removed_octets:
  assumes "out_ok s" and "removed s = line_bits xs"
  shows "iZeroBitRemovedOutputPos s = 0" "iPduPosZeroRemoved s = length xs" "take (length xs) (iPdu s) = xs"
proof -
  have len: "8 * iPduPosZeroRemoved s + iZeroBitRemovedOutputPos s = 8 * length xs" "iZeroBitRemovedOutputPos s < 8"
    using length_removed [OF assms(1)] assms by (simp_all add: out_ok_def)
  then show pos: "iZeroBitRemovedOutputPos s = 0" "iPduPosZeroRemoved s = length xs" by presburger+
  then show "take (length xs) (iPdu s) = xs"
    using assms(2) line_bits_inject [of "take (length xs) (iPdu s)" xs] by (simp add: removed_def)
qed

lemma indication_shows:
  assumes "iPdu w = (h # xs) @ ys" and "iPduPosZeroRemoved w = Suc (length xs)" and "length (iPdu w) = H223_MAX_DEMUX_PDU_SIZE"
  shows "shown (indication w) = pdu_shown h xs"
proof -
  have "length xs < 2 ^ 16" using assms(1,3) by (auto simp: H223_MAX_DEMUX_PDU_SIZE_def)
  then show ?thesis using assms(1,2) by (simp add: indication_def pdu_shown_def unat_of_nat)
qed

definition at_rest :: "level0_rx \<Rightarrow> bool" where
  "at_rest s \<longleftrightarrow> collect_ok s \<and> iPduPos s = 0 \<and> iRecvBytePos s = 0 \<and> length (iPdu s) = H223_MAX_DEMUX_PDU_SIZE"

lemma Remove0_whole:
  assumes "collect_ok s" and "length (received s) \<le> 8 * length (iPdu s)" and "remove_zeros (received s) = line_bits (h # xs)"
    and "length (iPdu s) = H223_MAX_DEMUX_PDU_SIZE"
  shows "\<exists>s' ev. Remove0 s = Inr (s', [ev]) \<and> at_rest s' \<and> shown ev = pdu_shown h xs
     \<and> iRecvBits s' = iRecvBits s \<and> iNumRecvBits s' = iNumRecvBits s"
proof -
  obtain w where w: "Remove0 s = Inr (w\<lparr>iZeroBitRemovedOutputPos := 0, iPduPos := 0\<rparr>, [indication w])"
     "removed w = remove_zeros (received s)" "out_ok w" "iRecvByte0Pos w = 0" "iRecvByte0 w = 0" "iRecvBytePos w = 0" "iRecvByte w = 0"
     "length (iPdu w) = length (iPdu s)" "iRecvBits w = iRecvBits s" "iNumRecvBits w = iNumRecvBits s"
    using Remove0_any [OF assms(1,2)] by blast
  note whole = removed_octets [OF w(3) w(2) [unfolded assms(3)]]
  obtain ys where ys: "iPdu w = (h # xs) @ ys" using whole(3) by (metis append_take_drop_id)
  have zero: "iZeroBitRemovedOutput w = 0" using w(3) whole(1) by (auto simp: out_ok_def)
  have "shown (indication w) = pdu_shown h xs" using indication_shows [OF ys] whole(2) w(8) assms(4) by simp
  moreover have "at_rest (w\<lparr>iZeroBitRemovedOutputPos := 0, iPduPos := 0\<rparr>)"
    using w(4-8) zero whole(1) assms(4) by (simp add: at_rest_def collect_ok_def)
  ultimately show ?thesis using w(1,9,10) by auto
qed

end
