(* ===== verification/H223Level0Flags.thy ===== *)
theory H223Level0Flags
  imports H223Level0Rx
begin

text \<open>
  The receiver of level 0 as a reader of bits: it collects the bits before a flag and indicates what the
  removal of zeros makes of them. What the sender puts on the line comes out again, in any cut into octets.
\<close>

section \<open>Bits instead of octets\<close>

fun recv_list :: "bool list \<Rightarrow> level0_rx step" where
  "recv_list [] s = Inr (s, [])"
| "recv_list (b # bs) s = then_step (recv_bit (of_bool b)) (recv_list bs) s"

lemma then_step_Inr:
  "then_step f g s = Inr (s', evs) \<longleftrightarrow>
     (\<exists>s1 e1 e2. f s = Inr (s1, e1) \<and> g s1 = Inr (s', e2) \<and> evs = e1 @ e2)"
  by (auto simp: then_step_def bind_res_def split: sum.splits)

lemma recv_octet_list: "n \<le> 8 \<Longrightarrow> recv_octet x n s = recv_list (lsb_bits n x) s"
proof (induction n arbitrary: x s)
  case (Suc n)
  then have "recv_octet (drop_bit 1 x) n = recv_list (lsb_bits n (drop_bit 1 x))" by (simp add: fun_eq_iff)
  then show ?case by (simp add: lsb_bits_Suc octet_and_1)
qed simp

lemma then_step_assoc: "then_step (then_step f g) h s = then_step f (then_step g h) s"
  by (auto simp: then_step_def bind_res_def split: sum.splits prod.splits)

lemma recv_append_eq: "recv_list (bs @ cs) s = then_step (recv_list bs) (recv_list cs) s"
proof (induction bs arbitrary: s)
  case Nil
  show ?case by (simp add: then_step_def bind_res_def split: sum.splits prod.splits)
next
  case (Cons b bs)
  have "recv_list (bs @ cs) = then_step (recv_list bs) (recv_list cs)" using Cons.IH by (simp add: fun_eq_iff)
  moreover have "recv_list (b # bs) = then_step (recv_bit (of_bool b)) (recv_list bs)" by (simp add: fun_eq_iff)
  ultimately show ?case by (simp only: append_Cons recv_list.simps then_step_assoc)
qed

lemma recv_append:
  "recv_list (bs @ cs) s = Inr (s', evs) \<longleftrightarrow>
     (\<exists>s1 e1 e2. recv_list bs s = Inr (s1, e1) \<and> recv_list cs s1 = Inr (s', e2) \<and> evs = e1 @ e2)"
  by (simp only: recv_append_eq then_step_Inr)

lemma recv_snoc:
  assumes "recv_list bs s = Inr (t, es)" and "recv_bit (of_bool b) t = Inr (u, es')"
  shows "recv_list (bs @ [b]) s = Inr (u, es @ es')"
proof -
  have "recv_list [b] t = Inr (u, es')" using assms(2) by (simp add: then_step_Inr)
  then show ?thesis using assms(1) by (simp only: recv_append) blast
qed

lemma search_list: "SearchForHdlcFlag xs s = Inr (s', evs) \<longleftrightarrow> recv_list (line_bits xs) s = Inr (s', evs)"
proof (induction xs arbitrary: s s' evs)
  case (Cons x xs)
  then show ?case by (simp add: then_step_Inr recv_append recv_octet_list)
qed simp

section \<open>The flag window\<close>

definition look :: "level0_rx \<Rightarrow> bool list" where
  "look s = lsb_bits (iNumRecvBits s) (iRecvBits s)"

lemma line_registers [simp]:
  "collect_ok (s\<lparr>iNumRecvBits := n\<rparr>) = collect_ok s" "collect_ok (s\<lparr>iRecvBits := x\<rparr>) = collect_ok s"
  "at_rest (s\<lparr>iNumRecvBits := n\<rparr>) = at_rest s" "at_rest (s\<lparr>iRecvBits := x\<rparr>) = at_rest s"
  by (simp_all add: collect_ok_def at_rest_def)

definition look_ok :: "level0_rx \<Rightarrow> bool" where
  "look_ok s \<longleftrightarrow> iNumRecvBits s < 8 \<and> take_bit (iNumRecvBits s) (iRecvBits s) = iRecvBits s"

definition is_flag :: "bool list \<Rightarrow> bool" where
  "is_flag w \<longleftrightarrow> take 6 (tl w) = replicate 6 True"

lemma flag_test:
  fixes x :: u32
  assumes "lsb_bits 8 x = w"
  shows "x AND ucast HDLC = ucast HDLC \<longleftrightarrow> is_flag w"
proof -
  have m: "bit (ucast HDLC :: u32) i \<longleftrightarrow> 1 \<le> i \<and> i < 7" for i
  proof -
    have "(ucast HDLC :: u32) = mask 7 - mask 1" by (simp add: HDLC_def mask_eq_exp_minus_1)
    also have "\<dots> = mask 7 AND NOT (mask 1)" by (simp add: mask_eq_exp_minus_1)
    finally show ?thesis by (auto simp: bit_simps)
  qed
  have "x AND ucast HDLC = ucast HDLC \<longleftrightarrow> (\<forall>i. 1 \<le> i \<and> i < 7 \<longrightarrow> bit x i)"
    unfolding bit_eq_iff [of "x AND ucast HDLC"] bit_and_iff m by (auto, drule_tac x = i in spec, simp)
  also have "\<dots> \<longleftrightarrow> (\<forall>i<6. bit x (Suc i))"
    by (auto, metis Suc_less_eq Suc_pred eval_nat_numeral(3) semiring_norm(28) less_eq_Suc_le)
  also have "\<dots> \<longleftrightarrow> lsb_bits 6 (drop_bit 1 x) = replicate 6 True"
    by (auto simp: list_eq_iff_nth_eq bit_drop_bit_eq)
  also have "lsb_bits 6 (drop_bit 1 x) = take 6 (tl w)"
  proof -
    have "tl w = lsb_bits (6 + 1) (drop_bit 1 x)" using assms lsb_bits_Suc [of 7 x] by auto
    then show ?thesis unfolding lsb_bits_add by simp
  qed
  finally show ?thesis by (simp add: is_flag_def)
qed

lemma window8_parts:
  fixes x :: u32
  assumes "lsb_bits 8 x = w"
  shows "x AND 1 = of_bool (hd w)" "tl w = lsb_bits 7 (drop_bit 1 x)"
  using lsb_bits_Suc [of 7 x] assms by (auto simp: and_one_eq bit_0 mod_2_eq_odd)

text \<open>One bit of the line.\<close>

lemma recv_bit_step:
  assumes "look_ok s" and "w = look s @ [b]"
  shows "\<exists>t. collect_ok t = collect_ok s \<and> at_rest t = at_rest s \<and> received t = received s \<and> iPduPos t = iPduPos s
     \<and> length (iPdu t) = length (iPdu s) \<and>
     (if length w < 8 then recv_bit (of_bool b) s = Inr (t, []) \<and> look_ok t \<and> look t = w
      else if is_flag w then
        recv_bit (of_bool b) s = bind_res (if iPduPos t \<noteq> 0 then Remove0 t else Inr (t, []))
          (\<lambda>(s2, evs). Inr (s2\<lparr>iNumRecvBits := 0, iRecvBits := 0\<rparr>, evs))
      else
        recv_bit (of_bool b) s = bind_res (AppendBit (of_bool (hd w)) t)
          (\<lambda>(s2, evs). Inr (s2\<lparr>iRecvBits := drop_bit 1 (iRecvBits s2), iNumRecvBits := iNumRecvBits s2 - 1\<rparr>, evs))
        \<and> iNumRecvBits t = 8 \<and> lsb_bits 8 (iRecvBits t) = w \<and> take_bit 8 (iRecvBits t) = iRecvBits t)"
proof -
  let ?n = "iNumRecvBits s"
  let ?x = "iRecvBits s OR push_bit ?n (of_bool b)"
  let ?t = "s\<lparr>iRecvBits := ?x, iNumRecvBits := ?n + 1\<rparr>"
  have n: "?n < 8" "take_bit ?n (iRecvBits s) = iRecvBits s" using assms(1) by (simp_all add: look_ok_def)
  have x: "take_bit (?n + 1) ?x = ?x" by (rule take_bit_or_push [OF n(2)]) simp
  have bits: "lsb_bits (?n + 1) ?x = w"
    using lsb_bits_or [OF n(2), of 1 "of_bool b"] n(1) assms(2) by (simp add: look_def) (simp add: lsb_bits_def)
  have "take_bit 8 ?x = ?x" by (rule take_bit_wider [OF x]) (use n(1) in simp)
  then have cast: "(ucast (ucast ?x :: u8) :: u32) = ?x" by (rule ucast_octet)
  have len: "length w = ?n + 1" using arg_cong [OF bits, of length] by simp
  have first: "recv_bit (of_bool b) s = (let s1 = ?t in if iNumRecvBits s1 = 8 then
           if iRecvBits s1 AND ucast HDLC = ucast HDLC then
             bind_res (if iPduPos s1 \<noteq> 0 then Remove0 s1 else Inr (s1, []))
               (\<lambda>(s2, evs). Inr (s2\<lparr>iNumRecvBits := 0, iRecvBits := 0\<rparr>, evs))
           else
             bind_res (AppendBit (iRecvBits s1 AND 1) s1)
               (\<lambda>(s2, evs). Inr (s2\<lparr>iRecvBits := drop_bit 1 (iRecvBits s2), iNumRecvBits := iNumRecvBits s2 - 1\<rparr>, evs))
         else Inr (s1, []))"
    by (cases b) (use cast in \<open>simp_all add: recv_bit_def\<close>)
  have same: "collect_ok ?t = collect_ok s" "at_rest ?t = at_rest s" "received ?t = received s" "iPduPos ?t = iPduPos s"
    "length (iPdu ?t) = length (iPdu s)"
    by (simp_all add: collect_ok_def at_rest_def received_def)
  show ?thesis
  proof (rule exI [of _ ?t], intro conjI same)
    show "if length w < 8 then recv_bit (of_bool b) s = Inr (?t, []) \<and> look_ok ?t \<and> look ?t = w
      else if is_flag w then
        recv_bit (of_bool b) s = bind_res (if iPduPos ?t \<noteq> 0 then Remove0 ?t else Inr (?t, []))
          (\<lambda>(s2, evs). Inr (s2\<lparr>iNumRecvBits := 0, iRecvBits := 0\<rparr>, evs))
      else
        recv_bit (of_bool b) s = bind_res (AppendBit (of_bool (hd w)) ?t)
          (\<lambda>(s2, evs). Inr (s2\<lparr>iRecvBits := drop_bit 1 (iRecvBits s2), iNumRecvBits := iNumRecvBits s2 - 1\<rparr>, evs))
        \<and> iNumRecvBits ?t = 8 \<and> lsb_bits 8 (iRecvBits ?t) = w \<and> take_bit 8 (iRecvBits ?t) = iRecvBits ?t"
    proof (cases "?n = 7")
      case False
      then show ?thesis using n(1) len x bits unfolding first look_ok_def look_def by simp
    next
      case True
      then have "lsb_bits 8 ?x = w" using bits by simp
      then show ?thesis
        using True len x flag_test [of ?x w] window8_parts(1) [of ?x w] unfolding first by simp
    qed
  qed
qed

section \<open>Collecting\<close>

lemma AppendBit_collects:
  assumes "collect_ok s" and "length (iPdu s) = H223_MAX_DEMUX_PDU_SIZE" and "length (received s) < 8 * (H223_MAX_DEMUX_PDU_SIZE - 1)"
  shows "\<exists>t. AppendBit (of_bool b) s = Inr (t, []) \<and> collect_ok t \<and> received t = received s @ [b]
     \<and> length (iPdu t) = length (iPdu s) \<and> iRecvBits t = iRecvBits s \<and> iNumRecvBits t = iNumRecvBits s"
proof -
  let ?n = "iRecvBytePos s"
  let ?x = "iRecvByte s OR push_bit ?n (of_bool b)"
  let ?t = "s\<lparr>iRecvByte := ?x, iRecvBytePos := ?n + 1\<rparr>"
  have n: "?n < 8" "take_bit ?n (iRecvByte s) = iRecvByte s" "iPduPos s \<le> length (iPdu s)"
    using assms(1) by (simp_all add: collect_ok_def)
  have x: "take_bit (?n + 1) ?x = ?x" by (rule take_bit_or_push [OF n(2)]) simp
  have bits: "lsb_bits (?n + 1) ?x = lsb_bits ?n (iRecvByte s) @ [b]"
    using lsb_bits_or [OF n(2), of 1 "of_bool b"] n(1) by simp (simp add: lsb_bits_def)
  have pos: "iPduPos s < H223_MAX_DEMUX_PDU_SIZE - 1"
    using assms(3) n(3) assms(2) by (simp add: received_def min_def split: if_splits)
  have first: "AppendBit (of_bool b) s = (let s1 = ?t in if iRecvBytePos s1 = 8 then
           bind_res (if iPduPos s1 = H223_MAX_DEMUX_PDU_SIZE - 1 then Remove0 s1 else Inr (s1, []))
             (\<lambda>(s2, evs).
                if length (iPdu s2) \<le> iPduPos s2 then Inl BadIndex
                else Inr (s2\<lparr>iPdu := (iPdu s2)[iPduPos s2 := ucast (iRecvByte s2)], iPduPos := iPduPos s2 + 1,
                            iRecvByte := 0, iRecvBytePos := 0\<rparr>, evs))
         else Inr (s1, []))"
    by (simp only: AppendBit_def)
  show ?thesis
  proof (cases "?n = 7")
    case False
    have "AppendBit (of_bool b) s = Inr (?t, [])" using False unfolding first by simp
    moreover have "collect_ok ?t" using assms(1) False x by (simp add: collect_ok_def)
    moreover have "received ?t = received s @ [b]" using bits by (simp add: received_def)
    ultimately show ?thesis by (intro exI [of _ ?t]) simp
  next
    case True
    let ?u = "?t\<lparr>iPdu := (iPdu s)[iPduPos s := ucast ?x], iPduPos := iPduPos s + 1, iRecvByte := 0, iRecvBytePos := 0\<rparr>"
    have "AppendBit (of_bool b) s = Inr (?u, [])"
      using True pos assms(2) unfolding first Let_def by simp
    moreover have "collect_ok ?u" using assms(1,2) pos by (simp add: collect_ok_def)
    moreover have "received ?u = received s @ [b]"
    proof -
      have "lsb_bits 8 (ucast ?x :: u8) = lsb_bits 7 (iRecvByte s) @ [b]" using bits True by simp
      moreover have "take (iPduPos s + 1) ((iPdu s)[iPduPos s := ucast ?x]) = take (iPduPos s) (iPdu s) @ [ucast ?x]"
        using pos assms(2) by (simp add: take_Suc_conv_app_nth)
      ultimately show ?thesis using True by (simp add: received_def)
    qed
    ultimately show ?thesis by (intro exI [of _ ?u]) simp
  qed
qed

text \<open>Bits that show no flag are collected, seven of them behind.\<close>

lemma recv_bit_collects:
  assumes "look_ok s" and "collect_ok s" and "length (iPdu s) = H223_MAX_DEMUX_PDU_SIZE"
    and "w = look s @ [b]" and "length w = 8 \<Longrightarrow> length (received s) < 8 * (H223_MAX_DEMUX_PDU_SIZE - 1)"
    and "length w = 8 \<Longrightarrow> \<not> is_flag w"
  shows "\<exists>t. recv_bit (of_bool b) s = Inr (t, []) \<and> look_ok t \<and> collect_ok t \<and> length (iPdu t) = H223_MAX_DEMUX_PDU_SIZE
     \<and> (if length w < 8 then received t = received s \<and> look t = w else received t = received s @ [hd w] \<and> look t = tl w)"
proof -
  have len: "length w \<le> 8" using assms(1,4) by (simp add: look_ok_def look_def)
  obtain t where t: "collect_ok t = collect_ok s" "received t = received s" "length (iPdu t) = length (iPdu s)"
    "if length w < 8 then recv_bit (of_bool b) s = Inr (t, []) \<and> look_ok t \<and> look t = w
      else if is_flag w then
        recv_bit (of_bool b) s = bind_res (if iPduPos t \<noteq> 0 then Remove0 t else Inr (t, []))
          (\<lambda>(s2, evs). Inr (s2\<lparr>iNumRecvBits := 0, iRecvBits := 0\<rparr>, evs))
      else
        recv_bit (of_bool b) s = bind_res (AppendBit (of_bool (hd w)) t)
          (\<lambda>(s2, evs). Inr (s2\<lparr>iRecvBits := drop_bit 1 (iRecvBits s2), iNumRecvBits := iNumRecvBits s2 - 1\<rparr>, evs))
        \<and> iNumRecvBits t = 8 \<and> lsb_bits 8 (iRecvBits t) = w \<and> take_bit 8 (iRecvBits t) = iRecvBits t"
    using recv_bit_step [OF assms(1,4)] by blast
  show ?thesis
  proof (cases "length w < 8")
    case True
    then show ?thesis using t assms(2,3) by auto
  next
    case False
    then have full: "length w = 8" using len by simp
    then have step: "recv_bit (of_bool b) s = bind_res (AppendBit (of_bool (hd w)) t)
          (\<lambda>(s2, evs). Inr (s2\<lparr>iRecvBits := drop_bit 1 (iRecvBits s2), iNumRecvBits := iNumRecvBits s2 - 1\<rparr>, evs))"
      "iNumRecvBits t = 8" "lsb_bits 8 (iRecvBits t) = w" "take_bit 8 (iRecvBits t) = iRecvBits t"
      using t(4) assms(6) by (simp_all split: if_splits)
    obtain u where u: "AppendBit (of_bool (hd w)) t = Inr (u, [])" "collect_ok u" "received u = received t @ [hd w]"
       "length (iPdu u) = length (iPdu t)" "iRecvBits u = iRecvBits t" "iNumRecvBits u = iNumRecvBits t"
      using AppendBit_collects [of t "hd w"] t(1-3) assms(2,3,5) full by auto
    let ?u = "u\<lparr>iRecvBits := drop_bit 1 (iRecvBits u), iNumRecvBits := iNumRecvBits u - 1\<rparr>"
    have "recv_bit (of_bool b) s = Inr (?u, [])" using step(1) u(1) by simp
    moreover have "look ?u = tl w" using window8_parts(2) [OF step(3)] u(5,6) step(2) by (simp add: look_def)
    moreover have "look_ok ?u" using take_bit_drop [of 1 7 "iRecvBits t"] step(2,4) u(5,6) by (simp add: look_ok_def)
    moreover have "collect_ok ?u" "received ?u = received s @ [hd w]" "length (iPdu ?u) = H223_MAX_DEMUX_PDU_SIZE"
      using u(2-4) t(2,3) assms(3) by (simp_all add: collect_ok_def received_def)
    ultimately show ?thesis using full by (intro exI [of _ ?u]) simp
  qed
qed

definition no_flag :: "bool list \<Rightarrow> bool" where
  "no_flag bs \<longleftrightarrow> (\<forall>i. i + 8 \<le> length bs \<longrightarrow> \<not> is_flag (take 8 (drop i bs)))"

lemma no_flag_tl:
  assumes "no_flag bs"
  shows "no_flag (tl bs)"
  unfolding no_flag_def
proof (intro allI impI)
  fix i
  assume "i + 8 \<le> length (tl bs)"
  then have "Suc i + 8 \<le> length bs" by simp
  then have "\<not> is_flag (take 8 (drop (Suc i) bs))" using assms unfolding no_flag_def by blast
  then show "\<not> is_flag (take 8 (drop i (tl bs)))" by (simp add: drop_Suc)
qed

lemma recv_collects:
  assumes "look_ok s" and "collect_ok s" and "length (iPdu s) = H223_MAX_DEMUX_PDU_SIZE"
    and "length (received s @ look s @ bs) \<le> 8 * (H223_MAX_DEMUX_PDU_SIZE - 1) + 7" and "no_flag (look s @ bs)"
  shows "\<exists>t. recv_list bs s = Inr (t, []) \<and> look_ok t \<and> collect_ok t \<and> length (iPdu t) = H223_MAX_DEMUX_PDU_SIZE
     \<and> received t @ look t = received s @ look s @ bs \<and> length (look t) = min 7 (length (look s @ bs))"
  using assms
proof (induction bs arbitrary: s)
  case Nil
  then show ?case by (auto simp: look_ok_def look_def)
next
  case (Cons b bs)
  let ?w = "look s @ [b]"
  have room: "length (received s) < 8 * (H223_MAX_DEMUX_PDU_SIZE - 1)" if "length ?w = 8" using Cons.prems(4) that by simp
  have w8: "length ?w \<le> 8" using Cons.prems(1) by (simp add: look_ok_def look_def)
  have nf: "length ?w = 8 \<Longrightarrow> \<not> is_flag ?w" using Cons.prems(5) by (auto simp: no_flag_def dest: spec [of _ 0])
  obtain t where t: "recv_bit (of_bool b) s = Inr (t, [])" "look_ok t" "collect_ok t" "length (iPdu t) = H223_MAX_DEMUX_PDU_SIZE"
    "if length ?w < 8 then received t = received s \<and> look t = ?w else received t = received s @ [hd ?w] \<and> look t = tl ?w"
    using recv_bit_collects [OF Cons.prems(1-3) refl room nf] by blast
  have same: "received t @ look t @ bs = received s @ look s @ b # bs" "look t @ bs = drop (length ?w - length (look t)) (look s @ b # bs)"
    and rest: "look t @ bs = look s @ b # bs \<or> look t @ bs = tl (look s @ b # bs)"
    and len: "min 7 (length (look t @ bs)) = min 7 (length (look s @ b # bs))"
    using t(5) w8 by (cases "look s"; auto split: if_splits)+
  have "no_flag (look t @ bs)" using rest Cons.prems(5) no_flag_tl by metis
  then obtain u where u: "recv_list bs t = Inr (u, [])" "look_ok u" "collect_ok u" "length (iPdu u) = H223_MAX_DEMUX_PDU_SIZE"
      "received u @ look u = received t @ look t @ bs" "length (look u) = min 7 (length (look t @ bs))"
    using Cons.IH [OF t(2-4)] Cons.prems(4) arg_cong [OF same(1), of length] by auto
  then show ?case using t(1) same(1) len by (auto simp: then_step_Inr)
qed

section \<open>Frames\<close>

text \<open>A clean receiver has nothing in its window and nothing collected.\<close>

definition clean :: "level0_rx \<Rightarrow> bool" where
  "clean s \<longleftrightarrow> at_rest s \<and> iNumRecvBits s = 0 \<and> iRecvBits s = 0"

lemma clean_ok: "clean s \<Longrightarrow> look_ok s \<and> collect_ok s \<and> look s = [] \<and> received s = [] \<and> length (iPdu s) = H223_MAX_DEMUX_PDU_SIZE"
  by (simp add: clean_def at_rest_def look_ok_def look_def received_def)

lemma flag_split: "flag = [False] @ replicate 6 True @ [False]"
  by (simp add: flag_def HDLC_def lsb_bits_def eval_nat_numeral upt_rec)

lemma no_flag_before:
  assumes "runs_ok 0 d"
  shows "no_flag (d @ butlast flag)"
  unfolding no_flag_def
proof (intro allI impI notI)
  fix i
  assume i: "i + 8 \<le> length (d @ butlast flag)" and f: "is_flag (take 8 (drop i (d @ butlast flag)))"
  have bl: "butlast flag = False # replicate 6 True" by (simp add: flag_split butlast_append)
  have il: "Suc i \<le> length d" using i by (simp add: bl)
  have "runs_ok 0 (drop k d)" for k
    by (induction k) (use assms in \<open>auto simp: drop_Suc tl_drop [symmetric] intro: runs_tl\<close>, metis drop_Nil list.collapse runs_tl tl_Nil)
  then have "take 6 (drop (Suc i) d @ butlast flag) \<noteq> replicate 6 True"
    using runs_no_six [of 0 "drop (Suc i) d" "replicate 6 True"] by (simp add: bl)
  moreover have "tl (drop i (d @ butlast flag)) = drop (Suc i) d @ butlast flag"
  proof -
    have "tl (drop i (d @ butlast flag)) = drop (Suc i) (d @ butlast flag)" by (simp only: tl_drop drop_Suc)
    then show ?thesis using il by simp
  qed
  moreover have "take 6 (tl (take 8 xs)) = take 6 (tl xs)" for xs :: "bool list" by (cases xs) simp_all
  ultimately show False using f unfolding is_flag_def by (simp only:)
qed

lemma remove_shrinks: "length (remove_zeros bs) \<le> length bs"
proof (induction bs rule: remove_zeros.induct)
  case (2 b bs)
  then show ?case by (cases "take 5 (b # bs) = replicate 5 True \<and> 5 \<le> length bs") auto
qed simp

text \<open>Before the last bit of the flag, the bits of the frame are collected.\<close>

definition ready :: "level0_rx \<Rightarrow> bool" where
  "ready s \<longleftrightarrow> look_ok s \<and> look s = [] \<and> collect_ok s \<and> length (iPdu s) = H223_MAX_DEMUX_PDU_SIZE"

lemma clean_ready: "clean s \<Longrightarrow> ready s \<and> received s = []"
  using clean_ok by (simp add: ready_def)

lemma recv_before:
  assumes "ready s" and "runs_ok 0 d" and "length (received s @ d) \<le> 8 * (H223_MAX_DEMUX_PDU_SIZE - 1)"
  shows "\<exists>t. recv_list (d @ butlast flag) s = Inr (t, []) \<and> look_ok t \<and> collect_ok t
     \<and> length (iPdu t) = H223_MAX_DEMUX_PDU_SIZE \<and> received t = received s @ d \<and> look t = butlast flag"
proof -
  have c: "look_ok s" "look s = []" "collect_ok s" "length (iPdu s) = H223_MAX_DEMUX_PDU_SIZE" using assms(1) by (simp_all add: ready_def)
  have l: "length (butlast flag) = 7" by (simp add: flag_def)
  have "length (received s @ look s @ d @ butlast flag) \<le> 8 * (H223_MAX_DEMUX_PDU_SIZE - 1) + 7" using c(2) assms(3) l by simp
  moreover have "no_flag (look s @ d @ butlast flag)" using c(2) no_flag_before [OF assms(2)] by simp
  ultimately obtain t where t: "recv_list (d @ butlast flag) s = Inr (t, [])" "look_ok t" "collect_ok t"
      "length (iPdu t) = H223_MAX_DEMUX_PDU_SIZE" "received t @ look t = (received s @ d) @ butlast flag" "length (look t) = 7"
    using recv_collects [OF c(1,3,4)] c(2) l by (metis append.assoc append_Nil length_append min.absorb1 le_add2)
  have "received t = received s @ d \<and> look t = butlast flag" using t(5,6) l append_eq_append_conv by metis
  then show ?thesis using t by blast
qed

lemma flag_parts: "flag = butlast flag @ [False]" "length (butlast flag @ [False]) = 8" "is_flag (butlast flag @ [False])"
  by (simp_all add: flag_split butlast_append is_flag_def)

text \<open>The last bit: a frame of an octet or more is worked off, shorter ones stay where they are.\<close>

lemma recv_end:
  assumes "ready s" and "runs_ok 0 d" and "length (received s @ d) \<le> 8 * (H223_MAX_DEMUX_PDU_SIZE - 1)"
  shows "\<exists>u. collect_ok u \<and> received u = received s @ d \<and> length (iPdu u) = H223_MAX_DEMUX_PDU_SIZE
     \<and> (if length (received s @ d) < 8 then recv_list (d @ flag) s = Inr (u, []) \<and> iNumRecvBits u = 0 \<and> iRecvBits u = 0
        else \<exists>v evs. Remove0 u = Inr (v, evs) \<and> recv_list (d @ flag) s = Inr (v\<lparr>iNumRecvBits := 0, iRecvBits := 0\<rparr>, evs))"
proof -
  obtain t where t: "recv_list (d @ butlast flag) s = Inr (t, [])" "look_ok t" "collect_ok t"
     "length (iPdu t) = H223_MAX_DEMUX_PDU_SIZE" "received t = received s @ d" "look t = butlast flag"
    using recv_before [OF assms] by blast
  obtain u where u: "collect_ok u = collect_ok t" "received u = received t" "length (iPdu u) = length (iPdu t)"
    "recv_bit 0 t = bind_res (if iPduPos u \<noteq> 0 then Remove0 u else Inr (u, []))
          (\<lambda>(s2, evs). Inr (s2\<lparr>iNumRecvBits := 0, iRecvBits := 0\<rparr>, evs))"
    using recv_bit_step [OF t(2) refl, of False] flag_parts(2,3) t(6) by auto
  have "length (received u) = 8 * iPduPos u + iRecvBytePos u" "iRecvBytePos u < 8"
    using u(1) t(3) by (simp_all add: received_def collect_ok_def)
  then have pos: "iPduPos u \<noteq> 0 \<longleftrightarrow> 8 \<le> length (received u)" by linarith
  have all: "d @ flag = (d @ butlast flag) @ [False]" using flag_parts(1) by simp
  show ?thesis
  proof (cases "8 \<le> length (received u)")
    case True
    have "length (received u) \<le> 8 * length (iPdu u)" using u(2,3) t(4,5) assms(3) by (simp add: H223_MAX_DEMUX_PDU_SIZE_def)
    then obtain v evs where v: "Remove0 u = Inr (v, evs)" using Remove0_any [of u] u(1) t(3) by blast
    have "recv_bit 0 t = Inr (v\<lparr>iNumRecvBits := 0, iRecvBits := 0\<rparr>, evs)" using u(4) v pos True by simp
    then have "recv_list (d @ flag) s = Inr (v\<lparr>iNumRecvBits := 0, iRecvBits := 0\<rparr>, evs)"
      unfolding all using recv_snoc [OF t(1), of False] by simp
    then show ?thesis using v u(1-3) t(3-5) True by (intro exI [of _ u]) auto
  next
    case False
    let ?u = "u\<lparr>iNumRecvBits := 0, iRecvBits := 0\<rparr>"
    have "recv_bit 0 t = Inr (?u, [])" using u(4) pos False by simp
    then have "recv_list (d @ flag) s = Inr (?u, [])" unfolding all using recv_snoc [OF t(1), of False] by simp
    moreover have "received ?u = received u" by (simp add: received_def)
    ultimately show ?thesis using u(1-3) t(3-5) False by (intro exI [of _ ?u]) simp
  qed
qed

lemma recv_frame:
  assumes "clean s" and "runs_ok 0 d" and "length d \<le> 8 * (H223_MAX_DEMUX_PDU_SIZE - 1)" and "remove_zeros d = line_bits (h # xs)"
  shows "\<exists>s' ev. recv_list (d @ flag) s = Inr (s', [ev]) \<and> clean s' \<and> shown ev = pdu_shown h xs"
proof -
  have s: "ready s" "received s = []" using clean_ready [OF assms(1)] by simp_all
  have d: "\<not> length d < 8" using remove_shrinks [of d] assms(4) by simp
  obtain u v evs where u: "collect_ok u" "received u = d" "length (iPdu u) = H223_MAX_DEMUX_PDU_SIZE"
      "Remove0 u = Inr (v, evs)" "recv_list (d @ flag) s = Inr (v\<lparr>iNumRecvBits := 0, iRecvBits := 0\<rparr>, evs)"
    using recv_end [OF s(1) assms(2)] s(2) assms(3) d by auto
  obtain ev where ev: "evs = [ev]" "at_rest v" "shown ev = pdu_shown h xs"
    using Remove0_whole [of u h xs] u(1-4) assms(3,4) by (auto simp: H223_MAX_DEMUX_PDU_SIZE_def)
  then have "clean (v\<lparr>iNumRecvBits := 0, iRecvBits := 0\<rparr>)" by (simp add: clean_def)
  then show ?thesis using u(5) ev by blast
qed

lemma recv_flag:
  assumes "clean s"
  shows "\<exists>s'. recv_list flag s = Inr (s', []) \<and> clean s'"
proof -
  have s: "ready s" "received s = []" using clean_ready [OF assms] by simp_all
  obtain u where u: "collect_ok u" "received u = []" "length (iPdu u) = H223_MAX_DEMUX_PDU_SIZE"
      "recv_list flag s = Inr (u, [])" "iNumRecvBits u = 0" "iRecvBits u = 0"
    using recv_end [OF s(1), of "[]"] s(2) by auto
  have "take (iPduPos u) (iPdu u) = []" "iRecvBytePos u = 0" using u(2) by (simp_all add: received_def)
  then have "iPduPos u = 0" "iRecvBytePos u = 0" using u(3) by (auto simp: H223_MAX_DEMUX_PDU_SIZE_def)
  then show ?thesis using u by (auto simp: clean_def at_rest_def)
qed

lemma recv_flags: "clean s \<Longrightarrow> \<exists>s'. recv_list (concat (replicate n flag)) s = Inr (s', []) \<and> clean s'"
proof (induction n arbitrary: s)
  case (Suc n)
  obtain t where t: "recv_list flag s = Inr (t, [])" "clean t" using recv_flag [OF Suc.prems] by blast
  then obtain u where "recv_list (concat (replicate n flag)) t = Inr (u, [])" "clean u" using Suc.IH by blast
  then show ?case using t by (auto simp: recv_append)
qed simp

section \<open>The two ends of a line\<close>

text \<open>Between two octets of the sender, the receiver is clean but for the bits that wait for an octet.\<close>

definition linked :: "level0_tx \<Rightarrow> level0_rx \<Rightarrow> bool" where
  "linked t r \<longleftrightarrow> tx_ok t \<and> waiting t = [] \<and> (\<exists>r'. recv_list (pending t) r = Inr (r', []) \<and> clean r')"

lemma new_rx_clean: "length memory = H223_MAX_DEMUX_PDU_SIZE \<Longrightarrow> clean (new_level0_rx memory)"
  by (simp add: clean_def at_rest_def collect_ok_def) (simp add: new_level0_rx_def)

lemma linked_new: "length memory = H223_MAX_DEMUX_PDU_SIZE \<Longrightarrow> linked new_level0_tx (new_level0_rx memory)"
  by (simp add: linked_def new_tx new_rx_clean)

lemma short_tail:
  assumes "xs @ p = a @ f" and "length p \<le> length f"
  shows "\<exists>f1. f = f1 @ p \<and> xs = a @ f1"
proof -
  let ?n = "length f - length p"
  have n: "length xs = length a + ?n" using arg_cong [OF assms(1), of length] assms(2) by simp
  have "xs = a @ take ?n f" using arg_cong [OF assms(1), of "take (length xs)"] n by simp
  moreover have "p = drop ?n f" using arg_cong [OF assms(1), of "drop (length xs)"] n by simp
  ultimately show ?thesis by (metis append_take_drop_id)
qed

text \<open>What is sent and ends in a flag is received up to the octet that is not full yet.\<close>

lemma linked_send:
  assumes "linked t r" and "sends f (l @ flag)" and "f t = (xs, t')"
    and "\<And>c. clean c \<Longrightarrow> \<exists>c'. recv_list l c = Inr (c', evs c) \<and> clean c' \<and> map shown (evs c) = shows"
  shows "\<exists>r' evs. SearchForHdlcFlag xs r = Inr (r', evs) \<and> linked t' r' \<and> map shown evs = shows"
proof -
  obtain c where c: "recv_list (pending t) r = Inr (c, [])" "clean c" and ok: "tx_ok t" "waiting t = []"
    using assms(1) by (auto simp: linked_def)
  obtain c1 where c1: "recv_list l c = Inr (c1, evs c)" "clean c1" "map shown (evs c) = shows" using assms(4) [OF c(2)] by blast
  obtain c2 where c2: "recv_list flag c1 = Inr (c2, [])" "clean c2" using recv_flag [OF c1(2)] by blast
  have t': "tx_ok t'" "waiting t' = []" "line_bits xs @ pending t' = (pending t @ l) @ flag"
    using assms(2) [unfolded sends_def, rule_format, OF ok assms(3)] by simp_all
  have "length (pending t') \<le> length flag" using t'(1) by (simp add: tx_ok_def pending_def flag_def)
  obtain f1 where f1: "flag = f1 @ pending t'" "line_bits xs = (pending t @ l) @ f1"
    using short_tail [OF t'(3) \<open>length (pending t') \<le> length flag\<close>] by blast
  obtain r' where r': "recv_list f1 c1 = Inr (r', [])" "recv_list (pending t') r' = Inr (c2, [])"
    using c2(1) unfolding f1(1) by (auto simp: recv_append)
  have "recv_list (line_bits xs) r = Inr (r', evs c)"
    unfolding f1(2) using c(1) c1(1) r'(1) by (auto simp: recv_append)
  then show ?thesis using t' r'(2) c2(2) c1(3) by (auto simp: search_list linked_def)
qed

lemma recv_payload:
  assumes "clean c" and "length (insert_zeros (line_bits (h # xs))) \<le> 8 * (H223_MAX_DEMUX_PDU_SIZE - 1)"
  shows "\<exists>c' ev. recv_list (frame (line_bits (h # xs))) c = Inr (c', [ev]) \<and> clean c' \<and> shown ev = pdu_shown h xs"
  unfolding frame_def by (rule recv_frame [OF assms(1) runs_insert assms(2) remove_insert])

end
