(* ===== verification/H223Level0Props.thy ===== *)
theory H223Level0Props
  imports H223Level0Flags
begin

text \<open>
  Properties of level 0 as a whole: what one end sends, the other end indicates; the zeros that are inserted
  are those of the standard; how much fits into the buffer of a PDU; and what frames that are too short for a
  header make of the receiver.
\<close>

section \<open>A line between a sender and a receiver\<close>

datatype line_item =
    Stuffing nat
  | Pdu "u8 list list" u8 u8    \<comment> \<open>media fragments, multiplex code, closing marker\<close>

fun send_item :: "line_item \<Rightarrow> level0_tx \<Rightarrow> mux_fault + (u8 list \<times> level0_tx)" where
  "send_item (Stuffing n) t = Inr (GetStuffing n t)"
| "send_item (Pdu fs num pm) t = CompletePdu True fs num pm t"

fun send_items :: "line_item list \<Rightarrow> level0_tx \<Rightarrow> mux_fault + (u8 list \<times> level0_tx)" where
  "send_items [] t = Inr ([], t)"
| "send_items (i # is) t =
     bind_res (send_item i t) (\<lambda>(xs, t1). bind_res (send_items is t1) (\<lambda>(ys, t2). Inr (xs @ ys, t2)))"

fun indicated :: "line_item \<Rightarrow> (u8 list \<times> bool \<times> u32) option list" where
  "indicated (Stuffing n) = []"
| "indicated (Pdu fs num pm) = Some (concat fs, False, ucast num) # (if pm \<noteq> 0 then [Some ([], True, 0)] else [])"

fun code_ok :: "line_item \<Rightarrow> bool" where
  "code_ok (Stuffing n) = True"
| "code_ok (Pdu fs num pm) = (num < 16)"

text \<open>The octets arrive in several calls of \<^verbatim>\<open>Parse\<close>.\<close>

fun receive_calls :: "u8 list list \<Rightarrow> level0_rx step" where
  "receive_calls [] s = Inr (s, [])"
| "receive_calls (xs # xss) s = then_step (SearchForHdlcFlag xs) (receive_calls xss) s"

lemma receive_calls_list:
  "receive_calls xss s = Inr (s', evs) \<longleftrightarrow> recv_list (line_bits (concat xss)) s = Inr (s', evs)"
proof (induction xss arbitrary: s s' evs)
  case (Cons xs xss)
  then show ?case by (simp add: then_step_Inr recv_append search_list)
qed simp

lemma low_codes: "(num :: u8) < 16 \<Longrightarrow> num \<in> set (map of_nat [0..<16])"
proof -
  assume "num < 16"
  then have "unat num < 16" by (simp add: word_less_nat_alt)
  then show "num \<in> set (map of_nat [0..<16])" unfolding set_map by (intro image_eqI [of _ _ "unat num"]) simp_all
qed

lemma header_fields:
  "list_all (\<lambda>num. header_octet num AND 1 = 0 \<and> drop_bit 1 (header_octet num) AND 0xf = num) (map of_nat [0..<16])"
  by code_simp

lemma header_shown: "num < 16 \<Longrightarrow> pdu_shown (header_octet num) xs = Some (xs, False, ucast num)"
  using low_codes [of num] header_fields unfolding list_all_iff pdu_shown_def by fastforce

lemma closing_shown: "pdu_shown 1 xs = Some (xs, True, 0)"
  by (simp add: pdu_shown_def)

lemma pdu_stuffed: "pdu_bits fs num = line_bits (header_octet num # concat fs)"
  by (simp add: pdu_bits_def)

lemma CompletePdu_Inr:
  "CompletePdu True fs num pm t = Inr (xs, t') \<longleftrightarrow>
     unat num < 18 \<and> pdu_octets fs num pm t = (xs, t') \<and> length xs \<le> H223_MAX_MUX_PDU_SIZE"
  by (auto simp: CompletePdu_def HecCrc_def Let_def split: prod.splits)

lemma pdu_size:
  assumes "pdu_octets fs num pm t = (xs, t')" and "tx_ok t" and "waiting t = []"
  shows "8 * length xs + length (pending t') =
     length (pending t) + length (insert_zeros (pdu_bits fs num)) + (if pm \<noteq> 0 then 48 else 32)"
proof -
  have e: "line_bits xs @ pending t' =
      pending t @ flag @ flag @ frame (pdu_bits fs num) @ (if pm \<noteq> 0 then frame closing_bits else []) @ flag"
    using sends_pdu assms unfolding sends_def by blast
  have "length (insert_zeros closing_bits) = 8" by code_simp
  moreover have "length flag = 8" by (simp add: flag_def)
  moreover note arg_cong [OF e, of length]
  ultimately show ?thesis by (simp add: frame_def split: if_splits)
qed

lemma deliver_pdu:
  assumes "linked t r" and "num < 16" and "CompletePdu True fs num pm t = Inr (xs, t')"
  shows "\<exists>r' evs. SearchForHdlcFlag xs r = Inr (r', evs) \<and> linked t' r' \<and> map shown evs = indicated (Pdu fs num pm)"
proof -
  let ?l = "flag @ flag @ frame (pdu_bits fs num) @ (if pm \<noteq> 0 then frame closing_bits else [])"
  have p: "pdu_octets fs num pm t = (xs, t')" "length xs \<le> 512"
    using assms(3) by (simp_all add: CompletePdu_Inr H223_MAX_MUX_PDU_SIZE_def)
  have t: "tx_ok t" "waiting t = []" "tx_ok t'" using assms(1) sends_pdu p(1) unfolding linked_def sends_def by blast+
  have "length (pending t') \<le> 8" using t(3) by (simp add: tx_ok_def pending_def)
  then have size: "length (insert_zeros (line_bits (header_octet num # concat fs))) \<le> 8 * (H223_MAX_DEMUX_PDU_SIZE - 1)"
    using pdu_size [OF p(1) t(1,2)] p(2) by (simp add: pdu_stuffed H223_MAX_DEMUX_PDU_SIZE_def split: if_splits)
  have closing: "closing_bits = line_bits [1]" "length (insert_zeros (line_bits [1])) \<le> 8 * (H223_MAX_DEMUX_PDU_SIZE - 1)"
    by (simp add: closing_bits_def) code_simp
  have all: "\<exists>c' evs. recv_list ?l c = Inr (c', evs) \<and> clean c' \<and> map shown evs = indicated (Pdu fs num pm)" if clean: "clean c" for c
  proof -
    obtain c1 where c1: "recv_list flag c = Inr (c1, [])" "clean c1" using recv_flag [OF clean] by blast
    obtain c2 where c2: "recv_list flag c1 = Inr (c2, [])" "clean c2" using recv_flag [OF c1(2)] by blast
    obtain c3 e where c3: "recv_list (frame (pdu_bits fs num)) c2 = Inr (c3, [e])" "clean c3" "shown e = Some (concat fs, False, ucast num)"
      using recv_payload [OF c2(2) size] header_shown [OF assms(2)] by (auto simp: pdu_stuffed)
    obtain c4 e' where "recv_list (frame closing_bits) c3 = Inr (c4, [e'])" "clean c4" "shown e' = Some ([], True, 0)"
      using recv_payload [OF c3(2) closing(2)] closing_shown [of "[]"] closing(1) by auto
    with c1(1) c2(1) c3 show ?thesis by (auto simp: recv_append)
  qed
  then obtain evs where evs: "\<And>c. clean c \<Longrightarrow> \<exists>c'. recv_list ?l c = Inr (c', evs c) \<and> clean c' \<and> map shown (evs c) = indicated (Pdu fs num pm)"
    by metis
  have "sends (pdu_octets fs num pm) (?l @ flag)" using sends_pdu by simp
  from linked_send [OF assms(1) this p(1) evs] show ?thesis by blast
qed

lemma deliver_stuffing:
  assumes "linked t r" and "GetStuffing n t = (xs, t')"
  shows "\<exists>r'. SearchForHdlcFlag xs r = Inr (r', []) \<and> linked t' r'"
proof (cases n)
  case 0
  then show ?thesis using assms by (simp add: emit_nothing_def)
next
  case (Suc m)
  have "concat (replicate m flag) @ flag = concat (replicate n flag)"
    unfolding Suc by (induction m) simp_all
  then have "sends (GetStuffing n) (concat (replicate m flag) @ flag)" using sends_stuffing by simp
  then show ?thesis using linked_send [OF assms(1), of "GetStuffing n" "concat (replicate m flag)" xs t' "\<lambda>_. []" "[]"] assms(2) recv_flags by auto
qed

lemma deliver_item:
  assumes "linked t r" and "code_ok i" and "send_item i t = Inr (xs, t')"
  shows "\<exists>r' evs. SearchForHdlcFlag xs r = Inr (r', evs) \<and> linked t' r' \<and> map shown evs = indicated i"
proof (cases i)
  case (Stuffing n)
  then show ?thesis using deliver_stuffing [OF assms(1), of n xs t'] assms(3) by auto
next
  case (Pdu fs num pm)
  then show ?thesis using deliver_pdu [OF assms(1), of num fs pm xs t'] assms(2,3) by simp
qed

lemma deliver_items:
  assumes "linked t r" and "list_all code_ok items" and "send_items items t = Inr (xs, t')"
  shows "\<exists>r' evs. SearchForHdlcFlag xs r = Inr (r', evs) \<and> linked t' r' \<and> map shown evs = concat (map indicated items)"
  using assms
proof (induction items arbitrary: t r xs)
  case Nil
  then show ?case by simp
next
  case (Cons i items)
  obtain ys t1 zs where y: "send_item i t = Inr (ys, t1)" and z: "send_items items t1 = Inr (zs, t')" "xs = ys @ zs"
    using Cons.prems(3) by (auto simp: bind_res_Inr_iff)
  obtain r1 e1 where r1: "SearchForHdlcFlag ys r = Inr (r1, e1)" "linked t1 r1" "map shown e1 = indicated i"
    using deliver_item [OF Cons.prems(1) _ y] Cons.prems(2) by auto
  obtain r2 e2 where r2: "SearchForHdlcFlag zs r1 = Inr (r2, e2)" "linked t' r2" "map shown e2 = concat (map indicated items)"
    using Cons.IH [OF r1(2) _ z(1)] Cons.prems(2) by auto
  have "SearchForHdlcFlag xs r = Inr (r2, e1 @ e2)"
    unfolding search_list z(2) using r1(1) r2(1) by (auto simp: search_list recv_append)
  then show ?case using r1(3) r2(2,3) by auto
qed

section \<open>Sizes\<close>

lemma stuff_length: "n < 5 \<Longrightarrow> length (stuff n bs) \<le> length bs + (length bs + n) div 5"
proof (induction n bs rule: stuff.induct)
  case (2 n bs)
  then have "length (stuff 0 bs) \<le> length bs + length bs div 5" by simp
  also have "\<dots> \<le> length bs + (Suc (length bs) + n) div 5" by (intro add_left_mono div_le_mono) simp
  finally show ?case by simp
next
  case (3 n bs)
  show ?case
  proof (cases "n = 4")
    case True
    then show ?thesis using 3(1) by simp
  next
    case False
    then show ?thesis using 3(2,3) by simp
  qed
qed simp

lemma stuff_ones: "n < 5 \<Longrightarrow> length (stuff n (replicate k True)) = k + (k + n) div 5"
proof (induction k arbitrary: n)
  case (Suc k)
  show ?case
  proof (cases "n = 4")
    case True
    then show ?thesis using Suc.IH [of 0] by simp
  next
    case False
    then show ?thesis using Suc.IH [of "Suc n"] Suc.prems by simp
  qed
qed simp

lemma stuff_append: "n < 5 \<Longrightarrow> \<exists>k<5. \<forall>bs'. stuff n (bs @ bs') = stuff n bs @ stuff k bs'"
proof (induction n bs rule: stuff.induct)
  case (3 n bs)
  then show ?case by (cases "n = 4") fastforce+
qed fastforce+

lemma stuff_longer: "n < 5 \<Longrightarrow> length bs \<le> length (stuff n bs)"
  by (induction n bs rule: stuff.induct) auto

lemma length_pdu_bits [simp]: "length (pdu_bits fs num) = 8 + 8 * length (concat fs)"
  by (simp add: pdu_bits_def)

lemma pdu_fits_state:
  assumes "tx_ok t" and "waiting t = []" and "num < 16" and "length (concat fs) \<le> 420"
  shows "\<exists>xs t'. CompletePdu True fs num pm t = Inr (xs, t')"
proof -
  obtain xs t' where p: "pdu_octets fs num pm t = (xs, t')" by fastforce
  have "length (insert_zeros (pdu_bits fs num)) \<le> (8 + 8 * length (concat fs)) + (8 + 8 * length (concat fs)) div 5"
    using stuff_length [of 0 "pdu_bits fs num"] by (simp add: insert_is_stuff)
  also have "\<dots> \<le> 3368 + 3368 div 5" using assms(4) by (intro add_mono div_le_mono) simp_all
  finally have "length (insert_zeros (pdu_bits fs num)) \<le> 4041" by simp
  moreover have "length (pending t) \<le> 7" using assms(1) by (simp add: tx_ok_def pending_def)
  ultimately have "length xs \<le> 512" using pdu_size [OF p assms(1,2)] by (simp split: if_splits)
  moreover have "unat num < 18" using assms(3) by (simp add: word_less_nat_alt)
  ultimately show ?thesis using p by (auto simp: CompletePdu_Inr H223_MAX_MUX_PDU_SIZE_def)
qed

fun short_item :: "line_item \<Rightarrow> bool" where
  "short_item (Stuffing n) = True"
| "short_item (Pdu fs num pm) = (length (concat fs) \<le> 420)"

lemma item_sent:
  assumes "linked t r" and "code_ok i" and "short_item i"
  shows "\<exists>xs t'. send_item i t = Inr (xs, t')"
proof (cases i)
  case (Stuffing n)
  then show ?thesis by (cases "GetStuffing n t") simp
next
  case (Pdu fs num pm)
  then show ?thesis using pdu_fits_state [of t num fs pm] assms by (simp add: linked_def)
qed

lemma items_sent:
  "linked t r \<Longrightarrow> list_all code_ok items \<Longrightarrow> list_all short_item items \<Longrightarrow> \<exists>xs t'. send_items items t = Inr (xs, t')"
proof (induction items arbitrary: t r)
  case (Cons i items)
  obtain xs t1 where x: "send_item i t = Inr (xs, t1)" using item_sent [of t r i] Cons.prems by auto
  moreover obtain r1 where "linked t1 r1" using deliver_item [OF Cons.prems(1) _ x] Cons.prems(2) by auto
  ultimately show ?case using Cons.IH [of t1 r1] Cons.prems(2,3) by fastforce
qed simp

section \<open>Properties\<close>

text \<open>C8. PDUs and stuffing that a sender puts on a line, in any order, reach the observer of the receiver in
  that order, each with its payload, its multiplex code and the closing indication, however the octets are
  cut into calls of \<^verbatim>\<open>Parse\<close>; no PDU of at most 420 octets is refused.\<close>

theorem pdus_delivered:
  assumes "length memory = H223_MAX_DEMUX_PDU_SIZE" and "list_all code_ok items" and "list_all short_item items"
  shows "\<exists>xs t'. send_items items new_level0_tx = Inr (xs, t')
     \<and> (\<forall>calls. concat calls = xs \<longrightarrow> (\<exists>r' evs. receive_calls calls (new_level0_rx memory) = Inr (r', evs)
          \<and> map shown evs = concat (map indicated items)))"
proof -
  note l = linked_new [OF assms(1)]
  obtain xs t' where x: "send_items items new_level0_tx = Inr (xs, t')" using items_sent [OF l assms(2,3)] by blast
  from deliver_items [OF l assms(2) x] show ?thesis using x by (auto simp: receive_calls_list search_list)
qed

theorem pdus_delivered_witness:
  "\<exists>xs t'. send_items [Pdu [[0xff, 0x7e]] 3 1, Stuffing 2, Pdu [[1], [2]] 0 0] new_level0_tx = Inr (xs, t')
     \<and> (\<forall>calls. concat calls = xs \<longrightarrow> (\<exists>r' evs. receive_calls calls (new_level0_rx (replicate 1024 0)) = Inr (r', evs)
          \<and> map shown evs = [Some ([0xff, 0x7e], False, 3), Some ([], True, 0), Some ([1, 2], False, 0)]))"
  using pdus_delivered [of "replicate 1024 0" "[Pdu [[0xff, 0x7e]] 3 1, Stuffing 2, Pdu [[1], [2]] 0 0]"]
  by (simp add: H223_MAX_DEMUX_PDU_SIZE_def)

text \<open>C25. Zero insertion with its five bit window is the one of the standard, which counts the ones it has
  sent: the octets written, the bits that wait for an octet and those that wait to be checked are together
  the bits of the chunk with a zero after every five ones in a row.\<close>

theorem Insert0_counts_ones:
  assumes "tx_ok t" and "waiting t = []" and "Insert0 chunk t = (ys, t')"
  shows "line_bits ys @ pending t' @ waiting t' = pending t @ stuff 0 (line_bits chunk)"
proof -
  obtain e where e: "tx_ok t'" "line_bits ys @ pending t' = pending t @ e"
    "insert_zeros (waiting t @ line_bits chunk @ []) = e @ insert_zeros (waiting t' @ [])"
    using takes_in_octets [of chunk] assms(1,3) unfolding takes_in_def by blast
  have "insert_zeros (waiting t') = waiting t'" using e(1) by (intro insert_short) (simp add: tx_ok_def waiting_def)
  then show ?thesis using e(2,3) assms(2) by (metis append.assoc append_Nil append_Nil2 insert_is_stuff)
qed

theorem Insert0_counts_ones_witness:
  "(let (ys, t') = Insert0 [0xff, 0x1f] new_level0_tx
    in line_bits ys @ pending t' @ waiting t' = stuff 0 (line_bits [0xff, 0x1f]))"
  using Insert0_counts_ones [of new_level0_tx "[0xff, 0x1f]"] new_tx by (auto split: prod.splits)

text \<open>C26. A PDU with a payload of at most 420 octets fits, zeros, flags and closing indication included,
  into the buffer of 512 octets that it is written to, whatever the payload and the state between PDUs.\<close>

theorem pdu_fits:
  assumes "tx_ok t" and "waiting t = []" and "num < 16" and "length (concat fs) \<le> 420"
  shows "\<exists>xs t'. CompletePdu True fs num pm t = Inr (xs, t') \<and> length xs \<le> H223_MAX_MUX_PDU_SIZE"
  using pdu_fits_state [OF assms, of pm] by (auto simp: CompletePdu_Inr)

theorem pdu_fits_witness:
  "\<exists>xs t'. CompletePdu True [replicate 420 0xff] 15 1 new_level0_tx = Inr (xs, t') \<and> length xs \<le> H223_MAX_MUX_PDU_SIZE"
  by (rule pdu_fits) (simp_all add: new_tx)

text \<open>The limit is not far away: \<^verbatim>\<open>CompletePdu\<close> does not check it, and 424 octets of ones would write behind the
  buffer. The lower layer starts with PDUs of 160 octets and only lets them shrink.\<close>

lemma ones_overflow_the_buffer:
  assumes "tx_ok t" and "waiting t = []" and "424 \<le> n"
  shows "CompletePdu True [replicate n 0xff] num pm t = Inl BadIndex"
proof (rule ccontr)
  assume "CompletePdu True [replicate n 0xff] num pm t \<noteq> Inl BadIndex"
  then obtain xs t' where p: "pdu_octets [replicate n 0xff] num pm t = (xs, t')" "length xs \<le> 512"
    by (auto simp: CompletePdu_def H223_MAX_MUX_PDU_SIZE_def Let_def split: prod.splits if_splits)
  have t': "tx_ok t'" using sends_pdu assms(1,2) p(1) unfolding sends_def by blast
  have "lsb_bits 8 (0xff :: u8) = replicate 8 True" by code_simp
  then have ones: "line_bits (replicate n 0xff) = replicate (8 * n) True"
    by (induction n) (simp_all add: replicate_add [symmetric])
  obtain k where k: "k < 5" "stuff 0 (lsb_bits 8 (header_octet num) @ replicate (8 * n) True) =
      stuff 0 (lsb_bits 8 (header_octet num)) @ stuff k (replicate (8 * n) True)"
    using stuff_append [of 0] by auto
  have "8 + (8 * n + (8 * n) div 5) \<le> length (insert_zeros (pdu_bits [replicate n 0xff] num))"
  proof -
    have "8 \<le> length (stuff 0 (lsb_bits 8 (header_octet num)))" using stuff_longer [of 0 "lsb_bits 8 (header_octet num)"] by simp
    moreover have "(8 * n) div 5 \<le> (8 * n + k) div 5" by (rule div_le_mono) simp
    ultimately show ?thesis using k stuff_ones [OF k(1), of "8 * n"] ones by (simp add: pdu_bits_def insert_is_stuff)
  qed
  moreover have "678 \<le> (8 * n) div 5" using assms(3) div_le_mono [of 3392 "8 * n" 5] by simp
  moreover have "length (pending t') \<le> 7" using t' by (simp add: tx_ok_def pending_def)
  ultimately show False using pdu_size [OF p(1) assms(1,2)] p(2) assms(3) by (simp split: if_splits)
qed

lemma ones_overflow_510: "CompletePdu True [replicate 510 0xff] 0 0 new_level0_tx = Inl BadIndex"
  by (rule ones_overflow_the_buffer) (simp_all add: new_tx)

text \<open>C39. A frame whose header octet has a zero after five ones, with nothing behind it (one damaged octet
  between two flags is enough), is less than an octet after the removal of the zero; it is indicated with a
  size of 65535 octets of a buffer that has 1023 behind the header.\<close>

theorem runt_frame_indicated:
  assumes "clean r" and "line_bits xs = d @ flag" and "runs_ok 0 d" and "length d = 8" and "length (remove_zeros d) < 8"
  shows "\<exists>r' memory closing code. SearchForHdlcFlag xs r = Inr (r', [MuxPduIndicate memory 0xFFFF closing code])
     \<and> length memory = 1023"
proof -
  have s: "ready r" "received r = []" using clean_ready [OF assms(1)] by simp_all
  obtain u v evs where u: "collect_ok u" "received u = d" "length (iPdu u) = H223_MAX_DEMUX_PDU_SIZE"
      "Remove0 u = Inr (v, evs)" "recv_list (d @ flag) r = Inr (v\<lparr>iNumRecvBits := 0, iRecvBits := 0\<rparr>, evs)"
    using recv_end [OF s(1) assms(3)] s(2) assms(4) by (auto simp: H223_MAX_DEMUX_PDU_SIZE_def)
  obtain w where w: "evs = [indication w]" "removed w = remove_zeros d" "out_ok w" "length (iPdu w) = H223_MAX_DEMUX_PDU_SIZE"
    using Remove0_any [OF u(1)] u(2-4) assms(4) by (auto simp: H223_MAX_DEMUX_PDU_SIZE_def)
  have "iPduPosZeroRemoved w = 0" using length_removed [OF w(3)] w(2) assms(5) by simp
  then have "\<exists>m c k. indication w = MuxPduIndicate m 0xFFFF c k \<and> length m = 1023"
    using w(4) by (simp add: indication_def H223_MAX_DEMUX_PDU_SIZE_def)
  then show ?thesis using u(5) w(1) unfolding search_list assms(2) by auto
qed

theorem runt_frame_indicated_witness:
  "\<exists>r' memory closing code. SearchForHdlcFlag [0x1f, 0x7e] (new_level0_rx (replicate 1024 0)) =
     Inr (r', [MuxPduIndicate memory 0xFFFF closing code]) \<and> length memory = 1023"
proof (rule runt_frame_indicated [of _ _ "[True, True, True, True, True, False, False, False]"])
  show "clean (new_level0_rx (replicate 1024 0))" by (simp add: new_rx_clean H223_MAX_DEMUX_PDU_SIZE_def)
qed code_simp+

text \<open>C40. A single zero bit between two flags, with nothing before it, is not dropped. It shifts the next PDU
  by a bit, header included: what is indicated are the zero and the bits of that PDU but the last. The last bit stays
  in the output register, whose position is set back while its value is not. (The PDU fits the buffer of the receiver
  even with its inserted zeros.)\<close>

theorem stray_bit_shifts_pdu:
  assumes "clean r" and "length (insert_zeros (line_bits (h # xs))) < 8 * (H223_MAX_DEMUX_PDU_SIZE - 1)"
  shows "\<exists>r' ev h' xs'. recv_list (False # flag @ frame (line_bits (h # xs))) r = Inr (r', [ev])
     \<and> shown ev = pdu_shown h' xs' \<and> line_bits (h' # xs') = False # butlast (line_bits (h # xs))
     \<and> iZeroBitRemovedOutputPos r' = 0 \<and> iZeroBitRemovedOutput r' = of_bool (last (line_bits (h # xs)))"
proof -
  let ?p = "line_bits (h # xs)"
  have s: "ready r" "received r = []" using clean_ready [OF assms(1)] by simp_all
  obtain u where u: "collect_ok u" "received u = [False]" "length (iPdu u) = H223_MAX_DEMUX_PDU_SIZE"
      "recv_list ([False] @ flag) r = Inr (u, [])" "iNumRecvBits u = 0" "iRecvBits u = 0"
    using recv_end [OF s(1), of "[False]"] s(2) by (auto simp: H223_MAX_DEMUX_PDU_SIZE_def)
  have "ready u" using u by (simp add: ready_def look_ok_def look_def)
  moreover have "8 \<le> length (insert_zeros ?p)" using stuff_longer [of 0 ?p] by (simp add: insert_is_stuff)
  ultimately obtain u' v evs where u': "collect_ok u'" "received u' = False # insert_zeros ?p" "length (iPdu u') = H223_MAX_DEMUX_PDU_SIZE"
      "Remove0 u' = Inr (v, evs)" "recv_list (frame ?p) u = Inr (v\<lparr>iNumRecvBits := 0, iRecvBits := 0\<rparr>, evs)"
    using recv_end [of u "insert_zeros ?p", OF _ runs_insert] u(2) assms(2) unfolding frame_def by auto
  have "length (received u') \<le> 8 * length (iPdu u')" using u'(2,3) assms(2) by simp
  then obtain w where w: "evs = [indication w]" "v = w\<lparr>iZeroBitRemovedOutputPos := 0, iPduPos := 0\<rparr>"
      "removed w = remove_zeros (received u')" "out_ok w" "length (iPdu w) = H223_MAX_DEMUX_PDU_SIZE"
    using Remove0_any [OF u'(1)] u'(3,4) by auto
  have "take 5 (False # insert_zeros ?p) \<noteq> replicate 5 True" by (rule zero_first) simp
  then have rem: "removed w = (False # butlast ?p) @ [last ?p]"
    unfolding w(3) u'(2) remove_zeros.simps remove_insert by simp
  have "8 * iPduPosZeroRemoved w + iZeroBitRemovedOutputPos w = 8 * Suc (length xs) + 1"
    using length_removed [OF w(4)] rem by simp
  moreover have "iZeroBitRemovedOutputPos w < 8" using w(4) by (simp add: out_ok_def)
  ultimately have pos: "iPduPosZeroRemoved w = Suc (length xs)" "iZeroBitRemovedOutputPos w = 1" by presburger+
  have "length (take (Suc (length xs)) (iPdu w)) = Suc (length xs)" using w(4) pos(1) by (simp add: out_ok_def)
  then obtain h' xs' where head: "take (Suc (length xs)) (iPdu w) = h' # xs'" "length xs' = length xs"
    unfolding length_Suc_conv by blast
  have bits: "line_bits (h' # xs') = False # butlast ?p" "lsb_bits 1 (iZeroBitRemovedOutput w) = [last ?p]"
    using append_eq_append_conv [of "line_bits (h' # xs')" "False # butlast ?p" "lsb_bits 1 (iZeroBitRemovedOutput w)" "[last ?p]"]
      rem [unfolded removed_def pos head(1)] by (simp_all only: length_lsb_bits list.size, simp_all)
  have "lsb_bits 1 (iZeroBitRemovedOutput w) = lsb_bits 1 (of_bool (last ?p) :: u32)" using bits(2) by (simp add: lsb_bits_def)
  then have out: "iZeroBitRemovedOutput w = of_bool (last ?p)"
    using w(4) pos(2) by (cases "last ?p") (simp_all add: lsb_bits_inject out_ok_def)
  have "iPdu w = (h' # xs') @ drop (Suc (length xs)) (iPdu w)" using head(1) by (metis append_take_drop_id)
  then have "shown (indication w) = pdu_shown h' xs'" using indication_shows [OF _ _ w(5)] pos(1) head(2) by simp
  moreover have "recv_list (([False] @ flag) @ frame ?p) r = Inr (v\<lparr>iNumRecvBits := 0, iRecvBits := 0\<rparr>, evs)"
    using recv_append [of "[False] @ flag" "frame ?p" r] u(4) u'(5) by (metis append_Nil)
  ultimately show ?thesis using bits(1) out w(1,2) by auto
qed

theorem stray_bit_shifts_pdu_witness:
  "\<exists>r' ev h' xs'. recv_list (False # flag @ frame (line_bits [0x0e, 0xff])) (new_level0_rx (replicate 1024 0)) = Inr (r', [ev])
     \<and> shown ev = pdu_shown h' xs' \<and> line_bits (h' # xs') = False # butlast (line_bits [0x0e, 0xff])
     \<and> iZeroBitRemovedOutputPos r' = 0 \<and> iZeroBitRemovedOutput r' = of_bool (last (line_bits [0x0e, 0xff]))"
proof (rule stray_bit_shifts_pdu)
  show "clean (new_level0_rx (replicate 1024 0))" by (simp add: new_rx_clean H223_MAX_DEMUX_PDU_SIZE_def)
qed code_simp

end
