(* ===== verification/H223Level1.thy ===== *)
theory H223Level1
  imports H223Base
begin

text \<open>
  Level 1 of the H.223 multiplexer (\<^verbatim>\<open>h223/src/level1.cpp\<close>, class \<^verbatim>\<open>Level1PduParcom\<close>): multiplex PDUs between
  flags of two octets, or of four when the double flag is in use (\<^verbatim>\<open>iDf\<close>, an argument here: it is set when the
  object is made). Nothing is inserted into the payload.

  The receiver shifts the octets through a register of 32 bits. It looks for a first flag, skips flags, and
  copies octets until the next flag, with the octets of that flag at the end of the copy.
\<close>

section \<open>The sender\<close>

definition level1_stuffing_size :: "bool \<Rightarrow> int" where
  "level1_stuffing_size df = (if df then 4 else 2)"

definition level1_flag_octets :: "bool \<Rightarrow> u8 list" where
  "level1_flag_octets df = [0xe1, 0x4d] @ (if df then [0xe1, 0x4d] else [])"

function level1_stuffing :: "bool \<Rightarrow> int \<Rightarrow> u8 list" where
  "level1_stuffing df size_left =
     (if level1_stuffing_size df \<le> size_left then
        level1_flag_octets df @ level1_stuffing df (size_left - 2 - (if df then 2 else 0))
      else [])"
  by pat_completeness auto
termination by (relation "measure (\<lambda>(df, n). nat n)") (auto simp: level1_stuffing_size_def split: if_splits)

declare level1_stuffing.simps [simp del]

definition level1_GetStuffing :: "bool \<Rightarrow> int \<Rightarrow> u8 list" where
  "level1_GetStuffing df buf_size = level1_stuffing df buf_size"

definition level1_header :: "u8 \<Rightarrow> u8 \<Rightarrow> u8" where
  "level1_header MuxTblNum closing = push_bit 5 (HecCrc ! unat MuxTblNum) OR push_bit 1 MuxTblNum OR closing"

text \<open>\<open>fragments\<close> are the media fragments from the second on; the first one is the header. \<open>allocated\<close> says
  whether the pool has a fragment for the closing header.\<close>

definition level1_CompletePdu :: "bool \<Rightarrow> bool \<Rightarrow> u8 list list \<Rightarrow> u8 \<Rightarrow> u8 \<Rightarrow> mux_fault + u8 list" where
  "level1_CompletePdu df allocated fragments MuxTblNum pm =
     (if length HecCrc \<le> unat MuxTblNum then Inl BadIndex
      else let pdu = level1_flag_octets df @ [level1_header MuxTblNum 0] @ concat fragments
           in if pm \<noteq> 0 then
                if \<not> allocated then Inl PVMFErrNoMemory
                else Inr (pdu @ level1_flag_octets df @ [level1_header MuxTblNum 1])
              else Inr pdu)"

section \<open>The receiver\<close>

datatype level1_op = ELookForStartFlag | ESkipFlags | ELookForEndFlag

text \<open>\<open>None\<close> is the null pointer; a position is an index of \<open>l1_iPdu\<close>.\<close>

record level1_rx =
  iCurrentInt32 :: u32
  iSkipBytes :: nat
  iCurrentOp :: level1_op
  l1_iPdu :: "u8 list"
  l1_iPduPos :: "nat option"

definition new_level1_rx :: "u8 list \<Rightarrow> level1_rx" where
  "new_level1_rx memory =
     \<lparr> iCurrentInt32 = 0, iSkipBytes = 0, iCurrentOp = ELookForStartFlag, l1_iPdu = memory, l1_iPduPos = None \<rparr>"

definition FLAG :: "bool \<Rightarrow> u32" where
  "FLAG df = (if df then 0xE14DE14D else 0xE14D)"

definition FLAG_SZ :: "bool \<Rightarrow> nat" where
  "FLAG_SZ df = (if df then 4 else 2)"

definition FLAG_MASK :: "bool \<Rightarrow> u32" where
  "FLAG_MASK df = (if df then 0xFFFFFFFF else 0xFFFF)"

text \<open>The octets of a register, the lowest at the highest address.\<close>

fun copy_back :: "nat \<Rightarrow> nat \<Rightarrow> u32 \<Rightarrow> u8 list \<Rightarrow> mux_fault + u8 list" where
  "copy_back start 0 copy_from mem = Inr mem"
| "copy_back start (Suc n) copy_from mem =
     (if length mem \<le> start + n then Inl BadIndex
      else copy_back start n (drop_bit 8 copy_from) (mem[start + n := ucast copy_from]))"

text \<open>\<open>size\<close> is \<^verbatim>\<open>iPduPos - iPdu\<close>.\<close>

definition IndicatePdu :: "u8 list \<Rightarrow> int \<Rightarrow> mux_event list" where
  "IndicatePdu pdu pdu_size =
     (if 1 \<le> pdu_size then
        let h = pdu ! 0 in
        if HecCrc ! unat (drop_bit 1 h AND 0xf) \<noteq> drop_bit 5 h then [MuxPduErrIndicate EHeaderErr]
        else [MuxPduIndicate (drop 1 pdu) (word_of_int (pdu_size - 1)) (h AND 1 \<noteq> 0) (ucast (drop_bit 1 h AND 0xf))]
      else [])"

definition level1_octet :: "bool \<Rightarrow> u8 \<Rightarrow> level1_rx \<Rightarrow> mux_fault + (level1_rx \<times> mux_event list)" where
  "level1_octet df octet s =
     (let cur = push_bit 8 (iCurrentInt32 s) OR ucast octet;
          s1 = s\<lparr>iCurrentInt32 := cur\<rparr>
      in case iCurrentOp s1 of
        ELookForStartFlag \<Rightarrow>
          if cur AND FLAG_MASK df = FLAG df then
            Inr (s1\<lparr>iCurrentOp := ESkipFlags, l1_iPduPos := Some 0\<rparr>, [])
          else Inr (s1, [])
      | ESkipFlags \<Rightarrow>
          let s2 = s1\<lparr>iSkipBytes := iSkipBytes s1 + 1\<rparr>
          in if iSkipBytes s2 = FLAG_SZ df then
               bind_res
                 (if cur AND FLAG_MASK df \<noteq> FLAG df then
                    let pos = (case l1_iPduPos s2 of None \<Rightarrow> 0 | Some p \<Rightarrow> p)
                    in bind_res (copy_back pos (FLAG_SZ df) cur (l1_iPdu s2))
                         (\<lambda>mem. Inr (s2\<lparr>l1_iPdu := mem, l1_iPduPos := Some (pos + FLAG_SZ df),
                                       iCurrentOp := ELookForEndFlag\<rparr>))
                  else Inr s2)
                 (\<lambda>s3. Inr (s3\<lparr>iSkipBytes := 0\<rparr>, []))
             else Inr (s2, [])
      | ELookForEndFlag \<Rightarrow>
          (case l1_iPduPos s1 of
            None \<Rightarrow> Inl BadIndex
          | Some pos \<Rightarrow>
              if cur AND FLAG_MASK df = FLAG df then
                Inr (s1\<lparr>l1_iPduPos := None, iCurrentOp := ESkipFlags\<rparr>,
                     IndicatePdu (l1_iPdu s1) (int pos - (int (FLAG_SZ df) - 1)))
              else if length (l1_iPdu s1) \<le> pos then Inl BadIndex
              else
                let s2 = s1\<lparr>l1_iPdu := (l1_iPdu s1)[pos := octet], l1_iPduPos := Some (pos + 1)\<rparr>
                in if pos + 1 = H223_MAX_MUX_PDU_SIZE then
                     Inr (s2\<lparr>l1_iPduPos := None, iCurrentOp := ELookForStartFlag\<rparr>, [MuxPduErrIndicate ESizeErr])
                   else Inr (s2, [])))"

fun level1_Parse :: "bool \<Rightarrow> u8 list \<Rightarrow> level1_rx \<Rightarrow> mux_fault + (level1_rx \<times> mux_event list)" where
  "level1_Parse df [] s = Inr (s, [])"
| "level1_Parse df (x # xs) s =
     bind_res (level1_octet df x s) (\<lambda>(s1, evs). bind_res (level1_Parse df xs s1) (\<lambda>(s2, evs'). Inr (s2, evs @ evs')))"

end
