(* ===== verification/H223Level1Props.thy ===== *)
theory H223Level1Props
  imports H223Level1 "HOL-Library.Sublist"
begin

text \<open>
  Level 1: whatever arrives, the receiver stays within its buffer and indicates only PDUs with a good header;
  and PDUs that do not contain the flag arrive as they were sent.
\<close>

section \<open>The register\<close>

definition reg4 :: "u8 list \<Rightarrow> u32" where
  "reg4 xs = push_bit 24 (ucast (xs ! 0)) OR push_bit 16 (ucast (xs ! 1)) OR push_bit 8 (ucast (xs ! 2)) OR ucast (xs ! 3)"

lemma length4: "length xs = 4 \<longleftrightarrow> (\<exists>a b c d. xs = [a, b, c, d])"
  by (auto simp: eval_nat_numeral length_Suc_conv)

lemma reg4_shift: "length xs = 4 \<Longrightarrow> push_bit 8 (reg4 xs) OR ucast b = reg4 (tl xs @ [b])"
proof -
  assume "length xs = 4"
  then obtain x0 x1 x2 x3 where xs: "xs = [x0, x1, x2, x3]" unfolding length4 by blast
  show ?thesis unfolding xs reg4_def
    by (rule bit_word_eqI) (auto simp: bit_simps dest: bit_imp_le_length)
qed

lemma reg4_octet:
  assumes "length xs = 4" and "i < 4"
  shows "ucast (drop_bit (8 * (3 - i)) (reg4 xs)) = xs ! i"
proof -
  obtain x0 x1 x2 x3 where xs: "xs = [x0, x1, x2, x3]" using assms(1) unfolding length4 by blast
  have "i \<in> {0, 1, 2, 3}" using assms(2) by auto
  then show ?thesis unfolding xs reg4_def
    by (auto intro!: bit_word_eqI simp: bit_simps octet_high)
qed

lemma reg4_inject: "length xs = 4 \<Longrightarrow> length ys = 4 \<Longrightarrow> reg4 xs = reg4 ys \<longleftrightarrow> xs = ys"
  using reg4_octet by (metis nth_equalityI)

abbreviation F where "F \<equiv> level1_flag_octets"

lemma length_F [simp]: "length (F df) = FLAG_SZ df"
  by (simp add: level1_flag_octets_def FLAG_SZ_def)

lemma FLAG_SZ_bounds: "2 \<le> FLAG_SZ df" "FLAG_SZ df \<le> 4"
  by (simp_all add: FLAG_SZ_def)

text \<open>The register holds the last four octets of the history \<open>xs\<close>.\<close>

definition holds :: "level1_rx \<Rightarrow> u8 list \<Rightarrow> bool" where
  "holds s xs \<longleftrightarrow> 4 \<le> length xs \<and> iCurrentInt32 s = reg4 (drop (length xs - 4) xs)"

lemma holds_next: "holds s xs \<Longrightarrow> push_bit 8 (iCurrentInt32 s) OR ucast b = reg4 (drop (Suc (length xs) - 4) (xs @ [b]))"
proof -
  assume h: "holds s xs"
  have "tl (drop (length xs - 4) xs) = drop (Suc (length xs - 4)) xs" by (simp only: tl_drop drop_Suc)
  moreover have "Suc (length xs - 4) = Suc (length xs) - 4" using h unfolding holds_def by linarith
  ultimately have "tl (drop (length xs - 4) xs) @ [b] = drop (Suc (length xs) - 4) (xs @ [b])" by simp
  then show ?thesis using h reg4_shift [of "drop (length xs - 4) xs" b] by (simp add: holds_def)
qed

lemma flag_seen:
  assumes "4 \<le> length xs"
  shows "reg4 (drop (length xs - 4) xs) AND FLAG_MASK df = FLAG df \<longleftrightarrow> suffix (F df) xs"
proof -
  let ?r = "drop (length xs - 4) xs"
  have r: "length ?r = 4" using assms by simp
  then obtain a b c d where q: "?r = [a, b, c, d]" unfolding length4 by blast
  have xs: "xs = take (length xs - 4) xs @ [a, b, c, d]" using q by (metis append_take_drop_id)
  show ?thesis
  proof (cases df)
    case True
    have full: "x AND 0xFFFFFFFF = x" for x :: u32
    proof -
      have m: "(0xFFFFFFFF :: u32) = - 1" by simp
      show ?thesis unfolding m by (simp only: and.right_neutral)
    qed
    have "reg4 ?r = 0xE14DE14D \<longleftrightarrow> reg4 ?r = reg4 [0xe1, 0x4d, 0xe1, 0x4d]" by (simp add: reg4_def)
    also have "\<dots> \<longleftrightarrow> ?r = [0xe1, 0x4d, 0xe1, 0x4d]" using r by (intro reg4_inject) simp_all
    finally show ?thesis using True q
      by (subst (2) xs) (auto simp: FLAG_MASK_def FLAG_def level1_flag_octets_def suffix_def full)
  next
    case False
    have m: "(0xFFFF :: u32) = mask 16" by (simp add: mask_eq_exp_minus_1)
    have "reg4 ?r AND 0xFFFF = reg4 [0, 0, c, d]" unfolding q reg4_def m
      by (rule bit_word_eqI) (auto simp: bit_simps octet_high dest: octet_bit)
    moreover have "(0xE14D :: u32) = reg4 [0, 0, 0xe1, 0x4d]" by (simp add: reg4_def)
    ultimately have "reg4 ?r AND 0xFFFF = 0xE14D \<longleftrightarrow> reg4 [0, 0, c, d] = reg4 [0, 0, 0xe1, 0x4d]" by (simp only:)
    also have "\<dots> \<longleftrightarrow> [0, 0, c, d] = [0, 0, 0xe1, 0x4d]" by (rule reg4_inject) simp_all
    finally have "reg4 ?r AND 0xFFFF = 0xE14D \<longleftrightarrow> [0, 0, c, d] = [0, 0, 0xe1, 0x4d]" .
    then show ?thesis using False q
      by (subst (2) xs) (auto simp: FLAG_MASK_def FLAG_def level1_flag_octets_def suffix_def)
  qed
qed

section \<open>Steps of the receiver\<close>

lemma parse_append:
  "level1_Parse df (xs @ ys) s = Inr (s', evs) \<longleftrightarrow>
     (\<exists>s1 e1 e2. level1_Parse df xs s = Inr (s1, e1) \<and> level1_Parse df ys s1 = Inr (s', e2) \<and> evs = e1 @ e2)"
  by (induction xs arbitrary: s evs) (fastforce simp: bind_res_Inr_iff)+

lemma parse_snoc:
  assumes "level1_Parse df xs s = Inr (u, e)" and "level1_octet df x u = Inr (t, e')"
  shows "level1_Parse df (xs @ [x]) s = Inr (t, e @ e')"
  using assms by (auto simp: parse_append)

definition skipping :: "level1_rx \<Rightarrow> bool" where
  "skipping s \<longleftrightarrow> iCurrentOp s = ESkipFlags \<and> (l1_iPduPos s = None \<or> l1_iPduPos s = Some 0)
     \<and> length (l1_iPdu s) = H223_MAX_DEMUX_PDU_SIZE"

text \<open>\<open>P\<close> is what has been copied since the last flag.\<close>

definition copying :: "level1_rx \<Rightarrow> u8 list \<Rightarrow> bool" where
  "copying s P \<longleftrightarrow> iCurrentOp s = ELookForEndFlag \<and> l1_iPduPos s = Some (length P) \<and> take (length P) (l1_iPdu s) = P
     \<and> length P < H223_MAX_MUX_PDU_SIZE \<and> length (l1_iPdu s) = H223_MAX_DEMUX_PDU_SIZE \<and> iSkipBytes s = 0"

lemma skip_octet:
  assumes "skipping s" and "holds s H" and "iSkipBytes s + 1 < FLAG_SZ df"
  shows "\<exists>t. level1_octet df x s = Inr (t, []) \<and> skipping t \<and> holds t (H @ [x]) \<and> iSkipBytes t = iSkipBytes s + 1"
  using assms holds_next [OF assms(2), of x]
  by (auto simp: level1_octet_def skipping_def holds_def Let_def)

lemma skip_octets:
  assumes "skipping s" and "holds s H" and "iSkipBytes s + length xs < FLAG_SZ df"
  shows "\<exists>t. level1_Parse df xs s = Inr (t, []) \<and> skipping t \<and> holds t (H @ xs) \<and> iSkipBytes t = iSkipBytes s + length xs"
  using assms
proof (induction xs arbitrary: s H)
  case (Cons x xs)
  obtain t where t: "level1_octet df x s = Inr (t, [])" "skipping t" "holds t (H @ [x])" "iSkipBytes t = iSkipBytes s + 1"
    using skip_octet [OF Cons.prems(1,2), of df x] Cons.prems(3) by auto
  then show ?case using Cons.IH [OF t(2,3)] Cons.prems(3) by auto
qed simp

lemma copy_back_octets:
  assumes "start + n \<le> length mem"
  shows "copy_back start n x mem =
     Inr (take start mem @ map (\<lambda>i. ucast (drop_bit (8 * (n - 1 - i)) x)) [0..<n] @ drop (start + n) mem)"
  using assms
proof (induction n arbitrary: x mem)
  case (Suc n)
  let ?mem = "mem[start + n := ucast x]"
  have "drop_bit (8 * (n - 1 - i)) (drop_bit 8 x) = drop_bit (8 * (n - i)) x" if "i < n" for i
  proof -
    have "8 + 8 * (n - 1 - i) = 8 * (n - i)" using that by simp
    then show ?thesis by (simp add: drop_bit_drop_bit add.commute)
  qed
  then have "map (\<lambda>i. ucast (drop_bit (8 * (n - 1 - i)) (drop_bit 8 x))) [0..<n]
      = (map (\<lambda>i. ucast (drop_bit (8 * (n - i)) x)) [0..<n] :: u8 list)" by simp
  moreover have "drop (start + n) ?mem = ucast x # drop (Suc (start + n)) mem"
    using Suc.prems by (simp add: Cons_nth_drop_Suc [symmetric])
  ultimately show ?case using Suc.IH [of ?mem "drop_bit 8 x"] Suc.prems by simp
qed simp

lemma register_octets:
  assumes "length r = 4" and "n \<le> 4"
  shows "map (\<lambda>i. ucast (drop_bit (8 * (n - 1 - i)) (reg4 r))) [0..<n] = drop (4 - n) r"
proof (rule nth_equalityI)
  fix i
  assume "i < length (map (\<lambda>i. ucast (drop_bit (8 * (n - 1 - i)) (reg4 r)) :: u8) [0..<n])"
  then have i: "i < n" by simp
  have "n - 1 - i = 3 - (4 - n + i)" using i assms(2) by linarith
  then show "map (\<lambda>i. ucast (drop_bit (8 * (n - 1 - i)) (reg4 r))) [0..<n] ! i = drop (4 - n) r ! i"
    using i assms reg4_octet [OF assms(1), of "4 - n + i"] by simp
qed (use assms in simp)

lemma suffix_same: "length xs = length ys \<Longrightarrow> suffix xs (zs @ ys) \<longleftrightarrow> ys = xs"
  by (auto simp: suffix_def)

lemma skip_block:
  assumes "skipping s" and "holds s H" and "iSkipBytes s = 0" and "length B = FLAG_SZ df"
  shows "\<exists>t. level1_Parse df B s = Inr (t, []) \<and> holds t (H @ B)
     \<and> (if B = F df then skipping t \<and> iSkipBytes t = 0 else copying t B)"
proof -
  obtain C x where B: "B = C @ [x]" using assms(4) FLAG_SZ_bounds(1) [of df] by (cases B rule: rev_cases) auto
  obtain u where u: "level1_Parse df C s = Inr (u, [])" "skipping u" "holds u (H @ C)" "iSkipBytes u = length C"
    using skip_octets [OF assms(1,2), of C df] assms(3,4) B by auto
  let ?r = "drop (length (H @ B) - 4) (H @ B)"
  have len: "Suc (length C) = FLAG_SZ df" using assms(4) B by simp
  have long: "4 \<le> length (H @ B)" using u(3) B by (simp add: holds_def)
  then have seen: "reg4 ?r AND FLAG_MASK df = FLAG df \<longleftrightarrow> B = F df"
    using flag_seen [of "H @ B" df] suffix_same [of "F df" B H] assms(4) by simp
  have cur: "push_bit 8 (iCurrentInt32 u) OR ucast x = reg4 ?r" using holds_next [OF u(3), of x] B by simp
  have "drop (4 - FLAG_SZ df) ?r = B"
    using assms(2,4) FLAG_SZ_bounds(2) [of df] by (simp add: holds_def)
  moreover have "length (l1_iPdu u) = H223_MAX_DEMUX_PDU_SIZE" using u(2) by (simp add: skipping_def)
  moreover have "length ?r = 4" using long by simp
  ultimately have copy: "copy_back 0 (FLAG_SZ df) (reg4 ?r) (l1_iPdu u) = Inr (B @ drop (FLAG_SZ df) (l1_iPdu u))"
    using copy_back_octets [of 0 "FLAG_SZ df" "l1_iPdu u" "reg4 ?r"] register_octets [of ?r "FLAG_SZ df"]
      FLAG_SZ_bounds(2) [of df] by (simp add: H223_MAX_DEMUX_PDU_SIZE_def)
  have pos: "(case l1_iPduPos u of None \<Rightarrow> 0 | Some p \<Rightarrow> p) = 0" using u(2) by (auto simp: skipping_def)
  show ?thesis
  proof (cases "B = F df")
    case True
    let ?t = "u\<lparr>iCurrentInt32 := reg4 ?r, iSkipBytes := 0\<rparr>"
    have "level1_octet df x u = Inr (?t, [])"
      using True u(2,4) len cur seen by (simp add: level1_octet_def skipping_def)
    moreover have "skipping ?t" "holds ?t (H @ B)" using u(2) long by (simp_all add: skipping_def holds_def)
    moreover have "level1_Parse df B s = Inr (?t, [])" using parse_snoc [OF u(1) calculation(1)] unfolding B [symmetric] by simp
    ultimately show ?thesis using True by (intro exI [of _ ?t]) simp
  next
    case False
    let ?t = "u\<lparr>iCurrentInt32 := reg4 ?r, l1_iPdu := B @ drop (FLAG_SZ df) (l1_iPdu u), l1_iPduPos := Some (FLAG_SZ df),
        iCurrentOp := ELookForEndFlag, iSkipBytes := 0\<rparr>"
    have "level1_octet df x u = Inr (?t, [])"
      using False u(2,4) len cur seen copy pos by (simp add: level1_octet_def skipping_def)
    moreover have "copying ?t B" "holds ?t (H @ B)"
      using u(2) long assms(4) FLAG_SZ_bounds(2) [of df]
      by (simp_all add: skipping_def copying_def holds_def H223_MAX_MUX_PDU_SIZE_def H223_MAX_DEMUX_PDU_SIZE_def)
    moreover have "level1_Parse df B s = Inr (?t, [])" using parse_snoc [OF u(1) calculation(1)] unfolding B [symmetric] by simp
    ultimately show ?thesis using False by (intro exI [of _ ?t]) simp
  qed
qed

lemma copy_octet:
  assumes "copying s P" and "holds s H" and "\<not> suffix (F df) (H @ [x])" and "Suc (length P) < H223_MAX_MUX_PDU_SIZE"
  shows "\<exists>t. level1_octet df x s = Inr (t, []) \<and> copying t (P @ [x]) \<and> holds t (H @ [x])"
proof -
  let ?r = "reg4 (drop (Suc (length H) - 4) (H @ [x]))"
  let ?t = "s\<lparr>iCurrentInt32 := ?r, l1_iPdu := (l1_iPdu s)[length P := x], l1_iPduPos := Some (Suc (length P))\<rparr>"
  have "push_bit 8 (iCurrentInt32 s) OR ucast x = ?r" by (rule holds_next [OF assms(2)])
  moreover have "?r AND FLAG_MASK df \<noteq> FLAG df" using flag_seen [of "H @ [x]" df] assms(2,3) by (simp add: holds_def)
  moreover have "length P < length (l1_iPdu s)" using assms(1) by (simp add: copying_def H223_MAX_MUX_PDU_SIZE_def H223_MAX_DEMUX_PDU_SIZE_def)
  ultimately have "level1_octet df x s = Inr (?t, [])"
    using assms(1,4) unfolding level1_octet_def copying_def by simp
  moreover have "take (Suc (length P)) ((l1_iPdu s)[length P := x]) = P @ [x]"
    using assms(1) \<open>length P < length (l1_iPdu s)\<close> by (simp add: copying_def take_Suc_conv_app_nth)
  then have "copying ?t (P @ [x])" using assms(1,4) by (simp add: copying_def)
  moreover have "holds ?t (H @ [x])" using assms(2) by (simp add: holds_def)
  ultimately show ?thesis by blast
qed

lemma copy_octets:
  assumes "copying s P" and "holds s H" and "\<And>n. n < length xs \<Longrightarrow> \<not> suffix (F df) (H @ take (Suc n) xs)"
    and "length P + length xs < H223_MAX_MUX_PDU_SIZE"
  shows "\<exists>t. level1_Parse df xs s = Inr (t, []) \<and> copying t (P @ xs) \<and> holds t (H @ xs)"
  using assms
proof (induction xs arbitrary: s P H)
  case (Cons x xs)
  obtain t where t: "level1_octet df x s = Inr (t, [])" "copying t (P @ [x])" "holds t (H @ [x])"
    using copy_octet [OF Cons.prems(1,2), of df x] Cons.prems(3) [of 0] Cons.prems(4) by auto
  have "\<not> suffix (F df) ((H @ [x]) @ take (Suc n) xs)" if "n < length xs" for n
    using Cons.prems(3) [of "Suc n"] that by simp
  then show ?case using Cons.IH [OF t(2,3)] t(1) Cons.prems(4) by auto
qed auto

lemma end_flag:
  assumes "copying s P" and "holds s H" and "suffix (F df) (H @ [x])" and "P @ [x] = (h # D) @ F df"
    and "HecCrc ! unat (drop_bit 1 h AND 0xf) = drop_bit 5 h"
  shows "\<exists>t ev. level1_octet df x s = Inr (t, [ev]) \<and> skipping t \<and> iSkipBytes t = 0 \<and> holds t (H @ [x]) \<and> shown ev = pdu_shown h D"
proof -
  let ?r = "reg4 (drop (Suc (length H) - 4) (H @ [x]))"
  let ?t = "s\<lparr>iCurrentInt32 := ?r, l1_iPduPos := None, iCurrentOp := ESkipFlags\<rparr>"
  have len: "length P = length D + FLAG_SZ df" using arg_cong [OF assms(4), of length] by simp
  have "push_bit 8 (iCurrentInt32 s) OR ucast x = ?r" by (rule holds_next [OF assms(2)])
  moreover have "?r AND FLAG_MASK df = FLAG df" using flag_seen [of "H @ [x]" df] assms(2,3) by (simp add: holds_def)
  ultimately have step: "level1_octet df x s = Inr (?t, IndicatePdu (l1_iPdu s) (int (length P) - (int (FLAG_SZ df) - 1)))"
    using assms(1) unfolding level1_octet_def copying_def by simp
  have "take (length P) (l1_iPdu s) = P" using assms(1) by (simp add: copying_def)
  then obtain rest where "l1_iPdu s = P @ rest" by (metis append_take_drop_id)
  moreover have "take (length (h # D)) P = h # D"
    using arg_cong [OF assms(4), of "take (length (h # D))"] len FLAG_SZ_bounds(1) [of df] by simp
  ultimately obtain ys where ys: "l1_iPdu s = (h # D) @ ys" by (metis append.assoc append_take_drop_id)
  have "length D < 2 ^ 16" using len assms(1) by (simp add: copying_def H223_MAX_MUX_PDU_SIZE_def)
  then have "\<exists>ev. IndicatePdu (l1_iPdu s) (int (length P) - (int (FLAG_SZ df) - 1)) = [ev] \<and> shown ev = pdu_shown h D"
    using assms(5) len unfolding IndicatePdu_def ys by (simp add: pdu_shown_def unat_of_nat Let_def)
  moreover have "skipping ?t" "iSkipBytes ?t = 0" "holds ?t (H @ [x])"
    using assms(1,2) by (simp_all add: skipping_def copying_def holds_def)
  ultimately show ?thesis using step by auto
qed

section \<open>Frames\<close>

text \<open>The flag is seen at the end only.\<close>

definition flag_free :: "bool \<Rightarrow> u8 list \<Rightarrow> bool" where
  "flag_free df D \<longleftrightarrow> (\<forall>n<length (D @ F df). \<not> suffix (F df) (take n (D @ F df)))"

definition resting :: "level1_rx \<Rightarrow> bool" where
  "resting s \<longleftrightarrow> skipping s \<and> iSkipBytes s = 0 \<and> (\<exists>H. holds s H)"

lemma parse_flag: "resting s \<Longrightarrow> \<exists>t. level1_Parse df (F df) s = Inr (t, []) \<and> resting t"
  using skip_block [of s _ "F df" df] by (auto simp: resting_def)

lemma suffix_long: "length xs \<le> length ys \<Longrightarrow> suffix xs (zs @ ys) \<longleftrightarrow> suffix xs ys"
  by (meson suffix_appendI suffix_def suffix_length_suffix)

lemma parse_frame:
  assumes "resting s" and "flag_free df (h # D)" and "HecCrc ! unat (drop_bit 1 h AND 0xf) = drop_bit 5 h"
    and "length D + FLAG_SZ df < H223_MAX_MUX_PDU_SIZE"
  shows "\<exists>t ev. level1_Parse df ((h # D) @ F df) s = Inr (t, [ev]) \<and> resting t \<and> shown ev = pdu_shown h D"
proof -
  let ?all = "(h # D) @ F df"
  obtain H where s: "skipping s" "iSkipBytes s = 0" "holds s H" using assms(1) by (auto simp: resting_def)
  let ?B = "take (FLAG_SZ df) ?all"
  obtain xs x where xs: "drop (FLAG_SZ df) ?all = xs @ [x]" by (cases "drop (FLAG_SZ df) ?all" rule: rev_cases) auto
  then have all: "?all = ?B @ xs @ [x]" by (metis append_take_drop_id)
  have lens: "length ?B = FLAG_SZ df" "Suc (length ?B + length xs) = length ?all" using arg_cong [OF all, of length] by simp_all
  have free: "\<not> suffix (F df) (take n ?all)" if "n < length ?all" for n using assms(2) that unfolding flag_free_def by blast
  have "?B \<noteq> F df" using free [of "FLAG_SZ df"] by auto
  then obtain t where t: "level1_Parse df ?B s = Inr (t, [])" "holds t (H @ ?B)" "copying t ?B"
    using skip_block [OF s(1,3,2) lens(1)] by auto
  have window: "suffix (F df) ((H @ ?B) @ ys) \<longleftrightarrow> suffix (F df) (?B @ ys)" for ys
    using suffix_long [of "F df" "?B @ ys" H] lens(1) by simp
  have "\<not> suffix (F df) ((H @ ?B) @ take (Suc n) xs)" if "n < length xs" for n
  proof -
    have "take (length ?B + Suc n) ?all = ?B @ take (Suc n) xs" using that by (subst all) simp
    then show ?thesis using free [of "length ?B + Suc n"] lens(2) that unfolding window by simp
  qed
  moreover have "length ?B + length xs < H223_MAX_MUX_PDU_SIZE" using lens(2) assms(4) by simp
  ultimately obtain u where u: "level1_Parse df xs t = Inr (u, [])" "copying u (?B @ xs)" "holds u ((H @ ?B) @ xs)"
    using copy_octets [OF t(3,2)] by blast
  have "suffix (F df) (((H @ ?B) @ xs) @ [x])"
    using window [of "xs @ [x]"] all by (metis append.assoc suffix_def)
  moreover have "(?B @ xs) @ [x] = (h # D) @ F df" using all by simp
  ultimately obtain v ev where v: "level1_octet df x u = Inr (v, [ev])" "skipping v" "iSkipBytes v = 0" "holds v (((H @ ?B) @ xs) @ [x])"
      "shown ev = pdu_shown h D"
    using end_flag [OF u(2,3)] assms(3) by blast
  have "level1_Parse df (?B @ xs) s = Inr (u, [])" using t(1) u(1) by (auto simp: parse_append)
  then have "level1_Parse df ((?B @ xs) @ [x]) s = Inr (v, [ev])" using parse_snoc v(1) by fastforce
  then show ?thesis using v all unfolding resting_def by (metis append.assoc)
qed

lemma start_flag:
  assumes "length memory = H223_MAX_DEMUX_PDU_SIZE"
  shows "\<exists>t. level1_Parse df (F df) (new_level1_rx memory) = Inr (t, []) \<and> resting t"
proof -
  have "\<exists>t. level1_Parse df (F df) (new_level1_rx memory) = Inr (t, []) \<and> skipping t \<and> iSkipBytes t = 0
      \<and> iCurrentInt32 t = FLAG df"
    using assms by (cases df) (simp_all add: level1_flag_octets_def level1_octet_def new_level1_rx_def FLAG_MASK_def FLAG_def skipping_def)
  then obtain t where t: "level1_Parse df (F df) (new_level1_rx memory) = Inr (t, [])" "skipping t" "iSkipBytes t = 0"
    "iCurrentInt32 t = FLAG df" by blast
  have "holds t ([0, 0] @ [0, 0] @ F df)"
    using t(4) by (cases df) (simp_all add: holds_def level1_flag_octets_def FLAG_def reg4_def)
  then show ?thesis using t(1-3) unfolding resting_def by blast
qed

fun segment_ok :: "bool \<Rightarrow> u8 list \<Rightarrow> bool" where
  "segment_ok df [] = True"
| "segment_ok df (h # D) = (flag_free df (h # D) \<and> HecCrc ! unat (drop_bit 1 h AND 0xf) = drop_bit 5 h
     \<and> length D + FLAG_SZ df < H223_MAX_MUX_PDU_SIZE)"

fun segment_shown :: "u8 list \<Rightarrow> (u8 list \<times> bool \<times> u32) option list" where
  "segment_shown [] = []"
| "segment_shown (h # D) = [pdu_shown h D]"

lemma parse_segments:
  assumes "resting s" and "list_all (segment_ok df) Ds"
  shows "\<exists>t evs. level1_Parse df (concat (map (\<lambda>D. D @ F df) Ds)) s = Inr (t, evs) \<and> resting t
     \<and> map shown evs = concat (map segment_shown Ds)"
  using assms
proof (induction Ds arbitrary: s)
  case (Cons D Ds)
  obtain t evs where t: "level1_Parse df (D @ F df) s = Inr (t, evs)" "resting t" "map shown evs = segment_shown D"
  proof (cases D)
    case Nil
    then show ?thesis using parse_flag [OF Cons.prems(1), of df] that by auto
  next
    case (Cons h P)
    then show ?thesis using parse_frame [OF \<open>resting s\<close>, of df h P] Cons.prems(2) that by auto
  qed
  obtain u evs' where "level1_Parse df (concat (map (\<lambda>D. D @ F df) Ds)) t = Inr (u, evs')" "resting u"
      "map shown evs' = concat (map segment_shown Ds)"
    using Cons.IH [OF t(2)] Cons.prems(2) by auto
  then show ?case using t by (auto simp: parse_append)
qed simp

lemma flags_between: "concat (map (\<lambda>D. xs @ D) Ds) @ xs = xs @ concat (map (\<lambda>D. D @ xs) Ds)"
  by (induction Ds) simp_all

section \<open>A line\<close>

datatype level1_item =
    L1_Stuffing int
  | L1_Pdu "u8 list list" u8 u8

fun level1_item_octets :: "bool \<Rightarrow> level1_item \<Rightarrow> mux_fault + u8 list" where
  "level1_item_octets df (L1_Stuffing n) = Inr (level1_GetStuffing df n)"
| "level1_item_octets df (L1_Pdu fs num pm) = level1_CompletePdu df True fs num pm"

fun level1_line :: "bool \<Rightarrow> level1_item list \<Rightarrow> mux_fault + u8 list" where
  "level1_line df [] = Inr (level1_flag_octets df)"
| "level1_line df (i # is) =
     bind_res (level1_item_octets df i) (\<lambda>xs. bind_res (level1_line df is) (\<lambda>ys. Inr (xs @ ys)))"

fun level1_indicated :: "level1_item \<Rightarrow> (u8 list \<times> bool \<times> u32) option list" where
  "level1_indicated (L1_Stuffing n) = []"
| "level1_indicated (L1_Pdu fs num pm) = Some (concat fs, False, ucast num) # (if pm \<noteq> 0 then [Some ([], True, ucast num)] else [])"

fun level1_item_ok :: "bool \<Rightarrow> level1_item \<Rightarrow> bool" where
  "level1_item_ok df (L1_Stuffing n) = True"
| "level1_item_ok df (L1_Pdu fs num pm) =
     (num < 16 \<and> flag_free df (level1_header num 0 # concat fs) \<and> length (concat fs) + FLAG_SZ df < H223_MAX_MUX_PDU_SIZE)"

fun item_segments :: "level1_item \<Rightarrow> nat \<Rightarrow> u8 list list" where
  "item_segments (L1_Stuffing n) k = replicate k []"
| "item_segments (L1_Pdu fs num pm) k =
     (level1_header num 0 # concat fs) # (if pm \<noteq> 0 then [[level1_header num 1]] else [])"

lemma stuffing_segments: "\<exists>k. level1_stuffing df n = concat (map (\<lambda>D. F df @ D) (replicate k []))"
proof (induction df n rule: level1_stuffing.induct)
  case (1 df n)
  show ?case
  proof (cases "level1_stuffing_size df \<le> n")
    case True
    then obtain k where "level1_stuffing df (n - 2 - (if df then 2 else 0)) = concat (map (\<lambda>D. F df @ D) (replicate k []))"
      using 1 by blast
    then have "level1_stuffing df n = concat (map (\<lambda>D. F df @ D) (replicate (Suc k) []))"
      using True by (subst level1_stuffing.simps) simp
    then show ?thesis by blast
  next
    case False
    then show ?thesis by (subst level1_stuffing.simps) (auto intro: exI [of _ 0])
  qed
qed

lemma level1_header_fields:
  "list_all (\<lambda>num. (\<forall>c \<in> set [0, 1]. let h = level1_header num c in
     HecCrc ! unat (drop_bit 1 h AND 0xf) = drop_bit 5 h \<and> drop_bit 1 h AND 0xf = num \<and> h AND 1 = c)
     \<and> unat num < length HecCrc)
   (map of_nat [0..<16])"
  by code_simp

lemma low_code_cases: "(num :: u8) < 16 \<Longrightarrow> num \<in> set (map of_nat [0..<16])"
proof -
  assume "num < 16"
  then have "unat num < 16" by (simp add: word_less_nat_alt)
  then show "num \<in> set (map of_nat [0..<16])" unfolding set_map by (intro image_eqI [of _ _ "unat num"]) simp_all
qed

lemma level1_header_good:
  assumes "num < 16"
  shows "HecCrc ! unat (drop_bit 1 (level1_header num 0) AND 0xf) = drop_bit 5 (level1_header num 0)"
    "HecCrc ! unat (drop_bit 1 (level1_header num 1) AND 0xf) = drop_bit 5 (level1_header num 1)"
    "pdu_shown (level1_header num 0) xs = Some (xs, False, ucast num)" "pdu_shown (level1_header num 1) xs = Some (xs, True, ucast num)"
    "unat num < length HecCrc"
  using bspec [OF level1_header_fields [unfolded list_all_iff] low_code_cases [OF assms]]
  by (auto simp: Let_def pdu_shown_def)

lemma header_flag_free: "flag_free df [h]"
proof (cases df)
  case True
  have "\<not> suffix [0xe1, 0x4d, 0xe1, 0x4d] (take n [h, 0xe1, 0x4d, 0xe1, 0x4d])" if "n < 5" for n
  proof -
    have "n \<in> {0, 1, 2, 3, 4}" using that by auto
    then show ?thesis by (auto simp: suffix_def Cons_eq_append_conv)
  qed
  then show ?thesis using True by (simp add: flag_free_def level1_flag_octets_def FLAG_SZ_def)
next
  case False
  have "\<not> suffix [0xe1, 0x4d] (take n [h, 0xe1, 0x4d])" if "n < 3" for n
  proof -
    have "n \<in> {0, 1, 2}" using that by auto
    then show ?thesis by (auto simp: suffix_def Cons_eq_append_conv)
  qed
  then show ?thesis using False by (simp add: flag_free_def level1_flag_octets_def FLAG_SZ_def)
qed

lemma item_as_segments:
  assumes "level1_item_ok df i"
  shows "\<exists>k. level1_item_octets df i = Inr (concat (map (\<lambda>D. F df @ D) (item_segments i k)))
     \<and> list_all (segment_ok df) (item_segments i k) \<and> concat (map segment_shown (item_segments i k)) = level1_indicated i"
proof (cases i)
  case (L1_Stuffing n)
  obtain k where "level1_stuffing df n = concat (map (\<lambda>D. F df @ D) (replicate k []))" using stuffing_segments by blast
  moreover have "concat (map segment_shown (replicate k [])) = []" by (induction k) simp_all
  ultimately show ?thesis using L1_Stuffing by (auto simp: level1_GetStuffing_def list_all_iff)
next
  case (L1_Pdu fs num pm)
  have n: "num < 16" "flag_free df (level1_header num 0 # concat fs)" "length (concat fs) + FLAG_SZ df < H223_MAX_MUX_PDU_SIZE"
    using assms L1_Pdu by simp_all
  note h = level1_header_good [OF n(1)]
  have "FLAG_SZ df < H223_MAX_MUX_PDU_SIZE" using n(3) by simp
  then show ?thesis
    using L1_Pdu n h header_flag_free by (auto simp: level1_CompletePdu_def)
qed

lemma line_as_segments:
  assumes "list_all (level1_item_ok df) items"
  shows "\<exists>Ds. level1_line df items = Inr (concat (map (\<lambda>D. F df @ D) Ds) @ F df)
     \<and> list_all (segment_ok df) Ds \<and> concat (map segment_shown Ds) = concat (map level1_indicated items)"
  using assms
proof (induction items)
  case Nil
  then show ?case by (auto intro: exI [of _ "[]"])
next
  case (Cons i items)
  obtain k where k: "level1_item_octets df i = Inr (concat (map (\<lambda>D. F df @ D) (item_segments i k)))"
     "list_all (segment_ok df) (item_segments i k)" "concat (map segment_shown (item_segments i k)) = level1_indicated i"
    using item_as_segments Cons.prems by auto
  obtain Ds where "level1_line df items = Inr (concat (map (\<lambda>D. F df @ D) Ds) @ F df)" "list_all (segment_ok df) Ds"
      "concat (map segment_shown Ds) = concat (map level1_indicated items)"
    using Cons by auto
  then show ?case using k by (intro exI [of _ "item_segments i k @ Ds"]) simp
qed

section \<open>Properties\<close>

text \<open>C27. At level 1, with single or double flags, PDUs and stuffing sent in any order and followed by a flag
  are indicated in that order with payload, multiplex code and closing marker, if no PDU contains the flag
  (at level 1 nothing is inserted) and every PDU has less than 512 octets with its flag.\<close>

theorem level1_delivered:
  assumes "length memory = H223_MAX_DEMUX_PDU_SIZE" and "list_all (level1_item_ok df) items"
  shows "\<exists>xs r' evs. level1_line df items = Inr xs \<and> level1_Parse df xs (new_level1_rx memory) = Inr (r', evs)
     \<and> map shown evs = concat (map level1_indicated items)"
proof -
  obtain Ds where Ds: "level1_line df items = Inr (concat (map (\<lambda>D. F df @ D) Ds) @ F df)" "list_all (segment_ok df) Ds"
      "concat (map segment_shown Ds) = concat (map level1_indicated items)"
    using line_as_segments [OF assms(2)] by blast
  obtain t where t: "level1_Parse df (F df) (new_level1_rx memory) = Inr (t, [])" "resting t" using start_flag [OF assms(1)] by blast
  obtain u evs where "level1_Parse df (concat (map (\<lambda>D. D @ F df) Ds)) t = Inr (u, evs)"
      "map shown evs = concat (map segment_shown Ds)"
    using parse_segments [OF t(2) Ds(2)] by blast
  then show ?thesis using Ds t(1) by (auto simp: flags_between parse_append)
qed

theorem level1_delivered_witness:
  "\<exists>xs r' evs. level1_line False [L1_Pdu [[0x4d, 0xe1, 7]] 3 1, L1_Stuffing 5, L1_Pdu [] 0 0] = Inr xs
     \<and> level1_Parse False xs (new_level1_rx (replicate 1024 0)) = Inr (r', evs)
     \<and> map shown evs = [Some ([0x4d, 0xe1, 7], False, 3), Some ([], True, 3), Some ([], False, 0)]"
proof -
  have "list_all (level1_item_ok False) [L1_Pdu [[0x4d, 0xe1, 7]] 3 1, L1_Stuffing 5, L1_Pdu [] 0 0]" by code_simp
  from level1_delivered [OF _ this, of "replicate 1024 0"] show ?thesis by (simp add: H223_MAX_DEMUX_PDU_SIZE_def)
qed

definition level1_ok :: "bool \<Rightarrow> level1_rx \<Rightarrow> bool" where
  "level1_ok df s \<longleftrightarrow> length (l1_iPdu s) = H223_MAX_DEMUX_PDU_SIZE \<and>
     (case iCurrentOp s of
        ELookForStartFlag \<Rightarrow> iSkipBytes s = 0
      | ESkipFlags \<Rightarrow> iSkipBytes s < FLAG_SZ df \<and> (l1_iPduPos s = None \<or> l1_iPduPos s = Some 0)
      | ELookForEndFlag \<Rightarrow> iSkipBytes s = 0
          \<and> (\<exists>p. l1_iPduPos s = Some p \<and> FLAG_SZ df \<le> p \<and> p < H223_MAX_MUX_PDU_SIZE))"

fun level1_event_ok :: "mux_event \<Rightarrow> bool" where
  "level1_event_ok (MuxPduIndicate memory n closing code) = (unat n \<le> 509 \<and> unat n \<le> length memory \<and> code < 16)"
| "level1_event_ok (MuxPduErrIndicate e) = True"

lemma IndicatePdu_ok:
  assumes "n \<le> 510" and "length mem = H223_MAX_DEMUX_PDU_SIZE"
  shows "list_all level1_event_ok (IndicatePdu mem n)"
proof -
  have "(ucast (x AND 0xf) :: u32) < 16" for x :: u8
  proof -
    have "x AND 0xf = take_bit 4 x" by (simp add: take_bit_eq_mask mask_eq_exp_minus_1)
    then show ?thesis using take_bit_nat_less_exp [of 4 "unat (ucast x :: u32)"] by (simp add: word_less_nat_alt unsigned_take_bit_eq)
  qed
  moreover have "unat (word_of_int (n - 1) :: u16) \<le> 509" if "1 \<le> n"
  proof -
    have "unat (of_nat k :: u16) = k" if "k \<le> 509" for k using that by (simp add: unat_of_nat)
    from this [of "nat (n - 1)"] show ?thesis using that assms(1) by simp
  qed
  ultimately show ?thesis using assms(2) by (auto simp: IndicatePdu_def Let_def H223_MAX_DEMUX_PDU_SIZE_def)
qed

lemma level1_octet_ok:
  assumes "level1_ok df s"
  shows "\<exists>t evs. level1_octet df x s = Inr (t, evs) \<and> level1_ok df t \<and> list_all level1_event_ok evs"
proof (cases "iCurrentOp s")
  case ELookForStartFlag
  then show ?thesis using assms FLAG_SZ_bounds(1) [of df] by (auto simp: level1_octet_def level1_ok_def Let_def)
next
  case ESkipFlags
  let ?cur = "push_bit 8 (iCurrentInt32 s) OR ucast x"
  have s: "length (l1_iPdu s) = 1024" "iSkipBytes s < FLAG_SZ df" "(case l1_iPduPos s of None \<Rightarrow> 0 | Some p \<Rightarrow> p) = 0"
    using assms ESkipFlags by (auto simp: level1_ok_def H223_MAX_DEMUX_PDU_SIZE_def)
  obtain mem where mem: "copy_back 0 (FLAG_SZ df) ?cur (l1_iPdu s) = Inr mem" "length mem = 1024"
    using copy_back_octets [of 0 "FLAG_SZ df" "l1_iPdu s" ?cur] s(1) FLAG_SZ_bounds(2) [of df] by auto
  then show ?thesis
    using assms s ESkipFlags FLAG_SZ_bounds [of df]
    by (auto simp: level1_octet_def level1_ok_def Let_def H223_MAX_DEMUX_PDU_SIZE_def H223_MAX_MUX_PDU_SIZE_def)
next
  case ELookForEndFlag
  then obtain p where p: "l1_iPduPos s = Some p" "FLAG_SZ df \<le> p" "p < 512" "iSkipBytes s = 0" "length (l1_iPdu s) = 1024"
    using assms by (auto simp: level1_ok_def H223_MAX_MUX_PDU_SIZE_def H223_MAX_DEMUX_PDU_SIZE_def)
  have "list_all level1_event_ok (IndicatePdu (l1_iPdu s) (int p - (int (FLAG_SZ df) - 1)))"
    using p FLAG_SZ_bounds(1) [of df] by (intro IndicatePdu_ok) (simp_all add: H223_MAX_DEMUX_PDU_SIZE_def)
  then show ?thesis
    using ELookForEndFlag p FLAG_SZ_bounds [of df]
    by (auto simp: level1_octet_def level1_ok_def Let_def H223_MAX_MUX_PDU_SIZE_def H223_MAX_DEMUX_PDU_SIZE_def)
qed

lemma level1_parse_ok:
  "level1_ok df s \<Longrightarrow> \<exists>t evs. level1_Parse df xs s = Inr (t, evs) \<and> level1_ok df t \<and> list_all level1_event_ok evs"
proof (induction xs arbitrary: s)
  case (Cons x xs)
  obtain t evs where t: "level1_octet df x s = Inr (t, evs)" "level1_ok df t" "list_all level1_event_ok evs"
    using level1_octet_ok [OF Cons.prems] by blast
  obtain u evs' where "level1_Parse df xs t = Inr (u, evs')" "level1_ok df u" "list_all level1_event_ok evs'"
    using Cons.IH [OF t(2)] by blast
  then show ?case using t by auto
qed simp

text \<open>C33. Whatever octets arrive at level 1, the receiver goes on, never reads or writes outside its buffer,
  and indicates only PDUs of at most 509 octets that lie inside it, with a code of the multiplex table.\<close>

theorem level1_stays_inside:
  assumes "length memory = H223_MAX_DEMUX_PDU_SIZE"
  shows "\<exists>r' evs. level1_Parse df xs (new_level1_rx memory) = Inr (r', evs) \<and> list_all level1_event_ok evs"
proof -
  have "level1_ok df (new_level1_rx memory)" using assms by (simp add: level1_ok_def new_level1_rx_def)
  then show ?thesis using level1_parse_ok by blast
qed

theorem level1_stays_inside_witness:
  "\<exists>r' evs. level1_Parse True (replicate 3000 0xe1) (new_level1_rx (replicate 1024 0)) = Inr (r', evs) \<and> list_all level1_event_ok evs"
  by (rule level1_stays_inside) (simp add: H223_MAX_DEMUX_PDU_SIZE_def)

end
