(* ===== verification/H223Golay.thy ===== *)
theory H223Golay
  imports H223GolayTables
begin

text \<open>
  The Golay code of the header of level 2 (\<^verbatim>\<open>level2.h\<close>, \<^verbatim>\<open>GolayDec\<close> and \<^verbatim>\<open>get_syndrome\<close>): 12 bits of data,
  a parity bit and 11 check bits. The decoder drops the parity bit, computes the syndrome of the other 23 bits
  and looks the error pattern up. The theory shows that the two tables fit together: every pattern of up to
  three errors is undone.
\<close>

section \<open>Definitions of the code\<close>

text \<open>The \<^verbatim>\<open>long\<close> register \<open>junk\<close> and the \<^verbatim>\<open>int\<close> pattern are never negative here. \<open>None\<close> stands for a loop that
  does not end.\<close>

function shift_junk :: "u32 \<Rightarrow> u32 \<Rightarrow> u32 option" where
  "shift_junk junk pattern =
     (if junk AND pattern \<noteq> 0 then Some junk
      else if junk = 0 then None
      else shift_junk (drop_bit 1 junk) pattern)"
  by pat_completeness auto
termination
proof (relation "measure (\<lambda>(j, p). unat j)")
  fix junk pattern :: u32
  assume "junk \<noteq> 0"
  then have "0 < unat junk" by (simp add: unat_gt_0)
  then have "unat junk div 2 < unat junk" by simp
  then show "((drop_bit 1 junk, pattern), (junk, pattern)) \<in> measure (\<lambda>(j, p). unat j)"
    by (simp add: drop_bit_eq_div unat_div)
qed simp

declare shift_junk.simps [simp del]

definition generator :: "u32 \<Rightarrow> u32" where
  "generator junk = junk + drop_bit 1 junk + drop_bit 5 junk + drop_bit 6 junk + drop_bit 7 junk + drop_bit 9 junk + drop_bit 11 junk"

partial_function (option) reduce_pattern :: "u32 \<Rightarrow> u32 \<Rightarrow> u32 option" where
  "reduce_pattern junk pattern =
     (if pattern AND 0xfffff800 \<noteq> 0 then
        (case shift_junk junk pattern of
           None \<Rightarrow> None
         | Some j \<Rightarrow> reduce_pattern j (pattern XOR generator j))
      else Some pattern)"

definition get_syndrome :: "u32 \<Rightarrow> u32 option" where
  "get_syndrome pattern = (if 0x800 \<le> pattern then reduce_pattern 0x400000 pattern else Some pattern)"

function count_ones :: "nat \<Rightarrow> nat" where
  "count_ones m = (if m = 0 then 0 else m mod 2 + count_ones (m div 2))"
  by pat_completeness auto
termination by (relation "measure id") auto

declare count_ones.simps [simp del]

definition iNumOnes :: "nat list" where
  "iNumOnes = map count_ones [0..<256]"

definition num_ones :: "u32 \<Rightarrow> nat" where
  "num_ones syndrome =
     iNumOnes ! unat (syndrome AND 0xFF) + iNumOnes ! unat (drop_bit 8 syndrome AND 0xFF)
   + iNumOnes ! unat (drop_bit 16 syndrome AND 0xFF) + iNumOnes ! unat (drop_bit 24 syndrome AND 0xFF)"

text \<open>The data and the number of errors.\<close>

definition GolayDec :: "u32 \<Rightarrow> (u32 \<times> nat) option" where
  "GolayDec received =
     (let received = (drop_bit 1 received AND 0xfffff800) + (received AND 0x7ff)
      in case get_syndrome received of
           None \<Rightarrow> None
         | Some syndrome \<Rightarrow>
             if length dec_tab \<le> unat syndrome then None
             else Some (drop_bit 11 (received XOR dec_tab ! unat syndrome), num_ones syndrome))"

section \<open>Remainders\<close>

text \<open>The remainder by the generator polynomial, one bit after the other.\<close>

fun remainder :: "nat \<Rightarrow> u32 \<Rightarrow> u32" where
  "remainder 0 p = p"
| "remainder (Suc n) p = remainder n (if bit p (11 + n) then p XOR push_bit n 0xC75 else p)"

definition syndrome_bits :: "u32 list" where
  "syndrome_bits = map (\<lambda>i. remainder 12 (push_bit i 1)) [0..<23]"

fun sum_bits :: "u32 list \<Rightarrow> num \<Rightarrow> u32" where
  "sum_bits [] m = 0"
| "sum_bits (t # ts) num.One = t"
| "sum_bits (t # ts) (num.Bit0 m) = sum_bits ts m"
| "sum_bits (t # ts) (num.Bit1 m) = t XOR sum_bits ts m"

lemma remainder_numeral:
  "remainder (numeral k) p =
     remainder (pred_numeral k) (if bit p (11 + pred_numeral k) then p XOR push_bit (pred_numeral k) 0xC75 else p)"
  by (simp only: numeral_eq_Suc remainder.simps)

lemma syndrome_bits: "syndrome_bits = [1, 2, 4, 8, 16, 32, 64, 128, 256, 512, 1024, 1141, 1183, 1355, 1763, 435, 870, 1740, 493,
    986, 1972, 797, 1594]"
proof -
  have "[0..<23] = [0, 1, 2, 3, 4, 5, 6, 7, 8, 9, 10, 11, 12, 13, 14, 15, 16, 17, 18, 19, 20, 21, 22]"
    by (simp add: upt_rec)
  then show ?thesis unfolding syndrome_bits_def by (simp only: list.map) (simp add: remainder_numeral)
qed

lemma length_syndrome_bits [simp]: "length syndrome_bits = 23"
  by (simp add: syndrome_bits_def)

lemma remainder_xor: "remainder n (p XOR q) = remainder n p XOR remainder n q"
proof (induction n arbitrary: p q)
  case (Suc n)
  define h :: "u32 \<Rightarrow> u32" where "h p = (if bit p (11 + n) then push_bit n 0xC75 else 0)" for p
  have step: "remainder (Suc n) p = remainder n (p XOR h p)" for p by (simp add: h_def)
  have "h (p XOR q) = h p XOR h q" by (simp add: h_def bit_xor_iff)
  then have "(p XOR q) XOR h (p XOR q) = (p XOR h p) XOR (q XOR h q)" by (simp add: xor.assoc xor.left_commute)
  then show ?case unfolding step by (simp only: Suc.IH)
qed simp

definition rem23 :: "u32 \<Rightarrow> u32" where
  "rem23 p = remainder 12 (take_bit 23 p)"

lemma rem23_xor: "rem23 (p XOR q) = rem23 p XOR rem23 q"
  by (simp add: rem23_def take_bit_xor remainder_xor)

lemma rem23_0 [simp]: "rem23 0 = 0"
  using rem23_xor [of 0 0] by simp

lemma rem23_high: "23 \<le> k \<Longrightarrow> rem23 (push_bit k p) = 0"
proof -
  assume "23 \<le> k"
  then have "take_bit 23 (push_bit k p) = 0" by (intro bit_word_eqI) (auto simp: bit_simps)
  then show ?thesis using rem23_0 by (simp add: rem23_def)
qed

lemma rem23_bit: "k < 23 \<Longrightarrow> rem23 (push_bit k 1) = syndrome_bits ! k"
proof -
  assume k: "k < 23"
  have "take_bit 23 (push_bit k 1 :: u32) = push_bit k 1"
    by (rule bit_word_eqI) (use k in \<open>auto simp: bit_simps\<close>)
  then show ?thesis using k by (simp add: rem23_def syndrome_bits_def)
qed

lemma double_numeral: "push_bit 1 (numeral m) = (numeral (num.Bit0 m) :: u32)"
  by (subst push_bit_eq_mult, subst power_one_right, subst mult_2_right, subst numeral_Bit0, rule refl)

lemma odd_numeral: "(1 :: u32) XOR numeral (num.Bit0 m) = numeral (num.Bit1 m)"
  by simp

lemma linear_numeral:
  fixes f :: "u32 \<Rightarrow> u32"
  assumes linear: "\<And>p q. f (p XOR q) = f p XOR f q" and high: "\<And>k p. n \<le> k \<Longrightarrow> f (push_bit k p) = 0"
  shows "f (push_bit k (numeral m)) = sum_bits (drop k (map (\<lambda>i. f (push_bit i 1)) [0..<n])) m"
proof (induction m arbitrary: k)
  let ?row = "map (\<lambda>i. f (push_bit i 1)) [0..<n]"
  have drop: "drop k ?row = (if k < n then f (push_bit k 1) # drop (Suc k) ?row else [])" for k
    using Cons_nth_drop_Suc [of k ?row] by (simp del: push_bit_of_1)
  {
    case One
    show ?case using high [of k 1] by (subst drop) auto
  next
    case (Bit0 m)
    have "push_bit k (numeral (num.Bit0 m) :: u32) = push_bit (Suc k) (numeral m)"
      by (simp only: double_numeral [symmetric] push_bit_push_bit) simp
    then show ?case using Bit0 [of "Suc k"] high [of "Suc k" "numeral m"] by (subst drop) auto
  next
    case (Bit1 m)
    have "push_bit k (numeral (num.Bit1 m) :: u32) = push_bit k 1 XOR push_bit k (push_bit 1 (numeral m))"
      by (simp only: odd_numeral [symmetric] double_numeral push_bit_xor)
    then have "push_bit k (numeral (num.Bit1 m) :: u32) = push_bit k 1 XOR push_bit (Suc k) (numeral m)"
      by (simp only: push_bit_push_bit) simp
    then show ?case
      using Bit1 [of "Suc k"] high [of "Suc k" "numeral m"] high [of k 1] linear
      by (subst drop) (auto simp del: push_bit_of_1)
  }
qed

lemma rem23_numeral: "rem23 (push_bit k (numeral m)) = sum_bits (drop k syndrome_bits) m"
proof -
  have "syndrome_bits = map (\<lambda>i. rem23 (push_bit i 1)) [0..<23]"
    unfolding syndrome_bits_def by (rule map_cong) (simp_all add: rem23_bit [unfolded syndrome_bits_def] del: push_bit_of_1)
  then show ?thesis using linear_numeral [of rem23 23 k m, OF rem23_xor rem23_high] by simp
qed

section \<open>The table of error patterns\<close>

definition weight :: "u32 \<Rightarrow> nat" where
  "weight w = card {i. i < 32 \<and> bit w i}"

fun ones_of :: "num \<Rightarrow> nat" where
  "ones_of num.One = 1"
| "ones_of (num.Bit0 m) = ones_of m"
| "ones_of (num.Bit1 m) = Suc (ones_of m)"

lemma weight_double: "weight (push_bit 1 w) \<le> weight w"
proof -
  have "{i. i < 32 \<and> bit (push_bit 1 w) i} \<subseteq> Suc ` {i. i < 32 \<and> bit w i}"
  proof
    fix i
    assume "i \<in> {i. i < 32 \<and> bit (push_bit 1 w) i}"
    then have "1 \<le> i" "bit w (i - 1)" "i - 1 < 32" by (simp_all only: mem_Collect_eq bit_push_bit_iff) linarith
    then show "i \<in> Suc ` {i. i < 32 \<and> bit w i}" by (intro image_eqI [of _ _ "i - 1"]) simp_all
  qed
  from card_mono [OF _ this] show ?thesis unfolding weight_def by (simp add: card_image)
qed

lemma weight_odd: "weight (1 XOR w) \<le> Suc (weight w)"
proof -
  have "{i. i < 32 \<and> bit (1 XOR w) i} \<subseteq> insert 0 {i. i < 32 \<and> bit w i}"
    by (auto simp: bit_simps)
  then have "weight (1 XOR w) \<le> card (insert 0 {i. i < 32 \<and> bit w i})" unfolding weight_def by (intro card_mono) simp_all
  also have "\<dots> \<le> Suc (weight w)" unfolding weight_def by (simp add: card_insert_if)
  finally show ?thesis .
qed

lemma weight_0: "weight 0 = 0"
  by (simp add: weight_def)

lemma weight_numeral: "weight (numeral m) \<le> ones_of m"
proof (induction m)
  case One
  show ?case using weight_odd [of 0] by (simp add: weight_0)
next
  case (Bit0 m)
  then show ?case using weight_double [of "numeral m"] unfolding double_numeral by simp
next
  case (Bit1 m)
  then show ?case using weight_odd [of "numeral (num.Bit0 m)"] weight_double [of "numeral m"]
    unfolding double_numeral odd_numeral by simp
qed

fun pattern_rows :: "u32 \<Rightarrow> u32 list \<Rightarrow> bool" where
  "pattern_rows s [] = True"
| "pattern_rows s (e # es) = (rem23 e = s \<and> e < 0x800000 \<and> weight e \<le> 3 \<and> pattern_rows (s + 1) es)"

lemma light: "ones_of m \<le> 3 \<Longrightarrow> weight (numeral m) \<le> 3" "weight 0 \<le> 3" "weight 1 \<le> 3"
  using weight_numeral [of m] weight_numeral [of num.One] by (simp_all add: weight_def)

lemma rem23_value: "rem23 (numeral m) = sum_bits syndrome_bits m" "rem23 1 = 1"
  using rem23_numeral [of 0 m] rem23_numeral [of 0 num.One] by (simp_all add: syndrome_bits)

lemmas row_check = light rem23_value syndrome_bits

lemma dec_rows_0: "pattern_rows 0 dec_tab_0"
  unfolding dec_tab_0_def by (simp add: row_check)

lemma dec_rows_1: "pattern_rows 256 dec_tab_1"
  unfolding dec_tab_1_def by (simp add: row_check)

lemma dec_rows_2: "pattern_rows 512 dec_tab_2"
  unfolding dec_tab_2_def by (simp add: row_check)

lemma dec_rows_3: "pattern_rows 768 dec_tab_3"
  unfolding dec_tab_3_def by (simp add: row_check)

lemma dec_rows_4: "pattern_rows 1024 dec_tab_4"
  unfolding dec_tab_4_def by (simp add: row_check)

lemma dec_rows_5: "pattern_rows 1280 dec_tab_5"
  unfolding dec_tab_5_def by (simp add: row_check)

lemma dec_rows_6: "pattern_rows 1536 dec_tab_6"
  unfolding dec_tab_6_def by (simp add: row_check)

lemma dec_rows_7: "pattern_rows 1792 dec_tab_7"
  unfolding dec_tab_7_def by (simp add: row_check)

lemma pattern_rows_append: "pattern_rows s (xs @ ys) \<longleftrightarrow> pattern_rows s xs \<and> pattern_rows (s + of_nat (length xs)) ys"
  by (induction xs arbitrary: s) (auto simp: add.assoc add.commute [of 1])

lemma length_dec: "length dec_tab_0 = 256" "length dec_tab_1 = 256" "length dec_tab_2 = 256" "length dec_tab_3 = 256"
  "length dec_tab_4 = 256" "length dec_tab_5 = 256" "length dec_tab_6 = 256" "length dec_tab_7 = 256"
  by (simp_all add: dec_tab_0_def dec_tab_1_def dec_tab_2_def dec_tab_3_def dec_tab_4_def dec_tab_5_def dec_tab_6_def dec_tab_7_def)

lemma length_dec_tab: "length dec_tab = 2048"
  by (simp add: dec_tab_def length_dec)

lemma dec_rows: "pattern_rows 0 dec_tab"
  unfolding dec_tab_def pattern_rows_append length_append length_dec
  using dec_rows_0 dec_rows_1 dec_rows_2 dec_rows_3 dec_rows_4 dec_rows_5 dec_rows_6 dec_rows_7 by simp

lemma pattern_rows_nth:
  "pattern_rows s es \<Longrightarrow> i < length es \<Longrightarrow> rem23 (es ! i) = s + of_nat i \<and> es ! i < 0x800000 \<and> weight (es ! i) \<le> 3"
proof (induction es arbitrary: s i)
  case (Cons e es)
  then show ?case by (cases i) (auto simp: add.assoc)
qed simp

lemma dec_tab_nth:
  assumes "i < 2048"
  shows "rem23 (dec_tab ! i) = of_nat i" "dec_tab ! i < 0x800000" "weight (dec_tab ! i) \<le> 3"
  using pattern_rows_nth [OF dec_rows, of i] assms length_dec_tab by simp_all

lemma dec_tab_distinct: "distinct dec_tab"
  unfolding distinct_conv_nth length_dec_tab
proof (intro allI impI)
  fix i j :: nat
  assume ij: "i < 2048" "j < 2048" "i \<noteq> j"
  have "unat (of_nat k :: u32) = k" if "k < 2048" for k using that by (simp add: unat_of_nat)
  then have "(of_nat i :: u32) \<noteq> of_nat j" using ij by metis
  then show "dec_tab ! i \<noteq> dec_tab ! j" using dec_tab_nth(1) [OF ij(1)] dec_tab_nth(1) [OF ij(2)] by metis
qed

text \<open>There are 1 + 23 + 253 + 1771 patterns of up to three errors in 23 bits, as many as rows: every pattern has
  its row.\<close>

definition bit_set :: "u32 \<Rightarrow> nat set" where
  "bit_set w = {i. i < 32 \<and> bit w i}"

lemma bit_set_inject: "bit_set v = bit_set w \<longleftrightarrow> v = w"
proof
  assume e: "bit_set v = bit_set w"
  show "v = w"
  proof (rule bit_word_eqI)
    fix i assume "i < LENGTH(32)"
    then show "bit v i = bit w i" using eqset_imp_iff [OF e, of i] by (simp add: bit_set_def)
  qed
qed simp

definition patterns :: "u32 set" where
  "patterns = {w. w < 0x800000 \<and> weight w \<le> 3}"

lemma small_bits: "w < 0x800000 \<longleftrightarrow> take_bit 23 w = (w :: u32)"
proof -
  have "take_bit 23 w = w \<longleftrightarrow> take_bit 23 (unat w) = unat w"
    by (simp add: word_unat_eq_iff unsigned_take_bit_eq)
  then show ?thesis by (simp add: word_less_nat_alt take_bit_nat_eq_self_iff)
qed

lemma card_patterns: "card patterns \<le> 2048"
proof -
  let ?sets = "\<lambda>k. {B. B \<subseteq> {..<23 :: nat} \<and> card B = k}"
  have "bit_set ` patterns \<subseteq> ?sets 0 \<union> ?sets 1 \<union> ?sets 2 \<union> ?sets 3"
  proof
    fix B
    assume "B \<in> bit_set ` patterns"
    then obtain w where w: "B = bit_set w" "take_bit 23 w = w" "weight w \<le> 3" by (auto simp: patterns_def small_bits)
    have "B \<subseteq> {..<23}" using w(1,2) by (auto simp: bit_set_def) (metis bit_take_bit_iff)
    moreover have "card B \<le> 3" using w(1,3) by (simp add: weight_def bit_set_def)
    then have "card B \<in> {0, 1, 2, 3}" by auto
    ultimately show "B \<in> ?sets 0 \<union> ?sets 1 \<union> ?sets 2 \<union> ?sets 3" by auto
  qed
  moreover have fin: "finite (?sets k)" for k by simp
  ultimately have "card (bit_set ` patterns) \<le> card (?sets 0 \<union> ?sets 1 \<union> ?sets 2 \<union> ?sets 3)"
    by (intro card_mono) simp_all
  also have "\<dots> \<le> card (?sets 0) + card (?sets 1) + card (?sets 2) + card (?sets 3)"
    by (intro order_trans [OF card_Un_le] add_mono order_refl)
  also have "\<dots> = (23 choose 0) + (23 choose 1) + (23 choose 2) + (23 choose 3)"
    by (simp only: n_subsets finite_lessThan card_lessThan)
  also have "\<dots> = 2048"
  proof -
    have "Suc 22 = 23" "Suc 2 = 3" by simp_all
    then have "23 * (22 choose 2) = (23 choose 3) * (3 :: nat)" using Suc_times_binomial_eq [of 22 2] by (simp only:)
    then show ?thesis by (simp add: choose_two)
  qed
  finally show ?thesis using card_image [of bit_set patterns] by (simp add: inj_on_def bit_set_inject)
qed

lemma patterns_covered: "patterns = set dec_tab"
proof -
  have "set dec_tab \<subseteq> patterns"
    using dec_tab_nth by (auto simp: patterns_def in_set_conv_nth length_dec_tab)
  moreover have "card (set dec_tab) = 2048" using dec_tab_distinct length_dec_tab by (simp add: distinct_card)
  ultimately show ?thesis using card_patterns card_subset_eq [of patterns "set dec_tab"] card_mono by (metis finite order_antisym)
qed

lemma pattern_found:
  assumes "take_bit 23 e = e" and "weight e \<le> 3"
  shows "unat (rem23 e) < 2048" "dec_tab ! unat (rem23 e) = e"
proof -
  have "e \<in> set dec_tab" using assms patterns_covered by (auto simp: patterns_def small_bits)
  then obtain i where i: "i < 2048" "e = dec_tab ! i" by (auto simp: in_set_conv_nth length_dec_tab)
  have "unat (rem23 e) = i" using dec_tab_nth(1) [OF i(1)] i by (simp add: unat_of_nat)
  then show "unat (rem23 e) < 2048" "dec_tab ! unat (rem23 e) = e" using i by simp_all
qed

section \<open>The loop that computes the syndrome\<close>

lemma u32_bit: "bit (x :: u32) n \<Longrightarrow> n < 32"
  using bit_imp_le_length by fastforce

lemma push_1_nonzero: "a < 32 \<Longrightarrow> push_bit a (1 :: u32) \<noteq> 0"
proof
  assume "a < 32" and z: "push_bit a (1 :: u32) = 0"
  have "bit (push_bit a (1 :: u32)) a" using \<open>a < 32\<close> by (simp add: bit_simps del: push_bit_of_1)
  then show False unfolding z by simp
qed

lemma single_bit: "a < 32 \<Longrightarrow> push_bit a 1 AND (p :: u32) \<noteq> 0 \<longleftrightarrow> bit p a"
proof -
  assume a: "a < 32"
  have "push_bit a 1 AND p = (if bit p a then push_bit a 1 else 0)"
    by (rule bit_word_eqI) (use a in \<open>auto simp: bit_simps\<close>)
  then show ?thesis using push_1_nonzero [OF a] by (simp del: push_bit_of_1)
qed

lemma shift_junk_finds:
  assumes "a < 32" and "c \<le> a" and "bit p c" and "\<And>i. c < i \<Longrightarrow> \<not> bit p i"
  shows "shift_junk (push_bit a 1) p = Some (push_bit c 1)"
  using assms(1,2)
proof (induction a)
  case 0
  then show ?case using assms(3) single_bit [of 0 p] by (subst shift_junk.simps) simp
next
  case (Suc a)
  show ?case
  proof (cases "c = Suc a")
    case True
    then show ?thesis using assms(3) single_bit [OF Suc.prems(1), of p] by (subst shift_junk.simps) simp
  next
    case False
    have "push_bit (Suc a) 1 AND p = 0" using single_bit [OF Suc.prems(1), of p] assms(4) [of "Suc a"] False Suc.prems(2)
      by (simp del: push_bit_of_1 push_bit_Suc)
    moreover note push_1_nonzero [OF Suc.prems(1)]
    moreover have "drop_bit 1 (push_bit (Suc a) 1) = (push_bit a 1 :: u32)"
      by (rule bit_word_eqI) (use Suc.prems(1) in \<open>auto simp: bit_simps\<close>)
    ultimately show ?thesis using Suc False by (subst shift_junk.simps) (simp del: push_bit_of_1 push_bit_Suc)
  qed
qed

lemma high_part: "(p :: u32) AND 0xfffff800 \<noteq> 0 \<longleftrightarrow> (\<exists>i\<ge>11. bit p i)"
proof -
  have m: "(0xfffff800 :: u32) = NOT (mask 11)" by (simp add: mask_eq_exp_minus_1)
  have "p AND NOT (mask 11) = 0 \<longleftrightarrow> (\<forall>i\<ge>11. \<not> bit p i)"
    unfolding bit_eq_iff by (auto simp: bit_simps not_less) (blast dest: u32_bit)
  then show ?thesis unfolding m by auto
qed

lemma generator_shift: "b < 12 \<Longrightarrow> generator (push_bit (11 + b) 1) = push_bit b 0xC75"
proof -
  assume "b < 12"
  then have "b \<in> {0, 1, 2, 3, 4, 5, 6, 7, 8, 9, 10, 11}" by (simp, arith)
  then show ?thesis by (auto simp: generator_def)
qed

lemma remainder_low: "\<not> (\<exists>i\<ge>11. bit p i) \<Longrightarrow> remainder n p = p"
  by (induction n) auto

lemma polynomial_bits:
  assumes "b < 12"
  shows "bit (push_bit b (0xC75 :: u32)) i \<Longrightarrow> i \<le> 11 + b" "bit (push_bit b (0xC75 :: u32)) (11 + b)"
proof -
  have t: "take_bit 12 (0xC75 :: u32) = 0xC75" by simp
  assume "bit (push_bit b (0xC75 :: u32)) i"
  then have "b \<le> i" "bit (0xC75 :: u32) (i - b)" by (simp_all only: bit_push_bit_iff)
  then have "i - b < 12" using t by (metis bit_take_bit_iff)
  then show "i \<le> 11 + b" using \<open>b \<le> i\<close> by simp
next
  have "bit (0xC75 :: u32) 11" by simp
  moreover have "11 + b - b = 11" by simp
  ultimately show "bit (push_bit b (0xC75 :: u32)) (11 + b)" using assms unfolding bit_push_bit_iff
    by (simp del: bit_numeral_simps)
qed

lemma reduce_pattern_remainder:
  assumes "take_bit (11 + b) p = p" and "b \<le> Suc n" and "n < 12"
  shows "reduce_pattern (push_bit (11 + n) 1) p = Some (remainder b p)"
  using assms
proof (induction b arbitrary: n p)
  case 0
  then have "\<not> (\<exists>i\<ge>11. bit p i)" by (metis bit_take_bit_iff add_0_right not_le)
  then have "p AND 0xfffff800 = 0" using high_part [of p] by blast
  then show ?case by (subst reduce_pattern.simps) simp
next
  case (Suc b)
  have top: "bit p i \<Longrightarrow> i \<le> 11 + b" for i using Suc.prems(1) by (metis bit_take_bit_iff add_Suc_right less_Suc_eq_le)
  show ?case
  proof (cases "bit p (11 + b)")
    case True
    let ?q = "p XOR push_bit b 0xC75"
    have "shift_junk (push_bit (11 + n) 1) p = Some (push_bit (11 + b) 1)"
      using Suc.prems(2,3) True top by (intro shift_junk_finds) (auto simp: not_le [symmetric])
    moreover have "generator (push_bit (11 + b) 1) = push_bit b 0xC75" using Suc.prems(2,3) by (intro generator_shift) simp
    moreover have "p AND 0xfffff800 \<noteq> 0" using high_part [of p] True le_add1 by blast
    ultimately have "reduce_pattern (push_bit (11 + n) 1) p = reduce_pattern (push_bit (11 + b) 1) ?q"
      by (subst reduce_pattern.simps) simp
    moreover have "take_bit (11 + b) ?q = ?q"
    proof (rule bit_word_eqI)
      fix i
      have "b < 12" using Suc.prems(2,3) by simp
      note g = polynomial_bits [OF this]
      consider "i < 11 + b" | "i = 11 + b" | "11 + b < i" by linarith
      then show "bit (take_bit (11 + b) ?q) i = bit ?q i"
      proof cases
        case 3
        then have "\<not> bit p i" "\<not> bit (push_bit b (0xC75 :: u32)) i" using top [of i] g(1) [of i] by linarith+
        then show ?thesis by (simp only: bit_take_bit_iff bit_xor_iff) simp
      qed (use True g(2) in \<open>simp_all only: bit_take_bit_iff bit_xor_iff, simp_all\<close>)
    qed
    ultimately show ?thesis using Suc.IH [of ?q b] Suc.prems(2,3) True by simp
  next
    case False
    have "take_bit (11 + b) p = p"
    proof (rule bit_word_eqI)
      fix i
      show "bit (take_bit (11 + b) p) i = bit p i" using top [of i] False by (cases "i = 11 + b") (auto simp: bit_take_bit_iff)
    qed
    then show ?thesis using Suc.IH [of p n] Suc.prems(2,3) False by simp
  qed
qed

lemma get_syndrome_rem23: "take_bit 23 p = p \<Longrightarrow> get_syndrome p = Some (rem23 p)"
proof -
  assume p: "take_bit 23 p = p"
  show ?thesis
  proof (cases "0x800 \<le> p")
    case True
    then show ?thesis using reduce_pattern_remainder [of 12 p 11] p by (simp add: get_syndrome_def rem23_def)
  next
    case False
    have "unat p < 2 ^ 11" using False by (simp add: word_le_nat_alt)
    then have "take_bit 11 (unat p) = unat p" by (simp add: take_bit_nat_eq_self_iff)
    then have "take_bit 11 p = p" by (simp add: word_unat_eq_iff unsigned_take_bit_eq)
    then have "\<not> (\<exists>i\<ge>11. bit p i)" by (metis bit_take_bit_iff not_le)
    then show ?thesis using False p remainder_low by (simp add: get_syndrome_def rem23_def)
  qed
qed

section \<open>The table of code words\<close>

text \<open>The decoder squeezes the parity bit out.\<close>

definition squeeze :: "u32 \<Rightarrow> u32" where
  "squeeze w = (drop_bit 1 w AND 0xfffff800) + (w AND 0x7ff)"

lemma squeeze_bits: "squeeze w = push_bit 11 (drop_bit 12 w) OR take_bit 11 w"
proof -
  have "(0xfffff800 :: u32) = NOT (mask 11)" "(0x7ff :: u32) = mask 11" by (simp_all add: mask_eq_exp_minus_1)
  then have s: "squeeze w = (drop_bit 1 w AND NOT (mask 11)) + (w AND mask 11)" by (simp only: squeeze_def)
  also have "\<dots> = (drop_bit 1 w AND NOT (mask 11)) OR (w AND mask 11)"
    by (rule disjunctive_add_eq_or) (rule bit_word_eqI, auto simp: bit_simps)
  also have "\<dots> = push_bit 11 (drop_bit 12 w) OR take_bit 11 w"
    by (rule bit_word_eqI) (auto simp: bit_simps)
  finally show ?thesis .
qed

lemma bit_squeeze: "bit (squeeze w) i \<longleftrightarrow> (if i < 11 then bit w i else bit w (Suc i))"
  unfolding squeeze_bits by (auto simp: bit_simps not_less dest: u32_bit)

lemma squeeze_xor: "squeeze (v XOR w) = squeeze v XOR squeeze w"
  by (rule bit_word_eqI) (simp add: bit_squeeze bit_xor_iff)

lemma squeeze_small:
  assumes "take_bit 24 w = w"
  shows "take_bit 23 (squeeze w) = squeeze w"
proof (rule bit_word_eqI)
  fix i
  have "bit w k \<Longrightarrow> k < 24" for k using assms by (metis bit_take_bit_iff)
  from this [of "Suc i"] show "bit (take_bit 23 (squeeze w)) i = bit (squeeze w) i"
    by (auto simp: bit_take_bit_iff bit_squeeze)
qed

definition code_check :: "u32 \<Rightarrow> u32" where
  "code_check c = rem23 (squeeze c)"

lemma code_check_xor: "code_check (p XOR q) = code_check p XOR code_check q"
  by (simp only: code_check_def squeeze_xor rem23_xor)

lemma code_check_high: "24 \<le> k \<Longrightarrow> code_check (push_bit k p) = 0"
proof -
  assume k: "24 \<le> k"
  have "take_bit 23 (squeeze (push_bit k p)) = 0"
    by (rule bit_word_eqI) (use k in \<open>auto simp: bit_take_bit_iff bit_squeeze bit_push_bit_iff\<close>)
  then show ?thesis using rem23_0 by (simp add: code_check_def rem23_def)
qed

lemma code_check_bits: "map (\<lambda>i. code_check (push_bit i 1)) [0..<24] =
  [1, 2, 4, 8, 16, 32, 64, 128, 256, 512, 1024, 0, 1141, 1183, 1355, 1763, 435, 870, 1740, 493, 986, 1972, 797, 1594]"
proof -
  have bits: "code_check (push_bit i 1) = (if i = 11 then 0 else syndrome_bits ! (if i < 11 then i else i - 1))" if "i < 24" for i
  proof -
    have "squeeze (push_bit i 1) = (if i = 11 then 0 else push_bit (if i < 11 then i else i - 1) 1)"
    proof (rule bit_word_eqI)
      fix n
      show "bit (squeeze (push_bit i 1)) n = bit (if i = 11 then 0 else push_bit (if i < 11 then i else i - 1) 1 :: u32) n"
        if "n < LENGTH(32)"
      proof (cases "i = 11")
        case True
        then show ?thesis by (simp only: bit_squeeze bit_push_bit_iff bit_1_iff bit_0_eq if_True) auto
      next
        case False
        then show ?thesis using that \<open>i < 24\<close>
          by (simp only: bit_squeeze bit_push_bit_iff bit_1_iff if_False) auto
      qed
    qed
    then show ?thesis using that rem23_bit by (auto simp: code_check_def simp del: push_bit_of_1)
  qed
  have row: "[0..<24] = [0, 1, 2, 3, 4, 5, 6, 7, 8, 9, 10, 11, 12, 13, 14, 15, 16, 17, 18, 19, 20, 21, 22, 23]"
    by (simp add: upt_rec)
  have "map (\<lambda>i. code_check (push_bit i 1)) [0..<24] =
    map (\<lambda>i. if i = 11 then 0 else syndrome_bits ! (if i < 11 then i else i - 1)) [0..<24]"
    by (rule map_cong [OF refl]) (simp add: bits del: push_bit_of_1)
  then show ?thesis unfolding row syndrome_bits by simp
qed

lemma code_check_value: "code_check (numeral m) = sum_bits [1, 2, 4, 8, 16, 32, 64, 128, 256, 512, 1024, 0, 1141, 1183, 1355, 1763,
    435, 870, 1740, 493, 986, 1972, 797, 1594] m" "code_check 0 = 0"
  using linear_numeral [of code_check 24 0 m, OF code_check_xor code_check_high] code_check_xor [of 0 0]
  unfolding code_check_bits by simp_all

text \<open>From row \<open>s\<close> on, each row holds a code word of its own index.\<close>

fun code_rows :: "u32 \<Rightarrow> u32 list \<Rightarrow> bool" where
  "code_rows s [] = True"
| "code_rows s (c # cs) = (code_check c = 0 \<and> s \<le> c \<and> c < s + 4096 \<and> code_rows (s + 4096) cs)"

lemma enc_rows_0: "code_rows 0 enc_tab_0"
  unfolding enc_tab_0_def by (simp add: code_check_value)

lemma enc_rows_1: "code_rows 0x100000 enc_tab_1"
  unfolding enc_tab_1_def by (simp add: code_check_value)

lemma enc_rows_2: "code_rows 0x200000 enc_tab_2"
  unfolding enc_tab_2_def by (simp add: code_check_value)

lemma enc_rows_3: "code_rows 0x300000 enc_tab_3"
  unfolding enc_tab_3_def by (simp add: code_check_value)

lemma enc_rows_4: "code_rows 0x400000 enc_tab_4"
  unfolding enc_tab_4_def by (simp add: code_check_value)

lemma enc_rows_5: "code_rows 0x500000 enc_tab_5"
  unfolding enc_tab_5_def by (simp add: code_check_value)

lemma enc_rows_6: "code_rows 0x600000 enc_tab_6"
  unfolding enc_tab_6_def by (simp add: code_check_value)

lemma enc_rows_7: "code_rows 0x700000 enc_tab_7"
  unfolding enc_tab_7_def by (simp add: code_check_value)

lemma enc_rows_8: "code_rows 0x800000 enc_tab_8"
  unfolding enc_tab_8_def by (simp add: code_check_value)

lemma enc_rows_9: "code_rows 0x900000 enc_tab_9"
  unfolding enc_tab_9_def by (simp add: code_check_value)

lemma enc_rows_10: "code_rows 0xa00000 enc_tab_10"
  unfolding enc_tab_10_def by (simp add: code_check_value)

lemma enc_rows_11: "code_rows 0xb00000 enc_tab_11"
  unfolding enc_tab_11_def by (simp add: code_check_value)

lemma enc_rows_12: "code_rows 0xc00000 enc_tab_12"
  unfolding enc_tab_12_def by (simp add: code_check_value)

lemma enc_rows_13: "code_rows 0xd00000 enc_tab_13"
  unfolding enc_tab_13_def by (simp add: code_check_value)

lemma enc_rows_14: "code_rows 0xe00000 enc_tab_14"
  unfolding enc_tab_14_def by (simp add: code_check_value)

lemma enc_rows_15: "code_rows 0xf00000 enc_tab_15"
  unfolding enc_tab_15_def by (simp add: code_check_value)

lemmas enc_rows = enc_rows_0 enc_rows_1 enc_rows_2 enc_rows_3 enc_rows_4 enc_rows_5 enc_rows_6 enc_rows_7 enc_rows_8 enc_rows_9 enc_rows_10 enc_rows_11 enc_rows_12 enc_rows_13 enc_rows_14 enc_rows_15

lemma code_rows_append:
  "code_rows s (xs @ ys) \<longleftrightarrow> code_rows s xs \<and> code_rows (s + of_nat (length xs) * 4096) ys"
  by (induction xs arbitrary: s) (auto simp: algebra_simps)

lemma length_enc: "length enc_tab_0 = 256" "length enc_tab_1 = 256" "length enc_tab_2 = 256" "length enc_tab_3 = 256" "length enc_tab_4 = 256" "length enc_tab_5 = 256" "length enc_tab_6 = 256" "length enc_tab_7 = 256" "length enc_tab_8 = 256" "length enc_tab_9 = 256" "length enc_tab_10 = 256" "length enc_tab_11 = 256" "length enc_tab_12 = 256" "length enc_tab_13 = 256" "length enc_tab_14 = 256" "length enc_tab_15 = 256"
  by (simp_all add: enc_tab_0_def enc_tab_1_def enc_tab_2_def enc_tab_3_def enc_tab_4_def enc_tab_5_def enc_tab_6_def enc_tab_7_def enc_tab_8_def enc_tab_9_def enc_tab_10_def enc_tab_11_def enc_tab_12_def enc_tab_13_def enc_tab_14_def enc_tab_15_def)

lemma length_enc_tab: "length enc_tab = 4096"
  by (simp add: enc_tab_def length_enc)

lemma code_rows_enc_tab: "code_rows 0 enc_tab"
  unfolding enc_tab_def code_rows_append length_append length_enc using enc_rows by simp

lemma code_rows_nth:
  "code_rows s cs \<Longrightarrow> i < length cs \<Longrightarrow>
   code_check (cs ! i) = 0 \<and> s + of_nat i * 4096 \<le> cs ! i \<and> cs ! i < s + of_nat i * 4096 + 4096"
proof (induction cs arbitrary: s i)
  case (Cons c cs)
  show ?case
  proof (cases i)
    case (Suc k)
    have "s + of_nat i * 4096 = (s + 4096) + of_nat k * 4096" using Suc by (simp add: algebra_simps)
    moreover have "code_check (cs ! k) = 0 \<and> (s + 4096) + of_nat k * 4096 \<le> cs ! k \<and> cs ! k < (s + 4096) + of_nat k * 4096 + 4096"
      using Cons.IH [of "s + 4096" k] Cons.prems Suc by simp
    ultimately show ?thesis using Suc by (simp only: nth_Cons_Suc)
  qed (use Cons.prems in simp)
qed simp

lemma enc_tab_nth:
  assumes "d < 4096"
  shows "rem23 (squeeze (enc_tab ! d)) = 0" "unat (enc_tab ! d) div 4096 = d"
proof -
  have r: "code_check (enc_tab ! d) = 0" "of_nat d * 4096 \<le> enc_tab ! d" "enc_tab ! d < of_nat d * 4096 + 4096"
    using code_rows_nth [OF code_rows_enc_tab, of d] assms length_enc_tab by simp_all
  from r(1) show "rem23 (squeeze (enc_tab ! d)) = 0" by (simp add: code_check_def)
  have "unat (of_nat d * 4096 :: u32) = d * 4096" "unat (of_nat d * 4096 + 4096 :: u32) = d * 4096 + 4096"
    using assms by (simp_all add: unat_word_ariths unat_of_nat)
  then have "d * 4096 \<le> unat (enc_tab ! d)" "unat (enc_tab ! d) < d * 4096 + 4096"
    using r(2,3) by (simp_all add: word_le_nat_alt word_less_nat_alt)
  then show "unat (enc_tab ! d) div 4096 = d" by (simp add: div_nat_eqI)
qed

section \<open>Decoding\<close>

lemma unat_drop_bit_12: "drop_bit 12 w = of_nat (unat (w :: u32) div 4096)"
proof -
  have "unat (drop_bit 12 w) = unat w div 4096" by (subst unat_drop_bit_eq) (simp add: drop_bit_eq_div)
  then have "of_nat (unat (drop_bit 12 w)) = (of_nat (unat w div 4096) :: u32)" by (simp del: of_nat_unat)
  then show ?thesis by (simp only: of_nat_unat ucast_id)
qed

lemma GolayDec_squeeze:
  "GolayDec r = (case get_syndrome (squeeze r) of
     None \<Rightarrow> None
   | Some syndrome \<Rightarrow>
       if length dec_tab \<le> unat syndrome then None
       else Some (drop_bit 11 (squeeze r XOR dec_tab ! unat syndrome), num_ones syndrome))"
  by (simp only: GolayDec_def squeeze_def Let_def)

lemma drop_squeeze: "drop_bit 11 (squeeze w) = drop_bit 12 w"
  by (rule bit_word_eqI) (auto simp: bit_drop_bit_eq bit_squeeze)

text \<open>Up to three wrong bits, the parity bit apart, are corrected.\<close>

lemma golay_decodes:
  assumes "d < 4096" and "take_bit 24 e = e" and "weight (squeeze e) \<le> 3"
  shows "GolayDec (enc_tab ! d XOR e) = Some (of_nat d, num_ones (rem23 (squeeze e)))"
proof -
  let ?c = "enc_tab ! d"
  have c: "rem23 (squeeze ?c) = 0" "unat ?c div 4096 = d" using enc_tab_nth [OF assms(1)] by simp_all
  have small: "take_bit 23 (squeeze e) = squeeze e" using squeeze_small [OF assms(2)] .
  note found = pattern_found [OF small assms(3)]
  have "unat ?c div 4096 < 4096" using c(2) assms(1) by simp
  then have "unat ?c < 2 ^ 24" by (simp add: div_less_iff_less_mult)
  then have "take_bit 24 (unat ?c) = unat ?c" by (simp add: take_bit_nat_eq_self_iff)
  then have "take_bit 24 ?c = ?c" by (simp add: word_unat_eq_iff unsigned_take_bit_eq)
  then have "take_bit 23 (squeeze (?c XOR e)) = squeeze (?c XOR e)"
    using squeeze_small small by (simp only: squeeze_xor take_bit_xor)
  then have "get_syndrome (squeeze (?c XOR e)) = Some (rem23 (squeeze e))"
    using get_syndrome_rem23 [of "squeeze (?c XOR e)"] c(1) by (simp only: squeeze_xor rem23_xor xor.left_neutral)
  moreover have "squeeze (?c XOR e) XOR squeeze e = squeeze ?c" by (simp only: squeeze_xor xor.assoc xor_self_eq xor.right_neutral)
  moreover have "drop_bit 11 (squeeze ?c) = of_nat d" using c(2) by (simp add: drop_squeeze unat_drop_bit_12)
  ultimately show ?thesis using found
    by (simp only: GolayDec_squeeze option.case length_dec_tab not_le [symmetric] if_False)
qed

end
