(* ===== verification/H223Level2.thy ===== *)
theory H223Level2
  imports H223Golay
begin

text \<open>
  Level 2 of the H.223 multiplexer (\<^verbatim>\<open>h223/src/level2.cpp\<close>, class \<^verbatim>\<open>Level2PduParcom\<close>): every PDU follows a flag of
  two octets and a header of three, the Golay code word of the length and the multiplex code. With the optional
  header (\<^verbatim>\<open>iOh\<close>) a sixth octet repeats the previous multiplex code. The flag that precedes a PDU is
  complemented when the PDU before it ended a packet.

  The receiver accepts a flag with a few bit errors (\<^verbatim>\<open>CheckFlag\<close>), decodes the header and copies as many octets
  as it says; it indicates a PDU when it has read the two octets that follow it.

  \<^verbatim>\<open>iCopyPduWithSync\<close> is left out: it is false from the start, and only \<^verbatim>\<open>RecoverPduData\<close>, which nothing calls,
  sets it. Of the statistics only the two counters are kept that decide whether an error is reported
  (\<^verbatim>\<open>LOG_STATISTICS\<close> is defined).
\<close>

section \<open>The sender\<close>

record level2_tx =
  tx_iOh :: bool
  iClosingNext :: int
  iPrevMuxTblNum :: int
  iPrevPm :: int

definition new_level2_tx :: "bool \<Rightarrow> level2_tx" where
  "new_level2_tx oh = \<lparr> tx_iOh = oh, iClosingNext = 0, iPrevMuxTblNum = 0, iPrevPm = 0 \<rparr>"

definition level2_header_size :: "bool \<Rightarrow> nat" where
  "level2_header_size oh = (if oh then 6 else 5)"

definition level2_flag :: "bool \<Rightarrow> u8 list" where
  "level2_flag closing = (if closing then [0x1e, 0xb2] else [0xe1, 0x4d])"

definition code_octets :: "u32 \<Rightarrow> u8 list" where
  "code_octets code =
     [ucast (drop_bit 12 code AND 0xff),
      ucast ((drop_bit 20 code AND 0xf) + push_bit 4 (code AND 0xf)),
      ucast (drop_bit 4 code AND 0xff)]"

definition optional_octets :: "level2_tx \<Rightarrow> mux_fault + u8 list" where
  "optional_octets s =
     (if \<not> tx_iOh s then Inr []
      else if iPrevMuxTblNum s < 0 \<or> int (length HecCrc) \<le> iPrevMuxTblNum s then Inl BadIndex
      else Inr [ucast (push_bit 1 (ucast (HecCrc ! nat (iPrevMuxTblNum s)) :: u32)
                  OR push_bit 4 (word_of_int (iPrevMuxTblNum s)) OR word_of_int (iPrevPm s))])"

function level2_stuffing :: "u8 \<Rightarrow> int \<Rightarrow> level2_tx \<Rightarrow> mux_fault + (u8 list \<times> level2_tx)" where
  "level2_stuffing mux_code size_left s =
     (if int (level2_header_size (tx_iOh s)) \<le> size_left then
        (let flag = level2_flag (iClosingNext s \<noteq> 0);
             s1 = s\<lparr>iClosingNext := 0\<rparr>
         in bind_res (optional_octets s1)
              (\<lambda>optional.
                 let s2 = (if tx_iOh s1 then s1\<lparr>iPrevMuxTblNum := uint mux_code, iPrevPm := 0\<rparr> else s1)
                 in bind_res (level2_stuffing mux_code (size_left - int (level2_header_size (tx_iOh s))) s2)
                      (\<lambda>(rest, s3). Inr (flag @ code_octets (enc_tab ! unat mux_code) @ optional @ rest, s3))))
      else Inr ([], s))"
  by pat_completeness auto
termination
  by (relation "measure (\<lambda>(m, n, s). nat n)") (auto simp: level2_header_size_def split: if_splits)

declare level2_stuffing.simps [simp del]

definition level2_GetStuffing :: "int \<Rightarrow> u8 \<Rightarrow> level2_tx \<Rightarrow> mux_fault + (u8 list \<times> level2_tx)" where
  "level2_GetStuffing max_size mux_code s = level2_stuffing mux_code max_size s"

text \<open>\<open>fragments\<close> are the media fragments from the second on; the first one is the header. \<open>MuxTblNum\<close> is an
  \<^verbatim>\<open>int8\<close>.\<close>

definition level2_CompletePdu :: "u8 list list \<Rightarrow> u8 \<Rightarrow> u8 \<Rightarrow> level2_tx \<Rightarrow> mux_fault + (u8 list \<times> level2_tx)" where
  "level2_CompletePdu fragments MuxTblNum pm s =
     (let pdu_size = int (length (concat fragments));
          flag = level2_flag (iClosingNext s \<noteq> 0);
          s1 = s\<lparr>iClosingNext := uint pm\<rparr>;
          code = pdu_size * 16 + sint MuxTblNum
      in if code < 0 \<or> int (length enc_tab) \<le> code then Inl BadIndex
         else bind_res (optional_octets s1)
           (\<lambda>optional.
              Inr (flag @ code_octets (enc_tab ! nat code) @ optional @ concat fragments,
                   if tx_iOh s1 then s1\<lparr>iPrevMuxTblNum := sint MuxTblNum, iPrevPm := uint pm\<rparr> else s1)))"

section \<open>The receiver\<close>

datatype level2_op = ECopyHdr | ECopyData

definition PDU_HDR_SIZE_MAX :: nat where
  "PDU_HDR_SIZE_MAX = 8"

definition LEVEL2_THRESHOLD_SYNC :: nat where
  "LEVEL2_THRESHOLD_SYNC = 15"

definition LEVEL2_THRESHOLD_DATA :: nat where
  "LEVEL2_THRESHOLD_DATA = 13"

definition SYNC_LOSS_INDICATE_THRESHOLD :: u32 where
  "SYNC_LOSS_INDICATE_THRESHOLD = 160"

text \<open>A position is an index of its array.\<close>

record level2_rx =
  iThreshold :: nat
  iOh :: bool
  iUseOh :: bool
  iMpl :: nat
  iMplRemaining :: nat
  iMuxCode :: int
  iClosingCur :: int
  iClosingNextRx :: int
  iPduHdr :: "u8 list"
  iPduHdrPos :: nat
  l2_iCurrentOp :: level2_op
  l2_iPdu :: "u8 list"
  l2_iPduPos :: nat
  iNumFlagsRx :: u32
  iNumSyncLossRx :: u32

definition new_level2_rx :: "bool \<Rightarrow> int \<Rightarrow> u8 list \<Rightarrow> level2_rx" where
  "new_level2_rx oh closing_cur memory =
     \<lparr> iThreshold = LEVEL2_THRESHOLD_SYNC, iOh = oh, iUseOh = False, iMpl = 0, iMplRemaining = 0, iMuxCode = -1,
       iClosingCur = closing_cur, iClosingNextRx = 0, iPduHdr = replicate PDU_HDR_SIZE_MAX 0, iPduHdrPos = 0,
       l2_iCurrentOp = ECopyHdr, l2_iPdu = memory, l2_iPduPos = 0, iNumFlagsRx = 0, iNumSyncLossRx = 0 \<rparr>"

definition UseOh :: "bool \<Rightarrow> level2_rx \<Rightarrow> bool \<times> level2_rx" where
  "UseOh oh s = (iOh s, s\<lparr>iOh := oh\<rparr>)"

definition SetClosingCur :: "int \<Rightarrow> level2_rx \<Rightarrow> level2_rx" where
  "SetClosingCur closing s = s\<lparr>iClosingCur := closing\<rparr>"

definition ResetPdu :: "level2_rx \<Rightarrow> level2_rx" where
  "ResetPdu s = s\<lparr>l2_iPduPos := 0, iMpl := 0, iMplRemaining := 0, iMuxCode := -1, iClosingCur := 0\<rparr>"

definition ResetPduHdr :: "level2_rx \<Rightarrow> level2_rx" where
  "ResetPduHdr s = s\<lparr>iPduHdrPos := 0\<rparr>"

text \<open>\<open>Some closing\<close> when the two octets are a flag.\<close>

definition CheckFlag :: "u8 \<Rightarrow> u8 \<Rightarrow> nat \<Rightarrow> int option" where
  "CheckFlag b0 b1 trsld =
     (let match_cnt = iNumOnes ! unat (b0 XOR 0xE1) + iNumOnes ! unat (b1 XOR 0x4D)
      in if trsld \<le> match_cnt then Some 1 else if match_cnt \<le> 16 - trsld then Some 0 else None)"

definition header_code :: "u8 \<Rightarrow> u8 \<Rightarrow> u8 \<Rightarrow> u32" where
  "header_code b0 b1 b2 =
     push_bit 12 (ucast b0) + push_bit 20 (ucast b1 AND 0xf) + push_bit 4 (ucast b2) + drop_bit 4 (ucast b1)"

text \<open>Length, multiplex code, number of errors. The optional header is read and not used.\<close>

definition ParseHdr :: "u8 list \<Rightarrow> mux_fault + (nat \<times> int \<times> nat)" where
  "ParseHdr hdr =
     (case GolayDec (header_code (hdr ! 2) (hdr ! 3) (hdr ! 4)) of
        None \<Rightarrow> Inl BadIndex
      | Some (code, numErrors) \<Rightarrow>
          let mpl = unat (drop_bit 4 code); muxCode = uint (code AND 0xF)
          in if 255 \<le> mpl then Inr (0, -1, numErrors) else Inr (mpl, muxCode, numErrors))"

definition level2_IndicatePdu :: "level2_rx \<Rightarrow> level2_rx \<times> mux_event list" where
  "level2_IndicatePdu s =
     (let evs = (if iMpl s \<noteq> 0 \<or> 0 < iMuxCode s \<or> iClosingCur s \<noteq> 0 then
                   [MuxPduIndicate (l2_iPdu s) (of_nat (iMpl s)) (iClosingCur s \<noteq> 0) (word_of_int (iMuxCode s))]
                 else []);
          s1 = ResetPdu s
      in (s1\<lparr>iClosingCur := iClosingNextRx s1, iUseOh := False\<rparr>, evs))"

text \<open>The two octets at the place of the flag.\<close>

definition level2_flag_octets :: "level2_rx \<Rightarrow> level2_rx \<times> mux_event list" where
  "level2_flag_octets s =
     (let s1 = s\<lparr>iClosingNextRx := 0\<rparr>
      in case CheckFlag (iPduHdr s1 ! 0) (iPduHdr s1 ! 1) (iThreshold s1) of
           Some closing \<Rightarrow>
             let s2 = s1\<lparr>iClosingNextRx := closing, iNumFlagsRx := iNumFlagsRx s1 + 1\<rparr>;
                 err = (if SYNC_LOSS_INDICATE_THRESHOLD < iNumSyncLossRx s2 then [MuxPduErrIndicate EHeaderErr] else []);
                 (s3, evs) = level2_IndicatePdu (s2\<lparr>iNumSyncLossRx := 0, iThreshold := LEVEL2_THRESHOLD_DATA\<rparr>)
             in (s3, err @ evs)
         | None \<Rightarrow>
             let s2 = s1\<lparr>iThreshold := LEVEL2_THRESHOLD_SYNC,
                        iNumSyncLossRx := (if iNumFlagsRx s1 \<noteq> 0 then iNumSyncLossRx s1 + 1 else iNumSyncLossRx s1)\<rparr>;
                 (s3, evs) = level2_IndicatePdu s2
             in (s3\<lparr>iPduHdr := (iPduHdr s3)[0 := iPduHdr s3 ! 1], iPduHdrPos := iPduHdrPos s3 - 1\<rparr>, evs))"

text \<open>A whole header.\<close>

definition level2_header :: "level2_rx \<Rightarrow> mux_fault + level2_rx" where
  "level2_header s =
     bind_res (ParseHdr (iPduHdr s))
       (\<lambda>(mpl, muxCode, num_errors).
          let s1 = (if num_errors < 4 then s\<lparr>iMpl := mpl, iMuxCode := muxCode\<rparr>
                    else if num_errors = 4 then s\<lparr>iUseOh := True\<rparr>
                    else s\<lparr>iMpl := 0, iMuxCode := -1, l2_iCurrentOp := ECopyHdr\<rparr>);
              s2 = ResetPduHdr s1
          in Inr (if 0 < iMpl s2 then
                    s2\<lparr>iThreshold := LEVEL2_THRESHOLD_DATA, l2_iCurrentOp := ECopyData, iMplRemaining := iMpl s2\<rparr>
                  else s2))"

definition level2_hdr_octet :: "u8 \<Rightarrow> level2_rx \<Rightarrow> mux_fault + (level2_rx \<times> mux_event list)" where
  "level2_hdr_octet x s =
     (if length (iPduHdr s) \<le> iPduHdrPos s then Inl BadIndex
      else
        let s1 = s\<lparr>iPduHdr := (iPduHdr s)[iPduHdrPos s := x], iPduHdrPos := iPduHdrPos s + 1\<rparr>;
            (s2, evs) = (if iPduHdrPos s1 = 2 then level2_flag_octets s1 else (s1, []))
        in if iPduHdrPos s2 = level2_header_size (iOh s2) then
             bind_res (level2_header s2) (\<lambda>s3. Inr (s3, evs))
           else Inr (s2, evs))"

function level2_Parse :: "u8 list \<Rightarrow> level2_rx \<Rightarrow> mux_fault + (level2_rx \<times> mux_event list)" where
  "level2_Parse bs s =
     (case bs of
        [] \<Rightarrow> Inr (s, [])
      | x # xs \<Rightarrow>
          (case l2_iCurrentOp s of
             ECopyHdr \<Rightarrow>
               bind_res (level2_hdr_octet x s)
                 (\<lambda>(s1, evs). bind_res (level2_Parse xs s1) (\<lambda>(s2, evs'). Inr (s2, evs @ evs')))
           | ECopyData \<Rightarrow>
               let sz = (if iMplRemaining s < length bs then iMplRemaining s else length bs)
               in if length (l2_iPdu s) < l2_iPduPos s + sz then Inl BadIndex
                  else
                    let s1 = s\<lparr>l2_iPdu := take (l2_iPduPos s) (l2_iPdu s) @ take sz bs @ drop (l2_iPduPos s + sz) (l2_iPdu s),
                              l2_iPduPos := l2_iPduPos s + sz, iMplRemaining := iMplRemaining s - sz\<rparr>;
                        s2 = (if iMplRemaining s1 = 0 then s1\<lparr>l2_iCurrentOp := ECopyHdr\<rparr> else s1)
                    in level2_Parse (drop sz bs) s2))"
  by pat_completeness auto
termination
  by (relation "measures [\<lambda>(bs, s). length bs, \<lambda>(bs, s). case l2_iCurrentOp s of ECopyHdr \<Rightarrow> 0 | ECopyData \<Rightarrow> 1]") auto

declare level2_Parse.simps [simp del]

end
