(* ===== verification/H223Level2Props.thy ===== *)
theory H223Level2Props
  imports H223Level2
begin

text \<open>
  Level 2: what is sent arrives although flags and check bits are disturbed; a header with an error in its data
  bits, which the decoder corrects, is dropped.
\<close>

section \<open>Counting ones\<close>

definition ones :: "'a::len word \<Rightarrow> nat" where
  "ones w = card {i. bit w i}"

lemma finite_bits [simp]: "finite {i. bit (w :: 'a::len word) i}"
  by (rule finite_subset [of _ "{..<LENGTH('a)}"]) (auto dest: bit_imp_le_length)

lemma finite_nat_bits [simp]: "finite {i. bit (m :: nat) i}"
proof -
  have "{i. bit m i} \<subseteq> {..<Suc m}"
  proof
    fix i
    assume "i \<in> {i. bit m i}"
    then have "odd (m div 2 ^ i)" by (simp add: bit_iff_odd)
    then have "m div 2 ^ i \<noteq> 0" by (metis even_zero)
    then have "2 ^ i \<le> m" by (metis div_less not_le)
    moreover have "i < 2 ^ i" by (rule less_exp)
    ultimately show "i \<in> {..<Suc m}" unfolding lessThan_iff by linarith
  qed
  then show ?thesis by (rule finite_subset) simp
qed

lemma count_ones_card: "count_ones m = card {i. bit m i}"
proof (induction m rule: count_ones.induct)
  case (1 m)
  show ?case
  proof (cases "m = 0")
    case True
    then show ?thesis by (subst count_ones.simps) (simp add: bot_fun_def)
  next
    case False
    have split: "{i. bit m i} = {i :: nat. i = 0 \<and> odd m} \<union> Suc ` {i. bit (m div 2) i}"
    proof (rule set_eqI)
      fix i
      show "i \<in> {i. bit m i} \<longleftrightarrow> i \<in> {i :: nat. i = 0 \<and> odd m} \<union> Suc ` {i. bit (m div 2) i}"
        by (cases i) (auto simp: bit_0 bit_Suc)
    qed
    have "card {i. bit m i} = card ({i :: nat. i = 0 \<and> odd m} \<union> Suc ` {i. bit (m div 2) i})"
      using split by (rule arg_cong)
    also have "\<dots> = card {i :: nat. i = 0 \<and> odd m} + card (Suc ` {i. bit (m div 2) i})"
    proof (rule card_Un_disjoint)
      show "finite (Suc ` {i. bit (m div 2) i})" by (intro finite_imageI finite_nat_bits)
    qed auto
    also have "\<dots> = m mod 2 + card {i. bit (m div 2) i}"
      by (cases "odd m") (simp_all add: card_image odd_iff_mod_2_eq_one even_iff_mod_2_eq_zero)
    finally show ?thesis using 1 False by (subst count_ones.simps) simp
  qed
qed

lemma table_ones: "iNumOnes ! unat w = ones (w :: u8)"
proof -
  have "unat w < 256" using unsigned_less [of w] by simp
  then have "iNumOnes ! unat w = card {i. bit (unat w) i}" by (simp add: iNumOnes_def count_ones_card)
  moreover have "bit (unat w) i = bit w i" for i by (auto simp: bit_unsigned_iff dest: bit_imp_le_length)
  ultimately show ?thesis by (simp add: ones_def)
qed

lemma ones_xor_ff: "ones (w XOR 0xff) = 8 - ones (w :: u8)"
proof -
  have ff: "(0xff :: u8) = - 1" by simp
  have "bit (w XOR 0xff) i \<longleftrightarrow> i < 8 \<and> \<not> bit w i" for i
    unfolding ff by (auto simp: bit_xor_iff bit_minus_1_iff bit_not_iff dest: bit_imp_le_length)
  then have "{i. bit (w XOR 0xff) i} = {..<8} - {i. bit w i}" by auto
  moreover have "{i. bit w i} \<subseteq> {..<8}" by (auto dest: bit_imp_le_length)
  ultimately show ?thesis by (simp add: ones_def card_Diff_subset)
qed

lemma ones_le_8: "ones (w :: u8) \<le> 8"
proof -
  have "{i. bit w i} \<subseteq> {..<8}" by (auto dest: bit_imp_le_length)
  from card_mono [OF _ this] show ?thesis by (simp add: ones_def)
qed

lemma weight_ones: "weight w = ones w"
proof -
  have "{i. i < 32 \<and> bit w i} = {i. bit w i}" by (auto dest: bit_imp_le_length)
  then show ?thesis by (simp add: weight_def ones_def)
qed

lemma num_ones_weight: "num_ones w = weight w"
proof -
  have octet: "iNumOnes ! unat (drop_bit k w AND 0xFF) = card {i. bit w i \<and> k \<le> i \<and> i < k + 8}" for k
  proof -
    have m: "(0xFF :: u32) = mask 8" by (simp add: mask_eq_exp_minus_1)
    have u: "unat (drop_bit k w AND 0xFF) = unat (ucast (drop_bit k w) :: u8)"
      unfolding m by (simp add: unsigned_ucast_eq take_bit_eq_mask [symmetric] unsigned_take_bit_eq)
    have "{i. bit w i \<and> k \<le> i \<and> i < k + 8} = (\<lambda>i. k + i) ` {i. bit (ucast (drop_bit k w) :: u8) i}"
    proof (rule set_eqI)
      fix i
      show "i \<in> {i. bit w i \<and> k \<le> i \<and> i < k + 8} \<longleftrightarrow> i \<in> (\<lambda>i. k + i) ` {i. bit (ucast (drop_bit k w) :: u8) i}"
      proof
        assume "i \<in> {i. bit w i \<and> k \<le> i \<and> i < k + 8}"
        then show "i \<in> (\<lambda>i. k + i) ` {i. bit (ucast (drop_bit k w) :: u8) i}"
          by (intro image_eqI [of _ _ "i - k"]) (auto simp: bit_simps dest: u32_bit)
      qed (auto simp: bit_simps dest: u32_bit)
    qed
    then show ?thesis by (simp only: u table_ones ones_def) (simp add: card_image)
  qed
  define B where "B k = {i. bit w i \<and> k \<le> i \<and> i < k + 8}" for k
  have fin: "finite (B k)" for k unfolding B_def by (rule finite_subset [OF _ finite_bits [of w]]) auto
  have "{i. bit w i} = B 0 \<union> (B 8 \<union> (B 16 \<union> B 24))" unfolding B_def by (auto dest: u32_bit)
  moreover have "B 16 \<inter> B 24 = {}" "B 8 \<inter> (B 16 \<union> B 24) = {}" "B 0 \<inter> (B 8 \<union> (B 16 \<union> B 24)) = {}"
    unfolding B_def by auto
  ultimately have "ones w = card (B 0) + (card (B 8) + (card (B 16) + card (B 24)))"
    unfolding ones_def by (simp add: card_Un_disjoint fin)
  then show ?thesis
    unfolding num_ones_def weight_ones using octet [of 0] octet [of 8] octet [of 16] octet [of 24]
    by (simp add: B_def)
qed

section \<open>The number of errors\<close>

text \<open>The syndrome has at most three ones only if no data bit is wrong.\<close>

lemma low_pattern: "take_bit 11 e = e \<Longrightarrow> rem23 e = e"
proof -
  assume "take_bit 11 e = e"
  then have low: "bit e i \<Longrightarrow> i < 11" for i by (metis bit_take_bit_iff)
  then have "bit e i \<Longrightarrow> i < 23" for i using less_trans [of i 11 23] by simp
  then have "take_bit 23 e = e" by (intro bit_word_eqI) (auto simp: bit_take_bit_iff)
  moreover have "\<not> (\<exists>i\<ge>11. bit e i)" using low by (meson not_le)
  ultimately show ?thesis using remainder_low [of e 12] by (simp add: rem23_def)
qed

lemma error_count:
  assumes "take_bit 23 e = e" and "weight e \<le> 3"
  shows "num_ones (rem23 e) \<le> 3 \<longleftrightarrow> take_bit 11 e = e"
proof
  assume "take_bit 11 e = e"
  then show "num_ones (rem23 e) \<le> 3" using assms(2) by (simp add: low_pattern num_ones_weight)
next
  let ?s = "rem23 e"
  assume "num_ones ?s \<le> 3"
  have "unat ?s < 2 ^ 11" using pattern_found(1) [OF assms] by simp
  then have "take_bit 11 (unat ?s) = unat ?s" by (simp add: take_bit_nat_eq_self_iff)
  then have low: "take_bit 11 ?s = ?s" by (simp add: word_unat_eq_iff unsigned_take_bit_eq)
  then have "take_bit 23 ?s = take_bit (min 23 11) ?s" by (metis take_bit_take_bit)
  then have "take_bit 23 ?s = ?s" using low by simp
  from pattern_found(2) [OF this] have "dec_tab ! unat (rem23 ?s) = ?s"
    using \<open>num_ones ?s \<le> 3\<close> by (simp add: num_ones_weight)
  then have "?s = e" using pattern_found(2) [OF assms] low_pattern [OF low] by simp
  then show "take_bit 11 e = e" using low by simp
qed

section \<open>Flags and headers\<close>

lemma flag_recognised:
  assumes "ones n0 + ones n1 + trsld \<le> 16" and "8 < trsld"
  shows "CheckFlag ((level2_flag closing ! 0) XOR n0) ((level2_flag closing ! 1) XOR n1) trsld = Some (of_bool closing)"
proof -
  have flip: "(0x1e XOR n0) XOR 0xE1 = n0 XOR (0xff :: u8)" "(0xb2 XOR n1) XOR 0x4D = n1 XOR (0xff :: u8)"
    "(0xe1 XOR n0) XOR 0xE1 = n0" "(0x4d XOR n1) XOR 0x4D = n1"
    by (simp_all add: xor.commute [of _ n0] xor.commute [of _ n1] xor.assoc)
  have "\<not> trsld \<le> ones n0 + ones n1" using assms by linarith
  moreover have "trsld \<le> (8 - ones n0) + (8 - ones n1)"
    using assms ones_le_8 [of n0] ones_le_8 [of n1] by linarith
  ultimately show ?thesis using assms
    by (auto simp: CheckFlag_def level2_flag_def flip table_ones ones_xor_ff Let_def)
qed

lemma header_code_or:
  "header_code b0 b1 b2 = push_bit 12 (ucast b0) OR push_bit 20 (ucast b1 AND 0xf) OR push_bit 4 (ucast b2) OR drop_bit 4 (ucast b1)"
  (is "_ = ?a OR ?b OR ?c OR ?d")
proof -
  have f: "(0xf :: u32) = mask 4" by (simp add: mask_eq_exp_minus_1)
  have "?a + ?b = ?a OR ?b" unfolding f
    by (intro disjunctive_add_eq_or bit_word_eqI) (auto simp: bit_simps octet_high)
  moreover have "(?a OR ?b) + ?c = (?a OR ?b) OR ?c" unfolding f
    by (intro disjunctive_add_eq_or bit_word_eqI) (auto simp: bit_simps octet_high)
  moreover have "(?a OR ?b OR ?c) + ?d = (?a OR ?b OR ?c) OR ?d" unfolding f
    by (intro disjunctive_add_eq_or bit_word_eqI) (auto simp: bit_simps octet_high)
  ultimately show ?thesis by (simp only: header_code_def or.assoc)
qed

lemma bit_header_code:
  "bit (header_code b0 b1 b2) i \<longleftrightarrow>
     (if i < 4 then bit b1 (4 + i) else if i < 12 then bit b2 (i - 4) else if i < 20 then bit b0 (i - 12)
      else i < 24 \<and> bit b1 (i - 20))"
proof -
  have f: "(0xf :: u32) = mask 4" by (simp add: mask_eq_exp_minus_1)
  show ?thesis unfolding header_code_or f by (auto simp: bit_simps octet_high dest: octet_bit)
qed

lemma header_code_xor:
  "header_code (a0 XOR b0) (a1 XOR b1) (a2 XOR b2) = header_code a0 a1 a2 XOR header_code b0 b1 b2"
  by (rule bit_word_eqI) (auto simp: bit_header_code bit_xor_iff)

lemma header_code_small: "take_bit 24 (header_code b0 b1 b2) = header_code b0 b1 b2"
  by (rule bit_word_eqI) (auto simp: bit_take_bit_iff bit_header_code)

lemma header_code_octets:
  assumes "take_bit 24 c = c"
  shows "header_code (code_octets c ! 0) (code_octets c ! 1) (code_octets c ! 2) = c"
proof (rule bit_word_eqI)
  fix i
  have m: "(0xff :: u32) = mask 8" "(0xf :: u32) = mask 4" by (simp_all add: mask_eq_exp_minus_1)
  have "(drop_bit 20 c AND 0xf) + push_bit 4 (c AND 0xf) = (drop_bit 20 c AND 0xf) OR push_bit 4 (c AND 0xf)"
    unfolding m by (intro disjunctive_add_eq_or bit_word_eqI) (auto simp: bit_simps)
  then have o: "code_octets c = [ucast (drop_bit 12 c AND 0xff), ucast ((drop_bit 20 c AND 0xf) OR push_bit 4 (c AND 0xf)),
      ucast (drop_bit 4 c AND 0xff)]" by (simp only: code_octets_def)
  have "bit c i \<Longrightarrow> i < 24" using assms by (metis bit_take_bit_iff)
  then show "bit (header_code (code_octets c ! 0) (code_octets c ! 1) (code_octets c ! 2)) i = bit c i"
    unfolding bit_header_code o m by (auto simp: bit_simps)
qed

lemma enc_tab_small: "d < 4096 \<Longrightarrow> take_bit 24 (enc_tab ! d) = enc_tab ! d"
proof -
  assume "d < 4096"
  then have "unat (enc_tab ! d) div 4096 < 4096" using enc_tab_nth(2) by simp
  then have "unat (enc_tab ! d) < 2 ^ 24" by (simp add: div_less_iff_less_mult)
  then have "take_bit 24 (unat (enc_tab ! d)) = unat (enc_tab ! d)" by (simp add: take_bit_nat_eq_self_iff)
  then show ?thesis by (simp add: word_unat_eq_iff unsigned_take_bit_eq)
qed

section \<open>Steps of the receiver\<close>

text \<open>The receiver goes from \<open>s\<close> to \<open>t\<close> over the octets \<open>xs\<close>, whatever follows them.\<close>

definition reads :: "level2_rx \<Rightarrow> u8 list \<Rightarrow> level2_rx \<Rightarrow> mux_event list \<Rightarrow> bool" where
  "reads s xs t evs \<longleftrightarrow>
     (\<forall>rest. level2_Parse (xs @ rest) s = bind_res (level2_Parse rest t) (\<lambda>(u, e). Inr (u, evs @ e)))"

lemma parse_Nil [simp]: "level2_Parse [] s = Inr (s, [])"
  by (simp add: level2_Parse.simps)

lemma reads_Nil: "reads s [] s []"
  by (simp add: reads_def bind_res_def split: sum.splits)

lemma reads_append: "reads s xs t evs \<Longrightarrow> reads t ys u evs' \<Longrightarrow> reads s (xs @ ys) u (evs @ evs')"
  by (auto simp: reads_def bind_res_def split: sum.splits)

lemma reads_all: "reads s xs t evs \<Longrightarrow> level2_Parse xs s = Inr (t, evs)"
  unfolding reads_def by (drule spec [of _ "[]"]) simp

lemma reads_hdr: "l2_iCurrentOp s = ECopyHdr \<Longrightarrow> level2_hdr_octet x s = Inr (t, evs) \<Longrightarrow> reads s [x] t evs"
  unfolding reads_def by (subst level2_Parse.simps) simp

lemma reads_hdr_Cons:
  "l2_iCurrentOp s = ECopyHdr \<Longrightarrow> level2_hdr_octet x s = Inr (t, evs) \<Longrightarrow> reads t xs u evs' \<Longrightarrow> reads s (x # xs) u (evs @ evs')"
  using reads_append [OF reads_hdr] by fastforce

lemma reads_data:
  assumes "l2_iCurrentOp s = ECopyData" and "iMplRemaining s = length D" and "D \<noteq> []"
    and "l2_iPduPos s + length D \<le> length (l2_iPdu s)"
  shows "reads s D (s\<lparr>l2_iPdu := take (l2_iPduPos s) (l2_iPdu s) @ D @ drop (l2_iPduPos s + length D) (l2_iPdu s),
       l2_iPduPos := l2_iPduPos s + length D, iMplRemaining := 0, l2_iCurrentOp := ECopyHdr\<rparr>) []"
  unfolding reads_def
proof
  fix rest
  have "D @ rest \<noteq> []" using assms(3) by simp
  then obtain x xs where x: "D @ rest = x # xs" by (cases "D @ rest") auto
  have sz: "(if length D < length (D @ rest) then length D else length (D @ rest)) = length D" by simp
  show "level2_Parse (D @ rest) s =
    bind_res (level2_Parse rest (s\<lparr>l2_iPdu := take (l2_iPduPos s) (l2_iPdu s) @ D @ drop (l2_iPduPos s + length D) (l2_iPdu s),
       l2_iPduPos := l2_iPduPos s + length D, iMplRemaining := 0, l2_iCurrentOp := ECopyHdr\<rparr>)) (\<lambda>(u, e). Inr (u, [] @ e))"
    using assms
    by (subst level2_Parse.simps) (simp only: x list.case, simp add: x [symmetric] sz bind_res_def Let_def split: sum.splits)
qed

text \<open>Between two frames: the PDU that waits for its indication, its closing flag and its multiplex code.\<close>

type_synonym pending = "u8 list \<times> bool \<times> int"

fun level2_ready :: "bool \<Rightarrow> level2_rx \<Rightarrow> pending \<Rightarrow> bool" where
  "level2_ready oh s (P, closing, code) \<longleftrightarrow>
     l2_iCurrentOp s = ECopyHdr \<and> iOh s = oh \<and> iPduHdrPos s = 0 \<and> length (iPduHdr s) = PDU_HDR_SIZE_MAX
   \<and> length (l2_iPdu s) = H223_MAX_DEMUX_PDU_SIZE \<and> iMpl s = length P \<and> take (length P) (l2_iPdu s) = P \<and> length P \<le> 254
   \<and> iMuxCode s = code \<and> (iClosingCur s \<noteq> 0) = closing \<and> iNumSyncLossRx s = 0"

fun pending_shown :: "pending \<Rightarrow> (u8 list \<times> bool \<times> u32) option list" where
  "pending_shown (P, closing, code) = (if P \<noteq> [] \<or> 0 < code \<or> closing then [Some (P, closing, word_of_int code)] else [])"

lemma length_8: "length xs = 8 \<longleftrightarrow> (\<exists>a b c d e f g h. xs = [a, b, c, d, e, f, g, h])"
  by (auto simp: eval_nat_numeral length_Suc_conv)

definition in_header :: "bool \<Rightarrow> bool \<Rightarrow> level2_rx \<Rightarrow> bool" where
  "in_header oh closing s \<longleftrightarrow>
     l2_iCurrentOp s = ECopyHdr \<and> iOh s = oh \<and> iPduHdrPos s = 2 \<and> length (iPduHdr s) = PDU_HDR_SIZE_MAX
   \<and> length (l2_iPdu s) = H223_MAX_DEMUX_PDU_SIZE \<and> iMpl s = 0 \<and> l2_iPduPos s = 0 \<and> iMuxCode s = -1
   \<and> (iClosingCur s \<noteq> 0) = closing \<and> iNumSyncLossRx s = 0 \<and> iThreshold s = LEVEL2_THRESHOLD_DATA"

lemma flag_read:
  assumes "level2_ready oh s p" and "CheckFlag f0 f1 (iThreshold s) = Some (of_bool closing)"
  shows "\<exists>t evs. reads s [f0, f1] t evs \<and> in_header oh closing t \<and> map shown evs = pending_shown p"
proof -
  obtain P cl code where p: "p = (P, cl, code)" by (cases p)
  obtain a b c d e f g h where hdr: "iPduHdr s = [a, b, c, d, e, f, g, h]"
    using assms(1) unfolding p by (auto simp: length_8 PDU_HDR_SIZE_MAX_def)
  let ?s1 = "s\<lparr>iPduHdr := [f0, b, c, d, e, f, g, h], iPduHdrPos := 1\<rparr>"
  have s1: "level2_hdr_octet f0 s = Inr (?s1, [])"
    using assms(1) hdr unfolding p by (auto simp: level2_hdr_octet_def level2_header_size_def)
  have n: "unat (of_nat (length P) :: u16) = length P" using assms(1) unfolding p by (simp add: unat_of_nat)
  obtain t evs where t: "level2_hdr_octet f1 ?s1 = Inr (t, evs)" "in_header oh closing t" "map shown evs = pending_shown p"
    using assms hdr n unfolding p
    by (fastforce simp: level2_hdr_octet_def level2_flag_octets_def level2_IndicatePdu_def ResetPdu_def Let_def
        level2_header_size_def in_header_def PDU_HDR_SIZE_MAX_def SYNC_LOSS_INDICATE_THRESHOLD_def)
  have "l2_iCurrentOp s = ECopyHdr" "l2_iCurrentOp ?s1 = ECopyHdr" using assms(1) unfolding p by simp_all
  then have "reads s [f0, f1] t ([] @ evs)" using s1 reads_hdr [OF _ t(1)] by (intro reads_hdr_Cons) auto
  then show ?thesis using t by auto
qed

text \<open>A header whose decoded word has length \<open>len\<close> and multiplex code \<open>num\<close>.\<close>

lemma header_parsed:
  assumes "GolayDec (header_code (hdr ! 2) (hdr ! 3) (hdr ! 4)) = Some (of_nat (len * 16 + num), k)" and "num < 16" and "len \<le> 254"
  shows "ParseHdr hdr = Inr (len, int num, k)"
proof -
  let ?w = "of_nat (len * 16 + num) :: u32"
  have u: "unat ?w = len * 16 + num" using assms(2,3) by (subst unat_of_nat) simp
  have f: "(0xf :: u32) = mask 4" by (simp add: mask_eq_exp_minus_1)
  have "unat (drop_bit 4 ?w) = (len * 16 + num) div 16"
    by (subst unat_drop_bit_eq) (simp only: u, simp add: drop_bit_eq_div)
  then have len: "unat (drop_bit 4 ?w) = len" using assms(2) by simp
  have "?w AND 0xf = take_bit 4 ?w" unfolding f by (simp only: take_bit_eq_mask)
  then have "unat (?w AND 0xf) = (len * 16 + num) mod 16" by (simp only: unsigned_take_bit_eq u) (simp add: take_bit_eq_mod)
  then have "unat (?w AND 0xf) = num" using assms(2) by simp
  then have num: "uint (?w AND 0xf) = int num" by (metis uint_nat)
  have "\<not> 255 \<le> len" using assms(3) by simp
  then show ?thesis unfolding ParseHdr_def assms(1) Let_def by (simp only: option.case prod.case len num if_False)
qed

definition after_header :: "bool \<Rightarrow> bool \<Rightarrow> nat \<Rightarrow> int \<Rightarrow> level2_rx \<Rightarrow> bool" where
  "after_header oh closing len num s \<longleftrightarrow>
     iOh s = oh \<and> iPduHdrPos s = 0 \<and> length (iPduHdr s) = PDU_HDR_SIZE_MAX
   \<and> length (l2_iPdu s) = H223_MAX_DEMUX_PDU_SIZE \<and> iMpl s = len \<and> l2_iPduPos s = 0 \<and> iMuxCode s = num
   \<and> (iClosingCur s \<noteq> 0) = closing \<and> iNumSyncLossRx s = 0 \<and> iThreshold s = LEVEL2_THRESHOLD_DATA
   \<and> (if len = 0 then l2_iCurrentOp s = ECopyHdr else l2_iCurrentOp s = ECopyData \<and> iMplRemaining s = len)"

text \<open>With four or more errors the header counts for nothing.\<close>

lemma header_read:
  assumes "in_header oh closing s" and "length xs = level2_header_size oh - 2"
    and parsed: "\<And>f0 f1 ys. ParseHdr (f0 # f1 # xs ! 0 # xs ! 1 # xs ! 2 # ys) = Inr (len, num, k)"
  shows "\<exists>t. reads s xs t [] \<and> after_header oh closing (if k < 4 then len else 0) (if k < 4 then num else -1) t"
proof -
  obtain a b c d e f g h where hdr: "iPduHdr s = [a, b, c, d, e, f, g, h]"
    using assms(1) unfolding in_header_def by (auto simp: length_8 PDU_HDR_SIZE_MAX_def)
  have s: "l2_iCurrentOp s = ECopyHdr" "iOh s = oh" "iPduHdrPos s = 2" using assms(1) by (simp_all add: in_header_def)
  obtain c0 c1 c2 ys where xs: "xs = c0 # c1 # c2 # ys" "length ys = level2_header_size oh - 5"
    using assms(2) by (auto simp: level2_header_size_def eval_nat_numeral length_Suc_conv split: if_splits)
  let ?s1 = "s\<lparr>iPduHdr := [a, b, c0, d, e, f, g, h], iPduHdrPos := 3\<rparr>"
  let ?s2 = "s\<lparr>iPduHdr := [a, b, c0, c1, e, f, g, h], iPduHdrPos := 4\<rparr>"
  have o1: "level2_hdr_octet c0 s = Inr (?s1, [])" using s hdr by (simp add: level2_hdr_octet_def level2_header_size_def)
  have o2: "level2_hdr_octet c1 ?s1 = Inr (?s2, [])" using s hdr by (simp add: level2_hdr_octet_def level2_header_size_def)
  have op: "l2_iCurrentOp ?s1 = ECopyHdr" "l2_iCurrentOp ?s2 = ECopyHdr" using s by simp_all
  have p: "ParseHdr (f0 # f1 # c0 # c1 # c2 # zs) = Inr (len, num, k)" for f0 f1 zs using parsed [of f0 f1 zs] xs by simp
  have "\<exists>t. reads ?s2 (c2 # ys) t [] \<and> after_header oh closing (if k < 4 then len else 0) (if k < 4 then num else -1) t"
  proof (cases oh)
    case False
    then have ys: "ys = []" using xs(2) by (simp add: level2_header_size_def)
    obtain t where "level2_hdr_octet c2 ?s2 = Inr (t, [])"
        "after_header oh closing (if k < 4 then len else 0) (if k < 4 then num else -1) t"
      using assms(1) s hdr p False
      by (auto simp: level2_hdr_octet_def level2_header_size_def level2_header_def ResetPduHdr_def after_header_def in_header_def
          PDU_HDR_SIZE_MAX_def Let_def)
    then show ?thesis using reads_hdr [OF op(2)] ys by blast
  next
    case True
    then obtain y where ys: "ys = [y]" using xs(2) by (auto simp: level2_header_size_def length_Suc_conv)
    let ?s3 = "s\<lparr>iPduHdr := [a, b, c0, c1, c2, f, g, h], iPduHdrPos := 5\<rparr>"
    have o3: "level2_hdr_octet c2 ?s2 = Inr (?s3, [])" using s hdr True by (simp add: level2_hdr_octet_def level2_header_size_def)
    obtain t where t: "level2_hdr_octet y ?s3 = Inr (t, [])"
        "after_header oh closing (if k < 4 then len else 0) (if k < 4 then num else -1) t"
      using assms(1) s hdr p True
      by (auto simp: level2_hdr_octet_def level2_header_size_def level2_header_def ResetPduHdr_def after_header_def in_header_def
          PDU_HDR_SIZE_MAX_def Let_def)
    have "l2_iCurrentOp ?s3 = ECopyHdr" using s by simp
    from reads_hdr_Cons [OF op(2) o3 reads_hdr [OF this t(1)]] show ?thesis using t(2) ys by auto
  qed
  then show ?thesis using reads_hdr_Cons [OF s(1) o1 reads_hdr_Cons [OF op(1) o2]] unfolding xs by fastforce
qed

section \<open>Frames\<close>

text \<open>A frame is a payload, a multiplex code and a packet marker; stuffing is frames without payload. \<open>noise\<close> is
  what the line adds to the octets of a frame.\<close>

type_synonym frame = "u8 list \<times> u8 \<times> u8"

abbreviation xor_octets :: "u8 list \<Rightarrow> u8 list \<Rightarrow> u8 list" where
  "xor_octets \<equiv> map2 (XOR)"

definition flag_errors :: "u8 list \<Rightarrow> nat" where
  "flag_errors noise = iNumOnes ! unat (noise ! 0) + iNumOnes ! unat (noise ! 1)"

fun frame_ok :: "frame \<Rightarrow> bool" where
  "frame_ok (P, num, pm) = (num < 16 \<and> length P \<le> 254)"

fun noise_ok :: "bool \<Rightarrow> frame \<Rightarrow> u8 list \<Rightarrow> bool" where
  "noise_ok oh (P, num, pm) noise =
     (length noise = level2_header_size oh + length P \<and> flag_errors noise \<le> 3
    \<and> (let e = header_code (noise ! 2) (noise ! 3) (noise ! 4) in e < 4096 \<and> num_ones (squeeze e) \<le> 3))"

definition tx_ready :: "bool \<Rightarrow> bool \<Rightarrow> level2_tx \<Rightarrow> bool" where
  "tx_ready oh closing s \<longleftrightarrow>
     tx_iOh s = oh \<and> (iClosingNext s \<noteq> 0) = closing \<and> 0 \<le> iPrevMuxTblNum s \<and> iPrevMuxTblNum s < 16"

lemma optional_sent:
  assumes "tx_ready oh closing s"
  shows "\<exists>xs. optional_octets s = Inr xs \<and> length xs = level2_header_size oh - 5"
  using assms by (auto simp: optional_octets_def tx_ready_def HecCrc_def level2_header_size_def)

lemma low_code: "num < 16 \<Longrightarrow> sint (num :: u8) = uint num" "num < 16 \<Longrightarrow> uint (num :: u8) < 16"
proof -
  assume "num < 16"
  then have u: "uint num < 16" by (simp add: word_less_def)
  then show "uint num < 16" .
  have "uint num div 2 ^ 7 = 0" using u by (simp add: div_pos_pos_trivial)
  then have "\<not> bit (uint num) 7" unfolding bit_iff_odd by simp
  then show "sint num = uint num" using signed_take_bit_eq_if_positive [of "uint num" 7] u
    by (simp add: sint_uint take_bit_int_eq_self_iff)
qed

lemma frame_sent:
  assumes "tx_ready oh closing s" and "frame_ok (concat fs, num, pm)"
  shows "\<exists>xs t. level2_CompletePdu fs num pm s
       = Inr (level2_flag closing @ code_octets (enc_tab ! (length (concat fs) * 16 + unat num)) @ xs @ concat fs, t)
     \<and> length xs = level2_header_size oh - 5 \<and> tx_ready oh (pm \<noteq> 0) t"
proof -
  have n: "sint num = int (unat num)" "unat num < 16" "length (concat fs) \<le> 254" "uint num < 16"
    using assms(2) low_code [of num] by (simp_all add: word_less_nat_alt)
  let ?s = "s\<lparr>iClosingNext := uint pm\<rparr>"
  have s: "tx_ready oh (pm \<noteq> 0) ?s" "(iClosingNext s \<noteq> 0) = closing" using assms(1) by (simp_all add: tx_ready_def uint_0_iff)
  obtain xs where xs: "optional_octets ?s = Inr xs" "length xs = level2_header_size oh - 5" using optional_sent [OF s(1)] by blast
  define c where "c = length (concat fs) * 16 + unat num"
  have code: "int (length (concat fs)) * 16 + sint num = int c" unfolding c_def using n(1) by simp
  have "c < 4096" using n(2,3) unfolding c_def by linarith
  then have "\<not> (int c < 0 \<or> int 4096 \<le> int c)" by simp
  then have "level2_CompletePdu fs num pm s = Inr (level2_flag closing @ code_octets (enc_tab ! c) @ xs @ concat fs,
      if tx_iOh ?s then ?s\<lparr>iPrevMuxTblNum := sint num, iPrevPm := uint pm\<rparr> else ?s)"
    using s(2) xs(1) by (simp only: level2_CompletePdu_def Let_def code length_enc_tab nat_int if_False bind_res_simps)
  moreover have "tx_ready oh (pm \<noteq> 0) (if tx_iOh ?s then ?s\<lparr>iPrevMuxTblNum := sint num, iPrevPm := uint pm\<rparr> else ?s)"
    using s(1) n by (simp add: tx_ready_def)
  ultimately show ?thesis using xs(2) unfolding c_def by blast
qed

fun received_frame :: "bool \<Rightarrow> bool \<Rightarrow> frame \<Rightarrow> u8 list \<Rightarrow> pending" where
  "received_frame oh closing (P, num, pm) noise = (xor_octets P (drop (level2_header_size oh) noise), closing, uint num)"

text \<open>The decoder's count tells wrong data bits from wrong check bits.\<close>

lemma low_bits: "take_bit n (w :: u32) = w \<longleftrightarrow> (\<forall>i\<ge>n. \<not> bit w i)"
proof
  assume "\<forall>i\<ge>n. \<not> bit w i"
  then have "bit w i \<Longrightarrow> i < n" for i by (meson not_le)
  then show "take_bit n w = w" by (intro bit_word_eqI) (auto simp: bit_take_bit_iff)
qed (metis bit_take_bit_iff not_le)

lemma small_squeeze:
  assumes "take_bit 24 e = e"
  shows "take_bit 11 (squeeze e) = squeeze e \<longleftrightarrow> e < 4096"
proof -
  have "e < 4096 \<longleftrightarrow> take_bit 12 (unat e) = unat e" by (simp add: word_less_nat_alt take_bit_nat_eq_self_iff)
  also have "\<dots> \<longleftrightarrow> take_bit 12 e = e" by (simp add: word_unat_eq_iff unsigned_take_bit_eq)
  also have "\<dots> \<longleftrightarrow> (\<forall>i\<ge>12. \<not> bit e i)" by (rule low_bits)
  also have "\<dots> \<longleftrightarrow> (\<forall>i\<ge>11. \<not> bit (squeeze e) i)"
  proof (intro iffI allI impI)
    fix i :: nat
    assume h: "\<forall>i\<ge>11. \<not> bit (squeeze e) i" "12 \<le> i"
    then show "\<not> bit e i" using spec [OF h(1), of "i - 1"] by (simp add: bit_squeeze)
  qed (auto simp: bit_squeeze)
  also have "\<dots> \<longleftrightarrow> take_bit 11 (squeeze e) = squeeze e" by (rule low_bits [symmetric])
  finally show ?thesis by blast
qed

lemma golay_counts:
  assumes "d < 4096" and "take_bit 24 e = e" and "num_ones (squeeze e) \<le> 3"
  shows "\<exists>k. GolayDec (enc_tab ! d XOR e) = Some (of_nat d, k) \<and> (k < 4 \<longleftrightarrow> e < 4096)"
proof -
  have w: "weight (squeeze e) \<le> 3" using assms(3) by (simp add: num_ones_weight)
  have "num_ones (rem23 (squeeze e)) < 4 \<longleftrightarrow> e < 4096"
    using error_count [OF squeeze_small [OF assms(2)] w] small_squeeze [OF assms(2)] by auto
  then show ?thesis using golay_decodes [OF assms(1,2) w] by blast
qed

definition header_noise :: "u8 list \<Rightarrow> u32" where
  "header_noise noise = header_code (noise ! 2) (noise ! 3) (noise ! 4)"

lemma header_arrives:
  fixes noise :: "u8 list"
  defines "e \<equiv> header_noise noise"
  assumes ready: "level2_ready oh s p" and flag: "flag_errors noise + iThreshold s \<le> 16" "8 < iThreshold s"
    and ok: "num < 16" "len \<le> 254" "num_ones (squeeze e) \<le> 3"
    and noise: "length noise = level2_header_size oh" and xs: "length xs = level2_header_size oh - 5"
  shows "\<exists>t evs. reads s (xor_octets (level2_flag closing @ code_octets (enc_tab ! (len * 16 + num)) @ xs) noise) t evs
     \<and> after_header oh closing (if e < 4096 then len else 0) (if e < 4096 then int num else -1) t \<and> map shown evs = pending_shown p"
proof -
  let ?h = "level2_header_size oh" and ?c = "enc_tab ! (len * 16 + num)"
  have d: "len * 16 + num < 4096" using ok(1,2) by linarith
  obtain n0 n1 n2 n3 n4 ys where v: "noise = n0 # n1 # n2 # n3 # n4 # ys" "length ys = ?h - 5"
  proof -
    have "length noise = Suc (Suc (Suc (Suc (Suc (?h - 5)))))" using noise by (simp add: level2_header_size_def)
    then show ?thesis using that by (auto simp only: length_Suc_conv)
  qed
  obtain f0 f1 where fl: "level2_flag closing = [f0, f1]" unfolding level2_flag_def by (cases closing) auto
  obtain c0 c1 c2 where c: "code_octets ?c = [c0, c1, c2]" by (simp add: code_octets_def)
  have e: "e = header_code n2 n3 n4" "take_bit 24 e = e" by (simp_all add: e_def header_noise_def v(1) header_code_small)
  have "CheckFlag (f0 XOR n0) (f1 XOR n1) (iThreshold s) = Some (of_bool closing)"
    using flag_recognised [of n0 n1 "iThreshold s" closing] flag v(1) fl by (simp add: flag_errors_def table_ones)
  then obtain t1 evs where t1: "reads s [f0 XOR n0, f1 XOR n1] t1 evs" "in_header oh closing t1" "map shown evs = pending_shown p"
    using flag_read [OF ready] by blast
  obtain k where k: "GolayDec (?c XOR e) = Some (of_nat (len * 16 + num), k)" "k < 4 \<longleftrightarrow> e < 4096"
    using golay_counts [OF d e(2) ok(3)] by blast
  have "header_code (c0 XOR n2) (c1 XOR n3) (c2 XOR n4) = ?c XOR e"
    using header_code_octets [OF enc_tab_small [OF d]] c by (simp add: header_code_xor e(1))
  then have parsed: "ParseHdr (g0 # g1 # (c0 XOR n2) # (c1 XOR n3) # (c2 XOR n4) # zs) = Inr (len, int num, k)" for g0 g1 zs
    using k(1) ok(1,2) by (intro header_parsed) (simp_all add: nth_Cons')
  let ?hs = "(c0 XOR n2) # (c1 XOR n3) # (c2 XOR n4) # xor_octets xs ys"
  have "length ?hs = ?h - 2" using xs v(2) by (simp add: level2_header_size_def)
  then obtain t where t: "reads t1 ?hs t []" "after_header oh closing (if k < 4 then len else 0) (if k < 4 then int num else -1) t"
    using header_read [OF t1(2), of ?hs len "int num" k] parsed by auto
  have "xor_octets (level2_flag closing @ code_octets ?c @ xs) noise = [f0 XOR n0, f1 XOR n1] @ ?hs"
    using xs v(2) by (simp add: v(1) fl c)
  moreover have "reads s ([f0 XOR n0, f1 XOR n1] @ ?hs) t (evs @ [])" using reads_append [OF t1(1) t(1)] .
  ultimately have "reads s (xor_octets (level2_flag closing @ code_octets ?c @ xs) noise) t evs" by (simp only: append_Nil2)
  then show ?thesis using t(2) t1(3) unfolding k(2) by blast
qed

lemma frame_received:
  assumes ready: "level2_ready oh s p" and flag: "flag_errors noise + iThreshold s \<le> 16" "8 < iThreshold s"
    and ok: "frame_ok f" "noise_ok oh f noise" and f: "f = (P, num, pm)" and xs: "length xs = level2_header_size oh - 5"
  shows "\<exists>t evs. reads s (xor_octets (level2_flag closing @ code_octets (enc_tab ! (length P * 16 + unat num)) @ xs @ P) noise) t evs
     \<and> level2_ready oh t (received_frame oh closing f noise) \<and> iThreshold t = LEVEL2_THRESHOLD_DATA \<and> map shown evs = pending_shown p"
proof -
  let ?h = "level2_header_size oh" and ?c = "enc_tab ! (length P * 16 + unat num)"
  have n: "unat num < 16" "length P \<le> 254" "length noise = ?h + length P" using ok by (simp_all add: f word_less_nat_alt)
  define N where "N = take ?h noise"
  define D where "D = drop ?h noise"
  have D: "noise = N @ D" "length N = ?h" "length D = length P" using n(3) by (simp_all add: N_def D_def)
  have "5 \<le> ?h" by (simp add: level2_header_size_def)
  then have same: "flag_errors N = flag_errors noise" "header_noise N = header_noise noise"
    using D(2) by (simp_all add: D(1) flag_errors_def header_noise_def nth_append)
  have e: "num_ones (squeeze (header_noise noise)) \<le> 3" "header_noise noise < 4096"
    using ok(2) by (simp_all add: f header_noise_def Let_def)
  define H where "H = level2_flag closing @ code_octets ?c @ xs"
  obtain t2 evs where t2: "reads s (xor_octets H N) t2 evs" "after_header oh closing (length P) (int (unat num)) t2"
      "map shown evs = pending_shown p"
    using header_arrives [OF ready _ flag(2) n(1,2), of N xs closing] flag(1) e D(2) xs same unfolding H_def by auto
  obtain t where t: "reads t2 (xor_octets P D) t []" "level2_ready oh t (xor_octets P D, closing, int (unat num))"
      "iThreshold t = LEVEL2_THRESHOLD_DATA"
  proof (cases "P = []")
    case True
    then show ?thesis using that [of t2] t2(2) reads_Nil by (auto simp: after_header_def)
  next
    case False
    then have a: "l2_iCurrentOp t2 = ECopyData" "iMplRemaining t2 = length (xor_octets P D)" "xor_octets P D \<noteq> []"
        "l2_iPduPos t2 + length (xor_octets P D) \<le> length (l2_iPdu t2)"
      using t2(2) n(2) D by (auto simp: after_header_def H223_MAX_DEMUX_PDU_SIZE_def zip_eq_Nil_iff)
    from that [OF reads_data [OF a]] show ?thesis
      using t2(2) n(2) D by (auto simp: after_header_def H223_MAX_DEMUX_PDU_SIZE_def)
  qed
  have "length H = length N" using D(2) xs by (simp add: H_def level2_flag_def code_octets_def level2_header_size_def)
  then have "xor_octets (H @ P) noise = xor_octets H N @ xor_octets P D" by (simp only: D(1) zip_append map_append)
  moreover have "level2_flag closing @ code_octets ?c @ xs @ P = H @ P" by (simp only: H_def append_assoc)
  moreover have "reads s (xor_octets H N @ xor_octets P D) t (evs @ [])" using reads_append [OF t2(1) t(1)] .
  moreover have "received_frame oh closing f noise = (xor_octets P D, closing, int (unat num))" by (simp add: f D_def)
  ultimately show ?thesis using t(2,3) t2(3) by (metis append_Nil2)
qed

section \<open>A line\<close>

fun send_frames :: "frame list \<Rightarrow> level2_tx \<Rightarrow> mux_fault + (u8 list \<times> level2_tx)" where
  "send_frames [] s = Inr ([], s)"
| "send_frames ((P, num, pm) # fs) s =
     bind_res (level2_CompletePdu [P] num pm s)
       (\<lambda>(xs, s1). bind_res (send_frames fs s1) (\<lambda>(ys, s2). Inr (xs @ ys, s2)))"

lemma send_append:
  "send_frames (fs @ gs) s = bind_res (send_frames fs s) (\<lambda>(xs, s1). bind_res (send_frames gs s1) (\<lambda>(ys, s2). Inr (xs @ ys, s2)))"
  by (induction fs s rule: send_frames.induct) (auto simp: bind_res_def split: sum.splits)

lemma stuffing_step:
  assumes "int (level2_header_size (tx_iOh s)) \<le> n" and "num < 16"
  shows "level2_stuffing num n s = bind_res (level2_CompletePdu [[]] num 0 s)
     (\<lambda>(xs, s1). bind_res (level2_stuffing num (n - int (level2_header_size (tx_iOh s))) s1) (\<lambda>(ys, s2). Inr (xs @ ys, s2)))"
proof -
  have num: "sint num = uint num" "uint num < 16" "nat (uint num) = unat num" using low_code [OF assms(2)] by simp_all
  then have range: "\<not> (int (length (concat [[]])) * 16 + sint num < 0 \<or> int (length enc_tab) \<le> int (length (concat [[]])) * 16 + sint num)"
    by (simp add: length_enc_tab)
  let ?s = "s\<lparr>iClosingNext := 0\<rparr>" and ?flag = "level2_flag (iClosingNext s \<noteq> 0)" and ?code = "code_octets (enc_tab ! unat num)"
  let ?t = "if tx_iOh s then ?s\<lparr>iPrevMuxTblNum := uint num, iPrevPm := 0\<rparr> else ?s"
  have "level2_CompletePdu [[]] num 0 s = bind_res (optional_octets ?s) (\<lambda>optional. Inr (?flag @ ?code @ optional, ?t))"
    unfolding level2_CompletePdu_def Let_def if_not_P [OF range] by (simp add: num)
  moreover have "level2_stuffing num n s = bind_res (optional_octets ?s) (\<lambda>optional.
      bind_res (level2_stuffing num (n - int (level2_header_size (tx_iOh s))) ?t)
        (\<lambda>(rest, u). Inr (?flag @ ?code @ optional @ rest, u)))"
    using assms(1) by (subst level2_stuffing.simps) (simp add: Let_def)
  ultimately show ?thesis by (cases "optional_octets ?s") (simp_all add: case_prod_beta)
qed

lemma stuffing_frames:
  assumes "tx_ready oh closing s" and "num < 16"
  shows "level2_stuffing num n s = send_frames (replicate (nat n div level2_header_size oh) ([], num, 0)) s"
  using assms(1)
proof (induction "nat n div level2_header_size oh" arbitrary: n s closing)
  case 0
  then have "nat n < level2_header_size oh" by (simp add: div_eq_0_iff level2_header_size_def split: if_splits)
  then show ?case using 0 by (subst level2_stuffing.simps) (auto simp: tx_ready_def)
next
  case (Suc k)
  let ?h = "level2_header_size oh"
  have "\<not> nat n < ?h" using Suc.hyps(2) by (metis div_less nat.distinct(1))
  then have n: "int ?h \<le> n" by (simp add: not_less le_nat_iff level2_header_size_def split: if_splits)
  have oh: "tx_iOh s = oh" using Suc.prems by (simp add: tx_ready_def)
  have ok: "frame_ok (concat [[]], num, 0)" using assms(2) by simp
  obtain xs t where t: "level2_CompletePdu [[]] num 0 s = Inr (xs, t)" "tx_ready oh (0 \<noteq> (0 :: u8)) t"
    using frame_sent [OF Suc.prems ok] by blast
  have "0 < ?h" by (simp add: level2_header_size_def)
  have "nat n = nat (n - int ?h) + ?h" using n by linarith
  then have k: "nat n div ?h = Suc (nat (n - int ?h) div ?h)"
    using div_add_self2 [of ?h "nat (n - int ?h)"] \<open>0 < ?h\<close> by simp
  have "level2_stuffing num (n - int ?h) t = send_frames (replicate (nat (n - int ?h) div ?h) ([], num, 0)) t"
    using Suc.hyps(1) [OF _ t(2), of "n - int ?h"] Suc.hyps(2) k by simp
  then show ?case using stuffing_step [of s n num] n oh assms(2) t(1) k by simp
qed

datatype level2_item =
    L2_Stuffing int u8
  | L2_Pdu "u8 list list" u8 u8

fun level2_item_octets :: "level2_item \<Rightarrow> level2_tx \<Rightarrow> mux_fault + (u8 list \<times> level2_tx)" where
  "level2_item_octets (L2_Stuffing n code) s = level2_GetStuffing n code s"
| "level2_item_octets (L2_Pdu fs num pm) s = level2_CompletePdu fs num pm s"

fun level2_line :: "level2_item list \<Rightarrow> level2_tx \<Rightarrow> mux_fault + (u8 list \<times> level2_tx)" where
  "level2_line [] s = Inr ([], s)"
| "level2_line (i # is) s =
     bind_res (level2_item_octets i s) (\<lambda>(xs, s1). bind_res (level2_line is s1) (\<lambda>(ys, s2). Inr (xs @ ys, s2)))"

fun level2_item_ok :: "level2_item \<Rightarrow> bool" where
  "level2_item_ok (L2_Stuffing n code) = (code < 16)"
| "level2_item_ok (L2_Pdu fs num pm) = (num < 16 \<and> length (concat fs) \<le> 254)"

text \<open>The frames of an item: stuffing of \<open>n\<close> octets is as many headers as fit.\<close>

fun level2_frames :: "bool \<Rightarrow> level2_item \<Rightarrow> frame list" where
  "level2_frames oh (L2_Stuffing n code) = replicate (nat n div level2_header_size oh) ([], code, 0)"
| "level2_frames oh (L2_Pdu fs num pm) = [(concat fs, num, pm)]"

lemma frames_ok: "level2_item_ok i \<Longrightarrow> list_all frame_ok (level2_frames oh i)"
  by (cases i) (auto simp: list_all_iff)

lemma complete_concat: "level2_CompletePdu [concat fs] num pm s = level2_CompletePdu fs num pm s"
  by (simp add: level2_CompletePdu_def Let_def)

text \<open>Frames are sent and arrive, with what the line adds to them.\<close>

lemma frames_sent:
  assumes "tx_ready oh closing s" and "list_all frame_ok fs"
  shows "\<exists>xs t closing'. send_frames fs s = Inr (xs, t) \<and> tx_ready oh closing' t"
  using assms
proof (induction fs arbitrary: s closing)
  case (Cons f fs)
  obtain P num pm where f: "f = (P, num, pm)" by (cases f)
  then obtain xs t where t: "level2_CompletePdu [P] num pm s = Inr (xs, t)" "tx_ready oh (pm \<noteq> 0) t"
    using frame_sent [OF Cons.prems(1), of "[P]" num pm] Cons.prems(2) by auto
  show ?case using Cons.IH [OF t(2)] Cons.prems(2) t(1) f by auto
qed auto

lemma line_as_frames:
  assumes "tx_ready oh closing s" and "list_all level2_item_ok items"
  shows "level2_line items s = send_frames (concat (map (level2_frames oh) items)) s"
  using assms
proof (induction items arbitrary: s closing)
  case (Cons i items)
  have one: "level2_item_octets i s = send_frames (level2_frames oh i) s"
    using Cons.prems stuffing_frames [OF Cons.prems(1)]
    by (cases i) (auto simp: level2_GetStuffing_def complete_concat bind_res_def split: sum.splits)
  obtain xs t closing' where t: "send_frames (level2_frames oh i) s = Inr (xs, t)" "tx_ready oh closing' t"
    using frames_sent [OF Cons.prems(1) frames_ok [of i oh]] Cons.prems(2) by auto
  show ?case using Cons.IH [OF t(2)] Cons.prems(2) one t(1) by (simp add: send_append)
qed simp

fun received :: "bool \<Rightarrow> bool \<Rightarrow> frame list \<Rightarrow> u8 list list \<Rightarrow> pending list" where
  "received oh closing ((P, num, pm) # fs) (n # ns) =
     received_frame oh closing (P, num, pm) n # received oh (pm \<noteq> 0) fs ns"
| "received oh closing fs ns = []"

lemma frames_arrive:
  assumes "tx_ready oh closing s" and "level2_ready oh r p"
    and "list_all frame_ok fs" and "list_all2 (noise_ok oh) fs noises" and "8 < iThreshold r"
    and "fs \<noteq> [] \<Longrightarrow> flag_errors (hd noises) + iThreshold r \<le> 16"
  shows "\<exists>xs t r' evs. send_frames fs s = Inr (xs, t) \<and> length xs = length (concat noises)
     \<and> reads r (xor_octets xs (concat noises)) r' evs
     \<and> map shown evs = concat (map pending_shown (butlast (p # received oh closing fs noises)))"
  using assms
proof (induction fs arbitrary: s closing r p noises)
  case Nil
  then show ?case using reads_Nil by fastforce
next
  case (Cons f fs)
  obtain P num pm where f: "f = (P, num, pm)" by (cases f)
  obtain n ns where n: "noises = n # ns" "noise_ok oh f n" "list_all2 (noise_ok oh) fs ns"
    using Cons.prems(4) by (auto simp: list_all2_Cons1)
  have ok: "frame_ok (concat [P], num, pm)" "frame_ok f" using Cons.prems(3) f by simp_all
  obtain xs t where t: "level2_CompletePdu [P] num pm s =
      Inr (level2_flag closing @ code_octets (enc_tab ! (length P * 16 + unat num)) @ xs @ P, t)"
      "length xs = level2_header_size oh - 5" "tx_ready oh (pm \<noteq> 0) t"
    using frame_sent [OF Cons.prems(1) ok(1)] by auto
  define xs1 where "xs1 = level2_flag closing @ code_octets (enc_tab ! (length P * 16 + unat num)) @ xs @ P"
  have len: "length xs1 = length n"
    using t(2) n(2) unfolding f xs1_def by (simp add: level2_flag_def code_octets_def level2_header_size_def)
  have "flag_errors n + iThreshold r \<le> 16" using Cons.prems(6) n(1) by simp
  then obtain r1 evs where r1: "reads r (xor_octets xs1 n) r1 evs" "level2_ready oh r1 (received_frame oh closing f n)"
      "iThreshold r1 = LEVEL2_THRESHOLD_DATA" "map shown evs = pending_shown p"
    using frame_received [OF Cons.prems(2) _ Cons.prems(5) ok(2) n(2) f t(2)] unfolding xs1_def by blast
  have "fs \<noteq> [] \<Longrightarrow> flag_errors (hd ns) + iThreshold r1 \<le> 16"
    using n(3) r1(3) by (cases fs; cases ns) (auto simp: LEVEL2_THRESHOLD_DATA_def)
  then obtain ys u r2 evs' where u: "send_frames fs t = Inr (ys, u)" "length ys = length (concat ns)"
      "reads r1 (xor_octets ys (concat ns)) r2 evs'"
      "map shown evs' = concat (map pending_shown (butlast (received_frame oh closing f n # received oh (pm \<noteq> 0) fs ns)))"
    using Cons.IH [OF t(3) r1(2) _ n(3)] Cons.prems(3) r1(3) by (auto simp: LEVEL2_THRESHOLD_DATA_def)
  have "xor_octets (xs1 @ ys) (concat noises) = xor_octets xs1 n @ xor_octets ys (concat ns)"
    using len by (simp add: n(1))
  moreover have "send_frames (f # fs) s = Inr (xs1 @ ys, u)" using t(1) u(1) by (simp add: f xs1_def)
  moreover have "length (xs1 @ ys) = length (concat noises)" using len u(2) n(1) by simp
  moreover have "map shown (evs @ evs') = concat (map pending_shown (butlast (p # received oh closing (f # fs) noises)))"
    using r1(4) u(4) by (simp add: n(1) f)
  ultimately show ?case using reads_append [OF r1(1) u(3)] by metis
qed

section \<open>Properties\<close>

lemma start_ready:
  assumes "length memory = H223_MAX_DEMUX_PDU_SIZE"
  shows "level2_ready oh (new_level2_rx oh 0 memory) ([], False, -1)" "iThreshold (new_level2_rx oh 0 memory) = 15"
    "tx_ready oh False (new_level2_tx oh)"
  using assms by (simp_all add: new_level2_rx_def new_level2_tx_def tx_ready_def LEVEL2_THRESHOLD_SYNC_def)

definition level2_shown :: "bool \<Rightarrow> frame list \<Rightarrow> u8 list list \<Rightarrow> (u8 list \<times> bool \<times> u32) option list" where
  "level2_shown oh fs noises = concat (map pending_shown (butlast (received oh False fs noises)))"

text \<open>C28. At level 2, with or without the optional header, PDUs and stuffing sent in any order are indicated in
  that order with the payload that arrives, the multiplex code, and the closing flag for the PDU before, although
  in every frame up to three bits of the flag (one in the first) and three check bits of the header are wrong, and
  any bits of the payload and the optional header. The last frame waits for the next flag.\<close>

theorem level2_delivered:
  assumes "length memory = H223_MAX_DEMUX_PDU_SIZE" and "list_all level2_item_ok items"
    and frames: "frames = concat (map (level2_frames oh) items)"
    and "list_all2 (noise_ok oh) frames noises" and "frames \<noteq> [] \<Longrightarrow> flag_errors (hd noises) \<le> 1"
  shows "\<exists>xs t r' evs. level2_line items (new_level2_tx oh) = Inr (xs, t) \<and> length xs = length (concat noises)
     \<and> level2_Parse (xor_octets xs (concat noises)) (new_level2_rx oh 0 memory) = Inr (r', evs)
     \<and> map shown evs = level2_shown oh frames noises"
proof -
  note start = start_ready [OF assms(1), of oh]
  have ok: "list_all frame_ok frames" using assms(2) frames_ok unfolding frames by (induction items) (auto simp: list_all_append)
  obtain xs t r' evs where r: "send_frames frames (new_level2_tx oh) = Inr (xs, t)" "length xs = length (concat noises)"
      "reads (new_level2_rx oh 0 memory) (xor_octets xs (concat noises)) r' evs"
      "map shown evs = concat (map pending_shown (butlast (([], False, -1) # received oh False frames noises)))"
    using frames_arrive [OF start(3,1) ok assms(4)] start(2) assms(5) by auto
  moreover have "concat (map pending_shown (butlast (([], False, -1) # received oh False frames noises))) = level2_shown oh frames noises"
    by (simp add: level2_shown_def)
  ultimately show ?thesis using line_as_frames [OF start(3) assms(2)] reads_all [OF r(3)] by (simp add: frames)
qed

lemma one_error: "iNumOnes ! 0 = 0" "iNumOnes ! Suc 0 = 1"
  using table_ones [of 0] table_ones [of 1] by (simp_all add: ones_def bit_1_iff bot_fun_def)

theorem level2_delivered_witness:
  "\<exists>xs t r' evs. level2_line [L2_Pdu [[7], [9]] 3 1, L2_Stuffing 12 0] (new_level2_tx False) = Inr (xs, t)
     \<and> level2_Parse (xor_octets xs [1, 0, 0, 0, 0x21, 0, 2, 0, 1, 0, 0, 0, 0, 0, 0, 0, 0]) (new_level2_rx False 0 (replicate 1024 0)) = Inr (r', evs)
     \<and> map shown evs = [Some ([7, 11], False, 3), Some ([], True, 0)]"
proof -
  let ?items = "[L2_Pdu [[7], [9]] 3 1, L2_Stuffing 12 0]" and ?noises = "[[1, 0, 0, 0, 0x21, 0, 2], [0, 1, 0, 0, 0], [0, 0, 0, 0, 0 :: u8]]"
  have frames: "concat (map (level2_frames False) ?items) = [([7, 9], 3, 1), ([], 0, 0), ([], 0, 0)]"
    by (simp add: level2_header_size_def numeral_2_eq_2)
  have e: "header_code 0 0 0x21 = 0x210" "header_code 0 0 0 = 0" by (simp_all add: header_code_def)
  have "squeeze 0x210 = 0x210" "squeeze 0 = 0" by (simp_all add: squeeze_def)
  then have w: "num_ones (squeeze 0x210) \<le> 3" "num_ones (squeeze 0) \<le> 3" by (simp_all add: num_ones_weight light)
  have noise: "list_all2 (noise_ok False) [([7, 9], 3, 1), ([], 0, 0), ([], 0, 0)] ?noises"
    by (simp add: level2_header_size_def flag_errors_def one_error e w)
  have first: "flag_errors (hd ?noises) \<le> 1" by (simp add: flag_errors_def one_error)
  have shown: "level2_shown False [([7, 9], 3, 1), ([], 0, 0), ([], 0, 0)] ?noises = [Some ([7, 11], False, 3), Some ([], True, 0)]"
    by (simp add: level2_shown_def level2_header_size_def)
  have octets: "concat ?noises = [1, 0, 0, 0, 0x21, 0, 2, 0, 1, 0, 0, 0, 0, 0, 0, 0, 0]" by simp
  have "length (replicate 1024 0 :: u8 list) = H223_MAX_DEMUX_PDU_SIZE" "list_all level2_item_ok ?items"
    by (simp_all add: H223_MAX_DEMUX_PDU_SIZE_def)
  from level2_delivered [OF this frames [symmetric] noise first] show ?thesis unfolding octets shown by (elim exE conjE) (intro exI conjI)
qed

text \<open>C31. The Golay decoder of level 2 with its two tables gives back the 12 bits of data of a code word in which
  up to three of the 23 bits other than the parity bit are wrong, and the number of errors that it reports is
  below four exactly if the wrong bits are check bits: it counts the ones of the syndrome.\<close>

theorem golay_corrects:
  assumes "d < 4096" and "take_bit 24 e = e" and "num_ones (squeeze e) \<le> 3"
  shows "\<exists>k. GolayDec (enc_tab ! d XOR e) = Some (of_nat d, k) \<and> (k < 4 \<longleftrightarrow> e < 4096)"
  using assms by (rule golay_counts)

theorem golay_corrects_witness:
  "\<exists>k. GolayDec (enc_tab ! 163 XOR 0x801001) = Some (163, k) \<and> \<not> k < 4"
proof -
  have "take_bit 24 (0x801001 :: u32) = 0x801001" by simp
  moreover have "squeeze 0x801001 = 0x400801" by (simp add: squeeze_def)
  then have "num_ones (squeeze 0x801001) \<le> 3" by (simp add: num_ones_weight light)
  ultimately show ?thesis using golay_corrects [of 163 "0x801001"] by simp
qed

text \<open>C32. A header of level 2 with one to three wrong bits of which at least one is a data bit is dropped
  (shown for the first PDU of a line, with at most one wrong bit in its flag): the decoder gives the right word, but
  the receiver goes on without length and multiplex code and looks for a flag in the payload.\<close>

theorem corrected_header_dropped:
  assumes "length memory = H223_MAX_DEMUX_PDU_SIZE" and "num < 16" and "length (concat fs) \<le> 254"
    and "length noise = level2_header_size oh" and "flag_errors noise \<le> 1"
    and "num_ones (squeeze (header_noise noise)) \<le> 3" and "4096 \<le> header_noise noise"
  shows "\<exists>hdr t r k. level2_CompletePdu fs num pm (new_level2_tx oh) = Inr (hdr @ concat fs, t)
     \<and> GolayDec (header_code (hdr ! 2 XOR noise ! 2) (hdr ! 3 XOR noise ! 3) (hdr ! 4 XOR noise ! 4))
         = Some (of_nat (length (concat fs) * 16 + unat num), k)
     \<and> level2_Parse (xor_octets hdr noise) (new_level2_rx oh 0 memory) = Inr (r, [])
     \<and> iMpl r = 0 \<and> iMuxCode r = -1 \<and> l2_iCurrentOp r = ECopyHdr"
proof -
  note start = start_ready [OF assms(1), of oh]
  let ?d = "length (concat fs) * 16 + unat num" and ?r = "new_level2_rx oh 0 memory"
  have n: "unat num < 16" "frame_ok (concat fs, num, pm)" using assms(2,3) by (simp_all add: word_less_nat_alt)
  have d: "?d < 4096" using n(1) assms(3) by linarith
  obtain xs t where t: "level2_CompletePdu fs num pm (new_level2_tx oh)
      = Inr (level2_flag False @ code_octets (enc_tab ! ?d) @ xs @ concat fs, t)" "length xs = level2_header_size oh - 5"
    using frame_sent [OF start(3) n(2)] by blast
  have "\<not> header_noise noise < 4096" using assms(7) by simp
  then obtain u evs where u: "reads ?r (xor_octets (level2_flag False @ code_octets (enc_tab ! ?d) @ xs) noise) u evs"
      "after_header oh False 0 (-1) u" "map shown evs = []"
    using header_arrives [OF start(1) _ _ n(1) assms(3,6,4) t(2), of False] assms(5,7) start(2) by auto
  define hdr where "hdr = level2_flag False @ code_octets (enc_tab ! ?d) @ xs"
  have "take_bit 24 (header_noise noise) = header_noise noise" by (simp add: header_noise_def header_code_small)
  then obtain k where k: "GolayDec (enc_tab ! ?d XOR header_noise noise) = Some (of_nat ?d, k)"
    using golay_counts [OF d _ assms(6)] by blast
  have "header_code (hdr ! 2) (hdr ! 3) (hdr ! 4) = enc_tab ! ?d"
    using header_code_octets [OF enc_tab_small [OF d]] by (simp add: hdr_def level2_flag_def code_octets_def)
  then have "header_code (hdr ! 2 XOR noise ! 2) (hdr ! 3 XOR noise ! 3) (hdr ! 4 XOR noise ! 4) = enc_tab ! ?d XOR header_noise noise"
    by (simp add: header_code_xor header_noise_def)
  then show ?thesis using t(1) k reads_all [OF u(1)] u(2,3) by (auto simp: hdr_def after_header_def)
qed

theorem corrected_header_dropped_witness:
  "\<exists>hdr t r k. level2_CompletePdu [[7, 9]] 3 0 (new_level2_tx False) = Inr (hdr @ [7, 9], t)
     \<and> GolayDec (header_code (hdr ! 2 XOR 1) (hdr ! 3) (hdr ! 4)) = Some (35, k)
     \<and> level2_Parse (xor_octets hdr [0, 0, 1, 0, 0]) (new_level2_rx False 0 (replicate 1024 0)) = Inr (r, [])
     \<and> iMpl r = 0 \<and> iMuxCode r = -1 \<and> l2_iCurrentOp r = ECopyHdr"
proof -
  have e: "header_noise [0, 0, 1, 0, 0] = 0x1000" by (simp add: header_noise_def header_code_def)
  have "squeeze 0x1000 = 0x800" by (simp add: squeeze_def)
  then have w: "num_ones (squeeze 0x1000) \<le> 3" by (simp add: num_ones_weight light)
  show ?thesis
    using corrected_header_dropped [of "replicate 1024 0" 3 "[[7, 9]]" "[0, 0, 1, 0, 0]" False 0]
    by (simp add: e w H223_MAX_DEMUX_PDU_SIZE_def level2_header_size_def flag_errors_def one_error)
qed

end
