(* ===== verification/CrcCheck.thy ===== *)
theory CrcCheck
  imports H223Base
begin

text \<open>
  The check sums of \<^verbatim>\<open>protocols/systems/tools/general/common/src/crccheck.cpp\<close> (class \<^verbatim>\<open>CRC\<close>): 8 and 16 bits,
  with tables that the constructor fills, over an array and over the fragments of a media packet. The tables
  compute the remainder by the generator polynomial bit by bit; every burst of errors as long as the check sum
  changes it.
\<close>

section \<open>Definitions of the code\<close>

definition CRC_X8 :: u8 where
  "CRC_X8 = 0xe0"

definition CRC_X :: u16 where
  "CRC_X = 0x8408"

fun crc8_bits :: "nat \<Rightarrow> u8 \<Rightarrow> u8" where
  "crc8_bits 0 Crc = Crc"
| "crc8_bits (Suc n) Crc = crc8_bits n (if Crc AND 1 \<noteq> 0 then drop_bit 1 Crc XOR CRC_X8 else drop_bit 1 Crc)"

fun crc16_bits :: "nat \<Rightarrow> u16 \<Rightarrow> u16" where
  "crc16_bits 0 Crc = Crc"
| "crc16_bits (Suc n) Crc = crc16_bits n (if Crc AND 1 \<noteq> 0 then drop_bit 1 Crc XOR CRC_X else drop_bit 1 Crc)"

definition CrcTbl8 :: "u8 list" where
  "CrcTbl8 = map (\<lambda>i. crc8_bits 8 (of_nat i)) [0..<256]"

definition CrcTbl16 :: "u16 list" where
  "CrcTbl16 = map (\<lambda>i. crc16_bits 8 (of_nat i)) [0..<256]"

definition crc8_octet :: "u8 \<Rightarrow> u8 \<Rightarrow> u8" where
  "crc8_octet crc x = drop_bit 8 crc XOR CrcTbl8 ! unat (crc XOR x)"

definition crc16_octet :: "u16 \<Rightarrow> u8 \<Rightarrow> u16" where
  "crc16_octet crc x = drop_bit 8 crc XOR CrcTbl16 ! unat (ucast crc XOR x)"

definition Crc8Check_octets :: "u8 list \<Rightarrow> u8" where
  "Crc8Check_octets xs = foldl crc8_octet 0 xs"

definition Crc16Check_octets :: "u8 list \<Rightarrow> u16" where
  "Crc16Check_octets xs = foldl crc16_octet 0xffff xs XOR 0xffff"

text \<open>The loop over fragments: \<open>curSize\<close> counts down to the next fragment, \<open>pData\<close> is what is left of the current
  one. The fragments hold \<open>dataSize\<close> octets, so they do not run out; an octet behind the end of a fragment is a fault.\<close>

fun crc_loop :: "('c \<Rightarrow> u8 \<Rightarrow> 'c) \<Rightarrow> nat \<Rightarrow> u8 list list \<Rightarrow> int \<Rightarrow> u8 list \<Rightarrow> 'c \<Rightarrow> mux_fault + 'c" where
  "crc_loop step 0 frags curSize pData crc = Inr crc"
| "crc_loop step (Suc dataSize) frags curSize pData crc =
     (if curSize - 1 \<le> 0 then
        (case frags of
           [] \<Rightarrow> Inl BadIndex
         | [] # frags' \<Rightarrow> Inl BadIndex
         | (x # xs) # frags' \<Rightarrow> crc_loop step dataSize frags' (int (length (x # xs))) xs (step crc x))
      else
        (case pData of
           [] \<Rightarrow> Inl BadIndex
         | x # xs \<Rightarrow> crc_loop step dataSize frags (curSize - 1) xs (step crc x)))"

definition Crc8Check :: "bool \<Rightarrow> u8 list list \<Rightarrow> mux_fault + u8" where
  "Crc8Check hasCRC mediaData =
     crc_loop crc8_octet (length (concat mediaData) - (if hasCRC then 1 else 0)) mediaData 0 [] 0"

definition Crc16Check :: "bool \<Rightarrow> u8 list list \<Rightarrow> mux_fault + u16" where
  "Crc16Check hasCRC mediaData =
     bind_res (crc_loop crc16_octet (length (concat mediaData) - (if hasCRC then 2 else 0)) mediaData 0 [] 0xffff)
       (\<lambda>crc. Inr (crc XOR 0xffff))"

section \<open>Fragments\<close>

lemma crc_loop_fragments:
  assumes "list_all (\<lambda>f. f \<noteq> []) frags" and "curSize = int (length pData) + 1" and "n \<le> length pData + length (concat frags)"
  shows "crc_loop step n (frags @ rest) curSize pData crc = Inr (foldl step crc (take n (pData @ concat frags)))"
  using assms
proof (induction n arbitrary: frags curSize pData crc)
  case (Suc n)
  show ?case
  proof (cases pData)
    case Nil
    then obtain x xs fs where f: "frags = (x # xs) # fs" using Suc.prems by (cases frags) (auto simp: neq_Nil_conv)
    then show ?thesis using Suc.IH [of fs "int (length (x # xs))" xs "step crc x"] Suc.prems Nil by simp
  next
    case (Cons x xs)
    then show ?thesis using Suc.IH [of frags "curSize - 1" xs "step crc x"] Suc.prems by simp
  qed
qed simp

text \<open>Fragments that are empty do no harm at the end.\<close>

lemma crc_loop_start:
  assumes "list_all (\<lambda>f. f \<noteq> []) frags"
  shows "crc_loop step (length (concat frags)) (frags @ rest) 0 [] crc = Inr (foldl step crc (concat frags))"
proof (cases frags)
  case (Cons f fs)
  then obtain x xs where "f = x # xs" "list_all (\<lambda>f. f \<noteq> []) fs" using assms by (cases f) auto
  then show ?thesis using Cons
      crc_loop_fragments [of fs "int (length (x # xs))" xs "length xs + length (concat fs)" step rest "step crc x"] by simp
qed simp

lemma Crc8Check_fragments:
  assumes "list_all (\<lambda>f. f \<noteq> []) frags" and "concat rest = []"
  shows "Crc8Check False (frags @ rest) = Inr (Crc8Check_octets (concat frags))"
proof -
  have "concat (frags @ rest) = concat frags" by (simp only: concat_append assms(2) append_Nil2)
  then show ?thesis using crc_loop_start [OF assms(1), of crc8_octet rest 0]
    by (simp only: Crc8Check_def Crc8Check_octets_def if_False diff_zero)
qed

lemma Crc16Check_fragments:
  assumes "list_all (\<lambda>f. f \<noteq> []) frags" and "concat rest = []"
  shows "Crc16Check False (frags @ rest) = Inr (Crc16Check_octets (concat frags))"
proof -
  have "concat (frags @ rest) = concat frags" by (simp only: concat_append assms(2) append_Nil2)
  then show ?thesis using crc_loop_start [OF assms(1), of crc16_octet rest "0xffff"]
    by (simp only: Crc16Check_def Crc16Check_octets_def if_False diff_zero bind_res_simps)
qed

section \<open>The register\<close>

definition crc_shift :: "'a::len word \<Rightarrow> 'a word \<Rightarrow> 'a word" where
  "crc_shift poly c = drop_bit 1 c XOR (if bit c 0 then poly else 0)"

definition crc_feed :: "'a::len word \<Rightarrow> 'a word \<Rightarrow> bool list \<Rightarrow> 'a word" where
  "crc_feed poly c bs = foldl (\<lambda>c b. crc_shift poly (c XOR of_bool b)) c bs"

lemma crc_feed_simps [simp]:
  "crc_feed poly c [] = c"
  "crc_feed poly c (b # bs) = crc_feed poly (crc_shift poly (c XOR of_bool b)) bs"
  "crc_feed poly c (as @ bs) = crc_feed poly (crc_feed poly c as) bs"
  by (simp_all add: crc_feed_def)

lemma crc_shift_xor: "crc_shift poly (c XOR d) = crc_shift poly c XOR crc_shift poly d"
  by (rule bit_word_eqI) (auto simp: crc_shift_def bit_xor_iff bit_drop_bit_eq)

lemma crc_shift_0 [simp]: "crc_shift poly 0 = 0"
  by (simp add: crc_shift_def)

lemma crc_shift_nonzero:
  fixes poly :: "'a::len word"
  assumes "bit poly (LENGTH('a) - 1)" and "c \<noteq> 0"
  shows "crc_shift poly c \<noteq> 0"
proof
  assume z: "crc_shift poly c = 0"
  have "bit (crc_shift poly c) (LENGTH('a) - 1) \<longleftrightarrow> bit c 0"
    using assms(1) by (auto simp: crc_shift_def bit_xor_iff bit_drop_bit_eq dest: bit_imp_le_length)
  then have "\<not> bit c 0" unfolding z by simp
  then have "drop_bit 1 c = 0" using z by (simp add: crc_shift_def)
  then have "bit c (Suc i) = bit (0 :: 'a word) i" for i by (metis bit_drop_bit_eq comp_apply plus_1_eq_Suc)
  then have "c = 0" using \<open>\<not> bit c 0\<close> by (intro bit_eqI) (metis bit_0_eq bot_apply bot_bool_def not0_implies_Suc)
  then show False using assms(2) by simp
qed

lemma crc_feed_linear: "length as = length bs \<Longrightarrow>
   crc_feed poly (c XOR d) (map2 (\<noteq>) as bs) = crc_feed poly c as XOR crc_feed poly d bs"
proof (induction as bs arbitrary: c d rule: list_induct2)
  case (Cons a as b bs)
  have "(c XOR d) XOR of_bool (a \<noteq> b) = (c XOR of_bool a) XOR (d XOR of_bool b)"
    by (rule bit_word_eqI) (cases a; cases b; auto simp: bit_xor_iff bit_1_iff)
  then show ?case using Cons.IH by (simp add: crc_shift_xor)
qed simp

lemma crc_feed_zeros: "crc_feed poly 0 (replicate n False) = 0"
  by (induction n) simp_all

lemma crc_feed_zeros_nonzero:
  assumes "bit poly (LENGTH('a) - 1)"
  shows "c \<noteq> 0 \<Longrightarrow> crc_feed (poly :: 'a::len word) c (replicate n False) \<noteq> 0"
  by (induction n arbitrary: c) (simp_all add: crc_shift_nonzero [OF assms])

lemma crc_shift_push:
  fixes v :: "'a::len word"
  assumes "take_bit (LENGTH('a) - 1) v = v"
  shows "crc_shift poly (push_bit 1 v) = v"
proof -
  have "\<not> bit (push_bit 1 v) 0" by (simp only: bit_push_bit_iff) simp
  then have "crc_shift poly (push_bit 1 v) = drop_bit 1 (push_bit 1 v)" by (simp only: crc_shift_def if_False xor.right_neutral)
  also have "\<dots> = v"
  proof (rule bit_word_eqI)
    fix i
    have "bit v i \<Longrightarrow> i < LENGTH('a) - 1" using assms by (metis bit_take_bit_iff)
    then show "bit (drop_bit 1 (push_bit 1 v)) i = bit v i"
      by (simp only: bit_drop_bit_eq comp_apply bit_push_bit_iff) (auto simp: less_diff_conv)
  qed
  finally show ?thesis .
qed

lemma crc_feed_push:
  fixes v :: "'a::len word"
  assumes "take_bit (LENGTH('a) - n) v = v" and "n \<le> LENGTH('a)"
  shows "crc_feed poly (push_bit n v) (replicate n False) = v"
  using assms
proof (induction n)
  case (Suc n)
  have low: "bit v i \<Longrightarrow> i < LENGTH('a) - Suc n" for i using Suc.prems(1) by (metis bit_take_bit_iff)
  have "bit (push_bit n v) i \<Longrightarrow> i < LENGTH('a) - 1" for i using low [of "i - n"] by (auto simp: bit_push_bit_iff)
  then have "take_bit (LENGTH('a) - 1) (push_bit n v) = push_bit n v"
    by (intro bit_word_eqI) (auto simp only: bit_take_bit_iff)
  then have "crc_shift poly (push_bit 1 (push_bit n v)) = push_bit n v" by (rule crc_shift_push)
  moreover have "push_bit (Suc n) v = push_bit 1 (push_bit n v)" by (simp only: push_bit_push_bit) simp
  moreover have "take_bit (LENGTH('a) - n) v = v"
  proof (rule bit_word_eqI)
    fix i
    show "bit (take_bit (LENGTH('a) - n) v) i = bit v i" using low [of i] by (auto simp: bit_take_bit_iff)
  qed
  ultimately show ?case using Suc by simp
qed simp

text \<open>As many bits as the register holds can be put into it at once.\<close>

lemma crc_feed_at_once:
  fixes w :: "'a::len word"
  assumes "n \<le> LENGTH('a)"
  shows "crc_feed poly c (map (bit w) [0..<n]) = crc_feed poly (c XOR take_bit n w) (replicate n False)"
  using assms
proof (induction n arbitrary: c w)
  case (Suc n)
  have row: "map (bit w) [0..<Suc n] = bit w 0 # map (bit (drop_bit 1 w)) [0..<n]"
    unfolding upt_conv_Cons [OF zero_less_Suc] map_Suc_upt [symmetric] by (simp add: bit_drop_bit_eq)
  let ?v = "take_bit n (drop_bit 1 w)"
  have split: "take_bit (Suc n) w = of_bool (bit w 0) XOR push_bit 1 ?v"
  proof (rule bit_word_eqI)
    fix i
    assume "i < LENGTH('a)"
    then show "bit (take_bit (Suc n) w) i = bit (of_bool (bit w 0) XOR push_bit 1 ?v) i"
      by (cases i) (simp_all only: bit_take_bit_iff bit_xor_iff bit_push_bit_iff bit_of_bool_iff bit_drop_bit_eq comp_apply, simp_all)
  qed
  have "take_bit (LENGTH('a) - 1) ?v = take_bit (min (LENGTH('a) - 1) n) (drop_bit 1 w)" by (rule take_bit_take_bit)
  then have "take_bit (LENGTH('a) - 1) ?v = ?v" using Suc.prems by (simp add: min.absorb2)
  then have "crc_shift poly (c XOR take_bit (Suc n) w) = crc_shift poly (c XOR of_bool (bit w 0)) XOR ?v"
    by (simp only: split crc_shift_xor crc_shift_push xor.assoc [symmetric])
  then show ?case using Suc.IH [of "crc_shift poly (c XOR of_bool (bit w 0))" "drop_bit 1 w"] Suc.prems
    unfolding row by simp
qed simp

lemma crc_feed_xor: "crc_feed poly (c XOR d) (replicate n False) = crc_feed poly c (replicate n False) XOR crc_feed poly d (replicate n False)"
  by (induction n arbitrary: c d) (simp_all add: crc_shift_xor)

section \<open>The tables\<close>

lemma lowest_bit: "c AND 1 \<noteq> 0 \<longleftrightarrow> bit (c :: 'a::len word) 0"
  by (simp add: and_one_eq odd_iff_mod_2_eq_one bit_0)

lemma crc8_bits_feed: "crc8_bits n c = crc_feed CRC_X8 c (replicate n False)"
  by (induction n arbitrary: c) (simp_all add: crc_shift_def lowest_bit)

lemma crc16_bits_feed: "crc16_bits n c = crc_feed CRC_X c (replicate n False)"
  by (induction n arbitrary: c) (simp_all add: crc_shift_def lowest_bit)

lemma u16_bit: "bit (x :: u16) n \<Longrightarrow> n < 16"
  using bit_imp_le_length by fastforce

lemma octet_index: "unat (x :: u8) < 256"
  using unsigned_less [of x] by simp

lemma crc8_octet_feed: "crc8_octet c x = crc_feed CRC_X8 c (lsb_bits 8 x)"
proof -
  have "crc8_octet c x = crc_feed CRC_X8 (c XOR x) (replicate 8 False)"
    using octet_index [of "c XOR x"] by (simp add: crc8_octet_def CrcTbl8_def crc8_bits_feed)
  also have "\<dots> = crc_feed CRC_X8 c (lsb_bits 8 x)"
    using crc_feed_at_once [of 8 CRC_X8 c x] by (simp add: lsb_bits_def take_bit_word_eq_self)
  finally show ?thesis .
qed

lemma crc16_octet_feed: "crc16_octet c x = crc_feed CRC_X c (lsb_bits 8 x)"
proof -
  let ?z = "replicate 8 False" and ?i = "ucast (ucast c XOR x) :: u16" and ?h = "drop_bit 8 c"
  have "crc16_octet c x = ?h XOR crc_feed CRC_X ?i ?z"
    using octet_index [of "ucast c XOR x"] by (simp add: crc16_octet_def CrcTbl16_def crc16_bits_feed)
  also have "?h = crc_feed CRC_X (push_bit 8 ?h) ?z"
  proof (rule crc_feed_push [symmetric])
    have "bit c (8 + n) \<Longrightarrow> n < 8" for n using u16_bit [of c "8 + n"] by simp
    then show "take_bit (LENGTH(16) - 8) ?h = ?h" by (intro bit_word_eqI) (auto simp: bit_take_bit_iff bit_drop_bit_eq)
  qed simp
  also have "crc_feed CRC_X (push_bit 8 ?h) ?z XOR crc_feed CRC_X ?i ?z = crc_feed CRC_X (push_bit 8 ?h XOR ?i) ?z"
    by (simp only: crc_feed_xor)
  also have "push_bit 8 ?h XOR ?i = c XOR take_bit 8 (ucast x)"
    by (rule bit_word_eqI) (auto simp: bit_simps octet_high)
  also have "crc_feed CRC_X (c XOR take_bit 8 (ucast x)) ?z = crc_feed CRC_X c (map (bit (ucast x :: u16)) [0..<8])"
    by (rule crc_feed_at_once [symmetric]) simp
  also have "map (bit (ucast x :: u16)) [0..<8] = lsb_bits 8 x"
    unfolding lsb_bits_def by (rule map_cong) (auto simp: bit_simps)
  finally show ?thesis .
qed

lemma crc8_feed: "foldl crc8_octet c xs = crc_feed CRC_X8 c (line_bits xs)"
  by (induction xs arbitrary: c) (simp_all add: crc8_octet_feed)

lemma crc16_feed: "foldl crc16_octet c xs = crc_feed CRC_X c (line_bits xs)"
  by (induction xs arbitrary: c) (simp_all add: crc16_octet_feed)

section \<open>Bursts\<close>

text \<open>A burst of at most \<open>n\<close> bits: the errors lie within \<open>n\<close> consecutive bits.\<close>

definition burst :: "nat \<Rightarrow> bool list \<Rightarrow> bool" where
  "burst n bs \<longleftrightarrow> (\<exists>k w m. bs = replicate k False @ w @ replicate m False \<and> length w \<le> n \<and> True \<in> set w)"

lemma burst_remains:
  fixes poly :: "'a::len word"
  assumes "bit poly (LENGTH('a) - 1)" and "burst LENGTH('a) bs"
  shows "crc_feed poly 0 bs \<noteq> 0"
proof -
  obtain k w m where bs: "bs = replicate k False @ w @ replicate m False" "length w \<le> LENGTH('a)" "True \<in> set w"
    using assms(2) by (auto simp: burst_def)
  define v :: "'a word" where "v = horner_sum of_bool 2 w"
  have v: "bit v i \<longleftrightarrow> i < length w \<and> w ! i" for i
    using bs(2) by (auto simp: v_def bit_horner_sum_bit_word_iff dest: bit_imp_le_length)
  have "map (bit v) [0..<length w] = w" by (rule nth_equalityI) (simp_all add: v)
  moreover have "take_bit (length w) v = v" by (rule bit_word_eqI) (auto simp: bit_take_bit_iff v)
  ultimately have "crc_feed poly 0 w = crc_feed poly v (replicate (length w) False)"
    using crc_feed_at_once [OF bs(2), of poly 0 v] by simp
  moreover obtain i where "i < length w" "w ! i" using bs(3) by (metis in_set_conv_nth)
  then have "v \<noteq> 0" using v [of i] by auto
  ultimately have "crc_feed poly 0 w \<noteq> 0" using crc_feed_zeros_nonzero [OF assms(1)] by simp
  then show ?thesis using crc_feed_zeros_nonzero [OF assms(1)] by (simp add: bs(1) crc_feed_zeros)
qed

end
