(* ===== verification/AdaptationLayer.thy ===== *)
theory AdaptationLayer
  imports CrcCheck
begin

text \<open>
  The adaptation layers of H.223 (\<^verbatim>\<open>h223/src/adaptationlayer.cpp\<close>): layer 1 leaves a packet as it is, layer 2 adds
  an optional sequence number of one octet and a check sum of 8 bits, layer 3 a sequence number of 7 or 15 bits and
  a check sum of 16 bits.

  A packet is the list of its media fragments. The sender writes into the header fragment that \<^verbatim>\<open>StartPacket\<close>
  appended; \<open>allocated\<close> says whether the pool has a fragment. An octet outside a fragment and a fragment outside the
  packet is a fault.
\<close>

record al_info =
  sdu_size :: int
  crc_error :: bool
  seq_num :: u32
  seq_num_error :: u32

definition int16_of :: "int \<Rightarrow> int" where
  "int16_of n = sint (word_of_int n :: u16)"

definition filled_size :: "u8 list list \<Rightarrow> int" where
  "filled_size pkt = int (length (concat pkt))"

definition PV2WAY_MAX_PACKET_MEM_FRAG :: nat where
  "PV2WAY_MAX_PACKET_MEM_FRAG = 32"

section \<open>Layer 1\<close>

definition al1_CompletePacket :: "u8 list list \<Rightarrow> u8 list list" where
  "al1_CompletePacket pkt = pkt"

definition al1_ParsePacket :: "u8 list list \<Rightarrow> u8 list list \<times> al_info" where
  "al1_ParsePacket pkt =
     (pkt, \<lparr> sdu_size = int16_of (filled_size pkt), crc_error = False, seq_num = 0, seq_num_error = 0 \<rparr>)"

section \<open>Layer 2\<close>

record al2 =
  al2_iSNPos :: nat
  al2_iHdrSz :: nat
  al2_iTrlrSz :: nat
  al2_iSeqNum :: u32

definition PV2WAY_H223_AL2_SN_WRAPAROUND :: u32 where
  "PV2WAY_H223_AL2_SN_WRAPAROUND = 256"

definition SetSeqnum :: "bool \<Rightarrow> al2 \<Rightarrow> al2" where
  "SetSeqnum on_off s = (if on_off then s\<lparr>al2_iSNPos := 1, al2_iHdrSz := 1\<rparr> else s\<lparr>al2_iSNPos := 0, al2_iHdrSz := 0\<rparr>)"

definition new_al2 :: "bool \<Rightarrow> al2" where
  "new_al2 seqno = (SetSeqnum seqno \<lparr> al2_iSNPos = 0, al2_iHdrSz = 0, al2_iTrlrSz = 1, al2_iSeqNum = 0 \<rparr>)\<lparr>al2_iSeqNum := 0\<rparr>"

text \<open>The header fragment comes from the pool with any contents.\<close>

definition al2_StartPacket :: "u8 list option \<Rightarrow> al2 \<Rightarrow> u8 list list \<Rightarrow> mux_fault + u8 list list" where
  "al2_StartPacket hdr_frag s pkt =
     (if al2_iSNPos s \<noteq> 0 then
        (case hdr_frag of None \<Rightarrow> Inl PVMFErrNoMemory | Some frag \<Rightarrow> Inr (pkt @ [take 1 frag]))
      else Inr pkt)"

definition al2_CompletePacket :: "bool \<Rightarrow> al2 \<Rightarrow> u8 list list \<Rightarrow> mux_fault + (al2 \<times> u8 list list)" where
  "al2_CompletePacket allocated s pkt =
     (if \<not> allocated then Inl PVMFErrNoMemory
      else
        bind_res
          (if al2_iSNPos s \<noteq> 0 then
             (case pkt of
                (h # hs) # fs \<Rightarrow>
                  Inr (s\<lparr>al2_iSeqNum := (if al2_iSeqNum s \<noteq> 0xff then al2_iSeqNum s + 1 else 0)\<rparr>,
                       (ucast (al2_iSeqNum s) # hs) # fs)
              | _ \<Rightarrow> Inl BadIndex)
           else Inr (s, pkt))
          (\<lambda>(s1, pkt1). bind_res (Crc8Check False pkt1) (\<lambda>Crc. Inr (s1, pkt1 @ [[Crc]]))))"

text \<open>What follows the second \<^verbatim>\<open>if\<close> in the code of the sequence error is a block, not an \<^verbatim>\<open>else\<close>.\<close>

definition al2_sequence :: "al2 \<Rightarrow> u8 \<Rightarrow> al_info \<Rightarrow> al2 \<times> al_info" where
  "al2_sequence s SeqNum info =
     (if al2_iSeqNum s = ucast SeqNum then
        (s\<lparr>al2_iSeqNum := (al2_iSeqNum s + 1) mod PV2WAY_H223_AL2_SN_WRAPAROUND\<rparr>, info)
      else
        let info1 = (if al2_iSeqNum s > ucast SeqNum then
                       info\<lparr>seq_num_error := (PV2WAY_H223_AL2_SN_WRAPAROUND - al2_iSeqNum s) + ucast SeqNum\<rparr>
                     else info);
            info2 = info1\<lparr>seq_num_error := ucast SeqNum - al2_iSeqNum s\<rparr>
        in (s\<lparr>al2_iSeqNum := (ucast SeqNum + 1) mod PV2WAY_H223_AL2_SN_WRAPAROUND\<rparr>, info2))"

definition al2_ParsePacket :: "al2 \<Rightarrow> u8 list list \<Rightarrow> mux_fault + (al2 \<times> u8 list list \<times> al_info)" where
  "al2_ParsePacket s pkt =
     (let info = \<lparr> sdu_size = int16_of (filled_size pkt - int (al2_iSNPos s) - 1), crc_error = False,
                   seq_num = al2_iSeqNum s, seq_num_error = 0 \<rparr>
      in if sdu_size info \<le> 0 then Inr (s, pkt, info)
         else if pkt = [] \<or> last pkt = [] then Inl BadIndex
         else
           let Crc = last (last pkt);
               pkt1 = butlast pkt @ [butlast (last pkt)];
               first_frag = hd pkt1
           in bind_res (Crc8Check False pkt1)
                (\<lambda>CrcCheck.
                   bind_res
                     (if Crc \<noteq> CrcCheck then
                        Inr (s\<lparr>al2_iSeqNum := (al2_iSeqNum s + 1) mod PV2WAY_H223_AL2_SN_WRAPAROUND\<rparr>,
                             first_frag, info\<lparr>crc_error := True\<rparr>)
                      else if al2_iSNPos s = 1 then
                        (case first_frag of
                           [] \<Rightarrow> Inl BadIndex
                         | SeqNum # rest \<Rightarrow>
                             let (s1, info1) = al2_sequence s SeqNum info in Inr (s1, rest, info1))
                      else Inr (s, first_frag, info))
                     (\<lambda>(s1, first_frag1, info1).
                        Inr (s1,
                             if al2_iSNPos s \<noteq> 0 \<and> length pkt1 \<le> PV2WAY_MAX_PACKET_MEM_FRAG then pkt1[0 := first_frag1] else pkt1,
                             info1))))"

section \<open>Layer 3\<close>

record al3 =
  al3_iSNPos :: nat
  al3_iHdrSz :: nat
  al3_iTrlrSz :: nat
  al3_iSeqNum :: u32
  al3_iPktNum :: u32

definition new_al3 :: "nat \<Rightarrow> al3" where
  "new_al3 snpos = \<lparr> al3_iSNPos = snpos, al3_iHdrSz = snpos, al3_iTrlrSz = 2, al3_iSeqNum = 0, al3_iPktNum = 0 \<rparr>"

definition SetSeqnumSz :: "u16 \<Rightarrow> al3 \<Rightarrow> al3" where
  "SetSeqnumSz sz s = s\<lparr>al3_iSNPos := unat sz, al3_iHdrSz := unat sz\<rparr>"

definition PV2WAY_H223_AL3_SNPOS1_VRMAX :: u32 where
  "PV2WAY_H223_AL3_SNPOS1_VRMAX = 0x7F"

definition PV2WAY_H223_AL3_SNPOS2_VRMAX :: u32 where
  "PV2WAY_H223_AL3_SNPOS2_VRMAX = 0x7FFF"

definition al3_StartPacket :: "u8 list option \<Rightarrow> al3 \<Rightarrow> u8 list list \<Rightarrow> mux_fault + u8 list list" where
  "al3_StartPacket hdr_frag s pkt =
     (if al3_iSNPos s \<noteq> 0 then
        (case hdr_frag of None \<Rightarrow> Inl PVMFErrNoMemory | Some frag \<Rightarrow> Inr (pkt @ [take (al3_iSNPos s) frag]))
      else Inr pkt)"

definition al3_next :: "u32 \<Rightarrow> al3 \<Rightarrow> al3" where
  "al3_next VrMax s = s\<lparr>al3_iSeqNum := (if al3_iSeqNum s \<noteq> VrMax then al3_iSeqNum s + 1 else 0)\<rparr>"

definition al3_CompletePacket :: "bool \<Rightarrow> al3 \<Rightarrow> u8 list list \<Rightarrow> mux_fault + (al3 \<times> u8 list list)" where
  "al3_CompletePacket allocated s pkt =
     (if \<not> allocated then Inl PVMFErrNoMemory
      else
        let usTmp = al3_iSeqNum s in
        bind_res
          (if al3_iSNPos s = 1 then
             (case pkt of
                (h # hs) # fs \<Rightarrow>
                  Inr (al3_next PV2WAY_H223_AL3_SNPOS1_VRMAX s, (ucast (push_bit 1 usTmp OR 1) # hs) # fs)
              | _ \<Rightarrow> Inl BadIndex)
           else if al3_iSNPos s = 2 then
             (case pkt of
                (h1 # h2 # hs) # fs \<Rightarrow>
                  Inr (al3_next PV2WAY_H223_AL3_SNPOS2_VRMAX s, (ucast (drop_bit 7 usTmp OR 1) # ucast (usTmp AND 0xff) # hs) # fs)
              | _ \<Rightarrow> Inl BadIndex)
           else Inr (s, pkt))
          (\<lambda>(s1, pkt1). bind_res (Crc16Check False pkt1)
             (\<lambda>Crc. Inr (s1, pkt1 @ [[ucast (Crc AND 0xff), ucast (drop_bit 8 Crc)]]))))"

text \<open>Sequence number and largest number.\<close>

definition al3_header :: "nat \<Rightarrow> u8 list \<Rightarrow> mux_fault + (u16 \<times> u16)" where
  "al3_header iSNPos first_frag =
     (if iSNPos = 1 then
        (case first_frag of
           b0 # _ \<Rightarrow> Inr (ucast (drop_bit 1 b0), ucast PV2WAY_H223_AL3_SNPOS1_VRMAX)
         | _ \<Rightarrow> Inl BadIndex)
      else if iSNPos = 2 then
        (case first_frag of
           b0 # b1 # _ \<Rightarrow> Inr (push_bit 8 (ucast (drop_bit 1 b0)) OR ucast b1, ucast PV2WAY_H223_AL3_SNPOS2_VRMAX)
         | _ \<Rightarrow> Inl BadIndex)
      else Inr (0, 0))"

text \<open>The received check sum, and the packet without it.\<close>

definition al3_trailer :: "u8 list list \<Rightarrow> mux_fault + (u16 \<times> u8 list list)" where
  "al3_trailer pkt =
     (let last_frag = last pkt in
      if 2 \<le> length last_frag then
        Inr (push_bit 8 (ucast (last last_frag)) OR ucast (last (butlast last_frag)),
             butlast pkt @ [take (length last_frag - 2) last_frag])
      else if last_frag = [] \<or> length pkt < 2 \<or> last (butlast pkt) = [] then Inl BadIndex
      else
        let second_last_frag = last (butlast pkt)
        in Inr (push_bit 8 (ucast (hd last_frag)) OR ucast (last second_last_frag),
                butlast (butlast pkt) @ [butlast second_last_frag, butlast last_frag]))"

definition al3_sequence :: "al3 \<Rightarrow> u16 \<Rightarrow> u16 \<Rightarrow> al_info \<Rightarrow> al3 \<times> al_info" where
  "al3_sequence s SeqNum VrMax info =
     (if al3_iSeqNum s = ucast SeqNum then (al3_next (ucast VrMax) s, info)
      else
        let info1 = (if al3_iSeqNum s > ucast SeqNum then
                       info\<lparr>seq_num_error := ((ucast VrMax + 1) - al3_iSeqNum s) + ucast SeqNum\<rparr>
                     else info);
            info2 = info1\<lparr>seq_num_error := ucast SeqNum - al3_iSeqNum s\<rparr>
        in (s\<lparr>al3_iSeqNum := ucast (ucast ((ucast SeqNum + 1) mod (ucast VrMax + 1) :: u32) :: u16)\<rparr>, info2))"

definition al3_ParsePacket :: "al3 \<Rightarrow> u8 list list \<Rightarrow> mux_fault + (al3 \<times> u8 list list \<times> al_info)" where
  "al3_ParsePacket s pkt =
     (let s = s\<lparr>al3_iPktNum := al3_iPktNum s + 1\<rparr>;
          info = \<lparr> sdu_size = int16_of (filled_size pkt - int (al3_iSNPos s) - 2), crc_error = False,
                   seq_num = al3_iSeqNum s, seq_num_error = 0 \<rparr>
      in if sdu_size info \<le> 0 then Inr (s, pkt, info)
         else if pkt = [] then Inl BadIndex
         else
           bind_res (al3_header (al3_iSNPos s) (hd pkt))
             (\<lambda>(SeqNum, VrMax).
                bind_res (al3_trailer pkt)
                  (\<lambda>(Crc, pkt1).
                     bind_res (Crc16Check False pkt1)
                       (\<lambda>check.
                          let (s1, info1) =
                            (if Crc \<noteq> check then (al3_next (ucast VrMax) s, info\<lparr>crc_error := True\<rparr>)
                             else al3_sequence s SeqNum VrMax info)
                          in if al3_iSNPos s \<noteq> 0 then
                               if length (hd pkt1) < al3_iSNPos s \<or> PV2WAY_MAX_PACKET_MEM_FRAG < length pkt1 then Inl BadIndex
                               else Inr (s1, pkt1[0 := drop (al3_iSNPos s) (hd pkt1)], info1)
                             else Inr (s1, pkt1, info1)))))"

end
