(* ===== verification/AdaptationProps.thy ===== *)
theory AdaptationProps
  imports AdaptationLayer
begin

text \<open>
  Layer 3 delivers what is sent, in whatever fragments it arrives, and reports lost packets; a burst of errors as
  long as the check sum is noticed. A damaged packet of layer 2 keeps its sequence number.
\<close>

section \<open>Sending at layer 3\<close>

definition sn_octets :: "nat \<Rightarrow> u32 \<Rightarrow> u8 list" where
  "sn_octets snpos a =
     (if snpos = 1 then [ucast (push_bit 1 a OR 1)] else if snpos = 2 then [ucast (drop_bit 7 a OR 1), ucast (a AND 0xff)] else [])"

definition crc_octets :: "u16 \<Rightarrow> u8 list" where
  "crc_octets c = [ucast (c AND 0xff), ucast (drop_bit 8 c)]"

definition al3_octets :: "nat \<Rightarrow> u32 \<Rightarrow> u8 list \<Rightarrow> u8 list" where
  "al3_octets snpos a sdu = sn_octets snpos a @ sdu @ crc_octets (Crc16Check_octets (sn_octets snpos a @ sdu))"

definition al3_modulus :: "nat \<Rightarrow> nat" where
  "al3_modulus snpos = (if snpos = 1 then 128 else 32768)"

definition al3_send :: "u8 list \<Rightarrow> al3 \<Rightarrow> u8 list list \<Rightarrow> mux_fault + (al3 \<times> u8 list list)" where
  "al3_send frag s fs = bind_res (al3_StartPacket (Some frag) s []) (\<lambda>p. al3_CompletePacket True s (p @ fs))"

definition fragments_ok :: "u8 list list \<Rightarrow> bool" where
  "fragments_ok fs \<longleftrightarrow> fs \<noteq> [] \<and> list_all (\<lambda>f. f \<noteq> []) fs"

definition al3_at :: "nat \<Rightarrow> nat \<Rightarrow> al3 \<Rightarrow> bool" where
  "al3_at snpos a s \<longleftrightarrow> al3_iSNPos s = snpos \<and> al3_iSeqNum s = of_nat a \<and> a < al3_modulus snpos"

lemma al3_next_at:
  assumes "al3_at snpos a s" and "VrMax = of_nat (al3_modulus snpos - 1)"
  shows "al3_at snpos (Suc a mod al3_modulus snpos) (al3_next VrMax s)"
proof -
  have a: "a < al3_modulus snpos" "al3_modulus snpos \<le> 32768" "0 < al3_modulus snpos"
    using assms(1) by (simp_all add: al3_at_def al3_modulus_def)
  have "unat (of_nat k :: u32) = k" if "k < al3_modulus snpos" for k using that a(2) by (simp add: unat_of_nat)
  then have "(of_nat a :: u32) = of_nat (al3_modulus snpos - 1) \<longleftrightarrow> a = al3_modulus snpos - 1"
    using a by (metis diff_less zero_less_one)
  then show ?thesis using assms a by (cases "Suc a = al3_modulus snpos") (auto simp: al3_at_def al3_next_def)
qed

lemma VrMax: "snpos = 1 \<Longrightarrow> PV2WAY_H223_AL3_SNPOS1_VRMAX = of_nat (al3_modulus snpos - 1)"
  "snpos = 2 \<Longrightarrow> PV2WAY_H223_AL3_SNPOS2_VRMAX = of_nat (al3_modulus snpos - 1)"
  by (simp_all add: al3_modulus_def PV2WAY_H223_AL3_SNPOS1_VRMAX_def PV2WAY_H223_AL3_SNPOS2_VRMAX_def)

lemma al3_sent:
  assumes at: "al3_at snpos a s" and snpos: "snpos = 1 \<or> snpos = 2" and frag: "2 \<le> length frag" and fs: "fragments_ok fs"
  shows "\<exists>t pkt. al3_send frag s fs = Inr (t, pkt) \<and> concat pkt = al3_octets snpos (of_nat a) (concat fs)
     \<and> al3_at snpos (Suc a mod al3_modulus snpos) t"
proof -
  have s: "al3_iSNPos s = snpos" "al3_iSeqNum s = of_nat a" using at by (simp_all add: al3_at_def)
  have f: "list_all (\<lambda>f. f \<noteq> []) (sn_octets snpos (of_nat a) # fs)" using fs snpos by (auto simp: fragments_ok_def sn_octets_def)
  have crc: "Crc16Check False (sn_octets snpos (of_nat a) # fs) = Inr (Crc16Check_octets (sn_octets snpos (of_nat a) @ concat fs))"
    using Crc16Check_fragments [OF f, of "[]"] by simp
  obtain h1 h2 hs where h: "frag = h1 # h2 # hs" using frag by (auto simp: numeral_2_eq_2 Suc_le_length_iff)
  have sent: "al3_send frag s fs = Inr (al3_next (of_nat (al3_modulus snpos - 1)) s,
      (sn_octets snpos (of_nat a) # fs) @ [crc_octets (Crc16Check_octets (sn_octets snpos (of_nat a) @ concat fs))])"
    using snpos s crc VrMax [of snpos] unfolding h
    by (auto simp: al3_send_def al3_StartPacket_def al3_CompletePacket_def sn_octets_def crc_octets_def Let_def)
  then show ?thesis using al3_next_at [OF at] by (auto simp: al3_octets_def)
qed

section \<open>Receiving at layer 3\<close>

lemma last_two:
  assumes "xs @ [a, b] = ys @ zs" and "2 \<le> length zs"
  shows "\<exists>ws. zs = ws @ [a, b] \<and> xs = ys @ ws"
proof -
  have "zs = take (length zs - 2) zs @ drop (length zs - 2) zs" by simp
  then have "(xs @ [a, b]) = (ys @ take (length zs - 2) zs) @ drop (length zs - 2) zs" using assms(1) by simp
  moreover have "length (drop (length zs - 2) zs) = 2" using assms(2) by simp
  ultimately have "xs = ys @ take (length zs - 2) zs \<and> [a, b] = drop (length zs - 2) zs"
    by (subst (asm) append_eq_append_conv) simp_all
  then show ?thesis by (metis append_take_drop_id)
qed

lemma trailer_removed:
  assumes "list_all (\<lambda>f. f \<noteq> []) pkt" and "concat pkt = xs @ [c0, c1]" and "xs \<noteq> []"
  shows "\<exists>front rest. al3_trailer pkt = Inr (push_bit 8 (ucast c1) OR ucast c0, front @ rest)
     \<and> list_all (\<lambda>f. f \<noteq> []) front \<and> concat rest = [] \<and> concat front = xs \<and> length (front @ rest) = length pkt
     \<and> (\<forall>n. n \<le> length (hd pkt) \<and> n \<le> length xs \<longrightarrow> n \<le> length (hd front))"
proof -
  have ne: "pkt \<noteq> []" using assms(2) by auto
  then obtain ps l where p: "pkt = ps @ [l]" by (metis append_butlast_last_id)
  have l: "l \<noteq> []" "list_all (\<lambda>f. f \<noteq> []) ps" "xs @ [c0, c1] = concat ps @ l" using assms p by simp_all
  show ?thesis
  proof (cases "2 \<le> length l")
    case True
    then obtain ws where w: "l = ws @ [c0, c1]" "xs = concat ps @ ws" using last_two [OF l(3)] by blast
    have t: "al3_trailer pkt = Inr (push_bit 8 (ucast c1) OR ucast c0, ps @ [ws])"
      using True w(1) by (simp add: p al3_trailer_def butlast_append)
    show ?thesis
    proof (cases "ws = []")
      case True
      then have "ps \<noteq> []" using w(2) assms(3) by auto
      then show ?thesis using t True w l(2) by (intro exI [of _ ps] exI [of _ "[[]]"]) (simp add: p)
    next
      case False
      then show ?thesis using t w l(2) by (intro exI [of _ "ps @ [ws]"] exI [of _ "[]"]) (cases ps; auto simp: p)
    qed
  next
    case False
    then obtain c where "l = [c]" using l(1) by (cases l) (auto simp: numeral_2_eq_2 Suc_le_eq)
    then have c: "l = [c1]" "concat ps = xs @ [c0]" using l(3) by (simp_all flip: append_assoc)
    then obtain qs m where q: "ps = qs @ [m]" by (metis append_butlast_last_id concat.simps(1) snoc_eq_iff_butlast)
    have "m \<noteq> []" using l(2) q by simp
    then obtain ws where w: "m = ws @ [c0]" "xs = concat qs @ ws" using c(2) q
      by (metis append_assoc append_butlast_last_id butlast_snoc concat.simps concat_append append_Nil2 last_appendR last_snoc)
    have t: "al3_trailer pkt = Inr (push_bit 8 (ucast c1) OR ucast c0, qs @ [ws] @ [[]])"
      using w(1) by (simp add: p q c(1) al3_trailer_def butlast_append)
    show ?thesis
    proof (cases "ws = []")
      case True
      then have "qs \<noteq> []" using w(2) assms(3) by auto
      then show ?thesis using t True w l(2) by (intro exI [of _ qs] exI [of _ "[[], []]"]) (simp add: p q)
    next
      case False
      then show ?thesis using t w l(2) by (intro exI [of _ "qs @ [ws]"] exI [of _ "[[]]"]) (cases qs; auto simp: p q)
    qed
  qed
qed

text \<open>The fragments in which a packet arrives: not empty, not more than the receiver copies, and the sequence number
  in the first one.\<close>

definition arrives_as :: "nat \<Rightarrow> u8 list \<Rightarrow> u8 list list \<Rightarrow> bool" where
  "arrives_as snpos octets pkt \<longleftrightarrow>
     concat pkt = octets \<and> list_all (\<lambda>f. f \<noteq> []) pkt \<and> length pkt \<le> PV2WAY_MAX_PACKET_MEM_FRAG \<and> snpos \<le> length (hd pkt)"

lemma int16_of_small: "0 \<le> n \<Longrightarrow> n \<le> 32767 \<Longrightarrow> int16_of n = n"
  by (simp add: int16_of_def sint_word_ariths signed_of_int signed_take_bit_int_eq_self)

lemma al3_header_take: "snpos = 1 \<or> snpos = 2 \<Longrightarrow> length xs = snpos \<Longrightarrow> al3_header snpos (xs @ ys) = al3_header snpos xs"
  by (auto simp: al3_header_def numeral_2_eq_2 length_Suc_conv split: list.splits)

lemma al3_parsed:
  assumes snpos: "snpos = 1 \<or> snpos = 2" "al3_iSNPos r = snpos" and sn: "length sn = snpos" "al3_header snpos sn = Inr (SeqNum, VrMax)"
    and sdu: "sdu \<noteq> []" "length sdu \<le> 32767" and pkt: "arrives_as snpos (sn @ sdu @ [c0, c1]) pkt"
  defines "r1 \<equiv> r\<lparr>al3_iPktNum := al3_iPktNum r + 1\<rparr>"
    and "info \<equiv> \<lparr> sdu_size = int (length sdu), crc_error = False, seq_num = al3_iSeqNum r, seq_num_error = 0 \<rparr>"
  shows "\<exists>pkt'. concat pkt' = sdu \<and> al3_ParsePacket r pkt =
     Inr (let (s1, info1) = (if push_bit 8 (ucast c1) OR ucast c0 \<noteq> Crc16Check_octets (sn @ sdu)
                             then (al3_next (ucast VrMax) r1, info\<lparr>crc_error := True\<rparr>) else al3_sequence r1 SeqNum VrMax info)
          in (s1, pkt', info1))"
proof -
  have p: "concat pkt = (sn @ sdu) @ [c0, c1]" "list_all (\<lambda>f. f \<noteq> []) pkt" "length pkt \<le> PV2WAY_MAX_PACKET_MEM_FRAG"
      "snpos \<le> length (hd pkt)" using pkt by (simp_all add: arrives_as_def)
  obtain front rest where f: "al3_trailer pkt = Inr (push_bit 8 (ucast c1) OR ucast c0, front @ rest)"
      "list_all (\<lambda>f. f \<noteq> []) front" "concat rest = []" "concat front = sn @ sdu" "length (front @ rest) = length pkt"
      "snpos \<le> length (hd pkt) \<and> snpos \<le> length (sn @ sdu) \<longrightarrow> snpos \<le> length (hd front)"
    using trailer_removed [OF p(2,1)] sdu(1) by blast
  have ne: "pkt \<noteq> []" "front \<noteq> []" using p(1) f(4) sdu(1) by auto
  then have hd: "snpos \<le> length (hd (front @ rest))" using f(6) p(4) sn(1) by simp
  have "filled_size pkt - int snpos - 2 = int (length sdu)" using sn(1) by (simp add: filled_size_def p(1))
  then have size: "int16_of (filled_size pkt - int snpos - 2) = int (length sdu)" using sdu(2) by (simp add: int16_of_small)
  have start: "\<exists>ys. xs = sn @ ys" if "concat (xs # xss) = sn @ zs" "snpos \<le> length xs" for xs xss zs
    using that sn(1) by (auto simp: append_eq_append_conv2 intro: exI [of _ "drop snpos xs"])
  obtain ys where "hd pkt = sn @ ys" using start [of "hd pkt" "tl pkt"] p(1,4) ne(1) by auto
  then have header: "al3_header snpos (hd pkt) = Inr (SeqNum, VrMax)" using al3_header_take [OF snpos(1) sn(1)] sn(2) by simp
  have check: "Crc16Check False (front @ rest) = Inr (Crc16Check_octets (sn @ sdu))"
    using Crc16Check_fragments [OF f(2,3)] f(4) by simp
  obtain x xs where x: "front = x # xs" using ne(2) by (cases front) auto
  define pkt' where "pkt' = (front @ rest)[0 := drop snpos (hd (front @ rest))]"
  have "concat pkt' = drop snpos x @ concat xs" using f(3) by (simp add: pkt'_def x)
  also have "\<dots> = drop snpos (x @ concat xs)" using hd by (simp add: x)
  also have "x @ concat xs = sn @ sdu" using f(4) by (simp add: x)
  finally have "concat pkt' = sdu" using sn(1) by simp
  moreover have "al3_ParsePacket r pkt =
     Inr (let (s1, info1) = (if push_bit 8 (ucast c1) OR ucast c0 \<noteq> Crc16Check_octets (sn @ sdu)
                             then (al3_next (ucast VrMax) r1, info\<lparr>crc_error := True\<rparr>) else al3_sequence r1 SeqNum VrMax info)
          in (s1, pkt', info1))"
    using size header f(1,5) check hd p(3) ne(1) snpos sdu(1)
    by (auto simp: al3_ParsePacket_def Let_def r1_def info_def pkt'_def not_le split: prod.splits)
  ultimately show ?thesis by blast
qed

lemma crc_octets_read: "push_bit 8 (ucast (ucast (drop_bit 8 c) :: u8)) OR ucast (ucast (c AND 0xff) :: u8) = (c :: u16)"
proof -
  have m: "(0xff :: u16) = mask 8" by (simp add: mask_eq_exp_minus_1)
  have "bit c (8 + n) \<Longrightarrow> n < 8" for n using u16_bit [of c "8 + n"] by simp
  then show ?thesis unfolding m by (intro bit_word_eqI) (auto simp: bit_simps)
qed

lemma low_number:
  assumes "a < 2 ^ n" and "n < 16"
  shows "bit (of_nat a :: u32) i \<Longrightarrow> i < n" "(of_nat a :: u16) = ucast (of_nat a :: u32)" "ucast (of_nat a :: u16) = (of_nat a :: u32)"
proof -
  have lt: "(2 :: nat) ^ n < 2 ^ 16" using assms(2) by (rule power_strict_increasing) simp
  then have a: "a < 65536" using assms(1) by simp
  have "take_bit n (of_nat a :: u32) = of_nat (take_bit n a)" by (simp add: take_bit_of_nat)
  also have "take_bit n a = a" using assms(1) by (simp add: take_bit_nat_eq_self_iff)
  finally show "bit (of_nat a :: u32) i \<Longrightarrow> i < n" by (metis bit_take_bit_iff)
  show "(of_nat a :: u16) = ucast (of_nat a :: u32)" using a by (simp add: word_unat_eq_iff unat_of_nat unsigned_ucast_eq take_bit_eq_mod)
  show "ucast (of_nat a :: u16) = (of_nat a :: u32)" using a by (simp add: word_unat_eq_iff unat_of_nat unsigned_ucast_eq take_bit_eq_mod)
qed

lemma header_number:
  assumes "snpos = 1 \<or> snpos = 2" and "a < al3_modulus snpos"
  shows "length (sn_octets snpos w) = snpos"
    "al3_header snpos (sn_octets snpos (of_nat a)) = Inr (of_nat a, of_nat (al3_modulus snpos - 1))"
    "ucast (of_nat a :: u16) = (of_nat a :: u32)" "ucast (of_nat (al3_modulus snpos - 1) :: u16) = (of_nat (al3_modulus snpos - 1) :: u32)"
proof -
  show "length (sn_octets snpos w) = snpos" using assms(1) by (auto simp: sn_octets_def)
  have a: "a < 2 ^ 15" using assms(2) by (simp add: al3_modulus_def split: if_splits)
  show "ucast (of_nat a :: u16) = (of_nat a :: u32)" using low_number(3) [OF a] by simp
  show "ucast (of_nat (al3_modulus snpos - 1) :: u16) = (of_nat (al3_modulus snpos - 1) :: u32)" by (simp add: al3_modulus_def)
  from assms(1) show "al3_header snpos (sn_octets snpos (of_nat a)) = Inr (of_nat a, of_nat (al3_modulus snpos - 1))"
  proof
    assume s: "snpos = 1"
    then have "a < 2 ^ 7" using assms(2) by (simp add: al3_modulus_def)
    note low = low_number [OF this]
    have "ucast (drop_bit 1 (ucast (push_bit 1 (of_nat a :: u32) OR 1) :: u8)) = (ucast (of_nat a :: u32) :: u16)"
      by (rule bit_word_eqI)
         (simp only: bit_ucast_iff bit_drop_bit_eq comp_apply bit_or_iff bit_push_bit_iff bit_1_iff; use low(1) in fastforce)
    then show ?thesis using s low(2) by (simp add: al3_header_def sn_octets_def al3_modulus_def PV2WAY_H223_AL3_SNPOS1_VRMAX_def)
  next
    assume s: "snpos = 2"
    note low = low_number [OF a]
    have m: "(0xff :: u32) = mask 8" by (simp add: mask_eq_exp_minus_1)
    have "push_bit 8 (ucast (drop_bit 1 (ucast (drop_bit 7 (of_nat a :: u32) OR 1) :: u8))) OR ucast (ucast (of_nat a AND 0xff :: u32) :: u8)
        = (ucast (of_nat a :: u32) :: u16)" unfolding m
    proof (rule bit_word_eqI)
      fix i
      assume "i < LENGTH(16)"
      have "7 + (1 + (i - 8)) = i" if "8 \<le> i" using that by simp
      then show "bit (push_bit 8 (ucast (drop_bit 1 (ucast (drop_bit 7 (of_nat a :: u32) OR 1) :: u8))) OR
          ucast (ucast (of_nat a AND mask 8 :: u32) :: u8) :: u16) i = bit (ucast (of_nat a :: u32) :: u16) i"
        using \<open>i < LENGTH(16)\<close> low(1) [of i]
        by (auto simp only: bit_ucast_iff bit_drop_bit_eq comp_apply bit_or_iff bit_push_bit_iff bit_1_iff bit_and_iff bit_mask_iff)
           (auto dest: low(1))
    qed
    then show ?thesis using s low(2)
      by (simp add: al3_header_def sn_octets_def al3_modulus_def PV2WAY_H223_AL3_SNPOS2_VRMAX_def)
  qed
qed

lemma al3_sequence_at:
  assumes "al3_at snpos b r" and snpos: "snpos = 1 \<or> snpos = 2" and a: "a < al3_modulus snpos" and "seq_num_error info = 0"
  shows "\<exists>r' info'. al3_sequence r (of_nat a) (of_nat (al3_modulus snpos - 1)) info = (r', info')
     \<and> al3_at snpos (Suc a mod al3_modulus snpos) r' \<and> (seq_num_error info' \<noteq> 0 \<longleftrightarrow> a \<noteq> b)
     \<and> sdu_size info' = sdu_size info \<and> crc_error info' = crc_error info"
proof -
  let ?m = "al3_modulus snpos"
  note n = header_number(3,4) [OF snpos a]
  have m: "0 < ?m" "?m \<le> 32768" by (simp_all add: al3_modulus_def)
  have b: "al3_iSeqNum r = of_nat b" "b < ?m" using assms(1) by (simp_all add: al3_at_def)
  have inj: "(of_nat b :: u32) = of_nat a \<longleftrightarrow> a = b"
  proof -
    have "unat (of_nat k :: u32) = k" if "k < ?m" for k using that m(2) by (simp add: unat_of_nat)
    then show ?thesis using a b(2) by metis
  qed
  show ?thesis
  proof (cases "a = b")
    case True
    then show ?thesis using al3_next_at [OF assms(1), of "of_nat (?m - 1)"] b(1) n assms(4)
      by (simp add: al3_sequence_def)
  next
    case False
    have "(of_nat a + 1) mod (of_nat (?m - 1) + 1) = (of_nat (Suc a mod ?m) :: u32)"
    proof -
      have "unat ((of_nat a + 1) mod (of_nat (?m - 1) + 1) :: u32) = unat (of_nat (Suc a) :: u32) mod unat (of_nat ?m :: u32)"
        using m(1) by (simp add: unat_mod of_nat_diff add.commute)
      also have "unat (of_nat (Suc a) :: u32) = Suc a" using a m(2) by (subst unat_of_nat) simp
      also have "unat (of_nat ?m :: u32) = ?m" using m(2) by (subst unat_of_nat) simp
      finally show ?thesis by (metis of_nat_unat ucast_id)
    qed
    moreover have "Suc a mod ?m < 2 ^ 15"
    proof -
      have "Suc a mod ?m < ?m" using m(1) by simp
      then show ?thesis using m(2) by simp
    qed
    then have "ucast (ucast (of_nat (Suc a mod ?m) :: u32) :: u16) = (of_nat (Suc a mod ?m) :: u32)"
      using low_number(2,3) [of "Suc a mod ?m" 15] by simp
    moreover have "(of_nat a :: u32) - of_nat b \<noteq> 0" using inj False by simp
    ultimately show ?thesis using False inj b n m(1) assms(1) by (auto simp: al3_sequence_def Let_def al3_at_def)
  qed
qed

section \<open>Streams at layer 3\<close>

fun al3_send_all :: "al3 \<Rightarrow> (u8 list \<times> u8 list list) list \<Rightarrow> mux_fault + u8 list list list" where
  "al3_send_all s [] = Inr []"
| "al3_send_all s ((frag, fs) # sdus) =
     bind_res (al3_send frag s fs) (\<lambda>(s1, pkt). bind_res (al3_send_all s1 sdus) (\<lambda>pkts. Inr (pkt # pkts)))"

text \<open>\<open>None\<close> is a packet that is lost.\<close>

fun al3_receive_all :: "al3 \<Rightarrow> u8 list list option list \<Rightarrow> mux_fault + (u8 list list \<times> al_info) list" where
  "al3_receive_all r [] = Inr []"
| "al3_receive_all r (None # pkts) = al3_receive_all r pkts"
| "al3_receive_all r (Some pkt # pkts) =
     bind_res (al3_ParsePacket r pkt)
       (\<lambda>(r1, sdu, info). bind_res (al3_receive_all r1 pkts) (\<lambda>res. Inr ((sdu, info) # res)))"

definition al_shown :: "u8 list list \<times> al_info \<Rightarrow> u8 list \<times> int \<times> bool \<times> bool" where
  "al_shown x = (concat (fst x), sdu_size (snd x), crc_error (snd x), seq_num_error (snd x) \<noteq> 0)"

text \<open>\<open>lost\<close> packets are missing before the next one.\<close>

fun al3_expected :: "nat \<Rightarrow> nat \<Rightarrow> u8 list list \<Rightarrow> u8 list list option list \<Rightarrow> (u8 list \<times> int \<times> bool \<times> bool) list" where
  "al3_expected m lost (sdu # sdus) (None # pkts) = al3_expected m (Suc lost) sdus pkts"
| "al3_expected m lost (sdu # sdus) (Some pkt # pkts) =
     (sdu, int (length sdu), False, lost mod m \<noteq> 0) # al3_expected m 0 sdus pkts"
| "al3_expected m lost _ _ = []"

definition sdu_ok :: "u8 list \<times> u8 list list \<Rightarrow> bool" where
  "sdu_ok x \<longleftrightarrow> 2 \<le> length (fst x) \<and> fragments_ok (snd x) \<and> length (concat (snd x)) \<le> 32767"

lemma fragments_sdu: "fragments_ok fs \<Longrightarrow> concat fs \<noteq> []"
  by (cases fs) (auto simp: fragments_ok_def)

lemma packet_received:
  assumes r: "al3_at snpos b r" and snpos: "snpos = 1 \<or> snpos = 2" and a: "a < al3_modulus snpos"
    and sdu: "sdu \<noteq> []" "length sdu \<le> 32767" and pkt: "arrives_as snpos (al3_octets snpos (of_nat a) sdu) pkt"
  shows "\<exists>r' pkt' info. al3_ParsePacket r pkt = Inr (r', pkt', info) \<and> al3_at snpos (Suc a mod al3_modulus snpos) r'
     \<and> al_shown (pkt', info) = (sdu, int (length sdu), False, a \<noteq> b)"
proof -
  let ?sn = "sn_octets snpos (of_nat a)"
  define c where "c = Crc16Check_octets (?sn @ sdu)"
  let ?r = "r\<lparr>al3_iPktNum := al3_iPktNum r + 1\<rparr>"
  let ?info = "\<lparr> sdu_size = int (length sdu), crc_error = False, seq_num = al3_iSeqNum r, seq_num_error = 0 \<rparr>"
  have octets: "al3_octets snpos (of_nat a) sdu = ?sn @ sdu @ [ucast (c AND 0xff), ucast (drop_bit 8 c)]"
    by (simp add: al3_octets_def crc_octets_def c_def)
  have "al3_iSNPos r = snpos" "al3_at snpos b ?r" using r by (simp_all add: al3_at_def)
  obtain pkt' where p: "concat pkt' = sdu" "al3_ParsePacket r pkt =
     Inr (let (s1, info1) = (if push_bit 8 (ucast (ucast (drop_bit 8 c) :: u8)) OR ucast (ucast (c AND 0xff) :: u8) \<noteq> Crc16Check_octets (?sn @ sdu)
                             then (al3_next (ucast (of_nat (al3_modulus snpos - 1) :: u16)) ?r, ?info\<lparr>crc_error := True\<rparr>)
                             else al3_sequence ?r (of_nat a) (of_nat (al3_modulus snpos - 1)) ?info)
          in (s1, pkt', info1))"
    using al3_parsed [OF snpos \<open>al3_iSNPos r = snpos\<close> header_number(1,2) [OF snpos a] sdu pkt [unfolded octets]] by blast
  obtain r' info' where "al3_sequence ?r (of_nat a) (of_nat (al3_modulus snpos - 1)) ?info = (r', info')"
     "al3_at snpos (Suc a mod al3_modulus snpos) r'" "seq_num_error info' \<noteq> 0 \<longleftrightarrow> a \<noteq> b"
     "sdu_size info' = int (length sdu)" "\<not> crc_error info'"
    using al3_sequence_at [OF \<open>al3_at snpos b ?r\<close> snpos a, of ?info] by auto
  then show ?thesis using p(1) unfolding p(2) crc_octets_read c_def by (auto simp: al_shown_def)
qed

lemma stream_sent:
  assumes "al3_at snpos a s" and snpos: "snpos = 1 \<or> snpos = 2" and "list_all sdu_ok sdus"
  shows "\<exists>pkts. al3_send_all s sdus = Inr pkts"
  using assms(1,3)
proof (induction sdus arbitrary: s a)
  case (Cons x sdus)
  obtain frag fs where x: "x = (frag, fs)" by (cases x)
  then obtain t pkt where t: "al3_send frag s fs = Inr (t, pkt)" "al3_at snpos (Suc a mod al3_modulus snpos) t"
    using al3_sent [OF Cons.prems(1) snpos] Cons.prems(2) by (fastforce simp: sdu_ok_def)
  then show ?case using Cons.IH [OF t(2)] Cons.prems(2) x by auto
qed simp

definition packet_arrives :: "nat \<Rightarrow> u8 list list \<Rightarrow> u8 list list option \<Rightarrow> bool" where
  "packet_arrives snpos sent got = (case got of None \<Rightarrow> True | Some pkt \<Rightarrow> arrives_as snpos (concat sent) pkt)"

lemma stream_received:
  assumes "al3_at snpos a s" and "al3_at snpos b r" and snpos: "snpos = 1 \<or> snpos = 2"
    and "(b + lost) mod al3_modulus snpos = a"
    and "list_all sdu_ok sdus" and "al3_send_all s sdus = Inr pkts" and "list_all2 (packet_arrives snpos) pkts got"
  shows "\<exists>res. al3_receive_all r got = Inr res
     \<and> map al_shown res = al3_expected (al3_modulus snpos) lost (map (\<lambda>x. concat (snd x)) sdus) got"
  using assms(1,2,4-7)
proof (induction sdus arbitrary: s a r b lost pkts got)
  case (Cons x sdus)
  let ?m = "al3_modulus snpos"
  have m: "0 < ?m" by (simp add: al3_modulus_def)
  obtain frag fs where x: "x = (frag, fs)" by (cases x)
  have ok: "2 \<le> length frag" "fragments_ok fs" "length (concat fs) \<le> 32767" using Cons.prems(4) by (simp_all add: x sdu_ok_def)
  obtain t pkt where t: "al3_send frag s fs = Inr (t, pkt)" "concat pkt = al3_octets snpos (of_nat a) (concat fs)"
      "al3_at snpos (Suc a mod ?m) t"
    using al3_sent [OF Cons.prems(1) snpos ok(1,2)] by blast
  obtain pkts' where p: "pkts = pkt # pkts'" "al3_send_all t sdus = Inr pkts'"
    using Cons.prems(5) t(1) by (auto simp: x bind_res_Inr_iff)
  obtain g gs where g: "got = g # gs" "packet_arrives snpos pkt g" "list_all2 (packet_arrives snpos) pkts' gs"
    using Cons.prems(6) by (auto simp: p(1) list_all2_Cons1)
  have a: "a < ?m" "b < ?m" using Cons.prems(1,2) by (simp_all add: al3_at_def)
  have rest: "list_all sdu_ok sdus" using Cons.prems(4) by simp
  show ?case
  proof (cases g)
    case None
    have "(b + Suc lost) mod ?m = Suc a mod ?m" using Cons.prems(3) by (metis add_Suc_right mod_Suc_eq)
    then show ?thesis using Cons.IH [OF t(3) Cons.prems(2) _ rest p(2) g(3)] None g(1) by simp
  next
    case (Some q)
    have "arrives_as snpos (al3_octets snpos (of_nat a) (concat fs)) q" using g(2) Some t(2) by (simp add: packet_arrives_def)
    from packet_received [OF Cons.prems(2) snpos a(1) fragments_sdu [OF ok(2)] ok(3) this]
    obtain r' q' info where q: "al3_ParsePacket r q = Inr (r', q', info)" "al3_at snpos (Suc a mod ?m) r'"
        "al_shown (q', info) = (concat fs, int (length (concat fs)), False, a \<noteq> b)" by blast
    have "lost mod ?m \<noteq> 0 \<longleftrightarrow> a \<noteq> b"
    proof -
      have "lost mod ?m = 0 \<longleftrightarrow> (b + lost) mod ?m = b mod ?m"
        using mod_eq_dvd_iff_nat [of b "b + lost" ?m] by (simp add: mod_eq_0_iff_dvd)
      then show ?thesis using Cons.prems(3) a(2) by auto
    qed
    moreover obtain res where "al3_receive_all r' gs = Inr res" "map al_shown res = al3_expected ?m 0 (map (\<lambda>x. concat (snd x)) sdus) gs"
      using Cons.IH [OF t(3) q(2) _ rest p(2) g(3), of 0] by auto
    ultimately show ?thesis using q(1,3) Some g(1) by (simp add: x)
  qed
qed simp

section \<open>Errors\<close>

lemma line_bits_xor: "length xs = length ys \<Longrightarrow> line_bits (map2 (XOR) xs ys) = map2 (\<noteq>) (line_bits xs) (line_bits ys)"
proof (induction xs ys rule: list_induct2)
  case (Cons x xs y ys)
  have "lsb_bits 8 (x XOR y) = map2 (\<noteq>) (lsb_bits 8 x) (lsb_bits 8 y)"
    by (rule nth_equalityI) (auto simp: bit_xor_iff)
  then show ?case using Cons by simp
qed simp

lemma crc_octets_bits: "line_bits [ucast (c AND 0xff), ucast (drop_bit 8 c)] = lsb_bits 16 (c :: u16)"
proof -
  have m: "(0xff :: u16) = mask 8" by (simp add: mask_eq_exp_minus_1)
  have "lsb_bits 16 c = lsb_bits 8 c @ lsb_bits 8 (drop_bit 8 c)" using lsb_bits_add [of 8 8 c] by simp
  moreover have "lsb_bits 8 (ucast (c AND 0xff) :: u8) = lsb_bits 8 c"
    unfolding m by (rule nth_equalityI) (auto simp: bit_simps)
  moreover have "lsb_bits 8 (ucast (drop_bit 8 c) :: u8) = lsb_bits 8 (drop_bit 8 c)"
    by (rule nth_equalityI) (auto simp: bit_simps)
  ultimately show ?thesis by simp
qed

text \<open>Octets and their check sum leave the register in a state that does not depend on the octets.\<close>

lemma crc16_residue:
  assumes "push_bit 8 (ucast c1) OR ucast c0 = Crc16Check_octets xs"
  shows "crc_feed CRC_X 0xffff (line_bits (xs @ [c0, c1])) = crc_feed CRC_X 0xffff (replicate 16 False)"
proof -
  define v where "v = crc_feed CRC_X 0xffff (line_bits xs)"
  define c where "c = v XOR 0xffff"
  have r: "push_bit 8 (ucast c1) OR ucast c0 = c"
    using assms by (simp add: Crc16Check_octets_def crc16_feed c_def v_def)
  have "c0 = ucast (c AND 0xff)" "c1 = ucast (drop_bit 8 c)"
  proof -
    have m: "(0xff :: u16) = mask 8" by (simp add: mask_eq_exp_minus_1)
    show "c0 = ucast (c AND 0xff)" unfolding m r [symmetric] by (rule bit_word_eqI) (auto simp: bit_simps)
    show "c1 = ucast (drop_bit 8 c)" unfolding r [symmetric] by (rule bit_word_eqI) (auto simp: bit_simps octet_high)
  qed
  then have "line_bits [c0, c1] = lsb_bits 16 c" using crc_octets_bits [of c] by (simp only:)
  then have "crc_feed CRC_X 0xffff (line_bits (xs @ [c0, c1])) = crc_feed CRC_X v (lsb_bits 16 c)" by (simp add: v_def)
  also have "\<dots> = crc_feed CRC_X (v XOR c) (replicate 16 False)"
    unfolding lsb_bits_def using crc_feed_at_once [of 16 CRC_X v c] by (simp add: take_bit_word_eq_self)
  also have "v XOR c = 0xffff" unfolding c_def by (simp add: xor.left_commute [of v])
  finally show ?thesis .
qed

lemma xor_fixed: "(a :: u16) = a XOR b \<longleftrightarrow> b = 0"
  by (auto simp: bit_eq_iff bit_xor_iff)

lemma burst_noticed:
  assumes sent: "push_bit 8 (ucast c1) OR ucast c0 = Crc16Check_octets xs"
    and got: "map2 (XOR) (xs @ [c0, c1]) noise = ys @ [d0, d1]" "length noise = length xs + 2"
    and "burst 16 (line_bits noise)"
  shows "push_bit 8 (ucast d1) OR ucast d0 \<noteq> Crc16Check_octets ys"
proof
  let ?residue = "crc_feed CRC_X 0xffff (replicate 16 False)"
  assume "push_bit 8 (ucast d1) OR ucast d0 = Crc16Check_octets ys"
  then have "?residue = crc_feed CRC_X (0xffff XOR 0) (line_bits (map2 (XOR) (xs @ [c0, c1]) noise))"
    using crc16_residue unfolding got(1) by simp
  also have "\<dots> = crc_feed CRC_X 0xffff (line_bits (xs @ [c0, c1])) XOR crc_feed CRC_X 0 (line_bits noise)"
  proof -
    have l: "length (xs @ [c0, c1]) = length noise" using got(2) by simp
    show ?thesis unfolding line_bits_xor [OF l] by (rule crc_feed_linear) (simp only: length_line_bits l)
  qed
  also have "\<dots> = ?residue XOR crc_feed CRC_X 0 (line_bits noise)" using crc16_residue [OF sent] by simp
  finally have "crc_feed CRC_X 0 (line_bits noise) = 0" by (simp only: xor_fixed)
  moreover have "bit CRC_X (LENGTH(16) - 1)" by (simp add: CRC_X_def)
  ultimately show False using burst_remains [of CRC_X] assms(4) by simp
qed

section \<open>Properties\<close>

text \<open>C29. At adaptation layer 3, with a sequence number of one or two octets, every SDU (of 1 to 32767 octets)
  of a stream that arrives, in at most 32 fragments that are not empty and of which the first holds the whole sequence
  number, is handed up whole, with its size and without a check sum error; it is marked as following a loss exactly if
  the number of packets lost before it is not a multiple of the modulus (128 or 32768).\<close>

theorem al3_delivered:
  assumes "snpos = 1 \<or> snpos = 2" and "list_all sdu_ok sdus"
  shows "\<exists>pkts. al3_send_all (new_al3 snpos) sdus = Inr pkts \<and>
     (\<forall>got. list_all2 (packet_arrives snpos) pkts got \<longrightarrow>
        (\<exists>res. al3_receive_all (new_al3 snpos) got = Inr res
           \<and> map al_shown res = al3_expected (al3_modulus snpos) 0 (map (\<lambda>x. concat (snd x)) sdus) got))"
proof -
  have start: "al3_at snpos 0 (new_al3 snpos)" by (simp add: al3_at_def new_al3_def al3_modulus_def)
  obtain pkts where pkts: "al3_send_all (new_al3 snpos) sdus = Inr pkts" using stream_sent [OF start assms] by blast
  then show ?thesis using stream_received [OF start start assms(1) _ assms(2) pkts, of 0] by (auto simp: al3_modulus_def)
qed

lemma single_fragment: "octets \<noteq> [] \<Longrightarrow> snpos \<le> length octets \<Longrightarrow> arrives_as snpos octets [octets]"
  by (simp add: arrives_as_def PV2WAY_MAX_PACKET_MEM_FRAG_def)

lemma al3_start: "al3_at snpos 0 (new_al3 snpos)"
  by (simp add: al3_at_def new_al3_def al3_modulus_def)

theorem al3_delivered_witness:
  "\<exists>pkts res. al3_send_all (new_al3 1) [([0, 0], [[5], [6, 7]]), ([0, 0], [[8]]), ([0, 0], [[9]])] = Inr pkts
     \<and> al3_receive_all (new_al3 1) [Some [concat (pkts ! 0)], None, Some [concat (pkts ! 2)]] = Inr res
     \<and> map al_shown res = [([5, 6, 7], 3, False, False), ([9], 1, False, True)]"
proof -
  let ?sdus = "[([0, 0], [[5], [6, 7]]), ([0, 0], [[8]]), ([0, 0], [[9 :: u8]])] :: (u8 list \<times> u8 list list) list"
  have ok: "list_all sdu_ok ?sdus" by (simp add: sdu_ok_def fragments_ok_def)
  obtain pkts where p: "al3_send_all (new_al3 1) ?sdus = Inr pkts" "\<And>got. list_all2 (packet_arrives 1) pkts got \<Longrightarrow>
        (\<exists>res. al3_receive_all (new_al3 1) got = Inr res
           \<and> map al_shown res = al3_expected (al3_modulus 1) 0 (map (\<lambda>x. concat (snd x)) ?sdus) got)"
    using al3_delivered [OF _ ok, of 1] by auto
  have sent: "\<exists>t pkt. al3_send [0, 0] s fs = Inr (t, pkt) \<and> 1 \<le> length (concat pkt) \<and> al3_at 1 (Suc a mod al3_modulus 1) t"
    if "al3_at 1 a s" "fragments_ok fs" for a s fs
    using al3_sent [OF that(1) _ _ that(2), of "[0, 0]"] by (fastforce simp: al3_octets_def sn_octets_def)
  have f: "fragments_ok [[5], [6, 7 :: u8]]" "fragments_ok [[8 :: u8]]" "fragments_ok [[9 :: u8]]" by (simp_all add: fragments_ok_def)
  obtain t1 x where x: "al3_send [0, 0] (new_al3 1) [[5], [6, 7]] = Inr (t1, x)" "1 \<le> length (concat x)" "al3_at 1 (Suc 0 mod al3_modulus 1) t1"
    using sent [OF al3_start f(1)] by blast
  obtain t2 y where y: "al3_send [0, 0] t1 [[8]] = Inr (t2, y)" "al3_at 1 (Suc (Suc 0 mod al3_modulus 1) mod al3_modulus 1) t2"
    using sent [OF x(3) f(2)] by blast
  obtain t3 z where z: "al3_send [0, 0] t2 [[9]] = Inr (t3, z)" "1 \<le> length (concat z)" using sent [OF y(2) f(3)] by blast
  have pkts: "pkts = [x, y, z]" using p(1) x(1) y(1) z(1) by simp
  have "arrives_as 1 (concat x) [concat x]" "arrives_as 1 (concat z) [concat z]"
    using x(2) z(2) by (intro single_fragment; force)+
  then have "list_all2 (packet_arrives 1) pkts [Some [concat x], None, Some [concat z]]"
    by (simp add: pkts packet_arrives_def)
  from p(2) [OF this] show ?thesis using p(1) unfolding pkts by (auto simp: al3_modulus_def)
qed

text \<open>C30. A packet of adaptation layer 3, of an SDU of 1 to 32767 octets, in which a burst of errors, of up to 16 bits and anywhere in the
  packet, has changed something is always reported with a check sum error, whatever the receiver expects, if it
  arrives in at most 32 fragments that are not empty and of which the first holds the whole sequence number.\<close>

theorem al3_burst_detected:
  assumes "snpos = 1 \<or> snpos = 2" and "al3_at snpos a s" and "sdu_ok (frag, fs)"
    and "al3_iSNPos r = snpos" and "length noise = snpos + length (concat fs) + 2" and "burst 16 (line_bits noise)"
  shows "\<exists>t pkt. al3_send frag s fs = Inr (t, pkt) \<and>
     (\<forall>got. arrives_as snpos (map2 (XOR) (concat pkt) noise) got \<longrightarrow>
        (\<exists>r' sdu info. al3_ParsePacket r got = Inr (r', sdu, info) \<and> crc_error info))"
proof -
  let ?sn = "sn_octets snpos (of_nat a)" and ?sdu = "concat fs"
  have ok: "2 \<le> length frag" "fragments_ok fs" "length ?sdu \<le> 32767" using assms(3) by (simp_all add: sdu_ok_def)
  obtain t pkt where t: "al3_send frag s fs = Inr (t, pkt)" "concat pkt = al3_octets snpos (of_nat a) ?sdu"
    using al3_sent [OF assms(2,1) ok(1,2)] by blast
  have a: "a < al3_modulus snpos" using assms(2) by (simp add: al3_at_def)
  have sn: "length ?sn = snpos" using header_number(1) [OF assms(1) a] .
  define c where "c = Crc16Check_octets (?sn @ ?sdu)"
  have octets: "concat pkt = (?sn @ ?sdu) @ [ucast (c AND 0xff), ucast (drop_bit 8 c)]"
    by (simp add: t(2) al3_octets_def crc_octets_def c_def)
  define ys where "ys = map2 (XOR) (concat pkt) noise"
  have len: "length ys = snpos + length ?sdu + 2" using assms(5) sn by (simp add: ys_def octets)
  obtain sn' rest where y: "ys = sn' @ rest" "length sn' = snpos" "length rest = length ?sdu + 2"
    using len that [of "take snpos ys" "drop snpos ys"] by simp
  obtain sdu' last2 where z: "rest = sdu' @ last2" "length sdu' = length ?sdu" "length last2 = 2"
    using y(3) that [of "take (length ?sdu) rest" "drop (length ?sdu) rest"] by simp
  obtain d0 d1 where d: "last2 = [d0, d1]" using z(3) by (auto simp: numeral_2_eq_2 length_Suc_conv)
  have ys: "ys = (sn' @ sdu') @ [d0, d1]" by (simp add: y(1) z(1) d)
  have bad: "push_bit 8 (ucast d1) OR ucast d0 \<noteq> Crc16Check_octets (sn' @ sdu')"
  proof (rule burst_noticed)
    show "push_bit 8 (ucast (ucast (drop_bit 8 c) :: u8)) OR ucast (ucast (c AND 0xff) :: u8) = Crc16Check_octets (?sn @ ?sdu)"
      by (simp only: crc_octets_read c_def)
    show "map2 (XOR) ((?sn @ ?sdu) @ [ucast (c AND 0xff), ucast (drop_bit 8 c)]) noise = (sn' @ sdu') @ [d0, d1]"
      using ys by (simp only: ys_def octets)
  qed (use assms(5,6) sn in simp_all)
  obtain SeqNum VrMax where h: "al3_header snpos sn' = Inr (SeqNum, VrMax)"
    using assms(1) y(2) by (auto simp: al3_header_def numeral_2_eq_2 length_Suc_conv)
  have "sdu' \<noteq> []" "length sdu' \<le> 32767" using z(2) ok(3) fragments_sdu [OF ok(2)] by auto
  then have "\<exists>r' sdu info. al3_ParsePacket r got = Inr (r', sdu, info) \<and> crc_error info" if "arrives_as snpos ys got" for got
    using al3_parsed [OF assms(1,4) y(2) h, of sdu' d0 d1 got] that bad unfolding ys by auto
  then show ?thesis using t(1) unfolding ys_def by blast
qed

theorem al3_burst_detected_witness:
  "\<exists>t pkt r' sdu info. al3_send [0, 0] (new_al3 1) [[5], [6, 7]] = Inr (t, pkt)
     \<and> al3_ParsePacket (new_al3 1) [map2 (XOR) (concat pkt) [0, 0, 1, 128, 0, 0]] = Inr (r', sdu, info) \<and> crc_error info"
proof -
  have "line_bits [0, 0, 1, 128, 0, 0] = replicate 16 False @ line_bits [1, 128] @ replicate 16 False" "True \<in> set (line_bits [1, 128])"
    by code_simp+
  then have burst: "burst 16 (line_bits [0, 0, 1, 128, 0, 0])"
    unfolding burst_def by (intro exI [of _ 16] exI [of _ "line_bits [1, 128]"]) (simp del: line_bits_simps)
  have ok: "fragments_ok [[5], [6, 7 :: u8]]" "sdu_ok ([0, 0], [[5], [6, 7]])" by (simp_all add: sdu_ok_def fragments_ok_def)
  obtain t pkt where t: "al3_send [0, 0] (new_al3 1) [[5], [6, 7]] = Inr (t, pkt)"
      "\<And>got. arrives_as 1 (map2 (XOR) (concat pkt) [0, 0, 1, 128, 0, 0]) got \<Longrightarrow>
        (\<exists>r' sdu info. al3_ParsePacket (new_al3 1) got = Inr (r', sdu, info) \<and> crc_error info)"
    using al3_burst_detected [OF _ al3_start ok(2) _ _ burst, of 1 "new_al3 1"] by (auto simp: new_al3_def)
  have "concat pkt = al3_octets 1 0 [5, 6, 7]" using al3_sent [OF al3_start _ _ ok(1), of 1 "[0, 0]"] t(1) by auto
  moreover define octets where "octets = map2 (XOR) (concat pkt) [0, 0, 1, 128, 0, 0]"
  ultimately have "length octets = 6" by (simp add: al3_octets_def sn_octets_def crc_octets_def)
  then have "arrives_as 1 octets [octets]" by (intro single_fragment) auto
  then show ?thesis using t unfolding octets_def by blast
qed

lemma concat_first: "pkt \<noteq> [] \<Longrightarrow> concat (pkt[0 := f]) = f @ concat (tl pkt)"
  by (cases pkt) simp_all

text \<open>C38. Adaptation layer 2 with sequence numbers reports of a packet of 3 to 32767 octets, in at most 32
  fragments, the size of the SDU without the octet of the number and the check sum; but when the check sum is wrong,
  what it hands up still has the octet of the number in front of the SDU.\<close>

theorem al2_damaged_keeps_number:
  assumes "al2_iSNPos r = 1" and "length pkt \<le> PV2WAY_MAX_PACKET_MEM_FRAG" and "length (concat pkt) \<le> 32767"
    and "al2_ParsePacket r pkt = Inr (r', pkt', info)" and "2 < length (concat pkt)"
  shows "sdu_size info = int (length (concat pkt)) - 2
     \<and> concat pkt' = (if crc_error info then butlast (concat pkt) else tl (butlast (concat pkt)))"
proof -
  have size: "int16_of (filled_size pkt - int (al2_iSNPos r) - 1) = int (length (concat pkt)) - 2"
    using assms(1,3,5) by (simp add: filled_size_def int16_of_small)
  let ?pkt = "butlast pkt @ [butlast (last pkt)]"
  have ne: "pkt \<noteq> []" using assms(5) by auto
  have "\<not> (pkt = [] \<or> last pkt = [])"
    using assms(4) size assms(5) by (auto simp: al2_ParsePacket_def Let_def)
  then have pkt1: "concat ?pkt = butlast (concat pkt)"
    using ne by (cases pkt rule: rev_cases) (simp_all add: butlast_append)
  have n: "length ?pkt \<le> PV2WAY_MAX_PACKET_MEM_FRAG" using assms(2) ne by simp
  have p: "?pkt \<noteq> []" by simp
  have same: "concat ?pkt = hd ?pkt @ concat (tl ?pkt)" using p by (metis concat.simps(2) list.collapse)
  show ?thesis
    using assms(4) size assms(1,5) n \<open>\<not> (pkt = [] \<or> last pkt = [])\<close> concat_first [OF p] same pkt1
    by (auto simp: al2_ParsePacket_def al2_sequence_def Let_def bind_res_Inr_iff split: if_splits list.splits prod.splits)
       (metis list.sel(3))+
qed

theorem al2_damaged_keeps_number_witness:
  "\<exists>c r' pkt' info. al2_ParsePacket (new_al2 True) [[0, 5, 6, c]] = Inr (r', pkt', info) \<and> crc_error info
     \<and> sdu_size info = 2 \<and> concat pkt' = [0, 5, 6]"
proof -
  define v where "v = Crc8Check_octets [0, 5, 6]"
  have v: "Crc8Check False [[0, 5, 6]] = Inr v" using Crc8Check_fragments [of "[[0, 5, 6]]" "[]"] by (simp add: v_def)
  have "bit (v XOR 1) 0 \<longleftrightarrow> \<not> bit v 0" by (simp only: bit_xor_iff bit_1_iff) simp
  then have "v XOR 1 \<noteq> v" by metis
  moreover have "int16_of 2 = 2" by (simp add: int16_of_small)
  ultimately obtain r' pkt' info where "al2_ParsePacket (new_al2 True) [[0, 5, 6, v XOR 1]] = Inr (r', pkt', info)" "crc_error info"
    using v by (auto simp: al2_ParsePacket_def Let_def new_al2_def SetSeqnum_def filled_size_def)
  moreover from this(1) have "sdu_size info = 2 \<and> concat pkt' = (if crc_error info then [0, 5, 6] else [5, 6])"
    using al2_damaged_keeps_number [of "new_al2 True" "[[0, 5, 6, v XOR 1]]" r' pkt' info]
    by (simp add: new_al2_def SetSeqnum_def PV2WAY_MAX_PACKET_MEM_FRAG_def)
  ultimately show ?thesis by auto
qed

end
