(* ===== verification/MuxTable.thy ===== *)
theory MuxTable
  imports H223Base "HOL-Library.AList" "HOL-Library.Signed_Division"
begin

text \<open>
  The multiplex table of H.223 (\<^verbatim>\<open>h223/src/muxtbl.cpp\<close>, class \<^verbatim>\<open>MuxTableMgr\<close>, and the outgoing descriptors of
  \<^verbatim>\<open>h223/src/h223types.cpp\<close>): which channels the octets of a multiplex PDU belong to. The other terminal sends its
  descriptors as H.245 structures; 16 of them are kept for incoming PDUs, the own ones in a list.

  A copy of a descriptor, which the code makes by encoding and decoding it, is the descriptor.
\<close>

section \<open>Descriptors\<close>

datatype repeat_count = Finite u16 | UntilClosingFlag

datatype multiplex_element =
    LogicalChannel u16 repeat_count
  | SubElementList "multiplex_element list" repeat_count

record entry_descriptor =
  multiplexTableEntryNumber :: u8
  option_of_elementList :: bool
  elementList :: "multiplex_element list"

definition GetControlDescriptor :: "u16 \<Rightarrow> entry_descriptor" where
  "GetControlDescriptor mux_entry_num =
     \<lparr> multiplexTableEntryNumber = ucast mux_entry_num, option_of_elementList = True,
       elementList = [LogicalChannel 0 UntilClosingFlag] \<rparr>"

section \<open>Incoming entries\<close>

type_synonym incoming_table = "entry_descriptor option list"

definition MAX_MUX_ENTRIES :: nat where
  "MAX_MUX_ENTRIES = 16"

definition new_incoming_table :: incoming_table where
  "new_incoming_table =
     (replicate MAX_MUX_ENTRIES None)[0 := Some (GetControlDescriptor 0), 15 := Some (GetControlDescriptor 15)]"

definition RemoveDescriptorR :: "u8 \<Rightarrow> incoming_table \<Rightarrow> mux_fault + incoming_table" where
  "RemoveDescriptorR entry_num tbl =
     (if length tbl \<le> unat entry_num then Inl BadIndex else Inr (tbl[unat entry_num := None]))"

definition RemoveIncomingMuxDescriptor :: "u8 \<Rightarrow> incoming_table \<Rightarrow> mux_fault + incoming_table" where
  "RemoveIncomingMuxDescriptor muxTblNum tbl = RemoveDescriptorR muxTblNum tbl"

text \<open>One round of the loops; an entry that exists is kept if it must not be replaced.\<close>

definition set_entry :: "bool \<Rightarrow> entry_descriptor \<Rightarrow> incoming_table \<Rightarrow> mux_fault + incoming_table" where
  "set_entry replace d tbl =
     (let entry_num = multiplexTableEntryNumber d in
      if length tbl \<le> unat entry_num then Inl BadIndex
      else if tbl ! unat entry_num \<noteq> None \<and> \<not> replace then Inr tbl
      else bind_res (if tbl ! unat entry_num \<noteq> None then RemoveDescriptorR entry_num tbl else Inr tbl)
             (\<lambda>tbl1. Inr (if option_of_elementList d then tbl1[unat entry_num := Some d] else tbl1)))"

fun SetIncomingDescriptors :: "entry_descriptor list \<Rightarrow> incoming_table \<Rightarrow> mux_fault + incoming_table" where
  "SetIncomingDescriptors [] tbl = Inr tbl"
| "SetIncomingDescriptors (d # ds) tbl = bind_res (set_entry True d tbl) (SetIncomingDescriptors ds)"

fun SetIncomingMuxDescriptors :: "entry_descriptor list \<Rightarrow> bool \<Rightarrow> incoming_table \<Rightarrow> mux_fault + incoming_table" where
  "SetIncomingMuxDescriptors [] aReplace tbl = Inr tbl"
| "SetIncomingMuxDescriptors (d # ds) aReplace tbl =
     bind_res (set_entry aReplace d tbl) (SetIncomingMuxDescriptors ds aReplace)"

definition GetIncomingDescriptor :: "u8 \<Rightarrow> incoming_table \<Rightarrow> entry_descriptor option" where
  "GetIncomingDescriptor tblNum tbl = tbl ! unat (tblNum AND 0x0F)"

section \<open>Outgoing entries\<close>

record slot =
  slot_lcn :: u32
  min_size :: u32
  max_size :: u32

type_synonym slots = "(u32 \<times> slot) list"

definition is_fit :: "u32 \<Rightarrow> u32 \<Rightarrow> slot \<Rightarrow> bool" where
  "is_fit that_lcn len s =
     (slot_lcn s = that_lcn
      \<and> (len \<noteq> 0 \<and> max_size s \<noteq> 0 \<longrightarrow> min_size s \<le> len \<and> len \<le> max_size s))"

definition FindLcn :: "slots \<Rightarrow> u16 \<Rightarrow> u16 \<Rightarrow> slot option" where
  "FindLcn iLcns channel_id len =
     (case map_of iLcns (ucast channel_id) of
        Some s \<Rightarrow> if is_fit (ucast channel_id) (ucast len) s then Some s else None
      | None \<Rightarrow> None)"

text \<open>\<^verbatim>\<open>insert\<close> of \<^verbatim>\<open>Oscl_Map\<close> keeps an element that exists.\<close>

definition insert_slot :: "u32 \<Rightarrow> slot \<Rightarrow> slots \<Rightarrow> slots" where
  "insert_slot k s m = (if map_of m k = None then AList.update k s m else m)"

definition element_slot :: "u16 \<Rightarrow> repeat_count \<Rightarrow> slot" where
  "element_slot lcn rc =
     (case rc of
        UntilClosingFlag \<Rightarrow> \<lparr> slot_lcn = ucast lcn, min_size = 1, max_size = 0 \<rparr>
      | Finite n \<Rightarrow> \<lparr> slot_lcn = ucast lcn, min_size = ucast n, max_size = ucast n \<rparr>)"

text \<open>Smallest and largest repeat count of a list of sub elements that takes \<open>octets\<close> octets.\<close>

definition repeats :: "repeat_count \<Rightarrow> s32 \<Rightarrow> s32 \<Rightarrow> u32 \<times> u32" where
  "repeats rc max_pdu_size octets =
     (case rc of
        UntilClosingFlag \<Rightarrow> (1, word_of_int (sint max_pdu_size sdiv sint octets))
      | Finite n \<Rightarrow> (ucast n, ucast n))"

text \<open>The slot of a list of sub elements, multiplied, is added to the one that the descriptor object has.
  \<open>iLcns\<close> are the slots of the object, \<open>None\<close> at the top, where they are the list that is being filled.\<close>

definition add_slot :: "slots option \<Rightarrow> u32 \<times> u32 \<Rightarrow> slot \<Rightarrow> slots \<Rightarrow> slots" where
  "add_slot iLcns rc s lcns =
     (let own = (case iLcns of None \<Rightarrow> lcns | Some m \<Rightarrow> m);
          found = (case FindLcn own (ucast (slot_lcn s)) 0 of
                     None \<Rightarrow> \<lparr> slot_lcn = 0, min_size = 0, max_size = 0 \<rparr> | Some f \<Rightarrow> f)
      in AList.update (slot_lcn s)
           \<lparr> slot_lcn = slot_lcn s, min_size = min_size found + min_size s * fst rc,
             max_size = max_size found + max_size s * snd rc \<rparr> lcns)"

text \<open>The slots of the sub elements have different keys, so their order does not matter. A list of sub elements
  without octets is a division by zero.\<close>

fun FindLcns :: "slots option \<Rightarrow> multiplex_element list \<Rightarrow> s32 \<Rightarrow> s32 \<Rightarrow> slots \<Rightarrow> mux_fault + (u32 \<times> slots \<times> s32)" where
  "FindLcns iLcns [] max_pdu_size subelement_size lcns = Inr (0, lcns, subelement_size)"
| "FindLcns iLcns (LogicalChannel lcn rc # es) max_pdu_size subelement_size lcns =
     (let s = element_slot lcn rc in
      bind_res (FindLcns iLcns es (max_pdu_size - max_size s) (subelement_size + max_size s) (insert_slot (slot_lcn s) s lcns))
        (\<lambda>(n, lcns', octets). Inr (n + 1, lcns', octets)))"
| "FindLcns iLcns (SubElementList sub rc # es) max_pdu_size subelement_size lcns =
     bind_res (FindLcns (Some (case iLcns of None \<Rightarrow> lcns | Some m \<Rightarrow> m)) sub max_pdu_size 0 [])
       (\<lambda>(n, lcns_local, octets).
          if octets = 0 then Inl BadIndex
          else
            let rc2 = repeats rc max_pdu_size octets;
                subelement_size1 = subelement_size + snd rc2 * octets
            in bind_res (FindLcns iLcns es (max_pdu_size - subelement_size1) subelement_size1
                           (fold (\<lambda>(k, s). add_slot iLcns rc2 s) lcns_local lcns))
                 (\<lambda>(n', lcns', octets'). Inr (n + n', lcns', octets')))"

record out_descriptor =
  iDescriptor :: entry_descriptor
  iMaxPduSize :: u32
  iLcns :: slots

definition ConstructL :: "entry_descriptor \<Rightarrow> u32 \<Rightarrow> mux_fault + out_descriptor" where
  "ConstructL d max_pdu_size =
     (if option_of_elementList d then
        bind_res (FindLcns None (elementList d) max_pdu_size 0 [])
          (\<lambda>(n, lcns, octets). Inr \<lparr> iDescriptor = d, iMaxPduSize = max_pdu_size, iLcns = lcns \<rparr>)
      else Inr \<lparr> iDescriptor = d, iMaxPduSize = max_pdu_size, iLcns = [] \<rparr>)"

text \<open>The descriptors of the own side, the one of the control channel first.\<close>

type_synonym outgoing_table = "out_descriptor list"

definition new_outgoing_table :: "mux_fault + outgoing_table" where
  "new_outgoing_table = bind_res (ConstructL (GetControlDescriptor 0) 128) (\<lambda>d. Inr [d])"

fun SetOutgoingMuxDescriptors :: "out_descriptor list \<Rightarrow> outgoing_table \<Rightarrow> mux_fault + outgoing_table" where
  "SetOutgoingMuxDescriptors [] tbl = Inr tbl"
| "SetOutgoingMuxDescriptors (d # ds) tbl =
     bind_res (ConstructL (iDescriptor d) (iMaxPduSize d)) (\<lambda>d'. SetOutgoingMuxDescriptors ds (tbl @ [d']))"

fun RemoveOutgoingMuxDescriptor :: "u8 \<Rightarrow> outgoing_table \<Rightarrow> outgoing_table" where
  "RemoveOutgoingMuxDescriptor muxTblNum [] = []"
| "RemoveOutgoingMuxDescriptor muxTblNum (d # ds) =
     (if multiplexTableEntryNumber (iDescriptor d) = muxTblNum then ds
      else d # RemoveOutgoingMuxDescriptor muxTblNum ds)"

text \<open>What the look up reads of a waiting SDU: channel number, whether the channel is segmentable, size, format
  specific info. The control channel leaves the number of its entry, 0 or the first octet of the info, in the
  descriptor.\<close>

type_synonym sdu_key = "u32 \<times> bool \<times> u16 \<times> u8 list option"

definition set_number :: "u8 \<Rightarrow> out_descriptor \<Rightarrow> out_descriptor" where
  "set_number n d = d\<lparr>iDescriptor := (iDescriptor d)\<lparr>multiplexTableEntryNumber := n\<rparr>\<rparr>"

fun match_lcns :: "sdu_key list \<Rightarrow> out_descriptor \<Rightarrow> bool \<times> out_descriptor" where
  "match_lcns [] d = (True, d)"
| "match_lcns ((lcn, segmentable, len, fsi) # data) d =
     (if FindLcn (iLcns d) (ucast lcn) (if segmentable then 0 else len) = None then (False, d)
      else match_lcns data
             (if lcn = 0 then set_number (case fsi of Some (b # bs) \<Rightarrow> b | _ \<Rightarrow> 0) d else d))"

fun GetOutgoingDescriptor :: "sdu_key list \<Rightarrow> outgoing_table \<Rightarrow> entry_descriptor option \<times> outgoing_table" where
  "GetOutgoingDescriptor data_list [] = (None, [])"
| "GetOutgoingDescriptor data_list (d # ds) =
     (if length (iLcns d) = length data_list then
        (case match_lcns data_list d of
           (True, d') \<Rightarrow> (Some (iDescriptor d'), d' # ds)
         | (False, d') \<Rightarrow> let (r, ds') = GetOutgoingDescriptor data_list ds in (r, d' # ds'))
      else let (r, ds') = GetOutgoingDescriptor data_list ds in (r, d # ds'))"

definition GetOutgoingDescriptor_lcn :: "u32 \<Rightarrow> bool \<Rightarrow> u8 list option \<Rightarrow> outgoing_table \<Rightarrow> entry_descriptor option \<times> outgoing_table" where
  "GetOutgoingDescriptor_lcn lcn segmentable fsi tbl = GetOutgoingDescriptor [(lcn, segmentable, 0, fsi)] tbl"

end
