(* ===== verification/MuxSender.thy ===== *)
theory MuxSender
  imports MuxTable H223Level0 H223Level1 H223Level2
begin

text \<open>
  The multiplexer of H.223 (\<^verbatim>\<open>h223/src/cpvh223multiplex.cpp\<close>, the sending half of \<^verbatim>\<open>CPVH223Multiplex\<close>, with what it
  uses of \<^verbatim>\<open>H223OutgoingChannel\<close> and \<^verbatim>\<open>H223LowerLayer\<close>): packets of the logical channels are cut into multiplex
  PDUs. A packet that is being sent waits in one of three lists, with a cursor to its next octet.

  A pointer to a channel is its index in \<open>iOutgoingChannels\<close>. The circular list of packets that wait in a channel is
  a list, the oldest first. The pools are parameters: \<open>packet_ok\<close> says whether there is a packet and a header
  fragment, \<open>pdu_ok\<close> whether the framing level gets its buffer. A loop that never ends has the value \<open>None\<close>.
  A packet has far fewer than 65536 fragments, so the two cursors are numbers.
\<close>

section \<open>Framing levels\<close>

datatype parcom = Parcom0 level0_tx | Parcom1 bool | Parcom2 level2_tx

fun GetHeaderSz :: "parcom \<Rightarrow> nat" where
  "GetHeaderSz (Parcom0 t) = 2"
| "GetHeaderSz (Parcom1 df) = (if df then 5 else 3)"
| "GetHeaderSz (Parcom2 t) = level2_header_size (tx_iOh t)"

fun parcom_CompletePdu :: "bool \<Rightarrow> u8 list list \<Rightarrow> u8 \<Rightarrow> u8 \<Rightarrow> parcom \<Rightarrow> mux_fault + (u8 list \<times> parcom)" where
  "parcom_CompletePdu pdu_ok fs num pm (Parcom0 t) =
     bind_res (CompletePdu pdu_ok fs num pm t) (\<lambda>(xs, t'). Inr (xs, Parcom0 t'))"
| "parcom_CompletePdu pdu_ok fs num pm (Parcom1 df) =
     bind_res (level1_CompletePdu df pdu_ok fs num pm) (\<lambda>xs. Inr (xs, Parcom1 df))"
| "parcom_CompletePdu pdu_ok fs num pm (Parcom2 t) =
     bind_res (level2_CompletePdu fs num pm t) (\<lambda>(xs, t'). Inr (xs, Parcom2 t'))"

definition CompletePacket :: "bool \<Rightarrow> u8 list list \<Rightarrow> u8 \<Rightarrow> bool \<Rightarrow> parcom \<Rightarrow> mux_fault + (u8 list \<times> parcom)" where
  "CompletePacket pdu_ok fs mt_entry pm p = parcom_CompletePdu pdu_ok fs mt_entry (if pm then 1 else 0) p"

section \<open>Channels and waiting packets\<close>

record out_sdu =
  sdu_fragments :: "u8 list list"
  sdu_fsi :: "u8 list option"

record out_channel =
  och_lcn :: u32
  och_segmentable :: bool
  och_paused :: bool
  och_buffering :: bool
  och_packets :: "out_sdu list"

definition GetNextPacket :: "out_channel \<Rightarrow> out_sdu option \<times> out_channel" where
  "GetNextPacket c =
     (case och_packets c of
        [] \<Rightarrow> (None, c)
      | sdu # sdus \<Rightarrow> if och_paused c \<or> och_buffering c then (None, c) else (Some sdu, c\<lparr>och_packets := sdus\<rparr>))"

record mux_sdu_data =
  sd_channel :: nat
  sd_sdu :: out_sdu
  sd_size :: u16
  cur_frag_num :: nat
  cur_pos :: nat

record mux_sender =
  iOutgoingChannels :: "out_channel list"
  iControlSduDataList :: "mux_sdu_data list"
  iNonSegmentableSduDataList :: "mux_sdu_data list"
  iSegmentableSduDataList :: "mux_sdu_data list"
  iOutgoingDescriptors :: outgoing_table
  iParcom :: parcom

datatype sdu_list = ControlList | NonSegmentableList | SegmentableList

fun get_list :: "sdu_list \<Rightarrow> mux_sender \<Rightarrow> mux_sdu_data list" where
  "get_list ControlList s = iControlSduDataList s"
| "get_list NonSegmentableList s = iNonSegmentableSduDataList s"
| "get_list SegmentableList s = iSegmentableSduDataList s"

fun set_list :: "sdu_list \<Rightarrow> mux_sdu_data list \<Rightarrow> mux_sender \<Rightarrow> mux_sender" where
  "set_list ControlList xs s = s\<lparr>iControlSduDataList := xs\<rparr>"
| "set_list NonSegmentableList xs s = s\<lparr>iNonSegmentableSduDataList := xs\<rparr>"
| "set_list SegmentableList xs s = s\<lparr>iSegmentableSduDataList := xs\<rparr>"

definition sdu_data_list :: "bool \<Rightarrow> sdu_list" where
  "sdu_data_list segmentable = (if segmentable then SegmentableList else NonSegmentableList)"

definition channel_lcn :: "mux_sender \<Rightarrow> mux_sdu_data \<Rightarrow> u32" where
  "channel_lcn s d = och_lcn (iOutgoingChannels s ! sd_channel d)"

definition channel_segmentable :: "mux_sender \<Rightarrow> mux_sdu_data \<Rightarrow> bool" where
  "channel_segmentable s d = och_segmentable (iOutgoingChannels s ! sd_channel d)"

definition FindMuxSduData :: "u32 \<Rightarrow> bool \<Rightarrow> mux_sender \<Rightarrow> nat option" where
  "FindMuxSduData lcn segmentable s =
     find_index (\<lambda>d. channel_lcn s d = lcn) (get_list (sdu_data_list segmentable) s)"

definition AppendMuxSduData :: "mux_sdu_data \<Rightarrow> mux_sender \<Rightarrow> mux_sender" where
  "AppendMuxSduData d s =
     (let which = (if channel_lcn s d = 0 then ControlList else sdu_data_list (channel_segmentable s d))
      in set_list which (get_list which s @ [d]) s)"

text \<open>\<^verbatim>\<open>while (list.size())\<close>: when the list holds data of other channels only, nothing changes any more.\<close>

partial_function (option) remove_loop :: "u32 \<Rightarrow> bool \<Rightarrow> mux_sender \<Rightarrow> mux_sender option" where
  "remove_loop lcn segmentable s =
     (let which = sdu_data_list segmentable; xs = get_list which s
      in if xs = [] then Some s
         else case FindMuxSduData lcn segmentable s of
                Some i \<Rightarrow> remove_loop lcn segmentable (set_list which (take i xs @ drop (Suc i) xs) s)
              | None \<Rightarrow> remove_loop lcn segmentable s)"

definition RemoveMuxSduData :: "u32 \<Rightarrow> bool \<Rightarrow> mux_sender \<Rightarrow> mux_sender option" where
  "RemoveMuxSduData lcn segmentable s =
     (if lcn = 0 then Some (s\<lparr>iControlSduDataList := []\<rparr>) else remove_loop lcn segmentable s)"

definition new_sdu_data :: "nat \<Rightarrow> out_sdu \<Rightarrow> mux_sdu_data" where
  "new_sdu_data i sdu =
     \<lparr> sd_channel = i, sd_sdu = sdu, sd_size = of_nat (length (concat (sdu_fragments sdu))), cur_frag_num = 0, cur_pos = 0 \<rparr>"

text \<open>The packet of entry \<open>n\<close> is sent: the next packet of its channel, if there is one, takes its place.\<close>

definition ReleaseMuxSdu :: "sdu_list \<Rightarrow> nat \<Rightarrow> mux_sender \<Rightarrow> mux_sender option" where
  "ReleaseMuxSdu which n s =
     (let d = get_list which s ! n; i = sd_channel d
      in case GetNextPacket (iOutgoingChannels s ! i) of
           (Some sdu, c) \<Rightarrow>
             let s1 = s\<lparr>iOutgoingChannels := (iOutgoingChannels s)[i := c]\<rparr>
             in Some (set_list which ((get_list which s1)[n := new_sdu_data i sdu]) s1)
         | (None, c) \<Rightarrow> RemoveMuxSduData (channel_lcn s d) (channel_segmentable s d) s)"

text \<open>One round of the loop over the channels; the first channel is the control channel.\<close>

definition update_channel :: "nat \<Rightarrow> mux_sender \<Rightarrow> bool \<times> mux_sender" where
  "update_channel i s =
     (let c = iOutgoingChannels s ! i;
          waiting = (if i = 0 then iControlSduDataList s \<noteq> [] else FindMuxSduData (och_lcn c) (och_segmentable c) s \<noteq> None)
      in if waiting then (True, s)
         else case GetNextPacket c of
                (None, c1) \<Rightarrow> (False, s)
              | (Some sdu, c1) \<Rightarrow>
                  (True, AppendMuxSduData (new_sdu_data i sdu) (s\<lparr>iOutgoingChannels := (iOutgoingChannels s)[i := c1]\<rparr>)))"

fun update_channels :: "nat list \<Rightarrow> mux_sender \<Rightarrow> nat \<times> mux_sender" where
  "update_channels [] s = (0, s)"
| "update_channels (i # is) s =
     (let (waiting, s1) = update_channel i s; (n, s2) = update_channels is s1
      in (if waiting then Suc n else n, s2))"

definition UpdateSduDataLists :: "mux_sender \<Rightarrow> nat \<times> mux_sender" where
  "UpdateSduDataLists s = update_channels [0..<length (iOutgoingChannels s)] s"

section \<open>Cutting packets\<close>

text \<open>The fragments that the loop appends, and the cursor and the size behind them.\<close>

function take_pieces :: "u8 list list \<Rightarrow> nat \<Rightarrow> nat \<Rightarrow> nat \<Rightarrow> u16 \<Rightarrow> mux_fault + (u8 list list \<times> nat \<times> nat \<times> u16)" where
  "take_pieces sdu bytesToMux frag_num p sz =
     (if bytesToMux = 0 then Inr ([], frag_num, p, sz)
      else if length sdu \<le> frag_num \<or> length (sdu ! frag_num) < p then Inl BadIndex
      else
        let avail = length (sdu ! frag_num) - p;
            n = min bytesToMux avail
        in bind_res
             (if avail - n = 0 then take_pieces sdu (bytesToMux - n) (Suc frag_num) 0 (sz - of_nat n)
              else take_pieces sdu (bytesToMux - n) frag_num (p + n) (sz - of_nat n))
             (\<lambda>(pieces, cursor). Inr (take n (drop p (sdu ! frag_num)) # pieces, cursor)))"
  by pat_completeness auto
termination
  by (relation "measure (\<lambda>(sdu, bytes, frag_num, p, sz). bytes + (length sdu - frag_num))") (auto simp: min_def split: if_splits)

declare take_pieces.simps [simp del]

definition MakePduData :: "int \<Rightarrow> multiplex_element \<Rightarrow> bool \<Rightarrow> mux_sdu_data \<Rightarrow> mux_fault + (u8 list list \<times> mux_sdu_data \<times> bool)" where
  "MakePduData max_pdu pElement segmentable d =
     (let wanted = (case pElement of
                      LogicalChannel lcn (Finite n) \<Rightarrow> min (uint n) (uint (sd_size d))
                    | SubElementList sub (Finite n) \<Rightarrow> min (uint n) (uint (sd_size d))
                    | _ \<Rightarrow> uint (sd_size d));
          bytesToMux = min max_pdu wanted
      in if bytesToMux < 0 then Inl FailedAssertion
         else bind_res (take_pieces (sdu_fragments (sd_sdu d)) (nat bytesToMux) (cur_frag_num d) (cur_pos d) (sd_size d))
           (\<lambda>(pieces, frag_num, p, sz).
              Inr (pieces, d\<lparr>sd_size := sz, cur_frag_num := frag_num, cur_pos := p\<rparr>, sz = 0 \<and> segmentable)))"

text \<open>Packets sent (none or one), entry, framing level.\<close>

definition DispatchPduPacket :: "bool \<Rightarrow> bool \<Rightarrow> mux_sdu_data \<Rightarrow> bool \<Rightarrow> entry_descriptor \<Rightarrow> int \<Rightarrow> parcom
    \<Rightarrow> mux_fault + (u8 list option \<times> mux_sdu_data \<times> parcom)" where
  "DispatchPduPacket packet_ok pdu_ok d segmentable mux_entry max_pdu p =
     (case elementList mux_entry of
        [e] \<Rightarrow>
          if \<not> packet_ok then Inr (None, d, p)
          else bind_res (MakePduData (max_pdu - int (GetHeaderSz p)) e segmentable d)
            (\<lambda>(pieces, d1, pm).
               case CompletePacket pdu_ok pieces (multiplexTableEntryNumber mux_entry) pm p of
                 Inr (xs, p1) \<Rightarrow> Inr (Some xs, d1, p1)
               | Inl PVMFErrNoMemory \<Rightarrow> Inr (None, d1, p)
               | Inl fault \<Rightarrow> Inl fault)
      | _ \<Rightarrow> Inl FailedAssertion)"

text \<open>The loop over the entries of a list: \<open>k\<close> is at least the number of rounds, since a list only gets shorter. The
  result: packets, octets left, state.\<close>

fun mux_loop :: "nat \<Rightarrow> bool \<Rightarrow> bool \<Rightarrow> sdu_list \<Rightarrow> nat \<Rightarrow> int \<Rightarrow> mux_sender
    \<Rightarrow> (mux_fault + (u8 list list \<times> int \<times> mux_sender)) option" where
  "mux_loop 0 packet_ok pdu_ok which n pdu_size_left s = Some (Inr ([], pdu_size_left, s))"
| "mux_loop (Suc k) packet_ok pdu_ok which n pdu_size_left s =
     (if length (get_list which s) \<le> n then Some (Inr ([], pdu_size_left, s))
      else
        let d = get_list which s ! n;
            (entry, tbl) = GetOutgoingDescriptor_lcn (channel_lcn s d) (channel_segmentable s d) (sdu_fsi (sd_sdu d))
                             (iOutgoingDescriptors s);
            s1 = s\<lparr>iOutgoingDescriptors := tbl\<rparr>
        in case entry of
             None \<Rightarrow> mux_loop k packet_ok pdu_ok which (Suc n) pdu_size_left s1
           | Some mux_entry \<Rightarrow>
               (case DispatchPduPacket packet_ok pdu_ok d (channel_segmentable s d) mux_entry pdu_size_left (iParcom s1) of
                  Inl fault \<Rightarrow> Some (Inl fault)
                | Inr (packet, d1, p1) \<Rightarrow>
                    let s2 = (set_list which ((get_list which s1)[n := d1]) s1)\<lparr>iParcom := p1\<rparr>;
                        packets = (case packet of None \<Rightarrow> [] | Some xs \<Rightarrow> [xs]);
                        packet_size = length (concat packets);
                        left = pdu_size_left - int packet_size
                    in if packet_size = 0 then Some (Inr (packets, pdu_size_left, s2))
                       else
                         (case (if sd_size d1 = 0 then ReleaseMuxSdu which n s2 else Some s2) of
                            None \<Rightarrow> None
                          | Some s3 \<Rightarrow>
                              if left \<le> int (GetHeaderSz (iParcom s3)) then Some (Inr (packets, left, s3))
                              else map_option (\<lambda>r. bind_res r (\<lambda>(packets', left', s4). Inr (packets @ packets', left', s4)))
                                     (mux_loop k packet_ok pdu_ok which (Suc n) left s3))))"

definition MuxLcnData :: "bool \<Rightarrow> bool \<Rightarrow> sdu_list \<Rightarrow> u16 \<Rightarrow> mux_sender
    \<Rightarrow> (mux_fault + (u16 \<times> u8 list list \<times> mux_sender)) option" where
  "MuxLcnData packet_ok pdu_ok which max_pdu s =
     map_option (\<lambda>r. bind_res r (\<lambda>(packets, left, s1). Inr (word_of_int (uint max_pdu - left), packets, s1)))
       (mux_loop (length (get_list which s)) packet_ok pdu_ok which 0 (uint max_pdu) s)"

end
