(* ===== verification/MuxProps.thy ===== *)
theory MuxProps
  imports MuxSender
begin

text \<open>
  Properties of the sending half of the multiplexer: when the removal of the data of a channel never returns, and
  how packets are cut.
\<close>

section \<open>Removing the data of a channel\<close>

lemma set_list_simps [simp]:
  "get_list which (set_list which xs s) = xs"
  "iOutgoingChannels (set_list which xs s) = iOutgoingChannels s"
  "set_list which xs (set_list which ys s) = set_list which xs s"
  "set_list which (get_list which s) s = s"
  by (cases which; simp)+

lemma channel_lcn_list [simp]: "channel_lcn (set_list which xs s) = channel_lcn s"
  by (simp add: channel_lcn_def fun_eq_iff)

lemma erased: "i < length xs \<Longrightarrow> set xs = insert (xs ! i) (set (take i xs @ drop (Suc i) xs))"
  by (metis id_take_nth_drop list.simps(15) set_append Un_insert_right)

definition only_of :: "u32 \<Rightarrow> bool \<Rightarrow> mux_sender \<Rightarrow> mux_sender \<Rightarrow> bool" where
  "only_of lcn seg s t \<longleftrightarrow> (\<forall>d \<in> set (get_list (sdu_data_list seg) s). channel_lcn s d = lcn)"

lemma remove_returns: "remove_loop lcn seg s = Some t \<Longrightarrow> only_of lcn seg s t"
proof (erule remove_loop.raw_induct [of only_of, rotated])
  fix f :: "u32 \<Rightarrow> bool \<Rightarrow> mux_sender \<Rightarrow> mux_sender option" and lcn seg s t
  assume 1: "\<And>lcn seg s t. f lcn seg s = Some t \<Longrightarrow> only_of lcn seg s t"
    "(let which = sdu_data_list seg; xs = get_list which s
      in if xs = [] then Some s
         else case FindMuxSduData lcn seg s of
                None \<Rightarrow> f lcn seg s
              | Some i \<Rightarrow> f lcn seg (set_list which (take i xs @ drop (Suc i) xs) s)) = Some t"
  let ?xs = "get_list (sdu_data_list seg) s"
  show "only_of lcn seg s t"
  proof (cases "FindMuxSduData lcn seg s")
    case None
    then show ?thesis using 1(2) 1(1) [of lcn seg s t] by (auto simp: only_of_def Let_def split: if_splits)
  next
    case (Some i)
    have i: "i < length ?xs" "channel_lcn s (?xs ! i) = lcn"
      using find_index_Some [OF Some [unfolded FindMuxSduData_def]] by blast+
    then have "\<forall>d \<in> set (take i ?xs @ drop (Suc i) ?xs). channel_lcn s d = lcn"
      using 1(2) 1(1) [of lcn seg "set_list (sdu_data_list seg) (take i ?xs @ drop (Suc i) ?xs) s" t] Some
      by (auto simp: only_of_def Let_def split: if_splits)
    then show ?thesis using i erased [OF i(1)] by (auto simp: only_of_def)
  qed
qed

lemma remove_ends:
  assumes "\<forall>d \<in> set (get_list (sdu_data_list seg) s). channel_lcn s d = lcn"
  shows "remove_loop lcn seg s = Some (set_list (sdu_data_list seg) [] s)"
  using assms
proof (induction "get_list (sdu_data_list seg) s" arbitrary: s)
  case Nil
  then have "set_list (sdu_data_list seg) [] s = s" by (metis set_list_simps(4))
  then show ?case using Nil by (subst remove_loop.simps) simp
next
  case (Cons d ds)
  have l: "get_list (sdu_data_list seg) s = d # ds" using Cons.hyps(2) by simp
  have "FindMuxSduData lcn seg s = Some 0" using Cons.prems by (simp add: FindMuxSduData_def l)
  then have "remove_loop lcn seg s = remove_loop lcn seg (set_list (sdu_data_list seg) ds s)"
    by (subst remove_loop.simps) (simp add: l)
  also have "\<dots> = Some (set_list (sdu_data_list seg) [] (set_list (sdu_data_list seg) ds s))"
    using Cons.prems by (intro Cons.hyps(1)) (simp_all add: l)
  finally show ?case by simp
qed

section \<open>Properties\<close>

text \<open>C36. The removal of the data of a channel, which follows when the last packet of the channel is sent or
  the channel is flushed, always returns for the control channel, and for another channel exactly if the list holds no
  data of a further channel; otherwise its loop never ends. Two segmentable channels that both have data are
  enough.\<close>

theorem removal_returns:
  "RemoveMuxSduData lcn seg s =
     (if lcn = 0 then Some (s\<lparr>iControlSduDataList := []\<rparr>)
      else if list_all (\<lambda>d. channel_lcn s d = lcn) (get_list (sdu_data_list seg) s)
           then Some (set_list (sdu_data_list seg) [] s) else None)"
proof (cases "lcn = 0 \<or> list_all (\<lambda>d. channel_lcn s d = lcn) (get_list (sdu_data_list seg) s)")
  case True
  then show ?thesis using remove_ends by (auto simp: RemoveMuxSduData_def list_all_iff)
next
  case False
  then have "remove_loop lcn seg s = None" using remove_returns [of lcn seg s] by (cases "remove_loop lcn seg s") (auto simp: list_all_iff only_of_def)
  then show ?thesis using False by (auto simp: RemoveMuxSduData_def)
qed

end
