(* ===== verification/IncomingChannel.thy ===== *)
theory IncomingChannel
  imports AdaptationLayer MuxTable
begin

text \<open>
  An incoming logical channel of the multiplexer (\<^verbatim>\<open>h223/src/logicalchannel.cpp\<close>, class
  \<^verbatim>\<open>H223IncomingChannel\<close>): it copies what the multiplexer cuts out of the PDUs into fragments of 128 octets and
  hands the packet to its adaptation layer when the packet is complete.

  \<open>iAlPdu\<close> is the packet: the fragments that are full (\<^verbatim>\<open>iAlPduMediaData\<close>) and what stands in the current one
  (\<^verbatim>\<open>iAlPduFrag\<close>, from its start to \<^verbatim>\<open>iAlPduFragPos\<close>), which exists only with the former. The memory pools are a
  parameter, one function from the number of a request to the answer (\<open>ic_pool\<close>), which covers every behaviour of the
  pools of \<^verbatim>\<open>Init\<close>; how many blocks they have (171 fragments at the default bit rate) and when blocks come back is
  not represented, and \<open>pool_full\<close>, which some theorems assume, says that every request is answered. What the media
  type makes of a packet (\<^verbatim>\<open>DispatchOutgoingMsg\<close>) is an event, and \<open>ic_accepts\<close> its status. Time stamps, and
  statistics that nothing reads, are left out.
\<close>

datatype al_layer = AL1 | AL2 al2 | AL3 al3

fun ParsePacket :: "al_layer \<Rightarrow> u8 list list \<Rightarrow> mux_fault + (al_layer \<times> u8 list list \<times> al_info)" where
  "ParsePacket AL1 pkt = (let (pkt1, info) = al1_ParsePacket pkt in Inr (AL1, pkt1, info))"
| "ParsePacket (AL2 s) pkt = bind_res (al2_ParsePacket s pkt) (\<lambda>(s1, pkt1, info). Inr (AL2 s1, pkt1, info))"
| "ParsePacket (AL3 s) pkt = bind_res (al3_ParsePacket s pkt) (\<lambda>(s1, pkt1, info). Inr (AL3 s1, pkt1, info))"

record in_channel =
  ic_lcn :: u32
  ic_segmentable :: bool
  ic_paused :: bool
  ic_al :: al_layer
  iAlPdu :: "(u8 list list \<times> u8 list option) option"
  iNumSdusIn :: u32
  ic_pool :: "nat \<Rightarrow> bool"
  ic_asked :: nat
  ic_accepts :: "u8 list list \<Rightarrow> bool"

text \<open>Packet, sequence number, check sum error, sequence error.\<close>

datatype demux_event =
    Sdu u32 "u8 list list" u32 bool bool
  | LcnDataDetected u32

definition H223_INCOMING_CHANNEL_FRAGMENT_SIZE :: nat where
  "H223_INCOMING_CHANNEL_FRAGMENT_SIZE = 128"

definition pool_get :: "in_channel \<Rightarrow> bool \<times> in_channel" where
  "pool_get c = (ic_pool c (ic_asked c), c\<lparr>ic_asked := ic_asked c + 1\<rparr>)"

definition ResetAlPdu :: "in_channel \<Rightarrow> in_channel" where
  "ResetAlPdu c = c\<lparr>iAlPdu := None\<rparr>"

definition AppendAlPduFrag :: "in_channel \<Rightarrow> in_channel" where
  "AppendAlPduFrag c =
     (let (ok, c1) = pool_get c
      in if ok then c1\<lparr>iAlPdu := map_option (\<lambda>(full, current). (full, Some [])) (iAlPdu c1)\<rparr> else c1)"

definition AllocateAlPdu :: "in_channel \<Rightarrow> in_channel" where
  "AllocateAlPdu c =
     (let (ok, c1) = pool_get c
      in if ok then AppendAlPduFrag (c1\<lparr>iAlPdu := Some ([], None)\<rparr>) else c1\<lparr>iAlPdu := None\<rparr>)"

definition CopyToCurrentFrag :: "u8 list \<Rightarrow> in_channel \<Rightarrow> nat \<times> in_channel" where
  "CopyToCurrentFrag buf c =
     (let c1 = (case iAlPdu c of
                  None \<Rightarrow> AllocateAlPdu c
                | Some (full, None) \<Rightarrow> AppendAlPduFrag c
                | Some (full, Some current) \<Rightarrow> c)
      in case iAlPdu c1 of
           Some (full, Some current) \<Rightarrow>
             let space = H223_INCOMING_CHANNEL_FRAGMENT_SIZE - length current;
                 n = (if space < length buf then space else length buf);
                 current1 = current @ take n buf
             in (n, c1\<lparr>iAlPdu := Some (if space - n = 0 then (full @ [current1], None) else (full, Some current1))\<rparr>)
         | _ \<Rightarrow> (0, c1))"

text \<open>The number of octets that are not copied.\<close>

function copy_loop :: "u8 list \<Rightarrow> in_channel \<Rightarrow> nat \<times> in_channel" where
  "copy_loop buf c =
     (let (copied, c1) = CopyToCurrentFrag buf c
      in if copied < length buf \<and> copied \<noteq> 0 then copy_loop (drop copied buf) c1 else (length buf - copied, c1))"
  by pat_completeness auto
termination by (relation "measure (\<lambda>(buf, c). length buf)") auto

declare copy_loop.simps [simp del]

definition CopyAlPduData :: "u8 list \<Rightarrow> in_channel \<Rightarrow> nat \<times> in_channel" where
  "CopyAlPduData buf c = (let (remaining, c1) = copy_loop buf c in (length buf - remaining, c1))"

text \<open>\<^verbatim>\<open>PreAlPduData\<close> returns to its caller whether the channel is paused or not.\<close>

definition AlPduData :: "u8 list \<Rightarrow> in_channel \<Rightarrow> bool \<times> in_channel" where
  "AlPduData buf c = (let (copied, c1) = CopyAlPduData buf c in (copied = length buf, c1))"

definition AlDispatch :: "in_channel \<Rightarrow> mux_fault + (bool \<times> in_channel \<times> demux_event list)" where
  "AlDispatch c =
     (if ic_paused c then Inr (False, c, [])
      else case iAlPdu c of
        None \<Rightarrow> Inr (True, ResetAlPdu c, [])
      | Some (full, current) \<Rightarrow>
          let pkt = full @ (case current of None \<Rightarrow> [] | Some f \<Rightarrow> [f])
          in bind_res (ParsePacket (ic_al c) pkt)
               (\<lambda>(al, pkt1, info).
                  let c1 = c\<lparr>ic_al := al, iAlPdu := Some (pkt1, current)\<rparr>
                  in if sdu_size info \<le> 0 then Inr (False, ResetAlPdu c1, [])
                     else
                       let c2 = (if crc_error info then c1 else c1\<lparr>iNumSdusIn := iNumSdusIn c1 + 1\<rparr>);
                           (ok, c3) = pool_get c2
                       in if \<not> ok then Inr (False, c3, [])
                          else Inr (ic_accepts c3 pkt1, AllocateAlPdu (ResetAlPdu c3),
                                 [Sdu (ic_lcn c3) pkt1 (seq_num info) (crc_error info) (seq_num_error info \<noteq> 0)])))"

text \<open>\<^verbatim>\<open>Init\<close>, and the two calls that drop what has arrived.\<close>

definition new_in_channel :: "u32 \<Rightarrow> bool \<Rightarrow> al_layer \<Rightarrow> (nat \<Rightarrow> bool) \<Rightarrow> (u8 list list \<Rightarrow> bool) \<Rightarrow> in_channel" where
  "new_in_channel lcn segmentable al pool accepts =
     (AllocateAlPdu (ResetAlPdu
        \<lparr> ic_lcn = lcn, ic_segmentable = segmentable, ic_paused = False, ic_al = al, iAlPdu = None,
          iNumSdusIn = 0, ic_pool = pool, ic_asked = 0, ic_accepts = accepts \<rparr>))\<lparr>iNumSdusIn := 0\<rparr>"

definition in_Flush :: "in_channel \<Rightarrow> in_channel" where
  "in_Flush c = ResetAlPdu c"

definition in_Pause :: "in_channel \<Rightarrow> in_channel" where
  "in_Pause c = (if ic_paused c then c else in_Flush (c\<lparr>ic_paused := True\<rparr>))"

definition in_Resume :: "in_channel \<Rightarrow> in_channel" where
  "in_Resume c = c\<lparr>ic_paused := False\<rparr>"

end
