(* ===== verification/PacketLink.thy ===== *)
theory PacketLink
  imports IncomingChannel AdaptationProps
begin

text \<open>
  One logical channel from end to end: the three adaptation layers as a link between a sender and a receiver that
  count packets alike, and the incoming channel as a buffer that hands its adaptation layer the octets it got, in
  fragments of 128.
\<close>

section \<open>Adaptation layers as links\<close>

datatype al_kind = Kind1 | Kind2 bool | Kind3 nat

fun kind_ok :: "al_kind \<Rightarrow> bool" where
  "kind_ok (Kind3 snpos) = (snpos = 1 \<or> snpos = 2)"
| "kind_ok k = True"

fun new_al :: "al_kind \<Rightarrow> al_layer" where
  "new_al Kind1 = AL1"
| "new_al (Kind2 seqno) = AL2 (new_al2 seqno)"
| "new_al (Kind3 snpos) = AL3 (new_al3 snpos)"

text \<open>\<open>k\<close> packets have passed.\<close>

fun al_at :: "al_kind \<Rightarrow> nat \<Rightarrow> al_layer \<Rightarrow> bool" where
  "al_at Kind1 k AL1 = True"
| "al_at (Kind2 seqno) k (AL2 s) = (al2_iSNPos s = (if seqno then 1 else 0) \<and> (seqno \<longrightarrow> al2_iSeqNum s = of_nat (k mod 256)))"
| "al_at (Kind3 snpos) k (AL3 s) = al3_at snpos (k mod al3_modulus snpos) s"
| "al_at kind k al = False"

text \<open>A packet of fragments \<open>fs\<close>; \<open>frag\<close> is the fragment from the pool for the header.\<close>

fun al_send :: "u8 list \<Rightarrow> al_layer \<Rightarrow> u8 list list \<Rightarrow> mux_fault + (al_layer \<times> u8 list list)" where
  "al_send frag AL1 fs = Inr (AL1, al1_CompletePacket fs)"
| "al_send frag (AL2 s) fs =
     bind_res (al2_StartPacket (Some frag) s []) (\<lambda>p. bind_res (al2_CompletePacket True s (p @ fs)) (\<lambda>(t, pkt). Inr (AL2 t, pkt)))"
| "al_send frag (AL3 s) fs = bind_res (al3_send frag s fs) (\<lambda>(t, pkt). Inr (AL3 t, pkt))"

fun al_octets :: "al_kind \<Rightarrow> nat \<Rightarrow> u8 list \<Rightarrow> u8 list" where
  "al_octets Kind1 k sdu = sdu"
| "al_octets (Kind2 seqno) k sdu =
     (let xs = (if seqno then [of_nat k] else []) @ sdu in xs @ [Crc8Check_octets xs])"
| "al_octets (Kind3 snpos) k sdu = al3_octets snpos (of_nat (k mod al3_modulus snpos)) sdu"

lemma new_al_at: "kind_ok kind \<Longrightarrow> al_at kind 0 (new_al kind)"
  by (cases kind) (auto simp: new_al2_def SetSeqnum_def al3_at_def new_al3_def al3_modulus_def)

lemma al2_number: "ucast (of_nat (k mod 256) :: u32) = (of_nat k :: u8)"
  by (simp add: unsigned_of_nat word_of_nat_eq_iff take_bit_eq_mod)

lemma al2_next: "(if (of_nat (k mod 256) :: u32) \<noteq> 0xff then of_nat (k mod 256) + 1 else 0) = of_nat (Suc k mod 256)"
proof -
  have "unat (of_nat (k mod 256) :: u32) = k mod 256" by (subst unat_of_nat) (simp add: take_bit_eq_mod)
  then have "(of_nat (k mod 256) :: u32) = 0xff \<longleftrightarrow> k mod 256 = 255" by (simp add: word_unat_eq_iff)
  moreover have "Suc k mod 256 = (if k mod 256 = 255 then 0 else Suc (k mod 256))" by (simp add: mod_Suc)
  ultimately show ?thesis by (simp add: add.commute)
qed

lemma al_sent:
  assumes "kind_ok kind" and "al_at kind k s" and "2 \<le> length frag" and "fragments_ok fs"
  shows "\<exists>t pkt. al_send frag s fs = Inr (t, pkt) \<and> concat pkt = al_octets kind k (concat fs) \<and> al_at kind (Suc k) t"
proof (cases "(kind, k, s)" rule: al_at.cases)
  case (1 k')
  then show ?thesis using assms(4) by (simp add: al1_CompletePacket_def fragments_ok_def)
next
  case (2 seqno k' st)
  have at: "kind = Kind2 seqno" "s = AL2 st" "al2_iSNPos st = (if seqno then 1 else 0)" "seqno \<longrightarrow> al2_iSeqNum st = of_nat (k mod 256)"
    using 2 assms(2) by simp_all
  obtain h hs where h: "frag = h # hs" using assms(3) by (cases frag) auto
  have fs: "list_all (\<lambda>f. f \<noteq> []) fs" using assms(4) by (simp add: fragments_ok_def)
  show ?thesis
  proof (cases seqno)
    case True
    have n: "al2_iSeqNum st = of_nat (k mod 256)" "al2_iSNPos st = 1" using at True by simp_all
    have "Crc8Check False ([of_nat k] # fs) = Inr (Crc8Check_octets (of_nat k # concat fs))"
      using Crc8Check_fragments [of "[of_nat k] # fs" "[]"] fs by simp
    then have "al_send frag s fs = Inr (AL2 (st\<lparr>al2_iSeqNum := of_nat (Suc k mod 256)\<rparr>),
        ([of_nat k] # fs) @ [[Crc8Check_octets (of_nat k # concat fs)]])"
      using n by (simp add: at(2) h al2_StartPacket_def al2_CompletePacket_def al2_number al2_next [symmetric])
    then show ?thesis using True n fs at(1) by (simp add: Let_def)
  next
    case False
    have "Crc8Check False fs = Inr (Crc8Check_octets (concat fs))" using Crc8Check_fragments [OF fs, of "[]"] by simp
    then have "al_send frag s fs = Inr (AL2 st, fs @ [[Crc8Check_octets (concat fs)]])"
      using at False by (simp add: al2_StartPacket_def al2_CompletePacket_def)
    then show ?thesis using False at fs by (simp add: Let_def)
  qed
next
  case (3 snpos k' st)
  then have at: "kind = Kind3 snpos" "s = AL3 st" "al3_at snpos (k mod al3_modulus snpos) st" "snpos = 1 \<or> snpos = 2"
    using assms(1,2) by simp_all
  obtain t pkt where t: "al3_send frag st fs = Inr (t, pkt)" "concat pkt = al3_octets snpos (of_nat (k mod al3_modulus snpos)) (concat fs)"
      "al3_at snpos (Suc (k mod al3_modulus snpos) mod al3_modulus snpos) t"
    using al3_sent [OF at(3,4) assms(3,4)] by blast
  then show ?thesis using at(1,2) by (simp add: mod_Suc_eq)
qed (use assms in auto)


section \<open>Fragments of a channel\<close>

definition held :: "in_channel \<Rightarrow> u8 list" where
  "held c = (case iAlPdu c of None \<Rightarrow> [] | Some (full, current) \<Rightarrow> concat full @ (case current of None \<Rightarrow> [] | Some f \<Rightarrow> f))"

text \<open>Full fragments, and a last one that is not full and is empty only at the start.\<close>

definition filling :: "in_channel \<Rightarrow> bool" where
  "filling c \<longleftrightarrow>
     (case iAlPdu c of None \<Rightarrow> True
      | Some (full, current) \<Rightarrow> list_all (\<lambda>f. length f = H223_INCOMING_CHANNEL_FRAGMENT_SIZE) full
          \<and> (case current of None \<Rightarrow> True | Some f \<Rightarrow> length f < H223_INCOMING_CHANNEL_FRAGMENT_SIZE \<and> (f = [] \<longrightarrow> full = [])))"

definition pool_full :: "in_channel \<Rightarrow> bool" where
  "pool_full c \<longleftrightarrow> (\<forall>n. ic_pool c n)"

text \<open>What a copy leaves alone.\<close>

definition channel_frame :: "in_channel \<Rightarrow> _" where
  "channel_frame c = (ic_lcn c, ic_segmentable c, ic_paused c, ic_al c, iNumSdusIn c, ic_pool c, ic_accepts c)"

lemma allocated:
  assumes "pool_full c"
  shows "AllocateAlPdu c = c\<lparr>iAlPdu := Some ([], Some []), ic_asked := ic_asked c + 2\<rparr>"
    "AppendAlPduFrag c = c\<lparr>iAlPdu := map_option (\<lambda>(full, current). (full, Some [])) (iAlPdu c), ic_asked := ic_asked c + 1\<rparr>"
  using assms by (simp_all add: pool_full_def AllocateAlPdu_def AppendAlPduFrag_def pool_get_def)

lemma copied_to_frag:
  assumes "pool_full c" and "filling c" and "buf \<noteq> []"
  shows "\<exists>n c1. CopyToCurrentFrag buf c = (n, c1) \<and> 0 < n \<and> n \<le> length buf \<and> held c1 = held c @ take n buf
     \<and> filling c1 \<and> channel_frame c1 = channel_frame c"
proof -
  define c0 where "c0 = (case iAlPdu c of
                  None \<Rightarrow> AllocateAlPdu c
                | Some (full, None) \<Rightarrow> AppendAlPduFrag c
                | Some (full, Some current) \<Rightarrow> c)"
  have "\<exists>full f. iAlPdu c0 = Some (full, Some f) \<and> list_all (\<lambda>f. length f = H223_INCOMING_CHANNEL_FRAGMENT_SIZE) full
      \<and> length f < H223_INCOMING_CHANNEL_FRAGMENT_SIZE \<and> concat full @ f = held c \<and> channel_frame c0 = channel_frame c"
  proof (cases "iAlPdu c")
    case None
    then show ?thesis using assms(1) by (simp add: c0_def allocated held_def channel_frame_def H223_INCOMING_CHANNEL_FRAGMENT_SIZE_def)
  next
    case (Some p)
    obtain full current where p: "p = (full, current)" by (cases p)
    then show ?thesis using assms(1,2) Some
      by (cases current) (simp_all add: c0_def allocated held_def filling_def channel_frame_def H223_INCOMING_CHANNEL_FRAGMENT_SIZE_def)
  qed
  then obtain full f where f: "iAlPdu c0 = Some (full, Some f)" "list_all (\<lambda>f. length f = H223_INCOMING_CHANNEL_FRAGMENT_SIZE) full"
      "length f < H223_INCOMING_CHANNEL_FRAGMENT_SIZE" "concat full @ f = held c" "channel_frame c0 = channel_frame c"
    by blast
  let ?n = "min (H223_INCOMING_CHANNEL_FRAGMENT_SIZE - length f) (length buf)"
  have n: "0 < ?n" "?n \<le> length buf" using f(3) assms(3) by simp_all
  let ?pdu = "if H223_INCOMING_CHANNEL_FRAGMENT_SIZE - length f - ?n = 0 then (full @ [f @ take ?n buf], None) else (full, Some (f @ take ?n buf))"
  have "CopyToCurrentFrag buf c = (?n, c0\<lparr>iAlPdu := Some ?pdu\<rparr>)"
    using f(1) unfolding CopyToCurrentFrag_def c0_def [symmetric] by (simp add: Let_def min_def not_less)
  moreover have "held (c0\<lparr>iAlPdu := Some ?pdu\<rparr>) = held c @ take ?n buf" using f(4) by (auto simp: held_def)
  moreover have "filling (c0\<lparr>iAlPdu := Some ?pdu\<rparr>)" using f(2,3) n by (auto simp: filling_def)
  moreover have "channel_frame (c0\<lparr>iAlPdu := Some ?pdu\<rparr>) = channel_frame c" using f(5) by (simp add: channel_frame_def)
  ultimately show ?thesis using n by blast
qed

lemma copied_all:
  assumes "pool_full c" and "filling c" and "buf \<noteq> []"
  shows "\<exists>c1. copy_loop buf c = (0, c1) \<and> held c1 = held c @ buf \<and> filling c1 \<and> channel_frame c1 = channel_frame c"
  using assms
proof (induction buf c rule: copy_loop.induct)
  case (1 buf c)
  obtain n c1 where n: "CopyToCurrentFrag buf c = (n, c1)" "0 < n" "n \<le> length buf" "held c1 = held c @ take n buf"
      "filling c1" "channel_frame c1 = channel_frame c"
    using copied_to_frag [OF "1.prems"] by blast
  have p: "pool_full c1" using "1.prems"(1) n(6) by (simp add: pool_full_def channel_frame_def)
  show ?case
  proof (cases "n < length buf")
    case True
    then obtain c2 where c2: "copy_loop (drop n buf) c1 = (0, c2)" "held c2 = held c1 @ drop n buf" "filling c2"
        "channel_frame c2 = channel_frame c1"
      using "1.IH" [OF n(1) [symmetric] refl] n(2) p n(5) by auto
    then show ?thesis using n True by (subst copy_loop.simps) simp
  next
    case False
    then show ?thesis using n by (subst copy_loop.simps) simp
  qed
qed

lemma data_copied:
  assumes "pool_full c" and "filling c" and "buf \<noteq> []"
  shows "\<exists>c1. AlPduData buf c = (True, c1) \<and> held c1 = held c @ buf \<and> filling c1 \<and> channel_frame c1 = channel_frame c"
  using copied_all [OF assms] by (auto simp: AlPduData_def CopyAlPduData_def)


section \<open>A packet arrives\<close>

definition arrived :: "u8 list \<Rightarrow> u8 list list \<Rightarrow> bool" where
  "arrived octets pkt \<longleftrightarrow> concat pkt = octets \<and> list_all (\<lambda>f. f \<noteq> []) pkt \<and> length pkt \<le> PV2WAY_MAX_PACKET_MEM_FRAG
     \<and> min 2 (length octets) \<le> length (hd pkt)"

lemma without_last:
  assumes "concat pkt = xs @ [c]" and "list_all (\<lambda>f. f \<noteq> []) pkt"
  shows "pkt \<noteq> [] \<and> last pkt \<noteq> [] \<and> last (last pkt) = c \<and> concat (butlast pkt @ [butlast (last pkt)]) = xs
     \<and> Crc8Check False (butlast pkt @ [butlast (last pkt)]) = Inr (Crc8Check_octets xs)"
proof -
  have ne: "pkt \<noteq> []" using assms(1) by auto
  then obtain fs f where p: "pkt = fs @ [f]" by (metis append_butlast_last_id)
  have f: "f \<noteq> []" "list_all (\<lambda>f. f \<noteq> []) fs" using assms(2) p by simp_all
  obtain g d where g: "f = g @ [d]" using f(1) by (metis append_butlast_last_id)
  have x: "concat fs @ g = xs" "d = c" using assms(1) by (simp_all add: p g flip: append_assoc)
  have "Crc8Check False (fs @ [g]) = Inr (Crc8Check_octets (concat fs @ g))"
    using Crc8Check_fragments [OF f(2), of "[[]]"] Crc8Check_fragments [of "fs @ [g]" "[]"] f(2) by (cases "g = []") simp_all
  then show ?thesis using x by (simp add: p g)
qed

lemma al2_received:
  assumes "al_at (Kind2 seqno) k (AL2 s)" and "sdu \<noteq> []" and "length sdu \<le> 4000" and "arrived (al_octets (Kind2 seqno) k sdu) pkt"
  shows "\<exists>s' pkt' info. al2_ParsePacket s pkt = Inr (s', pkt', info) \<and> al_at (Kind2 seqno) (Suc k) (AL2 s')
     \<and> concat pkt' = sdu \<and> 0 < sdu_size info \<and> \<not> crc_error info \<and> seq_num_error info = 0"
proof -
  define n where "n = (if seqno then [of_nat k :: u8] else [])"
  have at: "al2_iSNPos s = length n" "seqno \<Longrightarrow> al2_iSeqNum s = of_nat (k mod 256)" using assms(1) by (simp_all add: n_def)
  have p: "concat pkt = (n @ sdu) @ [Crc8Check_octets (n @ sdu)]" "list_all (\<lambda>f. f \<noteq> []) pkt" "length pkt \<le> PV2WAY_MAX_PACKET_MEM_FRAG"
      "min 2 (length (n @ sdu) + 1) \<le> length (hd pkt)"
    using assms(4) by (simp_all add: arrived_def n_def Let_def)
  define pkt1 where "pkt1 = butlast pkt @ [butlast (last pkt)]"
  have w: "pkt \<noteq> []" "last pkt \<noteq> []" "last (last pkt) = Crc8Check_octets (n @ sdu)" "concat pkt1 = n @ sdu"
      "Crc8Check False pkt1 = Inr (Crc8Check_octets (n @ sdu))"
    using without_last [OF p(1,2)] by (simp_all add: pkt1_def)
  have pkt1: "pkt1 \<noteq> []" "length pkt1 = length pkt" "concat (pkt1[0 := f]) = f @ concat (tl pkt1)" for f
    using w(1) concat_first [of pkt1 f] by (simp_all add: pkt1_def)
  have "filled_size pkt - int (length n) - 1 = int (length sdu)" by (simp add: filled_size_def p(1))
  then have size: "int16_of (filled_size pkt - int (length n) - 1) = int (length sdu)" using assms(3) by (simp add: int16_of_small)
  let ?info = "\<lparr> sdu_size = int (length sdu), crc_error = False, seq_num = al2_iSeqNum s, seq_num_error = 0 \<rparr>"
  show ?thesis
  proof (cases seqno)
    case True
    have "hd pkt1 \<noteq> []"
    proof (cases "butlast pkt")
      case Nil
      then have "concat pkt1 = hd pkt1" by (simp add: pkt1_def)
      then have "hd pkt1 = n @ sdu" using w(4) by simp
      then show ?thesis using assms(2) by simp
    next
      case (Cons f fs)
      then have "f \<in> set pkt" by (metis in_set_butlastD list.set_intros(1))
      then have "f \<noteq> []" using p(2) unfolding list_all_iff by blast
      then show ?thesis unfolding pkt1_def Cons by simp
    qed
    then obtain h rest where h: "hd pkt1 = h # rest" by (cases "hd pkt1") auto
    have "concat pkt1 = hd pkt1 @ concat (tl pkt1)" using pkt1(1) by (cases pkt1) simp_all
    then have h2: "h = of_nat k" "rest @ concat (tl pkt1) = sdu" using w(4) True h by (simp_all add: n_def)
    have "ucast (of_nat k :: u8) = (of_nat (k mod 256) :: u32)"
      by (simp add: unsigned_of_nat take_bit_eq_mod)
    moreover have "(of_nat (k mod 256) + 1) mod 256 = (of_nat (Suc k mod 256) :: u32)"
    proof -
      have u: "unat (256 :: u32) = 256" by code_simp
      have "unat ((of_nat (k mod 256) + 1) mod 256 :: u32) = unat (of_nat (k mod 256) + 1 :: u32) mod unat (256 :: u32)"
        by (rule unat_mod)
      also have "\<dots> = unat (of_nat (Suc (k mod 256)) :: u32) mod 256" by (simp only: u of_nat_Suc add.commute)
      also have "unat (of_nat (Suc (k mod 256)) :: u32) = Suc (k mod 256)"
        using mod_less_divisor [of 256 k] by (subst unat_of_nat) (simp add: take_bit_eq_mod)
      also have "Suc (k mod 256) mod 256 = Suc k mod 256" by (simp add: mod_Suc_eq)
      finally show ?thesis by (simp add: word_unat_eq_iff unat_of_nat take_bit_eq_mod)
    qed
    ultimately have "al2_sequence s h ?info = (s\<lparr>al2_iSeqNum := of_nat (Suc k mod 256)\<rparr>, ?info)"
      using at(2) True by (simp add: al2_sequence_def h2(1) PV2WAY_H223_AL2_SN_WRAPAROUND_def)
    then have "al2_ParsePacket s pkt = Inr (s\<lparr>al2_iSeqNum := of_nat (Suc k mod 256)\<rparr>, pkt1[0 := rest], ?info)"
      using at(1) True size w p(3) pkt1(2) h assms(2) unfolding al2_ParsePacket_def pkt1_def [symmetric]
      by (simp add: n_def Let_def flip: pkt1_def)
    then show ?thesis using pkt1(3) h2(2) True assms(2) at(1) by (simp add: n_def)
  next
    case False
    then have "al2_ParsePacket s pkt = Inr (s, pkt1, ?info)"
      using at(1) size w assms(2) by (simp add: al2_ParsePacket_def n_def Let_def flip: pkt1_def)
    then show ?thesis using w(4) False assms(2) at(1) by (simp add: n_def)
  qed
qed

lemma al_received:
  assumes "kind_ok kind" and "al_at kind k r" and "sdu \<noteq> []" and "length sdu \<le> 4000" and "arrived (al_octets kind k sdu) pkt"
  shows "\<exists>r' pkt' info. ParsePacket r pkt = Inr (r', pkt', info) \<and> al_at kind (Suc k) r'
     \<and> concat pkt' = sdu \<and> 0 < sdu_size info \<and> \<not> crc_error info \<and> seq_num_error info = 0"
proof (cases "(kind, k, r)" rule: al_at.cases)
  case (1 k')
  have "concat pkt = sdu" using assms(5) 1 by (simp add: arrived_def)
  then show ?thesis using 1 assms(3,4) by (simp add: al1_ParsePacket_def filled_size_def int16_of_small)
next
  case (2 seqno k' s)
  then have "al_at (Kind2 seqno) k (AL2 s)" "arrived (al_octets (Kind2 seqno) k sdu) pkt" using assms(2,5) by simp_all
  from al2_received [OF this(1) assms(3,4) this(2)] show ?thesis using 2 by fastforce
next
  case (3 snpos k' s)
  let ?m = "al3_modulus snpos"
  have at: "al3_at snpos (k mod ?m) s" "snpos = 1 \<or> snpos = 2" "k mod ?m < ?m" using assms(1,2) 3 by (simp_all add: al3_modulus_def)
  have a: "concat pkt = al3_octets snpos (of_nat (k mod ?m)) sdu" "list_all (\<lambda>f. f \<noteq> []) pkt" "length pkt \<le> PV2WAY_MAX_PACKET_MEM_FRAG"
      "min 2 (length (concat pkt)) \<le> length (hd pkt)" using assms(5) 3 by (simp_all add: arrived_def)
  have "2 \<le> length (concat pkt)" by (simp add: a(1) al3_octets_def crc_octets_def)
  then have "arrives_as snpos (al3_octets snpos (of_nat (k mod ?m)) sdu) pkt" using a at(2) by (auto simp: arrives_as_def)
  from packet_received [OF at(1-3) assms(3) _ this] obtain r' pkt' info where
    "al3_ParsePacket s pkt = Inr (r', pkt', info)" "al3_at snpos (Suc (k mod ?m) mod ?m) r'"
    "al_shown (pkt', info) = (sdu, int (length sdu), False, False)" using assms(4) by auto
  then show ?thesis using 3 assms(3) by (simp add: al_shown_def mod_Suc_eq)
qed (use assms in auto)

text \<open>The packet that a channel hands to its layer.\<close>

definition channel_packet :: "in_channel \<Rightarrow> u8 list list" where
  "channel_packet c = (case iAlPdu c of None \<Rightarrow> [] | Some (full, current) \<Rightarrow> full @ (case current of None \<Rightarrow> [] | Some f \<Rightarrow> [f]))"

lemma packet_arrived:
  assumes "filling c" and "held c \<noteq> []" and "length (held c) \<le> 4096"
  shows "arrived (held c) (channel_packet c)"
proof -
  obtain full current where c: "iAlPdu c = Some (full, current)" using assms(2) by (cases "iAlPdu c") (auto simp: held_def)
  have full: "list_all (\<lambda>f. length f = 128) full" using assms(1) c by (simp add: filling_def H223_INCOMING_CHANNEL_FRAGMENT_SIZE_def)
  then have n: "length (concat full) = 128 * length full" by (induction full) simp_all
  have ne: "list_all (\<lambda>f. f \<noteq> []) full" using full by (induction full) auto
  show ?thesis
  proof (cases current)
    case None
    then have h: "held c = concat full" "channel_packet c = full" using c by (simp_all add: held_def channel_packet_def)
    then have "length full \<le> 32" "full \<noteq> []" using assms(2,3) n by auto
    then show ?thesis using h ne full by (cases full) (simp_all add: arrived_def PV2WAY_MAX_PACKET_MEM_FRAG_def)
  next
    case (Some f)
    then have h: "held c = concat full @ f" "channel_packet c = full @ [f]" using c by (simp_all add: held_def channel_packet_def)
    have f: "f \<noteq> []" using assms(1,2) c Some h by (auto simp: filling_def)
    then have "length full < 32" using assms(3) n h(1) by (cases f) auto
    then show ?thesis using h ne full f by (cases full) (simp_all add: arrived_def PV2WAY_MAX_PACKET_MEM_FRAG_def)
  qed
qed

text \<open>What an observer gets of the packets of one channel: SDU, check sum error, sequence error.\<close>

fun sdus_shown :: "u32 \<Rightarrow> demux_event list \<Rightarrow> (u8 list \<times> bool \<times> bool) list" where
  "sdus_shown lcn [] = []"
| "sdus_shown lcn (Sdu n pkt num crc lost # evs) = (if n = lcn then [(concat pkt, crc, lost)] else []) @ sdus_shown lcn evs"
| "sdus_shown lcn (LcnDataDetected n # evs) = sdus_shown lcn evs"

lemma sdus_shown_append [simp]: "sdus_shown lcn (evs @ evs') = sdus_shown lcn evs @ sdus_shown lcn evs'"
  by (induction evs rule: sdus_shown.induct) auto

lemma packet_dispatched:
  assumes "pool_full c" and "filling c" and "\<not> ic_paused c" and "kind_ok kind" and "al_at kind k (ic_al c)"
    and "sdu \<noteq> []" and "length sdu \<le> 4000" and "held c = al_octets kind k sdu" and "length (held c) \<le> 4096"
  shows "\<exists>ok c1 evs. AlDispatch c = Inr (ok, c1, evs) \<and> held c1 = [] \<and> filling c1 \<and> al_at kind (Suc k) (ic_al c1)
     \<and> ic_lcn c1 = ic_lcn c \<and> ic_segmentable c1 = ic_segmentable c \<and> pool_full c1 \<and> \<not> ic_paused c1
     \<and> (\<forall>lcn. sdus_shown lcn evs = (if lcn = ic_lcn c then [(sdu, False, False)] else []))"
proof -
  have ne: "held c \<noteq> []"
    using assms(6,8) by (cases kind) (auto simp: Let_def al3_octets_def crc_octets_def)
  then obtain full current where pdu: "iAlPdu c = Some (full, current)" by (cases "iAlPdu c") (auto simp: held_def)
  then have pkt: "full @ (case current of None \<Rightarrow> [] | Some f \<Rightarrow> [f]) = channel_packet c" by (simp add: channel_packet_def)
  have "arrived (al_octets kind k sdu) (channel_packet c)" using packet_arrived [OF assms(2) ne assms(9)] assms(8) by simp
  then obtain r' pkt' info where r: "ParsePacket (ic_al c) (channel_packet c) = Inr (r', pkt', info)" "al_at kind (Suc k) r'"
      "concat pkt' = sdu" "0 < sdu_size info" "\<not> crc_error info" "seq_num_error info = 0"
    using al_received [OF assms(4-7)] by blast
  define c2 where "c2 = c\<lparr>ic_al := r', iAlPdu := Some (pkt', current), iNumSdusIn := iNumSdusIn c + 1, ic_asked := ic_asked c + 1\<rparr>"
  have "pool_full (ResetAlPdu c2)" "ic_pool c (ic_asked c)" using assms(1) by (simp_all add: pool_full_def ResetAlPdu_def c2_def)
  then have d: "AlDispatch c = Inr (ic_accepts c2 pkt', AllocateAlPdu (ResetAlPdu c2), [Sdu (ic_lcn c) pkt' (seq_num info) False False])"
    using r assms(3) pdu by (simp add: AlDispatch_def pkt pool_get_def c2_def Let_def)
  have "AllocateAlPdu (ResetAlPdu c2) = (ResetAlPdu c2)\<lparr>iAlPdu := Some ([], Some []), ic_asked := ic_asked c2 + 2\<rparr>"
    using allocated(1) [OF \<open>pool_full (ResetAlPdu c2)\<close>] by (simp add: ResetAlPdu_def)
  then show ?thesis using d r(2,3) assms(1,3)
    by (simp add: held_def filling_def ResetAlPdu_def c2_def pool_full_def H223_INCOMING_CHANNEL_FRAGMENT_SIZE_def)
qed

section \<open>Packets that are too long\<close>

fun feed :: "u8 list list \<Rightarrow> in_channel \<Rightarrow> in_channel" where
  "feed [] c = c"
| "feed (xs # xss) c = feed xss (snd (AlPduData xs c))"

lemma fed:
  assumes "pool_full c" and "filling c" and "list_all (\<lambda>xs. xs \<noteq> []) xss"
  shows "held (feed xss c) = held c @ concat xss \<and> filling (feed xss c) \<and> channel_frame (feed xss c) = channel_frame c"
  using assms
proof (induction xss arbitrary: c)
  case (Cons xs xss)
  obtain c1 where c1: "AlPduData xs c = (True, c1)" "held c1 = held c @ xs" "filling c1" "channel_frame c1 = channel_frame c"
    using data_copied [of c xs] Cons.prems by auto
  have "pool_full c1" using Cons.prems(1) c1(4) by (simp add: pool_full_def channel_frame_def)
  then show ?case using Cons.IH [of c1] c1 Cons.prems(3) by simp
qed simp

lemma many_fragments:
  assumes "filling c" and "4096 < length (held c)"
  shows "concat (channel_packet c) = held c \<and> list_all (\<lambda>f. f \<noteq> []) (channel_packet c)
     \<and> PV2WAY_MAX_PACKET_MEM_FRAG < length (channel_packet c) \<and> length (hd (channel_packet c)) = 128"
proof -
  obtain full current where c: "iAlPdu c = Some (full, current)" using assms(2) by (cases "iAlPdu c") (auto simp: held_def)
  have full: "list_all (\<lambda>f. length f = 128) full" using assms(1) c by (simp add: filling_def H223_INCOMING_CHANNEL_FRAGMENT_SIZE_def)
  then have n: "length (concat full) = 128 * length full" by (induction full) simp_all
  have ne: "list_all (\<lambda>f. f \<noteq> []) full" using full by (induction full) auto
  show ?thesis
  proof (cases current)
    case None
    then have h: "held c = concat full" "channel_packet c = full" using c by (simp_all add: held_def channel_packet_def)
    then have "32 < length full" using assms(2) n by simp
    then show ?thesis using h ne full by (cases full) (simp_all add: PV2WAY_MAX_PACKET_MEM_FRAG_def)
  next
    case (Some f)
    then have h: "held c = concat full @ f" "channel_packet c = full @ [f]" using c by (simp_all add: held_def channel_packet_def)
    have f: "length f < 128" using assms(1) c Some by (simp add: filling_def H223_INCOMING_CHANNEL_FRAGMENT_SIZE_def)
    then have "31 < length full" using assms(2) n h(1) by simp
    moreover from this have "full \<noteq> []" by auto
    then have "f \<noteq> []" using assms(1) c Some by (auto simp: filling_def)
    ultimately show ?thesis using h ne full by (cases full) (simp_all add: PV2WAY_MAX_PACKET_MEM_FRAG_def)
  qed
qed

lemma two_last: "2 < length xs \<Longrightarrow> \<exists>ys a b. xs = ys @ [a, b] \<and> ys \<noteq> []"
proof -
  assume l: "2 < length xs"
  then obtain ys b where y: "xs = ys @ [b]" by (cases xs rule: rev_cases) auto
  then obtain zs a where "ys = zs @ [a]" using l by (cases ys rule: rev_cases) auto
  then show ?thesis using y l by auto
qed

text \<open>C35. At adaptation layer 3 a packet of more than 4096 (and up to 32767) octets, in whatever pieces the
  demultiplexer collects it, makes the parser write behind its array of 32 fragments, provided the memory pools of the
  channel answer: layer 2 compares the number of fragments with the size of the array, layer 3 does not. (The pool of
  fragments itself has 171 blocks of 128 octets at the default bit rate, logicalchannel.cpp:1413, so it does not
  prevent this.)\<close>

theorem long_packet_overruns:
  assumes "pool_full c" and "filling c" and "held c = []" and "\<not> ic_paused c"
    and "ic_al c = AL3 s" and "al3_iSNPos s = 1 \<or> al3_iSNPos s = 2"
    and "list_all (\<lambda>xs. xs \<noteq> []) pieces" and "4096 < length (concat pieces)" and "length (concat pieces) \<le> 32767"
  shows "AlDispatch (feed pieces c) = Inl BadIndex"
proof -
  let ?c = "feed pieces c" and ?pkt = "channel_packet (feed pieces c)"
  have f: "held ?c = concat pieces" "filling ?c" "ic_al ?c = AL3 s" "\<not> ic_paused ?c"
    using fed [OF assms(1,2,7)] assms(3-5) by (simp_all add: channel_frame_def)
  then have p: "concat ?pkt = concat pieces" "list_all (\<lambda>f. f \<noteq> []) ?pkt" "PV2WAY_MAX_PACKET_MEM_FRAG < length ?pkt" "length (hd ?pkt) = 128"
    using many_fragments [OF f(2)] assms(8) by simp_all
  have "length (held ?c) \<noteq> 0" using assms(8) unfolding f(1) by linarith
  then obtain full current where pdu: "iAlPdu ?c = Some (full, current)" by (cases "iAlPdu ?c") (auto simp: held_def)
  then have pkt: "full @ (case current of None \<Rightarrow> [] | Some f \<Rightarrow> [f]) = ?pkt" by (simp add: channel_packet_def)
  define n where "n = length (concat pieces)"
  obtain xs c0 c1 where x: "concat ?pkt = xs @ [c0, c1]" "xs \<noteq> []"
    using two_last [of "concat ?pkt"] assms(8) unfolding p(1) by auto
  obtain front rest where t: "al3_trailer ?pkt = Inr (push_bit 8 (ucast c1) OR ucast c0, front @ rest)"
      "list_all (\<lambda>f. f \<noteq> []) front" "concat rest = []" "length (front @ rest) = length ?pkt"
    using trailer_removed [OF p(2) x] by blast
  have crc: "Crc16Check False (front @ rest) = Inr (Crc16Check_octets (concat front))" by (rule Crc16Check_fragments [OF t(2,3)])
  obtain b0 b1 bs where "hd ?pkt = b0 # b1 # bs" using p(4) by (cases "hd ?pkt"; cases "tl (hd ?pkt)") auto
  then obtain num vr where h: "al3_header (al3_iSNPos s) (hd ?pkt) = Inr (num, vr)"
    using assms(6) by (auto simp: al3_header_def)
  have size: "int16_of (filled_size ?pkt - int (al3_iSNPos s) - 2) = int n - int (al3_iSNPos s) - 2"
    using assms(6,8,9) by (subst int16_of_small) (auto simp: filled_size_def p(1) n_def)
  moreover have "0 < int n - int (al3_iSNPos s) - 2" using assms(6,8) by (auto simp: n_def)
  moreover have "?pkt \<noteq> []" using p(3) by auto
  ultimately have "al3_ParsePacket s ?pkt = Inl BadIndex"
    using h t(1,4) crc assms(6) p(3) by (auto simp: al3_ParsePacket_def Let_def split: prod.splits)
  then show ?thesis using f(3,4) pdu by (simp add: AlDispatch_def pkt)
qed

theorem long_packet_overruns_witness:
  "AlDispatch (feed (replicate 20 (replicate 254 7)) (new_in_channel 2 True (AL3 (new_al3 2)) (\<lambda>n. True) (\<lambda>p. True))) = Inl BadIndex"
proof (rule long_packet_overruns)
  have new: "new_in_channel 2 True (AL3 (new_al3 2)) (\<lambda>n. True) (\<lambda>p. True) =
      \<lparr> ic_lcn = 2, ic_segmentable = True, ic_paused = False, ic_al = AL3 (new_al3 2), iAlPdu = Some ([], Some []),
        iNumSdusIn = 0, ic_pool = (\<lambda>n. True), ic_asked = 2, ic_accepts = (\<lambda>p. True) \<rparr>"
    by (simp add: new_in_channel_def AllocateAlPdu_def AppendAlPduFrag_def pool_get_def ResetAlPdu_def)
  let ?c = "new_in_channel 2 True (AL3 (new_al3 2)) (\<lambda>n. True) (\<lambda>p. True)"
  show "pool_full ?c" "filling ?c" "held ?c = []" "\<not> ic_paused ?c" "ic_al ?c = AL3 (new_al3 2)"
    by (simp_all add: new pool_full_def filling_def held_def H223_INCOMING_CHANNEL_FRAGMENT_SIZE_def)
  have "length (concat (replicate k (replicate 254 (7 :: u8)))) = 254 * k" for k by (induction k) simp_all
  then show "4096 < length (concat (replicate 20 (replicate 254 (7 :: u8))))" "length (concat (replicate 20 (replicate 254 (7 :: u8)))) \<le> 32767"
    by simp_all
qed (simp_all add: new_al3_def list_all_length)

end
