(* ===== verification/Demux.thy ===== *)
theory Demux
  imports IncomingChannel
begin

text \<open>
  The demultiplexer of H.223 (\<^verbatim>\<open>h223/src/cpvh223multiplex.cpp\<close>, the receiving half of \<^verbatim>\<open>CPVH223Multiplex\<close>): the
  indications of the framing level are cut up by the incoming entry with their multiplex code, and the pieces go
  to the logical channels. A segmentable channel gets its packet completed by the closing flag of the indication
  that follows; \<open>iLcnEnd\<close> is that channel.

  A pointer to a channel is its index in the vector \<open>iIncomingChannels\<close>, in which \<open>None\<close> is an unbound pointer.
  \<open>buf\<close> is the memory from the start of the PDU on and \<open>pos\<close> the pointer \<^verbatim>\<open>pdu\<close>, which the calls share.
\<close>

record demux =
  iIncomingChannels :: "in_channel option list"
  iLcnEnd :: "nat option"
  iMuxDescriptorR :: incoming_table
  dmx_iLevelSetupComplete :: bool

definition H223_LCN_DATA_DETECT_THRESHOLD :: u32 where
  "H223_LCN_DATA_DETECT_THRESHOLD = 1"

definition put_channel :: "nat \<Rightarrow> in_channel \<Rightarrow> demux \<Rightarrow> demux" where
  "put_channel i c s = s\<lparr>iIncomingChannels := (iIncomingChannels s)[i := Some c]\<rparr>"

section \<open>Cutting up a PDU\<close>

definition has_lcn :: "u16 \<Rightarrow> in_channel option \<Rightarrow> bool" where
  "has_lcn lcn c = (case c of None \<Rightarrow> False | Some c \<Rightarrow> ucast lcn = 0xFFFF AND ic_lcn c)"

text \<open>The two calls on a channel; when one fails, the packet is dropped.\<close>

definition demux_data :: "nat \<Rightarrow> u8 list \<Rightarrow> demux \<Rightarrow> mux_fault + demux" where
  "demux_data i octets s =
     (case iIncomingChannels s ! i of
        None \<Rightarrow> Inl NullPointer
      | Some c \<Rightarrow>
          let (ok, c1) = AlPduData octets c
          in Inr (put_channel i (if ok then c1 else ResetAlPdu c1) s))"

definition demux_dispatch :: "nat \<Rightarrow> demux \<Rightarrow> mux_fault + (demux \<times> demux_event list)" where
  "demux_dispatch i s =
     (case iIncomingChannels s ! i of
        None \<Rightarrow> Inl NullPointer
      | Some c \<Rightarrow>
          bind_res (AlDispatch c)
            (\<lambda>(ok, c1, evs). Inr (put_channel i (if ok then c1 else ResetAlPdu c1) s, evs)))"

definition detected :: "nat \<Rightarrow> demux \<Rightarrow> demux_event list" where
  "detected i s =
     (case iIncomingChannels s ! i of
        None \<Rightarrow> []
      | Some c \<Rightarrow> if iNumSdusIn c = H223_LCN_DATA_DETECT_THRESHOLD then [LcnDataDetected (ic_lcn c)] else [])"

definition is_segmentable :: "nat \<Rightarrow> demux \<Rightarrow> bool" where
  "is_segmentable i s = (case iIncomingChannels s ! i of None \<Rightarrow> False | Some c \<Rightarrow> ic_segmentable c)"

definition element_size :: "repeat_count \<Rightarrow> nat \<Rightarrow> nat" where
  "element_size rc pdu_size = (case rc of Finite f \<Rightarrow> min pdu_size (unat f) | UntilClosingFlag \<Rightarrow> pdu_size)"

text \<open>An element for channel \<open>i\<close>: \<open>n\<close> octets at \<open>pos\<close>, the size passed on as \<^verbatim>\<open>uint16\<close>, and \<open>left\<close> octets of the PDU
  behind them.\<close>

definition demux_element :: "u8 list \<Rightarrow> nat \<Rightarrow> nat \<Rightarrow> nat \<Rightarrow> nat \<Rightarrow> demux \<Rightarrow> mux_fault + (demux \<times> demux_event list)" where
  "demux_element buf pos n left i s =
     (let len = unat (of_nat n :: u16) in
      if length buf < pos + len then Inl BadIndex
      else bind_res (demux_data i (take len (drop pos buf)) s)
        (\<lambda>s1. let evs = detected i s1 in
              if is_segmentable i s1 then Inr (if left = 0 then s1\<lparr>iLcnEnd := Some i\<rparr> else s1, evs)
              else bind_res (demux_dispatch i s1) (\<lambda>(s2, evs'). Inr (s2, evs @ evs'))))"

type_synonym cut = "mux_fault + (nat \<times> nat \<times> demux \<times> demux_event list)"

text \<open>Result, pointer, state, events. \<open>demuxed\<close> is \<^verbatim>\<open>demuxed_size\<close>. The loop over a list of sub elements passes the
  whole \<^verbatim>\<open>pdu_size\<close> in every round and moves the pointer on although the call has done so; it goes on with \<open>Inr\<close> or
  returns with \<open>Inl\<close>.\<close>

function (sequential) break_elements :: "u8 list \<Rightarrow> nat \<Rightarrow> nat \<Rightarrow> multiplex_element list \<Rightarrow> nat \<Rightarrow> demux \<Rightarrow> cut"
  and break_loop :: "u8 list \<Rightarrow> nat \<Rightarrow> nat \<Rightarrow> multiplex_element list \<Rightarrow> nat \<Rightarrow> nat \<Rightarrow> demux
    \<Rightarrow> mux_fault + ((nat + nat) \<times> nat \<times> demux \<times> demux_event list)" where
  "break_elements buf pdu_size demuxed [] pos s = Inr (0, pos, s, [])"
| "break_elements buf pdu_size demuxed (SubElementList sub rc # es) pos s =
     bind_res (break_loop buf pdu_size demuxed sub (case rc of UntilClosingFlag \<Rightarrow> pdu_size | Finite f \<Rightarrow> unat f) pos s)
       (\<lambda>(r, pos1, s1, evs).
          case r of
            Inl ret \<Rightarrow> Inr (ret, pos1, s1, evs)
          | Inr demuxed1 \<Rightarrow>
              bind_res (break_elements buf pdu_size demuxed1 es pos1 s1)
                (\<lambda>(ret, pos2, s2, evs'). Inr (ret, pos2, s2, evs @ evs')))"
| "break_elements buf pdu_size demuxed (LogicalChannel lcn rc # es) pos s =
     (case find_index (has_lcn lcn) (iIncomingChannels s) of
        None \<Rightarrow> break_elements buf pdu_size demuxed es pos s
      | Some i \<Rightarrow>
          let n = element_size rc pdu_size; left = pdu_size - n; demuxed1 = demuxed + n
          in bind_res (demux_element buf pos n left i s)
               (\<lambda>(s1, evs).
                  if left = 0 then Inr (demuxed1, pos + n, s1, evs)
                  else bind_res (break_elements buf left demuxed1 es (pos + n) s1)
                         (\<lambda>(ret, pos2, s2, evs'). Inr (ret, pos2, s2, evs @ evs'))))"
| "break_loop buf pdu_size demuxed sub 0 pos s = Inr (Inr demuxed, pos, s, [])"
| "break_loop buf pdu_size demuxed sub (Suc k) pos s =
     bind_res (break_elements buf pdu_size 0 sub pos s)
       (\<lambda>(ret, pos1, s1, evs).
          let demuxed1 = demuxed + ret; pos2 = pos1 + demuxed1
          in if pdu_size \<le> demuxed1 then Inr (Inl demuxed1, pos2, s1, evs)
             else bind_res (break_loop buf pdu_size demuxed1 sub k pos2 s1)
                    (\<lambda>(r, pos3, s2, evs'). Inr (r, pos3, s2, evs @ evs')))"
  by pat_completeness auto
termination
  by (relation "measures [\<lambda>x. case x of Inl (buf, pdu_size, demuxed, es, pos, s) \<Rightarrow> size_list size es
                                     | Inr (buf, pdu_size, demuxed, sub, k, pos, s) \<Rightarrow> size_list size sub,
                          \<lambda>x. case x of Inl (buf, pdu_size, demuxed, es, pos, s) \<Rightarrow> 0
                                     | Inr (buf, pdu_size, demuxed, sub, k, pos, s) \<Rightarrow> Suc k]") auto

definition BreakPduData :: "u8 list \<Rightarrow> nat \<Rightarrow> multiplex_element list \<Rightarrow> demux \<Rightarrow> mux_fault + (nat \<times> demux \<times> demux_event list)" where
  "BreakPduData buf pdu_size es s =
     bind_res (break_elements buf pdu_size 0 es 0 s) (\<lambda>(ret, pos, s1, evs). Inr (ret, s1, evs))"

definition MuxToALDispatch :: "u8 list \<Rightarrow> nat \<Rightarrow> bool \<Rightarrow> u32 \<Rightarrow> demux \<Rightarrow> mux_fault + (nat \<times> demux \<times> demux_event list)" where
  "MuxToALDispatch buf pdu_size fClosing muxCode s =
     bind_res
       (case (if fClosing then iLcnEnd s else None) of
          None \<Rightarrow> Inr (s, [])
        | Some i \<Rightarrow> bind_res (demux_dispatch i s) (\<lambda>(s1, evs). Inr (s1\<lparr>iLcnEnd := None\<rparr>, evs)))
       (\<lambda>(s1, evs).
          case GetIncomingDescriptor (ucast muxCode) (iMuxDescriptorR s1) of
            Some d \<Rightarrow>
              if pdu_size \<noteq> 0 then
                bind_res (BreakPduData buf pdu_size (elementList d) s1) (\<lambda>(ret, s2, evs'). Inr (ret, s2, evs @ evs'))
              else Inr (0, s1, evs)
          | None \<Rightarrow> Inr (0, s1, evs))"

text \<open>The receiver of the indications of the framing level.\<close>

definition demux_indicate :: "u8 list \<Rightarrow> u32 \<Rightarrow> bool \<Rightarrow> u32 \<Rightarrow> demux \<Rightarrow> mux_fault + (u32 \<times> demux \<times> demux_event list)" where
  "demux_indicate pPdu sz fClosing muxCode s =
     (if dmx_iLevelSetupComplete s then
        bind_res (MuxToALDispatch pPdu (unat sz) fClosing muxCode s)
          (\<lambda>(ret, s1, evs). Inr (ucast (of_nat ret :: u16), s1, evs))
      else Inr (0, s, []))"

section \<open>Opening and closing channels\<close>

definition open_incoming :: "in_channel \<Rightarrow> demux \<Rightarrow> demux" where
  "open_incoming c s = s\<lparr>iIncomingChannels := iIncomingChannels s @ [Some c]\<rparr>"

text \<open>The index of the first channel with a number; an unbound pointer on the way is dereferenced.\<close>

fun search_channel :: "u32 \<Rightarrow> in_channel option list \<Rightarrow> mux_fault + nat option" where
  "search_channel channel_id [] = Inr None"
| "search_channel channel_id (None # cs) = Inl NullPointer"
| "search_channel channel_id (Some c # cs) =
     (if ic_lcn c = channel_id then Inr (Some 0)
      else bind_res (search_channel channel_id cs) (\<lambda>r. Inr (map_option Suc r)))"

definition forget_end :: "u32 \<Rightarrow> demux \<Rightarrow> mux_fault + demux" where
  "forget_end channel_id s =
     (case iLcnEnd s of
        None \<Rightarrow> Inr s
      | Some j \<Rightarrow>
          (case iIncomingChannels s ! j of
             None \<Rightarrow> Inl NullPointer
           | Some c \<Rightarrow> Inr (if ic_lcn c = channel_id then s\<lparr>iLcnEnd := None\<rparr> else s)))"

text \<open>A pointer behind the erased element gets another index.\<close>

definition erase_channel :: "nat \<Rightarrow> demux \<Rightarrow> demux" where
  "erase_channel i s =
     s\<lparr>iIncomingChannels := take i (iIncomingChannels s) @ drop (Suc i) (iIncomingChannels s),
       iLcnEnd := map_option (\<lambda>j. if i < j then j - 1 else j) (iLcnEnd s)\<rparr>"

definition close_incoming :: "u32 \<Rightarrow> demux \<Rightarrow> mux_fault + (bool \<times> demux)" where
  "close_incoming channel_id s =
     bind_res (forget_end channel_id s)
       (\<lambda>s1. bind_res (search_channel channel_id (iIncomingChannels s1))
          (\<lambda>r. case r of None \<Rightarrow> Inr (False, s1) | Some i \<Rightarrow> Inr (True, erase_channel i s1)))"

definition stop_incoming :: "u32 \<Rightarrow> demux \<Rightarrow> mux_fault + demux" where
  "stop_incoming channel_id s =
     bind_res (forget_end channel_id s)
       (\<lambda>s1. bind_res (search_channel channel_id (iIncomingChannels s1))
          (\<lambda>r. case r of
                 None \<Rightarrow> Inr s1
               | Some i \<Rightarrow> (case iIncomingChannels s1 ! i of
                    None \<Rightarrow> Inl NullPointer
                  | Some c \<Rightarrow> Inr (put_channel i (in_Flush c) s1))))"

text \<open>\<^verbatim>\<open>Close\<close> goes over the vector by index while it erases from it; \<open>k\<close> bounds the rounds.\<close>

fun close_channels :: "nat \<Rightarrow> nat \<Rightarrow> demux \<Rightarrow> mux_fault + demux" where
  "close_channels 0 in_lcn s = Inr s"
| "close_channels (Suc k) in_lcn s =
     (if in_lcn < length (iIncomingChannels s) then
        (case iIncomingChannels s ! in_lcn of
           None \<Rightarrow> Inl NullPointer
         | Some c \<Rightarrow> bind_res (close_incoming (ic_lcn c) s) (\<lambda>(ok, s1). close_channels k (Suc in_lcn) s1))
      else Inr s)"

definition demux_Close :: "demux \<Rightarrow> mux_fault + demux" where
  "demux_Close s = close_channels (length (iIncomingChannels s)) 0 s"

definition demux_Open :: "demux \<Rightarrow> demux" where
  "demux_Open s = s\<lparr>iLcnEnd := None, iIncomingChannels := map (\<lambda>c. None) (iIncomingChannels s)\<rparr>"

end
