(* ===== verification/DemuxDelivery.thy ===== *)
theory DemuxDelivery
  imports PacketLink DemuxProps
begin

text \<open>
  The demultiplexer implements a reassembly: when every entry that is used is one channel until the closing flag, a
  segmentable channel collects its octets until the closing flag, any other channel has a packet with every PDU,
  and each complete packet comes out as its SDU.
\<close>

section \<open>Reassembly\<close>

text \<open>The channels: number, segmentable, adaptation layer, and the SDUs that are sent to it.\<close>

record link =
  lk_lcn :: u16
  lk_segmentable :: bool
  lk_kind :: al_kind
  lk_sdus :: "u8 list list"

definition link_packet :: "link \<Rightarrow> nat \<Rightarrow> u8 list" where
  "link_packet l k = al_octets (lk_kind l) k (lk_sdus l ! k)"

definition link_ok :: "link \<Rightarrow> bool" where
  "link_ok l \<longleftrightarrow> kind_ok (lk_kind l) \<and> list_all (\<lambda>x. x \<noteq> [] \<and> length x \<le> 4000) (lk_sdus l)"

text \<open>What happens on the line: octets for a channel, or the end of a packet.\<close>

datatype atom = Octets nat "u8 list" | Closing

text \<open>Packets that each channel has had, octets that it holds, and the channel that waits for the closing flag.\<close>

type_synonym reassembly = "(nat \<Rightarrow> nat) \<times> (nat \<Rightarrow> u8 list) \<times> nat option"

definition complete :: "link list \<Rightarrow> nat \<Rightarrow> reassembly \<Rightarrow> reassembly option" where
  "complete ls i r =
     (case r of (k, h, e) \<Rightarrow>
        if i < length ls \<and> k i < length (lk_sdus (ls ! i)) \<and> h i = link_packet (ls ! i) (k i)
        then Some (k(i := Suc (k i)), h(i := []), e) else None)"

fun reassemble_atom :: "link list \<Rightarrow> atom \<Rightarrow> reassembly \<Rightarrow> reassembly option" where
  "reassemble_atom ls (Octets i xs) (k, h, e) =
     (if i < length ls \<and> xs \<noteq> [] then
        if lk_segmentable (ls ! i) then Some (k, h(i := h i @ xs), Some i) else complete ls i (k, h(i := h i @ xs), e)
      else None)"
| "reassemble_atom ls Closing (k, h, None) = Some (k, h, None)"
| "reassemble_atom ls Closing (k, h, Some i) = map_option (\<lambda>(k', h', e). (k', h', None)) (complete ls i (k, h, None))"

fun reassemble :: "link list \<Rightarrow> atom list \<Rightarrow> reassembly \<Rightarrow> reassembly option" where
  "reassemble ls [] r = Some r"
| "reassemble ls (a # as) r = Option.bind (reassemble_atom ls a r) (reassemble ls as)"

lemma reassemble_append: "reassemble ls (as @ bs) r = Option.bind (reassemble ls as r) (reassemble ls bs)"
proof (induction as arbitrary: r)
  case (Cons a as)
  then show ?case by (cases "reassemble_atom ls a r") simp_all
qed simp

lemma reassemble_short: "reassemble ls [] = Some" "reassemble ls [a] = reassemble_atom ls a"
  by (auto simp: fun_eq_iff bind_eq_Some_conv split: bind_splits)

section \<open>The state of the demultiplexer\<close>

definition channel_at :: "link \<Rightarrow> nat \<Rightarrow> u8 list \<Rightarrow> in_channel \<Rightarrow> bool" where
  "channel_at l k h c \<longleftrightarrow> ic_lcn c = ucast (lk_lcn l) \<and> ic_segmentable c = lk_segmentable l \<and> pool_full c \<and> filling c
     \<and> \<not> ic_paused c \<and> al_at (lk_kind l) k (ic_al c) \<and> held c = h"

definition demux_at :: "link list \<Rightarrow> reassembly \<Rightarrow> demux \<Rightarrow> bool" where
  "demux_at ls r s \<longleftrightarrow>
     (case r of (k, h, e) \<Rightarrow>
        iLcnEnd s = e \<and> dmx_iLevelSetupComplete s \<and> length (iIncomingChannels s) = length ls
      \<and> (\<forall>i < length ls. \<exists>c. iIncomingChannels s ! i = Some c \<and> channel_at (ls ! i) (k i) (h i) c))"

text \<open>The SDUs between two states.\<close>

definition came_out :: "link list \<Rightarrow> reassembly \<Rightarrow> reassembly \<Rightarrow> demux_event list \<Rightarrow> bool" where
  "came_out ls r r' evs \<longleftrightarrow>
     (\<forall>i < length ls. fst r i \<le> fst r' i \<and>
        sdus_shown (ucast (lk_lcn (ls ! i))) evs = map (\<lambda>j. (lk_sdus (ls ! i) ! j, False, False)) [fst r i ..< fst r' i])"

lemma came_out_same: "fst r = fst r' \<Longrightarrow> (\<And>n. sdus_shown n evs = []) \<Longrightarrow> came_out ls r r' evs"
  by (simp add: came_out_def)

lemma came_out_trans: "came_out ls r r1 evs \<Longrightarrow> came_out ls r1 r2 evs' \<Longrightarrow> came_out ls r r2 (evs @ evs')"
proof -
  assume a: "came_out ls r r1 evs" "came_out ls r1 r2 evs'"
  show ?thesis
    unfolding came_out_def
  proof (intro allI impI)
    fix i
    assume i: "i < length ls"
    have "fst r i \<le> fst r1 i" "fst r1 i \<le> fst r2 i" using a i by (simp_all add: came_out_def)
    then have "fst r i \<le> fst r2 i \<and> [fst r i ..< fst r2 i] = [fst r i ..< fst r1 i] @ [fst r1 i ..< fst r2 i]"
      using upt_add_eq_append [of "fst r i" "fst r1 i" "fst r2 i - fst r1 i"] by simp
    then show "fst r i \<le> fst r2 i \<and> sdus_shown (ucast (lk_lcn (ls ! i))) (evs @ evs')
        = map (\<lambda>j. (lk_sdus (ls ! i) ! j, False, False)) [fst r i ..< fst r2 i]"
      using a i by (simp add: came_out_def)
  qed
qed

lemma channel_updated:
  assumes "demux_at ls (k, h, e) s" and "i < length ls" and "channel_at (ls ! i) k' h' c"
  shows "demux_at ls (k(i := k'), h(i := h'), e) (put_channel i c s)"
  using assms by (auto simp: demux_at_def put_channel_def nth_list_update)

lemma sized:
  assumes "link_ok l" and "k < length (lk_sdus l)"
  shows "lk_sdus l ! k \<noteq> [] \<and> length (lk_sdus l ! k) \<le> 4000 \<and> length (link_packet l k) \<le> 4096"
proof -
  have "lk_sdus l ! k \<noteq> [] \<and> length (lk_sdus l ! k) \<le> 4000" using assms by (simp add: link_ok_def list_all_length)
  then show ?thesis
    using assms(1) by (cases "lk_kind l") (auto simp: link_packet_def link_ok_def Let_def al3_octets_def crc_octets_def sn_octets_def)
qed

text \<open>A packet is complete.\<close>

lemma dispatched:
  assumes ls: "list_all link_ok ls" "distinct (map lk_lcn ls)" and "demux_at ls (k, h, e) s" and "complete ls i (k, h, e) = Some (k', h', e')"
  shows "\<exists>s' evs. demux_dispatch i s = Inr (s', evs) \<and> demux_at ls (k', h', e) s' \<and> came_out ls (k, h, e) (k', h', e) evs
     \<and> iMuxDescriptorR s' = iMuxDescriptorR s"
proof -
  let ?l = "ls ! i"
  have i: "i < length ls" "k i < length (lk_sdus ?l)" "h i = link_packet ?l (k i)" "k' = k(i := Suc (k i))" "h' = h(i := [])"
    using assms(4) by (auto simp: complete_def split: if_splits)
  have l: "link_ok ?l" using ls(1) i(1) by (simp add: list_all_length)
  obtain c where c: "iIncomingChannels s ! i = Some c" "channel_at ?l (k i) (h i) c"
    using assms(3) i(1) unfolding demux_at_def by auto
  note z = sized [OF l i(2)]
  obtain ok c1 evs where d: "AlDispatch c = Inr (ok, c1, evs)" "held c1 = []" "filling c1" "al_at (lk_kind ?l) (Suc (k i)) (ic_al c1)"
      "ic_lcn c1 = ic_lcn c" "ic_segmentable c1 = ic_segmentable c" "pool_full c1" "\<not> ic_paused c1"
      "\<forall>lcn. sdus_shown lcn evs = (if lcn = ic_lcn c then [(lk_sdus ?l ! k i, False, False)] else [])"
    using packet_dispatched [of c "lk_kind ?l" "k i" "lk_sdus ?l ! k i"] c(2) z l i(3)
    unfolding channel_at_def link_ok_def link_packet_def by auto
  define c2 where "c2 = (if ok then c1 else ResetAlPdu c1)"
  have "channel_at ?l (Suc (k i)) [] c2"
    using d c(2) by (auto simp: channel_at_def c2_def ResetAlPdu_def held_def filling_def pool_full_def)
  then have "demux_at ls (k', h', e) (put_channel i c2 s)" using channel_updated [OF assms(3) i(1)] i(4,5) by simp
  moreover have "demux_dispatch i s = Inr (put_channel i c2 s, evs)" using c(1) d(1) by (simp add: demux_dispatch_def c2_def)
  moreover have "ucast (lk_lcn (ls ! j)) = ic_lcn c \<longleftrightarrow> j = i" if "j < length ls" for j
  proof -
    have "(ucast (lk_lcn (ls ! j)) :: u32) = ucast (lk_lcn ?l) \<longleftrightarrow> lk_lcn (ls ! j) = lk_lcn ?l" by (simp add: unsigned_word_eqI)
    then show ?thesis using c(2) ls(2) that i(1) by (auto simp: channel_at_def distinct_conv_nth)
  qed
  then have "came_out ls (k, h, e) (k', h', e) evs" using d(9) i(4) by (auto simp: came_out_def)
  ultimately show ?thesis by (auto simp: put_channel_def)
qed

section \<open>Octets for a channel\<close>

lemma find_index_first: "i < length xs \<Longrightarrow> P (xs ! i) \<Longrightarrow> (\<And>j. j < i \<Longrightarrow> \<not> P (xs ! j)) \<Longrightarrow> find_index P xs = Some i"
  by (metis find_index_None find_index_Some linorder_neqE_nat not_Some_eq nth_mem)

lemma channel_found:
  assumes "distinct (map lk_lcn ls)" and "demux_at ls r s" and "i < length ls"
  shows "find_index (has_lcn (lk_lcn (ls ! i))) (iIncomingChannels s) = Some i"
proof (rule find_index_first)
  have same: "has_lcn (lk_lcn (ls ! i)) (iIncomingChannels s ! j) \<longleftrightarrow> j = i" if j: "j < length ls" for j
  proof -
    obtain k h e where r: "r = (k, h, e)" by (cases r)
    obtain c where c: "iIncomingChannels s ! j = Some c" "ic_lcn c = ucast (lk_lcn (ls ! j))"
      using assms(2) j unfolding r demux_at_def channel_at_def by auto
    have "0xFFFF AND (ucast (lk_lcn (ls ! j)) :: u32) = ucast (lk_lcn (ls ! j))"
      by (rule bit_word_eqI) (auto simp: mask16_u32 bit_simps dest: bit_imp_le_length)
    then have "has_lcn (lk_lcn (ls ! i)) (iIncomingChannels s ! j) \<longleftrightarrow> lk_lcn (ls ! i) = lk_lcn (ls ! j)"
      by (simp add: has_lcn_def c unsigned_word_eqI)
    then show ?thesis using assms(1,3) j by (auto simp: distinct_conv_nth)
  qed
  show "i < length (iIncomingChannels s)" using assms(2,3) by (auto simp: demux_at_def split: prod.splits)
  show "has_lcn (lk_lcn (ls ! i)) (iIncomingChannels s ! i)" using same assms(3) by simp
  show "\<not> has_lcn (lk_lcn (ls ! i)) (iIncomingChannels s ! j)" if "j < i" for j using same [of j] that assms(3) by simp
qed

lemma octets_given:
  assumes "demux_at ls (k, h, e) s" and "i < length ls" and "xs \<noteq> []"
  shows "\<exists>s'. demux_data i xs s = Inr s' \<and> demux_at ls (k, h(i := h i @ xs), e) s' \<and> iMuxDescriptorR s' = iMuxDescriptorR s
     \<and> is_segmentable i s' = lk_segmentable (ls ! i) \<and> (\<forall>n. sdus_shown n (detected i s') = [])"
proof -
  obtain c where c: "iIncomingChannels s ! i = Some c" "channel_at (ls ! i) (k i) (h i) c"
    using assms(1,2) unfolding demux_at_def by auto
  obtain c1 where c1: "AlPduData xs c = (True, c1)" "held c1 = held c @ xs" "filling c1" "channel_frame c1 = channel_frame c"
    using data_copied [of c xs] c(2) assms(3) by (auto simp: channel_at_def)
  have at: "channel_at (ls ! i) (k i) (h i @ xs) c1"
    using c1 c(2) by (simp add: channel_at_def channel_frame_def pool_full_def)
  have "demux_data i xs s = Inr (put_channel i c1 s)" using c(1) c1(1) by (simp add: demux_data_def)
  moreover have "demux_at ls (k, h(i := h i @ xs), e) (put_channel i c1 s)"
    using channel_updated [OF assms(1,2) at] by simp
  moreover have "iIncomingChannels (put_channel i c1 s) ! i = Some c1"
    using assms(1,2) by (simp add: put_channel_def demux_at_def)
  moreover have "ic_segmentable c1 = lk_segmentable (ls ! i)" using at by (simp add: channel_at_def)
  ultimately show ?thesis by (auto simp: is_segmentable_def detected_def put_channel_def)
qed

definition routed :: "link list \<Rightarrow> incoming_table \<Rightarrow> u8 \<Rightarrow> nat \<Rightarrow> bool" where
  "routed ls tbl code i \<longleftrightarrow> i < length ls \<and>
     (\<exists>d. GetIncomingDescriptor code tbl = Some d \<and> elementList d = [LogicalChannel (lk_lcn (ls ! i)) UntilClosingFlag])"

lemma octets_demuxed:
  assumes ls: "list_all link_ok ls" "distinct (map lk_lcn ls)" and at: "demux_at ls r s"
    and i: "i < length ls" "0 < n" "n \<le> length mem" "n < 65536"
    and re: "reassemble_atom ls (Octets i (take n mem)) r = Some r'"
  shows "\<exists>ret s' evs. BreakPduData mem n [LogicalChannel (lk_lcn (ls ! i)) UntilClosingFlag] s = Inr (ret, s', evs)
     \<and> demux_at ls r' s' \<and> came_out ls r r' evs \<and> iMuxDescriptorR s' = iMuxDescriptorR s"
proof -
  obtain k h e where r: "r = (k, h, e)" by (cases r)
  let ?xs = "take n mem"
  have xs: "?xs \<noteq> []" using i(2,3) by auto
  obtain s1 where s1: "demux_data i ?xs s = Inr s1" "demux_at ls (k, h(i := h i @ ?xs), e) s1" "iMuxDescriptorR s1 = iMuxDescriptorR s"
      "is_segmentable i s1 = lk_segmentable (ls ! i)" "\<forall>n. sdus_shown n (detected i s1) = []"
    using octets_given [OF at [unfolded r] i(1) xs] by blast
  have len: "unat (of_nat n :: u16) = n" using i(4) by (simp add: unat_of_nat)
  have cut: "BreakPduData mem n [LogicalChannel (lk_lcn (ls ! i)) UntilClosingFlag] s =
      bind_res (demux_element mem 0 n 0 i s) (\<lambda>(s2, evs). Inr (n, s2, evs))"
    using channel_found [OF ls(2) at i(1)]
    by (simp add: BreakPduData_def element_size_def Let_def bind_res_def split: sum.splits prod.splits)
  show ?thesis
  proof (cases "lk_segmentable (ls ! i)")
    case True
    then have r': "r' = (k, h(i := h i @ ?xs), Some i)" using re xs i(1) by (simp add: r)
    have "demux_element mem 0 n 0 i s = Inr (s1\<lparr>iLcnEnd := Some i\<rparr>, detected i s1)"
      using s1 True i(3) len by (simp add: demux_element_def Let_def)
    moreover have "demux_at ls r' (s1\<lparr>iLcnEnd := Some i\<rparr>)" using s1(2) by (simp add: demux_at_def r')
    moreover have "came_out ls r r' (detected i s1)" using s1(5) by (intro came_out_same) (simp_all add: r r')
    ultimately show ?thesis using s1(3) by (simp add: cut)
  next
    case False
    then have c: "complete ls i (k, h(i := h i @ ?xs), e) = Some r'" using re xs i(1) by (simp add: r)
    obtain k' h' where r': "r' = (k', h', e)" using c by (auto simp: complete_def split: if_splits)
    obtain s2 evs where s2: "demux_dispatch i s1 = Inr (s2, evs)" "demux_at ls r' s2" "came_out ls (k, h(i := h i @ ?xs), e) r' evs"
        "iMuxDescriptorR s2 = iMuxDescriptorR s1"
      using dispatched [OF ls s1(2) c [unfolded r']] unfolding r' by blast
    have "demux_element mem 0 n 0 i s = Inr (s2, detected i s1 @ evs)"
      using s1 s2 False i(3) len by (simp add: demux_element_def Let_def)
    moreover have "came_out ls r r' (detected i s1 @ evs)"
      using came_out_trans [OF came_out_same [of r "(k, h(i := h i @ ?xs), e)" "detected i s1"] s2(3)] s1(5) by (simp add: r)
    ultimately show ?thesis using s2(2,4) s1(3) by (simp add: cut)
  qed
qed

section \<open>Indications\<close>

text \<open>What an indication says of the line; \<open>route\<close> gives the channel of a multiplex code.\<close>

fun indication_atoms :: "(u8 \<Rightarrow> nat) \<Rightarrow> u8 list \<times> bool \<times> u32 \<Rightarrow> atom list" where
  "indication_atoms route (xs, closing, code) =
     (if closing then [Closing] else []) @ (if xs \<noteq> [] then [Octets (route (ucast code)) xs] else [])"

lemma closing_demuxed:
  assumes ls: "list_all link_ok ls" "distinct (map lk_lcn ls)" and at: "demux_at ls r s" and re: "reassemble_atom ls Closing r = Some r'"
  shows "\<exists>s' evs. (case iLcnEnd s of None \<Rightarrow> Inr (s, [])
       | Some i \<Rightarrow> bind_res (demux_dispatch i s) (\<lambda>(s1, evs). Inr (s1\<lparr>iLcnEnd := None\<rparr>, evs))) = Inr (s', evs)
     \<and> demux_at ls r' s' \<and> came_out ls r r' evs \<and> iMuxDescriptorR s' = iMuxDescriptorR s"
proof -
  obtain k h e where r: "r = (k, h, e)" by (cases r)
  have e: "iLcnEnd s = e" using at by (simp add: r demux_at_def)
  show ?thesis
  proof (cases e)
    case None
    then show ?thesis using at re e by (auto simp: r came_out_def)
  next
    case (Some i)
    then obtain k' h' e' where c: "complete ls i (k, h, None) = Some (k', h', e')" and r': "r' = (k', h', None)"
      using re by (auto simp: r)
    then have "complete ls i (k, h, e) = Some (k', h', e)" by (auto simp: complete_def split: if_splits)
    then obtain s1 evs where s1: "demux_dispatch i s = Inr (s1, evs)" "demux_at ls (k', h', e) s1" "came_out ls (k, h, e) (k', h', e) evs"
        "iMuxDescriptorR s1 = iMuxDescriptorR s"
      using dispatched [OF ls at [unfolded r]] by blast
    have "demux_at ls r' (s1\<lparr>iLcnEnd := None\<rparr>)" using s1(2) by (simp add: demux_at_def r')
    moreover have "came_out ls r r' evs" using s1(3) by (simp add: came_out_def r r')
    ultimately show ?thesis using s1(1,4) Some e by simp
  qed
qed

lemma indication_demuxed:
  assumes ls: "list_all link_ok ls" "distinct (map lk_lcn ls)" and at: "demux_at ls r s"
    and n: "unat n \<le> length mem" and route: "n \<noteq> 0 \<Longrightarrow> routed ls (iMuxDescriptorR s) (ucast code) (route (ucast code))"
    and re: "reassemble ls (indication_atoms route (take (unat n) mem, closing, code)) r = Some r'"
  shows "\<exists>ret s' evs. demux_indicate mem (ucast (n :: u16)) closing code s = Inr (ret, s', evs)
     \<and> demux_at ls r' s' \<and> came_out ls r r' evs \<and> iMuxDescriptorR s' = iMuxDescriptorR s"
proof -
  have "\<exists>r1. (if closing then reassemble_atom ls Closing r else Some r) = Some r1 \<and>
      (if n \<noteq> 0 then reassemble_atom ls (Octets (route (ucast code)) (take (unat n) mem)) r1 else Some r1) = Some r'"
  proof -
    have "take (unat n) mem \<noteq> [] \<longleftrightarrow> n \<noteq> 0" using n by (cases mem) (auto simp: unat_eq_0)
    then show ?thesis using re by (cases closing; cases "n = 0"; cases "reassemble_atom ls Closing r") (simp_all add: reassemble_short)
  qed
  then obtain r1 where r1: "(if closing then reassemble_atom ls Closing r else Some r) = Some r1"
    "(if n \<noteq> 0 then reassemble_atom ls (Octets (route (ucast code)) (take (unat n) mem)) r1 else Some r1) = Some r'" by blast
  have "\<exists>s1 evs. (case (if closing then iLcnEnd s else None) of None \<Rightarrow> Inr (s, [])
       | Some i \<Rightarrow> bind_res (demux_dispatch i s) (\<lambda>(s1, evs). Inr (s1\<lparr>iLcnEnd := None\<rparr>, evs))) = Inr (s1, evs)
     \<and> demux_at ls r1 s1 \<and> came_out ls r r1 evs \<and> iMuxDescriptorR s1 = iMuxDescriptorR s"
  proof (cases closing)
    case True
    then show ?thesis using closing_demuxed [OF ls at, of r1] r1(1) by simp
  next
    case False
    then show ?thesis using at r1(1) by (simp add: came_out_def)
  qed
  then obtain s1 evs where s1: "(case (if closing then iLcnEnd s else None) of None \<Rightarrow> Inr (s, [])
       | Some i \<Rightarrow> bind_res (demux_dispatch i s) (\<lambda>(s1, evs). Inr (s1\<lparr>iLcnEnd := None\<rparr>, evs))) = (Inr (s1, evs) :: mux_fault + _)"
     "demux_at ls r1 s1" "came_out ls r r1 evs" "iMuxDescriptorR s1 = iMuxDescriptorR s" by blast
  have ready: "dmx_iLevelSetupComplete s" using at by (simp add: demux_at_def split: prod.splits)
  have sz: "unat (ucast n :: u32) = unat n" proof -
    have "unat n < 65536" using unsigned_less [of n] by simp
    then show ?thesis by (simp add: unsigned_ucast_eq take_bit_nat_eq_self)
  qed
  show ?thesis
  proof (cases "n = 0")
    case True
    then have "r' = r1" using r1(2) by simp
    moreover have "\<exists>ret. demux_indicate mem (ucast n) closing code s = Inr (ret, s1, evs)"
      using True ready s1(1) by (simp add: demux_indicate_def MuxToALDispatch_def split: option.splits)
    ultimately show ?thesis using s1(2-4) by blast
  next
    case False
    let ?i = "route (ucast code)"
    obtain d where d: "GetIncomingDescriptor (ucast code) (iMuxDescriptorR s1) = Some d"
        "elementList d = [LogicalChannel (lk_lcn (ls ! ?i)) UntilClosingFlag]" "?i < length ls"
      using route [OF False] s1(4) by (auto simp: routed_def)
    have re1: "reassemble_atom ls (Octets ?i (take (unat n) mem)) r1 = Some r'" using r1(2) False by simp
    have un: "0 < unat n" "unat n < 65536" using False unsigned_less [of n] by (simp_all add: unat_gt_0)
    obtain ret s2 evs' where s2: "BreakPduData mem (unat n) [LogicalChannel (lk_lcn (ls ! ?i)) UntilClosingFlag] s1 = Inr (ret, s2, evs')"
        "demux_at ls r' s2" "came_out ls r1 r' evs'" "iMuxDescriptorR s2 = iMuxDescriptorR s1"
      using octets_demuxed [OF ls s1(2) d(3) un(1) n un(2) re1] by blast
    have "\<exists>ret. demux_indicate mem (ucast n) closing code s = Inr (ret, s2, evs @ evs')"
      using False ready s1(1) s2(1) d(1,2) un(1) by (simp add: demux_indicate_def MuxToALDispatch_def sz)
    then show ?thesis using s2(2,4) s1(4) came_out_trans [OF s1(3) s2(3)] by metis
  qed
qed

text \<open>The observer of the framing level.\<close>

fun demux_run :: "mux_event list \<Rightarrow> demux \<Rightarrow> mux_fault + (demux \<times> demux_event list)" where
  "demux_run [] s = Inr (s, [])"
| "demux_run (MuxPduErrIndicate err # evs) s = demux_run evs s"
| "demux_run (MuxPduIndicate mem n closing code # evs) s =
     bind_res (demux_indicate mem (ucast n) closing code s)
       (\<lambda>(ret, s1, out). bind_res (demux_run evs s1) (\<lambda>(s2, out'). Inr (s2, out @ out')))"

fun event_inside :: "mux_event \<Rightarrow> bool" where
  "event_inside (MuxPduIndicate mem n closing code) = (unat n \<le> length mem)"
| "event_inside (MuxPduErrIndicate err) = True"

definition shown_atoms :: "(u8 \<Rightarrow> nat) \<Rightarrow> (u8 list \<times> bool \<times> u32) option list \<Rightarrow> atom list" where
  "shown_atoms route xs = concat (map (\<lambda>x. case x of None \<Rightarrow> [] | Some i \<Rightarrow> indication_atoms route i) xs)"

lemma shown_atoms_simps [simp]:
  "shown_atoms route [] = []"
  "shown_atoms route (None # xs) = shown_atoms route xs"
  "shown_atoms route (Some i # xs) = indication_atoms route i @ shown_atoms route xs"
  "shown_atoms route (xs @ ys) = shown_atoms route xs @ shown_atoms route ys"
  by (simp_all add: shown_atoms_def)

fun shown_routed :: "link list \<Rightarrow> incoming_table \<Rightarrow> (u8 \<Rightarrow> nat) \<Rightarrow> (u8 list \<times> bool \<times> u32) option \<Rightarrow> bool" where
  "shown_routed ls tbl route (Some (xs, closing, code)) = (xs \<noteq> [] \<longrightarrow> routed ls tbl (ucast code) (route (ucast code)))"
| "shown_routed ls tbl route None = True"

lemma indications_demuxed:
  assumes ls: "list_all link_ok ls" "distinct (map lk_lcn ls)" and "demux_at ls r s"
    and "list_all event_inside evs" and "list_all (shown_routed ls (iMuxDescriptorR s) route) (map shown evs)"
    and "reassemble ls (shown_atoms route (map shown evs)) r = Some r'"
  shows "\<exists>s' out. demux_run evs s = Inr (s', out) \<and> demux_at ls r' s' \<and> came_out ls r r' out"
  using assms(3-)
proof (induction evs arbitrary: r s)
  case Nil
  then show ?case by (auto simp: came_out_def)
next
  case (Cons ev evs)
  show ?case
  proof (cases ev)
    case (MuxPduIndicate mem n closing code)
    let ?as = "indication_atoms route (take (unat n) mem, closing, code)"
    obtain r1 where r1: "reassemble ls ?as r = Some r1" "reassemble ls (shown_atoms route (map shown evs)) r1 = Some r'"
      using Cons.prems(4) unfolding MuxPduIndicate list.map shown.simps shown_atoms_simps reassemble_append
      by (auto simp only: bind_eq_Some_conv)
    have n: "unat n \<le> length mem" using Cons.prems(2) MuxPduIndicate by simp
    then have "n \<noteq> 0 \<Longrightarrow> take (unat n) mem \<noteq> []" by (cases mem) (auto simp: unat_eq_0)
    then have route: "n \<noteq> 0 \<Longrightarrow> routed ls (iMuxDescriptorR s) (ucast code) (route (ucast code))"
      using Cons.prems(3) MuxPduIndicate by simp
    obtain ret s1 out where s1: "demux_indicate mem (ucast n) closing code s = Inr (ret, s1, out)"
        "demux_at ls r1 s1" "came_out ls r r1 out" "iMuxDescriptorR s1 = iMuxDescriptorR s"
      using indication_demuxed [OF ls Cons.prems(1) n route r1(1)] by blast
    obtain s2 out' where s2: "demux_run evs s1 = Inr (s2, out')" "demux_at ls r' s2" "came_out ls r1 r' out'"
      using Cons.IH [OF s1(2) _ _ r1(2)] Cons.prems(2,3) s1(4) by auto
    show ?thesis using s1(1) s2(1,2) came_out_trans [OF s1(3) s2(3)] MuxPduIndicate by simp
  next
    case (MuxPduErrIndicate err)
    then show ?thesis using Cons.IH [OF Cons.prems(1)] Cons.prems by simp
  qed
qed

lemma new_channel_at:
  assumes "kind_ok (lk_kind l)"
  shows "channel_at l 0 [] (new_in_channel (ucast (lk_lcn l)) (lk_segmentable l) (new_al (lk_kind l)) (\<lambda>n. True) accepts)"
  using new_al_at [OF assms]
  by (simp add: channel_at_def new_in_channel_def AllocateAlPdu_def AppendAlPduFrag_def pool_get_def ResetAlPdu_def pool_full_def
      filling_def held_def H223_INCOMING_CHANNEL_FRAGMENT_SIZE_def)

definition start_demux :: "link list \<Rightarrow> (u8 list list \<Rightarrow> bool) \<Rightarrow> incoming_table \<Rightarrow> demux" where
  "start_demux ls accepts tbl =
     \<lparr> iIncomingChannels =
         map (\<lambda>l. Some (new_in_channel (ucast (lk_lcn l)) (lk_segmentable l) (new_al (lk_kind l)) (\<lambda>n. True) accepts)) ls,
       iLcnEnd = None, iMuxDescriptorR = tbl, dmx_iLevelSetupComplete = True \<rparr>"

lemma start_demux_at: "list_all link_ok ls \<Longrightarrow> demux_at ls (\<lambda>i. 0, \<lambda>i. [], None) (start_demux ls accepts tbl)"
  by (auto simp: demux_at_def start_demux_def list_all_length link_ok_def intro: new_channel_at)

text \<open>C7. The demultiplexer implements reassembly. Once the level is set up, along any sequence of indications for entries that give a PDU
  to one channel (one element, until the closing flag), if the octets that each channel collects up to its closing
  flags (with each PDU, where the channel is not segmentable) are the packets of its SDUs, then exactly these SDUs
  come out of each channel, in their order, whole and without an error mark, whatever adaptation layers the channels
  have and however their PDUs are mixed. The SDUs have 1 to 4000 octets, the channels have distinct numbers and are
  not paused, and their memory pools always answer.\<close>

theorem demultiplexer_reassembles:
  assumes "list_all link_ok ls" and "distinct (map lk_lcn ls)" and "demux_at ls r s"
    and "list_all event_inside evs" and "list_all (shown_routed ls (iMuxDescriptorR s) route) (map shown evs)"
    and "reassemble ls (shown_atoms route (map shown evs)) r = Some r'"
  shows "\<exists>s' out. demux_run evs s = Inr (s', out) \<and> demux_at ls r' s' \<and>
     (\<forall>i < length ls. sdus_shown (ucast (lk_lcn (ls ! i))) out = map (\<lambda>j. (lk_sdus (ls ! i) ! j, False, False)) [fst r i ..< fst r' i])"
  using indications_demuxed [OF assms] unfolding came_out_def by blast

theorem demultiplexer_reassembles_witness:
  "\<exists>s' out. demux_run [MuxPduIndicate [5, 6, 9] 2 False 3, MuxPduIndicate [7] 1 False 3, MuxPduIndicate [] 0 True 0]
       (start_demux [\<lparr> lk_lcn = 1, lk_segmentable = True, lk_kind = Kind1, lk_sdus = [[5, 6, 7]] \<rparr>] (\<lambda>p. True)
          (new_incoming_table[3 := Some \<lparr> multiplexTableEntryNumber = 3, option_of_elementList = True,
             elementList = [LogicalChannel 1 UntilClosingFlag] \<rparr>])) = Inr (s', out)
     \<and> sdus_shown 1 out = [([5, 6, 7], False, False)]"
proof -
  let ?ls = "[\<lparr> lk_lcn = 1, lk_segmentable = True, lk_kind = Kind1, lk_sdus = [[5, 6, 7]] \<rparr>]"
  let ?tbl = "new_incoming_table[3 := Some \<lparr> multiplexTableEntryNumber = 3, option_of_elementList = True,
             elementList = [LogicalChannel 1 UntilClosingFlag] \<rparr>]"
  let ?s = "start_demux ?ls (\<lambda>p. True) ?tbl"
  let ?evs = "[MuxPduIndicate [5, 6, 9] 2 False 3, MuxPduIndicate [7] 1 False 3, MuxPduIndicate [] 0 True 0]"
  have ls: "list_all link_ok ?ls" by (simp add: link_ok_def)
  have "GetIncomingDescriptor 3 ?tbl = Some \<lparr> multiplexTableEntryNumber = 3, option_of_elementList = True,
             elementList = [LogicalChannel 1 UntilClosingFlag] \<rparr>"
    by (simp add: GetIncomingDescriptor_def new_incoming_table_def MAX_MUX_ENTRIES_def)
  then have routes: "list_all (shown_routed ?ls (iMuxDescriptorR ?s) (\<lambda>c. 0)) (map shown ?evs)"
    by (simp add: routed_def start_demux_def)
  have "reassemble ?ls (shown_atoms (\<lambda>c. 0) (map shown ?evs)) (\<lambda>i. 0, \<lambda>i. [], None) =
      Some ((\<lambda>i. 0)(0 := Suc 0), (\<lambda>i. [])(0 := []), None)"
    by (simp add: complete_def link_packet_def)
  from demultiplexer_reassembles [OF ls _ start_demux_at [OF ls] _ routes this] show ?thesis by fastforce
qed

end
