(* ===== verification/MuxRound.thy ===== *)
theory MuxRound
  imports MuxProps DemuxDelivery H223Level2Props
begin

text \<open>
  One call of the sending half of the multiplexer over level 2, as a step of the reassembly of \<open>DemuxDelivery\<close>: what
  the frames of the call add to the reassembly is what the packets that are being sent lose.
\<close>

section \<open>Cutting a packet\<close>

text \<open>The octets behind the cursor.\<close>

definition rest_of :: "u8 list list \<Rightarrow> nat \<Rightarrow> nat \<Rightarrow> u8 list" where
  "rest_of fs n p = drop p (concat (drop n fs))"

definition cursor_ok :: "u8 list list \<Rightarrow> nat \<Rightarrow> nat \<Rightarrow> bool" where
  "cursor_ok fs n p \<longleftrightarrow> (if n < length fs then p \<le> length (fs ! n) else p = 0)"

lemma rest_of_fragment:
  "n < length fs \<Longrightarrow> p \<le> length (fs ! n) \<Longrightarrow> rest_of fs n p = drop p (fs ! n) @ rest_of fs (Suc n) 0"
  by (simp add: rest_of_def Cons_nth_drop_Suc [symmetric])

lemma pieces_taken:
  assumes "cursor_ok fs n p" and "k \<le> length (rest_of fs n p)"
  shows "\<exists>ps n' p'. take_pieces fs k n p sz = Inr (ps, n', p', sz - of_nat k) \<and> concat ps = take k (rest_of fs n p)
     \<and> rest_of fs n' p' = drop k (rest_of fs n p) \<and> cursor_ok fs n' p'"
  using assms
proof (induction fs k n p sz rule: take_pieces.induct)
  case (1 fs k n p sz)
  show ?case
  proof (cases "k = 0")
    case True
    then show ?thesis using 1(3) by (subst take_pieces.simps) simp
  next
    case False
    have n: "n < length fs" "p \<le> length (fs ! n)"
      using 1(3,4) False by (auto simp: cursor_ok_def rest_of_def split: if_splits)
    let ?a = "length (fs ! n) - p"
    note r = rest_of_fragment [OF n]
    have fine: "\<not> (length fs \<le> n \<or> length (fs ! n) < p)" using n by auto
    show ?thesis
    proof (cases "?a \<le> k")
      case True
      have next_ok: "cursor_ok fs (Suc n) 0" by (simp add: cursor_ok_def)
      have "k - ?a \<le> length (rest_of fs (Suc n) 0)" using 1(4) r by simp
      with 1(1) [OF False fine refl refl] True next_ok
      obtain ps n' p' where p: "take_pieces fs (k - ?a) (Suc n) 0 (sz - of_nat ?a) = Inr (ps, n', p', sz - of_nat ?a - of_nat (k - ?a))"
          "concat ps = take (k - ?a) (rest_of fs (Suc n) 0)" "rest_of fs n' p' = drop (k - ?a) (rest_of fs (Suc n) 0)" "cursor_ok fs n' p'"
        by auto
      have "(of_nat k :: u16) = of_nat ?a + of_nat (k - ?a)" using True by (simp flip: of_nat_add)
      then have "take_pieces fs k n p sz = Inr (take ?a (drop p (fs ! n)) # ps, n', p', sz - of_nat k)"
        using False fine True p(1) by (subst take_pieces.simps) (simp add: Let_def diff_diff_eq)
      then show ?thesis using True p(2-4) by (intro exI conjI) (assumption | simp add: r)+
    next
      case False
      have "take_pieces fs k n p sz = Inr ([take k (drop p (fs ! n))], n, p + k, sz - of_nat k)"
        using \<open>k \<noteq> 0\<close> fine False by (subst take_pieces.simps) (simp add: Let_def take_pieces.simps)
      moreover have "rest_of fs n (p + k) = drop k (rest_of fs n p)" by (simp add: rest_of_def add.commute)
      moreover have "cursor_ok fs n (p + k)" using n False by (simp add: cursor_ok_def)
      moreover have "concat [take k (drop p (fs ! n))] = take k (rest_of fs n p)" using False by (simp add: r)
      ultimately show ?thesis by blast
    qed
  qed
qed

section \<open>The sender and the reassembly\<close>

definition chan_list :: "link \<Rightarrow> sdu_list" where
  "chan_list l = (if lk_lcn l = 0 then ControlList else sdu_data_list (lk_segmentable l))"

text \<open>The rest of the packet \<open>k\<close> of channel \<open>i\<close>, of which \<open>h\<close> has been sent.\<close>

definition partly_sent :: "link \<Rightarrow> nat \<Rightarrow> u8 list \<Rightarrow> nat \<Rightarrow> mux_sdu_data \<Rightarrow> bool" where
  "partly_sent l k h i d \<longleftrightarrow>
     (let rest = rest_of (sdu_fragments (sd_sdu d)) (cur_frag_num d) (cur_pos d)
      in sd_channel d = i \<and> k < length (lk_sdus l) \<and> cursor_ok (sdu_fragments (sd_sdu d)) (cur_frag_num d) (cur_pos d)
       \<and> sd_size d = of_nat (length rest) \<and> h @ rest = link_packet l k \<and> rest \<noteq> [] \<and> (\<not> lk_segmentable l \<longrightarrow> h = [])
       \<and> (lk_lcn l = 0 \<longrightarrow> sdu_fsi (sd_sdu d) = None))"

definition queue_at :: "link \<Rightarrow> nat \<Rightarrow> out_channel \<Rightarrow> bool" where
  "queue_at l m c \<longleftrightarrow> och_lcn c = ucast (lk_lcn l) \<and> och_segmentable c = lk_segmentable l \<and> m \<le> length (lk_sdus l)
     \<and> map (concat \<circ> sdu_fragments) (och_packets c) = map (link_packet l) [m ..< length (lk_sdus l)]
     \<and> (lk_lcn l = 0 \<longrightarrow> list_all (\<lambda>x. sdu_fsi x = None) (och_packets c))"

fun waiting_at :: "link \<Rightarrow> nat \<Rightarrow> u8 list \<Rightarrow> nat \<Rightarrow> out_channel \<Rightarrow> mux_sdu_data list \<Rightarrow> bool" where
  "waiting_at l k h i c [] = (h = [] \<and> queue_at l k c)"
| "waiting_at l k h i c [d] = (partly_sent l k h i d \<and> queue_at l (Suc k) c)"
| "waiting_at l k h i c ds = False"

definition sender_at :: "link list \<Rightarrow> bool \<Rightarrow> outgoing_table \<Rightarrow> reassembly \<Rightarrow> mux_sender \<Rightarrow> bool" where
  "sender_at ls oh tbl r s \<longleftrightarrow>
     (case r of (k, h, e) \<Rightarrow>
        length (iOutgoingChannels s) = length ls \<and> iOutgoingDescriptors s = tbl
      \<and> (\<exists>t closing. iParcom s = Parcom2 t \<and> tx_ready oh closing t)
      \<and> (\<forall>i < length ls. waiting_at (ls ! i) (k i) (h i) i (iOutgoingChannels s ! i) (get_list (chan_list (ls ! i)) s))
      \<and> (\<forall>which. which \<notin> chan_list ` set ls \<longrightarrow> get_list which s = []))"

text \<open>The links of a call: each of the three lists serves one channel, and the control channel is the first.\<close>

definition links_ok :: "link list \<Rightarrow> bool" where
  "links_ok ls \<longleftrightarrow> list_all link_ok ls \<and> distinct (map lk_lcn ls) \<and> distinct (map chan_list ls)
     \<and> (\<forall>i < length ls. lk_lcn (ls ! i) = 0 \<longleftrightarrow> i = 0)"

text \<open>The own entries and those of the other side: each channel has an entry of its own, until the closing flag.\<close>

definition tables_agree :: "link list \<Rightarrow> outgoing_table \<Rightarrow> incoming_table \<Rightarrow> (u8 \<Rightarrow> nat) \<Rightarrow> bool" where
  "tables_agree ls own peer route \<longleftrightarrow>
     (\<forall>i < length ls. \<forall>fsi. (lk_lcn (ls ! i) = 0 \<longrightarrow> fsi = None) \<longrightarrow>
        (\<exists>d. GetOutgoingDescriptor_lcn (ucast (lk_lcn (ls ! i))) (lk_segmentable (ls ! i)) fsi own = (Some d, own)
           \<and> elementList d = [LogicalChannel (lk_lcn (ls ! i)) UntilClosingFlag] \<and> multiplexTableEntryNumber d < 16
           \<and> route (multiplexTableEntryNumber d) = i \<and> routed ls peer (multiplexTableEntryNumber d) i))"

text \<open>What a frame adds to the reassembly; its packet marker becomes the closing flag of the frame that follows.\<close>

fun frame_atoms :: "(u8 \<Rightarrow> nat) \<Rightarrow> frame \<Rightarrow> atom list" where
  "frame_atoms route (P, num, pm) = (if P \<noteq> [] then [Octets (route num) P] else []) @ (if pm \<noteq> 0 then [Closing] else [])"

fun frame_routed :: "link list \<Rightarrow> incoming_table \<Rightarrow> (u8 \<Rightarrow> nat) \<Rightarrow> frame \<Rightarrow> bool" where
  "frame_routed ls tbl route (P, num, pm) = (P \<noteq> [] \<longrightarrow> routed ls tbl num (route num))"

lemma packet_size:
  assumes "link_ok l" and "k < length (lk_sdus l)"
  shows "link_packet l k \<noteq> [] \<and> length (link_packet l k) \<le> 4096"
  using sized [OF assms] by (cases "lk_kind l") (auto simp: link_packet_def al3_octets_def crc_octets_def sn_octets_def Let_def)

lemma list_of_one:
  assumes "distinct (map f xs)" and "i < length xs" and "j < length xs" and "f (xs ! i) = f (xs ! j)"
  shows "i = j"
  using assms by (auto simp: distinct_conv_nth)

lemma get_set_list: "get_list v (set_list w xs s) = (if v = w then xs else get_list v s)"
  by (cases v; cases w) simp_all

lemma set_list_fields [simp]:
  "iOutgoingDescriptors (set_list w xs s) = iOutgoingDescriptors s" "iParcom (set_list w xs s) = iParcom s"
  by (cases w; simp)+

lemma get_list_fields [simp]:
  "get_list w (s\<lparr>iOutgoingChannels := cs\<rparr>) = get_list w s" "get_list w (s\<lparr>iOutgoingDescriptors := tbl\<rparr>) = get_list w s"
  "get_list w (s\<lparr>iParcom := p\<rparr>) = get_list w s"
  by (cases w; simp)+

lemma sender_atD:
  assumes "sender_at ls oh tbl (k, h, e) s"
  shows "length (iOutgoingChannels s) = length ls" "iOutgoingDescriptors s = tbl"
    "\<And>i. i < length ls \<Longrightarrow> waiting_at (ls ! i) (k i) (h i) i (iOutgoingChannels s ! i) (get_list (chan_list (ls ! i)) s)"
    "\<And>w. w \<notin> chan_list ` set ls \<Longrightarrow> get_list w s = []" "\<exists>t closing. iParcom s = Parcom2 t \<and> tx_ready oh closing t"
  using assms by (simp_all add: sender_at_def)

text \<open>A new state of one channel.\<close>

lemma sender_updated:
  assumes "links_ok ls" and at: "sender_at ls oh tbl (k, h, e) s" and "i < length ls"
    and "length (iOutgoingChannels s') = length ls" "iOutgoingDescriptors s' = tbl" "iParcom s' = Parcom2 t" "tx_ready oh closing t"
    and channels: "\<And>j. j < length ls \<Longrightarrow> j \<noteq> i \<Longrightarrow> iOutgoingChannels s' ! j = iOutgoingChannels s ! j"
    and lists: "\<And>w. w \<noteq> chan_list (ls ! i) \<Longrightarrow> get_list w s' = get_list w s"
    and "waiting_at (ls ! i) k' h' i (iOutgoingChannels s' ! i) (get_list (chan_list (ls ! i)) s')"
  shows "sender_at ls oh tbl (k(i := k'), h(i := h'), e') s'"
proof -
  have "waiting_at (ls ! j) ((k(i := k')) j) ((h(i := h')) j) j (iOutgoingChannels s' ! j) (get_list (chan_list (ls ! j)) s')"
    if j: "j < length ls" for j
  proof (cases "j = i")
    case False
    then have "chan_list (ls ! j) \<noteq> chan_list (ls ! i)"
      using assms(1,3) j list_of_one [of chan_list ls j i] by (auto simp: links_ok_def)
    then show ?thesis using False channels [OF j False] lists sender_atD(3) [OF at j] by simp
  qed (simp add: assms(10))
  moreover have "get_list w s' = []" if "w \<notin> chan_list ` set ls" for w
  proof -
    have "w \<noteq> chan_list (ls ! i)" using that assms(3) by force
    then show ?thesis using lists sender_atD(4) [OF at that] by simp
  qed
  ultimately show ?thesis using assms(4-7) by (auto simp: sender_at_def)
qed

section \<open>Refilling the lists\<close>

lemma next_packet:
  assumes "link_ok l" and "queue_at l k c" and "GetNextPacket c = (Some sdu, c1)"
  shows "waiting_at l k [] i c1 [new_sdu_data i sdu]" "och_lcn c1 = och_lcn c" "och_segmentable c1 = och_segmentable c"
proof -
  obtain sdus where c: "och_packets c = sdu # sdus" "c1 = c\<lparr>och_packets := sdus\<rparr>"
    using assms(3) by (auto simp: GetNextPacket_def split: list.splits if_splits)
  then have k: "k < length (lk_sdus l)" using assms(2) by (cases "k < length (lk_sdus l)") (auto simp: queue_at_def)
  then have p: "concat (sdu_fragments sdu) = link_packet l k" "queue_at l (Suc k) c1"
    using assms(2) c by (auto simp: queue_at_def upt_conv_Cons)
  then show "waiting_at l k [] i c1 [new_sdu_data i sdu]"
    using packet_size [OF assms(1) k] k assms(2) c
    by (auto simp: partly_sent_def new_sdu_data_def rest_of_def cursor_ok_def queue_at_def Let_def)
  show "och_lcn c1 = och_lcn c" "och_segmentable c1 = och_segmentable c" using c by simp_all
qed

lemma channel_waiting:
  assumes "links_ok ls" and "sender_at ls oh tbl (k, h, e) s" and "i < length ls"
  defines "c \<equiv> iOutgoingChannels s ! i"
  shows "(if i = 0 then iControlSduDataList s \<noteq> [] else FindMuxSduData (och_lcn c) (och_segmentable c) s \<noteq> None)
     \<longleftrightarrow> get_list (chan_list (ls ! i)) s \<noteq> []"
proof -
  have w: "waiting_at (ls ! i) (k i) (h i) i c (get_list (chan_list (ls ! i)) s)"
    using sender_atD(3) [OF assms(2,3)] unfolding c_def .
  then have c: "och_lcn c = ucast (lk_lcn (ls ! i))" "och_segmentable c = lk_segmentable (ls ! i)"
    by (cases "(ls ! i, k i, h i, i, c, get_list (chan_list (ls ! i)) s)" rule: waiting_at.cases; simp add: queue_at_def)+
  show ?thesis
  proof (cases "i = 0")
    case True
    then show ?thesis using assms(1,3) by (simp add: links_ok_def chan_list_def)
  next
    case False
    then have l: "chan_list (ls ! i) = sdu_data_list (och_segmentable c)" using assms(1,3) c by (simp add: links_ok_def chan_list_def)
    show ?thesis
    proof (cases "get_list (chan_list (ls ! i)) s")
      case Nil
      then show ?thesis using False l by (simp add: FindMuxSduData_def)
    next
      case (Cons d ds)
      then have "get_list (chan_list (ls ! i)) s = [d]" "sd_channel d = i" using w by (cases ds; simp add: partly_sent_def Let_def)+
      then show ?thesis using False l by (simp add: FindMuxSduData_def channel_lcn_def c_def)
    qed
  qed
qed

lemma channel_refilled:
  assumes "links_ok ls" and "sender_at ls oh tbl (k, h, e) s" and "i < length ls"
  shows "sender_at ls oh tbl (k, h, e) (snd (update_channel i s))"
proof -
  let ?l = "ls ! i" and ?c = "iOutgoingChannels s ! i"
  note waits = channel_waiting [OF assms]
  have l: "link_ok ?l" using assms(1,3) by (simp add: links_ok_def list_all_length)
  show ?thesis
  proof (cases "get_list (chan_list ?l) s \<noteq> [] \<or> fst (GetNextPacket ?c) = None")
    case True
    then show ?thesis using waits assms(2) by (cases "GetNextPacket ?c") (auto simp: update_channel_def Let_def split: option.splits)
  next
    case False
    then obtain sdu c1 where n: "get_list (chan_list ?l) s = []" "GetNextPacket ?c = (Some sdu, c1)"
      by (cases "GetNextPacket ?c") auto
    have w: "h i = []" "queue_at ?l (k i) ?c" using sender_atD(3) [OF assms(2,3)] n(1) by simp_all
    note new = next_packet [OF l w(2) n(2)]
    let ?d = "new_sdu_data i sdu" and ?s1 = "s\<lparr>iOutgoingChannels := (iOutgoingChannels s)[i := c1]\<rparr>"
    have len: "i < length (iOutgoingChannels s)" using sender_atD(1) [OF assms(2)] assms(3) by simp
    have d: "channel_lcn ?s1 ?d = ucast (lk_lcn ?l)" "channel_segmentable ?s1 ?d = lk_segmentable ?l"
      using new(2,3) w(2) len by (simp_all add: channel_lcn_def channel_segmentable_def new_sdu_data_def queue_at_def)
    have "(ucast (lk_lcn ?l) :: u32) = 0 \<longleftrightarrow> lk_lcn ?l = 0" using ucast_u16_u32_inject [of "lk_lcn ?l" 0] by simp
    then have "AppendMuxSduData ?d ?s1 = set_list (chan_list ?l) (get_list (chan_list ?l) ?s1 @ [?d]) ?s1"
      unfolding AppendMuxSduData_def Let_def d chan_list_def by simp
    then have "AppendMuxSduData ?d ?s1 = set_list (chan_list ?l) [?d] ?s1" using n(1) by simp
    then have u: "snd (update_channel i s) = set_list (chan_list ?l) [?d] ?s1"
      using waits n by (simp add: update_channel_def Let_def)
    obtain t closing where t: "iParcom s = Parcom2 t" "tx_ready oh closing t" using sender_atD(5) [OF assms(2)] by blast
    have "sender_at ls oh tbl (k(i := k i), h(i := []), e) (set_list (chan_list ?l) [?d] ?s1)"
    proof (rule sender_updated [OF assms _ _ _ t(2)])
      show "waiting_at ?l (k i) [] i (iOutgoingChannels (set_list (chan_list ?l) [?d] ?s1) ! i)
          (get_list (chan_list ?l) (set_list (chan_list ?l) [?d] ?s1))" using new(1) len by (simp del: waiting_at.simps)
    qed (use len t(1) sender_atD(1,2) [OF assms(2)] in \<open>simp_all add: get_set_list\<close>)
    then show ?thesis unfolding u using w(1) by (simp add: fun_upd_idem)
  qed
qed

lemma lists_refilled:
  assumes "links_ok ls" and "sender_at ls oh tbl r s"
  shows "sender_at ls oh tbl r (snd (UpdateSduDataLists s)) \<and> iParcom (snd (UpdateSduDataLists s)) = iParcom s"
proof -
  obtain k h e where r: "r = (k, h, e)" by (cases r)
  have parcom: "iParcom (snd (update_channel i s)) = iParcom s" for i s
    by (simp add: update_channel_def AppendMuxSduData_def Let_def split: option.splits prod.splits)
  have "sender_at ls oh tbl (k, h, e) (snd (update_channels is s)) \<and> iParcom (snd (update_channels is s)) = iParcom s"
    if "\<forall>i \<in> set is. i < length ls" "sender_at ls oh tbl (k, h, e) s" for "is" s
    using that
  proof (induction "is" arbitrary: s)
    case (Cons i "is")
    have "sender_at ls oh tbl (k, h, e) (snd (update_channel i s))" using channel_refilled [OF assms(1)] Cons.prems by simp
    moreover have "snd (update_channels (i # is) s) = snd (update_channels is (snd (update_channel i s)))"
      by (simp add: Let_def split: prod.splits)
    ultimately show ?case using Cons.IH [of "snd (update_channel i s)"] Cons.prems(1) parcom [of i s] by simp
  qed simp
  then show ?thesis using assms(2) unfolding r UpdateSduDataLists_def by (simp add: sender_atD(1))
qed

section \<open>Sending a piece\<close>

lemma piece_made:
  assumes "partly_sent l k h i d" and "link_ok l" and "rest = rest_of (sdu_fragments (sd_sdu d)) (cur_frag_num d) (cur_pos d)"
    and "n = min m (length rest)"
  shows "\<exists>pieces d1. MakePduData (int m) (LogicalChannel lcn UntilClosingFlag) seg d = Inr (pieces, d1, n = length rest \<and> seg)
     \<and> concat pieces = take n rest \<and> (sd_size d1 = 0 \<longleftrightarrow> n = length rest) \<and> sd_channel d1 = i
     \<and> (n < length rest \<and> lk_segmentable l \<longrightarrow> partly_sent l k (h @ take n rest) i d1)"
proof -
  let ?fs = "sdu_fragments (sd_sdu d)"
  have p: "cursor_ok ?fs (cur_frag_num d) (cur_pos d)" "sd_size d = of_nat (length rest)" "h @ rest = link_packet l k"
      "k < length (lk_sdus l)" "sd_channel d = i" "lk_lcn l = 0 \<longrightarrow> sdu_fsi (sd_sdu d) = None"
    using assms(1) by (simp_all add: partly_sent_def Let_def assms(3))
  have "length (h @ rest) \<le> 4096" using packet_size [OF assms(2) p(4)] p(3) by simp
  then have len: "length rest < 65536" by simp
  have small: "(of_nat j :: u16) = 0 \<longleftrightarrow> j = 0" if "j \<le> length rest" for j
    using that len by (simp add: word_unat_eq_iff unat_of_nat)
  have size: "uint (sd_size d) = int (length rest)" using len by (simp add: p(2) uint_nat unat_of_nat)
  have n: "nat (min (int m) (int (length rest))) = n" "n \<le> length rest" using assms(4) by simp_all
  obtain ps n' p' where t: "take_pieces ?fs n (cur_frag_num d) (cur_pos d) (sd_size d) = Inr (ps, n', p', sd_size d - of_nat n)"
      "concat ps = take n rest" "rest_of ?fs n' p' = drop n rest" "cursor_ok ?fs n' p'"
    using pieces_taken [OF p(1), of n "sd_size d"] n(2) unfolding assms(3) by blast
  have left: "sd_size d - of_nat n = of_nat (length rest - n)" using n(2) by (simp add: p(2) of_nat_diff)
  let ?d1 = "d\<lparr>sd_size := sd_size d - of_nat n, cur_frag_num := n', cur_pos := p'\<rparr>"
  have zero: "sd_size ?d1 = 0 \<longleftrightarrow> n = length rest" using small [of "length rest - n"] n(2) by (auto simp: left)
  have "\<not> min (int m) (int (length rest)) < 0" by simp
  then have "MakePduData (int m) (LogicalChannel lcn UntilClosingFlag) seg d = Inr (ps, ?d1, sd_size ?d1 = 0 \<and> seg)"
    using t(1) n(1) by (simp add: MakePduData_def size)
  moreover have "partly_sent l k (h @ take n rest) i ?d1" if "n < length rest" "lk_segmentable l"
    using that p t(3,4) left by (simp add: partly_sent_def)
  ultimately show ?thesis using t(2) zero p(5) by (intro exI conjI) (assumption | simp)+
qed

lemma piece_reassembled:
  assumes "i < length ls" and "k i < length (lk_sdus (ls ! i))" and "h i @ rest = link_packet (ls ! i) (k i)"
    and "0 < n" "n \<le> length rest" "\<not> lk_segmentable (ls ! i) \<longrightarrow> n = length rest" and "route num = i"
  shows "\<exists>e'. reassemble ls (frame_atoms route (take n rest, num, if n = length rest \<and> lk_segmentable (ls ! i) then 1 else 0)) (k, h, e)
     = Some (if n = length rest then (k(i := Suc (k i)), h(i := []), e') else (k, h(i := h i @ take n rest), e'))"
proof -
  have ne: "take n rest \<noteq> []" using assms(4,5) by auto
  show ?thesis
    using assms(1-3,6,7) ne by (auto simp: reassemble_short complete_def)
qed

lemma packet_released:
  assumes "link_ok l" and "get_list (chan_list l) s = [d]" and "sd_channel d = i" and "i < length (iOutgoingChannels s)"
    and "queue_at l k (iOutgoingChannels s ! i)"
  shows "\<exists>s'. ReleaseMuxSdu (chan_list l) 0 s = Some s'
     \<and> waiting_at l k [] i (iOutgoingChannels s' ! i) (get_list (chan_list l) s')
     \<and> length (iOutgoingChannels s') = length (iOutgoingChannels s) \<and> iOutgoingDescriptors s' = iOutgoingDescriptors s
     \<and> iParcom s' = iParcom s \<and> (\<forall>j. j \<noteq> i \<longrightarrow> iOutgoingChannels s' ! j = iOutgoingChannels s ! j)
     \<and> (\<forall>w. w \<noteq> chan_list l \<longrightarrow> get_list w s' = get_list w s)"
proof (cases "GetNextPacket (iOutgoingChannels s ! i)")
  case (Pair sdu c)
  show ?thesis
  proof (cases sdu)
    case (Some x)
    let ?s = "set_list (chan_list l) [new_sdu_data i x] (s\<lparr>iOutgoingChannels := (iOutgoingChannels s)[i := c]\<rparr>)"
    have "ReleaseMuxSdu (chan_list l) 0 s = Some ?s" using assms(2,3) Pair Some by (simp add: ReleaseMuxSdu_def)
    moreover have "waiting_at l k [] i (iOutgoingChannels ?s ! i) (get_list (chan_list l) ?s)"
      using next_packet(1) [OF assms(1,5)] Pair Some assms(4) by (simp del: waiting_at.simps)
    ultimately show ?thesis by (intro exI conjI) (assumption | simp add: get_set_list)+
  next
    case None
    have c: "channel_lcn s d = ucast (lk_lcn l)" "channel_segmentable s d = lk_segmentable l"
      using assms(3,5) by (simp_all add: channel_lcn_def channel_segmentable_def queue_at_def)
    have zero: "(ucast (lk_lcn l) :: u32) = 0 \<longleftrightarrow> lk_lcn l = 0" using ucast_u16_u32_inject [of "lk_lcn l" 0] by simp
    have "RemoveMuxSduData (channel_lcn s d) (channel_segmentable s d) s = Some (set_list (chan_list l) [] s)"
    proof (cases "lk_lcn l = 0")
      case True
      then show ?thesis using c zero by (simp add: RemoveMuxSduData_def chan_list_def)
    next
      case False
      then have "get_list (sdu_data_list (lk_segmentable l)) s = [d]" using assms(2) by (simp add: chan_list_def)
      then show ?thesis using False c zero remove_ends [of "lk_segmentable l" s "ucast (lk_lcn l)"]
        by (simp add: RemoveMuxSduData_def chan_list_def)
    qed
    then have "ReleaseMuxSdu (chan_list l) 0 s = Some (set_list (chan_list l) [] s)"
      using assms(2,3) Pair None by (simp add: ReleaseMuxSdu_def)
    then show ?thesis using assms(5) by (intro exI conjI) (assumption | simp add: get_set_list)+
  qed
qed

section \<open>A call\<close>

text \<open>The size of a PDU leaves room for octets and fits the length field of level 2; a packet of a channel that is not
  segmentable fits a PDU.\<close>

definition call_ok :: "link list \<Rightarrow> bool \<Rightarrow> sdu_list \<Rightarrow> u16 \<Rightarrow> bool" where
  "call_ok ls oh which mx \<longleftrightarrow> level2_header_size oh < unat mx \<and> unat mx \<le> level2_header_size oh + 254
     \<and> list_all (\<lambda>l. chan_list l = which \<and> \<not> lk_segmentable l \<longrightarrow>
          list_all (\<lambda>k. level2_header_size oh + length (link_packet l k) \<le> unat mx) [0 ..< length (lk_sdus l)]) ls"

lemma packet_cut:
  assumes "partly_sent l k h i d" and "link_ok l" and rest: "rest = rest_of (sdu_fragments (sd_sdu d)) (cur_frag_num d) (cur_pos d)"
    and n: "n = min m (length rest)" and "m \<le> 254" and "tx_ready oh closing t"
    and D: "elementList D = [LogicalChannel lcn UntilClosingFlag]" "multiplexTableEntryNumber D < 16"
  shows "\<exists>xs d1 t1. DispatchPduPacket True True d seg D (int m + int (level2_header_size oh)) (Parcom2 t) = Inr (Some xs, d1, Parcom2 t1)
     \<and> length xs = level2_header_size oh + n \<and> send_frames [(take n rest, multiplexTableEntryNumber D, if n = length rest \<and> seg then 1 else 0)] t = Inr (xs, t1)
     \<and> (\<exists>closing. tx_ready oh closing t1) \<and> (sd_size d1 = 0 \<longleftrightarrow> n = length rest) \<and> sd_channel d1 = i
     \<and> (n < length rest \<and> lk_segmentable l \<longrightarrow> partly_sent l k (h @ take n rest) i d1)"
proof -
  let ?num = "multiplexTableEntryNumber D" and ?pm = "if n = length rest \<and> seg then 1 else 0 :: u8"
  obtain pieces d1 where m: "MakePduData (int m) (LogicalChannel lcn UntilClosingFlag) seg d = Inr (pieces, d1, n = length rest \<and> seg)"
      "concat pieces = take n rest" "sd_size d1 = 0 \<longleftrightarrow> n = length rest" "sd_channel d1 = i"
      "n < length rest \<and> lk_segmentable l \<longrightarrow> partly_sent l k (h @ take n rest) i d1"
    using piece_made [OF assms(1,2) rest n] by blast
  have ok: "frame_ok (concat pieces, ?num, ?pm)" using D(2) n assms(5) by (simp add: m(2))
  obtain xs t1 where t1: "level2_CompletePdu pieces ?num ?pm t =
      Inr (level2_flag closing @ code_octets (enc_tab ! (length (concat pieces) * 16 + unat ?num)) @ xs @ concat pieces, t1)"
      "length xs = level2_header_size oh - 5" "tx_ready oh (?pm \<noteq> 0) t1"
    using frame_sent [OF assms(6) ok] by blast
  define ys where "ys = level2_flag closing @ code_octets (enc_tab ! (length (concat pieces) * 16 + unat ?num)) @ xs @ concat pieces"
  have "length ys = level2_header_size oh + n"
    using t1(2) n by (simp add: ys_def m(2) level2_flag_def code_octets_def level2_header_size_def)
  moreover have "DispatchPduPacket True True d seg D (int m + int (level2_header_size oh)) (Parcom2 t) = Inr (Some ys, d1, Parcom2 t1)"
  proof -
    have hdr: "int m + int (level2_header_size oh) - int (GetHeaderSz (Parcom2 t)) = int m"
      using assms(6) by (simp add: tx_ready_def)
    have "CompletePacket True pieces ?num (n = length rest \<and> seg) (Parcom2 t) = Inr (ys, Parcom2 t1)"
      unfolding CompletePacket_def parcom_CompletePdu.simps t1(1) ys_def by simp
    then show ?thesis unfolding DispatchPduPacket_def D(1) hdr list.case m(1) by simp
  qed
  moreover have "send_frames [(take n rest, ?num, ?pm)] t = Inr (ys, t1)"
    using t1(1) complete_concat [of pieces ?num ?pm t] by (simp add: m(2) ys_def)
  ultimately show ?thesis using m(3-5) t1(3) by blast
qed

lemma single_round:
  assumes "get_list which s = [d]"
    and "GetOutgoingDescriptor_lcn (channel_lcn s d) (channel_segmentable s d) (sdu_fsi (sd_sdu d)) (iOutgoingDescriptors s) = (Some D, tbl)"
    and "DispatchPduPacket True True d (channel_segmentable s d) D (uint mx) (iParcom s) = Inr (Some xs, d1, p1)" and "xs \<noteq> []"
    and "s2 = (set_list which [d1] (s\<lparr>iOutgoingDescriptors := tbl\<rparr>))\<lparr>iParcom := p1\<rparr>"
    and "(if sd_size d1 = 0 then ReleaseMuxSdu which 0 s2 else Some s2) = Some s3"
  shows "MuxLcnData True True which mx s = Some (Inr (word_of_int (int (length xs)), [xs], s3))"
proof -
  have "mux_loop (Suc 0) True True which 0 (uint mx) s =
      (case (if sd_size d1 = 0 then ReleaseMuxSdu which 0 s2 else Some s2) of
         None \<Rightarrow> None
       | Some s3 \<Rightarrow>
           if uint mx - int (length xs) \<le> int (GetHeaderSz (iParcom s3)) then Some (Inr ([xs], uint mx - int (length xs), s3))
           else map_option (\<lambda>r. bind_res r (\<lambda>(packets', left', s4). Inr ([xs] @ packets', left', s4)))
                  (mux_loop 0 True True which (Suc 0) (uint mx - int (length xs)) s3))"
    using assms(1-4) by (simp add: assms(5) Let_def split del: if_split cong: option.case_cong if_cong)
  then show ?thesis unfolding MuxLcnData_def assms(6) using assms(1) by simp
qed

lemma call_made:
  assumes "links_ok ls" and "tables_agree ls tbl peer route" and at: "sender_at ls oh tbl (k, h, e) s"
    and "call_ok ls oh which mx" and t: "iParcom s = Parcom2 t"
  shows "\<exists>used ps s' fs t' r'. MuxLcnData True True which mx s = Some (Inr (used, ps, s')) \<and> iParcom s' = Parcom2 t'
     \<and> send_frames fs t = Inr (concat ps, t') \<and> list_all2 (\<lambda>p f. length p = level2_header_size oh + length (fst f)) ps fs \<and> list_all frame_ok fs \<and> list_all (frame_routed ls peer route) fs
     \<and> reassemble ls (concat (map (frame_atoms route) fs)) (k, h, e) = Some r' \<and> sender_at ls oh tbl r' s'"
proof (cases "get_list which s")
  case Nil
  have "MuxLcnData True True which mx s = Some (Inr (0, [], s))" using Nil by (simp add: MuxLcnData_def)
  then show ?thesis using t at
    by (intro exI [of _ 0] exI [of _ "[]"] exI [of _ s] exI [of _ t] exI [of _ "(k, h, e)"]) simp
next
  case (Cons d ds)
  then have "which \<in> chan_list ` set ls" using sender_atD(4) [OF at, of which] by auto
  then obtain i where i: "i < length ls" "chan_list (ls ! i) = which" by (auto simp: in_set_conv_nth)
  let ?l = "ls ! i" and ?c = "iOutgoingChannels s ! i"
  have l: "link_ok ?l" using assms(1) i(1) by (simp add: links_ok_def list_all_length)
  have one: "get_list which s = [d]" "partly_sent ?l (k i) (h i) i d" "queue_at ?l (Suc (k i)) ?c"
    using sender_atD(3) [OF at i(1)] i(2) Cons by (cases ds; simp)+
  define rest where "rest = rest_of (sdu_fragments (sd_sdu d)) (cur_frag_num d) (cur_pos d)"
  define m where "m = unat mx - level2_header_size oh"
  define n where "n = min m (length rest)"
  have m: "0 < m" "m \<le> 254" "unat mx = m + level2_header_size oh" using assms(4) unfolding call_ok_def m_def by auto
  have mx: "uint mx = int m + int (level2_header_size oh)" unfolding uint_nat m(3) by simp
  have d: "sd_channel d = i" "k i < length (lk_sdus ?l)" "h i @ rest = link_packet ?l (k i)" "rest \<noteq> []"
      "\<not> lk_segmentable ?l \<longrightarrow> h i = []" "lk_lcn ?l = 0 \<longrightarrow> sdu_fsi (sd_sdu d) = None"
    using one(2) by (simp_all add: partly_sent_def Let_def rest_def)
  have n: "0 < n" "n \<le> length rest" using m(1) d(4) by (simp_all add: n_def)
  have whole: "n = length rest" if "\<not> lk_segmentable ?l"
  proof -
    have "level2_header_size oh + length (link_packet ?l (k i)) \<le> unat mx"
      using assms(4) i d(2) that by (simp add: call_ok_def list_all_length)
    then show ?thesis using d(3,5) that by (simp add: n_def m_def)
  qed
  obtain D where D: "GetOutgoingDescriptor_lcn (ucast (lk_lcn ?l)) (lk_segmentable ?l) (sdu_fsi (sd_sdu d)) tbl = (Some D, tbl)"
      "elementList D = [LogicalChannel (lk_lcn ?l) UntilClosingFlag]" "multiplexTableEntryNumber D < 16"
      "route (multiplexTableEntryNumber D) = i" "routed ls peer (multiplexTableEntryNumber D) i"
    using assms(2) i(1) d(6) unfolding tables_agree_def by metis
  obtain closing where closing: "tx_ready oh closing t" using sender_atD(5) [OF at] t by auto
  let ?f = "(take n rest, multiplexTableEntryNumber D, if n = length rest \<and> lk_segmentable ?l then 1 else 0)"
  obtain xs d1 t1 closing1 where x: "DispatchPduPacket True True d (lk_segmentable ?l) D (uint mx) (Parcom2 t) = Inr (Some xs, d1, Parcom2 t1)"
      "length xs = level2_header_size oh + n" "send_frames [?f] t = Inr (xs, t1)" "tx_ready oh closing1 t1" "sd_size d1 = 0 \<longleftrightarrow> n = length rest" "sd_channel d1 = i"
      "n < length rest \<and> lk_segmentable ?l \<longrightarrow> partly_sent ?l (k i) (h i @ take n rest) i d1"
    using packet_cut [OF one(2) l rest_def n_def m(2) closing D(2,3)] unfolding mx by blast
  obtain e' where r: "reassemble ls (frame_atoms route ?f) (k, h, e) =
      Some (if n = length rest then (k(i := Suc (k i)), h(i := []), e') else (k, h(i := h i @ take n rest), e'))"
    using piece_reassembled [of i ls k h rest n route "multiplexTableEntryNumber D" e] i(1) d(2,3) n D(4) whole by blast
  have frame: "frame_ok ?f" "frame_routed ls peer route ?f" using D(3-5) m(2) by (simp_all add: n_def)
  have c: "channel_lcn s d = ucast (lk_lcn ?l)" "channel_segmentable s d = lk_segmentable ?l" "iOutgoingDescriptors s = tbl"
      "i < length (iOutgoingChannels s)"
    using d(1) one(3) sender_atD(1,2) [OF at] i(1) by (simp_all add: channel_lcn_def channel_segmentable_def queue_at_def)
  define s2 where "s2 = (set_list which [d1] (s\<lparr>iOutgoingDescriptors := tbl\<rparr>))\<lparr>iParcom := Parcom2 t1\<rparr>"
  have s2: "get_list (chan_list ?l) s2 = [d1]" "iOutgoingChannels s2 = iOutgoingChannels s" "iOutgoingDescriptors s2 = tbl"
      "iParcom s2 = Parcom2 t1" "\<And>w. w \<noteq> chan_list ?l \<Longrightarrow> get_list w s2 = get_list w s"
    using i(2) by (simp_all add: s2_def get_set_list)
  have "\<exists>s3 r'. (if sd_size d1 = 0 then ReleaseMuxSdu which 0 s2 else Some s2) = Some s3 \<and> iParcom s3 = Parcom2 t1
     \<and> reassemble ls (frame_atoms route ?f) (k, h, e) = Some r' \<and> sender_at ls oh tbl r' s3"
  proof (cases "n = length rest")
    case True
    have "queue_at ?l (Suc (k i)) (iOutgoingChannels s2 ! i)" "i < length (iOutgoingChannels s2)" using one(3) c(4) s2(2) by simp_all
    then obtain s3 where s3: "ReleaseMuxSdu which 0 s2 = Some s3"
        "waiting_at ?l (Suc (k i)) [] i (iOutgoingChannels s3 ! i) (get_list (chan_list ?l) s3)"
        "length (iOutgoingChannels s3) = length ls" "iOutgoingDescriptors s3 = tbl" "iParcom s3 = Parcom2 t1"
        "\<forall>j. j \<noteq> i \<longrightarrow> iOutgoingChannels s3 ! j = iOutgoingChannels s ! j" "\<forall>w. w \<noteq> chan_list ?l \<longrightarrow> get_list w s3 = get_list w s"
      using packet_released [OF l s2(1) x(6)] s2 sender_atD(1) [OF at] i(2) by (metis (no_types, lifting))
    have "sender_at ls oh tbl (k(i := Suc (k i)), h(i := []), e') s3"
      using s3 by (intro sender_updated [OF assms(1) at i(1) _ _ _ x(4)]) simp_all
    then show ?thesis using s3(1,5) r x(5) True by simp
  next
    case False
    then have "partly_sent ?l (k i) (h i @ take n rest) i d1" using x(7) n(2) whole by (metis le_neq_implies_less)
    then have "sender_at ls oh tbl (k(i := k i), h(i := h i @ take n rest), e') s2"
      using s2 one(3) sender_atD(1) [OF at] by (intro sender_updated [OF assms(1) at i(1) _ _ _ x(4)]) simp_all
    then show ?thesis using s2(4) r x(5) False by simp
  qed
  then obtain s3 r' where s3: "(if sd_size d1 = 0 then ReleaseMuxSdu which 0 s2 else Some s2) = Some s3" "iParcom s3 = Parcom2 t1"
     "reassemble ls (frame_atoms route ?f) (k, h, e) = Some r'" "sender_at ls oh tbl r' s3" by blast
  have "xs \<noteq> []" using x(2) n(1) by auto
  then have "MuxLcnData True True which mx s = Some (Inr (word_of_int (int (length xs)), [xs], s3))"
    using single_round [OF one(1) _ _ _ s2_def s3(1)] D(1) x(1) c t by simp
  then show ?thesis using x(2,3) n(2) s3(2-4) frame
    by (intro exI [of _ "[?f]"] exI conjI) (assumption | simp)+
qed

end
