(* ===== verification/MuxDelivery.thy ===== *)
theory MuxDelivery
  imports MuxRound
begin

text \<open>
  The multiplexer, a line with errors, framing level 2 and the demultiplexer together: whatever the order in which the
  sender refills its lists and fills PDUs, the channels of the receiver get the packets that were sent, as SDUs.
\<close>

section \<open>Any sequence of calls\<close>

datatype mux_call = Refill | Fill sdu_list u16

fun mux_sends :: "mux_call list \<Rightarrow> mux_sender \<Rightarrow> (mux_fault + (u8 list list \<times> mux_sender)) option" where
  "mux_sends [] s = Some (Inr ([], s))"
| "mux_sends (Refill # cs) s = mux_sends cs (snd (UpdateSduDataLists s))"
| "mux_sends (Fill which mx # cs) s =
     Option.bind (MuxLcnData True True which mx s)
       (\<lambda>r. case r of
              Inl fault \<Rightarrow> Some (Inl fault)
            | Inr (used, ps, s1) \<Rightarrow> map_option (\<lambda>q. bind_res q (\<lambda>(ps', s2). Inr (ps @ ps', s2))) (mux_sends cs s1))"

fun mux_call_ok :: "link list \<Rightarrow> bool \<Rightarrow> mux_call \<Rightarrow> bool" where
  "mux_call_ok ls oh Refill = True"
| "mux_call_ok ls oh (Fill which mx) = call_ok ls oh which mx"

abbreviation packets_of_frames :: "bool \<Rightarrow> u8 list list \<Rightarrow> frame list \<Rightarrow> bool" where
  "packets_of_frames oh \<equiv> list_all2 (\<lambda>p f. length p = level2_header_size oh + length (fst f))"

lemma calls_made:
  assumes "links_ok ls" and "tables_agree ls own peer route" and "sender_at ls oh own r s"
    and "list_all (mux_call_ok ls oh) calls" and "iParcom s = Parcom2 t"
  shows "\<exists>ps s' fs t' r'. mux_sends calls s = Some (Inr (ps, s')) \<and> iParcom s' = Parcom2 t'
     \<and> send_frames fs t = Inr (concat ps, t') \<and> packets_of_frames oh ps fs \<and> list_all frame_ok fs \<and> list_all (frame_routed ls peer route) fs
     \<and> reassemble ls (concat (map (frame_atoms route) fs)) r = Some r' \<and> sender_at ls oh own r' s'"
  using assms(3-)
proof (induction calls arbitrary: r s t)
  case Nil
  then show ?case by (intro exI [of _ "[]"] exI [of _ s] exI [of _ t] exI [of _ r]) simp
next
  case (Cons c calls)
  show ?case
  proof (cases c)
    case Refill
    have "sender_at ls oh own r (snd (UpdateSduDataLists s))" "iParcom (snd (UpdateSduDataLists s)) = Parcom2 t"
      using lists_refilled [OF assms(1) Cons.prems(1)] Cons.prems(3) by simp_all
    then show ?thesis using Cons.IH Cons.prems(2) Refill by simp
  next
    case (Fill which mx)
    obtain k h e where r: "r = (k, h, e)" by (cases r)
    have ok: "call_ok ls oh which mx" using Cons.prems(2) Fill by simp
    obtain used ps s1 fs t1 r1 where a: "MuxLcnData True True which mx s = Some (Inr (used, ps, s1))" "iParcom s1 = Parcom2 t1"
        "send_frames fs t = Inr (concat ps, t1)" "packets_of_frames oh ps fs" "list_all frame_ok fs" "list_all (frame_routed ls peer route) fs"
        "reassemble ls (concat (map (frame_atoms route) fs)) r = Some r1" "sender_at ls oh own r1 s1"
      using call_made [OF assms(1,2) Cons.prems(1) [unfolded r] ok Cons.prems(3)] unfolding r by blast
    obtain ps' s2 fs' t2 r2 where b: "mux_sends calls s1 = Some (Inr (ps', s2))" "iParcom s2 = Parcom2 t2"
        "send_frames fs' t1 = Inr (concat ps', t2)" "packets_of_frames oh ps' fs'" "list_all frame_ok fs'" "list_all (frame_routed ls peer route) fs'"
        "reassemble ls (concat (map (frame_atoms route) fs')) r1 = Some r2" "sender_at ls oh own r2 s2"
      using Cons.IH [OF a(8) _ a(2)] Cons.prems(2) by auto
    have "mux_sends (c # calls) s = Some (Inr (ps @ ps', s2))" using a(1) b(1) Fill by simp
    moreover have "send_frames (fs @ fs') t = Inr (concat (ps @ ps'), t2)" using a(3) b(3) by (simp add: send_append)
    moreover have "packets_of_frames oh (ps @ ps') (fs @ fs')" using a(4) b(4) by (simp add: list_all2_appendI)
    moreover have "reassemble ls (concat (map (frame_atoms route) (fs @ fs'))) r = Some r2" using a(7) b(7) by (simp add: reassemble_append)
    moreover have "list_all frame_ok (fs @ fs')" "list_all (frame_routed ls peer route) (fs @ fs')" using a(5,6) b(5,6) by simp_all
    ultimately show ?thesis using b(2,8) by blast
  qed
qed

section \<open>What is indicated\<close>

fun gentle :: "bool \<Rightarrow> frame \<Rightarrow> u8 list \<Rightarrow> bool" where
  "gentle oh (P, num, pm) noise \<longleftrightarrow> noise_ok oh (P, num, pm) noise \<and> drop (level2_header_size oh) noise = replicate (length P) 0"

lemma xor_zeros: "xor_octets xs (replicate (length xs) 0) = xs"
  by (induction xs) simp_all

lemma gentle_received: "gentle oh (P, num, pm) n \<Longrightarrow> received_frame oh closing (P, num, pm) n = (P, closing, uint num)"
  by (simp add: xor_zeros)

lemma low_octet: "ucast (ucast (num :: u8) :: u32) = num"
  by (rule bit_word_eqI) (auto simp: bit_simps dest: bit_imp_le_length)

lemma pending_atoms:
  "shown_atoms route (pending_shown (P, closing, uint (num :: u8))) =
     (if closing then [Closing] else []) @ (if P \<noteq> [] then [Octets (route num) P] else [])"
  "list_all (shown_routed ls tbl route) (pending_shown (P, closing, uint (num :: u8))) \<longleftrightarrow> (P \<noteq> [] \<longrightarrow> routed ls tbl num (route num))"
  by (auto simp: low_octet uint_0_iff split: if_splits)

text \<open>Frames and two empty ones behind them, which show the last marker.\<close>

abbreviation with_stuffing :: "frame list \<Rightarrow> frame list" where
  "with_stuffing fs \<equiv> fs @ replicate 2 ([], 0, 0)"

lemma atoms_received:
  assumes "list_all2 (gentle oh) (with_stuffing fs) noises" and "list_all (frame_routed ls tbl route) fs"
  shows "shown_atoms route (concat (map pending_shown (butlast (received oh closing (with_stuffing fs) noises))))
       = (if closing then [Closing] else []) @ concat (map (frame_atoms route) fs)
     \<and> list_all (shown_routed ls tbl route) (concat (map pending_shown (butlast (received oh closing (with_stuffing fs) noises))))"
  using assms
proof (induction fs arbitrary: closing noises)
  case Nil
  then obtain n1 n2 where n: "noises = [n1, n2]" "gentle oh ([], 0, 0) n1" "gentle oh ([], 0, 0) n2"
    by (auto simp: list_all2_Cons1 numeral_2_eq_2)
  show ?case using gentle_received [OF n(2)] n(1)
    by (simp add: numeral_2_eq_2)
next
  case (Cons f fs)
  obtain P num pm where f: "f = (P, num, pm)" by (cases f)
  obtain n ns where n: "noises = n # ns" "gentle oh (P, num, pm) n" "list_all2 (gentle oh) (with_stuffing fs) ns"
    using Cons.prems(1) by (auto simp: list_all2_Cons1 f)
  have ne: "received oh (pm \<noteq> 0) (with_stuffing fs) ns \<noteq> []"
  proof -
    obtain g gs where g: "with_stuffing fs = g # gs" by (cases fs) (auto simp: numeral_2_eq_2)
    then obtain m ms where "ns = m # ms" using n(3) by (auto simp: list_all2_Cons1)
    then show ?thesis unfolding g by (cases g) simp
  qed
  have route: "P \<noteq> [] \<longrightarrow> routed ls tbl num (route num)" using Cons.prems(2) f by simp
  have "butlast (received oh closing (with_stuffing (f # fs)) noises)
      = (P, closing, uint num) # butlast (received oh (pm \<noteq> 0) (with_stuffing fs) ns)"
    using ne gentle_received [OF n(2)] by (simp add: f n(1) del: received_frame.simps)
  then show ?case using Cons.IH [OF n(3), of "pm \<noteq> 0"] Cons.prems(2) route
    by (simp add: pending_atoms f del: pending_shown.simps split del: if_split)
qed

text \<open>The receiver indicates memory that it has.\<close>

definition indicates_inside :: "level2_rx \<Rightarrow> bool" where
  "indicates_inside s \<longleftrightarrow> length (l2_iPdu s) = H223_MAX_DEMUX_PDU_SIZE \<and> iMpl s \<le> 254"

lemma indicate_inside:
  assumes "indicates_inside s" and "level2_IndicatePdu s = (t, evs)"
  shows "indicates_inside t \<and> list_all event_inside evs"
proof -
  have "unat (of_nat (iMpl s) :: u16) \<le> 254" using assms(1) by (simp add: indicates_inside_def unat_of_nat)
  then show ?thesis using assms by (auto simp: level2_IndicatePdu_def indicates_inside_def ResetPdu_def H223_MAX_DEMUX_PDU_SIZE_def)
qed

lemma inside_fields: "l2_iPdu u = l2_iPdu s \<Longrightarrow> iMpl u = iMpl s \<Longrightarrow> indicates_inside s \<Longrightarrow> indicates_inside u"
  by (simp add: indicates_inside_def)

lemma flag_inside:
  assumes "indicates_inside s" and "level2_flag_octets s = (t, evs)"
  shows "indicates_inside t \<and> list_all event_inside evs"
proof (cases "CheckFlag (iPduHdr s ! 0) (iPduHdr s ! 1) (iThreshold s)")
  case None
  define u where "u = s\<lparr>iClosingNextRx := 0, iThreshold := LEVEL2_THRESHOLD_SYNC,
     iNumSyncLossRx := (if iNumFlagsRx s \<noteq> 0 then iNumSyncLossRx s + 1 else iNumSyncLossRx s)\<rparr>"
  obtain v es where v: "level2_IndicatePdu u = (v, es)" by (cases "level2_IndicatePdu u")
  have "t = v\<lparr>iPduHdr := (iPduHdr v)[0 := iPduHdr v ! 1], iPduHdrPos := iPduHdrPos v - 1\<rparr>" "evs = es"
    using assms(2) None v by (auto simp: level2_flag_octets_def u_def Let_def cong: if_cong)
  then show ?thesis using indicate_inside [OF inside_fields [of u s] v] assms(1) inside_fields [of t v] by (simp add: u_def)
next
  case (Some c)
  define u where "u = s\<lparr>iClosingNextRx := c, iNumFlagsRx := iNumFlagsRx s + 1, iNumSyncLossRx := 0, iThreshold := LEVEL2_THRESHOLD_DATA\<rparr>"
  obtain v es where v: "level2_IndicatePdu u = (v, es)" by (cases "level2_IndicatePdu u")
  have "t = v" "evs = (if SYNC_LOSS_INDICATE_THRESHOLD < iNumSyncLossRx s then [MuxPduErrIndicate EHeaderErr] else []) @ es"
    using assms(2) Some v by (auto simp: level2_flag_octets_def u_def Let_def cong: if_cong)
  then show ?thesis using indicate_inside [OF inside_fields [of u s] v] assms(1) by (simp add: u_def)
qed

lemma header_inside:
  assumes "indicates_inside s" and "level2_header s = Inr t"
  shows "indicates_inside t"
proof -
  obtain mpl code n where p: "ParseHdr (iPduHdr s) = Inr (mpl, code, n)"
    using assms(2) by (auto simp: level2_header_def bind_res_Inr_iff)
  have "mpl \<le> 254" using p by (auto simp: ParseHdr_def Let_def split: option.splits if_splits)
  then show ?thesis using assms p by (auto simp: level2_header_def indicates_inside_def ResetPduHdr_def Let_def)
qed

lemma octet_inside:
  assumes "indicates_inside s" and "level2_hdr_octet x s = Inr (t, evs)"
  shows "indicates_inside t \<and> list_all event_inside evs"
proof -
  define u where "u = s\<lparr>iPduHdr := (iPduHdr s)[iPduHdrPos s := x], iPduHdrPos := iPduHdrPos s + 1\<rparr>"
  define q where "q = (if iPduHdrPos u = 2 then level2_flag_octets u else (u, []))"
  obtain v es where v: "q = (v, es)" by (cases q)
  have "indicates_inside u" using assms(1) inside_fields [of u s] by (simp add: u_def)
  then have "indicates_inside v \<and> list_all event_inside es"
    using v flag_inside [of u v es] by (auto simp: q_def split: if_splits)
  moreover have "(if iPduHdrPos v = level2_header_size (iOh v) then bind_res (level2_header v) (\<lambda>s3. Inr (s3, es)) else Inr (v, es)) = Inr (t, evs)"
    using assms(2) v unfolding level2_hdr_octet_def u_def [symmetric] Let_def q_def [symmetric] by (simp split: if_splits)
  ultimately show ?thesis using header_inside [of v t] by (auto simp: bind_res_Inr_iff split: if_splits)
qed

lemma parse_inside:
  assumes "indicates_inside s" and "level2_Parse bs s = Inr (t, evs)"
  shows "list_all event_inside evs"
  using assms
proof (induction bs s arbitrary: t evs rule: level2_Parse.induct)
  case (1 bs s)
  show ?case
  proof (cases bs)
    case Nil
    then show ?thesis using "1.prems"(2) by simp
  next
    case (Cons x xs)
    show ?thesis
    proof (cases "l2_iCurrentOp s")
      case ECopyHdr
      then have "level2_Parse bs s = bind_res (level2_hdr_octet x s)
          (\<lambda>(s1, evs). bind_res (level2_Parse xs s1) (\<lambda>(s2, evs'). Inr (s2, evs @ evs')))"
        by (subst level2_Parse.simps) (simp add: Cons)
      then obtain u es v es' where u: "level2_hdr_octet x s = Inr (u, es)" "level2_Parse xs u = Inr (v, es')" "evs = es @ es'"
        using "1.prems"(2) by (auto simp: bind_res_def split: sum.splits)
      then show ?thesis using "1.IH"(1) [OF Cons ECopyHdr, of u] octet_inside [OF "1.prems"(1) u(1)] by auto
    next
      case ECopyData
      define sz where "sz = (if iMplRemaining s < length bs then iMplRemaining s else length bs)"
      define u where "u = s\<lparr>l2_iPdu := take (l2_iPduPos s) (l2_iPdu s) @ take sz bs @ drop (l2_iPduPos s + sz) (l2_iPdu s),
                              l2_iPduPos := l2_iPduPos s + sz, iMplRemaining := iMplRemaining s - sz\<rparr>"
      define v where "v = (if iMplRemaining u = 0 then u\<lparr>l2_iCurrentOp := ECopyHdr\<rparr> else u)"
      have "level2_Parse bs s = (if length (l2_iPdu s) < l2_iPduPos s + sz then Inl BadIndex else level2_Parse (drop sz bs) v)"
        by (subst level2_Parse.simps) (simp only: Cons ECopyData list.case level2_op.case Let_def sz_def u_def v_def)
      then have fits: "\<not> length (l2_iPdu s) < l2_iPduPos s + sz" and p: "level2_Parse (drop sz bs) v = Inr (t, evs)"
        using "1.prems"(2) by (simp_all split: if_splits)
      have "length (l2_iPdu u) = length (l2_iPdu s)" using fits by (simp add: u_def sz_def)
      then have "indicates_inside v" using "1.prems"(1) by (simp add: indicates_inside_def v_def u_def)
      then show ?thesis using "1.IH"(2) [OF Cons ECopyData sz_def fits u_def v_def] p by blast
    qed
  qed
qed

section \<open>From end to end\<close>

text \<open>The sender before the first call: \<open>queues\<close> are the packets that wait in its channels.\<close>

definition start_sender :: "link list \<Rightarrow> out_sdu list list \<Rightarrow> outgoing_table \<Rightarrow> bool \<Rightarrow> mux_sender" where
  "start_sender ls queues own oh =
     \<lparr> iOutgoingChannels = map2 (\<lambda>l q. \<lparr> och_lcn = ucast (lk_lcn l), och_segmentable = lk_segmentable l, och_paused = False,
          och_buffering = False, och_packets = q \<rparr>) ls queues,
       iControlSduDataList = [], iNonSegmentableSduDataList = [], iSegmentableSduDataList = [],
       iOutgoingDescriptors = own, iParcom = Parcom2 (new_level2_tx oh) \<rparr>"

text \<open>The packets that the adaptation layer makes of the SDUs, in any fragments.\<close>

definition queues_carry :: "link list \<Rightarrow> out_sdu list list \<Rightarrow> bool" where
  "queues_carry ls queues \<longleftrightarrow>
     list_all2 (\<lambda>l q. map (concat \<circ> sdu_fragments) q = map (link_packet l) [0 ..< length (lk_sdus l)]
        \<and> (lk_lcn l = 0 \<longrightarrow> list_all (\<lambda>x. sdu_fsi x = None) q)) ls queues"

lemma start_sender_at:
  assumes "queues_carry ls queues"
  shows "sender_at ls oh own (\<lambda>i. 0, \<lambda>i. [], None) (start_sender ls queues own oh)"
proof -
  have none: "get_list w (start_sender ls queues own oh) = []" for w by (cases w) (simp_all add: start_sender_def)
  have "queue_at (ls ! i) 0 (iOutgoingChannels (start_sender ls queues own oh) ! i)" if "i < length ls" for i
    using assms that by (auto simp: queues_carry_def list_all2_conv_all_nth start_sender_def queue_at_def)
  moreover have "length ls = length queues" using assms by (simp add: queues_carry_def list_all2_lengthD)
  moreover have "tx_ready oh False (new_level2_tx oh)" by (simp add: tx_ready_def new_level2_tx_def)
  ultimately show ?thesis unfolding sender_at_def by (auto simp: none) (auto simp: start_sender_def)
qed

text \<open>What the line does to the header of packet \<open>j\<close>.\<close>

definition disturbed :: "(nat \<Rightarrow> u8 list) \<Rightarrow> u8 list list \<Rightarrow> u8 list" where
  "disturbed noise ps = concat (map (\<lambda>j. xor_octets (take (length (noise j)) (ps ! j)) (noise j) @ drop (length (noise j)) (ps ! j)) [0 ..< length ps])"

text \<open>SDUs of channel \<open>i\<close> whose packets have left the sender.\<close>

definition packets_sent :: "link list \<Rightarrow> mux_sender \<Rightarrow> nat \<Rightarrow> nat" where
  "packets_sent ls s i = length (lk_sdus (ls ! i)) - length (och_packets (iOutgoingChannels s ! i))
     - length (get_list (chan_list (ls ! i)) s)"

lemma sent_so_far:
  assumes "sender_at ls oh own r s" and "i < length ls"
  shows "packets_sent ls s i = fst r i" "fst r i \<le> length (lk_sdus (ls ! i))"
proof -
  obtain k h e where r: "r = (k, h, e)" by (cases r)
  have queue: "length (och_packets c) = length (lk_sdus l) - m \<and> m \<le> length (lk_sdus l)" if "queue_at l m c" for l m c
    using that unfolding queue_at_def by (metis length_map length_upt)
  have w: "waiting_at (ls ! i) (k i) (h i) i (iOutgoingChannels s ! i) (get_list (chan_list (ls ! i)) s)"
    using sender_atD(3) assms unfolding r by blast
  then show "packets_sent ls s i = fst r i" "fst r i \<le> length (lk_sdus (ls ! i))"
    by (cases "(ls ! i, k i, h i, i, iOutgoingChannels s ! i, get_list (chan_list (ls ! i)) s)" rule: waiting_at.cases;
        fastforce simp: r packets_sent_def partly_sent_def Let_def dest: queue)+
qed

lemma xor_concat:
  "list_all2 (\<lambda>p n. length p = length n) ps ns \<Longrightarrow> xor_octets (concat ps) (concat ns) = concat (map2 xor_octets ps ns)"
  by (induction rule: list_all2_induct) simp_all

lemma gentle_noise:
  assumes "noise_ok oh ([], 0, 0) n" and "m = length P"
  shows "gentle oh (P, num, pm) (n @ replicate m 0)"
proof -
  have "length n = level2_header_size oh" using assms(1) by simp
  then have "4 < length n" by (simp add: level2_header_size_def)
  then show ?thesis using assms by (simp add: flag_errors_def nth_append Let_def)
qed

lemma disturbed_line:
  assumes "packets_of_frames oh ps fs" and noise: "\<forall>j. noise_ok oh ([], 0, 0) (noise j)"
    and noises: "noises = map (\<lambda>j. noise j @ replicate (length (fst (fs ! j))) 0) [0 ..< length fs]"
  shows "list_all2 (gentle oh) fs noises" "xor_octets (concat ps) (concat noises) = disturbed noise ps"
    "length (concat ps) = length (concat noises)"
proof -
  have n: "length ps = length fs" using assms(1) by (rule list_all2_lengthD)
  have len: "length (noise j) = level2_header_size oh" for j using noise by (metis add_0_right list.size(3) noise_ok.simps)
  have p: "length (ps ! j) = level2_header_size oh + length (fst (fs ! j))" if "j < length fs" for j
    using assms(1) that by (simp add: list_all2_conv_all_nth)
  show "list_all2 (gentle oh) fs noises"
    unfolding noises list_all2_conv_all_nth
  proof (intro conjI allI impI)
    fix j
    assume j: "j < length fs"
    obtain P num pm where f: "fs ! j = (P, num, pm)" by (cases "fs ! j")
    have "gentle oh (P, num, pm) (noise j @ replicate (length P) 0)" by (rule gentle_noise) (use noise in blast, rule refl)
    then show "gentle oh (fs ! j) (map (\<lambda>j. noise j @ replicate (length (fst (fs ! j))) 0) [0 ..< length fs] ! j)"
      using j by (simp add: f del: gentle.simps)
  qed simp
  have same: "list_all2 (\<lambda>p n. length p = length n) ps noises"
    using n p len by (simp add: list_all2_conv_all_nth noises)
  then show "length (concat ps) = length (concat noises)"
    by (induction rule: list_all2_induct) simp_all
  have one: "xor_octets (ps ! j) (noise j @ replicate (length (fst (fs ! j))) 0) =
      xor_octets (take (length (noise j)) (ps ! j)) (noise j) @ drop (length (noise j)) (ps ! j)" if j: "j < length fs" for j
  proof -
    let ?h = "level2_header_size oh"
    have "xor_octets (take ?h (ps ! j) @ drop ?h (ps ! j)) (noise j @ replicate (length (fst (fs ! j))) 0) =
        xor_octets (take ?h (ps ! j)) (noise j) @ xor_octets (drop ?h (ps ! j)) (replicate (length (fst (fs ! j))) 0)"
      using p [OF j] len [of j] by (simp add: zip_append del: append_take_drop_id)
    also have "xor_octets (drop ?h (ps ! j)) (replicate (length (fst (fs ! j))) 0) = drop ?h (ps ! j)"
      using xor_zeros [of "drop ?h (ps ! j)"] p [OF j] by simp
    finally show ?thesis by (simp add: len)
  qed
  have "map2 xor_octets ps noises =
      map (\<lambda>j. xor_octets (take (length (noise j)) (ps ! j)) (noise j) @ drop (length (noise j)) (ps ! j)) [0 ..< length ps]"
    by (rule nth_equalityI) (use n one in \<open>simp_all add: noises\<close>)
  then show "xor_octets (concat ps) (concat noises) = disturbed noise ps" using xor_concat [OF same] by (simp add: disturbed_def)
qed

lemma no_noise: "noise_ok oh ([], 0, 0) (replicate (level2_header_size oh) 0)" "flag_errors (replicate (level2_header_size oh) 0) = 0"
proof -
  have e: "header_code 0 0 0 = 0" "squeeze 0 = 0" by (simp_all add: header_code_def squeeze_def)
  have "num_ones 0 = 0" by (simp add: num_ones_weight weight_ones ones_def)
  then show "noise_ok oh ([], 0, 0) (replicate (level2_header_size oh) 0)" "flag_errors (replicate (level2_header_size oh) 0) = 0"
    by (simp_all add: level2_header_size_def flag_errors_def one_error e)
qed

lemma frames_demuxed:
  assumes "links_ok ls" and "length memory = H223_MAX_DEMUX_PDU_SIZE" and noise: "\<forall>j. noise_ok oh ([], 0, 0) (noise j)" "flag_errors (noise 0) \<le> 1"
    and sent: "send_frames fs (new_level2_tx oh) = Inr (concat ps, t)" "packets_of_frames oh ps fs" "list_all frame_ok fs"
    and route: "list_all (frame_routed ls peer route) fs"
    and re: "reassemble ls (concat (map (frame_atoms route) fs)) (\<lambda>i. 0, \<lambda>i. [], None) = Some r'"
  shows "\<exists>ys t' rx evs d out. level2_GetStuffing 12 0 t = Inr (ys, t')
     \<and> level2_Parse (disturbed noise ps @ ys) (new_level2_rx oh 0 memory) = Inr (rx, evs)
     \<and> demux_run evs (start_demux ls accepts peer) = Inr (d, out) \<and> came_out ls (\<lambda>i. 0, \<lambda>i. [], None) r' out"
proof -
  let ?zero = "replicate (level2_header_size oh) 0 :: u8 list"
  note start = start_ready [OF assms(2), of oh]
  have ls: "list_all link_ok ls" "distinct (map lk_lcn ls)" using assms(1) by (simp_all add: links_ok_def)
  define noises where "noises = map (\<lambda>j. noise j @ replicate (length (fst (fs ! j))) 0) [0 ..< length fs]"
  note line = disturbed_line [OF sent(2) noise(1) noises_def]
  have gentle: "list_all2 (gentle oh) (with_stuffing fs) (noises @ replicate 2 ?zero)"
    using line(1) gentle_noise [OF no_noise(1), where m = 0 and P = "[]" and num = 0 and pm = 0] by (simp add: list_all2_appendI numeral_2_eq_2)
  then have noisy: "list_all2 (noise_ok oh) (with_stuffing fs) (noises @ replicate 2 ?zero)"
    by (rule list_all2_mono) (auto elim: gentle.elims)
  have ok: "list_all frame_ok (with_stuffing fs)" proof -
    have "list_all frame_ok (replicate 2 ([], 0, 0))" by (simp add: list_all_length)
    then show ?thesis using sent(3) by simp
  qed
  have first: "flag_errors (hd (noises @ replicate 2 ?zero)) + iThreshold (new_level2_rx oh 0 memory) \<le> 16"
  proof (cases fs)
    case Nil
    then show ?thesis using no_noise(2) start(2) by (simp add: noises_def numeral_2_eq_2)
  next
    case (Cons f fs')
    have "length (noise 0) = level2_header_size oh" using noise(1) by (metis add_0_right list.size(3) noise_ok.simps)
    then have "flag_errors (noise 0 @ xs) = flag_errors (noise 0)" for xs
      by (simp add: flag_errors_def nth_append level2_header_size_def)
    then show ?thesis using noise(2) start(2) Cons by (simp add: noises_def upt_conv_Cons del: upt_Suc)
  qed
  obtain xs u rx evs where a: "send_frames (with_stuffing fs) (new_level2_tx oh) = Inr (xs, u)"
      "length xs = length (concat (noises @ replicate 2 ?zero))"
      "reads (new_level2_rx oh 0 memory) (xor_octets xs (concat (noises @ replicate 2 ?zero))) rx evs"
      "map shown evs = concat (map pending_shown (butlast (([], False, -1) # received oh False (with_stuffing fs) (noises @ replicate 2 ?zero))))"
    using frames_arrive [OF start(3,1) ok noisy] start(2) first by auto
  have "list_all frame_ok fs" by (rule sent(3))
  then obtain closing where t: "tx_ready oh closing t" using frames_sent [OF start(3)] sent(1) by fastforce
  have two: "nat 12 div level2_header_size oh = 2" by (simp add: level2_header_size_def)
  have stuff: "level2_GetStuffing 12 0 t = send_frames (replicate 2 ([], 0, 0)) t"
    using stuffing_frames [OF t, of 0 12] unfolding two by (simp add: level2_GetStuffing_def)
  then obtain ys where ys: "level2_GetStuffing 12 0 t = Inr (ys, u)" "xs = concat ps @ ys"
    using a(1) sent(1) by (auto simp: send_append bind_res_Inr_iff)
  have len: "length ys = length (concat (replicate 2 ?zero))" using a(2) ys(2) line(3) by simp
  have "xor_octets xs (concat (noises @ replicate 2 ?zero)) = disturbed noise ps @ xor_octets ys (concat (replicate 2 ?zero))"
    using line(2,3) by (simp add: ys(2))
  also have "concat (replicate 2 ?zero) = replicate (length ys) 0" using len by (simp add: numeral_2_eq_2 replicate_add)
  finally have parsed: "level2_Parse (disturbed noise ps @ ys) (new_level2_rx oh 0 memory) = Inr (rx, evs)"
    using reads_all [OF a(3)] by (simp add: xor_zeros)
  have "indicates_inside (new_level2_rx oh 0 memory)" using assms(2) by (simp add: indicates_inside_def new_level2_rx_def)
  then have inside: "list_all event_inside evs" using parse_inside parsed by blast
  have shown: "map shown evs = concat (map pending_shown (butlast (received oh False (with_stuffing fs) (noises @ replicate 2 ?zero))))"
    unfolding a(4) by simp
  have "iMuxDescriptorR (start_demux ls accepts peer) = peer" by (simp add: start_demux_def)
  then obtain d out where "demux_run evs (start_demux ls accepts peer) = Inr (d, out)" "came_out ls (\<lambda>i. 0, \<lambda>i. [], None) r' out"
    using indications_demuxed [OF ls start_demux_at [OF ls(1)] inside, of accepts peer route r'] re
      atoms_received [OF gentle route, of False] unfolding shown by auto
  then show ?thesis using ys(1) parsed by blast
qed

section \<open>Properties\<close>

text \<open>C6. The two multiplexers of a call, on level 2. Each of the three lists of the sender serves one channel,
  the first of which is the control channel, and the tables of both sides give each channel an entry of one element,
  until the closing flag; the SDUs have 1 to 4000 octets, and the memory pools of the receiver always answer. Then in
  whatever order the sender refills its lists and fills PDUs, each of a size between one octet and 254 octets behind
  its header, where a packet of a channel that is not segmentable fits into each PDU of its list, and although on the
  line up to three bits of the flag (one of the first flag) and up to three check bits of the header of every PDU are
  wrong, each channel of the receiver gets exactly the SDUs whose packets have left the sender, in their order, whole
  and without an error mark; the two stuffing headers at the end carry the last closing flag. The payloads and the
  stuffing arrive undisturbed.\<close>

theorem packets_delivered:
  assumes "links_ok ls" and "tables_agree ls own peer route" and "queues_carry ls queues"
    and "list_all (mux_call_ok ls oh) calls" and "length memory = H223_MAX_DEMUX_PDU_SIZE"
    and "\<forall>j. noise_ok oh ([], 0, 0) (noise j)" and "flag_errors (noise 0) \<le> 1"
  shows "\<exists>ps s t ys t' rx evs d out. mux_sends calls (start_sender ls queues own oh) = Some (Inr (ps, s)) \<and> iParcom s = Parcom2 t
     \<and> level2_GetStuffing 12 0 t = Inr (ys, t')
     \<and> level2_Parse (disturbed noise ps @ ys) (new_level2_rx oh 0 memory) = Inr (rx, evs)
     \<and> demux_run evs (start_demux ls accepts peer) = Inr (d, out)
     \<and> (\<forall>i < length ls. sdus_shown (ucast (lk_lcn (ls ! i))) out =
          map (\<lambda>x. (x, False, False)) (take (packets_sent ls s i) (lk_sdus (ls ! i))))"
proof -
  let ?r = "(\<lambda>i. 0, \<lambda>i. [], None) :: reassembly" and ?s = "start_sender ls queues own oh"
  have p: "iParcom ?s = Parcom2 (new_level2_tx oh)" by (simp add: start_sender_def)
  obtain ps s fs t r where a: "mux_sends calls ?s = Some (Inr (ps, s))" "iParcom s = Parcom2 t"
      "send_frames fs (new_level2_tx oh) = Inr (concat ps, t)" "packets_of_frames oh ps fs" "list_all frame_ok fs"
      "list_all (frame_routed ls peer route) fs" "reassemble ls (concat (map (frame_atoms route) fs)) ?r = Some r" "sender_at ls oh own r s"
    using calls_made [OF assms(1,2) start_sender_at [OF assms(3)] assms(4) p] by blast
  obtain ys t' rx evs d out where b: "level2_GetStuffing 12 0 t = Inr (ys, t')"
      "level2_Parse (disturbed noise ps @ ys) (new_level2_rx oh 0 memory) = Inr (rx, evs)"
      "demux_run evs (start_demux ls accepts peer) = Inr (d, out)" "came_out ls ?r r out"
    using frames_demuxed [OF assms(1,5-7) a(3-7)] by blast
  have "sdus_shown (ucast (lk_lcn (ls ! i))) out = map (\<lambda>x. (x, False, False)) (take (packets_sent ls s i) (lk_sdus (ls ! i)))"
    if "i < length ls" for i
    using b(4) that sent_so_far [OF a(8) that]
    by (auto simp: came_out_def intro!: nth_equalityI)
  then show ?thesis using a(1,2) b(1-3) by blast
qed

theorem packets_delivered_witness:
  "\<exists>ps s t ys t' rx evs d out.
       mux_sends [Refill, Fill ControlList 8, Fill NonSegmentableList 20, Fill ControlList 20]
         (start_sender [\<lparr> lk_lcn = 0, lk_segmentable = True, lk_kind = Kind1, lk_sdus = [[1, 2, 3, 4]] \<rparr>,
             \<lparr> lk_lcn = 1, lk_segmentable = False, lk_kind = Kind1, lk_sdus = [[7, 8]] \<rparr>]
           [[\<lparr> sdu_fragments = [[1, 2], [3, 4]], sdu_fsi = None \<rparr>], [\<lparr> sdu_fragments = [[7, 8]], sdu_fsi = None \<rparr>]]
           (map (\<lambda>n. \<lparr> iDescriptor = \<lparr> multiplexTableEntryNumber = ucast n, option_of_elementList = True,
              elementList = [LogicalChannel n UntilClosingFlag] \<rparr>, iMaxPduSize = 128,
              iLcns = [(ucast n, element_slot n UntilClosingFlag)] \<rparr>) [0, 1]) False) = Some (Inr (ps, s))
     \<and> iParcom s = Parcom2 t \<and> level2_GetStuffing 12 0 t = Inr (ys, t')
     \<and> level2_Parse (disturbed (\<lambda>j. [1, 0, 0, 0, 0]) ps @ ys) (new_level2_rx False 0 (replicate 1024 0)) = Inr (rx, evs)
     \<and> demux_run evs (start_demux [\<lparr> lk_lcn = 0, lk_segmentable = True, lk_kind = Kind1, lk_sdus = [[1, 2, 3, 4]] \<rparr>,
             \<lparr> lk_lcn = 1, lk_segmentable = False, lk_kind = Kind1, lk_sdus = [[7, 8]] \<rparr>] (\<lambda>p. True)
           (new_incoming_table[1 := Some \<lparr> multiplexTableEntryNumber = 1, option_of_elementList = True,
              elementList = [LogicalChannel 1 UntilClosingFlag] \<rparr>])) = Inr (d, out)
     \<and> sdus_shown 1 out = map (\<lambda>x. (x, False, False)) (take (packets_sent
          [\<lparr> lk_lcn = 0, lk_segmentable = True, lk_kind = Kind1, lk_sdus = [[1, 2, 3, 4]] \<rparr>,
           \<lparr> lk_lcn = 1, lk_segmentable = False, lk_kind = Kind1, lk_sdus = [[7, 8]] \<rparr>] s 1) [[7, 8]])"
proof -
  let ?ls = "[\<lparr> lk_lcn = 0, lk_segmentable = True, lk_kind = Kind1, lk_sdus = [[1, 2, 3, 4]] \<rparr>,
             \<lparr> lk_lcn = 1, lk_segmentable = False, lk_kind = Kind1, lk_sdus = [[7, 8]] \<rparr>]"
  let ?queues = "[[\<lparr> sdu_fragments = [[1, 2], [3, 4]], sdu_fsi = None \<rparr>], [\<lparr> sdu_fragments = [[7, 8]], sdu_fsi = None \<rparr>]]"
  let ?own = "map (\<lambda>n. \<lparr> iDescriptor = \<lparr> multiplexTableEntryNumber = ucast n, option_of_elementList = True,
              elementList = [LogicalChannel n UntilClosingFlag] \<rparr>, iMaxPduSize = 128,
              iLcns = [(ucast n, element_slot n UntilClosingFlag)] \<rparr>) [0, 1]"
  let ?peer = "new_incoming_table[1 := Some \<lparr> multiplexTableEntryNumber = 1, option_of_elementList = True,
              elementList = [LogicalChannel 1 UntilClosingFlag] \<rparr>]"
  let ?calls = "[Refill, Fill ControlList 8, Fill NonSegmentableList 20, Fill ControlList 20]"
  have two: "(\<forall>i < length ?ls. P i) \<longleftrightarrow> P 0 \<and> P 1" for P by (auto simp: less_Suc_eq numeral_2_eq_2)
  have "links_ok ?ls" unfolding links_ok_def two by (simp add: link_ok_def chan_list_def sdu_data_list_def)
  moreover have "tables_agree ?ls ?own ?peer unat"
    unfolding tables_agree_def two
    by (simp add: GetOutgoingDescriptor_lcn_def FindLcn_def is_fit_def element_slot_def set_number_def routed_def
        GetIncomingDescriptor_def new_incoming_table_def MAX_MUX_ENTRIES_def GetControlDescriptor_def)
  moreover have "queues_carry ?ls ?queues" by (simp add: queues_carry_def link_packet_def)
  moreover have "list_all (mux_call_ok ?ls False) ?calls"
    by (simp add: call_ok_def level2_header_size_def chan_list_def sdu_data_list_def link_packet_def)
  moreover have "length (replicate 1024 0 :: u8 list) = H223_MAX_DEMUX_PDU_SIZE" by (simp add: H223_MAX_DEMUX_PDU_SIZE_def)
  moreover have "\<forall>j. noise_ok False ([], 0, 0) ((\<lambda>j. [1, 0, 0, 0, 0]) (j :: nat))"
  proof -
    have e: "header_code 0 0 0 = 0" "squeeze 0 = 0" by (simp_all add: header_code_def squeeze_def)
    have "num_ones 0 = 0" by (simp add: num_ones_weight weight_ones ones_def)
    then show ?thesis by (simp add: level2_header_size_def flag_errors_def one_error e)
  qed
  moreover have "flag_errors ((\<lambda>j. [1, 0, 0, 0, 0]) (0 :: nat)) \<le> 1" by (simp add: flag_errors_def one_error)
  ultimately show ?thesis
    using packets_delivered [of ?ls ?own ?peer unat ?queues False ?calls "replicate 1024 0" "\<lambda>j. [1, 0, 0, 0, 0]" "\<lambda>p. True"]
    unfolding two by fastforce
qed

end
