(* ===== verification/Spec2Isabelle.thy ===== *)
theory Spec2Isabelle
  imports TimerLiveness MsdProps CeProps ChannelProps PerProps H223Level0Props H223Level1Props H223Level2Props AdaptationProps
    MuxDelivery
begin

text \<open>
  The H.245 signalling entity of the 3G-324M terminal.

  \<^bold>\<open>The program.\<close> The repository is a multimedia framework. Its two-way video telephony engine
  controls a call with the protocol H.245, and the part that runs this protocol is the signalling
  entity, class \<^verbatim>\<open>SE\<close> of \<^verbatim>\<open>protocols/systems/3g-324m_pvterminal/h245/se\<close>. It stands between the
  H.245 object above it (primitives, \<^verbatim>\<open>InformationRecv\<close>) and the message codec below it (messages,
  \<^verbatim>\<open>MessageRecv\<close>), and it owns ten procedures: master slave determination (\<^verbatim>\<open>msd.h\<close>), capability
  exchange (\<^verbatim>\<open>ce.h\<close>), unidirectional and bidirectional logical channels (\<^verbatim>\<open>lc.cpp\<close>, \<^verbatim>\<open>blc.cpp\<close>,
  \<^verbatim>\<open>lcblccmn.cpp\<close>), channel close requests (\<^verbatim>\<open>clc.cpp\<close>), multiplex table (\<^verbatim>\<open>mt.cpp\<close>), multiplex
  entry requests (\<^verbatim>\<open>rme.cpp\<close>), request mode (\<^verbatim>\<open>mr.cpp\<close>), round trip delay (\<^verbatim>\<open>rtd.cpp\<close>), maintenance
  loop (\<^verbatim>\<open>ml.cpp\<close>), and a group without state (\<^verbatim>\<open>annex.cpp\<close>). Every procedure that waits for an
  answer does so under a timer of the service \<^verbatim>\<open>OsclTimer\<close> (\<^verbatim>\<open>oscl_timer.h\<close>), whose ticks call the
  entity back. An event is found by a table look up (\<^verbatim>\<open>EventNoDecision\<close>) and one function,
  \<^verbatim>\<open>Dispatch\<close>, hands it to the handler that the class of the event and the state of the procedure
  select.

  \<^bold>\<open>How the model is cut.\<close> A class is a \<open>record\<close>, its status a \<open>datatype\<close>, each member function a
  definition of the same name (with the prefix of its class where two classes share a name, as in
  \<open>mr_0704_0010\<close>). A handler takes the record of its procedure and returns the new record and the
  list of calls that it makes to the outside, in order (datatype \<open>effect\<close>: a message to the peer, a
  primitive to the H.245 object, start or stop of a timer, a call of an observer). \<open>SE\<close> performs
  these calls on its own state (\<open>perform\<close>): a timer call changes \<open>MyTimer\<close>, a message or a primitive
  is appended to the output if the receiver is attached. Calls out of the entity end in the terminal
  (\<^verbatim>\<open>h324/tsc\<close>), which may call back before it returns. The handlers of MSD and CE call their
  observers last, so between ticks such a call is the next input; inside a tick, where the timer queues
  what is requested, the calls of MSD and CE that the terminal makes are an argument of the tick
  (\<open>answers\<close>). A read through a pointer that the caller
  may have set to null, or past the end of an array, is the left value of a sum (type \<open>res\<close>).
  Integers are words of the width of the code, and wrap.

  \<^bold>\<open>Theories.\<close>
  \<^item> \<open>Prelude\<close>: word types, results, list search.
  \<^item> \<open>Oscl_Timer\<close>: the timer service, with the locale \<open>timer_host\<close> of an object whose callbacks
    change the timer that calls them; what one tick does, and what any number of ticks do.
  \<^item> \<open>SeTypes\<close>: messages, primitives, effects. \<open>SeEvents\<close>: events and tables.
  \<^item> \<open>TimedProcedure\<close>: the contract of a procedure with one timer (locale \<open>timed_procedure\<close>), and
    its extension for procedures that number their timers (\<open>guarded_procedure\<close>).
  \<^item> \<open>Msd\<close>, \<open>Ce\<close>, \<open>LcEntry\<close>, \<open>LcBlcCmn\<close>, \<open>Lc\<close>, \<open>Blc\<close>, \<open>Clc\<close>, \<open>Mt\<close>, \<open>Rme\<close>, \<open>Mr\<close>, \<open>Rtd\<close>, \<open>Ml\<close>, \<open>Annex\<close>: one
    theory per class. \<open>MsdProtocol\<close>: two terminals and a network that may reorder and repeat.
  \<^item> \<open>SeState\<close>, \<open>LcDispatch\<close>, \<open>SeDispatch\<close>, \<open>Se\<close>: state, dispatch and entry points of \<open>SE\<close>, and the
    machine \<open>se_step\<close> whose inputs are what the environment does: messages, primitives, calls of MSD and
    CE, observers set, ticks with the answers of the terminal, resets; with the reachable states
    \<open>se_reachable\<close>.
  \<^item> \<open>Procedures\<close>: the interpretations of the contract for the procedures behind the dispatcher.
    \<open>SeTimers\<close>: the entity as a host of its two timers. \<open>SeInvariant\<close>: the invariant of reachable
    states. \<open>ProcedureTimers\<close>, \<open>ProcedureTicks\<close>, \<open>TimerInvariant\<close>: the timers of all procedures at
    once, through messages, ticks (with the answers of the terminal) and resets. \<open>TimerLiveness\<close>: ticks
    return and end the waits of the procedures with one timer.
  \<^item> \<open>MsdProps\<close>, \<open>CeProps\<close>: two terminals and a network that loses, repeats and reorders messages: who
    becomes master, how many attempts are made, what a confirmed capability set means.
  \<^item> \<open>ChannelSpec\<close>: the specification of an outgoing channel that the handlers of \<^verbatim>\<open>lc.cpp\<close> and
    \<^verbatim>\<open>blc.cpp\<close> implement. \<open>ChannelProps\<close>: channels as the dispatcher finds them, by number and by timer.

  \<^item> \<open>PerStream\<close>, \<open>PerInteger\<close>, \<open>PerExtension\<close>: the routines of the message codec (\<^verbatim>\<open>genericper.cpp\<close>) on bits
    and octets, integers and choices, open types and extension maps. Each stream stands for a list of
    bits; the locale \<open>codec\<close> is the contract of a routine that writes and one that reads, and the
    combinators of readers and writers preserve it. \<open>PerMessages\<close>: the messages of \<^verbatim>\<open>h245_encoder.cpp\<close> and
    \<^verbatim>\<open>h245_decoder.cpp\<close> whose fields the procedures use. \<open>PerProtocol\<close>: the entry points of \<^verbatim>\<open>per.cpp\<close>.
    \<open>PerWire\<close>: 27 kinds of messages as rows of class, number and encoding, and what encoder, decoder and the
    loop over a buffer do with the rows. \<open>PerProps\<close>: the guarantees of the codec, the places where it
    does not keep to its own format, and the codec joined to \<^verbatim>\<open>SE::MessageRecv\<close>.

  \<^item> \<open>H223Base\<close>, \<open>H223Level0\<close>: framing level 0 of the multiplexer below the codec (\<^verbatim>\<open>h223/src/level0.cpp\<close>), a
    line of bits with HDLC flags and inserted zeros. \<open>H223Stuffing\<close>: the zeros on lists of bits, against the
    definition of the standard. \<open>H223Level0Tx\<close>, \<open>H223Level0Rx\<close>, \<open>H223Level0Flags\<close>: the registers of sender and
    receiver as lists of bits. \<open>H223Level0Props\<close>: what is sent is indicated, and what damaged frames do.
  \<^item> \<open>H223Level1\<close>, \<open>H223Level1Props\<close>: level 1 (\<^verbatim>\<open>h223/src/level1.cpp\<close>), octets between flags and nothing inserted:
    what is sent is indicated, and whatever arrives, the receiver stays inside its buffer.
  \<^item> \<open>H223GolayTables\<close>, \<open>H223Golay\<close>: the two tables of level 2 and its decoder (\<^verbatim>\<open>level2.cpp\<close>, \<^verbatim>\<open>level2.h\<close>). Every
    row of both tables is checked against the generator polynomial; a count shows that the rows are all the
    patterns of up to three errors. \<open>H223Level2\<close>, \<open>H223Level2Props\<close>: level 2 itself, its sender and receiver with
    flags and headers that may be disturbed.
  \<^item> \<open>CrcCheck\<close>: the check sums of \<^verbatim>\<open>crccheck.cpp\<close>, against a shift register fed bit by bit, which keeps the
    trace of any burst as long as itself. \<open>AdaptationLayer\<close>, \<open>AdaptationProps\<close>: the adaptation layers between the
    multiplexer and a logical channel (\<^verbatim>\<open>adaptationlayer.cpp\<close>): streams of packets in up to 32 fragments, with
    losses and with errors.
  \<^item> \<open>MuxTable\<close>: the multiplex table (\<^verbatim>\<open>muxtbl.cpp\<close>, \<^verbatim>\<open>h223types.cpp\<close>), which says to which channels the octets
    of a PDU belong. \<open>IncomingChannel\<close>: a channel that collects octets into packets (\<^verbatim>\<open>logicalchannel.cpp\<close>).
    \<open>Demux\<close>: the receiving half of \<^verbatim>\<open>CPVH223Multiplex\<close> (\<^verbatim>\<open>cpvh223multiplex.cpp\<close>), which takes the indications of a
    framing level. \<open>PacketLink\<close>: the channel and its adaptation layer as the list of octets it holds.
    \<open>DemuxDelivery\<close>: the specification of the demultiplexer, a reassembly of packets per channel, and its refinement.
    \<open>DemuxProps\<close>: sub element lists, and the closing of channels.
  \<^item> \<open>MuxSender\<close>, \<open>MuxProps\<close>: the sending half, its lists of packets that wait and the cutting of packets into PDUs.
    \<open>MuxRound\<close>: a call of it as a step of the same reassembly. \<open>MuxDelivery\<close>: sender, disturbed line of level 2 and
    demultiplexer joined, for any sequence of calls.

  \<^bold>\<open>Bounds.\<close> No fuel is used: the loop of a tick and the loop of a \<open>MultiplexEntrySend\<close> have measures; the
  loops that may run forever are \<open>while_option\<close> and \<open>partial_function\<close> (two in the codec, and the removal of waiting
  packets in \<open>MuxSender\<close>), and the theorems say when they end. Loops over a vector that is changed meanwhile count their
  rounds, with the length at the start as the bound: it only gets shorter.
  A tick is one step of the model; the clock that RTD reads is an input of its own.

  \<^bold>\<open>Not modelled.\<close> The codec of the messages that the entity does not look into (capability sets,
  OpenLogicalChannel, mode and multiplex descriptions, commands and indications are arguments of the
  entry points), so what the theorems say of whole messages holds for the 27 kinds with a row in
  \<open>PerWire\<close>. The H.245 object and the terminal above; primitives that the terminal sends back from inside
  a tick, and what it calls from the middle of a handler of another procedure than MSD and CE. The freeing
  of parameter blocks, the logger. Of the multiplexer: the timers and the level detection of \<^verbatim>\<open>lowerlayer.cpp\<close>, the division of an interval
  among the lists of packets (\<^verbatim>\<open>GetOutgoingMuxPdus\<close>), what the channels do with media types and time stamps; memory
  pools are arguments that may refuse any request, and their sizes are not represented. The random numbers of MSD are an argument (a function
  from the index of the draw to the number drawn). Blocks that the entity passes on without
  looking into them are opaque values.
\<close>

section \<open>The dispatcher\<close>

text \<open>C13. In every state that the entity can reach, the maintenance loop procedure is on its
  outgoing side, so a MaintenanceLoopRequest of the peer is dropped: the state does not change and
  nothing is sent.\<close>

theorem maintenance_loop_request_ignored:
  assumes "se_reachable s"
  shows "MessageRecv H245_MSG_REQ MSGTYP_ML_REQ (Some (P_MaintenanceLoopRequest t)) enc s = Inr s"
proof -
  have "ml_outgoing (MyML s)"
    using reachable_ok [OF assms] by (simp add: se_ok_def)
  then show ?thesis
    by (auto simp: MessageRecv_def TablePointerGetLowerLayer_def EventNoTblForReqMsg_def ml_event_def
        ml_outgoing_def run_res_def put_defs break_def)
qed

lemma maintenance_loop_request_ignored_witness:
  "MessageRecv H245_MSG_REQ MSGTYP_ML_REQ
     (Some (P_MaintenanceLoopRequest \<lparr> mlt_index = 1, mlt_channel = 7 \<rparr>)) None
     (SetH245 True (SetPer True (new_SE (\<lambda>_. 5) 1000)))
   = Inr (SetH245 True (SetPer True (new_SE (\<lambda>_. 5) 1000)))"
  by (rule maintenance_loop_request_ignored [OF se_start])

definition annex_event :: "event \<Rightarrow> bool" where
  "annex_event ev = (case ev of EVENT_NSD _ \<Rightarrow> True | EVENT_CM _ \<Rightarrow> True | EVENT_CNF _ \<Rightarrow> True
     | EVENT_CMD _ \<Rightarrow> True | EVENT_IDC _ \<Rightarrow> True | _ \<Rightarrow> False)"

lemma annex_message_rows:
  "map fst (filter (annex_event \<circ> fst)
     (EventNoTblForReqMsg @ EventNoTblForRpsMsg @ EventNoTblForCmdMsg @ EventNoTblForIdcMsg)) =
     [ EVENT_NSD EVENT_MSG_NSD_REQ, EVENT_CM EVENT_MSG_CM_REQ, EVENT_CNF EVENT_MSG_CNF_REQ,
       EVENT_NSD EVENT_MSG_NSD_RPS, EVENT_CM EVENT_MSG_CM_RPS, EVENT_CNF EVENT_MSG_CNF_RPS,
       EVENT_NSD EVENT_MSG_NSD_CMD, EVENT_CMD EVENT_MSG_CMD_STCS, EVENT_CMD EVENT_MSG_CMD_ECRPT,
       EVENT_CMD EVENT_MSG_CMD_FC, EVENT_CMD EVENT_MSG_CMD_ES, EVENT_CMD EVENT_MSG_CMD_MSCL,
       EVENT_CM EVENT_MSG_CM_CMD, EVENT_CMD EVENT_MSG_CMD_CNF, EVENT_CMD EVENT_MSG_CMD_HMR,
       EVENT_NSD EVENT_MSG_NSD_IDC, EVENT_IDC EVENT_MSG_IDC_FNU, EVENT_IDC EVENT_MSG_IDC_MSCL,
       EVENT_IDC EVENT_MSG_IDC_JTR, EVENT_IDC EVENT_MSG_IDC_H223SKW,
       EVENT_IDC EVENT_MSG_IDC_NWATMVC, EVENT_IDC EVENT_MSG_IDC_UI,
       EVENT_IDC EVENT_MSG_IDC_H2250MXSKW, EVENT_IDC EVENT_MSG_IDC_MCLCT,
       EVENT_IDC EVENT_MSG_IDC_CNF, EVENT_IDC EVENT_MSG_IDC_VI, EVENT_IDC EVENT_MSG_IDC_FNS,
       EVENT_IDC EVENT_MSG_IDC_FC ]"
  by (simp add: event_tables annex_event_def)

lemma annex_primitive_rows:
  "map fst (filter (annex_event \<circ> fst) EventNoTblForPri) =
     [ EVENT_NSD EVENT_PTV_NSD_REQ, EVENT_NSD EVENT_PTV_NSD_RPS, EVENT_NSD EVENT_PTV_NSD_CMD,
       EVENT_NSD EVENT_PTV_NSD_IDC, EVENT_CM EVENT_PTV_CM_REQ, EVENT_CM EVENT_PTV_CM_RPS,
       EVENT_CM EVENT_PTV_CM_CMD, EVENT_CNF EVENT_PTV_CNF_REQ, EVENT_CNF EVENT_PTV_CNF_RPS,
       EVENT_CMD EVENT_PTV_CMD_STCS, EVENT_CMD EVENT_PTV_CMD_ECRPT, EVENT_CMD EVENT_PTV_CMD_FC,
       EVENT_CMD EVENT_PTV_CMD_ES, EVENT_CMD EVENT_PTV_CMD_MSCL, EVENT_CMD EVENT_PTV_CMD_CNF,
       EVENT_CMD EVENT_PTV_CMD_HMR, EVENT_IDC EVENT_PTV_IDC_FNU, EVENT_IDC EVENT_PTV_IDC_MSCL,
       EVENT_IDC EVENT_PTV_IDC_JTR, EVENT_IDC EVENT_PTV_IDC_H223SKW,
       EVENT_IDC EVENT_PTV_IDC_NWATMVC, EVENT_IDC EVENT_PTV_IDC_UI, EVENT_IDC EVENT_PTV_IDC_CNF,
       EVENT_IDC EVENT_PTV_IDC_H2250MXSKW, EVENT_IDC EVENT_PTV_IDC_MCLCT,
       EVENT_IDC EVENT_PTV_IDC_VI, EVENT_IDC EVENT_PTV_IDC_FNS ]"
  by (simp add: event_tables annex_event_def)

lemma row_in_filter: "(ev, n) \<in> set tbl \<Longrightarrow> P ev \<Longrightarrow> ev \<in> set (map fst (filter (P \<circ> fst) tbl))"
  by force

text \<open>Every message of the peer that belongs to a procedure without state is handed to the H.245
  object as one primitive with the block of the message, unchanged; the FlowControlIndication is
  the only exception.\<close>

theorem annex_message_forwarded:
  assumes "(ev, n) \<in> set (EventNoTblForReqMsg @ EventNoTblForRpsMsg @ EventNoTblForCmdMsg @ EventNoTblForIdcMsg)"
    and "annex_event ev" and "ev \<noteq> EVENT_IDC EVENT_MSG_IDC_FC"
  shows "\<exists>h. Dispatch ev p sup1 sup2 enc s = Inr (performs [PrimitiveSend h] s)
           \<and> InfType h = H245_PRIMITIVE \<and> pParameter h = p"
  using row_in_filter [where P = annex_event, OF assms(1,2)] assms(3) unfolding annex_message_rows
  by (simp only: list.set insert_iff empty_iff, elim disjE)
     (simp_all add: annex_handlers annex_PtvSend_def del: performs_simps,
      (rule exI, rule conjI, rule refl, simp)+)

lemma annex_message_forwarded_witness:
  "\<exists>h. Dispatch (EVENT_CMD EVENT_MSG_CMD_ES) None 0 0 None (new_SE (\<lambda>_. 1) 1)
       = Inr (performs [PrimitiveSend h] (new_SE (\<lambda>_. 1) 1))
     \<and> InfType h = H245_PRIMITIVE \<and> pParameter h = None"
  by (rule annex_message_forwarded [where n = "ucast MSGTYP_CMD_ES"])
     (simp_all add: event_tables annex_event_def)

text \<open>Every primitive of the upper layer that belongs to a procedure without state is sent to
  the peer as one message with the block of the primitive, unchanged.\<close>

theorem annex_primitive_forwarded:
  assumes "(ev, n) \<in> set EventNoTblForPri" and "annex_event ev"
  shows "\<exists>type1 type2. Dispatch ev p sup1 sup2 enc s
      = Inr (performs [MessageSend \<lparr> Type1 = type1, Type2 = type2, pData = p \<rparr>] s)"
  using row_in_filter [where P = annex_event, OF assms] unfolding annex_primitive_rows
  by (simp only: list.set insert_iff empty_iff, elim disjE)
     (simp_all add: annex_handlers annex_MsgSend_def del: performs_simps, (intro exI, rule refl)+)

lemma annex_primitive_forwarded_witness:
  "\<exists>type1 type2. Dispatch (EVENT_IDC EVENT_PTV_IDC_UI) None 0 0 None (new_SE (\<lambda>_. 1) 1)
      = Inr (performs [MessageSend \<lparr> Type1 = type1, Type2 = type2, pData = None \<rparr>] (new_SE (\<lambda>_. 1) 1))"
  by (rule annex_primitive_forwarded [where n = E_PtvId_Idc_Ui]) (simp_all add: event_tables annex_event_def)

text \<open>C16. A FlowControlIndication of the peer is sent back to the peer and never reaches the H.245
  object: the two handlers of this indication are exchanged.\<close>

theorem flow_control_indication_echoed:
  "MessageRecv H245_MSG_IDC MSGTYP_IDC_FC p enc s
   = Inr (performs [MessageSend \<lparr> Type1 = H245_MSG_IDC, Type2 = MSGTYP_IDC_FC, pData = p \<rparr>] s)"
  by (simp add: MessageRecv_def TablePointerGetLowerLayer_def EventNoTblForIdcMsg_def annex_handlers
      annex_MsgSend_def)

end
